(* ===== verification/Prelude.thy ===== *)
theory Prelude
  imports Main "HOL-Library.AList" "HOL-Library.List_Lexorder" "HOL-Library.Char_ord"
begin

text \<open>
  What every component of the model shares:
  Python strings, JSON values and dictionaries, and programs that read and write a state
  and may raise.

  \<^item> A Python \<open>str\<close> is a HOL \<open>string\<close> holding its UTF-8 encoding, so that
    \<open>s.encode("utf-8")\<close> is \<open>s\<close> itself, a literal is written as it stands, and
    \<open>+\<close>, \<open>==\<close>, \<open>startswith\<close> and \<open>endswith\<close> are the list operations.
    Where the code counts code points (\<open>len\<close>) the model uses \<open>py_len\<close>.
  \<^item> A \<open>dict\<close> is an association list in insertion order, read by \<open>map_of\<close>, written
    by \<open>AList.update\<close> (which keeps the position of an existing key, as Python does).
  \<^item> A program is a function from a state to a result, the exception raised or the value
    returned, and the state it leaves: an exception keeps the writes made before it, and
    whoever catches it decides about a rollback.
\<close>

section \<open>Collections of facts\<close>

named_theorems prog_simps "unfolding of the program combinators"
named_theorems guar_intros "what a primitive operation guarantees between its two states"

section \<open>Python strings\<close>

definition is_cont_byte :: "char \<Rightarrow> bool" where
  "is_cont_byte c \<longleftrightarrow> 128 \<le> (of_char c :: nat) \<and> (of_char c :: nat) < 192"

definition py_len :: "string \<Rightarrow> nat" where
  "py_len s = length (filter (\<lambda>c. \<not> is_cont_byte c) s)"

text \<open>Python's \<open>a or b\<close> on optional strings, and an f-string showing one.\<close>

definition str_or :: "string option \<Rightarrow> string \<Rightarrow> string" where
  "str_or s d = (case s of None \<Rightarrow> d | Some x \<Rightarrow> if x = [] then d else x)"

definition str_set :: "string option \<Rightarrow> bool" where
  "str_set s \<longleftrightarrow> str_or s [] \<noteq> []"

definition show_opt :: "string option \<Rightarrow> string" where
  "show_opt s = (case s of None \<Rightarrow> ''None'' | Some x \<Rightarrow> x)"

text \<open>The slice \<open>s[:n]\<close>: the first \<open>n\<close> code points.\<close>

fun py_take :: "nat \<Rightarrow> string \<Rightarrow> string" where
  "py_take n [] = []"
| "py_take n (c # cs) =
     (if is_cont_byte c then c # py_take n cs
      else case n of 0 \<Rightarrow> [] | Suc m \<Rightarrow> c # py_take m cs)"

definition startswith :: "string \<Rightarrow> string \<Rightarrow> bool" where
  "startswith s p \<longleftrightarrow> take (length p) s = p"

definition endswith :: "string \<Rightarrow> string \<Rightarrow> bool" where
  "endswith s p \<longleftrightarrow> length p \<le> length s \<and> drop (length s - length p) s = p"

fun contains_sub :: "string \<Rightarrow> string \<Rightarrow> bool" where
  "contains_sub [] p \<longleftrightarrow> p = []"
| "contains_sub (c # s) p \<longleftrightarrow> startswith (c # s) p \<or> contains_sub s p"

definition is_space :: "char \<Rightarrow> bool" where
  "is_space c \<longleftrightarrow> (of_char c :: nat) \<in> {9, 10, 11, 12, 13, 28, 29, 30, 31, 32}"

definition lstrip :: "string \<Rightarrow> string" where
  "lstrip s = dropWhile is_space s"

definition rstrip_of :: "(char \<Rightarrow> bool) \<Rightarrow> string \<Rightarrow> string" where
  "rstrip_of p s = rev (dropWhile p (rev s))"

definition strip :: "string \<Rightarrow> string" where
  "strip s = rstrip_of is_space (lstrip s)"

definition lower_char :: "char \<Rightarrow> char" where
  "lower_char c = (if 65 \<le> (of_char c :: nat) \<and> (of_char c :: nat) \<le> 90
                   then char_of ((of_char c :: nat) + 32) else c)"

definition upper_char :: "char \<Rightarrow> char" where
  "upper_char c = (if 97 \<le> (of_char c :: nat) \<and> (of_char c :: nat) \<le> 122
                   then char_of ((of_char c :: nat) - 32) else c)"

definition lower :: "string \<Rightarrow> string" where
  "lower s = List.map lower_char s"

definition upper :: "string \<Rightarrow> string" where
  "upper s = List.map upper_char s"

fun show_digits :: "nat \<Rightarrow> string" where
  "show_digits n = (if n < 10 then [char_of (48 + n)]
                    else show_digits (n div 10) @ [char_of (48 + n mod 10)])"

declare show_digits.simps [simp del]

definition show_int :: "int \<Rightarrow> string" where
  "show_int i = (if i < 0 then CHR ''-'' # show_digits (nat (- i)) else show_digits (nat i))"

lemma startswith_append [simp]: "startswith (p @ s) p"
  by (simp add: startswith_def)

lemma startswith_iff: "startswith s p \<longleftrightarrow> (\<exists>t. s = p @ t)"
  unfolding startswith_def by (metis append_eq_conv_conj append_take_drop_id)

lemma startswith_Nil [simp]: "startswith s []"
  by (simp add: startswith_def)

section \<open>JSON values\<close>

text \<open>
  A JSON value as Python holds it after decoding; a float is kept by its \<open>repr\<close> text,
  which is all the code ever does with one (copy, print, test for zero).
\<close>

datatype json =
    JNull
  | JBool bool
  | JInt int
  | JFloat string
  | JStr string
  | JList "json list"
  | JObj "(string \<times> json) list"

lemma size_json_dict [termination_simp]:
  "kv \<in> set kvs \<Longrightarrow> size (snd kv) < Suc (size_list (size_prod size size) (kvs :: (string \<times> json) list))"
  by (induction kvs) auto

lemma size_json_dict_pair [termination_simp]:
  "(k, v) \<in> set kvs \<Longrightarrow> size v < Suc (size_list (size_prod size size) (kvs :: (string \<times> json) list))"
  using size_json_dict [of "(k, v)" kvs] by simp

type_synonym dict = "(string \<times> json) list"

definition dget :: "dict \<Rightarrow> string \<Rightarrow> json" where
  "dget d k = (case map_of d k of None \<Rightarrow> JNull | Some v \<Rightarrow> v)"

definition jget :: "json \<Rightarrow> string \<Rightarrow> json" where
  "jget j k = (case j of JObj d \<Rightarrow> dget d k | _ \<Rightarrow> JNull)"

definition has_key :: "dict \<Rightarrow> string \<Rightarrow> bool" where
  "has_key d k \<longleftrightarrow> map_of d k \<noteq> None"

fun dict_update :: "dict \<Rightarrow> dict \<Rightarrow> dict" where
  "dict_update d [] = d"
| "dict_update d ((k, v) # kvs) = dict_update (AList.update k v d) kvs"

fun truthy :: "json \<Rightarrow> bool" where
  "truthy JNull = False"
| "truthy (JBool b) = b"
| "truthy (JInt i) = (i \<noteq> 0)"
| "truthy (JFloat r) = (r \<notin> {''0.0'', ''-0.0''})"
| "truthy (JStr s) = (s \<noteq> [])"
| "truthy (JList xs) = (xs \<noteq> [])"
| "truthy (JObj d) = (d \<noteq> [])"

text \<open>Python's \<open>a or b\<close> on values.\<close>

definition or_else :: "json \<Rightarrow> json \<Rightarrow> json" where
  "or_else a b = (if truthy a then a else b)"

fun is_dict :: "json \<Rightarrow> bool" where
  "is_dict (JObj _) = True"
| "is_dict _ = False"

fun is_list :: "json \<Rightarrow> bool" where
  "is_list (JList _) = True"
| "is_list _ = False"

fun is_str :: "json \<Rightarrow> bool" where
  "is_str (JStr _) = True"
| "is_str _ = False"

fun dict_of :: "json \<Rightarrow> dict" where
  "dict_of (JObj d) = d"
| "dict_of _ = []"

fun list_of :: "json \<Rightarrow> json list" where
  "list_of (JList xs) = xs"
| "list_of _ = []"

fun str_val :: "json \<Rightarrow> string" where
  "str_val (JStr s) = s"
| "str_val _ = []"

definition nonempty_str :: "json \<Rightarrow> bool" where
  "nonempty_str j \<longleftrightarrow> is_str j \<and> str_val j \<noteq> []"

definition jopt :: "string option \<Rightarrow> json" where
  "jopt o' = (case o' of None \<Rightarrow> JNull | Some s \<Rightarrow> JStr s)"

text \<open>
  \<open>str(v)\<close>. Containers print as their \<open>repr\<close>, with strings quoted; every code point
  beyond ASCII counts as printable.
\<close>

definition hex_digit :: "nat \<Rightarrow> char" where
  "hex_digit n = (if n < 10 then char_of (48 + n) else char_of (87 + n))"

definition repr_char :: "char \<Rightarrow> char \<Rightarrow> string" where
  "repr_char q c =
     (let n = (of_char c :: nat) in
      if c = q \<or> n = 92 then [char_of (92 :: nat), c]
      else if n = 9 then [char_of (92 :: nat), CHR ''t'']
      else if n = 10 then [char_of (92 :: nat), CHR ''n'']
      else if n = 13 then [char_of (92 :: nat), CHR ''r'']
      else if n < 32 \<or> n = 127 then
        [char_of (92 :: nat), CHR ''x'', hex_digit (n div 16), hex_digit (n mod 16)]
      else [c])"

definition repr_str :: "string \<Rightarrow> string" where
  "repr_str s =
     (let q = (if char_of (39 :: nat) \<in> set s \<and> char_of (34 :: nat) \<notin> set s
               then char_of (34 :: nat) else char_of (39 :: nat))
      in q # concat (List.map (repr_char q) s) @ [q])"

fun joined :: "string \<Rightarrow> string list \<Rightarrow> string" where
  "joined sep [] = []"
| "joined sep [x] = x"
| "joined sep (x # y # xs) = x @ sep @ joined sep (y # xs)"

fun py_repr :: "json \<Rightarrow> string" where
  "py_repr JNull = ''None''"
| "py_repr (JBool b) = (if b then ''True'' else ''False'')"
| "py_repr (JInt i) = show_int i"
| "py_repr (JFloat r) = r"
| "py_repr (JStr s) = repr_str s"
| "py_repr (JList xs) = ''['' @ joined '', '' (List.map py_repr xs) @ '']''"
| "py_repr (JObj d) =
     ''{'' @ joined '', '' (List.map (\<lambda>kv. repr_str (fst kv) @ '': '' @ py_repr (snd kv)) d) @ ''}''"

fun py_str :: "json \<Rightarrow> string" where
  "py_str (JStr s) = s"
| "py_str j = py_repr j"

text \<open>
  \<open>int(v)\<close>: a decimal string with an optional sign is accepted (underscores left out), a float is
  cut off at its point (one printed with an exponent is not handled).
\<close>

definition is_digit :: "char \<Rightarrow> bool" where
  "is_digit c \<longleftrightarrow> 48 \<le> (of_char c :: nat) \<and> (of_char c :: nat) \<le> 57"

fun digits_value :: "string \<Rightarrow> nat \<Rightarrow> nat option" where
  "digits_value [] n = Some n"
| "digits_value (c # cs) n =
     (if is_digit c then digits_value cs (10 * n + (of_char c - 48)) else None)"

definition parse_int :: "string \<Rightarrow> int option" where
  "parse_int s =
     (case strip s of
        [] \<Rightarrow> None
      | c # cs \<Rightarrow>
          if c = CHR ''-'' then (if cs = [] then None else map_option (\<lambda>n. - int n) (digits_value cs 0))
          else if c = CHR ''+'' then (if cs = [] then None else map_option int (digits_value cs 0))
          else map_option int (digits_value (c # cs) 0))"

lemma dget_update [simp]: "dget (AList.update k v d) k' = (if k = k' then v else dget d k')"
  by (simp add: dget_def update_conv')

lemma dget_Nil [simp]: "dget [] k = JNull"
  by (simp add: dget_def)

lemma dget_Cons [simp]: "dget ((k, v) # d) k' = (if k = k' then v else dget d k')"
  by (simp add: dget_def)

lemma has_key_Nil [simp]: "\<not> has_key [] k"
  by (simp add: has_key_def)

lemma has_key_Cons [simp]: "has_key ((k, v) # d) k' \<longleftrightarrow> k = k' \<or> has_key d k'"
  by (simp add: has_key_def)

lemma dget_append: "dget (d @ d') k = (if has_key d k then dget d k else dget d' k)"
  by (induction d) auto

lemma has_key_append [simp]: "has_key (d @ d') k \<longleftrightarrow> has_key d k \<or> has_key d' k"
  by (induction d) auto

lemma has_key_update [simp]: "has_key (AList.update k v d) k' \<longleftrightarrow> k = k' \<or> has_key d k'"
  by (simp add: has_key_def update_conv')

lemma has_key_delete [simp]: "has_key (AList.delete k d) k' \<longleftrightarrow> k \<noteq> k' \<and> has_key d k'"
  by (simp add: has_key_def delete_conv')

lemma jget_obj [simp]: "jget (JObj d) k = dget d k"
  by (simp add: jget_def)

lemma map_of_dict_update:
  "map_of (dict_update d kvs) k = (case map_of (rev kvs) k of None \<Rightarrow> map_of d k | Some v \<Rightarrow> Some v)"
proof (induction d kvs rule: dict_update.induct)
  case (1 d)
  then show ?case by simp
next
  case (2 d k' v kvs)
  then show ?case
    by (auto simp: update_conv' map_add_def split: option.splits)
qed

lemma distinct_dict_update: "distinct (List.map fst d) \<Longrightarrow> distinct (List.map fst (dict_update d kvs))"
  by (induction d kvs rule: dict_update.induct) (auto simp: distinct_update)

section \<open>Programs with a state and exceptions\<close>

datatype exn =
    ValueError string
  | RuntimeError string
  | DbError string
  | StorageError string
  | CancelledError
  | ContextRevalidationError string
  | HTTPException nat string
  | HttpStatusError int
  | NetworkError string
  | OtherError string

text \<open>
  \<open>NetworkError\<close> stands for the timeouts, network failures and \<open>OSError\<close>s of an HTTP call,
  \<open>OtherError\<close> for every Python exception the code does not name. \<open>exn_text\<close> is \<open>str(exc)\<close>.
\<close>

fun exn_text :: "exn \<Rightarrow> string" where
  "exn_text (ValueError m) = m"
| "exn_text (RuntimeError m) = m"
| "exn_text (DbError m) = m"
| "exn_text (StorageError m) = m"
| "exn_text CancelledError = []"
| "exn_text (ContextRevalidationError m) = m"
| "exn_text (HTTPException n m) = show_int (int n) @ '': '' @ m"
| "exn_text (HttpStatusError n) = show_int n"
| "exn_text (NetworkError m) = m"
| "exn_text (OtherError m) = m"

fun py_int :: "json \<Rightarrow> exn + int" where
  "py_int (JInt i) = Inr i"
| "py_int (JBool b) = Inr (if b then 1 else 0)"
| "py_int (JStr s) = (case parse_int s of Some i \<Rightarrow> Inr i | None \<Rightarrow> Inl (ValueError ''invalid literal for int()''))"
| "py_int (JFloat r) =
     (case parse_int (takeWhile (\<lambda>c. c \<noteq> CHR ''.'') r) of Some i \<Rightarrow> Inr i | None \<Rightarrow> Inl (OtherError ''cannot convert float''))"
| "py_int _ = Inl (OtherError ''int() argument must be a string or a number'')"

text \<open>\<open>x.get(key)\<close> of a value that may be no dict.\<close>

definition get_attr :: "json \<Rightarrow> string \<Rightarrow> exn + json" where
  "get_attr j k =
     (case j of JObj d \<Rightarrow> Inr (dget d k) | _ \<Rightarrow> Inl (OtherError ''object has no attribute get''))"

type_synonym ('s, 'a) prog = "'s \<Rightarrow> (exn + 'a) \<times> 's"

definition returnE :: "'a \<Rightarrow> ('s, 'a) prog" where
  [prog_simps]: "returnE a = (\<lambda>s. (Inr a, s))"

definition raiseE :: "exn \<Rightarrow> ('s, 'a) prog" where
  [prog_simps]: "raiseE e = (\<lambda>s. (Inl e, s))"

definition bindE :: "('s, 'a) prog \<Rightarrow> ('a \<Rightarrow> ('s, 'b) prog) \<Rightarrow> ('s, 'b) prog" where
  [prog_simps]: "bindE m f = (\<lambda>s. case m s of (r, s') \<Rightarrow>
     (case r of Inl e \<Rightarrow> (Inl e, s') | Inr a \<Rightarrow> f a s'))"

definition thenE :: "('s, 'a) prog \<Rightarrow> ('s, 'b) prog \<Rightarrow> ('s, 'b) prog" where
  [prog_simps]: "thenE m n = bindE m (\<lambda>_. n)"

definition getsE :: "('s \<Rightarrow> 'a) \<Rightarrow> ('s, 'a) prog" where
  [prog_simps]: "getsE f = (\<lambda>s. (Inr (f s), s))"

definition modifyE :: "('s \<Rightarrow> 's) \<Rightarrow> ('s, unit) prog" where
  [prog_simps]: "modifyE f = (\<lambda>s. (Inr (), f s))"

definition whenE :: "bool \<Rightarrow> ('s, unit) prog \<Rightarrow> ('s, unit) prog" where
  [prog_simps]: "whenE b m = (if b then m else returnE ())"

definition catchE :: "('s, 'a) prog \<Rightarrow> (exn \<Rightarrow> ('s, 'a) prog) \<Rightarrow> ('s, 'a) prog" where
  [prog_simps]: "catchE m h = (\<lambda>s. case m s of (r, s') \<Rightarrow>
     (case r of Inl e \<Rightarrow> h e s' | Inr a \<Rightarrow> (Inr a, s')))"

definition liftE :: "exn + 'a \<Rightarrow> ('s, 'a) prog" where
  [prog_simps]: "liftE r = (\<lambda>s. (r, s))"

fun forE :: "'b list \<Rightarrow> ('b \<Rightarrow> ('s, unit) prog) \<Rightarrow> ('s, unit) prog" where
  "forE [] f = returnE ()"
| "forE (x # xs) f = thenE (f x) (forE xs f)"

fun mapE :: "'b list \<Rightarrow> ('b \<Rightarrow> ('s, 'a) prog) \<Rightarrow> ('s, 'a list) prog" where
  "mapE [] f = returnE []"
| "mapE (x # xs) f = bindE (f x) (\<lambda>y. bindE (mapE xs f) (\<lambda>ys. returnE (y # ys)))"

section \<open>Guarantees: what a program may do to the state\<close>

text \<open>
  \<open>guar R m\<close> says that \<open>m\<close>, whether it returns or raises, only makes state changes
  that \<open>R\<close> relates. For a reflexive and transitive \<open>R\<close> the guarantee composes along
  the program text, so each property of this kind is proved once per primitive.
\<close>

definition guar :: "('s \<Rightarrow> 's \<Rightarrow> bool) \<Rightarrow> ('s, 'a) prog \<Rightarrow> bool" where
  "guar R m \<longleftrightarrow> (\<forall>s. R s (snd (m s)))"

lemma guarD: "guar R m \<Longrightarrow> R s (snd (m s))"
  by (simp add: guar_def)

lemma guar_result: "guar R m \<Longrightarrow> m s = (r, t) \<Longrightarrow> R s t"
  by (metis guarD snd_conv)

locale guarantee =
  fixes R :: "'s \<Rightarrow> 's \<Rightarrow> bool"
  assumes R_refl: "R s s"
    and R_trans: "R s t \<Longrightarrow> R t u \<Longrightarrow> R s u"
begin

lemma guar_return: "guar R (returnE a)"
  by (simp add: guar_def returnE_def R_refl)

lemma guar_raise: "guar R (raiseE e)"
  by (simp add: guar_def raiseE_def R_refl)

lemma guar_gets: "guar R (getsE f)"
  by (simp add: guar_def getsE_def R_refl)

lemma guar_lift: "guar R (liftE r)"
  by (simp add: guar_def liftE_def R_refl)

lemma guar_bind:
  assumes "guar R m" and "\<And>a. guar R (f a)"
  shows "guar R (bindE m f)"
  unfolding guar_def
proof
  fix s
  have ms: "R s (snd (m s))" by (rule guarD [OF assms(1)])
  show "R s (snd (bindE m f s))"
  proof (cases "m s")
    case (Pair r s')
    show ?thesis
    proof (cases r)
      case (Inl e)
      then show ?thesis using Pair ms by (simp add: bindE_def)
    next
      case (Inr a)
      have "R s' (snd (f a s'))" by (rule guarD [OF assms(2)])
      then show ?thesis using Pair Inr ms R_trans by (simp add: bindE_def)
    qed
  qed
qed

lemma guar_then: "guar R m \<Longrightarrow> guar R n \<Longrightarrow> guar R (thenE m n)"
  by (simp add: thenE_def guar_bind)

lemma guar_when: "guar R m \<Longrightarrow> guar R (whenE b m)"
  by (simp add: whenE_def guar_return)

lemma guar_catch:
  assumes "guar R m" and "\<And>e. guar R (h e)"
  shows "guar R (catchE m h)"
  unfolding guar_def
proof
  fix s
  have ms: "R s (snd (m s))" by (rule guarD [OF assms(1)])
  show "R s (snd (catchE m h s))"
  proof (cases "m s")
    case (Pair r s')
    show ?thesis
    proof (cases r)
      case (Inr a)
      then show ?thesis using Pair ms by (simp add: catchE_def)
    next
      case (Inl e)
      have "R s' (snd (h e s'))" by (rule guarD [OF assms(2)])
      then show ?thesis using Pair Inl ms R_trans by (simp add: catchE_def)
    qed
  qed
qed

lemma guar_for: "(\<And>x. x \<in> set xs \<Longrightarrow> guar R (f x)) \<Longrightarrow> guar R (forE xs f)"
  by (induction xs) (auto intro: guar_return guar_then)

lemma guar_mapE: "(\<And>x. x \<in> set xs \<Longrightarrow> guar R (f x)) \<Longrightarrow> guar R (mapE xs f)"
  by (induction xs) (auto intro: guar_return guar_bind)

lemma guar_if: "(b \<Longrightarrow> guar R m) \<Longrightarrow> (\<not> b \<Longrightarrow> guar R n) \<Longrightarrow> guar R (if b then m else n)"
  by simp

lemma guar_option:
  "(x = None \<Longrightarrow> guar R m) \<Longrightarrow> (\<And>a. x = Some a \<Longrightarrow> guar R (f a)) \<Longrightarrow>
   guar R (case x of None \<Rightarrow> m | Some a \<Rightarrow> f a)"
  by (cases x) auto

lemma guar_sum:
  "(\<And>a. x = Inl a \<Longrightarrow> guar R (f a)) \<Longrightarrow> (\<And>b. x = Inr b \<Longrightarrow> guar R (g b)) \<Longrightarrow>
   guar R (case x of Inl a \<Rightarrow> f a | Inr b \<Rightarrow> g b)"
  by (cases x) auto

lemma guar_prod: "(\<And>a b. x = (a, b) \<Longrightarrow> guar R (f a b)) \<Longrightarrow> guar R (case x of (a, b) \<Rightarrow> f a b)"
  by (cases x) auto

lemma guar_list:
  "(x = [] \<Longrightarrow> guar R m) \<Longrightarrow> (\<And>a as. x = a # as \<Longrightarrow> guar R (f a as)) \<Longrightarrow>
   guar R (case x of [] \<Rightarrow> m | a # as \<Rightarrow> f a as)"
  by (cases x) auto

lemma guar_let: "(\<And>a. a = x \<Longrightarrow> guar R (f a)) \<Longrightarrow> guar R (let a = x in f a)"
  by (simp add: Let_def)

lemma guar_modify: "(\<And>s. R s (f s)) \<Longrightarrow> guar R (modifyE f)"
  by (simp add: guar_def modifyE_def)

lemmas guar_rules = guar_return guar_raise guar_gets guar_lift guar_bind guar_then guar_when
  guar_catch guar_for guar_mapE guar_if guar_option guar_sum guar_prod guar_list guar_let

end

section \<open>What a program returns\<close>

lemma bindE_Inr:
  assumes "bindE m f s = (Inr b, t)"
  obtains a u where "m s = (Inr a, u)" and "f a u = (Inr b, t)"
  using assms by (auto simp: bindE_def split: prod.splits sum.splits)

lemma thenE_Inr:
  assumes "thenE m n s = (Inr b, t)"
  obtains a u where "m s = (Inr a, u)" and "n u = (Inr b, t)"
  using assms by (auto simp: thenE_def elim: bindE_Inr)

lemma bindE_run: "m s = (Inr a, u) \<Longrightarrow> bindE m f s = f a u"
  by (simp add: bindE_def)

lemma bindE_raise: "m s = (Inl e, u) \<Longrightarrow> bindE m f s = (Inl e, u)"
  by (simp add: bindE_def)

lemma thenE_run: "m s = (Inr a, u) \<Longrightarrow> thenE m n s = n u"
  by (simp add: thenE_def bindE_def)

lemma returnE_run [simp]: "returnE a s = (Inr a, s)"
  by (simp add: returnE_def)

lemma raiseE_run [simp]: "raiseE e s = (Inl e, s)"
  by (simp add: raiseE_def)

lemma getsE_run [simp]: "getsE f s = (Inr (f s), s)"
  by (simp add: getsE_def)

lemma liftE_run [simp]: "liftE r s = (r, s)"
  by (simp add: liftE_def)

lemma modifyE_run [simp]: "modifyE f s = (Inr (), f s)"
  by (simp add: modifyE_def)

lemma bindE_lift [simp]: "bindE (liftE (Inr a)) f s = f a s"
  by (simp add: bindE_def)

definition yields :: "('a \<Rightarrow> bool) \<Rightarrow> ('s, 'a) prog \<Rightarrow> bool" where
  "yields Q m \<longleftrightarrow> (\<forall>s a t. m s = (Inr a, t) \<longrightarrow> Q a)"

lemma yieldsD: "yields Q m \<Longrightarrow> m s = (Inr a, t) \<Longrightarrow> Q a"
  by (auto simp: yields_def)

lemma yieldsI: "(\<And>s a t. m s = (Inr a, t) \<Longrightarrow> Q a) \<Longrightarrow> yields Q m"
  by (auto simp: yields_def)

lemma yields_bindQ:
  assumes m: "yields P m" and f: "\<And>a. P a \<Longrightarrow> yields Q (f a)"
  shows "yields Q (bindE m f)"
proof (rule yieldsI)
  fix s b t assume "bindE m f s = (Inr b, t)"
  then obtain a u where "m s = (Inr a, u)" "f a u = (Inr b, t)" by (rule bindE_Inr)
  then show "Q b" using yieldsD [OF m] yieldsD [OF f] by blast
qed

lemma yields_return: "Q a \<Longrightarrow> yields Q (returnE a)"
  by (simp add: yields_def returnE_def)

lemma yields_raise: "yields Q (raiseE e)"
  by (simp add: yields_def raiseE_def)

lemma yields_bind: "(\<And>a. yields Q (f a)) \<Longrightarrow> yields Q (bindE m f)"
  unfolding yields_def bindE_def by (auto split: prod.splits sum.splits)

lemma yields_then: "yields Q n \<Longrightarrow> yields Q (thenE m n)"
  by (simp add: thenE_def yields_bind)

lemma yields_if: "(b \<Longrightarrow> yields Q m) \<Longrightarrow> (\<not> b \<Longrightarrow> yields Q n) \<Longrightarrow> yields Q (if b then m else n)"
  by simp

lemma yields_option:
  "(x = None \<Longrightarrow> yields Q m) \<Longrightarrow> (\<And>a. x = Some a \<Longrightarrow> yields Q (f a)) \<Longrightarrow>
   yields Q (case x of None \<Rightarrow> m | Some a \<Rightarrow> f a)"
  by (cases x) auto

lemma yields_prod: "(\<And>a b. x = (a, b) \<Longrightarrow> yields Q (f a b)) \<Longrightarrow> yields Q (case x of (a, b) \<Rightarrow> f a b)"
  by (cases x) auto

lemma yields_let: "(\<And>a. a = x \<Longrightarrow> yields Q (f a)) \<Longrightarrow> yields Q (let a = x in f a)"
  by (simp add: Let_def)

lemma yields_catch: "yields Q m \<Longrightarrow> (\<And>e. yields Q (h e)) \<Longrightarrow> yields Q (catchE m h)"
  unfolding yields_def catchE_def by (auto split: prod.splits sum.splits)

lemmas yields_rules = yields_return yields_raise yields_bind yields_then yields_if yields_option
  yields_prod yields_let yields_catch

text \<open>A continuation may rely on what the program before it returns.\<close>

context guarantee
begin

lemma guar_bindQ:
  assumes m: "guar R m" and q: "yields Q m" and f: "\<And>a. Q a \<Longrightarrow> guar R (f a)"
  shows "guar R (bindE m f)"
  unfolding guar_def
proof
  fix s
  obtain r u where mr: "m s = (r, u)" by fastforce
  have su: "R s u" by (rule guar_result [OF m mr])
  show "R s (snd (bindE m f s))"
  proof (cases r)
    case (Inl e)
    then show ?thesis using mr su by (simp add: bindE_def)
  next
    case (Inr a)
    then show ?thesis using mr su guarD [OF f [OF yieldsD [OF q]], of s a u] R_trans by (auto simp: bindE_def)
  qed
qed

end

text \<open>A program that always returns.\<close>

definition total :: "('s, 'a) prog \<Rightarrow> bool" where
  "total m \<longleftrightarrow> (\<forall>s. \<exists>a t. m s = (Inr a, t))"

lemma totalD: "total m \<Longrightarrow> \<exists>a t. m s = (Inr a, t)"
  by (simp add: total_def)

lemma total_return: "total (returnE a)"
  by (simp add: total_def)

lemma total_gets: "total (getsE f)"
  by (simp add: total_def)

lemma total_modify: "total (modifyE f)"
  by (simp add: total_def)

lemma total_lift: "r = Inr a \<Longrightarrow> total (liftE r)"
  by (simp add: total_def)

lemma total_bind: "total m \<Longrightarrow> (\<And>a. total (f a)) \<Longrightarrow> total (bindE m f)"
  unfolding total_def bindE_def by (metis (no_types, lifting) old.sum.simps(6) split_conv)

lemma total_then: "total m \<Longrightarrow> total n \<Longrightarrow> total (thenE m n)"
  by (simp add: thenE_def total_bind)

lemma total_when: "total m \<Longrightarrow> total (whenE b m)"
  by (simp add: whenE_def total_return)

lemma total_catch: "(\<And>e. total (h e)) \<Longrightarrow> total (catchE m h)"
  unfolding total_def catchE_def by (auto split: prod.split sum.split)

lemma total_if: "(b \<Longrightarrow> total m) \<Longrightarrow> (\<not> b \<Longrightarrow> total n) \<Longrightarrow> total (if b then m else n)"
  by simp

lemma total_option:
  "(x = None \<Longrightarrow> total m) \<Longrightarrow> (\<And>a. x = Some a \<Longrightarrow> total (f a)) \<Longrightarrow>
   total (case x of None \<Rightarrow> m | Some a \<Rightarrow> f a)"
  by (cases x) auto

lemma total_list:
  "(x = [] \<Longrightarrow> total m) \<Longrightarrow> (\<And>a as. x = a # as \<Longrightarrow> total (f a as)) \<Longrightarrow>
   total (case x of [] \<Rightarrow> m | a # as \<Rightarrow> f a as)"
  by (cases x) auto

lemma total_prod: "(\<And>a b. x = (a, b) \<Longrightarrow> total (f a b)) \<Longrightarrow> total (case x of (a, b) \<Rightarrow> f a b)"
  by (cases x) auto

lemma total_let: "(\<And>a. a = x \<Longrightarrow> total (f a)) \<Longrightarrow> total (let a = x in f a)"
  by (simp add: Let_def)

lemma total_for: "(\<And>x. x \<in> set xs \<Longrightarrow> total (f x)) \<Longrightarrow> total (forE xs f)"
  by (induction xs) (auto intro: total_return total_then)

lemmas total_rules = total_return total_gets total_modify total_bind total_then total_when total_if
  total_option total_list total_prod total_let total_for

end
