(* ===== verification/Utf8.thy ===== *)
theory Utf8
  imports Prelude
begin

text \<open>
  UTF-8 well-formedness as CPython's decoder has it, and \<open>split_utf8_by_bytes\<close> of
  \<open>services/assistant_delta_coalescer.py\<close>: cutting a text into pieces of at most
  \<open>max_bytes\<close> bytes on code point boundaries. The lemmas say that the pieces are well
  formed, non-empty, within the bound, nearly full, and concatenate to the text.
\<close>

section \<open>Well-formed UTF-8\<close>

abbreviation byte :: "char \<Rightarrow> nat" where
  "byte c \<equiv> of_char c"

text \<open>The number of bytes of the code point a byte string starts with; 0 if it starts with none.\<close>

definition wf2 :: "nat \<Rightarrow> nat \<Rightarrow> bool" where
  "wf2 a b \<longleftrightarrow> 194 \<le> a \<and> a \<le> 223 \<and> 128 \<le> b \<and> b \<le> 191"

definition wf3 :: "nat \<Rightarrow> nat \<Rightarrow> nat \<Rightarrow> bool" where
  "wf3 a b c \<longleftrightarrow> 224 \<le> a \<and> a \<le> 239 \<and> (if a = 224 then 160 else 128) \<le> b
     \<and> b \<le> (if a = 237 then 159 else 191) \<and> 128 \<le> c \<and> c \<le> 191"

definition wf4 :: "nat \<Rightarrow> nat \<Rightarrow> nat \<Rightarrow> nat \<Rightarrow> bool" where
  "wf4 a b c d \<longleftrightarrow> 240 \<le> a \<and> a \<le> 244 \<and> (if a = 240 then 144 else 128) \<le> b
     \<and> b \<le> (if a = 244 then 143 else 191) \<and> 128 \<le> c \<and> c \<le> 191 \<and> 128 \<le> d \<and> d \<le> 191"

definition lead1 :: "string \<Rightarrow> bool" where
  "lead1 s \<longleftrightarrow> 1 \<le> length s \<and> byte (s ! 0) < 128"

definition lead2 :: "string \<Rightarrow> bool" where
  "lead2 s \<longleftrightarrow> 2 \<le> length s \<and> wf2 (byte (s ! 0)) (byte (s ! 1))"

definition lead3 :: "string \<Rightarrow> bool" where
  "lead3 s \<longleftrightarrow> 3 \<le> length s \<and> wf3 (byte (s ! 0)) (byte (s ! 1)) (byte (s ! 2))"

definition lead4 :: "string \<Rightarrow> bool" where
  "lead4 s \<longleftrightarrow> 4 \<le> length s \<and> wf4 (byte (s ! 0)) (byte (s ! 1)) (byte (s ! 2)) (byte (s ! 3))"

definition utf8_width :: "string \<Rightarrow> nat" where
  "utf8_width s =
     (if lead1 s then 1 else if lead2 s then 2 else if lead3 s then 3 else if lead4 s then 4 else 0)"

lemma lead_length:
  "lead1 s \<Longrightarrow> 1 \<le> length s" "lead2 s \<Longrightarrow> 2 \<le> length s"
  "lead3 s \<Longrightarrow> 3 \<le> length s" "lead4 s \<Longrightarrow> 4 \<le> length s"
  by (simp_all add: lead1_def lead2_def lead3_def lead4_def)

lemma nth_append_0: "Suc 0 \<le> length s \<Longrightarrow> (s @ t) ! 0 = s ! 0"
  by (cases s) auto

lemma lead_append:
  "1 \<le> length s \<Longrightarrow> lead1 (s @ t) \<longleftrightarrow> lead1 s" "2 \<le> length s \<Longrightarrow> lead2 (s @ t) \<longleftrightarrow> lead2 s"
  "3 \<le> length s \<Longrightarrow> lead3 (s @ t) \<longleftrightarrow> lead3 s" "4 \<le> length s \<Longrightarrow> lead4 (s @ t) \<longleftrightarrow> lead4 s"
  by (simp_all add: lead1_def lead2_def lead3_def lead4_def nth_append_left nth_append_0)

lemma utf8_width_Nil [simp]: "utf8_width [] = 0"
  by (simp add: utf8_width_def lead1_def lead2_def lead3_def lead4_def)

lemma utf8_width_le4: "utf8_width s \<le> 4"
  by (simp add: utf8_width_def)

lemma utf8_width_le_length: "utf8_width s \<le> length s"
  using lead_length [of s] by (simp add: utf8_width_def)

text \<open>The width is decided by the bytes of the code point alone.\<close>

lemma utf8_width_append: "0 < utf8_width s \<Longrightarrow> utf8_width (s @ t) = utf8_width s"
  using lead_length [of s] lead_append [of s t] by (simp add: utf8_width_def split: if_splits)

lemma utf8_width_take:
  assumes "utf8_width s \<le> k" shows "utf8_width (take k s) = utf8_width s"
proof (cases "k < length s")
  case True
  have "\<not> lead1 (take k s)" if "\<not> lead1 s"
    using that True by (auto simp: lead1_def)
  moreover have "\<not> lead2 (take k s)" if "\<not> lead2 s"
    using that True by (auto simp: lead2_def)
  moreover have "\<not> lead3 (take k s)" if "\<not> lead3 s"
    using that True by (auto simp: lead3_def)
  moreover have "\<not> lead4 (take k s)" if "\<not> lead4 s"
    using that True by (auto simp: lead4_def)
  moreover have "1 \<le> k \<Longrightarrow> lead1 s \<Longrightarrow> lead1 (take k s)" "2 \<le> k \<Longrightarrow> lead2 s \<Longrightarrow> lead2 (take k s)"
    "3 \<le> k \<Longrightarrow> lead3 s \<Longrightarrow> lead3 (take k s)" "4 \<le> k \<Longrightarrow> lead4 s \<Longrightarrow> lead4 (take k s)"
    by (simp_all add: lead1_def lead2_def lead3_def lead4_def)
  ultimately show ?thesis using assms by (simp add: utf8_width_def split: if_splits)
qed simp

function utf8_valid :: "string \<Rightarrow> bool" where
  "utf8_valid s =
     (if s = [] then True
      else if 0 < utf8_width s then utf8_valid (drop (utf8_width s) s) else False)"
  by pat_completeness auto
termination
  by (relation "measure length") auto

declare utf8_valid.simps [simp del]

lemma utf8_valid_Nil [simp]: "utf8_valid []"
  by (subst utf8_valid.simps) simp

lemma utf8_valid_width_pos: "utf8_valid s \<Longrightarrow> s \<noteq> [] \<Longrightarrow> 0 < utf8_width s"
  by (subst (asm) utf8_valid.simps) (simp split: if_splits)

lemma utf8_valid_drop: "utf8_valid s \<Longrightarrow> utf8_valid (drop (utf8_width s) s)"
  by (cases "s = []") (simp_all add: utf8_valid.simps [of s] split: if_splits)

lemma utf8_valid_step:
  "s \<noteq> [] \<Longrightarrow> utf8_valid s \<longleftrightarrow> 0 < utf8_width s \<and> utf8_valid (drop (utf8_width s) s)"
  by (subst utf8_valid.simps) simp

lemma utf8_valid_append_iff:
  "utf8_valid s \<Longrightarrow> utf8_valid (s @ t) \<longleftrightarrow> utf8_valid t"
proof (induction s rule: utf8_valid.induct)
  case (1 s)
  show ?case
  proof (cases "s = []")
    case True
    then show ?thesis by simp
  next
    case False
    with 1 have w: "0 < utf8_width s" and v: "utf8_valid (drop (utf8_width s) s)"
      by (simp_all add: utf8_valid_step)
    have w': "utf8_width (s @ t) = utf8_width s" using w by (rule utf8_width_append)
    have d: "drop (utf8_width s) (s @ t) = drop (utf8_width s) s @ t"
      using utf8_width_le_length [of s] by simp
    have "utf8_valid (s @ t) \<longleftrightarrow> utf8_valid (drop (utf8_width s) s @ t)"
      using False w by (simp add: utf8_valid_step w' del: drop_append) (simp only: d)
    also have "\<dots> \<longleftrightarrow> utf8_valid t" using 1 False w v by simp
    finally show ?thesis .
  qed
qed

lemma utf8_valid_append: "utf8_valid s \<Longrightarrow> utf8_valid t \<Longrightarrow> utf8_valid (s @ t)"
  by (simp add: utf8_valid_append_iff)

lemma utf8_valid_take_width: "utf8_valid s \<Longrightarrow> utf8_valid (take (utf8_width s) s)"
proof (cases "s = []")
  case False
  assume "utf8_valid s"
  with False have w: "0 < utf8_width s" by (rule utf8_valid_width_pos [rotated])
  have "utf8_width (take (utf8_width s) s) = utf8_width s"
    by (rule utf8_width_take) simp
  with w show ?thesis by (subst utf8_valid.simps) simp
qed simp

lemma utf8_valid_concat: "(\<And>c. c \<in> set cs \<Longrightarrow> utf8_valid c) \<Longrightarrow> utf8_valid (concat cs)"
  by (induction cs) (auto intro: utf8_valid_append)

text \<open>Within four bytes before any position of a well-formed text there is a boundary.\<close>

lemma utf8_boundary_near:
  "utf8_valid s \<Longrightarrow> n \<le> length s \<Longrightarrow> \<exists>k. k \<le> n \<and> n < k + 4 \<and> utf8_valid (take k s)"
proof (induction s arbitrary: n rule: utf8_valid.induct)
  case (1 s)
  let ?w = "utf8_width s"
  show ?case
  proof (cases "n < ?w \<or> s = []")
    case True
    then have "n < 4" using 1 utf8_width_le4 [of s] by auto
    then show ?thesis by (intro exI [of _ 0]) simp
  next
    case False
    with 1 have w: "0 < ?w" and v: "utf8_valid (drop ?w s)"
      by (simp_all add: utf8_valid_step)
    have "n - ?w \<le> length (drop ?w s)" using 1(3) by simp
    with 1(1) [OF _ w v] False obtain k where
      k: "k \<le> n - ?w" "n - ?w < k + 4" "utf8_valid (take k (drop ?w s))" by blast
    have "take (?w + k) s = take ?w s @ take k (drop ?w s)" by (rule take_add)
    moreover have "utf8_valid (take ?w s)" using 1(2) by (rule utf8_valid_take_width)
    ultimately have "utf8_valid (take (?w + k) s)" using k(3) by (simp add: utf8_valid_append)
    then show ?thesis using k False by (intro exI [of _ "?w + k"]) auto
  qed
qed

section \<open>split_utf8_by_bytes\<close>

text \<open>
  The inner loop: the longest slice \<open>encoded[start:end]\<close>, \<open>end\<close> counting down, that
  decodes; the \<open>while \<dots> else\<close> branch is \<open>None\<close>. Then the outer loop over \<open>start\<close>.
\<close>

fun find_cut :: "string \<Rightarrow> nat \<Rightarrow> nat option" where
  "find_cut s 0 = None"
| "find_cut s (Suc k) = (if utf8_valid (take (Suc k) s) then Some (Suc k) else find_cut s k)"

lemma find_cut_Some: "find_cut s n = Some k \<Longrightarrow> 0 < k \<and> k \<le> n \<and> utf8_valid (take k s)"
  by (induction n) (auto split: if_splits)

lemma find_cut_max: "0 < k \<Longrightarrow> k \<le> n \<Longrightarrow> utf8_valid (take k s) \<Longrightarrow> \<exists>k'. find_cut s n = Some k' \<and> k \<le> k'"
proof (induction n)
  case (Suc n)
  show ?case
  proof (cases "k = Suc n")
    case True
    with Suc.prems show ?thesis by simp
  next
    case False
    with Suc.prems Suc.IH obtain k' where "find_cut s n = Some k'" "k \<le> k'" by auto
    then show ?thesis using Suc.prems by auto
  qed
qed simp

function split_loop :: "nat \<Rightarrow> string \<Rightarrow> exn + string list" where
  "split_loop m s =
     (if s = [] then Inr []
      else case find_cut s (min m (length s)) of
             None \<Rightarrow> Inl (ValueError ''unable to split utf-8 on character boundary'')
           | Some k \<Rightarrow> (case split_loop m (drop k s) of
                          Inl e \<Rightarrow> Inl e
                        | Inr cs \<Rightarrow> Inr (take k s # cs)))"
  by pat_completeness auto
termination
  by (relation "measure (\<lambda>(m, s). length s)") (auto dest: find_cut_Some)

declare split_loop.simps [simp del]

definition split_utf8_by_bytes :: "string \<Rightarrow> int \<Rightarrow> exn + string list" where
  "split_utf8_by_bytes text max_bytes =
     (if text = [] then Inr []
      else if max_bytes \<le> 0 then Inl (ValueError ''max_bytes must be positive'')
      else if int (length text) \<le> max_bytes then Inr [text]
      else split_loop (nat max_bytes) text)"

lemma split_loop_sound:
  "split_loop m s = Inr cs \<Longrightarrow>
     concat cs = s \<and> (\<forall>c\<in>set cs. c \<noteq> [] \<and> length c \<le> m \<and> utf8_valid c)"
proof (induction m s arbitrary: cs rule: split_loop.induct)
  case (1 m s)
  show ?case
  proof (cases "s = []")
    case True
    with 1(2) show ?thesis by (simp add: split_loop.simps)
  next
    case False
    with 1(2) obtain k where k: "find_cut s (min m (length s)) = Some k"
      by (subst (asm) split_loop.simps) (auto split: option.splits)
    with False 1(2) obtain cs' where cs': "split_loop m (drop k s) = Inr cs'" "cs = take k s # cs'"
      by (subst (asm) split_loop.simps) (auto split: sum.splits)
    from find_cut_Some [OF k] have "0 < k" "k \<le> m" "k \<le> length s" "utf8_valid (take k s)" by auto
    then show ?thesis using 1(1) [OF False k cs'(1)] cs'(2) False by auto
  qed
qed

text \<open>Four bytes hold any code point, so with that much room the loop always finds a cut.\<close>

lemma split_loop_total:
  assumes "4 \<le> m"
  shows "utf8_valid s \<Longrightarrow> \<exists>cs. split_loop m s = Inr cs \<and>
           (\<forall>c\<in>set (butlast cs). m < length c + 4)"
  using assms
proof (induction m s rule: split_loop.induct)
  case (1 m s)
  show ?case
  proof (cases "s = []")
    case True
    then show ?thesis by (simp add: split_loop.simps)
  next
    case False
    let ?n = "min m (length s)"
    have w: "0 < utf8_width s" using 1(2) False by (rule utf8_valid_width_pos)
    obtain b where b: "b \<le> ?n" "?n < b + 4" "utf8_valid (take b s)"
      using utf8_boundary_near [OF 1(2), of ?n] by auto
    let ?b = "max b (utf8_width s)"
    have vb: "utf8_valid (take ?b s)"
      using b(3) utf8_valid_take_width [OF 1(2)] by (simp add: max_def)
    have "?b \<le> ?n"
      using b(1) utf8_width_le4 [of s] utf8_width_le_length [of s] 1(3) by auto
    moreover have "0 < ?b" using w by simp
    ultimately obtain k where k: "find_cut s ?n = Some k" "?b \<le> k"
      using find_cut_max vb by blast
    from find_cut_Some [OF k(1)] have k': "k \<le> ?n" "utf8_valid (take k s)" by auto
    have "utf8_valid (drop k s)"
      using 1(2) k'(2) utf8_valid_append_iff [of "take k s" "drop k s"] by simp
    with 1(1) [OF False k(1)] 1(3) obtain cs where
      cs: "split_loop m (drop k s) = Inr cs" "\<forall>c\<in>set (butlast cs). m < length c + 4" by auto
    have res: "split_loop m s = Inr (take k s # cs)"
      using False k(1) cs(1) by (simp add: split_loop.simps [of m s])
    have "m < length (take k s) + 4" if "cs \<noteq> []"
    proof -
      have "drop k s \<noteq> []" using cs(1) that by (auto simp: split_loop.simps)
      then have lk: "k < length s" by simp
      have "?n = m"
      proof (rule ccontr)
        assume "?n \<noteq> m"
        then have n: "?n = length s" by auto
        then have "find_cut s ?n = Some ?n"
          using 1(2) False by (cases "length s") auto
        with k(1) n lk show False by simp
      qed
      then show ?thesis using k(2) b(2) lk by auto
    qed
    with res cs(2) show ?thesis by (auto split: if_splits)
  qed
qed

lemma split_utf8_ok:
  assumes "utf8_valid text" and "4 \<le> m"
  obtains cs where "split_utf8_by_bytes text m = Inr cs" and "concat cs = text"
    and "\<forall>c\<in>set cs. c \<noteq> [] \<and> int (length c) \<le> m \<and> utf8_valid c"
    and "\<forall>c\<in>set (butlast cs). m < int (length c) + 4"
proof (cases "int (length text) \<le> m")
  case True
  with assms show ?thesis
    by (cases "text = []") (auto simp: split_utf8_by_bytes_def intro: that)
next
  case False
  then have ne: "text \<noteq> []" using assms(2) by auto
  have "4 \<le> nat m" using assms(2) by simp
  from split_loop_total [OF this assms(1)] obtain cs where
    cs: "split_loop (nat m) text = Inr cs" "\<forall>c\<in>set (butlast cs). nat m < length c + 4" by auto
  from split_loop_sound [OF cs(1)] have s: "concat cs = text"
    "\<forall>c\<in>set cs. c \<noteq> [] \<and> length c \<le> nat m \<and> utf8_valid c" by auto
  show ?thesis
  proof (rule that)
    show "split_utf8_by_bytes text m = Inr cs"
      using False ne assms(2) cs(1) by (simp add: split_utf8_by_bytes_def)
    show "concat cs = text" by (rule s(1))
    show "\<forall>c\<in>set cs. c \<noteq> [] \<and> int (length c) \<le> m \<and> utf8_valid c" using s(2) assms(2) by auto
    show "\<forall>c\<in>set (butlast cs). m < int (length c) + 4" using cs(2) assms(2) by auto
  qed
qed

text \<open>With less room than a code point needs, the function raises instead of cutting it.\<close>

lemma find_cut_narrow:
  "utf8_valid s \<Longrightarrow> n < utf8_width s \<Longrightarrow> find_cut s n = None"
proof (rule ccontr)
  assume v: "utf8_valid s" and n: "n < utf8_width s" and "find_cut s n \<noteq> None"
  then obtain k where k: "0 < k" "k \<le> n" "utf8_valid (take k s)"
    using find_cut_Some by blast
  have ne: "take k s \<noteq> []" using k n utf8_width_le_length [of s] by auto
  then have w: "0 < utf8_width (take k s)" using k(3) by (rule utf8_valid_width_pos [rotated])
  have "utf8_width (take k s @ drop k s) = utf8_width (take k s)" by (rule utf8_width_append [OF w])
  then have "utf8_width s \<le> k" using utf8_width_le_length [of "take k s"] by simp
  with k n show False by simp
qed

lemma packed_count:
  fixes cs :: "string list" and m :: int
  assumes "\<forall>c\<in>set (butlast cs). m < int (length c) + 4" and "cs \<noteq> []"
  shows "(int (length cs) - 1) * (m - 3) \<le> int (length (concat cs))"
  using assms
proof (induction cs)
  case (Cons c cs)
  show ?case
  proof (cases "cs = []")
    case False
    with Cons have "(int (length cs) - 1) * (m - 3) \<le> int (length (concat cs))" by simp
    moreover have "m - 3 \<le> int (length c)" using Cons.prems False by simp
    ultimately show ?thesis by (simp add: algebra_simps)
  qed simp
qed simp

text \<open>C39: Splitting a valid text at four bytes or more returns pieces that give the text back and are
  each valid, not empty and within the limit; no character is cut. The pieces are packed: every piece
  but the last is at most three bytes below the limit, so their number is bounded by the length.\<close>

theorem split_utf8_packed:
  assumes "utf8_valid text" and "4 \<le> max_bytes"
  shows "\<exists>cs. split_utf8_by_bytes text max_bytes = Inr cs \<and> concat cs = text
    \<and> (\<forall>c\<in>set cs. c \<noteq> [] \<and> int (length c) \<le> max_bytes \<and> utf8_valid c)
    \<and> (\<forall>c\<in>set (butlast cs). max_bytes - 3 \<le> int (length c))
    \<and> (cs \<noteq> [] \<longrightarrow> (int (length cs) - 1) * (max_bytes - 3) \<le> int (length text))"
proof -
  obtain cs where 1: "split_utf8_by_bytes text max_bytes = Inr cs" "concat cs = text"
    "\<forall>c\<in>set cs. c \<noteq> [] \<and> int (length c) \<le> max_bytes \<and> utf8_valid c"
    "\<forall>c\<in>set (butlast cs). max_bytes < int (length c) + 4"
    using split_utf8_ok [OF assms] by blast
  have "cs \<noteq> [] \<longrightarrow> (int (length cs) - 1) * (max_bytes - 3) \<le> int (length text)"
    using packed_count [OF 1(4)] 1(2) by simp
  with 1 show ?thesis by (intro exI [of _ cs] conjI) auto
qed

definition euro_text :: string where
  "euro_text = [CHR ''a'', CHR 0xE2, CHR 0x82, CHR 0xAC, CHR ''b'']"

lemma euro_text_valid: "utf8_valid euro_text"
  by code_simp

lemma euro_text_split: "split_utf8_by_bytes euro_text 4 = Inr [[CHR ''a'', CHR 0xE2, CHR 0x82, CHR 0xAC], ''b'']"
  by code_simp

theorem split_utf8_packed_witness:
  "\<exists>cs. split_utf8_by_bytes euro_text 4 = Inr cs \<and> concat cs = euro_text
    \<and> cs = [[CHR ''a'', CHR 0xE2, CHR 0x82, CHR 0xAC], ''b'']"
  using split_utf8_packed [OF euro_text_valid, of 4] euro_text_split by simp

end
