(* ===== verification/Coalescer.thy ===== *)
theory Coalescer
  imports Utf8
begin

text \<open>
  \<open>AssistantDeltaCoalescer\<close> of \<open>services/assistant_delta_coalescer.py\<close>: a buffer of
  text parts with the time its first part arrived; \<open>push\<close> emits full pieces as soon as the
  buffer passes 64 KiB, the flushes empty it. \<open>now\<close> is what \<open>self._clock_ms()\<close> returns
  during the call. The lemmas say that no operation loses or reorders a byte.
\<close>

definition MAX_DELTA_UTF8_BYTES :: int where
  "MAX_DELTA_UTF8_BYTES = 64 * 1024"

definition MAX_SNAPSHOT_UTF8_BYTES :: int where
  "MAX_SNAPSHOT_UTF8_BYTES = 1 * 1024 * 1024"

definition MAX_LATENCY_MS :: int where
  "MAX_LATENCY_MS = 1000"

record coalescer =
  parts :: "string list"
  first_ms :: "int option"

definition new_coalescer :: coalescer where
  "new_coalescer = \<lparr>parts = [], first_ms = None\<rparr>"

definition buffered_text :: "coalescer \<Rightarrow> string" where
  "buffered_text c = concat (parts c)"

text \<open>\<open>_drain_oversize\<close>: one round of its loop, then the loop.\<close>

definition drain_round :: "int \<Rightarrow> string list \<Rightarrow> coalescer \<Rightarrow> coalescer" where
  "drain_round now rest c =
     (let remainder = concat rest;
          ps = (if remainder \<noteq> [] then [remainder] else []);
          c' = c\<lparr>parts := ps\<rparr>
      in if ps = [] then c'\<lparr>first_ms := None\<rparr>
         else if first_ms c' = None then c'\<lparr>first_ms := Some now\<rparr> else c')"

lemma buffered_drain_round [simp]: "buffered_text (drain_round now rest c) = concat rest"
  by (auto simp: drain_round_def buffered_text_def Let_def)

lemma concat_drop_head: "concat (h # rest) = s \<Longrightarrow> h \<noteq> [] \<Longrightarrow> length (concat rest) < length s"
  by auto

function drain_oversize :: "int \<Rightarrow> (coalescer, string list) prog" where
  "drain_oversize now c =
     (let buf = buffered_text c in
      if int (length buf) \<le> MAX_DELTA_UTF8_BYTES then (Inr [], c)
      else case split_utf8_by_bytes buf MAX_DELTA_UTF8_BYTES of
             Inl e \<Rightarrow> (Inl e, c)
           | Inr [] \<Rightarrow> (Inl (ValueError ''not enough values to unpack''), c)
           | Inr (head # rest) \<Rightarrow>
               (case drain_oversize now (drain_round now rest c) of
                  (Inl e, c') \<Rightarrow> (Inl e, c')
                | (Inr out, c') \<Rightarrow> (Inr (head # out), c')))"
  by pat_completeness auto
termination
proof (relation "measure (\<lambda>(now, c). length (buffered_text c))")
  fix now c buf x2 x21 x22
  assume buf: "buf = buffered_text (c :: coalescer)"
    and big: "\<not> int (length buf) \<le> MAX_DELTA_UTF8_BYTES"
    and sp: "split_utf8_by_bytes buf MAX_DELTA_UTF8_BYTES = Inr x2" and x2: "x2 = x21 # x22"
  have "split_loop (nat MAX_DELTA_UTF8_BYTES) buf = Inr x2"
    using sp big by (auto simp: split_utf8_by_bytes_def MAX_DELTA_UTF8_BYTES_def split: if_splits)
  from split_loop_sound [OF this] x2 have "concat (x21 # x22) = buf" "x21 \<noteq> []" by auto
  then have "length (concat x22) < length buf" by (rule concat_drop_head)
  then show "((now, drain_round now x22 c), (now, c))
      \<in> measure (\<lambda>(now, c). length (buffered_text c))"
    using buf by simp
qed simp

declare drain_oversize.simps [simp del]

definition push :: "int \<Rightarrow> string \<Rightarrow> (coalescer, string list) prog" where
  "push now s c =
     (if s = [] then (Inr [], c)
      else drain_oversize now
             (c\<lparr>parts := parts c @ [s],
                first_ms := (if first_ms c = None then Some now else first_ms c)\<rparr>))"

definition flush :: "coalescer \<Rightarrow> string option \<times> coalescer" where
  "flush c =
     (let t = buffered_text c; c' = c\<lparr>parts := [], first_ms := None\<rparr>
      in if t \<noteq> [] then (Some t, c') else (None, c'))"

definition flush_chunks :: "(coalescer, string list) prog" where
  "flush_chunks c =
     (case flush c of
        (None, c') \<Rightarrow> (Inr [], c')
      | (Some t, c') \<Rightarrow> (split_utf8_by_bytes t MAX_DELTA_UTF8_BYTES, c'))"

definition latency_due :: "int \<Rightarrow> coalescer \<Rightarrow> bool" where
  "latency_due now c =
     (case first_ms c of None \<Rightarrow> False | Some t \<Rightarrow> now - t \<ge> MAX_LATENCY_MS)"

definition flush_if_stale :: "int \<Rightarrow> coalescer \<Rightarrow> string option \<times> coalescer" where
  "flush_if_stale now c =
     (if parts c = [] then (None, c)
      else if latency_due now c then flush c
      else (None, c))"

definition flush_if_stale_chunks :: "int \<Rightarrow> (coalescer, string list) prog" where
  "flush_if_stale_chunks now c =
     (case flush_if_stale now c of
        (None, c') \<Rightarrow> (Inr [], c')
      | (Some t, c') \<Rightarrow>
          (if t = [] then (Inr [], c') else (split_utf8_by_bytes t MAX_DELTA_UTF8_BYTES, c')))"

section \<open>The buffer invariant\<close>

text \<open>
  Between calls the buffer holds well-formed text that fits one piece, and it has a start
  time exactly when it is not empty.
\<close>

definition coalescer_ok :: "coalescer \<Rightarrow> bool" where
  "coalescer_ok c \<longleftrightarrow>
     (\<forall>p\<in>set (parts c). utf8_valid p \<and> p \<noteq> []) \<and>
     int (length (buffered_text c)) \<le> MAX_DELTA_UTF8_BYTES \<and>
     (first_ms c = None \<longleftrightarrow> parts c = [])"

definition pieces_ok :: "string list \<Rightarrow> bool" where
  "pieces_ok cs \<longleftrightarrow> (\<forall>p\<in>set cs. p \<noteq> [] \<and> utf8_valid p \<and> int (length p) \<le> MAX_DELTA_UTF8_BYTES)"

lemma pieces_ok_Nil [simp]: "pieces_ok []"
  by (simp add: pieces_ok_def)

lemma pieces_ok_Cons: "pieces_ok (p # cs) \<longleftrightarrow>
    p \<noteq> [] \<and> utf8_valid p \<and> int (length p) \<le> MAX_DELTA_UTF8_BYTES \<and> pieces_ok cs"
  by (auto simp: pieces_ok_def)

lemma coalescer_ok_new [simp]: "coalescer_ok new_coalescer"
  by (simp add: coalescer_ok_def new_coalescer_def buffered_text_def MAX_DELTA_UTF8_BYTES_def)

lemma coalescer_ok_valid: "coalescer_ok c \<Longrightarrow> utf8_valid (buffered_text c)"
  by (auto simp: coalescer_ok_def buffered_text_def intro: utf8_valid_concat)

lemma coalescer_ok_empty: "coalescer_ok (c\<lparr>parts := [], first_ms := None\<rparr>)"
  by (simp add: coalescer_ok_def buffered_text_def MAX_DELTA_UTF8_BYTES_def)

lemma split_max_ok:
  assumes "utf8_valid t"
  obtains cs where "split_utf8_by_bytes t MAX_DELTA_UTF8_BYTES = Inr cs" and "concat cs = t"
    and "pieces_ok cs"
proof -
  have "4 \<le> MAX_DELTA_UTF8_BYTES" by (simp add: MAX_DELTA_UTF8_BYTES_def)
  from split_utf8_ok [OF assms this] obtain cs where
    "split_utf8_by_bytes t MAX_DELTA_UTF8_BYTES = Inr cs" "concat cs = t"
    "\<forall>c\<in>set cs. c \<noteq> [] \<and> int (length c) \<le> MAX_DELTA_UTF8_BYTES \<and> utf8_valid c" by blast
  then show ?thesis by (intro that) (auto simp: pieces_ok_def)
qed

definition pre_drain :: "coalescer \<Rightarrow> bool" where
  "pre_drain c \<longleftrightarrow> (\<forall>p\<in>set (parts c). utf8_valid p \<and> p \<noteq> []) \<and> (first_ms c = None \<longleftrightarrow> parts c = [])"

lemma pre_drain_round:
  "\<forall>p\<in>set rest. utf8_valid p \<Longrightarrow> pre_drain (drain_round now rest c)"
  by (auto simp: pre_drain_def drain_round_def Let_def intro!: utf8_valid_concat)

lemma drain_oversize_ok:
  "pre_drain c \<Longrightarrow> \<exists>out c'. drain_oversize now c = (Inr out, c') \<and>
     concat out @ buffered_text c' = buffered_text c \<and> pieces_ok out \<and> coalescer_ok c'"
proof (induction now c rule: drain_oversize.induct)
  case (1 now c)
  let ?buf = "buffered_text c"
  show ?case
  proof (cases "int (length ?buf) \<le> MAX_DELTA_UTF8_BYTES")
    case True
    with 1(2) show ?thesis
      by (simp add: drain_oversize.simps [of now c] coalescer_ok_def pre_drain_def)
  next
    case False
    have "utf8_valid ?buf"
      using 1(2) unfolding buffered_text_def pre_drain_def by (intro utf8_valid_concat) blast
    then obtain cs where cs: "split_utf8_by_bytes ?buf MAX_DELTA_UTF8_BYTES = Inr cs"
      "concat cs = ?buf" "pieces_ok cs" by (rule split_max_ok)
    have "?buf \<noteq> []" using False by (auto simp: MAX_DELTA_UTF8_BYTES_def)
    with cs(2) obtain head rest where hr: "cs = head # rest" by (cases cs) auto
    have "pre_drain (drain_round now rest c)"
      using cs(3) hr by (intro pre_drain_round) (auto simp: pieces_ok_def)
    from 1(1) [OF refl False cs(1) hr this] obtain out c' where
      ih: "drain_oversize now (drain_round now rest c) = (Inr out, c')"
        "concat out @ buffered_text c' = concat rest" "pieces_ok out" "coalescer_ok c'" by auto
    have "drain_oversize now c = (Inr (head # out), c')"
      using False cs(1) hr ih(1) by (simp add: drain_oversize.simps [of now c])
    moreover have "concat (head # out) @ buffered_text c' = ?buf" using ih(2) cs(2) hr by simp
    moreover have "pieces_ok (head # out)" using cs(3) hr ih(3) by (simp add: pieces_ok_Cons)
    ultimately show ?thesis using ih(4) by blast
  qed
qed

lemma push_ok:
  assumes "coalescer_ok c" and "utf8_valid s"
  obtains out c' where "push now s c = (Inr out, c')"
    and "concat out @ buffered_text c' = buffered_text c @ s"
    and "pieces_ok out" and "coalescer_ok c'"
proof (cases "s = []")
  case True
  with assms that show ?thesis by (simp add: push_def)
next
  case False
  let ?c = "c\<lparr>parts := parts c @ [s], first_ms := (if first_ms c = None then Some now else first_ms c)\<rparr>"
  have "pre_drain ?c" using assms False by (auto simp: pre_drain_def coalescer_ok_def)
  from drain_oversize_ok [OF this, of now] obtain out c' where
    "drain_oversize now ?c = (Inr out, c')" "concat out @ buffered_text c' = buffered_text ?c"
    "pieces_ok out" "coalescer_ok c'" by blast
  with False that show ?thesis by (simp add: push_def buffered_text_def)
qed

lemma flush_chunks_ok:
  assumes "coalescer_ok c"
  obtains out c' where "flush_chunks c = (Inr out, c')" and "concat out = buffered_text c"
    and "buffered_text c' = []" and "pieces_ok out" and "coalescer_ok c'"
proof (cases "buffered_text c = []")
  case True
  then show ?thesis
    by (intro that [of "[]" "c\<lparr>parts := [], first_ms := None\<rparr>"])
      (auto simp: flush_chunks_def flush_def coalescer_ok_empty buffered_text_def)
next
  case False
  obtain cs where "split_utf8_by_bytes (buffered_text c) MAX_DELTA_UTF8_BYTES = Inr cs"
    "concat cs = buffered_text c" "pieces_ok cs"
    using coalescer_ok_valid [OF assms] by (rule split_max_ok)
  with False show ?thesis
    by (intro that [of cs "c\<lparr>parts := [], first_ms := None\<rparr>"])
      (auto simp: flush_chunks_def flush_def coalescer_ok_empty buffered_text_def)
qed

lemma flush_if_stale_chunks_ok:
  assumes "coalescer_ok c"
  obtains out c' where "flush_if_stale_chunks now c = (Inr out, c')"
    and "concat out @ buffered_text c' = buffered_text c" and "pieces_ok out" and "coalescer_ok c'"
proof (cases "parts c \<noteq> [] \<and> latency_due now c")
  case True
  then have "flush_if_stale_chunks now c = flush_chunks c"
    by (auto simp: flush_if_stale_chunks_def flush_chunks_def flush_if_stale_def flush_def Let_def)
  with flush_chunks_ok [OF assms] that show ?thesis by (metis append_Nil2)
next
  case False
  then show ?thesis using assms
    by (intro that [of "[]" c]) (auto simp: flush_if_stale_chunks_def flush_if_stale_def)
qed

section \<open>A whole stream\<close>

text \<open>The calls the engine makes on its coalescer, and what they put out.\<close>

datatype coalescer_call = Push int string | FlushIfStale int | FlushChunks

fun perform :: "coalescer_call \<Rightarrow> (coalescer, string list) prog" where
  "perform (Push now s) = push now s"
| "perform (FlushIfStale now) = flush_if_stale_chunks now"
| "perform FlushChunks = flush_chunks"

definition delta_stream :: "coalescer_call list \<Rightarrow> (coalescer, string list) prog" where
  "delta_stream cs = bindE (mapE cs perform) (\<lambda>outs. returnE (concat outs))"

fun pushed :: "coalescer_call list \<Rightarrow> string" where
  "pushed [] = []"
| "pushed (Push _ s # cs) = s @ pushed cs"
| "pushed (_ # cs) = pushed cs"

fun texts_valid :: "coalescer_call list \<Rightarrow> bool" where
  "texts_valid [] = True"
| "texts_valid (Push _ s # cs) = (utf8_valid s \<and> texts_valid cs)"
| "texts_valid (_ # cs) = texts_valid cs"

lemma pieces_ok_append [simp]: "pieces_ok (xs @ ys) \<longleftrightarrow> pieces_ok xs \<and> pieces_ok ys"
  by (auto simp: pieces_ok_def)

lemma call_ok:
  assumes "coalescer_ok c" and "texts_valid [k]"
  shows "\<exists>out c'. perform k c = (Inr out, c') \<and> concat out @ buffered_text c' = buffered_text c @ pushed [k]
    \<and> pieces_ok out \<and> coalescer_ok c'"
proof (cases k)
  case (Push now s)
  with assms obtain out c' where "push now s c = (Inr out, c')"
    "concat out @ buffered_text c' = buffered_text c @ s" "pieces_ok out" "coalescer_ok c'"
    using push_ok by (metis texts_valid.simps(2))
  with Push show ?thesis by auto
next
  case (FlushIfStale now)
  obtain out c' where "flush_if_stale_chunks now c = (Inr out, c')"
    "concat out @ buffered_text c' = buffered_text c" "pieces_ok out" "coalescer_ok c'"
    using flush_if_stale_chunks_ok [OF assms(1)] by blast
  with FlushIfStale show ?thesis by auto
next
  case FlushChunks
  obtain out c' where "flush_chunks c = (Inr out, c')" "concat out = buffered_text c"
    "buffered_text c' = []" "pieces_ok out" "coalescer_ok c'"
    using flush_chunks_ok [OF assms(1)] by blast
  with FlushChunks show ?thesis by auto
qed

lemma pushed_Cons: "pushed (k # cs) = pushed [k] @ pushed cs"
  by (cases k) simp_all

lemma texts_valid_Cons: "texts_valid (k # cs) \<longleftrightarrow> texts_valid [k] \<and> texts_valid cs"
  by (cases k) simp_all

lemma stream_ok:
  "coalescer_ok c \<Longrightarrow> texts_valid cs \<Longrightarrow> \<exists>outs c'. mapE cs perform c = (Inr outs, c')
    \<and> concat (concat outs) @ buffered_text c' = buffered_text c @ pushed cs \<and> pieces_ok (concat outs) \<and> coalescer_ok c'"
proof (induction cs arbitrary: c)
  case Nil
  then show ?case by simp
next
  case (Cons k cs)
  then have "texts_valid [k]" "texts_valid cs" using texts_valid_Cons by blast+
  with call_ok [OF Cons.prems(1)] obtain out c1 where 1: "perform k c = (Inr out, c1)"
    "concat out @ buffered_text c1 = buffered_text c @ pushed [k]" "pieces_ok out" "coalescer_ok c1" by blast
  from Cons.IH [OF 1(4) \<open>texts_valid cs\<close>] obtain outs c2 where 2: "mapE cs perform c1 = (Inr outs, c2)"
    "concat (concat outs) @ buffered_text c2 = buffered_text c1 @ pushed cs" "pieces_ok (concat outs)" "coalescer_ok c2"
    by blast
  have "mapE (k # cs) perform c = (Inr (out # outs), c2)"
    using 1(1) 2(1) by (simp add: bindE_def)
  moreover have "concat (concat (out # outs)) @ buffered_text c2 = buffered_text c @ pushed (k # cs)"
    using 1(2) 2(2) pushed_Cons [of k cs] by (metis append_assoc concat.simps(2) concat_append)
  ultimately show ?case using 1(3) 2(3,4) by (intro exI [of _ "out # outs"] exI [of _ c2]) simp
qed

text \<open>C40: Whatever the engine does with its coalescer, pushing texts and flushing in any order and at any
  times, the calls return, and the deltas put out, in order, are a prefix of the pushed text: what is
  missing is what the buffer still holds, at most 64 KiB, and a final flush puts it out. Every delta is
  valid UTF-8, not empty and at most 64 KiB.\<close>

theorem stream_lossless:
  assumes "texts_valid cs"
  shows "\<exists>out c'. delta_stream cs new_coalescer = (Inr out, c') \<and> concat out @ buffered_text c' = pushed cs
    \<and> pieces_ok out \<and> int (length (buffered_text c')) \<le> MAX_DELTA_UTF8_BYTES
    \<and> (\<exists>out' c''. delta_stream (cs @ [FlushChunks]) new_coalescer = (Inr out', c'') \<and> concat out' = pushed cs
        \<and> pieces_ok out' \<and> buffered_text c'' = [])"
proof -
  obtain outs c' where 1: "mapE cs perform new_coalescer = (Inr outs, c')"
    "concat (concat outs) @ buffered_text c' = pushed cs" "pieces_ok (concat outs)" "coalescer_ok c'"
    using stream_ok [OF coalescer_ok_new assms] by (auto simp: new_coalescer_def buffered_text_def)
  obtain out c'' where 2: "flush_chunks c' = (Inr out, c'')" "concat out = buffered_text c'"
    "buffered_text c'' = []" "pieces_ok out"
    using flush_chunks_ok [OF 1(4)] by blast
  have "mapE (cs @ ds) perform c = bindE (mapE cs perform) (\<lambda>os. bindE (mapE ds perform) (\<lambda>ps. returnE (os @ ps))) c" for ds c
    by (induction cs arbitrary: c) (simp_all add: bindE_def split: prod.split sum.split)
  then have 3: "delta_stream (cs @ [FlushChunks]) new_coalescer = (Inr (concat outs @ out), c'')"
    using 1(1) 2(1) by (simp add: delta_stream_def bindE_def)
  have 4: "delta_stream cs new_coalescer = (Inr (concat outs), c')"
    using 1(1) by (simp add: delta_stream_def bindE_def)
  have "int (length (buffered_text c')) \<le> MAX_DELTA_UTF8_BYTES" using 1(4) by (simp add: coalescer_ok_def)
  with 1(2,3) 2(2,3,4) show ?thesis
    by (intro exI [of _ "concat outs"] exI [of _ c'] exI [of _ "concat outs @ out"] exI [of _ c''] conjI 3 4) simp_all
qed

theorem stream_lossless_witness:
  "\<exists>out' c''. delta_stream ([Push 0 ''ab'', FlushIfStale 5, Push 1500 ''c''] @ [FlushChunks]) new_coalescer = (Inr out', c'')
     \<and> concat out' = ''abc'' \<and> pieces_ok out' \<and> buffered_text c'' = []"
proof -
  have "texts_valid [Push 0 ''ab'', FlushIfStale 5, Push 1500 ''c'']" by code_simp
  from stream_lossless [OF this] show ?thesis by (elim exE conjE) (intro exI conjI, assumption, simp_all)
qed

end
