(* ===== verification/Json_Text.thy ===== *)
theory Json_Text
  imports Utf8
begin

text \<open>
  \<open>json.dumps\<close> in the two forms the code uses: compact with the characters kept
  (\<open>ensure_ascii=False, separators=(",", ":")\<close>), whose length bounds an event, and
  with sorted keys and ASCII output (\<open>sort_keys=True\<close>), which is hashed into digests.
\<close>

section \<open>String literals\<close>

definition short_escape :: "nat \<Rightarrow> char option" where
  "short_escape n =
     (if n = 34 then Some (char_of (34 :: nat)) else if n = 92 then Some (char_of (92 :: nat))
      else if n = 8 then Some (CHR ''b'') else if n = 9 then Some (CHR ''t'')
      else if n = 10 then Some (CHR ''n'') else if n = 12 then Some (CHR ''f'')
      else if n = 13 then Some (CHR ''r'') else None)"

definition hex4 :: "nat \<Rightarrow> string" where
  "hex4 n = [hex_digit (n div 4096 mod 16), hex_digit (n div 256 mod 16),
             hex_digit (n div 16 mod 16), hex_digit (n mod 16)]"

definition u_escape :: "nat \<Rightarrow> string" where
  "u_escape n = char_of (92 :: nat) # CHR ''u'' # hex4 n"

definition esc_char :: "char \<Rightarrow> string" where
  "esc_char c =
     (case short_escape (byte c) of
        Some e \<Rightarrow> [char_of (92 :: nat), e]
      | None \<Rightarrow> if byte c < 32 then u_escape (byte c) else [c])"

definition json_string :: "string \<Rightarrow> string" where
  "json_string s = char_of (34 :: nat) # concat (List.map esc_char s) @ [char_of (34 :: nat)]"

text \<open>The code points of a byte string; a malformed byte stands for itself.\<close>

definition code_point :: "string \<Rightarrow> nat" where
  "code_point u =
     (case List.map byte u of
        [a] \<Rightarrow> a
      | [a, b] \<Rightarrow> (a - 192) * 64 + (b - 128)
      | [a, b, c] \<Rightarrow> (a - 224) * 4096 + (b - 128) * 64 + (c - 128)
      | [a, b, c, d] \<Rightarrow> (a - 240) * 262144 + (b - 128) * 4096 + (c - 128) * 64 + (d - 128)
      | _ \<Rightarrow> 0)"

function code_points :: "string \<Rightarrow> nat list" where
  "code_points s =
     (if s = [] then []
      else code_point (take (max 1 (utf8_width s)) s) # code_points (drop (max 1 (utf8_width s)) s))"
  by pat_completeness auto
termination
  by (relation "measure length") auto

declare code_points.simps [simp del]

definition esc_ascii :: "nat \<Rightarrow> string" where
  "esc_ascii n =
     (case short_escape n of
        Some e \<Rightarrow> [char_of (92 :: nat), e]
      | None \<Rightarrow>
          if 32 \<le> n \<and> n < 127 then [char_of n]
          else if n < 65536 then u_escape n
          else u_escape (55296 + (n - 65536) div 1024) @ u_escape (56320 + (n - 65536) mod 1024))"

definition json_string_ascii :: "string \<Rightarrow> string" where
  "json_string_ascii s =
     char_of (34 :: nat) # concat (List.map esc_ascii (code_points s)) @ [char_of (34 :: nat)]"

section \<open>Values\<close>

fun dumps_compact :: "json \<Rightarrow> string" where
  "dumps_compact JNull = ''null''"
| "dumps_compact (JBool b) = (if b then ''true'' else ''false'')"
| "dumps_compact (JInt i) = show_int i"
| "dumps_compact (JFloat r) = r"
| "dumps_compact (JStr s) = json_string s"
| "dumps_compact (JList xs) = ''['' @ joined '','' (List.map dumps_compact xs) @ '']''"
| "dumps_compact (JObj d) =
     ''{'' @ joined '',''
       (List.map (\<lambda>kv. json_string (fst kv) @ '':'' @ dumps_compact (snd kv)) d) @ ''}''"

text \<open>UTF-8 byte order is code point order, so sorting the encoded keys is what Python does.\<close>

fun dumps_sorted :: "json \<Rightarrow> string" where
  "dumps_sorted JNull = ''null''"
| "dumps_sorted (JBool b) = (if b then ''true'' else ''false'')"
| "dumps_sorted (JInt i) = show_int i"
| "dumps_sorted (JFloat r) = r"
| "dumps_sorted (JStr s) = json_string_ascii s"
| "dumps_sorted (JList xs) = ''['' @ joined '', '' (List.map dumps_sorted xs) @ '']''"
| "dumps_sorted (JObj d) =
     ''{'' @ joined '', ''
       (List.map (\<lambda>(k, t). json_string_ascii k @ '': '' @ t)
         (sort_key fst (List.map (\<lambda>kv. (fst kv, dumps_sorted (snd kv))) d))) @ ''}''"

text \<open>\<open>json.dumps\<close> with its defaults.\<close>

fun dumps_default :: "json \<Rightarrow> string" where
  "dumps_default JNull = ''null''"
| "dumps_default (JBool b) = (if b then ''true'' else ''false'')"
| "dumps_default (JInt i) = show_int i"
| "dumps_default (JFloat r) = r"
| "dumps_default (JStr s) = json_string_ascii s"
| "dumps_default (JList xs) = ''['' @ joined '', '' (List.map dumps_default xs) @ '']''"
| "dumps_default (JObj d) =
     ''{'' @ joined '', ''
       (List.map (\<lambda>kv. json_string_ascii (fst kv) @ '': '' @ dumps_default (snd kv)) d) @ ''}''"

text \<open>\<open>sort_keys=True\<close> with the separators and the rendering of strings as parameters.\<close>

fun dumps_with :: "string \<Rightarrow> string \<Rightarrow> (string \<Rightarrow> string) \<Rightarrow> json \<Rightarrow> string" where
  "dumps_with sep colon str JNull = ''null''"
| "dumps_with sep colon str (JBool b) = (if b then ''true'' else ''false'')"
| "dumps_with sep colon str (JInt i) = show_int i"
| "dumps_with sep colon str (JFloat r) = r"
| "dumps_with sep colon str (JStr s) = str s"
| "dumps_with sep colon str (JList xs) = ''['' @ joined sep (List.map (dumps_with sep colon str) xs) @ '']''"
| "dumps_with sep colon str (JObj d) =
     ''{'' @ joined sep
       (List.map (\<lambda>(k, t). str k @ colon @ t)
         (sort_key fst (List.map (\<lambda>kv. (fst kv, dumps_with sep colon str (snd kv))) d))) @ ''}''"

definition payload_utf8_size :: "json \<Rightarrow> nat" where
  "payload_utf8_size v = length (dumps_compact v)"

lemma dumps_compact_pos: "0 < payload_utf8_size (JObj d)"
  by (simp add: payload_utf8_size_def)

end
