(* ===== verification/Run_Store.thy ===== *)
theory Run_Store
  imports Json_Text
begin

text \<open>
  The tables of \<open>app/db_metadata.py\<close> as lists of rows in insertion order, the world a
  handler runs in (the tables, the object store, the clock, the supply of fresh identifiers
  and the calls made to other services), and the SQL statements the services issue as
  programs on that world: an \<open>UPDATE \<dots> WHERE\<close> with its row count, an \<open>INSERT\<close>, a
  \<open>SELECT\<close>. A NULL column is \<open>None\<close>, and a comparison with NULL is not true.
\<close>

section \<open>Statuses\<close>

datatype run_status =
    QUEUED | WAITING_APPROVAL | PREPARING | RUNNING | RESUMING | WAITING_EDGE | CANCELLING
  | PAUSED | SUSPENDED | COMPLETED | FAILED | CANCELLED | TIMED_OUT

datatype step_status =
  STEP_PENDING | STEP_READY | STEP_DISPATCHED | STEP_RUNNING | STEP_SUCCEEDED | STEP_FAILED | STEP_CANCELLED

datatype attempt_status =
  ATT_PREPARING | ATT_RUNNING | ATT_CANCELLED | ATT_FAILED | ATT_TIMED_OUT

datatype artifact_state = INIT | PERSISTED | CORRUPTED | EXPIRED

fun status_str :: "run_status \<Rightarrow> string" where
  "status_str QUEUED = ''QUEUED''"
| "status_str WAITING_APPROVAL = ''WAITING_APPROVAL''"
| "status_str PREPARING = ''PREPARING''"
| "status_str RUNNING = ''RUNNING''"
| "status_str RESUMING = ''RESUMING''"
| "status_str WAITING_EDGE = ''WAITING_EDGE''"
| "status_str CANCELLING = ''CANCELLING''"
| "status_str PAUSED = ''PAUSED''"
| "status_str SUSPENDED = ''SUSPENDED''"
| "status_str COMPLETED = ''COMPLETED''"
| "status_str FAILED = ''FAILED''"
| "status_str CANCELLED = ''CANCELLED''"
| "status_str TIMED_OUT = ''TIMED_OUT''"

definition TERMINAL :: "run_status list" where
  "TERMINAL = [COMPLETED, FAILED, CANCELLED, TIMED_OUT]"

abbreviation terminal :: "run_status \<Rightarrow> bool" where
  "terminal st \<equiv> st \<in> set TERMINAL"

section \<open>Rows\<close>

record run_row =
  r_id :: string
  r_org_id :: string
  r_user_id :: string
  r_tool_name :: string
  r_skill_id :: "string option"
  r_status :: run_status
  r_arguments :: json
  r_snapshot :: json
  r_result :: "json option"
  r_attempt_id :: "string option"
  r_generation :: int
  r_next_event_seq :: nat
  r_dispatch_id :: "string option"
  r_idempotency_key :: "string option"
  r_command_digest :: "string option"
  r_lease_until :: "int option"
  r_worker_id :: "string option"
  r_requires_approval :: bool
  r_run_session_id :: "string option"
  r_created_at :: int
  r_updated_at :: int

record attempt_row =
  t_id :: string
  t_run_id :: string
  t_attempt_no :: int
  t_generation :: int
  t_worker_id :: string
  t_status :: attempt_status
  t_lease_until :: "int option"
  t_started_at :: int
  t_heartbeat_at :: int
  t_completed_at :: "int option"
  t_error_message :: "string option"
  t_runtime_type :: "string option"
  t_runtime_version :: "string option"
  t_runtime_run_id :: "string option"
  t_runtime_session_id :: "string option"
  t_runtime_profile :: "string option"
  t_runtime_capability_snapshot :: "json option"
  t_runtime_idempotency_key :: "string option"
  t_runtime_bound_at :: "int option"
  t_runtime_terminal_at :: "int option"
  t_created_at :: int
  t_updated_at :: int

record event_row =
  e_id :: string
  e_run_id :: string
  e_attempt_id :: "string option"
  e_event_type :: string
  e_event_seq :: nat
  e_source :: string
  e_source_event_id :: "string option"
  e_payload :: dict
  e_created_at :: int

record artifact_row =
  f_id :: string
  f_run_id :: string
  f_attempt_id :: "string option"
  f_step_id :: "string option"
  f_name :: string
  f_content_type :: "string option"
  f_size_bytes :: "int option"
  f_storage_ref :: "string option"
  f_checksum :: "string option"
  f_storage_state :: "artifact_state option"
  f_storage_driver :: "string option"
  f_storage_key :: "string option"
  f_upload_mode :: "string option"
  f_idempotency_key :: "string option"
  f_state_reason :: "string option"
  f_persisted_at :: "int option"
  f_expires_at :: "int option"
  f_created_at :: int

record approval_row =
  p_id :: string
  p_run_id :: string
  p_approval_id :: string
  p_decision :: string
  p_evidence :: json
  p_created_at :: int

record session_row =
  s_id :: string
  s_org_id :: string
  s_user_id :: string
  s_metadata :: json
  s_context_version :: int
  s_deleted_at :: "int option"
  s_expires_at :: "int option"
  s_created_at :: int
  s_updated_at :: int

record step_row =
  st_id :: string
  st_run_id :: string
  st_step_id :: string
  st_owner_role :: string
  st_engine :: string
  st_status :: step_status
  st_depends_on :: json
  st_required :: bool
  st_required_artifacts :: json
  st_attempt_id :: "string option"
  st_run_generation :: int
  st_edge_job_id :: "string option"
  st_version :: nat
  st_result :: "json option"
  st_error_message :: "string option"
  st_created_at :: int
  st_updated_at :: int

record rejection_row =
  j_id :: string
  j_run_id :: string
  j_event_id :: "string option"
  j_source_event_id :: "string option"
  j_reason :: string
  j_details :: json
  j_created_at :: int

record database =
  runs :: "run_row list"
  attempts :: "attempt_row list"
  events :: "event_row list"
  artifacts :: "artifact_row list"
  approvals :: "approval_row list"
  sessions :: "session_row list"
  steps :: "step_row list"
  rejections :: "rejection_row list"

definition empty_db :: database where
  "empty_db = \<lparr>runs = [], attempts = [], events = [], artifacts = [], approvals = [],
     sessions = [], steps = [], rejections = []\<rparr>"

section \<open>The world of a handler\<close>

text \<open>
  \<open>files\<close> and \<open>folders\<close> are the artifact file system, by path; \<open>ext_calls\<close> the requests
  sent to other services, in order; \<open>uuid_pos\<close> how many identifiers \<open>uuid.uuid4()\<close> has
  given out. Of \<open>ext_call\<close>, \<open>Wire\<close> is a request at the address it is sent to, \<open>Query\<close> a statement
  sent to a foreign database. \<open>clock\<close> is the time a handler reads: \<open>_utcnow()\<close> and SQL \<open>NOW()\<close>.
\<close>

datatype ext_call =
    CloseExternalSession string
  | HttpRequest string string dict json
  | ConnectorRun string dict dict string
  | Wire string string string dict json
  | Query string string json

record world =
  db :: database
  files :: "(string list \<times> string) list"
  folders :: "string list list"
  clock :: int
  uuid_pos :: nat
  ext_calls :: "ext_call list"

type_synonym 'a op = "(world, 'a) prog"

text \<open>
  What the code takes from outside: the hash and identifier functions of the standard library,
  the answers of the services it calls, its settings. An HTTP call times out or fails on the
  network (\<open>Unreachable\<close>), fails in another way (\<open>HttpFault\<close>), or is answered by a status
  and a body, \<open>None\<close> when the body is no JSON. The answer to a request may depend on how many
  requests were made before it, so that a remote service can have a state of its own.
\<close>

datatype http = Unreachable | HttpFault string | Response int "json option"

record env =
  sha256 :: "string \<Rightarrow> string"
  uuid4 :: "nat \<Rightarrow> string"
  json_loads :: "string \<Rightarrow> json option"
  http_answer :: "nat \<Rightarrow> ext_call \<Rightarrow> http"
  connector_answer :: "nat \<Rightarrow> ext_call \<Rightarrow> exn + json list"
  secret_known :: "string \<Rightarrow> bool"
  hmac_sha256 :: "string \<Rightarrow> string \<Rightarrow> string"
  central_base_url :: string
  internal_token :: string
  capability_signing_key :: string
  lease_seconds :: int
  worker_name :: string
  artifact_root :: "string list"
  urandom :: "nat \<Rightarrow> string"
  rows_are_dicts :: bool
  working_dir :: "string list"

text \<open>An error answer of an endpoint: status and detail.\<close>

datatype api_error = ApiError nat string

definition digest_sorted :: "env \<Rightarrow> json \<Rightarrow> string" where
  "digest_sorted E j = sha256 E (dumps_sorted j)"

definition fresh_uuid :: "env \<Rightarrow> string op" where
  "fresh_uuid E = (\<lambda>w. (Inr (uuid4 E (uuid_pos w)), w\<lparr>uuid_pos := Suc (uuid_pos w)\<rparr>))"

definition now_op :: "int op" where
  "now_op = getsE clock"

text \<open>Sending a request, and the answer to it.\<close>

definition http_op :: "env \<Rightarrow> string \<Rightarrow> string \<Rightarrow> dict \<Rightarrow> json \<Rightarrow> http op" where
  "http_op E verb url headers body = (\<lambda>w.
     let c = HttpRequest verb url headers body in
     (Inr (http_answer E (length (ext_calls w)) c), w\<lparr>ext_calls := ext_calls w @ [c]\<rparr>))"

definition ext_call :: "ext_call \<Rightarrow> unit op" where
  "ext_call c = modifyE (\<lambda>w. w\<lparr>ext_calls := ext_calls w @ [c]\<rparr>)"

section \<open>Statements\<close>

definition upd_where :: "('r \<Rightarrow> bool) \<Rightarrow> ('r \<Rightarrow> 'r) \<Rightarrow> 'r list \<Rightarrow> 'r list" where
  "upd_where c f = List.map (\<lambda>r. if c r then f r else r)"

definition count_where :: "('r \<Rightarrow> bool) \<Rightarrow> 'r list \<Rightarrow> nat" where
  "count_where c rs = length (filter c rs)"

definition with_db :: "(database \<Rightarrow> database) \<Rightarrow> world \<Rightarrow> world" where
  "with_db g w = w\<lparr>db := g (db w)\<rparr>"

definition update_runs :: "(run_row \<Rightarrow> bool) \<Rightarrow> (run_row \<Rightarrow> run_row) \<Rightarrow> nat op" where
  "update_runs c f = (\<lambda>w. (Inr (count_where c (runs (db w))),
     with_db (\<lambda>d. d\<lparr>runs := upd_where c f (runs d)\<rparr>) w))"

definition update_attempts :: "(attempt_row \<Rightarrow> bool) \<Rightarrow> (attempt_row \<Rightarrow> attempt_row) \<Rightarrow> nat op" where
  "update_attempts c f = (\<lambda>w. (Inr (count_where c (attempts (db w))),
     with_db (\<lambda>d. d\<lparr>attempts := upd_where c f (attempts d)\<rparr>) w))"

definition update_steps :: "(step_row \<Rightarrow> bool) \<Rightarrow> (step_row \<Rightarrow> step_row) \<Rightarrow> nat op" where
  "update_steps c f = (\<lambda>w. (Inr (count_where c (steps (db w))),
     with_db (\<lambda>d. d\<lparr>steps := upd_where c f (steps d)\<rparr>) w))"

definition update_artifacts :: "(artifact_row \<Rightarrow> bool) \<Rightarrow> (artifact_row \<Rightarrow> artifact_row) \<Rightarrow> nat op" where
  "update_artifacts c f = (\<lambda>w. (Inr (count_where c (artifacts (db w))),
     with_db (\<lambda>d. d\<lparr>artifacts := upd_where c f (artifacts d)\<rparr>) w))"

definition update_sessions :: "(session_row \<Rightarrow> bool) \<Rightarrow> (session_row \<Rightarrow> session_row) \<Rightarrow> nat op" where
  "update_sessions c f = (\<lambda>w. (Inr (count_where c (sessions (db w))),
     with_db (\<lambda>d. d\<lparr>sessions := upd_where c f (sessions d)\<rparr>) w))"

definition insert_run :: "run_row \<Rightarrow> unit op" where
  "insert_run r = modifyE (with_db (\<lambda>d. d\<lparr>runs := runs d @ [r]\<rparr>))"

definition insert_attempt :: "attempt_row \<Rightarrow> unit op" where
  "insert_attempt r = modifyE (with_db (\<lambda>d. d\<lparr>attempts := attempts d @ [r]\<rparr>))"

definition insert_event :: "event_row \<Rightarrow> unit op" where
  "insert_event r = modifyE (with_db (\<lambda>d. d\<lparr>events := events d @ [r]\<rparr>))"

definition insert_artifact :: "artifact_row \<Rightarrow> unit op" where
  "insert_artifact r = modifyE (with_db (\<lambda>d. d\<lparr>artifacts := artifacts d @ [r]\<rparr>))"

definition insert_session :: "session_row \<Rightarrow> unit op" where
  "insert_session r = modifyE (with_db (\<lambda>d. d\<lparr>sessions := sessions d @ [r]\<rparr>))"

definition insert_step :: "step_row \<Rightarrow> unit op" where
  "insert_step r = modifyE (with_db (\<lambda>d. d\<lparr>steps := steps d @ [r]\<rparr>))"

definition insert_rejection :: "rejection_row \<Rightarrow> unit op" where
  "insert_rejection r = modifyE (with_db (\<lambda>d. d\<lparr>rejections := rejections d @ [r]\<rparr>))"

text \<open>\<open>INSERT \<dots> ON CONFLICT (run_id, approval_id) DO UPDATE\<close>.\<close>

definition upsert_approval :: "approval_row \<Rightarrow> unit op" where
  "upsert_approval a = modifyE (with_db (\<lambda>d.
     let same = (\<lambda>b. p_run_id b = p_run_id a \<and> p_approval_id b = p_approval_id a) in
     if count_where same (approvals d) = 0 then d\<lparr>approvals := approvals d @ [a]\<rparr>
     else d\<lparr>approvals := upd_where same
            (\<lambda>b. b\<lparr>p_evidence := p_evidence a, p_decision := p_decision a\<rparr>) (approvals d)\<rparr>))"

definition select_run :: "(run_row \<Rightarrow> bool) \<Rightarrow> run_row option op" where
  "select_run c = getsE (\<lambda>w. find c (runs (db w)))"

definition select_event :: "(event_row \<Rightarrow> bool) \<Rightarrow> event_row option op" where
  "select_event c = getsE (\<lambda>w. find c (events (db w)))"

definition select_attempt :: "(attempt_row \<Rightarrow> bool) \<Rightarrow> attempt_row option op" where
  "select_attempt c = getsE (\<lambda>w. find c (attempts (db w)))"

definition select_session :: "(session_row \<Rightarrow> bool) \<Rightarrow> session_row option op" where
  "select_session c = getsE (\<lambda>w. find c (sessions (db w)))"

definition select_artifact :: "(artifact_row \<Rightarrow> bool) \<Rightarrow> artifact_row option op" where
  "select_artifact c = getsE (\<lambda>w. find c (artifacts (db w)))"

text \<open>\<open>ORDER BY k DESC LIMIT 1\<close> and \<open>ORDER BY k ASC\<close>; rows with equal keys in table order.\<close>

fun first_max :: "('r \<Rightarrow> int) \<Rightarrow> 'r list \<Rightarrow> 'r option" where
  "first_max k [] = None"
| "first_max k (r # rs) =
     (case first_max k rs of None \<Rightarrow> Some r | Some m \<Rightarrow> if k m > k r then Some m else Some r)"

definition order_by :: "('r \<Rightarrow> int) \<Rightarrow> 'r list \<Rightarrow> 'r list" where
  "order_by k = sort_key k"

lemmas stmt_defs = update_runs_def update_attempts_def update_steps_def update_artifacts_def
  update_sessions_def insert_run_def insert_attempt_def insert_event_def insert_artifact_def
  insert_session_def insert_step_def insert_rejection_def upsert_approval_def select_run_def
  select_event_def select_attempt_def select_session_def select_artifact_def fresh_uuid_def
  now_op_def ext_call_def http_op_def with_db_def

section \<open>Reading the tables\<close>

definition find_run :: "world \<Rightarrow> string \<Rightarrow> run_row option" where
  "find_run w rid = find (\<lambda>r. r_id r = rid) (runs (db w))"

definition status_of :: "world \<Rightarrow> string \<Rightarrow> run_status option" where
  "status_of w rid = map_option r_status (find_run w rid)"

definition events_of :: "world \<Rightarrow> string \<Rightarrow> event_row list" where
  "events_of w rid = filter (\<lambda>e. e_run_id e = rid) (events (db w))"

definition steps_of :: "world \<Rightarrow> string \<Rightarrow> step_row list" where
  "steps_of w rid = filter (\<lambda>s. st_run_id s = rid) (steps (db w))"

lemma find_upd_where:
  assumes "\<And>r. P (f r) = P r"
  shows "find P (upd_where c f rs) = map_option (\<lambda>r. if c r then f r else r) (find P rs)"
  by (induction rs) (simp_all add: upd_where_def assms)

lemma find_append: "find P (xs @ ys) = (case find P xs of None \<Rightarrow> find P ys | Some x \<Rightarrow> Some x)"
  by (induction xs) auto

lemma filter_upd_where:
  "(\<And>r. P (f r) = P r) \<Longrightarrow> filter P (upd_where c f rs) = upd_where c f (filter P rs)"
  by (induction rs) (auto simp: upd_where_def)

lemma map_upd_where: "(\<And>r. g (f r) = g r) \<Longrightarrow> List.map g (upd_where c f rs) = List.map g rs"
  by (auto simp: upd_where_def)

lemma image_upd_where: "(\<And>r. g (f r) = g r) \<Longrightarrow> g ` set (upd_where c f rs) = g ` set rs"
  by (metis list.set_map map_upd_where)

lemma upd_where_length [simp]: "length (upd_where c f rs) = length rs"
  by (simp add: upd_where_def)

lemma find_Some_set: "find P xs = Some x \<Longrightarrow> x \<in> set xs \<and> P x"
  by (induction xs) (auto split: if_splits)

lemma find_None_all: "find P xs = None \<longleftrightarrow> (\<forall>x\<in>set xs. \<not> P x)"
  by (induction xs) auto

lemma count_where_0: "count_where c rs = 0 \<longleftrightarrow> (\<forall>r\<in>set rs. \<not> c r)"
  by (auto simp: count_where_def filter_empty_conv)

lemma upd_where_no: "(\<And>r. r \<in> set rs \<Longrightarrow> \<not> c r) \<Longrightarrow> upd_where c f rs = rs"
  by (auto simp: upd_where_def intro: map_idI)

lemma find_run_id: "find_run w rid = Some r \<Longrightarrow> r_id r = rid \<and> r \<in> set (runs (db w))"
  unfolding find_run_def by (drule find_Some_set) simp

lemma select_run_run [simp]: "select_run c w = (Inr (find c (runs (db w))), w)"
  by (simp add: select_run_def)

lemma select_event_run [simp]: "select_event c w = (Inr (find c (events (db w))), w)"
  by (simp add: select_event_def)

lemma select_attempt_run [simp]: "select_attempt c w = (Inr (find c (attempts (db w))), w)"
  by (simp add: select_attempt_def)

lemma select_session_run [simp]: "select_session c w = (Inr (find c (sessions (db w))), w)"
  by (simp add: select_session_def)

lemma select_artifact_run [simp]: "select_artifact c w = (Inr (find c (artifacts (db w))), w)"
  by (simp add: select_artifact_def)

lemma now_op_run [simp]: "now_op w = (Inr (clock w), w)"
  by (simp add: now_op_def)

lemma total_stmts:
  "total (update_runs c1 f1)" "total (update_attempts c2 f2)" "total (update_steps c3 f3)"
  "total (update_artifacts c4 f4)" "total (update_sessions c5 f5)" "total (insert_run r)"
  "total (insert_attempt t)" "total (insert_event e)" "total (insert_artifact f)" "total (insert_session s)"
  "total (insert_step u)" "total (insert_rejection j)" "total (upsert_approval p)" "total (select_run c6)"
  "total (select_event c7)" "total (select_attempt c8)" "total (select_session c9)"
  "total (select_artifact c10)" "total (fresh_uuid E)" "total now_op" "total (ext_call x)"
  "total (http_op E verb url hs body)"
  by (simp_all add: total_def stmt_defs Let_def)

section \<open>A concrete world\<close>

text \<open>Parameters and an empty store for concrete runs of the model.\<close>

definition sample_env :: env where
  "sample_env = \<lparr>sha256 = (\<lambda>s. s), uuid4 = (\<lambda>n. ''id-'' @ show_digits n), json_loads = (\<lambda>_. None),
     http_answer = (\<lambda>_ _. Response 200 (Some (JObj []))), connector_answer = (\<lambda>_ _. Inr []),
     secret_known = (\<lambda>_. True), hmac_sha256 = (\<lambda>k s. k @ s), central_base_url = ''http://central'',
     internal_token = ''internal'', capability_signing_key = ''key'', lease_seconds = 60, worker_name = ''worker-1'',
     artifact_root = [''data'', ''artifacts''], urandom = (\<lambda>n. ''random''), rows_are_dicts = True,
     working_dir = [''app'']\<rparr>"

definition sample_world :: world where
  "sample_world = \<lparr>db = empty_db, files = [], folders = [], clock = 0, uuid_pos = 0, ext_calls = []\<rparr>"

end
