(* ===== verification/Run_Events.thy ===== *)
theory Run_Events
  imports Run_Store
begin

text \<open>
  The event log and the status column of \<open>services/run_service.py\<close>: \<open>get_run\<close>,
  \<open>append_event\<close> (idempotent by source event id, fenced by attempt and generation, closed
  by a terminal status, one sequence number per event), \<open>list_events\<close>, \<open>set_status\<close>
  (compare-and-set on the status), \<open>record_event_rejection\<close>. The invariant \<open>log_ok\<close> is
  the gap-free numbering of every run's events.
\<close>

section \<open>Views\<close>

record run_view =
  v_run_id :: string
  v_org_id :: string
  v_user_id :: string
  v_tool_name :: string
  v_status :: run_status
  v_snapshot :: json
  v_result :: "json option"
  v_attempt_id :: "string option"
  v_run_session_id :: "string option"
  v_generation :: int
  v_created_at :: int
  v_updated_at :: int

record event_view =
  ev_event_id :: string
  ev_run_id :: string
  ev_event_type :: string
  ev_event_seq :: nat
  ev_source :: string
  ev_source_event_id :: "string option"
  ev_request_trace_id :: "string option"
  ev_timestamp :: int
  ev_payload :: dict

definition dict_or_empty :: "json \<Rightarrow> json" where
  "dict_or_empty j = (if truthy j then j else JObj [])"

definition view_of_run :: "run_row \<Rightarrow> run_view" where
  "view_of_run r =
     \<lparr>v_run_id = r_id r, v_org_id = r_org_id r, v_user_id = r_user_id r,
      v_tool_name = r_tool_name r, v_status = r_status r,
      v_snapshot = dict_or_empty (r_snapshot r), v_result = r_result r,
      v_attempt_id = r_attempt_id r, v_run_session_id = r_run_session_id r,
      v_generation = r_generation r, v_created_at = r_created_at r, v_updated_at = r_updated_at r\<rparr>"

text \<open>\<open>org_id = :org_id\<close> holds of no row when the parameter is NULL.\<close>

definition get_run :: "string \<Rightarrow> string option \<Rightarrow> run_view option op" where
  "get_run run_id org_id =
     bindE (select_run (\<lambda>r. r_id r = run_id \<and> Some (r_org_id r) = org_id))
       (\<lambda>row. returnE (map_option view_of_run row))"

section \<open>append_event\<close>

definition RUNTIME_BINDING_PUBLIC_OMIT_KEYS :: "string list" where
  "RUNTIME_BINDING_PUBLIC_OMIT_KEYS =
     [''runtime_run_id'', ''runtime_session_id'', ''runtime_idempotency_key'',
      ''runtime_capability_snapshot'', ''runtime_bound_at'', ''runtime_terminal_at'',
      ''runtime_type'', ''runtime_version'', ''runtime_profile'']"

definition omit_runtime_binding_keys :: "dict \<Rightarrow> dict" where
  "omit_runtime_binding_keys payload =
     filter (\<lambda>kv. fst kv \<notin> set RUNTIME_BINDING_PUBLIC_OMIT_KEYS) payload"

record event_opts =
  o_org_id :: "string option"
  o_attempt_id :: "string option"
  o_generation :: "int option"
  o_source :: string
  o_source_event_id :: "string option"
  o_request_trace_id :: "string option"
  o_context_version :: "int option"

definition no_opts :: event_opts where
  "no_opts = \<lparr>o_org_id = None, o_attempt_id = None, o_generation = None, o_source = ''agent'',
     o_source_event_id = None, o_request_trace_id = None, o_context_version = None\<rparr>"

definition org_opts :: "string option \<Rightarrow> event_opts" where
  "org_opts org = no_opts\<lparr>o_org_id := org\<rparr>"

definition attempt_opts :: "string option \<Rightarrow> string option \<Rightarrow> int option \<Rightarrow> event_opts" where
  "attempt_opts org att gen = no_opts\<lparr>o_org_id := org, o_attempt_id := att, o_generation := gen\<rparr>"

text \<open>A condition that is only added when the argument is not \<open>None\<close>.\<close>

definition when_given :: "'v option \<Rightarrow> ('v \<Rightarrow> bool) \<Rightarrow> bool" where
  "when_given a P \<longleftrightarrow> (case a of None \<Rightarrow> True | Some v \<Rightarrow> P v)"

definition str_given :: "string option \<Rightarrow> bool" where
  "str_given s \<longleftrightarrow> (case s of None \<Rightarrow> False | Some x \<Rightarrow> x \<noteq> [])"

definition snapshot_trace_id :: "string \<Rightarrow> string option op" where
  "snapshot_trace_id run_id =
     bindE (select_run (\<lambda>r. r_id r = run_id)) (\<lambda>row. returnE
       (case row of
          None \<Rightarrow> None
        | Some r \<Rightarrow> (case jget (r_snapshot r) ''request_trace_id'' of JStr t \<Rightarrow> Some t | _ \<Rightarrow> None)))"

definition event_row_view :: "string option \<Rightarrow> event_row \<Rightarrow> event_view" where
  "event_row_view trace e =
     \<lparr>ev_event_id = e_id e, ev_run_id = e_run_id e, ev_event_type = e_event_type e,
      ev_event_seq = e_event_seq e, ev_source = e_source e, ev_source_event_id = e_source_event_id e,
      ev_request_trace_id = trace, ev_timestamp = e_created_at e, ev_payload = e_payload e\<rparr>"

definition writable_for :: "string \<Rightarrow> event_opts \<Rightarrow> run_row \<Rightarrow> bool" where
  "writable_for run_id opts r \<longleftrightarrow>
     r_id r = run_id \<and> \<not> terminal (r_status r)
     \<and> when_given (o_org_id opts) (\<lambda>v. r_org_id r = v)
     \<and> when_given (o_attempt_id opts) (\<lambda>v. r_attempt_id r = Some v)
     \<and> when_given (o_generation opts) (\<lambda>v. r_generation r = v)"

text \<open>\<open>UPDATE runs SET next_event_seq = next_event_seq + 1 WHERE \<dots> RETURNING next_event_seq\<close>.\<close>

definition alloc_event_seq :: "string \<Rightarrow> event_opts \<Rightarrow> nat option op" where
  "alloc_event_seq run_id opts = (\<lambda>w.
     let c = writable_for run_id opts in
     case find c (runs (db w)) of
       None \<Rightarrow> (Inr None, w)
     | Some r \<Rightarrow> (Inr (Some (Suc (r_next_event_seq r))),
         with_db (\<lambda>d. d\<lparr>runs := upd_where c (\<lambda>r. r\<lparr>r_next_event_seq := Suc (r_next_event_seq r),
                                                   r_updated_at := clock w\<rparr>) (runs d)\<rparr>) w))"

definition stale_write :: exn where
  "stale_write = RuntimeError ''stale attempt, invalid generation, or terminal run cannot write events''"

definition write_event ::
  "env \<Rightarrow> string \<Rightarrow> string \<Rightarrow> dict \<Rightarrow> event_opts \<Rightarrow> event_row op" where
  "write_event E run_id event_type payload opts =
     bindE (fresh_uuid E) (\<lambda>event_id.
     bindE now_op (\<lambda>now.
     bindE (alloc_event_seq run_id opts) (\<lambda>seq.
       case seq of
         None \<Rightarrow> raiseE stale_write
       | Some n \<Rightarrow>
           let e = \<lparr>e_id = event_id, e_run_id = run_id, e_attempt_id = o_attempt_id opts,
                    e_event_type = event_type, e_event_seq = n, e_source = o_source opts,
                    e_source_event_id = o_source_event_id opts, e_payload = payload,
                    e_created_at = now\<rparr>
           in thenE (insert_event e) (returnE e))))"

definition append_event ::
  "env \<Rightarrow> string \<Rightarrow> string \<Rightarrow> dict \<Rightarrow> event_opts \<Rightarrow> event_view op" where
  "append_event E run_id event_type payload0 opts =
     (let payload1 = omit_runtime_binding_keys payload0;
          payload = (case o_context_version opts of
                       Some cv \<Rightarrow> if has_key payload1 ''context_version'' then payload1
                                  else AList.update ''context_version'' (JInt cv) payload1
                     | None \<Rightarrow> payload1)
      in
      bindE (if str_given (o_request_trace_id opts) then returnE (o_request_trace_id opts)
             else snapshot_trace_id run_id) (\<lambda>trace.
      bindE (if str_given (o_source_event_id opts)
             then select_event (\<lambda>e. e_run_id e = run_id \<and> e_source e = o_source opts
                                   \<and> e_source_event_id e = o_source_event_id opts)
             else returnE None) (\<lambda>existing.
      case existing of
        Some e \<Rightarrow>
          if digest_sorted E (JObj (e_payload e)) \<noteq> digest_sorted E (JObj payload)
          then raiseE (RuntimeError ''idempotency conflict: source_event_id payload mismatch'')
          else returnE (event_row_view trace e)
      | None \<Rightarrow>
          bindE (write_event E run_id event_type payload opts)
            (\<lambda>e. returnE (event_row_view trace e)))))"

definition list_events :: "string \<Rightarrow> nat \<Rightarrow> event_view list op" where
  "list_events run_id after_seq =
     bindE (snapshot_trace_id run_id) (\<lambda>trace.
     getsE (\<lambda>w. List.map (event_row_view trace)
        (sort_key e_event_seq
          (filter (\<lambda>e. e_run_id e = run_id \<and> e_event_seq e > after_seq) (events (db w))))))"

section \<open>set_status\<close>

definition close_external_session_if_present :: "string \<Rightarrow> string option \<Rightarrow> unit op" where
  "close_external_session_if_present run_id org_id =
     bindE (get_run run_id org_id) (\<lambda>run.
       case run of
         None \<Rightarrow> returnE ()
       | Some v \<Rightarrow> whenE (truthy (jget (v_snapshot v) ''integration_account_refs''))
                    (ext_call (CloseExternalSession run_id)))"

record status_opts =
  so_org_id :: "string option"
  so_attempt_id :: "string option"
  so_generation :: "int option"
  so_expected :: "run_status list option"
  so_result :: "json option"

definition status_for :: "string \<Rightarrow> run_status \<Rightarrow> status_opts \<Rightarrow> run_row \<Rightarrow> bool" where
  "status_for run_id st opts r \<longleftrightarrow>
     r_id r = run_id
     \<and> when_given (so_org_id opts) (\<lambda>v. r_org_id r = v)
     \<and> when_given (so_attempt_id opts) (\<lambda>v. r_attempt_id r = Some v)
     \<and> when_given (so_generation opts) (\<lambda>v. r_generation r = v)
     \<and> (case so_expected opts of
          Some es \<Rightarrow> r_status r \<in> set es
        | None \<Rightarrow> terminal st \<longrightarrow> \<not> terminal (r_status r))"

definition coalesce :: "'v option \<Rightarrow> 'v option \<Rightarrow> 'v option" where
  "coalesce a b = (case a of None \<Rightarrow> b | Some v \<Rightarrow> Some v)"

definition set_status :: "string \<Rightarrow> run_status \<Rightarrow> status_opts \<Rightarrow> bool op" where
  "set_status run_id st opts =
     bindE now_op (\<lambda>now.
     bindE (update_runs (status_for run_id st opts)
              (\<lambda>r. r\<lparr>r_status := st, r_result := coalesce (so_result opts) (r_result r),
                     r_updated_at := now\<rparr>)) (\<lambda>rowcount.
       if rowcount = 0 then
         (if so_attempt_id opts \<noteq> None then raiseE (RuntimeError ''stale attempt cannot update status'')
          else returnE False)
       else
         thenE (whenE (terminal st \<and> str_given (so_org_id opts))
                  (close_external_session_if_present run_id (so_org_id opts)))
           (returnE True)))"

definition expect :: "string option \<Rightarrow> run_status list \<Rightarrow> status_opts" where
  "expect org es = \<lparr>so_org_id = org, so_attempt_id = None, so_generation = None,
                    so_expected = Some es, so_result = None\<rparr>"

definition record_event_rejection ::
  "env \<Rightarrow> string \<Rightarrow> string \<Rightarrow> string option \<Rightarrow> string option \<Rightarrow> json \<Rightarrow> unit op" where
  "record_event_rejection E run_id reason event_id source_event_id details =
     bindE (fresh_uuid E) (\<lambda>rid. bindE now_op (\<lambda>now.
       insert_rejection \<lparr>j_id = rid, j_run_id = run_id, j_event_id = event_id,
         j_source_event_id = source_event_id, j_reason = reason, j_details = details,
         j_created_at = now\<rparr>))"

text \<open>An \<open>except RuntimeError: log\<close> clause.\<close>

definition drop_runtime_error :: "exn \<Rightarrow> unit op" where
  "drop_runtime_error e = (case e of RuntimeError _ \<Rightarrow> returnE () | _ \<Rightarrow> raiseE e)"

text \<open>\<open>_append_terminal_event\<close>: a \<open>RuntimeError\<close> is logged and dropped.\<close>

definition append_terminal_event ::
  "env \<Rightarrow> string \<Rightarrow> string \<Rightarrow> dict \<Rightarrow> string option \<Rightarrow> unit op" where
  "append_terminal_event E run_id event_type payload org_id =
     catchE (thenE (append_event E run_id event_type payload (org_opts org_id)) (returnE ()))
       drop_runtime_error"

section \<open>Guarantees\<close>

text \<open>A run that has reached a terminal status keeps it.\<close>

definition terminal_kept :: "world \<Rightarrow> world \<Rightarrow> bool" where
  "terminal_kept w w' \<longleftrightarrow>
     (\<forall>rid st. status_of w rid = Some st \<longrightarrow> terminal st \<longrightarrow> status_of w' rid = Some st)"

text \<open>Events are only ever added, at the end.\<close>

definition log_grows :: "world \<Rightarrow> world \<Rightarrow> bool" where
  "log_grows w w' \<longleftrightarrow> (\<exists>es. events (db w') = events (db w) @ es)"

text \<open>
  Run identifiers are distinct, every event belongs to a run, and the events of a run are
  numbered 1, 2, \<dots> up to its \<open>next_event_seq\<close>, in the order they were written.
\<close>

definition log_ok :: "world \<Rightarrow> bool" where
  "log_ok w \<longleftrightarrow>
     distinct (List.map r_id (runs (db w)))
     \<and> (\<forall>e\<in>set (events (db w)). e_run_id e \<in> r_id ` set (runs (db w)))
     \<and> (\<forall>r\<in>set (runs (db w)).
          List.map e_event_seq (events_of w (r_id r)) = [1..<Suc (r_next_event_seq r)])"

definition log_kept :: "world \<Rightarrow> world \<Rightarrow> bool" where
  "log_kept w w' \<longleftrightarrow> (log_ok w \<longrightarrow> log_ok w')"

text \<open>A run in a terminal status is closed: neither its status nor its events change.\<close>

definition frozen :: "world \<Rightarrow> world \<Rightarrow> bool" where
  "frozen w w' \<longleftrightarrow>
     (distinct (List.map r_id (runs (db w))) \<longrightarrow> distinct (List.map r_id (runs (db w')))
       \<and> (\<forall>rid st. status_of w rid = Some st \<longrightarrow> terminal st \<longrightarrow>
            status_of w' rid = Some st \<and> events_of w' rid = events_of w rid))"

text \<open>All of it: what every operation on runs is allowed to do.\<close>

definition safe :: "world \<Rightarrow> world \<Rightarrow> bool" where
  "safe w w' \<longleftrightarrow> terminal_kept w w' \<and> log_grows w w' \<and> log_kept w w' \<and> frozen w w'"

interpretation sw: guarantee safe
proof unfold_locales
  fix w1 w2 w3
  show "safe w1 w1"
    by (auto simp: safe_def terminal_kept_def log_grows_def log_kept_def frozen_def)
  assume "safe w1 w2" and "safe w2 w3"
  then show "safe w1 w3"
    unfolding safe_def terminal_kept_def log_grows_def log_kept_def frozen_def
    by (intro conjI; elim conjE) (blast, force, blast, metis)
qed

subsection \<open>Statements that leave runs and events alone\<close>

definition same_log :: "world \<Rightarrow> world \<Rightarrow> bool" where
  "same_log w w' \<longleftrightarrow> runs (db w') = runs (db w) \<and> events (db w') = events (db w)"

interpretation sl: guarantee same_log
  by unfold_locales (auto simp: same_log_def)

lemma guar_same_log: "guar same_log m \<Longrightarrow> guar safe m"
  by (simp add: guar_def same_log_def safe_def terminal_kept_def log_grows_def log_kept_def log_ok_def
      frozen_def events_of_def status_of_def find_run_def)

lemma same_log_stmts:
  "guar same_log (update_attempts ca fa)" "guar same_log (update_steps cs fs)"
  "guar same_log (update_artifacts cf ff)" "guar same_log (update_sessions cn fn)"
  "guar same_log (insert_attempt a)" "guar same_log (insert_artifact f)"
  "guar same_log (insert_session n)" "guar same_log (insert_step s)"
  "guar same_log (insert_rejection j)" "guar same_log (upsert_approval p)"
  "guar same_log (select_run c1)" "guar same_log (select_event c2)"
  "guar same_log (select_attempt c3)" "guar same_log (select_session c4)"
  "guar same_log (select_artifact c5)" "guar same_log (fresh_uuid E)"
  "guar same_log now_op" "guar same_log (ext_call x)"
  "guar same_log (http_op E verb url hs body)"
  by (simp_all add: guar_def stmt_defs getsE_def modifyE_def same_log_def Let_def)

lemmas log_stmts [guar_intros] = same_log_stmts same_log_stmts [THEN guar_same_log]

subsection \<open>Statements on runs\<close>

lemma find_run_update_runs:
  assumes "\<And>r. r_id (f r) = r_id r"
  shows "find_run (with_db (\<lambda>d. d\<lparr>runs := upd_where c f (runs d)\<rparr>) w) rid =
    map_option (\<lambda>r. if c r then f r else r) (find_run w rid)"
  by (simp add: find_run_def with_db_def find_upd_where assms)

lemma update_runs_status:
  assumes "\<And>r. r_id (f r) = r_id r"
    and "\<And>r. c r \<Longrightarrow> terminal (r_status r) \<Longrightarrow> r_status (f r) = r_status r"
    and "status_of w rid = Some st" and "terminal st"
  shows "status_of (with_db (\<lambda>d. d\<lparr>runs := upd_where c f (runs d)\<rparr>) w) rid = Some st"
proof -
  obtain z where "find_run w rid = Some z" "r_status z = st" using assms(3) by (auto simp: status_of_def)
  with assms(1,2,4) show ?thesis by (simp add: status_of_def find_run_update_runs)
qed

lemma update_runs_safe:
  assumes "\<And>r. r_id (f r) = r_id r" and "\<And>r. r_next_event_seq (f r) = r_next_event_seq r"
    and "\<And>r. c r \<Longrightarrow> terminal (r_status r) \<Longrightarrow> r_status (f r) = r_status r"
  shows "guar safe (update_runs c f)"
proof -
  have "safe w (with_db (\<lambda>d. d\<lparr>runs := upd_where c f (runs d)\<rparr>) w)" (is "safe w ?w") for w
  proof -
    note keep = update_runs_status [OF assms(1,3)]
    have "terminal_kept w ?w" using keep by (simp add: terminal_kept_def)
    moreover have "log_grows w ?w" by (simp add: log_grows_def with_db_def)
    moreover have "log_ok ?w" if "log_ok w"
      using that assms
      by (auto simp: log_ok_def with_db_def map_upd_where image_upd_where events_of_def)
        (auto simp: upd_where_def split: if_splits)
    then have "log_kept w ?w" by (simp add: log_kept_def)
    moreover have "frozen w ?w"
      using keep assms(1) by (simp add: frozen_def with_db_def map_upd_where events_of_def)
    ultimately show ?thesis by (simp add: safe_def)
  qed
  then show ?thesis by (simp add: guar_def update_runs_def)
qed

subsection \<open>Writing an event\<close>

text \<open>What a write does: nothing but raise, or exactly one event with the next number.\<close>

lemma write_event_cases:
  obtains (stale) "find (writable_for rid opts) (runs (db w)) = None"
      "write_event E rid ty p opts w = (Inl stale_write, w\<lparr>uuid_pos := Suc (uuid_pos w)\<rparr>)"
  | (ok) r e where "find (writable_for rid opts) (runs (db w)) = Some r"
      "e = \<lparr>e_id = uuid4 E (uuid_pos w), e_run_id = rid, e_attempt_id = o_attempt_id opts,
            e_event_type = ty, e_event_seq = Suc (r_next_event_seq r), e_source = o_source opts,
            e_source_event_id = o_source_event_id opts, e_payload = p, e_created_at = clock w\<rparr>"
      "write_event E rid ty p opts w = (Inr e, w\<lparr>uuid_pos := Suc (uuid_pos w), db := (db w)
         \<lparr>runs := upd_where (writable_for rid opts) (\<lambda>r. r\<lparr>r_next_event_seq := Suc (r_next_event_seq r),
             r_updated_at := clock w\<rparr>) (runs (db w)), events := events (db w) @ [e]\<rparr>\<rparr>)"
proof (cases "find (writable_for rid opts) (runs (db w))")
  case None
  then show ?thesis
    by (intro stale)
      (simp_all add: write_event_def alloc_event_seq_def stmt_defs prog_simps Let_def)
next
  case (Some r)
  then show ?thesis
    by (intro ok) (simp_all add: write_event_def alloc_event_seq_def stmt_defs prog_simps Let_def)
qed

lemma distinct_map_inj:
  "distinct (List.map g xs) \<Longrightarrow> x \<in> set xs \<Longrightarrow> y \<in> set xs \<Longrightarrow> g x = g y \<Longrightarrow> x = y"
  by (meson distinct_map inj_onD)

lemma write_event_log_kept: "log_ok w \<Longrightarrow> log_ok (snd (write_event E rid ty p opts w))"
proof -
  assume ok: "log_ok w"
  show "log_ok (snd (write_event E rid ty p opts w))"
  proof (rule write_event_cases [of rid opts w E ty p])
    assume "write_event E rid ty p opts w = (Inl stale_write, w\<lparr>uuid_pos := Suc (uuid_pos w)\<rparr>)"
    with ok show ?thesis by (simp add: log_ok_def events_of_def)
  next
    fix r e
    let ?c = "writable_for rid opts"
    let ?f = "\<lambda>r. r\<lparr>r_next_event_seq := Suc (r_next_event_seq r), r_updated_at := clock w\<rparr>"
    assume r: "find ?c (runs (db w)) = Some r"
      and e: "e = \<lparr>e_id = uuid4 E (uuid_pos w), e_run_id = rid, e_attempt_id = o_attempt_id opts,
            e_event_type = ty, e_event_seq = Suc (r_next_event_seq r), e_source = o_source opts,
            e_source_event_id = o_source_event_id opts, e_payload = p, e_created_at = clock w\<rparr>"
      and res: "write_event E rid ty p opts w = (Inr e, w\<lparr>uuid_pos := Suc (uuid_pos w), db := (db w)
         \<lparr>runs := upd_where ?c ?f (runs (db w)), events := events (db w) @ [e]\<rparr>\<rparr>)"
    from find_Some_set [OF r] have rin: "r \<in> set (runs (db w))" and rid: "r_id r = rid"
      by (auto simp: writable_for_def)
    let ?w = "snd (write_event E rid ty p opts w)"
    have seqs: "List.map e_event_seq (events_of ?w (r_id x)) = [1..<Suc (r_next_event_seq x)]"
      if "x \<in> set (runs (db ?w))" for x
    proof -
      from that res obtain y where y: "y \<in> set (runs (db w))" "x = (if ?c y then ?f y else y)"
        by (auto simp: upd_where_def)
      have old: "List.map e_event_seq (events_of w (r_id y)) = [1..<Suc (r_next_event_seq y)]"
        using ok y(1) by (simp add: log_ok_def)
      show ?thesis
      proof (cases "y = r")
        case True
        then have "?c y" using find_Some_set [OF r] by simp
        with True y(2) old res e rid show ?thesis by (simp add: events_of_def)
      next
        case False
        then have "r_id y \<noteq> rid"
          using ok y(1) rin rid distinct_map_inj [of r_id "runs (db w)" y r] by (auto simp: log_ok_def)
        then show ?thesis using y(2) old res e by (simp add: events_of_def writable_for_def)
      qed
    qed
    have ids: "List.map r_id (runs (db ?w)) = List.map r_id (runs (db w))"
      using res by (simp add: map_upd_where)
    have "r_id ` set (runs (db ?w)) = r_id ` set (runs (db w))"
      using ids by (metis list.set_map)
    with ok seqs ids res e rin rid show ?thesis by (auto simp: log_ok_def)
  qed
qed

lemma write_event_safe [guar_intros]: "guar safe (write_event E rid ty p opts)"
proof -
  have "safe w (snd (write_event E rid ty p opts w))" for w
  proof (rule write_event_cases [of rid opts w E ty p])
    assume "write_event E rid ty p opts w = (Inl stale_write, w\<lparr>uuid_pos := Suc (uuid_pos w)\<rparr>)"
    then show ?thesis
      by (simp add: safe_def terminal_kept_def log_grows_def log_kept_def log_ok_def frozen_def
          events_of_def status_of_def find_run_def)
  next
    fix r e
    let ?c = "writable_for rid opts"
    let ?f = "\<lambda>r. r\<lparr>r_next_event_seq := Suc (r_next_event_seq r), r_updated_at := clock w\<rparr>"
    let ?w = "snd (write_event E rid ty p opts w)"
    assume r: "find ?c (runs (db w)) = Some r"
      and e: "e = \<lparr>e_id = uuid4 E (uuid_pos w), e_run_id = rid, e_attempt_id = o_attempt_id opts,
            e_event_type = ty, e_event_seq = Suc (r_next_event_seq r), e_source = o_source opts,
            e_source_event_id = o_source_event_id opts, e_payload = p, e_created_at = clock w\<rparr>"
      and res: "write_event E rid ty p opts w = (Inr e, w\<lparr>uuid_pos := Suc (uuid_pos w), db := (db w)
         \<lparr>runs := upd_where ?c ?f (runs (db w)), events := events (db w) @ [e]\<rparr>\<rparr>)"
    have st: "status_of ?w x = status_of w x" for x
      using res by (simp add: status_of_def find_run_def find_upd_where map_option_case split: option.split)
    have evs: "events_of ?w x = events_of w x"
      if d: "distinct (List.map r_id (runs (db w)))" and x: "status_of w x = Some s" "terminal s" for x s
    proof -
      obtain z where z: "find_run w x = Some z" "r_status z = s" using x(1) by (auto simp: status_of_def)
      from find_Some_set [OF r] have rin: "r \<in> set (runs (db w))" "r_id r = rid" "\<not> terminal (r_status r)"
        by (auto simp: writable_for_def)
      have "x \<noteq> rid"
      proof
        assume "x = rid"
        then have "z = r" using distinct_map_inj [OF d, of z r] find_run_id [OF z(1)] rin by simp
        with z(2) x(2) rin(3) show False by simp
      qed
      then show ?thesis using res e by (simp add: events_of_def)
    qed
    show ?thesis
      using st evs write_event_log_kept [of w E rid ty p opts] res
      by (simp add: safe_def terminal_kept_def log_kept_def frozen_def log_grows_def map_upd_where)
  qed
  then show ?thesis by (simp add: guar_def)
qed

subsection \<open>The service operations\<close>

lemma get_run_same_log: "guar same_log (get_run rid org)"
  unfolding get_run_def by (intro sl.guar_rules guar_intros)

lemma snapshot_trace_id_same_log: "guar same_log (snapshot_trace_id rid)"
  unfolding snapshot_trace_id_def by (intro sl.guar_rules guar_intros)

lemma list_events_same_log: "guar same_log (list_events rid n)"
  unfolding list_events_def by (intro sl.guar_rules snapshot_trace_id_same_log)

lemma record_event_rejection_same_log: "guar same_log (record_event_rejection E rid why ev sid d)"
  unfolding record_event_rejection_def by (intro sl.guar_rules guar_intros)

lemma close_external_same_log: "guar same_log (close_external_session_if_present rid org)"
  unfolding close_external_session_if_present_def
  by (intro sl.guar_rules get_run_same_log guar_intros)

lemmas same_log_ops = get_run_same_log snapshot_trace_id_same_log list_events_same_log
  record_event_rejection_same_log close_external_same_log

lemmas same_log_ops_guar [guar_intros] = same_log_ops same_log_ops [THEN guar_same_log]

lemma append_event_safe [guar_intros]: "guar safe (append_event E rid ty p opts)"
  unfolding append_event_def by (intro sw.guar_rules guar_intros)

lemma drop_runtime_error_same_log: "guar same_log (drop_runtime_error e)"
  unfolding drop_runtime_error_def
  by (cases e) (auto intro: sl.guar_return sl.guar_raise)

lemmas drop_runtime_error_guar [guar_intros] = drop_runtime_error_same_log
  drop_runtime_error_same_log [THEN guar_same_log]

lemma append_terminal_event_safe [guar_intros]: "guar safe (append_terminal_event E rid ty p org)"
  unfolding append_terminal_event_def by (intro sw.guar_rules guar_intros)

text \<open>The calls of \<open>set_status\<close> that cannot overwrite a terminal status.\<close>

definition cas_safe :: "run_status \<Rightarrow> status_opts \<Rightarrow> bool" where
  "cas_safe st opts \<longleftrightarrow>
     (case so_expected opts of Some es \<Rightarrow> \<forall>s\<in>set es. \<not> terminal s | None \<Rightarrow> terminal st)"

lemma cas_safe_expect [simp]: "cas_safe st (expect org es) \<longleftrightarrow> (\<forall>s\<in>set es. \<not> terminal s)"
  by (simp add: cas_safe_def expect_def)

lemma set_status_safe [guar_intros]:
  assumes "cas_safe st opts"
  shows "guar safe (set_status rid st opts)"
proof -
  have "guar safe (update_runs (status_for rid st opts)
      (\<lambda>r. r\<lparr>r_status := st, r_result := coalesce (so_result opts) (r_result r), r_updated_at := now\<rparr>))"
    for now
    using assms
    by (intro update_runs_safe) (auto simp: status_for_def cas_safe_def split: option.splits)
  then show ?thesis
    unfolding set_status_def by (intro sw.guar_rules guar_intros)
qed

section \<open>Programs that leave the tables alone\<close>

definition same_db :: "world \<Rightarrow> world \<Rightarrow> bool" where
  "same_db w w' \<longleftrightarrow> db w' = db w"

interpretation sd: guarantee same_db
  by unfold_locales (auto simp: same_db_def)

lemma same_db_stmts:
  "guar same_db (select_run c1)" "guar same_db (select_attempt c2)" "guar same_db (fresh_uuid E)"
  "guar same_db now_op" "guar same_db (http_op E verb url hs body)"
  by (simp_all add: guar_def stmt_defs same_db_def getsE_def Let_def)

lemma guar_same_db: "guar same_db m \<Longrightarrow> guar same_log m"
  by (simp add: guar_def same_db_def same_log_def)

section \<open>Requests to other services\<close>

text \<open>Every request a program sends satisfies \<open>P\<close>.\<close>

definition sends :: "(ext_call \<Rightarrow> bool) \<Rightarrow> world \<Rightarrow> world \<Rightarrow> bool" where
  "sends P w w' \<longleftrightarrow> (\<exists>cs. ext_calls w' = ext_calls w @ cs \<and> (\<forall>x\<in>set cs. P x))"

interpretation sn: guarantee "sends P" for P
proof unfold_locales
  fix s t u :: world
  show "sends P s s" by (simp add: sends_def)
  assume "sends P s t" and "sends P t u"
  then obtain cs ds where "ext_calls t = ext_calls s @ cs" "\<forall>x\<in>set cs. P x"
    "ext_calls u = ext_calls t @ ds" "\<forall>x\<in>set ds. P x" by (auto simp: sends_def)
  then have "ext_calls u = ext_calls s @ (cs @ ds) \<and> (\<forall>x\<in>set (cs @ ds). P x)" by auto
  then show "sends P s u" unfolding sends_def by metis
qed

lemma sends_new:
  "sends P w w' \<Longrightarrow> x \<in> set (drop (length (ext_calls w)) (ext_calls w')) \<Longrightarrow> P x"
  by (auto simp: sends_def)

lemma sends_mono: "guar (sends P) m \<Longrightarrow> (\<And>x. P x \<Longrightarrow> Q x) \<Longrightarrow> guar (sends Q) m"
  unfolding guar_def sends_def by blast

lemma sends_http: "P (HttpRequest verb url hs body) \<Longrightarrow> guar (sends P) (http_op E verb url hs body)"
  by (simp add: guar_def http_op_def sends_def Let_def)

lemma sends_ext: "P c \<Longrightarrow> guar (sends P) (ext_call c)"
  by (simp add: guar_def ext_call_def sends_def)

lemma sends_stmts [guar_intros]:
  "guar (sends P) (update_runs cr fr)" "guar (sends P) (update_attempts ca fa)"
  "guar (sends P) (update_steps cs fs)" "guar (sends P) (update_artifacts cf ff)"
  "guar (sends P) (insert_attempt a)" "guar (sends P) (insert_artifact f)"
  "guar (sends P) (insert_event e)" "guar (sends P) (upsert_approval p)"
  "guar (sends P) (select_run c1)" "guar (sends P) (select_event c2)"
  "guar (sends P) (select_attempt c3)" "guar (sends P) (fresh_uuid E)" "guar (sends P) now_op"
  "guar (sends P) (alloc_event_seq rid opts)"
  by (simp_all add: guar_def stmt_defs getsE_def modifyE_def sends_def Let_def alloc_event_seq_def
      split: option.split)

lemma event_ops_sends [guar_intros]:
  "guar (sends P) (get_run rid org)" "guar (sends P) (append_event E rid ty p opts)"
  "guar (sends P) (list_events rid n)"
proof -
  show "guar (sends P) (get_run rid org)" unfolding get_run_def by (intro sn.guar_rules guar_intros)
  show "guar (sends P) (append_event E rid ty p opts)"
    unfolding append_event_def snapshot_trace_id_def write_event_def by (intro sn.guar_rules guar_intros)
  show "guar (sends P) (list_events rid n)"
    unfolding list_events_def snapshot_trace_id_def by (intro sn.guar_rules guar_intros)
qed

lemma set_status_sends:
  assumes "terminal st \<Longrightarrow> P (CloseExternalSession rid)"
  shows "guar (sends P) (set_status rid st opts)"
proof (cases "terminal st")
  case True
  then show ?thesis
    unfolding set_status_def close_external_session_if_present_def
    by (intro sn.guar_rules guar_intros sends_ext assms)
next
  case False
  then show ?thesis
    unfolding set_status_def by (simp only: HOL.False_implies_equals simp_thms whenE_def if_False)
      (intro sn.guar_rules guar_intros)
qed

lemma guar_case_http:
  "guar R m1 \<Longrightarrow> (\<And>m. guar R (m2 m)) \<Longrightarrow> (\<And>n b. guar R (m3 n b)) \<Longrightarrow>
   guar R (case x of Unreachable \<Rightarrow> m1 | HttpFault m \<Rightarrow> m2 m | Response n b \<Rightarrow> m3 n b)"
  by (cases x) auto

section \<open>Functional behaviour of append_event\<close>

lemma snapshot_trace_id_run: "\<exists>t. snapshot_trace_id rid w = (Inr t, w)"
  by (simp add: snapshot_trace_id_def stmt_defs prog_simps)

text \<open>The payload that is stored: the binding keys dropped, the context version added.\<close>

definition stored_payload :: "dict \<Rightarrow> event_opts \<Rightarrow> dict" where
  "stored_payload p opts =
     (let payload1 = omit_runtime_binding_keys p in
      case o_context_version opts of
        Some cv \<Rightarrow> if has_key payload1 ''context_version'' then payload1
                   else AList.update ''context_version'' (JInt cv) payload1
      | None \<Rightarrow> payload1)"

definition known_event :: "world \<Rightarrow> string \<Rightarrow> event_opts \<Rightarrow> event_row option" where
  "known_event w rid opts =
     (if str_given (o_source_event_id opts)
      then find (\<lambda>e. e_run_id e = rid \<and> e_source e = o_source opts
                    \<and> e_source_event_id e = o_source_event_id opts) (events (db w))
      else None)"

text \<open>What the call does in one world, the trace lookup being a read.\<close>

definition append_spec ::
  "string option \<Rightarrow> env \<Rightarrow> string \<Rightarrow> string \<Rightarrow> dict \<Rightarrow> event_opts \<Rightarrow> event_view op" where
  "append_spec trace E rid ty p opts w =
     (case known_event w rid opts of
        Some e \<Rightarrow>
          if digest_sorted E (JObj (e_payload e)) \<noteq> digest_sorted E (JObj (stored_payload p opts))
          then (Inl (RuntimeError ''idempotency conflict: source_event_id payload mismatch''), w)
          else (Inr (event_row_view trace e), w)
      | None \<Rightarrow>
          (case write_event E rid ty (stored_payload p opts) opts w of
             (r, w') \<Rightarrow> (case r of Inl x \<Rightarrow> (Inl x, w') | Inr e \<Rightarrow> (Inr (event_row_view trace e), w'))))"

lemma append_event_spec: "\<exists>trace. append_event E rid ty p opts w = append_spec trace E rid ty p opts w"
proof -
  obtain t where t: "snapshot_trace_id rid w = (Inr t, w)"
    using snapshot_trace_id_run by blast
  have "append_event E rid ty p opts w =
    append_spec (if str_given (o_request_trace_id opts) then o_request_trace_id opts else t) E rid ty p opts w"
    unfolding append_event_def append_spec_def stored_payload_def [symmetric] known_event_def Let_def
    by (simp add: bindE_def returnE_def raiseE_def t stored_payload_def Let_def split: option.split)
  then show ?thesis by blast
qed

lemma write_event_none:
  assumes "find (writable_for rid opts) (runs (db w)) = None"
  shows "write_event E rid ty p opts w = (Inl stale_write, w\<lparr>uuid_pos := Suc (uuid_pos w)\<rparr>)"
  by (rule write_event_cases [of rid opts w E ty p]) (use assms in auto)

lemma append_event_known:
  assumes "known_event w rid opts = Some e"
  shows "\<exists>v. append_event E rid ty p opts w =
    (if digest_sorted E (JObj (e_payload e)) \<noteq> digest_sorted E (JObj (stored_payload p opts))
     then (Inl (RuntimeError ''idempotency conflict: source_event_id payload mismatch''), w)
     else (Inr v, w)) \<and> ev_event_id v = e_id e \<and> ev_event_seq v = e_event_seq e"
proof -
  obtain trace where "append_event E rid ty p opts w = append_spec trace E rid ty p opts w"
    using append_event_spec by blast
  then show ?thesis
    by (intro exI [of _ "event_row_view trace e"]) (simp add: append_spec_def assms event_row_view_def)
qed

lemma append_event_refused:
  assumes "known_event w rid opts = None" and "find (writable_for rid opts) (runs (db w)) = None"
  shows "append_event E rid ty p opts w = (Inl stale_write, w\<lparr>uuid_pos := Suc (uuid_pos w)\<rparr>)"
proof -
  obtain trace where "append_event E rid ty p opts w = append_spec trace E rid ty p opts w"
    using append_event_spec by blast
  then show ?thesis by (simp add: append_spec_def assms write_event_none)
qed

text \<open>The row and the world a successful write leaves, \<open>r\<close> being the run's row before.\<close>

definition event_row_for ::
  "env \<Rightarrow> world \<Rightarrow> string \<Rightarrow> string \<Rightarrow> dict \<Rightarrow> event_opts \<Rightarrow> run_row \<Rightarrow> event_row" where
  "event_row_for E w rid ty p opts r =
     \<lparr>e_id = uuid4 E (uuid_pos w), e_run_id = rid, e_attempt_id = o_attempt_id opts,
      e_event_type = ty, e_event_seq = Suc (r_next_event_seq r), e_source = o_source opts,
      e_source_event_id = o_source_event_id opts, e_payload = p, e_created_at = clock w\<rparr>"

definition event_written :: "world \<Rightarrow> string \<Rightarrow> event_opts \<Rightarrow> event_row \<Rightarrow> world" where
  "event_written w rid opts e =
     w\<lparr>uuid_pos := Suc (uuid_pos w), db := (db w)
       \<lparr>runs := upd_where (writable_for rid opts) (\<lambda>r. r\<lparr>r_next_event_seq := Suc (r_next_event_seq r),
             r_updated_at := clock w\<rparr>) (runs (db w)), events := events (db w) @ [e]\<rparr>\<rparr>"

lemma write_event_some:
  assumes "find (writable_for rid opts) (runs (db w)) = Some r"
  shows "write_event E rid ty p opts w =
    (Inr (event_row_for E w rid ty p opts r), event_written w rid opts (event_row_for E w rid ty p opts r))"
  by (rule write_event_cases [of rid opts w E ty p])
    (use assms in \<open>auto simp: event_row_for_def event_written_def\<close>)

lemma append_event_some:
  assumes "known_event w rid opts = None" and "find (writable_for rid opts) (runs (db w)) = Some r"
    and "e = event_row_for E w rid ty (stored_payload p opts) opts r"
  shows "\<exists>trace. append_event E rid ty p opts w = (Inr (event_row_view trace e), event_written w rid opts e)"
proof -
  obtain trace where "append_event E rid ty p opts w = append_spec trace E rid ty p opts w"
    using append_event_spec by blast
  then show ?thesis by (auto simp: append_spec_def assms write_event_some)
qed

lemma writable_for_source [simp]:
  "writable_for rid (opts\<lparr>o_source_event_id := x\<rparr>) = writable_for rid opts"
  by (rule ext) (simp add: writable_for_def)

lemma event_written_writable:
  assumes "find (writable_for rid opts) (runs (db w)) = Some r"
  shows "find (writable_for rid opts) (runs (db (event_written w rid opts e))) =
    Some (r\<lparr>r_next_event_seq := Suc (r_next_event_seq r), r_updated_at := clock w\<rparr>)"
  using assms find_Some_set [OF assms]
  by (simp add: event_written_def find_upd_where writable_for_def)

lemma event_written_events [simp]:
  "events (db (event_written w rid opts e)) = events (db w) @ [e]"
  by (simp add: event_written_def)

lemma known_event_none:
  "\<not> str_given (o_source_event_id opts) \<Longrightarrow> known_event w rid opts = None"
  "\<forall>e\<in>set (events (db w)). e_source_event_id e \<noteq> o_source_event_id opts \<Longrightarrow> known_event w rid opts = None"
  by (auto simp: known_event_def find_None_all)

lemma not_writable_terminal:
  assumes "find_run w rid = Some r" and "terminal (r_status r)"
    and "distinct (List.map r_id (runs (db w)))"
  shows "find (writable_for rid opts) (runs (db w)) = None"
proof -
  have "x = r" if "x \<in> set (runs (db w))" "r_id x = rid" for x
    using distinct_map_inj [OF assms(3)] find_run_id [OF assms(1)] that by simp
  then show ?thesis using assms(2) by (auto simp: find_None_all writable_for_def)
qed

lemma upd_where_none: "\<forall>r\<in>set rs. \<not> c r \<Longrightarrow> upd_where c f rs = rs"
  by (rule upd_where_no) blast

lemma set_status_no_row:
  assumes "\<forall>r\<in>set (runs (db w)). \<not> status_for rid st opts r" and "so_attempt_id opts = None"
  shows "set_status rid st opts w = (Inr False, w)"
  using assms
  by (simp add: set_status_def bindE_def update_runs_def count_where_0 [THEN iffD2] with_db_def upd_where_none)

lemma list_events_run: "\<exists>evs. list_events rid n w = (Inr evs, w)"
  using snapshot_trace_id_run [of rid w] by (auto simp: list_events_def bindE_def)

section \<open>Functional behaviour of set_status\<close>

definition after_status :: "run_status \<Rightarrow> status_opts \<Rightarrow> int \<Rightarrow> run_row \<Rightarrow> run_row" where
  "after_status st opts now r =
     r\<lparr>r_status := st, r_result := coalesce (so_result opts) (r_result r), r_updated_at := now\<rparr>"

lemma close_external_db: "db (snd (close_external_session_if_present rid org w)) = db w
    \<and> fst (close_external_session_if_present rid org w) = Inr ()"
  by (simp add: close_external_session_if_present_def get_run_def bindE_def whenE_def ext_call_def
      split: option.split)

lemma set_status_effect:
  assumes "distinct (List.map r_id (runs (db w)))" and "find_run w rid = Some r" and "so_attempt_id opts = None"
  shows "\<exists>w'. set_status rid st opts w = (Inr (status_for rid st opts r), w')
    \<and> db w' = (db w)\<lparr>runs := upd_where (status_for rid st opts) (after_status st opts (clock w)) (runs (db w))\<rparr>
    \<and> status_of w' rid = Some (if status_for rid st opts r then st else r_status r)"
proof -
  let ?c = "status_for rid st opts" and ?f = "after_status st opts (clock w)"
  let ?w = "w\<lparr>db := (db w)\<lparr>runs := upd_where ?c ?f (runs (db w))\<rparr>\<rparr>"
  have rid: "r_id r = rid" and rin: "r \<in> set (runs (db w))" using find_run_id [OF assms(2)] by simp_all
  have only: "x = r" if "x \<in> set (runs (db w))" "?c x" for x
    using that distinct_map_inj [OF assms(1) that(1) rin] rid by (simp add: status_for_def)
  have upd: "update_runs ?c ?f w = (Inr (count_where ?c (runs (db w))), ?w)"
    by (simp add: update_runs_def with_db_def)
  have f: "?f = (\<lambda>r. r\<lparr>r_status := st, r_result := coalesce (so_result opts) (r_result r), r_updated_at := clock w\<rparr>)"
    by (rule ext) (simp add: after_status_def)
  have fr: "find_run ?w rid = Some (if ?c r then ?f r else r)"
    using assms(2) by (simp add: find_run_def find_upd_where after_status_def)
  show ?thesis
  proof (cases "?c r")
    case False
    then have "count_where ?c (runs (db w)) = 0" using only by (auto simp: count_where_0)
    with False upd fr show ?thesis
      by (intro exI [of _ ?w]) (simp add: set_status_def f [symmetric] assms(3) bindE_def status_of_def)
  next
    case True
    then have "count_where ?c (runs (db w)) \<noteq> 0" using rin by (auto simp: count_where_0)
    let ?v = "snd (whenE (terminal st \<and> str_given (so_org_id opts))
      (close_external_session_if_present rid (so_org_id opts)) ?w)"
    have v: "db ?v = db ?w" "fst (whenE (terminal st \<and> str_given (so_org_id opts))
      (close_external_session_if_present rid (so_org_id opts)) ?w) = Inr ()"
      using close_external_db [of rid "so_org_id opts" ?w] by (simp_all add: whenE_def)
    have wh: "whenE (terminal st \<and> str_given (so_org_id opts))
      (close_external_session_if_present rid (so_org_id opts)) ?w = (Inr (), ?v)"
      using v(2) by (metis prod.collapse)
    have "set_status rid st opts w = (Inr True, ?v)"
      using \<open>count_where ?c (runs (db w)) \<noteq> 0\<close>
      by (simp add: set_status_def f [symmetric] bindE_run [where m = now_op, OF now_op_run]
          bindE_run [where m = "update_runs ?c ?f", OF upd]
          thenE_run [where m = "whenE (terminal st \<and> str_given (so_org_id opts))
            (close_external_session_if_present rid (so_org_id opts))", OF wh])
    moreover have "status_of ?v rid = Some st"
      using fr v(1) True by (simp add: status_of_def find_run_def after_status_def)
    ultimately show ?thesis using True v(1) by (intro exI [of _ ?v]) simp
  qed
qed

lemma find_stronger: "find P xs = Some r \<Longrightarrow> Q r \<Longrightarrow> (\<And>x. Q x \<Longrightarrow> P x) \<Longrightarrow> find Q xs = Some r"
  by (induction xs) (auto split: if_splits)

lemma writable_found:
  "find_run w rid = Some r \<Longrightarrow> writable_for rid opts r \<Longrightarrow> find (writable_for rid opts) (runs (db w)) = Some r"
  unfolding find_run_def by (erule find_stronger) (simp_all add: writable_for_def)

text \<open>The world after a status that is not terminal was set.\<close>

definition status_written :: "world \<Rightarrow> string \<Rightarrow> run_status \<Rightarrow> status_opts \<Rightarrow> world" where
  "status_written w rid st opts =
     w\<lparr>db := (db w)\<lparr>runs := upd_where (status_for rid st opts) (after_status st opts (clock w)) (runs (db w))\<rparr>\<rparr>"

lemma set_status_live:
  assumes "find_run w rid = Some r" and "status_for rid st opts r" and "\<not> terminal st"
  shows "set_status rid st opts w = (Inr True, status_written w rid st opts)"
proof -
  have "count_where (status_for rid st opts) (runs (db w)) \<noteq> 0"
    using find_run_id [OF assms(1)] assms(2) by (auto simp: count_where_0)
  moreover have "after_status st opts (clock w) =
      (\<lambda>r. r\<lparr>r_status := st, r_result := coalesce (so_result opts) (r_result r), r_updated_at := clock w\<rparr>)"
    by (rule ext) (simp add: after_status_def)
  ultimately show ?thesis
    using assms(3)
    by (simp add: set_status_def bindE_def update_runs_def with_db_def status_written_def thenE_def whenE_def)
qed

lemma status_written_simps [simp]:
  "events (db (status_written w rid st opts)) = events (db w)"
  "steps (db (status_written w rid st opts)) = steps (db w)"
  "attempts (db (status_written w rid st opts)) = attempts (db w)"
  "clock (status_written w rid st opts) = clock w"
  "uuid_pos (status_written w rid st opts) = uuid_pos w"
  "ext_calls (status_written w rid st opts) = ext_calls w"
  "List.map r_id (runs (db (status_written w rid st opts))) = List.map r_id (runs (db w))"
  by (simp_all add: status_written_def map_upd_where after_status_def)

lemma status_written_find:
  "find_run w rid = Some r \<Longrightarrow> status_for rid st opts r \<Longrightarrow>
   find_run (status_written w rid st opts) rid = Some (after_status st opts (clock w) r)"
  by (simp add: find_run_def status_written_def find_upd_where after_status_def)

text \<open>A live run accepts an event without source identifier.\<close>

lemma append_event_live:
  assumes "find_run w rid = Some r" and "writable_for rid opts r" and "\<not> str_given (o_source_event_id opts)"
    and "e = event_row_for E w rid ty (stored_payload p opts) opts r"
  shows "\<exists>v. append_event E rid ty p opts w = (Inr v, event_written w rid opts e)"
  using append_event_some [OF known_event_none(1) [OF assms(3)] writable_found [OF assms(1,2)] assms(4)] by blast

lemma event_written_simps [simp]:
  "steps (db (event_written w rid opts e)) = steps (db w)"
  "attempts (db (event_written w rid opts e)) = attempts (db w)"
  "clock (event_written w rid opts e) = clock w"
  "ext_calls (event_written w rid opts e) = ext_calls w"
  "List.map r_id (runs (db (event_written w rid opts e))) = List.map r_id (runs (db w))"
  by (simp_all add: event_written_def map_upd_where)

lemma event_written_find:
  "find_run w rid = Some r \<Longrightarrow> writable_for rid opts r \<Longrightarrow>
   find_run (event_written w rid opts e) rid =
     Some (r\<lparr>r_next_event_seq := Suc (r_next_event_seq r), r_updated_at := clock w\<rparr>)"
  by (simp add: find_run_def event_written_def find_upd_where)

end
