(* ===== verification/Key_Names.thy ===== *)
theory Key_Names
  imports Prelude
begin

text \<open>
  What it means that a key names something, in the terms of a reader and not of the code: the name
  occurs somewhere in the key. The lemma connects it with the substring test of the code.
\<close>

definition mentions :: "string \<Rightarrow> string \<Rightarrow> bool" where
  "mentions key word \<longleftrightarrow> (\<exists>u v. key = u @ word @ v)"

lemma mentions_Cons: "mentions (c # s) p \<longleftrightarrow> startswith (c # s) p \<or> mentions s p"
proof
  assume "mentions (c # s) p"
  then obtain u v where uv: "c # s = u @ p @ v" by (auto simp: mentions_def)
  show "startswith (c # s) p \<or> mentions s p"
  proof (cases u)
    case Nil
    then show ?thesis using uv by (auto simp: startswith_iff)
  next
    case (Cons d u')
    then show ?thesis using uv by (auto simp: mentions_def)
  qed
next
  assume "startswith (c # s) p \<or> mentions s p"
  then show "mentions (c # s) p"
  proof
    assume "startswith (c # s) p"
    then obtain r where "c # s = [] @ p @ r" by (auto simp: startswith_iff)
    then show ?thesis unfolding mentions_def by blast
  next
    assume "mentions s p"
    then obtain u v where "s = u @ p @ v" by (auto simp: mentions_def)
    then have "c # s = (c # u) @ p @ v" by simp
    then show ?thesis unfolding mentions_def by blast
  qed
qed

lemma contains_mentions: "contains_sub s p = mentions s p"
  by (induction s) (simp_all add: mentions_Cons, simp add: mentions_def)

lemma endswith_iff: "endswith s p \<longleftrightarrow> (\<exists>u. s = u @ p)"
proof
  assume "endswith s p"
  then have "s = take (length s - length p) s @ p" unfolding endswith_def by (metis append_take_drop_id)
  then show "\<exists>u. s = u @ p" by blast
qed (auto simp: endswith_def)

lemma mentions_trans: "mentions s p \<Longrightarrow> mentions p q \<Longrightarrow> mentions s q"
  unfolding mentions_def by (metis append.assoc)

end
