(* ===== verification/Run_Snapshot.thy ===== *)
theory Run_Snapshot
  imports Run_Store Key_Names
begin

text \<open>
  The frozen execution snapshot of a run: \<open>_sanitize_sensitive_keys\<close>,
  \<open>_freeze_snapshot_topology\<close> and \<open>build_snapshot\<close> of \<open>services/run_service.py\<close>, and
  \<open>normalize_request_trace_id\<close> of \<open>services/execution_observability.py\<close>. The lemmas say
  that a sanitized value shows no credential at any depth, that sanitizing changes nothing
  else, and that the delegation topology of a snapshot is one of the two allowed ones, with a
  capability reference exactly when it is delegated.
\<close>

section \<open>Sanitizing\<close>

definition SENSITIVE_PARTS :: "string list" where
  "SENSITIVE_PARTS = [''token'', ''secret'', ''password'', ''api_key'', ''authorization'', ''auth_token'']"

definition is_ref_key :: "string \<Rightarrow> bool" where
  "is_ref_key k \<longleftrightarrow> lower k = ''secret_ref_id'' \<or> endswith (lower k) ''_secret_ref_id''"

definition is_secret_key :: "string \<Rightarrow> bool" where
  "is_secret_key k \<longleftrightarrow> \<not> is_ref_key k \<and> list_ex (contains_sub (lower k)) SENSITIVE_PARTS"

fun sanitize_sensitive_keys :: "json \<Rightarrow> json" where
  "sanitize_sensitive_keys (JObj kvs) =
     JObj (List.map (\<lambda>(k, v). (k, if is_ref_key k then sanitize_sensitive_keys v
                                   else if is_secret_key k then JStr ''[REDACTED]''
                                   else sanitize_sensitive_keys v)) kvs)"
| "sanitize_sensitive_keys (JList xs) = JList (List.map sanitize_sensitive_keys xs)"
| "sanitize_sensitive_keys j = j"

text \<open>A value that shows no credential: under a sensitive key there is the marker only.\<close>

fun no_secrets :: "json \<Rightarrow> bool" where
  "no_secrets (JObj kvs) \<longleftrightarrow>
     (\<forall>(k, v)\<in>set kvs. if is_secret_key k then v = JStr ''[REDACTED]'' else no_secrets v)"
| "no_secrets (JList xs) \<longleftrightarrow> (\<forall>x\<in>set xs. no_secrets x)"
| "no_secrets j \<longleftrightarrow> True"

lemma secret_not_ref: "is_secret_key k \<Longrightarrow> \<not> is_ref_key k"
  by (simp add: is_secret_key_def)

lemma sanitize_no_secrets_aux: "no_secrets (sanitize_sensitive_keys j)"
  by (induction j rule: sanitize_sensitive_keys.induct) (auto simp: secret_not_ref)

lemma sanitize_fixes: "no_secrets j \<Longrightarrow> sanitize_sensitive_keys j = j"
  by (induction j rule: sanitize_sensitive_keys.induct)
    (auto intro!: map_idI simp: secret_not_ref split: if_splits)

lemma sanitize_keys: "List.map fst (dict_of (sanitize_sensitive_keys (JObj d))) = List.map fst d"
  by (simp add: comp_def case_prod_beta)

section \<open>Trace identifiers\<close>

definition TRACE_ID_MAX_LEN :: nat where
  "TRACE_ID_MAX_LEN = 64"

definition trace_char :: "char \<Rightarrow> bool" where
  "trace_char c \<longleftrightarrow>
     (let n = (of_char c :: nat) in
      (48 \<le> n \<and> n \<le> 57) \<or> (65 \<le> n \<and> n \<le> 90) \<or> (97 \<le> n \<and> n \<le> 122) \<or> c \<in> set ''_.:-'')"

definition normalize_request_trace_id :: "string option \<Rightarrow> string option" where
  "normalize_request_trace_id v =
     (case v of
        None \<Rightarrow> None
      | Some s \<Rightarrow>
          let stripped = strip s in
          if stripped = [] \<or> py_len stripped > TRACE_ID_MAX_LEN then None
          else if \<not> list_all trace_char stripped then None
          else Some stripped)"

section \<open>The request\<close>

record create_request =
  q_run_id :: "string option"
  q_dispatch_id :: "string option"
  q_org_id :: "string option"
  q_user_id :: "string option"
  q_tool_name :: string
  q_skill_id :: "string option"
  q_skill_version :: "string option"
  q_skill_release_id :: "string option"
  q_skill_release_digest :: "string option"
  q_snapshot_hash :: "string option"
  q_connector_binding_refs :: "string list"
  q_integration_account_refs :: "string list"
  q_expert_id :: "string option"
  q_knowledge_refs :: "string list"
  q_placement :: dict
  q_arguments :: dict
  q_requires_approval :: bool
  q_route_snapshot :: dict
  q_output_policy :: dict
  q_client_context :: dict
  q_request_trace_id :: "string option"
  q_idempotency_key :: "string option"
  q_run_session_id :: "string option"
  q_execution_context :: "dict option"
  q_context_version :: "int option"
  q_delegation_topology :: "string option"
  q_runtime_capability_ref :: "dict option"

definition jstrs :: "string list \<Rightarrow> json" where
  "jstrs xs = JList (List.map JStr xs)"

definition ALLOWED_DELEGATION_TOPOLOGIES :: "string list" where
  "ALLOWED_DELEGATION_TOPOLOGIES = [''single_agent'', ''runtime_delegated'']"

definition REMOTE_AGENT_TOOL_NAME :: string where
  "REMOTE_AGENT_TOOL_NAME = ''remote_agent''"

text \<open>\<open>str(d.get(k) or "").strip()\<close>.\<close>

definition strip_field :: "dict \<Rightarrow> string \<Rightarrow> string" where
  "strip_field d k = strip (py_str (or_else (dget d k) (JStr [])))"

definition freeze_snapshot_topology ::
  "create_request \<Rightarrow> exn + (string \<times> dict option)" where
  "freeze_snapshot_topology q =
     (let topology = (if str_set (q_delegation_topology q)
                      then strip (str_or (q_delegation_topology q) [])
                      else ''single_agent'')
      in
      if topology \<notin> set ALLOWED_DELEGATION_TOPOLOGIES
      then Inl (ValueError ''EXECUTION_TOPOLOGY_NOT_SUPPORTED'')
      else if topology = ''single_agent'' then Inr (topology, None)
      else
        let ref = (case q_runtime_capability_ref q of None \<Rightarrow> [] | Some d \<Rightarrow> d);
            name = strip_field ref ''name'';
            version = strip_field ref ''version''
        in if name = [] \<or> version = [] then Inl (ValueError ''RUNTIME_CAPABILITY_UNAVAILABLE'')
           else Inr (topology, Some [(''name'', JStr name), (''version'', JStr version)]))"

definition release_digest :: "env \<Rightarrow> create_request \<Rightarrow> string" where
  "release_digest E q =
     (if str_set (q_skill_release_digest q) then str_or (q_skill_release_digest q) []
      else sha256 E (show_opt (q_skill_id q) @ '':'' @ show_opt (q_skill_version q) @ '':'' @ q_tool_name q))"

definition frozen_policy :: "create_request \<Rightarrow> string \<Rightarrow> dict option \<Rightarrow> dict" where
  "frozen_policy q topology capability_ref =
     (let policy0 = AList.update ''delegation_topology'' (JStr topology)
                      (dict_of (sanitize_sensitive_keys (JObj (q_route_snapshot q))))
      in case capability_ref of
           Some ref \<Rightarrow> AList.update ''runtime_capability_ref'' (JObj ref) policy0
         | None \<Rightarrow> AList.delete ''runtime_capability_ref'' policy0)"

definition opt_field :: "string \<Rightarrow> json option \<Rightarrow> dict" where
  "opt_field k v = (case v of None \<Rightarrow> [] | Some j \<Rightarrow> [(k, j)])"

definition base_body :: "env \<Rightarrow> create_request \<Rightarrow> string \<Rightarrow> string \<Rightarrow> string \<Rightarrow> dict option \<Rightarrow> dict" where
  "base_body E q org_id user_id topology capability_ref =
     [(''skill_id'', if q_tool_name q = REMOTE_AGENT_TOOL_NAME then JNull
                     else JStr (str_or (q_skill_id q) (q_tool_name q))),
      (''skill_version'', jopt (q_skill_version q)),
      (''skill_release_id'', jopt (q_skill_release_id q)),
      (''skill_release_digest'', JStr (release_digest E q)),
      (''connector_binding_refs'', jstrs (q_connector_binding_refs q)),
      (''integration_account_refs'', jstrs (q_integration_account_refs q)),
      (''expert_id'', JStr (str_or (q_expert_id q) [])),
      (''knowledge_refs'', jstrs (q_knowledge_refs q)),
      (''model_policy'', JObj []),
      (''runtime_policy'', JObj (frozen_policy q topology capability_ref)),
      (''placement'', JObj (if q_placement q = [] then [(''role'', JStr ''central'')]
                            else q_placement q)),
      (''delegation_topology'', JStr topology),
      (''org_id'', JStr org_id),
      (''user_id'', JStr user_id),
      (''output_policy'', JObj (q_output_policy q)),
      (''client_context'', sanitize_sensitive_keys (JObj (q_client_context q))),
      (''request_trace_id'', jopt (normalize_request_trace_id (q_request_trace_id q))),
      (''run_session_id'', jopt (q_run_session_id q))]"

definition snapshot_body :: "env \<Rightarrow> create_request \<Rightarrow> string \<Rightarrow> string \<Rightarrow> string \<Rightarrow> dict option \<Rightarrow> dict" where
  "snapshot_body E q org_id user_id topology capability_ref =
     base_body E q org_id user_id topology capability_ref
     @ opt_field ''runtime_capability_ref'' (map_option JObj capability_ref)
     @ opt_field ''execution_context''
         (map_option (\<lambda>ctx. sanitize_sensitive_keys (JObj ctx)) (q_execution_context q))
     @ opt_field ''context_version'' (map_option JInt (q_context_version q))"

definition build_snapshot :: "env \<Rightarrow> create_request \<Rightarrow> string \<Rightarrow> string \<Rightarrow> exn + dict" where
  "build_snapshot E q org_id user_id =
     (case freeze_snapshot_topology q of
        Inl e \<Rightarrow> Inl e
      | Inr (topology, capability_ref) \<Rightarrow>
          let body = snapshot_body E q org_id user_id topology capability_ref;
              snapshot_hash = (if str_set (q_snapshot_hash q) then str_or (q_snapshot_hash q) []
                               else digest_sorted E (JObj body))
          in Inr (body @ [(''snapshot_hash'', JStr snapshot_hash)]))"

section \<open>Lemmas\<close>

lemma build_snapshot_cases:
  assumes "build_snapshot E q org user = Inr d"
  obtains t ref h where "freeze_snapshot_topology q = Inr (t, ref)"
    and "d = snapshot_body E q org user t ref @ [(''snapshot_hash'', JStr h)]"
    and "h = (if str_set (q_snapshot_hash q) then str_or (q_snapshot_hash q) []
              else digest_sorted E (JObj (snapshot_body E q org user t ref)))"
  using assms by (auto simp: build_snapshot_def Let_def split: sum.splits prod.splits)

lemma freeze_topology_ok:
  assumes "freeze_snapshot_topology q = Inr (t, ref)"
  shows "(t = ''single_agent'' \<and> ref = None)
    \<or> (t = ''runtime_delegated'' \<and> (\<exists>n v. n \<noteq> [] \<and> v \<noteq> [] \<and> ref = Some [(''name'', JStr n), (''version'', JStr v)]))"
  using assms
  by (auto simp: freeze_snapshot_topology_def ALLOWED_DELEGATION_TOPOLOGIES_def Let_def split: if_splits)

lemma base_keys: "List.map fst (base_body E q org user t ref) =
    [''skill_id'', ''skill_version'', ''skill_release_id'', ''skill_release_digest'',
     ''connector_binding_refs'', ''integration_account_refs'', ''expert_id'', ''knowledge_refs'',
     ''model_policy'', ''runtime_policy'', ''placement'', ''delegation_topology'', ''org_id'',
     ''user_id'', ''output_policy'', ''client_context'', ''request_trace_id'', ''run_session_id'']"
  by (simp only: base_body_def list.map fst_conv)

lemma has_key_iff: "has_key d k \<longleftrightarrow> k \<in> set (List.map fst d)"
  by (simp add: has_key_def map_of_eq_None_iff)

lemma opt_field_has_key [simp]: "has_key (opt_field k v) k' \<longleftrightarrow> k = k' \<and> v \<noteq> None"
  by (auto simp: opt_field_def split: option.splits)

lemma opt_field_get [simp]: "dget (opt_field k v) k' = (if k = k' then (case v of None \<Rightarrow> JNull | Some j \<Rightarrow> j) else JNull)"
  by (auto simp: opt_field_def split: option.splits)

lemma base_get:
  "dget (base_body E q org user t ref) ''delegation_topology'' = JStr t"
  "dget (base_body E q org user t ref) ''org_id'' = JStr org"
  "dget (base_body E q org user t ref) ''user_id'' = JStr user"
  "dget (base_body E q org user t ref) ''runtime_policy'' = JObj (frozen_policy q t ref)"
  "dget (base_body E q org user t ref) ''client_context'' = sanitize_sensitive_keys (JObj (q_client_context q))"
  by (simp_all only: base_body_def dget_Cons if_False if_True list.inject char.inject simp_thms not_Cons_self)

lemma snapshot_reads:
  assumes "build_snapshot E q org user = Inr d"
  obtains t ref where "freeze_snapshot_topology q = Inr (t, ref)"
    and "dget d ''delegation_topology'' = JStr t"
    and "dget d ''org_id'' = JStr org" and "dget d ''user_id'' = JStr user"
    and "dget d ''runtime_policy'' = JObj (frozen_policy q t ref)"
    and "dget d ''client_context'' = sanitize_sensitive_keys (JObj (q_client_context q))"
    and "dget d ''runtime_capability_ref'' = (case ref of None \<Rightarrow> JNull | Some r \<Rightarrow> JObj r)"
    and "dget d ''execution_context'' =
      (case q_execution_context q of None \<Rightarrow> JNull | Some c \<Rightarrow> sanitize_sensitive_keys (JObj c))"
    and "dget d ''context_version'' = (case q_context_version q of None \<Rightarrow> JNull | Some c \<Rightarrow> JInt c)"
proof -
  from assms obtain t ref h where t: "freeze_snapshot_topology q = Inr (t, ref)"
    and d: "d = snapshot_body E q org user t ref @ [(''snapshot_hash'', JStr h)]"
    by (rule build_snapshot_cases)
  show ?thesis
    by (rule that [of t ref]; (rule t)?;
        simp add: d snapshot_body_def dget_append base_get has_key_iff [of "base_body E q org user t ref"]
          base_keys split: option.splits)
qed

lemma snapshot_hash_given:
  assumes "build_snapshot E q org user = Inr d" and "q_snapshot_hash q = Some (c # cs)"
  shows "dget d ''snapshot_hash'' = JStr (c # cs)"
proof -
  obtain t ref h where d: "d = snapshot_body E q org user t ref @ [(''snapshot_hash'', JStr h)]"
    and h: "h = (if str_set (q_snapshot_hash q) then str_or (q_snapshot_hash q) []
              else digest_sorted E (JObj (snapshot_body E q org user t ref)))"
    using assms(1) by (rule build_snapshot_cases)
  have "\<not> has_key (snapshot_body E q org user t ref) ''snapshot_hash''"
    by (simp add: snapshot_body_def has_key_iff [of "base_body E q org user t ref"] base_keys)
  then show ?thesis using h assms(2) by (simp add: d dget_append str_set_def str_or_def)
qed

lemma no_secrets_update:
  "no_secrets (JObj d) \<Longrightarrow> \<not> is_secret_key k \<Longrightarrow> no_secrets v \<Longrightarrow> no_secrets (JObj (AList.update k v d))"
  by (induction d) (auto split: if_splits)

lemma no_secrets_delete: "no_secrets (JObj d) \<Longrightarrow> no_secrets (JObj (AList.delete k d))"
  by (induction d) (auto split: if_splits)

lemma plain_keys:
  "\<not> is_secret_key ''delegation_topology''" "\<not> is_secret_key ''runtime_capability_ref''"
  "\<not> is_secret_key ''name''" "\<not> is_secret_key ''version''"
  by code_simp+

lemma frozen_policy_no_secrets:
  assumes "freeze_snapshot_topology q = Inr (t, ref)"
  shows "no_secrets (JObj (frozen_policy q t ref))"
proof -
  have "no_secrets (JObj (dict_of (sanitize_sensitive_keys (JObj (q_route_snapshot q)))))"
    using sanitize_no_secrets_aux [of "JObj (q_route_snapshot q)"] by simp
  moreover have "no_secrets (JObj r)" if "ref = Some r" for r
    using freeze_topology_ok [OF assms] that by (auto simp: plain_keys)
  ultimately show ?thesis
    by (auto simp: frozen_policy_def Let_def plain_keys
        simp del: no_secrets.simps sanitize_sensitive_keys.simps
        intro!: no_secrets_update no_secrets_delete split: option.splits)
      (simp_all)
qed

lemma dget_delete: "dget (AList.delete k d) k' = (if k = k' then JNull else dget d k')"
  by (simp add: dget_def delete_conv')

section \<open>Properties\<close>

text \<open>
  What a reader takes for a credential: a value under a key that mentions a password, a token, a secret,
  an API key or an authorization, in whatever letter case, unless the key names the reference of a secret.
\<close>

definition names_credential :: "string \<Rightarrow> bool" where
  "names_credential key \<longleftrightarrow>
     (mentions (lower key) ''password'' \<or> mentions (lower key) ''token'' \<or> mentions (lower key) ''secret''
      \<or> mentions (lower key) ''api_key'' \<or> mentions (lower key) ''authorization'')
     \<and> lower key \<noteq> ''secret_ref_id'' \<and> (\<nexists>u. lower key = u @ ''_secret_ref_id'')"

fun masked :: "json \<Rightarrow> bool" where
  "masked (JObj kvs) \<longleftrightarrow> (\<forall>(k, v)\<in>set kvs. if names_credential k then v = JStr ''[REDACTED]'' else masked v)"
| "masked (JList xs) \<longleftrightarrow> (\<forall>x\<in>set xs. masked x)"
| "masked j \<longleftrightarrow> True"

lemma names_credential_secret: "names_credential k \<Longrightarrow> is_secret_key k"
  by (auto simp: names_credential_def is_secret_key_def is_ref_key_def SENSITIVE_PARTS_def contains_mentions endswith_iff)

lemma no_secrets_masked: "no_secrets j \<Longrightarrow> masked j"
proof (induction j rule: no_secrets.induct)
  case (1 kvs)
  have "if names_credential k then v = JStr ''[REDACTED]'' else masked v" if "(k, v) \<in> set kvs" for k v
    using 1 that names_credential_secret [of k] by (cases "is_secret_key k") auto
  then show ?case by auto
qed simp_all

text \<open>C30: Whatever the caller puts into \<open>route_snapshot\<close>, \<open>client_context\<close> or
  \<open>execution_context\<close>, in the runtime policy, the client context and the execution context of the
  frozen snapshot there stands, at any depth, only the marker under a key that mentions a password, a
  token, a secret, an API key (as \<open>api_key\<close>) or an authorization in whatever letter case, references of
  secrets excepted. Nothing is said of values under other keys, such as \<open>cookie\<close> or \<open>apiKey\<close>, or of
  credentials inside a text, such as a URL: they stay.\<close>

theorem snapshot_shows_no_credentials:
  assumes "build_snapshot E q org user = Inr d"
  shows "masked (dget d ''runtime_policy'') \<and> masked (dget d ''client_context'')
    \<and> masked (dget d ''execution_context'')"
proof -
  obtain t ref where "freeze_snapshot_topology q = Inr (t, ref)"
    and "dget d ''runtime_policy'' = JObj (frozen_policy q t ref)"
    and "dget d ''client_context'' = sanitize_sensitive_keys (JObj (q_client_context q))"
    and e: "dget d ''execution_context'' =
      (case q_execution_context q of None \<Rightarrow> JNull | Some c \<Rightarrow> sanitize_sensitive_keys (JObj c))"
    using assms by (rule snapshot_reads)
  moreover have "no_secrets (dget d ''execution_context'')"
    unfolding e by (cases "q_execution_context q") (simp_all only: option.case no_secrets.simps sanitize_no_secrets_aux)
  ultimately show ?thesis
    by (simp only: frozen_policy_no_secrets sanitize_no_secrets_aux no_secrets_masked simp_thms)
qed

definition sample_request :: create_request where
  "sample_request =
     \<lparr>q_run_id = Some ''run-1'', q_dispatch_id = Some ''d-1'', q_org_id = None, q_user_id = None,
      q_tool_name = ''writer'', q_skill_id = Some ''skill-1'', q_skill_version = Some ''1.0'',
      q_skill_release_id = None, q_skill_release_digest = Some ''digest'', q_snapshot_hash = Some ''h'',
      q_connector_binding_refs = [], q_integration_account_refs = [], q_expert_id = None,
      q_knowledge_refs = [], q_placement = [], q_arguments = [(''topic'', JStr ''x'')],
      q_requires_approval = False,
      q_route_snapshot = [(''gateway_url'', JStr ''http://g''),
        (''auth'', JObj [(''gateway_token'', JStr ''t-1''), (''db_secret_ref_id'', JStr ''ref-1'')])],
      q_output_policy = [], q_client_context = [(''Password'', JStr ''p'')],
      q_request_trace_id = Some ''trace-1'', q_idempotency_key = None, q_run_session_id = None,
      q_execution_context = None, q_context_version = None,
      q_delegation_topology = Some '' runtime_delegated '',
      q_runtime_capability_ref = Some [(''name'', JStr ''cap''), (''version'', JStr ''2'')]\<rparr>"

lemma sample_snapshot: "\<exists>d. build_snapshot sample_env sample_request ''org'' ''user'' = Inr d"
proof -
  have "freeze_snapshot_topology sample_request =
      Inr (''runtime_delegated'', Some [(''name'', JStr ''cap''), (''version'', JStr ''2'')])"
    by code_simp
  then show ?thesis by (simp add: build_snapshot_def Let_def)
qed

lemma password_credential: "names_credential ''Password''"
proof -
  have "lower ''Password'' = ''password''" by code_simp
  moreover have "mentions ''password'' ''password''" by (simp add: contains_mentions [symmetric] startswith_def)
  ultimately show ?thesis by (auto simp: names_credential_def Cons_eq_append_conv)
qed

theorem snapshot_shows_no_credentials_witness:
  "\<exists>d v. build_snapshot sample_env sample_request ''org'' ''user'' = Inr d \<and>
     masked (dget d ''runtime_policy'') \<and> dget d ''client_context'' = JObj [(''Password'', v)]
     \<and> v = JStr ''[REDACTED]''"
proof -
  obtain d where d: "build_snapshot sample_env sample_request ''org'' ''user'' = Inr d"
    using sample_snapshot by (rule exE)
  then have c: "dget d ''client_context'' = sanitize_sensitive_keys (JObj (q_client_context sample_request))"
    by (rule snapshot_reads)
  have p: "q_client_context sample_request = [(''Password'', JStr ''p'')]" by (simp add: sample_request_def)
  obtain v where v: "dget d ''client_context'' = JObj [(''Password'', v)]"
    unfolding c p by (simp only: sanitize_sensitive_keys.simps list.map prod.case)
  have m: "masked (dget d ''runtime_policy'')" "masked (JObj [(''Password'', v)])"
    using snapshot_shows_no_credentials [OF d] v by (elim conjE, simp only:)+
  from m(2) have "v = JStr ''[REDACTED]''" using password_credential by (simp only: masked.simps) simp
  with d v m(1) show ?thesis by (intro exI conjI)
qed

text \<open>The topology of a snapshot is frozen from the request and not from the route: it is
  \<open>single_agent\<close> without any capability reference, or \<open>runtime_delegated\<close> with one that has a
  name and a version; the snapshot and its runtime policy agree on both.\<close>

theorem snapshot_topology_frozen:
  assumes "build_snapshot E q org user = Inr d"
  shows "\<exists>policy. dget d ''runtime_policy'' = JObj policy
    \<and> dget d ''delegation_topology'' = dget policy ''delegation_topology''
    \<and> dget d ''runtime_capability_ref'' = dget policy ''runtime_capability_ref''
    \<and> ((dget d ''delegation_topology'' = JStr ''single_agent''
          \<and> \<not> has_key policy ''runtime_capability_ref'')
       \<or> (dget d ''delegation_topology'' = JStr ''runtime_delegated''
          \<and> (\<exists>n v. n \<noteq> [] \<and> v \<noteq> [] \<and> dget d ''runtime_capability_ref''
                = JObj [(''name'', JStr n), (''version'', JStr v)])))"
proof -
  obtain t ref where t: "freeze_snapshot_topology q = Inr (t, ref)"
    and r: "dget d ''delegation_topology'' = JStr t"
      "dget d ''runtime_policy'' = JObj (frozen_policy q t ref)"
      "dget d ''runtime_capability_ref'' = (case ref of None \<Rightarrow> JNull | Some r \<Rightarrow> JObj r)"
    using assms by (rule snapshot_reads)
  have "dget (frozen_policy q t ref) ''delegation_topology'' = JStr t"
    by (simp add: frozen_policy_def Let_def dget_delete split: option.split)
  moreover have "dget (frozen_policy q t ref) ''runtime_capability_ref''
      = (case ref of None \<Rightarrow> JNull | Some r \<Rightarrow> JObj r)"
    by (simp add: frozen_policy_def Let_def dget_delete split: option.split)
  moreover have "\<not> has_key (frozen_policy q t None) ''runtime_capability_ref''"
    by (simp add: frozen_policy_def Let_def)
  moreover have "(t = ''single_agent'' \<and> ref = None) \<or> (t = ''runtime_delegated'' \<and> (\<exists>n v.
      n \<noteq> [] \<and> v \<noteq> [] \<and> ref = Some [(''name'', JStr n), (''version'', JStr v)]))"
    by (rule freeze_topology_ok [OF t])
  ultimately show ?thesis
    unfolding r by (intro exI [of _ "frozen_policy q t ref"]) (elim disjE conjE exE; simp only:; simp)
qed

theorem snapshot_topology_frozen_witness:
  "\<exists>d. build_snapshot sample_env sample_request ''org'' ''user'' = Inr d \<and>
     (\<exists>policy. dget d ''runtime_policy'' = JObj policy
        \<and> dget d ''runtime_capability_ref'' = dget policy ''runtime_capability_ref'')"
proof -
  obtain d where d: "build_snapshot sample_env sample_request ''org'' ''user'' = Inr d"
    using sample_snapshot by (rule exE)
  from snapshot_topology_frozen [OF d] show ?thesis
    by (elim exE conjE) (intro exI conjI, rule d)
qed

end
