(* ===== verification/Run_Sessions.thy ===== *)
theory Run_Sessions
  imports Run_Events Run_Snapshot
begin

text \<open>
  Conversation sessions of \<open>services/run_service.py\<close>: loading and checking a session
  (\<open>_load_remote_agent_session\<close>, \<open>revalidate_run_session\<close>), creating it or advancing its
  context version (\<open>_ensure_run_session\<close>), pinning a remote agent to it
  (\<open>_pin_remote_agent_session\<close>) and continuing the runtime session of an earlier run
  (\<open>_copy_remote_agent_continuation\<close>). The lemmas: a session is only handed to its owner
  while it is alive, and no operation changes a session of another organisation or user.
\<close>

section \<open>Metadata\<close>

definition session_metadata :: "env \<Rightarrow> json \<Rightarrow> exn + dict" where
  "session_metadata E value =
     (case value of
        JObj d \<Rightarrow> Inr d
      | JStr s \<Rightarrow>
          if strip s \<noteq> [] then
            (case json_loads E s of
               None \<Rightarrow> Inl (ValueError ''JSONDecodeError'')
             | Some (JObj d) \<Rightarrow> Inr d
             | Some _ \<Rightarrow> Inr [])
          else Inr []
      | _ \<Rightarrow> Inr [])"

text \<open>\<open>COALESCE(a, '{}'::jsonb) || b\<close>.\<close>

definition jsonb_concat :: "json \<Rightarrow> json \<Rightarrow> json" where
  "jsonb_concat a b =
     (case (if a = JNull then JObj [] else a, b) of
        (JObj x, JObj y) \<Rightarrow> JObj (dict_update x y)
      | (JList xs, JList ys) \<Rightarrow> JList (xs @ ys)
      | (JList xs, y) \<Rightarrow> JList (xs @ [y])
      | (x, JList ys) \<Rightarrow> JList (x # ys)
      | (x, y) \<Rightarrow> JList [x, y])"

section \<open>Checking a session\<close>

definition session_id_invalid :: "string \<Rightarrow> bool" where
  "session_id_invalid sid \<longleftrightarrow> sid = [] \<or> py_len sid > 36"

definition check_session :: "string \<Rightarrow> string \<Rightarrow> int \<Rightarrow> session_row \<Rightarrow> exn option" where
  "check_session org_id user_id now s =
     (if s_org_id s \<noteq> org_id then Some (ValueError ''cross-org run session access rejected'')
      else if s_user_id s \<noteq> user_id then Some (ValueError ''run session subject mismatch rejected'')
      else if s_deleted_at s \<noteq> None then Some (ValueError ''run session unrecoverable: soft deleted'')
      else case s_expires_at s of
             Some t \<Rightarrow> if t \<le> now then Some (ValueError ''run session unrecoverable: expired'') else None
           | None \<Rightarrow> None)"

definition load_remote_agent_session :: "string \<Rightarrow> string \<Rightarrow> string \<Rightarrow> session_row option op" where
  "load_remote_agent_session sid org_id user_id =
     (if session_id_invalid sid then raiseE (ValueError ''run session id invalid'')
      else bindE (select_session (\<lambda>s. s_id s = sid)) (\<lambda>row.
        case row of
          None \<Rightarrow> returnE None
        | Some s \<Rightarrow> bindE now_op (\<lambda>now.
            case check_session org_id user_id now s of
              Some e \<Rightarrow> raiseE e
            | None \<Rightarrow> returnE (Some s))))"

definition revalidate_run_session ::
  "string option \<Rightarrow> string \<Rightarrow> string \<Rightarrow> int option \<Rightarrow> bool \<Rightarrow> unit op" where
  "revalidate_run_session run_session_id org_id user_id context_version allow_missing =
     (if \<not> str_set run_session_id then returnE ()
      else bindE (select_session (\<lambda>s. Some (s_id s) = run_session_id)) (\<lambda>row.
        case row of
          None \<Rightarrow> if allow_missing then returnE ()
                  else raiseE (ValueError ''run session unrecoverable: missing'')
        | Some s \<Rightarrow> bindE now_op (\<lambda>now.
            case check_session org_id user_id now s of
              Some e \<Rightarrow> raiseE e
            | None \<Rightarrow>
                (case context_version of
                   Some cv \<Rightarrow> if s_context_version s \<noteq> cv
                               then raiseE (ValueError ''run session context version mismatch'')
                               else returnE ()
                 | None \<Rightarrow> returnE ()))))"

definition owned_session :: "string \<Rightarrow> string \<Rightarrow> string \<Rightarrow> session_row \<Rightarrow> bool" where
  "owned_session sid org_id user_id s \<longleftrightarrow>
     s_id s = sid \<and> s_org_id s = org_id \<and> s_user_id s = user_id \<and> s_deleted_at s = None"

definition new_session :: "string \<Rightarrow> string \<Rightarrow> string \<Rightarrow> json \<Rightarrow> int \<Rightarrow> int \<Rightarrow> session_row" where
  "new_session sid org_id user_id metadata context_version now =
     \<lparr>s_id = sid, s_org_id = org_id, s_user_id = user_id, s_metadata = metadata,
      s_context_version = context_version, s_deleted_at = None, s_expires_at = None,
      s_created_at = now, s_updated_at = now\<rparr>"

definition ensure_run_session :: "string \<Rightarrow> string \<Rightarrow> string \<Rightarrow> int option \<Rightarrow> int op" where
  "ensure_run_session sid org_id user_id context_version =
     (if session_id_invalid sid then raiseE (ValueError ''run session id invalid'')
      else bindE (select_session (\<lambda>s. s_id s = sid)) (\<lambda>row. bindE now_op (\<lambda>now.
        case row of
          Some s \<Rightarrow>
            (case check_session org_id user_id now s of
               Some e \<Rightarrow> raiseE e
             | None \<Rightarrow>
                 if context_version \<noteq> None then
                   thenE (update_sessions (owned_session sid org_id user_id)
                           (\<lambda>x. x\<lparr>s_context_version := s_context_version s + 1, s_updated_at := now\<rparr>))
                     (returnE (s_context_version s + 1))
                 else returnE (s_context_version s))
        | None \<Rightarrow>
            thenE (insert_session (new_session sid org_id user_id (JObj [])
                     (if context_version \<noteq> None then 1 else 0) now))
              (returnE (if context_version \<noteq> None then 1 else 0)))))"

section \<open>Continuing a runtime session\<close>

definition session_runs :: "string \<Rightarrow> string \<Rightarrow> string \<Rightarrow> string \<Rightarrow> run_row \<Rightarrow> bool" where
  "session_runs sid org_id user_id run_id r \<longleftrightarrow>
     r_run_session_id r = Some sid \<and> r_org_id r = org_id \<and> r_user_id r = user_id \<and> r_id r \<noteq> run_id"

definition latest_remote_agent_run_id :: "string \<Rightarrow> string \<Rightarrow> string \<Rightarrow> string \<Rightarrow> string option op" where
  "latest_remote_agent_run_id sid org_id user_id run_id =
     getsE (\<lambda>w. map_option r_id
       (first_max r_created_at (filter (session_runs sid org_id user_id run_id) (runs (db w)))))"

definition runtime_session_id_for_run :: "string \<Rightarrow> string option op" where
  "runtime_session_id_for_run run_id =
     getsE (\<lambda>w.
       case first_max t_created_at
              (filter (\<lambda>t. t_run_id t = run_id \<and> t_runtime_session_id t \<noteq> None) (attempts (db w))) of
         None \<Rightarrow> None
       | Some t \<Rightarrow> let value = strip (str_or (t_runtime_session_id t) [])
                   in if value = [] then None else Some value)"

definition remote_agent_session_is_busy :: "string \<Rightarrow> string \<Rightarrow> string \<Rightarrow> string \<Rightarrow> bool op" where
  "remote_agent_session_is_busy sid org_id user_id run_id =
     bindE (select_run (\<lambda>r. session_runs sid org_id user_id run_id r \<and> \<not> terminal (r_status r)))
       (\<lambda>row. returnE (row \<noteq> None))"

text \<open>
  The left join of runs and attempts, \<open>ORDER BY r.created_at DESC, a.created_at DESC NULLS
  LAST\<close>: three stable sorts, the least significant key first.
\<close>

definition continuity_rows ::
  "string \<Rightarrow> string \<Rightarrow> string \<Rightarrow> string \<Rightarrow> database \<Rightarrow> (run_row \<times> attempt_row option) list" where
  "continuity_rows sid org_id user_id run_id d =
     sort_key (\<lambda>p. - r_created_at (fst p))
      (sort_key (\<lambda>p. case snd p of None \<Rightarrow> 1 | Some _ \<Rightarrow> (0 :: int))
       (sort_key (\<lambda>p. case snd p of None \<Rightarrow> 0 | Some t \<Rightarrow> - t_created_at t)
         (concat (List.map (\<lambda>r.
            (case filter (\<lambda>t. t_run_id t = r_id r) (attempts d) of
               [] \<Rightarrow> [(r, None)]
             | ts \<Rightarrow> List.map (\<lambda>t. (r, Some t)) ts))
          (filter (session_runs sid org_id user_id run_id) (runs d))))))"

fun continuity_loop ::
  "(run_row \<times> attempt_row option) list \<Rightarrow> string option \<Rightarrow> bool \<Rightarrow> string option \<times> bool" where
  "continuity_loop [] binding ever_started = (binding, ever_started)"
| "continuity_loop ((r, t) # rows) binding ever_started =
     (let runtime_run_id = (case t of None \<Rightarrow> [] | Some a \<Rightarrow> strip (str_or (t_runtime_run_id a) []));
          runtime_session_id = (case t of None \<Rightarrow> [] | Some a \<Rightarrow> strip (str_or (t_runtime_session_id a) []))
      in continuity_loop rows
           (if binding = None \<and> runtime_session_id \<noteq> [] then Some runtime_session_id else binding)
           (ever_started \<or> runtime_run_id \<noteq> []))"

definition remote_acp_continuity_binding ::
  "string \<Rightarrow> string \<Rightarrow> string \<Rightarrow> string \<Rightarrow> (string option \<times> bool) op" where
  "remote_acp_continuity_binding sid org_id user_id run_id =
     getsE (\<lambda>w. continuity_loop (continuity_rows sid org_id user_id run_id (db w)) None False)"

definition copy_remote_agent_continuation ::
  "create_request \<Rightarrow> string \<Rightarrow> string \<Rightarrow> create_request op" where
  "copy_remote_agent_continuation q org_id user_id =
     (if q_tool_name q \<noteq> REMOTE_AGENT_TOOL_NAME \<or> \<not> str_set (q_run_session_id q) then returnE q
      else
        let route = q_route_snapshot q;
            sid = str_or (q_run_session_id q) [];
            rid = str_or (q_run_id q) [];
            with_session = (\<lambda>v. q\<lparr>q_route_snapshot := AList.update ''session_id'' (JStr v) route\<rparr>)
        in
        if truthy (dget route ''session_continuity_required'') then
          bindE (remote_acp_continuity_binding sid org_id user_id rid) (\<lambda>(binding, ever_started).
            case binding of
              Some b \<Rightarrow> returnE (with_session b)
            | None \<Rightarrow> if ever_started then raiseE (ValueError ''ACP_RUNTIME_SESSION_CONTINUITY_LOST'')
                      else returnE q)
        else
          bindE (latest_remote_agent_run_id sid org_id user_id rid) (\<lambda>latest_id.
            if \<not> str_set latest_id then returnE q
            else bindE (runtime_session_id_for_run (str_or latest_id [])) (\<lambda>value.
              case value of
                None \<Rightarrow> returnE q
              | Some v \<Rightarrow> returnE (with_session v))))"

section \<open>Pinning a remote agent\<close>

definition pin_remote_agent_session :: "env \<Rightarrow> create_request \<Rightarrow> string \<Rightarrow> string \<Rightarrow> unit op" where
  "pin_remote_agent_session E q org_id user_id =
     (if q_tool_name q \<noteq> REMOTE_AGENT_TOOL_NAME \<or> \<not> str_set (q_run_session_id q) then returnE ()
      else
        let sid = str_or (q_run_session_id q) [];
            expert_slug = strip_field (q_route_snapshot q) ''expert_slug''
        in
        if expert_slug = [] then raiseE (ValueError ''REMOTE_AGENT_EXPERT_REQUIRED'')
        else
          bindE (remote_agent_session_is_busy sid org_id user_id (str_or (q_run_id q) [])) (\<lambda>busy.
          if busy then raiseE (ValueError ''REMOTE_AGENT_SESSION_BUSY'')
          else
          bindE (load_remote_agent_session sid org_id user_id) (\<lambda>existing.
          bindE (case existing of
                   None \<Rightarrow> returnE []
                 | Some s \<Rightarrow> bindE (liftE (session_metadata E (s_metadata s)))
                              (\<lambda>md. returnE (strip_field md ''expert_slug''))) (\<lambda>pinned.
          if pinned \<noteq> [] \<and> pinned \<noteq> expert_slug
          then raiseE (ValueError ''REMOTE_AGENT_SESSION_AGENT_MISMATCH'')
          else if pinned = expert_slug then returnE ()
          else bindE now_op (\<lambda>now.
            case existing of
              Some s \<Rightarrow>
                thenE (update_sessions (owned_session sid org_id user_id)
                  (\<lambda>x. x\<lparr>s_metadata := jsonb_concat (s_metadata x)
                                        (JObj [(''expert_slug'', JStr expert_slug)]),
                         s_updated_at := now\<rparr>)) (returnE ())
            | None \<Rightarrow>
                insert_session (new_session sid org_id user_id
                  (JObj [(''expert_slug'', JStr expert_slug)]) 0 now))))))"

section \<open>Guarantees\<close>

text \<open>Sessions of other owners are left alone, and sessions are never removed.\<close>

definition foreign_sessions :: "string \<Rightarrow> string \<Rightarrow> world \<Rightarrow> session_row list" where
  "foreign_sessions org user w =
     filter (\<lambda>s. s_org_id s \<noteq> org \<or> s_user_id s \<noteq> user) (sessions (db w))"

definition foreign_kept :: "string \<Rightarrow> string \<Rightarrow> world \<Rightarrow> world \<Rightarrow> bool" where
  "foreign_kept org user w w' \<longleftrightarrow> foreign_sessions org user w' = foreign_sessions org user w"

interpretation fk: guarantee "foreign_kept org user" for org user
  by unfold_locales (auto simp: foreign_kept_def)

lemma foreign_kept_stmts:
  "guar (foreign_kept org user) (select_run c1)" "guar (foreign_kept org user) (select_session c4)"
  "guar (foreign_kept org user) now_op"
  by (simp_all add: guar_def stmt_defs getsE_def foreign_kept_def)

lemma foreign_kept_insert:
  "guar (foreign_kept org user) (insert_session (new_session sid org user md cv now))"
  by (simp add: guar_def stmt_defs modifyE_def foreign_kept_def foreign_sessions_def new_session_def)

lemma foreign_kept_update:
  assumes "\<And>s. s_org_id (f s) = s_org_id s" and "\<And>s. s_user_id (f s) = s_user_id s"
  shows "guar (foreign_kept org user) (update_sessions (owned_session sid org user) f)"
proof -
  let ?P = "\<lambda>s. s_org_id s \<noteq> org \<or> s_user_id s \<noteq> user"
  have "filter ?P (upd_where (owned_session sid org user) f ss) = filter ?P ss" for ss
    using assms by (induction ss) (auto simp: upd_where_def owned_session_def)
  then show ?thesis
    by (simp add: guar_def update_sessions_def with_db_def foreign_kept_def foreign_sessions_def)
qed

lemmas session_guar = foreign_kept_stmts foreign_kept_insert foreign_kept_update

lemma load_session_foreign: "guar (foreign_kept org user) (load_remote_agent_session sid o' u')"
  unfolding load_remote_agent_session_def by (intro fk.guar_rules session_guar)

lemma revalidate_foreign: "guar (foreign_kept org user) (revalidate_run_session sid o' u' cv m)"
  unfolding revalidate_run_session_def by (intro fk.guar_rules session_guar)

lemma ensure_foreign: "guar (foreign_kept org user) (ensure_run_session sid org user cv)"
  unfolding ensure_run_session_def by (intro fk.guar_rules session_guar) simp_all

lemma busy_foreign: "guar (foreign_kept org user) (remote_agent_session_is_busy sid o' u' rid)"
  unfolding remote_agent_session_is_busy_def by (intro fk.guar_rules session_guar)

lemma copy_foreign: "guar (foreign_kept org user) (copy_remote_agent_continuation q o' u')"
  unfolding copy_remote_agent_continuation_def remote_acp_continuity_binding_def
    latest_remote_agent_run_id_def runtime_session_id_for_run_def
  by (intro fk.guar_rules)

lemma pin_foreign: "guar (foreign_kept org user) (pin_remote_agent_session E q org user)"
  unfolding pin_remote_agent_session_def
  by (intro fk.guar_rules session_guar busy_foreign load_session_foreign) simp_all

text \<open>None of these operations writes a run or an event.\<close>

lemma session_ops_same_log:
  "guar same_log (load_remote_agent_session sid org user)"
  "guar same_log (revalidate_run_session osid org user cv m)"
  "guar same_log (ensure_run_session sid org user cv)"
  "guar same_log (copy_remote_agent_continuation q org user)"
  "guar same_log (pin_remote_agent_session E q org user)"
proof -
  show l: "guar same_log (load_remote_agent_session sid org user)" for sid
    unfolding load_remote_agent_session_def by (intro sl.guar_rules guar_intros)
  show "guar same_log (revalidate_run_session osid org user cv m)"
    unfolding revalidate_run_session_def by (intro sl.guar_rules guar_intros)
  show "guar same_log (ensure_run_session sid org user cv)"
    unfolding ensure_run_session_def by (intro sl.guar_rules guar_intros)
  show "guar same_log (copy_remote_agent_continuation q org user)"
    unfolding copy_remote_agent_continuation_def remote_acp_continuity_binding_def
      latest_remote_agent_run_id_def runtime_session_id_for_run_def
    by (intro sl.guar_rules)
  show "guar same_log (pin_remote_agent_session E q org user)"
    unfolding pin_remote_agent_session_def remote_agent_session_is_busy_def
    by (intro sl.guar_rules guar_intros l)
qed

lemmas session_ops_guar [guar_intros] = session_ops_same_log
  session_ops_same_log [THEN guar_same_log]

section \<open>Results\<close>

lemma check_session_None:
  "check_session org user now s = None \<longleftrightarrow>
     s_org_id s = org \<and> s_user_id s = user \<and> s_deleted_at s = None
     \<and> (\<forall>t. s_expires_at s = Some t \<longrightarrow> now < t)"
  by (auto simp: check_session_def split: option.splits)

lemma load_session_result:
  "load_remote_agent_session sid org user w = (Inr (Some s), w') \<Longrightarrow>
   w' = w \<and> s \<in> set (sessions (db w)) \<and> s_id s = sid \<and> check_session org user (clock w) s = None"
  by (auto simp: load_remote_agent_session_def stmt_defs prog_simps dest: find_Some_set
      split: if_splits option.splits)

end
