(* ===== verification/Run_Create.thy ===== *)
theory Run_Create
  imports Run_Sessions
begin

text \<open>
  \<open>create_run\<close> of \<open>services/run_service.py\<close>: the duplicate check, the session steps, the
  insert, and the recovery when a concurrent request inserted the run first. What the other
  transactions commit between the duplicate check and the insert is the parameter
  \<open>others\<close>; the unique indexes of the \<open>runs\<close> table decide whether the insert fails.
\<close>

section \<open>The operation\<close>

record create_response =
  cr_run_id :: string
  cr_status :: run_status
  cr_snapshot_hash :: json
  cr_org_id :: string
  cr_run_session_id :: "string option"

definition command_digest :: "env \<Rightarrow> create_request \<Rightarrow> dict \<Rightarrow> string" where
  "command_digest E q snapshot = digest_sorted E (JObj
     [(''tool_name'', JStr (q_tool_name q)),
      (''skill_id'', jopt (q_skill_id q)),
      (''skill_version'', jopt (q_skill_version q)),
      (''skill_release_id'', jopt (q_skill_release_id q)),
      (''snapshot_hash'', dget snapshot ''snapshot_hash''),
      (''arguments'', JObj (q_arguments q)),
      (''placement'', JObj (q_placement q)),
      (''run_session_id'', jopt (q_run_session_id q))])"

definition same_command :: "create_request \<Rightarrow> string \<Rightarrow> string \<Rightarrow> run_row \<Rightarrow> bool" where
  "same_command q org_id user_id r \<longleftrightarrow>
     Some (r_id r) = q_run_id q
     \<or> (str_set (q_dispatch_id q) \<and> r_org_id r = org_id \<and> r_dispatch_id r = q_dispatch_id q)
     \<or> (str_set (q_idempotency_key q) \<and> r_org_id r = org_id \<and> r_user_id r = user_id
        \<and> r_tool_name r = q_tool_name q \<and> r_idempotency_key r = q_idempotency_key q)"

definition existing_response ::
  "string \<Rightarrow> dict \<Rightarrow> create_request \<Rightarrow> string \<Rightarrow> run_row \<Rightarrow> create_response op" where
  "existing_response digest snapshot q org_id r =
     (if str_set (r_command_digest r) \<and> r_command_digest r \<noteq> Some digest
      then raiseE (RuntimeError ''idempotency conflict: payload digest mismatch'')
      else returnE
        \<lparr>cr_run_id = r_id r, cr_status = r_status r,
         cr_snapshot_hash = or_else (jget (dict_or_empty (r_snapshot r)) ''snapshot_hash'')
                                    (dget snapshot ''snapshot_hash''),
         cr_org_id = (if r_org_id r = [] then org_id else r_org_id r),
         cr_run_session_id = (if str_set (r_run_session_id r) then r_run_session_id r
                              else q_run_session_id q)\<rparr>)"

definition new_run ::
  "create_request \<Rightarrow> string \<Rightarrow> string \<Rightarrow> dict \<Rightarrow> string \<Rightarrow> int \<Rightarrow> run_row" where
  "new_run q org_id user_id snapshot digest now =
     \<lparr>r_id = str_or (q_run_id q) [], r_org_id = org_id, r_user_id = user_id,
      r_tool_name = q_tool_name q, r_skill_id = q_skill_id q,
      r_status = (if q_requires_approval q then WAITING_APPROVAL else QUEUED),
      r_arguments = JObj (q_arguments q), r_snapshot = JObj snapshot, r_result = None,
      r_attempt_id = None, r_generation = 0, r_next_event_seq = 0,
      r_dispatch_id = q_dispatch_id q, r_idempotency_key = q_idempotency_key q,
      r_command_digest = Some digest, r_lease_until = None, r_worker_id = None,
      r_requires_approval = q_requires_approval q, r_run_session_id = q_run_session_id q,
      r_created_at = now, r_updated_at = now\<rparr>"

text \<open>The primary key and the two partial unique indexes of the \<open>runs\<close> table.\<close>

definition index_clash :: "run_row \<Rightarrow> run_row \<Rightarrow> bool" where
  "index_clash a b \<longleftrightarrow>
     r_id a = r_id b
     \<or> (r_dispatch_id a \<noteq> None \<and> r_dispatch_id b = r_dispatch_id a \<and> r_org_id b = r_org_id a)
     \<or> (r_idempotency_key a \<noteq> None \<and> r_idempotency_key b = r_idempotency_key a
        \<and> r_org_id b = r_org_id a \<and> r_user_id b = r_user_id a \<and> r_tool_name b = r_tool_name a)"

definition insert_unique_run :: "run_row \<Rightarrow> unit op" where
  "insert_unique_run r = (\<lambda>w.
     if list_ex (index_clash r) (runs (db w)) then (Inl (DbError ''UniqueViolation''), w)
     else insert_run r w)"

definition rollback_to :: "database \<Rightarrow> unit op" where
  "rollback_to d = modifyE (with_db (\<lambda>_. d))"

definition session_step :: "create_request \<Rightarrow> string \<Rightarrow> string \<Rightarrow> create_request op" where
  "session_step q org_id user_id =
     (if \<not> str_set (q_run_session_id q) then returnE q
      else bindE (ensure_run_session (str_or (q_run_session_id q) []) org_id user_id (q_context_version q))
        (\<lambda>cv. returnE
          (if q_context_version q = None then q
           else q\<lparr>q_context_version := Some cv,
                  q_execution_context := Some (AList.update ''context_version'' (JInt cv)
                    (case q_execution_context q of None \<Rightarrow> [] | Some d \<Rightarrow> d))\<rparr>)))"

definition insert_or_recover ::
  "(database \<Rightarrow> database) \<Rightarrow> database \<Rightarrow> run_row \<Rightarrow> string \<Rightarrow> dict \<Rightarrow> create_request \<Rightarrow> string \<Rightarrow> string
   \<Rightarrow> create_response option op" where
  "insert_or_recover others db0 row digest snapshot q org_id user_id =
     catchE (thenE (insert_unique_run row) (returnE None))
       (\<lambda>exc. thenE (rollback_to (others db0))
         (bindE (select_run (same_command q org_id user_id)) (\<lambda>conflict_row.
           case conflict_row of
             Some r \<Rightarrow> bindE (existing_response digest snapshot q org_id r) (\<lambda>resp. returnE (Some resp))
           | None \<Rightarrow> raiseE exc)))"

definition created_events :: "env \<Rightarrow> create_request \<Rightarrow> run_status \<Rightarrow> unit op" where
  "created_events E q st =
     (let rid = str_or (q_run_id q) [] in
      bindE (append_event E rid ''run.created''
              [(''status'', JStr (status_str st)), (''tool_name'', JStr (q_tool_name q))] no_opts) (\<lambda>_.
      if st = QUEUED
      then bindE (append_event E rid ''run.queued'' [(''status'', JStr (status_str st))] no_opts)
             (\<lambda>_. returnE ())
      else returnE ()))"

definition create_new_run ::
  "env \<Rightarrow> (database \<Rightarrow> database) \<Rightarrow> database \<Rightarrow> string \<Rightarrow> create_request \<Rightarrow> string \<Rightarrow> string
   \<Rightarrow> create_response op" where
  "create_new_run E others db0 digest q org_id user_id =
     thenE (pin_remote_agent_session E q org_id user_id)
     (if q_context_version q \<noteq> None \<and> (q_execution_context q = None \<or> q_execution_context q = Some [])
      then raiseE (ValueError ''execution context is required when context version is set'')
      else
      bindE (session_step q org_id user_id) (\<lambda>snapshot_request.
      bindE (liftE (build_snapshot E snapshot_request org_id user_id)) (\<lambda>snapshot.
      bindE now_op (\<lambda>now.
      let row = new_run q org_id user_id snapshot digest now in
      thenE (modifyE (with_db others))
      (bindE (insert_or_recover others db0 row digest snapshot q org_id user_id) (\<lambda>recovered.
      case recovered of
        Some resp \<Rightarrow> returnE resp
      | None \<Rightarrow>
          thenE (created_events E q (r_status row))
          (returnE \<lparr>cr_run_id = str_or (q_run_id q) [], cr_status = r_status row,
             cr_snapshot_hash = dget snapshot ''snapshot_hash'', cr_org_id = org_id,
             cr_run_session_id = q_run_session_id q\<rparr>)))))))"

definition create_run ::
  "env \<Rightarrow> (database \<Rightarrow> database) \<Rightarrow> create_request \<Rightarrow> string \<Rightarrow> string \<Rightarrow> create_response op" where
  "create_run E others q0 org_id user_id =
     (if \<not> str_set (q_run_id q0) then raiseE (ValueError ''run_id is required'')
      else
      bindE (getsE db) (\<lambda>db0.
      bindE (copy_remote_agent_continuation q0 org_id user_id) (\<lambda>q.
      bindE (liftE (build_snapshot E q org_id user_id)) (\<lambda>snapshot.
      thenE (if str_set (q_run_session_id q)
             then revalidate_run_session (q_run_session_id q) org_id user_id None True
             else returnE ())
      (let digest = command_digest E q snapshot in
       bindE (select_run (same_command q org_id user_id)) (\<lambda>existing.
       case existing of
         Some r \<Rightarrow> existing_response digest snapshot q org_id r
       | None \<Rightarrow> create_new_run E others db0 digest q org_id user_id))))))"

text \<open>The handler \<open>POST /runs\<close> checks the execution context headers.\<close>

definition create_internal_run ::
  "env \<Rightarrow> (database \<Rightarrow> database) \<Rightarrow> create_request \<Rightarrow> string \<Rightarrow> string \<Rightarrow> (api_error + create_response) op" where
  "create_internal_run E others body x_org x_user =
     (if x_org = [] \<or> x_user = [] then returnE (Inl (ApiError 400 ''missing execution context headers''))
      else if str_set (q_org_id body) \<and> q_org_id body \<noteq> Some x_org
      then returnE (Inl (ApiError 403 ''forged org_id rejected''))
      else if str_set (q_user_id body) \<and> q_user_id body \<noteq> Some x_user
      then returnE (Inl (ApiError 403 ''forged user_id rejected''))
      else bindE (create_run E others body x_org x_user) (\<lambda>r. returnE (Inr r)))"

section \<open>The tables a new run leaves\<close>

lemma same_log_runs: "guar same_log m \<Longrightarrow> m w = (r, w') \<Longrightarrow> runs (db w') = runs (db w)"
  using guar_result [of same_log m w r w'] by (simp add: same_log_def)

lemma same_log_events: "guar same_log m \<Longrightarrow> m w = (r, w') \<Longrightarrow> events (db w') = events (db w)"
  using guar_result [of same_log m w r w'] by (simp add: same_log_def)

text \<open>Reading only, and keeping the attempts and the clock.\<close>

interpretation ro: guarantee "(=)"
  by unfold_locales auto

lemma ro_stmts:
  "guar (=) (select_run c1)" "guar (=) (select_event c2)" "guar (=) (select_attempt c3)"
  "guar (=) (select_session c4)" "guar (=) (select_artifact c5)" "guar (=) now_op"
  by (simp_all add: guar_def stmt_defs getsE_def)

lemma ro_result: "guar (=) m \<Longrightarrow> m w = (r, w') \<Longrightarrow> w' = w"
  using guar_result [of "(=)" m w r w'] by simp

definition same_attempts :: "world \<Rightarrow> world \<Rightarrow> bool" where
  "same_attempts w w' \<longleftrightarrow> attempts (db w') = attempts (db w) \<and> clock w' = clock w"

interpretation sa: guarantee same_attempts
  by unfold_locales (auto simp: same_attempts_def)

lemma same_attempts_stmts:
  "guar same_attempts (select_run c1)" "guar same_attempts (select_event c2)"
  "guar same_attempts (select_session c4)" "guar same_attempts now_op"
  "guar same_attempts (insert_session n)" "guar same_attempts (update_sessions cn fn)"
  "guar same_attempts (insert_event e)" "guar same_attempts (fresh_uuid E)"
  "guar same_attempts (alloc_event_seq rid opts)"
  by (simp_all add: guar_def stmt_defs getsE_def modifyE_def same_attempts_def alloc_event_seq_def
      Let_def split: option.split)

lemma copy_ro: "guar (=) (copy_remote_agent_continuation q org user)"
  unfolding copy_remote_agent_continuation_def remote_acp_continuity_binding_def
    latest_remote_agent_run_id_def runtime_session_id_for_run_def
  by (intro ro.guar_rules)

lemma revalidate_ro: "guar (=) (revalidate_run_session sid org user cv m)"
  unfolding revalidate_run_session_def by (intro ro.guar_rules ro_stmts)

lemma session_step_attempts: "guar same_attempts (session_step q org user)"
  unfolding session_step_def ensure_run_session_def
  by (intro sa.guar_rules same_attempts_stmts)

lemma session_step_same_log [guar_intros]: "guar same_log (session_step q org user)"
  unfolding session_step_def by (intro sl.guar_rules guar_intros)

lemma pin_attempts: "guar same_attempts (pin_remote_agent_session E q org user)"
  unfolding pin_remote_agent_session_def remote_agent_session_is_busy_def load_remote_agent_session_def
  by (intro sa.guar_rules same_attempts_stmts)

lemma append_event_attempts: "guar same_attempts (append_event E rid ty p opts)"
  unfolding append_event_def write_event_def snapshot_trace_id_def
  by (intro sa.guar_rules same_attempts_stmts)

lemma created_events_attempts: "guar same_attempts (created_events E q st)"
  unfolding created_events_def by (intro sa.guar_rules append_event_attempts)

text \<open>The continuation reads the other runs of the session and the attempts.\<close>

lemma copy_cong:
  assumes "\<And>sid. filter (session_runs sid org user (str_or (q_run_id q) [])) (runs (db w'))
      = filter (session_runs sid org user (str_or (q_run_id q) [])) (runs (db w))"
    and "attempts (db w') = attempts (db w)"
  shows "fst (copy_remote_agent_continuation q org user w') = fst (copy_remote_agent_continuation q org user w)"
  using assms
  by (simp add: copy_remote_agent_continuation_def remote_acp_continuity_binding_def Let_def
      latest_remote_agent_run_id_def runtime_session_id_for_run_def continuity_rows_def prog_simps
      split: prod.split option.split)

lemma copy_keeps:
  "yields (\<lambda>q'. \<exists>route. q' = q\<lparr>q_route_snapshot := route\<rparr>) (copy_remote_agent_continuation q org user)"
proof -
  have same: "\<exists>route. q = q\<lparr>q_route_snapshot := route\<rparr>"
    by (rule exI [of _ "q_route_snapshot q"]) simp
  show ?thesis
    unfolding copy_remote_agent_continuation_def
    by (intro yields_rules) (simp_all add: same exI)
qed

text \<open>After the session step the session of the request passes the check.\<close>

lemma find_append_None: "find P xs = None \<Longrightarrow> find P (xs @ ys) = find P ys"
  by (simp add: find_append)

lemma session_step_usable:
  assumes "session_step q org user w = (Inr q', w')" and "str_set (q_run_session_id q)"
  shows "\<exists>s. find (\<lambda>s. Some (s_id s) = q_run_session_id q) (sessions (db w')) = Some s
    \<and> check_session org user (clock w') s = None"
proof -
  obtain sid where sid: "q_run_session_id q = Some sid" "sid \<noteq> []"
    using assms(2) by (auto simp: str_set_def str_or_def split: option.splits if_splits)
  show ?thesis
  proof (cases "find (\<lambda>s. s_id s = sid) (sessions (db w))")
    case None
    with assms sid show ?thesis
      by (auto simp: session_step_def ensure_run_session_def stmt_defs prog_simps str_or_def
          find_append new_session_def check_session_None split: if_splits option.splits)
  next
    case (Some s)
    then have "check_session org user (clock w) s = None"
      using assms sid
      by (auto simp: session_step_def ensure_run_session_def stmt_defs prog_simps str_or_def
          split: if_splits option.splits)
    with Some assms sid show ?thesis
      by (auto simp: session_step_def ensure_run_session_def stmt_defs prog_simps str_or_def
          find_upd_where check_session_None split: if_splits option.splits)
  qed
qed

section \<open>A new run\<close>

lemma writable_new:
  assumes "runs (db w) = rs @ [row]" and "\<forall>x\<in>set rs. r_id x \<noteq> r_id row" and "\<not> terminal (r_status row)"
  shows "find (writable_for (r_id row) no_opts) (runs (db w)) = Some row"
proof -
  have "find (writable_for (r_id row) no_opts) rs = None"
    using assms(2) by (auto simp: find_None_all writable_for_def)
  then show ?thesis
    using assms by (simp add: find_append_None writable_for_def no_opts_def when_given_def)
qed

lemma append_on_new:
  assumes "runs (db w) = rs @ [row]" and "\<forall>x\<in>set rs. r_id x \<noteq> r_id row" and "\<not> terminal (r_status row)"
  shows "\<exists>v w' e. append_event E (r_id row) ty p no_opts w = (Inr v, w')
    \<and> runs (db w') = rs @ [row\<lparr>r_next_event_seq := Suc (r_next_event_seq row), r_updated_at := clock w\<rparr>]
    \<and> events (db w') = events (db w) @ [e] \<and> e_run_id e = r_id row \<and> e_event_type e = ty
    \<and> e_event_seq e = Suc (r_next_event_seq row) \<and> sessions (db w') = sessions (db w)
    \<and> attempts (db w') = attempts (db w) \<and> clock w' = clock w"
proof -
  let ?e = "event_row_for E w (r_id row) ty (stored_payload p no_opts) no_opts row"
  have "known_event w (r_id row) no_opts = None"
    by (simp add: known_event_def no_opts_def str_given_def)
  then obtain trace where "append_event E (r_id row) ty p no_opts w =
      (Inr (event_row_view trace ?e), event_written w (r_id row) no_opts ?e)"
    using append_event_some [OF _ writable_new [OF assms] refl] by blast
  moreover have "upd_where (writable_for (r_id row) no_opts) f rs = rs" for f
    using assms(2) by (intro upd_where_no) (auto simp: writable_for_def)
  moreover have "writable_for (r_id row) no_opts row"
    using assms(3) by (simp add: writable_for_def no_opts_def when_given_def)
  ultimately show ?thesis
    using assms(1) by (auto simp: event_written_def upd_where_def event_row_for_def)
qed

lemma created_events_on_new:
  assumes "runs (db w) = rs @ [row]" and "\<forall>x\<in>set rs. r_id x \<noteq> r_id row"
    and "\<not> terminal (r_status row)" and "r_next_event_seq row = 0"
    and "r_id row = str_or (q_run_id q) []"
  shows "\<exists>w' n es. created_events E q st w = (Inr (), w')
    \<and> runs (db w') = rs @ [row\<lparr>r_next_event_seq := n, r_updated_at := clock w\<rparr>]
    \<and> events (db w') = events (db w) @ es \<and> (\<forall>e\<in>set es. e_run_id e = r_id row)
    \<and> List.map e_event_seq es = [1..<Suc n]
    \<and> List.map e_event_type es = (if st = QUEUED then [''run.created'', ''run.queued''] else [''run.created''])
    \<and> sessions (db w') = sessions (db w) \<and> attempts (db w') = attempts (db w) \<and> clock w' = clock w"
proof -
  let ?p = "[(''status'', JStr (status_str st)), (''tool_name'', JStr (q_tool_name q))]"
  obtain v1 w1 e1 where 1: "append_event E (r_id row) ''run.created'' ?p no_opts w = (Inr v1, w1)"
    "runs (db w1) = rs @ [row\<lparr>r_next_event_seq := 1, r_updated_at := clock w\<rparr>]"
    "events (db w1) = events (db w) @ [e1]" "e_run_id e1 = r_id row" "e_event_type e1 = ''run.created''"
    "e_event_seq e1 = 1" "sessions (db w1) = sessions (db w)" "attempts (db w1) = attempts (db w)"
    "clock w1 = clock w"
    using append_on_new [OF assms(1-3)] assms(4) by (metis One_nat_def)
  show ?thesis
  proof (cases "st = QUEUED")
    case False
    then show ?thesis
      using 1 by (intro exI [of _ w1] exI [of _ 1] exI [of _ "[e1]"])
        (simp add: created_events_def Let_def assms(5) [symmetric] bindE_def returnE_def)
  next
    case True
    let ?row = "row\<lparr>r_next_event_seq := 1, r_updated_at := clock w\<rparr>"
    let ?q = "[(''status'', JStr (status_str st))]"
    have "\<exists>v w' e. append_event E (r_id row) ''run.queued'' ?q no_opts w1 = (Inr v, w')
      \<and> runs (db w') = rs @ [row\<lparr>r_next_event_seq := 2, r_updated_at := clock w\<rparr>]
      \<and> events (db w') = events (db w1) @ [e] \<and> e_run_id e = r_id row \<and> e_event_type e = ''run.queued''
      \<and> e_event_seq e = 2 \<and> sessions (db w') = sessions (db w1)
      \<and> attempts (db w') = attempts (db w1) \<and> clock w' = clock w1"
      using append_on_new [of w1 rs ?row E "''run.queued''" ?q] 1(2,9) assms(2,3)
      by (simp add: numeral_2_eq_2)
    then obtain v2 w2 e2 where 2: "append_event E (r_id row) ''run.queued'' ?q no_opts w1 = (Inr v2, w2)"
      "runs (db w2) = rs @ [row\<lparr>r_next_event_seq := 2, r_updated_at := clock w\<rparr>]"
      "events (db w2) = events (db w1) @ [e2]" "e_run_id e2 = r_id row" "e_event_type e2 = ''run.queued''"
      "e_event_seq e2 = 2" "sessions (db w2) = sessions (db w1)"
      "attempts (db w2) = attempts (db w1)" "clock w2 = clock w1"
      by blast
    have "[1..<Suc 2] = [1, 2 :: nat]" by (simp add: upt_rec)
    with True 1 2 show ?thesis
      by (intro exI [of _ w2] exI [of _ 2] exI [of _ "[e1, e2]"])
        (simp add: created_events_def Let_def assms(5) [symmetric] bindE_def returnE_def)
  qed
qed

lemma insert_unique_ok:
  "insert_unique_run row w = (Inr (), w') \<Longrightarrow>
   (\<forall>x\<in>set (runs (db w)). \<not> index_clash row x) \<and> w' = w\<lparr>db := (db w)\<lparr>runs := runs (db w) @ [row]\<rparr>\<rparr>"
  by (auto simp: insert_unique_run_def insert_run_def with_db_def list_ex_iff split: if_splits)

lemma insert_unique_fails:
  "insert_unique_run row w = (Inl e, w') \<Longrightarrow>
   w' = w \<and> (\<exists>x\<in>set (runs (db w)). index_clash row x)"
  by (auto simp: insert_unique_run_def insert_run_def with_db_def list_ex_iff split: if_splits)

text \<open>The two ways the insert can end.\<close>

lemma insert_or_recover_cases:
  assumes "insert_or_recover others db0 row digest snap q org user w = (Inr res, w')"
  obtains (inserted) "res = None" "\<forall>x\<in>set (runs (db w)). \<not> index_clash row x"
      "w' = w\<lparr>db := (db w)\<lparr>runs := runs (db w) @ [row]\<rparr>\<rparr>"
  | (recovered) resp r where "res = Some resp" "w' = w\<lparr>db := others db0\<rparr>"
      "\<exists>x\<in>set (runs (db w)). index_clash row x"
      "r \<in> set (runs (others db0))" "same_command q org user r"
      "existing_response digest snap q org r w' = (Inr resp, w')"
proof -
  obtain r1 w1 where i: "insert_unique_run row w = (r1, w1)" by fastforce
  show ?thesis
  proof (cases r1)
    case (Inr u)
    with i assms insert_unique_ok [of row w w1] show ?thesis
      by (intro inserted) (auto simp: insert_or_recover_def catchE_def thenE_def bindE_def)
  next
    case (Inl e)
    with i have w1: "w1 = w" "\<exists>x\<in>set (runs (db w)). index_clash row x"
      using insert_unique_fails by blast+
    let ?w = "w\<lparr>db := others db0\<rparr>"
    from assms have h: "bindE (select_run (same_command q org user)) (\<lambda>conflict_row.
           case conflict_row of
             Some r \<Rightarrow> bindE (existing_response digest snap q org r) (\<lambda>resp. returnE (Some resp))
           | None \<Rightarrow> raiseE e) ?w = (Inr res, w')"
      using i w1 Inl
      by (simp add: insert_or_recover_def catchE_def thenE_def bindE_def rollback_to_def with_db_def)
    then obtain r where r: "find (same_command q org user) (runs (others db0)) = Some r"
      "bindE (existing_response digest snap q org r) (\<lambda>resp. returnE (Some resp)) ?w = (Inr res, w')"
      by (auto simp: bindE_def [of "select_run c" for c] split: option.splits)
    from r(2) obtain resp where "existing_response digest snap q org r ?w = (Inr resp, w')" "res = Some resp"
      by (elim bindE_Inr) simp
    moreover from this have "w' = ?w"
      by (auto simp: existing_response_def split: if_splits)
    ultimately show ?thesis
      using r(1) w1 find_Some_set [OF r(1)] by (intro recovered [of resp r]) auto
  qed
qed

text \<open>The part of a call that comes before the insert.\<close>

lemma create_new_run_cases:
  assumes "create_new_run E others db0 digest q org user w = (Inr resp, w')"
  obtains (parts) q2 snap w1 w2 row where
      "session_step q org user w1 = (Inr q2, w2)" "build_snapshot E q2 org user = Inr snap"
      "row = new_run q org user snap digest (clock w2)"
      "runs (db w2) = runs (db w)" "events (db w2) = events (db w)" "attempts (db w2) = attempts (db w)"
      "clock w2 = clock w"
      "\<exists>res w3 w4. insert_or_recover others db0 row digest snap q org user (with_db others w2) = (Inr res, w3)
         \<and> (case res of Some r \<Rightarrow> resp = r \<and> w' = w3
            | None \<Rightarrow> created_events E q (r_status row) w3 = (Inr (), w') \<and>
                resp = \<lparr>cr_run_id = str_or (q_run_id q) [], cr_status = r_status row,
                  cr_snapshot_hash = dget snap ''snapshot_hash'', cr_org_id = org,
                  cr_run_session_id = q_run_session_id q\<rparr>)"
proof -
  from assms obtain w1 where p: "pin_remote_agent_session E q org user w = (Inr (), w1)"
    and rest: "bindE (session_step q org user) (\<lambda>snapshot_request.
      bindE (liftE (build_snapshot E snapshot_request org user)) (\<lambda>snapshot.
      bindE now_op (\<lambda>now.
      let row = new_run q org user snapshot digest now in
      thenE (modifyE (with_db others))
      (bindE (insert_or_recover others db0 row digest snapshot q org user) (\<lambda>recovered.
      case recovered of
        Some resp \<Rightarrow> returnE resp
      | None \<Rightarrow>
          thenE (created_events E q (r_status row))
          (returnE \<lparr>cr_run_id = str_or (q_run_id q) [], cr_status = r_status row,
             cr_snapshot_hash = dget snapshot ''snapshot_hash'', cr_org_id = org,
             cr_run_session_id = q_run_session_id q\<rparr>)))))) w1 = (Inr resp, w')"
    unfolding create_new_run_def by (elim thenE_Inr) (simp split: if_splits)
  from rest obtain q2 w2 snap where s: "session_step q org user w1 = (Inr q2, w2)"
    and b: "build_snapshot E q2 org user = Inr snap"
    and i: "bindE (insert_or_recover others db0 (new_run q org user snap digest (clock w2)) digest snap q org user)
      (\<lambda>recovered. case recovered of
        Some resp \<Rightarrow> returnE resp
      | None \<Rightarrow>
          thenE (created_events E q (r_status (new_run q org user snap digest (clock w2))))
          (returnE \<lparr>cr_run_id = str_or (q_run_id q) [],
             cr_status = r_status (new_run q org user snap digest (clock w2)),
             cr_snapshot_hash = dget snap ''snapshot_hash'', cr_org_id = org,
             cr_run_session_id = q_run_session_id q\<rparr>)) (with_db others w2) = (Inr resp, w')"
    by (elim bindE_Inr) (auto simp: Let_def thenE_def bindE_def [of "modifyE f" for f])
  have runs: "runs (db w2) = runs (db w)" "events (db w2) = events (db w)"
    using same_log_runs [OF session_step_same_log s] same_log_events [OF session_step_same_log s]
      same_log_runs [OF session_ops_same_log(5) p] same_log_events [OF session_ops_same_log(5) p] by simp_all
  have att: "attempts (db w2) = attempts (db w)" "clock w2 = clock w"
    using guar_result [OF session_step_attempts s] guar_result [OF pin_attempts p]
    by (simp_all add: same_attempts_def)
  show ?thesis
    by (rule parts [OF s b refl runs att])
      (use i in \<open>elim bindE_Inr; auto split: option.splits elim!: thenE_Inr\<close>)
qed

lemma same_command_route [simp]:
  "same_command (q\<lparr>q_route_snapshot := route\<rparr>) org user = same_command q org user"
  by (rule ext) (simp add: same_command_def)

text \<open>A call that gets past the duplicate check.\<close>

lemma create_run_past_check:
  assumes "create_run E others q0 org user w = (Inr resp, w')"
    and "find (same_command q0 org user) (runs (db w)) = None"
  obtains q snap0 route where "copy_remote_agent_continuation q0 org user w = (Inr q, w)"
    and "q = q0\<lparr>q_route_snapshot := route\<rparr>" and "build_snapshot E q org user = Inr snap0"
    and "create_new_run E others (db w) (command_digest E q snap0) q org user w = (Inr resp, w')"
proof -
  have rid: "str_set (q_run_id q0)"
    using assms(1) by (rule contrapos_pp) (simp add: create_run_def)
  from assms(1) obtain q w1 snap0 where c: "copy_remote_agent_continuation q0 org user w = (Inr q, w1)"
    and b: "build_snapshot E q org user = Inr snap0"
    and r: "thenE (if str_set (q_run_session_id q)
             then revalidate_run_session (q_run_session_id q) org user None True
             else returnE ())
      (let digest = command_digest E q snap0 in
       bindE (select_run (same_command q org user)) (\<lambda>existing.
       case existing of
         Some r \<Rightarrow> existing_response digest snap0 q org r
       | None \<Rightarrow> create_new_run E others (db w) digest q org user)) w1 = (Inr resp, w')"
    unfolding create_run_def using rid
    by (simp only: simp_thms if_False) (elim bindE_Inr, simp)
  have w1: "w1 = w" using ro_result [OF copy_ro c] .
  obtain route where q: "q = q0\<lparr>q_route_snapshot := route\<rparr>"
    using yieldsD [OF copy_keeps c] by blast
  have "guar (=) (if str_set (q_run_session_id q)
      then revalidate_run_session (q_run_session_id q) org user None True else returnE ())"
    by (simp add: revalidate_ro ro.guar_return)
  with r w1 have "(let digest = command_digest E q snap0 in
       bindE (select_run (same_command q org user)) (\<lambda>existing.
       case existing of
         Some r \<Rightarrow> existing_response digest snap0 q org r
       | None \<Rightarrow> create_new_run E others (db w) digest q org user)) w = (Inr resp, w')"
    by (elim thenE_Inr) (metis ro_result)
  then show ?thesis
    using c b w1 q assms(2) that by (simp add: Let_def bindE_def)
qed

text \<open>With nothing committed in between, the insert succeeds and the run's first events follow.\<close>

lemma create_run_alone:
  assumes "create_run E (\<lambda>d. d) q0 org user w = (Inr resp, w')"
    and "find (same_command q0 org user) (runs (db w)) = None"
  obtains q snap0 snap row n es w1 w2 q2 where
    "copy_remote_agent_continuation q0 org user w = (Inr q, w)" "\<exists>route. q = q0\<lparr>q_route_snapshot := route\<rparr>"
    "build_snapshot E q org user = Inr snap0" "build_snapshot E q2 org user = Inr snap"
    "session_step q org user w1 = (Inr q2, w2)"
    "row = new_run q org user snap (command_digest E q snap0) (clock w)"
    "\<forall>x\<in>set (runs (db w)). \<not> index_clash row x"
    "runs (db w') = runs (db w) @ [row\<lparr>r_next_event_seq := n, r_updated_at := clock w\<rparr>]"
    "events (db w') = events (db w) @ es" "\<forall>e\<in>set es. e_run_id e = r_id row"
    "List.map e_event_seq es = [1..<Suc n]"
    "List.map e_event_type es =
      (if r_status row = QUEUED then [''run.created'', ''run.queued''] else [''run.created''])"
    "sessions (db w') = sessions (db w2)" "attempts (db w') = attempts (db w)" "clock w' = clock w" "clock w2 = clock w"
    "resp = \<lparr>cr_run_id = r_id row, cr_status = r_status row,
        cr_snapshot_hash = dget snap ''snapshot_hash'', cr_org_id = org,
        cr_run_session_id = q_run_session_id q\<rparr>"
proof -
  obtain q snap0 route where c: "copy_remote_agent_continuation q0 org user w = (Inr q, w)"
    and q: "q = q0\<lparr>q_route_snapshot := route\<rparr>" and b0: "build_snapshot E q org user = Inr snap0"
    and n: "create_new_run E (\<lambda>d. d) (db w) (command_digest E q snap0) q org user w = (Inr resp, w')"
    using assms by (rule create_run_past_check)
  from n obtain q2 snap w1 w2 row where s: "session_step q org user w1 = (Inr q2, w2)"
    and b: "build_snapshot E q2 org user = Inr snap"
    and row: "row = new_run q org user snap (command_digest E q snap0) (clock w2)"
    and w2: "runs (db w2) = runs (db w)" "events (db w2) = events (db w)" "attempts (db w2) = attempts (db w)"
      "clock w2 = clock w"
    and i: "\<exists>res w3 w4. insert_or_recover (\<lambda>d. d) (db w) row (command_digest E q snap0) snap q org user
              (with_db (\<lambda>d. d) w2) = (Inr res, w3)
         \<and> (case res of Some r \<Rightarrow> resp = r \<and> w' = w3
            | None \<Rightarrow> created_events E q (r_status row) w3 = (Inr (), w') \<and>
                resp = \<lparr>cr_run_id = str_or (q_run_id q) [], cr_status = r_status row,
                  cr_snapshot_hash = dget snap ''snapshot_hash'', cr_org_id = org,
                  cr_run_session_id = q_run_session_id q\<rparr>)"
    by (rule create_new_run_cases)
  from i obtain res w3 where ins: "insert_or_recover (\<lambda>d. d) (db w) row (command_digest E q snap0) snap q org user
        (with_db (\<lambda>d. d) w2) = (Inr res, w3)"
    and post: "case res of Some r \<Rightarrow> resp = r \<and> w' = w3
            | None \<Rightarrow> created_events E q (r_status row) w3 = (Inr (), w') \<and>
                resp = \<lparr>cr_run_id = str_or (q_run_id q) [], cr_status = r_status row,
                  cr_snapshot_hash = dget snap ''snapshot_hash'', cr_org_id = org,
                  cr_run_session_id = q_run_session_id q\<rparr>" by blast
  from ins show ?thesis
  proof (cases rule: insert_or_recover_cases)
    case (recovered resp' r)
    then show ?thesis using assms(2) q by (simp add: find_None_all)
  next
    case inserted
    let ?w = "w2\<lparr>db := (db w2)\<lparr>runs := runs (db w) @ [row]\<rparr>\<rparr>"
    have w3: "w3 = ?w" using inserted w2 by (simp add: with_db_def)
    have clash: "\<forall>x\<in>set (runs (db w)). \<not> index_clash row x"
      using inserted w2 by (simp add: with_db_def)
    have rid: "r_id row = str_or (q_run_id q) []" and st: "\<not> terminal (r_status row)"
      and seq: "r_next_event_seq row = 0"
      by (simp_all add: row new_run_def TERMINAL_def)
    have "\<forall>x\<in>set (runs (db w)). r_id x \<noteq> r_id row"
      using clash by (auto simp: index_clash_def)
    then obtain v n es where ev: "created_events E q (r_status row) ?w = (Inr (), v)"
      "runs (db v) = runs (db w) @ [row\<lparr>r_next_event_seq := n, r_updated_at := clock ?w\<rparr>]"
      "events (db v) = events (db ?w) @ es" "\<forall>e\<in>set es. e_run_id e = r_id row"
      "List.map e_event_seq es = [1..<Suc n]"
      "List.map e_event_type es =
        (if r_status row = QUEUED then [''run.created'', ''run.queued''] else [''run.created''])"
      "sessions (db v) = sessions (db ?w)" "attempts (db v) = attempts (db ?w)" "clock v = clock ?w"
      using created_events_on_new [of ?w "runs (db w)" row q E "r_status row"] rid st seq by auto
    have v: "w' = v" "resp = \<lparr>cr_run_id = r_id row, cr_status = r_status row,
        cr_snapshot_hash = dget snap ''snapshot_hash'', cr_org_id = org,
        cr_run_session_id = q_run_session_id q\<rparr>"
      using post inserted w3 ev(1) rid by simp_all
    show ?thesis
      by (rule that [OF c _ b0 b s _ clash, of n es]) (use q row ev v w2 in auto)
  qed
qed

text \<open>The duplicate check of a call that finds the run.\<close>

lemma create_run_found:
  assumes "str_set (q_run_id q0)" and "copy_remote_agent_continuation q0 org user w = (Inr q, w)"
    and "build_snapshot E q org user = Inr snap0"
    and "str_set (q_run_session_id q) \<Longrightarrow>
      revalidate_run_session (q_run_session_id q) org user None True w = (Inr (), w)"
    and "find (same_command q org user) (runs (db w)) = Some r"
  shows "create_run E others q0 org user w =
    existing_response (command_digest E q snap0) snap0 q org r w"
  using assms by (simp add: create_run_def bindE_def thenE_def Let_def)

lemma revalidate_passes:
  assumes "find (\<lambda>s. Some (s_id s) = sid) (sessions (db w)) = Some s"
    and "check_session org user (clock w) s = None"
  shows "revalidate_run_session sid org user None m w = (Inr (), w)"
  using assms by (simp add: revalidate_run_session_def bindE_def)

lemma session_runs_upd [simp]:
  "session_runs sid org user rid (r\<lparr>r_next_event_seq := n, r_updated_at := t\<rparr>) = session_runs sid org user rid r"
  by (simp add: session_runs_def)

lemma new_run_facts:
  "r_id (new_run q org user d dg t) = str_or (q_run_id q) []"
  "\<not> terminal (r_status (new_run q org user d dg t))" "r_next_event_seq (new_run q org user d dg t) = 0"
  by (simp_all add: new_run_def TERMINAL_def)

text \<open>A plain request, without a session, reaches the insert.\<close>

lemma create_run_reaches_insert:
  assumes "str_set (q_run_id q)" and "q_tool_name q \<noteq> REMOTE_AGENT_TOOL_NAME"
    and "\<not> str_set (q_run_session_id q)" and "q_context_version q = None"
    and "build_snapshot E q org user = Inr d"
    and "find (same_command q org user) (runs (db w)) = None"
  shows "create_run E others q org user w =
    (let row = new_run q org user d (command_digest E q d) (clock w) in
     bindE (insert_or_recover others (db w) row (command_digest E q d) d q org user) (\<lambda>recovered.
      case recovered of
        Some resp \<Rightarrow> returnE resp
      | None \<Rightarrow>
          thenE (created_events E q (r_status row))
          (returnE \<lparr>cr_run_id = str_or (q_run_id q) [], cr_status = r_status row,
             cr_snapshot_hash = dget d ''snapshot_hash'', cr_org_id = org,
             cr_run_session_id = q_run_session_id q\<rparr>)) (with_db others w))"
  using assms
  by (simp add: create_run_def create_new_run_def copy_remote_agent_continuation_def
      pin_remote_agent_session_def session_step_def bindE_def [of "getsE f" for f] bindE_def [of "returnE x" for x]
      bindE_def [of "liftE x" for x] bindE_def [of "select_run x" for x] bindE_def [of now_op]
      thenE_def bindE_def [of "modifyE f" for f] Let_def)

lemma create_run_succeeds:
  assumes "str_set (q_run_id q)" and "q_tool_name q \<noteq> REMOTE_AGENT_TOOL_NAME"
    and "\<not> str_set (q_run_session_id q)" and "q_context_version q = None"
    and "build_snapshot E q org user = Inr d" and "runs (db w) = []"
  shows "\<exists>resp w'. create_run E (\<lambda>d. d) q org user w = (Inr resp, w')
    \<and> cr_snapshot_hash resp = dget d ''snapshot_hash'' \<and> List.map r_id (runs (db w')) = [str_or (q_run_id q) []]"
proof -
  let ?row = "new_run q org user d (command_digest E q d) (clock w)"
  let ?w = "w\<lparr>db := (db w)\<lparr>runs := [?row]\<rparr>\<rparr>"
  have "insert_or_recover (\<lambda>d. d) (db w) ?row (command_digest E q d) d q org user (with_db (\<lambda>d. d) w) = (Inr None, ?w)"
    using assms(6)
    by (simp add: insert_or_recover_def catchE_def thenE_def bindE_def insert_unique_run_def
        insert_run_def with_db_def)
  moreover obtain w' where "created_events E q (r_status ?row) ?w = (Inr (), w')"
    "List.map r_id (runs (db w')) = [r_id ?row]"
    using created_events_on_new [of ?w "[]" ?row q E "r_status ?row",
      OF _ _ new_run_facts(2) new_run_facts(3) new_run_facts(1)] by auto
  ultimately show ?thesis
    using create_run_reaches_insert [OF assms(1-5), of w "\<lambda>d. d"] assms(6)
    by (simp add: Let_def bindE_run thenE_run new_run_facts(1))
qed

section \<open>Properties\<close>

text \<open>C7: A call of \<open>create_run\<close> that returns, for a command no run exists for, adds exactly one
  run: under the requested identifier, owned by the caller, queued or waiting for approval,
  clashing with no other run on any unique index, with its first events numbered from one.\<close>

theorem create_run_adds_one_run:
  assumes "create_run E (\<lambda>d. d) q org user w = (Inr resp, w')"
    and "find (same_command q org user) (runs (db w)) = None"
  shows "\<exists>row es. runs (db w') = runs (db w) @ [row] \<and> events (db w') = events (db w) @ es
    \<and> q_run_id q = Some (r_id row) \<and> cr_run_id resp = r_id row
    \<and> r_org_id row = org \<and> r_user_id row = user \<and> r_generation row = 0 \<and> r_attempt_id row = None
    \<and> r_status row = (if q_requires_approval q then WAITING_APPROVAL else QUEUED)
    \<and> (\<forall>x\<in>set (runs (db w)). \<not> index_clash row x)
    \<and> List.map e_event_seq es = [1..<Suc (r_next_event_seq row)]
    \<and> (\<forall>e\<in>set es. e_run_id e = r_id row)
    \<and> List.map e_event_type es = (if q_requires_approval q then [''run.created''] else [''run.created'', ''run.queued''])"
proof -
  have rid: "str_set (q_run_id q)"
    using assms(1) by (rule contrapos_pp) (simp add: create_run_def)
  obtain q' snap0 snap row n es where q': "\<exists>route. q' = q\<lparr>q_route_snapshot := route\<rparr>"
    and row: "row = new_run q' org user snap (command_digest E q' snap0) (clock w)"
    and clash: "\<forall>x\<in>set (runs (db w)). \<not> index_clash row x"
    and runs: "runs (db w') = runs (db w) @ [row\<lparr>r_next_event_seq := n, r_updated_at := clock w\<rparr>]"
    and ev: "events (db w') = events (db w) @ es" "\<forall>e\<in>set es. e_run_id e = r_id row"
      "List.map e_event_seq es = [1..<Suc n]"
      "List.map e_event_type es =
        (if r_status row = QUEUED then [''run.created'', ''run.queued''] else [''run.created''])"
    and resp: "resp = \<lparr>cr_run_id = r_id row, cr_status = r_status row,
        cr_snapshot_hash = dget snap ''snapshot_hash'', cr_org_id = org,
        cr_run_session_id = q_run_session_id q'\<rparr>"
    using assms by (rule create_run_alone)
  have "index_clash (row\<lparr>r_next_event_seq := n, r_updated_at := clock w\<rparr>) = index_clash row"
    by (rule ext) (simp add: index_clash_def)
  moreover have "q_run_id q = Some (r_id row)"
    using rid q' row by (auto simp: new_run_def str_set_def str_or_def split: option.splits)
  moreover have "r_status row = (if q_requires_approval q then WAITING_APPROVAL else QUEUED)"
    using q' row by (auto simp: new_run_def)
  ultimately show ?thesis
    using row clash runs ev resp
    by (intro exI [of _ "row\<lparr>r_next_event_seq := n, r_updated_at := clock w\<rparr>"] exI [of _ es])
      (simp add: new_run_def)
qed

lemma sample_request_plain:
  "str_set (q_run_id sample_request)" "q_tool_name sample_request \<noteq> REMOTE_AGENT_TOOL_NAME"
  "\<not> str_set (q_run_session_id sample_request)" "q_context_version sample_request = None"
  by code_simp+

lemma sample_create:
  "\<exists>resp w'. create_run sample_env (\<lambda>d. d) sample_request ''org'' ''user'' sample_world = (Inr resp, w')
     \<and> cr_snapshot_hash resp = JStr ''h'' \<and> List.map r_id (runs (db w')) = [str_or (q_run_id sample_request) []]"
proof -
  obtain d where d: "build_snapshot sample_env sample_request ''org'' ''user'' = Inr d"
    using sample_snapshot by blast
  moreover have "dget d ''snapshot_hash'' = JStr ''h''"
    by (rule snapshot_hash_given [OF d]) code_simp
  ultimately show ?thesis
    using create_run_succeeds [OF sample_request_plain d, of sample_world]
    by (simp add: sample_world_def empty_db_def)
qed

theorem create_run_adds_one_run_witness:
  "\<exists>resp w' row. create_run sample_env (\<lambda>d. d) sample_request ''org'' ''user'' sample_world = (Inr resp, w')
     \<and> runs (db w') = runs (db sample_world) @ [row] \<and> r_status row = QUEUED"
proof -
  obtain resp w' where c: "create_run sample_env (\<lambda>d. d) sample_request ''org'' ''user'' sample_world = (Inr resp, w')"
    using sample_create by blast
  have n: "find (same_command sample_request ''org'' ''user'') (runs (db sample_world)) = None"
    by (simp add: sample_world_def empty_db_def)
  have "q_requires_approval sample_request = False" by (simp add: sample_request_def)
  with create_run_adds_one_run [OF c n] c show ?thesis by (elim exE conjE) (intro exI conjI; simp)
qed

text \<open>C8: Replaying a command is idempotent: after a call that created the run, the same call
  finds it, changes nothing, and gives the same answer.\<close>

theorem create_run_replay:
  assumes "create_run E (\<lambda>d. d) q0 org user w = (Inr resp, w')"
    and "find (same_command q0 org user) (runs (db w)) = None"
    and "truthy (cr_snapshot_hash resp)"
  shows "create_run E others q0 org user w' = (Inr resp, w')"
proof -
  have rid: "str_set (q_run_id q0)"
    using assms(1) by (rule contrapos_pp) (simp add: create_run_def)
  obtain q snap0 snap row n es w1 w2 q2 where c: "copy_remote_agent_continuation q0 org user w = (Inr q, w)"
    and q: "\<exists>route. q = q0\<lparr>q_route_snapshot := route\<rparr>"
    and b0: "build_snapshot E q org user = Inr snap0"
    and s: "session_step q org user w1 = (Inr q2, w2)"
    and row: "row = new_run q org user snap (command_digest E q snap0) (clock w)"
    and clash: "\<forall>x\<in>set (runs (db w)). \<not> index_clash row x"
    and runs: "runs (db w') = runs (db w) @ [row\<lparr>r_next_event_seq := n, r_updated_at := clock w\<rparr>]"
    and rest: "sessions (db w') = sessions (db w2)" "attempts (db w') = attempts (db w)"
      "clock w' = clock w" "clock w2 = clock w"
    and resp: "resp = \<lparr>cr_run_id = r_id row, cr_status = r_status row,
        cr_snapshot_hash = dget snap ''snapshot_hash'', cr_org_id = org,
        cr_run_session_id = q_run_session_id q\<rparr>"
    using assms(1,2) by (rule create_run_alone)
  let ?row = "row\<lparr>r_next_event_seq := n, r_updated_at := clock w\<rparr>"
  have id: "r_id row = str_or (q_run_id q0) []" using row q by (auto simp: new_run_def)
  have "\<not> session_runs sid org user (str_or (q_run_id q0) []) row" for sid
    using id by (simp add: session_runs_def)
  then have "fst (copy_remote_agent_continuation q0 org user w') = Inr q"
    using copy_cong [where q = q0 and org = org and user = user and w = w and w' = w'] c runs rest by simp
  then have c': "copy_remote_agent_continuation q0 org user w' = (Inr q, w')"
    using guarD [OF copy_ro [of q0 org user], of w'] by (metis prod.collapse)
  have rv: "revalidate_run_session (q_run_session_id q) org user None True w' = (Inr (), w')"
    if sid: "str_set (q_run_session_id q)"
    using session_step_usable [OF s sid] revalidate_passes [of "q_run_session_id q" w'] rest by auto
  have "same_command q org user ?row"
    using rid q row by (auto simp: same_command_def new_run_def str_set_def str_or_def split: option.splits)
  then have found: "find (same_command q org user) (runs (db w')) = Some ?row"
    using assms(2) q runs by (auto simp: find_append_None)
  have "create_run E others q0 org user w' = existing_response (command_digest E q snap0) snap0 q org ?row w'"
    by (rule create_run_found [OF rid c' b0 rv found])
  also have "\<dots> = (Inr resp, w')"
    using assms(3) resp row
    by (simp add: existing_response_def new_run_def or_else_def dict_or_empty_def str_set_def str_or_def split: option.split)
      (cases snap; simp)
  finally show ?thesis .
qed

theorem create_run_replay_witness:
  "\<exists>resp w'. create_run sample_env (\<lambda>d. d) sample_request ''org'' ''user'' sample_world = (Inr resp, w')
     \<and> create_run sample_env (\<lambda>d. d) sample_request ''org'' ''user'' w' = (Inr resp, w')"
proof -
  obtain resp w' where c: "create_run sample_env (\<lambda>d. d) sample_request ''org'' ''user'' sample_world = (Inr resp, w')"
    and h: "cr_snapshot_hash resp = JStr ''h''"
    using sample_create by blast
  have n: "find (same_command sample_request ''org'' ''user'') (runs (db sample_world)) = None"
    by (simp add: sample_world_def empty_db_def)
  from create_run_replay [OF c n, of "\<lambda>d. d"] h c show ?thesis by (intro exI conjI) simp_all
qed

text \<open>A request that loses the race for a unique index leaves no trace of its own: its
  transaction is rolled back and it answers with the run the other transaction inserted.\<close>

theorem create_run_lost_race:
  assumes "create_run E others q org user w = (Inr resp, w')"
    and "find (same_command q org user) (runs (db w)) = None"
    and "\<And>d d'. runs d = runs d' \<Longrightarrow> runs (others d) = runs (others d')"
    and "x \<in> set (runs (others (db w)))" and "q_run_id q = Some (r_id x)"
  shows "db w' = others (db w)
    \<and> (\<exists>r\<in>set (runs (others (db w))). same_command q org user r \<and> cr_run_id resp = r_id r
          \<and> cr_status resp = r_status r)"
proof -
  obtain q' snap0 route where q': "q' = q\<lparr>q_route_snapshot := route\<rparr>"
    and n: "create_new_run E others (db w) (command_digest E q' snap0) q' org user w = (Inr resp, w')"
    using assms(1,2) by (rule create_run_past_check)
  from n obtain q2 snap w1 w2 row where row: "row = new_run q' org user snap (command_digest E q' snap0) (clock w2)"
    and w2: "runs (db w2) = runs (db w)"
    and i: "\<exists>res w3 w4. insert_or_recover others (db w) row (command_digest E q' snap0) snap q' org user
              (with_db others w2) = (Inr res, w3)
         \<and> (case res of Some r \<Rightarrow> resp = r \<and> w' = w3
            | None \<Rightarrow> created_events E q' (r_status row) w3 = (Inr (), w') \<and>
                resp = \<lparr>cr_run_id = str_or (q_run_id q') [], cr_status = r_status row,
                  cr_snapshot_hash = dget snap ''snapshot_hash'', cr_org_id = org,
                  cr_run_session_id = q_run_session_id q'\<rparr>)"
    by (rule create_new_run_cases)
  have "x \<in> set (runs (others (db w2)))" using assms(3) [OF w2] assms(4) by simp
  moreover have "index_clash row x"
    using assms(5) row q' by (simp add: index_clash_def new_run_def str_or_def)
  ultimately have no: "\<not> (\<forall>x\<in>set (runs (db (with_db others w2))). \<not> index_clash row x)"
    by (auto simp: with_db_def)
  from i obtain res w3 where ins: "insert_or_recover others (db w) row (command_digest E q' snap0) snap q' org user
        (with_db others w2) = (Inr res, w3)"
    and post: "case res of Some r \<Rightarrow> resp = r \<and> w' = w3 | None \<Rightarrow> True" by (auto split: option.splits)
  from ins show ?thesis
  proof (cases rule: insert_or_recover_cases)
    case inserted
    with no show ?thesis by simp
  next
    case (recovered resp' r)
    then show ?thesis
      using post q' by (auto simp: existing_response_def split: if_splits intro!: bexI [of _ r])
  qed
qed

definition rival_run :: run_row where
  "rival_run = (new_run sample_request ''org'' ''user'' [] [] 0)\<lparr>r_command_digest := None, r_status := RUNNING\<rparr>"

theorem create_run_lost_race_witness:
  "\<exists>resp w'. create_run sample_env (\<lambda>d. d\<lparr>runs := runs d @ [rival_run]\<rparr>) sample_request ''org'' ''user''
       sample_world = (Inr resp, w') \<and> runs (db w') = [rival_run] \<and> cr_status resp = RUNNING"
proof -
  let ?o = "\<lambda>d. d\<lparr>runs := runs d @ [rival_run]\<rparr>"
  obtain d where d: "build_snapshot sample_env sample_request ''org'' ''user'' = Inr d"
    using sample_snapshot by blast
  have n: "find (same_command sample_request ''org'' ''user'') (runs (db sample_world)) = None"
    by (simp add: sample_world_def empty_db_def)
  have same: "same_command sample_request ''org'' ''user'' rival_run"
    and clash: "index_clash (new_run sample_request ''org'' ''user'' d dg 0) rival_run" for dg
    by (simp_all add: same_command_def index_clash_def rival_run_def new_run_def sample_request_def str_or_def)
  have "\<exists>resp w'. create_run sample_env ?o sample_request ''org'' ''user'' sample_world = (Inr resp, w')"
    unfolding create_run_reaches_insert [OF sample_request_plain d n] Let_def
    using same clash
    by (simp add: insert_or_recover_def catchE_def
        insert_unique_run_def with_db_def sample_world_def empty_db_def thenE_def bindE_def rollback_to_def
        existing_response_def) (simp add: rival_run_def str_set_def str_or_def)
  then obtain resp w' where c: "create_run sample_env ?o sample_request ''org'' ''user'' sample_world = (Inr resp, w')"
    by blast
  have "q_run_id sample_request = Some (r_id rival_run)"
    by (simp add: rival_run_def new_run_def sample_request_def str_or_def)
  from create_run_lost_race [OF c n _ _ this] c show ?thesis
    by (intro exI [of _ resp] exI [of _ w']) (simp add: sample_world_def empty_db_def, simp add: rival_run_def)
qed

end
