(* ===== verification/Event_Schema.thy ===== *)
theory Event_Schema
  imports Json_Text
begin

text \<open>
  The event types and the payload schemas of \<open>schemas.py\<close>: which types are semantic, which are
  control events, and \<open>validate_semantic_event_payload\<close> with the bounds on depth and encoded size of
  tool events. A status that cannot be hashed (a list or a dict) makes the set membership test raise.
\<close>

section \<open>Event types\<close>

definition SEMANTIC_EVENT_TYPES :: "string list" where
  "SEMANTIC_EVENT_TYPES =
     [''assistant.delta'', ''assistant.message'', ''reasoning.summary'', ''tool.call'', ''tool.result'',
      ''clarify.requested'', ''approval.requested'', ''artifact.persisted'']"

definition CONTROL_EVENT_PREFIXES_KEEP :: "string list" where
  "CONTROL_EVENT_PREFIXES_KEEP = [''run.'', ''step.'', ''edge.job.'']"

definition is_semantic_event_type :: "string \<Rightarrow> bool" where
  "is_semantic_event_type event_type \<longleftrightarrow> event_type \<in> set SEMANTIC_EVENT_TYPES"

definition is_control_event_type :: "string \<Rightarrow> bool" where
  "is_control_event_type event_type \<longleftrightarrow>
     event_type \<noteq> [] \<and> \<not> is_semantic_event_type event_type
     \<and> list_ex (startswith event_type) CONTROL_EVENT_PREFIXES_KEEP"

section \<open>Bounds and fields\<close>

definition TOOL_CALL_STATUSES :: "string list" where
  "TOOL_CALL_STATUSES = [''started'', ''completed'', ''failed'']"

definition TOOL_RESULT_STATUSES :: "string list" where
  "TOOL_RESULT_STATUSES = [''completed'', ''failed'']"

definition MAX_ASSISTANT_DELTA_UTF8_BYTES :: nat where
  "MAX_ASSISTANT_DELTA_UTF8_BYTES = 64 * 1024"

definition MAX_ASSISTANT_SNAPSHOT_UTF8_BYTES :: nat where
  "MAX_ASSISTANT_SNAPSHOT_UTF8_BYTES = 1 * 1024 * 1024"

definition MAX_TOOL_EVENT_UTF8_BYTES :: nat where
  "MAX_TOOL_EVENT_UTF8_BYTES = 64 * 1024"

definition MAX_TOOL_EVENT_JSON_DEPTH :: nat where
  "MAX_TOOL_EVENT_JSON_DEPTH = 8"

definition SEMANTIC_PAYLOAD_FIELDS :: "(string \<times> string list) list" where
  "SEMANTIC_PAYLOAD_FIELDS =
     [(''assistant.delta'', [''message_id'', ''delta_seq'', ''delta'']),
      (''assistant.message'', [''message_id'', ''text'']),
      (''reasoning.summary'', [''summary'']),
      (''tool.call'', [''tool_name'', ''call_id'', ''status'', ''arguments'', ''redacted'', ''truncated'']),
      (''tool.result'', [''tool_name'', ''call_id'', ''status'', ''content'', ''structured_content'',
         ''artifact_ids'', ''error_code'', ''error_message'', ''redacted'', ''truncated'']),
      (''clarify.requested'', [''question'', ''options'']),
      (''approval.requested'', [''approval_id'', ''summary'']),
      (''artifact.persisted'', [''artifact_id'', ''name'', ''content_type'', ''size'', ''checksum_sha256''])]"

definition FORBIDDEN_PAYLOAD_KEYS :: "string list" where
  "FORBIDDEN_PAYLOAD_KEYS =
     [''storage_key'', ''storage_ref'', ''gateway_url'', ''gateway_token'', ''token'', ''authorization'',
      ''raw_arguments'', ''presigned_url'', ''bytes'', ''content_base64'', ''chain_of_thought'', ''reasoning'']"

fun json_depth :: "nat \<Rightarrow> json \<Rightarrow> nat" where
  "json_depth depth (JObj d) =
     (if d = [] then depth else foldr max (List.map (\<lambda>kv. json_depth (depth + 1) (snd kv)) d) 0)"
| "json_depth depth (JList xs) =
     (if xs = [] then depth else foldr max (List.map (json_depth (depth + 1)) xs) 0)"
| "json_depth depth _ = depth"

definition tool_event_bounds_reason :: "dict \<Rightarrow> string option" where
  "tool_event_bounds_reason data =
     (if json_depth 1 (JObj data) > MAX_TOOL_EVENT_JSON_DEPTH then Some ''tool_event_too_deep''
      else if payload_utf8_size (JObj data) > MAX_TOOL_EVENT_UTF8_BYTES then Some ''tool_event_too_large''
      else None)"

fun is_bool :: "json \<Rightarrow> bool" where
  "is_bool (JBool _) = True"
| "is_bool _ = False"

definition optional_bool_reason :: "dict \<Rightarrow> string \<Rightarrow> string \<Rightarrow> string option" where
  "optional_bool_reason data field reason =
     (if \<not> has_key data field then None
      else if \<not> is_bool (dget data field) then Some reason
      else None)"

text \<open>A field that may be missing or \<open>None\<close>, but otherwise must satisfy the test.\<close>

definition bad_optional :: "dict \<Rightarrow> string \<Rightarrow> (json \<Rightarrow> bool) \<Rightarrow> bool" where
  "bad_optional data field ok \<longleftrightarrow> has_key data field \<and> dget data field \<noteq> JNull \<and> \<not> ok (dget data field)"

text \<open>\<open>status in <frozenset of strings>\<close>.\<close>

fun member_of :: "json \<Rightarrow> string list \<Rightarrow> exn + bool" where
  "member_of (JStr s) xs = Inr (s \<in> set xs)"
| "member_of (JList _) xs = Inl (OtherError ''unhashable type'')"
| "member_of (JObj _) xs = Inl (OtherError ''unhashable type'')"
| "member_of _ xs = Inr False"

type_synonym verdict = "exn + string option"

definition reject :: "string \<Rightarrow> verdict" where
  "reject reason = Inr (Some reason)"

definition accept :: verdict where
  "accept = Inr None"

definition if_member :: "json \<Rightarrow> string list \<Rightarrow> string \<Rightarrow> verdict \<Rightarrow> verdict" where
  "if_member v xs reason next =
     (case member_of v xs of Inl e \<Rightarrow> Inl e | Inr b \<Rightarrow> if b then next else reject reason)"

section \<open>The schemas\<close>

fun positive_int :: "json \<Rightarrow> bool" where
  "positive_int (JInt i) = (1 \<le> i)"
| "positive_int _ = False"

definition validate_assistant_delta :: "dict \<Rightarrow> verdict" where
  "validate_assistant_delta data =
     (if \<not> nonempty_str (dget data ''message_id'') then reject ''missing_assistant_message_id''
      else if \<not> positive_int (dget data ''delta_seq'') then reject ''invalid_assistant_delta_seq''
      else if \<not> nonempty_str (dget data ''delta'') then reject ''missing_assistant_delta''
      else if length (str_val (dget data ''delta'')) > MAX_ASSISTANT_DELTA_UTF8_BYTES
        then reject ''assistant_delta_too_large''
      else accept)"

definition validate_assistant_message :: "dict \<Rightarrow> verdict" where
  "validate_assistant_message data =
     (if \<not> nonempty_str (dget data ''message_id'') then reject ''missing_assistant_message_id''
      else if \<not> nonempty_str (dget data ''text'') then reject ''missing_assistant_text''
      else if length (str_val (dget data ''text'')) > MAX_ASSISTANT_SNAPSHOT_UTF8_BYTES
        then reject ''assistant_snapshot_too_large''
      else accept)"

definition validate_tool_flags :: "dict \<Rightarrow> verdict" where
  "validate_tool_flags data =
     (case optional_bool_reason data ''redacted'' ''invalid_tool_redacted'' of
        Some r \<Rightarrow> reject r
      | None \<Rightarrow>
          (case optional_bool_reason data ''truncated'' ''invalid_tool_truncated'' of
             Some r \<Rightarrow> reject r
           | None \<Rightarrow> Inr (tool_event_bounds_reason data)))"

definition validate_tool_call :: "dict \<Rightarrow> verdict" where
  "validate_tool_call data =
     (if \<not> nonempty_str (dget data ''tool_name'') then reject ''missing_tool_name''
      else if \<not> nonempty_str (dget data ''call_id'') then reject ''missing_call_id''
      else if_member (dget data ''status'') TOOL_CALL_STATUSES ''invalid_tool_call_status''
        (if bad_optional data ''arguments'' is_dict then reject ''invalid_tool_arguments''
         else validate_tool_flags data))"

definition validate_tool_result :: "dict \<Rightarrow> verdict" where
  "validate_tool_result data =
     (if \<not> nonempty_str (dget data ''tool_name'') then reject ''missing_tool_name''
      else if \<not> nonempty_str (dget data ''call_id'') then reject ''missing_call_id''
      else if_member (dget data ''status'') TOOL_RESULT_STATUSES ''invalid_tool_result_status''
        (if bad_optional data ''content'' is_str then reject ''invalid_tool_result_content''
         else if bad_optional data ''artifact_ids''
                   (\<lambda>v. is_list v \<and> \<not> list_ex (\<lambda>item. \<not> nonempty_str item) (list_of v))
           then reject ''invalid_tool_result_artifact_ids''
         else if bad_optional data ''error_code'' is_str then reject ''invalid_tool_result_error_code''
         else if bad_optional data ''error_message'' is_str then reject ''invalid_tool_result_error_message''
         else if dget data ''status'' = JStr ''failed'' \<and> \<not> nonempty_str (dget data ''error_code'')
           then reject ''missing_tool_result_error_code''
         else validate_tool_flags data))"

definition validate_clarify_requested :: "dict \<Rightarrow> verdict" where
  "validate_clarify_requested data =
     (if \<not> nonempty_str (dget data ''question'') then reject ''missing_clarify_question''
      else if dget data ''options'' \<noteq> JNull \<and> \<not> is_list (dget data ''options'')
        then reject ''invalid_clarify_options''
      else accept)"

definition validate_approval_requested :: "dict \<Rightarrow> verdict" where
  "validate_approval_requested data =
     (if \<not> nonempty_str (dget data ''approval_id'') then reject ''missing_approval_id''
      else if \<not> nonempty_str (dget data ''summary'') then reject ''missing_approval_summary''
      else accept)"

text \<open>\<open>isinstance(size, int)\<close> holds of \<open>True\<close> and \<open>False\<close> too.\<close>

fun natural_int :: "json \<Rightarrow> bool" where
  "natural_int (JInt i) = (0 \<le> i)"
| "natural_int (JBool _) = True"
| "natural_int _ = False"

definition validate_artifact_persisted :: "dict \<Rightarrow> verdict" where
  "validate_artifact_persisted data =
     (if \<not> nonempty_str (dget data ''artifact_id'') then reject ''missing_artifact_id''
      else if \<not> nonempty_str (dget data ''name'') then reject ''missing_artifact_name''
      else if \<not> natural_int (dget data ''size'') then reject ''invalid_artifact_size''
      else if \<not> nonempty_str (dget data ''checksum_sha256'') then reject ''missing_artifact_checksum''
      else if dget data ''content_type'' \<noteq> JNull \<and> \<not> is_str (dget data ''content_type'')
        then reject ''invalid_artifact_content_type''
      else accept)"

definition unexpected_field :: "string \<Rightarrow> dict \<Rightarrow> bool" where
  "unexpected_field event_type data \<longleftrightarrow>
     (case map_of SEMANTIC_PAYLOAD_FIELDS event_type of
        None \<Rightarrow> False
      | Some allowed_fields \<Rightarrow> list_ex (\<lambda>k. k \<notin> set allowed_fields) (List.map fst data))"

definition validate_semantic_event_payload :: "string \<Rightarrow> json \<Rightarrow> verdict" where
  "validate_semantic_event_payload event_type payload =
     (let data0 = or_else payload (JObj []) in
      if \<not> is_dict data0 then reject ''invalid_semantic_payload''
      else
        let data = dict_of data0 in
        if list_ex (\<lambda>k. k \<in> set FORBIDDEN_PAYLOAD_KEYS) (List.map fst data)
          then reject ''forbidden_semantic_payload_field''
        else if unexpected_field event_type data then reject ''unexpected_semantic_payload_field''
        else if event_type = ''assistant.delta'' then validate_assistant_delta data
        else if event_type = ''assistant.message'' then validate_assistant_message data
        else if event_type = ''reasoning.summary''
          then (if \<not> nonempty_str (dget data ''summary'') then reject ''missing_reasoning_summary'' else accept)
        else if event_type = ''tool.call'' then validate_tool_call data
        else if event_type = ''tool.result'' then validate_tool_result data
        else if event_type = ''clarify.requested'' then validate_clarify_requested data
        else if event_type = ''approval.requested'' then validate_approval_requested data
        else if event_type = ''artifact.persisted'' then validate_artifact_persisted data
        else reject ''unknown_semantic_type'')"

section \<open>A declarative schema\<close>

text \<open>
  The table the checks implement: per type its fields, each required, optional (may be missing), or
  nullable (may be missing or \<open>None\<close>), with the values it may take.
\<close>

datatype need = Required | Optional | Nullable

type_synonym field_spec = "string \<times> need \<times> (json \<Rightarrow> bool)"

definition within :: "nat \<Rightarrow> json \<Rightarrow> bool" where
  "within n v \<longleftrightarrow> nonempty_str v \<and> length (str_val v) \<le> n"

definition one_of :: "string list \<Rightarrow> json \<Rightarrow> bool" where
  "one_of xs v \<longleftrightarrow> is_str v \<and> str_val v \<in> set xs"

definition text_list :: "json \<Rightarrow> bool" where
  "text_list v \<longleftrightarrow> is_list v \<and> list_all nonempty_str (list_of v)"

definition semantic_schema :: "(string \<times> field_spec list) list" where
  "semantic_schema =
     [(''assistant.delta'',
        [(''message_id'', Required, nonempty_str), (''delta_seq'', Required, positive_int),
         (''delta'', Required, within MAX_ASSISTANT_DELTA_UTF8_BYTES)]),
      (''assistant.message'',
        [(''message_id'', Required, nonempty_str), (''text'', Required, within MAX_ASSISTANT_SNAPSHOT_UTF8_BYTES)]),
      (''reasoning.summary'', [(''summary'', Required, nonempty_str)]),
      (''tool.call'',
        [(''tool_name'', Required, nonempty_str), (''call_id'', Required, nonempty_str),
         (''status'', Required, one_of TOOL_CALL_STATUSES), (''arguments'', Nullable, is_dict),
         (''redacted'', Optional, is_bool), (''truncated'', Optional, is_bool)]),
      (''tool.result'',
        [(''tool_name'', Required, nonempty_str), (''call_id'', Required, nonempty_str),
         (''status'', Required, one_of TOOL_RESULT_STATUSES), (''content'', Nullable, is_str),
         (''structured_content'', Optional, (\<lambda>_. True)), (''artifact_ids'', Nullable, text_list),
         (''error_code'', Nullable, is_str), (''error_message'', Nullable, is_str),
         (''redacted'', Optional, is_bool), (''truncated'', Optional, is_bool)]),
      (''clarify.requested'', [(''question'', Required, nonempty_str), (''options'', Nullable, is_list)]),
      (''approval.requested'', [(''approval_id'', Required, nonempty_str), (''summary'', Required, nonempty_str)]),
      (''artifact.persisted'',
        [(''artifact_id'', Required, nonempty_str), (''name'', Required, nonempty_str),
         (''content_type'', Nullable, is_str), (''size'', Required, natural_int),
         (''checksum_sha256'', Required, nonempty_str)])]"

fun field_conforms :: "dict \<Rightarrow> field_spec \<Rightarrow> bool" where
  "field_conforms d (k, Required, ok) = ok (dget d k)"
| "field_conforms d (k, Optional, ok) = (has_key d k \<longrightarrow> ok (dget d k))"
| "field_conforms d (k, Nullable, ok) = (dget d k \<noteq> JNull \<longrightarrow> ok (dget d k))"

definition conforms :: "string \<Rightarrow> dict \<Rightarrow> bool" where
  "conforms event_type d \<longleftrightarrow>
     (case map_of semantic_schema event_type of
        None \<Rightarrow> False
      | Some fields \<Rightarrow>
          (\<forall>k\<in>set (List.map fst d). k \<in> set (List.map fst fields))
          \<and> list_all (field_conforms d) fields
          \<and> (event_type = ''tool.result'' \<and> dget d ''status'' = JStr ''failed'' \<longrightarrow> nonempty_str (dget d ''error_code''))
          \<and> (event_type \<in> {''tool.call'', ''tool.result''} \<longrightarrow>
               json_depth 1 (JObj d) \<le> MAX_TOOL_EVENT_JSON_DEPTH
               \<and> payload_utf8_size (JObj d) \<le> MAX_TOOL_EVENT_UTF8_BYTES))"

lemma accept_iff [simp]:
  "reject r \<noteq> accept" "(if b then reject r else v) = accept \<longleftrightarrow> \<not> b \<and> v = accept"
  by (simp_all add: reject_def accept_def)

lemma if_member_accept [simp]: "if_member v xs r next = accept \<longleftrightarrow> one_of xs v \<and> next = accept"
  by (cases v) (simp_all add: if_member_def one_of_def reject_def accept_def)

lemma bad_optional_iff: "bad_optional d k ok \<longleftrightarrow> dget d k \<noteq> JNull \<and> \<not> ok (dget d k)"
  by (auto simp: bad_optional_def has_key_def dget_def split: option.splits)

lemma flags_accept:
  "validate_tool_flags d = accept \<longleftrightarrow> field_conforms d (''redacted'', Optional, is_bool)
     \<and> field_conforms d (''truncated'', Optional, is_bool)
     \<and> json_depth 1 (JObj d) \<le> MAX_TOOL_EVENT_JSON_DEPTH \<and> payload_utf8_size (JObj d) \<le> MAX_TOOL_EVENT_UTF8_BYTES"
  by (simp add: validate_tool_flags_def optional_bool_reason_def tool_event_bounds_reason_def accept_def reject_def
      not_less)

lemma within_iff: "within n v \<longleftrightarrow> nonempty_str v \<and> \<not> n < length (str_val v)"
  by (simp add: within_def not_less)

lemma list_ex_not: "\<not> list_ex (\<lambda>x. \<not> P x) xs \<longleftrightarrow> list_all P xs"
  by (simp add: list_ex_iff list_all_iff)

lemma text_list_iff: "is_list v \<and> \<not> list_ex (\<lambda>x. \<not> nonempty_str x) (list_of v) \<longleftrightarrow> text_list v"
  by (simp add: text_list_def list_ex_not)

lemma schema_fields:
  "map_option (List.map fst) (map_of semantic_schema ty) = map_of SEMANTIC_PAYLOAD_FIELDS ty"
  by (simp add: semantic_schema_def SEMANTIC_PAYLOAD_FIELDS_def)

lemma schema_types: "map_of semantic_schema ty \<noteq> None \<longleftrightarrow> is_semantic_event_type ty"
  by (simp add: semantic_schema_def is_semantic_event_type_def SEMANTIC_EVENT_TYPES_def)


lemma member_iff: "(\<exists>x\<in>set xs. x \<notin> set ys) \<longleftrightarrow> \<not> (\<forall>x\<in>set xs. x \<in> set ys)"
  by blast

lemma unexpected_iff:
  "map_of semantic_schema ty = Some fields \<Longrightarrow>
   unexpected_field ty d \<longleftrightarrow> \<not> (\<forall>k\<in>set (List.map fst d). k \<in> set (List.map fst fields))"
proof -
  assume "map_of semantic_schema ty = Some fields"
  then have "map_of SEMANTIC_PAYLOAD_FIELDS ty = Some (List.map fst fields)"
    using schema_fields [of ty] by simp
  then show ?thesis by (simp add: unexpected_field_def list_ex_iff del: list.set_map)
qed

lemma no_forbidden:
  assumes "map_of semantic_schema ty = Some fields" and "\<forall>k\<in>set (List.map fst d). k \<in> set (List.map fst fields)"
  shows "\<not> list_ex (\<lambda>k. k \<in> set FORBIDDEN_PAYLOAD_KEYS) (List.map fst d)"
proof -
  have "list_all (\<lambda>(ty, fields). list_all (\<lambda>k. k \<notin> set FORBIDDEN_PAYLOAD_KEYS) fields) SEMANTIC_PAYLOAD_FIELDS"
    by (simp add: SEMANTIC_PAYLOAD_FIELDS_def FORBIDDEN_PAYLOAD_KEYS_def)
  moreover have "(ty, List.map fst fields) \<in> set SEMANTIC_PAYLOAD_FIELDS"
    using schema_fields [of ty] assms(1) by (intro map_of_SomeD) simp
  ultimately have "list_all (\<lambda>k. k \<notin> set FORBIDDEN_PAYLOAD_KEYS) (List.map fst fields)"
    by (simp add: list_all_iff del: list.set_map) (drule bspec, assumption, simp)
  with assms(2) show ?thesis unfolding list_ex_iff list_all_iff by blast
qed

lemma or_else_dict: "or_else (JObj d) (JObj []) = JObj d"
  by (simp add: or_else_def)

lemma checks_accept:
  "validate_assistant_delta d = accept \<longleftrightarrow>
     nonempty_str (dget d ''message_id'') \<and> positive_int (dget d ''delta_seq'')
     \<and> within MAX_ASSISTANT_DELTA_UTF8_BYTES (dget d ''delta'')"
  "validate_assistant_message d = accept \<longleftrightarrow>
     nonempty_str (dget d ''message_id'') \<and> within MAX_ASSISTANT_SNAPSHOT_UTF8_BYTES (dget d ''text'')"
  "validate_clarify_requested d = accept \<longleftrightarrow>
     nonempty_str (dget d ''question'') \<and> (dget d ''options'' \<noteq> JNull \<longrightarrow> is_list (dget d ''options''))"
  "validate_approval_requested d = accept \<longleftrightarrow>
     nonempty_str (dget d ''approval_id'') \<and> nonempty_str (dget d ''summary'')"
  "validate_artifact_persisted d = accept \<longleftrightarrow>
     nonempty_str (dget d ''artifact_id'') \<and> nonempty_str (dget d ''name'') \<and> natural_int (dget d ''size'')
     \<and> nonempty_str (dget d ''checksum_sha256'') \<and> (dget d ''content_type'' \<noteq> JNull \<longrightarrow> is_str (dget d ''content_type''))"
  "validate_tool_call d = accept \<longleftrightarrow>
     nonempty_str (dget d ''tool_name'') \<and> nonempty_str (dget d ''call_id'')
     \<and> one_of TOOL_CALL_STATUSES (dget d ''status'') \<and> (dget d ''arguments'' \<noteq> JNull \<longrightarrow> is_dict (dget d ''arguments''))
     \<and> validate_tool_flags d = accept"
  "validate_tool_result d = accept \<longleftrightarrow>
     nonempty_str (dget d ''tool_name'') \<and> nonempty_str (dget d ''call_id'')
     \<and> one_of TOOL_RESULT_STATUSES (dget d ''status'') \<and> (dget d ''content'' \<noteq> JNull \<longrightarrow> is_str (dget d ''content''))
     \<and> (dget d ''artifact_ids'' \<noteq> JNull \<longrightarrow> text_list (dget d ''artifact_ids''))
     \<and> (dget d ''error_code'' \<noteq> JNull \<longrightarrow> is_str (dget d ''error_code''))
     \<and> (dget d ''error_message'' \<noteq> JNull \<longrightarrow> is_str (dget d ''error_message''))
     \<and> (dget d ''status'' = JStr ''failed'' \<longrightarrow> nonempty_str (dget d ''error_code''))
     \<and> validate_tool_flags d = accept"
  by (simp_all only: validate_assistant_delta_def validate_assistant_message_def validate_clarify_requested_def
      validate_approval_requested_def validate_artifact_persisted_def validate_tool_call_def validate_tool_result_def
      accept_iff if_member_accept bad_optional_iff within_iff text_list_iff not_not simp_thms de_Morgan_conj imp_conv_disj)

definition checks :: "string \<Rightarrow> dict \<Rightarrow> verdict" where
  "checks event_type data =
     (if event_type = ''assistant.delta'' then validate_assistant_delta data
      else if event_type = ''assistant.message'' then validate_assistant_message data
      else if event_type = ''reasoning.summary''
        then (if \<not> nonempty_str (dget data ''summary'') then reject ''missing_reasoning_summary'' else accept)
      else if event_type = ''tool.call'' then validate_tool_call data
      else if event_type = ''tool.result'' then validate_tool_result data
      else if event_type = ''clarify.requested'' then validate_clarify_requested data
      else if event_type = ''approval.requested'' then validate_approval_requested data
      else if event_type = ''artifact.persisted'' then validate_artifact_persisted data
      else reject ''unknown_semantic_type'')"

lemma validate_dict:
  "validate_semantic_event_payload ty (JObj d) =
     (if list_ex (\<lambda>k. k \<in> set FORBIDDEN_PAYLOAD_KEYS) (List.map fst d) then reject ''forbidden_semantic_payload_field''
      else if unexpected_field ty d then reject ''unexpected_semantic_payload_field'' else checks ty d)"
  unfolding validate_semantic_event_payload_def checks_def Let_def or_else_dict is_dict.simps dict_of.simps by (simp only: simp_thms if_False if_True)

lemma checks_of:
  "checks ''assistant.delta'' d = validate_assistant_delta d"
  "checks ''assistant.message'' d = validate_assistant_message d"
  "checks ''reasoning.summary'' d = (if \<not> nonempty_str (dget d ''summary'') then reject ''missing_reasoning_summary'' else accept)"
  "checks ''tool.call'' d = validate_tool_call d"
  "checks ''tool.result'' d = validate_tool_result d"
  "checks ''clarify.requested'' d = validate_clarify_requested d"
  "checks ''approval.requested'' d = validate_approval_requested d"
  "checks ''artifact.persisted'' d = validate_artifact_persisted d"
  by (simp_all add: checks_def)

lemma schema_type_cases:
  assumes "map_of semantic_schema ty = Some fields"
  shows "ty = ''assistant.delta'' \<or> ty = ''assistant.message'' \<or> ty = ''reasoning.summary''
    \<or> ty = ''tool.call'' \<or> ty = ''tool.result'' \<or> ty = ''clarify.requested'' \<or> ty = ''approval.requested''
    \<or> ty = ''artifact.persisted''"
proof -
  have "ty \<in> fst ` set semantic_schema" using map_of_SomeD [OF assms] by force
  then show ?thesis unfolding semantic_schema_def by (simp only: list.set image_insert image_empty fst_conv insert_iff empty_iff simp_thms)
qed

definition extra :: "string \<Rightarrow> dict \<Rightarrow> bool" where
  "extra ty d \<longleftrightarrow> (ty = ''tool.result'' \<and> dget d ''status'' = JStr ''failed'' \<longrightarrow> nonempty_str (dget d ''error_code''))
    \<and> (ty \<in> {''tool.call'', ''tool.result''} \<longrightarrow> json_depth 1 (JObj d) \<le> MAX_TOOL_EVENT_JSON_DEPTH
               \<and> payload_utf8_size (JObj d) \<le> MAX_TOOL_EVENT_UTF8_BYTES)"

lemma extra_of:
  "extra ''assistant.delta'' d" "extra ''assistant.message'' d" "extra ''reasoning.summary'' d"
  "extra ''clarify.requested'' d" "extra ''approval.requested'' d" "extra ''artifact.persisted'' d"
  "extra ''tool.call'' d \<longleftrightarrow> json_depth 1 (JObj d) \<le> MAX_TOOL_EVENT_JSON_DEPTH
     \<and> payload_utf8_size (JObj d) \<le> MAX_TOOL_EVENT_UTF8_BYTES"
  "extra ''tool.result'' d \<longleftrightarrow> (dget d ''status'' = JStr ''failed'' \<longrightarrow> nonempty_str (dget d ''error_code''))
     \<and> json_depth 1 (JObj d) \<le> MAX_TOOL_EVENT_JSON_DEPTH \<and> payload_utf8_size (JObj d) \<le> MAX_TOOL_EVENT_UTF8_BYTES"
  by (simp_all add: extra_def)

lemma schema_cases:
  assumes "map_of semantic_schema ty = Some fields"
  shows "checks ty d = accept \<longleftrightarrow> list_all (field_conforms d) fields \<and> extra ty d"
proof -
  note simps = checks_of extra_of checks_accept flags_accept accept_iff list.pred_inject field_conforms.simps simp_thms not_not
  show ?thesis
    using schema_type_cases [OF assms]
  proof (elim disjE)
    assume ty: "ty = ''assistant.delta''"
    have "fields = [(''message_id'', Required, nonempty_str), (''delta_seq'', Required, positive_int),
         (''delta'', Required, within MAX_ASSISTANT_DELTA_UTF8_BYTES)]"
      using assms unfolding ty by (simp add: semantic_schema_def)
    then show ?thesis unfolding ty by (simp only: simps)
  next
    assume ty: "ty = ''assistant.message''"
    have "fields = [(''message_id'', Required, nonempty_str), (''text'', Required, within MAX_ASSISTANT_SNAPSHOT_UTF8_BYTES)]"
      using assms unfolding ty by (simp add: semantic_schema_def)
    then show ?thesis unfolding ty by (simp only: simps)
  next
    assume ty: "ty = ''reasoning.summary''"
    have "fields = [(''summary'', Required, nonempty_str)]"
      using assms unfolding ty by (simp add: semantic_schema_def)
    then show ?thesis unfolding ty by (simp only: simps)
  next
    assume ty: "ty = ''tool.call''"
    have "fields = [(''tool_name'', Required, nonempty_str), (''call_id'', Required, nonempty_str),
         (''status'', Required, one_of TOOL_CALL_STATUSES), (''arguments'', Nullable, is_dict),
         (''redacted'', Optional, is_bool), (''truncated'', Optional, is_bool)]"
      using assms unfolding ty by (simp add: semantic_schema_def)
    then show ?thesis unfolding ty by (simp only: simps conj_assoc)
  next
    assume ty: "ty = ''tool.result''"
    have "fields = [(''tool_name'', Required, nonempty_str), (''call_id'', Required, nonempty_str),
         (''status'', Required, one_of TOOL_RESULT_STATUSES), (''content'', Nullable, is_str),
         (''structured_content'', Optional, (\<lambda>_. True)), (''artifact_ids'', Nullable, text_list),
         (''error_code'', Nullable, is_str), (''error_message'', Nullable, is_str),
         (''redacted'', Optional, is_bool), (''truncated'', Optional, is_bool)]"
      using assms unfolding ty by (simp add: semantic_schema_def)
    then show ?thesis unfolding ty by (simp only: simps conj_assoc) blast
  next
    assume ty: "ty = ''clarify.requested''"
    have "fields = [(''question'', Required, nonempty_str), (''options'', Nullable, is_list)]"
      using assms unfolding ty by (simp add: semantic_schema_def)
    then show ?thesis unfolding ty by (simp only: simps)
  next
    assume ty: "ty = ''approval.requested''"
    have "fields = [(''approval_id'', Required, nonempty_str), (''summary'', Required, nonempty_str)]"
      using assms unfolding ty by (simp add: semantic_schema_def)
    then show ?thesis unfolding ty by (simp only: simps)
  next
    assume ty: "ty = ''artifact.persisted''"
    have "fields = [(''artifact_id'', Required, nonempty_str), (''name'', Required, nonempty_str),
         (''content_type'', Nullable, is_str), (''size'', Required, natural_int),
         (''checksum_sha256'', Required, nonempty_str)]"
      using assms unfolding ty by (simp add: semantic_schema_def)
    then show ?thesis unfolding ty by (simp only: simps) blast
  qed
qed

lemma validates_iff:
  "(validate_semantic_event_payload ty (JObj d) = Inr None \<longleftrightarrow> conforms ty d)
    \<and> (conforms ty d \<longrightarrow> is_semantic_event_type ty \<and> set (List.map fst d) \<inter> set FORBIDDEN_PAYLOAD_KEYS = {})"
proof (cases "map_of semantic_schema ty")
  case None
  then have "\<not> is_semantic_event_type ty" using schema_types [of ty] by simp
  then have "checks ty d = reject ''unknown_semantic_type''"
    unfolding checks_def is_semantic_event_type_def SEMANTIC_EVENT_TYPES_def list.set insert_iff empty_iff de_Morgan_disj
    by (elim conjE) (simp only: if_False)
  then show ?thesis
    using None by (simp add: validate_dict conforms_def reject_def)
next
  case (Some fields)
  let ?known = "\<forall>k\<in>set (List.map fst d). k \<in> set (List.map fst fields)"
  have c: "conforms ty d \<longleftrightarrow> ?known \<and> list_all (field_conforms d) fields \<and> extra ty d"
    unfolding conforms_def Some extra_def option.case by (rule refl)
  have "validate_semantic_event_payload ty (JObj d) = accept \<longleftrightarrow> ?known \<and> checks ty d = accept"
    using no_forbidden [OF Some, of d] unexpected_iff [OF Some, of d] unfolding validate_dict by (simp only: accept_iff split: if_splits) blast
  with c schema_cases [OF Some, of d] have "validate_semantic_event_payload ty (JObj d) = accept \<longleftrightarrow> conforms ty d" by blast
  moreover have "set (List.map fst d) \<inter> set FORBIDDEN_PAYLOAD_KEYS = {}" if "conforms ty d"
    using that no_forbidden [OF Some, of d] unfolding c list_ex_iff by blast
  moreover have "is_semantic_event_type ty" using schema_types [of ty] Some by blast
  ultimately show ?thesis unfolding accept_def by blast
qed

lemma validates_conforms: "validate_semantic_event_payload ty (JObj d) = Inr None \<longleftrightarrow> conforms ty d"
  using validates_iff by blast

text \<open>C36: The validation of semantic events is the declarative schema: a payload is accepted exactly when it
  has only the fields of its type, every field has the values the table allows, a failed tool result names
  its error, and a tool event is at most 8 levels deep and 64 KiB long; so no payload with a credential
  or storage field is ever accepted.\<close>

theorem validation_is_schema:
  shows "(validate_semantic_event_payload ty (JObj d) = Inr None \<longleftrightarrow> conforms ty d)
    \<and> (conforms ty d \<longrightarrow> is_semantic_event_type ty \<and> set (List.map fst d) \<inter> set FORBIDDEN_PAYLOAD_KEYS = {})"
  by (rule validates_iff)

theorem validation_is_schema_witness:
  "validate_semantic_event_payload ''reasoning.summary'' (JObj [(''summary'', JStr ''hi'')]) = Inr None
   \<and> conforms ''reasoning.summary'' [(''summary'', JStr ''hi'')]"
proof -
  have f: "map_of semantic_schema ''reasoning.summary'' = Some [(''summary'', Required, nonempty_str)]"
    by (simp add: semantic_schema_def)
  have c: "conforms ''reasoning.summary'' [(''summary'', JStr ''hi'')]"
    unfolding conforms_def f by (simp add: nonempty_str_def)
  show ?thesis by (rule conjI [OF validation_is_schema [THEN conjunct1, THEN iffD2, OF c] c])
qed

end
