(* ===== verification/Event_Log.thy ===== *)
theory Event_Log
  imports Run_Events
begin

text \<open>
  What the event log promises its writers and readers (\<open>append_event\<close>, \<open>list_events\<close> of
  \<open>services/run_service.py\<close>): readers page through it without gaps, an accepted event is recorded
  once and found by every later reader, a source may resend, and only the current attempt writes.
\<close>

section \<open>Reading the log\<close>

lemma sort_key_sorted: "sorted (List.map f xs) \<Longrightarrow> sort_key f xs = xs"
  by (rule sort_key_id_if_sorted)

lemma filter_upt: "filter (\<lambda>n. k < n) [1..<Suc m] = [Suc k..<Suc m]"
proof (induction m)
  case (Suc m)
  then show ?case by (cases "k < Suc m") (auto simp: upt_Suc_append)
qed simp

lemma listed_rows:
  assumes "log_ok w" and "find_run w rid = Some r"
  shows "\<exists>trace. list_events rid n w =
    (Inr (List.map (event_row_view trace) (filter (\<lambda>e. n < e_event_seq e) (events_of w rid))), w)
    \<and> snapshot_trace_id rid w = (Inr trace, w)"
    and "List.map e_event_seq (filter (\<lambda>e. n < e_event_seq e) (events_of w rid)) = [Suc n..<Suc (r_next_event_seq r)]"
proof -
  have r: "r \<in> set (runs (db w))" "r_id r = rid" using find_run_id [OF assms(2)] by simp_all
  then have seqs: "List.map e_event_seq (events_of w rid) = [1..<Suc (r_next_event_seq r)]"
    using assms(1) by (auto simp: log_ok_def)
  show nums: "List.map e_event_seq (filter (\<lambda>e. n < e_event_seq e) (events_of w rid)) = [Suc n..<Suc (r_next_event_seq r)]"
    using filter_map [of "\<lambda>k. n < k" e_event_seq "events_of w rid"] seqs filter_upt by (simp add: comp_def)
  have "filter (\<lambda>e. e_run_id e = rid \<and> n < e_event_seq e) (events (db w)) = filter (\<lambda>e. n < e_event_seq e) (events_of w rid)"
    by (simp add: events_of_def conj_commute)
  moreover have "sort_key e_event_seq (filter (\<lambda>e. n < e_event_seq e) (events_of w rid)) = filter (\<lambda>e. n < e_event_seq e) (events_of w rid)"
    by (rule sort_key_sorted) (simp only: nums sorted_upt)
  ultimately show "\<exists>trace. list_events rid n w =
    (Inr (List.map (event_row_view trace) (filter (\<lambda>e. n < e_event_seq e) (events_of w rid))), w)
    \<and> snapshot_trace_id rid w = (Inr trace, w)"
    using snapshot_trace_id_run [of rid w] by (auto simp: list_events_def bindE_def)
qed

lemma event_row_view_simps [simp]:
  "ev_event_seq (event_row_view t e) = e_event_seq e" "ev_payload (event_row_view t e) = e_payload e"
  "ev_event_type (event_row_view t e) = e_event_type e" "ev_event_id (event_row_view t e) = e_id e"
  by (simp_all add: event_row_view_def)

text \<open>While the log is well formed, a reader who has seen the events up to number \<open>n\<close> gets exactly the
  rest: the events numbered \<open>n + 1\<close>, \<open>n + 2\<close>, \<dots> up to the run's counter, in order, none missing, none
  twice; and reading changes nothing.\<close>

theorem list_events_complete:
  assumes "log_ok w" and "find_run w rid = Some r"
  shows "\<exists>evs. list_events rid n w = (Inr evs, w)
    \<and> List.map ev_event_seq evs = [Suc n..<Suc (r_next_event_seq r)]
    \<and> (\<exists>trace. evs = List.map (event_row_view trace) (drop n (events_of w rid)))"
proof -
  let ?es = "filter (\<lambda>e. n < e_event_seq e) (events_of w rid)"
  obtain trace where t: "list_events rid n w = (Inr (List.map (event_row_view trace) ?es), w)"
    using listed_rows(1) [OF assms] by blast
  have "r \<in> set (runs (db w))" "r_id r = rid" using find_run_id [OF assms(2)] by simp_all
  then have seqs: "List.map e_event_seq (events_of w rid) = [1..<Suc (r_next_event_seq r)]"
    using assms(1) by (auto simp: log_ok_def)
  have "filter (\<lambda>e. n < e_event_seq e) es = drop n es" if "List.map e_event_seq es = [1..<Suc k]" for es k
    using that
  proof (induction es arbitrary: k rule: rev_induct)
    case (snoc e es)
    then obtain k' where "k = Suc k'" by (cases k) auto
    with snoc.prems have "List.map e_event_seq es = [1..<Suc k']" "e_event_seq e = Suc k'" by auto
    moreover from this(1) have "length es = k'" by (metis length_map diff_Suc_1 length_upt)
    ultimately show ?case using snoc.IH by auto
  qed simp
  from this [OF seqs] have "?es = drop n (events_of w rid)" .
  with t listed_rows(2) [OF assms, of n] show ?thesis
    by (intro exI [of _ "List.map (event_row_view trace) ?es"] conjI exI [of _ trace]) (simp_all add: comp_def)
qed

section \<open>Appending to the log\<close>

lemma events_of_written: "events_of (event_written w rid opts e) x = events_of w x @ (if e_run_id e = x then [e] else [])"
  by (simp add: events_of_def)

lemma snapshot_trace_written:
  assumes "snapshot_trace_id rid w = (Inr trace, w)"
  shows "snapshot_trace_id rid (event_written w rid opts e) = (Inr trace, event_written w rid opts e)"
  using assms
  by (auto simp: snapshot_trace_id_def select_run_def bindE_def event_written_def find_upd_where writable_for_def
      split: option.splits)

text \<open>An event of the current attempt of a live run is recorded once and for all: it gets the next number,
  carries the payload without the runtime binding keys, and from then on every reader finds it exactly
  there, at the end of what the log held before.\<close>

theorem appended_event_listed:
  assumes "log_ok w" and "find_run w rid = Some r" and "writable_for rid opts r"
    and "\<forall>e\<in>set (events (db w)). str_given (o_source_event_id opts) \<longrightarrow> e_source_event_id e \<noteq> o_source_event_id opts"
    and "\<not> str_given (o_request_trace_id opts)"
    and "list_events rid n w = (Inr evs, w)" and "n \<le> r_next_event_seq r"
  shows "\<exists>v w'. append_event E rid ty p opts w = (Inr v, w') \<and> list_events rid n w' = (Inr (evs @ [v]), w')
    \<and> ev_event_seq v = Suc (r_next_event_seq r) \<and> ev_event_type v = ty \<and> ev_payload v = stored_payload p opts
    \<and> log_ok w' \<and> events (db w') \<noteq> events (db w)"
proof -
  have k: "known_event w rid opts = None"
    using assms(4) by (auto simp: known_event_def find_None_all)
  define e where "e = event_row_for E w rid ty (stored_payload p opts) opts r"
  let ?w = "event_written w rid opts e"
  obtain trace where t: "list_events rid n w =
    (Inr (List.map (event_row_view trace) (filter (\<lambda>e. n < e_event_seq e) (events_of w rid))), w)"
    "snapshot_trace_id rid w = (Inr trace, w)" using listed_rows(1) [OF assms(1,2)] by blast
  have a: "append_event E rid ty p opts w = (Inr (event_row_view trace e), ?w)"
    using k write_event_some [OF writable_found [OF assms(2,3)], of E ty "stored_payload p opts"] assms(5) t(2)
    unfolding append_event_def stored_payload_def [symmetric] known_event_def Let_def e_def [symmetric]
    by (simp add: bindE_def stored_payload_def Let_def e_def split: option.splits if_splits)
  have ok: "log_ok ?w"
  proof -
    have "safe w ?w" using guar_result [OF append_event_safe a] .
    with assms(1) show ?thesis by (simp add: safe_def log_kept_def)
  qed
  obtain trace' where t': "list_events rid n ?w =
    (Inr (List.map (event_row_view trace') (filter (\<lambda>e. n < e_event_seq e) (events_of ?w rid))), ?w)"
    "snapshot_trace_id rid ?w = (Inr trace', ?w)"
    using listed_rows(1) [OF ok event_written_find [OF assms(2,3)]] by blast
  have "trace' = trace" using t'(2) snapshot_trace_written [OF t(2), of opts e] by simp
  moreover have "n < e_event_seq e" "e_run_id e = rid" using assms(7) by (simp_all add: e_def event_row_for_def)
  ultimately have "list_events rid n ?w = (Inr (evs @ [event_row_view trace e]), ?w)"
    using t' t(1) assms(6) by (simp add: events_of_written)
  with a ok show ?thesis
    by (intro exI [of _ "event_row_view trace e"] exI [of _ ?w]) (simp add: e_def event_row_for_def)
qed

section \<open>One event per source identifier\<close>

lemma known_event_grows: "known_event w rid opts = Some e \<Longrightarrow> log_grows w w' \<Longrightarrow> known_event w' rid opts = Some e"
  by (auto simp: known_event_def log_grows_def find_append split: if_splits option.split)

lemma known_event_recorded:
  assumes "append_event E rid ty p opts w = (Inr v, w1)" and "str_given (o_source_event_id opts)"
  shows "\<exists>e. known_event w1 rid opts = Some e \<and> e_id e = ev_event_id v \<and> e_event_seq e = ev_event_seq v
    \<and> digest_sorted E (JObj (e_payload e)) = digest_sorted E (JObj (stored_payload p opts))"
proof (cases "known_event w rid opts")
  case (Some e)
  then show ?thesis using append_event_known [OF Some, of E ty p] assms(1) by (auto split: if_splits)
next
  case None
  show ?thesis
  proof (cases "find (writable_for rid opts) (runs (db w))")
    case None': None
    then show ?thesis using append_event_refused [OF None None'] assms(1) by simp
  next
    case (Some r)
    define e where "e = event_row_for E w rid ty (stored_payload p opts) opts r"
    obtain trace where "append_event E rid ty p opts w = (Inr (event_row_view trace e), event_written w rid opts e)"
      using append_event_some [OF None Some e_def] by blast
    with assms(1) have v: "v = event_row_view trace e" "w1 = event_written w rid opts e" by simp_all
    have "known_event w1 rid opts = Some e"
      using None assms(2) by (simp add: known_event_def v(2) find_append e_def event_row_for_def)
    with v(1) show ?thesis by (simp add: event_row_view_def e_def event_row_for_def)
  qed
qed

lemma known_event_same_source:
  "o_source opts' = o_source opts \<Longrightarrow> o_source_event_id opts' = o_source_event_id opts \<Longrightarrow>
   known_event w rid opts' = known_event w rid opts"
  by (simp add: known_event_def)

text \<open>A source may send an event as often as it likes: once it has been accepted under a source event id,
  sending it again, at any later time, even after the run has ended or another attempt has taken over,
  answers with the recorded event and changes nothing; another payload under that id is refused, and
  changes nothing either.\<close>

theorem event_source_once:
  assumes "append_event E rid ty p opts w = (Inr v, w1)" and "str_given (o_source_event_id opts)"
    and "log_grows w1 w2"
    and "o_source opts' = o_source opts" and "o_source_event_id opts' = o_source_event_id opts"
  shows "if digest_sorted E (JObj (stored_payload p' opts')) = digest_sorted E (JObj (stored_payload p opts))
    then \<exists>v'. append_event E rid ty' p' opts' w2 = (Inr v', w2)
      \<and> ev_event_id v' = ev_event_id v \<and> ev_event_seq v' = ev_event_seq v
    else append_event E rid ty' p' opts' w2
      = (Inl (RuntimeError ''idempotency conflict: source_event_id payload mismatch''), w2)"
proof -
  obtain e where e: "known_event w1 rid opts = Some e" "e_id e = ev_event_id v" "e_event_seq e = ev_event_seq v"
    "digest_sorted E (JObj (e_payload e)) = digest_sorted E (JObj (stored_payload p opts))"
    using known_event_recorded [OF assms(1,2)] by blast
  have "known_event w2 rid opts' = Some e"
    using known_event_grows [OF e(1) assms(3)] known_event_same_source [OF assms(4,5)] by simp
  from append_event_known [OF this, of E ty' p'] e show ?thesis by auto
qed

section \<open>Fencing\<close>

text \<open>Nobody but the current attempt writes to a live run: an event sent for another organisation, another
  attempt, another generation, or to a run in a terminal status is refused, and neither the log nor any
  other table changes.\<close>

theorem fenced_event_refused:
  assumes "distinct (List.map r_id (runs (db w)))" and "find_run w rid = Some r"
    and "terminal (r_status r) \<or> o_attempt_id opts \<noteq> None \<and> o_attempt_id opts \<noteq> r_attempt_id r
      \<or> o_generation opts \<noteq> None \<and> o_generation opts \<noteq> Some (r_generation r)
      \<or> o_org_id opts \<noteq> None \<and> o_org_id opts \<noteq> Some (r_org_id r)"
    and "known_event w rid opts = None"
  shows "fst (append_event E rid ty p opts w) = Inl stale_write \<and> db (snd (append_event E rid ty p opts w)) = db w"
proof -
  have "\<not> writable_for rid opts r"
    using assms(3) by (auto simp: writable_for_def when_given_def split: option.splits)
  moreover have "x = r" if "x \<in> set (runs (db w))" "r_id x = rid" for x
    using distinct_map_inj [OF assms(1)] find_run_id [OF assms(2)] that by simp
  ultimately have "find (writable_for rid opts) (runs (db w)) = None"
    by (auto simp: find_None_all writable_for_def)
  from append_event_refused [OF assms(4) this] show ?thesis by simp
qed

section \<open>A concrete log\<close>

definition log_run :: run_row where
  "log_run =
     \<lparr>r_id = ''run-1'', r_org_id = ''org-1'', r_user_id = ''user-1'', r_tool_name = ''skill'',
      r_skill_id = None, r_status = RUNNING, r_arguments = JObj [], r_snapshot = JObj [], r_result = None,
      r_attempt_id = Some ''att-1'', r_generation = 1, r_next_event_seq = 1, r_dispatch_id = None,
      r_idempotency_key = None, r_command_digest = None, r_lease_until = None, r_worker_id = None,
      r_requires_approval = False, r_run_session_id = None, r_created_at = 0, r_updated_at = 0\<rparr>"

definition log_event :: event_row where
  "log_event =
     \<lparr>e_id = ''e-1'', e_run_id = ''run-1'', e_attempt_id = None, e_event_type = ''run.queued'', e_event_seq = 1,
      e_source = ''agent'', e_source_event_id = None, e_payload = [], e_created_at = 0\<rparr>"

definition log_world :: world where
  "log_world = sample_world\<lparr>db := empty_db\<lparr>runs := [log_run], events := [log_event]\<rparr>\<rparr>"

definition source_opts :: event_opts where
  "source_opts = (attempt_opts (Some ''org-1'') (Some ''att-1'') (Some 1))\<lparr>o_source := ''edge'', o_source_event_id := Some ''s-1''\<rparr>"

lemma log_world_ok: "log_ok log_world"
  by (simp add: log_ok_def log_world_def empty_db_def events_of_def log_run_def log_event_def)

lemma log_world_run: "find_run log_world ''run-1'' = Some log_run" "r_next_event_seq log_run = 1"
  "distinct (List.map r_id (runs (db log_world)))"
  by (simp_all add: find_run_def log_world_def log_run_def)

lemma source_writable: "writable_for ''run-1'' source_opts log_run"
  by (simp add: writable_for_def source_opts_def attempt_opts_def no_opts_def log_run_def when_given_def TERMINAL_def)

lemma source_given: "str_given (o_source_event_id source_opts)" "\<not> str_given (o_request_trace_id source_opts)"
  by (simp_all add: source_opts_def attempt_opts_def no_opts_def str_given_def)

lemma source_new: "\<forall>e\<in>set (events (db log_world)). str_given (o_source_event_id source_opts) \<longrightarrow>
    e_source_event_id e \<noteq> o_source_event_id source_opts"
  by (simp add: log_world_def log_event_def source_opts_def)

lemma log_world_list: "list_events ''run-1'' 0 log_world = (Inr [event_row_view None log_event], log_world)"
  by (simp add: list_events_def snapshot_trace_id_def bindE_def log_world_def log_run_def log_event_def)

lemma source_accepted: "\<exists>v w. append_event sample_env ''run-1'' ''edge.progress'' [] source_opts log_world = (Inr v, w)"
proof -
  have "known_event log_world ''run-1'' source_opts = None"
    using source_new source_given by (auto simp: known_event_def find_None_all)
  from append_event_some [OF this writable_found [OF log_world_run(1) source_writable] refl] show ?thesis by blast
qed

theorem list_events_complete_witness:
  "\<exists>evs. list_events ''run-1'' 0 log_world = (Inr evs, log_world) \<and> List.map ev_event_seq evs = [Suc 0..<Suc 1]
    \<and> (\<exists>trace. evs = List.map (event_row_view trace) (drop 0 (events_of log_world ''run-1'')))"
  using list_events_complete [OF log_world_ok log_world_run(1), of 0] unfolding log_world_run(2) .

theorem appended_event_listed_witness:
  "\<exists>v w. append_event sample_env ''run-1'' ''edge.progress'' [] source_opts log_world = (Inr v, w)
     \<and> list_events ''run-1'' 0 w = (Inr [event_row_view None log_event, v], w) \<and> ev_event_seq v = 2"
proof -
  have "(0::nat) \<le> r_next_event_seq log_run" by simp
  from appended_event_listed [OF log_world_ok log_world_run(1) source_writable source_new source_given(2) log_world_list this,
      of sample_env "''edge.progress''" "[]"]
  obtain v w where "append_event sample_env ''run-1'' ''edge.progress'' [] source_opts log_world = (Inr v, w)"
    "list_events ''run-1'' 0 w = (Inr ([event_row_view None log_event] @ [v]), w)" "ev_event_seq v = Suc (r_next_event_seq log_run)"
    by (elim exE conjE)
  then show ?thesis by (intro exI [of _ v] exI [of _ w]) (simp add: log_world_run(2))
qed

theorem event_source_once_witness:
  "\<exists>v w v'. append_event sample_env ''run-1'' ''edge.progress'' [] source_opts log_world = (Inr v, w)
     \<and> append_event sample_env ''run-1'' ''edge.progress'' [] source_opts w = (Inr v', w)
     \<and> ev_event_id v' = ev_event_id v"
proof -
  obtain v w where a: "append_event sample_env ''run-1'' ''edge.progress'' [] source_opts log_world = (Inr v, w)"
    using source_accepted by blast
  have "log_grows w w" by (simp add: log_grows_def)
  from event_source_once [OF a source_given(1) this refl refl, of "[]" "''edge.progress''"] a
  show ?thesis by (metis (no_types, lifting))
qed

theorem fenced_event_refused_witness:
  "fst (append_event sample_env ''run-1'' ''edge.progress'' [] (source_opts\<lparr>o_generation := Some 2\<rparr>) log_world) = Inl stale_write
   \<and> db (snd (append_event sample_env ''run-1'' ''edge.progress'' [] (source_opts\<lparr>o_generation := Some 2\<rparr>) log_world)) = db log_world"
proof (rule fenced_event_refused [OF log_world_run(3,1)])
  show "known_event log_world ''run-1'' (source_opts\<lparr>o_generation := Some 2\<rparr>) = None"
    by (simp add: known_event_def log_world_def log_event_def source_opts_def)
qed (simp add: log_run_def)

end
