(* ===== verification/Storage.thy ===== *)
theory Storage
  imports Run_Store
begin

text \<open>
  \<open>services/storage_port.py\<close>: the \<open>StoragePort\<close> interface as a record of operations, the
  local driver on a file system of files and folders (symbolic links left out), and
  \<open>probe_isolation\<close>, which is written against the interface. The locale \<open>storage\<close> states
  what a client may rely on; the local driver discharges it.
\<close>

section \<open>The interface\<close>

record write_result =
  wr_storage_ref :: string
  wr_size_bytes :: nat
  wr_sha256 :: string

record storage_driver =
  d_write :: "string \<Rightarrow> string \<Rightarrow> string option \<Rightarrow> nat option \<Rightarrow> write_result op"
  d_read :: "string \<Rightarrow> string op"
  d_delete :: "string \<Rightarrow> bool op"
  d_exists :: "string \<Rightarrow> bool op"
  d_stat :: "string \<Rightarrow> (nat \<times> string) option op"

section \<open>Paths\<close>

text \<open>A path is the list of its components; \<open>resolve\<close> drops \<open>.\<close> and follows \<open>..\<close>.\<close>

fun split_slash :: "string \<Rightarrow> string \<Rightarrow> string list" where
  "split_slash acc [] = [rev acc]"
| "split_slash acc (c # cs) = (if c = CHR ''/'' then rev acc # split_slash [] cs
                               else split_slash (c # acc) cs)"

definition path_parts :: "string \<Rightarrow> string list" where
  "path_parts s = filter (\<lambda>p. p \<noteq> [] \<and> p \<noteq> ''.'') (split_slash [] s)"

fun resolve_parts :: "string list \<Rightarrow> string list \<Rightarrow> string list" where
  "resolve_parts base [] = base"
| "resolve_parts base (p # ps) =
     (if p = ''..'' then resolve_parts (butlast base) ps else resolve_parts (base @ [p]) ps)"

definition path_str :: "string list \<Rightarrow> string" where
  "path_str ps = (if ps = [] then ''/'' else concat (List.map (\<lambda>p. CHR ''/'' # p) ps))"

definition clean_key :: "string \<Rightarrow> string" where
  "clean_key key = dropWhile (\<lambda>c. c = CHR ''/'' \<or> c = char_of (92 :: nat)) key"

definition resolve_path :: "string list \<Rightarrow> string \<Rightarrow> exn + string list" where
  "resolve_path root key =
     (let path = resolve_parts root (path_parts (clean_key key)) in
      if \<not> startswith (path_str path) (path_str root)
      then Inl (ValueError (''Invalid storage key path: '' @ key))
      else Inr path)"

section \<open>The local driver\<close>

definition is_folder :: "string list \<Rightarrow> world \<Rightarrow> string list \<Rightarrow> bool" where
  "is_folder root w p \<longleftrightarrow> p \<in> set (folders w) \<or> p = take (length p) root"

definition is_file :: "world \<Rightarrow> string list \<Rightarrow> bool" where
  "is_file w p \<longleftrightarrow> map_of (files w) p \<noteq> None"

definition proper_prefixes :: "string list \<Rightarrow> string list list" where
  "proper_prefixes p = List.map (\<lambda>n. take n p) [0..<length p]"

definition write_file :: "string list \<Rightarrow> string list \<Rightarrow> string \<Rightarrow> unit op" where
  "write_file root p content = (\<lambda>w.
     if list_ex (is_file w) (proper_prefixes p) then (Inl (StorageError ''NotADirectoryError''), w)
     else
       let w1 = w\<lparr>folders := folders w @ proper_prefixes p\<rparr> in
       if is_folder root w1 p then (Inl (StorageError ''IsADirectoryError''), w1)
       else (Inr (), w1\<lparr>files := AList.update p content (files w1)\<rparr>))"

definition read_file :: "string list \<Rightarrow> string op" where
  "read_file p = (\<lambda>w.
     case map_of (files w) p of
       None \<Rightarrow> (Inl (StorageError ''IsADirectoryError''), w)
     | Some content \<Rightarrow> (Inr content, w))"

definition path_exists :: "string list \<Rightarrow> string list \<Rightarrow> bool op" where
  "path_exists root p = getsE (\<lambda>w. is_file w p \<or> is_folder root w p)"

definition local_write ::
  "env \<Rightarrow> string \<Rightarrow> string \<Rightarrow> string option \<Rightarrow> nat option \<Rightarrow> write_result op" where
  "local_write E key content expected_sha256 expected_size =
     (let actual_size = length content;
          actual_sha256 = sha256 E content
      in
      if (case expected_size of None \<Rightarrow> False | Some n \<Rightarrow> n \<noteq> actual_size)
      then raiseE (StorageError ''Artifact size mismatch'')
      else if (case expected_sha256 of None \<Rightarrow> False | Some h \<Rightarrow> lower h \<noteq> lower actual_sha256)
      then raiseE (StorageError ''Artifact sha256 mismatch'')
      else
        bindE (liftE (resolve_path (artifact_root E) key)) (\<lambda>path.
        thenE (write_file (artifact_root E) path content)
          (returnE \<lparr>wr_storage_ref = path_str path, wr_size_bytes = actual_size,
                    wr_sha256 = actual_sha256\<rparr>)))"

definition local_read :: "env \<Rightarrow> string \<Rightarrow> string op" where
  "local_read E key =
     bindE (liftE (resolve_path (artifact_root E) key)) (\<lambda>path.
     bindE (path_exists (artifact_root E) path) (\<lambda>found.
     if \<not> found then raiseE (StorageError (''Storage key not found: '' @ key))
     else read_file path))"

definition local_delete :: "env \<Rightarrow> string \<Rightarrow> bool op" where
  "local_delete E key =
     bindE (liftE (resolve_path (artifact_root E) key)) (\<lambda>path.
     bindE (path_exists (artifact_root E) path) (\<lambda>found.
     if \<not> found then returnE False
     else (\<lambda>w. if is_file w path then (Inr True, w\<lparr>files := AList.delete path (files w)\<rparr>)
               else (Inl (StorageError ''IsADirectoryError''), w))))"

definition local_exists :: "env \<Rightarrow> string \<Rightarrow> bool op" where
  "local_exists E key =
     bindE (liftE (resolve_path (artifact_root E) key)) (path_exists (artifact_root E))"

definition local_stat :: "env \<Rightarrow> string \<Rightarrow> (nat \<times> string) option op" where
  "local_stat E key =
     bindE (liftE (resolve_path (artifact_root E) key)) (\<lambda>path.
     bindE (path_exists (artifact_root E) path) (\<lambda>found.
     if \<not> found then returnE None
     else bindE (read_file path) (\<lambda>content. returnE (Some (length content, sha256 E content)))))"

definition LocalStorageDriver :: "env \<Rightarrow> storage_driver" where
  "LocalStorageDriver E =
     \<lparr>d_write = local_write E, d_read = local_read E, d_delete = local_delete E,
      d_exists = local_exists E, d_stat = local_stat E\<rparr>"

section \<open>The readiness probe\<close>

definition PROBE_KEY_PREFIX :: string where
  "PROBE_KEY_PREFIX = ''.health-probe/''"

record probe_report =
  pr_key :: string
  pr_size_bytes :: nat
  pr_sha256 :: string
  pr_cleanup_failed :: bool

definition probe_steps :: "env \<Rightarrow> storage_driver \<Rightarrow> string \<Rightarrow> string \<Rightarrow> probe_report op" where
  "probe_steps E D key content =
     (let expected_sha256 = sha256 E content;
          expected_size = length content
      in
      bindE (d_write D key content (Some expected_sha256) (Some expected_size)) (\<lambda>wrote.
      bindE (d_read D key) (\<lambda>read_back.
      bindE (d_stat D key) (\<lambda>meta.
      if read_back \<noteq> content then raiseE (StorageError ''probe read content mismatch'')
      else case meta of
        None \<Rightarrow> raiseE (StorageError ''probe stat missing after write'')
      | Some (size_bytes, sha) \<Rightarrow>
          if size_bytes \<noteq> expected_size then raiseE (StorageError ''probe stat size mismatch'')
          else if lower sha \<noteq> lower expected_sha256 then raiseE (StorageError ''probe stat sha256 mismatch'')
          else if lower (wr_sha256 wrote) \<noteq> lower expected_sha256
          then raiseE (StorageError ''probe write sha256 mismatch'')
          else if wr_size_bytes wrote \<noteq> expected_size
          then raiseE (StorageError ''probe write size mismatch'')
          else
            bindE (d_delete D key) (\<lambda>deleted.
            bindE (d_exists D key) (\<lambda>still.
            returnE \<lparr>pr_key = key, pr_size_bytes = expected_size, pr_sha256 = expected_sha256,
                     pr_cleanup_failed = (\<not> deleted \<or> still)\<rparr>))))))"

definition probe_cleanup :: "storage_driver \<Rightarrow> string \<Rightarrow> unit op" where
  "probe_cleanup D key =
     catchE (bindE (d_delete D key) (\<lambda>deleted.
               if deleted then returnE () else bindE (d_exists D key) (\<lambda>_. returnE ())))
       (\<lambda>_. returnE ())"

definition hex_of_uuid :: "string \<Rightarrow> string" where
  "hex_of_uuid u = filter (\<lambda>c. c \<noteq> CHR ''-'') u"

definition probe_isolation :: "env \<Rightarrow> storage_driver \<Rightarrow> probe_report op" where
  "probe_isolation E D =
     bindE (fresh_uuid E) (\<lambda>u.
     bindE (getsE uuid_pos) (\<lambda>n.
     let key = PROBE_KEY_PREFIX @ hex_of_uuid u;
         content = urandom E n
     in catchE (probe_steps E D key content)
          (\<lambda>exc. thenE (probe_cleanup D key) (raiseE (StorageError ''probe failed'')))))"

section \<open>What a client relies on\<close>

text \<open>
  \<open>holds k w\<close> is the content stored under a key, \<open>usable k w\<close> says that the key can be
  written, \<open>apart k k'\<close> that two keys name different objects.
\<close>

locale storage =
  fixes E :: env and D :: storage_driver
    and holds :: "string \<Rightarrow> world \<Rightarrow> string option"
    and usable :: "string \<Rightarrow> world \<Rightarrow> bool"
    and apart :: "string \<Rightarrow> string \<Rightarrow> bool"
  assumes write_law: "usable k w \<Longrightarrow>
      \<exists>ref w'. d_write D k c (Some (sha256 E c)) (Some (length c)) w =
          (Inr \<lparr>wr_storage_ref = ref, wr_size_bytes = length c, wr_sha256 = sha256 E c\<rparr>, w')
        \<and> holds k w' = Some c \<and> usable k w' \<and> db w' = db w \<and> uuid_pos w' = uuid_pos w \<and> clock w' = clock w
        \<and> (\<forall>k'. apart k k' \<longrightarrow> holds k' w' = holds k' w)"
    and read_law: "holds k w = Some c \<Longrightarrow> d_read D k w = (Inr c, w)"
    and stat_law: "holds k w = Some c \<Longrightarrow> d_stat D k w = (Inr (Some (length c, sha256 E c)), w)"
    and delete_law: "holds k w = Some c \<Longrightarrow> usable k w \<Longrightarrow>
      \<exists>w'. d_delete D k w = (Inr True, w') \<and> holds k w' = None \<and> usable k w' \<and> db w' = db w
        \<and> uuid_pos w' = uuid_pos w \<and> (\<forall>k'. apart k k' \<longrightarrow> holds k' w' = holds k' w)"
    and exists_law: "usable k w \<Longrightarrow> d_exists D k w = (Inr (holds k w \<noteq> None), w)"
begin

lemma write_then_read:
  assumes "usable k w"
  shows "\<exists>res w'. d_write D k c (Some (sha256 E c)) (Some (length c)) w = (Inr res, w')
    \<and> d_read D k w' = (Inr c, w') \<and> d_stat D k w' = (Inr (Some (length c, sha256 E c)), w')"
  using write_law [OF assms, of c] read_law stat_law by blast

lemma probe_steps_ok:
  assumes "usable k w"
  shows "\<exists>w'. probe_steps E D k c w =
      (Inr \<lparr>pr_key = k, pr_size_bytes = length c, pr_sha256 = sha256 E c, pr_cleanup_failed = False\<rparr>, w')
    \<and> db w' = db w \<and> holds k w' = None \<and> (\<forall>k'. apart k k' \<longrightarrow> holds k' w' = holds k' w)"
proof -
  obtain ref w1 where w1: "d_write D k c (Some (sha256 E c)) (Some (length c)) w =
      (Inr \<lparr>wr_storage_ref = ref, wr_size_bytes = length c, wr_sha256 = sha256 E c\<rparr>, w1)"
    "holds k w1 = Some c" "usable k w1" "db w1 = db w" "\<forall>k'. apart k k' \<longrightarrow> holds k' w1 = holds k' w"
    using write_law [OF assms, of c] by blast
  obtain w2 where w2: "d_delete D k w1 = (Inr True, w2)" "holds k w2 = None" "usable k w2" "db w2 = db w1"
    "\<forall>k'. apart k k' \<longrightarrow> holds k' w2 = holds k' w1"
    using delete_law [OF w1(2,3)] by blast
  have "probe_steps E D k c w =
      (Inr \<lparr>pr_key = k, pr_size_bytes = length c, pr_sha256 = sha256 E c, pr_cleanup_failed = False\<rparr>, w2)"
    using w1 w2 read_law [OF w1(2)] stat_law [OF w1(2)] exists_law [OF w2(3)]
    by (simp add: probe_steps_def Let_def bindE_def)
  then show ?thesis using w1 w2 by auto
qed

end

section \<open>The local driver keeps the contract\<close>

definition local_holds :: "env \<Rightarrow> string \<Rightarrow> world \<Rightarrow> string option" where
  "local_holds E k w =
     (case resolve_path (artifact_root E) k of Inl _ \<Rightarrow> None | Inr p \<Rightarrow> map_of (files w) p)"

definition local_usable :: "env \<Rightarrow> string \<Rightarrow> world \<Rightarrow> bool" where
  "local_usable E k w \<longleftrightarrow>
     (case resolve_path (artifact_root E) k of
        Inl _ \<Rightarrow> False
      | Inr p \<Rightarrow> \<not> is_folder (artifact_root E) w p \<and> \<not> list_ex (is_file w) (proper_prefixes p))"

definition local_apart :: "env \<Rightarrow> string \<Rightarrow> string \<Rightarrow> bool" where
  "local_apart E k k' \<longleftrightarrow>
     resolve_path (artifact_root E) k \<noteq> resolve_path (artifact_root E) k'"

lemma proper_prefixes_shorter: "q \<in> set (proper_prefixes p) \<Longrightarrow> length q < length p"
  by (auto simp: proper_prefixes_def)

lemma not_own_prefix: "p \<notin> set (proper_prefixes p)"
  using proper_prefixes_shorter by blast

lemma local_write_run:
  assumes "resolve_path (artifact_root E) k = Inr p" and "local_usable E k w"
  shows "local_write E k c (Some (sha256 E c)) (Some (length c)) w =
    (Inr \<lparr>wr_storage_ref = path_str p, wr_size_bytes = length c, wr_sha256 = sha256 E c\<rparr>,
     w\<lparr>folders := folders w @ proper_prefixes p, files := AList.update p c (files w)\<rparr>)"
  using assms not_own_prefix [of p]
  by (simp add: local_write_def Let_def bindE_def thenE_def write_file_def local_usable_def is_folder_def)

lemma local_usable_files:
  assumes "resolve_path (artifact_root E) k = Inr p"
    and "\<And>q. q \<noteq> p \<Longrightarrow> map_of fs q = map_of (files w) q"
    and "set dirs \<subseteq> set (folders w) \<union> set (proper_prefixes p)" and "local_usable E k w"
  shows "local_usable E k (w\<lparr>folders := dirs, files := fs\<rparr>)"
proof -
  have "is_file (w\<lparr>folders := dirs, files := fs\<rparr>) q = is_file w q" if "q \<in> set (proper_prefixes p)" for q
  proof -
    have "q \<noteq> p" using that not_own_prefix by auto
    then show ?thesis using assms(2) by (simp add: is_file_def)
  qed
  then show ?thesis
    using assms not_own_prefix [of p] by (auto simp: local_usable_def is_folder_def list_ex_iff)
qed

interpretation ls: storage E "LocalStorageDriver E" "local_holds E" "local_usable E" "local_apart E" for E
proof unfold_locales
  fix k w and c :: string
  assume u: "local_usable E k w"
  then obtain p where p: "resolve_path (artifact_root E) k = Inr p"
    by (auto simp: local_usable_def split: sum.splits)
  let ?w = "w\<lparr>folders := folders w @ proper_prefixes p, files := AList.update p c (files w)\<rparr>"
  have "local_usable E k ?w"
    by (rule local_usable_files [OF p _ _ u]) (auto simp: update_conv')
  moreover have "local_holds E k' ?w = local_holds E k' w" if "local_apart E k k'" for k'
    using that p by (auto simp: local_holds_def local_apart_def update_conv' split: sum.split)
  ultimately show "\<exists>ref w'. d_write (LocalStorageDriver E) k c (Some (sha256 E c)) (Some (length c)) w =
          (Inr \<lparr>wr_storage_ref = ref, wr_size_bytes = length c, wr_sha256 = sha256 E c\<rparr>, w')
        \<and> local_holds E k w' = Some c \<and> local_usable E k w' \<and> db w' = db w \<and> uuid_pos w' = uuid_pos w
        \<and> clock w' = clock w
        \<and> (\<forall>k'. local_apart E k k' \<longrightarrow> local_holds E k' w' = local_holds E k' w)"
    using local_write_run [OF p u, of c] p
    by (intro exI [of _ "path_str p"] exI [of _ ?w])
      (simp add: LocalStorageDriver_def local_holds_def update_conv')
next
  fix k w c
  assume h: "local_holds E k w = Some c"
  then obtain p where p: "resolve_path (artifact_root E) k = Inr p" "map_of (files w) p = Some c"
    by (auto simp: local_holds_def split: sum.splits)
  show "d_read (LocalStorageDriver E) k w = (Inr c, w)"
    using p by (simp add: LocalStorageDriver_def local_read_def bindE_def path_exists_def is_file_def read_file_def)
  show "d_stat (LocalStorageDriver E) k w = (Inr (Some (length c, sha256 E c)), w)"
    using p by (simp add: LocalStorageDriver_def local_stat_def bindE_def path_exists_def is_file_def read_file_def)
next
  fix k w c
  assume h: "local_holds E k w = Some c" and u: "local_usable E k w"
  from h obtain p where p: "resolve_path (artifact_root E) k = Inr p" "map_of (files w) p = Some c"
    by (auto simp: local_holds_def split: sum.splits)
  let ?w = "w\<lparr>files := AList.delete p (files w)\<rparr>"
  have "local_usable E k (w\<lparr>folders := folders w, files := AList.delete p (files w)\<rparr>)"
    by (rule local_usable_files [OF p(1) _ _ u]) (auto simp: delete_conv')
  moreover have "local_holds E k' ?w = local_holds E k' w" if "local_apart E k k'" for k'
    using that p by (auto simp: local_holds_def local_apart_def delete_conv' split: sum.split)
  ultimately show "\<exists>w'. d_delete (LocalStorageDriver E) k w = (Inr True, w') \<and> local_holds E k w' = None
        \<and> local_usable E k w' \<and> db w' = db w \<and> uuid_pos w' = uuid_pos w
        \<and> (\<forall>k'. local_apart E k k' \<longrightarrow> local_holds E k' w' = local_holds E k' w)"
    using p by (intro exI [of _ ?w])
      (simp add: LocalStorageDriver_def local_delete_def bindE_def path_exists_def is_file_def
        local_holds_def delete_conv')
next
  fix k w
  assume u: "local_usable E k w"
  then show "d_exists (LocalStorageDriver E) k w = (Inr (local_holds E k w \<noteq> None), w)"
    by (auto simp: LocalStorageDriver_def local_exists_def bindE_def path_exists_def is_file_def
        local_holds_def local_usable_def split: sum.splits)
qed

section \<open>Containment\<close>

definition plain_part :: "string \<Rightarrow> bool" where
  "plain_part p \<longleftrightarrow> p \<noteq> [] \<and> CHR ''/'' \<notin> set p"

lemma split_slash_plain:
  "CHR ''/'' \<notin> set acc \<Longrightarrow> x \<in> set (split_slash acc s) \<Longrightarrow> CHR ''/'' \<notin> set x"
  by (induction acc s rule: split_slash.induct) (auto split: if_splits)

lemma path_parts_plain: "x \<in> set (path_parts s) \<Longrightarrow> plain_part x"
  using split_slash_plain [of "[]"] by (auto simp: path_parts_def plain_part_def)

lemma resolve_parts_plain:
  "\<forall>x\<in>set base. plain_part x \<Longrightarrow> \<forall>x\<in>set ps. plain_part x \<Longrightarrow> \<forall>x\<in>set (resolve_parts base ps). plain_part x"
  by (induction base ps rule: resolve_parts.induct) (auto dest: in_set_butlastD)

lemma slash_split:
  assumes "CHR ''/'' \<notin> set a" and "CHR ''/'' \<notin> set b" and "a @ CHR ''/'' # x = b @ CHR ''/'' # y"
  shows "a = b \<and> x = y"
  using assms
proof (induction a arbitrary: b)
  case Nil
  then show ?case by (cases b) auto
next
  case (Cons c a)
  then show ?case by (cases b) auto
qed

lemma slash_head: "concat (List.map (\<lambda>p. CHR ''/'' # p) qs) = [] \<or>
    (\<exists>y. concat (List.map (\<lambda>p. CHR ''/'' # p) qs) = CHR ''/'' # y)"
  by (cases qs) auto

text \<open>A string prefix of a path is a component prefix, but for the end of the last component.\<close>

lemma path_str_prefix:
  assumes "root \<noteq> []" and "\<forall>x\<in>set root. plain_part x" and "\<forall>x\<in>set p. plain_part x"
    and "concat (List.map (\<lambda>p. CHR ''/'' # p) root) @ t = concat (List.map (\<lambda>p. CHR ''/'' # p) p)"
  shows "\<exists>s rest. p = butlast root @ (last root @ s) # rest"
  using assms
proof (induction root arbitrary: p)
  case Nil
  then show ?case by simp
next
  case (Cons r rs)
  obtain q qs where p: "p = q # qs" using Cons.prems(4) by (cases p) auto
  have r: "CHR ''/'' \<notin> set r" and q: "CHR ''/'' \<notin> set q"
    using Cons.prems(2,3) p by (auto simp: plain_part_def)
  have eq: "r @ (concat (List.map (\<lambda>p. CHR ''/'' # p) rs) @ t) = q @ concat (List.map (\<lambda>p. CHR ''/'' # p) qs)"
    using Cons.prems(4) p by simp
  show ?case
  proof (cases "rs = []")
    case True
    have "\<exists>s. q = r @ s"
    proof (rule ccontr)
      assume no: "\<nexists>s. q = r @ s"
      obtain u where u: "r = q @ u" "u @ t = concat (List.map (\<lambda>p. CHR ''/'' # p) qs)" "u \<noteq> []"
        using eq True no by (auto simp: append_eq_append_conv2)
      then have "CHR ''/'' \<in> set u" using slash_head [of qs] by (cases u) auto
      with r u show False by simp
    qed
    then show ?thesis using True p by auto
  next
    case False
    then obtain y where y: "concat (List.map (\<lambda>p. CHR ''/'' # p) rs) @ t = CHR ''/'' # y"
      by (cases rs) auto
    have "concat (List.map (\<lambda>p. CHR ''/'' # p) qs) \<noteq> []"
    proof
      assume "concat (List.map (\<lambda>p. CHR ''/'' # p) qs) = []"
      with eq y have "q = r @ CHR ''/'' # y" by simp
      with q show False by simp
    qed
    then obtain z where z: "concat (List.map (\<lambda>p. CHR ''/'' # p) qs) = CHR ''/'' # z"
      using slash_head [of qs] by blast
    have "r = q \<and> y = z" using slash_split [OF r q] eq y z by simp
    with y z have "concat (List.map (\<lambda>p. CHR ''/'' # p) rs) @ t = concat (List.map (\<lambda>p. CHR ''/'' # p) qs)"
      by simp
    then obtain s rest where "qs = butlast rs @ (last rs @ s) # rest"
      using Cons.IH [OF False, of qs] Cons.prems(2,3) p by auto
    with False p \<open>r = q \<and> y = z\<close> show ?thesis by auto
  qed
qed

section \<open>Properties\<close>

text \<open>The readiness probe against the local driver succeeds on a usable key space, cleans up
  after itself, writes no table, and leaves every other stored object as it was.\<close>

theorem probe_isolation_clean:
  assumes "local_usable E (PROBE_KEY_PREFIX @ hex_of_uuid (uuid4 E (uuid_pos w))) (w\<lparr>uuid_pos := Suc (uuid_pos w)\<rparr>)"
  shows "\<exists>rep w'. probe_isolation E (LocalStorageDriver E) w = (Inr rep, w') \<and> \<not> pr_cleanup_failed rep
    \<and> db w' = db w \<and> local_holds E (pr_key rep) w' = None
    \<and> (\<forall>k. local_apart E (pr_key rep) k \<longrightarrow> local_holds E k w' = local_holds E k w)"
proof -
  let ?w = "w\<lparr>uuid_pos := Suc (uuid_pos w)\<rparr>"
  let ?k = "PROBE_KEY_PREFIX @ hex_of_uuid (uuid4 E (uuid_pos w))"
  let ?c = "urandom E (Suc (uuid_pos w))"
  obtain w' where w': "probe_steps E (LocalStorageDriver E) ?k ?c ?w =
      (Inr \<lparr>pr_key = ?k, pr_size_bytes = length ?c, pr_sha256 = sha256 E ?c, pr_cleanup_failed = False\<rparr>, w')"
    "db w' = db ?w" "local_holds E ?k w' = None"
    "\<forall>k'. local_apart E ?k k' \<longrightarrow> local_holds E k' w' = local_holds E k' ?w"
    using ls.probe_steps_ok [OF assms, of ?c] by blast
  have "local_holds E k ?w = local_holds E k w" for k
    by (simp add: local_holds_def split: sum.split)
  with w' show ?thesis
    by (simp add: probe_isolation_def fresh_uuid_def bindE_def Let_def catchE_def)
qed

theorem probe_isolation_clean_witness:
  "\<exists>rep w'. probe_isolation sample_env (LocalStorageDriver sample_env) sample_world = (Inr rep, w')
     \<and> \<not> pr_cleanup_failed rep"
proof -
  have "local_usable sample_env (PROBE_KEY_PREFIX @ hex_of_uuid (uuid4 sample_env (uuid_pos sample_world)))
      (sample_world\<lparr>uuid_pos := Suc (uuid_pos sample_world)\<rparr>)"
    by code_simp
  from probe_isolation_clean [OF this] show ?thesis by blast
qed

text \<open>C32: Where a storage key can lead: the resolved path keeps every component of the root but the
  last, whose name it may extend. So a key reaches the root directory or a sibling
  directory whose name starts with the root's, and nothing else.\<close>

theorem resolve_path_confined:
  assumes "resolve_path root key = Inr p" and "root \<noteq> []" and "\<forall>x\<in>set root. plain_part x"
  shows "\<exists>s rest. p = butlast root @ (last root @ s) # rest"
proof -
  have p: "p = resolve_parts root (path_parts (clean_key key))" "startswith (path_str p) (path_str root)"
    using assms(1) by (auto simp: resolve_path_def Let_def split: if_splits)
  have plain: "\<forall>x\<in>set p. plain_part x"
    using resolve_parts_plain [OF assms(3)] path_parts_plain p(1) by blast
  obtain t where t: "path_str p = path_str root @ t"
    using p(2) by (auto simp: startswith_iff)
  have "p \<noteq> []"
  proof
    assume "p = []"
    with t assms(2,3) show False
      by (cases root) (auto simp: path_str_def plain_part_def)
  qed
  with t assms(2) have "concat (List.map (\<lambda>p. CHR ''/'' # p) root) @ t = concat (List.map (\<lambda>p. CHR ''/'' # p) p)"
    by (simp add: path_str_def)
  then show ?thesis using path_str_prefix assms(2,3) plain by blast
qed

text \<open>The sibling case is real.\<close>

theorem resolve_path_confined_witness:
  "resolve_path [''data'', ''artifacts''] ''../artifacts-old/x'' = Inr [''data'', ''artifacts-old'', ''x'']
   \<and> (\<exists>s rest. [''data'', ''artifacts-old'', ''x''] = butlast [''data'', ''artifacts''] @ (last [''data'', ''artifacts''] @ s) # rest)"
proof -
  have r: "resolve_path [''data'', ''artifacts''] ''../artifacts-old/x'' = Inr [''data'', ''artifacts-old'', ''x'']"
    by code_simp
  show ?thesis
    using r resolve_path_confined [OF r] by (simp add: plain_part_def)
qed

end
