(* ===== verification/Base64.thy ===== *)
theory Base64
  imports Prelude
begin

text \<open>
  \<open>base64.b64decode\<close> as CPython's \<open>binascii.a2b_base64\<close> in its lenient mode, which the
  artifact endpoints use: characters outside the alphabet are skipped, padding closes a group,
  and an unfinished group is an error. Decoding is the inverse of the standard encoding.
\<close>

definition b64_value :: "char \<Rightarrow> nat option" where
  "b64_value c =
     (let n = (of_char c :: nat) in
      if 65 \<le> n \<and> n \<le> 90 then Some (n - 65)
      else if 97 \<le> n \<and> n \<le> 122 then Some (n - 71)
      else if 48 \<le> n \<and> n \<le> 57 then Some (n + 4)
      else if n = 43 then Some 62
      else if n = 47 then Some 63
      else None)"

text \<open>The state is the position in a group of four, the bits left over and the pads seen.\<close>

fun b64_loop :: "string \<Rightarrow> nat \<Rightarrow> nat \<Rightarrow> nat \<Rightarrow> string \<Rightarrow> string option" where
  "b64_loop [] pos left pads out = (if pos \<noteq> 0 then None else Some (rev out))"
| "b64_loop (c # cs) pos left pads out =
     (if c = CHR ''='' then
        (if 2 \<le> pos \<and> 4 \<le> pos + Suc pads then Some (rev out)
         else b64_loop cs pos left (if 2 \<le> pos then Suc pads else pads) out)
      else case b64_value c of
        None \<Rightarrow> b64_loop cs pos left pads out
      | Some v \<Rightarrow>
          (if pos = 0 then b64_loop cs 1 v 0 out
           else if pos = 1 then b64_loop cs 2 (v mod 16) 0 (char_of (left * 4 + v div 16) # out)
           else if pos = 2 then b64_loop cs 3 (v mod 4) 0 (char_of (left * 16 + v div 4) # out)
           else b64_loop cs 0 0 0 (char_of (left * 64 + v) # out)))"

definition b64decode :: "string \<Rightarrow> string option" where
  "b64decode s = b64_loop s 0 0 0 []"

text \<open>The standard encoding, as a reference.\<close>

definition b64_char :: "nat \<Rightarrow> char" where
  "b64_char v = (if v < 26 then char_of (v + 65) else if v < 52 then char_of (v + 71)
                 else if v < 62 then char_of (v - 4) else if v = 62 then CHR ''+'' else CHR ''/'')"

fun b64encode :: "string \<Rightarrow> string" where
  "b64encode [] = []"
| "b64encode [a] =
     [b64_char (of_char a div 4), b64_char (of_char a mod 4 * 16), CHR ''='', CHR ''='']"
| "b64encode [a, b] =
     [b64_char (of_char a div 4), b64_char (of_char a mod 4 * 16 + of_char b div 16),
      b64_char (of_char b mod 16 * 4), CHR ''='']"
| "b64encode (a # b # c # s) =
     [b64_char (of_char a div 4), b64_char (of_char a mod 4 * 16 + of_char b div 16),
      b64_char (of_char b mod 16 * 4 + of_char c div 64), b64_char (of_char c mod 64)] @ b64encode s"

lemma b64_value_char_of: "n < 256 \<Longrightarrow> b64_value (char_of n) =
     (if 65 \<le> n \<and> n \<le> 90 then Some (n - 65)
      else if 97 \<le> n \<and> n \<le> 122 then Some (n - 71)
      else if 48 \<le> n \<and> n \<le> 57 then Some (n + 4)
      else if n = 43 then Some 62 else if n = 47 then Some 63 else None)"
  by (simp add: b64_value_def Let_def)

lemma b64_char_code: "v < 64 \<Longrightarrow> b64_char v = char_of (if v < 26 then v + 65 else if v < 52 then v + 71
     else if v < 62 then v - 4 else if v = 62 then 43 else 47 :: nat)"
  by (simp add: b64_char_def char_of_def bit_simps)

lemma b64_char_value: "v < 64 \<Longrightarrow> b64_value (b64_char v) = Some v"
proof -
  assume v: "v < 64"
  consider "v < 26" | "26 \<le> v" "v < 52" | "52 \<le> v" "v < 62" | "v = 62" | "v = 63"
    using v by linarith
  then show ?thesis
  proof cases
    case 3
    then have "v - 4 \<noteq> 47" "v - 4 \<noteq> 43" "48 \<le> v - 4" "v - 4 \<le> 57" by linarith+
    with 3 show ?thesis by (simp add: b64_char_code b64_value_char_of)
  qed (simp_all add: b64_char_code b64_value_char_of)
qed

lemma b64_char_pad: "v < 64 \<Longrightarrow> b64_char v \<noteq> CHR ''=''"
proof -
  assume v: "v < 64"
  have "b64_value (CHR ''='') = None" by code_simp
  with b64_char_value [OF v] show ?thesis by auto
qed

lemma b64_step:
  assumes "v < 64"
  shows "b64_loop (b64_char v # cs) 0 left pads out = b64_loop cs 1 v 0 out"
    and "b64_loop (b64_char v # cs) 1 left pads out
           = b64_loop cs 2 (v mod 16) 0 (char_of (left * 4 + v div 16) # out)"
    and "b64_loop (b64_char v # cs) 2 left pads out
           = b64_loop cs 3 (v mod 4) 0 (char_of (left * 16 + v div 4) # out)"
    and "b64_loop (b64_char v # cs) 3 left pads out = b64_loop cs 0 0 0 (char_of (left * 64 + v) # out)"
  using b64_char_value [OF assms] b64_char_pad [OF assms] by simp_all

declare b64_loop.simps(2) [simp del]

lemma sextets:
  fixes a b c :: nat
  assumes "a < 256" and "b < 256" and "c < 256"
  shows "a div 4 < 64" "a mod 4 * 16 + b div 16 < 64" "b mod 16 * 4 + c div 64 < 64" "c mod 64 < 64"
    "a mod 4 * 16 < 64" "b mod 16 * 4 < 64"
proof -
  have "a mod 4 < 4" "b mod 16 < 16" "b div 16 < 16" "c div 64 < 4" "c mod 64 < 64" "a div 4 < 64"
    using assms by simp_all
  then show "a div 4 < 64" "a mod 4 * 16 + b div 16 < 64" "b mod 16 * 4 + c div 64 < 64" "c mod 64 < 64"
    "a mod 4 * 16 < 64" "b mod 16 * 4 < 64" by linarith+
qed

lemma sextet_join:
  fixes a b c :: nat
  assumes "a < 256" and "b < 256" and "c < 256"
  shows "a div 4 * 4 + (a mod 4 * 16 + b div 16) div 16 = a"
    "(a mod 4 * 16 + b div 16) mod 16 * 16 + (b mod 16 * 4 + c div 64) div 4 = b"
    "(b mod 16 * 4 + c div 64) mod 4 * 64 + c mod 64 = c"
    "a div 4 * 4 + (a mod 4 * 16) div 16 = a"
    "(a mod 4 * 16 + b div 16) mod 16 * 16 + (b mod 16 * 4) div 4 = b"
proof -
  have d: "b div 16 div 16 = 0" "c div 64 div 4 = 0" "b div 16 mod 16 = b div 16" "c div 64 mod 4 = c div 64"
    using assms by (simp_all add: div_mult2_eq [symmetric])
  show "a div 4 * 4 + (a mod 4 * 16 + b div 16) div 16 = a"
    "(a mod 4 * 16 + b div 16) mod 16 * 16 + (b mod 16 * 4 + c div 64) div 4 = b"
    "(b mod 16 * 4 + c div 64) mod 4 * 64 + c mod 64 = c"
    "a div 4 * 4 + (a mod 4 * 16) div 16 = a"
    "(a mod 4 * 16 + b div 16) mod 16 * 16 + (b mod 16 * 4) div 4 = b"
    using d by simp_all
qed

lemma b64_pads:
  "b64_loop (CHR ''='' # CHR ''='' # cs) 2 left 0 out = Some (rev out)"
  "b64_loop (CHR ''='' # cs) 3 left 0 out = Some (rev out)"
  by (simp_all add: b64_loop.simps(2))

lemma b64_loop_encode: "b64_loop (b64encode s) 0 left pads out = Some (rev out @ s)"
proof (induction s arbitrary: left pads out rule: b64encode.induct)
  case 1
  then show ?case by simp
next
  case (2 a)
  have b: "(of_char a :: nat) < 256" by (rule nat_of_char_less_256)
  show ?case
    using sextets [OF b b b] sextet_join [OF b b b]
    by (simp add: b64_step b64_pads del: One_nat_def)
next
  case (3 a b)
  have l: "(of_char a :: nat) < 256" "(of_char b :: nat) < 256" by (rule nat_of_char_less_256)+
  show ?case
    using sextets [OF l l(2)] sextet_join [OF l l(2)]
    by (simp add: b64_step b64_pads del: One_nat_def)
next
  case (4 a b c s)
  have l: "(of_char a :: nat) < 256" "(of_char b :: nat) < 256" "(of_char c :: nat) < 256"
    by (rule nat_of_char_less_256)+
  show ?case
    using sextets [OF l] sextet_join [OF l] 4
    by (simp add: b64_step del: One_nat_def)
qed

lemma b64_roundtrip: "b64decode (b64encode s) = Some s"
  by (simp add: b64decode_def b64_loop_encode)

end
