(* ===== verification/Run_Artifacts.thy ===== *)
theory Run_Artifacts
  imports Run_Events Storage Base64
begin

text \<open>
  Artifacts of a run, from \<open>services/run_service.py\<close>: storing bytes in two phases with a
  compare-and-set to PERSISTED, the idempotency check before it, listing, reading back, marking,
  and the upload endpoint of \<open>api/internal_runs.py\<close>. The storage driver is the local one; S3
  is taken to be unconfigured. \<open>rows_are_dicts\<close> says whether a row mapping of the database
  driver is a \<open>dict\<close>, which the idempotency check tests for.
\<close>

section \<open>Descriptors\<close>

record descriptor =
  de_artifact_id :: string
  de_name :: string
  de_content_type :: "string option"
  de_size_bytes :: "int option"
  de_download_url :: string
  de_checksum :: "string option"
  de_storage_state :: string

fun artifact_state_str :: "artifact_state option \<Rightarrow> string" where
  "artifact_state_str None = ''persisted''"
| "artifact_state_str (Some INIT) = ''init''"
| "artifact_state_str (Some PERSISTED) = ''persisted''"
| "artifact_state_str (Some CORRUPTED) = ''corrupted''"
| "artifact_state_str (Some EXPIRED) = ''expired''"

definition download_url :: "string \<Rightarrow> string \<Rightarrow> string" where
  "download_url run_id artifact_id =
     ''/api/v1/runs/'' @ run_id @ ''/artifacts/'' @ artifact_id @ ''/download''"

definition descriptor_of_row :: "string \<Rightarrow> artifact_row \<Rightarrow> descriptor" where
  "descriptor_of_row run_id f =
     \<lparr>de_artifact_id = f_id f, de_name = f_name f, de_content_type = f_content_type f,
      de_size_bytes = f_size_bytes f, de_download_url = download_url run_id (f_id f),
      de_checksum = f_checksum f, de_storage_state = artifact_state_str (f_storage_state f)\<rparr>"

lemma descriptor_of_row_id [simp]: "de_artifact_id (descriptor_of_row rid f) = f_id f"
  by (simp add: descriptor_of_row_def)

section \<open>Writing\<close>

definition blank_artifact :: "string \<Rightarrow> string \<Rightarrow> string \<Rightarrow> int \<Rightarrow> artifact_row" where
  "blank_artifact artifact_id run_id name now =
     \<lparr>f_id = artifact_id, f_run_id = run_id, f_attempt_id = None, f_step_id = None, f_name = name,
      f_content_type = None, f_size_bytes = None, f_storage_ref = None, f_checksum = None,
      f_storage_state = Some INIT, f_storage_driver = Some ''local'', f_storage_key = None,
      f_upload_mode = Some ''eager'', f_idempotency_key = None, f_state_reason = None,
      f_persisted_at = None, f_expires_at = None, f_created_at = now\<rparr>"

text \<open>The insert of \<open>add_artifact\<close> names no storage state: the column default INIT applies.\<close>

definition add_artifact ::
  "env \<Rightarrow> string \<Rightarrow> string \<Rightarrow> string option \<Rightarrow> int option \<Rightarrow> string option \<Rightarrow> string option
   \<Rightarrow> string option \<Rightarrow> string option \<Rightarrow> int option \<Rightarrow> descriptor op" where
  "add_artifact E run_id name content_type size_bytes storage_ref checksum org_id attempt_id generation =
     bindE (fresh_uuid E) (\<lambda>artifact_id.
     bindE now_op (\<lambda>now.
     thenE (insert_artifact ((blank_artifact artifact_id run_id name now)
        \<lparr>f_attempt_id := attempt_id, f_content_type := content_type, f_size_bytes := size_bytes,
         f_storage_ref := storage_ref, f_checksum := checksum\<rparr>))
     (bindE (append_event E run_id ''run.artifact_ready''
        [(''artifact_id'', JStr artifact_id), (''name'', JStr name)]
        (attempt_opts org_id attempt_id generation)) (\<lambda>_.
      returnE \<lparr>de_artifact_id = artifact_id, de_name = name, de_content_type = content_type,
        de_size_bytes = size_bytes, de_download_url = download_url run_id artifact_id,
        de_checksum = checksum, de_storage_state = ''persisted''\<rparr>))))"

definition artifact_persisted_source_event_id :: "string \<Rightarrow> string" where
  "artifact_persisted_source_event_id artifact_id = ''artifact:'' @ artifact_id @ '':persisted''"

definition artifact_persisted_payload :: "descriptor \<Rightarrow> dict" where
  "artifact_persisted_payload d =
     [(''artifact_id'', JStr (de_artifact_id d)),
      (''name'', JStr (de_name d)),
      (''content_type'', JStr (str_or (de_content_type d) ''text/plain'')),
      (''size'', JInt (case de_size_bytes d of None \<Rightarrow> 0 | Some n \<Rightarrow> n)),
      (''checksum_sha256'', jopt (de_checksum d))]"

definition get_storage_driver :: "env \<Rightarrow> string option \<Rightarrow> exn + storage_driver" where
  "get_storage_driver E driver_type =
     (if lower (str_or driver_type ''local'') = ''s3''
      then Inl (ValueError ''S3 endpoint is not configured'')
      else Inr (LocalStorageDriver E))"

record artifact_input =
  ai_name :: string
  ai_content :: string
  ai_content_type :: "string option"
  ai_org_id :: "string option"
  ai_attempt_id :: "string option"
  ai_generation :: "int option"
  ai_step_id :: "string option"
  ai_upload_mode :: "string option"
  ai_idempotency_key :: "string option"

definition find_existing_artifact :: "env \<Rightarrow> string \<Rightarrow> artifact_input \<Rightarrow> artifact_row option op" where
  "find_existing_artifact E run_id a =
     bindE (if str_set (ai_idempotency_key a)
            then select_artifact (\<lambda>f. f_run_id f = run_id \<and> f_idempotency_key f = ai_idempotency_key a)
            else select_artifact (\<lambda>f. f_run_id f = run_id \<and> f_name f = ai_name a)) (\<lambda>row.
     returnE (if rows_are_dicts E then row else None))"

definition persist_bytes :: "env \<Rightarrow> string \<Rightarrow> string \<Rightarrow> string \<Rightarrow> string \<Rightarrow> bool op" where
  "persist_bytes E artifact_id storage_key content checksum =
     catchE
       (bindE (d_write (LocalStorageDriver E) storage_key content (Some checksum) (Some (length content)))
         (\<lambda>write_res. bindE now_op (\<lambda>now.
         bindE (update_artifacts (\<lambda>f. f_id f = artifact_id \<and> f_storage_state f = Some INIT)
           (\<lambda>f. f\<lparr>f_storage_state := Some PERSISTED,
                  f_storage_ref := Some (if wr_storage_ref write_res = [] then storage_key
                                         else wr_storage_ref write_res),
                  f_persisted_at := Some now\<rparr>))
           (\<lambda>rowcount. returnE (rowcount > 0)))))
       (\<lambda>exc. bindE (update_artifacts (\<lambda>f. f_id f = artifact_id)
           (\<lambda>f. f\<lparr>f_storage_state := Some CORRUPTED, f_state_reason := Some (py_take 500 (exn_text exc))\<rparr>))
         (\<lambda>_. raiseE exc))"

definition stored_key :: "string \<Rightarrow> string \<Rightarrow> artifact_input \<Rightarrow> string" where
  "stored_key run_id artifact_id a = run_id @ ''/'' @ artifact_id @ ''_'' @ ai_name a"

definition stored_row :: "env \<Rightarrow> string \<Rightarrow> artifact_input \<Rightarrow> string \<Rightarrow> int \<Rightarrow> artifact_row" where
  "stored_row E run_id a artifact_id now =
     (blank_artifact artifact_id run_id (ai_name a) now)
       \<lparr>f_attempt_id := ai_attempt_id a, f_step_id := ai_step_id a,
        f_content_type := Some (str_or (ai_content_type a) ''text/plain''),
        f_size_bytes := Some (int (length (ai_content a))),
        f_storage_ref := Some (stored_key run_id artifact_id a),
        f_checksum := Some (sha256 E (ai_content a)),
        f_storage_driver := Some ''local'', f_storage_key := Some (stored_key run_id artifact_id a),
        f_upload_mode := Some (str_or (ai_upload_mode a) ''eager''),
        f_idempotency_key := ai_idempotency_key a\<rparr>"

definition new_descriptor :: "env \<Rightarrow> string \<Rightarrow> artifact_input \<Rightarrow> string \<Rightarrow> descriptor" where
  "new_descriptor E run_id a artifact_id =
     \<lparr>de_artifact_id = artifact_id, de_name = ai_name a,
      de_content_type = Some (str_or (ai_content_type a) ''text/plain''),
      de_size_bytes = Some (int (length (ai_content a))),
      de_download_url = download_url run_id artifact_id,
      de_checksum = Some (sha256 E (ai_content a)), de_storage_state = ''persisted''\<rparr>"

definition store_events :: "env \<Rightarrow> string \<Rightarrow> artifact_input \<Rightarrow> string \<Rightarrow> bool \<Rightarrow> descriptor op" where
  "store_events E run_id a artifact_id persisted =
     (let opts = attempt_opts (ai_org_id a) (ai_attempt_id a) (ai_generation a);
          descriptor = new_descriptor E run_id a artifact_id
      in
      bindE (append_event E run_id ''run.artifact_ready''
             [(''artifact_id'', JStr artifact_id), (''name'', JStr (ai_name a))] opts) (\<lambda>_.
      thenE (if persisted
             then bindE (append_event E run_id ''artifact.persisted'' (artifact_persisted_payload descriptor)
                    (opts\<lparr>o_source_event_id := Some (artifact_persisted_source_event_id artifact_id)\<rparr>))
                    (\<lambda>_. returnE ())
             else returnE ())
        (returnE descriptor)))"

definition store_artifact_bytes :: "env \<Rightarrow> string \<Rightarrow> artifact_input \<Rightarrow> descriptor op" where
  "store_artifact_bytes E run_id a =
     (let checksum = sha256 E (ai_content a) in
      bindE (find_existing_artifact E run_id a) (\<lambda>existing.
      case existing of
        Some f \<Rightarrow>
          if f_checksum f \<noteq> Some checksum \<or> (f_name f \<noteq> [] \<and> f_name f \<noteq> ai_name a)
          then raiseE (RuntimeError (''errors.artifact.idempotency_conflict: Artifact conflict: '' @
                 [char_of (39 :: nat)] @ ai_name a @ [char_of (39 :: nat)] @ '' already exists with different checksum''))
          else returnE (descriptor_of_row run_id f)
      | None \<Rightarrow>
          bindE (fresh_uuid E) (\<lambda>artifact_id.
          bindE now_op (\<lambda>now.
          thenE (insert_artifact (stored_row E run_id a artifact_id now))
          (bindE (persist_bytes E artifact_id (stored_key run_id artifact_id a) (ai_content a) checksum)
            (store_events E run_id a artifact_id))))))"

definition mark_artifact_corrupted :: "string \<Rightarrow> string option \<Rightarrow> bool op" where
  "mark_artifact_corrupted artifact_id reason =
     bindE (update_artifacts (\<lambda>f. f_id f = artifact_id)
       (\<lambda>f. f\<lparr>f_storage_state := Some CORRUPTED, f_state_reason := Some (str_or reason ''corrupted'')\<rparr>))
       (\<lambda>rowcount. returnE (rowcount > 0))"

definition mark_artifact_expired :: "string \<Rightarrow> string option \<Rightarrow> bool op" where
  "mark_artifact_expired artifact_id reason =
     bindE now_op (\<lambda>now.
     bindE (update_artifacts (\<lambda>f. f_id f = artifact_id)
       (\<lambda>f. f\<lparr>f_storage_state := Some EXPIRED, f_state_reason := Some (str_or reason ''expired''),
              f_expires_at := Some now\<rparr>))
       (\<lambda>rowcount. returnE (rowcount > 0)))"

section \<open>Reading\<close>

definition list_artifacts :: "string \<Rightarrow> descriptor list op" where
  "list_artifacts run_id =
     getsE (\<lambda>w. List.map (descriptor_of_row run_id)
       (order_by f_created_at
         (filter (\<lambda>f. f_run_id f = run_id \<and> f_storage_state f \<in> {Some PERSISTED, None})
           (artifacts (db w)))))"

definition read_path_ref :: "env \<Rightarrow> string \<Rightarrow> string option op" where
  "read_path_ref E ref =
     getsE (\<lambda>w. map_of (files w)
       (resolve_parts (if startswith ref ''/'' then [] else working_dir E) (path_parts ref)))"

definition DATA_PREFIX :: string where
  "DATA_PREFIX = ''data:base64:''"

definition get_artifact_bytes :: "env \<Rightarrow> string \<Rightarrow> string \<Rightarrow> (artifact_row \<times> string) option op" where
  "get_artifact_bytes E run_id artifact_id =
     bindE (select_artifact (\<lambda>f. f_run_id f = run_id \<and> f_id f = artifact_id)) (\<lambda>row.
     case row of
       None \<Rightarrow> returnE None
     | Some f \<Rightarrow>
         if \<not> str_set (f_storage_ref f) then returnE None
         else if f_storage_state f \<notin> {None, Some PERSISTED} then returnE None
         else
           let ref = str_or (f_storage_ref f) [] in
           if startswith ref DATA_PREFIX then
             (case b64decode (drop (length DATA_PREFIX) ref) of
                None \<Rightarrow> raiseE (ValueError ''Incorrect padding'')
              | Some content \<Rightarrow> returnE (Some (f, content)))
           else
             let storage_key = str_or (f_storage_key f) (run_id @ ''/'' @ artifact_id @ ''_'' @ f_name f) in
             bindE (liftE (get_storage_driver E (f_storage_driver f))) (\<lambda>D.
             catchE (bindE (d_read D storage_key) (\<lambda>content. returnE (Some (f, content))))
               (\<lambda>_. bindE (read_path_ref E ref) (\<lambda>c. returnE (map_option (\<lambda>content. (f, content)) c)))))"

section \<open>The upload endpoint\<close>

record upload_request =
  u_name :: string
  u_content_base64 :: string
  u_content_type :: "string option"
  u_checksum :: "string option"
  u_attempt_id :: "string option"
  u_step_id :: "string option"
  u_generation :: "int option"
  u_size :: "int option"
  u_upload_mode :: "string option"
  u_idempotency_key :: "string option"

text \<open>
  A \<open>RuntimeError\<close> becomes a 409 response that is returned, so the request's transaction is
  committed; any other exception becomes a 500 that is raised, and rolls it back.
\<close>

definition upload_internal_artifact ::
  "env \<Rightarrow> string \<Rightarrow> upload_request \<Rightarrow> string \<Rightarrow> (api_error + descriptor) op" where
  "upload_internal_artifact E run_id body x_org =
     (if x_org = [] then returnE (Inl (ApiError 400 ''errors.artifact.missing_field''))
      else
      bindE (getsE db) (\<lambda>db0.
      bindE (get_run run_id (Some x_org)) (\<lambda>run.
      case run of
        None \<Rightarrow> returnE (Inl (ApiError 404 ''run not found''))
      | Some v \<Rightarrow>
          if v_org_id v \<noteq> x_org then returnE (Inl (ApiError 403 ''errors.artifact.unauthorized_scope''))
          else if u_name body = [] \<or> u_content_base64 body = []
          then returnE (Inl (ApiError 400 ''errors.artifact.missing_field''))
          else if u_generation body \<noteq> None \<and> u_generation body \<noteq> Some (v_generation v)
          then returnE (Inl (ApiError 409 ''errors.artifact.stale_generation''))
          else if str_set (u_attempt_id body) \<and> str_set (v_attempt_id v) \<and> u_attempt_id body \<noteq> v_attempt_id v
          then returnE (Inl (ApiError 403 ''errors.artifact.unauthorized_scope''))
          else case b64decode (u_content_base64 body) of
            None \<Rightarrow> returnE (Inl (ApiError 400 ''errors.artifact.missing_field''))
          | Some content \<Rightarrow>
              if u_size body \<noteq> None \<and> u_size body \<noteq> Some (int (length content))
              then returnE (Inl (ApiError 400 ''errors.artifact.size_mismatch''))
              else if str_set (u_checksum body) \<and> lower (sha256 E content) \<noteq> lower (str_or (u_checksum body) [])
              then returnE (Inl (ApiError 400 ''errors.artifact.checksum_mismatch''))
              else
                catchE
                  (bindE (store_artifact_bytes E run_id
                    \<lparr>ai_name = u_name body, ai_content = content, ai_content_type = u_content_type body,
                     ai_org_id = Some x_org, ai_attempt_id = u_attempt_id body,
                     ai_generation = u_generation body, ai_step_id = u_step_id body,
                     ai_upload_mode = u_upload_mode body, ai_idempotency_key = u_idempotency_key body\<rparr>)
                   (\<lambda>d. returnE (Inr d)))
                  (\<lambda>exc. case exc of
                     RuntimeError _ \<Rightarrow> returnE (Inl (ApiError 409 ''errors.artifact.idempotency_conflict''))
                   | _ \<Rightarrow> thenE (modifyE (with_db (\<lambda>_. db0))) (returnE (Inl (ApiError 500 (exn_text exc))))))))"

section \<open>Guarantees\<close>

lemma local_ops_same_log [guar_intros]:
  "guar same_log (local_write E k c h n)" "guar same_log (local_read E k)"
  unfolding local_write_def local_read_def path_exists_def read_file_def
  by (intro sl.guar_rules; simp add: guar_def write_file_def same_log_def Let_def split: option.split)+

lemma driver_write_same_log [guar_intros]: "guar same_log (d_write (LocalStorageDriver E) k c h n)"
  by (simp add: LocalStorageDriver_def local_ops_same_log)

lemma persist_bytes_same_log: "guar same_log (persist_bytes E i k c h)"
  unfolding persist_bytes_def by (intro sl.guar_rules guar_intros)

lemma find_existing_same_log: "guar same_log (find_existing_artifact E rid a)"
  unfolding find_existing_artifact_def by (intro sl.guar_rules guar_intros)

lemmas artifact_steps [guar_intros] = persist_bytes_same_log find_existing_same_log
  persist_bytes_same_log [THEN guar_same_log] find_existing_same_log [THEN guar_same_log]

lemma store_artifact_safe [guar_intros]: "guar safe (store_artifact_bytes E rid a)"
  unfolding store_artifact_bytes_def store_events_def by (intro sw.guar_rules guar_intros)

lemma add_artifact_safe [guar_intros]: "guar safe (add_artifact E rid n ct sz ref h org att gen)"
  unfolding add_artifact_def by (intro sw.guar_rules guar_intros)

lemma list_artifacts_same_log [guar_intros]: "guar same_log (list_artifacts rid)"
  unfolding list_artifacts_def by (intro sl.guar_rules)

text \<open>An event write leaves artifacts and files alone.\<close>

definition same_artifacts :: "world \<Rightarrow> world \<Rightarrow> bool" where
  "same_artifacts w w' \<longleftrightarrow> artifacts (db w') = artifacts (db w) \<and> files w' = files w"

interpretation sf: guarantee same_artifacts
  by unfold_locales (auto simp: same_artifacts_def)

lemma same_artifacts_stmts:
  "guar same_artifacts (select_run c1)" "guar same_artifacts (select_event c2)"
  "guar same_artifacts now_op" "guar same_artifacts (insert_event e)"
  "guar same_artifacts (fresh_uuid E)" "guar same_artifacts (alloc_event_seq rid opts)"
  by (simp_all add: guar_def stmt_defs getsE_def modifyE_def same_artifacts_def alloc_event_seq_def
      Let_def split: option.split)

lemma append_event_artifacts: "guar same_artifacts (append_event E rid ty p opts)"
  unfolding append_event_def write_event_def snapshot_trace_id_def
  by (intro sf.guar_rules same_artifacts_stmts)

section \<open>Storing\<close>

lemma write_file_ok:
  "write_file root p c w = (Inr u, w') \<Longrightarrow> map_of (files w') p = Some c \<and> db w' = db w \<and> clock w' = clock w"
  by (auto simp: write_file_def Let_def update_conv' split: if_splits)

lemma local_write_ok:
  assumes "local_write E k c h n w = (Inr res, w')"
  obtains p where "resolve_path (artifact_root E) k = Inr p" "wr_storage_ref res = path_str p"
    "map_of (files w') p = Some c" "db w' = db w" "clock w' = clock w"
  using assms write_file_ok
  by (force simp: local_write_def Let_def bindE_def thenE_def split: if_splits sum.splits prod.splits)

lemma local_write_db: "db (snd (local_write E k c h n w)) = db w"
  by (auto simp: local_write_def Let_def bindE_def thenE_def write_file_def split: sum.splits)

lemma path_str_head: "\<exists>s. path_str p = CHR ''/'' # s"
  by (cases p) (auto simp: path_str_def)

lemma stored_row_fields [simp]:
  "f_id (stored_row E rid a i t) = i" "f_run_id (stored_row E rid a i t) = rid"
  "f_storage_state (stored_row E rid a i t) = Some INIT" "f_name (stored_row E rid a i t) = ai_name a"
  "f_storage_driver (stored_row E rid a i t) = Some ''local''"
  "f_storage_key (stored_row E rid a i t) = Some (stored_key rid i a)"
  "f_checksum (stored_row E rid a i t) = Some (sha256 E (ai_content a))"
  "f_content_type (stored_row E rid a i t) = Some (str_or (ai_content_type a) ''text/plain'')"
  "f_size_bytes (stored_row E rid a i t) = Some (int (length (ai_content a)))"
  by (simp_all add: stored_row_def blank_artifact_def)

lemma store_artifact_new:
  assumes "find_existing_artifact E rid a w = (Inr None, w)" and "i = uuid4 E (uuid_pos w)"
  shows "store_artifact_bytes E rid a w =
    bindE (persist_bytes E i (stored_key rid i a) (ai_content a) (sha256 E (ai_content a)))
      (store_events E rid a i)
      (w\<lparr>uuid_pos := Suc (uuid_pos w), db := (db w)\<lparr>artifacts := artifacts (db w) @ [stored_row E rid a i (clock w)]\<rparr>\<rparr>)"
proof -
  have 1: "fresh_uuid E w = (Inr i, w\<lparr>uuid_pos := Suc (uuid_pos w)\<rparr>)"
    by (simp add: fresh_uuid_def assms(2))
  have 2: "insert_artifact f u = (Inr (), u\<lparr>db := (db u)\<lparr>artifacts := artifacts (db u) @ [f]\<rparr>\<rparr>)" for f u
    by (simp add: insert_artifact_def with_db_def)
  show ?thesis
    by (simp add: store_artifact_bytes_def Let_def bindE_run [where m = "find_existing_artifact E rid a", OF assms(1)]
        bindE_run [where m = "fresh_uuid E", OF 1] bindE_run [where m = now_op, OF now_op_run]
        thenE_run [where m = "insert_artifact f" for f, OF 2])
qed

lemma persist_bytes_cases:
  fixes E :: env and w :: world
  defines "st \<equiv> \<lambda>i g w. w\<lparr>db := (db w)\<lparr>artifacts := upd_where (\<lambda>f. f_id f = i) g (artifacts (db w))\<rparr>\<rparr>"
  obtains (stored) res w1 where "local_write E k c (Some h) (Some (length c)) w = (Inr res, w1)"
      "persist_bytes E i k c h w = (Inr (\<exists>f\<in>set (artifacts (db w)). f_id f = i \<and> f_storage_state f = Some INIT),
        w1\<lparr>db := (db w1)\<lparr>artifacts := upd_where (\<lambda>f. f_id f = i \<and> f_storage_state f = Some INIT)
           (\<lambda>f. f\<lparr>f_storage_state := Some PERSISTED, f_storage_ref := Some (wr_storage_ref res),
                  f_persisted_at := Some (clock w)\<rparr>) (artifacts (db w))\<rparr>\<rparr>)"
  | (failed) e w1 where "local_write E k c (Some h) (Some (length c)) w = (Inl e, w1)"
      "persist_bytes E i k c h w = (Inl e, st i (\<lambda>f. f\<lparr>f_storage_state := Some CORRUPTED,
          f_state_reason := Some (py_take 500 (exn_text e))\<rparr>) w1)" "db w1 = db w"
proof -
  obtain r w1 where r: "local_write E k c (Some h) (Some (length c)) w = (r, w1)" by fastforce
  show ?thesis
  proof (cases r)
    case (Inl e)
    have "db w1 = db w" using local_write_db [of E k c "Some h" "Some (length c)" w] r by simp
    with r Inl show ?thesis
      by (intro failed [of e w1]) (simp_all add: persist_bytes_def catchE_def bindE_def LocalStorageDriver_def
          update_artifacts_def with_db_def st_def)
  next
    case (Inr res)
    obtain p where p: "wr_storage_ref res = path_str p" "db w1 = db w" "clock w1 = clock w"
      using local_write_ok r Inr by metis
    have "wr_storage_ref res \<noteq> []" using p path_str_head [of p] by auto
    moreover have "(count_where (\<lambda>f. f_id f = i \<and> f_storage_state f = Some INIT) (artifacts (db w)) > 0)
        = (\<exists>f\<in>set (artifacts (db w)). f_id f = i \<and> f_storage_state f = Some INIT)"
      using count_where_0 [of "\<lambda>f. f_id f = i \<and> f_storage_state f = Some INIT" "artifacts (db w)"] by auto
    ultimately show ?thesis
      using r Inr p by (intro stored [of res w1]) (simp_all add: persist_bytes_def catchE_def bindE_def LocalStorageDriver_def
          update_artifacts_def with_db_def)
  qed
qed

lemma store_events_keeps:
  assumes "store_events E rid a i ps w = (r, w')"
  shows "artifacts (db w') = artifacts (db w)" and "files w' = files w"
proof -
  have "guar same_artifacts (store_events E rid a i ps)"
    unfolding store_events_def by (intro sf.guar_rules append_event_artifacts)
  from guar_result [OF this assms] show "artifacts (db w') = artifacts (db w)" and "files w' = files w"
    by (simp_all add: same_artifacts_def)
qed

lemma store_events_yields: "yields (\<lambda>d. d = new_descriptor E rid a i) (store_events E rid a i ps)"
  unfolding store_events_def by (intro yields_rules refl)

section \<open>Properties\<close>

text \<open>An event of this type for this artifact, so many numbers after the counter of the run.\<close>

definition artifact_recorded :: "string \<Rightarrow> string \<Rightarrow> string \<Rightarrow> run_row \<Rightarrow> nat \<Rightarrow> event_row \<Rightarrow> bool" where
  "artifact_recorded ty rid artifact_id r k e \<longleftrightarrow> e_event_type e = ty \<and> e_run_id e = rid
     \<and> e_event_seq e = r_next_event_seq r + k \<and> dget (e_payload e) ''artifact_id'' = JStr artifact_id"

lemma dget_omit: "k \<notin> set RUNTIME_BINDING_PUBLIC_OMIT_KEYS \<Longrightarrow> dget (omit_runtime_binding_keys p) k = dget p k"
  by (induction p) (auto simp: omit_runtime_binding_keys_def dget_def)

lemma store_events_succeed:
  assumes "find (writable_for rid opts) (runs (db w)) = Some r"
    and "opts = attempt_opts (ai_org_id a) (ai_attempt_id a) (ai_generation a)"
    and "\<forall>e\<in>set (events (db w)). e_source_event_id e \<noteq> Some (artifact_persisted_source_event_id i)"
  shows "\<exists>w' e1. store_events E rid a i ps w = (Inr (new_descriptor E rid a i), w') \<and> artifact_recorded ''run.artifact_ready'' rid i r 1 e1
    \<and> (ps \<longrightarrow> (\<exists>e2. events (db w') = events (db w) @ [e1, e2] \<and> artifact_recorded ''artifact.persisted'' rid i r 2 e2
          \<and> dget (e_payload e2) ''checksum_sha256'' = JStr (sha256 E (ai_content a))))"
proof -
  let ?p = "[(''artifact_id'', JStr i), (''name'', JStr (ai_name a))]"
  let ?o = "opts\<lparr>o_source_event_id := Some (artifact_persisted_source_event_id i)\<rparr>"
  let ?e = "event_row_for E w rid ''run.artifact_ready'' (stored_payload ?p opts) opts r"
  let ?w = "event_written w rid opts ?e"
  have o0: "o_source_event_id opts = None" using assms(2) by (simp add: attempt_opts_def no_opts_def)
  then have k: "known_event w rid opts = None" by (intro known_event_none(1)) (simp add: str_given_def)
  obtain t1 where 1: "append_event E rid ''run.artifact_ready'' ?p opts w = (Inr (event_row_view t1 ?e), ?w)"
    using append_event_some [OF k assms(1) refl] by blast
  have k2: "known_event ?w rid ?o = None"
    using assms(3) o0 by (intro known_event_none(2)) (auto simp: event_row_for_def)
  have "find (writable_for rid ?o) (runs (db ?w)) =
      Some (r\<lparr>r_next_event_seq := Suc (r_next_event_seq r), r_updated_at := clock w\<rparr>)"
    using event_written_writable [OF assms(1)] by simp
  from append_event_some [OF k2 this refl]
  obtain v w2 e2 where 2: "append_event E rid ''artifact.persisted''
      (artifact_persisted_payload (new_descriptor E rid a i)) ?o ?w = (Inr v, w2)" "w2 = event_written ?w rid ?o e2"
    and e2: "e2 = event_row_for E ?w rid ''artifact.persisted''
        (stored_payload (artifact_persisted_payload (new_descriptor E rid a i)) ?o) ?o
        (r\<lparr>r_next_event_seq := Suc (r_next_event_seq r), r_updated_at := clock w\<rparr>)" by blast
  have cv: "o_context_version opts = None" using assms(2) by (simp add: attempt_opts_def no_opts_def)
  have "artifact_recorded ''run.artifact_ready'' rid i r 1 ?e"
    by (simp add: artifact_recorded_def event_row_for_def stored_payload_def cv dget_omit RUNTIME_BINDING_PUBLIC_OMIT_KEYS_def)
  moreover have "artifact_recorded ''artifact.persisted'' rid i r 2 e2"
    "dget (e_payload e2) ''checksum_sha256'' = JStr (sha256 E (ai_content a))"
    by (simp_all add: e2 artifact_recorded_def event_row_for_def stored_payload_def cv dget_omit RUNTIME_BINDING_PUBLIC_OMIT_KEYS_def)
      (simp_all add: dget_def artifact_persisted_payload_def new_descriptor_def jopt_def)
  moreover have "events (db w2) = events (db w) @ [?e, e2]" by (simp add: 2(2))
  moreover have "\<exists>w'. store_events E rid a i ps w = (Inr (new_descriptor E rid a i), w') \<and> (ps \<longrightarrow> w' = w2)"
    unfolding store_events_def assms(2) [symmetric]
    using 1 2(1) by (simp add: Let_def bindE_def thenE_def)
  ultimately show ?thesis by blast
qed

lemma local_write_usable:
  assumes "local_usable E k w"
  shows "\<exists>res w'. local_write E k c (Some (sha256 E c)) (Some (length c)) w = (Inr res, w')"
proof -
  obtain p where "resolve_path (artifact_root E) k = Inr p"
    using assms by (auto simp: local_usable_def split: sum.splits)
  from local_write_run [OF this assms] show ?thesis by blast
qed

text \<open>C29: An upload under a usable key to a run that accepts events succeeds; the bytes come back
  under the returned identifier, with their checksum, the artifact is listed as persisted, and exactly two
  events are appended to the log, under the next two numbers of the run: that the artifact is ready, and that
  it is persisted, with its checksum.\<close>

theorem stored_bytes_read_back:
  assumes "find_existing_artifact E rid a w = (Inr None, w)"
    and "\<forall>f\<in>set (artifacts (db w)). f_id f \<noteq> uuid4 E (uuid_pos w)"
    and "\<forall>e\<in>set (events (db w)). e_source_event_id e
            \<noteq> Some (artifact_persisted_source_event_id (uuid4 E (uuid_pos w)))"
    and "local_usable E (stored_key rid (uuid4 E (uuid_pos w)) a) w"
    and "find (writable_for rid (attempt_opts (ai_org_id a) (ai_attempt_id a) (ai_generation a)))
           (runs (db w)) = Some r"
  shows "\<exists>d w' f. store_artifact_bytes E rid a w = (Inr d, w')
    \<and> get_artifact_bytes E rid (de_artifact_id d) w' = (Inr (Some (f, ai_content a)), w')
    \<and> f_checksum f = Some (sha256 E (ai_content a)) \<and> f_storage_state f = Some PERSISTED
    \<and> d \<in> set (List.map (descriptor_of_row rid) (filter (\<lambda>f. f_run_id f = rid
          \<and> f_storage_state f \<in> {Some PERSISTED, None}) (artifacts (db w'))))
    \<and> (\<exists>e1 e2. events (db w') = events (db w) @ [e1, e2]
         \<and> artifact_recorded ''run.artifact_ready'' rid (de_artifact_id d) r 1 e1
         \<and> artifact_recorded ''artifact.persisted'' rid (de_artifact_id d) r 2 e2
         \<and> dget (e_payload e2) ''checksum_sha256'' = JStr (sha256 E (ai_content a)))"
proof -
  let ?i = "uuid4 E (uuid_pos w)"
  let ?row = "stored_row E rid a ?i (clock w)"
  let ?w = "w\<lparr>uuid_pos := Suc (uuid_pos w), db := (db w)\<lparr>artifacts := artifacts (db w) @ [?row]\<rparr>\<rparr>"
  let ?k = "stored_key rid ?i a"
  have "local_usable E ?k ?w"
    using assms(4) by (simp add: local_usable_def is_folder_def is_file_def list_ex_iff split: sum.splits)
  then obtain res w1 where lw: "local_write E ?k (ai_content a) (Some (sha256 E (ai_content a)))
      (Some (length (ai_content a))) ?w = (Inr res, w1)"
    using local_write_usable by blast
  obtain w2 where pb: "persist_bytes E ?i ?k (ai_content a) (sha256 E (ai_content a)) ?w = (Inr True, w2)"
    and w2: "w2 = w1\<lparr>db := (db w1)\<lparr>artifacts := upd_where (\<lambda>f. f_id f = ?i \<and> f_storage_state f = Some INIT)
           (\<lambda>f. f\<lparr>f_storage_state := Some PERSISTED, f_storage_ref := Some (wr_storage_ref res),
                  f_persisted_at := Some (clock ?w)\<rparr>) (artifacts (db ?w))\<rparr>\<rparr>"
    by (rule persist_bytes_cases [of E ?k "ai_content a" "sha256 E (ai_content a)" ?w ?i])
      (use lw in auto)
  from lw obtain p where p: "resolve_path (artifact_root E) ?k = Inr p" "wr_storage_ref res = path_str p"
    "map_of (files w1) p = Some (ai_content a)" "db w1 = db ?w" by (rule local_write_ok)
  have wr: "find (writable_for rid (attempt_opts (ai_org_id a) (ai_attempt_id a) (ai_generation a)))
      (runs (db w2)) = Some r"
    and ev: "events (db w2) = events (db w)"
    using assms(5) w2 p by simp_all
  obtain w' e1 e2 where se: "store_events E rid a ?i True w2 = (Inr (new_descriptor E rid a ?i), w')"
    and log: "events (db w') = events (db w) @ [e1, e2]" "artifact_recorded ''run.artifact_ready'' rid ?i r 1 e1"
      "artifact_recorded ''artifact.persisted'' rid ?i r 2 e2"
      "dget (e_payload e2) ''checksum_sha256'' = JStr (sha256 E (ai_content a))"
    using store_events_succeed [OF wr refl, of ?i E True] assms(3) ev by auto
  let ?d = "new_descriptor E rid a ?i"
  have store: "store_artifact_bytes E rid a w = (Inr ?d, w')"
    using store_artifact_new [OF assms(1) refl] pb se by (simp add: bindE_def)
  let ?f = "?row\<lparr>f_storage_state := Some PERSISTED, f_storage_ref := Some (path_str p), f_persisted_at := Some (clock w)\<rparr>"
  have "upd_where (\<lambda>f. f_id f = ?i \<and> f_storage_state f = Some INIT) g (artifacts (db w)) = artifacts (db w)" for g
    using assms(2) by (intro upd_where_no) auto
  then have art: "artifacts (db w') = artifacts (db w) @ [?f]" and fs: "files w' = files w1"
    using store_events_keeps [OF se] w2 p by (simp_all add: upd_where_def)
  have find: "find (\<lambda>f. f_run_id f = rid \<and> f_id f = ?i) (artifacts (db w')) = Some ?f"
    using assms(2) by (simp add: art find_append find_None_all split: option.split)
      (auto dest: find_Some_set)
  obtain s where s: "path_str p = CHR ''/'' # s" using path_str_head by blast
  have "get_artifact_bytes E rid ?i w' = (Inr (Some (?f, ai_content a)), w')"
    using find p s fs
    by (simp add: get_artifact_bytes_def bindE_def catchE_def Let_def str_set_def str_or_def startswith_def
        DATA_PREFIX_def get_storage_driver_def lower_def lower_char_def LocalStorageDriver_def local_read_def
        path_exists_def is_file_def read_file_def stored_key_def)
  moreover have "?d = descriptor_of_row rid ?f"
    by (simp add: new_descriptor_def descriptor_of_row_def)
  moreover have "\<exists>e1 e2. events (db w') = events (db w) @ [e1, e2] \<and> artifact_recorded ''run.artifact_ready'' rid (de_artifact_id ?d) r 1 e1
       \<and> artifact_recorded ''artifact.persisted'' rid (de_artifact_id ?d) r 2 e2
       \<and> dget (e_payload e2) ''checksum_sha256'' = JStr (sha256 E (ai_content a))"
    using log by (intro exI [of _ e1] exI [of _ e2]) (simp add: new_descriptor_def)
  ultimately show ?thesis
    using store by (intro exI [of _ ?d] exI [of _ w'] exI [of _ ?f] conjI) (simp_all add: art)
qed

definition artifact_run :: "run_status \<Rightarrow> run_row" where
  "artifact_run st =
     \<lparr>r_id = ''run-1'', r_org_id = ''org'', r_user_id = ''user'', r_tool_name = ''writer'',
      r_skill_id = None, r_status = st, r_arguments = JObj [], r_snapshot = JObj [], r_result = None,
      r_attempt_id = Some ''att-1'', r_generation = 1, r_next_event_seq = 0, r_dispatch_id = None,
      r_idempotency_key = None, r_command_digest = None, r_lease_until = None, r_worker_id = None,
      r_requires_approval = False, r_run_session_id = None, r_created_at = 0, r_updated_at = 0\<rparr>"

definition artifact_world :: "run_status \<Rightarrow> world" where
  "artifact_world st = sample_world\<lparr>db := empty_db\<lparr>runs := [artifact_run st]\<rparr>\<rparr>"

definition sample_artifact :: artifact_input where
  "sample_artifact = \<lparr>ai_name = ''a.txt'', ai_content = ''hi'', ai_content_type = None,
     ai_org_id = Some ''org'', ai_attempt_id = None, ai_generation = None, ai_step_id = None,
     ai_upload_mode = None, ai_idempotency_key = None\<rparr>"

lemma sample_artifact_hyps:
  "find_existing_artifact sample_env ''run-1'' sample_artifact (artifact_world st) = (Inr None, artifact_world st)"
  "\<forall>f\<in>set (artifacts (db (artifact_world st))). f_id f \<noteq> uuid4 sample_env (uuid_pos (artifact_world st))"
  "\<forall>e\<in>set (events (db (artifact_world st))). e_source_event_id e
     \<noteq> Some (artifact_persisted_source_event_id (uuid4 sample_env (uuid_pos (artifact_world st))))"
  by (simp_all add: find_existing_artifact_def bindE_def artifact_world_def empty_db_def)

lemma sample_uuid0: "uuid4 sample_env 0 = ''id-0''"
  by code_simp

lemma sample_artifact_usable:
  "local_usable sample_env (stored_key ''run-1'' (uuid4 sample_env (uuid_pos (artifact_world st))) sample_artifact)
     (artifact_world st)"
proof -
  have "uuid4 sample_env (uuid_pos (artifact_world st)) = ''id-0''"
    by (simp add: sample_uuid0 artifact_world_def sample_world_def)
  moreover have "resolve_path (artifact_root sample_env) (stored_key ''run-1'' ''id-0'' sample_artifact)
      = Inr [''data'', ''artifacts'', ''run-1'', ''id-0_a.txt'']" by code_simp
  ultimately show ?thesis
    by (simp add: local_usable_def is_folder_def is_file_def list_ex_iff artifact_world_def sample_world_def
        sample_env_def)
qed

theorem stored_bytes_read_back_witness:
  "\<exists>d w' f. store_artifact_bytes sample_env ''run-1'' sample_artifact (artifact_world RUNNING) = (Inr d, w')
     \<and> get_artifact_bytes sample_env ''run-1'' (de_artifact_id d) w' = (Inr (Some (f, ''hi'')), w')
     \<and> List.map e_event_type (events (db w')) = [''run.artifact_ready'', ''artifact.persisted'']"
proof -
  have "find (writable_for ''run-1'' (attempt_opts (ai_org_id sample_artifact) (ai_attempt_id sample_artifact)
      (ai_generation sample_artifact))) (runs (db (artifact_world RUNNING))) = Some (artifact_run RUNNING)"
    by (simp add: artifact_world_def artifact_run_def writable_for_def TERMINAL_def when_given_def
        attempt_opts_def no_opts_def sample_artifact_def)
  moreover have "events (db (artifact_world RUNNING)) = []" by (simp add: artifact_world_def empty_db_def)
  ultimately show ?thesis
    using stored_bytes_read_back [OF sample_artifact_hyps sample_artifact_usable, of RUNNING "artifact_run RUNNING"]
    by (auto simp: sample_artifact_def artifact_recorded_def)
qed

text \<open>A write that the storage driver refuses is reported to the caller with the driver's own
  error, and the artifact's row is left CORRUPTED, neither listed nor readable.\<close>

theorem failed_write_is_corrupted:
  assumes "find_existing_artifact E rid a w = (Inr None, w)"
    and "\<forall>f\<in>set (artifacts (db w)). f_id f \<noteq> uuid4 E (uuid_pos w)"
    and "\<And>u. fst (local_write E (stored_key rid (uuid4 E (uuid_pos w)) a) (ai_content a)
            (Some (sha256 E (ai_content a))) (Some (length (ai_content a))) u) = Inl e"
  shows "\<exists>w'. store_artifact_bytes E rid a w = (Inl e, w')
    \<and> get_artifact_bytes E rid (uuid4 E (uuid_pos w)) w' = (Inr None, w')
    \<and> fst (list_artifacts rid w') = fst (list_artifacts rid w)
    \<and> runs (db w') = runs (db w) \<and> events (db w') = events (db w)"
proof -
  let ?i = "uuid4 E (uuid_pos w)"
  let ?row = "stored_row E rid a ?i (clock w)"
  let ?w = "w\<lparr>uuid_pos := Suc (uuid_pos w), db := (db w)\<lparr>artifacts := artifacts (db w) @ [?row]\<rparr>\<rparr>"
  let ?g = "\<lambda>f. f\<lparr>f_storage_state := Some CORRUPTED, f_state_reason := Some (py_take 500 (exn_text e))\<rparr>"
  obtain w1 where lw: "local_write E (stored_key rid ?i a) (ai_content a) (Some (sha256 E (ai_content a)))
      (Some (length (ai_content a))) ?w = (Inl e, w1)"
    using assms(3) by (metis prod.collapse)
  have db1: "db w1 = db ?w" using local_write_db [of E "stored_key rid ?i a" "ai_content a"] lw by (metis snd_conv)
  have "upd_where (\<lambda>f. f_id f = ?i) ?g (artifacts (db w)) = artifacts (db w)"
    using assms(2) by (intro upd_where_no) auto
  then have art: "upd_where (\<lambda>f. f_id f = ?i) ?g (artifacts (db ?w)) = artifacts (db w) @ [?g ?row]"
    by (simp add: upd_where_def)
  let ?v = "w1\<lparr>db := (db w1)\<lparr>artifacts := artifacts (db w) @ [?g ?row]\<rparr>\<rparr>"
  have "persist_bytes E ?i (stored_key rid ?i a) (ai_content a) (sha256 E (ai_content a)) ?w = (Inl e, ?v)"
    using lw db1 art
    by (simp add: persist_bytes_def catchE_def bindE_def LocalStorageDriver_def update_artifacts_def with_db_def)
  then have "store_artifact_bytes E rid a w = (Inl e, ?v)"
    using store_artifact_new [OF assms(1) refl] by (simp add: bindE_def)
  moreover have "find (\<lambda>f. f_run_id f = rid \<and> f_id f = ?i) (artifacts (db w)) = None"
    using assms(2) by (simp add: find_None_all)
  then have "get_artifact_bytes E rid ?i ?v = (Inr None, ?v)"
    by (simp add: get_artifact_bytes_def bindE_def find_append)
  moreover have "fst (list_artifacts rid ?v) = fst (list_artifacts rid w)"
    by (simp add: list_artifacts_def)
  ultimately show ?thesis using db1 by (intro exI [of _ ?v]) simp
qed

theorem failed_write_is_corrupted_witness:
  "\<exists>w' e. store_artifact_bytes sample_env ''../../etc/run'' sample_artifact (artifact_world RUNNING) = (Inl e, w')
     \<and> fst (list_artifacts ''../../etc/run'' w') = fst (list_artifacts ''../../etc/run'' (artifact_world RUNNING))"
proof -
  let ?w = "artifact_world RUNNING"
  have u: "uuid4 sample_env (uuid_pos ?w) = ''id-0''"
    by (simp add: sample_uuid0 artifact_world_def sample_world_def)
  have "\<exists>m. resolve_path (artifact_root sample_env) (stored_key ''../../etc/run'' ''id-0'' sample_artifact) = Inl m"
    by (intro exI, code_simp)
  then obtain m where m: "resolve_path (artifact_root sample_env) (stored_key ''../../etc/run'' ''id-0'' sample_artifact) = Inl m" ..
  have 1: "find_existing_artifact sample_env ''../../etc/run'' sample_artifact ?w = (Inr None, ?w)"
    by (simp add: find_existing_artifact_def bindE_def artifact_world_def empty_db_def)
  have 3: "fst (local_write sample_env (stored_key ''../../etc/run'' (uuid4 sample_env (uuid_pos ?w)) sample_artifact)
      (ai_content sample_artifact) (Some (sha256 sample_env (ai_content sample_artifact)))
      (Some (length (ai_content sample_artifact))) w) = Inl m" for w
    unfolding u by (simp add: local_write_def Let_def bindE_def m)
  from failed_write_is_corrupted [OF 1 sample_artifact_hyps(2) 3] show ?thesis by blast
qed

text \<open>Where row mappings are dicts, storing again is idempotent: the same name (or idempotency key)
  with the same bytes gives the existing artifact back, other bytes are refused, and nothing
  changes in either case.\<close>

theorem store_again_idempotent:
  assumes "rows_are_dicts E"
    and "find (\<lambda>f. f_run_id f = rid \<and> (if str_set (ai_idempotency_key a)
           then f_idempotency_key f = ai_idempotency_key a else f_name f = ai_name a)) (artifacts (db w)) = Some f"
  shows "store_artifact_bytes E rid a w =
    (if f_checksum f = Some (sha256 E (ai_content a)) \<and> (f_name f = [] \<or> f_name f = ai_name a)
     then (Inr (descriptor_of_row rid f), w)
     else (Inl (RuntimeError (''errors.artifact.idempotency_conflict: Artifact conflict: '' @
                 [char_of (39 :: nat)] @ ai_name a @ [char_of (39 :: nat)] @ '' already exists with different checksum'')), w))"
proof -
  have "find_existing_artifact E rid a w = (Inr (Some f), w)"
    using assms by (cases "str_set (ai_idempotency_key a)") (simp_all add: find_existing_artifact_def bindE_def)
  then show ?thesis by (simp add: store_artifact_bytes_def Let_def bindE_def)
qed

theorem store_again_idempotent_witness:
  "let w = artifact_world RUNNING;
       f = stored_row sample_env ''run-1'' sample_artifact ''id-9'' 0;
       w1 = w\<lparr>db := (db w)\<lparr>artifacts := [f]\<rparr>\<rparr>
   in store_artifact_bytes sample_env ''run-1'' sample_artifact w1 = (Inr (descriptor_of_row ''run-1'' f), w1)"
  unfolding Let_def
  by (subst store_again_idempotent [where f = "stored_row sample_env ''run-1'' sample_artifact ''id-9'' 0"])
    (simp_all add: sample_env_def sample_artifact_def str_set_def str_or_def)

text \<open>Where they are not, the check finds nothing: every upload of the same file
  appends one more artifact row.\<close>

theorem store_again_duplicates:
  assumes "\<not> rows_are_dicts E"
  shows "\<exists>row. f_run_id row = rid \<and> f_name row = ai_name a \<and> f_idempotency_key row = ai_idempotency_key a
    \<and> (\<exists>rows. length rows = length (artifacts (db w))
          \<and> artifacts (db (snd (store_artifact_bytes E rid a w))) = rows @ [row])"
proof -
  let ?i = "uuid4 E (uuid_pos w)"
  let ?row = "stored_row E rid a ?i (clock w)"
  let ?w = "w\<lparr>uuid_pos := Suc (uuid_pos w), db := (db w)\<lparr>artifacts := artifacts (db w) @ [?row]\<rparr>\<rparr>"
  have "find_existing_artifact E rid a w = (Inr None, w)"
    using assms by (simp add: find_existing_artifact_def bindE_def)
  note new = store_artifact_new [OF this refl]
  have key: "f_idempotency_key ?row = ai_idempotency_key a" by (simp add: stored_row_def)
  show ?thesis
  proof (rule persist_bytes_cases [of E "stored_key rid ?i a" "ai_content a" "sha256 E (ai_content a)" ?w ?i])
    fix res w1
    let ?c = "\<lambda>f. f_id f = ?i \<and> f_storage_state f = Some INIT"
    let ?g = "\<lambda>f. f\<lparr>f_storage_state := Some PERSISTED, f_storage_ref := Some (wr_storage_ref res),
                  f_persisted_at := Some (clock ?w)\<rparr>"
    assume p: "persist_bytes E ?i (stored_key rid ?i a) (ai_content a) (sha256 E (ai_content a)) ?w =
        (Inr (\<exists>f\<in>set (artifacts (db ?w)). f_id f = ?i \<and> f_storage_state f = Some INIT),
        w1\<lparr>db := (db w1)\<lparr>artifacts := upd_where ?c ?g (artifacts (db ?w))\<rparr>\<rparr>)"
    obtain r w' where se: "store_events E rid a ?i (\<exists>f\<in>set (artifacts (db ?w)). f_id f = ?i \<and> f_storage_state f = Some INIT)
        (w1\<lparr>db := (db w1)\<lparr>artifacts := upd_where ?c ?g (artifacts (db ?w))\<rparr>\<rparr>) = (r, w')" by fastforce
    have "artifacts (db (snd (store_artifact_bytes E rid a w))) = upd_where ?c ?g (artifacts (db w)) @ [?g ?row]"
      using new p se store_events_keeps [OF se] by (simp add: bindE_def upd_where_def)
    then show ?thesis using key
      by (intro exI [of _ "?g ?row"] conjI exI [of _ "upd_where ?c ?g (artifacts (db w))"]) simp_all
  next
    fix e w1
    let ?c = "\<lambda>f. f_id f = ?i"
    let ?g = "\<lambda>f. f\<lparr>f_storage_state := Some CORRUPTED, f_state_reason := Some (py_take 500 (exn_text e))\<rparr>"
    assume p: "persist_bytes E ?i (stored_key rid ?i a) (ai_content a) (sha256 E (ai_content a)) ?w =
        (Inl e, w1\<lparr>db := (db w1)\<lparr>artifacts := upd_where ?c ?g (artifacts (db w1))\<rparr>\<rparr>)"
      and "db w1 = db ?w"
    then have "artifacts (db (snd (store_artifact_bytes E rid a w))) = upd_where ?c ?g (artifacts (db w)) @ [?g ?row]"
      using new by (simp add: bindE_def upd_where_def)
    then show ?thesis using key
      by (intro exI [of _ "?g ?row"] conjI exI [of _ "upd_where ?c ?g (artifacts (db w))"]) simp_all
  qed
qed

theorem store_again_duplicates_witness:
  "length (artifacts (db (snd (store_artifact_bytes (sample_env\<lparr>rows_are_dicts := False\<rparr>) ''run-1''
      sample_artifact (artifact_world RUNNING))))) = 1"
proof -
  have "\<not> rows_are_dicts (sample_env\<lparr>rows_are_dicts := False\<rparr>)" by simp
  from store_again_duplicates [OF this, of "''run-1''" sample_artifact "artifact_world RUNNING"]
  show ?thesis by (auto simp: artifact_world_def empty_db_def)
qed

end
