(* ===== verification/Run_Steps.thy ===== *)
theory Run_Steps
  imports Run_Artifacts
begin

text \<open>
  The step plan of a run and its aggregation into a terminal status, from
  \<open>services/run_service.py\<close>: \<open>persist_step_plan\<close>, \<open>update_step_state\<close>,
  \<open>aggregate_run_terminal\<close>. The lemmas say what aggregation decides: cancelled only when every
  step has stopped, failed as soon as a required step has failed, completed only when all
  required steps have succeeded and every required artifact is there.
\<close>

section \<open>The plan\<close>

definition field_or :: "dict \<Rightarrow> string \<Rightarrow> string \<Rightarrow> json \<Rightarrow> json" where
  "field_or d k1 k2 dflt = or_else (dget d k1) (or_else (dget d k2) dflt)"

definition plan_step_id :: "env \<Rightarrow> dict \<Rightarrow> string op" where
  "plan_step_id E item =
     (if truthy (dget item ''step_id'') then returnE (py_str (dget item ''step_id''))
      else if truthy (dget item ''step'') then returnE (py_str (dget item ''step''))
      else bindE (fresh_uuid E) (\<lambda>u. returnE (''step_'' @ py_take 8 (hex_of_uuid u))))"

definition plan_row ::
  "string \<Rightarrow> string \<Rightarrow> string \<Rightarrow> string option \<Rightarrow> int \<Rightarrow> int \<Rightarrow> dict \<Rightarrow> step_row" where
  "plan_row run_id step_uuid step_id attempt_id run_generation now item =
     \<lparr>st_id = step_uuid, st_run_id = run_id, st_step_id = step_id,
      st_owner_role = py_str (field_or item ''role'' ''owner_role'' (JStr ''central'')),
      st_engine = py_str (or_else (dget item ''engine'') (JStr ''hermes'')),
      st_status = STEP_PENDING,
      st_depends_on = field_or item ''dependencies'' ''depends_on'' (JList []),
      st_required = (if has_key item ''required'' then truthy (dget item ''required'') else True),
      st_required_artifacts = or_else (dget item ''required_artifacts'') (JList []),
      st_attempt_id = attempt_id, st_run_generation = run_generation, st_edge_job_id = None,
      st_version = 1, st_result = None, st_error_message = None,
      st_created_at = now, st_updated_at = now\<rparr>"

text \<open>\<open>INSERT \<dots> ON CONFLICT (run_id, step_id) DO NOTHING\<close>.\<close>

definition insert_step_once :: "step_row \<Rightarrow> unit op" where
  "insert_step_once s = (\<lambda>w.
     if list_ex (\<lambda>x. st_run_id x = st_run_id s \<and> st_step_id x = st_step_id s) (steps (db w))
     then (Inr (), w) else insert_step s w)"

definition run_steps :: "string \<Rightarrow> step_row list op" where
  "run_steps run_id = getsE (\<lambda>w. order_by st_created_at (steps_of w run_id))"

definition persist_step_plan ::
  "env \<Rightarrow> string \<Rightarrow> dict list \<Rightarrow> string option \<Rightarrow> int \<Rightarrow> step_row list op" where
  "persist_step_plan E run_id step_plan attempt_id run_generation =
     bindE (run_steps run_id) (\<lambda>existing.
     if existing \<noteq> [] then returnE existing
     else
       bindE now_op (\<lambda>now.
       mapE step_plan (\<lambda>item.
         bindE (plan_step_id E item) (\<lambda>step_id.
         bindE (fresh_uuid E) (\<lambda>step_uuid.
         let row = plan_row run_id step_uuid step_id attempt_id run_generation now item in
         thenE (insert_step_once row) (returnE row))))))"

record step_update =
  up_attempt_id :: "string option"
  up_run_generation :: "int option"
  up_edge_job_id :: "string option"
  up_result :: "json option"
  up_error_message :: "string option"
  up_expected :: "step_status list option"

definition no_update :: step_update where
  "no_update = \<lparr>up_attempt_id = None, up_run_generation = None, up_edge_job_id = None,
     up_result = None, up_error_message = None, up_expected = None\<rparr>"

definition update_step_state :: "string \<Rightarrow> string \<Rightarrow> step_status \<Rightarrow> step_update \<Rightarrow> bool op" where
  "update_step_state run_id step_id st u =
     bindE now_op (\<lambda>now.
     bindE (update_steps
       (\<lambda>s. st_run_id s = run_id \<and> st_step_id s = step_id
            \<and> when_given (up_expected u) (\<lambda>es. st_status s \<in> set es))
       (\<lambda>s. s\<lparr>st_status := st, st_version := Suc (st_version s),
              st_attempt_id := coalesce (up_attempt_id u) (st_attempt_id s),
              st_run_generation := (case up_run_generation u of None \<Rightarrow> st_run_generation s | Some g \<Rightarrow> g),
              st_edge_job_id := coalesce (up_edge_job_id u) (st_edge_job_id s),
              st_result := coalesce (up_result u) (st_result s),
              st_error_message := coalesce (up_error_message u) (st_error_message s),
              st_updated_at := now\<rparr>))
       (\<lambda>rowcount. returnE (rowcount > 0)))"

section \<open>Aggregation\<close>

definition AGGREGATE_TERMINAL_FROM :: "run_status list" where
  "AGGREGATE_TERMINAL_FROM = [RUNNING, WAITING_EDGE, PREPARING, RESUMING, QUEUED, WAITING_APPROVAL]"

definition step_stopped :: "step_row \<Rightarrow> bool" where
  "step_stopped s \<longleftrightarrow> st_status s \<in> {STEP_SUCCEEDED, STEP_FAILED, STEP_CANCELLED}"

definition failed_required :: "step_row list \<Rightarrow> step_row list" where
  "failed_required ss = filter (\<lambda>s. st_required s \<and> st_status s = STEP_FAILED) ss"

definition all_required_succeeded :: "step_row list \<Rightarrow> bool" where
  "all_required_succeeded ss \<longleftrightarrow>
     filter st_required ss \<noteq> [] \<and> (\<forall>s\<in>set (filter st_required ss). st_status s = STEP_SUCCEEDED)"

definition step_artifacts :: "step_row \<Rightarrow> json list" where
  "step_artifacts s =
     (case or_else (st_required_artifacts s) (JList []) of
        JList xs \<Rightarrow> xs | JStr n \<Rightarrow> [JStr n] | _ \<Rightarrow> [])"

definition all_required_artifacts :: "step_row list \<Rightarrow> json list" where
  "all_required_artifacts ss = concat (List.map step_artifacts ss)"

text \<open>A dict or list in a membership test on a set is not hashable.\<close>

definition missing_artifacts :: "json list \<Rightarrow> descriptor list \<Rightarrow> exn + json list" where
  "missing_artifacts required ds =
     (let names = List.map (\<lambda>d. JStr (de_name d))
            (filter (\<lambda>d. str_set (de_checksum d) \<and> de_storage_state d = ''persisted'') ds)
      in if list_ex (\<lambda>j. is_dict j \<or> is_list j) required
         then Inl (OtherError ''unhashable type'')
         else Inr (filter (\<lambda>n. n \<notin> set names) required))"

fun combine_results :: "step_row list \<Rightarrow> dict \<Rightarrow> dict" where
  "combine_results [] acc = acc"
| "combine_results (s # ss) acc =
     (case st_result s of
        None \<Rightarrow> combine_results ss acc
      | Some JNull \<Rightarrow> combine_results ss acc
      | Some (JObj d) \<Rightarrow> combine_results ss (dict_update acc d)
      | Some j \<Rightarrow> combine_results ss (AList.update (st_step_id s) j acc))"

definition result_text :: "dict \<Rightarrow> string" where
  "result_text d =
     py_str (or_else (dget d ''content'') (or_else (dget d ''summary'') (JStr (dumps_default (JObj d)))))"

definition aggregate_opts :: "string option \<Rightarrow> run_status list \<Rightarrow> dict \<Rightarrow> status_opts" where
  "aggregate_opts org es result = (expect org es)\<lparr>so_result := Some (JObj result)\<rparr>"

text \<open>A compare-and-set to a terminal status, its event when it went through, and the run.\<close>

definition finish_run ::
  "env \<Rightarrow> string \<Rightarrow> string option \<Rightarrow> run_status \<Rightarrow> status_opts \<Rightarrow> string \<Rightarrow> dict \<Rightarrow> unit op \<Rightarrow> run_view option op"
where
  "finish_run E run_id org_id st opts event_type payload after =
     bindE (set_status run_id st opts) (\<lambda>ok.
     thenE (whenE ok (thenE (append_terminal_event E run_id event_type payload org_id) after))
       (get_run run_id org_id))"

definition fail_for_step :: "env \<Rightarrow> string \<Rightarrow> string option \<Rightarrow> step_row \<Rightarrow> run_view option op" where
  "fail_for_step E run_id org_id s =
     (let first_err = str_or (st_error_message s) ''required step failed'' in
      finish_run E run_id org_id FAILED
        (aggregate_opts org_id AGGREGATE_TERMINAL_FROM
          [(''error'', JStr first_err), (''failed_step_id'', JStr (st_step_id s))])
        ''run.failed'' [(''status'', JStr ''FAILED''), (''error'', JStr first_err)] (returnE ()))"

definition fail_for_artifacts :: "env \<Rightarrow> string \<Rightarrow> string option \<Rightarrow> json list \<Rightarrow> run_view option op" where
  "fail_for_artifacts E run_id org_id missing =
     finish_run E run_id org_id FAILED
       (aggregate_opts org_id AGGREGATE_TERMINAL_FROM
         [(''error'', JStr ''ARTIFACT_PERSIST_FAILED''), (''error_code'', JStr ''ARTIFACT_PERSIST_FAILED''),
          (''missing_artifacts'', JList missing)])
       ''run.failed''
       [(''status'', JStr ''FAILED''), (''error_code'', JStr ''ARTIFACT_PERSIST_FAILED''),
        (''missing_artifacts'', JList missing)] (returnE ())"

definition complete_run ::
  "env \<Rightarrow> string \<Rightarrow> string option \<Rightarrow> string option \<Rightarrow> int option \<Rightarrow> dict \<Rightarrow> run_view option op" where
  "complete_run E run_id org_id attempt_id generation combined =
     finish_run E run_id org_id COMPLETED (aggregate_opts org_id AGGREGATE_TERMINAL_FROM combined)
       ''run.completed'' combined
       (catchE
         (thenE (store_artifact_bytes E run_id
            \<lparr>ai_name = ''result.txt'', ai_content = result_text combined,
             ai_content_type = Some ''text/plain; charset=utf-8'', ai_org_id = org_id,
             ai_attempt_id = attempt_id, ai_generation = generation, ai_step_id = None,
             ai_upload_mode = Some ''eager'', ai_idempotency_key = None\<rparr>) (returnE ()))
         (\<lambda>_. returnE ()))"

definition aggregate_steps ::
  "env \<Rightarrow> string \<Rightarrow> string option \<Rightarrow> string option \<Rightarrow> int option \<Rightarrow> run_view \<Rightarrow> step_row list \<Rightarrow> run_view option op"
where
  "aggregate_steps E run_id org_id attempt_id generation v ss =
     (if ss = [] then returnE (Some v)
      else if v_status v = CANCELLING then
        (if \<forall>s\<in>set ss. step_stopped s
         then finish_run E run_id org_id CANCELLED (expect org_id [CANCELLING])
                ''run.cancelled'' [(''status'', JStr ''CANCELLED'')] (returnE ())
         else returnE (Some v))
      else
        (case failed_required ss of
           s # _ \<Rightarrow> fail_for_step E run_id org_id s
         | [] \<Rightarrow>
             if \<not> all_required_succeeded ss then returnE (Some v)
             else
               bindE (if all_required_artifacts ss = [] then returnE []
                      else bindE (list_artifacts run_id)
                             (\<lambda>ds. liftE (missing_artifacts (all_required_artifacts ss) ds)))
               (\<lambda>missing.
                if missing \<noteq> [] then fail_for_artifacts E run_id org_id missing
                else complete_run E run_id org_id attempt_id generation (combine_results ss []))))"

definition aggregate_run_terminal ::
  "env \<Rightarrow> string \<Rightarrow> string option \<Rightarrow> string option \<Rightarrow> int option \<Rightarrow> run_view option op" where
  "aggregate_run_terminal E run_id org_id attempt_id generation =
     bindE (get_run run_id org_id) (\<lambda>run.
     case run of
       None \<Rightarrow> returnE None
     | Some v \<Rightarrow>
         if terminal (v_status v) then returnE run
         else bindE (run_steps run_id) (aggregate_steps E run_id org_id attempt_id generation v))"

section \<open>Guarantees\<close>

lemma step_ops_same_log:
  "guar same_log (insert_step_once s)" "guar same_log (run_steps rid)" "guar same_log (plan_step_id E item)"
  "guar same_log (update_step_state rid sid st u)"
proof -
  show "guar same_log (insert_step_once s)"
    by (simp add: guar_def insert_step_once_def insert_step_def with_db_def same_log_def)
  show "guar same_log (run_steps rid)" unfolding run_steps_def by (intro sl.guar_rules)
  show "guar same_log (plan_step_id E item)"
    unfolding plan_step_id_def by (intro sl.guar_rules guar_intros)
  show "guar same_log (update_step_state rid sid st u)"
    unfolding update_step_state_def by (intro sl.guar_rules guar_intros)
qed

lemma persist_plan_same_log: "guar same_log (persist_step_plan E rid plan att gen)"
  unfolding persist_step_plan_def by (intro sl.guar_rules guar_intros step_ops_same_log)

lemmas step_guar [guar_intros] = step_ops_same_log persist_plan_same_log
  step_ops_same_log [THEN guar_same_log] persist_plan_same_log [THEN guar_same_log]
  list_artifacts_same_log [THEN guar_same_log]

lemma cas_safe_aggregate [simp]:
  "cas_safe st (aggregate_opts org es r) \<longleftrightarrow> (\<forall>s\<in>set es. \<not> terminal s)"
  by (simp add: aggregate_opts_def cas_safe_def expect_def)

lemma aggregate_from_live: "\<forall>s\<in>set AGGREGATE_TERMINAL_FROM. \<not> terminal s"
  by (simp add: AGGREGATE_TERMINAL_FROM_def TERMINAL_def)

lemma finish_run_safe [guar_intros]:
  "cas_safe st opts \<Longrightarrow> guar safe after \<Longrightarrow> guar safe (finish_run E rid org st opts ty p after)"
  unfolding finish_run_def by (intro sw.guar_rules guar_intros)

lemma aggregate_safe [guar_intros]: "guar safe (aggregate_run_terminal E rid org att gen)"
  unfolding aggregate_run_terminal_def aggregate_steps_def fail_for_step_def fail_for_artifacts_def complete_run_def
  by (intro sw.guar_rules guar_intros) (simp_all add: AGGREGATE_TERMINAL_FROM_def TERMINAL_def)

section \<open>What aggregation decides\<close>

text \<open>The statuses of all runs unchanged.\<close>

definition same_status :: "world \<Rightarrow> world \<Rightarrow> bool" where
  "same_status w w' \<longleftrightarrow> (\<forall>rid. status_of w' rid = status_of w rid)
     \<and> List.map r_id (runs (db w')) = List.map r_id (runs (db w))"

interpretation st: guarantee same_status
  by unfold_locales (auto simp: same_status_def)

lemma same_log_same_status: "guar same_log m \<Longrightarrow> guar same_status m"
  by (simp add: guar_def same_log_def same_status_def status_of_def find_run_def)

lemma alloc_same_status: "guar same_status (alloc_event_seq rid opts)"
  by (auto simp: guar_def alloc_event_seq_def Let_def same_status_def status_of_def find_run_def
      with_db_def find_upd_where map_option_case map_upd_where split: option.splits)

lemma insert_event_same_status: "guar same_status (insert_event e)"
  by (simp add: guar_def stmt_defs modifyE_def same_status_def status_of_def find_run_def)

lemma append_event_same_status: "guar same_status (append_event E rid ty p opts)"
proof -
  have "guar same_status (write_event E rid ty p opts)" for p
    unfolding write_event_def
    by (intro st.guar_rules alloc_same_status insert_event_same_status
        same_log_stmts [THEN same_log_same_status])
  then show ?thesis
    unfolding append_event_def
    by (intro st.guar_rules same_log_stmts [THEN same_log_same_status]
        snapshot_trace_id_same_log [THEN same_log_same_status])
qed

lemma append_terminal_same_status: "guar same_status (append_terminal_event E rid ty p org)"
  unfolding append_terminal_event_def
  by (intro st.guar_rules append_event_same_status drop_runtime_error_same_log [THEN same_log_same_status])

lemma store_artifact_same_status: "guar same_status (store_artifact_bytes E rid a)"
  unfolding store_artifact_bytes_def store_events_def
  by (intro st.guar_rules append_event_same_status same_log_stmts [THEN same_log_same_status]
      persist_bytes_same_log [THEN same_log_same_status] find_existing_same_log [THEN same_log_same_status])

text \<open>The compare-and-set on one run.\<close>


lemma finish_run_status:
  assumes "distinct (List.map r_id (runs (db w)))" and "find_run w rid = Some r" and "so_attempt_id opts = None"
    and "guar same_status after"
    and "finish_run E rid org st opts ty p after w = (Inr v, w')"
  shows "status_of w' rid = Some (if status_for rid st opts r then st else r_status r)"
proof -
  obtain w1 where w1: "set_status rid st opts w = (Inr (status_for rid st opts r), w1)"
    "status_of w1 rid = Some (if status_for rid st opts r then st else r_status r)"
    using set_status_effect [OF assms(1-3)] by blast
  have "guar same_status (thenE (whenE b (thenE (append_terminal_event E rid ty p org) after)) (get_run rid org))" for b
    by (intro st.guar_rules append_terminal_same_status assms(4) get_run_same_log [THEN same_log_same_status])
  from guarD [OF this, of w1] show ?thesis
    using w1 assms(5) by (simp add: finish_run_def bindE_def same_status_def) (metis snd_conv)
qed

lemma append_event_errors:
  assumes "\<not> str_given (o_source_event_id opts)" and "append_event E rid ty p opts w = (Inl e, w')"
  shows "e = stale_write"
proof -
  have k: "known_event w rid opts = None" using assms(1) by (rule known_event_none)
  show ?thesis
  proof (cases "find (writable_for rid opts) (runs (db w))")
    case None
    from append_event_refused [OF k None] assms(2) show ?thesis by simp
  next
    case (Some r)
    from append_event_some [OF k Some refl, of E ty p] assms(2) show ?thesis by auto
  qed
qed

lemma append_terminal_returns: "\<exists>w'. append_terminal_event E rid ty p org w = (Inr (), w')"
proof -
  obtain r w1 where r: "append_event E rid ty p (org_opts org) w = (r, w1)" by fastforce
  have no: "\<not> str_given (o_source_event_id (org_opts org))"
    by (simp add: org_opts_def no_opts_def str_given_def)
  show ?thesis
  proof (cases r)
    case (Inl e)
    with append_event_errors [OF no] r have "e = stale_write" by blast
    with r Inl show ?thesis
      by (simp add: append_terminal_event_def catchE_def thenE_def bindE_def drop_runtime_error_def stale_write_def)
  next
    case (Inr v)
    with r show ?thesis by (simp add: append_terminal_event_def catchE_def thenE_def bindE_def)
  qed
qed

text \<open>The specification: what the status of the run becomes.\<close>

definition live_to :: "run_status \<Rightarrow> run_status \<Rightarrow> run_status" where
  "live_to st target = (if st \<in> set AGGREGATE_TERMINAL_FROM then target else st)"

definition aggregate_spec :: "run_status \<Rightarrow> step_row list \<Rightarrow> bool \<Rightarrow> run_status" where
  "aggregate_spec st ss artifacts_missing =
     (if terminal st \<or> ss = [] then st
      else if st = CANCELLING then (if \<forall>s\<in>set ss. step_stopped s then CANCELLED else CANCELLING)
      else if \<exists>s\<in>set ss. st_required s \<and> st_status s = STEP_FAILED then live_to st FAILED
      else if (\<exists>s\<in>set ss. st_required s) \<and> (\<forall>s\<in>set ss. st_required s \<longrightarrow> st_status s = STEP_SUCCEEDED)
        then live_to st (if artifacts_missing then FAILED else COMPLETED)
      else st)"

definition artifacts_missing :: "string \<Rightarrow> step_row list \<Rightarrow> world \<Rightarrow> bool" where
  "artifacts_missing rid ss w \<longleftrightarrow>
     (\<exists>n\<in>set (all_required_artifacts ss). \<forall>f\<in>set (artifacts (db w)).
        f_run_id f = rid \<and> f_storage_state f \<in> {Some PERSISTED, None} \<and> str_set (f_checksum f)
        \<longrightarrow> JStr (f_name f) \<noteq> n)"

lemma missing_artifacts_spec:
  assumes "fst (list_artifacts rid w) = Inr ds" and "missing_artifacts req ds = Inr ms"
  shows "ms \<noteq> [] \<longleftrightarrow> (\<exists>n\<in>set req. \<forall>f\<in>set (artifacts (db w)).
        f_run_id f = rid \<and> f_storage_state f \<in> {Some PERSISTED, None} \<and> str_set (f_checksum f)
        \<longrightarrow> JStr (f_name f) \<noteq> n)"
proof -
  have ds: "ds = List.map (descriptor_of_row rid) (order_by f_created_at
      (filter (\<lambda>f. f_run_id f = rid \<and> f_storage_state f \<in> {Some PERSISTED, None}) (artifacts (db w))))"
    using assms(1) by (simp add: list_artifacts_def)
  have persisted: "artifact_state_str (f_storage_state f) = ''persisted''"
    if "f_storage_state f \<in> {Some PERSISTED, None}" for f
    using that by auto
  have "set (List.map (\<lambda>d. JStr (de_name d))
          (filter (\<lambda>d. str_set (de_checksum d) \<and> de_storage_state d = ''persisted'') ds))
      = {JStr (f_name f) |f. f \<in> set (artifacts (db w)) \<and> f_run_id f = rid
          \<and> f_storage_state f \<in> {Some PERSISTED, None} \<and> str_set (f_checksum f)}"
    unfolding ds
    by (simp add: filter_map comp_def order_by_def descriptor_of_row_def image_image) (auto simp: persisted)
  then have "ms = filter (\<lambda>n. n \<notin> {JStr (f_name f) |f. f \<in> set (artifacts (db w)) \<and> f_run_id f = rid
          \<and> f_storage_state f \<in> {Some PERSISTED, None} \<and> str_set (f_checksum f)}) req" (is "ms = filter (\<lambda>n. n \<notin> ?S) req")
    using assms(2) by (simp only: missing_artifacts_def Let_def split: if_splits) simp_all
  then have "ms \<noteq> [] \<longleftrightarrow> (\<exists>n\<in>set req. n \<notin> ?S)"
    by (simp only: filter_empty_conv) blast
  also have "\<dots> \<longleftrightarrow> (\<exists>n\<in>set req. \<forall>f\<in>set (artifacts (db w)).
        f_run_id f = rid \<and> f_storage_state f \<in> {Some PERSISTED, None} \<and> str_set (f_checksum f)
        \<longrightarrow> JStr (f_name f) \<noteq> n)"
    by (intro bex_cong refl) blast
  finally show ?thesis .
qed

lemma find_unique:
  assumes "x \<in> set xs" and "P x" and "\<And>y. y \<in> set xs \<Longrightarrow> P y \<Longrightarrow> y = x"
  shows "find P xs = Some x"
proof (cases "find P xs")
  case None
  with assms(1,2) show ?thesis by (simp add: find_None_all)
next
  case (Some y)
  have "y = x" using assms(3) [of y] find_Some_set [OF Some] by blast
  with Some show ?thesis by (simp only:)
qed

lemma get_run_found:
  assumes "distinct (List.map r_id (runs (db w)))" and "find_run w rid = Some r"
  shows "get_run rid (Some (r_org_id r)) w = (Inr (Some (view_of_run r)), w)"
proof -
  have r: "r_id r = rid" "r \<in> set (runs (db w))" using find_run_id [OF assms(2)] by simp_all
  have "find (\<lambda>x. r_id x = rid \<and> Some (r_org_id x) = Some (r_org_id r)) (runs (db w)) = Some r"
  proof (rule find_unique)
    fix y assume "y \<in> set (runs (db w))" and "r_id y = rid \<and> Some (r_org_id y) = Some (r_org_id r)"
    then show "y = r" using distinct_map_inj [OF assms(1) _ r(2), of y] r(1) by metis
  qed (use r in simp_all)
  then show ?thesis by (simp add: get_run_def bindE_def)
qed

lemma status_for_aggregate:
  "r_id r = rid \<Longrightarrow> status_for rid st (aggregate_opts (Some (r_org_id r)) AGGREGATE_TERMINAL_FROM d) r
     \<longleftrightarrow> r_status r \<in> set AGGREGATE_TERMINAL_FROM"
  "r_id r = rid \<Longrightarrow> status_for rid st (expect (Some (r_org_id r)) es) r \<longleftrightarrow> r_status r \<in> set es"
  by (simp_all add: status_for_def aggregate_opts_def expect_def when_given_def)

lemma finish_run_live:
  assumes "distinct (List.map r_id (runs (db w)))" and "find_run w rid = Some r" and "guar same_status after"
    and "finish_run E rid (Some (r_org_id r)) st
      (aggregate_opts (Some (r_org_id r)) AGGREGATE_TERMINAL_FROM d) ty p after w = (Inr v, w')"
  shows "status_of w' rid = Some (live_to (r_status r) st)"
proof -
  let ?o = "aggregate_opts (Some (r_org_id r)) AGGREGATE_TERMINAL_FROM d"
  have "so_attempt_id ?o = None" by (simp add: aggregate_opts_def expect_def)
  from finish_run_status [OF assms(1,2) this assms(3,4)] find_run_id [OF assms(2)]
  show ?thesis by (simp add: status_for_aggregate live_to_def)
qed

lemma failed_required_Cons:
  "failed_required ss = s # rest \<Longrightarrow> \<exists>s\<in>set ss. st_required s \<and> st_status s = STEP_FAILED"
  "failed_required ss = [] \<Longrightarrow> \<not> (\<exists>s\<in>set ss. st_required s \<and> st_status s = STEP_FAILED)"
proof -
  have "set (failed_required ss) = {s \<in> set ss. st_required s \<and> st_status s = STEP_FAILED}"
    by (auto simp: failed_required_def)
  then show "failed_required ss = s # rest \<Longrightarrow> \<exists>s\<in>set ss. st_required s \<and> st_status s = STEP_FAILED"
    "failed_required ss = [] \<Longrightarrow> \<not> (\<exists>s\<in>set ss. st_required s \<and> st_status s = STEP_FAILED)"
    by auto
qed

lemma all_required_iff:
  "all_required_succeeded ss \<longleftrightarrow>
     (\<exists>s\<in>set ss. st_required s) \<and> (\<forall>s\<in>set ss. st_required s \<longrightarrow> st_status s = STEP_SUCCEEDED)"
  by (auto simp: all_required_succeeded_def filter_empty_conv)

lemma aggregate_status:
  assumes "distinct (List.map r_id (runs (db w)))" and "find_run w rid = Some r"
    and "aggregate_run_terminal E rid (Some (r_org_id r)) att gen w = (Inr v, w')"
  shows "status_of w' rid = Some (aggregate_spec (r_status r) (order_by st_created_at (steps_of w rid))
            (artifacts_missing rid (order_by st_created_at (steps_of w rid)) w))"
proof -
  let ?ss = "order_by st_created_at (steps_of w rid)"
  let ?org = "Some (r_org_id r)"
  have st: "status_of w rid = Some (r_status r)" using assms(2) by (simp add: status_of_def)
  have rid: "r_id r = rid" using find_run_id [OF assms(2)] by simp
  have gr: "get_run rid ?org w = (Inr (Some (view_of_run r)), w)"
    by (rule get_run_found [OF assms(1,2)])
  have vs: "v_status (view_of_run r) = r_status r" by (simp add: view_of_run_def)
  note agg = assms(3) [unfolded aggregate_run_terminal_def aggregate_steps_def bindE_run [where m = "get_run rid ?org", OF gr]
      option.case vs]
  consider (settled) "terminal (r_status r) \<or> ?ss = []"
    | (cancelling) "\<not> terminal (r_status r)" "?ss \<noteq> []" "r_status r = CANCELLING"
    | (live) "\<not> terminal (r_status r)" "?ss \<noteq> []" "r_status r \<noteq> CANCELLING"
    by blast
  then show ?thesis
  proof cases
    case settled
    then show ?thesis using agg st
      by (auto simp: run_steps_def bindE_def aggregate_spec_def split: if_splits)
  next
    case cancelling
    show ?thesis
    proof (cases "\<forall>s\<in>set ?ss. step_stopped s")
      case True
      with cancelling agg have fin: "finish_run E rid ?org CANCELLED (expect ?org [CANCELLING])
          ''run.cancelled'' [(''status'', JStr ''CANCELLED'')] (returnE ()) w = (Inr v, w')"
        by (simp add: run_steps_def bindE_def)
      have "so_attempt_id (expect ?org [CANCELLING]) = None" by (simp add: expect_def)
      from finish_run_status [OF assms(1,2) this st.guar_return fin] show ?thesis
        using cancelling True rid by (simp add: status_for_aggregate aggregate_spec_def)
    next
      case False
      with cancelling agg st show ?thesis by (auto simp: run_steps_def bindE_def aggregate_spec_def)
    qed
  next
    case live
    show ?thesis
    proof (cases "failed_required ?ss")
      case (Cons s rest)
      with agg live have "finish_run E rid ?org FAILED
          (aggregate_opts ?org AGGREGATE_TERMINAL_FROM
            [(''error'', JStr (str_or (st_error_message s) ''required step failed'')), (''failed_step_id'', JStr (st_step_id s))])
          ''run.failed'' [(''status'', JStr ''FAILED''), (''error'', JStr (str_or (st_error_message s) ''required step failed''))]
          (returnE ()) w = (Inr v, w')"
        by (simp add: run_steps_def bindE_def fail_for_step_def Let_def)
      from finish_run_live [OF assms(1,2) st.guar_return this] show ?thesis
        using live failed_required_Cons(1) [OF Cons] by (simp add: aggregate_spec_def)
    next
      case Nil
      show ?thesis
      proof (cases "all_required_succeeded ?ss")
        case False
        with agg st live Nil show ?thesis
          using failed_required_Cons(2) [OF Nil]
          by (auto simp: run_steps_def bindE_def aggregate_spec_def all_required_iff)
      next
        case True
        have spec: "aggregate_spec (r_status r) ?ss b = live_to (r_status r) (if b then FAILED else COMPLETED)" for b
          using live True by (auto simp: aggregate_spec_def all_required_iff)
        have "(if all_required_artifacts ?ss = [] then returnE []
            else bindE (list_artifacts rid) (\<lambda>ds. liftE (missing_artifacts (all_required_artifacts ?ss) ds))) w
          = (m, w)" if "m = (if all_required_artifacts ?ss = [] then Inr []
              else missing_artifacts (all_required_artifacts ?ss) (projr (fst (list_artifacts rid w))))" for m
          using that by (simp add: list_artifacts_def bindE_def)
        then obtain ms where ms: "(if all_required_artifacts ?ss = [] then Inr []
              else missing_artifacts (all_required_artifacts ?ss) (projr (fst (list_artifacts rid w)))) = Inr ms"
          and fin: "(if ms \<noteq> [] then fail_for_artifacts E rid ?org ms
                     else complete_run E rid ?org att gen (combine_results ?ss [])) w = (Inr v, w')"
          using agg live Nil True by (auto simp: run_steps_def bindE_def split: sum.splits)
        have "ms \<noteq> [] \<longleftrightarrow> artifacts_missing rid ?ss w"
        proof (cases "all_required_artifacts ?ss = []")
          case True
          with ms show ?thesis by (simp add: artifacts_missing_def)
        next
          case False
          then show ?thesis
            using ms missing_artifacts_spec [of rid w "projr (fst (list_artifacts rid w))" "all_required_artifacts ?ss" ms]
            by (simp add: artifacts_missing_def list_artifacts_def)
        qed
        moreover have "status_of w' rid = Some (live_to (r_status r) (if ms \<noteq> [] then FAILED else COMPLETED))"
        proof (cases "ms = []")
          case False
          with fin show ?thesis
            unfolding fail_for_artifacts_def using finish_run_live [OF assms(1,2) st.guar_return] by simp
        next
          case True
          have g: "guar same_status (catchE (thenE (store_artifact_bytes E rid a) (returnE ())) (\<lambda>_. returnE ()))" for a
            by (intro st.guar_rules store_artifact_same_status)
          have "complete_run E rid ?org att gen (combine_results ?ss []) w = (Inr v, w')"
            using fin True by simp
          from finish_run_live [OF assms(1,2) g this [unfolded complete_run_def]] show ?thesis
            using True by simp
        qed
        ultimately show ?thesis using spec by simp
      qed
    qed
  qed
qed

lemma total_close_external: "total (close_external_session_if_present rid org)"
  unfolding close_external_session_if_present_def get_run_def by (intro total_rules total_stmts)

lemma total_set_status: "so_attempt_id opts = None \<Longrightarrow> total (set_status rid st opts)"
  unfolding set_status_def by (simp, intro total_rules total_stmts total_close_external)

lemma total_append_terminal: "total (append_terminal_event E rid ty p org)"
  using append_terminal_returns by (auto simp: total_def)

lemma total_finish_run: "so_attempt_id opts = None \<Longrightarrow> total after \<Longrightarrow> total (finish_run E rid org st opts ty p after)"
  unfolding finish_run_def get_run_def
  by (intro total_rules total_stmts total_set_status total_append_terminal)

lemma no_attempt_opts [simp]:
  "so_attempt_id (expect org es) = None" "so_attempt_id (aggregate_opts org es d) = None"
  by (simp_all add: expect_def aggregate_opts_def)

lemma aggregate_returns:
  assumes "\<forall>n\<in>set (all_required_artifacts (order_by st_created_at (steps_of w rid))). \<not> is_dict n \<and> \<not> is_list n"
  shows "\<exists>v w'. aggregate_run_terminal E rid org att gen w = (Inr v, w')"
proof -
  let ?ss = "order_by st_created_at (steps_of w rid)"
  have missing: "\<exists>ms. missing_artifacts (all_required_artifacts ?ss) ds = Inr ms" for ds
    using assms by (auto simp: missing_artifacts_def Let_def list_ex_iff)
  have fs: "total (fail_for_step E rid org s)" for s
    unfolding fail_for_step_def by (intro total_rules total_finish_run) simp
  have fa: "total (fail_for_artifacts E rid org ms)" for ms
    unfolding fail_for_artifacts_def by (intro total_rules total_finish_run) simp
  have cr: "total (complete_run E rid org att gen d)" for d
    unfolding complete_run_def by (intro total_rules total_finish_run total_catch) simp
  have ms: "total (if all_required_artifacts ?ss = [] then returnE []
      else bindE (list_artifacts rid) (\<lambda>ds. liftE (missing_artifacts (all_required_artifacts ?ss) ds)))"
    unfolding list_artifacts_def using missing by (intro total_rules) (auto simp: total_def)
  have fin: "total (finish_run E rid org CANCELLED (expect org [CANCELLING]) ''run.cancelled'' p (returnE ()))" for p
    by (intro total_finish_run total_return) simp
  have steps: "total (aggregate_steps E rid org att gen v ?ss)" for v
    unfolding aggregate_steps_def by (intro total_rules fs fa cr ms fin)
  have gr: "get_run rid org w = (Inr (map_option view_of_run (find (\<lambda>r. r_id r = rid \<and> Some (r_org_id r) = org) (runs (db w)))), w)"
    by (simp add: get_run_def bindE_def)
  have rs: "run_steps rid w = (Inr ?ss, w)" by (simp add: run_steps_def)
  show ?thesis
    unfolding aggregate_run_terminal_def bindE_run [where m = "get_run rid org", OF gr]
    using totalD [OF steps] by (auto simp: bindE_run [where m = "run_steps rid", OF rs] split: option.split)
qed

section \<open>No event is recorded\<close>

definition quiet :: "string \<Rightarrow> world \<Rightarrow> world \<Rightarrow> bool" where
  "quiet rid w w' \<longleftrightarrow> (distinct (List.map r_id (runs (db w))) \<longrightarrow>
     distinct (List.map r_id (runs (db w'))) \<and> events_of w' rid = events_of w rid)"

interpretation qu: guarantee "quiet rid" for rid
  by unfold_locales (auto simp: quiet_def)

lemma same_log_quiet: "guar same_log m \<Longrightarrow> guar (quiet rid) m"
  by (simp add: guar_def same_log_def quiet_def events_of_def)

lemma set_status_none:
  assumes "find_run w rid = None" and "so_attempt_id opts = None"
  shows "set_status rid st opts w = (Inr False, w)"
proof -
  have no: "\<forall>r\<in>set (runs (db w)). \<not> status_for rid st opts r"
    using assms(1) by (auto simp: find_run_def find_None_all status_for_def)
  then have "upd_where (status_for rid st opts) f (runs (db w)) = runs (db w)" for f
    by (intro upd_where_no) auto
  moreover have "count_where (status_for rid st opts) (runs (db w)) = 0" using no by (simp add: count_where_0)
  ultimately show ?thesis
    by (simp add: set_status_def bindE_def update_runs_def with_db_def assms(2))
qed

lemma finish_run_quiet:
  assumes "terminal st" and "so_attempt_id opts = None" and "guar safe after"
  shows "guar (quiet rid) (finish_run E rid org st opts ty p after)"
proof -
  have "events_of (snd (finish_run E rid org st opts ty p after w)) rid = events_of w rid
      \<and> distinct (List.map r_id (runs (db (snd (finish_run E rid org st opts ty p after w)))))"
    if d: "distinct (List.map r_id (runs (db w)))" for w
  proof (cases "find_run w rid")
    case None
    then show ?thesis
      using d by (simp add: finish_run_def bindE_def set_status_none assms(2) thenE_def whenE_def get_run_def)
  next
    case (Some r)
    obtain w1 where w1: "set_status rid st opts w = (Inr (status_for rid st opts r), w1)"
      "db w1 = (db w)\<lparr>runs := upd_where (status_for rid st opts) (after_status st opts (clock w)) (runs (db w))\<rparr>"
      "status_of w1 rid = Some (if status_for rid st opts r then st else r_status r)"
      using set_status_effect [OF d Some assms(2)] by blast
    have d1: "distinct (List.map r_id (runs (db w1)))"
      using d w1(2) by (simp add: map_upd_where after_status_def)
    have e1: "events_of w1 rid = events_of w rid" using w1(2) by (simp add: events_of_def)
    let ?rest = "\<lambda>b. thenE (whenE b (thenE (append_terminal_event E rid ty p org) after)) (get_run rid org)"
    have run: "finish_run E rid org st opts ty p after w = ?rest (status_for rid st opts r) w1"
      by (simp add: finish_run_def bindE_run [where m = "set_status rid st opts", OF w1(1)])
    have safe: "guar safe (?rest b)" for b
      by (intro sw.guar_rules guar_intros assms(3))
    show ?thesis
    proof (cases "status_for rid st opts r")
      case True
      from guarD [OF safe [of True], of w1] d1 w1(3) True assms(1) e1 run show ?thesis
        by (simp add: safe_def frozen_def)
    next
      case False
      with run d1 e1 show ?thesis by (simp add: thenE_def whenE_def bindE_def get_run_def)
    qed
  qed
  then show ?thesis by (simp add: guar_def quiet_def)
qed

lemma aggregate_quiet: "guar (quiet rid) (aggregate_run_terminal E rid org att gen)"
  unfolding aggregate_run_terminal_def aggregate_steps_def fail_for_step_def fail_for_artifacts_def complete_run_def
  by (intro qu.guar_rules finish_run_quiet get_run_same_log [THEN same_log_quiet]
      step_ops_same_log(2) [THEN same_log_quiet] list_artifacts_same_log [THEN same_log_quiet]
      sw.guar_rules store_artifact_safe) (simp_all add: TERMINAL_def)

section \<open>Properties\<close>

text \<open>C28: Aggregation implements its specification: it returns, and the status the run has afterwards
  is the one determined by its status before, its steps and its required artifacts.\<close>

theorem aggregate_refines_spec:
  assumes "distinct (List.map r_id (runs (db w)))" and "find_run w rid = Some r"
    and "ss = order_by st_created_at (steps_of w rid)"
    and "\<forall>n\<in>set (all_required_artifacts ss). \<not> is_dict n \<and> \<not> is_list n"
  shows "\<exists>v w'. aggregate_run_terminal E rid (Some (r_org_id r)) att gen w = (Inr v, w')
    \<and> status_of w' rid = Some (aggregate_spec (r_status r) ss (artifacts_missing rid ss w))"
proof -
  obtain v w' where "aggregate_run_terminal E rid (Some (r_org_id r)) att gen w = (Inr v, w')"
    using aggregate_returns assms(3,4) by blast
  with aggregate_status [OF assms(1,2) this] show ?thesis by (auto simp: assms(3))
qed

definition step_row_of :: "string \<Rightarrow> step_status \<Rightarrow> step_row" where
  "step_row_of sid st = (plan_row ''run-1'' sid sid None 1 0 [])\<lparr>st_status := st\<rparr>"

definition two_step_world :: "step_status \<Rightarrow> world" where
  "two_step_world st = sample_world\<lparr>db := empty_db\<lparr>runs := [artifact_run RUNNING],
     steps := [step_row_of ''s1'' STEP_SUCCEEDED, step_row_of ''s2'' st]\<rparr>\<rparr>"

lemma two_step_facts:
  "distinct (List.map r_id (runs (db (two_step_world st))))"
  "find_run (two_step_world st) ''run-1'' = Some (artifact_run RUNNING)"
  "order_by st_created_at (steps_of (two_step_world st) ''run-1'') = [step_row_of ''s1'' STEP_SUCCEEDED, step_row_of ''s2'' st]"
  by (simp_all add: two_step_world_def find_run_def artifact_run_def steps_of_def step_row_of_def plan_row_def order_by_def)

theorem aggregate_refines_spec_witness:
  "\<exists>v w'. aggregate_run_terminal sample_env ''run-1'' (Some (r_org_id (artifact_run RUNNING))) None None
     (two_step_world STEP_FAILED) = (Inr v, w') \<and> status_of w' ''run-1'' = Some FAILED"
proof -
  let ?ss = "[step_row_of ''s1'' STEP_SUCCEEDED, step_row_of ''s2'' STEP_FAILED]"
  have art: "\<forall>n\<in>set (all_required_artifacts ?ss). \<not> is_dict n \<and> \<not> is_list n"
    by (simp add: all_required_artifacts_def step_artifacts_def step_row_of_def plan_row_def or_else_def)
  have "aggregate_spec (r_status (artifact_run RUNNING)) ?ss b = FAILED" for b
    by (simp add: aggregate_spec_def artifact_run_def TERMINAL_def step_row_of_def plan_row_def live_to_def
        AGGREGATE_TERMINAL_FROM_def)
  with aggregate_refines_spec [OF two_step_facts(1,2) two_step_facts(3) [symmetric] art]
  show ?thesis by simp
qed

text \<open>No aggregation ever records an event for the run: its terminal event is written after the
  status has become terminal, which closes the log, so \<open>run.completed\<close>, \<open>run.failed\<close> and
  \<open>run.cancelled\<close> are dropped, and so are the events of the stored result.\<close>

theorem aggregate_records_no_event:
  assumes "distinct (List.map r_id (runs (db w)))"
  shows "events_of (snd (aggregate_run_terminal E rid org att gen w)) rid = events_of w rid"
  using guarD [OF aggregate_quiet [of rid E org att gen], of w] assms by (simp add: quiet_def)

theorem aggregate_records_no_event_witness:
  "events_of (snd (aggregate_run_terminal sample_env ''run-1'' (Some ''org'') None None
     (two_step_world STEP_SUCCEEDED))) ''run-1'' = []"
  using aggregate_records_no_event [OF two_step_facts(1), where E = sample_env and rid = "''run-1''"]
  by (simp add: two_step_world_def events_of_def empty_db_def)

end
