(* ===== verification/Runtime_Binding.thy ===== *)
theory Runtime_Binding
  imports Run_Events
begin

text \<open>
  The binding of an attempt to the runtime run that executes it, from
  \<open>services/run_service.py\<close>: \<open>get_runtime_binding\<close>, \<open>persist_runtime_binding\<close>,
  \<open>mark_runtime_terminal\<close>. The binding is written at most once per attempt: a second runtime run is never bound, and a caller
  of another generation changes nothing.
\<close>

record binding =
  b_runtime_type :: "string option"
  b_runtime_version :: "string option"
  b_runtime_run_id :: "string option"
  b_runtime_session_id :: "string option"
  b_runtime_profile :: "string option"
  b_capability_snapshot :: "json option"
  b_idempotency_key :: "string option"
  b_bound_at :: "int option"
  b_terminal_at :: "int option"
  b_generation :: int

definition runtime_binding_from_row :: "attempt_row \<Rightarrow> binding" where
  "runtime_binding_from_row t =
     \<lparr>b_runtime_type = t_runtime_type t, b_runtime_version = t_runtime_version t,
      b_runtime_run_id = t_runtime_run_id t, b_runtime_session_id = t_runtime_session_id t,
      b_runtime_profile = t_runtime_profile t,
      b_capability_snapshot = t_runtime_capability_snapshot t,
      b_idempotency_key = t_runtime_idempotency_key t, b_bound_at = t_runtime_bound_at t,
      b_terminal_at = t_runtime_terminal_at t, b_generation = t_generation t\<rparr>"

definition get_runtime_binding :: "string \<Rightarrow> binding option op" where
  "get_runtime_binding attempt_id =
     bindE (select_attempt (\<lambda>t. t_id t = attempt_id))
       (\<lambda>row. returnE (map_option runtime_binding_from_row row))"

record binding_input =
  bi_runtime_run_id :: string
  bi_runtime_type :: string
  bi_runtime_version :: "string option"
  bi_runtime_session_id :: "string option"
  bi_runtime_profile :: "string option"
  bi_capability_snapshot :: "json option"
  bi_idempotency_key :: "string option"

definition bindable :: "string \<Rightarrow> int \<Rightarrow> string \<Rightarrow> attempt_row \<Rightarrow> bool" where
  "bindable attempt_id generation rrid t \<longleftrightarrow>
     t_id t = attempt_id \<and> t_generation t = generation
     \<and> (t_runtime_run_id t = None \<or> t_runtime_run_id t = Some rrid)"

definition bind_row :: "binding_input \<Rightarrow> binding \<Rightarrow> int \<Rightarrow> attempt_row \<Rightarrow> attempt_row" where
  "bind_row b existing now t =
     t\<lparr>t_runtime_type := Some (bi_runtime_type b),
       t_runtime_version := bi_runtime_version b,
       t_runtime_run_id := Some (bi_runtime_run_id b),
       t_runtime_session_id := bi_runtime_session_id b,
       t_runtime_profile := bi_runtime_profile b,
       t_runtime_capability_snapshot :=
         (case bi_capability_snapshot b of None \<Rightarrow> b_capability_snapshot existing | Some s \<Rightarrow> Some s),
       t_runtime_idempotency_key :=
         (if str_set (bi_idempotency_key b) then bi_idempotency_key b else b_idempotency_key existing),
       t_runtime_bound_at := (case b_bound_at existing of None \<Rightarrow> Some now | Some t \<Rightarrow> Some t),
       t_updated_at := now\<rparr>"

definition persist_runtime_binding :: "string \<Rightarrow> int \<Rightarrow> binding_input \<Rightarrow> binding option op" where
  "persist_runtime_binding attempt_id generation b =
     bindE (get_runtime_binding attempt_id) (\<lambda>existing_opt.
     case existing_opt of
       None \<Rightarrow> returnE None
     | Some existing \<Rightarrow>
         if b_generation existing \<noteq> generation then returnE None
         else if str_set (b_runtime_run_id existing)
                 \<and> b_runtime_run_id existing \<noteq> Some (bi_runtime_run_id b)
         then returnE (Some existing)
         else
           bindE now_op (\<lambda>now.
           bindE (update_attempts (bindable attempt_id generation (bi_runtime_run_id b))
                    (bind_row b existing now)) (\<lambda>rowcount.
           if rowcount = 0
           then returnE (if str_set (b_runtime_run_id existing) then Some existing else None)
           else get_runtime_binding attempt_id)))"

definition mark_runtime_terminal :: "string \<Rightarrow> int \<Rightarrow> bool op" where
  "mark_runtime_terminal attempt_id generation =
     bindE now_op (\<lambda>now.
     bindE (update_attempts (\<lambda>t. t_id t = attempt_id \<and> t_generation t = generation \<and> t_runtime_run_id t \<noteq> None)
              (\<lambda>t. t\<lparr>t_runtime_terminal_at := Some now, t_updated_at := now\<rparr>))
       (\<lambda>rowcount. returnE (rowcount > 0)))"

section \<open>Guarantees\<close>

lemma binding_same_log:
  "guar same_log (get_runtime_binding att)" "guar same_log (persist_runtime_binding att gen b)"
  "guar same_log (mark_runtime_terminal att gen)"
proof -
  show g: "guar same_log (get_runtime_binding att)" for att
    unfolding get_runtime_binding_def by (intro sl.guar_rules guar_intros)
  show "guar same_log (persist_runtime_binding att gen b)"
    unfolding persist_runtime_binding_def by (intro sl.guar_rules guar_intros g)
  show "guar same_log (mark_runtime_terminal att gen)"
    unfolding mark_runtime_terminal_def by (intro sl.guar_rules guar_intros)
qed

lemmas binding_guar [guar_intros] = binding_same_log
  binding_same_log [THEN guar_same_log]

text \<open>A non-empty runtime run identifier, once bound, stays.\<close>

definition bound_run :: "world \<Rightarrow> string \<Rightarrow> string option" where
  "bound_run w att = (case find (\<lambda>t. t_id t = att) (attempts (db w)) of
     None \<Rightarrow> None | Some t \<Rightarrow> t_runtime_run_id t)"

definition binding_kept :: "world \<Rightarrow> world \<Rightarrow> bool" where
  "binding_kept w w' \<longleftrightarrow> (\<forall>att r. bound_run w att = Some r \<longrightarrow> r \<noteq> [] \<longrightarrow> bound_run w' att = Some r)"

interpretation bk: guarantee binding_kept
  by unfold_locales (auto simp: binding_kept_def)

lemma update_attempts_binding_kept:
  assumes "\<And>t. t_id (f t) = t_id t"
    and "\<And>t r. c t \<Longrightarrow> t_runtime_run_id t = Some r \<Longrightarrow> r \<noteq> [] \<Longrightarrow> t_runtime_run_id (f t) = Some r"
  shows "guar binding_kept (update_attempts c f)"
  using assms
  by (auto simp: guar_def update_attempts_def with_db_def binding_kept_def bound_run_def find_upd_where
      split: option.splits)

lemma persist_binding_kept: "guar binding_kept (persist_runtime_binding att gen b)"
proof -
  have "guar binding_kept (update_attempts (bindable att gen (bi_runtime_run_id b)) (bind_row b ex now))" for ex now
    by (intro update_attempts_binding_kept) (auto simp: bind_row_def bindable_def)
  moreover have "guar binding_kept (get_runtime_binding att)" "guar binding_kept now_op"
    by (simp_all add: guar_def get_runtime_binding_def bindE_def binding_kept_def)
  ultimately show ?thesis
    unfolding persist_runtime_binding_def by (intro bk.guar_rules)
qed

lemma mark_terminal_binding_kept: "guar binding_kept (mark_runtime_terminal att gen)"
proof -
  have "guar binding_kept now_op" by (simp add: guar_def binding_kept_def)
  then show ?thesis
    unfolding mark_runtime_terminal_def
    by (intro bk.guar_rules update_attempts_binding_kept) simp_all
qed

section \<open>Properties\<close>

text \<open>A binding is write-once: whatever is asked, an attempt bound to a runtime run stays bound
  to it; and a request for another generation, or for another runtime run, changes nothing.\<close>

theorem runtime_binding_write_once:
  shows "bound_run w att = Some r \<Longrightarrow> r \<noteq> [] \<Longrightarrow>
      bound_run (snd (persist_runtime_binding att' gen b w)) att = Some r
      \<and> bound_run (snd (mark_runtime_terminal att' gen w)) att = Some r
      \<and> (find (\<lambda>t. t_id t = att) (attempts (db w)) = Some t
          \<and> (t_generation t \<noteq> gen \<or> r \<noteq> bi_runtime_run_id b)
        \<longrightarrow> snd (persist_runtime_binding att gen b w) = w)"
proof -
  assume r: "bound_run w att = Some r" "r \<noteq> []"
  have "binding_kept w (snd (persist_runtime_binding att' gen b w))"
    "binding_kept w (snd (mark_runtime_terminal att' gen w))"
    by (rule guarD, rule persist_binding_kept, rule guarD, rule mark_terminal_binding_kept)
  then show ?thesis
    using r by (auto simp: binding_kept_def persist_runtime_binding_def get_runtime_binding_def bindE_def
        bound_run_def runtime_binding_from_row_def str_set_def str_or_def)
qed

definition sample_attempt :: attempt_row where
  "sample_attempt =
     \<lparr>t_id = ''att-1'', t_run_id = ''run-1'', t_attempt_no = 1, t_generation = 1, t_worker_id = ''worker-1'',
      t_status = ATT_RUNNING, t_lease_until = None, t_started_at = 0, t_heartbeat_at = 0,
      t_completed_at = None, t_error_message = None, t_runtime_type = None, t_runtime_version = None,
      t_runtime_run_id = None, t_runtime_session_id = None, t_runtime_profile = None,
      t_runtime_capability_snapshot = None, t_runtime_idempotency_key = None, t_runtime_bound_at = None,
      t_runtime_terminal_at = None, t_created_at = 0, t_updated_at = 0\<rparr>"

definition bound_world :: world where
  "bound_world = sample_world\<lparr>db := empty_db\<lparr>attempts := [sample_attempt\<lparr>t_runtime_run_id := Some ''rt-1''\<rparr>]\<rparr>\<rparr>"

definition sample_binding :: "string \<Rightarrow> binding_input" where
  "sample_binding rrid =
     \<lparr>bi_runtime_run_id = rrid, bi_runtime_type = ''hermes'', bi_runtime_version = None,
      bi_runtime_session_id = None, bi_runtime_profile = None, bi_capability_snapshot = None,
      bi_idempotency_key = None\<rparr>"

theorem runtime_binding_write_once_witness:
  "bound_run (snd (persist_runtime_binding ''att-1'' 1 (sample_binding ''rt-2'') bound_world)) ''att-1'' = Some ''rt-1''"
proof -
  have "bound_run bound_world ''att-1'' = Some ''rt-1''"
    by (simp add: bound_run_def bound_world_def sample_attempt_def)
  from runtime_binding_write_once [OF this] show ?thesis by simp
qed

text \<open>Binding a fresh attempt of the right generation succeeds and reads back: the runtime run, its
  session and the time of binding are what was asked.\<close>

theorem runtime_binding_first_bind:
  assumes "find (\<lambda>t. t_id t = att) (attempts (db w)) = Some t"
    and "t_generation t = gen" and "t_runtime_run_id t = None" and "t_runtime_bound_at t = None"
    and "distinct (List.map t_id (attempts (db w)))"
  shows "\<exists>v w'. persist_runtime_binding att gen b w = (Inr (Some v), w')
    \<and> get_runtime_binding att w' = (Inr (Some v), w')
    \<and> b_runtime_run_id v = Some (bi_runtime_run_id b) \<and> b_generation v = gen
    \<and> b_runtime_session_id v = bi_runtime_session_id b \<and> b_bound_at v = Some (clock w)"
proof -
  have t: "t \<in> set (attempts (db w))" "t_id t = att" using find_Some_set [OF assms(1)] by simp_all
  have bindable: "bindable att gen (bi_runtime_run_id b) t" using t assms by (simp add: bindable_def)
  then have "count_where (bindable att gen (bi_runtime_run_id b)) (attempts (db w)) \<noteq> 0"
    using t by (auto simp: count_where_0)
  moreover have "find (\<lambda>t. t_id t = att) (upd_where (bindable att gen (bi_runtime_run_id b))
      (bind_row b (runtime_binding_from_row t) (clock w)) (attempts (db w)))
      = Some (bind_row b (runtime_binding_from_row t) (clock w) t)"
    using assms(1) bindable by (simp add: find_upd_where bind_row_def)
  ultimately show ?thesis
    using assms
    by (simp add: persist_runtime_binding_def get_runtime_binding_def bindE_def update_attempts_def with_db_def
        runtime_binding_from_row_def str_set_def str_or_def) (simp add: bind_row_def)
qed

theorem runtime_binding_first_bind_witness:
  "\<exists>v w'. persist_runtime_binding ''att-1'' 1 (sample_binding ''rt-1'')
      (sample_world\<lparr>db := empty_db\<lparr>attempts := [sample_attempt]\<rparr>\<rparr>) = (Inr (Some v), w')
    \<and> b_runtime_run_id v = Some ''rt-1''"
proof -
  let ?w = "sample_world\<lparr>db := empty_db\<lparr>attempts := [sample_attempt]\<rparr>\<rparr>"
  have "find (\<lambda>t. t_id t = ''att-1'') (attempts (db ?w)) = Some sample_attempt"
    and "t_generation sample_attempt = 1" and "t_runtime_run_id sample_attempt = None"
    and "t_runtime_bound_at sample_attempt = None" and "distinct (List.map t_id (attempts (db ?w)))"
    by (simp_all add: sample_attempt_def)
  from runtime_binding_first_bind [OF this, of "sample_binding ''rt-1''"] show ?thesis
    by (auto simp: sample_binding_def)
qed

end
