(* ===== verification/Hermes_Control.thy ===== *)
theory Hermes_Control
  imports Runtime_Binding
begin

text \<open>
  The control calls to a Hermes runtime from \<open>services/hermes_engine.py\<close>: answering an
  approval (\<open>respond_runtime_approval\<close>), stopping a run (\<open>stop_runtime_attempt\<close>), asking for
  its state (\<open>inspect_runtime_terminal\<close>), with the mapping of HTTP statuses and runtime states
  to error codes and terminal events. The lemmas: a command is only sent to the runtime run the
  attempt is bound to, under the generation it was bound in.
\<close>

section \<open>Codes and choices\<close>

definition RUNTIME_STATE_UNAVAILABLE :: string where
  "RUNTIME_STATE_UNAVAILABLE = ''RUNTIME_STATE_UNAVAILABLE''"

definition map_http_status :: "int \<Rightarrow> bool \<Rightarrow> bool \<Rightarrow> bool \<Rightarrow> string" where
  "map_http_status status_code start stream stop =
     (if status_code \<in> {401, 403} then ''RUNTIME_UNAUTHORIZED''
      else if status_code \<in> {409, 429} then ''RUNTIME_CAPACITY_EXCEEDED''
      else if status_code \<in> {400, 422} then ''RUNTIME_PROTOCOL_INVALID''
      else if stop then ''RUNTIME_STOP_FAILED''
      else if stream then ''RUNTIME_EVENT_STREAM_FAILED''
      else if start then ''RUNTIME_START_FAILED''
      else ''RUNTIME_START_FAILED'')"

definition normalize_hermes_approval_choice :: "string option \<Rightarrow> exn + string" where
  "normalize_hermes_approval_choice raw =
     (let v = lower (strip (str_or raw [])) in
      if v \<in> {''session'', ''always''} then Inl (ValueError ''client_approval_choice_forbidden'')
      else if v \<in> {''approve'', ''approved'', ''once'', ''allow''} then Inr ''once''
      else if v \<in> {''deny'', ''denied'', ''reject''} then Inr ''deny''
      else Inl (ValueError ''invalid_approval_choice''))"

section \<open>What a snapshot says\<close>

definition runtime_policy :: "dict \<Rightarrow> dict" where
  "runtime_policy data = dict_of (dget data ''runtime_policy'')"

definition rstrip_slash :: "string \<Rightarrow> string" where
  "rstrip_slash = rstrip_of (\<lambda>c. c = CHR ''/'')"

definition gateway_from_snapshot :: "dict \<Rightarrow> string" where
  "gateway_from_snapshot data =
     (let policy = runtime_policy data in
      rstrip_slash (py_str
        (or_else (dget policy ''gateway_url'')
        (or_else (dget data ''gateway_url'')
        (or_else (dget policy ''hermes_base_url'')
        (or_else (dget data ''hermes_base_url'') (JStr [])))))))"

definition snapshot_lease_ref :: "dict \<Rightarrow> dict option" where
  "snapshot_lease_ref data =
     (case or_else (dget data ''credential_lease_ref'')
                   (dget (runtime_policy data) ''credential_lease_ref'') of
        JObj ref \<Rightarrow> Some ref
      | _ \<Rightarrow> None)"

definition control_generation :: "int \<Rightarrow> binding option \<Rightarrow> int" where
  "control_generation run_generation binding =
     (if run_generation \<noteq> 0 then run_generation
      else case binding of None \<Rightarrow> 0 | Some b \<Rightarrow> b_generation b)"

section \<open>Authorisation\<close>

definition fetch_credential_lease :: "env \<Rightarrow> string \<Rightarrow> string \<Rightarrow> string \<Rightarrow> dict \<Rightarrow> json op" where
  "fetch_credential_lease E org_id run_id attempt_id lease_ref =
     bindE (http_op E ''POST''
        (rstrip_slash (central_base_url E) @ ''/api/v1/internal/v1/skill-agent/credentials/mint'')
        [(''X-Skill-Agent-Token'', JStr (internal_token E)), (''X-Exec-Org-Id'', JStr org_id),
         (''Content-Type'', JStr ''application/json'')]
        (JObj [(''run_id'', JStr run_id), (''attempt_id'', JStr attempt_id),
               (''instance_id'', dget lease_ref ''instance_id''),
               (''agent_profile'', dget lease_ref ''agent_profile''),
               (''scope'', or_else (dget lease_ref ''scope'') (JStr ''hermes:invoke'')),
               (''target'', dget lease_ref ''target'')]))
       (\<lambda>resp. returnE (case resp of
          Response code (Some body) \<Rightarrow> if code = 200 then body else JNull
        | _ \<Rightarrow> JNull))"

text \<open>\<open>.get\<close> on a value that is no dict raises.\<close>

definition minted_token :: "json \<Rightarrow> exn + json" where
  "minted_token minted =
     (if \<not> truthy minted then Inr JNull
      else case minted of JObj d \<Rightarrow> Inr (dget d ''token'')
           | _ \<Rightarrow> Inl (OtherError ''object has no attribute get''))"

definition runtime_control_headers ::
  "env \<Rightarrow> dict \<Rightarrow> string \<Rightarrow> string \<Rightarrow> string \<Rightarrow> dict op" where
  "runtime_control_headers E snapshot org_id run_id attempt_id =
     (let out = [(''Content-Type'', JStr ''application/json'')] in
      case snapshot_lease_ref snapshot of
        None \<Rightarrow> returnE out
      | Some ref \<Rightarrow>
          if ref = [] \<or> org_id = [] \<or> run_id = [] \<or> attempt_id = [] then returnE out
          else
            bindE (fetch_credential_lease E org_id run_id attempt_id ref) (\<lambda>minted.
            bindE (liftE (minted_token minted)) (\<lambda>token.
            returnE (if truthy token
                     then out @ [(''Authorization'', JStr (''Bearer '' @ py_str token))] else out))))"

section \<open>Commands\<close>

record control_target =
  ct_attempt_id :: string
  ct_generation :: int
  ct_gateway_url :: string
  ct_runtime_run_id :: string
  ct_snapshot :: dict
  ct_org_id :: string
  ct_run_id :: string

text \<open>The run a command goes to, \<open>None\<close> when it is fenced off.\<close>

definition fence :: "control_target \<Rightarrow> binding option \<Rightarrow> string option" where
  "fence c binding =
     (case binding of
        None \<Rightarrow> None
      | Some b \<Rightarrow>
          if b_generation b = 0 \<or> control_generation (ct_generation c) (Some b) \<noteq> b_generation b then None
          else
            let bound_id = str_or (b_runtime_run_id b) [];
                target = (if ct_runtime_run_id c \<noteq> [] then ct_runtime_run_id c else bound_id)
            in if target = [] \<or> (bound_id \<noteq> [] \<and> bound_id \<noteq> target) then None else Some target)"

definition run_url :: "string \<Rightarrow> string \<Rightarrow> string" where
  "run_url gateway target = gateway @ ''/v1/runs/'' @ target"

definition control_headers :: "env \<Rightarrow> control_target \<Rightarrow> dict op" where
  "control_headers E c =
     runtime_control_headers E (ct_snapshot c) (ct_org_id c) (ct_run_id c) (ct_attempt_id c)"

definition respond_runtime_approval :: "env \<Rightarrow> control_target \<Rightarrow> string option \<Rightarrow> string option op" where
  "respond_runtime_approval E c choice =
     bindE (liftE (normalize_hermes_approval_choice choice)) (\<lambda>mapped.
     bindE (get_runtime_binding (ct_attempt_id c)) (\<lambda>binding.
     case fence c binding of
       None \<Rightarrow> returnE (Some ''fenced'')
     | Some target \<Rightarrow>
         bindE (control_headers E c) (\<lambda>auth_headers.
         bindE (http_op E ''POST'' (run_url (rstrip_slash (ct_gateway_url c)) target @ ''/approval'')
                  auth_headers (JObj [(''choice'', JStr mapped)])) (\<lambda>resp.
         case resp of
           Unreachable \<Rightarrow> returnE (Some ''RUNTIME_UNREACHABLE'')
         | HttpFault m \<Rightarrow> raiseE (OtherError m)
         | Response code _ \<Rightarrow>
             if code = 404 then returnE (Some RUNTIME_STATE_UNAVAILABLE)
             else if code \<ge> 400 then returnE (Some (map_http_status code False False False))
             else returnE None))))"

definition stop_runtime ::
  "env \<Rightarrow> string \<Rightarrow> string \<Rightarrow> dict \<Rightarrow> string \<Rightarrow> int \<Rightarrow> string option op" where
  "stop_runtime E gateway_url runtime_run_id headers attempt_id generation =
     bindE (get_runtime_binding attempt_id) (\<lambda>binding.
     case binding of
       None \<Rightarrow> returnE None
     | Some b \<Rightarrow>
         if b_generation b \<noteq> generation then returnE None
         else if str_set (b_runtime_run_id b) \<and> b_runtime_run_id b \<noteq> Some runtime_run_id then returnE None
         else
           bindE (http_op E ''POST'' (run_url gateway_url runtime_run_id @ ''/stop'') headers JNull) (\<lambda>resp.
           case resp of
             Unreachable \<Rightarrow> returnE (Some ''RUNTIME_STOP_FAILED'')
           | HttpFault m \<Rightarrow> raiseE (OtherError m)
           | Response code _ \<Rightarrow>
               if code = 404 then returnE (Some ''stop_404'')
               else if code \<ge> 400 then returnE (Some (map_http_status code False False True))
               else returnE None))"

definition stop_runtime_attempt :: "env \<Rightarrow> control_target \<Rightarrow> string option op" where
  "stop_runtime_attempt E c =
     bindE (get_runtime_binding (ct_attempt_id c)) (\<lambda>binding.
     case fence c binding of
       None \<Rightarrow> returnE (Some ''fenced'')
     | Some target \<Rightarrow>
         bindE (control_headers E c) (\<lambda>auth_headers.
         stop_runtime E (rstrip_slash (ct_gateway_url c)) target auth_headers (ct_attempt_id c)
           (control_generation (ct_generation c) binding)))"

section \<open>The state of a runtime run\<close>

definition extract_runtime_run_id :: "json \<Rightarrow> string option" where
  "extract_runtime_run_id j =
     (if \<not> is_dict j then None
      else
        let data = dict_of j; nested = dict_of (dget data ''data'');
            rid = or_else (dget data ''id'') (or_else (dget data ''run_id'')
                    (or_else (dget nested ''id'') (dget nested ''run_id'')))
        in if truthy rid then Some (py_str rid) else None)"

definition extract_status :: "json \<Rightarrow> string" where
  "extract_status j =
     (if \<not> is_dict j then []
      else
        let data = dict_of j; nested = dict_of (dget data ''data'');
            raw = or_else (dget data ''status'') (or_else (dget nested ''status'') (JStr []))
        in lower (strip (py_str raw)))"

definition reconcile_status ::
  "env \<Rightarrow> string \<Rightarrow> string \<Rightarrow> dict \<Rightarrow> (string \<times> dict option \<times> string option) op" where
  "reconcile_status E gateway_url runtime_run_id headers =
     bindE (http_op E ''GET'' (run_url gateway_url runtime_run_id) headers JNull) (\<lambda>resp.
     case resp of
       Unreachable \<Rightarrow> returnE ([], None, Some ''RUNTIME_UNREACHABLE'')
     | HttpFault m \<Rightarrow> raiseE (OtherError m)
     | Response code body \<Rightarrow>
         if code = 404 then returnE (''not_found'', None, Some RUNTIME_STATE_UNAVAILABLE)
         else if code \<in> {401, 403} then returnE ([], None, Some ''RUNTIME_UNAUTHORIZED'')
         else if code \<ge> 400 then returnE ([], None, Some RUNTIME_STATE_UNAVAILABLE)
         else
           (case body of
              None \<Rightarrow> returnE ([], None, Some ''RUNTIME_PROTOCOL_INVALID'')
            | Some j \<Rightarrow> returnE (extract_status j, if is_dict j then Some (dict_of j) else None, None)))"

record engine_event =
  en_event_type :: string
  en_payload :: dict

definition failed_event :: "string \<Rightarrow> string \<Rightarrow> engine_event" where
  "failed_event code message =
     \<lparr>en_event_type = ''run.failed'', en_payload = [(''error'', JStr message), (''error_code'', JStr code)]\<rparr>"

definition terminal_from_status :: "string \<Rightarrow> string option \<Rightarrow> engine_event option" where
  "terminal_from_status status error_code =
     (if error_code = Some RUNTIME_STATE_UNAVAILABLE \<or> status \<in> {''not_found'', ''run_not_found''}
      then Some (failed_event RUNTIME_STATE_UNAVAILABLE ''Hermes runtime run state is unavailable'')
      else if error_code = Some ''RUNTIME_INTERRUPTED'' \<or> status = ''interrupted''
      then Some (failed_event ''RUNTIME_INTERRUPTED'' ''Hermes runtime run was interrupted'')
      else if str_set error_code
      then Some (failed_event (str_or error_code []) ''Hermes runtime status reconciliation failed'')
      else if status \<in> {''completed'', ''succeeded'', ''success''}
      then Some \<lparr>en_event_type = ''run.completed'',
                 en_payload = [(''summary'', JStr ''hermes native run completed'')]\<rparr>
      else if status \<in> {''failed'', ''error''}
      then Some (failed_event ''RUNTIME_START_FAILED'' ''Hermes runtime run failed'')
      else if status \<in> {''cancelled'', ''canceled''}
      then Some \<lparr>en_event_type = ''run.cancelled'',
                 en_payload = [(''message'', JStr ''hermes native run cancelled'')]\<rparr>
      else None)"

definition inspect_runtime_terminal :: "env \<Rightarrow> control_target \<Rightarrow> engine_event option op" where
  "inspect_runtime_terminal E c =
     bindE (get_runtime_binding (ct_attempt_id c)) (\<lambda>binding.
     case fence c binding of
       None \<Rightarrow> returnE None
     | Some target \<Rightarrow>
         bindE (control_headers E c) (\<lambda>auth_headers.
         bindE (reconcile_status E (rstrip_slash (ct_gateway_url c)) target auth_headers)
           (\<lambda>(status, data, rec_code). returnE (terminal_from_status status rec_code))))"

section \<open>Guarantees\<close>

lemma binding_same_db: "guar same_db (get_runtime_binding att)"
  unfolding get_runtime_binding_def by (intro sd.guar_rules same_db_stmts)

lemma control_same_db:
  "guar same_db (control_headers E c)" "guar same_db (respond_runtime_approval E c choice)"
  "guar same_db (stop_runtime E g r h a n)" "guar same_db (stop_runtime_attempt E c)"
  "guar same_db (inspect_runtime_terminal E c)"
proof -
  show h: "guar same_db (control_headers E c)" for c
    unfolding control_headers_def runtime_control_headers_def fetch_credential_lease_def
    by (intro sd.guar_rules same_db_stmts)
  show "guar same_db (respond_runtime_approval E c choice)"
    unfolding respond_runtime_approval_def by (intro sd.guar_rules same_db_stmts binding_same_db h guar_case_http)
  show stop: "guar same_db (stop_runtime E g r hs a n)" for g r hs a n
    unfolding stop_runtime_def by (intro sd.guar_rules same_db_stmts binding_same_db guar_case_http)
  show "guar same_db (stop_runtime_attempt E c)"
    unfolding stop_runtime_attempt_def by (intro sd.guar_rules same_db_stmts binding_same_db h stop)
  show "guar same_db (inspect_runtime_terminal E c)"
    unfolding inspect_runtime_terminal_def reconcile_status_def by (intro sd.guar_rules same_db_stmts binding_same_db h guar_case_http)
qed

lemmas control_guar [guar_intros] = control_same_db [THEN guar_same_db]
  control_same_db [THEN guar_same_db, THEN guar_same_log]

section \<open>Fencing\<close>

text \<open>What a command that is not fenced knows about its target.\<close>

lemma fence_Some:
  assumes "fence c (Some b) = Some target"
  shows "b_generation b \<noteq> 0" and "ct_generation c \<noteq> 0 \<Longrightarrow> ct_generation c = b_generation b"
    and "str_set (b_runtime_run_id b) \<Longrightarrow> b_runtime_run_id b = Some target"
  using assms
  by (auto simp: fence_def control_generation_def str_set_def str_or_def Let_def split: if_splits option.splits)

lemma binding_sends: "guar (sends P) (get_runtime_binding att)"
  by (simp add: guar_def get_runtime_binding_def bindE_def sends_def)

text \<open>A request for a credential lease, and a command to one run of the runtime.\<close>

definition mint_request :: "env \<Rightarrow> ext_call \<Rightarrow> bool" where
  "mint_request E x \<longleftrightarrow> (\<exists>hs body. x = HttpRequest ''POST''
     (rstrip_slash (central_base_url E) @ ''/api/v1/internal/v1/skill-agent/credentials/mint'') hs body)"

definition approval_command :: "control_target \<Rightarrow> string \<Rightarrow> ext_call \<Rightarrow> bool" where
  "approval_command c target x \<longleftrightarrow> (\<exists>hs ch. ch \<in> {''once'', ''deny''} \<and>
     x = HttpRequest ''POST'' (run_url (rstrip_slash (ct_gateway_url c)) target @ ''/approval'') hs
           (JObj [(''choice'', JStr ch)]))"

definition stop_command :: "control_target \<Rightarrow> string \<Rightarrow> ext_call \<Rightarrow> bool" where
  "stop_command c target x \<longleftrightarrow> (\<exists>hs.
     x = HttpRequest ''POST'' (run_url (rstrip_slash (ct_gateway_url c)) target @ ''/stop'') hs JNull)"

lemma headers_send: "guar (sends (\<lambda>x. mint_request E x \<or> Q x)) (control_headers E c)"
  unfolding control_headers_def runtime_control_headers_def fetch_credential_lease_def
  by (intro sn.guar_rules sends_http) (auto simp: mint_request_def)

lemma normalize_choice_cases:
  "normalize_hermes_approval_choice ch = Inr m \<Longrightarrow> m \<in> {''once'', ''deny''}"
  by (auto simp: normalize_hermes_approval_choice_def Let_def split: if_splits)

lemma guar_bind_reading:
  assumes "m w = (Inr a, w)" and "guar (sends P) (f a)"
  shows "sends P w (snd (bindE m f w))"
  using assms(2) by (simp add: bindE_run [of m, OF assms(1)] guar_def)

lemma get_binding_run:
  "get_runtime_binding att w = (Inr (map_option runtime_binding_from_row (find (\<lambda>t. t_id t = att) (attempts (db w)))), w)"
  by (simp add: get_runtime_binding_def bindE_def)

lemma respond_sends:
  "sends (\<lambda>x. mint_request E x \<or> (\<exists>target. fence c (map_option runtime_binding_from_row
       (find (\<lambda>t. t_id t = ct_attempt_id c) (attempts (db w)))) = Some target \<and> approval_command c target x))
    w (snd (respond_runtime_approval E c choice w))" (is "sends ?P w _")
proof (cases "normalize_hermes_approval_choice choice")
  case (Inl e)
  then show ?thesis by (simp add: respond_runtime_approval_def bindE_def sends_def)
next
  case (Inr mapped)
  let ?b = "map_option runtime_binding_from_row (find (\<lambda>t. t_id t = ct_attempt_id c) (attempts (db w)))"
  have "guar (sends ?P) (case fence c ?b of
       None \<Rightarrow> returnE (Some ''fenced'')
     | Some target \<Rightarrow>
         bindE (control_headers E c) (\<lambda>auth_headers.
         bindE (http_op E ''POST'' (run_url (rstrip_slash (ct_gateway_url c)) target @ ''/approval'')
                  auth_headers (JObj [(''choice'', JStr mapped)])) (\<lambda>resp.
         case resp of
           Unreachable \<Rightarrow> returnE (Some ''RUNTIME_UNREACHABLE'')
         | HttpFault m \<Rightarrow> raiseE (OtherError m)
         | Response code _ \<Rightarrow>
             if code = 404 then returnE (Some RUNTIME_STATE_UNAVAILABLE)
             else if code \<ge> 400 then returnE (Some (map_http_status code False False False))
             else returnE None)))"
    using normalize_choice_cases [OF Inr]
    by (intro sn.guar_rules guar_case_http headers_send sends_http) (auto simp: approval_command_def)
  then show ?thesis
    unfolding respond_runtime_approval_def
    by (simp only: Inr bindE_run [of "liftE (Inr mapped)", OF liftE_run]) (rule guar_bind_reading [OF get_binding_run])
qed

lemma stop_sends:
  "sends (\<lambda>x. mint_request E x \<or> (\<exists>target. fence c (map_option runtime_binding_from_row
       (find (\<lambda>t. t_id t = ct_attempt_id c) (attempts (db w)))) = Some target \<and> stop_command c target x))
    w (snd (stop_runtime_attempt E c w))" (is "sends ?P w _")
proof -
  have "guar (sends (\<lambda>x. mint_request E x \<or> stop_command c target x))
      (stop_runtime E (rstrip_slash (ct_gateway_url c)) target hs att gen)" for target hs att gen
    unfolding stop_runtime_def
    by (intro sn.guar_rules binding_sends guar_case_http sends_http) (auto simp: stop_command_def)
  moreover have "guar (sends P) m \<Longrightarrow> (\<And>x. P x \<Longrightarrow> Q x) \<Longrightarrow> guar (sends Q) m" for P Q and m :: "'a op"
    unfolding guar_def sends_def by blast
  ultimately show ?thesis
    unfolding stop_runtime_attempt_def
    by (intro guar_bind_reading [OF get_binding_run] sn.guar_rules headers_send) fastforce
qed

section \<open>Properties\<close>

text \<open>Commands are fenced. A command for an attempt that does not exist, was never given a
  generation, is at another generation, or is bound to another runtime run than the one named is
  answered without sending anything to the runtime and changes nothing.\<close>

theorem stale_control_fenced:
  assumes "case find (\<lambda>t. t_id t = ct_attempt_id c) (attempts (db w)) of
      None \<Rightarrow> True
    | Some t \<Rightarrow> t_generation t = 0
        \<or> (ct_generation c \<noteq> 0 \<and> t_generation t \<noteq> ct_generation c)
        \<or> (str_set (t_runtime_run_id t) \<and> ct_runtime_run_id c \<noteq> []
           \<and> t_runtime_run_id t \<noteq> Some (ct_runtime_run_id c))
        \<or> (\<not> str_set (t_runtime_run_id t) \<and> ct_runtime_run_id c = [])"
  shows "stop_runtime_attempt E c w = (Inr (Some ''fenced''), w)
    \<and> inspect_runtime_terminal E c w = (Inr None, w)
    \<and> (\<exists>r. respond_runtime_approval E c choice w = (r, w) \<and> r \<noteq> Inr None)"
proof -
  let ?b = "map_option runtime_binding_from_row (find (\<lambda>t. t_id t = ct_attempt_id c) (attempts (db w)))"
  have fenced: "fence c ?b = None"
    using assms
    by (auto simp: fence_def control_generation_def runtime_binding_from_row_def str_set_def str_or_def Let_def
        split: option.splits)
  show ?thesis
    unfolding stop_runtime_attempt_def inspect_runtime_terminal_def respond_runtime_approval_def
    by (simp only: bindE_run [of "get_runtime_binding (ct_attempt_id c)", OF get_binding_run] fenced option.case)
      (cases "normalize_hermes_approval_choice choice";
       simp add: bindE_def get_binding_run fenced)
qed

definition sample_target :: control_target where
  "sample_target =
     \<lparr>ct_attempt_id = ''att-1'', ct_generation = 1, ct_gateway_url = ''http://hermes/'',
      ct_runtime_run_id = ''rt-1'', ct_snapshot = [], ct_org_id = ''org-1'', ct_run_id = ''run-1''\<rparr>"

theorem stale_control_fenced_witness:
  "stop_runtime_attempt sample_env (sample_target\<lparr>ct_runtime_run_id := ''rt-2''\<rparr>) bound_world
    = (Inr (Some ''fenced''), bound_world)"
proof -
  have "case find (\<lambda>t. t_id t = ct_attempt_id (sample_target\<lparr>ct_runtime_run_id := ''rt-2''\<rparr>))
      (attempts (db bound_world)) of
      None \<Rightarrow> True
    | Some t \<Rightarrow> t_generation t = 0
        \<or> (ct_generation (sample_target\<lparr>ct_runtime_run_id := ''rt-2''\<rparr>) \<noteq> 0
           \<and> t_generation t \<noteq> ct_generation (sample_target\<lparr>ct_runtime_run_id := ''rt-2''\<rparr>))
        \<or> (str_set (t_runtime_run_id t) \<and> ct_runtime_run_id (sample_target\<lparr>ct_runtime_run_id := ''rt-2''\<rparr>) \<noteq> []
           \<and> t_runtime_run_id t \<noteq> Some (ct_runtime_run_id (sample_target\<lparr>ct_runtime_run_id := ''rt-2''\<rparr>)))
        \<or> (\<not> str_set (t_runtime_run_id t)
           \<and> ct_runtime_run_id (sample_target\<lparr>ct_runtime_run_id := ''rt-2''\<rparr>) = [])"
    by (simp add: sample_target_def bound_world_def sample_attempt_def str_set_def str_or_def)
  from stale_control_fenced [OF this] show ?thesis by blast
qed

text \<open>
  What a command may reach: an attempt that exists, was given a generation, and is at the generation of the
  command, unless the command names none (0); the run is the one the attempt is bound to, or, for an attempt
  that is not bound yet, the one the command names.
\<close>

definition may_command :: "control_target \<Rightarrow> world \<Rightarrow> string \<Rightarrow> bool" where
  "may_command c w target \<longleftrightarrow>
     (case find (\<lambda>t. t_id t = ct_attempt_id c) (attempts (db w)) of
        None \<Rightarrow> False
      | Some t \<Rightarrow>
          t_generation t \<noteq> 0 \<and> (ct_generation c = 0 \<or> ct_generation c = t_generation t)
          \<and> target \<noteq> []
          \<and> (if str_set (t_runtime_run_id t) then t_runtime_run_id t = Some target else ct_runtime_run_id c = target))"

definition new_calls :: "world \<Rightarrow> world \<Rightarrow> ext_call list" where
  "new_calls w w' = drop (length (ext_calls w)) (ext_calls w')"

lemma fence_may_command:
  assumes "fence c (map_option runtime_binding_from_row (find (\<lambda>t. t_id t = ct_attempt_id c) (attempts (db w)))) = Some target"
  shows "may_command c w target"
  using assms
  by (auto simp: may_command_def fence_def control_generation_def runtime_binding_from_row_def str_set_def str_or_def
      Let_def split: if_splits option.splits)

lemma sends_commands:
  assumes "sends P w w'" and "\<And>x. P x \<Longrightarrow> Q x"
  shows "list_all Q (new_calls w w')"
  using assms sends_new [of P w w'] by (auto simp: list_all_iff new_calls_def)

text \<open>C31: Whatever an approval or a stop sends is a request for a credential lease at the centre or the one
  command to the runtime, and that only for an attempt that was given a generation, at the generation of the
  command unless the command names none (0): to the runtime run the attempt is bound to, and for an attempt
  that is not bound yet to the run the command names. The only choices an approval ever passes on are
  \<open>once\<close> and \<open>deny\<close>, never a session-wide one.\<close>

theorem control_reaches_bound_run:
  "list_all (\<lambda>x. mint_request E x \<or> (\<exists>target. may_command c w target \<and> approval_command c target x))
     (new_calls w (snd (respond_runtime_approval E c choice w)))
   \<and> list_all (\<lambda>x. mint_request E x \<or> (\<exists>target. may_command c w target \<and> stop_command c target x))
     (new_calls w (snd (stop_runtime_attempt E c w)))"
  by (intro conjI sends_commands [OF respond_sends] sends_commands [OF stop_sends]) (auto dest: fence_may_command)

lemma sample_stop:
  "ext_calls (snd (stop_runtime_attempt sample_env sample_target bound_world)) =
    [HttpRequest ''POST'' ''http://hermes/v1/runs/rt-1/stop'' [(''Content-Type'', JStr ''application/json'')] JNull]"
proof -
  have b: "get_runtime_binding ''att-1'' bound_world = (Inr (Some
      (runtime_binding_from_row (sample_attempt\<lparr>t_runtime_run_id := Some ''rt-1''\<rparr>))), bound_world)"
    by (simp add: get_binding_run bound_world_def sample_attempt_def)
  have f: "fence sample_target (Some (runtime_binding_from_row (sample_attempt\<lparr>t_runtime_run_id := Some ''rt-1''\<rparr>)))
      = Some ''rt-1''"
    by (simp add: fence_def sample_target_def runtime_binding_from_row_def sample_attempt_def str_or_def
        control_generation_def)
  have h: "control_headers sample_env sample_target = returnE [(''Content-Type'', JStr ''application/json'')]"
    by (simp add: control_headers_def runtime_control_headers_def sample_target_def snapshot_lease_ref_def
        runtime_policy_def or_else_def)
  have u: "run_url (rstrip_slash ''http://hermes/'') ''rt-1'' @ ''/stop'' = ''http://hermes/v1/runs/rt-1/stop''"
    by code_simp
  show ?thesis
    by (simp add: stop_runtime_attempt_def stop_runtime_def sample_target_def bindE_run [of "get_runtime_binding ''att-1''", OF b]
        f [unfolded sample_target_def] h [unfolded sample_target_def] bindE_def b)
      (simp add: runtime_binding_from_row_def sample_attempt_def control_generation_def http_op_def u str_set_def
        bindE_def sample_env_def bound_world_def sample_world_def)
qed

theorem control_reaches_bound_run_witness:
  "\<exists>x target. new_calls bound_world (snd (stop_runtime_attempt sample_env sample_target bound_world)) = [x]
     \<and> target = ''rt-1'' \<and> may_command sample_target bound_world target \<and> stop_command sample_target target x
     \<and> new_calls bound_world (snd (respond_runtime_approval sample_env sample_target (Some ''always'') bound_world)) = []"
proof -
  let ?x = "HttpRequest ''POST'' ''http://hermes/v1/runs/rt-1/stop''
      [(''Content-Type'', JStr ''application/json'')] JNull"
  have none: "ext_calls bound_world = []" by (simp add: bound_world_def sample_world_def)
  have calls: "new_calls bound_world (snd (stop_runtime_attempt sample_env sample_target bound_world)) = [?x]"
    by (simp add: new_calls_def none sample_stop)
  have "rstrip_slash (central_base_url sample_env) @ ''/api/v1/internal/v1/skill-agent/credentials/mint''
      \<noteq> ''http://hermes/v1/runs/rt-1/stop''" by code_simp
  then have "\<not> mint_request sample_env ?x" by (simp add: mint_request_def)
  with control_reaches_bound_run [of sample_env sample_target bound_world "Some ''always''"] calls
  obtain target where t: "may_command sample_target bound_world target" "stop_command sample_target target ?x"
    by auto
  have "target = ''rt-1''"
    using t(1) by (simp add: may_command_def sample_target_def bound_world_def sample_attempt_def str_set_def str_or_def)
  moreover have "new_calls bound_world (snd (respond_runtime_approval sample_env sample_target (Some ''always'') bound_world)) = []"
  proof -
    have "\<exists>e. normalize_hermes_approval_choice (Some ''always'') = Inl e"
      by (rule exI [of _ "ValueError ''client_approval_choice_forbidden''"]) code_simp
    then show ?thesis by (auto simp: respond_runtime_approval_def bindE_def new_calls_def none)
  qed
  ultimately show ?thesis using calls t by blast
qed

end
