(* ===== verification/Capability.thy ===== *)
theory Capability
  imports Run_Events Base64
begin

text \<open>
  Signed tokens of \<open>services/attempt_capability.py\<close>: a claims object in unpadded URL-safe base64, a
  dot, and its HMAC. The HMAC, \<open>json.loads\<close> and the random nonce are parameters. The lemmas: decoding
  inverts encoding, and a token verifies exactly while it lives.
\<close>

section \<open>Capability tokens\<close>

definition url_char :: "char \<Rightarrow> char" where
  "url_char c = (if c = CHR ''+'' then CHR ''-'' else if c = CHR ''/'' then CHR ''_'' else c)"

definition std_char :: "char \<Rightarrow> char" where
  "std_char c = (if c = CHR ''-'' then CHR ''+'' else if c = CHR ''_'' then CHR ''/'' else c)"

definition cap_encode :: "string \<Rightarrow> string" where
  "cap_encode data = rstrip_of (\<lambda>c. c = CHR ''='') (List.map url_char (b64encode data))"

text \<open>\<open>None\<close> is the \<open>ValueError\<close> of text that is not ASCII or no base64.\<close>

definition is_ascii :: "string \<Rightarrow> bool" where
  "is_ascii s \<longleftrightarrow> list_all (\<lambda>c. (of_char c :: nat) < 128) s"

definition cap_decode :: "string \<Rightarrow> string option" where
  "cap_decode txt =
     (if \<not> is_ascii txt then None
      else b64decode (List.map std_char (txt @ replicate ((4 - length txt mod 4) mod 4) CHR ''='')))"

record capability =
  cap_org_id :: string
  cap_run_id :: string
  cap_attempt_id :: string
  cap_generation :: int

definition cap_payload :: "capability \<Rightarrow> int \<Rightarrow> int \<Rightarrow> string \<Rightarrow> json" where
  "cap_payload c issued ttl nonce = JObj
     [(''v'', JInt 1), (''org_id'', JStr (cap_org_id c)), (''run_id'', JStr (cap_run_id c)),
      (''attempt_id'', JStr (cap_attempt_id c)), (''generation'', JInt (cap_generation c)),
      (''iat'', JInt issued), (''exp'', JInt (issued + ttl)), (''nonce'', JStr nonce)]"

definition cap_body :: "json \<Rightarrow> string" where
  "cap_body payload = cap_encode (dumps_with '','' '':'' json_string_ascii payload)"

definition mint_capability :: "env \<Rightarrow> capability \<Rightarrow> string \<Rightarrow> int \<Rightarrow> string \<Rightarrow> int \<Rightarrow> string option" where
  "mint_capability E c signing_key ttl_seconds nonce now =
     (if signing_key = [] then None
      else let body = cap_body (cap_payload c now ttl_seconds nonce)
           in Some (body @ ''.'' @ cap_encode (hmac_sha256 E signing_key body)))"

fun split_dot :: "string \<Rightarrow> string \<times> string list" where
  "split_dot [] = ([], [])"
| "split_dot (c # cs) =
     (case split_dot cs of (part, parts) \<Rightarrow> if c = CHR ''.'' then ([], part # parts) else (c # part, parts))"

definition cap_error :: "string \<Rightarrow> exn + (dict option \<times> string)" where
  "cap_error m = Inr (None, m)"

text \<open>\<open>json.loads\<close> is the parameter \<open>json_loads\<close>, \<open>None\<close> for invalid UTF-8 or JSON.\<close>

definition verify_capability :: "env \<Rightarrow> string option \<Rightarrow> string \<Rightarrow> int \<Rightarrow> exn + (dict option \<times> string)" where
  "verify_capability E token signing_key now =
     (if \<not> str_set token \<or> signing_key = [] then cap_error ''AGENT_TOOL_CAPABILITY_MISSING''
      else
        case split_dot (str_or token []) of
          (p0, [p1]) \<Rightarrow>
            if p0 = [] \<or> p1 = [] then cap_error ''AGENT_TOOL_CAPABILITY_INVALID''
            else if \<not> is_ascii p0 then Inl (ValueError ''UnicodeEncodeError'')
            else
              (case (cap_decode p1, Option.bind (cap_decode p0) (json_loads E)) of
                 (Some presented, Some payload) \<Rightarrow>
                   if hmac_sha256 E signing_key p0 \<noteq> presented then cap_error ''AGENT_TOOL_CAPABILITY_INVALID''
                   else
                     (case payload of
                        JObj d \<Rightarrow>
                          (case py_int (or_else (dget d ''exp'') (JInt 0)) of
                             Inl e \<Rightarrow> Inl e
                           | Inr t \<Rightarrow> if t \<le> now then cap_error ''AGENT_TOOL_CAPABILITY_EXPIRED''
                                      else Inr (Some d, []))
                      | _ \<Rightarrow> cap_error ''AGENT_TOOL_CAPABILITY_INVALID'')
               | _ \<Rightarrow> cap_error ''AGENT_TOOL_CAPABILITY_INVALID'')
        | _ \<Rightarrow> cap_error ''AGENT_TOOL_CAPABILITY_INVALID'')"

section \<open>Tokens\<close>

lemma b64encode_shape:
  "\<exists>ns k. b64encode s = List.map b64_char ns @ replicate k CHR ''='' \<and> list_all (\<lambda>n. n < 64) ns
     \<and> k \<le> 2 \<and> (length ns + k) mod 4 = 0"
proof (induction s rule: b64encode.induct)
  case 1
  show ?case by (intro exI [of _ "[]"] exI [of _ 0]) simp
next
  case (2 a)
  have b: "(of_char a :: nat) < 256" by (rule nat_of_char_less_256)
  show ?case
    using sextets [OF b b b]
    by (intro exI [of _ "[of_char a div 4, of_char a mod 4 * 16]"] exI [of _ 2]) (simp add: numeral_2_eq_2)
next
  case (3 a b)
  have l: "(of_char a :: nat) < 256" "(of_char b :: nat) < 256" by (rule nat_of_char_less_256)+
  show ?case
    using sextets [OF l l(2)]
    by (intro exI [of _ "[of_char a div 4, of_char a mod 4 * 16 + of_char b div 16, of_char b mod 16 * 4]"]
        exI [of _ 1]) simp
next
  case (4 a b c s)
  have l: "(of_char a :: nat) < 256" "(of_char b :: nat) < 256" "(of_char c :: nat) < 256"
    by (rule nat_of_char_less_256)+
  from 4 obtain ns k where ns: "b64encode s = List.map b64_char ns @ replicate k CHR ''=''"
    "list_all (\<lambda>n. n < 64) ns" "k \<le> 2" "(length ns + k) mod 4 = 0" by (elim exE conjE)
  let ?ns = "[of_char a div 4, of_char a mod 4 * 16 + of_char b div 16,
        of_char b mod 16 * 4 + of_char c div 64, of_char c mod 64] @ ns"
  have "(length ?ns + k) mod 4 = (length ns + k + 4) mod 4" by (simp add: algebra_simps)
  also have "\<dots> = 0" using ns(4) by (simp only: mod_add_self2)
  finally have m: "(length ?ns + k) mod 4 = 0" .
  have "b64encode (a # b # c # s) = List.map b64_char ?ns @ replicate k CHR ''=''"
    "list_all (\<lambda>n. n < 64) ?ns"
    using sextets [OF l] ns(1,2) by simp_all
  with ns(3) m show ?case by (intro exI [of _ ?ns] exI [of _ k] conjI)
qed

text \<open>The alphabet, character by character.\<close>

lemma url_alphabet:
  assumes "n < 64"
  shows "std_char (url_char (b64_char n)) = b64_char n" and "url_char (b64_char n) \<noteq> CHR ''=''"
    and "(of_char (url_char (b64_char n)) :: nat) < 128" and "url_char (b64_char n) \<noteq> CHR ''.''"
proof -
  have "std_char (url_char (b64_char n)) = b64_char n \<and> url_char (b64_char n) \<noteq> CHR ''=''
     \<and> (of_char (url_char (b64_char n)) :: nat) < 128 \<and> url_char (b64_char n) \<noteq> CHR ''.''"
  proof (cases "n < 62")
    case True
    let ?m = "if n < 26 then n + 65 else if n < 52 then n + 71 else n - 4"
    have c: "b64_char n = char_of ?m" using True by (simp add: b64_char_def)
    have m: "?m < 256" "?m < 128" "?m \<noteq> 43" "?m \<noteq> 47" "?m \<noteq> 45" "?m \<noteq> 95" "?m \<noteq> 61" "?m \<noteq> 46"
      using True by auto
    have o': "(of_char (b64_char n) :: nat) = ?m" using m(1) unfolding c by (simp del: if_split_asm)
    have ne: "b64_char n \<noteq> x" if "(of_char x :: nat) \<noteq> ?m" for x using o' that by metis
    have "b64_char n \<noteq> CHR ''+''" "b64_char n \<noteq> CHR ''/''" "b64_char n \<noteq> CHR ''-''"
      "b64_char n \<noteq> CHR ''_''" "b64_char n \<noteq> CHR ''=''" "b64_char n \<noteq> CHR ''.''"
      using m by (intro ne; simp)+
    then show ?thesis using o' m(2) by (simp add: std_char_def url_char_def)
  next
    case False
    with assms have "n = 62 \<or> n = 63" by auto
    then show ?thesis by (auto simp: b64_char_def std_char_def url_char_def)
  qed
  then show "std_char (url_char (b64_char n)) = b64_char n" "url_char (b64_char n) \<noteq> CHR ''=''"
    "(of_char (url_char (b64_char n)) :: nat) < 128" "url_char (b64_char n) \<noteq> CHR ''.''" by blast+
qed

lemma rstrip_pads:
  "list_all (\<lambda>c. c \<noteq> x) s \<Longrightarrow> rstrip_of (\<lambda>c. c = x) (s @ replicate k x) = s"
proof -
  assume s: "list_all (\<lambda>c. c \<noteq> x) s"
  have "dropWhile (\<lambda>c. c = x) (replicate k x @ t) = dropWhile (\<lambda>c. c = x) t" for t
    by (induction k) auto
  moreover have "dropWhile (\<lambda>c. c = x) (rev s) = rev s"
    using s by (cases "rev s") (auto simp: list_all_iff dest: arg_cong [of _ _ set])
  ultimately show ?thesis by (simp add: rstrip_of_def)
qed

lemma cap_encode_shape:
  "\<exists>ns k. cap_encode s = List.map (\<lambda>n. url_char (b64_char n)) ns \<and> list_all (\<lambda>n. n < 64) ns
     \<and> b64encode s = List.map b64_char ns @ replicate k CHR ''='' \<and> k \<le> 2 \<and> (length ns + k) mod 4 = 0"
proof -
  obtain ns k where ns: "b64encode s = List.map b64_char ns @ replicate k CHR ''=''"
    "list_all (\<lambda>n. n < 64) ns" "k \<le> 2" "(length ns + k) mod 4 = 0"
    using b64encode_shape [of s] by (elim exE conjE)
  have "url_char (CHR ''='') = CHR ''=''" by (simp add: url_char_def)
  then have "List.map url_char (b64encode s) = List.map (\<lambda>n. url_char (b64_char n)) ns @ replicate k CHR ''=''"
    by (simp add: ns(1))
  moreover have "list_all (\<lambda>c. c \<noteq> CHR ''='') (List.map (\<lambda>n. url_char (b64_char n)) ns)"
    using ns(2) url_alphabet by (simp add: list_all_iff)
  ultimately have "cap_encode s = List.map (\<lambda>n. url_char (b64_char n)) ns"
    by (simp add: cap_encode_def rstrip_pads)
  with ns show ?thesis by (intro exI conjI)
qed

lemma cap_roundtrip: "cap_decode (cap_encode s) = Some s"
proof -
  obtain ns k where ns: "cap_encode s = List.map (\<lambda>n. url_char (b64_char n)) ns" "list_all (\<lambda>n. n < 64) ns"
    "b64encode s = List.map b64_char ns @ replicate k CHR ''=''" "k \<le> 2" "(length ns + k) mod 4 = 0"
    using cap_encode_shape [of s] by (elim exE conjE)
  have k: "(4 - length ns mod 4) mod 4 = k"
  proof -
    have "k = 0 \<or> k = 1 \<or> k = 2" using ns(4) by linarith
    moreover define m where "m = length ns mod 4"
    then have "(m + k) mod 4 = 0" using ns(5) by (simp add: mod_add_left_eq)
    moreover have "m = 0 \<or> m = 1 \<or> m = 2 \<or> m = 3" unfolding m_def by linarith
    ultimately show ?thesis unfolding m_def [symmetric] by (elim disjE) simp_all
  qed
  have len: "length (cap_encode s) = length ns" by (simp add: ns(1))
  have "List.map std_char (cap_encode s @ replicate k CHR ''='') = b64encode s"
    using ns(2) url_alphabet by (simp add: ns(1,3) list_all_iff std_char_def [of "CHR ''=''"])
  moreover have "is_ascii (cap_encode s)"
    using ns(2) url_alphabet by (simp add: ns(1) is_ascii_def list_all_iff)
  ultimately show ?thesis by (simp only: cap_decode_def len k simp_thms if_False b64_roundtrip)
qed

lemma cap_encode_chars: "CHR ''.'' \<notin> set (cap_encode s)" "is_ascii (cap_encode s)"
proof -
  obtain ns where "cap_encode s = List.map (\<lambda>n. url_char (b64_char n)) ns" "list_all (\<lambda>n. n < 64) ns"
    using cap_encode_shape [of s] by (elim exE conjE)
  with url_alphabet show "CHR ''.'' \<notin> set (cap_encode s)" "is_ascii (cap_encode s)"
    by (force simp: list_all_iff is_ascii_def)+
qed

lemma cap_encode_nonempty: "s \<noteq> [] \<Longrightarrow> cap_encode s \<noteq> []"
  using cap_roundtrip [of s] by (auto simp: cap_decode_def is_ascii_def b64decode_def)

lemma split_dot_no: "CHR ''.'' \<notin> set s \<Longrightarrow> split_dot s = (s, [])"
  by (induction s) (auto split: prod.split)

lemma split_dot_join: "CHR ''.'' \<notin> set a \<Longrightarrow> split_dot (a @ CHR ''.'' # b) =
    (a, (case split_dot b of (p, ps) \<Rightarrow> p # ps))"
  by (induction a) (auto split: prod.split)

lemma split_dot_parts: "split_dot t = (p, ps) \<Longrightarrow> t = p @ concat (List.map (\<lambda>q. CHR ''.'' # q) ps)"
  by (induction t arbitrary: p ps) (auto split: prod.splits if_splits)

text \<open>C35: A capability token is accepted exactly while it lives: a token minted for a run, attempt and
  generation verifies with those claims until its expiry and is refused from then on; and every token
  that is accepted carries the signature of its own body under the key.\<close>

theorem capability_verifies:
  assumes "hmac_sha256 E signing_key (cap_body payload) \<noteq> []"
    and "payload = cap_payload c issued ttl nonce"
    and "json_loads E (dumps_with '','' '':'' json_string_ascii payload) = Some payload"
    and "mint_capability E c signing_key ttl nonce issued = Some token"
  shows "verify_capability E (Some token) signing_key now =
      Inr (if issued + ttl \<le> now then (None, ''AGENT_TOOL_CAPABILITY_EXPIRED'')
           else (Some (dict_of payload), []))
    \<and> (\<forall>t d m. verify_capability E (Some t) signing_key now = Inr (Some d, m) \<longrightarrow>
        (\<exists>body sig. t = body @ ''.'' @ sig \<and> cap_decode sig = Some (hmac_sha256 E signing_key body)))"
proof
  let ?body = "cap_body payload" and ?sig = "cap_encode (hmac_sha256 E signing_key (cap_body payload))"
  have key: "signing_key \<noteq> []" and token: "token = ?body @ CHR ''.'' # ?sig"
    using assms(2,4) by (auto simp: mint_capability_def Let_def split: if_splits)
  have split: "split_dot token = (?body, [?sig])"
    by (simp add: token split_dot_join split_dot_no cap_encode_chars cap_body_def)
  have "dumps_with '','' '':'' json_string_ascii payload \<noteq> []" by (simp add: assms(2) cap_payload_def)
  then have ne: "?body \<noteq> []" "?sig \<noteq> []"
    using assms(1) by (simp_all add: cap_body_def cap_encode_nonempty)
  have dec: "cap_decode ?sig = Some (hmac_sha256 E signing_key ?body)"
    "Option.bind (cap_decode ?body) (json_loads E) = Some payload" "is_ascii ?body"
    using assms(3) by (simp_all add: cap_roundtrip cap_body_def cap_encode_chars)
  obtain d where d: "payload = JObj d" "dget d ''exp'' = JInt (issued + ttl)"
    by (simp add: assms(2) cap_payload_def)
  have tok: "str_set (Some token)" "str_or (Some token) [] = token"
    using token by (simp_all add: str_set_def str_or_def)
  have int: "py_int (or_else (JInt (issued + ttl)) (JInt 0)) = Inr (issued + ttl)"
    by (cases "issued + ttl = 0") (simp_all add: or_else_def)
  show "verify_capability E (Some token) signing_key now =
      Inr (if issued + ttl \<le> now then (None, ''AGENT_TOOL_CAPABILITY_EXPIRED'') else (Some (dict_of payload), []))"
    unfolding verify_capability_def tok
    by (simp only: tok key split prod.case list.case ne dec option.case simp_thms if_True if_False)
      (simp only: d json.case int sum.case dict_of.simps cap_error_def if_distrib [of Inr])
  show "\<forall>t d m. verify_capability E (Some t) signing_key now = Inr (Some d, m) \<longrightarrow>
        (\<exists>body sig. t = body @ ''.'' @ sig \<and> cap_decode sig = Some (hmac_sha256 E signing_key body))"
  proof (intro allI impI)
    fix t d m
    assume acc: "verify_capability E (Some t) signing_key now = Inr (Some d, m)"
    obtain p0 ps where s: "split_dot t = (p0, ps)" by (cases "split_dot t")
    from acc s obtain p1 where p1: "ps = [p1]"
      by (auto simp: verify_capability_def cap_error_def str_or_def split: if_splits list.splits)
    from acc s p1 have "cap_decode p1 = Some (hmac_sha256 E signing_key p0)"
      by (auto simp: verify_capability_def cap_error_def str_or_def split: if_splits option.splits)
    moreover have "t = p0 @ ''.'' @ p1" using split_dot_parts [OF s] p1 by simp
    ultimately show "\<exists>body sig. t = body @ ''.'' @ sig \<and> cap_decode sig = Some (hmac_sha256 E signing_key body)"
      by blast
  qed
qed

definition demo_claims :: json where
  "demo_claims = cap_payload \<lparr>cap_org_id = ''o'', cap_run_id = ''r'', cap_attempt_id = ''a'', cap_generation = 1\<rparr> 100 60 ''n''"

theorem capability_verifies_witness:
  "\<exists>token. verify_capability (sample_env\<lparr>json_loads := (\<lambda>_. Some demo_claims)\<rparr>) (Some token) ''key'' 159
       = Inr (Some (dict_of demo_claims), [])
     \<and> verify_capability (sample_env\<lparr>json_loads := (\<lambda>_. Some demo_claims)\<rparr>) (Some token) ''key'' 160
       = Inr (None, ''AGENT_TOOL_CAPABILITY_EXPIRED'')"
proof -
  let ?c = "\<lparr>cap_org_id = ''o'', cap_run_id = ''r'', cap_attempt_id = ''a'', cap_generation = 1\<rparr>"
  let ?E = "sample_env\<lparr>json_loads := (\<lambda>_. Some demo_claims)\<rparr>"
  obtain token where m: "mint_capability ?E ?c ''key'' 60 ''n'' 100 = Some token"
    by (simp add: mint_capability_def Let_def)
  have h: "hmac_sha256 ?E ''key'' (cap_body demo_claims) \<noteq> []" by (simp add: sample_env_def)
  have l: "json_loads ?E (dumps_with '','' '':'' json_string_ascii demo_claims) = Some demo_claims" by simp
  from capability_verifies [OF h demo_claims_def l m, of 159] capability_verifies [OF h demo_claims_def l m, of 160]
  show ?thesis by auto
qed

end
