(* ===== verification/Agent_Tools.thy ===== *)
theory Agent_Tools
  imports Capability
begin

text \<open>
  The tools an agent may call through the gateway: \<open>services/agent_tool_gateway.py\<close> (decisions), \<open>services/remote_agent_catalog_client.py\<close>
  (requests to the central service) and \<open>api/agent_tools_mcp.py\<close> (the endpoint, and the
  completion of an approval). The connector itself, the secret store and the central service are
  parameters of the environment. The lemmas: a call by the agent never runs a connector, only the
  completion of the pending approval does, and a call that was answered is answered the same again.
\<close>

section \<open>Decisions\<close>

definition stable_tool_call_id :: "string \<Rightarrow> int \<Rightarrow> string \<Rightarrow> string" where
  "stable_tool_call_id attempt_id generation rpc_id =
     attempt_id @ '':'' @ show_int generation @ '':'' @ rpc_id"

definition APPROVAL_EVENT :: string where
  "APPROVAL_EVENT = ''connector.approval.requested''"

definition RESULT_EVENT :: string where
  "RESULT_EVENT = ''connector.tool.result''"

definition arguments_digest :: "env \<Rightarrow> dict \<Rightarrow> string" where
  "arguments_digest E arguments = sha256 E (dumps_with '', '' '': '' json_string (JObj arguments))"

definition hermes_mcp_feature :: "dict \<Rightarrow> string option" where
  "hermes_mcp_feature payload =
     (let features = or_else (dget payload ''features'') (or_else (dget payload ''capabilities'') (JList []));
          present = (case features of
             JObj d \<Rightarrow> List.map fst (filter (\<lambda>kv. truthy (snd kv)) d)
           | JList xs \<Rightarrow> List.map py_str (filter truthy xs)
           | _ \<Rightarrow> [])
      in find (\<lambda>name. name \<in> set present) [''mcp_servers'', ''mcp_tool_surface''])"

definition find_tool_result :: "event_view list \<Rightarrow> string \<Rightarrow> string \<Rightarrow> dict option" where
  "find_tool_result evs tool_call_id digest =
     map_option ev_payload (find (\<lambda>e. ev_event_type e = RESULT_EVENT
        \<and> dget (ev_payload e) ''tool_call_id'' = JStr tool_call_id
        \<and> dget (ev_payload e) ''arguments_digest'' = JStr digest) (rev evs))"

definition text_field :: "dict \<Rightarrow> string \<Rightarrow> string" where
  "text_field payload k = py_str (or_else (dget payload k) (JStr []))"

definition find_argument_conflict :: "event_view list \<Rightarrow> string \<Rightarrow> string \<Rightarrow> bool" where
  "find_argument_conflict evs tool_call_id digest \<longleftrightarrow>
     list_ex (\<lambda>e. text_field (ev_payload e) ''tool_call_id'' = tool_call_id
        \<and> text_field (ev_payload e) ''arguments_digest'' \<noteq> []
        \<and> text_field (ev_payload e) ''arguments_digest'' \<noteq> digest) evs"

definition decided_approvals :: "event_view list \<Rightarrow> string list" where
  "decided_approvals evs =
     List.map (\<lambda>e. py_str (dget (ev_payload e) ''approval_id''))
       (filter (\<lambda>e. ev_event_type e = RESULT_EVENT) evs)"

definition find_pending_approval :: "event_view list \<Rightarrow> dict option" where
  "find_pending_approval evs =
     map_option ev_payload (find (\<lambda>e. ev_event_type e = APPROVAL_EVENT
        \<and> text_field (ev_payload e) ''approval_id'' \<noteq> []
        \<and> text_field (ev_payload e) ''approval_id'' \<notin> set (decided_approvals evs)) (rev evs))"

datatype tool_decision = FailRun | Replay | DenyUnknown | ToolError | WaitApproval

definition decide_tool_call :: "bool \<Rightarrow> bool \<Rightarrow> bool \<Rightarrow> bool \<Rightarrow> dict option \<Rightarrow> tool_decision" where
  "decide_tool_call generation_matches tool_listed run_waiting pending_other stored_result =
     (if \<not> generation_matches then FailRun
      else if stored_result \<noteq> None then Replay
      else if \<not> tool_listed then DenyUnknown
      else if run_waiting \<or> pending_other then ToolError
      else WaitApproval)"

datatype exception_kind = KindToolError | KindOutcomeUnknown | KindFailRun

fun classify_connector_exception :: "exn \<Rightarrow> exception_kind" where
  "classify_connector_exception (HttpStatusError _) = KindToolError"
| "classify_connector_exception (NetworkError _) = KindOutcomeUnknown"
| "classify_connector_exception _ = KindFailRun"

definition public_tool_view :: "dict \<Rightarrow> json" where
  "public_tool_view tool = JObj
     [(''name'', dget tool ''tool_name''),
      (''description'', or_else (dget tool ''description'') (JStr [])),
      (''inputSchema'', or_else (dget tool ''input_schema'') (JObj [(''type'', JStr ''object'')]))]"

section \<open>The central catalog\<close>

definition catalog_url :: "env \<Rightarrow> string \<Rightarrow> string" where
  "catalog_url E path = rstrip_of (\<lambda>c. c = CHR ''/'') (central_base_url E)
     @ ''/api/v1/internal/v1/skill-agent/remote-agent'' @ path"

definition catalog_post :: "env \<Rightarrow> string \<Rightarrow> dict \<Rightarrow> dict op" where
  "catalog_post E path payload =
     bindE (http_op E ''POST'' (catalog_url E path)
              [(''X-Skill-Agent-Token'', JStr (internal_token E))] (JObj payload)) (\<lambda>resp.
     case resp of
       Unreachable \<Rightarrow> raiseE (NetworkError ''network error'')
     | HttpFault m \<Rightarrow> raiseE (OtherError m)
     | Response code body \<Rightarrow>
         if code < 200 \<or> 300 \<le> code then raiseE (HttpStatusError code)
         else (case body of None \<Rightarrow> raiseE (ValueError ''JSONDecodeError'') | Some j \<Rightarrow> returnE (dict_of j)))"

text \<open>
  \<open>list(tools or [])\<close>. A truthy answer that is no list has no items with a \<open>.get\<close>, so the first
  thing every caller does with it fails.
\<close>

definition list_tools :: "env \<Rightarrow> run_view \<Rightarrow> json list op" where
  "list_tools E v =
     (let snapshot = v_snapshot v in
      bindE (catalog_post E ''/tools''
        [(''org_id'', JStr (v_org_id v)),
         (''binding_ids'', JList (list_of (jget snapshot ''connector_binding_refs''))),
         (''account_ids'', JList (list_of (jget snapshot ''integration_account_refs''))),
         (''expert_id'', JStr (py_str (or_else (jget snapshot ''expert_id'') (JStr [])))),
         (''user_id'', JStr (v_user_id v))]) (\<lambda>body.
      let tools = dget body ''tools'' in
      if \<not> truthy tools then returnE []
      else case tools of JList ts \<Rightarrow> returnE ts | _ \<Rightarrow> raiseE (OtherError ''object has no attribute get'')))"

text \<open>The first tool of the name; an item that is no dict before it raises.\<close>

fun find_tool :: "string \<Rightarrow> json list \<Rightarrow> exn + dict option" where
  "find_tool name [] = Inr None"
| "find_tool name (JObj d # ts) =
     (if dget d ''tool_name'' = JStr name then Inr (Some d) else find_tool name ts)"
| "find_tool name (_ # ts) = Inl (OtherError ''object has no attribute get'')"

definition resolve_route :: "env \<Rightarrow> run_view \<Rightarrow> string \<Rightarrow> dict option op" where
  "resolve_route E v tool_name =
     catchE
       (bindE (catalog_post E ''/connector-route''
          [(''org_id'', JStr (v_org_id v)),
           (''binding_ids'', JList (list_of (jget (v_snapshot v) ''connector_binding_refs''))),
           (''tool_name'', JStr tool_name)])
         (\<lambda>body. returnE (Some body)))
       (\<lambda>exc. if exc = HttpStatusError 404 then returnE None else raiseE exc)"

section \<open>A tool call\<close>

definition error_content :: "string \<Rightarrow> json" where
  "error_content m = JObj [(''isError'', JBool True),
     (''content'', JList [JObj [(''type'', JStr ''text''), (''text'', JStr m)]])]"

record tool_call =
  tc_id :: string
  tc_name :: string
  tc_digest :: string
  tc_arguments :: dict

definition fail_stale_call :: "env \<Rightarrow> run_view \<Rightarrow> tool_call \<Rightarrow> json op" where
  "fail_stale_call E v c =
     thenE (set_status (v_run_id v) FAILED ((expect (Some (v_org_id v)) [])\<lparr>so_expected := None\<rparr>))
     (thenE (append_event E (v_run_id v) RESULT_EVENT
        [(''tool_call_id'', JStr (tc_id c)), (''arguments_digest'', JStr (tc_digest c)),
         (''outcome'', JStr ''STALE_ATTEMPT'')] (org_opts (Some (v_org_id v))))
       (returnE (error_content ''STALE_ATTEMPT'')))"

definition request_approval :: "env \<Rightarrow> run_view \<Rightarrow> tool_call \<Rightarrow> json op" where
  "request_approval E v c =
     bindE (fresh_uuid E) (\<lambda>approval_id.
     thenE (set_status (v_run_id v) WAITING_APPROVAL (expect (Some (v_org_id v)) [v_status v]))
     (thenE (append_event E (v_run_id v) APPROVAL_EVENT
        [(''approval_id'', JStr approval_id), (''tool_call_id'', JStr (tc_id c)),
         (''tool_name'', JStr (tc_name c)), (''arguments_digest'', JStr (tc_digest c)),
         (''arguments'', JObj (tc_arguments c))] (org_opts (Some (v_org_id v))))
       (returnE (JObj (dict_of (error_content ''REQUIRE_APPROVAL'') @ [(''approval_id'', JStr approval_id)])))))"

definition replayed :: "dict \<Rightarrow> json" where
  "replayed stored = or_else (dget stored ''result'')
     (JObj [(''isError'', JBool False), (''content'', dget stored ''content'')])"

definition call_tool :: "env \<Rightarrow> run_view \<Rightarrow> dict \<Rightarrow> int \<Rightarrow> string \<Rightarrow> string \<Rightarrow> json op" where
  "call_tool E v params generation attempt_id rpc_id =
     (let arguments = dict_of (dget params ''arguments'');
          c = \<lparr>tc_id = stable_tool_call_id attempt_id generation rpc_id,
               tc_name = text_field params ''name'', tc_digest = arguments_digest E arguments,
               tc_arguments = arguments\<rparr> in
      bindE (list_events (v_run_id v) 0) (\<lambda>evs.
      if find_argument_conflict evs (tc_id c) (tc_digest c)
      then returnE (error_content ''TOOL_CALL_IDEMPOTENCY_CONFLICT'')
      else
        let stored = find_tool_result evs (tc_id c) (tc_digest c) in
        bindE (list_tools E v) (\<lambda>tools.
        bindE (liftE (find_tool (tc_name c) tools)) (\<lambda>listed.
        case decide_tool_call (generation = v_generation v) (listed \<noteq> None)
               (v_status v = WAITING_APPROVAL) (find_pending_approval evs \<noteq> None) stored of
          FailRun \<Rightarrow> fail_stale_call E v c
        | Replay \<Rightarrow> returnE (replayed (case stored of Some p \<Rightarrow> p | None \<Rightarrow> []))
        | DenyUnknown \<Rightarrow> returnE (error_content ''CONNECTOR_TOOL_NOT_ALLOWED'')
        | ToolError \<Rightarrow> returnE (error_content ''CONNECTOR_APPROVAL_PENDING'')
        | WaitApproval \<Rightarrow> request_approval E v c))))"

section \<open>The endpoint\<close>

definition rpc_result :: "json \<Rightarrow> json \<Rightarrow> json" where
  "rpc_result rpc_id result =
     JObj [(''jsonrpc'', JStr ''2.0''), (''id'', rpc_id), (''result'', result)]"

definition mcp_dispatch :: "env \<Rightarrow> run_view \<Rightarrow> dict \<Rightarrow> string \<Rightarrow> json op" where
  "mcp_dispatch E v body attempt_id =
     (let verb = text_field body ''method'' in
      if verb = ''tools/list'' then
        bindE (list_tools E v) (\<lambda>tools.
        if list_ex (\<lambda>t. \<not> is_dict t) tools then raiseE (OtherError ''object has no attribute get'')
        else returnE (rpc_result (dget body ''id'')
               (JObj [(''tools'', JList (List.map (\<lambda>t. public_tool_view (dict_of t)) tools))])))
      else if verb = ''tools/call'' then
        (if dget body ''id'' \<in> {JNull, JStr []} then raiseE (HTTPException 400 ''JSON-RPC id is required'')
         else
           bindE (call_tool E v (dict_of (dget body ''params'')) (v_generation v) attempt_id
                    (py_str (dget body ''id'')))
             (\<lambda>result. returnE (rpc_result (dget body ''id'') result)))
      else raiseE (HTTPException 400 ''unsupported mcp method''))"

definition agent_tools_mcp :: "env \<Rightarrow> dict \<Rightarrow> string option \<Rightarrow> json op" where
  "agent_tools_mcp E body capability =
     bindE now_op (\<lambda>now.
     bindE (liftE (verify_capability E capability (capability_signing_key E) now)) (\<lambda>(claims, capability_error).
     case claims of
       None \<Rightarrow> raiseE (HTTPException 401 capability_error)
     | Some d \<Rightarrow>
         let attempt_id = text_field d ''attempt_id'' in
         bindE (liftE (py_int (or_else (dget d ''generation'') (JInt 0)))) (\<lambda>token_generation.
         bindE (get_run (text_field d ''run_id'') (Some (text_field d ''org_id''))) (\<lambda>run.
         case run of
           None \<Rightarrow> raiseE (HTTPException 401 ''AGENT_TOOL_CAPABILITY_MISSING'')
         | Some v \<Rightarrow>
             if v_tool_name v \<noteq> ''remote_agent'' \<or> terminal (v_status v) \<or> str_or (v_attempt_id v) [] \<noteq> attempt_id
             then raiseE (HTTPException 401 ''AGENT_TOOL_CAPABILITY_MISSING'')
             else if v_generation v \<noteq> token_generation
             then raiseE (HTTPException 401 ''AGENT_TOOL_CAPABILITY_FENCED'')
             else mcp_dispatch E v body attempt_id))))"

section \<open>Completing an approval\<close>

definition connector_op :: "env \<Rightarrow> string \<Rightarrow> dict \<Rightarrow> dict \<Rightarrow> string \<Rightarrow> json list op" where
  "connector_op E tool_name arguments route org_id = (\<lambda>w.
     let c = ConnectorRun tool_name arguments route org_id in
     (connector_answer E (length (ext_calls w)) c, w\<lparr>ext_calls := ext_calls w @ [c]\<rparr>))"

record approval =
  ap_id :: string
  ap_call_id :: string
  ap_digest :: string
  ap_tool :: string
  ap_arguments :: dict

definition approval_of :: "string \<Rightarrow> dict \<Rightarrow> approval" where
  "approval_of approval_id pending =
     \<lparr>ap_id = approval_id, ap_call_id = text_field pending ''tool_call_id'',
      ap_digest = text_field pending ''arguments_digest'', ap_tool = text_field pending ''tool_name'',
      ap_arguments = dict_of (dget pending ''arguments'')\<rparr>"

text \<open>The status moves on from WAITING_APPROVAL, and the result event follows.\<close>

definition leave_waiting :: "run_view \<Rightarrow> run_status \<Rightarrow> unit op" where
  "leave_waiting v st =
     thenE (set_status (v_run_id v) st (expect (Some (v_org_id v)) [WAITING_APPROVAL])) (returnE ())"

definition record_outcome :: "env \<Rightarrow> run_view \<Rightarrow> approval \<Rightarrow> run_status \<Rightarrow> string \<Rightarrow> dict \<Rightarrow> bool op" where
  "record_outcome E v a st outcome extra =
     thenE (leave_waiting v st)
     (thenE (append_event E (v_run_id v) RESULT_EVENT
        ([(''approval_id'', JStr (ap_id a)), (''tool_call_id'', JStr (ap_call_id a)),
          (''arguments_digest'', JStr (ap_digest a)), (''outcome'', JStr outcome)] @ extra)
        (org_opts (Some (v_org_id v))))
       (returnE True))"

definition external_request :: "run_view \<Rightarrow> approval \<Rightarrow> dict" where
  "external_request v a =
     [(''run_id'', JStr (v_run_id v)), (''tool_name'', JStr (ap_tool a)),
      (''arguments'', JObj (ap_arguments a)), (''tool_call_id'', JStr (ap_call_id a)),
      (''attempt_id'', JStr (str_or (v_attempt_id v) [])), (''generation'', JInt (v_generation v)),
      (''approval_id'', JStr (ap_id a)), (''arguments_digest'', JStr (ap_digest a))]"

definition complete_external_approval :: "env \<Rightarrow> run_view \<Rightarrow> approval \<Rightarrow> bool op" where
  "complete_external_approval E v a =
     bindE (catalog_post E ''/external-execute'' (external_request v a)) (\<lambda>outcome_body.
     let outcome = py_str (or_else (dget outcome_body ''outcome'') (JStr ''fail_run'')) in
     if outcome = ''fail_run''
     then record_outcome E v a FAILED ''EXTERNAL_ACTION_CONTEXT_STALE'' []
     else if outcome = ''outcome_unknown''
     then record_outcome E v a RUNNING ''EXTERNAL_ACTION_OUTCOME_UNKNOWN''
            [(''result'', error_content ''EXTERNAL_ACTION_OUTCOME_UNKNOWN'')]
     else if outcome = ''ok''
     then record_outcome E v a RUNNING ''ok''
            [(''result'', or_else (dget outcome_body ''result'')
                (JObj [(''isError'', JBool False), (''content'', JList [])]))]
     else if outcome = ''conflict''
     then record_outcome E v a RUNNING ''TOOL_CALL_IDEMPOTENCY_CONFLICT''
            [(''result'', error_content ''TOOL_CALL_IDEMPOTENCY_CONFLICT'')]
     else record_outcome E v a RUNNING ''EXTERNAL_TOOL_ERROR''
            [(''result'', error_content ''EXTERNAL_TOOL_ERROR'')])"

definition run_connector :: "env \<Rightarrow> run_view \<Rightarrow> approval \<Rightarrow> dict \<Rightarrow> bool op" where
  "run_connector E v a route =
     catchE
       (bindE (connector_op E (ap_tool a) (ap_arguments a)
          [(''connector_kind'', dget route ''connector_kind''),
           (''connector_config'', or_else (dget route ''connector_config'') (JObj [])),
           (''connector_secret_ref_id'', dget route ''connector_secret_ref_id'')] (v_org_id v)) (\<lambda>events_out.
        record_outcome E v a RUNNING ''ok''
          [(''result'', JObj [(''isError'', JBool False), (''content'', JList events_out)])]))
       (\<lambda>exc.
         let kind = classify_connector_exception exc in
         record_outcome E v a (if kind = KindFailRun then FAILED else RUNNING)
           (if kind = KindOutcomeUnknown then ''CONNECTOR_ACTION_OUTCOME_UNKNOWN'' else ''CONNECTOR_TOOL_ERROR'') [])"

definition complete_granted :: "env \<Rightarrow> run_view \<Rightarrow> approval \<Rightarrow> bool op" where
  "complete_granted E v a =
     bindE (list_tools E v) (\<lambda>tools.
     bindE (liftE (find_tool (ap_tool a) tools)) (\<lambda>selected.
     case selected of
       None \<Rightarrow> record_outcome E v a FAILED ''CONNECTOR_CONTEXT_STALE'' []
     | Some tool \<Rightarrow>
         if dget tool ''source'' = JStr ''external'' then complete_external_approval E v a
         else
           bindE (resolve_route E v (ap_tool a)) (\<lambda>found.
           case found of
             None \<Rightarrow> thenE (leave_waiting v FAILED) (returnE True)
           | Some route \<Rightarrow>
               let secret_ref = strip (text_field route ''connector_secret_ref_id'') in
               if secret_ref \<noteq> [] \<and> \<not> secret_known E secret_ref
               then record_outcome E v a FAILED ''CONNECTOR_CREDENTIAL_UNAVAILABLE'' []
               else run_connector E v a route)))"

definition complete_connector_approval :: "env \<Rightarrow> run_view \<Rightarrow> string \<Rightarrow> string \<Rightarrow> bool op" where
  "complete_connector_approval E v approval_id choice =
     bindE (list_events (v_run_id v) 0) (\<lambda>evs.
     case find_pending_approval evs of
       None \<Rightarrow> returnE False
     | Some pending \<Rightarrow>
         if py_str (dget pending ''approval_id'') \<noteq> approval_id then returnE False
         else
           let a = approval_of approval_id pending in
           if choice = ''deny''
           then record_outcome E v a RUNNING ''TOOL_EXECUTION_DENIED''
                  [(''result'', error_content ''TOOL_EXECUTION_DENIED'')]
           else complete_granted E v a)"

section \<open>Guarantees\<close>

lemma leave_waiting_safe [guar_intros]: "guar safe (leave_waiting v st)"
  unfolding leave_waiting_def by (intro sw.guar_rules guar_intros) (simp add: TERMINAL_def)

lemma record_outcome_safe [guar_intros]: "guar safe (record_outcome E v a st outcome extra)"
  unfolding record_outcome_def by (intro sw.guar_rules guar_intros)

lemma guar_case_list:
  "(\<And>xs. x = JList xs \<Longrightarrow> guar R (f xs)) \<Longrightarrow> guar R m \<Longrightarrow>
   guar R (case x of JList xs \<Rightarrow> f xs | _ \<Rightarrow> m)"
  by (cases x) auto

lemma catalog_same_db:
  "guar same_db (catalog_post E p q)" "guar same_db (list_tools E v)" "guar same_db (resolve_route E v n)"
  "guar same_db (connector_op E n args route org)"
proof -
  show c: "guar same_db (catalog_post E p q)" for p q
    unfolding catalog_post_def by (intro sd.guar_rules guar_case_http same_db_stmts)
  show "guar same_db (list_tools E v)"
    unfolding list_tools_def by (intro sd.guar_rules guar_case_list c)
  show "guar same_db (resolve_route E v n)" unfolding resolve_route_def by (intro sd.guar_rules c)
  show "guar same_db (connector_op E n args route org)"
    by (simp add: guar_def connector_op_def same_db_def Let_def)
qed

lemmas catalog_guar [guar_intros] = catalog_same_db [THEN guar_same_db]
  catalog_same_db [THEN guar_same_db, THEN guar_same_log]

lemma complete_connector_approval_safe [guar_intros]:
  "guar safe (complete_connector_approval E v approval_id choice)"
  unfolding complete_connector_approval_def complete_granted_def complete_external_approval_def run_connector_def
  by (intro sw.guar_rules guar_intros)

lemma call_tool_safe: "\<not> terminal (v_status v) \<Longrightarrow> guar safe (call_tool E v params gen att rpc)"
proof -
  assume live: "\<not> terminal (v_status v)"
  have "guar safe (fail_stale_call E v c)" for c
    unfolding fail_stale_call_def
    by (intro sw.guar_rules guar_intros) (simp add: cas_safe_def expect_def TERMINAL_def)
  moreover have "guar safe (request_approval E v c)" for c
    unfolding request_approval_def by (intro sw.guar_rules guar_intros) (simp add: live)
  moreover have dec: "guar R (case d of FailRun \<Rightarrow> m1 | Replay \<Rightarrow> m2 | DenyUnknown \<Rightarrow> m3 | ToolError \<Rightarrow> m4 | WaitApproval \<Rightarrow> m5)"
    if "guar R m1" "guar R m2" "guar R m3" "guar R m4" "guar R m5" for R :: "world \<Rightarrow> world \<Rightarrow> bool" and d m1 m2 m3 m4
      and m5 :: "json op"
    using that by (cases d) auto
  ultimately show ?thesis
    unfolding call_tool_def by (intro sw.guar_rules guar_intros dec)
qed

lemma agent_tools_mcp_safe [guar_intros]: "guar safe (agent_tools_mcp E body cap)"
  unfolding agent_tools_mcp_def mcp_dispatch_def
  by (intro sw.guar_rules guar_intros call_tool_safe) auto

section \<open>What is executed\<close>

text \<open>The requests that act: a connector run, and an action of an external account.\<close>

definition tool_action :: "env \<Rightarrow> ext_call \<Rightarrow> bool" where
  "tool_action E x \<longleftrightarrow> (\<exists>n args route org. x = ConnectorRun n args route org)
     \<or> (\<exists>hs body. x = HttpRequest ''POST'' (catalog_url E ''/external-execute'') hs body)"

definition approved_action :: "env \<Rightarrow> run_view \<Rightarrow> approval \<Rightarrow> ext_call \<Rightarrow> bool" where
  "approved_action E v a x \<longleftrightarrow> (\<exists>route. x = ConnectorRun (ap_tool a) (ap_arguments a) route (v_org_id v))
     \<or> (\<exists>hs. x = HttpRequest ''POST'' (catalog_url E ''/external-execute'') hs (JObj (external_request v a)))"

definition catalog_lookup :: "env \<Rightarrow> ext_call \<Rightarrow> bool" where
  "catalog_lookup E x \<longleftrightarrow> (\<exists>hs body. x = HttpRequest ''POST'' (catalog_url E ''/tools'') hs body)"

lemma lookup_no_action: "catalog_lookup E x \<Longrightarrow> \<not> tool_action E x"
  by (auto simp: catalog_lookup_def tool_action_def catalog_url_def)

lemma catalog_post_sends:
  "P (HttpRequest ''POST'' (catalog_url E p) [(''X-Skill-Agent-Token'', JStr (internal_token E))] (JObj q)) \<Longrightarrow>
   guar (sends P) (catalog_post E p q)"
  unfolding catalog_post_def by (intro sn.guar_rules guar_case_http sends_http)

lemma list_tools_sends: "guar (sends (catalog_lookup E)) (list_tools E v)"
  unfolding list_tools_def
  by (intro sn.guar_rules guar_case_list catalog_post_sends) (auto simp: catalog_lookup_def)

lemma request_approval_sends: "guar (sends P) (request_approval E v c)"
  unfolding request_approval_def
  by (intro sn.guar_rules guar_intros set_status_sends) (simp add: TERMINAL_def)

lemma call_tool_sends: "guar (sends (catalog_lookup E)) (call_tool E v params (v_generation v) att rpc)"
proof -
  have dec: "guar R (case decide_tool_call True l r p s of FailRun \<Rightarrow> m1 | Replay \<Rightarrow> m2
      | DenyUnknown \<Rightarrow> m3 | ToolError \<Rightarrow> m4 | WaitApproval \<Rightarrow> m5)"
    if "guar R m2" "guar R m3" "guar R m4" "guar R m5"
    for R :: "world \<Rightarrow> world \<Rightarrow> bool" and l r p s m1 m2 m3 m4 and m5 :: "json op"
    using that by (simp add: decide_tool_call_def)
  show ?thesis
    unfolding call_tool_def
    by (simp only: simp_thms(6)) (intro sn.guar_rules guar_intros list_tools_sends dec request_approval_sends)
qed

text \<open>C33: A call the agent makes through the gateway never acts: whatever the token, the method and the
  arguments, the only requests that leave are lookups in the tool catalog. No connector is run and no
  external account is touched.\<close>

theorem agent_call_never_acts:
  assumes "x \<in> set (drop (length (ext_calls w)) (ext_calls (snd (agent_tools_mcp E body cap w))))"
  shows "catalog_lookup E x \<and> \<not> tool_action E x"
proof -
  have "guar (sends (catalog_lookup E)) (agent_tools_mcp E body cap)"
    unfolding agent_tools_mcp_def mcp_dispatch_def
    by (intro sn.guar_rules guar_intros call_tool_sends list_tools_sends)
  from sends_new [OF guarD [OF this] assms] lookup_no_action show ?thesis by blast
qed

text \<open>What the completion of an approval sends.\<close>

definition completion_request :: "env \<Rightarrow> run_view \<Rightarrow> approval \<Rightarrow> ext_call \<Rightarrow> bool" where
  "completion_request E v a x \<longleftrightarrow> tool_action E x \<longrightarrow> approved_action E v a x"

lemma record_outcome_sends: "guar (sends (completion_request E v a)) (record_outcome E v b st out extra)"
  "guar (sends (completion_request E v a)) (leave_waiting v st)"
proof -
  have "completion_request E v a (CloseExternalSession r)" for r
    by (simp add: completion_request_def tool_action_def)
  then show l: "guar (sends (completion_request E v a)) (leave_waiting v st)" for st
    unfolding leave_waiting_def by (intro sn.guar_rules set_status_sends)
  show "guar (sends (completion_request E v a)) (record_outcome E v b st out extra)"
    unfolding record_outcome_def by (intro sn.guar_rules guar_intros l)
qed

lemma complete_granted_sends: "guar (sends (completion_request E v a)) (complete_granted E v a)"
proof -
  have lookup: "guar (sends (completion_request E v a)) (list_tools E v)"
    by (rule sends_mono [OF list_tools_sends]) (simp add: completion_request_def lookup_no_action)
  have route: "guar (sends (completion_request E v a)) (resolve_route E v n)" for n
    unfolding resolve_route_def
    by (intro sn.guar_rules catalog_post_sends) (auto simp: completion_request_def tool_action_def catalog_url_def)
  have ext: "guar (sends (completion_request E v a)) (catalog_post E ''/external-execute'' (external_request v a))"
    by (intro catalog_post_sends) (auto simp: completion_request_def approved_action_def)
  have conn: "guar (sends (completion_request E v a)) (connector_op E (ap_tool a) (ap_arguments a) r (v_org_id v))" for r
    by (auto simp: guar_def connector_op_def sends_def Let_def completion_request_def approved_action_def)
  show ?thesis
    unfolding complete_granted_def complete_external_approval_def run_connector_def
    by (intro sn.guar_rules lookup route ext conn record_outcome_sends)
qed

text \<open>C34: A connector is run, or an external action executed, only by granting the approval that is
  pending for the run, never by denying it, and then it is exactly the tool and the arguments that the
  approval event recorded.\<close>

theorem only_granted_actions_run:
  assumes "list_events (v_run_id v) 0 w = (Inr evs, w)"
    and "x \<in> set (drop (length (ext_calls w)) (ext_calls (snd (complete_connector_approval E v aid choice w))))"
    and "tool_action E x"
  shows "choice \<noteq> ''deny'' \<and> (\<exists>p. find_pending_approval evs = Some p
    \<and> py_str (dget p ''approval_id'') = aid \<and> approved_action E v (approval_of aid p) x)"
proof (cases "find_pending_approval evs")
  case None
  then show ?thesis
    using assms(2) by (simp add: complete_connector_approval_def bindE_run [of "list_events (v_run_id v) 0", OF assms(1)])
next
  case (Some p)
  let ?a = "approval_of aid p"
  have run: "complete_connector_approval E v aid choice w =
      (if py_str (dget p ''approval_id'') \<noteq> aid then returnE False
       else if choice = ''deny''
       then record_outcome E v ?a RUNNING ''TOOL_EXECUTION_DENIED'' [(''result'', error_content ''TOOL_EXECUTION_DENIED'')]
       else complete_granted E v ?a) w"
    by (simp add: complete_connector_approval_def Some Let_def bindE_run [of "list_events (v_run_id v) 0", OF assms(1)])
  have quiet: "sends (\<lambda>x. \<not> tool_action E x) w
      (snd (record_outcome E v ?a RUNNING ''TOOL_EXECUTION_DENIED'' extra w))" for extra
  proof -
    have "guar (sends (\<lambda>x. \<not> tool_action E x)) (record_outcome E v ?a RUNNING ''TOOL_EXECUTION_DENIED'' extra)"
      unfolding record_outcome_def leave_waiting_def
      by (intro sn.guar_rules guar_intros set_status_sends) (simp add: TERMINAL_def)
    then show ?thesis by (rule guarD)
  qed
  consider (other) "py_str (dget p ''approval_id'') \<noteq> aid"
    | (deny) "py_str (dget p ''approval_id'') = aid" "choice = ''deny''"
    | (granted) "py_str (dget p ''approval_id'') = aid" "choice \<noteq> ''deny''" by blast
  then show ?thesis
  proof cases
    case other
    then show ?thesis using assms(2) by (simp add: run)
  next
    case deny
    then have "x \<in> set (drop (length (ext_calls w)) (ext_calls (snd (record_outcome E v ?a RUNNING
        ''TOOL_EXECUTION_DENIED'' [(''result'', error_content ''TOOL_EXECUTION_DENIED'')] w))))"
      using assms(2) unfolding run by simp
    from sends_new [OF quiet this] assms(3) show ?thesis by simp
  next
    case granted
    then have "x \<in> set (drop (length (ext_calls w)) (ext_calls (snd (complete_granted E v ?a w))))"
      using assms(2) unfolding run by simp
    from sends_new [OF guarD [OF complete_granted_sends] this] assms(3) granted Some show ?thesis
      by (simp add: completion_request_def)
  qed
qed

text \<open>A call is answered once: the same call identifier with other arguments is refused without
  a trace, and repeated with the same arguments it gets the recorded result again, without any change
  to the tables.\<close>

theorem answered_call_replayed:
  assumes "list_events (v_run_id v) 0 w = (Inr evs, w)"
    and "tcid = stable_tool_call_id att (v_generation v) rpc"
    and "digest = arguments_digest E (dict_of (dget params ''arguments''))"
    and "list_tools E v w = (Inr tools, w')" and "find_tool (text_field params ''name'') tools = Inr listed"
  shows "(find_argument_conflict evs tcid digest \<longrightarrow>
      call_tool E v params (v_generation v) att rpc w
        = (Inr (error_content ''TOOL_CALL_IDEMPOTENCY_CONFLICT''), w))
    \<and> (\<not> find_argument_conflict evs tcid digest \<and> find_tool_result evs tcid digest = Some stored \<longrightarrow>
      call_tool E v params (v_generation v) att rpc w = (Inr (replayed stored), w') \<and> db w' = db w)"
proof -
  have "db w' = db w"
    using guar_result [OF catalog_same_db(2) assms(4)] by (simp add: same_db_def)
  then show ?thesis
    using assms(2-5)
    by (simp add: call_tool_def Let_def bindE_run [of "list_events (v_run_id v) 0", OF assms(1)]
        bindE_run [of "list_tools E v", OF assms(4)] bindE_lift decide_tool_call_def)
qed

section \<open>Closed runs\<close>

lemma record_outcome_closed:
  assumes "find_run w (v_run_id v) = Some r" and "terminal (r_status r)"
    and "distinct (List.map r_id (runs (db w)))"
  shows "record_outcome E v a st out extra w = (Inl stale_write, w\<lparr>uuid_pos := Suc (uuid_pos w)\<rparr>)"
proof -
  have "x = r" if "x \<in> set (runs (db w))" "r_id x = v_run_id v" for x
    using distinct_map_inj [OF assms(3)] find_run_id [OF assms(1)] that by simp
  then have "\<forall>x\<in>set (runs (db w)). \<not> status_for (v_run_id v) st (expect (Some (v_org_id v)) [WAITING_APPROVAL]) x"
    using assms(2) by (auto simp: status_for_def expect_def TERMINAL_def)
  then have "leave_waiting v st w = (Inr (), w)"
    by (simp add: leave_waiting_def thenE_run [OF set_status_no_row] expect_def)
  moreover have "append_event E (v_run_id v) ty p (org_opts org) w = (Inl stale_write, w\<lparr>uuid_pos := Suc (uuid_pos w)\<rparr>)"
    for ty p org
    by (intro append_event_refused known_event_none(1) not_writable_terminal [OF assms])
      (simp add: org_opts_def no_opts_def str_given_def)
  ultimately show ?thesis
    by (simp add: record_outcome_def thenE_def bindE_def)
qed

lemma granted_on_closed_run:
  assumes "list_events (v_run_id v) 0 w = (Inr evs, w)" and "find_pending_approval evs = Some p"
    and "py_str (dget p ''approval_id'') = aid" and "choice \<noteq> ''deny''"
    and "list_tools E v w = (Inr tools, w1)" and "find_tool (text_field p ''tool_name'') tools = Inr (Some tool)"
    and "dget tool ''source'' \<noteq> JStr ''external''"
    and "resolve_route E v (text_field p ''tool_name'') w1 = (Inr (Some route), w2)"
    and "strip (text_field route ''connector_secret_ref_id'') = []"
    and "find_run w (v_run_id v) = Some r" and "terminal (r_status r)"
    and "distinct (List.map r_id (runs (db w)))"
  shows "fst (complete_connector_approval E v aid choice w) = Inl stale_write
    \<and> db (snd (complete_connector_approval E v aid choice w)) = db w
    \<and> (\<exists>cfg. ConnectorRun (text_field p ''tool_name'') (dict_of (dget p ''arguments'')) cfg (v_org_id v)
         \<in> set (ext_calls (snd (complete_connector_approval E v aid choice w))))"
proof -
  let ?a = "approval_of aid p"
  let ?n = "text_field p ''tool_name''" and ?args = "dict_of (dget p ''arguments'')"
  let ?cfg = "[(''connector_kind'', dget route ''connector_kind''),
      (''connector_config'', or_else (dget route ''connector_config'') (JObj [])),
      (''connector_secret_ref_id'', dget route ''connector_secret_ref_id'')]"
  let ?call = "ConnectorRun ?n ?args ?cfg (v_org_id v)"
  let ?w3 = "w2\<lparr>ext_calls := ext_calls w2 @ [?call]\<rparr>"
  have db2: "db w2 = db w"
    using guar_result [OF catalog_same_db(2) assms(5)] guar_result [OF catalog_same_db(3) assms(8)]
    by (simp add: same_db_def)
  have tool: "ap_tool ?a = ?n" "ap_arguments ?a = ?args" by (simp_all add: approval_of_def)
  have closed: "record_outcome E v ?a st out extra u = (Inl stale_write, u\<lparr>uuid_pos := Suc (uuid_pos u)\<rparr>)"
    if "db u = db w" for st out extra u
    using assms(10-12) that by (intro record_outcome_closed [of _ _ r]) (simp_all add: find_run_def)
  have conn: "connector_op E ?n ?args ?cfg (v_org_id v) w2 = (connector_answer E (length (ext_calls w2)) ?call, ?w3)"
    by (simp add: connector_op_def Let_def)
  have "complete_connector_approval E v aid choice w = run_connector E v ?a route w2"
    by (simp add: complete_connector_approval_def complete_granted_def Let_def assms(2-4,7,9)
        bindE_run [of "list_events (v_run_id v) 0", OF assms(1)] bindE_run [of "list_tools E v", OF assms(5)]
        bindE_lift tool assms(6) bindE_run [of "resolve_route E v ?n", OF assms(8)])
  moreover have "\<exists>n. run_connector E v ?a route w2 = (Inl stale_write, ?w3\<lparr>uuid_pos := n\<rparr>)"
  proof (cases "connector_answer E (length (ext_calls w2)) ?call")
    case (Inl e)
    then show ?thesis
      by (simp add: run_connector_def catchE_def tool bindE_raise [of "connector_op E ?n ?args ?cfg (v_org_id v)", OF conn [unfolded Inl]]
          Let_def closed db2) blast
  next
    case (Inr es)
    then show ?thesis
      by (simp add: run_connector_def catchE_def tool bindE_run [of "connector_op E ?n ?args ?cfg (v_org_id v)", OF conn [unfolded Inr]]
          Let_def closed db2) blast
  qed
  ultimately show ?thesis using db2 by auto
qed

text \<open>Nothing stops an approval from acting on a run that is over: granting the approval that was
  pending when the run was cancelled (or ended otherwise) still runs the connector, and only then fails,
  with an error that leaves no record of the action.\<close>

theorem approval_acts_on_closed_run:
  assumes "list_events (v_run_id v) 0 w = (Inr evs, w)" and "find_pending_approval evs = Some p"
    and "py_str (dget p ''approval_id'') = aid" and "choice \<noteq> ''deny''"
    and "list_tools E v w = (Inr tools, w1)" and "find_tool (text_field p ''tool_name'') tools = Inr (Some tool)"
    and "dget tool ''source'' \<noteq> JStr ''external''"
    and "resolve_route E v (text_field p ''tool_name'') w1 = (Inr (Some route), w2)"
    and "strip (text_field route ''connector_secret_ref_id'') = []"
    and "find_run w (v_run_id v) = Some r" and "terminal (r_status r)"
    and "distinct (List.map r_id (runs (db w)))"
  shows "fst (complete_connector_approval E v aid choice w) = Inl stale_write
    \<and> db (snd (complete_connector_approval E v aid choice w)) = db w
    \<and> (\<exists>cfg. ConnectorRun (text_field p ''tool_name'') (dict_of (dget p ''arguments'')) cfg (v_org_id v)
         \<in> set (ext_calls (snd (complete_connector_approval E v aid choice w))))"
  by (rule granted_on_closed_run [OF assms])

section \<open>A concrete run with a pending approval\<close>

definition tool_run :: "run_status \<Rightarrow> run_row" where
  "tool_run st =
     \<lparr>r_id = ''run-1'', r_org_id = ''org-1'', r_user_id = ''user-1'', r_tool_name = ''remote_agent'',
      r_skill_id = None, r_status = st, r_arguments = JObj [], r_snapshot = JObj [], r_result = None,
      r_attempt_id = Some ''att-1'', r_generation = 1, r_next_event_seq = 1, r_dispatch_id = None,
      r_idempotency_key = None, r_command_digest = None, r_lease_until = None, r_worker_id = None,
      r_requires_approval = False, r_run_session_id = None, r_created_at = 0, r_updated_at = 0\<rparr>"

definition pending_payload :: dict where
  "pending_payload =
     [(''approval_id'', JStr ''ap-1''), (''tool_call_id'', JStr ''att-1:1:7''), (''tool_name'', JStr ''send''),
      (''arguments_digest'', JStr ''d''), (''arguments'', JObj [(''to'', JStr ''x'')])]"

definition pending_event :: event_row where
  "pending_event =
     \<lparr>e_id = ''e-1'', e_run_id = ''run-1'', e_attempt_id = None, e_event_type = APPROVAL_EVENT, e_event_seq = 1,
      e_source = ''agent'', e_source_event_id = None, e_payload = pending_payload, e_created_at = 0\<rparr>"

definition tool_world :: "run_status \<Rightarrow> world" where
  "tool_world st = sample_world\<lparr>db := empty_db\<lparr>runs := [tool_run st], events := [pending_event]\<rparr>\<rparr>"

definition tool_answer :: json where
  "tool_answer = JObj [(''tools'', JList [JObj [(''tool_name'', JStr ''send'')]])]"

definition tool_env :: env where
  "tool_env = sample_env\<lparr>http_answer := (\<lambda>_ _. Response 200 (Some tool_answer)), hmac_sha256 := (\<lambda>_ _. ''A''),
     json_loads := (\<lambda>_. Some (JObj [(''run_id'', JStr ''run-1''), (''org_id'', JStr ''org-1''),
       (''attempt_id'', JStr ''att-1''), (''generation'', JInt 1), (''exp'', JInt 60)]))\<rparr>"

abbreviation tool_view :: "run_status \<Rightarrow> run_view" where
  "tool_view st \<equiv> view_of_run (tool_run st)"

lemma tool_view_simps [simp]:
  "v_run_id (tool_view st) = ''run-1''" "v_org_id (tool_view st) = ''org-1''" "v_status (tool_view st) = st"
  "v_tool_name (tool_view st) = ''remote_agent''" "v_attempt_id (tool_view st) = Some ''att-1''"
  "v_generation (tool_view st) = 1" "v_snapshot (tool_view st) = JObj []" "v_user_id (tool_view st) = ''user-1''"
  by (simp_all add: view_of_run_def tool_run_def dict_or_empty_def)

lemma tool_events: "list_events ''run-1'' 0 (tool_world st) = (Inr [event_row_view None pending_event], tool_world st)"
  by (simp add: list_events_def snapshot_trace_id_def bindE_def tool_world_def sample_world_def empty_db_def
      tool_run_def pending_event_def)

lemma tool_pending: "find_pending_approval [event_row_view None pending_event] = Some pending_payload"
  by (simp add: find_pending_approval_def event_row_view_def pending_event_def text_field_def or_else_def
      pending_payload_def decided_approvals_def APPROVAL_EVENT_def RESULT_EVENT_def)

lemma tool_listed:
  "\<exists>w'. list_tools tool_env (tool_view st) w = (Inr [JObj [(''tool_name'', JStr ''send'')]], w')
     \<and> (\<exists>c. catalog_lookup tool_env c \<and> ext_calls w' = ext_calls w @ [c])"
  by (auto simp: list_tools_def catalog_post_def bindE_def http_op_def Let_def tool_env_def tool_answer_def
      catalog_lookup_def sample_env_def)

lemma tool_route: "\<exists>w'. resolve_route tool_env (tool_view st) n w = (Inr (Some (dict_of tool_answer)), w')"
  by (simp add: resolve_route_def catchE_def catalog_post_def bindE_def http_op_def Let_def tool_env_def)

lemma closed_tool_run:
  "list_events (v_run_id (tool_view CANCELLED)) 0 (tool_world CANCELLED)
     = (Inr [event_row_view None pending_event], tool_world CANCELLED)"
  "py_str (dget pending_payload ''approval_id'') = ''ap-1''" "''once'' \<noteq> ''deny''"
  "find_tool (text_field pending_payload ''tool_name'') [JObj [(''tool_name'', JStr ''send'')]]
     = Inr (Some [(''tool_name'', JStr ''send'')])" "dget [(''tool_name'', JStr ''send'')] ''source'' \<noteq> JStr ''external''"
  "strip (text_field (dict_of tool_answer) ''connector_secret_ref_id'') = []"
  "find_run (tool_world CANCELLED) (v_run_id (tool_view CANCELLED)) = Some (tool_run CANCELLED)"
  "terminal (r_status (tool_run CANCELLED))" "distinct (List.map r_id (runs (db (tool_world CANCELLED))))"
  "text_field pending_payload ''tool_name'' = ''send''" "dict_of (dget pending_payload ''arguments'') = [(''to'', JStr ''x'')]"
proof -
  show p: "py_str (dget pending_payload ''approval_id'') = ''ap-1''" "text_field pending_payload ''tool_name'' = ''send''"
    "dict_of (dget pending_payload ''arguments'') = [(''to'', JStr ''x'')]"
    by (simp_all add: pending_payload_def text_field_def or_else_def)
  show "list_events (v_run_id (tool_view CANCELLED)) 0 (tool_world CANCELLED)
     = (Inr [event_row_view None pending_event], tool_world CANCELLED)"
    by (simp add: tool_events)
  show "''once'' \<noteq> ''deny''" by simp
  show "find_tool (text_field pending_payload ''tool_name'') [JObj [(''tool_name'', JStr ''send'')]]
     = Inr (Some [(''tool_name'', JStr ''send'')])" "dget [(''tool_name'', JStr ''send'')] ''source'' \<noteq> JStr ''external''"
    by (simp_all add: p)
  show "strip (text_field (dict_of tool_answer) ''connector_secret_ref_id'') = []"
    by (simp add: tool_answer_def text_field_def or_else_def strip_def lstrip_def rstrip_of_def)
  show "find_run (tool_world CANCELLED) (v_run_id (tool_view CANCELLED)) = Some (tool_run CANCELLED)"
    "terminal (r_status (tool_run CANCELLED))" "distinct (List.map r_id (runs (db (tool_world CANCELLED))))"
    unfolding tool_view_simps by (simp_all add: find_run_def tool_world_def tool_run_def TERMINAL_def)
qed

lemma closed_tool_run_answers:
  "\<exists>w1 w2. list_tools tool_env (tool_view CANCELLED) (tool_world CANCELLED) = (Inr [JObj [(''tool_name'', JStr ''send'')]], w1)
     \<and> resolve_route tool_env (tool_view CANCELLED) (text_field pending_payload ''tool_name'') w1
         = (Inr (Some (dict_of tool_answer)), w2)"
  using tool_listed [of CANCELLED "tool_world CANCELLED"] tool_route by blast

theorem only_granted_actions_run_witness:
  "\<exists>x. x \<in> set (ext_calls (snd (complete_connector_approval tool_env (tool_view CANCELLED) ''ap-1'' ''once'' (tool_world CANCELLED))))
     \<and> tool_action tool_env x \<and> approved_action tool_env (tool_view CANCELLED) (approval_of ''ap-1'' pending_payload) x"
proof -
  obtain w1 w2 where w: "list_tools tool_env (tool_view CANCELLED) (tool_world CANCELLED) = (Inr [JObj [(''tool_name'', JStr ''send'')]], w1)"
    "resolve_route tool_env (tool_view CANCELLED) (text_field pending_payload ''tool_name'') w1 = (Inr (Some (dict_of tool_answer)), w2)"
    using closed_tool_run_answers by blast
  let ?s = "snd (complete_connector_approval tool_env (tool_view CANCELLED) ''ap-1'' ''once'' (tool_world CANCELLED))"
  obtain x where x: "x \<in> set (ext_calls ?s)" "tool_action tool_env x"
    using granted_on_closed_run [OF closed_tool_run(1) tool_pending closed_tool_run(2,3) w(1) closed_tool_run(4,5) w(2)
        closed_tool_run(6-9)] unfolding tool_action_def by blast
  have d: "x \<in> set (drop (length (ext_calls (tool_world CANCELLED))) (ext_calls ?s))"
    using x(1) by (simp add: tool_world_def sample_world_def)
  from only_granted_actions_run [OF closed_tool_run(1) d x(2)] tool_pending x show ?thesis by auto
qed

theorem approval_acts_on_closed_run_witness:
  "\<exists>cfg. ConnectorRun ''send'' [(''to'', JStr ''x'')] cfg ''org-1''
     \<in> set (ext_calls (snd (complete_connector_approval tool_env (tool_view CANCELLED) ''ap-1'' ''once'' (tool_world CANCELLED))))"
proof -
  obtain w1 w2 where w: "list_tools tool_env (tool_view CANCELLED) (tool_world CANCELLED) = (Inr [JObj [(''tool_name'', JStr ''send'')]], w1)"
    "resolve_route tool_env (tool_view CANCELLED) (text_field pending_payload ''tool_name'') w1 = (Inr (Some (dict_of tool_answer)), w2)"
    using closed_tool_run_answers by blast
  from approval_acts_on_closed_run [OF closed_tool_run(1) tool_pending closed_tool_run(2,3) w(1) closed_tool_run(4,5) w(2)
        closed_tool_run(6-9)] show ?thesis
    unfolding closed_tool_run(10,11) tool_view_simps by (elim conjE)
qed

theorem agent_call_never_acts_witness:
  "\<exists>x. x \<in> set (ext_calls (snd (agent_tools_mcp tool_env [(''method'', JStr ''tools/list'')] (Some ''QQ.QQ'') (tool_world RUNNING))))
     \<and> \<not> tool_action tool_env x"
proof -
  let ?w = "tool_world RUNNING"
  have v: "verify_capability tool_env (Some ''QQ.QQ'') (capability_signing_key tool_env) (clock ?w) =
      Inr (Some [(''run_id'', JStr ''run-1''), (''org_id'', JStr ''org-1''),
       (''attempt_id'', JStr ''att-1''), (''generation'', JInt 1), (''exp'', JInt 60)], [])"
    by code_simp
  have g: "get_run ''run-1'' (Some ''org-1'') ?w = (Inr (Some (tool_view RUNNING)), ?w)"
    by (simp add: get_run_def bindE_def tool_world_def tool_run_def)
  obtain w1 c where w1: "list_tools tool_env (tool_view RUNNING) ?w = (Inr [JObj [(''tool_name'', JStr ''send'')]], w1)"
    "ext_calls w1 = ext_calls ?w @ [c]"
    using tool_listed [of RUNNING ?w] by blast
  have run: "snd (agent_tools_mcp tool_env [(''method'', JStr ''tools/list'')] (Some ''QQ.QQ'') ?w) = w1"
    by (simp add: agent_tools_mcp_def bindE_run [of now_op] v text_field_def or_else_def Let_def
        bindE_run [of "get_run ''run-1'' (Some ''org-1'')", OF g] mcp_dispatch_def TERMINAL_def str_or_def
        bindE_run [of "list_tools tool_env (tool_view RUNNING)", OF w1(1)])
  have "length (ext_calls ?w) = 0" by (simp add: tool_world_def sample_world_def)
  with w1(2) run agent_call_never_acts [of c ?w tool_env "[(''method'', JStr ''tools/list'')]" "Some ''QQ.QQ''"]
  show ?thesis by auto
qed


lemma listed_decided:
  assumes "list_events rid 0 w = (Inr evs, w)" and "e \<in> set (events (db w))" and "e_run_id e = rid"
    and "0 < e_event_seq e" and "e_event_type e = RESULT_EVENT" and "dget (e_payload e) ''approval_id'' = JStr aid"
    and "find_pending_approval evs = Some p"
  shows "text_field p ''approval_id'' \<noteq> aid"
proof -
  obtain t where "snapshot_trace_id rid w = (Inr t, w)" using snapshot_trace_id_run by blast
  then have "event_row_view t e \<in> set evs" using assms(1-4) by (auto simp: list_events_def bindE_def)
  then have "py_str (dget (ev_payload (event_row_view t e)) ''approval_id'') \<in> set (decided_approvals evs)"
    using assms(5) unfolding decided_approvals_def by (force simp: event_row_view_def)
  then have "aid \<in> set (decided_approvals evs)" using assms(6) by (simp add: event_row_view_def)
  with assms(7) show ?thesis by (auto simp: find_pending_approval_def dest: find_Some_set)
qed

text \<open>Denying the pending approval of a waiting run resumes the run, records the refusal as the
  result of the call, leaves no approval pending under that identifier, and asks nobody anything.\<close>

theorem denied_approval_recorded:
  assumes "list_events (v_run_id v) 0 w = (Inr evs, w)" and "find_pending_approval evs = Some p"
    and "py_str (dget p ''approval_id'') = aid"
    and "find_run w (v_run_id v) = Some r" and "r_status r = WAITING_APPROVAL" and "r_org_id r = v_org_id v"
  shows "\<exists>w' e. complete_connector_approval E v aid ''deny'' w = (Inr True, w')
    \<and> status_of w' (v_run_id v) = Some RUNNING \<and> events (db w') = events (db w) @ [e]
    \<and> e_event_type e = RESULT_EVENT \<and> e_run_id e = v_run_id v
    \<and> dget (e_payload e) ''outcome'' = JStr ''TOOL_EXECUTION_DENIED'' \<and> ext_calls w' = ext_calls w
    \<and> (\<forall>evs' p'. list_events (v_run_id v) 0 w' = (Inr evs', w') \<and> find_pending_approval evs' = Some p'
         \<longrightarrow> text_field p' ''approval_id'' \<noteq> aid)"
proof -
  let ?rid = "v_run_id v" and ?a = "approval_of aid p" and ?so = "expect (Some (v_org_id v)) [WAITING_APPROVAL]"
  let ?eo = "org_opts (Some (v_org_id v))"
  let ?payload = "[(''approval_id'', JStr (ap_id ?a)), (''tool_call_id'', JStr (ap_call_id ?a)),
      (''arguments_digest'', JStr (ap_digest ?a)), (''outcome'', JStr ''TOOL_EXECUTION_DENIED'')]
      @ [(''result'', error_content ''TOOL_EXECUTION_DENIED'')]"
  let ?w1 = "status_written w ?rid RUNNING ?so" and ?r1 = "after_status RUNNING ?so (clock w) r"
  have c: "status_for ?rid RUNNING ?so r"
    using assms(4-6) find_run_id [OF assms(4)] by (simp add: status_for_def expect_def when_given_def)
  have s: "set_status ?rid RUNNING ?so w = (Inr True, ?w1)"
    by (rule set_status_live [OF assms(4) c]) (simp add: TERMINAL_def)
  have f1: "find_run ?w1 ?rid = Some ?r1" by (rule status_written_find [OF assms(4) c])
  have wr: "writable_for ?rid ?eo ?r1"
    using find_run_id [OF assms(4)] assms(6)
    by (simp add: writable_for_def after_status_def org_opts_def no_opts_def when_given_def TERMINAL_def)
  define e where "e = event_row_for E ?w1 ?rid RESULT_EVENT (stored_payload ?payload ?eo) ?eo ?r1"
  let ?w2 = "event_written ?w1 ?rid ?eo e"
  obtain ev where a: "append_event E ?rid RESULT_EVENT ?payload ?eo ?w1 = (Inr ev, ?w2)"
    using append_event_live [OF f1 wr _ e_def] by (auto simp: org_opts_def no_opts_def str_given_def)
  have pl: "e_payload e = ?payload"
    by (simp add: e_def event_row_for_def stored_payload_def org_opts_def no_opts_def
        omit_runtime_binding_keys_def RUNTIME_BINDING_PUBLIC_OMIT_KEYS_def)
  have e: "e_event_type e = RESULT_EVENT" "e_run_id e = ?rid" "0 < e_event_seq e"
    by (simp_all add: e_def event_row_for_def)
  have "leave_waiting v RUNNING w = (Inr (), ?w1)" by (simp add: leave_waiting_def thenE_run [of "set_status ?rid RUNNING ?so", OF s])
  then have run: "record_outcome E v ?a RUNNING ''TOOL_EXECUTION_DENIED'' [(''result'', error_content ''TOOL_EXECUTION_DENIED'')] w
      = (Inr True, ?w2)"
    by (simp only: record_outcome_def thenE_run [of "leave_waiting v RUNNING"] thenE_run [of "append_event E ?rid RESULT_EVENT ?payload ?eo", OF a] returnE_run)
  have "complete_connector_approval E v aid ''deny'' w = (Inr True, ?w2)"
    by (simp add: complete_connector_approval_def assms(2,3) Let_def run
        bindE_run [of "list_events ?rid 0", OF assms(1)])
  moreover have "status_of ?w2 ?rid = Some RUNNING"
    using event_written_find [OF f1 wr] by (simp add: status_of_def after_status_def)
  moreover have "dget (e_payload e) ''outcome'' = JStr ''TOOL_EXECUTION_DENIED''"
    "dget (e_payload e) ''approval_id'' = JStr aid"
    by (simp_all add: pl approval_of_def)
  ultimately show ?thesis
    using e listed_decided [of ?rid ?w2 _ e aid] by (intro exI [of _ ?w2] exI [of _ e]) simp
qed

theorem denied_approval_recorded_witness:
  "\<exists>w'. complete_connector_approval tool_env (tool_view WAITING_APPROVAL) ''ap-1'' ''deny'' (tool_world WAITING_APPROVAL)
      = (Inr True, w') \<and> status_of w' ''run-1'' = Some RUNNING"
proof -
  have p: "py_str (dget pending_payload ''approval_id'') = ''ap-1''" by (simp add: pending_payload_def)
  have r: "find_run (tool_world WAITING_APPROVAL) (v_run_id (tool_view WAITING_APPROVAL)) = Some (tool_run WAITING_APPROVAL)"
    "r_status (tool_run WAITING_APPROVAL) = WAITING_APPROVAL"
    "r_org_id (tool_run WAITING_APPROVAL) = v_org_id (tool_view WAITING_APPROVAL)"
    by (simp_all only: tool_view_simps) (simp_all add: find_run_def tool_world_def tool_run_def)
  from denied_approval_recorded [OF _ tool_pending p r, of tool_env] show ?thesis
    by (auto simp: tool_events)
qed

theorem answered_call_replayed_witness:
  "\<exists>w'. call_tool tool_env (tool_view RUNNING) [(''name'', JStr ''send'')] 1 ''att-1'' ''7'' (tool_world RUNNING)
      = (Inr (error_content ''TOOL_CALL_IDEMPOTENCY_CONFLICT''), w')"
proof -
  obtain w1 where w1: "list_tools tool_env (tool_view RUNNING) (tool_world RUNNING)
      = (Inr [JObj [(''tool_name'', JStr ''send'')]], w1)" using tool_listed by blast
  have e: "list_events (v_run_id (tool_view RUNNING)) 0 (tool_world RUNNING)
      = (Inr [event_row_view None pending_event], tool_world RUNNING)"
    by (simp add: tool_events)
  have f: "find_tool (text_field [(''name'', JStr ''send'')] ''name'') [JObj [(''tool_name'', JStr ''send'')]]
      = Inr (Some [(''tool_name'', JStr ''send'')])"
    by (simp add: text_field_def or_else_def)
  have d: "find_argument_conflict [event_row_view None pending_event] (stable_tool_call_id ''att-1'' 1 ''7'')
      (arguments_digest tool_env (dict_of (dget [(''name'', JStr ''send'')] ''arguments'')))"
    by code_simp
  from answered_call_replayed [OF e refl refl w1 f] d show ?thesis by auto
qed

end
