(* ===== verification/Run_Control.thy ===== *)
theory Run_Control
  imports Run_Steps Hermes_Control Agent_Tools
begin

text \<open>
  Resuming, approving and cancelling a run: \<open>resume_run\<close>, \<open>approve_run\<close>, \<open>cancel_run\<close> of
  \<open>services/run_service.py\<close> and their endpoints in \<open>api/internal_runs.py\<close>. A request is a
  transaction: when its handler raises, the tables are rolled back (\<open>get_db\<close> of \<open>db.py\<close>).
\<close>

section \<open>Transactions\<close>

definition request :: "'a op \<Rightarrow> 'a op" where
  "request m = (\<lambda>w. case m w of (r, w') \<Rightarrow>
     (case r of Inl e \<Rightarrow> (Inl e, w'\<lparr>db := db w\<rparr>) | Inr a \<Rightarrow> (Inr a, w')))"

lemma request_Inr: "m w = (Inr a, w') \<Longrightarrow> request m w = (Inr a, w')"
  by (simp add: request_def)

lemma request_Inl: "m w = (Inl e, w') \<Longrightarrow> request m w = (Inl e, w'\<lparr>db := db w\<rparr>)"
  by (simp add: request_def)

lemma request_safe [guar_intros]: "guar safe m \<Longrightarrow> guar safe (request m)"
proof -
  assume m: "guar safe m"
  have db: "safe w w'" if "db w' = db w" for w w' :: world
    using that by (simp add: safe_def terminal_kept_def log_grows_def log_kept_def frozen_def log_ok_def
        status_of_def find_run_def events_of_def)
  show ?thesis
    using m by (auto simp: guar_def request_def split: prod.split sum.split intro: db) (metis snd_conv)
qed

section \<open>Resuming and approving\<close>

text \<open>Back into the queue: two status changes, each with its event.\<close>

definition requeue :: "env \<Rightarrow> string \<Rightarrow> string \<Rightarrow> run_status list \<Rightarrow> dict \<Rightarrow> run_view option op" where
  "requeue E run_id org_id waiting_in evidence_payload =
     thenE (set_status run_id RESUMING (expect (Some org_id) waiting_in))
     (thenE (append_event E run_id ''run.resuming'' evidence_payload (org_opts (Some org_id)))
     (thenE (set_status run_id QUEUED (expect (Some org_id) [RESUMING]))
     (thenE (append_event E run_id ''run.queued'' [(''status'', JStr ''QUEUED'')] (org_opts (Some org_id)))
       (get_run run_id (Some org_id)))))"

definition resume_run :: "env \<Rightarrow> string \<Rightarrow> string \<Rightarrow> json \<Rightarrow> run_view option op" where
  "resume_run E run_id org_id evidence =
     bindE (get_run run_id (Some org_id)) (\<lambda>run.
     case run of
       None \<Rightarrow> returnE None
     | Some v \<Rightarrow>
         if v_status v = WAITING_APPROVAL
         then raiseE (ValueError ''run in WAITING_APPROVAL state requires approval via approve endpoint, not resume'')
         else if v_status v \<in> {PAUSED, SUSPENDED}
         then requeue E run_id org_id [PAUSED, SUSPENDED]
                [(''status'', JStr ''RESUMING''), (''evidence'', or_else evidence (JObj []))]
         else returnE run)"

definition bound_runtime :: "binding option \<Rightarrow> string option" where
  "bound_runtime binding =
     (case binding of None \<Rightarrow> None
      | Some b \<Rightarrow> if str_set (b_runtime_run_id b) then b_runtime_run_id b else None)"

definition control_of :: "run_view \<Rightarrow> binding \<Rightarrow> string \<Rightarrow> string \<Rightarrow> string \<Rightarrow> control_target" where
  "control_of v b gateway_url org_id runtime_run_id =
     \<lparr>ct_attempt_id = str_or (v_attempt_id v) [],
      ct_generation = control_generation (v_generation v) (Some b),
      ct_gateway_url = gateway_url, ct_runtime_run_id = runtime_run_id,
      ct_snapshot = dict_of (v_snapshot v), ct_org_id = org_id, ct_run_id = v_run_id v\<rparr>"

definition attempt_binding :: "run_view \<Rightarrow> binding option op" where
  "attempt_binding v =
     (if str_set (v_attempt_id v) then get_runtime_binding (str_or (v_attempt_id v) []) else returnE None)"

definition approve_at_runtime ::
  "env \<Rightarrow> run_view \<Rightarrow> string \<Rightarrow> string \<Rightarrow> binding \<Rightarrow> string \<Rightarrow> run_view option op" where
  "approve_at_runtime E v org_id choice b runtime_run_id =
     (let gateway_url = gateway_from_snapshot (dict_of (v_snapshot v)) in
      if gateway_url = [] then raiseE (ValueError ''runtime gateway is not configured'')
      else
        bindE (respond_runtime_approval E (control_of v b gateway_url org_id runtime_run_id) (Some choice)) (\<lambda>result.
        if result = Some ''fenced'' then raiseE (ValueError ''stale runtime generation'')
        else if str_set result then raiseE (ValueError (str_or result []))
        else get_run (v_run_id v) (Some org_id)))"

definition settle_waiting :: "env \<Rightarrow> run_view \<Rightarrow> string \<Rightarrow> string \<Rightarrow> string \<Rightarrow> json \<Rightarrow> run_view option op" where
  "settle_waiting E v org_id choice approval_id evidence =
     (if v_status v \<noteq> WAITING_APPROVAL then returnE (Some v)
      else if choice = ''deny'' then
        thenE (set_status (v_run_id v) FAILED (expect (Some org_id) [WAITING_APPROVAL]))
        (thenE (append_terminal_event E (v_run_id v) ''run.failed''
           [(''status'', JStr ''FAILED''), (''approval_id'', JStr approval_id), (''reason'', JStr ''denied'')]
           (Some org_id))
          (get_run (v_run_id v) (Some org_id)))
      else
        requeue E (v_run_id v) org_id [WAITING_APPROVAL]
          [(''status'', JStr ''RESUMING''), (''approval_id'', JStr approval_id), (''evidence'', evidence)])"

definition record_approval :: "env \<Rightarrow> string \<Rightarrow> string \<Rightarrow> string \<Rightarrow> json \<Rightarrow> unit op" where
  "record_approval E run_id approval_id choice evidence =
     bindE (fresh_uuid E) (\<lambda>row_id. bindE now_op (\<lambda>now.
       upsert_approval \<lparr>p_id = row_id, p_run_id = run_id, p_approval_id = approval_id,
         p_decision = (if choice = ''deny'' then ''DENIED'' else ''APPROVED''),
         p_evidence = evidence, p_created_at = now\<rparr>))"

definition approve_run :: "env \<Rightarrow> string \<Rightarrow> string \<Rightarrow> string \<Rightarrow> json \<Rightarrow> json \<Rightarrow> run_view option op" where
  "approve_run E run_id org_id approval_id evidence decision =
     bindE (get_run run_id (Some org_id)) (\<lambda>run.
     case run of
       None \<Rightarrow> returnE None
     | Some v \<Rightarrow>
         if approval_id = [] then raiseE (ValueError ''approval_id is required to approve run'')
         else
           bindE (liftE (normalize_hermes_approval_choice (Some (py_str (or_else decision (JStr ''approve''))))))
             (\<lambda>choice.
           let evidence_dict = or_else evidence (JObj []) in
           bindE (if v_tool_name v = ''remote_agent''
                  then complete_connector_approval E v approval_id choice else returnE False) (\<lambda>handled.
           if handled then get_run run_id (Some org_id)
           else
             thenE (record_approval E run_id approval_id choice evidence_dict)
             (bindE (attempt_binding v) (\<lambda>binding.
              case (binding, bound_runtime binding) of
                (Some b, Some runtime_run_id) \<Rightarrow> approve_at_runtime E v org_id choice b runtime_run_id
              | _ \<Rightarrow> settle_waiting E v org_id choice approval_id evidence_dict)))))"

section \<open>Cancelling\<close>

definition open_step :: "step_row \<Rightarrow> bool" where
  "open_step s \<longleftrightarrow> st_status s \<in> {STEP_PENDING, STEP_READY, STEP_DISPATCHED, STEP_RUNNING}"

definition cancel_open_steps :: "string \<Rightarrow> unit op" where
  "cancel_open_steps run_id =
     bindE now_op (\<lambda>now.
     bindE (update_steps (\<lambda>s. st_run_id s = run_id \<and> open_step s)
              (\<lambda>s. s\<lparr>st_status := STEP_CANCELLED, st_updated_at := now\<rparr>)) (\<lambda>_. returnE ()))"

definition start_cancelling :: "env \<Rightarrow> run_view \<Rightarrow> string \<Rightarrow> run_status list \<Rightarrow> unit op" where
  "start_cancelling E v org_id from_states =
     bindE (set_status (v_run_id v) CANCELLING (expect (Some org_id) from_states)) (\<lambda>ok.
     whenE ok (thenE (append_event E (v_run_id v) ''run.cancelling'' [(''status'', JStr ''CANCELLING'')]
                        (org_opts (Some org_id))) (returnE ())))"

definition cancel_attempt :: "run_view \<Rightarrow> unit op" where
  "cancel_attempt v =
     whenE (str_set (v_attempt_id v))
       (bindE now_op (\<lambda>now.
        bindE (update_attempts
          (\<lambda>t. Some (t_id t) = v_attempt_id v \<and> t_status t \<in> {ATT_PREPARING, ATT_RUNNING})
          (\<lambda>t. t\<lparr>t_status := ATT_CANCELLED, t_completed_at := Some now,
                 t_error_message := Some ''run cancelled''\<rparr>)) (\<lambda>_. returnE ())))"

definition cancel_now :: "env \<Rightarrow> run_view \<Rightarrow> string \<Rightarrow> run_view option op" where
  "cancel_now E v org_id =
     thenE (cancel_attempt v)
     (thenE (cancel_open_steps (v_run_id v))
       (finish_run E (v_run_id v) (Some org_id) CANCELLED
         (expect (Some org_id) [QUEUED, WAITING_APPROVAL, PAUSED, SUSPENDED, CANCELLING])
         ''run.cancelled'' [(''status'', JStr ''CANCELLED'')] (returnE ())))"

definition runtime_gone :: "string option \<Rightarrow> engine_event option \<Rightarrow> bool" where
  "runtime_gone stop_result ended \<longleftrightarrow>
     stop_result = Some ''stop_404''
     \<or> (case ended of None \<Rightarrow> False | Some e \<Rightarrow> en_event_type e \<in> {''run.cancelled'', ''run.failed''})"

definition cancel_at_runtime :: "env \<Rightarrow> run_view \<Rightarrow> string \<Rightarrow> binding \<Rightarrow> string \<Rightarrow> run_view option op" where
  "cancel_at_runtime E v org_id b runtime_run_id =
     thenE (start_cancelling E v org_id [WAITING_APPROVAL, PREPARING, RUNNING, RESUMING])
     (let gateway_url = gateway_from_snapshot (dict_of (v_snapshot v));
          c = control_of v b gateway_url org_id runtime_run_id in
      if gateway_url = [] then cancel_now E v org_id
      else
        bindE (catchE (stop_runtime_attempt E c) (\<lambda>_. returnE (Some ''RUNTIME_STOP_FAILED''))) (\<lambda>stop_result.
        bindE (catchE (inspect_runtime_terminal E c) (\<lambda>_. returnE None)) (\<lambda>ended.
        if runtime_gone stop_result ended then cancel_now E v org_id
        else get_run (v_run_id v) (Some org_id))))"

definition cancel_run :: "env \<Rightarrow> string \<Rightarrow> string \<Rightarrow> run_view option op" where
  "cancel_run E run_id org_id =
     bindE (get_run run_id (Some org_id)) (\<lambda>run.
     case run of
       None \<Rightarrow> returnE None
     | Some v \<Rightarrow>
         if terminal (v_status v) then returnE run
         else if v_status v = WAITING_EDGE then
           thenE (start_cancelling E v org_id [WAITING_EDGE, PREPARING, RUNNING, RESUMING])
           (thenE (cancel_open_steps run_id)
             (aggregate_run_terminal E run_id (Some org_id) None None))
         else if v_status v \<in> {PREPARING, RUNNING, RESUMING} \<and> str_set (v_attempt_id v) then
           thenE (start_cancelling E v org_id [PREPARING, RUNNING, RESUMING])
             (get_run run_id (Some org_id))
         else
           bindE (if v_status v = WAITING_APPROVAL then attempt_binding v else returnE None) (\<lambda>binding.
           case (binding, bound_runtime binding) of
             (Some b, Some runtime_run_id) \<Rightarrow> cancel_at_runtime E v org_id b runtime_run_id
           | _ \<Rightarrow> cancel_now E v org_id))"

section \<open>The endpoints\<close>

record mutation_response =
  mr_org_id :: string
  mr_run_id :: string
  mr_status :: run_status
  mr_idempotent :: bool

definition mutation_of :: "run_view \<Rightarrow> mutation_response" where
  "mutation_of v = \<lparr>mr_org_id = v_org_id v, mr_run_id = v_run_id v, mr_status = v_status v, mr_idempotent = True\<rparr>"

definition or_404 :: "run_view option \<Rightarrow> mutation_response op" where
  "or_404 res = (case res of None \<Rightarrow> raiseE (HTTPException 404 ''run not found'') | Some v \<Rightarrow> returnE (mutation_of v))"

text \<open>\<open>except ValueError as exc: raise HTTPException(400, str(exc))\<close>.\<close>

definition value_error_400 :: "exn \<Rightarrow> 'a op" where
  "value_error_400 e = (case e of ValueError m \<Rightarrow> raiseE (HTTPException 400 m) | _ \<Rightarrow> raiseE e)"

definition cancel_internal_run :: "env \<Rightarrow> string \<Rightarrow> string \<Rightarrow> mutation_response op" where
  "cancel_internal_run E run_id x_org = request
     (bindE (get_run run_id (Some x_org)) (\<lambda>run.
      if run = None then raiseE (HTTPException 404 ''run not found'')
      else bindE (cancel_run E run_id x_org) or_404))"

definition resume_internal_run :: "env \<Rightarrow> string \<Rightarrow> string \<Rightarrow> dict \<Rightarrow> mutation_response op" where
  "resume_internal_run E run_id x_org body = request
     (bindE (get_run run_id (Some x_org)) (\<lambda>run.
      case run of
        None \<Rightarrow> raiseE (HTTPException 404 ''run not found'')
      | Some v \<Rightarrow>
          if v_status v = WAITING_APPROVAL
          then raiseE (HTTPException 400 ''run in WAITING_APPROVAL state requires approval, not resume'')
          else bindE (catchE (resume_run E run_id x_org (dget body ''evidence'')) value_error_400) or_404))"

definition forbidden_choice :: "json \<Rightarrow> bool" where
  "forbidden_choice raw \<longleftrightarrow> lower (strip (py_str (or_else raw (JStr [])))) \<in> {''session'', ''always''}"

definition approve_internal_run :: "env \<Rightarrow> string \<Rightarrow> string \<Rightarrow> string \<Rightarrow> dict \<Rightarrow> mutation_response op" where
  "approve_internal_run E run_id approval_id x_org body = request
     (bindE (get_run run_id (Some x_org)) (\<lambda>run.
      if run = None then raiseE (HTTPException 404 ''run not found'')
      else if forbidden_choice (dget body ''choice'') \<or> forbidden_choice (dget body ''decision'')
      then raiseE (HTTPException 400 ''client must not submit session/always'')
      else
        bindE (catchE (approve_run E run_id x_org approval_id (dget body ''evidence'')
                 (or_else (dget body ''decision'') (dget body ''choice''))) value_error_400) or_404))"

section \<open>Guarantees\<close>

lemma requeue_safe [guar_intros]:
  "\<forall>s\<in>set es. \<not> terminal s \<Longrightarrow> guar safe (requeue E rid org es p)"
  unfolding requeue_def by (intro sw.guar_rules guar_intros) (simp_all add: TERMINAL_def)

lemma resume_run_safe [guar_intros]: "guar safe (resume_run E rid org ev)"
  unfolding resume_run_def by (intro sw.guar_rules guar_intros) (simp_all add: TERMINAL_def)

lemma attempt_binding_same_log: "guar same_log (attempt_binding v)"
  unfolding attempt_binding_def by (intro sl.guar_rules guar_intros)

lemma record_approval_same_log: "guar same_log (record_approval E rid aid ch ev)"
  unfolding record_approval_def by (intro sl.guar_rules guar_intros)

lemma cancel_rows_same_log: "guar same_log (cancel_open_steps rid)" "guar same_log (cancel_attempt v)"
  unfolding cancel_open_steps_def cancel_attempt_def by (intro sl.guar_rules guar_intros)+

lemmas control_rows_guar [guar_intros] =
  attempt_binding_same_log [THEN guar_same_log] record_approval_same_log [THEN guar_same_log]
  cancel_rows_same_log [THEN guar_same_log]

lemma guar_case_bound:
  "(\<And>b r. x = Some b \<Longrightarrow> y = Some r \<Longrightarrow> guar R (f b r)) \<Longrightarrow> guar R m \<Longrightarrow>
   guar R (case (x, y) of (Some b, Some r) \<Rightarrow> f b r | _ \<Rightarrow> m)"
  by (cases x; cases y) auto

lemma settle_waiting_safe [guar_intros]: "guar safe (settle_waiting E v org ch aid ev)"
  unfolding settle_waiting_def by (intro sw.guar_rules guar_intros) (simp_all add: TERMINAL_def)

lemma approve_run_safe [guar_intros]: "guar safe (approve_run E rid org aid ev d)"
  unfolding approve_run_def approve_at_runtime_def
  by (intro sw.guar_rules guar_intros guar_case_bound)

lemma start_cancelling_safe [guar_intros]:
  "\<forall>s\<in>set es. \<not> terminal s \<Longrightarrow> guar safe (start_cancelling E v org es)"
  unfolding start_cancelling_def by (intro sw.guar_rules guar_intros) simp

lemma cancel_now_safe [guar_intros]: "guar safe (cancel_now E v org)"
  unfolding cancel_now_def by (intro sw.guar_rules guar_intros) (simp add: TERMINAL_def)

lemma cancel_run_safe [guar_intros]: "guar safe (cancel_run E rid org)"
  unfolding cancel_run_def cancel_at_runtime_def
  by (intro sw.guar_rules guar_intros guar_case_bound) (simp_all add: TERMINAL_def)

lemma value_error_400_safe: "guar safe (value_error_400 e)"
  unfolding value_error_400_def by (cases e) (simp_all add: sw.guar_raise)

lemma endpoints_safe [guar_intros]:
  "guar safe (cancel_internal_run E rid org)" "guar safe (resume_internal_run E rid org body)"
  "guar safe (approve_internal_run E rid aid org body)"
  unfolding cancel_internal_run_def resume_internal_run_def approve_internal_run_def or_404_def
  by (intro request_safe sw.guar_rules guar_intros value_error_400_safe)+

section \<open>Back into the queue\<close>

lemma get_run_of_find:
  assumes "find_run w rid = Some r" and "r_org_id r = org"
  shows "get_run rid (Some org) w = (Inr (Some (view_of_run r)), w)"
proof -
  have "find (\<lambda>x. r_id x = rid \<and> Some (r_org_id x) = Some org) (runs (db w)) = Some r"
    using assms find_run_id [OF assms(1)] unfolding find_run_def by (elim find_stronger) auto
  then show ?thesis by (simp add: get_run_def bindE_def)
qed

lemma view_of_run_simps [simp]:
  "v_status (view_of_run r) = r_status r" "v_run_id (view_of_run r) = r_id r" "v_org_id (view_of_run r) = r_org_id r"
  "v_attempt_id (view_of_run r) = r_attempt_id r" "v_tool_name (view_of_run r) = r_tool_name r"
  by (simp_all add: view_of_run_def)

lemma after_status_simps [simp]:
  "r_status (after_status st opts now r) = st" "r_id (after_status st opts now r) = r_id r"
  "r_org_id (after_status st opts now r) = r_org_id r" "r_attempt_id (after_status st opts now r) = r_attempt_id r"
  "r_next_event_seq (after_status st opts now r) = r_next_event_seq r" "r_tool_name (after_status st opts now r) = r_tool_name r"
  by (simp_all add: after_status_def)

lemma writable_org: "r_id r = rid \<Longrightarrow> r_org_id r = org \<Longrightarrow> \<not> terminal (r_status r) \<Longrightarrow>
    writable_for rid (org_opts (Some org)) r"
  by (simp add: writable_for_def org_opts_def no_opts_def when_given_def)

lemma status_for_expect: "r_id r = rid \<Longrightarrow> r_org_id r = org \<Longrightarrow>
    status_for rid st (expect (Some org) es) r \<longleftrightarrow> r_status r \<in> set es"
  by (simp add: status_for_def expect_def when_given_def)

text \<open>A status change together with its event.\<close>

lemma move_run:
  assumes "find_run w rid = Some r" and "r_org_id r = org" and "r_status r \<in> set es" and "\<not> terminal st"
  shows "\<exists>w1 w2 v e r2. set_status rid st (expect (Some org) es) w = (Inr True, w1)
    \<and> append_event E rid ty p (org_opts (Some org)) w1 = (Inr v, w2)
    \<and> find_run w2 rid = Some r2 \<and> r_org_id r2 = org \<and> r_status r2 = st
    \<and> r_next_event_seq r2 = Suc (r_next_event_seq r)
    \<and> events (db w2) = events (db w) @ [e] \<and> e_event_type e = ty \<and> e_run_id e = rid
    \<and> e_event_seq e = Suc (r_next_event_seq r) \<and> e_payload e = stored_payload p (org_opts (Some org))
    \<and> steps (db w2) = steps (db w) \<and> attempts (db w2) = attempts (db w) \<and> ext_calls w2 = ext_calls w
    \<and> approvals (db w2) = approvals (db w)
    \<and> List.map r_id (runs (db w2)) = List.map r_id (runs (db w))"
proof -
  let ?so = "expect (Some org) es" and ?eo = "org_opts (Some org)"
  have rid: "r_id r = rid" using find_run_id [OF assms(1)] by simp
  have c: "status_for rid st ?so r" using status_for_expect [OF rid assms(2)] assms(3) by simp
  let ?w1 = "status_written w rid st ?so" and ?r1 = "after_status st ?so (clock w) r"
  have s: "set_status rid st ?so w = (Inr True, ?w1)" by (rule set_status_live [OF assms(1) c assms(4)])
  have f: "find_run ?w1 rid = Some ?r1" by (rule status_written_find [OF assms(1) c])
  have wr: "writable_for rid ?eo ?r1" using rid assms(2,4) by (intro writable_org) simp_all
  define e where "e = event_row_for E ?w1 rid ty (stored_payload p ?eo) ?eo ?r1"
  obtain v where a: "append_event E rid ty p ?eo ?w1 = (Inr v, event_written ?w1 rid ?eo e)"
    using append_event_live [OF f wr _ e_def] by (auto simp: org_opts_def no_opts_def str_given_def)
  have app: "approvals (db (event_written ?w1 rid ?eo e)) = approvals (db w)"
    by (simp add: event_written_def status_written_def)
  show ?thesis
    by (rule exI [of _ ?w1], rule exI [of _ "event_written ?w1 rid ?eo e"], rule exI [of _ v], rule exI [of _ e],
        rule exI [of _ "?r1\<lparr>r_next_event_seq := Suc (r_next_event_seq ?r1), r_updated_at := clock ?w1\<rparr>"],
        intro conjI s a event_written_find [OF f wr] app)
      (simp_all add: assms(2) e_def event_row_for_def)
qed

lemma requeue_run:
  assumes "find_run w rid = Some r" and "r_org_id r = org" and "r_status r \<in> set es"
  shows "\<exists>w' v e1 e2. requeue E rid org es p w = (Inr (Some v), w') \<and> v_status v = QUEUED
    \<and> status_of w' rid = Some QUEUED \<and> events (db w') = events (db w) @ [e1, e2]
    \<and> e_event_type e1 = ''run.resuming'' \<and> e_payload e1 = stored_payload p (org_opts (Some org))
    \<and> e_event_type e2 = ''run.queued'' \<and> e_run_id e1 = rid \<and> e_run_id e2 = rid
    \<and> e_event_seq e1 = Suc (r_next_event_seq r) \<and> e_event_seq e2 = Suc (Suc (r_next_event_seq r))
    \<and> approvals (db w') = approvals (db w) \<and> ext_calls w' = ext_calls w"
proof -
  have "\<not> terminal RESUMING" "\<not> terminal QUEUED" by (simp_all add: TERMINAL_def)
  from move_run [OF assms this(1), of E "''run.resuming''" p]
  obtain w1 w2 v1 e1 r2 where 1: "set_status rid RESUMING (expect (Some org) es) w = (Inr True, w1)"
    "append_event E rid ''run.resuming'' p (org_opts (Some org)) w1 = (Inr v1, w2)"
    "find_run w2 rid = Some r2" "r_org_id r2 = org" "r_status r2 = RESUMING"
    "r_next_event_seq r2 = Suc (r_next_event_seq r)" "events (db w2) = events (db w) @ [e1]"
    "e_event_type e1 = ''run.resuming''" "e_run_id e1 = rid" "e_event_seq e1 = Suc (r_next_event_seq r)"
    "e_payload e1 = stored_payload p (org_opts (Some org))" "ext_calls w2 = ext_calls w"
    "approvals (db w2) = approvals (db w)" by (elim exE conjE)
  have "r_status r2 \<in> set [RESUMING]" using 1(5) by simp
  from move_run [OF 1(3,4) this \<open>\<not> terminal QUEUED\<close>, of E "''run.queued''" "[(''status'', JStr ''QUEUED'')]"]
  obtain w3 w4 v2 e2 r4 where 2: "set_status rid QUEUED (expect (Some org) [RESUMING]) w2 = (Inr True, w3)"
    "append_event E rid ''run.queued'' [(''status'', JStr ''QUEUED'')] (org_opts (Some org)) w3 = (Inr v2, w4)"
    "find_run w4 rid = Some r4" "r_org_id r4 = org" "r_status r4 = QUEUED"
    "events (db w4) = events (db w2) @ [e2]" "e_event_type e2 = ''run.queued''" "e_run_id e2 = rid"
    "e_event_seq e2 = Suc (r_next_event_seq r2)" "ext_calls w4 = ext_calls w2"
    "approvals (db w4) = approvals (db w2)" by (elim exE conjE)
  have "requeue E rid org es p w = get_run rid (Some org) w4"
    unfolding requeue_def
    by (simp only: thenE_run [of "set_status rid RESUMING (expect (Some org) es)", OF 1(1)]
        thenE_run [of "append_event E rid ''run.resuming'' p (org_opts (Some org))", OF 1(2)]
        thenE_run [of "set_status rid QUEUED (expect (Some org) [RESUMING])", OF 2(1)]
        thenE_run [of "append_event E rid ''run.queued'' [(''status'', JStr ''QUEUED'')] (org_opts (Some org))", OF 2(2)])
  then have "requeue E rid org es p w = (Inr (Some (view_of_run r4)), w4)"
    using get_run_of_find [OF 2(3,4)] by simp
  with 1 2 show ?thesis
    by (intro exI [of _ w4] exI [of _ "view_of_run r4"] exI [of _ e1] exI [of _ e2])
      (simp add: status_of_def)
qed


text \<open>No runtime is bound to the attempt of a run.\<close>

definition no_runtime :: "world \<Rightarrow> run_row \<Rightarrow> bool" where
  "no_runtime w r \<longleftrightarrow> \<not> str_set (r_attempt_id r)
     \<or> (case find (\<lambda>t. t_id t = str_or (r_attempt_id r) []) (attempts (db w)) of
          None \<Rightarrow> True | Some t \<Rightarrow> \<not> str_set (t_runtime_run_id t))"

lemma attempt_binding_run:
  "no_runtime w r \<Longrightarrow> \<exists>b. attempt_binding (view_of_run r) w = (Inr b, w) \<and> bound_runtime b = None"
  by (auto simp: attempt_binding_def no_runtime_def get_binding_run bound_runtime_def runtime_binding_from_row_def
      split: option.splits)

lemma record_approval_run:
  "\<exists>w1. record_approval E rid aid ch ev w = (Inr (), w1) \<and> runs (db w1) = runs (db w)
    \<and> events (db w1) = events (db w) \<and> attempts (db w1) = attempts (db w) \<and> ext_calls w1 = ext_calls w
    \<and> (\<exists>a\<in>set (approvals (db w1)). p_run_id a = rid \<and> p_approval_id a = aid
         \<and> p_decision a = (if ch = ''deny'' then ''DENIED'' else ''APPROVED''))"
proof -
  have ups: "\<exists>w1. upsert_approval a w = (Inr (), w1) \<and> runs (db w1) = runs (db w)
    \<and> events (db w1) = events (db w) \<and> attempts (db w1) = attempts (db w) \<and> ext_calls w1 = ext_calls w
    \<and> (\<exists>b\<in>set (approvals (db w1)). p_run_id b = p_run_id a \<and> p_approval_id b = p_approval_id a
         \<and> p_decision b = p_decision a)" for a w
  proof (cases "count_where (\<lambda>b. p_run_id b = p_run_id a \<and> p_approval_id b = p_approval_id a) (approvals (db w)) = 0")
    case True
    then show ?thesis by (auto simp: upsert_approval_def with_db_def Let_def)
  next
    case False
    then obtain b where "b \<in> set (approvals (db w))" "p_run_id b = p_run_id a" "p_approval_id b = p_approval_id a"
      by (auto simp: count_where_0)
    then have "b\<lparr>p_evidence := p_evidence a, p_decision := p_decision a\<rparr> \<in> set (upd_where
        (\<lambda>b. p_run_id b = p_run_id a \<and> p_approval_id b = p_approval_id a)
        (\<lambda>b. b\<lparr>p_evidence := p_evidence a, p_decision := p_decision a\<rparr>) (approvals (db w)))"
      by (force simp: upd_where_def)
    with False \<open>p_run_id b = p_run_id a\<close> \<open>p_approval_id b = p_approval_id a\<close> show ?thesis
      by (simp add: upsert_approval_def with_db_def Let_def) (rule bexI, auto)
  qed
  let ?w = "w\<lparr>uuid_pos := Suc (uuid_pos w)\<rparr>"
  let ?a = "\<lparr>p_id = uuid4 E (uuid_pos w), p_run_id = rid, p_approval_id = aid,
         p_decision = (if ch = ''deny'' then ''DENIED'' else ''APPROVED''), p_evidence = ev, p_created_at = clock w\<rparr>"
  have "record_approval E rid aid ch ev w = upsert_approval ?a ?w"
    by (simp add: record_approval_def bindE_def fresh_uuid_def)
  with ups [of ?a ?w] show ?thesis by simp
qed

text \<open>Approving a waiting run that no runtime is bound to puts it back into the queue: exactly two
  events follow, \<open>run.resuming\<close> and \<open>run.queued\<close>, with the next two numbers; the approval is recorded with
  its decision; nothing is sent anywhere.\<close>

theorem approved_run_requeued:
  assumes "find_run w rid = Some r" and "r_org_id r = org" and "r_status r = WAITING_APPROVAL"
    and "r_tool_name r \<noteq> ''remote_agent''" and "aid \<noteq> []" and "no_runtime w r"
    and "normalize_hermes_approval_choice (Some (py_str (or_else decision (JStr ''approve'')))) = Inr ''once''"
  shows "\<exists>w' v e1 e2 a. approve_run E rid org aid evidence decision w = (Inr (Some v), w') \<and> v_status v = QUEUED
    \<and> status_of w' rid = Some QUEUED \<and> events (db w') = events (db w) @ [e1, e2]
    \<and> e_event_type e1 = ''run.resuming'' \<and> e_event_type e2 = ''run.queued''
    \<and> e_event_seq e1 = Suc (r_next_event_seq r) \<and> e_event_seq e2 = Suc (Suc (r_next_event_seq r))
    \<and> a \<in> set (approvals (db w')) \<and> p_run_id a = rid \<and> p_approval_id a = aid \<and> p_decision a = ''APPROVED''
    \<and> ext_calls w' = ext_calls w"
proof -
  have rid: "r_id r = rid" using find_run_id [OF assms(1)] by simp
  obtain w1 a where w1: "record_approval E rid aid ''once'' (or_else evidence (JObj [])) w = (Inr (), w1)"
    "runs (db w1) = runs (db w)" "events (db w1) = events (db w)" "attempts (db w1) = attempts (db w)"
    "ext_calls w1 = ext_calls w" "a \<in> set (approvals (db w1))" "p_run_id a = rid" "p_approval_id a = aid"
    "p_decision a = ''APPROVED''"
    using record_approval_run [of E rid aid "''once''" "or_else evidence (JObj [])" w]
    by (simp only: list.distinct char.inject list.inject simp_thms if_False) force
  have f1: "find_run w1 rid = Some r" using assms(1) w1(2) by (simp add: find_run_def)
  obtain b where b: "attempt_binding (view_of_run r) w1 = (Inr b, w1)" "bound_runtime b = None"
    using attempt_binding_run [of w1 r] assms(6) w1(4) by (auto simp: no_runtime_def)
  have sel: "(case (b, bound_runtime b) of (Some b', Some rt) \<Rightarrow> f b' rt | _ \<Rightarrow> d) = d" for f and d :: "run_view option op"
    using b(2) by (cases b) simp_all
  have sel': "(case b of None \<Rightarrow> d | Some b' \<Rightarrow> (case bound_runtime b of None \<Rightarrow> d | Some rt \<Rightarrow> f b' rt)) = d"
    for f and d :: "run_view option op"
    using b(2) by (cases b) simp_all
  let ?p = "[(''status'', JStr ''RESUMING''), (''approval_id'', JStr aid), (''evidence'', or_else evidence (JObj []))]"
  have "approve_run E rid org aid evidence decision w = settle_waiting E (view_of_run r) org ''once'' aid
      (or_else evidence (JObj [])) w1"
    unfolding approve_run_def
    by (simp add: bindE_run [of "get_run rid (Some org)", OF get_run_of_find [OF assms(1,2)]] assms(4,5,7)
        Let_def thenE_run [of "record_approval E rid aid ''once'' (or_else evidence (JObj []))", OF w1(1)]
        bindE_run [of "returnE False", OF returnE_run] bindE_run [of "attempt_binding (view_of_run r)", OF b(1)] sel sel')
  also have "\<dots> = requeue E rid org [WAITING_APPROVAL] ?p w1"
    by (simp add: settle_waiting_def assms(3) rid)
  finally have run: "approve_run E rid org aid evidence decision w = requeue E rid org [WAITING_APPROVAL] ?p w1" .
  have "r_status r \<in> set [WAITING_APPROVAL]" using assms(3) by simp
  from requeue_run [OF f1 assms(2) this, of E ?p] run w1 show ?thesis by (elim exE conjE) (simp, blast)
qed

section \<open>Cancelling an idle run\<close>

lemma finish_run_terminal:
  assumes "distinct (List.map r_id (runs (db w)))" and "find_run w rid = Some r" and "status_for rid st opts r"
    and "terminal st" and "so_attempt_id opts = None" and "org = Some (r_org_id r)"
  shows "\<exists>w'. finish_run E rid org st opts ty p (returnE ()) w = (Inr (Some (view_of_run (after_status st opts (clock w) r))), w')
    \<and> db w' = (db w)\<lparr>runs := upd_where (status_for rid st opts) (after_status st opts (clock w)) (runs (db w))\<rparr>"
proof -
  let ?r = "after_status st opts (clock w) r"
  obtain w1 where w1: "set_status rid st opts w = (Inr True, w1)"
    "db w1 = (db w)\<lparr>runs := upd_where (status_for rid st opts) (after_status st opts (clock w)) (runs (db w))\<rparr>"
    using set_status_effect [OF assms(1,2,5), of st] assms(3) by auto
  have d1: "distinct (List.map r_id (runs (db w1)))" using assms(1) w1(2) by (simp add: map_upd_where)
  have f1: "find_run w1 rid = Some ?r" using assms(2,3) w1(2) by (simp add: find_run_def find_upd_where)
  let ?w2 = "w1\<lparr>uuid_pos := Suc (uuid_pos w1)\<rparr>"
  have "append_event E rid ty p (org_opts org) w1 = (Inl stale_write, ?w2)"
    using assms(4) by (intro append_event_refused known_event_none(1) not_writable_terminal [OF f1 _ d1])
      (simp_all add: org_opts_def no_opts_def str_given_def)
  then have t: "append_terminal_event E rid ty p org w1 = (Inr (), ?w2)"
    by (simp add: append_terminal_event_def catchE_def thenE_def bindE_raise drop_runtime_error_def stale_write_def)
  have "find_run ?w2 rid = Some ?r" using f1 by (simp add: find_run_def)
  moreover have "Some (r_org_id ?r) = org" using assms(6) by simp
  ultimately have g: "get_run rid org ?w2 = (Inr (Some (view_of_run ?r)), ?w2)"
    using get_run_of_find [of ?w2 rid ?r "r_org_id ?r"] by simp
  have i: "whenE True (thenE (append_terminal_event E rid ty p org) (returnE ())) w1 = (Inr (), ?w2)"
    by (simp add: whenE_def thenE_run [of "append_terminal_event E rid ty p org", OF t])
  have "finish_run E rid org st opts ty p (returnE ()) w = (Inr (Some (view_of_run ?r)), ?w2)"
    unfolding finish_run_def bindE_run [of "set_status rid st opts", OF w1(1)] thenE_run [of "whenE True _", OF i]
    by (rule g)
  with w1(2) show ?thesis by (intro exI [of _ ?w2]) simp
qed

text \<open>No step of the run is left open; those of other runs are as before.\<close>

definition steps_closed :: "string \<Rightarrow> world \<Rightarrow> world \<Rightarrow> bool" where
  "steps_closed rid w w' \<longleftrightarrow> (\<forall>s\<in>set (steps (db w')). st_run_id s = rid \<longrightarrow> \<not> open_step s)
     \<and> filter (\<lambda>s. st_run_id s \<noteq> rid) (steps (db w')) = filter (\<lambda>s. st_run_id s \<noteq> rid) (steps (db w))"

definition attempt_closed :: "string option \<Rightarrow> world \<Rightarrow> bool" where
  "attempt_closed aid w \<longleftrightarrow> (\<forall>t\<in>set (attempts (db w)). str_set aid \<and> Some (t_id t) = aid
     \<longrightarrow> t_status t \<notin> {ATT_PREPARING, ATT_RUNNING})"

lemma upd_where_all:
  "(\<And>x. c x \<Longrightarrow> P (f x)) \<Longrightarrow> (\<And>x. \<not> c x \<Longrightarrow> P x) \<Longrightarrow> \<forall>x\<in>set (upd_where c f xs). P x"
  by (auto simp: upd_where_def)

lemma cancel_rows_run:
  "\<exists>w1. cancel_attempt v w = (Inr (), w1) \<and> runs (db w1) = runs (db w) \<and> events (db w1) = events (db w)
    \<and> steps (db w1) = steps (db w) \<and> clock w1 = clock w \<and> (\<forall>t\<in>set (attempts (db w1)). str_set (v_attempt_id v)
         \<and> Some (t_id t) = v_attempt_id v \<longrightarrow> t_status t \<notin> {ATT_PREPARING, ATT_RUNNING})"
  "\<exists>w1. cancel_open_steps rid w = (Inr (), w1) \<and> runs (db w1) = runs (db w) \<and> events (db w1) = events (db w)
    \<and> attempts (db w1) = attempts (db w) \<and> clock w1 = clock w
    \<and> (\<forall>s\<in>set (steps (db w1)). st_run_id s = rid \<longrightarrow> \<not> open_step s)
    \<and> filter (\<lambda>s. st_run_id s \<noteq> rid) (steps (db w1)) = filter (\<lambda>s. st_run_id s \<noteq> rid) (steps (db w))"
proof -
  show "\<exists>w1. cancel_attempt v w = (Inr (), w1) \<and> runs (db w1) = runs (db w) \<and> events (db w1) = events (db w)
    \<and> steps (db w1) = steps (db w) \<and> clock w1 = clock w \<and> (\<forall>t\<in>set (attempts (db w1)). str_set (v_attempt_id v)
         \<and> Some (t_id t) = v_attempt_id v \<longrightarrow> t_status t \<notin> {ATT_PREPARING, ATT_RUNNING})"
  proof (cases "str_set (v_attempt_id v)")
    case False
    then show ?thesis by (simp add: cancel_attempt_def whenE_def)
  next
    case True
    have "\<forall>t\<in>set (upd_where (\<lambda>t. Some (t_id t) = v_attempt_id v \<and> t_status t \<in> {ATT_PREPARING, ATT_RUNNING})
        (\<lambda>t. t\<lparr>t_status := ATT_CANCELLED, t_completed_at := Some now, t_error_message := Some m\<rparr>) ts).
        Some (t_id t) = v_attempt_id v \<longrightarrow> t_status t \<notin> {ATT_PREPARING, ATT_RUNNING}" for now m ts
      by (rule upd_where_all) (simp_all add: imp_conjL)
    with True show ?thesis unfolding cancel_attempt_def whenE_def bindE_def update_attempts_def with_db_def now_op_def
      by (simp only: if_True getsE_run prod.case sum.case Let_def returnE_run) simp
  qed
  have "filter (\<lambda>s. st_run_id s \<noteq> rid) (upd_where (\<lambda>s. st_run_id s = rid \<and> open_step s)
      (\<lambda>s. s\<lparr>st_status := STEP_CANCELLED, st_updated_at := now\<rparr>) ss) = filter (\<lambda>s. st_run_id s \<noteq> rid) ss" for now ss
    by (induction ss) (simp_all add: upd_where_def)
  moreover have "\<forall>s\<in>set (upd_where (\<lambda>s. st_run_id s = rid \<and> open_step s)
      (\<lambda>s. s\<lparr>st_status := STEP_CANCELLED, st_updated_at := now\<rparr>) ss). st_run_id s = rid \<longrightarrow> \<not> open_step s" for now ss
    by (rule upd_where_all) (simp_all add: open_step_def)
  ultimately show "\<exists>w1. cancel_open_steps rid w = (Inr (), w1) \<and> runs (db w1) = runs (db w) \<and> events (db w1) = events (db w)
    \<and> attempts (db w1) = attempts (db w) \<and> clock w1 = clock w
    \<and> (\<forall>s\<in>set (steps (db w1)). st_run_id s = rid \<longrightarrow> \<not> open_step s)
    \<and> filter (\<lambda>s. st_run_id s \<noteq> rid) (steps (db w1)) = filter (\<lambda>s. st_run_id s \<noteq> rid) (steps (db w))"
    by (simp add: cancel_open_steps_def bindE_def update_steps_def with_db_def)
qed

text \<open>Cancelling a run nobody works on takes effect at once and for good: the run is CANCELLED, none of its
  steps is left open and no step of another run is touched, its attempt is closed, and cancelling again
  changes nothing. Its event log stays as it was: the \<open>run.cancelled\<close> event is never recorded.\<close>

theorem idle_run_cancelled:
  assumes "distinct (List.map r_id (runs (db w)))" and "find_run w rid = Some r" and "r_org_id r = org"
    and "r_status r \<in> {QUEUED, PAUSED, SUSPENDED}"
  shows "\<exists>v w'. cancel_run E rid org w = (Inr (Some v), w') \<and> v_status v = CANCELLED
    \<and> status_of w' rid = Some CANCELLED
    \<and> steps_closed rid w w' \<and> attempt_closed (r_attempt_id r) w'
    \<and> events (db w') = events (db w) \<and> cancel_run E rid org w' = (Inr (Some v), w')"
proof -
  let ?v = "view_of_run r" and ?es = "[QUEUED, WAITING_APPROVAL, PAUSED, SUSPENDED, CANCELLING]"
  let ?so = "expect (Some org) ?es"
  have rid: "r_id r = rid" using find_run_id [OF assms(2)] by simp
  obtain w1 where w1: "cancel_attempt ?v w = (Inr (), w1)" "runs (db w1) = runs (db w)" "events (db w1) = events (db w)"
    "steps (db w1) = steps (db w)" "clock w1 = clock w"
    "\<forall>t\<in>set (attempts (db w1)). str_set (v_attempt_id ?v) \<and> Some (t_id t) = v_attempt_id ?v
       \<longrightarrow> t_status t \<notin> {ATT_PREPARING, ATT_RUNNING}"
    using cancel_rows_run(1) [of ?v w] by (elim exE conjE)
  obtain w2 where w2: "cancel_open_steps rid w1 = (Inr (), w2)" "runs (db w2) = runs (db w1)"
    "events (db w2) = events (db w1)" "attempts (db w2) = attempts (db w1)" "clock w2 = clock w1"
    "\<forall>s\<in>set (steps (db w2)). st_run_id s = rid \<longrightarrow> \<not> open_step s"
    "filter (\<lambda>s. st_run_id s \<noteq> rid) (steps (db w2)) = filter (\<lambda>s. st_run_id s \<noteq> rid) (steps (db w1))"
    using cancel_rows_run(2) [of rid w1] by (elim exE conjE)
  have f2: "find_run w2 rid = Some r" and d2: "distinct (List.map r_id (runs (db w2)))"
    using assms(1,2) w1(2) w2(2) by (simp_all add: find_run_def)
  have c: "status_for rid CANCELLED ?so r"
    using status_for_expect [OF rid assms(3)] assms(4) by auto
  have t: "terminal CANCELLED" and o': "Some org = Some (r_org_id r)" and so: "so_attempt_id ?so = None"
    using assms(3) by (simp_all add: TERMINAL_def expect_def)
  let ?r = "after_status CANCELLED ?so (clock w2) r"
  obtain w3 where w3: "finish_run E rid (Some org) CANCELLED ?so ''run.cancelled'' [(''status'', JStr ''CANCELLED'')]
      (returnE ()) w2 = (Inr (Some (view_of_run ?r)), w3)"
    "db w3 = (db w2)\<lparr>runs := upd_where (status_for rid CANCELLED ?so) (after_status CANCELLED ?so (clock w2)) (runs (db w2))\<rparr>"
    using finish_run_terminal [OF d2 f2 c t so o'] by blast
  have f3: "find_run w3 rid = Some ?r" using f2 c w3(2) by (simp add: find_run_def find_upd_where)
  have "cancel_now E ?v org w = (Inr (Some (view_of_run ?r)), w3)"
    unfolding cancel_now_def view_of_run_simps rid
    by (simp only: thenE_run [of "cancel_attempt ?v", OF w1(1)] thenE_run [of "cancel_open_steps rid", OF w2(1)] w3(1))
  then have run: "cancel_run E rid org w = (Inr (Some (view_of_run ?r)), w3)"
    using assms(4)
    by (auto simp: cancel_run_def bindE_run [of "get_run rid (Some org)", OF get_run_of_find [OF assms(2,3)]]
        bindE_run [of "returnE None", OF returnE_run] TERMINAL_def)
  have again: "cancel_run E rid org w3 = (Inr (Some (view_of_run ?r)), w3)"
    using assms(3) t
    by (simp add: cancel_run_def bindE_run [of "get_run rid (Some org)", OF get_run_of_find [OF f3]])
  show ?thesis
    using run again f3 w1(3,4,6) w2(3,4,6,7) w3(2)
    by (intro exI [of _ "view_of_run ?r"] exI [of _ w3]) (simp add: status_of_def steps_closed_def attempt_closed_def)
qed

definition idle_run :: "run_status \<Rightarrow> run_row" where
  "idle_run st = (tool_run st)\<lparr>r_tool_name := ''skill''\<rparr>"

definition idle_world :: "run_status \<Rightarrow> world" where
  "idle_world st = sample_world\<lparr>db := empty_db\<lparr>runs := [idle_run st]\<rparr>\<rparr>"

lemma idle_run_found:
  "find_run (idle_world st) ''run-1'' = Some (idle_run st)" "r_org_id (idle_run st) = ''org-1''"
  "r_status (idle_run st) = st" "r_tool_name (idle_run st) \<noteq> ''remote_agent''"
  "no_runtime (idle_world st) (idle_run st)" "distinct (List.map r_id (runs (db (idle_world st))))"
  by (simp_all add: find_run_def idle_world_def idle_run_def tool_run_def no_runtime_def empty_db_def)

theorem approved_run_requeued_witness:
  "\<exists>w' v e1 e2 a. approve_run sample_env ''run-1'' ''org-1'' ''ap-1'' JNull (JStr ''once'') (idle_world WAITING_APPROVAL)
       = (Inr (Some v), w') \<and> v_status v = QUEUED \<and> status_of w' ''run-1'' = Some QUEUED
    \<and> events (db w') = events (db (idle_world WAITING_APPROVAL)) @ [e1, e2]
    \<and> e_event_type e1 = ''run.resuming'' \<and> e_event_type e2 = ''run.queued''
    \<and> e_event_seq e1 = Suc (r_next_event_seq (idle_run WAITING_APPROVAL))
    \<and> e_event_seq e2 = Suc (Suc (r_next_event_seq (idle_run WAITING_APPROVAL)))
    \<and> a \<in> set (approvals (db w')) \<and> p_run_id a = ''run-1'' \<and> p_approval_id a = ''ap-1'' \<and> p_decision a = ''APPROVED''
    \<and> ext_calls w' = ext_calls (idle_world WAITING_APPROVAL)"
proof -
  have "normalize_hermes_approval_choice (Some (py_str (or_else (JStr ''once'') (JStr ''approve'')))) = Inr ''once''"
    by code_simp
  then show ?thesis
    by (intro approved_run_requeued idle_run_found) simp_all
qed

theorem idle_run_cancelled_witness:
  "\<exists>v w'. cancel_run sample_env ''run-1'' ''org-1'' (idle_world PAUSED) = (Inr (Some v), w') \<and> v_status v = CANCELLED
    \<and> status_of w' ''run-1'' = Some CANCELLED
    \<and> steps_closed ''run-1'' (idle_world PAUSED) w' \<and> attempt_closed (r_attempt_id (idle_run PAUSED)) w'
    \<and> events (db w') = events (db (idle_world PAUSED)) \<and> cancel_run sample_env ''run-1'' ''org-1'' w' = (Inr (Some v), w')"
  by (rule idle_run_cancelled [OF idle_run_found(6,1,2)]) (simp add: idle_run_found)

end
