(* ===== verification/Event_Ingest.thy ===== *)
theory Event_Ingest
  imports Event_Schema Event_Log Run_Artifacts Run_Control
begin

text \<open>
  \<open>POST /runs/{run_id}/events/ingest\<close> of \<open>api/internal_runs.py\<close>: a batch of events from an edge
  worker or a runtime. Every item is checked against the steps, the current attempt and generation, the
  context version and the schema of its type; it is then appended or a rejection is recorded; control
  events move their step on and may end the run. The run is read once, before the loop.
\<close>

section \<open>Reading an item\<close>

record item =
  it_event_type :: string
  it_payload :: json
  it_source :: string
  it_event_id :: json
  it_source_event_id :: json
  it_step_id :: json
  it_attempt_id :: json
  it_run_generation :: json

definition get_either :: "dict \<Rightarrow> json \<Rightarrow> string \<Rightarrow> exn + json" where
  "get_either event payload k = (if truthy (dget event k) then Inr (dget event k) else get_attr payload k)"

definition read_fields :: "dict \<Rightarrow> exn + item" where
  "read_fields event =
     (let payload = or_else (dget event ''payload'') (JObj []) in
      case get_either event payload ''step_id'' of
        Inl e \<Rightarrow> Inl e
      | Inr step_id \<Rightarrow>
          (case get_either event payload ''attempt_id'' of
             Inl e \<Rightarrow> Inl e
           | Inr attempt_id \<Rightarrow>
               (case get_either event payload ''run_generation'' of
                  Inl e \<Rightarrow> Inl e
                | Inr run_generation \<Rightarrow> Inr
                    \<lparr>it_event_type = py_str (or_else (dget event ''event_type'') (JStr ''run.progress'')),
                     it_payload = payload,
                     it_source = py_str (or_else (dget event ''source'') (JStr ''edge'')),
                     it_event_id = dget event ''event_id'',
                     it_source_event_id = or_else (dget event ''source_event_id'') (dget event ''event_id''),
                     it_step_id = step_id, it_attempt_id = attempt_id, it_run_generation = run_generation\<rparr>)))"

definition read_item :: "json \<Rightarrow> exn + item" where
  "read_item event =
     (case event of JObj d \<Rightarrow> read_fields d | _ \<Rightarrow> Inl (OtherError ''object has no attribute get''))"

section \<open>Checks\<close>

text \<open>A check passes (\<open>None\<close>), names the reason and the details of a rejection, or raises.\<close>

type_synonym check = "exn + (string \<times> dict) option"

definition check_step :: "string list \<Rightarrow> item \<Rightarrow> check" where
  "check_step valid_step_ids it =
     (if valid_step_ids = [] \<or> \<not> truthy (it_step_id it) then Inr None
      else case member_of (it_step_id it) valid_step_ids of
             Inl e \<Rightarrow> Inl e
           | Inr b \<Rightarrow> Inr (if b then None else Some (''invalid_step_id'',
               [(''step_id'', it_step_id it), (''event_type'', JStr (it_event_type it))])))"

definition check_attempt :: "run_view \<Rightarrow> item \<Rightarrow> check" where
  "check_attempt run it =
     Inr (if truthy (it_attempt_id it) \<and> str_set (v_attempt_id run)
             \<and> Some (py_str (it_attempt_id it)) \<noteq> v_attempt_id run
          then Some (''old_attempt'',
            [(''event_attempt_id'', it_attempt_id it), (''run_attempt_id'', jopt (v_attempt_id run))])
          else None)"

definition check_generation :: "run_view \<Rightarrow> item \<Rightarrow> check" where
  "check_generation run it =
     (if it_run_generation it = JNull then Inr None
      else case py_int (it_run_generation it) of
             Inl e \<Rightarrow> Inl e
           | Inr g \<Rightarrow> Inr (if g = v_generation run then None else Some (''old_generation'',
               [(''event_run_generation'', it_run_generation it), (''run_generation'', JInt (v_generation run))])))"

definition check_context :: "run_view \<Rightarrow> item \<Rightarrow> check" where
  "check_context run it =
     (if \<not> terminal (v_status run) then Inr None
      else
        let snap_ctx = jget (v_snapshot run) ''context_version'' in
        case get_attr (it_payload it) ''context_version'' of
          Inl e \<Rightarrow> Inl e
        | Inr evt_ctx \<Rightarrow>
            if snap_ctx = JNull \<or> evt_ctx = JNull then Inr None
            else
              (case (py_int evt_ctx, py_int snap_ctx) of
                 (Inl e, _) \<Rightarrow> Inl e
               | (_, Inl e) \<Rightarrow> Inl e
               | (Inr a, Inr b) \<Rightarrow> Inr (if a = b then None else Some (''context_stale'',
                   [(''event_context_version'', evt_ctx), (''snapshot_context_version'', snap_ctx),
                    (''event_type'', JStr (it_event_type it))]))))"

definition type_details :: "item \<Rightarrow> dict" where
  "type_details it = [(''event_type'', JStr (it_event_type it))]"

definition check_type :: "item \<Rightarrow> check" where
  "check_type it =
     Inr (if \<not> is_semantic_event_type (it_event_type it) \<and> \<not> is_control_event_type (it_event_type it)
          then Some (''unknown_event_type'', type_details it) else None)"

definition check_schema :: "item \<Rightarrow> check" where
  "check_schema it =
     (if \<not> is_semantic_event_type (it_event_type it) then Inr None
      else case validate_semantic_event_payload (it_event_type it) (JObj (dict_of (it_payload it))) of
             Inl e \<Rightarrow> Inl e
           | Inr None \<Rightarrow> Inr None
           | Inr (Some reason) \<Rightarrow> Inr (Some (reason, type_details it)))"

fun first_failure :: "check list \<Rightarrow> check" where
  "first_failure [] = Inr None"
| "first_failure (Inr None # cs) = first_failure cs"
| "first_failure (c # cs) = c"

definition check_item :: "run_view \<Rightarrow> string list \<Rightarrow> item \<Rightarrow> check" where
  "check_item run valid_step_ids it =
     first_failure [check_step valid_step_ids it, check_attempt run it, check_generation run it,
       check_context run it, check_type it, check_schema it]"

text \<open>An announced artifact must be stored, with exactly this descriptor. \<open>True == 1\<close> in Python.\<close>

fun equals_int :: "json \<Rightarrow> int option \<Rightarrow> bool" where
  "equals_int (JInt i) n = (n = Some i)"
| "equals_int (JBool b) n = (n = Some (if b then 1 else 0))"
| "equals_int JNull n = (n = None)"
| "equals_int _ n = False"

definition announces :: "dict \<Rightarrow> descriptor \<Rightarrow> bool" where
  "announces payload a \<longleftrightarrow>
     JStr (de_artifact_id a) = dget payload ''artifact_id'' \<and> lower (de_storage_state a) = ''persisted''"

definition descriptor_matches :: "dict \<Rightarrow> descriptor \<Rightarrow> bool" where
  "descriptor_matches payload a \<longleftrightarrow>
     dget payload ''name'' = JStr (de_name a) \<and> dget payload ''content_type'' = jopt (de_content_type a)
     \<and> equals_int (dget payload ''size'') (de_size_bytes a)
     \<and> dget payload ''checksum_sha256'' = jopt (de_checksum a)"

definition check_artifact :: "string \<Rightarrow> item \<Rightarrow> (string \<times> dict) option op" where
  "check_artifact run_id it =
     (if it_event_type it \<noteq> ''artifact.persisted'' then returnE None
      else
        bindE (list_artifacts run_id) (\<lambda>artifacts.
        let payload = dict_of (it_payload it);
            details = [(''event_type'', JStr (it_event_type it)), (''artifact_id'', dget payload ''artifact_id'')] in
        case find (announces payload) artifacts of
          None \<Rightarrow> returnE (Some (''artifact_not_persisted'', details))
        | Some a \<Rightarrow> returnE (if descriptor_matches payload a then None
                             else Some (''artifact_descriptor_mismatch'', details))))"

section \<open>Appending or rejecting\<close>

text \<open>A text column takes a string or \<open>NULL\<close>; the driver refuses anything else.\<close>

fun db_text :: "json \<Rightarrow> string option option" where
  "db_text JNull = Some None"
| "db_text (JStr s) = Some (Some s)"
| "db_text _ = None"

definition reject_item :: "env \<Rightarrow> string \<Rightarrow> item \<Rightarrow> string \<Rightarrow> dict \<Rightarrow> unit op" where
  "reject_item E run_id it reason details =
     (case (db_text (it_event_id it), db_text (it_source_event_id it)) of
        (Some event_id, Some source_event_id) \<Rightarrow>
          record_event_rejection E run_id reason event_id source_event_id (JObj details)
      | _ \<Rightarrow> bindE (fresh_uuid E) (\<lambda>_. returnE ()))"

definition item_opts :: "string \<Rightarrow> run_view \<Rightarrow> item \<Rightarrow> string option \<Rightarrow> event_opts" where
  "item_opts org_id run it source_event_id =
     (attempt_opts (Some org_id) (v_attempt_id run) (Some (v_generation run)))
       \<lparr>o_source := it_source it, o_source_event_id := source_event_id\<rparr>"

text \<open>
  A source event id that is no string fails where it is first used: a truthy one in the lookup of the
  recorded event, another in the insert, after the sequence number was drawn.
\<close>

definition append_item :: "env \<Rightarrow> string \<Rightarrow> string \<Rightarrow> run_view \<Rightarrow> item \<Rightarrow> unit op" where
  "append_item E run_id org_id run it =
     (case it_payload it of
        JObj payload \<Rightarrow>
          let add = (\<lambda>sid. thenE (append_event E run_id (it_event_type it) payload (item_opts org_id run it sid))
                             (returnE ())) in
          (case db_text (it_source_event_id it) of
             Some sid \<Rightarrow> add sid
           | None \<Rightarrow> if truthy (it_source_event_id it) then raiseE (DbError ''invalid input for query argument'')
                      else thenE (add None) (raiseE (DbError ''invalid input for query argument'')))
      | _ \<Rightarrow> raiseE (OtherError ''object has no attribute items''))"

definition append_failed :: "env \<Rightarrow> string \<Rightarrow> item \<Rightarrow> exn \<Rightarrow> bool op" where
  "append_failed E run_id it err =
     (case err of
        RuntimeError m \<Rightarrow>
          if contains_sub m ''idempotency conflict'' \<or> contains_sub m ''stale attempt''
          then thenE (reject_item E run_id it
                 (if contains_sub m ''idempotency'' then ''duplicate_event_id'' else ''old_attempt'')
                 [(''error'', JStr m)]) (returnE False)
          else raiseE err
      | _ \<Rightarrow> raiseE err)"

section \<open>Steps\<close>

definition COMPLETED_EVENTS :: "string list" where
  "COMPLETED_EVENTS = [''run.completed'', ''step.completed'', ''edge.job.completed'']"

definition FAILED_EVENTS :: "string list" where
  "FAILED_EVENTS = [''run.failed'', ''step.failed'', ''edge.job.failed'']"

definition CANCELLED_EVENTS :: "string list" where
  "CANCELLED_EVENTS = [''run.cancelled'', ''step.cancelled'', ''edge.job.cancelled'']"

definition move_step :: "env \<Rightarrow> string \<Rightarrow> string \<Rightarrow> item \<Rightarrow> string \<Rightarrow> unit op" where
  "move_step E run_id org_id it step_id =
     (let ty = it_event_type it;
          aggregate = thenE (aggregate_run_terminal E run_id (Some org_id) None None) (returnE ()) in
      if ty \<in> set COMPLETED_EVENTS then
        thenE (update_step_state run_id step_id STEP_SUCCEEDED (no_update\<lparr>up_result := Some (it_payload it)\<rparr>)) aggregate
      else if ty \<in> set FAILED_EVENTS then
        thenE (update_step_state run_id step_id STEP_FAILED (no_update
          \<lparr>up_error_message := Some (py_str (or_else (jget (it_payload it) ''error'') (JStr ''step failed'')))\<rparr>)) aggregate
      else if ty \<in> set CANCELLED_EVENTS then
        thenE (update_step_state run_id step_id STEP_CANCELLED no_update) aggregate
      else
        thenE (update_step_state run_id step_id STEP_RUNNING
          (no_update\<lparr>up_expected := Some [STEP_PENDING, STEP_READY, STEP_DISPATCHED]\<rparr>)) (returnE ()))"

section \<open>The batch\<close>

definition store_item :: "env \<Rightarrow> string \<Rightarrow> string \<Rightarrow> run_view \<Rightarrow> string list \<Rightarrow> item \<Rightarrow> bool op" where
  "store_item E run_id org_id run valid_step_ids it =
     bindE (catchE (thenE (append_item E run_id org_id run it) (returnE True)) (append_failed E run_id it)) (\<lambda>stored.
     thenE (whenE (stored \<and> \<not> is_semantic_event_type (it_event_type it) \<and> is_str (it_step_id it)
              \<and> str_val (it_step_id it) \<noteq> [] \<and> str_val (it_step_id it) \<in> set valid_step_ids)
              (move_step E run_id org_id it (str_val (it_step_id it))))
       (returnE stored))"

definition ingest_item :: "env \<Rightarrow> string \<Rightarrow> string \<Rightarrow> run_view \<Rightarrow> string list \<Rightarrow> json \<Rightarrow> bool op" where
  "ingest_item E run_id org_id run valid_step_ids event =
     bindE (liftE (read_item event)) (\<lambda>it.
     bindE (liftE (check_item run valid_step_ids it)) (\<lambda>failure.
     case failure of
       Some (reason, details) \<Rightarrow> thenE (reject_item E run_id it reason details) (returnE False)
     | None \<Rightarrow>
         bindE (check_artifact run_id it) (\<lambda>failure.
         case failure of
           Some (reason, details) \<Rightarrow> thenE (reject_item E run_id it reason details) (returnE False)
         | None \<Rightarrow> store_item E run_id org_id run valid_step_ids it)))"

fun ingest_items :: "env \<Rightarrow> string \<Rightarrow> string \<Rightarrow> run_view \<Rightarrow> string list \<Rightarrow> json list \<Rightarrow> nat \<Rightarrow> nat op" where
  "ingest_items E run_id org_id run valid_step_ids [] valid_count = returnE valid_count"
| "ingest_items E run_id org_id run valid_step_ids (event # evs) valid_count =
     bindE (ingest_item E run_id org_id run valid_step_ids event) (\<lambda>stored.
       ingest_items E run_id org_id run valid_step_ids evs (if stored then Suc valid_count else valid_count))"

record ingest_response =
  ir_count :: nat
  ir_org_id :: string
  ir_run_id :: string

definition ingest_batch :: "env \<Rightarrow> string \<Rightarrow> string \<Rightarrow> dict \<Rightarrow> run_view \<Rightarrow> ingest_response op" where
  "ingest_batch E run_id x_exec_org_id body run =
     bindE (run_steps run_id) (\<lambda>steps_rows.
     bindE (if \<not> truthy (dget body ''events'') then returnE 0
            else case dget body ''events'' of
                   JList evs \<Rightarrow> ingest_items E run_id x_exec_org_id run (List.map st_step_id steps_rows) evs 0
                 | _ \<Rightarrow> raiseE (OtherError ''object has no attribute get'')) (\<lambda>valid_count.
       returnE \<lparr>ir_count = valid_count, ir_org_id = v_org_id run, ir_run_id = v_run_id run\<rparr>))"

definition ingest_internal_events :: "env \<Rightarrow> string \<Rightarrow> dict \<Rightarrow> string \<Rightarrow> ingest_response op" where
  "ingest_internal_events E run_id body x_exec_org_id = request
     (if truthy (dget body ''org_id'') \<and> dget body ''org_id'' \<noteq> JStr x_exec_org_id
      then raiseE (HTTPException 403 ''forged org_id rejected'')
      else
        bindE (get_run run_id (Some x_exec_org_id)) (\<lambda>run.
        case run of
          None \<Rightarrow> raiseE (HTTPException 404 ''run not found'')
        | Some v \<Rightarrow> ingest_batch E run_id x_exec_org_id body v))"

section \<open>Guarantees\<close>

lemma reject_item_same_log: "guar same_log (reject_item E rid it why d)"
  unfolding reject_item_def by (intro sl.guar_rules guar_intros)

lemmas reject_item_guar [guar_intros] = reject_item_same_log reject_item_same_log [THEN guar_same_log]

lemma guar_json_dict:
  "(\<And>d. j = JObj d \<Longrightarrow> guar R (f d)) \<Longrightarrow> guar R m \<Longrightarrow> guar R (case j of JObj d \<Rightarrow> f d | _ \<Rightarrow> m)"
  by (cases j) auto

lemma guar_json_list:
  "(\<And>xs. j = JList xs \<Longrightarrow> guar R (f xs)) \<Longrightarrow> guar R m \<Longrightarrow> guar R (case j of JList xs \<Rightarrow> f xs | _ \<Rightarrow> m)"
  by (cases j) auto

section \<open>What a program adds to the log\<close>

text \<open>Every event added satisfies \<open>P\<close>; the run identifiers stay distinct.\<close>

definition adds :: "(event_row \<Rightarrow> bool) \<Rightarrow> world \<Rightarrow> world \<Rightarrow> bool" where
  "adds P w w' \<longleftrightarrow> (distinct (List.map r_id (runs (db w))) \<longrightarrow> distinct (List.map r_id (runs (db w')))
     \<and> (\<exists>es. events (db w') = events (db w) @ es \<and> list_all P es))"

interpretation ad: guarantee "adds P" for P
proof unfold_locales
  fix s t u :: world
  show "adds P s s" by (simp add: adds_def)
  assume st: "adds P s t" and tu: "adds P t u"
  show "adds P s u"
    unfolding adds_def
  proof (intro impI conjI)
    assume d: "distinct (List.map r_id (runs (db s)))"
    with st obtain es where es: "distinct (List.map r_id (runs (db t)))" "events (db t) = events (db s) @ es" "list_all P es"
      by (auto simp: adds_def)
    with tu obtain fs where fs: "distinct (List.map r_id (runs (db u)))" "events (db u) = events (db t) @ fs" "list_all P fs"
      by (auto simp: adds_def)
    show "distinct (List.map r_id (runs (db u)))" by (rule fs(1))
    show "\<exists>es. events (db u) = events (db s) @ es \<and> list_all P es"
      by (rule exI [of _ "es @ fs"]) (simp add: es fs)
  qed
qed

lemma same_log_adds: "guar same_log m \<Longrightarrow> guar (adds P) m"
  by (simp add: guar_def same_log_def adds_def)

lemma adds_mono: "guar (adds P) m \<Longrightarrow> (\<And>e. P e \<Longrightarrow> Q e) \<Longrightarrow> guar (adds Q) m"
  unfolding guar_def adds_def by (metis list.pred_mono_strong)

lemma adds_update_runs: "(\<And>r. r_id (f r) = r_id r) \<Longrightarrow> guar (adds P) (update_runs c f)"
  by (simp add: guar_def adds_def update_runs_def with_db_def map_upd_where)

lemma write_event_adds:
  assumes "\<And>e. e_run_id e = rid \<Longrightarrow> e_event_type e = ty \<Longrightarrow> e_payload e = p \<Longrightarrow> P e"
  shows "guar (adds P) (write_event E rid ty p opts)"
proof -
  have "adds P w (snd (write_event E rid ty p opts w))" for w
  proof (cases "find (writable_for rid opts) (runs (db w))")
    case None
    then show ?thesis by (simp add: write_event_none adds_def)
  next
    case (Some r)
    then show ?thesis
      by (simp add: write_event_some adds_def event_written_simps(5) assms event_row_for_def)
  qed
  then show ?thesis by (simp add: guar_def)
qed

lemma append_event_adds:
  assumes "\<And>e. e_run_id e = rid \<Longrightarrow> e_event_type e = ty \<Longrightarrow> e_payload e = stored_payload p opts \<Longrightarrow> P e"
  shows "guar (adds P) (append_event E rid ty p opts)"
proof -
  have "adds P w (snd (append_event E rid ty p opts w))" for w
  proof -
    obtain trace where a: "append_event E rid ty p opts w = append_spec trace E rid ty p opts w"
      using append_event_spec by blast
    have "adds P w (snd (write_event E rid ty (stored_payload p opts) opts w))"
      using guarD [OF write_event_adds] assms by blast
    then show ?thesis
      unfolding a append_spec_def
      by (cases "known_event w rid opts")
        (auto simp: ad.R_refl split: prod.split sum.split)
  qed
  then show ?thesis by (simp add: guar_def)
qed

lemma set_status_adds: "guar (adds P) (set_status rid st opts)"
  unfolding set_status_def
  by (intro ad.guar_rules adds_update_runs close_external_same_log [THEN same_log_adds] same_log_stmts [THEN same_log_adds]) simp

lemma append_terminal_event_adds:
  "(\<And>e. e_run_id e = rid \<Longrightarrow> e_event_type e = ty \<Longrightarrow> P e) \<Longrightarrow> guar (adds P) (append_terminal_event E rid ty p org)"
  unfolding append_terminal_event_def
  by (intro ad.guar_rules append_event_adds drop_runtime_error_same_log [THEN same_log_adds])

lemmas adds_reads = same_log_stmts [THEN same_log_adds] same_log_ops [THEN same_log_adds]
  persist_bytes_same_log [THEN same_log_adds] find_existing_same_log [THEN same_log_adds]
  step_ops_same_log [THEN same_log_adds] list_artifacts_same_log [THEN same_log_adds]

lemma store_artifact_adds:
  "(\<And>e. e_run_id e = rid \<Longrightarrow> P e) \<Longrightarrow> guar (adds P) (store_artifact_bytes E rid a)"
  unfolding store_artifact_bytes_def store_events_def
  by (intro ad.guar_rules append_event_adds adds_reads)

lemma aggregate_adds:
  "(\<And>e. e_run_id e = rid \<Longrightarrow> P e) \<Longrightarrow> guar (adds P) (aggregate_run_terminal E rid org att gen)"
  unfolding aggregate_run_terminal_def aggregate_steps_def fail_for_step_def fail_for_artifacts_def complete_run_def finish_run_def
  by (intro ad.guar_rules set_status_adds append_terminal_event_adds store_artifact_adds adds_reads)


lemma aggregate_adds_none:
  assumes "distinct (List.map r_id (runs (db w)))"
  shows "events (db (snd (aggregate_run_terminal E rid org att gen w))) = events (db w)"
proof -
  let ?w = "snd (aggregate_run_terminal E rid org att gen w)"
  have "adds (\<lambda>e. e_run_id e = rid) w ?w" by (rule guarD [OF aggregate_adds])
  with assms obtain es where es: "events (db ?w) = events (db w) @ es" "list_all (\<lambda>e. e_run_id e = rid) es"
    by (auto simp: adds_def)
  have "events_of ?w rid = events_of w rid"
    using guarD [OF aggregate_quiet [of rid E org att gen], of w] assms by (simp add: quiet_def)
  with es have "filter (\<lambda>e. e_run_id e = rid) es = []" by (simp add: events_of_def)
  with es(2) have "es = []" by (cases es) auto
  with es(1) show ?thesis by simp
qed

lemma aggregate_adds_any: "guar (adds P) (aggregate_run_terminal E rid org att gen)"
proof -
  have "adds P w (snd (aggregate_run_terminal E rid org att gen w))" for w
  proof -
    have "adds (\<lambda>e. e_run_id e = rid) w (snd (aggregate_run_terminal E rid org att gen w))"
      by (rule guarD [OF aggregate_adds])
    then show ?thesis using aggregate_adds_none [of w E rid org att gen] by (auto simp: adds_def)
  qed
  then show ?thesis by (simp add: guar_def)
qed

lemma append_failed_safe: "guar safe (append_failed E rid it e)"
  unfolding append_failed_def by (cases e) (auto intro!: sw.guar_rules guar_intros)

lemma ingest_item_safe: "guar safe (ingest_item E rid org run ids event)"
  unfolding ingest_item_def store_item_def check_artifact_def append_item_def move_step_def Let_def
  by (intro sw.guar_rules guar_json_dict append_failed_safe guar_intros list_artifacts_same_log [THEN guar_same_log])

lemma ingest_items_safe: "guar safe (ingest_items E rid org run ids evs n)"
  by (induction evs arbitrary: n) (auto intro!: sw.guar_return sw.guar_bind ingest_item_safe)

lemma ingest_safe [guar_intros]: "guar safe (ingest_internal_events E rid body org)"
  unfolding ingest_internal_events_def ingest_batch_def
  by (intro request_safe sw.guar_rules guar_json_list ingest_items_safe guar_intros)

section \<open>What ingestion adds\<close>

definition admissible :: "string \<Rightarrow> event_row \<Rightarrow> bool" where
  "admissible rid e \<longleftrightarrow> e_run_id e = rid
     \<and> (is_control_event_type (e_event_type e) \<or> conforms (e_event_type e) (e_payload e))"

lemma conforms_fields:
  assumes "conforms ty d" and "(k, v) \<in> set d"
  shows "\<exists>fields. (ty, fields) \<in> set SEMANTIC_PAYLOAD_FIELDS \<and> k \<in> set fields"
proof -
  obtain fields where f: "map_of semantic_schema ty = Some fields" using assms(1) by (auto simp: conforms_def split: option.splits)
  with assms have "k \<in> set (List.map fst fields)" by (force simp: conforms_def)
  moreover have "map_of SEMANTIC_PAYLOAD_FIELDS ty = Some (List.map fst fields)" using schema_fields [of ty] f by simp
  ultimately show ?thesis by (blast dest: map_of_SomeD)
qed

lemma conforms_stored:
  assumes "conforms ty d"
  shows "omit_runtime_binding_keys d = d"
proof -
  have "list_all (\<lambda>(ty, fields). list_all (\<lambda>k. k \<notin> set RUNTIME_BINDING_PUBLIC_OMIT_KEYS) fields) SEMANTIC_PAYLOAD_FIELDS"
    by (simp add: SEMANTIC_PAYLOAD_FIELDS_def RUNTIME_BINDING_PUBLIC_OMIT_KEYS_def)
  then have "k \<notin> set RUNTIME_BINDING_PUBLIC_OMIT_KEYS" if "(k, v) \<in> set d" for k v
    using conforms_fields [OF assms that] by (auto simp: list_all_iff dest: bspec)
  then show ?thesis unfolding omit_runtime_binding_keys_def by (auto simp: filter_id_conv)
qed

lemma guar_bind_lift: "(\<And>a. r = Inr a \<Longrightarrow> guar R (f a)) \<Longrightarrow> (\<And>s. R s s) \<Longrightarrow> guar R (bindE (liftE r) f)"
  by (cases r) (simp_all add: guar_def bindE_def)

lemma check_item_passed:
  assumes "check_item run ids it = Inr None" and "it_payload it = JObj p"
  shows "is_control_event_type (it_event_type it) \<or> conforms (it_event_type it) p"
proof -
  have f: "c = Inr None" if "first_failure cs = Inr None" "c \<in> set cs" for c cs
    using that by (induction cs rule: first_failure.induct) auto
  have t: "check_type it = Inr None" and s: "check_schema it = Inr None"
    using assms(1) unfolding check_item_def by (rule f, simp)+
  show ?thesis
  proof (cases "is_semantic_event_type (it_event_type it)")
    case False
    with t show ?thesis by (simp add: check_type_def split: if_splits)
  next
    case True
    with s assms(2) have "validate_semantic_event_payload (it_event_type it) (JObj p) = Inr None"
      by (auto simp: check_schema_def split: sum.splits option.splits)
    then show ?thesis using validates_conforms by blast
  qed
qed

lemma item_opts_stored: "stored_payload p (item_opts org run it sid) = omit_runtime_binding_keys p"
  by (simp add: stored_payload_def item_opts_def attempt_opts_def no_opts_def)

lemma control_kept: "is_control_event_type ty \<or> conforms ty p \<Longrightarrow>
    is_control_event_type ty \<or> conforms ty (omit_runtime_binding_keys p)"
  using conforms_stored by metis

lemma append_item_adds:
  assumes "check_item run ids it = Inr None"
  shows "guar (adds (admissible rid)) (append_item E rid org run it)"
proof (cases "it_payload it")
  case (JObj p)
  have "guar (adds (admissible rid)) (append_event E rid (it_event_type it) p (item_opts org run it sid))" for sid
    using control_kept [OF check_item_passed [OF assms JObj]]
    by (intro append_event_adds) (simp add: admissible_def item_opts_stored)
  then show ?thesis
    unfolding append_item_def JObj json.case Let_def
    by (intro ad.guar_rules)
qed (simp_all add: append_item_def ad.guar_raise)

lemma reject_item_adds: "guar (adds P) (reject_item E rid it why d)"
  by (rule same_log_adds [OF reject_item_same_log])

lemma append_failed_adds: "guar (adds P) (append_failed E rid it e)"
  unfolding append_failed_def by (cases e) (auto intro!: ad.guar_rules reject_item_adds)

lemma move_step_adds: "guar (adds P) (move_step E rid org it sid)"
  unfolding move_step_def Let_def by (intro ad.guar_rules adds_reads aggregate_adds_any)

lemma ingest_item_adds: "guar (adds (admissible rid)) (ingest_item E rid org run ids event)"
  unfolding ingest_item_def
proof (intro guar_bind_lift ad.guar_option ad.guar_prod ad.guar_then reject_item_adds ad.guar_return ad.guar_bind)
  fix it failure assume "check_item run ids it = Inr failure" "failure = None"
  then have c: "check_item run ids it = Inr None" by simp
  show "guar (adds (admissible rid)) (check_artifact rid it)"
    unfolding check_artifact_def by (intro ad.guar_rules adds_reads)
  show "guar (adds (admissible rid)) (store_item E rid org run ids it)"
    unfolding store_item_def by (intro ad.guar_rules append_item_adds [OF c] append_failed_adds move_step_adds)
qed (rule ad.R_refl)+

lemma ingest_items_adds: "guar (adds (admissible rid)) (ingest_items E rid org run ids evs n)"
  by (induction evs arbitrary: n) (auto intro!: ad.guar_return ad.guar_bind ingest_item_adds)


lemma request_adds: "guar (adds P) m \<Longrightarrow> guar (adds P) (request m)"
  by (auto simp: guar_def request_def adds_def split: prod.split sum.split)

lemma ingest_adds: "guar (adds (admissible rid)) (ingest_internal_events E rid body org)"
  unfolding ingest_internal_events_def ingest_batch_def
  by (intro request_adds ad.guar_rules guar_json_list ingest_items_adds adds_reads)

text \<open>C37: Whatever a batch holds, ingestion only ever adds events to the log of the run it was sent for, and
  only events of a known type: control events, and semantic events whose recorded payload satisfies
  the schema of its type.\<close>

theorem ingested_events_admissible:
  assumes "distinct (List.map r_id (runs (db w)))"
  shows "\<exists>es. events (db (snd (ingest_internal_events E rid body org w))) = events (db w) @ es
    \<and> list_all (admissible rid) es"
  using guarD [OF ingest_adds [of rid E body org], of w] assms by (simp add: adds_def)

section \<open>Every item is accounted for\<close>

definition same_rej :: "world \<Rightarrow> world \<Rightarrow> bool" where
  "same_rej w w' \<longleftrightarrow> rejections (db w') = rejections (db w)"

interpretation sr: guarantee same_rej
  by unfold_locales (auto simp: same_rej_def)

lemma same_rej_stmts:
  "guar same_rej (update_runs cr fr)" "guar same_rej (update_steps cs fs)" "guar same_rej (update_artifacts cf ff)"
  "guar same_rej (insert_event e)" "guar same_rej (insert_artifact f)"
  "guar same_rej (select_run c1)" "guar same_rej (select_event c2)" "guar same_rej (select_artifact c5)"
  "guar same_rej (fresh_uuid E)" "guar same_rej now_op" "guar same_rej (ext_call x)"
  "guar same_rej (alloc_event_seq rid opts)" "guar same_rej (run_steps rid)" "guar same_rej (list_artifacts rid)"
  "guar same_rej (get_run rid org)"
  by (simp_all add: guar_def stmt_defs getsE_def modifyE_def same_rej_def Let_def alloc_event_seq_def run_steps_def
      list_artifacts_def get_run_def bindE_def split: option.split)

lemma local_ops_same_rej:
  "guar same_rej (local_write E k c h n)" "guar same_rej (local_read E k)"
  unfolding local_write_def local_read_def
  by (intro sr.guar_rules; simp add: guar_def write_file_def read_file_def path_exists_def same_rej_def Let_def split: option.split)+

lemma append_event_same_rej: "guar same_rej (append_event E rid ty p opts)"
  unfolding append_event_def snapshot_trace_id_def write_event_def by (intro sr.guar_rules same_rej_stmts)

lemma store_artifact_same_rej: "guar same_rej (store_artifact_bytes E rid a)"
proof -
  have "guar same_rej (d_write (LocalStorageDriver E) k c h n)" for k c h n
    by (simp add: LocalStorageDriver_def local_ops_same_rej)
  then show ?thesis
    unfolding store_artifact_bytes_def store_events_def find_existing_artifact_def persist_bytes_def
    by (intro sr.guar_rules append_event_same_rej same_rej_stmts)
qed

lemma aggregate_same_rej: "guar same_rej (aggregate_run_terminal E rid org att gen)"
proof -
  have t: "guar same_rej (append_terminal_event E rid ty p org)" for ty p org
    unfolding append_terminal_event_def drop_runtime_error_def
    by (intro sr.guar_rules append_event_same_rej) (simp split: exn.split add: sr.guar_raise sr.guar_return)
  have s: "guar same_rej (set_status rid st opts)" for st opts
    unfolding set_status_def close_external_session_if_present_def by (intro sr.guar_rules same_rej_stmts)
  show ?thesis
    unfolding aggregate_run_terminal_def aggregate_steps_def fail_for_step_def fail_for_artifacts_def complete_run_def finish_run_def
    by (intro sr.guar_rules t s store_artifact_same_rej same_rej_stmts)
qed

lemma move_step_same_rej: "guar same_rej (move_step E rid org it sid)"
  unfolding move_step_def Let_def update_step_state_def
  by (intro sr.guar_rules aggregate_same_rej same_rej_stmts)

lemma append_item_same_rej: "guar same_rej (append_item E rid org run it)"
  unfolding append_item_def Let_def by (intro sr.guar_rules guar_json_dict append_event_same_rej)

definition text_ids :: "json \<Rightarrow> bool" where
  "text_ids event = (case read_item event of Inl _ \<Rightarrow> True
     | Inr it \<Rightarrow> db_text (it_event_id it) \<noteq> None \<and> db_text (it_source_event_id it) \<noteq> None)"

definition rejected :: "world \<Rightarrow> nat" where
  "rejected w = length (rejections (db w))"

lemma reject_item_counts:
  assumes "db_text (it_event_id it) \<noteq> None" and "db_text (it_source_event_id it) \<noteq> None"
    and "reject_item E rid it why d w = (Inr u, w')"
  shows "rejected w' = Suc (rejected w)"
  using assms
  by (auto simp: reject_item_def record_event_rejection_def bindE_def fresh_uuid_def insert_rejection_def with_db_def rejected_def modifyE_def
      split: option.splits)

lemma same_rej_count: "guar same_rej m \<Longrightarrow> m w = (r, w') \<Longrightarrow> rejected w' = rejected w"
  using guar_result [of same_rej m w r w'] by (simp add: same_rej_def rejected_def)


lemma store_item_counts:
  assumes "db_text (it_event_id it) \<noteq> None" and "db_text (it_source_event_id it) \<noteq> None"
    and "store_item E rid org run ids it w = (Inr b, w')"
  shows "rejected w' = rejected w + (if b then 0 else 1)"
proof -
  let ?go = "\<lambda>c. c \<and> \<not> is_semantic_event_type (it_event_type it) \<and> is_str (it_step_id it)
              \<and> str_val (it_step_id it) \<noteq> [] \<and> str_val (it_step_id it) \<in> set ids"
  let ?mv = "\<lambda>c. whenE (?go c) (move_step E rid org it (str_val (it_step_id it)))"
  obtain c w1 where 1: "catchE (thenE (append_item E rid org run it) (returnE True)) (append_failed E rid it) w = (Inr c, w1)"
    and 2: "thenE (?mv c) (returnE c) w1 = (Inr b, w')"
    using assms(3) unfolding store_item_def by (rule bindE_Inr)
  from 2 obtain u w2 where 3: "?mv c w1 = (Inr u, w2)" "returnE c w2 = (Inr b, w')"
    by (rule thenE_Inr)
  have "guar same_rej (?mv c)" by (intro sr.guar_when move_step_same_rej)
  from same_rej_count [OF this 3(1)] have "rejected w2 = rejected w1" .
  with 3(2) have cb: "b = c" "rejected w' = rejected w1" by simp_all
  obtain r w0 where a: "append_item E rid org run it w = (r, w0)" by fastforce
  have ra: "rejected w0 = rejected w" by (rule same_rej_count [OF append_item_same_rej a])
  show ?thesis
  proof (cases r)
    case (Inr v)
    with 1 a have "c" "w1 = w0" by (simp_all add: catchE_def thenE_def bindE_def)
    with cb ra show ?thesis by simp
  next
    case (Inl e)
    with 1 a have f: "append_failed E rid it e w0 = (Inr c, w1)" by (simp add: catchE_def thenE_def bindE_def)
    then obtain m where m: "e = RuntimeError m" by (cases e) (simp_all add: append_failed_def)
    with f obtain why d where "thenE (reject_item E rid it why d) (returnE False) w0 = (Inr c, w1)"
      by (auto simp: append_failed_def split: if_splits)
    then obtain u' w3 where "reject_item E rid it why d w0 = (Inr u', w3)" "returnE False w3 = (Inr c, w1)"
      by (elim thenE_Inr)
    with reject_item_counts [OF assms(1,2)] ra cb show ?thesis by simp
  qed
qed

lemma ingest_item_counts:
  assumes "text_ids event" and "ingest_item E rid org run ids event w = (Inr b, w')"
  shows "rejected w' = rejected w + (if b then 0 else 1)"
proof -
  obtain it w0 where it: "liftE (read_item event) w = (Inr it, w0)"
    and 1: "bindE (liftE (check_item run ids it)) (\<lambda>failure.
     case failure of
       Some (reason, details) \<Rightarrow> thenE (reject_item E rid it reason details) (returnE False)
     | None \<Rightarrow>
         bindE (check_artifact rid it) (\<lambda>failure.
         case failure of
           Some (reason, details) \<Rightarrow> thenE (reject_item E rid it reason details) (returnE False)
         | None \<Rightarrow> store_item E rid org run ids it)) w0 = (Inr b, w')"
    using assms(2) unfolding ingest_item_def by (rule bindE_Inr)
  from it have "read_item event = Inr it" and w0: "w0 = w" by simp_all
  with assms(1) have ids: "db_text (it_event_id it) \<noteq> None" "db_text (it_source_event_id it) \<noteq> None"
    by (simp_all add: text_ids_def)
  have rej: "rejected w' = Suc (rejected w) \<and> \<not> b"
    if "thenE (reject_item E rid it why d) (returnE False) w = (Inr b, w')" for why d
    using that reject_item_counts [OF ids] by (elim thenE_Inr) simp
  obtain f where f: "check_item run ids it = Inr f" using 1 by (cases "check_item run ids it") (simp_all add: bindE_def)
  show ?thesis
  proof (cases f)
    case (Some p)
    then obtain why d where "f = Some (why, d)" by (cases p) auto
    with 1 f w0 have "thenE (reject_item E rid it why d) (returnE False) w = (Inr b, w')" by simp
    from rej [OF this] show ?thesis by simp
  next
    case None
    with 1 f w0 obtain g w1 where g: "check_artifact rid it w = (Inr g, w1)"
      "(case g of Some (reason, details) \<Rightarrow> thenE (reject_item E rid it reason details) (returnE False)
         | None \<Rightarrow> store_item E rid org run ids it) w1 = (Inr b, w')"
      by simp (elim bindE_Inr)
    have "w1 = w" using g(1)
      by (auto simp: check_artifact_def list_artifacts_def bindE_def Let_def split: if_splits option.splits)
    with g(2) show ?thesis
      using rej store_item_counts [OF ids] by (cases g) auto
  qed
qed

lemma ingest_items_counts:
  "list_all text_ids evs \<Longrightarrow> ingest_items E rid org run ids evs n w = (Inr m, w') \<Longrightarrow>
   n \<le> m \<and> m \<le> n + length evs \<and> rejected w' + m = rejected w + n + length evs"
proof (induction evs arbitrary: n w)
  case Nil
  then show ?case by simp
next
  case (Cons ev evs)
  from Cons.prems(2) obtain b w1 where b: "ingest_item E rid org run ids ev w = (Inr b, w1)"
    "ingest_items E rid org run ids evs (if b then Suc n else n) w1 = (Inr m, w')"
    by (simp, elim bindE_Inr) blast
  have "rejected w1 = rejected w + (if b then 0 else 1)"
    using ingest_item_counts [OF _ b(1)] Cons.prems(1) by simp
  with Cons.IH [OF _ b(2)] Cons.prems(1) show ?case by (auto split: if_splits)
qed

text \<open>Nothing in a batch is lost: when ingestion answers, every item of the batch is either counted in the
  answer or has left one rejection with its reason; when it fails, no table has changed. (A rejection
  whose event id is no text is dropped silently, so the items' ids are assumed to be texts.)\<close>

theorem ingest_accounts_for_all:
  assumes "dget body ''events'' = JList evs" and "list_all text_ids evs"
  shows "case ingest_internal_events E rid body org w of
      (Inr resp, w') \<Rightarrow> ir_count resp \<le> length evs \<and> rejected w' = rejected w + (length evs - ir_count resp)
    | (Inl e, w') \<Rightarrow> db w' = db w"
proof (cases "ingest_internal_events E rid body org w")
  case (Pair r w')
  show ?thesis
  proof (cases r)
    case (Inl e)
    with Pair show ?thesis
      by (auto simp: ingest_internal_events_def request_def split: prod.splits sum.splits)
  next
    case (Inr resp)
    from Pair Inr obtain v where v: "ingest_batch E rid org body v w = (Inr resp, w')"
      by (auto simp: ingest_internal_events_def request_def get_run_def bindE_def split: prod.splits sum.splits if_splits option.splits)
    define ids where "ids = List.map st_step_id (order_by st_created_at (steps_of w rid))"
    have run: "ingest_batch E rid org body v w = bindE (if evs = [] then returnE 0 else ingest_items E rid org v ids evs 0)
        (\<lambda>n. returnE \<lparr>ir_count = n, ir_org_id = v_org_id v, ir_run_id = v_run_id v\<rparr>) w"
      by (simp add: ingest_batch_def assms(1) ids_def run_steps_def bindE_run [of "getsE (\<lambda>w. order_by st_created_at (steps_of w rid))", OF getsE_run])
    have "(if evs = [] then returnE 0 else ingest_items E rid org v ids evs 0) = ingest_items E rid org v ids evs 0"
      by (cases evs) simp_all
    with v run have "bindE (ingest_items E rid org v ids evs 0)
        (\<lambda>n. returnE \<lparr>ir_count = n, ir_org_id = v_org_id v, ir_run_id = v_run_id v\<rparr>) w = (Inr resp, w')" by simp
    then obtain n w1 where "ingest_items E rid org v ids evs 0 w = (Inr n, w1)"
      "returnE \<lparr>ir_count = n, ir_org_id = v_org_id v, ir_run_id = v_run_id v\<rparr> w1 = (Inr resp, w')"
      by (rule bindE_Inr)
    with ingest_items_counts [OF assms(2) this(1)] have "ir_count resp \<le> length evs"
      "rejected w' + ir_count resp = rejected w + length evs" by auto
    with Pair Inr show ?thesis by simp
  qed
qed

section \<open>A concrete batch\<close>

definition bogus_batch :: dict where
  "bogus_batch = [(''events'', JList [JObj [(''event_type'', JStr ''bogus''), (''event_id'', JStr ''b-1'')]])]"

lemma bogus_item:
  "read_item (JObj [(''event_type'', JStr ''bogus''), (''event_id'', JStr ''b-1'')]) = Inr
     \<lparr>it_event_type = ''bogus'', it_payload = JObj [], it_source = ''edge'', it_event_id = JStr ''b-1'',
      it_source_event_id = JStr ''b-1'', it_step_id = JNull, it_attempt_id = JNull, it_run_generation = JNull\<rparr>"
  by (simp add: read_item_def read_fields_def or_else_def get_either_def get_attr_def)

lemma bogus_batch_ids: "dget bogus_batch ''events'' = JList [JObj [(''event_type'', JStr ''bogus''), (''event_id'', JStr ''b-1'')]]"
  "list_all text_ids [JObj [(''event_type'', JStr ''bogus''), (''event_id'', JStr ''b-1'')]]"
  by (simp_all add: bogus_batch_def text_ids_def bogus_item)

lemma bogus_check: "check_item (view_of_run log_run) [] \<lparr>it_event_type = ''bogus'', it_payload = JObj [], it_source = ''edge'', it_event_id = JStr ''b-1'',
      it_source_event_id = JStr ''b-1'', it_step_id = JNull, it_attempt_id = JNull, it_run_generation = JNull\<rparr>
    = Inr (Some (''unknown_event_type'', [(''event_type'', JStr ''bogus'')]))"
  by (simp add: check_item_def check_step_def check_attempt_def check_generation_def check_context_def check_type_def
      type_details_def is_semantic_event_type_def SEMANTIC_EVENT_TYPES_def is_control_event_type_def
      CONTROL_EVENT_PREFIXES_KEEP_def startswith_def view_of_run_def log_run_def TERMINAL_def)

lemma bogus_batch_answer:
  "\<exists>w'. ingest_internal_events sample_env ''run-1'' bogus_batch ''org-1'' log_world =
     (Inr \<lparr>ir_count = 0, ir_org_id = ''org-1'', ir_run_id = ''run-1''\<rparr>, w')"
proof -
  have g: "get_run ''run-1'' (Some ''org-1'') log_world = (Inr (Some (view_of_run log_run)), log_world)"
    by (intro get_run_of_find log_world_run(1)) (simp add: log_run_def)
  have s: "run_steps ''run-1'' log_world = (Inr [], log_world)"
    by (simp add: run_steps_def steps_of_def log_world_def empty_db_def order_by_def)
  have i: "\<exists>w'. ingest_item sample_env ''run-1'' ''org-1'' (view_of_run log_run) [] (JObj [(''event_type'', JStr ''bogus''), (''event_id'', JStr ''b-1'')]) log_world
      = (Inr False, w')"
    by (simp add: ingest_item_def bogus_item bogus_check thenE_def bindE_def reject_item_def record_event_rejection_def
        fresh_uuid_def insert_rejection_def)
  then obtain w' where i: "ingest_item sample_env ''run-1'' ''org-1'' (view_of_run log_run) [] (JObj [(''event_type'', JStr ''bogus''), (''event_id'', JStr ''b-1'')]) log_world
      = (Inr False, w')" by blast
  let ?ev = "JObj [(''event_type'', JStr ''bogus''), (''event_id'', JStr ''b-1'')]" and ?v = "view_of_run log_run"
  have n: "\<not> (truthy (dget bogus_batch ''org_id'') \<and> dget bogus_batch ''org_id'' \<noteq> JStr ''org-1'')"
    by (simp add: bogus_batch_def)
  have its: "ingest_items sample_env ''run-1'' ''org-1'' ?v [] [?ev] 0 log_world = (Inr 0, w')"
    by (simp add: bindE_run [of "ingest_item sample_env ''run-1'' ''org-1'' ?v [] ?ev", OF i])
  have ids: "v_org_id ?v = ''org-1''" "v_run_id ?v = ''run-1''" by (simp_all add: log_run_def)
  have "ingest_batch sample_env ''run-1'' ''org-1'' bogus_batch ?v log_world =
    (Inr \<lparr>ir_count = 0, ir_org_id = ''org-1'', ir_run_id = ''run-1''\<rparr>, w')"
    unfolding ingest_batch_def ids
    by (simp only: bindE_run [of "run_steps ''run-1''", OF s] list.map bogus_batch_ids(1) truthy.simps json.case if_False
        list.distinct not_True_eq_False not_False_eq_True simp_thms
        bindE_run [of "ingest_items sample_env ''run-1'' ''org-1'' ?v [] [?ev] 0", OF its] returnE_run)
  then show ?thesis
    unfolding ingest_internal_events_def if_not_P [OF n]
    by (intro exI request_Inr) (simp only: bindE_run [of "get_run ''run-1'' (Some ''org-1'')", OF g] option.case)
qed

theorem ingested_events_admissible_witness:
  "\<exists>es. events (db (snd (ingest_internal_events sample_env ''run-1'' bogus_batch ''org-1'' log_world))) = events (db log_world) @ es
    \<and> list_all (admissible ''run-1'') es"
  by (rule ingested_events_admissible [OF log_world_run(3)])

theorem ingest_accounts_for_all_witness:
  "\<exists>w'. ingest_internal_events sample_env ''run-1'' bogus_batch ''org-1'' log_world =
     (Inr \<lparr>ir_count = 0, ir_org_id = ''org-1'', ir_run_id = ''run-1''\<rparr>, w') \<and> rejected w' = rejected log_world + 1"
proof -
  obtain w' where w: "ingest_internal_events sample_env ''run-1'' bogus_batch ''org-1'' log_world =
     (Inr \<lparr>ir_count = 0, ir_org_id = ''org-1'', ir_run_id = ''run-1''\<rparr>, w')" using bogus_batch_answer by blast
  have "rejected w' = rejected log_world + 1"
    using ingest_accounts_for_all [OF bogus_batch_ids, where E = sample_env and rid = "''run-1''" and org = "''org-1''" and w = log_world]
    unfolding w by simp
  with w show ?thesis by blast
qed

end
