(* ===== verification/Run_Api.thy ===== *)
theory Run_Api
  imports Event_Ingest Run_Create
begin

text \<open>
  The reading endpoints of \<open>api/internal_runs.py\<close>: a run, its events, its result, its artifacts and
  their bytes, and the revalidation of its session. Every one first looks the run up in the
  organisation of the caller.
\<close>

section \<open>The endpoints\<close>

text \<open>\<open>run = get_run(\<dots>); if not run: raise HTTPException(404)\<close>, then the rest.\<close>

definition with_run :: "string \<Rightarrow> string \<Rightarrow> (run_view \<Rightarrow> 'a op) \<Rightarrow> 'a op" where
  "with_run run_id x_exec_org_id f =
     bindE (get_run run_id (Some x_exec_org_id)) (\<lambda>run.
     case run of None \<Rightarrow> raiseE (HTTPException 404 ''run not found'') | Some v \<Rightarrow> f v)"

definition get_internal_run :: "string \<Rightarrow> string \<Rightarrow> run_view op" where
  "get_internal_run run_id x_exec_org_id = request (with_run run_id x_exec_org_id returnE)"

record events_response =
  er_org_id :: string
  er_run_id :: string
  er_items :: "event_view list"
  er_next_seq :: int

text \<open>\<open>event_seq > :after_seq\<close> holds of every event when the number is negative.\<close>

definition get_internal_events :: "string \<Rightarrow> int \<Rightarrow> string \<Rightarrow> events_response op" where
  "get_internal_events run_id after_seq x_exec_org_id = request
     (with_run run_id x_exec_org_id (\<lambda>run.
      bindE (list_events run_id (nat after_seq)) (\<lambda>items.
      returnE \<lparr>er_org_id = v_org_id run, er_run_id = v_run_id run, er_items = items,
        er_next_seq = (if items \<noteq> [] then int (ev_event_seq (last items))
                       else if after_seq > 0 then after_seq else 0)\<rparr>)))"

record result_response =
  rr_org_id :: string
  rr_run_id :: string
  rr_status :: run_status
  rr_result :: "json option"

definition get_internal_result :: "string \<Rightarrow> string \<Rightarrow> result_response op" where
  "get_internal_result run_id x_exec_org_id = request
     (with_run run_id x_exec_org_id (\<lambda>run.
      returnE \<lparr>rr_org_id = v_org_id run, rr_run_id = v_run_id run, rr_status = v_status run,
        rr_result = v_result run\<rparr>))"

record artifacts_response =
  as_org_id :: string
  as_run_id :: string
  as_items :: "descriptor list"

definition get_internal_artifacts :: "string \<Rightarrow> string \<Rightarrow> artifacts_response op" where
  "get_internal_artifacts run_id x_exec_org_id = request
     (with_run run_id x_exec_org_id (\<lambda>run.
      bindE (list_artifacts run_id) (\<lambda>items.
      returnE \<lparr>as_org_id = v_org_id run, as_run_id = v_run_id run, as_items = items\<rparr>)))"

text \<open>
  \<open>isinstance(context_version, int)\<close> accepts \<open>True\<close> and \<open>False\<close>, which compare as 1 and 0.
\<close>

fun as_int :: "json \<Rightarrow> exn + int option" where
  "as_int JNull = Inr None"
| "as_int (JInt i) = Inr (Some i)"
| "as_int (JBool b) = Inr (Some (if b then 1 else 0))"
| "as_int _ = Inl (HTTPException 400 ''context version invalid'')"

definition denied_session :: "exn \<Rightarrow> unit op" where
  "denied_session e =
     (case e of ValueError _ \<Rightarrow> raiseE (HTTPException 403 ''run session revalidation denied'') | _ \<Rightarrow> raiseE e)"

definition revalidate_internal_run_session :: "string \<Rightarrow> dict \<Rightarrow> string \<Rightarrow> string \<Rightarrow> unit op" where
  "revalidate_internal_run_session run_id body x_exec_org_id x_exec_user_id = request
     (bindE (get_run run_id (Some x_exec_org_id)) (\<lambda>run.
      case run of
        None \<Rightarrow> raiseE (HTTPException 403 ''run execution context rejected'')
      | Some v \<Rightarrow>
          if v_user_id v \<noteq> x_exec_user_id then raiseE (HTTPException 403 ''run execution context rejected'')
          else
            bindE (liftE (as_int (dget body ''context_version''))) (\<lambda>context_version.
            catchE (revalidate_run_session (v_run_session_id v) x_exec_org_id x_exec_user_id context_version False)
              denied_session)))"

text \<open>
  The agent an artifact may be read for; \<open>(\<dots>).get("runtime_policy", {})\<close> must be a dict when present.
\<close>

definition pinned_agent :: "run_view \<Rightarrow> exn + string" where
  "pinned_agent v =
     (let snapshot = dict_of (v_snapshot v);
          policy = (if has_key snapshot ''runtime_policy'' then dget snapshot ''runtime_policy'' else JObj []) in
      case get_attr policy ''expert_slug'' of
        Inl e \<Rightarrow> Inl e
      | Inr slug \<Rightarrow>
          let pinned = py_str (or_else slug (JStr [])) in
          Inr (if pinned \<noteq> [] then pinned else py_str (or_else (dget snapshot ''expert_slug'') (JStr []))))"

definition agent_allowed :: "run_view \<Rightarrow> string option \<Rightarrow> bool op" where
  "agent_allowed v x_agent_ref =
     (if \<not> str_set x_agent_ref then returnE True
      else bindE (liftE (pinned_agent v)) (\<lambda>pinned. returnE (pinned = [] \<or> Some pinned = x_agent_ref)))"

record bytes_response =
  by_content :: string
  by_media_type :: string
  by_filename :: string
  by_checksum :: string

definition get_internal_artifact_bytes ::
  "env \<Rightarrow> string \<Rightarrow> string \<Rightarrow> string \<Rightarrow> string option \<Rightarrow> string option \<Rightarrow> bytes_response op" where
  "get_internal_artifact_bytes E run_id artifact_id x_exec_org_id x_exec_user_id x_agent_ref = request
     (with_run run_id x_exec_org_id (\<lambda>run.
      if str_set x_exec_user_id \<and> Some (v_user_id run) \<noteq> x_exec_user_id
      then raiseE (HTTPException 403 ''artifact subject mismatch'')
      else
        bindE (agent_allowed run x_agent_ref) (\<lambda>allowed.
        if \<not> allowed then raiseE (HTTPException 403 ''artifact agent mismatch'')
        else
          bindE (get_artifact_bytes E run_id artifact_id) (\<lambda>packed.
          case packed of
            None \<Rightarrow> raiseE (HTTPException 404 ''artifact not found'')
          | Some (meta, content) \<Rightarrow>
              returnE \<lparr>by_content = content, by_media_type = str_or (f_content_type meta) ''application/octet-stream'',
                by_filename = (if f_name meta = [] then artifact_id else f_name meta),
                by_checksum = str_or (f_checksum meta) []\<rparr>))))"

section \<open>Organisations do not see each other's runs\<close>

definition not_ours :: "world \<Rightarrow> string \<Rightarrow> string \<Rightarrow> bool" where
  "not_ours w rid org \<longleftrightarrow> list_all (\<lambda>r. r_id r = rid \<longrightarrow> r_org_id r \<noteq> org) (runs (db w))"

definition not_found :: "exn" where
  "not_found = HTTPException 404 ''run not found''"

lemma get_run_foreign: "not_ours w rid org \<Longrightarrow> get_run rid (Some org) w = (Inr None, w)"
  by (auto simp: get_run_def bindE_def not_ours_def list_all_iff find_None_all)

lemma same_db_world: "w\<lparr>db := db w\<rparr> = (w :: world)"
  by simp

lemma with_run_foreign: "not_ours w rid org \<Longrightarrow> request (with_run rid org f) w = (Inl not_found, w)"
  by (simp add: with_run_def request_def not_found_def bindE_run [of "get_run rid (Some org)", OF get_run_foreign])

text \<open>A run of another organisation is as good as absent: whatever endpoint is called for it, the answer
  is 404, no table changes, no event is shown, and nothing is sent anywhere.\<close>

theorem foreign_run_hidden:
  assumes "not_ours w rid org" and "dget body ''org_id'' = JNull"
  shows "get_internal_run rid org w = (Inl not_found, w) \<and> get_internal_events rid n org w = (Inl not_found, w)
    \<and> get_internal_result rid org w = (Inl not_found, w) \<and> get_internal_artifacts rid org w = (Inl not_found, w)
    \<and> get_internal_artifact_bytes E rid aid org user agent w = (Inl not_found, w)
    \<and> ingest_internal_events E rid body org w = (Inl not_found, w)
    \<and> cancel_internal_run E rid org w = (Inl not_found, w) \<and> resume_internal_run E rid org body w = (Inl not_found, w)
    \<and> approve_internal_run E rid apid org body w = (Inl not_found, w)"
  using get_run_foreign [OF assms(1)] assms(2)
  unfolding get_internal_run_def get_internal_events_def get_internal_result_def get_internal_artifacts_def
    get_internal_artifact_bytes_def with_run_foreign [OF assms(1)] ingest_internal_events_def
    cancel_internal_run_def resume_internal_run_def approve_internal_run_def
  by (simp add: request_def bindE_run [of "get_run rid (Some org)", OF get_run_foreign [OF assms(1)]] not_found_def)

theorem foreign_run_hidden_witness:
  "get_internal_run ''run-1'' ''org-2'' log_world = (Inl not_found, log_world)
   \<and> cancel_internal_run sample_env ''run-1'' ''org-2'' log_world = (Inl not_found, log_world)"
proof -
  have "not_ours log_world ''run-1'' ''org-2''" by (simp add: not_ours_def log_world_def log_run_def)
  from foreign_run_hidden [OF this, of "[]"] show ?thesis by simp
qed

section \<open>Following a run\<close>

text \<open>C38: A client that polls with the cursor the service gave it misses nothing: an answer holds exactly the
  events after the cursor, in order, and the cursor it returns is the number of the last event of the
  run, so asking again with it returns nothing new until something new is recorded.\<close>

theorem polling_misses_nothing:
  assumes "log_ok w" and "find_run w rid = Some r" and "r_org_id r = org" and "n \<le> r_next_event_seq r"
  shows "\<exists>resp. get_internal_events rid (int n) org w = (Inr resp, w)
    \<and> List.map ev_event_seq (er_items resp) = [Suc n..<Suc (r_next_event_seq r)]
    \<and> er_next_seq resp = int (r_next_event_seq r)
    \<and> (\<exists>resp'. get_internal_events rid (er_next_seq resp) org w = (Inr resp', w)
         \<and> er_items resp' = [] \<and> er_next_seq resp' = er_next_seq resp)"
proof -
  have page: "\<exists>resp. get_internal_events rid (int m) org w = (Inr resp, w)
    \<and> List.map ev_event_seq (er_items resp) = [Suc m..<Suc (r_next_event_seq r)]
    \<and> er_next_seq resp = int (r_next_event_seq r)" if m: "m \<le> r_next_event_seq r" for m
  proof -
    obtain trace where "list_events rid m w =
        (Inr (List.map (event_row_view trace) (filter (\<lambda>e. m < e_event_seq e) (events_of w rid))), w)"
      using listed_rows(1) [OF assms(1,2)] by blast
    then obtain evs where l: "list_events rid m w = (Inr evs, w)" "List.map ev_event_seq evs = [Suc m..<Suc (r_next_event_seq r)]"
      using listed_rows(2) [OF assms(1,2), of m] by (auto simp: comp_def)
    have "ev_event_seq (last evs) = r_next_event_seq r" if "evs \<noteq> []"
    proof -
      have "ev_event_seq (last evs) = last [Suc m..<Suc (r_next_event_seq r)]"
        using that l(2) last_map [of evs ev_event_seq] by metis
      then show ?thesis using that l(2) m by (cases "m < r_next_event_seq r") auto
    qed
    moreover have "m = r_next_event_seq r" if "evs = []" using that l(2) m by (auto split: if_splits)
    moreover have "get_internal_events rid (int m) org w = (Inr \<lparr>er_org_id = v_org_id (view_of_run r), er_run_id = v_run_id (view_of_run r),
        er_items = evs, er_next_seq = (if evs \<noteq> [] then int (ev_event_seq (last evs)) else if int m > 0 then int m else 0)\<rparr>, w)"
      unfolding get_internal_events_def with_run_def
      by (intro request_Inr)
        (simp add: bindE_run [of "get_run rid (Some org)", OF get_run_of_find [OF assms(2,3)]] bindE_run [of "list_events rid m", OF l(1)])
    ultimately show ?thesis using l(2) by auto
  qed
  obtain resp where resp: "get_internal_events rid (int n) org w = (Inr resp, w)"
    "List.map ev_event_seq (er_items resp) = [Suc n..<Suc (r_next_event_seq r)]" "er_next_seq resp = int (r_next_event_seq r)"
    using page [OF assms(4)] by blast
  obtain resp' where "get_internal_events rid (int (r_next_event_seq r)) org w = (Inr resp', w)"
    "List.map ev_event_seq (er_items resp') = [Suc (r_next_event_seq r)..<Suc (r_next_event_seq r)]"
    "er_next_seq resp' = int (r_next_event_seq r)" using page [OF order_refl] by blast
  with resp show ?thesis by simp
qed

theorem polling_misses_nothing_witness:
  "\<exists>resp. get_internal_events ''run-1'' (int 0) ''org-1'' log_world = (Inr resp, log_world)
    \<and> List.map ev_event_seq (er_items resp) = [Suc 0..<Suc (r_next_event_seq log_run)] \<and> er_next_seq resp = int (r_next_event_seq log_run)"
proof -
  have "r_org_id log_run = ''org-1''" "0 \<le> r_next_event_seq log_run" by (simp_all add: log_run_def)
  from polling_misses_nothing [OF log_world_ok log_world_run(1) this] show ?thesis by blast
qed

end
