(* ===== verification/Step_Plan.thy ===== *)
theory Step_Plan
  imports Run_Steps
begin

text \<open>
  The plan of a hybrid run (\<open>services/worker.py\<close>): which steps run centrally and which on an edge
  node, and the snapshot an edge step is sent with.
\<close>

section \<open>The plan\<close>

definition plan_step :: "string \<Rightarrow> string \<Rightarrow> json \<Rightarrow> json \<Rightarrow> dict" where
  "plan_step step_id role engine dependencies =
     [(''step_id'', JStr step_id), (''step'', JStr step_id), (''role'', JStr role), (''engine'', engine),
      (''required'', JBool True), (''dependencies'', dependencies)]"

text \<open>
  \<open>for b in bindings\<close>: a dict counts as one binding, the characters of a string and other items that
  are no dicts are passed over, a number cannot be iterated.
\<close>

definition binding_items :: "json \<Rightarrow> exn + dict list" where
  "binding_items v =
     (case v of
        JObj d \<Rightarrow> Inr [d]
      | JList xs \<Rightarrow> Inr (List.map dict_of (filter is_dict xs))
      | JStr _ \<Rightarrow> Inr []
      | _ \<Rightarrow> Inl (OtherError ''object is not iterable''))"

definition at_edge :: "dict \<Rightarrow> bool" where
  "at_edge b \<longleftrightarrow> dget b ''placement'' = JStr ''edge''"

definition edge_binding_step :: "dict \<Rightarrow> dict" where
  "edge_binding_step b =
     (let binding_id = py_str (or_else (dget b ''id'') (or_else (dget b ''binding_id'') (JStr ''job''))) in
      plan_step (''edge_connector_'' @ binding_id) ''edge'' (JStr ''connector'') (JList [JStr ''central_hermes''])
      @ [(''binding'', JObj b)])"

definition hybrid_placement :: "dict \<Rightarrow> bool" where
  "hybrid_placement placement \<longleftrightarrow>
     dget placement ''role'' = JStr ''hybrid'' \<or> dget placement ''engine'' = JStr ''hybrid''"

definition edge_placement :: "dict \<Rightarrow> bool" where
  "edge_placement placement \<longleftrightarrow>
     dget placement ''role'' = JStr ''edge''
     \<or> (dget placement ''engine'' = JStr ''connector'' \<and> dget placement ''role'' \<noteq> JStr ''central'')"

text \<open>\<open>snapshot.get(key) or {}\<close>, of which a field is read next.\<close>

definition sub_dict :: "dict \<Rightarrow> string \<Rightarrow> exn + dict" where
  "sub_dict d k =
     (case or_else (dget d k) (JObj []) of
        JObj x \<Rightarrow> Inr x | _ \<Rightarrow> Inl (OtherError ''object has no attribute get''))"

definition hybrid_steps :: "dict \<Rightarrow> exn + dict list" where
  "hybrid_steps snapshot =
     (case sub_dict snapshot ''runtime_policy'' of
        Inl e \<Rightarrow> Inl e
      | Inr policy \<Rightarrow>
          (case binding_items (or_else (dget policy ''connector_bindings'') (JList [])) of
             Inl e \<Rightarrow> Inl e
           | Inr bs \<Rightarrow> Inr (plan_step ''central_hermes'' ''central'' (JStr ''hermes'') (JList [])
                             # List.map edge_binding_step (filter at_edge bs))))"

definition build_hybrid_step_plan :: "dict \<Rightarrow> exn + dict list" where
  "build_hybrid_step_plan snapshot =
     (if snapshot = [] then Inr [plan_step ''central'' ''central'' (JStr ''hermes'') (JList [])]
      else
        (case sub_dict snapshot ''placement'' of
           Inl e \<Rightarrow> Inl e
         | Inr placement \<Rightarrow>
             if hybrid_placement placement then hybrid_steps snapshot
             else if edge_placement placement
               then Inr [plan_step ''edge_connector'' ''edge'' (JStr ''connector'') (JList [])]
             else Inr [plan_step ''central'' ''central''
                         (if has_key placement ''engine'' then dget placement ''engine'' else JStr ''hermes'')
                         (JList [])]))"

definition needs_edge_jobs :: "dict \<Rightarrow> exn + bool" where
  "needs_edge_jobs snapshot =
     (if snapshot = [] then Inr False
      else
        (case sub_dict snapshot ''runtime_policy'' of
           Inl e \<Rightarrow> Inl e
         | Inr policy \<Rightarrow> Inr
             (case dget policy ''connector_bindings'' of
                JObj d \<Rightarrow> at_edge d
              | JList xs \<Rightarrow> list_ex (\<lambda>b. is_dict b \<and> at_edge (dict_of b)) xs
              | _ \<Rightarrow> False)))"

text \<open>\<open>dict(x or {})\<close>; a list of pairs, which \<open>dict\<close> would accept too, is not handled.\<close>

definition dict_copy :: "json \<Rightarrow> exn + dict" where
  "dict_copy v =
     (case or_else v (JObj []) of JObj d \<Rightarrow> Inr d | _ \<Rightarrow> Inl (OtherError ''cannot convert to dict''))"

definition KEPT_FOR_EDGE :: "string list" where
  "KEPT_FOR_EDGE =
     [''org_id'', ''user_id'', ''request_trace_id'', ''run_session_id'', ''execution_context'', ''context_version'']"

definition build_edge_step_snapshot :: "dict \<Rightarrow> dict \<Rightarrow> exn + dict" where
  "build_edge_step_snapshot snapshot edge_step =
     (case sub_dict edge_step ''binding'' of
        Inl e \<Rightarrow> Inl e
      | Inr b \<Rightarrow>
          (case (dict_copy (dget b ''connector_config''), dict_copy (dget b ''network_policy'')) of
             (Inl e, _) \<Rightarrow> Inl e
           | (_, Inl e) \<Rightarrow> Inl e
           | (Inr config, Inr network) \<Rightarrow> Inr
               ([(''placement'', JObj [(''role'', JStr ''edge''), (''engine'', JStr ''connector''),
                    (''edge_node_id'', or_else (dget b ''edge_node_id'') (dget b ''node_id''))]),
                 (''runtime_policy'', JObj [(''connector_kind'', dget b ''connector_kind''),
                    (''connector_config'', JObj config),
                    (''connector_secret_ref_id'', dget b ''connector_secret_ref_id''),
                    (''network_policy'', JObj network)])]
                @ List.map (\<lambda>k. (k, dget snapshot k)) (filter (has_key snapshot) KEPT_FOR_EDGE))))"

section \<open>What a plan looks like\<close>

lemma plan_step_simps [simp]:
  "dget (plan_step sid role eng deps) ''step_id'' = JStr sid" "dget (plan_step sid role eng deps) ''role'' = JStr role"
  "dget (plan_step sid role eng deps) ''required'' = JBool True" "dget (plan_step sid role eng deps) ''dependencies'' = deps"
  "dget (plan_step sid role eng deps) ''binding'' = JNull"
  by (simp_all add: plan_step_def)

end
