(* ===== verification/Context_Check.thy ===== *)
theory Context_Check
  imports Run_Sessions
begin

text \<open>
  \<open>services/context_revalidate.py\<close>: before a worker acts for a run it has the execution context checked,
  the pinned session against the tables and the context itself by the central service.
\<close>

section \<open>The operation\<close>

definition denied :: "string \<Rightarrow> 'a op" where
  "denied m = raiseE (ContextRevalidationError m)"

definition or_text :: "string option \<Rightarrow> json \<Rightarrow> string" where
  "or_text s v = (if str_set s then str_or s [] else py_str (or_else v (JStr [])))"

definition central_url :: "env \<Rightarrow> string" where
  "central_url E = rstrip_of (\<lambda>c. c = CHR ''/'')
     (if central_base_url E = [] then ''http://localhost:4510'' else central_base_url E)"

definition check_pinned_session :: "dict \<Rightarrow> string \<Rightarrow> string \<Rightarrow> unit op" where
  "check_pinned_session snapshot org_id user_id =
     (let run_session_id = dget snapshot ''run_session_id''; context_version = dget snapshot ''context_version'' in
      whenE (truthy run_session_id)
        (catchE
          (bindE (liftE (if context_version = JNull then Inr None
                         else case py_int context_version of Inl e \<Rightarrow> Inl e | Inr v \<Rightarrow> Inr (Some v))) (\<lambda>cv.
           revalidate_run_session (Some (py_str run_session_id)) org_id user_id cv False))
          (\<lambda>e. case e of ValueError _ \<Rightarrow> denied ''run session revalidation denied'' | _ \<Rightarrow> raiseE e)))"

definition check_context_remotely ::
  "env \<Rightarrow> dict \<Rightarrow> dict \<Rightarrow> json \<Rightarrow> string \<Rightarrow> string option \<Rightarrow> int option \<Rightarrow> string \<Rightarrow> string \<Rightarrow> unit op" where
  "check_context_remotely E snapshot execution_context context_version run_id attempt_id generation org_id user_id =
     bindE (liftE (py_int context_version)) (\<lambda>version.
     let run_session_id = dget snapshot ''run_session_id'' in
     bindE (http_op E ''POST'' (central_url E @ ''/api/v1/internal/edge/skill-run/revalidate'')
       [(''X-Skill-Agent-Token'', JStr (internal_token E)), (''X-Exec-Org-Id'', JStr org_id),
        (''Content-Type'', JStr ''application/json'')]
       (JObj [(''run_id'', JStr run_id), (''attempt_id'', jopt attempt_id),
              (''generation'', (case generation of None \<Rightarrow> JNull | Some g \<Rightarrow> JInt g)),
              (''context_version'', JInt version), (''execution_context'', JObj execution_context),
              (''user_id'', JStr user_id),
              (''run_session_id'', (if truthy run_session_id then JStr (py_str run_session_id) else JNull))])) (\<lambda>resp.
     case resp of
       Unreachable \<Rightarrow> denied ''context revalidation unreachable''
     | HttpFault m \<Rightarrow> raiseE (OtherError m)
     | Response code body \<Rightarrow> if code \<noteq> 200 then denied ''context revalidation denied'' else returnE ()))"

definition revalidate_execution_context ::
  "env \<Rightarrow> dict \<Rightarrow> string \<Rightarrow> string option \<Rightarrow> int option \<Rightarrow> string option \<Rightarrow> string option \<Rightarrow> unit op" where
  "revalidate_execution_context E snapshot run_id attempt_id generation org_id user_id =
     (let execution_context = dget snapshot ''execution_context'';
          context_version0 = dget snapshot ''context_version'';
          resolved_org_id = or_text org_id (dget snapshot ''org_id'');
          resolved_user_id = or_text user_id (dget snapshot ''user_id'') in
      thenE (check_pinned_session snapshot resolved_org_id resolved_user_id)
      (if \<not> is_dict execution_context \<or> dict_of execution_context = [] then denied ''execution context missing''
       else
         let context_version = (if context_version0 = JNull then jget execution_context ''context_version''
                                else context_version0) in
         if context_version = JNull then denied ''context version missing''
         else check_context_remotely E snapshot (dict_of execution_context) context_version run_id attempt_id
                generation resolved_org_id resolved_user_id))"

section \<open>Guarantees\<close>

lemma denied_same_db: "guar same_db (denied m)"
  by (simp add: denied_def sd.guar_raise)

lemma revalidate_context_same_db: "guar same_db (revalidate_execution_context E sn rid att gen org user)"
proof -
  have s: "guar same_db (revalidate_run_session sid org user cv m)" for sid org user cv m
    unfolding revalidate_run_session_def
    by (intro sd.guar_rules same_db_stmts) (simp add: guar_def same_db_def stmt_defs)
  have c: "guar same_db (check_pinned_session sn org user)" for sn org user
    unfolding check_pinned_session_def Let_def
    by (intro sd.guar_rules s) (auto split: exn.split intro: sd.guar_raise denied_same_db)
  have r: "guar same_db (check_context_remotely E sn ec cv rid att gen org user)" for sn ec cv rid att gen org user
    unfolding check_context_remotely_def by (intro sd.guar_rules same_db_stmts guar_case_http denied_same_db)
  show ?thesis
    unfolding revalidate_execution_context_def by (intro sd.guar_rules c r denied_same_db)
qed

lemmas revalidate_context_same_log = revalidate_context_same_db [THEN guar_same_db]

end
