(* ===== verification/Run_Worker.thy ===== *)
theory Run_Worker
  imports Event_Schema Step_Plan Context_Check Run_Control
begin

text \<open>
  \<open>services/worker.py\<close>: the loop of a central worker. It first recovers the runs whose lease has
  expired, then claims the oldest queued run for a new attempt with the next generation, and executes
  it. Each database session of the code is one \<open>request\<close>, committed at its end; while
  the engine runs, every event it yields is a transaction of its own, between which other workers and
  handlers act. The engine is a parameter: the events it yields and the exception it ends with, if any.
\<close>

section \<open>Recovering runs whose lease expired\<close>

definition next_status_after_stale_lease :: "string option \<Rightarrow> json \<Rightarrow> json \<Rightarrow> run_status" where
  "next_status_after_stale_lease last_event_type last_phase last_error_code =
     (let error_code = py_str (or_else last_error_code (JStr [])) in
      if error_code \<in> {''RUNTIME_INTERRUPTED'', ''RUNTIME_STATE_UNAVAILABLE''} then FAILED
      else if last_phase = JStr ''WAITING_APPROVAL'' then WAITING_APPROVAL
      else if last_event_type = Some ''run.failed'' \<and> error_code \<noteq> [] then FAILED
      else QUEUED)"

definition worker_restart_gap_payload :: "string \<Rightarrow> string option \<Rightarrow> dict" where
  "worker_restart_gap_payload reason previous_attempt_id =
     [(''reason'', JStr reason), (''kind'', JStr ''worker_restart_gap''), (''observability_gap'', JBool True),
      (''previous_attempt_id'', jopt previous_attempt_id)]"

definition last_event :: "string \<Rightarrow> world \<Rightarrow> event_row option" where
  "last_event run_id w =
     (case sort_key e_event_seq (events_of w run_id) of [] \<Rightarrow> None | es \<Rightarrow> Some (last es))"

definition stale_run :: "int \<Rightarrow> run_row \<Rightarrow> bool" where
  "stale_run now r \<longleftrightarrow>
     r_status r \<in> {PREPARING, RUNNING} \<and> (case r_lease_until r of None \<Rightarrow> False | Some t \<Rightarrow> t < now)"

text \<open>
  The rows of the first query: the stale runs, each with its last event. \<open>FOR UPDATE SKIP LOCKED\<close> leaves out
  the rows other transactions hold locked at that moment; \<open>locked\<close> tells which runs these are.
\<close>

definition stale_rows :: "(string \<Rightarrow> bool) \<Rightarrow> (run_row \<times> event_row option) list op" where
  "stale_rows locked = getsE (\<lambda>w. List.map (\<lambda>r. (r, last_event (r_id r) w))
     (filter (\<lambda>r. stale_run (clock w) r \<and> \<not> locked (r_id r)) (runs (db w))))"

definition close_attempt :: "string option \<Rightarrow> attempt_status \<Rightarrow> string \<Rightarrow> unit op" where
  "close_attempt attempt_id st message =
     whenE (str_set attempt_id)
       (bindE now_op (\<lambda>now.
        bindE (update_attempts
          (\<lambda>t. Some (t_id t) = attempt_id \<and> t_status t \<in> {ATT_PREPARING, ATT_RUNNING})
          (\<lambda>t. t\<lparr>t_status := st, t_completed_at := Some now, t_error_message := Some message\<rparr>))
          (\<lambda>_. returnE ())))"

text \<open>\<open>UPDATE runs SET status = \<dots>, worker_id = NULL, lease_until = NULL \<dots> WHERE id = :id\<close>.\<close>

definition release_run :: "string \<Rightarrow> run_status \<Rightarrow> bool \<Rightarrow> unit op" where
  "release_run run_id st drop_attempt =
     bindE now_op (\<lambda>now.
     bindE (update_runs (\<lambda>r. r_id r = run_id)
       (\<lambda>r. r\<lparr>r_status := st, r_attempt_id := (if drop_attempt then None else r_attempt_id r),
              r_worker_id := None, r_lease_until := None, r_updated_at := now\<rparr>)) (\<lambda>_. returnE ()))"

definition recover_run :: "env \<Rightarrow> run_row \<times> event_row option \<Rightarrow> unit op" where
  "recover_run E row =
     (let run_id = r_id (fst row); att_id = r_attempt_id (fst row);
          payload = (case snd row of None \<Rightarrow> [] | Some e \<Rightarrow> e_payload e);
          next_status = next_status_after_stale_lease (map_option e_event_type (snd row))
                          (dget payload ''phase'') (dget payload ''error_code'');
          record_event = (\<lambda>ty p. thenE (append_event E run_id ty p no_opts) (returnE ())) in
      if next_status = WAITING_APPROVAL then
        thenE (release_run run_id WAITING_APPROVAL False)
          (record_event ''run.recovered'' (worker_restart_gap_payload ''lease_expired_waiting_approval'' att_id))
      else if next_status = FAILED then
        thenE (close_attempt att_id ATT_FAILED ''lease expired after interrupted runtime'')
        (thenE (release_run run_id FAILED False)
          (record_event ''run.failed'' (worker_restart_gap_payload ''lease_expired'' att_id
             @ [(''error_code'', or_else (dget payload ''error_code'') (JStr ''RUNTIME_INTERRUPTED''))])))
      else
        thenE (close_attempt att_id ATT_TIMED_OUT ''lease expired'')
        (thenE (release_run run_id QUEUED True)
          (record_event ''run.recovered'' (worker_restart_gap_payload ''lease_expired'' att_id))))"

definition waiting_runs :: "run_row list op" where
  "waiting_runs = getsE (\<lambda>w. take 50 (order_by r_updated_at
     (filter (\<lambda>r. r_status r \<in> {WAITING_EDGE, CANCELLING}) (runs (db w)))))"

definition recover_stale_runs :: "env \<Rightarrow> (string \<Rightarrow> bool) \<Rightarrow> unit op" where
  "recover_stale_runs E locked = request
     (bindE (stale_rows locked) (\<lambda>rows.
      thenE (forE rows (recover_run E))
      (bindE waiting_runs (\<lambda>waiting_rows.
       forE waiting_rows (\<lambda>wr.
         catchE (thenE (aggregate_run_terminal E (r_id wr) (Some (r_org_id wr)) None None) (returnE ()))
           (\<lambda>_. returnE ()))))))"

section \<open>Claiming a run\<close>

record claimed =
  cl_id :: string
  cl_org_id :: string
  cl_tool_name :: string
  cl_arguments :: json
  cl_snapshot :: json
  cl_attempt_id :: string
  cl_generation :: int

text \<open>\<open>snapshot->'placement'->>'role'\<close> is NULL or not \<open>'edge'\<close>.\<close>

definition claimable :: "int \<Rightarrow> run_row \<Rightarrow> bool" where
  "claimable now r \<longleftrightarrow>
     r_status r \<in> {QUEUED, RESUMING}
     \<and> (case r_lease_until r of None \<Rightarrow> True | Some t \<Rightarrow> t < now)
     \<and> jget (jget (r_snapshot r) ''placement'') ''role'' \<noteq> JStr ''edge''"

text \<open>The query of \<open>_claim_one\<close>, again without the rows that are locked.\<close>

definition claimable_rows :: "(string \<Rightarrow> bool) \<Rightarrow> run_row list op" where
  "claimable_rows locked = getsE (\<lambda>w. order_by r_created_at
     (filter (\<lambda>r. claimable (clock w) r \<and> \<not> locked (r_id r)) (runs (db w))))"

definition max_attempt :: "string \<Rightarrow> int op" where
  "max_attempt run_id = getsE (\<lambda>w. foldr max
     (List.map t_attempt_no (filter (\<lambda>t. t_run_id t = run_id) (attempts (db w)))) 0)"

definition new_attempt :: "env \<Rightarrow> string \<Rightarrow> string \<Rightarrow> int \<Rightarrow> int \<Rightarrow> attempt_row" where
  "new_attempt E attempt_id run_id attempt_no now =
     \<lparr>t_id = attempt_id, t_run_id = run_id, t_attempt_no = attempt_no, t_generation = attempt_no,
      t_worker_id = worker_name E, t_status = ATT_PREPARING, t_lease_until = Some (now + lease_seconds E),
      t_started_at = now, t_heartbeat_at = now, t_completed_at = None, t_error_message = None,
      t_runtime_type = None, t_runtime_version = None, t_runtime_run_id = None, t_runtime_session_id = None,
      t_runtime_profile = None, t_runtime_capability_snapshot = None, t_runtime_idempotency_key = None,
      t_runtime_bound_at = None, t_runtime_terminal_at = None, t_created_at = now, t_updated_at = now\<rparr>"

definition claim_row :: "env \<Rightarrow> string \<Rightarrow> string \<Rightarrow> int \<Rightarrow> unit op" where
  "claim_row E run_id attempt_id attempt_no =
     bindE now_op (\<lambda>now.
     thenE (insert_attempt (new_attempt E attempt_id run_id attempt_no now))
     (bindE (update_runs (\<lambda>r. r_id r = run_id)
        (\<lambda>r. r\<lparr>r_status := PREPARING, r_attempt_id := Some attempt_id, r_generation := attempt_no,
               r_worker_id := Some (worker_name E), r_lease_until := Some (now + lease_seconds E),
               r_updated_at := now\<rparr>)) (\<lambda>_. returnE ())))"

definition claim_one :: "env \<Rightarrow> (string \<Rightarrow> bool) \<Rightarrow> claimed option op" where
  "claim_one E locked =
     bindE (fresh_uuid E) (\<lambda>attempt_id. request
     (bindE (claimable_rows locked) (\<lambda>rows.
      case rows of
        [] \<Rightarrow> returnE None
      | row # _ \<Rightarrow>
          bindE (liftE (get_attr (dict_or_empty (r_snapshot row)) ''placement'')) (\<lambda>placement.
          bindE (liftE (get_attr (dict_or_empty placement) ''role'')) (\<lambda>_.
          bindE (max_attempt (r_id row)) (\<lambda>n.
          let attempt_no = n + 1 in
          thenE (claim_row E (r_id row) attempt_id attempt_no)
            (returnE (Some \<lparr>cl_id = r_id row, cl_org_id = r_org_id row, cl_tool_name = r_tool_name row,
               cl_arguments = dict_or_empty (r_arguments row), cl_snapshot = dict_or_empty (r_snapshot row),
               cl_attempt_id = attempt_id, cl_generation = attempt_no\<rparr>))))))))"

definition renew_lease :: "env \<Rightarrow> string \<Rightarrow> string \<Rightarrow> int option \<Rightarrow> bool op" where
  "renew_lease E run_id attempt_id generation = request
     (bindE now_op (\<lambda>now.
      bindE (update_runs
        (\<lambda>r. r_id r = run_id \<and> r_attempt_id r = Some attempt_id \<and> r_status r \<in> {PREPARING, RUNNING}
             \<and> when_given generation (\<lambda>g. r_generation r = g))
        (\<lambda>r. r\<lparr>r_lease_until := Some (now + lease_seconds E), r_updated_at := now\<rparr>)) (\<lambda>rowcount.
      if rowcount = 0 then returnE False
      else
        bindE (update_attempts (\<lambda>t. t_id t = attempt_id \<and> t_status t \<in> {ATT_PREPARING, ATT_RUNNING})
          (\<lambda>t. t\<lparr>t_lease_until := Some (now + lease_seconds E), t_heartbeat_at := now, t_updated_at := now\<rparr>))
          (\<lambda>_. returnE True))))"

section \<open>Executing a claimed run\<close>

text \<open>What an engine yields, and how it ends: normally, or with an exception.\<close>

record yielded =
  y_event_type :: string
  y_payload :: dict
  y_source :: "string option"
  y_source_event_id :: "string option"

type_synonym engine_run = "yielded list \<times> exn option"

definition worker_opts :: "string option \<Rightarrow> claimed \<Rightarrow> event_opts" where
  "worker_opts org_id c = attempt_opts org_id (Some (cl_attempt_id c)) (Some (cl_generation c))"

definition yielded_opts :: "string option \<Rightarrow> claimed \<Rightarrow> yielded \<Rightarrow> event_opts" where
  "yielded_opts org_id c y = (worker_opts org_id c)
     \<lparr>o_source := str_or (y_source y) ''agent'', o_source_event_id := y_source_event_id y\<rparr>"

definition worker_status :: "string option \<Rightarrow> claimed \<Rightarrow> run_status list option \<Rightarrow> json option \<Rightarrow> status_opts" where
  "worker_status org_id c expected result =
     \<lparr>so_org_id = org_id, so_attempt_id = Some (cl_attempt_id c), so_generation = Some (cl_generation c),
      so_expected = expected, so_result = result\<rparr>"

definition worker_step :: "claimed \<Rightarrow> step_update" where
  "worker_step c = no_update\<lparr>up_attempt_id := Some (cl_attempt_id c), up_run_generation := Some (cl_generation c)\<rparr>"

text \<open>A text of the snapshot; \<open>build_snapshot\<close> puts texts there.\<close>

definition snapshot_text :: "claimed \<Rightarrow> string \<Rightarrow> string option" where
  "snapshot_text c k = (case jget (cl_snapshot c) k of JStr s \<Rightarrow> Some s | _ \<Rightarrow> None)"

definition placement_of :: "claimed \<Rightarrow> dict" where
  "placement_of c = dict_of (jget (cl_snapshot c) ''placement'')"

definition engine_name :: "claimed \<Rightarrow> string" where
  "engine_name c =
     (let name = py_str (or_else (dget (placement_of c) ''engine'') (JStr ''hermes''))
      in if name = ''hybrid'' then ''hermes'' else name)"

definition direct_edge :: "claimed \<Rightarrow> bool" where
  "direct_edge c \<longleftrightarrow> dget (placement_of c) ''role'' = JStr ''edge'' \<and> engine_name c = ''connector''"

definition central_step :: "claimed \<Rightarrow> dict list \<Rightarrow> string" where
  "central_step c step_plan =
     (if direct_edge c
      then (case step_plan of [] \<Rightarrow> ''edge_connector''
            | s # _ \<Rightarrow> py_str (or_else (dget s ''step_id'') (JStr ''edge_connector'')))
      else if list_ex (\<lambda>s. dget s ''step_id'' = JStr ''central_hermes'') step_plan then ''central_hermes''
      else ''central'')"

definition start_attempt :: "env \<Rightarrow> claimed \<Rightarrow> unit op" where
  "start_attempt E c = request
     (thenE (set_status (cl_id c) RUNNING
        (worker_status (Some (cl_org_id c)) c (Some [PREPARING, QUEUED, RESUMING]) None))
     (thenE (append_event E (cl_id c) ''run.started''
        [(''status'', JStr ''RUNNING''), (''attempt_id'', JStr (cl_attempt_id c))]
        (worker_opts (Some (cl_org_id c)) c)) (returnE ())))"

definition check_context :: "env \<Rightarrow> claimed \<Rightarrow> unit op" where
  "check_context E c =
     revalidate_execution_context E (dict_of (cl_snapshot c)) (cl_id c) (Some (cl_attempt_id c))
       (Some (cl_generation c)) (snapshot_text c ''org_id'') (snapshot_text c ''user_id'')"

definition plan_attempt :: "env \<Rightarrow> claimed \<Rightarrow> dict list op" where
  "plan_attempt E c = request
     (thenE (check_context E c)
     (bindE (liftE (build_hybrid_step_plan (dict_of (cl_snapshot c)))) (\<lambda>step_plan.
      thenE (persist_step_plan E (cl_id c) step_plan (Some (cl_attempt_id c)) (cl_generation c))
      (thenE (append_event E (cl_id c) ''run.plan''
         [(''step_plan'', JList (List.map JObj step_plan)), (''total_steps'', JInt (int (length step_plan)))]
         (worker_opts (snapshot_text c ''org_id'') c))
      (returnE step_plan)))))"

definition await_approval :: "string option \<Rightarrow> claimed \<Rightarrow> unit op" where
  "await_approval org_id c =
     thenE (set_status (cl_id c) WAITING_APPROVAL
       (worker_status org_id c (Some [RUNNING, PREPARING, RESUMING, WAITING_APPROVAL]) None)) (returnE ())"

definition aggregate_attempt :: "env \<Rightarrow> string option \<Rightarrow> claimed \<Rightarrow> unit op" where
  "aggregate_attempt E org_id c =
     thenE (aggregate_run_terminal E (cl_id c) org_id (Some (cl_attempt_id c)) (Some (cl_generation c))) (returnE ())"

definition wait_for_edge :: "env \<Rightarrow> string option \<Rightarrow> claimed \<Rightarrow> unit op \<Rightarrow> unit op" where
  "wait_for_edge E org_id c record_before =
     thenE (set_status (cl_id c) WAITING_EDGE (worker_status org_id c (Some [RUNNING, PREPARING, RESUMING]) None))
     (thenE record_before
     (thenE (append_event E (cl_id c) ''run.waiting_edge''
        [(''status'', JStr ''WAITING_EDGE''), (''attempt_id'', JStr (cl_attempt_id c))] (worker_opts org_id c))
       (returnE ())))"

definition handle_yielded :: "env \<Rightarrow> claimed \<Rightarrow> string \<Rightarrow> bool \<Rightarrow> yielded \<Rightarrow> unit op" where
  "handle_yielded E c central pending_edge y = request
     (let org_id = snapshot_text c ''org_id''; ty = y_event_type y; payload = y_payload y;
          add = (\<lambda>t. thenE (append_event E (cl_id c) t payload (yielded_opts org_id c y)) (returnE ()));
          step = (\<lambda>st u. update_step_state (cl_id c) central st u) in
      if is_semantic_event_type ty then
        thenE (add ty) (whenE (ty = ''approval.requested'') (await_approval org_id c))
      else if ty = ''run.completed'' then
        thenE (step STEP_SUCCEEDED ((worker_step c)\<lparr>up_result := Some (JObj payload)\<rparr>))
          (if pending_edge then wait_for_edge E org_id c (add ''run.central_step_completed'')
           else thenE (add ''run.central_step_completed'') (aggregate_attempt E org_id c))
      else if ty = ''run.cancelled'' then
        thenE (step STEP_CANCELLED (worker_step c)) (thenE (add ''run.cancelled'') (aggregate_attempt E org_id c))
      else if ty = ''run.failed'' then
        thenE (step STEP_FAILED ((worker_step c)
                 \<lparr>up_error_message := Some (py_str (or_else (dget payload ''error'') (JStr ''central engine failed'')))\<rparr>))
          (thenE (add ''run.failed'') (aggregate_attempt E org_id c))
      else
        thenE (add ty)
          (whenE (ty = ''run.progress'' \<and> upper (py_str (or_else (dget payload ''phase'') (JStr []))) = ''WAITING_APPROVAL'')
             (await_approval org_id c)))"

section \<open>Dispatching edge steps\<close>

text \<open>
  \<open>cancelled k\<close> is what the \<open>k\<close>-th look at the cancel event and the committed status of the run
  says: other transactions may have cancelled the run while this one is open.
\<close>

definition enqueue_headers :: "env \<Rightarrow> claimed \<Rightarrow> dict" where
  "enqueue_headers E c =
     [(''X-Skill-Agent-Token'', JStr (internal_token E)),
      (''X-Exec-Org-Id'', JStr (str_or (snapshot_text c ''org_id'') []))]"

definition edge_node_of :: "claimed \<Rightarrow> dict \<Rightarrow> json" where
  "edge_node_of c edge_step =
     (let b = dict_of (dget edge_step ''binding'') in
      or_else (dget b ''edge_node_id'') (or_else (dget b ''node_id'')
        (or_else (dget (placement_of c) ''edge_node_id'') (or_else (jget (cl_snapshot c) ''edge_node_id'')
          (JStr ''default-edge-node'')))))"

definition step_id_of :: "dict \<Rightarrow> string" where
  "step_id_of edge_step = py_str (or_else (dget edge_step ''step_id'') (dget edge_step ''step''))"

definition enqueue_payload :: "claimed \<Rightarrow> dict \<Rightarrow> dict" where
  "enqueue_payload c edge_step =
     (let step_id = step_id_of edge_step in
      [(''edge_node_id'', edge_node_of c edge_step), (''run_id'', JStr (cl_id c)),
       (''attempt_id'', JStr (cl_attempt_id c)), (''step_id'', JStr step_id),
       (''run_generation'', JInt (if cl_generation c = 0 then 1 else cl_generation c)),
       (''request_trace_id'', jget (cl_snapshot c) ''request_trace_id''),
       (''tool_name'', JStr (cl_tool_name c)), (''arguments'', cl_arguments c), (''snapshot'', cl_snapshot c),
       (''idempotency_key'', JStr (cl_id c @ '':'' @ cl_attempt_id c @ '':'' @ show_int (cl_generation c) @ '':'' @ step_id))])"

text \<open>\<open>response.raise_for_status()\<close>, and the JSON body where it is read.\<close>

definition raise_for_status :: "http \<Rightarrow> unit op" where
  "raise_for_status resp =
     (case resp of
        Unreachable \<Rightarrow> raiseE (NetworkError ''network error'')
      | HttpFault m \<Rightarrow> raiseE (OtherError m)
      | Response code body \<Rightarrow> if code < 200 \<or> 300 \<le> code then raiseE (HttpStatusError code) else returnE ())"

definition json_body :: "http \<Rightarrow> exn + json" where
  "json_body resp =
     (case resp of Response code (Some j) \<Rightarrow> Inr j | _ \<Rightarrow> Inl (ValueError ''JSONDecodeError''))"

definition enqueue_url :: "env \<Rightarrow> string" where
  "enqueue_url E = central_url E @ ''/api/v1/internal/edge/jobs/enqueue''"

definition enqueue_job :: "env \<Rightarrow> claimed \<Rightarrow> dict \<Rightarrow> dict op" where
  "enqueue_job E c edge_step =
     bindE (http_op E ''POST'' (enqueue_url E) (enqueue_headers E c) (JObj (enqueue_payload c edge_step))) (\<lambda>resp.
     thenE (raise_for_status resp)
     (bindE (liftE (json_body resp)) (\<lambda>body.
      bindE (liftE (get_attr body ''data'')) (\<lambda>d.
      bindE (liftE (get_attr (dict_or_empty d) ''job_id'')) (\<lambda>job_id.
      if \<not> truthy job_id
      then raiseE (RuntimeError (''Edge job enqueue returned no job_id for step '' @ step_id_of edge_step))
      else returnE (dict_of d))))))"

definition withdraw_job :: "env \<Rightarrow> claimed \<Rightarrow> json \<Rightarrow> unit op" where
  "withdraw_job E c job_id =
     bindE (http_op E ''POST'' (central_url E @ ''/api/v1/internal/edge/jobs/'' @ py_str job_id @ ''/cancel/agent'')
              (enqueue_headers E c) JNull) (\<lambda>resp.
     thenE (raise_for_status resp) (raiseE CancelledError))"

definition record_dispatch :: "claimed \<Rightarrow> dict \<Rightarrow> dict \<Rightarrow> dict op" where
  "record_dispatch c edge_step job =
     (case dget job ''job_id'' of
        JStr job_id \<Rightarrow>
          thenE (update_step_state (cl_id c) (step_id_of edge_step) STEP_DISPATCHED
                   ((worker_step c)\<lparr>up_edge_job_id := Some job_id\<rparr>))
            (returnE [(''step_id'', JStr (step_id_of edge_step)), (''job_id'', JStr job_id),
                      (''status'', dget job ''status'')])
      | _ \<Rightarrow> raiseE (DbError ''invalid input for query argument''))"

definition dispatch_step :: "env \<Rightarrow> claimed \<Rightarrow> (nat \<Rightarrow> bool) \<Rightarrow> nat \<Rightarrow> dict \<Rightarrow> dict op" where
  "dispatch_step E c cancelled k edge_step =
     (if cancelled k then raiseE CancelledError
      else
        catchE
          (bindE (enqueue_job E c edge_step) (\<lambda>job.
           thenE (whenE (cancelled (k + 1)) (withdraw_job E c (dget job ''job_id'')))
             (record_dispatch c edge_step job)))
          (\<lambda>e. if e = CancelledError then raiseE e
               else raiseE (RuntimeError (''Edge job enqueue failed for step '' @ step_id_of edge_step @ '': '' @ exn_text e))))"

fun dispatch_steps :: "env \<Rightarrow> claimed \<Rightarrow> (nat \<Rightarrow> bool) \<Rightarrow> nat \<Rightarrow> dict list \<Rightarrow> dict list op" where
  "dispatch_steps E c cancelled k [] = returnE []"
| "dispatch_steps E c cancelled k (s # ss) =
     bindE (dispatch_step E c cancelled k s) (\<lambda>job.
     bindE (dispatch_steps E c cancelled (k + 2) ss) (\<lambda>jobs. returnE (job # jobs)))"

definition dispatch_edge :: "env \<Rightarrow> claimed \<Rightarrow> (nat \<Rightarrow> bool) \<Rightarrow> dict list \<Rightarrow> unit op" where
  "dispatch_edge E c cancelled step_plan =
     (if cancelled 0 then raiseE CancelledError
      else
        thenE (check_context E c)
        (let edge_steps = filter (\<lambda>s. dget s ''role'' = JStr ''edge'') step_plan in
         bindE (dispatch_steps E c cancelled 1 edge_steps) (\<lambda>jobs.
         thenE (append_event E (cl_id c) ''run.edge_steps_queued''
           [(''step_plan'', JList (List.map JObj edge_steps)), (''dispatched_jobs'', JList (List.map JObj jobs))]
           (worker_opts (snapshot_text c ''org_id'') c)) (returnE ()))))"

section \<open>How an execution ends\<close>

text \<open>\<open>try: \<dots> commit except Exception: rollback\<close>, in a session of its own.\<close>

definition persist_quietly :: "unit op \<Rightarrow> unit op" where
  "persist_quietly m = catchE (request m) (\<lambda>_. returnE ())"

definition on_cancelled :: "env \<Rightarrow> string option \<Rightarrow> claimed \<Rightarrow> string \<Rightarrow> unit op" where
  "on_cancelled E org_id c central = persist_quietly
     (thenE (update_step_state (cl_id c) central STEP_CANCELLED (worker_step c))
     (thenE (append_event E (cl_id c) ''run.cancelled'' [(''reason'', JStr ''cancel_requested'')] (worker_opts org_id c))
       (aggregate_attempt E org_id c)))"

definition on_denied :: "env \<Rightarrow> string option \<Rightarrow> claimed \<Rightarrow> unit op" where
  "on_denied E org_id c = persist_quietly
     (thenE (set_status (cl_id c) FAILED
        (worker_status org_id c None (Some (JObj [(''error'', JStr ''context revalidation denied'')]))))
     (thenE (append_event E (cl_id c) ''run.failed''
        [(''error'', JStr ''context revalidation denied''), (''reason'', JStr ''context_revalidation_denied'')]
        ((worker_opts org_id c)\<lparr>o_context_version :=
           (case jget (cl_snapshot c) ''context_version'' of JInt v \<Rightarrow> Some v | _ \<Rightarrow> None)\<rparr>)) (returnE ())))"

definition on_failed :: "env \<Rightarrow> string option \<Rightarrow> claimed \<Rightarrow> exn \<Rightarrow> unit op" where
  "on_failed E org_id c e = persist_quietly
     (let error = [(''error'', JStr (py_take 500 (exn_text e)))] in
      thenE (set_status (cl_id c) FAILED (worker_status org_id c None (Some (JObj error))))
        (catchE (thenE (append_event E (cl_id c) ''run.failed'' error (worker_opts org_id c)) (returnE ()))
           drop_runtime_error))"

definition on_exception :: "env \<Rightarrow> string option \<Rightarrow> claimed \<Rightarrow> string \<Rightarrow> exn \<Rightarrow> unit op" where
  "on_exception E org_id c central e =
     (case e of
        CancelledError \<Rightarrow> on_cancelled E org_id c central
      | ContextRevalidationError _ \<Rightarrow> on_denied E org_id c
      | _ \<Rightarrow> on_failed E org_id c e)"

definition raise_last :: "exn option \<Rightarrow> unit op" where
  "raise_last e = (case e of None \<Rightarrow> returnE () | Some x \<Rightarrow> raiseE x)"

definition run_plan :: "env \<Rightarrow> claimed \<Rightarrow> engine_run \<Rightarrow> (nat \<Rightarrow> bool) \<Rightarrow> dict list \<Rightarrow> unit op" where
  "run_plan E c engine cancelled step_plan =
     (let central = central_step c step_plan; org_id = snapshot_text c ''org_id'' in
      thenE (request (update_step_state (cl_id c) central STEP_RUNNING (worker_step c)))
      (bindE (liftE (needs_edge_jobs (dict_of (cl_snapshot c)))) (\<lambda>edge_jobs.
       if direct_edge c then
         request (thenE (wait_for_edge E org_id c (returnE ())) (dispatch_edge E c cancelled step_plan))
       else
         thenE (forE (fst engine) (handle_yielded E c central edge_jobs))
         (thenE (raise_last (snd engine))
           (whenE edge_jobs (request (dispatch_edge E c cancelled step_plan)))))))"

definition planned_central :: "claimed \<Rightarrow> string" where
  "planned_central c =
     (case build_hybrid_step_plan (dict_of (cl_snapshot c)) of Inl _ \<Rightarrow> [] | Inr step_plan \<Rightarrow> central_step c step_plan)"

definition execute :: "env \<Rightarrow> claimed \<Rightarrow> engine_run \<Rightarrow> (nat \<Rightarrow> bool) \<Rightarrow> unit op" where
  "execute E c engine cancelled =
     bindE (catchE (thenE (start_attempt E c) (returnE True))
              (\<lambda>e. thenE (on_exception E (Some (cl_org_id c)) c [] e) (returnE False))) (\<lambda>started.
     whenE started
       (catchE (bindE (plan_attempt E c) (run_plan E c engine cancelled))
          (on_exception E (snapshot_text c ''org_id'') c (planned_central c))))"

section \<open>The loop\<close>

text \<open>
  One round of \<open>start\<close>: an exception other than a cancellation is logged, and the round is over. \<open>locks\<close>
  gives the runs others hold locked when the round looks for stale runs (0) and for runs to claim (1).
\<close>

definition poll_once :: "env \<Rightarrow> (nat \<Rightarrow> string \<Rightarrow> bool) \<Rightarrow> (claimed \<Rightarrow> engine_run) \<Rightarrow> (nat \<Rightarrow> bool) \<Rightarrow> bool op" where
  "poll_once E locks engine cancelled =
     catchE
       (thenE (recover_stale_runs E (locks 0))
       (bindE (claim_one E (locks 1)) (\<lambda>c.
        case c of
          None \<Rightarrow> returnE False
        | Some c \<Rightarrow> thenE (execute E c (engine c) cancelled) (returnE True))))
       (\<lambda>e. if e = CancelledError then raiseE e else returnE False)"

section \<open>Guarantees\<close>

text \<open>An update of a run that is not over.\<close>

definition live :: "world \<Rightarrow> string \<Rightarrow> bool" where
  "live w rid \<longleftrightarrow> (\<forall>r\<in>set (runs (db w)). r_id r = rid \<longrightarrow> \<not> terminal (r_status r))"

lemma update_live_run_safe:
  assumes "live w rid" and "\<And>r. r_id (f r) = r_id r" and "\<And>r. r_next_event_seq (f r) = r_next_event_seq r"
  shows "safe w (snd (update_runs (\<lambda>r. r_id r = rid) f w))"
proof -
  let ?c = "\<lambda>r. r_id r = rid \<and> \<not> terminal (r_status r)"
  have "upd_where (\<lambda>r. r_id r = rid) f (runs (db w)) = upd_where ?c f (runs (db w))"
    using assms(1) by (auto simp: upd_where_def live_def)
  then have "snd (update_runs (\<lambda>r. r_id r = rid) f w) = snd (update_runs ?c f w)"
    by (simp add: update_runs_def with_db_def)
  moreover have "guar safe (update_runs ?c f)" by (rule update_runs_safe) (simp_all add: assms)
  ultimately show ?thesis by (simp add: guarD)
qed

lemma release_run_snd: "snd (release_run rid st b w) = snd (update_runs (\<lambda>r. r_id r = rid)
    (\<lambda>r. r\<lparr>r_status := st, r_attempt_id := (if b then None else r_attempt_id r),
              r_worker_id := None, r_lease_until := None, r_updated_at := clock w\<rparr>) w)"
  by (simp add: release_run_def bindE_def update_runs_def now_op_def getsE_def returnE_def)

lemma release_run_safe: "live w rid \<Longrightarrow> safe w (snd (release_run rid st b w))"
  unfolding release_run_snd by (rule update_live_run_safe) simp_all

lemma safe_bind:
  assumes "safe w (snd (m w))" and "\<And>a w'. m w = (Inr a, w') \<Longrightarrow> safe w' (snd (f a w'))"
  shows "safe w (snd (bindE m f w))"
proof (cases "m w")
  case (Pair r w')
  show ?thesis
  proof (cases r)
    case (Inl e)
    with Pair assms(1) show ?thesis by (simp add: bindE_def)
  next
    case (Inr a)
    with Pair assms(2) have "safe w' (snd (f a w'))" by simp
    with Pair Inr assms(1) show ?thesis by (simp add: bindE_def) (metis sw.R_trans)
  qed
qed

lemma safe_then: "safe w (snd (m w)) \<Longrightarrow> (\<And>a w'. m w = (Inr a, w') \<Longrightarrow> safe w' (snd (n w'))) \<Longrightarrow> safe w (snd (thenE m n w))"
  unfolding thenE_def by (rule safe_bind)

lemma close_attempt_same_log [guar_intros]: "guar same_log (close_attempt att st m)"
  unfolding close_attempt_def by (intro sl.guar_rules guar_intros)

lemma live_same_log: "live w rid \<Longrightarrow> guar same_log m \<Longrightarrow> m w = (r, w') \<Longrightarrow> live w' rid"
  using guar_result [of same_log m w r w'] by (simp add: same_log_def live_def)

lemma recover_run_safe:
  assumes "live w (r_id (fst row))"
  shows "safe w (snd (recover_run E row w))"
proof -
  let ?rid = "r_id (fst row)" and ?att = "r_attempt_id (fst row)"
  have ev: "guar safe (thenE (append_event E ?rid ty p no_opts) (returnE ()))" for ty p
    by (intro sw.guar_rules guar_intros)
  have rel: "safe v (snd (thenE (release_run ?rid st b) (thenE (append_event E ?rid ty p no_opts) (returnE ())) v))"
    if "live v ?rid" for v st b ty p
    by (rule safe_then, rule release_run_safe, rule that, rule guarD, rule ev)
  have close: "safe w (snd (thenE (close_attempt ?att st' m)
      (thenE (release_run ?rid st b) (thenE (append_event E ?rid ty p no_opts) (returnE ()))) w))" for st' m st b ty p
  proof (rule safe_then)
    show "safe w (snd (close_attempt ?att st' m w))"
      by (rule guarD, rule guar_same_log, rule close_attempt_same_log)
    show "safe w' (snd (thenE (release_run ?rid st b) (thenE (append_event E ?rid ty p no_opts) (returnE ())) w'))"
      if "close_attempt ?att st' m w = (Inr a, w')" for a w'
      by (rule rel, rule live_same_log, rule assms, rule close_attempt_same_log, rule that)
  qed
  show ?thesis unfolding recover_run_def Let_def using rel [OF assms] close by simp
qed

text \<open>The status of every other run is kept.\<close>

definition others_kept :: "string \<Rightarrow> world \<Rightarrow> world \<Rightarrow> bool" where
  "others_kept rid w w' \<longleftrightarrow> (\<forall>x. x \<noteq> rid \<longrightarrow> live w x \<longrightarrow> live w' x)"

interpretation ok: guarantee "others_kept rid" for rid
  by unfold_locales (auto simp: others_kept_def)

lemma others_kept_same_log: "guar same_log m \<Longrightarrow> guar (others_kept rid) m"
  by (simp add: guar_def same_log_def others_kept_def live_def)

lemma others_kept_write: "guar (others_kept rid) (write_event E rid ty p opts)"
proof -
  have "others_kept rid w (snd (write_event E rid ty p opts w))" for w
    by (rule write_event_cases [of rid opts w E ty p])
      (auto simp: others_kept_def live_def upd_where_def)
  then show ?thesis by (simp add: guar_def)
qed

lemma others_kept_append: "guar (others_kept rid) (append_event E rid ty p opts)"
  unfolding append_event_def
  by (intro ok.guar_rules others_kept_write same_log_ops [THEN others_kept_same_log] same_log_stmts [THEN others_kept_same_log])

lemma others_kept_release: "guar (others_kept rid) (release_run rid st b)"
  by (auto simp: guar_def release_run_def bindE_def update_runs_def with_db_def others_kept_def live_def upd_where_def)

lemma others_kept_recover: "guar (others_kept (r_id (fst row))) (recover_run E row)"
  unfolding recover_run_def Let_def
  by (intro ok.guar_rules others_kept_append others_kept_release close_attempt_same_log [THEN others_kept_same_log])

lemma recover_rows_safe:
  "distinct (List.map (\<lambda>row. r_id (fst row)) rows) \<Longrightarrow> \<forall>row\<in>set rows. live w (r_id (fst row)) \<Longrightarrow>
   safe w (snd (forE rows (recover_run E) w))"
proof (induction rows arbitrary: w)
  case Nil
  then show ?case by (simp add: sw.R_refl)
next
  case (Cons row rows)
  show ?case
    unfolding forE.simps
  proof (rule safe_then)
    show "safe w (snd (recover_run E row w))" using Cons.prems(2) by (intro recover_run_safe) simp
    fix a w' assume run: "recover_run E row w = (Inr a, w')"
    have kept: "others_kept (r_id (fst row)) w w'" by (rule guar_result [OF others_kept_recover run])
    have "live w' (r_id (fst x))" if "x \<in> set rows" for x
    proof -
      have "live w (r_id (fst x))" using Cons.prems(2) that by simp
      moreover have "r_id (fst x) \<noteq> r_id (fst row)" using Cons.prems(1) that by (auto simp: image_iff)
      ultimately show ?thesis using kept by (simp add: others_kept_def)
    qed
    then show "safe w' (snd (forE rows (recover_run E) w'))" using Cons.prems(1) by (intro Cons.IH) simp_all
  qed
qed

lemma request_safe_at: "safe w (snd (m w)) \<Longrightarrow> safe w (snd (request m w))"
proof -
  have "safe w (w'\<lparr>db := db w\<rparr>)" for w' :: world
    by (simp add: safe_def terminal_kept_def log_grows_def log_kept_def frozen_def log_ok_def status_of_def find_run_def events_of_def)
  then show "safe w (snd (m w)) \<Longrightarrow> safe w (snd (request m w))"
    by (auto simp: request_def split: prod.split sum.split)
qed

lemma live_unique:
  assumes "distinct (List.map r_id (runs (db w)))" and "r \<in> set (runs (db w))" and "\<not> terminal (r_status r)"
  shows "live w (r_id r)"
  using assms distinct_map_inj [OF assms(1)] by (metis live_def)

lemma stale_rows_live:
  assumes "distinct (List.map r_id (runs (db w)))" and "stale_rows locked w = (Inr rows, w')"
  shows "w' = w" and "distinct (List.map (\<lambda>row. r_id (fst row)) rows)" and "\<forall>row\<in>set rows. live w (r_id (fst row))"
proof -
  have r: "w' = w" "rows = List.map (\<lambda>r. (r, last_event (r_id r) w)) (filter (\<lambda>r. stale_run (clock w) r \<and> \<not> locked (r_id r)) (runs (db w)))"
    using assms(2) by (auto simp: stale_rows_def getsE_def)
  then show "w' = w" by simp
  have "List.map (\<lambda>row. r_id (fst row)) rows = List.map r_id (filter (\<lambda>r. stale_run (clock w) r \<and> \<not> locked (r_id r)) (runs (db w)))"
    by (simp add: r comp_def)
  then show "distinct (List.map (\<lambda>row. r_id (fst row)) rows)"
    using assms(1) by (simp add: distinct_map_filter)
  show "\<forall>row\<in>set rows. live w (r_id (fst row))"
    using assms(1) by (auto simp: r stale_run_def TERMINAL_def intro!: live_unique)
qed

lemma aggregate_waiting_safe: "guar safe (bindE waiting_runs (\<lambda>waiting_rows.
       forE waiting_rows (\<lambda>wr.
         catchE (thenE (aggregate_run_terminal E (r_id wr) (Some (r_org_id wr)) None None) (returnE ()))
           (\<lambda>_. returnE ()))))"
  unfolding waiting_runs_def by (intro sw.guar_rules guar_intros)

lemma recover_stale_runs_safe:
  assumes "distinct (List.map r_id (runs (db w)))"
  shows "safe w (snd (recover_stale_runs E locked w))"
  unfolding recover_stale_runs_def
proof (rule request_safe_at, rule safe_bind)
  show "safe w (snd (stale_rows locked w))" by (simp add: stale_rows_def sw.R_refl)
  fix rows w' assume rows: "stale_rows locked w = (Inr rows, w')"
  note live = stale_rows_live [OF assms rows]
  show "safe w' (snd (thenE (forE rows (recover_run E)) (bindE waiting_runs (\<lambda>waiting_rows.
       forE waiting_rows (\<lambda>wr.
         catchE (thenE (aggregate_run_terminal E (r_id wr) (Some (r_org_id wr)) None None) (returnE ()))
           (\<lambda>_. returnE ())))) w'))"
  proof (rule safe_then)
    show "safe w' (snd (forE rows (recover_run E) w'))"
      unfolding live(1) by (rule recover_rows_safe [OF live(2,3)])
  qed (rule guarD [OF aggregate_waiting_safe])
qed

text \<open>
  What the worker may do where run identifiers are distinct. The relation composes, since a safe
  operation keeps them distinct.
\<close>

definition worker_safe :: "world \<Rightarrow> world \<Rightarrow> bool" where
  "worker_safe w w' \<longleftrightarrow> (distinct (List.map r_id (runs (db w))) \<longrightarrow> safe w w')"

lemma safe_distinct: "safe w w' \<Longrightarrow> distinct (List.map r_id (runs (db w))) \<Longrightarrow> distinct (List.map r_id (runs (db w')))"
  by (simp add: safe_def frozen_def)

interpretation ws: guarantee worker_safe
proof unfold_locales
  fix u v w
  show "worker_safe u u" by (simp add: worker_safe_def sw.R_refl)
  assume "worker_safe u v" and "worker_safe v w"
  then show "worker_safe u w" unfolding worker_safe_def using safe_distinct sw.R_trans by blast
qed

lemma worker_safeI: "guar safe m \<Longrightarrow> guar worker_safe m"
  by (simp add: guar_def worker_safe_def)

lemma recover_stale_runs_worker: "guar worker_safe (recover_stale_runs E locked)"
  by (simp add: guar_def worker_safe_def recover_stale_runs_safe)

definition next_attempt_no :: "world \<Rightarrow> string \<Rightarrow> int" where
  "next_attempt_no w rid =
     foldr max (List.map t_attempt_no (filter (\<lambda>t. t_run_id t = rid) (attempts (db w)))) 0 + 1"

definition claimed_run :: "env \<Rightarrow> string \<Rightarrow> int \<Rightarrow> int \<Rightarrow> run_row \<Rightarrow> run_row" where
  "claimed_run E attempt_id attempt_no now r =
     r\<lparr>r_status := PREPARING, r_attempt_id := Some attempt_id, r_generation := attempt_no,
       r_worker_id := Some (worker_name E), r_lease_until := Some (now + lease_seconds E), r_updated_at := now\<rparr>"

definition claim_written :: "env \<Rightarrow> world \<Rightarrow> string \<Rightarrow> world" where
  "claim_written E w rid =
     (let att = uuid4 E (uuid_pos w); n = next_attempt_no w rid in
      w\<lparr>uuid_pos := Suc (uuid_pos w), db := (db w)
        \<lparr>runs := upd_where (\<lambda>r. r_id r = rid) (claimed_run E att n (clock w)) (runs (db w)),
         attempts := attempts (db w) @ [new_attempt E att rid n (clock w)]\<rparr>\<rparr>)"

definition claimed_of :: "env \<Rightarrow> world \<Rightarrow> run_row \<Rightarrow> claimed" where
  "claimed_of E w r = \<lparr>cl_id = r_id r, cl_org_id = r_org_id r, cl_tool_name = r_tool_name r,
     cl_arguments = dict_or_empty (r_arguments r), cl_snapshot = dict_or_empty (r_snapshot r),
     cl_attempt_id = uuid4 E (uuid_pos w), cl_generation = next_attempt_no w (r_id r)\<rparr>"

definition waiting_claims :: "(string \<Rightarrow> bool) \<Rightarrow> world \<Rightarrow> run_row list" where
  "waiting_claims locked w = order_by r_created_at (filter (\<lambda>r. claimable (clock w) r \<and> \<not> locked (r_id r)) (runs (db w)))"

text \<open>The two reads of the snapshot, which raise when it is not made of dicts.\<close>

definition placement_read :: "run_row \<Rightarrow> exn + json" where
  "placement_read r = (case get_attr (dict_or_empty (r_snapshot r)) ''placement'' of
     Inl e \<Rightarrow> Inl e | Inr p \<Rightarrow> get_attr (dict_or_empty p) ''role'')"

lemma request_lift_raise: "m w = (Inl e, w) \<Longrightarrow> request m w = (Inl e, w)"
  by (simp add: request_def)

lemma claim_row_run:
  "claim_row E rid att n w = (Inr (), w\<lparr>db := (db w)
     \<lparr>runs := upd_where (\<lambda>r. r_id r = rid) (claimed_run E att n (clock w)) (runs (db w)),
      attempts := attempts (db w) @ [new_attempt E att rid n (clock w)]\<rparr>\<rparr>)"
  by (simp add: claim_row_def bindE_def thenE_def stmt_defs returnE_def modifyE_def claimed_run_def [abs_def])

lemma claim_one_run:
  "claim_one E locked w = (case waiting_claims locked w of
     [] \<Rightarrow> (Inr None, w\<lparr>uuid_pos := Suc (uuid_pos w)\<rparr>)
   | r # _ \<Rightarrow> (case placement_read r of
        Inl e \<Rightarrow> (Inl e, w\<lparr>uuid_pos := Suc (uuid_pos w)\<rparr>)
      | Inr _ \<Rightarrow> (Inr (Some (claimed_of E w r)), claim_written E w (r_id r))))"
proof -
  let ?w = "w\<lparr>uuid_pos := Suc (uuid_pos w)\<rparr>"
  have u: "fresh_uuid E w = (Inr (uuid4 E (uuid_pos w)), ?w)"
    by (simp add: stmt_defs)
  have c: "claimable_rows locked ?w = (Inr (waiting_claims locked w), ?w)"
    by (simp add: claimable_rows_def waiting_claims_def)
  show ?thesis
  proof (cases "waiting_claims locked w")
    case Nil
    with u c show ?thesis by (simp add: claim_one_def bindE_def request_def returnE_def)
  next
    case (Cons r rest)
    have m: "max_attempt (r_id r) ?w = (Inr (next_attempt_no w (r_id r) - 1), ?w)"
      by (simp add: max_attempt_def next_attempt_no_def)
    show ?thesis
    proof (cases "placement_read r")
      case (Inl e)
      with Cons u c show ?thesis
        by (cases "get_attr (dict_or_empty (r_snapshot r)) ''placement''")
          (simp_all add: claim_one_def bindE_def request_def placement_read_def liftE_def)
    next
      case (Inr x)
      with Cons u c m show ?thesis
        by (simp add: claim_one_def bindE_def thenE_def request_def placement_read_def liftE_def claim_row_run
            returnE_def claim_written_def claimed_of_def Let_def split: sum.split_asm)
    qed
  qed
qed

lemma same_log_safe: "same_log w w' \<Longrightarrow> safe w w'"
  by (simp add: same_log_def safe_def terminal_kept_def log_grows_def log_kept_def log_ok_def
      frozen_def events_of_def status_of_def find_run_def)

lemma claim_written_safe:
  assumes "distinct (List.map r_id (runs (db w)))" and "r \<in> set (runs (db w))" and "\<not> terminal (r_status r)"
  shows "safe w (claim_written E w (r_id r))"
proof -
  let ?att = "uuid4 E (uuid_pos w)" and ?n = "next_attempt_no w (r_id r)"
  let ?w = "snd (insert_attempt (new_attempt E ?att (r_id r) ?n (clock w)) (w\<lparr>uuid_pos := Suc (uuid_pos w)\<rparr>))"
  have "live ?w (r_id r)" using live_unique [OF assms] by (simp add: live_def stmt_defs)
  then have "safe ?w (snd (update_runs (\<lambda>x. r_id x = r_id r) (claimed_run E ?att ?n (clock w)) ?w))"
    by (rule update_live_run_safe) (simp_all add: claimed_run_def)
  moreover have "safe w ?w"
    by (rule same_log_safe) (simp add: same_log_def stmt_defs)
  ultimately have "safe w (snd (update_runs (\<lambda>x. r_id x = r_id r) (claimed_run E ?att ?n (clock w)) ?w))"
    by (rule sw.R_trans [rotated])
  moreover have "snd (update_runs (\<lambda>x. r_id x = r_id r) (claimed_run E ?att ?n (clock w)) ?w) = claim_written E w (r_id r)"
    by (simp add: claim_written_def Let_def stmt_defs)
  ultimately show ?thesis by simp
qed


lemma waiting_claims_set: "r \<in> set (waiting_claims locked w) \<longleftrightarrow>
    r \<in> set (runs (db w)) \<and> claimable (clock w) r \<and> \<not> locked (r_id r)"
  by (auto simp: waiting_claims_def order_by_def)

lemma claim_one_worker: "guar worker_safe (claim_one E locked)"
proof -
  have "safe w (snd (claim_one E locked w))" if d: "distinct (List.map r_id (runs (db w)))" for w
  proof (cases "waiting_claims locked w")
    case Nil
    then show ?thesis by (simp add: claim_one_run same_log_safe same_log_def)
  next
    case (Cons r rest)
    then have "r \<in> set (runs (db w))" "claimable (clock w) r" using waiting_claims_set [of r locked w] by simp_all
    then have "safe w (claim_written E w (r_id r))"
      by (intro claim_written_safe d) (auto simp: claimable_def TERMINAL_def)
    then show ?thesis using Cons by (simp add: claim_one_run same_log_safe same_log_def split: sum.split)
  qed
  then show ?thesis by (simp add: guar_def worker_safe_def)
qed

lemma renew_lease_safe: "guar safe (renew_lease E rid att gen)"
  unfolding renew_lease_def by (intro sw.guar_rules guar_intros update_runs_safe) simp_all

lemma start_attempt_safe: "guar safe (start_attempt E c)"
  unfolding start_attempt_def by (intro sw.guar_rules guar_intros) (simp add: worker_status_def cas_safe_def TERMINAL_def)

lemmas context_safe [guar_intros] = revalidate_context_same_log revalidate_context_same_log [THEN guar_same_log]

lemma plan_attempt_safe: "guar safe (plan_attempt E c)"
  unfolding plan_attempt_def check_context_def by (intro sw.guar_rules guar_intros)

lemma worker_cas_safe:
  "cas_safe WAITING_APPROVAL (worker_status org c (Some [RUNNING, PREPARING, RESUMING, WAITING_APPROVAL]) None)"
  "cas_safe WAITING_EDGE (worker_status org c (Some [RUNNING, PREPARING, RESUMING]) None)"
  "cas_safe FAILED (worker_status org c None res)"
  by (simp_all add: worker_status_def cas_safe_def TERMINAL_def)

lemma attempt_parts_safe [guar_intros]:
  "guar safe (await_approval org c)" "guar safe (aggregate_attempt E org c)"
  "guar safe m \<Longrightarrow> guar safe (wait_for_edge E org c m)"
  unfolding await_approval_def aggregate_attempt_def wait_for_edge_def
  by (intro sw.guar_rules guar_intros worker_cas_safe; assumption?)+

lemma handle_yielded_safe: "guar safe (handle_yielded E c central pending y)"
  unfolding handle_yielded_def Let_def by (intro sw.guar_rules guar_intros)

lemma raise_for_status_safe [guar_intros]: "guar safe (raise_for_status resp)"
  unfolding raise_for_status_def by (intro guar_case_http sw.guar_rules)

lemma dispatch_step_safe [guar_intros]: "guar safe (dispatch_step E c cancelled k s)"
proof -
  have j: "guar safe (enqueue_job E c s)"
    unfolding enqueue_job_def by (intro sw.guar_rules guar_intros)
  have wd: "guar safe (withdraw_job E c x)" for x
    unfolding withdraw_job_def by (intro sw.guar_rules guar_intros)
  have r: "guar safe (record_dispatch c s job)" for job
    unfolding record_dispatch_def by (split json.split) (intro conjI allI impI sw.guar_rules guar_intros)
  show ?thesis unfolding dispatch_step_def by (intro sw.guar_rules j wd r)
qed

lemma dispatch_steps_safe [guar_intros]: "guar safe (dispatch_steps E c cancelled k ss)"
  by (induction ss arbitrary: k) (auto intro!: sw.guar_rules guar_intros)

lemma dispatch_edge_safe [guar_intros]: "guar safe (dispatch_edge E c cancelled plan)"
  unfolding dispatch_edge_def check_context_def Let_def by (intro sw.guar_rules guar_intros)

lemma persist_quietly_safe [guar_intros]: "guar safe m \<Longrightarrow> guar safe (persist_quietly m)"
  unfolding persist_quietly_def by (intro sw.guar_rules guar_intros; assumption?)

lemma on_exception_safe [guar_intros]: "guar safe (on_exception E org c central e)"
proof -
  have "guar safe (on_cancelled E org c central)"
    unfolding on_cancelled_def by (intro sw.guar_rules guar_intros)
  moreover have "guar safe (on_denied E org c)"
    unfolding on_denied_def by (intro sw.guar_rules guar_intros worker_cas_safe)
  moreover have "guar safe (on_failed E org c x)" for x
    unfolding on_failed_def Let_def by (intro sw.guar_rules guar_intros worker_cas_safe)
  ultimately show ?thesis by (cases e) (simp_all add: on_exception_def)
qed

lemma run_plan_safe [guar_intros]: "guar safe (run_plan E c engine cancelled plan)"
proof -
  have "guar safe (raise_last x)" for x
    unfolding raise_last_def by (intro sw.guar_rules)
  then show ?thesis
    unfolding run_plan_def Let_def by (intro sw.guar_rules guar_intros handle_yielded_safe)
qed

lemma execute_safe: "guar safe (execute E c engine cancelled)"
  unfolding execute_def by (intro sw.guar_rules guar_intros start_attempt_safe plan_attempt_safe)

lemma poll_once_worker: "guar worker_safe (poll_once E locks engine cancelled)"
  unfolding poll_once_def
  by (intro ws.guar_rules recover_stale_runs_worker claim_one_worker execute_safe [THEN worker_safeI])

end
