(* ===== verification/Worker_Laws.thy ===== *)
theory Worker_Laws
  imports Run_Worker Event_Log
begin

text \<open>
  What the worker of \<open>services/worker.py\<close> guarantees: whom it claims, that a superseded attempt
  changes nothing, and two ways in which a run gets stuck (a run that blocks the recovery of all others,
  and a denied context that never fails the run).
\<close>

section \<open>Claiming\<close>

lemma sorted_head_le: "sort_key k xs = y # ys \<Longrightarrow> x \<in> set xs \<Longrightarrow> k y \<le> k x"
proof -
  assume s: "sort_key k xs = y # ys" and x: "x \<in> set xs"
  have "sorted (List.map k (y # ys))" using sorted_sort_key [of k xs] by (simp add: s)
  moreover have "x \<in> set (y # ys)" using x s set_sort by metis
  ultimately show "k y \<le> k x" by auto
qed

lemma next_attempt_no_above: "t \<in> set (attempts (db w)) \<Longrightarrow> t_run_id t = rid \<Longrightarrow> t_attempt_no t < next_attempt_no w rid"
proof -
  have "x \<in> set xs \<Longrightarrow> x \<le> foldr max xs (0 :: int)" for x xs by (induction xs) auto
  then show "t \<in> set (attempts (db w)) \<Longrightarrow> t_run_id t = rid \<Longrightarrow> t_attempt_no t < next_attempt_no w rid"
    by (simp add: next_attempt_no_def le_imp_less_Suc zle_add1_eq_le)
qed

lemma claim_written_runs:
  "runs (db (claim_written E w rid)) =
     upd_where (\<lambda>r. r_id r = rid) (claimed_run E (uuid4 E (uuid_pos w)) (next_attempt_no w rid) (clock w)) (runs (db w))"
  "attempts (db (claim_written E w rid)) =
     attempts (db w) @ [new_attempt E (uuid4 E (uuid_pos w)) rid (next_attempt_no w rid) (clock w)]"
  "events (db (claim_written E w rid)) = events (db w)"
  by (simp_all add: claim_written_def Let_def)

lemma not_claimable_preparing: "x \<in> set (runs (db (claim_written E w rid))) \<Longrightarrow> r_id x = rid \<Longrightarrow>
    r_status x = PREPARING \<and> r_attempt_id x = Some (uuid4 E (uuid_pos w)) \<and> r_generation x = next_attempt_no w rid"
proof -
  assume "x \<in> set (runs (db (claim_written E w rid)))" and rid: "r_id x = rid"
  then obtain y where y: "x = (if r_id y = rid then claimed_run E (uuid4 E (uuid_pos w)) (next_attempt_no w rid) (clock w) y else y)"
    by (auto simp only: claim_written_runs upd_where_def set_map)
  show ?thesis unfolding y using rid by (cases "r_id y = rid") (simp_all add: y claimed_run_def)
qed

lemma claim_one_some:
  assumes "claim_one E locked w = (Inr (Some c), w')"
  obtains r rest where "waiting_claims locked w = r # rest" "c = claimed_of E w r" "w' = claim_written E w (r_id r)"
  using assms by (auto simp: claim_one_run split: list.splits sum.splits)

definition preparing_only :: "world \<Rightarrow> claimed \<Rightarrow> bool" where
  "preparing_only w c \<longleftrightarrow> list_all (\<lambda>x. r_id x = cl_id c \<longrightarrow> r_status x = PREPARING
     \<and> r_attempt_id x = Some (cl_attempt_id c) \<and> r_generation x = cl_generation c) (runs (db w))"

lemma claim_facts:
  assumes "claim_one E locked w = (Inr (Some c), w')"
  shows "\<exists>r. r \<in> set (runs (db w)) \<and> r_id r = cl_id c \<and> claimable (clock w) r \<and> \<not> locked (r_id r)
      \<and> (\<forall>x\<in>set (runs (db w)). claimable (clock w) x \<and> \<not> locked (r_id x) \<longrightarrow> r_created_at r \<le> r_created_at x)"
    and "\<forall>t\<in>set (attempts (db w)). t_run_id t = cl_id c \<longrightarrow> t_attempt_no t < cl_generation c"
    and "attempts (db w') = attempts (db w)
      @ [new_attempt E (cl_attempt_id c) (cl_id c) (cl_generation c) (clock w)]"
    and "preparing_only w' c"
    and "filter (\<lambda>x. r_id x \<noteq> cl_id c) (runs (db w')) = filter (\<lambda>x. r_id x \<noteq> cl_id c) (runs (db w))"
    and "events (db w') = events (db w)"
    and "claim_one E' locked' (w'\<lparr>clock := t\<rparr>) = (Inr (Some c'), w'') \<Longrightarrow> cl_id c' \<noteq> cl_id c"
proof -
  from assms obtain r rest where r: "waiting_claims locked w = r # rest" "c = claimed_of E w r" "w' = claim_written E w (r_id r)"
    by (rule claim_one_some)
  have c: "cl_id c = r_id r" "cl_attempt_id c = uuid4 E (uuid_pos w)" "cl_generation c = next_attempt_no w (r_id r)"
    by (simp_all add: r(2) claimed_of_def)
  have rin: "r \<in> set (runs (db w))" "claimable (clock w) r" "\<not> locked (r_id r)" using waiting_claims_set [of r locked w] r(1) by simp_all
  have "r_created_at r \<le> r_created_at x" if "x \<in> set (runs (db w))" "claimable (clock w) x" "\<not> locked (r_id x)" for x
    using sorted_head_le [OF r(1) [unfolded waiting_claims_def order_by_def]] that by simp
  with rin c show "\<exists>r. r \<in> set (runs (db w)) \<and> r_id r = cl_id c \<and> claimable (clock w) r \<and> \<not> locked (r_id r)
      \<and> (\<forall>x\<in>set (runs (db w)). claimable (clock w) x \<and> \<not> locked (r_id x) \<longrightarrow> r_created_at r \<le> r_created_at x)" by auto
  show "\<forall>t\<in>set (attempts (db w)). t_run_id t = cl_id c \<longrightarrow> t_attempt_no t < cl_generation c"
    using next_attempt_no_above by (simp add: c)
  show "attempts (db w') = attempts (db w) @ [new_attempt E (cl_attempt_id c) (cl_id c) (cl_generation c) (clock w)]"
    by (simp add: c r(3) claim_written_runs)
  show prep: "preparing_only w' c"
    using not_claimable_preparing by (auto simp: preparing_only_def list_all_iff c r(3))
  show "events (db w') = events (db w)" by (simp add: r(3) claim_written_runs)
  show "filter (\<lambda>x. r_id x \<noteq> cl_id c) (runs (db w')) = filter (\<lambda>x. r_id x \<noteq> cl_id c) (runs (db w))"
    by (simp add: c r(3) claim_written_runs filter_upd_where claimed_run_def)
      (rule upd_where_no, simp)
  show "cl_id c' \<noteq> cl_id c" if again: "claim_one E' locked' (w'\<lparr>clock := t\<rparr>) = (Inr (Some c'), w'')"
  proof
    assume same: "cl_id c' = cl_id c"
    note again
    then obtain x xs where x: "waiting_claims locked' (w'\<lparr>clock := t\<rparr>) = x # xs" "c' = claimed_of E' (w'\<lparr>clock := t\<rparr>) x"
      by (elim claim_one_some)
    then have "x \<in> set (runs (db w'))" "claimable t x"
      using waiting_claims_set [of x locked' "w'\<lparr>clock := t\<rparr>"] by simp_all
    moreover have "r_id x = cl_id c" using x(2) same by (simp add: claimed_of_def)
    ultimately show False using prep by (simp add: preparing_only_def list_all_iff claimable_def)
  qed
qed

text \<open>C3: Claiming takes the oldest run that is free to take and not locked by another transaction. The attempt it opens has a generation above
  that of every earlier attempt of the run, which fences them; the run is PREPARING under that attempt
  with its lease, no other run and no event changes, and whatever the time, a second worker that claims
  next takes another run, whichever rows are locked then.\<close>

theorem claim_takes_oldest:
  assumes "claim_one E locked w = (Inr (Some c), w')"
  shows "(\<exists>r. r \<in> set (runs (db w)) \<and> r_id r = cl_id c \<and> claimable (clock w) r \<and> \<not> locked (r_id r)
      \<and> (\<forall>x\<in>set (runs (db w)). claimable (clock w) x \<and> \<not> locked (r_id x) \<longrightarrow> r_created_at r \<le> r_created_at x))
    \<and> (\<forall>t\<in>set (attempts (db w)). t_run_id t = cl_id c \<longrightarrow> t_attempt_no t < cl_generation c)
    \<and> attempts (db w') = attempts (db w) @ [new_attempt E (cl_attempt_id c) (cl_id c) (cl_generation c) (clock w)]
    \<and> preparing_only w' c
    \<and> filter (\<lambda>x. r_id x \<noteq> cl_id c) (runs (db w')) = filter (\<lambda>x. r_id x \<noteq> cl_id c) (runs (db w))
    \<and> events (db w') = events (db w)
    \<and> (\<forall>E' locked' t c' w''. claim_one E' locked' (w'\<lparr>clock := t\<rparr>) = (Inr (Some c'), w'') \<longrightarrow> cl_id c' \<noteq> cl_id c)"
  using claim_facts [OF assms] by (intro conjI allI impI) assumption+

definition queue_run :: "string \<Rightarrow> int \<Rightarrow> run_row" where
  "queue_run rid t = log_run\<lparr>r_id := rid, r_status := QUEUED, r_attempt_id := None, r_created_at := t\<rparr>"

definition queue_world :: world where
  "queue_world = sample_world\<lparr>db := empty_db\<lparr>runs := [queue_run ''run-2'' 5, queue_run ''run-1'' 3]\<rparr>\<rparr>"

lemma queue_claim:
  "waiting_claims (\<lambda>_. False) queue_world = [queue_run ''run-1'' 3, queue_run ''run-2'' 5]"
  "claim_one sample_env (\<lambda>_. False) queue_world =
     (Inr (Some (claimed_of sample_env queue_world (queue_run ''run-1'' 3))), claim_written sample_env queue_world ''run-1'')"
proof -
  show w: "waiting_claims (\<lambda>_. False) queue_world = [queue_run ''run-1'' 3, queue_run ''run-2'' 5]"
    by (simp add: waiting_claims_def queue_world_def order_by_def claimable_def queue_run_def log_run_def jget_def)
  have "placement_read (queue_run ''run-1'' 3) = Inr JNull"
    by (simp add: placement_read_def queue_run_def log_run_def dict_or_empty_def get_attr_def)
  with w show "claim_one sample_env (\<lambda>_. False) queue_world =
     (Inr (Some (claimed_of sample_env queue_world (queue_run ''run-1'' 3))), claim_written sample_env queue_world ''run-1'')"
    by (simp add: claim_one_run) (simp add: queue_run_def)
qed

theorem claim_takes_oldest_witness:
  "\<exists>c w'. claim_one sample_env (\<lambda>_. False) queue_world = (Inr (Some c), w') \<and> cl_id c = ''run-1'' \<and> cl_generation c = 1
    \<and> preparing_only w' c \<and> events (db w') = events (db queue_world)"
proof -
  let ?c = "claimed_of sample_env queue_world (queue_run ''run-1'' 3)"
  have "cl_id ?c = ''run-1''" "cl_generation ?c = 1"
    by (simp_all add: claimed_of_def queue_run_def next_attempt_no_def queue_world_def empty_db_def)
  with claim_takes_oldest [OF queue_claim(2)] queue_claim(2) show ?thesis
    by (elim conjE) (intro exI conjI, assumption+)
qed

section \<open>A run that blocks every worker\<close>

definition raises_only :: "(exn \<Rightarrow> bool) \<Rightarrow> 'a op \<Rightarrow> bool" where
  "raises_only P m \<longleftrightarrow> (\<forall>w e w'. m w = (Inl e, w') \<longrightarrow> P e)"

definition fails :: "(exn \<Rightarrow> bool) \<Rightarrow> 'a op \<Rightarrow> bool" where
  "fails P m \<longleftrightarrow> (\<forall>w. \<exists>e w'. m w = (Inl e, w') \<and> P e)"

lemma raises_only_rules:
  "total m \<Longrightarrow> raises_only P m"
  "raises_only P m \<Longrightarrow> raises_only P n \<Longrightarrow> raises_only P (thenE m n)"
proof -
  show "total m \<Longrightarrow> raises_only P m" unfolding raises_only_def total_def by (metis Inl_Inr_False prod.inject)
  show "raises_only P m \<Longrightarrow> raises_only P n \<Longrightarrow> raises_only P (thenE m n)"
    unfolding raises_only_def thenE_def bindE_def by (auto split: prod.splits sum.splits)
qed

lemma fails_then: "raises_only P m \<Longrightarrow> fails P n \<Longrightarrow> fails P (thenE m n)"
  unfolding raises_only_def fails_def thenE_def bindE_def by (auto split: prod.split sum.split)

lemma fails_first: "fails P m \<Longrightarrow> fails P (thenE m n)"
proof -
  have "m w = (Inl e, w') \<Longrightarrow> thenE m n w = (Inl e, w')" for w e w' by (simp add: thenE_def bindE_def)
  then show "fails P m \<Longrightarrow> fails P (thenE m n)" unfolding fails_def by metis
qed

lemma fails_for: "x \<in> set xs \<Longrightarrow> fails P (f x) \<Longrightarrow> (\<And>y. raises_only P (f y)) \<Longrightarrow> fails P (forE xs f)"
  by (induction xs) (auto intro: fails_then fails_first)

lemma append_no_opts_raises: "raises_only (\<lambda>e. e = stale_write) (append_event E rid ty p no_opts)"
  unfolding raises_only_def using append_event_errors [of no_opts] by (auto simp: no_opts_def str_given_def)

lemma recovery_parts_total: "total (release_run rid st b)" "total (close_attempt att st' m)"
  unfolding release_run_def close_attempt_def by (intro total_rules total_stmts)+

lemma raises_only_if: "raises_only P m \<Longrightarrow> raises_only P n \<Longrightarrow> raises_only P (if b then m else n)"
  by simp

lemma recover_run_raises: "raises_only (\<lambda>e. e = stale_write) (recover_run E row)"
  unfolding recover_run_def Let_def
  by (intro raises_only_if raises_only_rules(2) append_no_opts_raises recovery_parts_total [THEN raises_only_rules(1)]
      total_return [THEN raises_only_rules(1)])

lemma failed_run_event_fails:
  "fails (\<lambda>e. e = stale_write) (thenE (release_run rid FAILED b) (thenE (append_event E rid ty p no_opts) (returnE ())))"
proof -
  have "\<exists>w'. thenE (release_run rid FAILED b) (thenE (append_event E rid ty p no_opts) (returnE ())) w = (Inl stale_write, w')" for w
  proof -
    obtain u :: unit and w1 where "release_run rid FAILED b w = (Inr u, w1)"
      using totalD [OF recovery_parts_total(1), of rid FAILED b w] by (elim exE)
    then have w1: "release_run rid FAILED b w = (Inr (), w1)" by simp
    let ?f = "\<lambda>r. r\<lparr>r_status := FAILED, r_attempt_id := (if b then None else r_attempt_id r),
              r_worker_id := None, r_lease_until := None, r_updated_at := clock w\<rparr>"
    have w2: "runs (db w1) = upd_where (\<lambda>r. r_id r = rid) ?f (runs (db w))"
      using release_run_snd [of rid FAILED b w] w1 by (simp add: update_runs_def with_db_def)
    have "terminal (r_status r)" if "r \<in> set (runs (db w1))" "r_id r = rid" for r
    proof -
      from that(1) obtain y where y: "r = (if r_id y = rid then ?f y else y)"
        by (auto simp only: w2 upd_where_def set_map)
      then have "r_id y = rid" using that(2) by (cases "r_id y = rid") simp_all
      then show ?thesis by (simp add: y TERMINAL_def)
    qed
    then have "find (writable_for rid no_opts) (runs (db w1)) = None"
      by (auto simp: find_None_all writable_for_def)
    then have "append_event E rid ty p no_opts w1 = (Inl stale_write, w1\<lparr>uuid_pos := Suc (uuid_pos w1)\<rparr>)"
      by (intro append_event_refused known_event_none(1)) (simp_all add: no_opts_def str_given_def)
    with w1 show ?thesis by (simp add: thenE_def bindE_def)
  qed
  then show ?thesis by (simp add: fails_def)
qed


text \<open>A run that expired while its last event says the runtime was interrupted.\<close>

definition interrupted :: "database \<Rightarrow> int \<Rightarrow> run_row \<Rightarrow> event_row \<Rightarrow> bool" where
  "interrupted d now r e \<longleftrightarrow> r \<in> set (runs d) \<and> stale_run now r
     \<and> last (sort_key e_event_seq (filter (\<lambda>x. e_run_id x = r_id r) (events d))) = e
     \<and> e \<in> set (events d) \<and> e_run_id e = r_id r
     \<and> dget (e_payload e) ''error_code'' = JStr ''RUNTIME_INTERRUPTED''"

lemma interrupted_last: "interrupted (db w) now r e \<Longrightarrow> last_event (r_id r) w = Some e"
proof -
  assume i: "interrupted (db w) now r e"
  then have "e \<in> set (events_of w (r_id r))" by (simp add: interrupted_def events_of_def)
  then have "sort_key e_event_seq (events_of w (r_id r)) \<noteq> []" by (metis empty_iff list.set(1) set_sort)
  with i show ?thesis
    by (cases "sort_key e_event_seq (events_of w (r_id r))") (simp_all add: last_event_def interrupted_def events_of_def)
qed

lemma interrupted_fails:
  assumes "dget (e_payload e) ''error_code'' = JStr ''RUNTIME_INTERRUPTED''"
  shows "fails (\<lambda>x. x = stale_write) (recover_run E (r, Some e))"
proof -
  have "next_status_after_stale_lease ty ph (JStr ''RUNTIME_INTERRUPTED'') = FAILED" for ty ph
    by (simp add: next_status_after_stale_lease_def Let_def or_else_def)
  with assms show ?thesis
    unfolding recover_run_def Let_def
    by (simp, intro fails_then raises_only_rules(1) recovery_parts_total failed_run_event_fails)
qed

lemma interrupted_blocks_recovery:
  assumes "interrupted (db w) (clock w) r e" and "\<not> locked (r_id r)"
  shows "\<exists>w'. recover_stale_runs E locked w = (Inl stale_write, w') \<and> db w' = db w"
proof -
  let ?rows = "List.map (\<lambda>r. (r, last_event (r_id r) w)) (filter (\<lambda>r. stale_run (clock w) r \<and> \<not> locked (r_id r)) (runs (db w)))"
  have "(r, Some e) \<in> set ?rows"
    using assms interrupted_last [OF assms(1)] by (auto simp: interrupted_def)
  moreover have "fails (\<lambda>x. x = stale_write) (recover_run E (r, Some e))"
    using assms by (intro interrupted_fails) (simp add: interrupted_def)
  ultimately have "fails (\<lambda>x. x = stale_write) (forE ?rows (recover_run E))"
    by (intro fails_for [of "(r, Some e)"] recover_run_raises)
  then obtain v where v: "forE ?rows (recover_run E) w = (Inl stale_write, v)" by (auto simp: fails_def)
  have "stale_rows locked w = (Inr ?rows, w)" by (simp add: stale_rows_def)
  with v show ?thesis by (simp add: recover_stale_runs_def request_def bindE_def thenE_def)
qed

text \<open>The rounds of a worker: the time of each, and the runs others hold locked when it looks.\<close>

fun poll_rounds :: "env \<Rightarrow> (claimed \<Rightarrow> engine_run) \<Rightarrow> (nat \<Rightarrow> bool) \<Rightarrow>
    (int \<times> (nat \<Rightarrow> string \<Rightarrow> bool)) list \<Rightarrow> world \<Rightarrow> bool list \<times> world" where
  "poll_rounds E engine cancelled [] w = ([], w)"
| "poll_rounds E engine cancelled ((t, locks) # ts) w =
     (case poll_once E locks engine cancelled (w\<lparr>clock := t\<rparr>) of
        (r, w1) \<Rightarrow> (case poll_rounds E engine cancelled ts w1 of (bs, w2) \<Rightarrow> ((r = Inr True) # bs, w2)))"

lemma interrupted_later: "interrupted d now r e \<Longrightarrow> now \<le> t \<Longrightarrow> interrupted d t r e"
  by (auto simp: interrupted_def stale_run_def split: option.splits)

lemma blocked_rounds:
  assumes "interrupted (db w) now r e" and "list_all (\<lambda>(t, locks). now \<le> t \<and> \<not> locks 0 (r_id r)) ts"
  shows "fst (poll_rounds E engine cancelled ts w) = replicate (length ts) False
    \<and> db (snd (poll_rounds E engine cancelled ts w)) = db w"
  using assms
proof (induction ts arbitrary: w)
  case (Cons round ts)
  obtain t locks where round: "round = (t, locks)" by fastforce
  have "interrupted (db (w\<lparr>clock := t\<rparr>)) (clock (w\<lparr>clock := t\<rparr>)) r e"
    using interrupted_later [OF Cons.prems(1), of t] Cons.prems(2) by (simp add: round)
  from interrupted_blocks_recovery [OF this, of "locks 0" E] Cons.prems(2) obtain w1 where
    "recover_stale_runs E (locks 0) (w\<lparr>clock := t\<rparr>) = (Inl stale_write, w1)" and db: "db w1 = db w" by (auto simp: round)
  then have p: "poll_once E locks engine cancelled (w\<lparr>clock := t\<rparr>) = (Inr False, w1)"
    by (simp add: poll_once_def catchE_def thenE_def bindE_def stale_write_def)
  have "interrupted (db w1) now r e" using Cons.prems(1) db by simp
  from Cons.IH [OF this] Cons.prems(2) db p show ?case
    by (cases "poll_rounds E engine cancelled ts w1") (simp add: round)
qed simp

text \<open>C5: A run whose lease has expired and whose last event reports an interrupted runtime stops every
  round that does not find its row locked by another transaction: recovering it sets it FAILED and then
  appends an event, which a failed run refuses; the exception rolls the recovery back and ends the round
  before anything is claimed. However many such rounds follow each other, at whatever times and whatever
  waits in the queue, none claims and the tables stay as they are. (A round that finds the row locked,
  because another worker is failing to recover it at that moment, skips it and can claim.)\<close>

theorem interrupted_run_blocks_workers:
  assumes "interrupted (db w) now r e" and "list_all (\<lambda>(t, locks). now \<le> t \<and> \<not> locks 0 (r_id r)) ts"
  shows "fst (poll_rounds E engine cancelled ts w) = replicate (length ts) False
    \<and> db (snd (poll_rounds E engine cancelled ts w)) = db w"
  by (rule blocked_rounds [OF assms])

definition blocked_world :: world where
  "blocked_world = sample_world\<lparr>db := empty_db
     \<lparr>runs := [log_run\<lparr>r_lease_until := Some 50\<rparr>, queue_run ''run-2'' 5],
      events := [log_event\<lparr>e_payload := [(''error_code'', JStr ''RUNTIME_INTERRUPTED'')]\<rparr>]\<rparr>\<rparr>"

lemma blocked_world_interrupted:
  "interrupted (db blocked_world) 60 (log_run\<lparr>r_lease_until := Some 50\<rparr>)
     (log_event\<lparr>e_payload := [(''error_code'', JStr ''RUNTIME_INTERRUPTED'')]\<rparr>)"
  by (simp add: interrupted_def blocked_world_def stale_run_def log_run_def log_event_def)

text \<open>Three rounds; in the second, the row of the waiting run is locked by somebody.\<close>

definition blocked_ticks :: "(int \<times> (nat \<Rightarrow> string \<Rightarrow> bool)) list" where
  "blocked_ticks = [(60, \<lambda>_ _. False), (65, \<lambda>_ rid. rid = ''run-2''), (1000, \<lambda>_ _. False)]"

theorem interrupted_run_blocks_workers_witness:
  "List.map r_id (waiting_claims (\<lambda>_. False) blocked_world) = [''run-2'']
   \<and> fst (poll_rounds sample_env (\<lambda>_. ([], None)) (\<lambda>_. False) blocked_ticks blocked_world) = [False, False, False]
   \<and> db (snd (poll_rounds sample_env (\<lambda>_. ([], None)) (\<lambda>_. False) blocked_ticks blocked_world)) = db blocked_world"
proof -
  have "List.map r_id (waiting_claims (\<lambda>_. False) blocked_world) = [''run-2'']"
    by (simp add: waiting_claims_def blocked_world_def order_by_def claimable_def queue_run_def log_run_def jget_def)
  moreover have "list_all (\<lambda>(t, locks). 60 \<le> t \<and> \<not> locks 0 (r_id (log_run\<lparr>r_lease_until := Some 50\<rparr>))) blocked_ticks"
    by (simp add: blocked_ticks_def log_run_def)
  ultimately show ?thesis
    using interrupted_run_blocks_workers [OF blocked_world_interrupted, of blocked_ticks sample_env "\<lambda>_. ([], None)" "\<lambda>_. False"]
    by (simp add: blocked_ticks_def)
qed

section \<open>A denied context\<close>

lemma request_undone: "m w = (Inl e, w') \<Longrightarrow> request m w = (Inl e, w'\<lparr>db := db w\<rparr>)"
  by (simp add: request_def)

lemma persist_quietly_undone: "m w = (Inl e, w') \<Longrightarrow> persist_quietly m w = (Inr (), w'\<lparr>db := db w\<rparr>)"
  by (simp add: persist_quietly_def catchE_def request_undone)

lemma then_append_fails:
  assumes "\<not> str_given (o_source_event_id opts)"
    and "\<And>b w1. m w = (Inr b, w1) \<Longrightarrow> find (writable_for rid opts) (runs (db w1)) = None"
  shows "\<exists>e w'. thenE m (thenE (append_event E rid ty p opts) n) w = (Inl e, w')"
proof (cases "m w")
  case (Pair r w1)
  show ?thesis
  proof (cases r)
    case (Inl e)
    with Pair show ?thesis by (simp add: thenE_def bindE_def)
  next
    case (Inr b)
    with Pair have "m w = (Inr b, w1)" by simp
    with append_event_refused [OF known_event_none(1) [OF assms(1)] assms(2), of b w1 E ty p] show ?thesis
      by (simp add: thenE_def bindE_def)
  qed
qed

lemma set_status_writes:
  "runs (db (snd (set_status rid st opts w))) = upd_where (status_for rid st opts) (after_status st opts (clock w)) (runs (db w))"
proof -
  let ?rest = "\<lambda>rowcount :: nat. if rowcount = 0 then
         (if so_attempt_id opts \<noteq> None then raiseE (RuntimeError ''stale attempt cannot update status'')
          else returnE False)
       else
         thenE (whenE (terminal st \<and> str_given (so_org_id opts))
                  (close_external_session_if_present rid (so_org_id opts)))
           (returnE True)"
  let ?w = "w\<lparr>db := (db w)\<lparr>runs := upd_where (status_for rid st opts) (after_status st opts (clock w)) (runs (db w))\<rparr>\<rparr>"
  have f: "after_status st opts (clock w) =
      (\<lambda>r. r\<lparr>r_status := st, r_result := coalesce (so_result opts) (r_result r), r_updated_at := clock w\<rparr>)"
    by (rule ext) (simp add: after_status_def)
  have "guar same_log (?rest n)" for n by (intro sl.guar_rules close_external_same_log)
  then have "same_log ?w (snd (?rest (count_where (status_for rid st opts) (runs (db w))) ?w))" by (rule guarD)
  moreover have "set_status rid st opts w = ?rest (count_where (status_for rid st opts) (runs (db w))) ?w"
    by (simp only: set_status_def bindE_def now_op_run prod.case sum.case update_runs_def with_db_def f)
  ultimately show ?thesis by (simp only: same_log_def) simp
qed

text \<open>Once a run is FAILED under an attempt nothing can be written for the attempt.\<close>

lemma set_failed_unwritable:
  assumes "set_status rid FAILED (worker_status org c None res) w = (Inr b, w1)"
    and "o_org_id opts = org" and "o_attempt_id opts = Some (cl_attempt_id c)" and "o_generation opts = Some (cl_generation c)"
  shows "find (writable_for rid opts) (runs (db w1)) = None"
proof -
  let ?s = "status_for rid FAILED (worker_status org c None res)"
  let ?f = "after_status FAILED (worker_status org c None res) (clock w)"
  have runs: "runs (db w1) = upd_where ?s ?f (runs (db w))"
    using set_status_writes [of rid FAILED "worker_status org c None res" w] by (simp add: assms(1))
  have "\<not> writable_for rid opts r" if "r \<in> set (runs (db w1))" for r
  proof -
    from that obtain y where y: "r = (if ?s y then ?f y else y)"
      by (auto simp only: runs upd_where_def set_map)
    show ?thesis
    proof (cases "?s y")
      case True
      then show ?thesis by (simp add: y writable_for_def TERMINAL_def after_status_def)
    next
      case False
      then have "\<not> writable_for rid opts y"
        using assms(2-4) by (auto simp: status_for_def writable_for_def worker_status_def TERMINAL_def when_given_def)
      with False show ?thesis by (simp add: y)
    qed
  qed
  then show ?thesis by (simp add: find_None_all)
qed

lemma on_denied_undone: "\<exists>w'. on_denied E org c w = (Inr (), w') \<and> db w' = db w"
proof -
  let ?opts = "(worker_opts org c)\<lparr>o_context_version :=
           (case jget (cl_snapshot c) ''context_version'' of JInt v \<Rightarrow> Some v | _ \<Rightarrow> None)\<rparr>"
  have o: "o_org_id ?opts = org" "o_attempt_id ?opts = Some (cl_attempt_id c)" "o_generation ?opts = Some (cl_generation c)"
    "\<not> str_given (o_source_event_id ?opts)"
    by (simp_all add: worker_opts_def attempt_opts_def no_opts_def str_given_def)
  let ?m = "set_status (cl_id c) FAILED
        (worker_status org c None (Some (JObj [(''error'', JStr ''context revalidation denied'')])))"
  have "\<exists>e w1. thenE ?m (thenE (append_event E (cl_id c) ''run.failed''
        [(''error'', JStr ''context revalidation denied''), (''reason'', JStr ''context_revalidation_denied'')] ?opts)
        (returnE ())) w = (Inl e, w1)"
    by (rule then_append_fails [OF o(4)], erule set_failed_unwritable) (rule o(1-3))+
  then show ?thesis
    unfolding on_denied_def by (elim exE) (drule persist_quietly_undone, intro exI conjI, assumption, simp)
qed


text \<open>A program in a transaction that raises leaves the tables alone.\<close>

lemma request_raises_same_db: "request m w = (Inl e, w') \<Longrightarrow> db w' = db w"
  by (auto simp: request_def split: prod.splits sum.splits)

lemma upd_where_in: "r \<in> set rs \<Longrightarrow> (if c r then f r else r) \<in> set (upd_where c f rs)"
  by (auto simp: upd_where_def)

lemma append_no_source:
  assumes "append_event E rid ty p opts w = (Inr v, w')" and "\<not> str_given (o_source_event_id opts)"
  shows "\<exists>e. w' = event_written w rid opts e"
proof (cases "find (writable_for rid opts) (runs (db w))")
  case None
  with append_event_refused [OF known_event_none(1) [OF assms(2)] None, of E ty p] assms(1) show ?thesis by simp
next
  case (Some r)
  with append_event_some [OF known_event_none(1) [OF assms(2)] Some refl, of E ty p] assms(1) show ?thesis by auto
qed

lemma request_InrD: "request m w = (Inr a, w') \<Longrightarrow> m w = (Inr a, w')"
  by (auto simp: request_def split: prod.splits sum.splits)

lemma thenE_InrE: "thenE m n w = (Inr a, w') \<Longrightarrow> \<exists>b v. m w = (Inr b, v) \<and> n v = (Inr a, w')"
  by (auto simp: thenE_def bindE_def split: prod.splits sum.splits)

definition running_under :: "world \<Rightarrow> claimed \<Rightarrow> bool" where
  "running_under w c \<longleftrightarrow> list_ex (\<lambda>r. r_id r = cl_id c \<and> r_status r = RUNNING
     \<and> r_attempt_id r = Some (cl_attempt_id c) \<and> r_generation r = cl_generation c) (runs (db w))"

lemma set_status_attempt_hits:
  assumes "set_status rid st opts w = (Inr b, v)" and "so_attempt_id opts \<noteq> None"
  obtains r where "r \<in> set (runs (db w))" "status_for rid st opts r" "after_status st opts (clock w) r \<in> set (runs (db v))"
proof -
  have "count_where (status_for rid st opts) (runs (db w)) \<noteq> 0"
    using assms by (intro notI) (simp add: set_status_def bindE_def stmt_defs raiseE_def)
  then obtain r where r: "r \<in> set (runs (db w))" "status_for rid st opts r" by (auto simp: count_where_0)
  moreover have "after_status st opts (clock w) r \<in> set (runs (db v))"
    using upd_where_in [OF r(1), of "status_for rid st opts" "after_status st opts (clock w)"] r(2)
      set_status_writes [of rid st opts w] by (simp add: assms(1))
  ultimately show ?thesis by (rule that)
qed

lemma start_attempt_ok:
  assumes "start_attempt E c w = (Inr (), w1)"
  shows "running_under w1 c"
proof -
  let ?opts = "worker_status (Some (cl_org_id c)) c (Some [PREPARING, QUEUED, RESUMING]) None"
  let ?eo = "worker_opts (Some (cl_org_id c)) c"
  let ?p = "[(''status'', JStr ''RUNNING''), (''attempt_id'', JStr (cl_attempt_id c))]"
  obtain b v where 1: "set_status (cl_id c) RUNNING ?opts w = (Inr b, v)"
    and 2: "thenE (append_event E (cl_id c) ''run.started'' ?p ?eo) (returnE ()) v = (Inr (), w1)"
    using thenE_InrE [OF request_InrD [OF assms [unfolded start_attempt_def]]] by (elim exE conjE)
  obtain ev u where "append_event E (cl_id c) ''run.started'' ?p ?eo v = (Inr ev, u)" "u = w1"
    using thenE_InrE [OF 2] by (elim exE conjE) (simp add: returnE_def)
  then obtain e where w1: "w1 = event_written v (cl_id c) ?eo e"
    using append_no_source [of E "cl_id c" "''run.started''" ?p ?eo v ev w1]
    by (auto simp: worker_opts_def attempt_opts_def no_opts_def str_given_def)
  obtain r where r: "status_for (cl_id c) RUNNING ?opts r" "after_status RUNNING ?opts (clock w) r \<in> set (runs (db v))"
    by (rule set_status_attempt_hits [OF 1]) (simp add: worker_status_def)
  from upd_where_in [OF r(2), of "writable_for (cl_id c) ?eo" "\<lambda>r. r\<lparr>r_next_event_seq := Suc (r_next_event_seq r), r_updated_at := clock v\<rparr>"]
  have "\<exists>x\<in>set (runs (db w1)). r_id x = cl_id c \<and> r_status x = RUNNING
     \<and> r_attempt_id x = Some (cl_attempt_id c) \<and> r_generation x = cl_generation c"
    using r(1) by (intro bexI) (auto simp: w1 event_written_def after_status_def status_for_def worker_status_def when_given_def)
  then show ?thesis by (simp add: running_under_def list_ex_iff)
qed

lemma execute_denied:
  assumes "start_attempt E c w = (Inr (), w1)" and "plan_attempt E c w1 = (Inl (ContextRevalidationError m), w2)"
  shows "\<exists>w'. execute E c engine cancelled w = (Inr (), w') \<and> db w' = db w1"
proof -
  have d: "db w2 = db w1" using assms(2) unfolding plan_attempt_def by (rule request_raises_same_db)
  obtain w' where w': "on_denied E (snapshot_text c ''org_id'') c w2 = (Inr (), w')" "db w' = db w2"
    using on_denied_undone [of E "snapshot_text c ''org_id''" c w2] by (elim exE conjE)
  have "execute E c engine cancelled w = (Inr (), w')"
    using assms w'(1) by (simp add: execute_def bindE_def thenE_def catchE_def returnE_def whenE_def on_exception_def)
  with d w'(2) show ?thesis by simp
qed

text \<open>C6: When the check of the execution context denies an attempt that has just started, the execution
  ends normally, but the run does not become FAILED: setting it FAILED and then appending the event
  undoes both, so the tables are those right after the start, with the run RUNNING under the attempt until its lease
  expires.\<close>

theorem denied_run_stays_running:
  assumes "start_attempt E c w = (Inr (), w1)" and "plan_attempt E c w1 = (Inl (ContextRevalidationError m), w2)"
  shows "\<exists>w'. execute E c engine cancelled w = (Inr (), w') \<and> db w' = db w1 \<and> running_under w' c"
  using execute_denied [OF assms, of engine cancelled] start_attempt_ok [OF assms(1)]
  by (auto simp: running_under_def)


lemma start_attempt_runs:
  assumes "find_run w (cl_id c) = Some r" and "r_status r = PREPARING" and "r_org_id r = cl_org_id c"
    and "r_attempt_id r = Some (cl_attempt_id c)" and "r_generation r = cl_generation c"
  shows "\<exists>w1. start_attempt E c w = (Inr (), w1)"
proof -
  let ?opts = "worker_status (Some (cl_org_id c)) c (Some [PREPARING, QUEUED, RESUMING]) None"
  let ?eo = "worker_opts (Some (cl_org_id c)) c"
  let ?w = "status_written w (cl_id c) RUNNING ?opts"
  have live: "status_for (cl_id c) RUNNING ?opts r"
    using assms find_run_id [OF assms(1)] by (simp add: status_for_def worker_status_def when_given_def)
  have 1: "set_status (cl_id c) RUNNING ?opts w = (Inr True, ?w)"
    by (rule set_status_live [OF assms(1) live]) (simp add: TERMINAL_def)
  have 2: "find_run ?w (cl_id c) = Some (after_status RUNNING ?opts (clock w) r)"
    by (rule status_written_find [OF assms(1) live])
  have 3: "writable_for (cl_id c) ?eo (after_status RUNNING ?opts (clock w) r)"
    using assms find_run_id [OF assms(1)]
    by (simp add: writable_for_def worker_opts_def attempt_opts_def no_opts_def when_given_def after_status_def TERMINAL_def)
  have 4: "\<not> str_given (o_source_event_id ?eo)"
    by (simp add: worker_opts_def attempt_opts_def no_opts_def str_given_def)
  obtain v w1 where "append_event E (cl_id c) ''run.started''
      [(''status'', JStr ''RUNNING''), (''attempt_id'', JStr (cl_attempt_id c))] ?eo ?w = (Inr v, w1)"
    using append_event_live [OF 2 3 4 refl, of E "''run.started''"
      "[(''status'', JStr ''RUNNING''), (''attempt_id'', JStr (cl_attempt_id c))]"] by (elim exE)
  with 1 show ?thesis
    by (intro exI [of _ w1]) (simp add: start_attempt_def request_def thenE_def bindE_def returnE_def)
qed

lemma no_context_denied:
  assumes "dict_of (cl_snapshot c) = []"
  shows "plan_attempt E c w = (Inl (ContextRevalidationError ''execution context missing''), w)"
  by (simp add: plan_attempt_def check_context_def assms revalidate_execution_context_def check_pinned_session_def
      Let_def whenE_def denied_def thenE_def bindE_def request_def returnE_def raiseE_def)

theorem denied_run_stays_running_witness:
  "\<exists>c w w1 w'. claim_one sample_env (\<lambda>_. False) queue_world = (Inr (Some c), w) \<and> start_attempt sample_env c w = (Inr (), w1)
     \<and> execute sample_env c ([], None) (\<lambda>_. False) w = (Inr (), w') \<and> db w' = db w1 \<and> running_under w' c"
proof -
  let ?c = "claimed_of sample_env queue_world (queue_run ''run-1'' 3)"
  let ?w = "claim_written sample_env queue_world ''run-1''"
  have c: "cl_id ?c = ''run-1''" "cl_org_id ?c = ''org-1''" "cl_generation ?c = next_attempt_no queue_world ''run-1''"
    "cl_attempt_id ?c = uuid4 sample_env (uuid_pos queue_world)" "dict_of (cl_snapshot ?c) = []"
    by (simp_all add: claimed_of_def queue_run_def log_run_def dict_or_empty_def)
  let ?r = "claimed_run sample_env (uuid4 sample_env (uuid_pos queue_world))
      (next_attempt_no queue_world ''run-1'') (clock queue_world) (queue_run ''run-1'' 3)"
  have "find_run ?w (cl_id ?c) = Some ?r" unfolding c
    by (simp add: find_run_def claim_written_runs upd_where_def) (simp add: queue_world_def queue_run_def claimed_run_def)
  moreover have "r_org_id ?r = cl_org_id ?c" unfolding c by (simp add: claimed_run_def queue_run_def log_run_def)
  moreover have "r_attempt_id ?r = Some (cl_attempt_id ?c)" "r_generation ?r = cl_generation ?c" "r_status ?r = PREPARING"
    unfolding c by (simp_all add: claimed_run_def)
  ultimately have "\<exists>w1. start_attempt sample_env ?c ?w = (Inr (), w1)" by (intro start_attempt_runs)
  then obtain w1 where w1: "start_attempt sample_env ?c ?w = (Inr (), w1)" by (elim exE)
  from denied_run_stays_running [OF w1 no_context_denied [OF c(5)], of "([], None)" "\<lambda>_. False"] queue_claim(2) w1
  show ?thesis by (elim exE conjE) (intro exI conjI, assumption+)
qed

section \<open>A worker whose attempt is over\<close>

text \<open>The run is over, or another attempt has taken it.\<close>

definition superseded :: "world \<Rightarrow> claimed \<Rightarrow> bool" where
  "superseded w c \<longleftrightarrow> list_all (\<lambda>r. \<not> (r_id r = cl_id c \<and> \<not> terminal (r_status r)
     \<and> r_attempt_id r = Some (cl_attempt_id c) \<and> r_generation r = cl_generation c)) (runs (db w))"

lemma superseded_unwritable:
  "superseded w c \<Longrightarrow> o_attempt_id opts = Some (cl_attempt_id c) \<Longrightarrow> o_generation opts = Some (cl_generation c) \<Longrightarrow>
   find (writable_for (cl_id c) opts) (runs (db w)) = None"
  by (auto simp: superseded_def list_all_iff find_None_all writable_for_def when_given_def)

definition raises_at :: "'a op \<Rightarrow> world \<Rightarrow> bool" where
  "raises_at m w \<longleftrightarrow> (\<exists>e w'. m w = (Inl e, w'))"

lemma raises_first: "raises_at m w \<Longrightarrow> raises_at (thenE m n) w"
  by (auto simp: raises_at_def thenE_def bindE_def)

lemma raises_after: "guar same_log m \<Longrightarrow> (\<And>v. same_log w v \<Longrightarrow> raises_at n v) \<Longrightarrow> raises_at (thenE m n) w"
proof -
  assume m: "guar same_log m" and n: "\<And>v. same_log w v \<Longrightarrow> raises_at n v"
  obtain r v where v: "m w = (r, v)" by (cases "m w")
  then have "raises_at n v" using guar_result [OF m v] n by blast
  with v show "raises_at (thenE m n) w" by (cases r) (auto simp: raises_at_def thenE_def bindE_def)
qed

lemma raises_request: "raises_at m w \<Longrightarrow> \<exists>e w'. request m w = (Inl e, w') \<and> db w' = db w"
  by (auto simp: raises_at_def request_def)

lemma superseded_same_log: "superseded w c \<Longrightarrow> same_log w v \<Longrightarrow> superseded v c"
  by (simp add: superseded_def same_log_def)

lemma known_event_same_log: "same_log w v \<Longrightarrow> known_event v rid opts = known_event w rid opts"
  by (simp add: known_event_def same_log_def)

lemma append_superseded:
  assumes "superseded w c" and "o_attempt_id opts = Some (cl_attempt_id c)" "o_generation opts = Some (cl_generation c)"
    and "known_event w (cl_id c) opts = None"
  shows "raises_at (thenE (append_event E (cl_id c) ty p opts) n) w"
  by (rule raises_first) (simp add: raises_at_def append_event_refused [OF assms(4) superseded_unwritable [OF assms(1-3)]])

lemma set_status_superseded:
  assumes "superseded w c" and "\<And>r. status_for (cl_id c) st opts r \<Longrightarrow> \<not> terminal (r_status r)"
    and "so_attempt_id opts = Some (cl_attempt_id c)" "so_generation opts = Some (cl_generation c)"
  shows "raises_at (thenE (set_status (cl_id c) st opts) n) w"
proof (rule raises_first, unfold raises_at_def)
  have "\<not> status_for (cl_id c) st opts r" if "r \<in> set (runs (db w))" for r
  proof
    assume s: "status_for (cl_id c) st opts r"
    then have "\<not> terminal (r_status r)" by (rule assms(2))
    with s assms(1,3,4) that show False
      by (auto simp: superseded_def list_all_iff status_for_def when_given_def)
  qed
  then have "count_where (status_for (cl_id c) st opts) (runs (db w)) = 0" by (simp add: count_where_0)
  then show "\<exists>e w'. set_status (cl_id c) st opts w = (Inl e, w')"
    by (simp add: set_status_def bindE_def stmt_defs assms(3) raiseE_def)
qed

lemma update_step_same_log: "guar same_log (update_step_state rid sid st u)"
  by (rule step_ops_same_log)

lemma opts_fields [simp]:
  "o_attempt_id (yielded_opts org c y) = Some (cl_attempt_id c)" "o_generation (yielded_opts org c y) = Some (cl_generation c)"
  "o_attempt_id (worker_opts org c) = Some (cl_attempt_id c)" "o_generation (worker_opts org c) = Some (cl_generation c)"
  "so_attempt_id (worker_status org c es res) = Some (cl_attempt_id c)"
  "so_generation (worker_status org c es res) = Some (cl_generation c)"
  by (simp_all add: yielded_opts_def worker_opts_def attempt_opts_def no_opts_def worker_status_def)

lemma worker_opts_plain: "known_event w rid (worker_opts org c) = None"
  by (rule known_event_none(1)) (simp add: worker_opts_def attempt_opts_def no_opts_def str_given_def)

lemma handle_superseded:
  assumes "superseded w c" and "known_event w (cl_id c) (yielded_opts (snapshot_text c ''org_id'') c y) = None"
  shows "\<exists>e w'. handle_yielded E c central pending y w = (Inl e, w') \<and> db w' = db w"
proof -
  let ?org = "snapshot_text c ''org_id''"
  let ?add = "\<lambda>t. thenE (append_event E (cl_id c) t (y_payload y) (yielded_opts ?org c y)) (returnE ())"
  have add: "raises_at (?add t) v" if "same_log w v" for t v
    by (rule append_superseded [OF superseded_same_log [OF assms(1) that]])
      (simp_all add: known_event_same_log [OF that] assms(2))
  have add': "raises_at (thenE (?add t) n) v" if "same_log w v" for t v and n :: "unit op"
    by (rule raises_first [OF add [OF that]])
  have step: "raises_at (thenE (update_step_state (cl_id c) central st u) n) w"
    if "\<And>v. same_log w v \<Longrightarrow> raises_at n v" for st u and n :: "unit op"
    by (rule raises_after [OF update_step_same_log that])
  have wait: "raises_at (wait_for_edge E ?org c m) v" if "same_log w v" for m v
    unfolding wait_for_edge_def
    by (rule set_status_superseded [OF superseded_same_log [OF assms(1) that]])
      (auto simp: status_for_def worker_status_def TERMINAL_def)
  have here: "same_log w w" by (rule sl.R_refl)
  show ?thesis
    unfolding handle_yielded_def Let_def
    by (rule raises_request) (auto intro!: step add add' wait here)
qed

text \<open>Whatever exception ends the work of such an attempt, recording it changes nothing either.\<close>

lemma on_exception_superseded:
  assumes "superseded w c"
  shows "\<exists>w'. on_exception E org c central e w = (Inr (), w') \<and> db w' = db w"
proof -
  have quiet: "\<exists>w'. persist_quietly m w = (Inr (), w') \<and> db w' = db w" if "raises_at m w" for m
    using raises_request [OF that] by (auto simp: persist_quietly_def catchE_def returnE_def)
  have "raises_at (thenE (set_status (cl_id c) FAILED (worker_status org c None res)) n) w" for res and n :: "unit op"
    by (rule set_status_superseded [OF assms]) (auto simp: status_for_def worker_status_def TERMINAL_def)
  then have d: "\<exists>w'. on_denied E org c w = (Inr (), w') \<and> db w' = db w"
    and f: "\<And>x. \<exists>w'. on_failed E org c x w = (Inr (), w') \<and> db w' = db w"
    unfolding on_denied_def on_failed_def Let_def by (rule quiet)+
  have "raises_at (thenE (update_step_state (cl_id c) central STEP_CANCELLED (worker_step c))
     (thenE (append_event E (cl_id c) ''run.cancelled'' [(''reason'', JStr ''cancel_requested'')] (worker_opts org c))
       (aggregate_attempt E org c))) w"
    by (rule raises_after [OF update_step_same_log], rule append_superseded [OF superseded_same_log [OF assms]])
      (simp_all add: worker_opts_plain)
  then have "\<exists>w'. on_cancelled E org c central w = (Inr (), w') \<and> db w' = db w"
    unfolding on_cancelled_def by (rule quiet)
  with d f show ?thesis by (cases e) (simp_all add: on_exception_def)
qed

lemma superseded_engine:
  assumes "superseded w c" and "known_event w (cl_id c) (yielded_opts (snapshot_text c ''org_id'') c y) = None"
  shows "\<exists>w'. catchE (thenE (forE (y # ys) (handle_yielded E c central pending)) rest)
      (on_exception E (snapshot_text c ''org_id'') c central) w = (Inr (), w') \<and> db w' = db w"
proof -
  obtain e v where v: "handle_yielded E c central pending y w = (Inl e, v)" "db v = db w"
    using handle_superseded [OF assms, of E central pending] by (elim exE conjE)
  have "superseded v c" using assms(1) v(2) by (simp add: superseded_def)
  then obtain w' where "on_exception E (snapshot_text c ''org_id'') c central e v = (Inr (), w')" "db w' = db v"
    using on_exception_superseded by blast
  with v show ?thesis by (simp add: catchE_def thenE_def bindE_def)
qed

lemma renew_superseded:
  assumes "superseded w c"
  shows "\<exists>w'. renew_lease E (cl_id c) (cl_attempt_id c) (Some (cl_generation c)) w = (Inr False, w') \<and> db w' = db w"
proof -
  let ?p = "\<lambda>r. r_id r = cl_id c \<and> r_attempt_id r = Some (cl_attempt_id c) \<and> r_status r \<in> {PREPARING, RUNNING}
             \<and> when_given (Some (cl_generation c)) (\<lambda>g. r_generation r = g)"
  have none: "\<not> ?p r" if "r \<in> set (runs (db w))" for r
    using assms that by (auto simp: superseded_def list_all_iff when_given_def TERMINAL_def)
  have "count_where ?p (runs (db w)) = 0" unfolding count_where_0 using none by blast
  moreover have "upd_where ?p f (runs (db w)) = runs (db w)" for f by (rule upd_where_no) (rule none)
  ultimately show ?thesis
    by (simp add: renew_lease_def request_def bindE_def now_op_run update_runs_def with_db_def returnE_def)
qed

lemma start_superseded:
  assumes "superseded w c"
  shows "\<exists>e w'. start_attempt E c w = (Inl e, w') \<and> db w' = db w"
  unfolding start_attempt_def
  by (intro raises_request set_status_superseded [OF assms])
    (auto simp: status_for_def worker_status_def TERMINAL_def)

lemma plan_superseded:
  assumes "superseded w c"
  shows "\<exists>e w'. plan_attempt E c w = (Inl e, w') \<and> db w' = db w"
proof -
  let ?opts = "worker_opts (snapshot_text c ''org_id'') c"
  have checked: "guar same_log (check_context E c)"
    unfolding check_context_def by (intro sl.guar_rules guar_intros)
  have persist: "raises_at (thenE (persist_step_plan E (cl_id c) plan a g)
      (thenE (append_event E (cl_id c) ''run.plan'' p ?opts) n)) v" if "same_log w v" for plan a g p v and n :: "'a op"
    by (rule raises_after [OF persist_plan_same_log], rule append_superseded
        [OF superseded_same_log [OF superseded_same_log [OF assms that]]]) (simp_all add: worker_opts_plain)
  show ?thesis
    unfolding plan_attempt_def
  proof (intro raises_request raises_after [OF checked])
    fix v assume v: "same_log w v"
    show "raises_at (bindE (liftE (build_hybrid_step_plan (dict_of (cl_snapshot c)))) (\<lambda>step_plan.
      thenE (persist_step_plan E (cl_id c) step_plan (Some (cl_attempt_id c)) (cl_generation c))
      (thenE (append_event E (cl_id c) ''run.plan''
         [(''step_plan'', JList (List.map JObj step_plan)), (''total_steps'', JInt (int (length step_plan)))] ?opts)
      (returnE step_plan)))) v"
      using persist [OF v]
      by (cases "build_hybrid_step_plan (dict_of (cl_snapshot c))") (simp_all add: raises_at_def bindE_def)
  qed
qed

text \<open>C4: Once a run is over or another attempt has taken it, the worker of the old attempt can neither begin
  the run, nor plan it, nor renew its lease, and the next event its engine yields ends its execution, unless it is a
  resent one, which is known by its source event id: neither that event, nor those that follow, nor the
  handling of the exception leaves a trace in any table. (The theorem is about these operations: the update
  of the central step before the engine starts and the storing of outputs are not fenced in this way.)\<close>

theorem superseded_worker_harmless:
  assumes "superseded w c" and "known_event w (cl_id c) (yielded_opts (snapshot_text c ''org_id'') c y) = None"
  shows "(\<exists>e w'. start_attempt E c w = (Inl e, w') \<and> db w' = db w)
    \<and> (\<exists>e w'. plan_attempt E c w = (Inl e, w') \<and> db w' = db w)
    \<and> (\<exists>w'. renew_lease E (cl_id c) (cl_attempt_id c) (Some (cl_generation c)) w = (Inr False, w') \<and> db w' = db w)
    \<and> (\<exists>w'. catchE (thenE (forE (y # ys) (handle_yielded E c central pending)) rest)
      (on_exception E (snapshot_text c ''org_id'') c central) w = (Inr (), w') \<and> db w' = db w)"
  by (intro conjI start_superseded plan_superseded renew_superseded superseded_engine assms)

theorem superseded_worker_harmless_witness:
  "\<exists>c w w'. claim_one sample_env (\<lambda>_. False) queue_world = (Inr (Some c), w)
     \<and> catchE (thenE (forE [\<lparr>y_event_type = ''run.completed'', y_payload = [], y_source = None, y_source_event_id = None\<rparr>]
           (handle_yielded sample_env (c\<lparr>cl_generation := 0\<rparr>) ''central'' False)) (returnE ()))
         (on_exception sample_env (snapshot_text (c\<lparr>cl_generation := 0\<rparr>) ''org_id'') (c\<lparr>cl_generation := 0\<rparr>) ''central'') w
         = (Inr (), w') \<and> db w' = db w"
proof -
  let ?c = "claimed_of sample_env queue_world (queue_run ''run-1'' 3)"
  let ?w = "claim_written sample_env queue_world ''run-1''"
  let ?y = "\<lparr>y_event_type = ''run.completed'', y_payload = [], y_source = None, y_source_event_id = None\<rparr>"
  have n: "next_attempt_no queue_world ''run-1'' = 1"
    by (simp add: next_attempt_no_def queue_world_def empty_db_def)
  have id: "cl_id (?c\<lparr>cl_generation := 0\<rparr>) = ''run-1''" by (simp add: claimed_of_def queue_run_def)
  have s: "superseded ?w (?c\<lparr>cl_generation := 0\<rparr>)"
    unfolding superseded_def id by (auto simp: list_all_iff n dest!: not_claimable_preparing)
  have "known_event ?w (cl_id (?c\<lparr>cl_generation := 0\<rparr>))
      (yielded_opts (snapshot_text (?c\<lparr>cl_generation := 0\<rparr>) ''org_id'') (?c\<lparr>cl_generation := 0\<rparr>) ?y) = None"
    by (rule known_event_none(1)) (simp add: yielded_opts_def str_given_def)
  from superseded_worker_harmless [OF s this, of sample_env "[]" "''central''" False "returnE ()"] queue_claim(2)
  show ?thesis by (elim conjE exE) (intro exI conjI, assumption+)
qed

end
