(* ===== verification/Text_Tools.thy ===== *)
theory Text_Tools
  imports Json_Text
begin

text \<open>
  What the runtime event code takes from Python's standard library to work on texts: cutting and
  replacing, regular expression substitution as a scan with one hand-translated matcher per
  pattern, and \<open>urllib.parse\<close> of Python 3.12 (\<open>urlparse\<close>, \<open>hostname\<close>, \<open>port\<close>,
  \<open>parse_qsl\<close>, \<open>urlencode\<close>, \<open>urlunparse\<close>).
\<close>

section \<open>Cutting and replacing\<close>

fun split_char :: "char \<Rightarrow> string \<Rightarrow> string list" where
  "split_char d [] = [[]]"
| "split_char d (c # cs) =
     (if c = d then [] # split_char d cs
      else case split_char d cs of [] \<Rightarrow> [[c]] | p # ps \<Rightarrow> (c # p) # ps)"

text \<open>\<open>s.split(d, 1)\<close>: \<open>None\<close> when \<open>d\<close> does not occur.\<close>

definition cut_at :: "char \<Rightarrow> string \<Rightarrow> (string \<times> string) option" where
  "cut_at d s =
     (if d \<in> set s then Some (takeWhile (\<lambda>c. c \<noteq> d) s, tl (dropWhile (\<lambda>c. c \<noteq> d) s)) else None)"

definition replace_char :: "char \<Rightarrow> char \<Rightarrow> string \<Rightarrow> string" where
  "replace_char a b = List.map (\<lambda>c. if c = a then b else c)"

definition backslash :: char where
  "backslash = char_of (92 :: nat)"

definition newline :: char where
  "newline = char_of (10 :: nat)"

definition dquote :: char where
  "dquote = char_of (34 :: nat)"

definition squote :: char where
  "squote = char_of (39 :: nat)"

text \<open>\<open>encoded[:n].decode("utf-8", errors="ignore")\<close>: the whole characters within \<open>n\<close> bytes.\<close>

definition clip_utf8 :: "nat \<Rightarrow> string \<Rightarrow> string" where
  "clip_utf8 n s = (case find_cut s (min n (length s)) of None \<Rightarrow> [] | Some k \<Rightarrow> take k s)"

lemma split_char_nonempty [simp]: "split_char d s \<noteq> []"
  by (cases s) (auto split: list.splits)

lemma clip_utf8_length: "length (clip_utf8 n s) \<le> n"
  by (auto simp: clip_utf8_def split: option.splits dest: find_cut_Some)

lemma clip_utf8_valid: "utf8_valid (clip_utf8 n s)"
  by (auto simp: clip_utf8_def split: option.splits dest: find_cut_Some)

section \<open>Characters\<close>

text \<open>
  A text as the list of its characters, each as its bytes. The Unicode database says which
  characters outside ASCII are letters or digits (\<open>\w\<close>) and which are white space (\<open>\s\<close>); it is a
  parameter, with the two checks of \<open>urlparse\<close> that need other modules: the address in a
  bracketed host and the normal form of a host outside ASCII.
\<close>

record text_env =
  uni_word :: "string \<Rightarrow> bool"
  uni_space :: "string \<Rightarrow> bool"
  netloc_ok :: "string \<Rightarrow> bool"

function explode :: "string \<Rightarrow> string list" where
  "explode s =
     (if s = [] then []
      else take (max 1 (utf8_width s)) s # explode (drop (max 1 (utf8_width s)) s))"
  by pat_completeness auto
termination
  by (relation "measure length") auto

declare explode.simps [simp del]

lemma concat_explode [simp]: "concat (explode s) = s"
proof (induction s rule: explode.induct)
  case (1 s)
  then show ?case by (subst explode.simps) (cases "s = []"; simp)
qed

definition ascii_letter :: "char \<Rightarrow> bool" where
  "ascii_letter c \<longleftrightarrow> (65 \<le> byte c \<and> byte c \<le> 90) \<or> (97 \<le> byte c \<and> byte c \<le> 122)"

definition ascii_digit :: "char \<Rightarrow> bool" where
  "ascii_digit c \<longleftrightarrow> 48 \<le> byte c \<and> byte c \<le> 57"

fun ascii_in :: "(char \<Rightarrow> bool) \<Rightarrow> string \<Rightarrow> bool" where
  "ascii_in p [c] \<longleftrightarrow> byte c < 128 \<and> p c"
| "ascii_in p _ \<longleftrightarrow> False"

definition is_word :: "text_env \<Rightarrow> string \<Rightarrow> bool" where
  "is_word T u \<longleftrightarrow> ascii_in (\<lambda>c. ascii_letter c \<or> ascii_digit c \<or> c = CHR ''_'') u \<or> 1 < length u \<and> uni_word T u"

definition is_blank :: "text_env \<Rightarrow> string \<Rightarrow> bool" where
  "is_blank T u \<longleftrightarrow> ascii_in is_space u \<or> 1 < length u \<and> uni_space T u"

text \<open>
  Matching without regard to case (\<open>re.I\<close>) folds ASCII letters and the four other characters
  that fold to one: dotted and dotless i, long s, the Kelvin sign.
\<close>

definition fold_char :: "string \<Rightarrow> string" where
  "fold_char u =
     (if u = [char_of (196 :: nat), char_of (176 :: nat)] \<or> u = [char_of (196 :: nat), char_of (177 :: nat)] then ''i''
      else if u = [char_of (197 :: nat), char_of (191 :: nat)] then ''s''
      else if u = [char_of (226 :: nat), char_of (132 :: nat), char_of (170 :: nat)] then ''k''
      else lower u)"

definition fold_case :: "string \<Rightarrow> string" where
  "fold_case s = concat (List.map fold_char (explode s))"

section \<open>Substitution\<close>

text \<open>
  A matcher sees the character before a position and the characters from there on, and says how
  long the match at that position is. \<open>re.sub\<close> takes the leftmost matches that do not overlap.
\<close>

type_synonym matcher = "string option \<Rightarrow> string list \<Rightarrow> nat option"

function re_pieces :: "matcher \<Rightarrow> string option \<Rightarrow> string list \<Rightarrow> (bool \<times> string list) list" where
  "re_pieces m prev [] = []"
| "re_pieces m prev (u # us) =
     (case m prev (u # us) of
        Some (Suc n) \<Rightarrow> (True, u # take n us) # re_pieces m (Some (last (u # take n us))) (drop n us)
      | _ \<Rightarrow> (False, [u]) # re_pieces m (Some u) us)"
  by pat_completeness auto
termination
  by (relation "measure (\<lambda>(m, prev, us). length us)") auto

definition re_sub :: "matcher \<Rightarrow> (string list \<Rightarrow> ('s, string) prog) \<Rightarrow> string \<Rightarrow> ('s, string) prog" where
  "re_sub m f s =
     bindE (mapE (re_pieces m None (explode s)) (\<lambda>(hit, us). if hit then f us else returnE (concat us)))
       (\<lambda>ps. returnE (concat ps))"

lemma re_pieces_concat: "concat (List.map snd (re_pieces m prev us)) = us"
  by (induction m prev us rule: re_pieces.induct) (auto split: option.splits nat.splits)

text \<open>How many characters from here on satisfy \<open>p\<close>; a literal, as written or in either case.\<close>

definition span :: "(string \<Rightarrow> bool) \<Rightarrow> string list \<Rightarrow> nat" where
  "span p us = length (takeWhile p us)"

definition lit :: "string \<Rightarrow> string list \<Rightarrow> bool" where
  "lit p us \<longleftrightarrow> take (length p) us = List.map (\<lambda>c. [c]) p"

definition lit_ci :: "string \<Rightarrow> string list \<Rightarrow> bool" where
  "lit_ci p us \<longleftrightarrow> List.map fold_char (take (length p) us) = List.map (\<lambda>c. [c]) p"

fun word_opt :: "text_env \<Rightarrow> string option \<Rightarrow> bool" where
  "word_opt T None \<longleftrightarrow> False"
| "word_opt T (Some u) \<longleftrightarrow> is_word T u"

definition boundary :: "text_env \<Rightarrow> string option \<Rightarrow> string list \<Rightarrow> bool" where
  "boundary T prev us \<longleftrightarrow> word_opt T prev \<noteq> (us \<noteq> [] \<and> is_word T (hd us))"

text \<open>\<open>[class]{lo,hi}\b\<close> after \<open>pre\<close> characters already matched: the longest run a boundary follows.\<close>

definition bounded_run ::
  "text_env \<Rightarrow> (string \<Rightarrow> bool) \<Rightarrow> nat \<Rightarrow> nat option \<Rightarrow> nat \<Rightarrow> string list \<Rightarrow> nat option" where
  "bounded_run T cls lo hi pre us =
     (let n = span cls (drop pre us);
          most = (case hi of None \<Rightarrow> n | Some h \<Rightarrow> min h n)
      in map_option (\<lambda>k. pre + k)
           (find (\<lambda>k. boundary T (Some (us ! (pre + k - 1))) (drop (pre + k) us)) (rev [lo ..< Suc most])))"

section \<open>urllib.parse\<close>

record url_parts =
  u_scheme :: string
  u_netloc :: string
  u_path :: string
  u_params :: string
  u_query :: string
  u_fragment :: string

definition cut_scheme :: "string \<Rightarrow> string \<times> string" where
  "cut_scheme url =
     (case cut_at (CHR '':'') url of
        None \<Rightarrow> ([], url)
      | Some (pre, post) \<Rightarrow>
          if pre \<noteq> [] \<and> ascii_letter (hd pre)
             \<and> list_all (\<lambda>c. ascii_letter c \<or> ascii_digit c \<or> c \<in> set ''+-.'') pre
          then (lower pre, post) else ([], url))"

definition cut_netloc :: "string \<Rightarrow> string \<times> string" where
  "cut_netloc url =
     (if startswith url ''//''
      then (takeWhile (\<lambda>c. c \<notin> set ''/?#'') (drop 2 url), dropWhile (\<lambda>c. c \<notin> set ''/?#'') (drop 2 url))
      else ([], url))"

definition cut_tail :: "char \<Rightarrow> string \<Rightarrow> string \<times> string" where
  "cut_tail d url = (case cut_at d url of None \<Rightarrow> (url, []) | Some (a, b) \<Rightarrow> (a, b))"

definition uses_params :: "string list" where
  "uses_params =
     [[], ''ftp'', ''hdl'', ''prospero'', ''http'', ''https'', ''shttp'', ''rtsp'', ''rtsps'', ''rtspu'', ''sip'', ''sips'',
      ''mms'', ''sftp'', ''tel'']"

text \<open>The parameters of the last path segment.\<close>

definition split_params :: "string \<Rightarrow> string \<times> string" where
  "split_params path =
     (let seg = rev (takeWhile (\<lambda>c. c \<noteq> CHR ''/'') (rev path)); before = take (length path - length seg) path
      in case cut_at (CHR '';'') seg of None \<Rightarrow> (path, []) | Some (a, b) \<Rightarrow> (before @ a, b))"

definition urlparse :: "text_env \<Rightarrow> string \<Rightarrow> exn + url_parts" where
  "urlparse T raw =
     (let url = filter (\<lambda>c. byte c \<notin> {9, 10, 13}) (dropWhile (\<lambda>c. byte c \<le> 32) raw);
          (scheme, rest) = cut_scheme url; (netloc, rest) = cut_netloc rest;
          opened = (CHR ''['' \<in> set netloc); closed = (CHR '']'' \<in> set netloc);
          (rest, fragment) = cut_tail (CHR ''#'') rest; (path, query) = cut_tail (CHR ''?'') rest;
          (path, params) = (if scheme \<in> set uses_params then split_params path else (path, []))
      in if opened \<noteq> closed then Inl (ValueError ''Invalid IPv6 URL'')
         else if netloc \<noteq> [] \<and> \<not> netloc_ok T netloc then Inl (ValueError ''invalid netloc'')
         else Inr \<lparr>u_scheme = scheme, u_netloc = netloc, u_path = path, u_params = params,
                    u_query = query, u_fragment = fragment\<rparr>)"

text \<open>The properties \<open>hostname\<close> and \<open>port\<close>.\<close>

definition hostinfo :: "string \<Rightarrow> string \<times> string" where
  "hostinfo netloc =
     (let h = rev (takeWhile (\<lambda>c. c \<noteq> CHR ''@'') (rev netloc)) in
      case cut_at (CHR ''['') h of
        Some (a, bracketed) \<Rightarrow>
          (let (host, rest) = cut_tail (CHR '']'') bracketed in (host, snd (cut_tail (CHR '':'') rest)))
      | None \<Rightarrow> cut_tail (CHR '':'') h)"

definition url_hostname :: "url_parts \<Rightarrow> string option" where
  "url_hostname u =
     (let host = fst (hostinfo (u_netloc u)) in
      if host = [] then None
      else Some (case cut_at (CHR ''%'') host of None \<Rightarrow> lower host | Some (a, z) \<Rightarrow> lower a @ ''%'' @ z))"

definition url_port :: "url_parts \<Rightarrow> exn + int option" where
  "url_port u =
     (let port = snd (hostinfo (u_netloc u)) in
      if port = [] then Inr None
      else if \<not> list_all ascii_digit port then Inl (ValueError ''Port could not be cast to integer value'')
      else case parse_int port of
             None \<Rightarrow> Inl (ValueError ''Port could not be cast to integer value'')
           | Some n \<Rightarrow> if n \<le> 65535 then Inr (Some n) else Inl (ValueError ''Port out of range 0-65535''))"

text \<open>Percent encoding. Bytes that are no UTF-8 are decoded to replacement characters.\<close>

definition hex_value :: "char \<Rightarrow> nat option" where
  "hex_value c =
     (let n = byte c in
      if 48 \<le> n \<and> n \<le> 57 then Some (n - 48) else if 97 \<le> n \<and> n \<le> 102 then Some (n - 87)
      else if 65 \<le> n \<and> n \<le> 70 then Some (n - 55) else None)"

fun unquote_to_bytes :: "string \<Rightarrow> string" where
  "unquote_to_bytes (c # a # b # s) =
     (case (c = CHR ''%'', hex_value a, hex_value b) of
        (True, Some x, Some y) \<Rightarrow> char_of (16 * x + y) # unquote_to_bytes s
      | _ \<Rightarrow> c # unquote_to_bytes (a # b # s))"
| "unquote_to_bytes s = s"

text \<open>The length of the ill-formed sequence one replacement character stands for.\<close>

definition ill_formed :: "string \<Rightarrow> nat" where
  "ill_formed s =
     (let a = byte (s ! 0); b = byte (s ! 1); c = byte (s ! 2) in
      if 2 \<le> length s \<and> wf3 a b 128 then 2
      else if 3 \<le> length s \<and> wf4 a b c 128 then 3
      else if 2 \<le> length s \<and> wf4 a b 128 128 then 2 else 1)"

lemma ill_formed_pos: "0 < ill_formed s"
  by (simp add: ill_formed_def Let_def)

function decode_replace :: "string \<Rightarrow> string" where
  "decode_replace s =
     (if s = [] then []
      else if 0 < utf8_width s then take (utf8_width s) s @ decode_replace (drop (utf8_width s) s)
      else [char_of (239 :: nat), char_of (191 :: nat), char_of (189 :: nat)] @ decode_replace (drop (ill_formed s) s))"
  by pat_completeness auto
termination
  by (relation "measure length") (auto simp: ill_formed_pos)

declare decode_replace.simps [simp del]

text \<open>\<open>unquote\<close> decodes each run of ASCII characters by itself.\<close>

function unquote :: "string \<Rightarrow> string" where
  "unquote s =
     (if s = [] then []
      else let run = takeWhile (\<lambda>c. byte c < 128) s; rest = dropWhile (\<lambda>c. byte c < 128) s;
               kept = takeWhile (\<lambda>c. \<not> byte c < 128) rest
           in decode_replace (unquote_to_bytes run) @ kept @ unquote (dropWhile (\<lambda>c. \<not> byte c < 128) rest))"
  by pat_completeness auto
termination
proof (relation "measure length", simp, goal_cases)
  case (1 s run rest kept)
  have "length (dropWhile (\<lambda>c. \<not> byte c < 128) (dropWhile (\<lambda>c. byte c < 128) s)) < length s"
  proof (cases "byte (hd s) < 128")
    case True
    then have "length (dropWhile (\<lambda>c. byte c < 128) s) < length s"
      using 1(1) by (cases s) (auto intro: le_imp_less_Suc length_dropWhile_le)
    then show ?thesis by (meson length_dropWhile_le le_less_trans)
  next
    case False
    then show ?thesis using 1(1) by (cases s) (auto intro: le_imp_less_Suc length_dropWhile_le)
  qed
  then show ?case using 1 by simp
qed

declare unquote.simps [simp del]

definition plus_space :: "string \<Rightarrow> string" where
  "plus_space = replace_char (CHR ''+'') (CHR '' '')"

text \<open>\<open>parse_qsl(query, keep_blank_values=True)\<close>.\<close>

definition parse_qsl :: "string \<Rightarrow> (string \<times> string) list" where
  "parse_qsl query =
     List.map (\<lambda>p. let (k, v) = cut_tail (CHR ''='') p in (unquote (plus_space k), unquote (plus_space v)))
       (filter (\<lambda>p. p \<noteq> []) (split_char (CHR ''&'') query))"

definition quote_byte :: "char \<Rightarrow> string" where
  "quote_byte c =
     (if ascii_letter c \<or> ascii_digit c \<or> c \<in> set ''_.-~'' then [c]
      else if c = CHR '' '' then ''+''
      else [CHR ''%'', upper_char (hex_digit (byte c div 16)), upper_char (hex_digit (byte c mod 16))])"

definition quote_plus :: "string \<Rightarrow> string" where
  "quote_plus s = concat (List.map quote_byte s)"

definition urlencode :: "(string \<times> string) list \<Rightarrow> string" where
  "urlencode kvs = joined ''&'' (List.map (\<lambda>(k, v). quote_plus k @ ''='' @ quote_plus v) kvs)"

definition uses_netloc :: "string list" where
  "uses_netloc =
     [[], ''ftp'', ''http'', ''gopher'', ''nntp'', ''telnet'', ''imap'', ''wais'', ''file'', ''mms'', ''https'', ''shttp'',
      ''snews'', ''prospero'', ''rtsp'', ''rtsps'', ''rtspu'', ''rsync'', ''svn'', ''svn+ssh'', ''sftp'', ''nfs'', ''git'',
      ''git+ssh'', ''ws'', ''wss'', ''itms-services'']"

definition urlunparse :: "url_parts \<Rightarrow> string" where
  "urlunparse u =
     (let path = (if u_params u = [] then u_path u else u_path u @ '';'' @ u_params u);
          slashed = (if path \<noteq> [] \<and> \<not> startswith path ''/'' then ''/'' @ path else path);
          located = (if u_netloc u \<noteq> [] then ''//'' @ u_netloc u @ slashed
                     else if startswith path ''//'' then ''//'' @ path
                     else if u_scheme u \<noteq> [] \<and> u_scheme u \<in> set uses_netloc \<and> (path = [] \<or> startswith path ''/'')
                     then ''//'' @ path else path);
          full = (if u_scheme u \<noteq> [] then u_scheme u @ '':'' @ located else located);
          queried = (if u_query u \<noteq> [] then full @ ''?'' @ u_query u else full)
      in if u_fragment u \<noteq> [] then queried @ ''#'' @ u_fragment u else queried)"

end
