(* ===== verification/Ip_Address.thy ===== *)
theory Ip_Address
  imports Text_Tools "HOL-Library.Word"
begin

text \<open>
  What the code uses of Python's \<open>ipaddress\<close> (3.12): addresses of both versions read from texts,
  printed, and classified by the special purpose registries; networks and membership in them.
  An address is a word of 32 or 128 bits.
\<close>

unbundle bit_operations_syntax

section \<open>Networks\<close>

text \<open>The netmask of a prefix length, and membership: the bits under the mask agree.\<close>

definition netmask :: "nat \<Rightarrow> 'a::len word" where
  "netmask n = NOT (mask (LENGTH('a) - n))"

definition in_prefix :: "'a::len word \<Rightarrow> 'a word \<times> nat \<Rightarrow> bool" where
  "in_prefix a net \<longleftrightarrow> a AND netmask (snd net) = fst net AND netmask (snd net)"

datatype ip = V4 "32 word" | V6 "128 word" "string option"

datatype ip_network = Net4 "32 word \<times> nat" | Net6 "128 word \<times> nat"

fun in_network :: "ip \<Rightarrow> ip_network \<Rightarrow> bool" where
  "in_network (V4 a) (Net4 n) \<longleftrightarrow> in_prefix a n"
| "in_network (V6 a _) (Net6 n) \<longleftrightarrow> in_prefix a n"
| "in_network _ _ \<longleftrightarrow> False"

section \<open>Classification\<close>

definition ip4 :: "nat \<Rightarrow> nat \<Rightarrow> nat \<Rightarrow> nat \<Rightarrow> 32 word" where
  "ip4 a b c d = of_nat (((a * 256 + b) * 256 + c) * 256 + d)"

text \<open>An IPv6 address by its first four groups and its last one.\<close>

definition ip6 :: "nat \<Rightarrow> nat \<Rightarrow> nat \<Rightarrow> nat \<Rightarrow> nat \<Rightarrow> 128 word" where
  "ip6 a b c d z = push_bit 64 (of_nat (((a * 65536 + b) * 65536 + c) * 65536 + d)) OR of_nat z"

definition PRIVATE4 :: "(32 word \<times> nat) list" where
  "PRIVATE4 =
     [(ip4 0 0 0 0, 8), (ip4 10 0 0 0, 8), (ip4 127 0 0 0, 8), (ip4 169 254 0 0, 16), (ip4 172 16 0 0, 12),
      (ip4 192 0 0 0, 24), (ip4 192 0 0 170, 31), (ip4 192 0 2 0, 24), (ip4 192 168 0 0, 16), (ip4 198 18 0 0, 15),
      (ip4 198 51 100 0, 24), (ip4 203 0 113 0, 24), (ip4 240 0 0 0, 4), (ip4 255 255 255 255, 32)]"

definition PUBLIC4 :: "(32 word \<times> nat) list" where
  "PUBLIC4 = [(ip4 192 0 0 9, 32), (ip4 192 0 0 10, 32)]"

definition PRIVATE6 :: "(128 word \<times> nat) list" where
  "PRIVATE6 =
     [(ip6 0 0 0 0 1, 128), (ip6 0 0 0 0 0, 128), (push_bit 32 0xFFFF, 96), (ip6 0x64 0xFF9B 1 0 0, 48),
      (ip6 0x100 0 0 0 0, 64), (ip6 0x2001 0 0 0 0, 23), (ip6 0x2001 0xDB8 0 0 0, 32), (ip6 0x2002 0 0 0 0, 16),
      (ip6 0xFC00 0 0 0 0, 7), (ip6 0xFE80 0 0 0 0, 10)]"

definition PUBLIC6 :: "(128 word \<times> nat) list" where
  "PUBLIC6 =
     [(ip6 0x2001 1 0 0 1, 128), (ip6 0x2001 1 0 0 2, 128), (ip6 0x2001 3 0 0 0, 32), (ip6 0x2001 4 0x112 0 0, 48),
      (ip6 0x2001 0x20 0 0 0, 28), (ip6 0x2001 0x30 0 0 0, 28)]"

definition RESERVED6 :: "(128 word \<times> nat) list" where
  "RESERVED6 =
     [(ip6 0 0 0 0 0, 8), (ip6 0x100 0 0 0 0, 8), (ip6 0x200 0 0 0 0, 7), (ip6 0x400 0 0 0 0, 6), (ip6 0x800 0 0 0 0, 5),
      (ip6 0x1000 0 0 0 0, 4), (ip6 0x4000 0 0 0 0, 3), (ip6 0x6000 0 0 0 0, 3), (ip6 0x8000 0 0 0 0, 3),
      (ip6 0xA000 0 0 0 0, 3), (ip6 0xC000 0 0 0 0, 3), (ip6 0xE000 0 0 0 0, 4), (ip6 0xF000 0 0 0 0, 5),
      (ip6 0xF800 0 0 0 0, 6), (ip6 0xFE00 0 0 0 0, 9)]"

definition in_some :: "'a::len word \<Rightarrow> ('a word \<times> nat) list \<Rightarrow> bool" where
  "in_some a ns \<longleftrightarrow> list_ex (in_prefix a) ns"

definition private4 :: "32 word \<Rightarrow> bool" where
  "private4 a \<longleftrightarrow> in_some a PRIVATE4 \<and> \<not> in_some a PUBLIC4"

definition ipv4_mapped :: "128 word \<Rightarrow> 32 word option" where
  "ipv4_mapped a = (if drop_bit 32 a = 0xFFFF then Some (ucast a) else None)"

fun is_private :: "ip \<Rightarrow> bool" where
  "is_private (V4 a) \<longleftrightarrow> private4 a"
| "is_private (V6 a _) \<longleftrightarrow>
     (case ipv4_mapped a of Some b \<Rightarrow> private4 b | None \<Rightarrow> in_some a PRIVATE6 \<and> \<not> in_some a PUBLIC6)"

fun is_loopback :: "ip \<Rightarrow> bool" where
  "is_loopback (V4 a) \<longleftrightarrow> in_prefix a (ip4 127 0 0 0, 8)"
| "is_loopback (V6 a _) \<longleftrightarrow> a = 1"

fun is_link_local :: "ip \<Rightarrow> bool" where
  "is_link_local (V4 a) \<longleftrightarrow> in_prefix a (ip4 169 254 0 0, 16)"
| "is_link_local (V6 a _) \<longleftrightarrow> in_prefix a (ip6 0xFE80 0 0 0 0, 10)"

fun is_multicast :: "ip \<Rightarrow> bool" where
  "is_multicast (V4 a) \<longleftrightarrow> in_prefix a (ip4 224 0 0 0, 4)"
| "is_multicast (V6 a _) \<longleftrightarrow> in_prefix a (ip6 0xFF00 0 0 0 0, 8)"

fun is_reserved :: "ip \<Rightarrow> bool" where
  "is_reserved (V4 a) \<longleftrightarrow> in_prefix a (ip4 240 0 0 0, 4)"
| "is_reserved (V6 a _) \<longleftrightarrow> in_some a RESERVED6"

fun is_unspecified :: "ip \<Rightarrow> bool" where
  "is_unspecified (V4 a) \<longleftrightarrow> a = 0"
| "is_unspecified (V6 a _) \<longleftrightarrow> a = 0"

section \<open>Reading\<close>

definition octet :: "string \<Rightarrow> nat option" where
  "octet s =
     (if s = [] \<or> \<not> list_all is_digit s \<or> 3 < length s \<or> (s \<noteq> ''0'' \<and> hd s = CHR ''0'') then None
      else case digits_value s 0 of Some n \<Rightarrow> if n \<le> 255 then Some n else None | None \<Rightarrow> None)"

fun all_some :: "'a option list \<Rightarrow> 'a list option" where
  "all_some [] = Some []"
| "all_some (None # xs) = None"
| "all_some (Some x # xs) = map_option (Cons x) (all_some xs)"

definition parse_ip4 :: "string \<Rightarrow> 32 word option" where
  "parse_ip4 s =
     (case all_some (List.map octet (split_char (CHR ''.'') s)) of
        Some [a, b, c, d] \<Rightarrow> Some (ip4 a b c d)
      | _ \<Rightarrow> None)"

definition hextet :: "string \<Rightarrow> nat option" where
  "hextet s =
     (if s = [] \<or> 4 < length s then None
      else map_option (foldl (\<lambda>n h. 16 * n + h) 0) (all_some (List.map hex_value s)))"

definition hex_text :: "nat \<Rightarrow> string" where
  "hex_text n =
     (let s = dropWhile (\<lambda>c. c = CHR ''0'')
        (List.map hex_digit [n div 4096 mod 16, n div 256 mod 16, n div 16 mod 16, n mod 16])
      in if s = [] then ''0'' else s)"

text \<open>An IPv4 address at the end stands for two groups.\<close>

definition ip6_parts :: "string \<Rightarrow> string list option" where
  "ip6_parts s =
     (let parts = split_char (CHR '':'') s in
      if length parts < 3 then None
      else if CHR ''.'' \<in> set (last parts)
      then map_option (\<lambda>v. butlast parts @ [hex_text (unat v div 65536), hex_text (unat v mod 65536)]) (parse_ip4 (last parts))
      else Some parts)"

definition groups_value :: "string list \<Rightarrow> 128 word option" where
  "groups_value gs =
     map_option (foldl (\<lambda>w g. push_bit 16 w OR of_nat g) 0) (all_some (List.map hextet gs))"

text \<open>Where a run of zeros is left out: an empty part that is not at an end.\<close>

definition ip6_of_parts :: "string list \<Rightarrow> 128 word option" where
  "ip6_of_parts parts =
     (if 9 < length parts then None
      else case filter (\<lambda>i. parts ! i = []) [1 ..< length parts - 1] of
        [] \<Rightarrow> if length parts = 8 \<and> hd parts \<noteq> [] \<and> last parts \<noteq> [] then groups_value parts else None
      | [skip] \<Rightarrow>
          (let hi = take skip parts; lo = drop (Suc skip) parts;
               hi' = (if hd parts = [] then tl hi else hi); lo' = (if last parts = [] then butlast lo else lo)
           in if hd parts = [] \<and> hi' \<noteq> [] \<or> last parts = [] \<and> lo' \<noteq> [] \<or> 7 < length hi' + length lo' then None
              else groups_value (hi' @ replicate (8 - (length hi' + length lo')) ''0'' @ lo'))
      | _ \<Rightarrow> None)"

definition parse_ip6_int :: "string \<Rightarrow> 128 word option" where
  "parse_ip6_int s = Option.bind (ip6_parts s) ip6_of_parts"

definition parse_ip6 :: "string \<Rightarrow> ip option" where
  "parse_ip6 s =
     (case cut_at (CHR ''%'') s of
        None \<Rightarrow> map_option (\<lambda>a. V6 a None) (parse_ip6_int s)
      | Some (addr, scope) \<Rightarrow>
          if scope = [] \<or> CHR ''%'' \<in> set scope then None else map_option (\<lambda>a. V6 a (Some scope)) (parse_ip6_int addr))"

definition ip_address :: "string \<Rightarrow> ip option" where
  "ip_address s =
     (if CHR ''/'' \<in> set s then None
      else case parse_ip4 s of Some a \<Rightarrow> Some (V4 a) | None \<Rightarrow> parse_ip6 s)"

definition prefix_text :: "nat \<Rightarrow> string \<Rightarrow> nat option" where
  "prefix_text most s =
     (if s = [] \<or> \<not> list_all is_digit s then None
      else case digits_value s 0 of Some n \<Rightarrow> if n \<le> most then Some n else None | None \<Rightarrow> None)"

definition mask_prefix :: "32 word \<Rightarrow> nat option" where
  "mask_prefix m = find (\<lambda>n. netmask n = m) [0 ..< 33]"

definition prefix4 :: "string \<Rightarrow> nat option" where
  "prefix4 s =
     (case prefix_text 32 s of
        Some n \<Rightarrow> Some n
      | None \<Rightarrow>
          Option.bind (parse_ip4 s) (\<lambda>m. case mask_prefix m of Some n \<Rightarrow> Some n | None \<Rightarrow> mask_prefix (NOT m)))"

text \<open>\<open>ip_network(s, strict=False)\<close>: host bits are cut off, which membership does not see.\<close>

definition ip_network :: "string \<Rightarrow> ip_network option" where
  "ip_network s =
     (let parts = split_char (CHR ''/'') s; addr = hd parts;
          net4 = (if 2 < length parts then None
                  else case (parse_ip4 addr, if length parts = 2 then prefix4 (parts ! 1) else Some 32) of
                    (Some a, Some n) \<Rightarrow> Some (Net4 (a, n)) | _ \<Rightarrow> None);
          net6 = (if 2 < length parts then None
                  else case (parse_ip6 addr, if length parts = 2 then prefix_text 128 (parts ! 1) else Some 128) of
                    (Some (V6 a _), Some n) \<Rightarrow> Some (Net6 (a, n)) | _ \<Rightarrow> None)
      in case net4 of Some n \<Rightarrow> Some n | None \<Rightarrow> net6)"

section \<open>Printing\<close>

definition octets :: "32 word \<Rightarrow> nat list" where
  "octets a = [unat a div 16777216, unat a div 65536 mod 256, unat a div 256 mod 256, unat a mod 256]"

definition hextets :: "128 word \<Rightarrow> nat list" where
  "hextets a = List.map (\<lambda>k. unat (drop_bit (16 * k) a AND 0xFFFF)) (rev [0 ..< 8])"

text \<open>The first of the longest runs of zero groups, when longer than one, is left out.\<close>

definition zero_run :: "string list \<Rightarrow> nat \<Rightarrow> nat" where
  "zero_run hs i = length (takeWhile (\<lambda>h. h = ''0'') (drop i hs))"

definition compress_hextets :: "string list \<Rightarrow> string list" where
  "compress_hextets hs =
     (let best = Max (set (List.map (zero_run hs) [0 ..< length hs])) in
      case find (\<lambda>i. zero_run hs i = best) [0 ..< length hs] of
        Some i \<Rightarrow> if best \<le> 1 then hs
                  else (if i = 0 then [[]] else []) @ take i hs @ [[]] @ drop (i + best) hs
                       @ (if i + best = length hs then [[]] else [])
      | None \<Rightarrow> hs)"

fun ip_string :: "ip \<Rightarrow> string" where
  "ip_string (V4 a) = joined ''.'' (List.map show_digits (octets a))"
| "ip_string (V6 a scope) =
     joined '':'' (compress_hextets (List.map hex_text (hextets a)))
     @ (case scope of None \<Rightarrow> [] | Some z \<Rightarrow> ''%'' @ z)"

end
