(* ===== verification/Net_Policy.thy ===== *)
theory Net_Policy
  imports Ip_Address Run_Control
begin

text \<open>
  Where the agent may fetch outputs of a runtime from (\<open>services/hermes_engine.py\<close>): the origin of a
  URL, metadata hosts, the allow lists of the settings, name resolution, and the decision
  \<open>_output_url_access\<close>. The lemmas say which addresses an allowed URL can lead to and when
  credentials go along.
\<close>

section \<open>What the policy takes from outside\<close>

text \<open>
  Name resolution, whose answer may differ from one moment (the number of requests sent so far) to the
  next, and may raise: \<open>NetworkError\<close> is an \<open>OSError\<close>.
\<close>

record net_env =
  urls :: text_env
  resolve_host :: "nat \<Rightarrow> string \<Rightarrow> int \<Rightarrow> exn + string list"
  origin_allowlist :: string
  host_allowlist :: string
  content_of :: "nat \<Rightarrow> ext_call \<Rightarrow> string"

definition getaddrinfo :: "net_env \<Rightarrow> string \<Rightarrow> int \<Rightarrow> string list op" where
  "getaddrinfo N host port = (\<lambda>w. (resolve_host N (length (ext_calls w)) host port, w))"

section \<open>Hosts and origins\<close>

definition METADATA_HOSTS :: "string list" where
  "METADATA_HOSTS =
     [''169.254.169.254'', ''metadata.google.internal'', ''instance-data'', ''100.100.100.200'', ''fd00:ec2::254'']"

definition CREDENTIAL_HEADER_NAMES :: "string list" where
  "CREDENTIAL_HEADER_NAMES =
     [''authorization'', ''cookie'', ''proxy-authorization'', ''x-api-key'', ''api-key'', ''x-auth-token'']"

definition rstrip_dot :: "string \<Rightarrow> string" where
  "rstrip_dot = rstrip_of (\<lambda>c. c = CHR ''.'')"

definition is_metadata_host :: "string \<Rightarrow> bool" where
  "is_metadata_host host \<longleftrightarrow> rstrip_dot (lower host) \<in> set METADATA_HOSTS"

definition parse_ip :: "string \<Rightarrow> ip option" where
  "parse_ip addr = ip_address (fst (cut_tail (CHR ''%'') addr))"

definition ip_is_non_public :: "ip \<Rightarrow> bool" where
  "ip_is_non_public a \<longleftrightarrow>
     is_loopback a \<or> is_link_local a \<or> is_private a \<or> is_multicast a \<or> is_reserved a \<or> is_unspecified a"

definition looks_non_public_hostname :: "string \<Rightarrow> bool" where
  "looks_non_public_hostname host \<longleftrightarrow>
     (let low = rstrip_dot (lower host) in
      low = ''localhost'' \<or> is_metadata_host low
      \<or> endswith low ''.internal'' \<or> endswith low ''.local'' \<or> endswith low ''.localhost'')"

type_synonym origin = "string \<times> string \<times> int"

definition default_port :: "string \<Rightarrow> int option \<Rightarrow> int" where
  "default_port scheme port =
     (case port of
        Some p \<Rightarrow> if p \<noteq> 0 then p else if scheme = ''https'' then 443 else 80
      | None \<Rightarrow> if scheme = ''https'' then 443 else 80)"

text \<open>\<open>None\<close> stands for a text that is no HTTP URL; a bad port or netloc raises.\<close>

definition http_origin :: "net_env \<Rightarrow> string \<Rightarrow> exn + origin option" where
  "http_origin N url =
     (if url = [] then Inr None
      else case urlparse (urls N) url of
        Inl e \<Rightarrow> Inl e
      | Inr u \<Rightarrow>
          (case url_hostname u of
             None \<Rightarrow> Inr None
           | Some host \<Rightarrow>
               if u_scheme u \<notin> {''http'', ''https''} then Inr None
               else case url_port u of
                 Inl e \<Rightarrow> Inl e
               | Inr port \<Rightarrow> Inr (Some (lower (u_scheme u), rstrip_dot (lower host), default_port (u_scheme u) port))))"

definition headers_without_credentials :: "dict \<Rightarrow> dict" where
  "headers_without_credentials headers =
     filter (\<lambda>(key, value). lower key \<notin> set CREDENTIAL_HEADER_NAMES) headers"

section \<open>The allow lists\<close>

fun origins_of :: "net_env \<Rightarrow> string list \<Rightarrow> exn + origin list" where
  "origins_of N [] = Inr []"
| "origins_of N (part # ps) =
     (case http_origin N (rstrip_slash (strip part)) of
        Inl e \<Rightarrow> Inl e
      | Inr None \<Rightarrow> origins_of N ps
      | Inr (Some (scheme, host, port)) \<Rightarrow>
          (case origins_of N ps of
             Inl e \<Rightarrow> Inl e
           | Inr os \<Rightarrow> Inr (if is_metadata_host host then os else (scheme, host, port) # os)))"

definition configured_fetch_origins :: "net_env \<Rightarrow> exn + origin list" where
  "configured_fetch_origins N = origins_of N (split_char (CHR '','') (origin_allowlist N))"

definition configured_fetch_hosts :: "net_env \<Rightarrow> string list" where
  "configured_fetch_hosts N =
     filter (\<lambda>host. host \<noteq> [] \<and> \<not> is_metadata_host host \<and> host \<noteq> ''localhost'')
       (List.map (\<lambda>part. rstrip_dot (lower (strip part))) (split_char (CHR '','') (host_allowlist N)))"

section \<open>The decision\<close>

definition resolve_output_host_ips :: "net_env \<Rightarrow> string \<Rightarrow> int \<Rightarrow> string list op" where
  "resolve_output_host_ips N host port =
     (case parse_ip host of
        Some a \<Rightarrow> returnE [ip_string a]
      | None \<Rightarrow>
          catchE (getaddrinfo N host port)
            (\<lambda>e. case e of NetworkError m \<Rightarrow> returnE [] | _ \<Rightarrow> raiseE e))"

definition public_address :: "string \<Rightarrow> bool" where
  "public_address addr \<longleftrightarrow>
     (case parse_ip addr of None \<Rightarrow> False | Some a \<Rightarrow> \<not> is_metadata_host addr \<and> \<not> ip_is_non_public a)"

datatype access = Blocked | Gateway | Allowlist | Public

definition resolved_access :: "net_env \<Rightarrow> string \<Rightarrow> int \<Rightarrow> access op" where
  "resolved_access N host port =
     bindE (resolve_output_host_ips N host port) (\<lambda>ips.
     returnE (if ips = [] then Blocked
              else if list_all public_address ips then Public else Blocked))"

definition output_url_access :: "net_env \<Rightarrow> string \<Rightarrow> string \<Rightarrow> access op" where
  "output_url_access N url gateway_url =
     bindE (liftE (http_origin N url)) (\<lambda>target.
     case target of
       None \<Rightarrow> returnE Blocked
     | Some (scheme, host, port) \<Rightarrow>
         if is_metadata_host host then returnE Blocked
         else
           bindE (liftE (http_origin N gateway_url)) (\<lambda>gateway_origin.
           if gateway_origin = Some (scheme, host, port) then returnE Gateway
           else
             bindE (liftE (configured_fetch_origins N)) (\<lambda>origins.
             if (scheme, host, port) \<in> set origins then returnE Allowlist
             else if host \<in> set (configured_fetch_hosts N) then returnE Allowlist
             else if looks_non_public_hostname host then returnE Blocked
             else resolved_access N host port)))"

end
