(* ===== verification/Runtime_Outputs.thy ===== *)
theory Runtime_Outputs
  imports Net_Policy Run_Artifacts
begin

text \<open>
  The outputs a runtime declares when it has completed (\<open>services/hermes_engine.py\<close>): collecting the
  references from the status answer, fetching those the policy allows, storing them as artifacts, and
  the events this makes of the terminal event. The lemmas: what is sent, and with which headers.
\<close>

section \<open>Reading the status answer\<close>

definition replace_backslash :: "string \<Rightarrow> string" where
  "replace_backslash = replace_char backslash (CHR ''/'')"

text \<open>\<open>s.rsplit("/", 1)[-1]\<close>.\<close>

definition last_segment :: "string \<Rightarrow> string" where
  "last_segment s = rev (takeWhile (\<lambda>c. c \<noteq> CHR ''/'') (rev s))"

fun first_output :: "dict \<Rightarrow> string list \<Rightarrow> string" where
  "first_output d [] = []"
| "first_output d (k # ks) =
     (if is_str (dget d k) \<and> strip (str_val (dget d k)) \<noteq> [] then strip (str_val (dget d k))
      else first_output d ks)"

lemma map_of_size: "map_of d k = Some v \<Longrightarrow> size v < size (JObj d)"
  by (induction d) (auto split: if_splits)

lemma dget_dict_size: "dget d k = JObj d' \<Longrightarrow> size (JObj d') < size (JObj d)"
  using map_of_size [of d k "JObj d'"] by (simp add: dget_def split: option.splits)

function status_output_text :: "dict \<Rightarrow> string" where
  "status_output_text data =
     (let value = first_output data [''output'', ''final_response''] in
      if value \<noteq> [] then value
      else case dget data ''data'' of JObj nested \<Rightarrow> status_output_text nested | _ \<Rightarrow> [])"
  by pat_completeness auto
termination
  by (relation "measure (\<lambda>d. size (JObj d))") (auto dest: dget_dict_size)

declare status_output_text.simps [simp del]

definition safe_output_name :: "json \<Rightarrow> string" where
  "safe_output_name raw =
     (let name = strip (last_segment (strip (replace_backslash (py_str (or_else raw (JStr []))))))
      in if name = [] then ''output.bin'' else name)"

definition is_http_url :: "json \<Rightarrow> bool" where
  "is_http_url v \<longleftrightarrow> is_str v \<and> (startswith (str_val v) ''http://'' \<or> startswith (str_val v) ''https://'')"

definition http_output_url :: "dict \<Rightarrow> string option" where
  "http_output_url ref =
     map_option (\<lambda>key. str_val (dget ref key)) (find (\<lambda>key. is_http_url (dget ref key)) [''url'', ''uri'', ''href''])"

definition dicts_of :: "json list \<Rightarrow> dict list" where
  "dicts_of xs = List.map dict_of (filter is_dict xs)"

definition refs_under :: "json \<Rightarrow> dict list" where
  "refs_under value =
     (case value of
        JObj d \<Rightarrow>
          (case dget d ''items'' of
             JList items \<Rightarrow> dicts_of items
           | _ \<Rightarrow> if http_output_url d \<noteq> None then [d] else [])
      | JList xs \<Rightarrow> dicts_of xs
      | _ \<Rightarrow> [])"

function collect_output_refs :: "dict \<Rightarrow> dict list" where
  "collect_output_refs data =
     refs_under (dget data ''output_refs'') @ refs_under (dget data ''output_manifest'')
     @ filter (\<lambda>d. http_output_url d \<noteq> None) (dicts_of (list_of (dget data ''artifacts'')))
     @ (case dget data ''data'' of JObj nested \<Rightarrow> collect_output_refs nested | _ \<Rightarrow> [])"
  by pat_completeness auto
termination
  by (relation "measure (\<lambda>d. size (JObj d))") (auto dest: dget_dict_size)

declare collect_output_refs.simps [simp del]

section \<open>Fetching and storing\<close>

text \<open>An event as the engine yields it.\<close>

record yield_event =
  ye_type :: string
  ye_payload :: dict
  ye_source :: "string option"
  ye_source_event_id :: "string option"

definition plain_event :: "string \<Rightarrow> dict \<Rightarrow> yield_event" where
  "plain_event ty payload = \<lparr>ye_type = ty, ye_payload = payload, ye_source = None, ye_source_event_id = None\<rparr>"

definition failed :: "string \<Rightarrow> string \<Rightarrow> yield_event" where
  "failed code message = plain_event ''run.failed'' [(''error'', JStr message), (''error_code'', JStr code)]"

definition public_artifact_persisted_event :: "descriptor \<Rightarrow> yield_event" where
  "public_artifact_persisted_event d =
     \<lparr>ye_type = ''artifact.persisted'', ye_payload = artifact_persisted_payload d, ye_source = Some ''agent'',
      ye_source_event_id = Some (artifact_persisted_source_event_id (de_artifact_id d))\<rparr>"

record output_call =
  oc_headers :: dict
  oc_org_id :: "string option"
  oc_run_id :: "string option"
  oc_attempt_id :: "string option"
  oc_gateway_url :: string

text \<open>\<open>client.get\<close>, \<open>raise_for_status\<close> (which lets only 2xx pass) and \<open>content\<close>.\<close>

definition fetch_content :: "env \<Rightarrow> net_env \<Rightarrow> string \<Rightarrow> dict \<Rightarrow> string op" where
  "fetch_content E N url headers =
     bindE (getsE (\<lambda>w. length (ext_calls w))) (\<lambda>k.
     bindE (http_op E ''GET'' url headers JNull) (\<lambda>resp.
     case resp of
       Unreachable \<Rightarrow> raiseE (NetworkError ''network error'')
     | HttpFault m \<Rightarrow> raiseE (OtherError m)
     | Response code body \<Rightarrow>
         if 200 \<le> code \<and> code \<le> 299 then returnE (content_of N k (HttpRequest ''GET'' url headers JNull))
         else raiseE (HttpStatusError code)))"

definition output_input :: "output_call \<Rightarrow> string \<Rightarrow> string \<Rightarrow> string \<Rightarrow> string \<Rightarrow> artifact_input" where
  "output_input oc run_id name content content_type =
     \<lparr>ai_name = name, ai_content = content, ai_content_type = Some content_type, ai_org_id = oc_org_id oc,
      ai_attempt_id = oc_attempt_id oc, ai_generation = None, ai_step_id = None, ai_upload_mode = Some ''eager'',
      ai_idempotency_key = Some (run_id @ '':'' @ name)\<rparr>"

definition ref_name :: "dict \<Rightarrow> string" where
  "ref_name ref =
     safe_output_name (or_else (dget ref ''name'') (or_else (dget ref ''filename'') (dget ref ''file_name'')))"

definition ref_content_type :: "dict \<Rightarrow> string" where
  "ref_content_type ref =
     (if is_str (dget ref ''content_type'') then str_val (dget ref ''content_type'') else ''application/octet-stream'')"

text \<open>One reference: the artifact stored for it, \<open>None\<close> when it is skipped or fails.\<close>

definition persist_output_ref :: "env \<Rightarrow> net_env \<Rightarrow> output_call \<Rightarrow> string \<Rightarrow> dict \<Rightarrow> descriptor option op" where
  "persist_output_ref E N oc run_id ref =
     (case http_output_url ref of
        None \<Rightarrow> returnE None
      | Some url \<Rightarrow>
          bindE (output_url_access N url (oc_gateway_url oc)) (\<lambda>access.
          if access = Blocked then returnE None
          else
            let headers = (if access = Gateway then oc_headers oc else headers_without_credentials (oc_headers oc)) in
            catchE
              (bindE (fetch_content E N url headers) (\<lambda>content.
               bindE (store_artifact_bytes E run_id
                 (output_input oc run_id (ref_name ref) content (ref_content_type ref))) (\<lambda>d.
               returnE (if lower (de_storage_state d) = ''persisted'' then Some d else None))))
              (\<lambda>exc. returnE None)))"

definition ref_required :: "dict \<Rightarrow> bool" where
  "ref_required ref = truthy (dget ref ''required'')"

fun keep_outputs :: "(dict \<times> descriptor option) list \<Rightarrow> yield_event list \<times> bool" where
  "keep_outputs [] = ([], False)"
| "keep_outputs ((ref, d) # rs) =
     (let (es, lost) = keep_outputs rs in
      case d of
        Some x \<Rightarrow> (public_artifact_persisted_event x # es, lost)
      | None \<Rightarrow> (es, lost \<or> ref_required ref))"

definition persist_declared_outputs ::
  "env \<Rightarrow> net_env \<Rightarrow> output_call \<Rightarrow> dict option \<Rightarrow> (yield_event list \<times> bool) op" where
  "persist_declared_outputs E N oc data =
     (let refs = (case data of None \<Rightarrow> [] | Some d \<Rightarrow> collect_output_refs d); run_id = str_or (oc_run_id oc) [] in
      if refs = [] \<or> run_id = [] then returnE ([], False)
      else request (bindE (mapE refs (\<lambda>ref. bindE (persist_output_ref E N oc run_id ref) (\<lambda>d. returnE (ref, d))))
                      (\<lambda>rs. returnE (keep_outputs rs))))"

definition terminal_events_with_outputs ::
  "env \<Rightarrow> net_env \<Rightarrow> output_call \<Rightarrow> yield_event \<Rightarrow> dict option \<Rightarrow> yield_event list op" where
  "terminal_events_with_outputs E N oc final data =
     (if ye_type final = ''run.completed'' then
        bindE (persist_declared_outputs E N oc data) (\<lambda>(es, persist_failed).
        returnE (es @ [if persist_failed
                       then failed ''ARTIFACT_PERSIST_FAILED'' ''required runtime output could not be persisted''
                       else final]))
      else returnE [final])"

end
