(* ===== verification/System.thy ===== *)
theory System
  imports Run_Create Run_Api Worker_Laws Runtime_Outputs
begin

text \<open>
  The agent as a whole: the requests its endpoints serve and the transactions of its workers as one step
  relation, and what holds in every state it can reach.
\<close>

section \<open>Handlers that go back to an earlier state of the tables\<close>

lemma safe_same_db: "db v = db v' \<Longrightarrow> safe w v \<Longrightarrow> safe w v'"
  by (simp add: safe_def terminal_kept_def log_grows_def log_kept_def frozen_def log_ok_def
      status_of_def find_run_def events_of_def)

text \<open>Seen from the start of a handler, all it does is safe; so is a return to the tables of the start.\<close>

definition safe_from :: "world \<Rightarrow> world \<Rightarrow> world \<Rightarrow> bool" where
  "safe_from w0 w w' \<longleftrightarrow> (safe w0 w \<longrightarrow> safe w0 w')"

interpretation fr: guarantee "safe_from w0" for w0
  by unfold_locales (simp_all add: safe_from_def)

lemma safe_from_safe: "guar safe m \<Longrightarrow> guar (safe_from w0) m"
  unfolding guar_def safe_from_def using sw.R_trans by blast

lemma safe_from_back: "safe w0 (w0\<lparr>db := d\<rparr>) \<Longrightarrow> guar (safe_from w0) (modifyE (with_db (\<lambda>_. d)))"
  unfolding guar_def safe_from_def modifyE_def with_db_def by (auto intro: safe_same_db [of "w0\<lparr>db := d\<rparr>"])

lemma safe_from_start: "guar (safe_from w) m \<Longrightarrow> safe w (snd (m w))"
  using guarD [of "safe_from w" m w] by (simp add: safe_from_def sw.R_refl)

lemma safe_from_read:
  assumes "guar (safe_from w) (f (db w))"
  shows "safe w (snd (bindE (getsE db) f w))"
  using safe_from_start [OF assms] by (simp add: bindE_def)

lemma case_upload_exn:
  "guar R m \<Longrightarrow> (\<And>e. guar R (n e)) \<Longrightarrow> guar R (case e of RuntimeError _ \<Rightarrow> m | _ \<Rightarrow> n e)"
  by (cases e) simp_all

lemma upload_safe: "guar safe (upload_internal_artifact E rid body org)"
proof -
  have undo: "guar (safe_from w) (modifyE (with_db (\<lambda>_. db w)))" for w
    by (rule safe_from_back) (rule safe_same_db [OF _ sw.R_refl], simp)
  have "safe w (snd (upload_internal_artifact E rid body org w))" for w
  proof (cases "org = []")
    case True
    then show ?thesis by (simp add: upload_internal_artifact_def returnE_def sw.R_refl)
  next
    case False
    then show ?thesis
      unfolding upload_internal_artifact_def
      by (simp only: if_False, intro safe_from_read fr.guar_rules case_upload_exn undo
          get_run_same_log [THEN guar_same_log, THEN safe_from_safe]
          store_artifact_safe [THEN safe_from_safe])
  qed
  then show ?thesis by (simp add: guar_def)
qed


section \<open>Creating a run between other transactions\<close>

lemma insert_run_safe:
  assumes "r_next_event_seq row = 0" and "\<not> list_ex (index_clash row) (runs (db w))"
  shows "safe w (w\<lparr>db := (db w)\<lparr>runs := runs (db w) @ [row]\<rparr>\<rparr>)" (is "safe w ?w")
proof -
  have new: "r_id row \<notin> r_id ` set (runs (db w))"
    using assms(2) by (auto simp: list_ex_iff index_clash_def)
  have st: "status_of w x = Some st \<Longrightarrow> status_of ?w x = Some st" for x st
    by (auto simp: status_of_def find_run_def find_append split: option.split)
  have evs: "events_of ?w = events_of w" by (rule ext) (simp add: events_of_def)
  have "log_ok ?w" if ok: "log_ok w"
  proof -
    have "events_of w (r_id row) = []"
      using ok new unfolding log_ok_def events_of_def filter_empty_conv by metis
    with ok new assms(1) show ?thesis
      unfolding log_ok_def evs by simp
  qed
  moreover have "distinct (List.map r_id (runs (db w))) \<Longrightarrow> distinct (List.map r_id (runs (db ?w)))"
    using new by simp
  ultimately show ?thesis
    using st by (simp add: safe_def terminal_kept_def log_grows_def log_kept_def frozen_def evs)
qed

lemma insert_unique_run_safe:
  assumes "r_next_event_seq row = 0"
  shows "guar safe (insert_unique_run row)"
  unfolding guar_def
proof
  fix w
  show "safe w (snd (insert_unique_run row w))"
    using insert_run_safe [OF assms, of w]
    by (cases "list_ex (index_clash row) (runs (db w))")
      (simp_all add: insert_unique_run_def sw.R_refl insert_run_def with_db_def)
qed

text \<open>What the other transactions do is safe for well-formed logs.\<close>

definition others_safe :: "(database \<Rightarrow> database) \<Rightarrow> bool" where
  "others_safe others \<longleftrightarrow> (\<forall>w. log_ok w \<longrightarrow> safe w (w\<lparr>db := others (db w)\<rparr>))"

lemma safe_log_ok: "safe w w' \<Longrightarrow> log_ok w \<Longrightarrow> log_ok w'"
  by (simp add: safe_def log_kept_def)

lemma others_from:
  assumes "others_safe others" and "log_ok w0"
  shows "guar (safe_from w0) (modifyE (with_db others))"
proof -
  have "safe w0 (w\<lparr>db := others (db w)\<rparr>)" if "safe w0 w" for w
    using assms safe_log_ok [OF that assms(2)] that sw.R_trans by (auto simp: others_safe_def)
  then show ?thesis by (simp add: guar_def safe_from_def modifyE_def with_db_def)
qed

lemma created_events_safe: "guar safe (created_events E q st)"
  unfolding created_events_def Let_def by (intro sw.guar_rules guar_intros)

lemma existing_response_safe: "guar safe (existing_response digest sn q org r)"
  unfolding existing_response_def by (intro sw.guar_rules)

lemma create_run_safe:
  assumes "others_safe others" and "log_ok w"
  shows "safe w (snd (create_run E others q org user w))"
proof -
  note pass = safe_from_safe
  have pin: "guar safe (pin_remote_agent_session E q org user)" for q
    by (intro guar_intros)
  have ro: "guar safe m" if "guar (=) m" for m :: "'a op"
    using that by (simp add: guar_def) (metis sw.R_refl)
  have undo: "guar (safe_from w) (rollback_to (others (db w)))"
    unfolding rollback_to_def using assms by (intro safe_from_back) (simp add: others_safe_def)
  have ins: "guar (safe_from w) (insert_or_recover others (db w) row digest sn q org user)"
    if "r_next_event_seq row = 0" for row digest sn q
    unfolding insert_or_recover_def
    by (intro fr.guar_rules undo pass [OF insert_unique_run_safe [OF that]] pass [OF existing_response_safe] pass [OF ro] ro_stmts)
  have create: "guar (safe_from w) (create_new_run E others (db w) digest q org user)" for digest q
    unfolding create_new_run_def Let_def
    by (intro fr.guar_rules ins others_from assms pass [OF created_events_safe] pass [OF pin] pass [OF guar_same_log]
        session_step_same_log pass [OF ro [OF ro_stmts(6)]]) (simp_all add: new_run_def)
  show ?thesis
    unfolding create_run_def Let_def
    by (cases "str_set (q_run_id q)")
      (simp_all add: raiseE_def sw.R_refl, intro safe_from_read fr.guar_rules create pass [OF ro [OF copy_ro]]
        pass [OF ro [OF revalidate_ro]] pass [OF ro [OF ro_stmts(1)]] pass [OF existing_response_safe])
qed


section \<open>The system\<close>

text \<open>
  A request whose handler raises is rolled back; what other transactions committed meanwhile stays.
\<close>

definition create_request_step :: "env \<Rightarrow> (database \<Rightarrow> database) \<Rightarrow> create_request \<Rightarrow> string \<Rightarrow> string \<Rightarrow> world \<Rightarrow> world" where
  "create_request_step E others q org user w =
     (case create_internal_run E others q org user w of
        (Inl _, w') \<Rightarrow> w'\<lparr>db := others (db w)\<rparr>
      | (Inr _, w') \<Rightarrow> w')"

text \<open>
  One step of the agent: a request to one of its endpoints, a transaction of a worker, the clock, or the
  file system. The parameters are arbitrary: any caller, any worker with any claim, any answer of the
  other services. The transactions that run between those of a creation are steps of the same system.
\<close>

inductive step :: "world \<Rightarrow> world \<Rightarrow> bool" and steps :: "world \<Rightarrow> world \<Rightarrow> bool" where
  time: "clock w \<le> t \<Longrightarrow> step w (w\<lparr>clock := t\<rparr>)"
| disk: "step w (w\<lparr>files := fs, folders := ds\<rparr>)"
| create: "(\<And>d. \<exists>v. steps v (v'(d)) \<and> db v = d \<and> db (v' d) = others d) \<Longrightarrow> step w (create_request_step E others q org user w)"
| ingest: "step w (snd (ingest_internal_events E rid body org w))"
| upload: "step w (snd (upload_internal_artifact E rid upl org w))"
| resume: "step w (snd (resume_internal_run E rid org dict w))"
| approve: "step w (snd (approve_internal_run E rid aid org dict w))"
| cancel: "step w (snd (cancel_internal_run E rid org w))"
| tools: "step w (snd (request (agent_tools_mcp E dict cap) w))"
| recover: "step w (snd (recover_stale_runs E locked w))"
| claim: "step w (snd (claim_one E locked w))"
| renew: "step w (snd (renew_lease E rid att gen w))"
| start: "step w (snd (start_attempt E c w))"
| plan: "step w (snd (plan_attempt E c w))"
| run_step: "step w (snd (request (update_step_state rid sid st u) w))"
| event: "step w (snd (handle_yielded E c central pending y w))"
| wait: "step w (snd (request (thenE (wait_for_edge E org c (returnE ())) (dispatch_edge E c cancelled ps)) w))"
| dispatch: "step w (snd (request (dispatch_edge E c cancelled ps) w))"
| failure: "step w (snd (on_exception E org c central e w))"
| outputs: "step w (snd (persist_declared_outputs E N oc data w))"
| bind: "step w (snd (request (persist_runtime_binding att n b) w))"
| unbind: "step w (snd (request (mark_runtime_terminal att n) w))"
| here: "steps w w"
| more: "steps u v \<Longrightarrow> step v w \<Longrightarrow> steps u w"

lemma create_internal_run_safe:
  assumes "others_safe others" and "log_ok w"
  shows "safe w (snd (create_internal_run E others q org user w))"
proof -
  have "safe w (snd (bindE (create_run E others q org user) (\<lambda>r. returnE (Inr r)) w))"
    by (rule safe_bind, rule create_run_safe [OF assms]) (simp add: returnE_def sw.R_refl)
  then show ?thesis unfolding create_internal_run_def
    by (cases "org = [] \<or> user = []"; cases "str_set (q_org_id q) \<and> q_org_id q \<noteq> Some org";
        cases "str_set (q_user_id q) \<and> q_user_id q \<noteq> Some user"; simp only: if_True if_False simp_thms)
      (simp_all add: returnE_def sw.R_refl)
qed

lemma create_request_step_safe:
  assumes "others_safe others" and "log_ok w"
  shows "safe w (create_request_step E others q org user w)"
proof (cases "create_internal_run E others q org user w")
  case (Pair r w')
  show ?thesis
  proof (cases r)
    case (Inl e)
    have "safe w (w\<lparr>db := others (db w)\<rparr>)" using assms by (simp add: others_safe_def)
    then have "safe w (w'\<lparr>db := others (db w)\<rparr>)" by (rule safe_same_db [rotated]) simp
    with Pair Inl show ?thesis by (simp add: create_request_step_def)
  next
    case (Inr a)
    with Pair create_internal_run_safe [OF assms, of E q org user] show ?thesis by (simp add: create_request_step_def)
  qed
qed

lemma request_steps_safe:
  "guar safe (request (agent_tools_mcp E body cap))" "guar safe (request (update_step_state rid sid st u))"
  "guar safe (request (thenE (wait_for_edge E org c (returnE ())) (dispatch_edge E c cancelled ps)))"
  "guar safe (request (dispatch_edge E c cancelled ps))"
  "guar safe (request (persist_runtime_binding att n b))" "guar safe (request (mark_runtime_terminal att n))"
  by (intro request_safe sw.guar_rules guar_intros binding_same_log [THEN guar_same_log])+

lemma http_op_same_log: "guar same_log (http_op E verb url hs body)"
  by (simp add: guar_def http_op_def same_log_def Let_def)

lemma getaddrinfo_same_log: "guar same_log (getaddrinfo N host port)"
  by (simp add: guar_def getaddrinfo_def same_log_def)

lemma output_url_access_same_log: "guar same_log (output_url_access N url gateway)"
  unfolding output_url_access_def resolved_access_def resolve_output_host_ips_def
  by (intro sl.guar_rules guar_intros getaddrinfo_same_log)
    (auto split: exn.splits intro: sl.guar_rules)

lemma guar_http: "(case x of Unreachable \<Rightarrow> guar R m | HttpFault e \<Rightarrow> guar R (f e) | Response c b \<Rightarrow> guar R (g c b)) \<Longrightarrow>
    guar R (case x of Unreachable \<Rightarrow> m | HttpFault e \<Rightarrow> f e | Response c b \<Rightarrow> g c b)"
  by (cases x) simp_all

lemma fetch_content_same_log: "guar same_log (fetch_content E N url hs)"
  unfolding fetch_content_def
  by (intro sl.guar_rules guar_intros http_op_same_log guar_http)
    (simp split: http.split add: sl.guar_return sl.guar_raise)

lemmas output_steps_same_log = output_url_access_same_log fetch_content_same_log

lemma persist_declared_outputs_safe: "guar safe (persist_declared_outputs E N oc data)"
  unfolding persist_declared_outputs_def persist_output_ref_def Let_def
  by (intro request_safe sw.guar_rules guar_intros output_steps_same_log [THEN guar_same_log])+

lemmas steps_guar = persist_declared_outputs_safe ingest_safe upload_safe endpoints_safe request_steps_safe renew_lease_safe start_attempt_safe
  plan_attempt_safe handle_yielded_safe on_exception_safe

lemma log_ok_distinct: "log_ok w \<Longrightarrow> distinct (List.map r_id (runs (db w)))"
  by (simp add: log_ok_def)

lemma step_safe:
  "step w w' \<Longrightarrow> log_ok w \<Longrightarrow> safe w w'"
  "steps w w' \<Longrightarrow> log_ok w \<Longrightarrow> safe w w'"
proof (induction rule: step_steps.inducts)
  case (create v' others w E q org user)
  have "others_safe others"
    unfolding others_safe_def
  proof (intro allI impI)
    fix u assume ok: "log_ok u"
    obtain v where v: "steps v (v' (db u))" "db v = db u" "db (v' (db u)) = others (db u)" "log_ok v \<longrightarrow> safe v (v' (db u))"
      using create.IH [of "db u"] by blast
    have "log_ok v" using ok v(2) by (simp add: log_ok_def events_of_def)
    with v(4) have "safe v (v' (db u))" by blast
    then show "safe u (u\<lparr>db := others (db u)\<rparr>)"
      using v(2,3) by (simp add: safe_def terminal_kept_def log_grows_def log_kept_def frozen_def log_ok_def
          status_of_def find_run_def events_of_def)
  qed
  then show ?case using create.prems by (rule create_request_step_safe)
next
  case (more u v w)
  then show ?case using safe_log_ok sw.R_trans by blast
next
  case (recover w E locked)
  then show ?case by (intro recover_stale_runs_safe log_ok_distinct)
next
  case (claim w E locked)
  then show ?case using guarD [OF claim_one_worker, of w E locked] log_ok_distinct by (simp add: worker_safe_def)
qed (simp_all add: same_log_safe same_log_def sw.R_refl steps_guar [THEN guarD])

lemma empty_log_ok: "db w = empty_db \<Longrightarrow> log_ok w"
  by (simp add: log_ok_def empty_db_def)

text \<open>C1: In every state the agent reaches from empty tables, through any interleaving of requests,
  worker transactions and failures, the log is well formed: run identifiers are distinct, every event
  belongs to a run, and the events of each run are numbered 1, 2, \<dots> without gap or repetition, in the order they
  were written, up to the number the run's row holds.\<close>

theorem reachable_log_ok:
  assumes "steps w0 w" and "db w0 = empty_db"
  shows "distinct (List.map r_id (runs (db w)))
    \<and> (\<forall>e\<in>set (events (db w)). e_run_id e \<in> r_id ` set (runs (db w)))
    \<and> (\<forall>r\<in>set (runs (db w)). List.map e_event_seq (events_of w (r_id r)) = [1..<Suc (r_next_event_seq r)])"
proof -
  have "log_ok w" using step_safe(2) [OF assms(1)] empty_log_ok [OF assms(2)] safe_log_ok by blast
  then show ?thesis unfolding log_ok_def .
qed

text \<open>C2: A run that has come to an end stays as it is. From any state with a well-formed log, whatever
  requests, workers and other transactions follow and in whatever order: its status never changes again,
  no event is added to it, and the log as a whole only grows at its end.\<close>

theorem finished_run_frozen:
  assumes "steps w w'" and "log_ok w" and "status_of w rid = Some st" and "terminal st"
  shows "status_of w' rid = Some st \<and> events_of w' rid = events_of w rid \<and> (\<exists>es. events (db w') = events (db w) @ es)"
proof -
  have "safe w w'" by (rule step_safe(2) [OF assms(1,2)])
  then have "frozen w w'" "log_grows w w'" by (simp_all add: safe_def)
  with assms(2-4) show ?thesis by (auto simp: frozen_def log_grows_def dest: log_ok_distinct)
qed

definition failed_world :: world where
  "failed_world = sample_world\<lparr>db := empty_db\<lparr>runs := [log_run\<lparr>r_status := FAILED\<rparr>], events := [log_event]\<rparr>\<rparr>"

theorem finished_run_frozen_witness:
  "status_of (snd (cancel_internal_run sample_env ''run-1'' ''org-1'' (snd (claim_one sample_env (\<lambda>_. False) failed_world)))) ''run-1'' = Some FAILED
   \<and> events_of (snd (cancel_internal_run sample_env ''run-1'' ''org-1'' (snd (claim_one sample_env (\<lambda>_. False) failed_world)))) ''run-1''
     = events_of failed_world ''run-1''"
proof -
  let ?w = "snd (cancel_internal_run sample_env ''run-1'' ''org-1'' (snd (claim_one sample_env (\<lambda>_. False) failed_world)))"
  have ok: "log_ok failed_world"
    by (simp add: log_ok_def failed_world_def empty_db_def events_of_def log_run_def log_event_def)
  have st: "status_of failed_world ''run-1'' = Some FAILED"
    by (simp add: status_of_def find_run_def failed_world_def log_run_def)
  have t: "terminal FAILED" by (simp add: TERMINAL_def)
  have s: "steps failed_world ?w"
    by (rule step_steps.more [OF step_steps.more [OF step_steps.here step_steps.claim] step_steps.cancel])
  from finished_run_frozen [OF s ok st t] show ?thesis by (elim conjE) (rule conjI)
qed


theorem reachable_log_ok_witness:
  "\<exists>w. steps sample_world w \<and> List.map r_id (runs (db w)) = [''run-1''] \<and> distinct (List.map r_id (runs (db w)))"
proof -
  let ?w = "create_request_step sample_env (\<lambda>d. d) sample_request ''org'' ''user'' sample_world"
  obtain resp w' where c: "create_run sample_env (\<lambda>d. d) sample_request ''org'' ''user'' sample_world = (Inr resp, w')"
    "List.map r_id (runs (db w')) = [str_or (q_run_id sample_request) []]"
    using sample_create by (elim exE conjE)
  have q: "q_org_id sample_request = None" "q_user_id sample_request = None" "q_run_id sample_request = Some ''run-1''"
    by (simp_all add: sample_request_def)
  have w: "?w = w'"
    by (simp add: create_request_step_def create_internal_run_def q str_set_def bindE_def c(1) returnE_def str_or_def)
  have s: "steps sample_world ?w"
    by (rule step_steps.more [OF step_steps.here step_steps.create [of "\<lambda>d. sample_world\<lparr>db := d\<rparr>"]])
      (rule exI, rule conjI, rule step_steps.here, simp)
  have "db sample_world = empty_db" by (simp add: sample_world_def)
  from reachable_log_ok [OF s this] s c(2) show ?thesis
    by (elim conjE) (intro exI conjI, assumption, simp_all add: w q str_or_def)
qed

end
