(* ===== verification/Runtime_Contract.thy ===== *)
theory Runtime_Contract
  imports Runtime_Outputs
begin

text \<open>
  What the engine demands of a Hermes runtime before it submits a run (\<open>services/hermes_engine.py\<close>):
  a version at or above the floor, the delegation topology, the features; and the payload it submits.
  Also the chunk that stands for an approval seen only in the status.
\<close>

section \<open>Versions\<close>

text \<open>\<open>\d\<close> and \<open>int\<close> take the decimal digits of every script; their values are a parameter.\<close>

type_synonym digits = "string \<Rightarrow> nat option"

definition digit_value :: "digits \<Rightarrow> string \<Rightarrow> nat option" where
  "digit_value D u = (if ascii_in ascii_digit u then Some (byte (hd u) - 48) else if 1 < length u then D u else None)"

definition is_decimal :: "digits \<Rightarrow> string \<Rightarrow> bool" where
  "is_decimal D u \<longleftrightarrow> digit_value D u \<noteq> None"

definition number :: "digits \<Rightarrow> string list \<Rightarrow> nat" where
  "number D us = foldl (\<lambda>n u. 10 * n + (case digit_value D u of None \<Rightarrow> 0 | Some d \<Rightarrow> d)) 0 us"

type_synonym version = "nat \<times> nat \<times> nat"

definition version_less :: "version \<Rightarrow> version \<Rightarrow> bool" where
  "version_less v w = (case (v, w) of ((a, b, c), (x, y, z)) \<Rightarrow> a < x \<or> a = x \<and> (b < y \<or> b = y \<and> c < z))"

definition HERMES_VERSION_FLOOR :: version where
  "HERMES_VERSION_FLOOR = (2026, 8, 31)"

definition HERMES_PACKAGE_RELEASE_FLOOR :: version where
  "HERMES_PACKAGE_RELEASE_FLOOR = (0, 21, 0)"

text \<open>\<open>(20\d{2})\.(\d{1,2})\.(\d{1,2})\<close> at the start of a text.\<close>

definition dated_here :: "digits \<Rightarrow> string list \<Rightarrow> version option" where
  "dated_here D us =
     (let year = take 4 us; rest = drop 5 us;
          month = takeWhile (is_decimal D) (take 2 rest); after = drop (length month) rest;
          day = takeWhile (is_decimal D) (take 2 (drop 1 after))
      in if lit ''20'' us \<and> length year = 4 \<and> list_all (is_decimal D) year \<and> lit ''.'' (drop 4 us)
            \<and> month \<noteq> [] \<and> lit ''.'' after \<and> day \<noteq> []
         then Some (number D year, number D month, number D day) else None)"

fun dated_version :: "digits \<Rightarrow> string list \<Rightarrow> version option" where
  "dated_version D [] = None"
| "dated_version D (u # us) =
     (case dated_here D (u # us) of Some v \<Rightarrow> Some v | None \<Rightarrow> dated_version D us)"

text \<open>\<open>re.findall(r"\d+", text)\<close>.\<close>

function digit_runs :: "digits \<Rightarrow> string list \<Rightarrow> string list list" where
  "digit_runs D us =
     (let run = takeWhile (is_decimal D) (dropWhile (\<lambda>u. \<not> is_decimal D u) us);
          rest = dropWhile (is_decimal D) (dropWhile (\<lambda>u. \<not> is_decimal D u) us)
      in if run = [] then [] else run # digit_runs D rest)"
  by pat_completeness auto
termination
proof (relation "measure (\<lambda>(D, us). length us)", simp, clarsimp)
  fix D and us :: "string list"
  let ?vs = "dropWhile (\<lambda>u. \<not> is_decimal D u) us"
  assume "takeWhile (is_decimal D) ?vs \<noteq> []"
  then have "length (dropWhile (is_decimal D) ?vs) < length ?vs"
    using length_append [of "takeWhile (is_decimal D) ?vs" "dropWhile (is_decimal D) ?vs"] by simp
  then show "length (dropWhile (is_decimal D) ?vs) < length us"
    by (meson length_dropWhile_le less_le_trans)
qed

declare digit_runs.simps [simp del]

definition plain_version :: "digits \<Rightarrow> string \<Rightarrow> version option" where
  "plain_version D s =
     (let s' = (if startswith (lower s) ''v'' then drop 1 s else s) in
      case digit_runs D (explode s') of
        a # b # c # _ \<Rightarrow> Some (number D a, number D b, number D c)
      | _ \<Rightarrow> None)"

definition parse_hermes_version :: "digits \<Rightarrow> json \<Rightarrow> version option" where
  "parse_hermes_version D raw =
     (if \<not> is_str raw \<or> strip (str_val raw) = [] then None
      else let s = strip (str_val raw) in
        case dated_version D (explode s) of Some v \<Rightarrow> Some v | None \<Rightarrow> plain_version D s)"

definition hermes_version_for_floor :: "digits \<Rightarrow> json \<Rightarrow> version option" where
  "hermes_version_for_floor D raw =
     (case parse_hermes_version D raw of
        None \<Rightarrow> None
      | Some v \<Rightarrow>
          if 2000 \<le> fst v then Some v
          else if \<not> version_less v HERMES_PACKAGE_RELEASE_FLOOR then Some HERMES_VERSION_FLOOR
          else Some v)"

definition reported_hermes_version :: "json \<Rightarrow> string" where
  "reported_hermes_version body =
     (case body of
        JObj payload \<Rightarrow>
          (let nested = dict_of (dget payload ''runtime'') in
           strip (py_str (or_else (dget payload ''version'') (or_else (dget payload ''hermes_version'')
             (or_else (dget payload ''runtime_version'') (or_else (dget nested ''version'') (JStr [])))))))
      | _ \<Rightarrow> [])"

definition version_supported :: "digits \<Rightarrow> string \<Rightarrow> bool" where
  "version_supported D version_raw \<longleftrightarrow>
     (case hermes_version_for_floor D (JStr version_raw) of
        None \<Rightarrow> False | Some v \<Rightarrow> \<not> version_less v HERMES_VERSION_FLOOR)"

section \<open>Topology and features\<close>

definition REQUIRED_FEATURES :: "string list" where
  "REQUIRED_FEATURES = [''run_submission'', ''run_status'', ''run_events_sse'', ''run_stop'', ''run_approval_response'']"

definition APPROVAL_EXTRA_FEATURES :: "string list" where
  "APPROVAL_EXTRA_FEATURES = [''approval_events'']"

definition ALLOWED_DELEGATION_TOPOLOGIES :: "string list" where
  "ALLOWED_DELEGATION_TOPOLOGIES = [''single_agent'', ''runtime_delegated'']"

definition resolved_topology :: "dict \<Rightarrow> string" where
  "resolved_topology route =
     (let raw = dget route ''delegation_topology'' in
      if raw = JNull \<or> raw = JStr [] then ''single_agent'' else strip (py_str raw))"

definition feature_set :: "dict \<Rightarrow> string list" where
  "feature_set payload =
     (case or_else (dget payload ''features'') (or_else (dget payload ''capabilities'') (JList [])) of
        JObj d \<Rightarrow> List.map fst (filter (\<lambda>kv. truthy (snd kv)) d)
      | JList xs \<Rightarrow> List.map py_str (filter truthy xs)
      | _ \<Rightarrow> [])"

section \<open>The payload\<close>

text \<open>\<open>json.dumps(v, ensure_ascii=False)\<close>.\<close>

fun dumps_unicode :: "json \<Rightarrow> string" where
  "dumps_unicode (JStr s) = json_string s"
| "dumps_unicode (JList xs) = ''['' @ joined '', '' (List.map dumps_unicode xs) @ '']''"
| "dumps_unicode (JObj d) =
     ''{'' @ joined '', '' (List.map (\<lambda>kv. json_string (fst kv) @ '': '' @ dumps_unicode (snd kv)) d) @ ''}''"
| "dumps_unicode j = dumps_compact j"

definition bytes :: "nat list \<Rightarrow> string" where
  "bytes = List.map char_of"

text \<open>The two instruction texts, which are Chinese, as their bytes.\<close>

definition SKILL_INTRO :: string where
  "SKILL_INTRO = bytes
     [228, 189, 160, 230, 152, 175, 32, 72, 101, 114, 109, 101, 115, 32, 65, 103, 101, 110, 116, 227, 128,
      130, 230, 156, 172, 230, 172, 161, 228, 187, 187, 229, 138, 161, 230, 140, 135, 229, 174, 154, 32,
      115, 107, 105, 108, 108, 58, 32]"

definition SKILL_OUTRO :: string where
  "SKILL_OUTRO = bytes
     [227, 128, 130, 232, 175, 183, 228, 188, 152, 229, 133, 136, 230, 140, 137, 231, 133, 167, 232, 175,
      165, 32, 115, 107, 105, 108, 108, 32, 231, 154, 132, 230, 181, 129, 231, 168, 139, 229, 174, 140,
      230, 136, 144, 231, 148, 168, 230, 136, 183, 228, 187, 187, 229, 138, 161, 227, 128, 130]"

definition PLAIN_INSTRUCTIONS :: string where
  "PLAIN_INSTRUCTIONS = bytes
     [228, 189, 160, 230, 152, 175, 32, 72, 101, 114, 109, 101, 115, 32, 65, 103, 101, 110, 116, 227, 128,
      130, 232, 175, 183, 231, 155, 180, 230, 142, 165, 229, 174, 140, 230, 136, 144, 231, 148, 168, 230,
      136, 183, 228, 187, 187, 229, 138, 161, 227, 128, 130]"

record run_spec =
  rs_model_name :: string
  rs_runtime_skill_id :: string
  rs_prompt :: string
  rs_session_id :: "string option"

definition build_native_run_payload :: "run_spec \<Rightarrow> dict option \<Rightarrow> dict" where
  "build_native_run_payload s context =
     (let context = (case context of None \<Rightarrow> [] | Some d \<Rightarrow> d);
          user_input = (if context = [] then rs_prompt s
                        else rs_prompt s @ [newline, newline] @ dumps_unicode (JObj context));
          instructions = (if rs_runtime_skill_id s \<noteq> []
                          then SKILL_INTRO @ rs_runtime_skill_id s @ SKILL_OUTRO else PLAIN_INSTRUCTIONS)
      in [(''input'', JStr user_input), (''instructions'', JStr instructions)]
         @ (if rs_model_name s \<noteq> [] then [(''model'', JStr (rs_model_name s))] else [])
         @ (if str_set (rs_session_id s) then [(''session_id'', jopt (rs_session_id s))] else []))"

section \<open>Approvals seen in the status\<close>

definition approval_candidates :: "dict \<Rightarrow> json list" where
  "approval_candidates data =
     (let nested = dict_of (dget data ''data''); approval = dict_of (dget data ''approval'');
          nested_approval = dict_of (dget nested ''approval'')
      in [dget data ''approval_id'', dget nested ''approval_id'', dget approval ''approval_id'',
          dget nested_approval ''approval_id'', dget approval ''id'', dget nested_approval ''id''])"

definition approval_request_chunk :: "dict option \<Rightarrow> string \<Rightarrow> dict" where
  "approval_request_chunk data runtime_run_id =
     [(''type'', JStr ''approval.request''), (''summary'', JStr ''approval requested'')]
     @ (case find (\<lambda>item. is_str item \<and> strip (str_val item) \<noteq> [] \<and> strip (str_val item) \<noteq> runtime_run_id)
               (approval_candidates (case data of None \<Rightarrow> [] | Some d \<Rightarrow> d)) of
          None \<Rightarrow> []
        | Some item \<Rightarrow> [(''approval_id'', JStr (strip (str_val item)))])"

definition attach_sse_event_type :: "dict \<Rightarrow> string option \<Rightarrow> dict" where
  "attach_sse_event_type chunk sse_event =
     (if \<not> str_set sse_event then chunk
      else if truthy (dget chunk ''type'') \<or> truthy (dget chunk ''event_type'') \<or> truthy (dget chunk ''event'') then chunk
      else AList.update ''event'' (jopt sse_event) chunk)"

end
