(* ===== verification/Attachments.thy ===== *)
theory Attachments
  imports Runtime_Outputs
begin

text \<open>
  \<open>services/run_attachment_workspace.py\<close>: putting the attachments of a run into its workspace, first
  into a staging folder and then, when all are written, into the visible one. The file system is that of
  \<open>Storage\<close>, without symbolic links.
\<close>

section \<open>Paths and trees\<close>

definition REJECTED_DIR_NAMES :: "string list" where
  "REJECTED_DIR_NAMES = [''attachments'', ''skills'', ''skill-inbox'']"

text \<open>\<open>path / s\<close>: an absolute \<open>s\<close> replaces the path.\<close>

definition join_path :: "string list \<Rightarrow> string \<Rightarrow> string list" where
  "join_path p s = resolve_parts (if startswith s ''/'' then [] else p) (path_parts s)"

definition under :: "string list \<Rightarrow> string list \<Rightarrow> bool" where
  "under p q \<longleftrightarrow> take (length p) q = p"

definition tree_exists :: "env \<Rightarrow> string list \<Rightarrow> world \<Rightarrow> bool" where
  "tree_exists E p w \<longleftrightarrow> is_file w p \<or> is_folder (artifact_root E) w p"

definition drop_tree :: "string list \<Rightarrow> world \<Rightarrow> world" where
  "drop_tree p w = w\<lparr>files := filter (\<lambda>f. \<not> under p (fst f)) (files w),
                     folders := filter (\<lambda>q. \<not> under p q) (folders w)\<rparr>"

definition rmtree :: "env \<Rightarrow> string list \<Rightarrow> unit op" where
  "rmtree E p = (\<lambda>w.
     if is_file w p then (Inl (StorageError ''NotADirectoryError''), w)
     else if \<not> is_folder (artifact_root E) w p then (Inl (StorageError ''FileNotFoundError''), w)
     else (Inr (), drop_tree p w))"

definition rmtree_ignore :: "env \<Rightarrow> string list \<Rightarrow> unit op" where
  "rmtree_ignore E p = catchE (rmtree E p) (\<lambda>_. returnE ())"

text \<open>\<open>mkdir(parents=True, exist_ok=True)\<close>.\<close>

definition mkdirs :: "string list \<Rightarrow> unit op" where
  "mkdirs p = (\<lambda>w.
     if list_ex (is_file w) (proper_prefixes p @ [p]) then (Inl (StorageError ''FileExistsError''), w)
     else (Inr (), w\<lparr>folders := folders w @ proper_prefixes p @ [p]\<rparr>))"

definition moved :: "string list \<Rightarrow> string list \<Rightarrow> string list \<Rightarrow> string list" where
  "moved src dst q = (if under src q then dst @ drop (length src) q else q)"

text \<open>\<open>shutil.move\<close> to a place that does not exist.\<close>

definition move_tree :: "env \<Rightarrow> string list \<Rightarrow> string list \<Rightarrow> unit op" where
  "move_tree E src dst = (\<lambda>w.
     if \<not> tree_exists E src w then (Inl (StorageError ''FileNotFoundError''), w)
     else (Inr (), w\<lparr>files := List.map (\<lambda>f. (moved src dst (fst f), snd f)) (files w),
                     folders := List.map (moved src dst) (folders w) @ proper_prefixes dst\<rparr>))"

section \<open>Staging\<close>

definition safe_basename :: "string \<Rightarrow> string \<Rightarrow> string" where
  "safe_basename original_name attachment_ref =
     (let base = strip (last_segment (replace_backslash original_name)) in
      if base \<in> {[], ''.'', ''..''} then attachment_ref else base)"

definition resolve_existing_run_workspace :: "env \<Rightarrow> dict \<Rightarrow> string \<Rightarrow> world \<Rightarrow> string list option" where
  "resolve_existing_run_workspace E route run_id w =
     (let raw = dget route ''hermes_run_workspace'' in
      if \<not> is_str raw \<or> strip (str_val raw) = [] \<or> run_id = [] then None
      else
        let parts = path_parts (str_val raw); name = (if parts = [] then [] else last parts);
            path = join_path (working_dir E) (str_val raw)
        in if name \<in> set REJECTED_DIR_NAMES \<or> name \<noteq> run_id then None
           else if is_folder (artifact_root E) w path then Some path else None)"

text \<open>
  An item of the file list: a JSON value, and beside it the \<open>bytes\<close> under \<open>content\<close>, which JSON cannot
  express; a content of any other type is refused by \<open>write_bytes\<close>.
\<close>

record attachment =
  at_item :: json
  at_bytes :: "string option"

definition attachment_ref :: "attachment \<Rightarrow> exn + string" where
  "attachment_ref a =
     (case at_item a of
        JObj d \<Rightarrow> if has_key d ''attachment_ref'' then Inr (py_str (dget d ''attachment_ref''))
                  else Inl (OtherError ''KeyError'')
      | _ \<Rightarrow> Inl (OtherError ''TypeError''))"

definition attachment_base :: "attachment \<Rightarrow> string \<Rightarrow> string" where
  "attachment_base a ref =
     safe_basename (py_str (or_else (dget (dict_of (at_item a)) ''original_name'') (JStr []))) ref"

definition content_bytes :: "attachment \<Rightarrow> exn + string" where
  "content_bytes a =
     (case at_bytes a of
        Some c \<Rightarrow> Inr c
      | None \<Rightarrow> Inl (OtherError (if has_key (dict_of (at_item a)) ''content'' then ''TypeError'' else ''KeyError'')))"

definition stage_file :: "env \<Rightarrow> string list \<Rightarrow> attachment \<Rightarrow> (string \<times> string) op" where
  "stage_file E staging a =
     bindE (liftE (attachment_ref a)) (\<lambda>ref.
     let base = attachment_base a ref; destination = join_path (join_path staging ref) base in
     thenE (mkdirs (butlast destination))
     (bindE (liftE (content_bytes a)) (\<lambda>content.
      thenE (write_file (artifact_root E) destination content)
        (returnE (ref, ''attachments/'' @ ref @ ''/'' @ base)))))"

definition publish_ref :: "env \<Rightarrow> string list \<Rightarrow> string list \<Rightarrow> string \<Rightarrow> unit op" where
  "publish_ref E staging visible ref =
     (let target = join_path visible ref in
      bindE (getsE (tree_exists E target)) (\<lambda>exists.
      thenE (whenE exists (rmtree E target)) (move_tree E (join_path staging ref) target)))"

definition stage_run_attachments :: "env \<Rightarrow> string list \<Rightarrow> attachment list \<Rightarrow> string list op" where
  "stage_run_attachments E run_dir items =
     (let staging = run_dir @ [''.attachment-staging'']; visible = run_dir @ [''attachments''] in
      bindE (getsE (tree_exists E staging)) (\<lambda>exists.
      thenE (whenE exists (rmtree E staging))
      (bindE (catchE (mapE items (stage_file E staging))
                (\<lambda>exc. thenE (rmtree_ignore E staging) (raiseE exc))) (\<lambda>staged.
       thenE (catchE (thenE (mkdirs visible) (forE (List.map fst staged) (publish_ref E staging visible)))
                (\<lambda>exc. thenE (forE (List.map fst staged) (\<lambda>ref. rmtree_ignore E (join_path visible ref)))
                       (thenE (rmtree_ignore E staging) (raiseE exc))))
       (thenE (rmtree_ignore E staging) (returnE (List.map snd staged)))))))"

text \<open>What the JSON of a route can hold: no bytes.\<close>

definition json_attachment :: "json \<Rightarrow> attachment" where
  "json_attachment j = \<lparr>at_item = j, at_bytes = None\<rparr>"

lemma stage_json_raises: "\<exists>e w'. stage_file E staging (json_attachment j) w = (Inl e, w')"
  by (cases j) (auto simp: stage_file_def json_attachment_def attachment_ref_def content_bytes_def mkdirs_def
      Let_def thenE_def bindE_def liftE_def split: prod.splits sum.splits)

lemma rmtree_ignore_total: "total (rmtree_ignore E p)"
  unfolding rmtree_ignore_def by (intro total_catch total_return)

text \<open>
  Attachments that come as JSON are never staged: the call raises, whatever they are.
\<close>

lemma json_attachments_fail:
  assumes "js \<noteq> []"
  shows "\<exists>e w'. stage_run_attachments E run_dir (List.map json_attachment js) w = (Inl e, w')"
proof -
  let ?st = "run_dir @ [''.attachment-staging'']"
  have all: "\<exists>e v'. mapE (List.map json_attachment js) (stage_file E ?st) v = (Inl e, v')" for v
  proof -
    obtain j js' where js: "js = j # js'" using assms by (cases js) auto
    obtain e v' where "stage_file E ?st (json_attachment j) v = (Inl e, v')" using stage_json_raises by blast
    then show ?thesis by (simp add: js bindE_raise)
  qed
  have caught: "\<exists>e v'. catchE (mapE (List.map json_attachment js) (stage_file E ?st))
      (\<lambda>exc. thenE (rmtree_ignore E ?st) (raiseE exc)) v = (Inl e, v')" for v
  proof -
    obtain e v' where r: "mapE (List.map json_attachment js) (stage_file E ?st) v = (Inl e, v')" using all by blast
    obtain u where "rmtree_ignore E ?st v' = (Inr (), u)"
      using totalD [OF rmtree_ignore_total, of E ?st v'] by auto
    then show ?thesis by (simp add: catchE_def r thenE_def bindE_def)
  qed
  show ?thesis
  proof (cases "whenE (tree_exists E ?st w) (rmtree E ?st) w")
    case (Pair r u)
    show ?thesis
    proof (cases r)
      case (Inl e)
      then show ?thesis
        by (simp add: stage_run_attachments_def Let_def bindE_def [of "getsE _"] thenE_def bindE_def [of "whenE _ _"] Pair)
    next
      case (Inr x)
      obtain e v' where "catchE (mapE (List.map json_attachment js) (stage_file E ?st))
          (\<lambda>exc. thenE (rmtree_ignore E ?st) (raiseE exc)) u = (Inl e, v')" using caught by blast
      then show ?thesis
        by (simp add: stage_run_attachments_def Let_def bindE_def [of "getsE _"] thenE_def bindE_def [of "whenE _ _"]
            Pair Inr bindE_raise)
    qed
  qed
qed

end
