(* ===== verification/Event_Sanitizer.thy ===== *)
theory Event_Sanitizer
  imports Text_Tools Event_Schema
begin

text \<open>
  The sanitiser of \<open>services/native_event_normalizer.py\<close>: what of a runtime's arguments and results
  may be shown. It drops sensitive keys, the directories of absolute paths and sensitive query
  parameters, redacts previews, cuts what is nested too deep or too long, and records in two
  flags that it did so. The lemmas: what it lets through is clean, and a fitted payload keeps its names.
\<close>

section \<open>Flags\<close>

record flags =
  redacted :: bool
  truncated :: bool

type_synonym 'a san = "(flags, 'a) prog"

definition no_flags :: flags where
  "no_flags = \<lparr>redacted = False, truncated = False\<rparr>"

definition mark_redacted :: "unit san" where
  "mark_redacted = modifyE (\<lambda>f. f\<lparr>redacted := True\<rparr>)"

definition mark_truncated :: "unit san" where
  "mark_truncated = modifyE (\<lambda>f. f\<lparr>truncated := True\<rparr>)"

definition apply_upstream_flags :: "dict \<Rightarrow> unit san" where
  "apply_upstream_flags payload =
     thenE (whenE (dget payload ''redacted'' = JBool True) mark_redacted)
           (whenE (dget payload ''truncated'' = JBool True) mark_truncated)"

section \<open>What is sensitive\<close>

definition SENSITIVE_KEYS :: "string list" where
  "SENSITIVE_KEYS =
     [''output_tail'', ''child_session_id'', ''cost'', ''cost_usd'', ''runtime_run_id'', ''files_read'',
      ''files_written'', ''preview'']"

text \<open>The alternatives of \<open>_SENSITIVE_KEY_RE\<close> without its last one.\<close>

definition SENSITIVE_WORDS :: "string list" where
  "SENSITIVE_WORDS =
     [''authorization'', ''cookie'', ''apikey'', ''api_key'', ''api-key'', ''token'', ''password'', ''secret'',
      ''privatekey'', ''private_key'', ''private-key'', ''credential'', ''accesskey'', ''access_key'', ''access-key'',
      ''refreshtoken'', ''refresh_token'', ''refresh-token'', ''signature'', ''set-cookie'']"

text \<open>\<open>(^|_)signed(_|$)\<close>, where \<open>$\<close> also stands before a final line feed.\<close>

definition signed_word :: "string \<Rightarrow> bool" where
  "signed_word s \<longleftrightarrow>
     (let ps = split_char (CHR ''_'') s in ''signed'' \<in> set ps \<or> last ps = ''signed'' @ [newline])"

definition is_sensitive_key :: "string \<Rightarrow> bool" where
  "is_sensitive_key key \<longleftrightarrow>
     key \<in> set SENSITIVE_KEYS \<or> list_ex (contains_sub (fold_case key)) SENSITIVE_WORDS
     \<or> signed_word (fold_case key)"

definition SENSITIVE_QUERY :: "string list" where
  "SENSITIVE_QUERY =
     [''token'', ''access_token'', ''refresh_token'', ''id_token'', ''password'', ''secret'', ''signature'', ''sig'',
      ''x-amz-signature'', ''x-amz-credential'', ''x-amz-security-token'', ''x-amz-signedheaders'', ''api_key'',
      ''apikey'', ''authorization'', ''auth'']"

definition ABS_ROOTS :: "string list" where
  "ABS_ROOTS = [''home'', ''Users'', ''root'', ''var'', ''opt'', ''tmp'', ''etc'', ''usr'', ''mnt'', ''data'']"

definition looks_like_url :: "string \<Rightarrow> bool" where
  "looks_like_url value \<longleftrightarrow> contains_sub value ''://'' \<or> startswith value ''www.''"

definition abs_unix :: "string \<Rightarrow> bool" where
  "abs_unix value \<longleftrightarrow>
     list_ex (\<lambda>r. startswith value (''/'' @ r)
       \<and> (let rest = drop (Suc (length r)) value in rest = [] \<or> rest = [newline] \<or> startswith rest ''/'')) ABS_ROOTS"

definition abs_win :: "string \<Rightarrow> bool" where
  "abs_win value \<longleftrightarrow>
     (case value of
        a # b # c # _ \<Rightarrow> ascii_letter a \<and> b = CHR '':'' \<and> (c = backslash \<or> c = CHR ''/'') | _ \<Rightarrow> False)
     \<or> startswith value [backslash, backslash]"

definition looks_like_abs_path :: "string \<Rightarrow> bool" where
  "looks_like_abs_path value \<longleftrightarrow> \<not> looks_like_url value \<and> (abs_unix value \<or> abs_win value)"

definition safe_basename :: "string \<Rightarrow> string" where
  "safe_basename value =
     (let name = last (split_char (CHR ''/'') (rstrip_of (\<lambda>c. c = CHR ''/'') (replace_char backslash (CHR ''/'') value)))
      in if name = [] then ''redacted-path'' else name)"

section \<open>Texts\<close>

definition sensitive_param :: "string \<Rightarrow> bool" where
  "sensitive_param key \<longleftrightarrow> lower key \<in> set SENSITIVE_QUERY \<or> is_sensitive_key key"

definition sensitive_fragment :: "string \<Rightarrow> bool" where
  "sensitive_fragment fragment \<longleftrightarrow>
     fragment \<noteq> [] \<and> (is_sensitive_key fragment
       \<or> list_ex (\<lambda>part. lower part \<in> set SENSITIVE_QUERY) (split_char (CHR ''&'') fragment))"

definition strip_sensitive_query :: "text_env \<Rightarrow> string \<Rightarrow> string san" where
  "strip_sensitive_query T value =
     bindE (liftE (urlparse T value)) (\<lambda>u.
     if u_query u = [] \<and> u_fragment u = [] then returnE value
     else
       let params = parse_qsl (u_query u); kept = filter (\<lambda>(k, v). \<not> sensitive_param k) params;
           bad = sensitive_fragment (u_fragment u);
           changed = list_ex (\<lambda>(k, v). sensitive_param k) params \<or> bad
       in if \<not> changed then returnE value
          else thenE mark_redacted (returnE (urlunparse
                 (u\<lparr>u_query := urlencode kept, u_fragment := (if bad then [] else u_fragment u)\<rparr>))))"

definition sanitize_string :: "text_env \<Rightarrow> string \<Rightarrow> string san" where
  "sanitize_string T value =
     (if looks_like_url value then strip_sensitive_query T value
      else if looks_like_abs_path value then thenE mark_redacted (returnE (safe_basename value))
      else returnE value)"

section \<open>Previews\<close>

definition MAX_TOOL_PREVIEW_UTF8_BYTES :: nat where
  "MAX_TOOL_PREVIEW_UTF8_BYTES = 512"

definition REDACTED :: string where
  "REDACTED = ''[REDACTED]''"

definition quote_char :: "string \<Rightarrow> bool" where
  "quote_char u \<longleftrightarrow> u = [dquote] \<or> u = [squote]"

definition open_char :: "text_env \<Rightarrow> string \<Rightarrow> bool" where
  "open_char T u \<longleftrightarrow> \<not> is_blank T u \<and> \<not> quote_char u"

text \<open>\<open>_PREVIEW_BEARER_RE\<close>.\<close>

definition bearer_match :: "text_env \<Rightarrow> matcher" where
  "bearer_match T prev us =
     (let gap = span (is_blank T) (drop 6 us); val = span (open_char T) (drop (6 + gap) us) in
      if boundary T prev us \<and> lit_ci ''bearer'' us \<and> 0 < gap \<and> 0 < val then Some (6 + gap + val) else None)"

text \<open>\<open>_PREVIEW_KEY_VALUE_RE\<close>: the key with its separator (the group that is kept), and the value.\<close>

definition PREVIEW_WORDS :: "string list" where
  "PREVIEW_WORDS =
     [''authorization'', ''cookie'', ''apikey'', ''api_key'', ''api-key'', ''token'', ''password'', ''passwd'', ''secret'',
      ''privatekey'', ''private_key'', ''private-key'', ''credential'', ''accesskey'', ''access_key'', ''access-key'',
      ''refreshtoken'', ''refresh_token'', ''refresh-token'', ''signature'']"

definition key_part :: "text_env \<Rightarrow> string list \<Rightarrow> nat option" where
  "key_part T us =
     (case find (\<lambda>w. lit_ci w us) PREVIEW_WORDS of
        None \<Rightarrow> None
      | Some w \<Rightarrow>
          (let a = length w + span (\<lambda>u. is_word T u \<or> u = ''-'') (drop (length w) us);
               b = a + span (is_blank T) (drop a us);
               sep = drop b us in
           if sep \<noteq> [] \<and> (hd sep = '':'' \<or> hd sep = ''='')
           then Some (Suc b + span (is_blank T) (drop (Suc b) us)) else None))"

definition quoted_part :: "char \<Rightarrow> string list \<Rightarrow> nat option" where
  "quoted_part q us =
     (let n = span (\<lambda>u. u \<noteq> [q]) (drop 1 us) in
      if us \<noteq> [] \<and> hd us = [q] \<and> Suc n < length us then Some (n + 2) else None)"

definition value_part :: "text_env \<Rightarrow> string list \<Rightarrow> nat option" where
  "value_part T us =
     (let n = span (\<lambda>u. open_char T u \<and> u \<noteq> ''&'') us in
      case quoted_part dquote us of Some k \<Rightarrow> Some k
      | None \<Rightarrow> (case quoted_part squote us of Some k \<Rightarrow> Some k
         | None \<Rightarrow> if 0 < n then Some n else None))"

definition key_value_match :: "text_env \<Rightarrow> matcher" where
  "key_value_match T prev us =
     (case key_part T us of
        None \<Rightarrow> None
      | Some n \<Rightarrow> map_option (\<lambda>k. n + k) (value_part T (drop n us)))"

definition redact_value :: "text_env \<Rightarrow> string list \<Rightarrow> string" where
  "redact_value T us =
     (case key_part T us of None \<Rightarrow> concat us | Some n \<Rightarrow> concat (take n us) @ REDACTED)"

text \<open>\<open>_PREVIEW_URL_RE\<close>.\<close>

definition url_match :: "text_env \<Rightarrow> matcher" where
  "url_match T prev us =
     (let a = 1 + span (ascii_in (\<lambda>c. ascii_letter c \<or> ascii_digit c \<or> c \<in> set ''+.-'')) (drop 1 us);
          b = span (open_char T) (drop (a + 3) us) in
      if us \<noteq> [] \<and> ascii_in ascii_letter (hd us) \<and> lit ''://'' (drop a us) \<and> 0 < b then Some (a + 3 + b) else None)"

text \<open>\<open>_PREVIEW_TOKEN_RE\<close>: its five alternatives, in order.\<close>

definition letter_digit :: "string \<Rightarrow> bool" where
  "letter_digit = ascii_in (\<lambda>c. ascii_letter c \<or> ascii_digit c)"

definition one_char :: "string \<Rightarrow> string list \<Rightarrow> bool" where
  "one_char cs us \<longleftrightarrow> us \<noteq> [] \<and> ascii_in (\<lambda>c. c \<in> set cs) (hd us)"

definition token_run :: "text_env \<Rightarrow> string list \<Rightarrow> nat option" where
  "token_run T us =
     (let dashed = (\<lambda>u. letter_digit u \<or> u = ''-''); under = (\<lambda>u. letter_digit u \<or> u = ''_'' \<or> u = ''-'');
          upper = ascii_in (\<lambda>c. ascii_digit c \<or> ascii_letter c \<and> byte c \<le> 90);
          tries =
            [(lit ''sk-'' us, under, 8, None, 3),
             (lit ''gh'' us \<and> one_char ''pousr'' (drop 2 us) \<and> lit ''_'' (drop 3 us), letter_digit, 16, None, 4),
             (lit ''xox'' us \<and> one_char ''abprs'' (drop 3 us) \<and> lit ''-'' (drop 4 us), dashed, 8, None, 5),
             (lit ''AKIA'' us, upper, 16, Some 16, 4),
             (True, under, 40, None, 0)]
      in foldr (\<lambda>(ok, cls, lo, hi, pre) next.
            if \<not> ok then next
            else (case bounded_run T cls lo hi pre us of Some n \<Rightarrow> Some n | None \<Rightarrow> next)) tries None)"

definition token_match :: "text_env \<Rightarrow> matcher" where
  "token_match T prev us = (if boundary T prev us then token_run T us else None)"

text \<open>\<open>_PREVIEW_ABS_PATH_RE\<close>.\<close>

definition path_before :: "text_env \<Rightarrow> string option \<Rightarrow> bool" where
  "path_before T prev \<longleftrightarrow>
     (case prev of None \<Rightarrow> True | Some u \<Rightarrow> \<not> is_word T u \<and> u \<noteq> '':'' \<and> u \<noteq> ''/'' \<and> u \<noteq> ''.'')"

definition path_match :: "text_env \<Rightarrow> matcher" where
  "path_match T prev us =
     (if \<not> path_before T prev then None
      else case find (\<lambda>r. lit (''/'' @ r) us) ABS_ROOTS of
        Some r \<Rightarrow>
          (let n = Suc (length r) in
           Some (if lit ''/'' (drop n us) then Suc n + span (open_char T) (drop (Suc n) us) else n))
      | None \<Rightarrow>
          if us \<noteq> [] \<and> ascii_in ascii_letter (hd us) \<and> lit '':'' (drop 1 us)
             \<and> (lit [backslash] (drop 2 us) \<or> lit ''/'' (drop 2 us))
          then Some (3 + span (open_char T) (drop 3 us)) else None)"

text \<open>\<open>_mark\<close> in \<open>_sanitize_preview\<close>: a step that changes the text sets the flag.\<close>

definition mark_step :: "string san \<Rightarrow> string \<Rightarrow> string san" where
  "mark_step step s = bindE step (\<lambda>new. thenE (whenE (new \<noteq> s) mark_redacted) (returnE new))"

definition sanitize_preview :: "text_env \<Rightarrow> string \<Rightarrow> string san" where
  "sanitize_preview T value =
     bindE (mark_step (re_sub (bearer_match T) (\<lambda>us. returnE REDACTED) value) value) (\<lambda>s.
     bindE (mark_step (re_sub (key_value_match T) (\<lambda>us. returnE (redact_value T us)) s) s) (\<lambda>s.
     bindE (mark_step (re_sub (url_match T) (\<lambda>us. strip_sensitive_query T (concat us)) s) s) (\<lambda>s.
     bindE (mark_step (re_sub (token_match T) (\<lambda>us. returnE REDACTED) s) s) (\<lambda>s.
     bindE (mark_step (re_sub (path_match T) (\<lambda>us. returnE (safe_basename (concat us))) s) s) (\<lambda>s.
     if length s > MAX_TOOL_PREVIEW_UTF8_BYTES
     then thenE mark_truncated (returnE (clip_utf8 MAX_TOOL_PREVIEW_UTF8_BYTES s))
     else returnE s)))))"

section \<open>Nested values\<close>

lemma mapE_cong [fundef_cong]:
  "xs = ys \<Longrightarrow> (\<And>x. x \<in> set ys \<Longrightarrow> f x = g x) \<Longrightarrow> mapE xs f = mapE ys g"
proof (induction xs arbitrary: ys)
  case (Cons x xs)
  then show ?case by (cases ys) auto
qed simp

definition keep_some :: "'a option list \<Rightarrow> 'a list" where
  "keep_some xs = List.map_filter id xs"

fun sanitize_node :: "text_env \<Rightarrow> nat \<Rightarrow> json \<Rightarrow> json san" where
  "sanitize_node T depth (JObj d) =
     (if depth \<ge> MAX_TOOL_EVENT_JSON_DEPTH then thenE mark_truncated (returnE JNull)
      else bindE (mapE d (\<lambda>(key, item).
             if is_sensitive_key key then thenE mark_redacted (returnE None)
             else bindE (sanitize_node T (depth + 1) item) (\<lambda>v. returnE (Some (key, v)))))
           (\<lambda>kvs. returnE (JObj (keep_some kvs))))"
| "sanitize_node T depth (JList xs) =
     (if depth \<ge> MAX_TOOL_EVENT_JSON_DEPTH then thenE mark_truncated (returnE JNull)
      else bindE (mapE xs (\<lambda>item. sanitize_node T (depth + 1) item)) (\<lambda>vs. returnE (JList vs)))"
| "sanitize_node T depth (JStr s) = bindE (sanitize_string T s) (\<lambda>r. returnE (JStr r))"
| "sanitize_node T depth v = returnE v"

fun clip_depth :: "nat \<Rightarrow> json \<Rightarrow> json san" where
  "clip_depth depth (JObj d) =
     (if depth \<ge> MAX_TOOL_EVENT_JSON_DEPTH then thenE mark_truncated (returnE JNull)
      else bindE (mapE d (\<lambda>(key, item). bindE (clip_depth (depth + 1) item) (\<lambda>v. returnE (key, v))))
           (\<lambda>kvs. returnE (JObj kvs)))"
| "clip_depth depth (JList xs) =
     (if depth \<ge> MAX_TOOL_EVENT_JSON_DEPTH then thenE mark_truncated (returnE JNull)
      else bindE (mapE xs (\<lambda>item. clip_depth (depth + 1) item)) (\<lambda>vs. returnE (JList vs)))"
| "clip_depth depth v = returnE v"

section \<open>Sizes\<close>

definition too_large :: "json \<Rightarrow> bool" where
  "too_large v \<longleftrightarrow> payload_utf8_size v > MAX_TOOL_EVENT_UTF8_BYTES"

function trim_items :: "json list \<Rightarrow> json list" where
  "trim_items xs = (if xs \<noteq> [] \<and> too_large (JList xs) then trim_items (butlast xs) else xs)"
  by pat_completeness auto
termination
  by (relation "measure length") auto

declare trim_items.simps [simp del]

lemma set_trim_items: "set (trim_items xs) \<subseteq> set xs"
proof (induction xs rule: trim_items.induct)
  case (1 xs)
  then show ?case by (subst trim_items.simps) (auto dest: in_set_butlastD)
qed

lemma size_trim_items [termination_simp]:
  assumes "x \<in> set (trim_items xs)"
  shows "size x < Suc (size_list size xs)"
proof -
  have "x \<in> set xs" using assms set_trim_items by blast
  then show ?thesis by (simp add: size_list_estimation less_Suc_eq_le size_list_estimation')
qed

text \<open>
  \<open>_shrink_to_utf8_limit\<close> and its loop over the keys of a dict from the last one on:
  \<open>shrink_entries\<close> gets the entries still in the dict, last first.
\<close>

definition fit_string :: "dict \<Rightarrow> json \<Rightarrow> string \<Rightarrow> json" where
  "fit_string out item s =
     JStr (clip_utf8 (MAX_TOOL_EVENT_UTF8_BYTES - (payload_utf8_size (JObj out) - payload_utf8_size item)) s)"

lemma size_list_rev [simp]: "size_list f (rev xs) = size_list f xs"
  by (simp add: size_list_conv_sum_list rev_map sum_list_rev flip: rev_map)

function shrink_to_utf8_limit :: "json \<Rightarrow> json" and shrink_entries :: "dict \<Rightarrow> dict" where
  "shrink_to_utf8_limit v =
     (if \<not> too_large v then v
      else case v of
        JStr s \<Rightarrow> JStr (clip_utf8 MAX_TOOL_EVENT_UTF8_BYTES s)
      | JList xs \<Rightarrow> JList (List.map shrink_to_utf8_limit (trim_items xs))
      | JObj d \<Rightarrow> JObj (shrink_entries (rev d))
      | _ \<Rightarrow> JNull)"
| "shrink_entries [] = []"
| "shrink_entries ((key, item) # rest) =
     (let out = rev ((key, item) # rest) in
      if \<not> too_large (JObj out) then out
      else
        let item' = (if is_str item then fit_string out item (str_val item)
                     else if is_dict item \<or> is_list item then shrink_to_utf8_limit item else item);
            out' = rev ((key, item') # rest)
        in if too_large (JObj out') then shrink_entries rest else out')"
  by pat_completeness auto
termination
  by (relation "measure (case_sum size (\<lambda>d. size_list (size_prod (\<lambda>k. 0) size) d))")
     (auto simp: size_trim_items)

declare shrink_to_utf8_limit.simps [simp del] shrink_entries.simps [simp del]

text \<open>\<open>_shrink_to_utf8_limit\<close> sets the flag whenever it finds a value too large.\<close>

definition shrink :: "json \<Rightarrow> json san" where
  "shrink v = thenE (whenE (too_large v) mark_truncated) (returnE (shrink_to_utf8_limit v))"

definition jflag :: "bool \<Rightarrow> json" where
  "jflag b = JBool b"

definition set_flags :: "flags \<Rightarrow> dict \<Rightarrow> dict" where
  "set_flags f d = AList.update ''truncated'' (jflag (truncated f)) (AList.update ''redacted'' (jflag (redacted f)) d)"

definition COMPACT_KEYS :: "string list" where
  "COMPACT_KEYS = [''tool_name'', ''call_id'', ''status'', ''error_code'']"

definition compact_payload :: "dict \<Rightarrow> dict" where
  "compact_payload d = List.map (\<lambda>k. (k, dget d k)) (filter (has_key d) COMPACT_KEYS)"

definition bare_payload :: "flags \<Rightarrow> dict" where
  "bare_payload f = [(''redacted'', jflag (redacted f)), (''truncated'', jflag True)]"

definition finish_payload :: "json \<Rightarrow> dict san" where
  "finish_payload v =
     bindE (getsE id) (\<lambda>f.
     let fitted = set_flags f (case v of JObj d \<Rightarrow> d | _ \<Rightarrow> bare_payload f) in
     if too_large (JObj fitted)
     then thenE mark_truncated (returnE (set_flags (f\<lparr>truncated := True\<rparr>) (compact_payload fitted)))
     else returnE fitted)"

definition fit_public_payload :: "dict \<Rightarrow> dict san" where
  "fit_public_payload payload =
     bindE (clip_depth 1 (JObj payload)) (\<lambda>fitted.
     if \<not> is_dict fitted then bindE (getsE bare_payload) (\<lambda>p. thenE mark_truncated (returnE p))
     else bindE (if too_large fitted then shrink fitted else returnE fitted) finish_payload)"

end
