(* ===== verification/Native_Events.thy ===== *)
theory Native_Events
  imports Event_Sanitizer Coalescer
begin

text \<open>
  \<open>NativeEventNormalizer\<close> of \<open>services/native_event_normalizer.py\<close>: it turns the events of a Hermes
  runtime into the semantic events of a run. Its state: a counter for source event ids, the tool
  calls still open, the message being streamed with its number of deltas and its text, the text
  of closed messages, the fingerprints of the deltas sent, and what it rejected, traced or had to close.
\<close>

section \<open>State\<close>

record native_event =
  ne_type :: string
  ne_payload :: dict
  ne_source_event_id :: string

record open_tool =
  ot_tool_name :: string
  ot_call_id :: string
  ot_segment_seq :: nat
  ot_confidence :: string

record normalizer =
  attempt_id :: string
  source_prefix :: string
  coal :: coalescer
  counter :: nat
  message_counter :: nat
  segment_seq :: nat
  open_tools :: "open_tool list"
  message_id :: "string option"
  delta_seq :: nat
  segment_text :: string
  closed_text :: string
  fingerprints :: "((string \<times> nat) \<times> string) list"
  rejected :: "(string \<times> dict) list"
  traces :: "(string \<times> dict) list"
  gaps :: "(string \<times> string \<times> string) list"
  drained :: nat

type_synonym 'a norm = "(normalizer, 'a) prog"

definition new_normalizer :: "string \<Rightarrow> string \<Rightarrow> normalizer" where
  "new_normalizer attempt prefix =
     \<lparr>attempt_id = attempt, source_prefix = prefix, coal = new_coalescer, counter = 0, message_counter = 0,
      segment_seq = 0, open_tools = [], message_id = None, delta_seq = 0, segment_text = [], closed_text = [],
      fingerprints = [], rejected = [], traces = [], gaps = [], drained = 0\<rparr>"

definition emitted_assistant :: "normalizer \<Rightarrow> string" where
  "emitted_assistant n = closed_text n @ segment_text n"

text \<open>What the code takes from outside: the Unicode database and \<open>json.loads\<close>.\<close>

record native_env =
  texts_of :: text_env
  loads :: "string \<Rightarrow> json option"

section \<open>Reading a runtime event\<close>

definition PHASE_STAGE :: "(string \<times> string) list" where
  "PHASE_STAGE =
     [(''PREPARING'', ''preparing''), (''RUNTIME_STARTING'', ''runtime_starting''),
      (''RUNTIME_RUNNING'', ''runtime_running''), (''WAITING_APPROVAL'', ''waiting_approval''),
      (''STOPPING'', ''stopping''), (''RECONCILING'', ''reconciling'')]"

definition DELTA_TYPES :: "string list" where
  "DELTA_TYPES = [''message.delta'', ''assistant.delta'', ''token.delta'', ''response.output_text.delta'']"

definition INTERNAL_TYPES :: "string list" where
  "INTERNAL_TYPES =
     [''reasoning.available'', ''subagent.start'', ''subagent.started'', ''subagent.complete'',
      ''subagent.completed'', ''approval.responded'', ''run.steered'']"

definition RUNTIME_TERMINAL_TYPES :: "string list" where
  "RUNTIME_TERMINAL_TYPES =
     [''run.completed'', ''run.failed'', ''run.cancelled'', ''run.canceled'', ''run.interrupted'']"

definition ARGUMENT_KEYS :: "string list" where
  "ARGUMENT_KEYS = [''arguments'', ''input'', ''params'', ''args'']"

definition progress_payload :: "string \<Rightarrow> string \<Rightarrow> dict" where
  "progress_payload phase message =
     (let canonical = upper phase;
          stage = (case map_of PHASE_STAGE canonical of Some s \<Rightarrow> s | None \<Rightarrow> lower canonical)
      in [(''phase'', JStr canonical), (''stage'', JStr stage), (''message'', JStr message)])"

definition event_type_of :: "dict \<Rightarrow> string" where
  "event_type_of data =
     strip (py_str (or_else (dget data ''type'') (or_else (dget data ''event_type'')
       (or_else (dget data ''event'') (JStr [])))))"

definition payload_of :: "dict \<Rightarrow> dict" where
  "payload_of data = (case dget data ''payload'' of JObj d \<Rightarrow> d | _ \<Rightarrow> data)"

text \<open>The first of the keys with a text that is not empty.\<close>

definition first_text :: "dict \<Rightarrow> string list \<Rightarrow> string" where
  "first_text payload keys =
     (case find (\<lambda>k. nonempty_str (dget payload k)) keys of None \<Rightarrow> [] | Some k \<Rightarrow> str_val (dget payload k))"

definition delta_text :: "dict \<Rightarrow> string" where
  "delta_text payload =
     (let delta = dget payload ''delta'' in
      if nonempty_str delta then str_val delta
      else if nonempty_str (jget delta ''content'') then str_val (jget delta ''content'')
      else first_text payload [''text'', ''content'', ''message''])"

definition tool_name_of :: "dict \<Rightarrow> string" where
  "tool_name_of payload = first_text payload [''tool_name'', ''tool'', ''name'', ''function_name'']"

definition upstream_id :: "dict \<Rightarrow> json" where
  "upstream_id payload =
     or_else (dget payload ''tool_call_id'') (or_else (dget payload ''call_id'') (dget payload ''id''))"

definition structured_arguments :: "native_env \<Rightarrow> json \<Rightarrow> dict option" where
  "structured_arguments N value =
     (case value of
        JObj d \<Rightarrow> Some d
      | JStr s \<Rightarrow> if strip s = [] then None else (case loads N s of Some (JObj d) \<Rightarrow> Some d | _ \<Rightarrow> None)
      | _ \<Rightarrow> None)"

definition extract_structured_arguments :: "native_env \<Rightarrow> dict \<Rightarrow> dict option" where
  "extract_structured_arguments N payload =
     (case find (has_key payload) ARGUMENT_KEYS of
        None \<Rightarrow> None
      | Some k \<Rightarrow> structured_arguments N (dget payload k))"

text \<open>
  The content is the first text that is not empty; the structured content, where the payload
  names none, is the first list or dict before it.
\<close>

definition RESULT_KEYS :: "string list" where
  "RESULT_KEYS = [''content'', ''output'', ''text'', ''result'']"

definition extract_result_content :: "dict \<Rightarrow> string option \<times> json" where
  "extract_result_content payload =
     (let named = (if dget payload ''structured_content'' = JNull then dget payload ''structuredContent''
                   else dget payload ''structured_content'');
          values = List.map (dget payload) RESULT_KEYS;
          before = takeWhile (\<lambda>v. \<not> nonempty_str v) values;
          content = map_option str_val (find nonempty_str values)
      in (content, if named \<noteq> JNull then named
                   else case find (\<lambda>v. is_dict v \<or> is_list v) before of None \<Rightarrow> JNull | Some v \<Rightarrow> v))"

definition extract_error_fields :: "dict \<Rightarrow> string option \<times> string option" where
  "extract_error_fields payload =
     (let code = dget payload ''error_code''; message = dget payload ''error_message'';
          error = dget payload ''error'';
          field = (\<lambda>own a b. if nonempty_str own then own
                     else let raw = or_else (jget error a) (jget error b) in if is_str raw then raw else own);
          code = (if is_dict error then field code ''code'' ''error_code'' else code);
          message = (if is_dict error then field message ''message'' ''error_message''
                     else if nonempty_str error \<and> \<not> is_str message then error else message)
      in (if nonempty_str code then Some (str_val code) else None,
          if is_str message then Some (str_val message) else None))"

section \<open>Events, traces, rejections\<close>

definition on_coal :: "(coalescer, 'a) prog \<Rightarrow> 'a norm" where
  "on_coal m = (\<lambda>n. case m (coal n) of (r, c) \<Rightarrow> (r, n\<lparr>coal := c\<rparr>))"

definition run_san :: "'a san \<Rightarrow> 'a norm" where
  "run_san m = liftE (fst (m no_flags))"

definition next_counter :: "nat norm" where
  "next_counter = (\<lambda>n. (Inr (Suc (counter n)), n\<lparr>counter := Suc (counter n)\<rparr>))"

definition event_id :: "normalizer \<Rightarrow> nat \<Rightarrow> string" where
  "event_id n k = source_prefix n @ '':'' @ show_int (int k)"

definition sot :: "string \<Rightarrow> dict \<Rightarrow> native_event norm" where
  "sot ty payload =
     bindE next_counter (\<lambda>k. bindE (getsE (\<lambda>n. event_id n k)) (\<lambda>i.
       returnE \<lparr>ne_type = ty, ne_payload = payload, ne_source_event_id = i\<rparr>))"

definition next_id :: "string \<Rightarrow> string norm" where
  "next_id kind = bindE next_counter (\<lambda>k. returnE (kind @ '':'' @ show_int (int k)))"

definition strip_sensitive :: "native_env \<Rightarrow> dict \<Rightarrow> dict norm" where
  "strip_sensitive N payload =
     bindE (run_san (sanitize_node (texts_of N) 1 (JObj payload))) (\<lambda>v. returnE (dict_of v))"

definition trace :: "native_env \<Rightarrow> string \<Rightarrow> dict \<Rightarrow> unit norm" where
  "trace N ty payload =
     bindE (strip_sensitive N payload) (\<lambda>d. modifyE (\<lambda>n. n\<lparr>traces := traces n @ [(ty, d)]\<rparr>))"

definition reject_payload :: "string \<Rightarrow> dict \<Rightarrow> unit norm" where
  "reject_payload reason details = modifyE (\<lambda>n. n\<lparr>rejected := rejected n @ [(reason, details)]\<rparr>)"

section \<open>The streamed message\<close>

definition ensure_message_segment :: "unit norm" where
  "ensure_message_segment = modifyE (\<lambda>n.
     if message_id n = None
     then n\<lparr>message_counter := Suc (message_counter n),
            message_id := Some (''msg_'' @ attempt_id n @ ''_'' @ show_int (int (Suc (message_counter n)))),
            delta_seq := 0, segment_text := []\<rparr>
     else n)"

definition reset_message_segment :: "unit norm" where
  "reset_message_segment = modifyE (\<lambda>n. n\<lparr>message_id := None, delta_seq := 0, segment_text := []\<rparr>)"

definition the_id :: "normalizer \<Rightarrow> string" where
  "the_id n = (case message_id n of None \<Rightarrow> [] | Some i \<Rightarrow> i)"

definition too_long :: "string \<Rightarrow> bool" where
  "too_long s \<longleftrightarrow> int (length s) > MAX_SNAPSHOT_UTF8_BYTES"

definition accept_delta :: "string \<Rightarrow> native_event norm" where
  "accept_delta chunk =
     thenE (modifyE (\<lambda>n. n\<lparr>delta_seq := Suc (delta_seq n),
              fingerprints := AList.update (the_id n, Suc (delta_seq n)) chunk (fingerprints n),
              segment_text := segment_text n @ chunk\<rparr>))
     (bindE (getsE id) (\<lambda>n.
      sot ''assistant.delta''
        [(''message_id'', JStr (the_id n)), (''delta_seq'', JInt (int (delta_seq n))), (''delta'', JStr chunk)]))"

definition append_delta :: "string \<Rightarrow> native_event option norm" where
  "append_delta chunk =
     (if chunk = [] then returnE None
      else thenE ensure_message_segment (bindE (getsE id) (\<lambda>n.
        let next_seq = Suc (delta_seq n); prior = map_of (fingerprints n) (the_id n, next_seq);
            candidate = segment_text n @ chunk in
        if prior \<noteq> None \<and> prior \<noteq> Some chunk then
          thenE (reject_payload ''delta_seq_conflict''
             [(''message_id'', JStr (the_id n)), (''delta_seq'', JInt (int next_seq)),
              (''existing'', jopt prior), (''incoming'', JStr chunk)]) (returnE None)
        else if too_long candidate then
          thenE (reject_payload ''snapshot_too_large''
             [(''message_id'', JStr (the_id n)), (''size'', JInt (int (length candidate)))]) (returnE None)
        else bindE (accept_delta chunk) (\<lambda>e. returnE (Some e)))))"

definition emit_text :: "string \<Rightarrow> native_event list norm" where
  "emit_text s =
     (if s = [] then returnE []
      else bindE (liftE (split_utf8_by_bytes s MAX_DELTA_UTF8_BYTES)) (\<lambda>chunks.
           bindE (mapE chunks append_delta) (\<lambda>es. returnE (keep_some es))))"

definition emit_delta_chunks :: "string list \<Rightarrow> native_event list norm" where
  "emit_delta_chunks ss = bindE (mapE ss emit_text) (\<lambda>ess. returnE (concat ess))"

definition message_event :: "string \<Rightarrow> string \<Rightarrow> native_event norm" where
  "message_event mid s = sot ''assistant.message'' [(''message_id'', JStr mid), (''text'', JStr s)]"

text \<open>\<open>_close_message_segment\<close> after its flush: the message event, and no current message.\<close>

definition end_segment :: "native_event list norm" where
  "end_segment =
     bindE (getsE id) (\<lambda>n.
     if message_id n = None then returnE []
     else if segment_text n = [] then thenE reset_message_segment (returnE [])
     else if too_long (segment_text n) then
       thenE (reject_payload ''snapshot_too_large''
          [(''message_id'', JStr (the_id n)), (''size'', JInt (int (length (segment_text n))))])
         (thenE reset_message_segment (returnE []))
     else
       bindE (message_event (the_id n) (segment_text n)) (\<lambda>e.
       thenE (modifyE (\<lambda>n. n\<lparr>closed_text := closed_text n @ segment_text n\<rparr>))
       (thenE reset_message_segment (returnE [e]))))"

definition close_message_segment :: "native_event list norm" where
  "close_message_segment =
     bindE (bindE (on_coal flush_chunks) emit_delta_chunks) (\<lambda>events.
     bindE end_segment (\<lambda>more. returnE (events @ more)))"

definition emit_direct_snapshot :: "string \<Rightarrow> native_event list norm" where
  "emit_direct_snapshot s =
     (if too_long s then thenE (reject_payload ''snapshot_too_large'' [(''size'', JInt (int (length s)))]) (returnE [])
      else thenE ensure_message_segment (bindE (getsE the_id) (\<lambda>mid.
           thenE (modifyE (\<lambda>n. n\<lparr>segment_text := s, closed_text := closed_text n @ s\<rparr>))
           (thenE reset_message_segment (bindE (message_event mid s) (\<lambda>e. returnE [e]))))))"

definition is_duplicate_assistant :: "string \<Rightarrow> normalizer \<Rightarrow> bool" where
  "is_duplicate_assistant s n \<longleftrightarrow>
     s = emitted_assistant n \<or> s = emitted_assistant n @ buffered_text (coal n)"

definition emit_assistant_snapshot :: "int \<Rightarrow> string \<Rightarrow> native_event list norm" where
  "emit_assistant_snapshot now s =
     (if s = [] then returnE []
      else bindE (getsE id) (\<lambda>n.
        let current = segment_text n @ buffered_text (coal n) in
        if is_duplicate_assistant s n then returnE []
        else if current \<noteq> [] \<and> startswith s current then
          (let extension = drop (length current) s in
           if extension = [] then close_message_segment
           else bindE (bindE (on_coal (push now extension)) emit_delta_chunks) (\<lambda>events.
                bindE close_message_segment (\<lambda>more. returnE (events @ more))))
        else if current \<noteq> [] then
          thenE (reject_payload ''assistant_snapshot_conflict''
             [(''existing'', JStr current), (''incoming'', JStr s)]) close_message_segment
        else emit_direct_snapshot s))"

definition ingest_assistant_text :: "int \<Rightarrow> string \<Rightarrow> native_event list norm" where
  "ingest_assistant_text now s =
     bindE (getsE id) (\<lambda>n.
     let emitted = emitted_assistant n; current = emitted @ buffered_text (coal n);
         rest = (if current \<noteq> [] \<and> startswith s current then drop (length current) s else s) in
     if s = emitted \<or> s = current then returnE []
     else if current \<noteq> [] \<and> startswith s current \<and> rest = [] then returnE []
     else bindE (on_coal (push now rest)) emit_delta_chunks)"

definition flush_due_to_latency :: "int \<Rightarrow> native_event list norm" where
  "flush_due_to_latency now = bindE (on_coal (flush_if_stale_chunks now)) emit_delta_chunks"

section \<open>Tools\<close>

definition started_tool_payload :: "native_env \<Rightarrow> string \<Rightarrow> string \<Rightarrow> dict \<Rightarrow> dict san" where
  "started_tool_payload N tool_name call_id payload =
     thenE (apply_upstream_flags payload)
     (bindE (case extract_structured_arguments N payload of
        Some raw \<Rightarrow>
          bindE (sanitize_node (texts_of N) 2 (JObj raw)) (\<lambda>cleaned.
          thenE (whenE (\<not> is_dict cleaned) mark_truncated)
            (returnE (if is_dict cleaned then cleaned else JNull)))
      | None \<Rightarrow>
          let preview = dget payload ''preview'' in
          if is_str preview \<and> strip (str_val preview) \<noteq> [] then
            bindE (sanitize_preview (texts_of N) (strip (str_val preview)))
              (\<lambda>p. returnE (JObj [(''preview'', JStr p)]))
          else returnE JNull) (\<lambda>arguments.
      bindE (getsE id) (\<lambda>f.
      fit_public_payload
        [(''tool_name'', JStr tool_name), (''call_id'', JStr call_id), (''status'', JStr ''started''),
         (''arguments'', arguments), (''redacted'', jflag (redacted f)), (''truncated'', jflag (truncated f))])))"

definition sanitize_text :: "native_env \<Rightarrow> string option \<Rightarrow> string option san" where
  "sanitize_text N s =
     (case s of None \<Rightarrow> returnE None
      | Some x \<Rightarrow> bindE (sanitize_string (texts_of N) x) (\<lambda>y. returnE (Some y)))"

definition given :: "string \<Rightarrow> json \<Rightarrow> dict" where
  "given k v = (if v = JNull then [] else [(k, v)])"

definition tool_result_payload :: "native_env \<Rightarrow> open_tool \<Rightarrow> dict \<Rightarrow> string \<Rightarrow> dict san" where
  "tool_result_payload N opened payload status =
     (let (content, structured) = extract_result_content payload;
          (code, message) = extract_error_fields payload;
          code = (if status = ''failed'' \<and> code = None
                  then Some (if payload = [] then ''UNPAIRED_TOOL_START'' else ''TOOL_FAILED'') else code) in
      thenE (apply_upstream_flags payload)
      (bindE (sanitize_text N content) (\<lambda>content.
       bindE (if structured = JNull then returnE JNull else sanitize_node (texts_of N) 2 structured) (\<lambda>structured.
       bindE (sanitize_text N message) (\<lambda>message.
       bindE (getsE id) (\<lambda>f.
       fit_public_payload
         ([(''tool_name'', JStr (ot_tool_name opened)), (''call_id'', JStr (ot_call_id opened)),
           (''status'', JStr status), (''redacted'', jflag (redacted f)), (''truncated'', jflag (truncated f))]
          @ given ''content'' (jopt content) @ given ''structured_content'' structured
          @ given ''error_code'' (jopt code)
          @ (if str_set message then [(''error_message'', jopt message)] else []))))))))"

definition same_name_low :: "string \<Rightarrow> open_tool list \<Rightarrow> open_tool list" where
  "same_name_low tool_name = List.map (\<lambda>t. if ot_tool_name t = tool_name then t\<lparr>ot_confidence := ''low''\<rparr> else t)"

text \<open>The call a start event opens, with the sequence number already counted.\<close>

definition low_confidence :: "dict \<Rightarrow> open_tool list \<Rightarrow> bool" where
  "low_confidence payload ts \<longleftrightarrow>
     \<not> nonempty_str (upstream_id payload) \<and> list_ex (\<lambda>t. ot_tool_name t = tool_name_of payload) ts"

definition opened_tool :: "dict \<Rightarrow> normalizer \<Rightarrow> open_tool" where
  "opened_tool payload n =
     \<lparr>ot_tool_name = tool_name_of payload,
      ot_call_id = (if nonempty_str (upstream_id payload) then str_val (upstream_id payload)
                    else attempt_id n @ '':'' @ tool_name_of payload @ '':'' @ show_int (int (segment_seq n))),
      ot_segment_seq = segment_seq n,
      ot_confidence = (if low_confidence payload (open_tools n) then ''low'' else ''high'')\<rparr>"

definition push_tool :: "dict \<Rightarrow> open_tool \<Rightarrow> normalizer \<Rightarrow> normalizer" where
  "push_tool payload t n = n\<lparr>open_tools :=
     (if low_confidence payload (open_tools n) then same_name_low (ot_tool_name t) (open_tools n) else open_tools n) @ [t]\<rparr>"

definition start_tool :: "native_env \<Rightarrow> dict \<Rightarrow> native_event list norm" where
  "start_tool N payload =
     (if tool_name_of payload = [] then returnE []
      else
        thenE (modifyE (\<lambda>n. n\<lparr>segment_seq := Suc (segment_seq n)\<rparr>))
        (bindE (getsE (opened_tool payload)) (\<lambda>t.
         thenE (modifyE (push_tool payload t))
         (thenE (trace N ''tool.correlation''
            [(''tool_name'', JStr (ot_tool_name t)), (''call_id'', JStr (ot_call_id t)),
             (''correlation_confidence'', JStr (ot_confidence t))])
         (bindE (run_san (started_tool_payload N (ot_tool_name t) (ot_call_id t) payload)) (\<lambda>p.
          bindE (sot ''tool.call'' p) (\<lambda>e. returnE [e])))))))"

text \<open>The open call a completion belongs to: by its id, otherwise the oldest one of that name.\<close>

fun index_of :: "('a \<Rightarrow> bool) \<Rightarrow> 'a list \<Rightarrow> nat option" where
  "index_of p [] = None"
| "index_of p (x # xs) = (if p x then Some 0 else map_option Suc (index_of p xs))"

definition match_index :: "dict \<Rightarrow> open_tool list \<Rightarrow> nat option" where
  "match_index payload ts =
     (let upstream = upstream_id payload; tool_name = tool_name_of payload;
          by_id = (if nonempty_str upstream then index_of (\<lambda>t. ot_call_id t = str_val upstream) ts else None)
      in if by_id = None \<and> tool_name \<noteq> [] then index_of (\<lambda>t. ot_tool_name t = tool_name) ts else by_id)"

definition without :: "nat \<Rightarrow> 'a list \<Rightarrow> 'a list" where
  "without i xs = take i xs @ drop (Suc i) xs"

text \<open>The two events that end a call.\<close>

definition finish_call :: "native_env \<Rightarrow> open_tool \<Rightarrow> dict \<Rightarrow> string \<Rightarrow> native_event list norm" where
  "finish_call N opened payload status =
     bindE (sot ''tool.call''
        [(''tool_name'', JStr (ot_tool_name opened)), (''call_id'', JStr (ot_call_id opened)), (''status'', JStr status)])
       (\<lambda>call.
     bindE (run_san (tool_result_payload N opened payload status)) (\<lambda>p.
     bindE (sot ''tool.result'' p) (\<lambda>result. returnE [call, result])))"

definition complete_tool :: "native_env \<Rightarrow> dict \<Rightarrow> bool \<Rightarrow> native_event list norm" where
  "complete_tool N payload failed =
     bindE (getsE open_tools) (\<lambda>ts.
     case match_index payload ts of
       None \<Rightarrow> returnE []
     | Some i \<Rightarrow>
         thenE (modifyE (\<lambda>n. n\<lparr>open_tools := without i ts\<rparr>))
           (finish_call N (ts ! i) payload (if failed then ''failed'' else ''completed'')))"

definition passthrough_tool_call :: "native_env \<Rightarrow> dict \<Rightarrow> native_event list norm" where
  "passthrough_tool_call N payload =
     (let tool_name = tool_name_of payload;
          call_id = or_else (dget payload ''call_id'') (dget payload ''id'');
          given_status = or_else (dget payload ''status'') (JStr ''started'') in
      if tool_name = [] \<or> \<not> nonempty_str call_id then returnE []
      else
        bindE (liftE (member_of given_status TOOL_CALL_STATUSES)) (\<lambda>known.
        let status = (if known then given_status else JStr ''started'') in
        if status = JStr ''started'' then start_tool N payload
        else
          bindE (getsE open_tools) (\<lambda>ts.
          bindE (if list_ex (\<lambda>t. ot_call_id t = str_val call_id) ts then returnE [] else start_tool N payload)
            (\<lambda>started.
          bindE (complete_tool N payload (status = JStr ''failed'' \<or> truthy (dget payload ''error'')))
            (\<lambda>finished. returnE (started @ finished))))))"

text \<open>
  The loop of \<open>close\<close>: as long as a call is open, take the oldest and end it. It ends because
  ending a call opens none.
\<close>

lemma finish_call_open: "open_tools (snd (finish_call N t payload status n)) = open_tools n"
  by (simp add: finish_call_def sot_def next_counter_def run_san_def bindE_def getsE_def liftE_def returnE_def
      split: sum.splits prod.splits)

function close_tools :: "native_env \<Rightarrow> string \<Rightarrow> native_event list norm" where
  "close_tools N mapped n =
     (case open_tools n of
        [] \<Rightarrow> (Inr [], n)
      | t # ts \<Rightarrow>
          (case finish_call N t [] mapped (n\<lparr>open_tools := ts\<rparr>) of
             (Inl e, n') \<Rightarrow> (Inl e, n')
           | (Inr es, n') \<Rightarrow>
               (case close_tools N mapped
                       (n'\<lparr>gaps := gaps n' @ [(ot_tool_name t, ot_call_id t, mapped)]\<rparr>) of
                  (Inl e, n'') \<Rightarrow> (Inl e, n'')
                | (Inr rest, n'') \<Rightarrow> (Inr (es @ rest), n''))))"
  by pat_completeness auto
termination
proof (relation "measure (\<lambda>(N, mapped, n). length (open_tools n))", simp, goal_cases)
  case (1 N mapped n t ts es' n' e)
  have "open_tools n' = ts"
    using finish_call_open [of N t "[]" mapped "n\<lparr>open_tools := ts\<rparr>"] 1(2) [symmetric] by simp
  then show ?case using 1 by simp
qed

declare close_tools.simps [simp del]

definition SUCCESS_STATUSES :: "string list" where
  "SUCCESS_STATUSES = [''completed'', ''succeeded'', ''success'']"

definition close :: "native_env \<Rightarrow> string \<Rightarrow> native_event list norm" where
  "close N terminal_status =
     bindE close_message_segment (\<lambda>events.
     bindE (close_tools N (if terminal_status \<in> set SUCCESS_STATUSES then ''completed'' else ''failed''))
       (\<lambda>more. returnE (events @ more)))"

section \<open>Ingesting an event\<close>

definition approval_event :: "dict \<Rightarrow> native_event list norm" where
  "approval_event payload =
     (let approval_id = or_else (dget payload ''approval_id'') (dget payload ''id'');
          summary = or_else (dget payload ''summary'') (or_else (dget payload ''text'') (dget payload ''message''))
      in bindE (if nonempty_str approval_id then returnE (str_val approval_id)
                else bindE (next_id ''approval'') (\<lambda>i. getsE (\<lambda>n. attempt_id n @ '':approval:'' @ i))) (\<lambda>i.
         bindE (sot ''approval.requested''
           [(''approval_id'', JStr i),
            (''summary'', JStr (if nonempty_str summary then str_val summary else ''approval requested''))])
           (\<lambda>e. returnE [e])))"

text \<open>Ending the streamed message first, then the events of \<open>m\<close>.\<close>

definition after_segment :: "native_event list norm \<Rightarrow> native_event list norm" where
  "after_segment m =
     bindE close_message_segment (\<lambda>events. bindE m (\<lambda>more. returnE (events @ more)))"

definition ingest_terminal :: "native_env \<Rightarrow> int \<Rightarrow> string \<Rightarrow> dict \<Rightarrow> native_event list norm" where
  "ingest_terminal N now ty payload =
     (let status = (if ty = ''run.completed'' then ''completed'' else ''failed'');
          output = or_else (dget payload ''output'') (dget payload ''final_response'') in
      bindE (close N status) (\<lambda>events.
      bindE (getsE emitted_assistant) (\<lambda>emitted.
      if status = ''completed'' \<and> is_str output \<and> strip (str_val output) \<noteq> [] \<and> emitted = [] then
        bindE (emit_assistant_snapshot now (strip (str_val output))) (\<lambda>first. returnE (first @ events))
      else returnE events)))"

definition text_event :: "string \<Rightarrow> string \<Rightarrow> json \<Rightarrow> dict \<Rightarrow> native_event list norm" where
  "text_event ty field value opts =
     (if nonempty_str value then bindE (sot ty ([(field, value)] @ opts)) (\<lambda>e. returnE [e]) else returnE [])"

definition is_model_chunk :: "dict \<Rightarrow> bool" where
  "is_model_chunk data \<longleftrightarrow>
     has_key data ''choices''
     \<or> (is_dict (dget data ''delta'') \<and> has_key (dict_of (dget data ''delta'')) ''content'' \<and> event_type_of data = [])"

definition ingest :: "native_env \<Rightarrow> int \<Rightarrow> dict \<Rightarrow> native_event list norm" where
  "ingest N now data =
     (let ty = event_type_of data; payload = payload_of data; get = dget payload in
      if is_model_chunk data then returnE []
      else if ty \<in> set DELTA_TYPES then bindE (on_coal (push now (delta_text payload))) emit_delta_chunks
      else if ty \<in> set INTERNAL_TYPES \<or> startswith ty ''subagent.'' then thenE (trace N ty payload) (returnE [])
      else if ty \<in> set RUNTIME_TERMINAL_TYPES then ingest_terminal N now ty payload
      else if ty \<in> {''tool.started'', ''tool.start''} then after_segment (start_tool N payload)
      else if ty \<in> {''tool.completed'', ''tool.complete'', ''tool.failed''} then
        after_segment (complete_tool N payload (ty = ''tool.failed'' \<or> truthy (get ''error'')))
      else if ty \<in> {''approval.request'', ''approval.requested''} then after_segment (approval_event payload)
      else if ty \<in> {''assistant.message'', ''message'', ''agent.message''} then
        (let s = or_else (get ''text'') (or_else (get ''content'') (get ''message'')) in
         if nonempty_str s then ingest_assistant_text now (str_val s) else returnE [])
      else if ty = ''reasoning.summary'' then
        text_event ty ''summary'' (or_else (get ''reasoning_summary'') (get ''summary'')) []
      else if ty \<in> {''tool.call'', ''tool_call''} then after_segment (passthrough_tool_call N payload)
      else if ty \<in> {''clarify.requested'', ''clarify''} then
        text_event ''clarify.requested'' ''question'' (get ''question'')
          (if is_list (get ''options'') then [(''options'', get ''options'')] else [])
      else returnE [])"

definition trace_event :: "string \<times> dict \<Rightarrow> native_event list norm" where
  "trace_event tr =
     (if startswith (fst tr) ''subagent.''
      then bindE (sot ''internal.runtime.trace''
             [(''runtime_event_type'', JStr (fst tr)), (''category'', JStr ''subagent'')]) (\<lambda>e. returnE [e])
      else returnE [])"

definition drain_internal_traces :: "native_event list norm" where
  "drain_internal_traces =
     bindE (getsE (\<lambda>n. drop (drained n) (traces n))) (\<lambda>pending.
     thenE (modifyE (\<lambda>n. n\<lparr>drained := length (traces n)\<rparr>))
     (bindE (mapE pending trace_event) (\<lambda>ess. returnE (concat ess))))"

text \<open>\<open>normalize_native_event\<close>: with the normaliser given, or a new one.\<close>

definition normalize_native_event ::
  "native_env \<Rightarrow> int \<Rightarrow> dict \<Rightarrow> string \<Rightarrow> string \<Rightarrow> normalizer option \<Rightarrow> (exn + native_event list) \<times> normalizer" where
  "normalize_native_event N now data attempt prefix owner =
     ingest N now data (case owner of None \<Rightarrow> new_normalizer attempt prefix | Some n \<Rightarrow> n)"

end
