(* ===== verification/Hermes_Engine.thy ===== *)
theory Hermes_Engine
  imports Runtime_Contract Attachments Native_Events
begin

text \<open>
  \<open>execute_hermes_run\<close> of \<open>services/hermes_engine.py\<close>: the asynchronous generator that runs a task on
  a Hermes runtime and yields its events to the worker. It checks the runtime against its contract,
  submits the run, follows its event stream, and when that ends asks for the state of the run until
  it is over. The function is cut along its phases; each says whether the generator goes on.
\<close>

section \<open>The state of the generator\<close>

text \<open>
  What a read of the event stream gives: a line, nothing for 0.1 seconds, its end, a network error, or
  another exception (\<open>httpx.RemoteProtocolError\<close> and the like).
\<close>

datatype tick = Line string | Quiet | StreamEnd | StreamLost | StreamFault string

text \<open>
  The stream, the cancel event and the monotonic clock (in milliseconds) answer by how often they were
  asked. Whoever consumes the events acts between two of them: \<open>x_between n\<close> is what happens to the
  world after the \<open>n\<close>-th event.
\<close>

record engine_env =
  x_env :: env
  x_net :: net_env
  x_native :: native_env
  x_digits :: digits
  x_stream :: "nat \<Rightarrow> tick"
  x_cancel :: "nat \<Rightarrow> bool"
  x_monotonic :: "nat \<Rightarrow> int"
  x_between :: "nat \<Rightarrow> world \<Rightarrow> world"
  x_timeout_seconds :: int
  x_rich_tool_gate :: bool
  x_mcp_url :: string
  x_capability_ttl :: int

record engine =
  wd :: world
  out :: "yield_event list"
  nm :: normalizer
  reads :: nat
  looks :: nat
  times :: nat

type_synonym 'a eng = "(engine, 'a) prog"

text \<open>
  How a phase ends: the generator goes on, has returned, or is still in a loop after the given number of
  rounds (then what it yielded so far is a prefix of what it will yield).
\<close>

datatype 'a flow = Next 'a | Returned | Running

definition bindF :: "'a flow eng \<Rightarrow> ('a \<Rightarrow> 'b flow eng) \<Rightarrow> 'b flow eng" where
  "bindF m f = bindE m (\<lambda>r. case r of Next a \<Rightarrow> f a | Returned \<Rightarrow> returnE Returned | Running \<Rightarrow> returnE Running)"

definition onW :: "'a op \<Rightarrow> 'a eng" where
  "onW m = (\<lambda>s. case m (wd s) of (r, w) \<Rightarrow> (r, s\<lparr>wd := w\<rparr>))"

definition onN :: "'a norm \<Rightarrow> 'a eng" where
  "onN m = (\<lambda>s. case m (nm s) of (r, n) \<Rightarrow> (r, s\<lparr>nm := n\<rparr>))"

definition yieldE :: "engine_env \<Rightarrow> yield_event \<Rightarrow> unit eng" where
  "yieldE X e = modifyE (\<lambda>s. s\<lparr>out := out s @ [e], wd := x_between X (length (out s)) (wd s)\<rparr>)"

definition cancel_is_set :: "engine_env \<Rightarrow> bool eng" where
  "cancel_is_set X = (\<lambda>s. (Inr (x_cancel X (looks s)), s\<lparr>looks := Suc (looks s)\<rparr>))"

definition next_line :: "engine_env \<Rightarrow> tick eng" where
  "next_line X = (\<lambda>s. (Inr (x_stream X (reads s)), s\<lparr>reads := Suc (reads s)\<rparr>))"

definition monotonic :: "engine_env \<Rightarrow> int eng" where
  "monotonic X = (\<lambda>s. (Inr (x_monotonic X (times s)), s\<lparr>times := Suc (times s)\<rparr>))"

definition yield_return :: "engine_env \<Rightarrow> yield_event \<Rightarrow> 'a flow eng" where
  "yield_return X e = thenE (yieldE X e) (returnE Returned)"

definition fail_with :: "engine_env \<Rightarrow> string \<Rightarrow> string \<Rightarrow> 'a flow eng" where
  "fail_with X code message = yield_return X (failed code message)"

definition error_event :: "string \<Rightarrow> yield_event" where
  "error_event message = plain_event ''run.failed'' [(''error'', JStr message)]"

definition cancelled_event :: "string \<Rightarrow> yield_event" where
  "cancelled_event message = plain_event ''run.cancelled'' [(''message'', JStr message)]"

definition progress_event :: "string \<Rightarrow> string \<Rightarrow> yield_event" where
  "progress_event phase message = plain_event ''run.progress'' (progress_payload phase message)"

text \<open>The events of the normaliser, and the terminal event of a status.\<close>

definition native_yield :: "native_event \<Rightarrow> yield_event" where
  "native_yield e = \<lparr>ye_type = ne_type e, ye_payload = ne_payload e, ye_source = Some ''agent'',
                     ye_source_event_id = Some (ne_source_event_id e)\<rparr>"

definition status_yield :: "engine_event \<Rightarrow> yield_event" where
  "status_yield e = plain_event (en_event_type e) (en_payload e)"

definition yield_all :: "engine_env \<Rightarrow> native_event list \<Rightarrow> unit eng" where
  "yield_all X es = forE es (\<lambda>e. yieldE X (native_yield e))"

section \<open>Before the runtime is called\<close>

record hermes_call =
  hc_tool_name :: string
  hc_arguments :: dict
  hc_route :: dict
  hc_org_id :: "string option"
  hc_run_id :: "string option"
  hc_attempt_id :: "string option"

definition take_lease :: "engine_env \<Rightarrow> hermes_call \<Rightarrow> json flow eng" where
  "take_lease X c =
     (let lease_ref = dget (hc_route c) ''credential_lease_ref'' in
      if \<not> truthy lease_ref then returnE (Next JNull)
      else if \<not> str_set (hc_org_id c) \<or> \<not> str_set (hc_run_id c) \<or> \<not> str_set (hc_attempt_id c)
      then yield_return X (error_event (''Missing execution context (org_id/run_id/attempt_id) for credential lease on ''
             @ hc_tool_name c))
      else case lease_ref of
        JObj ref \<Rightarrow>
          bindE (onW (fetch_credential_lease (x_env X) (str_or (hc_org_id c) []) (str_or (hc_run_id c) [])
                        (str_or (hc_attempt_id c) []) ref)) (\<lambda>minted.
          bindE (liftE (minted_token minted)) (\<lambda>token.
          if truthy token then returnE (Next minted)
          else yield_return X (error_event (''Credential lease acquisition failed for '' @ hc_tool_name c
                 @ '' (fail-closed)''))))
      | _ \<Rightarrow> raiseE (OtherError ''object has no attribute get''))"

definition gateway_of :: "json \<Rightarrow> dict \<Rightarrow> exn + string" where
  "gateway_of minted route =
     (case or_else (dget (dict_of minted) ''gateway_url'')
             (or_else (dget route ''gateway_url'') (or_else (dget route ''hermes_base_url'') (JStr []))) of
        JStr s \<Rightarrow> Inr (rstrip_slash s)
      | _ \<Rightarrow> Inl (OtherError ''object has no attribute rstrip''))"

definition probe_gateway_url :: "engine_env \<Rightarrow> string \<Rightarrow> bool eng" where
  "probe_gateway_url X gateway_url =
     bindE (onW (http_op (x_env X) ''GET'' gateway_url [] JNull)) (\<lambda>resp.
     case resp of
       Unreachable \<Rightarrow> returnE False
     | HttpFault m \<Rightarrow> raiseE (OtherError m)
     | Response code body \<Rightarrow> returnE True)"

definition check_gateway :: "engine_env \<Rightarrow> string \<Rightarrow> unit flow eng" where
  "check_gateway X gateway_url =
     bindE (probe_gateway_url X gateway_url) (\<lambda>reached.
     if reached then returnE (Next ())
     else fail_with X ''RUNTIME_UNREACHABLE''
            (''Hermes runtime gateway unreachable within '' @ show_int (x_timeout_seconds X) @ ''s: '' @ gateway_url))"

definition load_attempt_generation :: "string \<Rightarrow> int option op" where
  "load_attempt_generation att =
     bindE (get_runtime_binding att) (\<lambda>row. returnE (map_option b_generation row))"

text \<open>What is fixed once the gateway is known.\<close>

record prepared =
  pp_gateway :: string
  pp_run_id :: string
  pp_attempt_id :: string
  pp_generation :: int
  pp_headers :: dict
  pp_required :: "string list"
  pp_spec :: run_spec
  pp_payload :: dict
  pp_key :: string

definition auth_headers :: "json \<Rightarrow> dict" where
  "auth_headers minted =
     [(''Content-Type'', JStr ''application/json'')]
     @ (if truthy (dget (dict_of minted) ''token'')
        then [(''Authorization'', JStr (''Bearer '' @ py_str (dget (dict_of minted) ''token'')))] else [])"

definition required_features :: "hermes_call \<Rightarrow> string list" where
  "required_features c =
     REQUIRED_FEATURES @
     (if truthy (dget (hc_route c) ''requires_approval'') \<or> truthy (dget (hc_arguments c) ''requires_approval'')
         \<or> truthy (dget (hc_route c) ''approval_required'')
      then APPROVAL_EXTRA_FEATURES else [])"

definition run_spec_of :: "hermes_call \<Rightarrow> json \<Rightarrow> run_spec" where
  "run_spec_of c minted =
     (let args = hc_arguments c; route = hc_route c;
          prompt = strip (py_str (or_else (dget args ''prompt'') (JStr [])));
          session_id = or_else (dget route ''session_id'') (dget route ''runtime_session_id'')
      in \<lparr>rs_model_name = py_str (or_else (dget (dict_of minted) ''model'') (or_else (dget route ''model'')
             (or_else (dget route ''agent_profile'') (JStr ''hermes'')))),
          rs_runtime_skill_id = (if hc_tool_name c = ''remote_agent'' then []
             else py_str (or_else (dget route ''runtime_skill_id'') (JStr (hc_tool_name c)))),
          rs_prompt = (if prompt \<noteq> [] then prompt else py_str (JObj args)),
          rs_session_id = (if truthy session_id then Some (py_str session_id) else None)\<rparr>)"

definition prepare_run :: "hermes_call \<Rightarrow> json \<Rightarrow> string \<Rightarrow> int \<Rightarrow> prepared" where
  "prepare_run c minted gateway_url generation =
     (let run_id = str_or (hc_run_id c) []; att = str_or (hc_attempt_id c) [];
          context = dget (hc_arguments c) ''context''; spec = run_spec_of c minted
      in \<lparr>pp_gateway = gateway_url, pp_run_id = run_id, pp_attempt_id = att, pp_generation = generation,
          pp_headers = auth_headers minted, pp_required = required_features c, pp_spec = spec,
          pp_payload = build_native_run_payload spec (if is_dict context then Some (dict_of context) else None),
          pp_key = run_id @ '':'' @ att @ '':'' @ show_int generation\<rparr>)"

section \<open>The contract with the runtime\<close>

definition probe_capabilities :: "engine_env \<Rightarrow> prepared \<Rightarrow> dict flow eng" where
  "probe_capabilities X p =
     bindE (onW (http_op (x_env X) ''GET'' (pp_gateway p @ ''/v1/capabilities'') (pp_headers p) JNull)) (\<lambda>resp.
     case resp of
       Unreachable \<Rightarrow> fail_with X ''RUNTIME_UNREACHABLE'' ''Hermes capabilities probe unreachable''
     | HttpFault m \<Rightarrow> raiseE (OtherError m)
     | Response code body \<Rightarrow>
         if code \<in> {401, 403} then fail_with X ''RUNTIME_UNAUTHORIZED'' ''Hermes capabilities probe unauthorized''
         else if code \<ge> 400 then fail_with X ''RUNTIME_CAPABILITY_MISSING'' ''Hermes capabilities probe failed''
         else case body of
           None \<Rightarrow> fail_with X ''RUNTIME_PROTOCOL_INVALID'' ''Hermes capabilities response is not JSON''
         | Some (JObj caps) \<Rightarrow> returnE (Next caps)
         | Some _ \<Rightarrow> fail_with X ''RUNTIME_PROTOCOL_INVALID'' ''Hermes capabilities response is invalid'')"

definition probe_health :: "engine_env \<Rightarrow> prepared \<Rightarrow> string flow eng" where
  "probe_health X p =
     bindE (onW (http_op (x_env X) ''GET'' (pp_gateway p @ ''/health'') (pp_headers p) JNull)) (\<lambda>resp.
     case resp of
       Unreachable \<Rightarrow> fail_with X ''RUNTIME_UNREACHABLE'' ''Hermes health version probe unreachable''
     | HttpFault m \<Rightarrow> raiseE (OtherError m)
     | Response code body \<Rightarrow>
         if code \<in> {401, 403} then fail_with X ''RUNTIME_UNAUTHORIZED'' ''Hermes health version probe unauthorized''
         else if code \<ge> 400 then fail_with X ''RUNTIME_VERSION_UNSUPPORTED'' ''Hermes health version probe failed''
         else case body of
           None \<Rightarrow> fail_with X ''RUNTIME_PROTOCOL_INVALID'' ''Hermes health response is not JSON''
         | Some health \<Rightarrow> returnE (Next (reported_hermes_version health)))"

definition check_version :: "engine_env \<Rightarrow> prepared \<Rightarrow> dict \<Rightarrow> string flow eng" where
  "check_version X p caps =
     (let reported = reported_hermes_version (JObj caps) in
      bindF (if reported = [] then probe_health X p else returnE (Next reported)) (\<lambda>version_raw.
      if version_supported (x_digits X) version_raw then returnE (Next version_raw)
      else fail_with X ''RUNTIME_VERSION_UNSUPPORTED'' ''Hermes runtime version below v2026.8.31''))"

definition capability_ref_ok :: "dict \<Rightarrow> string list \<Rightarrow> bool" where
  "capability_ref_ok route present \<longleftrightarrow>
     (let ref = dict_of (dget route ''runtime_capability_ref'');
          name = strip (py_str (or_else (dget ref ''name'') (JStr [])));
          version = strip (py_str (or_else (dget ref ''version'') (JStr [])))
      in name \<noteq> [] \<and> version \<noteq> [] \<and> name \<in> set present)"

definition capability_event :: "yield_event" where
  "capability_event = plain_event ''run.failed''
     [(''error'', JStr ''Hermes runtime lacks rich-tool capability''),
      (''error_code'', JStr ''RUNTIME_CAPABILITY_MISSING''), (''capability'', JStr ''run_tool_event_details_v1'')]"

definition check_features :: "engine_env \<Rightarrow> hermes_call \<Rightarrow> prepared \<Rightarrow> dict \<Rightarrow> unit flow eng" where
  "check_features X c p caps =
     (let route = hc_route c; topology = resolved_topology route; present = feature_set caps in
      if topology \<notin> set ALLOWED_DELEGATION_TOPOLOGIES
      then fail_with X ''EXECUTION_TOPOLOGY_NOT_SUPPORTED'' ''Delegation topology is not supported''
      else if topology = ''runtime_delegated'' \<and> \<not> capability_ref_ok route present
      then fail_with X ''RUNTIME_CAPABILITY_UNAVAILABLE''
             ''Runtime capability reference is unavailable for runtime_delegated topology''
      else if \<not> set (pp_required p) \<subseteq> set present
      then fail_with X ''RUNTIME_CAPABILITY_MISSING'' ''Hermes runtime is missing required capabilities''
      else if x_rich_tool_gate X \<and> truthy (dget route ''session_continuity_required'')
              \<and> ''run_tool_event_details_v1'' \<notin> set present
      then yield_return X capability_event
      else returnE (Next ()))"

text \<open>The tools of the agent: their address and a capability token, under the name the runtime knows.\<close>

definition mint_attempt_token :: "engine_env \<Rightarrow> hermes_call \<Rightarrow> prepared \<Rightarrow> string option eng" where
  "mint_attempt_token X c p =
     (let E = x_env X in onW (getsE (\<lambda>w.
        mint_capability E \<lparr>cap_org_id = str_or (hc_org_id c) [], cap_run_id = pp_run_id p, cap_attempt_id = pp_attempt_id p,
            cap_generation = pp_generation p\<rparr>
          (capability_signing_key E) (x_capability_ttl X) (cap_encode (urandom E (uuid_pos w))) (clock w))))"

definition attach_tools :: "engine_env \<Rightarrow> hermes_call \<Rightarrow> prepared \<Rightarrow> dict \<Rightarrow> dict flow eng" where
  "attach_tools X c p caps =
     (let route = hc_route c; mcp_url = rstrip_slash (x_mcp_url X) in
      if \<not> (hc_tool_name c = ''remote_agent'' \<and>
             (truthy (dget route ''connector_descriptors'') \<or> truthy (dget route ''external_descriptors'')))
      then returnE (Next (pp_payload p))
      else case hermes_mcp_feature caps of
        None \<Rightarrow> fail_with X ''SPEC_SEMANTIC_GAP'' ''Hermes capabilities do not expose an MCP tool surface''
      | Some feature \<Rightarrow>
          if mcp_url = []
          then fail_with X ''SPEC_SEMANTIC_GAP'' ''Hermes capabilities do not expose an MCP tool surface''
          else
            bindE (mint_attempt_token X c p) (\<lambda>token.
            case token of
              None \<Rightarrow> fail_with X ''SPEC_SEMANTIC_GAP'' ''Agent tool capability signing key is not configured''
            | Some t \<Rightarrow> returnE (Next (AList.update feature
                (JObj [(''url'', JStr (mcp_url @ ''/internal/v1/agent-tools/mcp'')),
                       (''headers'', JObj [(''X-Agent-Tool-Capability'', JStr t)])]) (pp_payload p)))))"

text \<open>The descriptors of type attachment; iterating over a number raises.\<close>

definition attachment_descriptors :: "dict \<Rightarrow> exn + dict list" where
  "attachment_descriptors route =
     (case or_else (dget route ''attachment_descriptors'') (JList []) of
        JList xs \<Rightarrow> Inr (filter (\<lambda>d. dget d ''type'' = JStr ''attachment'') (dicts_of xs))
      | JObj d \<Rightarrow> Inr []
      | JStr s \<Rightarrow> Inr []
      | _ \<Rightarrow> Inl (OtherError ''object is not iterable''))"

definition add_missing :: "dict \<Rightarrow> dict \<Rightarrow> dict" where
  "add_missing rebuilt payload = rebuilt @ filter (\<lambda>kv. \<not> has_key rebuilt (fst kv)) payload"

definition stage_files :: "engine_env \<Rightarrow> prepared \<Rightarrow> dict \<Rightarrow> string list \<Rightarrow> json list \<Rightarrow> dict flow eng" where
  "stage_files X p payload dir items =
     bindE (catchE (bindE (onW (stage_run_attachments (x_env X) dir (List.map json_attachment items)))
                      (\<lambda>paths. returnE (Some paths)))
              (\<lambda>exc. returnE None)) (\<lambda>staged.
     case staged of
       None \<Rightarrow> yield_return X (error_event ''Attachment workspace write failed'')
     | Some paths \<Rightarrow> returnE (Next (add_missing
         (build_native_run_payload (pp_spec p) (Some [(''attachment_paths'', JList (List.map JStr paths))])) payload)))"

definition attach_files :: "engine_env \<Rightarrow> hermes_call \<Rightarrow> prepared \<Rightarrow> dict \<Rightarrow> dict flow eng" where
  "attach_files X c p payload =
     bindE (liftE (attachment_descriptors (hc_route c))) (\<lambda>ds.
     if hc_tool_name c \<noteq> ''remote_agent'' \<or> ds = [] then returnE (Next payload)
     else
       bindE (onW (getsE (resolve_existing_run_workspace (x_env X) (hc_route c) (pp_run_id p)))) (\<lambda>workspace.
       let items = dget (hc_route c) ''attachment_files'' in
       case workspace of
         None \<Rightarrow> fail_with X ''SPEC_SEMANTIC_GAP'' ''Hermes native run has no per-run workspace for attachment bytes''
       | Some dir \<Rightarrow>
           if \<not> is_list items \<or> length (list_of items) \<noteq> length ds
           then fail_with X ''SPEC_SEMANTIC_GAP'' ''Hermes native run has no per-run workspace for attachment bytes''
           else stage_files X p payload dir (list_of items)))"

section \<open>Submitting the run\<close>

definition submit_answer :: "engine_env \<Rightarrow> http \<Rightarrow> (dict \<times> string) flow eng" where
  "submit_answer X resp =
     (case resp of
       Unreachable \<Rightarrow> fail_with X ''RUNTIME_UNREACHABLE'' ''Hermes native run submit unreachable''
     | HttpFault m \<Rightarrow> raiseE (OtherError m)
     | Response code body \<Rightarrow>
         if code \<ge> 400 then fail_with X (map_http_status code True False False) ''Hermes native run submit failed''
         else case body of
           None \<Rightarrow> fail_with X ''RUNTIME_PROTOCOL_INVALID'' ''Hermes native run submit returned invalid JSON''
         | Some start_body \<Rightarrow>
             (case extract_runtime_run_id start_body of
                None \<Rightarrow> fail_with X ''RUNTIME_PROTOCOL_INVALID'' ''Hermes native run submit omitted run id''
              | Some rid \<Rightarrow> returnE (Next (dict_of start_body, rid))))"

definition submit_run :: "engine_env \<Rightarrow> prepared \<Rightarrow> dict \<Rightarrow> (dict \<times> string) flow eng" where
  "submit_run X p payload =
     bindE (onW (http_op (x_env X) ''POST'' (pp_gateway p @ ''/v1/runs'')
              (AList.update ''Idempotency-Key'' (JStr (pp_key p)) (pp_headers p)) (JObj payload)))
       (submit_answer X)"

definition blank_session :: "json \<Rightarrow> bool" where
  "blank_session v \<longleftrightarrow> strip (py_str (or_else v (JStr []))) = []"

definition session_of :: "dict \<Rightarrow> json" where
  "session_of d = or_else (dget d ''session_id'') (dget (dict_of (dget d ''data'')) ''session_id'')"

definition profile_of :: "hermes_call \<Rightarrow> dict \<Rightarrow> json" where
  "profile_of c d = or_else (dget d ''profile'') (or_else (dget (dict_of (dget d ''data'')) ''profile'')
                      (dget (hc_route c) ''agent_profile''))"

definition reconcile :: "engine_env \<Rightarrow> prepared \<Rightarrow> string \<Rightarrow> (string \<times> dict option \<times> string option) eng" where
  "reconcile X p rid = onW (reconcile_status (x_env X) (pp_gateway p) rid (pp_headers p))"

definition stop_run :: "engine_env \<Rightarrow> prepared \<Rightarrow> string \<Rightarrow> string option eng" where
  "stop_run X p rid =
     onW (stop_runtime (x_env X) (pp_gateway p) rid (pp_headers p) (pp_attempt_id p) (pp_generation p))"

definition bind_session :: "engine_env \<Rightarrow> hermes_call \<Rightarrow> prepared \<Rightarrow> dict \<Rightarrow> string \<Rightarrow> json flow eng" where
  "bind_session X c p start_body rid =
     (let required = truthy (dget (hc_route c) ''session_continuity_required''); sid = session_of start_body in
      bindE (if required \<and> blank_session sid
             then bindE (reconcile X p rid) (\<lambda>(st, data, code).
                  returnE (case data of None \<Rightarrow> sid | Some d \<Rightarrow> session_of d))
             else returnE sid) (\<lambda>session.
      if required \<and> blank_session session
      then thenE (bindE (stop_run X p rid) (\<lambda>_. returnE ()))
             (fail_with X ''ACP_RUNTIME_SESSION_BINDING_MISSING'' ''Hermes run omitted runtime session id'')
      else returnE (Next session)))"

section \<open>The event stream\<close>

definition STREAM_STATUS_IDLE_TICKS :: nat where
  "STREAM_STATUS_IDLE_TICKS = 10"

text \<open>In milliseconds.\<close>

definition STREAM_DRAIN_TIMEOUT :: int where
  "STREAM_DRAIN_TIMEOUT = 2000"

definition WAIT_STATUSES :: "string list" where
  "WAIT_STATUSES = [''waiting_for_approval'', ''waiting'']"

definition ALIVE_STATUSES :: "string list" where
  "ALIVE_STATUSES = [''running'', ''waiting_for_approval'', ''waiting'']"

definition TERMINAL_EVENTS :: "string list" where
  "TERMINAL_EVENTS = [''run.completed'', ''run.failed'', ''run.cancelled'']"

record stream_vars =
  sv_approval :: bool
  sv_assistant :: bool
  sv_event :: "string option"
  sv_polled :: "(string \<times> dict option \<times> string option) option"
  sv_idle :: nat
  sv_deadline :: "int option"

definition new_stream_vars :: stream_vars where
  "new_stream_vars = \<lparr>sv_approval = False, sv_assistant = False, sv_event = None, sv_polled = None,
                      sv_idle = 0, sv_deadline = None\<rparr>"

definition ASSISTANT_EVENTS :: "string list" where
  "ASSISTANT_EVENTS = [''assistant.message'', ''assistant.delta'']"

definition has_type :: "string list \<Rightarrow> native_event list \<Rightarrow> bool" where
  "has_type tys es \<longleftrightarrow> list_ex (\<lambda>e. ne_type e \<in> set tys) es"

definition emit_ingested :: "engine_env \<Rightarrow> dict \<Rightarrow> native_event list eng" where
  "emit_ingested X chunk =
     bindE (monotonic X) (\<lambda>now.
     bindE (onN (ingest (x_native X) now chunk)) (\<lambda>events.
     bindE (onN drain_internal_traces) (\<lambda>traces. returnE (events @ traces))))"

definition mark_terminal :: "prepared \<Rightarrow> unit eng" where
  "mark_terminal p =
     onW (request (bindE (mark_runtime_terminal (pp_attempt_id p) (pp_generation p)) (\<lambda>_. returnE ())))"

text \<open>A round of the loop: \<open>(True, v)\<close> leaves the loop, \<open>(False, v)\<close> goes on.\<close>

type_synonym round = "(bool \<times> stream_vars) flow eng"

definition close_failed :: "engine_env \<Rightarrow> unit eng" where
  "close_failed X = bindE (onN (close (x_native X) ''failed'')) (yield_all X)"

definition stream_cancelled :: "engine_env \<Rightarrow> prepared \<Rightarrow> string \<Rightarrow> stream_vars \<Rightarrow> round" where
  "stream_cancelled X p rid v =
     bindE (stop_run X p rid) (\<lambda>stop_code.
     thenE (close_failed X)
      (if stop_code = Some ''stop_404'' then returnE (Next (True, v))
       else if str_set stop_code then fail_with X (str_or stop_code []) ''Hermes runtime stop failed''
       else thenE (yieldE X (cancelled_event ''cancelled during stream''))
              (thenE (mark_terminal p) (returnE Returned))))"

definition is_wait_status :: "string \<Rightarrow> bool" where
  "is_wait_status st \<longleftrightarrow> st \<in> set WAIT_STATUSES"

definition poll_status :: "engine_env \<Rightarrow> prepared \<Rightarrow> string \<Rightarrow> stream_vars \<Rightarrow> round" where
  "poll_status X p rid v =
     bindE (reconcile X p rid) (\<lambda>(st, data, code).
     let v' = v\<lparr>sv_polled := Some (st, data, code)\<rparr> in
     if is_wait_status st then returnE (Next (True, v'))
     else if terminal_from_status st code \<noteq> None
     then bindE (monotonic X) (\<lambda>now. returnE (Next (False, v'\<lparr>sv_deadline := Some (now + STREAM_DRAIN_TIMEOUT)\<rparr>)))
     else returnE (Next (False, v')))"

definition stream_quiet :: "engine_env \<Rightarrow> prepared \<Rightarrow> string \<Rightarrow> stream_vars \<Rightarrow> round" where
  "stream_quiet X p rid v =
     bindE (monotonic X) (\<lambda>now.
     bindE (onN (flush_due_to_latency now)) (\<lambda>flushed.
     thenE (yield_all X flushed)
      (case sv_deadline v of
         Some deadline \<Rightarrow> bindE (monotonic X) (\<lambda>t. returnE (Next (deadline \<le> t, v)))
       | None \<Rightarrow>
           let v' = v\<lparr>sv_idle := Suc (sv_idle v)\<rparr> in
           if sv_idle v' mod STREAM_STATUS_IDLE_TICKS \<noteq> 0 then returnE (Next (False, v'))
           else poll_status X p rid v')))"

definition after_colon :: "string \<Rightarrow> string" where
  "after_colon line = strip (snd (cut_tail (CHR '':'') line))"

definition stream_chunk :: "engine_env \<Rightarrow> stream_vars \<Rightarrow> dict \<Rightarrow> round" where
  "stream_chunk X v chunk =
     bindE (emit_ingested X (attach_sse_event_type chunk (sv_event v))) (\<lambda>events.
     thenE (yield_all X events)
       (let asked = has_type [''approval.requested''] events in
        returnE (Next (asked, v\<lparr>sv_event := None, sv_assistant := sv_assistant v \<or> has_type ASSISTANT_EVENTS events,
                                sv_approval := sv_approval v \<or> asked\<rparr>))))"

definition stream_line :: "engine_env \<Rightarrow> stream_vars \<Rightarrow> string \<Rightarrow> round" where
  "stream_line X v line =
     (if startswith line ''event:'' then
        (let name = after_colon line in
         returnE (Next (False, v\<lparr>sv_idle := 0, sv_event := (if name = [] then None else Some name)\<rparr>)))
      else if \<not> startswith line ''data:'' then returnE (Next (False, v\<lparr>sv_idle := 0\<rparr>))
      else if after_colon line \<in> {''[DONE]'', ''done''} then returnE (Next (True, v\<lparr>sv_idle := 0\<rparr>))
      else case json_loads (x_env X) (after_colon line) of
        Some (JObj chunk) \<Rightarrow> stream_chunk X (v\<lparr>sv_idle := 0\<rparr>) chunk
      | _ \<Rightarrow> returnE (Next (False, v\<lparr>sv_idle := 0, sv_event := None\<rparr>)))"

definition stream_read :: "engine_env \<Rightarrow> prepared \<Rightarrow> string \<Rightarrow> stream_vars \<Rightarrow> round" where
  "stream_read X p rid v =
     bindE (next_line X) (\<lambda>t.
     case t of
       Line line \<Rightarrow> stream_line X v line
     | Quiet \<Rightarrow> stream_quiet X p rid v
     | StreamEnd \<Rightarrow> returnE (Next (True, v))
     | StreamLost \<Rightarrow> returnE (Next (True, v))
     | StreamFault m \<Rightarrow> raiseE (OtherError m))"

definition stream_round :: "engine_env \<Rightarrow> prepared \<Rightarrow> string \<Rightarrow> stream_vars \<Rightarrow> round" where
  "stream_round X p rid v =
     bindE (cancel_is_set X) (\<lambda>cancelled.
     if cancelled then stream_cancelled X p rid v else stream_read X p rid v)"

fun stream_loop :: "engine_env \<Rightarrow> prepared \<Rightarrow> string \<Rightarrow> nat \<Rightarrow> stream_vars \<Rightarrow> stream_vars flow eng" where
  "stream_loop X p rid 0 v = returnE Running"
| "stream_loop X p rid (Suc n) v =
     bindF (stream_round X p rid v) (\<lambda>(leave, v'). if leave then returnE (Next v') else stream_loop X p rid n v')"

text \<open>Opening the stream, and binding the attempt to the run before anything is read from it.\<close>

definition opt_text :: "json \<Rightarrow> string option" where
  "opt_text v = (if truthy v then Some (py_str v) else None)"

definition persist_native_binding ::
  "prepared \<Rightarrow> string \<Rightarrow> string \<Rightarrow> json \<Rightarrow> json \<Rightarrow> dict \<Rightarrow> binding option eng" where
  "persist_native_binding p rid version_raw session profile caps =
     onW (request (persist_runtime_binding (pp_attempt_id p) (pp_generation p)
       \<lparr>bi_runtime_run_id = rid, bi_runtime_type = ''hermes'', bi_runtime_version = Some version_raw,
        bi_runtime_session_id = opt_text session, bi_runtime_profile = opt_text profile,
        bi_capability_snapshot = Some (JObj caps), bi_idempotency_key = Some (pp_key p)\<rparr>))"

definition cancelled_before_stream :: "engine_env \<Rightarrow> prepared \<Rightarrow> string \<Rightarrow> 'a flow eng" where
  "cancelled_before_stream X p rid =
     bindE (stop_run X p rid) (\<lambda>stop_code.
     if stop_code = Some ''stop_404'' then
       bindE (reconcile X p rid) (\<lambda>(st, data, code).
       yield_return X (case terminal_from_status st code of
                         Some t \<Rightarrow> status_yield t
                       | None \<Rightarrow> cancelled_event ''cancelled after stop 404''))
     else if str_set stop_code then fail_with X (str_or stop_code []) ''Hermes runtime stop failed''
     else yield_return X (cancelled_event ''cancelled before event stream''))"

definition open_stream :: "engine_env \<Rightarrow> prepared \<Rightarrow> string \<Rightarrow> unit flow eng" where
  "open_stream X p rid =
     bindE (onW (http_op (x_env X) ''GET'' (run_url (pp_gateway p) rid @ ''/events'') (pp_headers p) JNull)) (\<lambda>resp.
     case resp of
       Unreachable \<Rightarrow> fail_with X ''RUNTIME_EVENT_STREAM_FAILED'' ''Hermes event stream failed''
     | HttpFault m \<Rightarrow> raiseE (OtherError m)
     | Response code body \<Rightarrow>
         if code \<ge> 400 then fail_with X (map_http_status code False True False) ''Hermes event stream failed''
         else returnE (Next ()))"

definition follow_stream ::
  "engine_env \<Rightarrow> nat \<Rightarrow> prepared \<Rightarrow> string \<Rightarrow> string \<Rightarrow> json \<Rightarrow> json \<Rightarrow> dict \<Rightarrow> (string \<times> stream_vars) flow eng" where
  "follow_stream X fuel p submitted version_raw session profile caps =
     bindF (open_stream X p submitted) (\<lambda>_.
     bindE (persist_native_binding p submitted version_raw session profile caps) (\<lambda>binding.
     case binding of
       None \<Rightarrow> fail_with X ''RUNTIME_PROTOCOL_INVALID'' ''Hermes runtime binding persist was rejected''
     | Some b \<Rightarrow>
         let rid = str_or (b_runtime_run_id b) submitted in
         bindE (cancel_is_set X) (\<lambda>cancelled.
         if cancelled then cancelled_before_stream X p rid
         else
           thenE (yieldE X (progress_event ''RUNTIME_RUNNING'' ''streaming''))
            (bindF (stream_loop X p rid fuel new_stream_vars) (\<lambda>v. returnE (Next (rid, v)))))))"

section \<open>Ending the run\<close>

definition events_after_status_terminal ::
  "engine_env \<Rightarrow> string \<Rightarrow> dict option \<Rightarrow> bool \<Rightarrow> native_event list eng" where
  "events_after_status_terminal X st data saw_assistant =
     (let completed = st \<in> {''completed'', ''succeeded'', ''success''};
          output = (case data of None \<Rightarrow> [] | Some d \<Rightarrow> status_output_text d)
      in bindE (onN (close (x_native X) (if completed then ''completed'' else ''failed''))) (\<lambda>events.
         if completed \<and> output \<noteq> [] \<and> \<not> (saw_assistant \<or> has_type ASSISTANT_EVENTS events)
         then bindE (monotonic X) (\<lambda>now.
              bindE (onN (emit_assistant_snapshot now output)) (\<lambda>more. returnE (events @ more)))
         else returnE events))"

definition output_call_of :: "hermes_call \<Rightarrow> prepared \<Rightarrow> output_call" where
  "output_call_of c p =
     \<lparr>oc_headers = pp_headers p, oc_org_id = hc_org_id c, oc_run_id = hc_run_id c, oc_attempt_id = hc_attempt_id c,
      oc_gateway_url = pp_gateway p\<rparr>"

definition conclude_run ::
  "engine_env \<Rightarrow> hermes_call \<Rightarrow> prepared \<Rightarrow> bool \<Rightarrow> string \<Rightarrow> dict option \<Rightarrow> engine_event \<Rightarrow> 'a flow eng" where
  "conclude_run X c p saw_assistant st data t =
     bindE (events_after_status_terminal X st data saw_assistant) (\<lambda>leftovers.
     thenE (yield_all X leftovers)
     (bindE (onW (terminal_events_with_outputs (x_env X) (x_net X) (output_call_of c p) (status_yield t) data))
       (\<lambda>outgoing.
      thenE (whenE (outgoing \<noteq> [] \<and> ye_type (last outgoing) \<in> set TERMINAL_EVENTS) (mark_terminal p))
      (thenE (forE outgoing (yieldE X)) (returnE Returned)))))"

definition wait_cancelled :: "engine_env \<Rightarrow> prepared \<Rightarrow> string \<Rightarrow> 'a flow eng" where
  "wait_cancelled X p rid =
     bindE (stop_run X p rid) (\<lambda>stop_code.
     thenE (close_failed X)
      (if stop_code = Some ''stop_404'' then
         bindE (reconcile X p rid) (\<lambda>(st, data, code).
         case terminal_from_status st code of
           Some t \<Rightarrow> thenE (whenE (en_event_type t \<in> set TERMINAL_EVENTS) (mark_terminal p))
                       (yield_return X (status_yield t))
         | None \<Rightarrow> yield_return X (cancelled_event ''cancelled after stop 404''))
       else if str_set stop_code \<and> stop_code \<noteq> Some ''fenced''
       then fail_with X (str_or stop_code []) ''Hermes runtime stop failed''
       else thenE (yieldE X (cancelled_event ''cancelled while waiting for approval''))
              (thenE (mark_terminal p) (returnE Returned))))"

text \<open>What the loop over a live run keeps: has the approval been asked for, the status and its data.\<close>

type_synonym wait_vars = "bool \<times> string \<times> dict option"

definition ask_approval :: "engine_env \<Rightarrow> string \<Rightarrow> wait_vars \<Rightarrow> bool eng" where
  "ask_approval X rid = (\<lambda>(saw_approval, st, data).
     if is_wait_status st \<and> \<not> saw_approval then
       bindE (emit_ingested X (approval_request_chunk data rid)) (\<lambda>events.
       thenE (yield_all X events) (returnE (has_type [''approval.requested''] events)))
     else returnE saw_approval)"

definition alive_event :: "string \<Rightarrow> yield_event" where
  "alive_event st =
     progress_event (if is_wait_status st then ''WAITING_APPROVAL'' else ''RUNTIME_RUNNING'') (''hermes runtime status '' @ st)"

definition wait_next ::
  "engine_env \<Rightarrow> hermes_call \<Rightarrow> prepared \<Rightarrow> string \<Rightarrow> bool \<Rightarrow> bool \<Rightarrow> wait_vars flow eng" where
  "wait_next X c p rid saw_assistant saw_approval =
     bindE (reconcile X p rid) (\<lambda>(st, data, code).
     case terminal_from_status st code of
       Some t \<Rightarrow> conclude_run X c p saw_assistant st data t
     | None \<Rightarrow> returnE (Next (saw_approval, st, data)))"

definition wait_round ::
  "engine_env \<Rightarrow> hermes_call \<Rightarrow> prepared \<Rightarrow> string \<Rightarrow> bool \<Rightarrow> wait_vars \<Rightarrow> wait_vars flow eng" where
  "wait_round X c p rid saw_assistant v =
     bindE (ask_approval X rid v) (\<lambda>saw_approval.
     thenE (yieldE X (alive_event (fst (snd v))))
     (bindE (cancel_is_set X) (\<lambda>cancelled.
      if cancelled then wait_cancelled X p rid else wait_next X c p rid saw_assistant saw_approval)))"

fun wait_loop ::
  "engine_env \<Rightarrow> hermes_call \<Rightarrow> prepared \<Rightarrow> string \<Rightarrow> bool \<Rightarrow> nat \<Rightarrow> wait_vars \<Rightarrow> unit flow eng" where
  "wait_loop X c p rid saw_assistant 0 v = returnE Running"
| "wait_loop X c p rid saw_assistant (Suc n) v =
     (if fst (snd v) \<notin> set ALIVE_STATUSES
      then fail_with X RUNTIME_STATE_UNAVAILABLE ''Hermes runtime status could not be mapped''
      else bindF (wait_round X c p rid saw_assistant v) (wait_loop X c p rid saw_assistant n))"

definition last_status ::
  "engine_env \<Rightarrow> prepared \<Rightarrow> string \<Rightarrow> stream_vars \<Rightarrow> (string \<times> dict option \<times> string option) eng" where
  "last_status X p rid v =
     thenE (yieldE X (progress_event ''RECONCILING'' ''reconciling hermes status''))
     (bindE (case sv_polled v of None \<Rightarrow> reconcile X p rid | Some polled \<Rightarrow> returnE polled) (\<lambda>polled.
      if fst polled = ''stopping''
      then thenE (yieldE X (progress_event ''STOPPING'' ''hermes runtime stopping'')) (reconcile X p rid)
      else returnE polled))"

definition after_stream ::
  "engine_env \<Rightarrow> nat \<Rightarrow> hermes_call \<Rightarrow> prepared \<Rightarrow> string \<Rightarrow> stream_vars \<Rightarrow> unit flow eng" where
  "after_stream X fuel c p rid v =
     bindE (last_status X p rid v) (\<lambda>(st, data, code).
     case terminal_from_status st code of
       Some t \<Rightarrow> conclude_run X c p (sv_assistant v) st data t
     | None \<Rightarrow> wait_loop X c p rid (sv_assistant v) fuel (sv_approval v, st, data))"

section \<open>The generator\<close>

definition submit_and_follow ::
  "engine_env \<Rightarrow> nat \<Rightarrow> hermes_call \<Rightarrow> prepared \<Rightarrow> dict \<Rightarrow> string \<Rightarrow> dict \<Rightarrow> unit flow eng" where
  "submit_and_follow X fuel c p caps version_raw payload =
     bindF (submit_run X p payload) (\<lambda>(start_body, submitted).
     bindF (bind_session X c p start_body submitted) (\<lambda>session.
     bindF (follow_stream X fuel p submitted version_raw session (profile_of c start_body) caps) (\<lambda>(rid, v).
     after_stream X fuel c p rid v)))"

definition drive_run :: "engine_env \<Rightarrow> nat \<Rightarrow> hermes_call \<Rightarrow> prepared \<Rightarrow> unit flow eng" where
  "drive_run X fuel c p =
     bindF (probe_capabilities X p) (\<lambda>caps.
     bindF (check_version X p caps) (\<lambda>version_raw.
     bindF (check_features X c p caps) (\<lambda>_.
     bindF (attach_tools X c p caps) (\<lambda>payload.
     bindF (attach_files X c p payload) (\<lambda>payload.
     submit_and_follow X fuel c p caps version_raw payload)))))"

definition drive_caught :: "engine_env \<Rightarrow> nat \<Rightarrow> hermes_call \<Rightarrow> prepared \<Rightarrow> unit flow eng" where
  "drive_caught X fuel c p =
     catchE (drive_run X fuel c p)
       (\<lambda>exc. if exc = CancelledError then raiseE exc else fail_with X ''RUNTIME_START_FAILED'' ''Hermes native run failed'')"

definition run_attempt :: "engine_env \<Rightarrow> nat \<Rightarrow> hermes_call \<Rightarrow> json \<Rightarrow> string \<Rightarrow> unit flow eng" where
  "run_attempt X fuel c minted gateway_url =
     (if \<not> str_set (hc_run_id c) \<or> \<not> str_set (hc_attempt_id c)
      then fail_with X ''RUNTIME_PROTOCOL_INVALID'' ''Hermes native run requires run_id and attempt_id''
      else
        let att = str_or (hc_attempt_id c) [] in
        bindE (onW (load_attempt_generation att)) (\<lambda>generation.
        let p = prepare_run c minted gateway_url (case generation of None \<Rightarrow> 0 | Some g \<Rightarrow> g) in
        thenE (modifyE (\<lambda>s. s\<lparr>nm := new_normalizer att (''hermes:'' @ att)\<rparr>))
        (thenE (yieldE X (progress_event ''RUNTIME_STARTING'' ''calling hermes native run''))
          (drive_caught X fuel c p))))"

definition with_gateway :: "engine_env \<Rightarrow> nat \<Rightarrow> hermes_call \<Rightarrow> unit flow eng" where
  "with_gateway X fuel c =
     bindF (take_lease X c) (\<lambda>minted.
     bindE (liftE (gateway_of minted (hc_route c))) (\<lambda>gateway_url.
     if gateway_url = [] then yield_return X (error_event (''No Hermes gateway configured for '' @ hc_tool_name c))
     else bindF (check_gateway X gateway_url) (\<lambda>_. run_attempt X fuel c minted gateway_url)))"

definition execute_hermes_run :: "engine_env \<Rightarrow> nat \<Rightarrow> hermes_call \<Rightarrow> unit flow eng" where
  "execute_hermes_run X fuel c =
     thenE (yieldE X (progress_event ''PREPARING'' ''preparing hermes''))
     (bindE (cancel_is_set X) (\<lambda>cancelled.
      if cancelled then yield_return X (cancelled_event ''cancelled before hermes call'')
      else if has_key (hc_route c) ''gateway_token'' \<or> has_key (hc_route c) ''env_file''
      then yield_return X (error_event (''Plaintext credential/env_file in snapshot rejected for ''
             @ hc_tool_name c @ '' (fail-closed)''))
      else with_gateway X fuel c))"

definition new_engine :: "world \<Rightarrow> engine" where
  "new_engine w = \<lparr>wd = w, out = [], nm = new_normalizer [] [], reads = 0, looks = 0, times = 0\<rparr>"

end
