(* ===== verification/Connector_Router.thy ===== *)
theory Connector_Router
  imports Hermes_Engine Step_Plan
begin

text \<open>
  \<open>services/connector_router.py\<close>, \<open>services/secret_store.py\<close> and \<open>services/engine_port.py\<close>: running a
  tool on a REST service, an MCP server or a database instead of an agent runtime. Targets are checked
  before anything is sent (\<open>_validate_ssrf\<close>), and again for every request the HTTP client makes, at whose
  checked address the request is sent.
\<close>

section \<open>What connectors take from outside\<close>

text \<open>
  The files of the secret store and the variables of the environment; name resolution; the answer of a
  service to a request, and of a database to a statement (a row is \<open>None\<close> when it holds a value JSON
  cannot express); what the HTTP client makes of the query parameters of a URL and of a redirection; and
  where a cancellation cuts an operation off (after how many requests), if it does.
\<close>

record request_out =
  rq_method :: string
  rq_url :: string
  rq_headers :: dict
  rq_body :: json

record response =
  rs_status :: int
  rs_json :: "json option"
  rs_text :: string
  rs_location :: string

record connector_env =
  cx_urls :: text_env
  cx_secret_root :: "string list"
  cx_secret_file :: "string list \<Rightarrow> (exn + string) option"
  cx_environ :: "string \<Rightarrow> string option"
  cx_resolve :: "nat \<Rightarrow> string \<Rightarrow> int \<Rightarrow> exn + string list"
  cx_answer :: "nat \<Rightarrow> ext_call \<Rightarrow> exn + response"
  cx_rows :: "nat \<Rightarrow> ext_call \<Rightarrow> exn + json option list"
  cx_url :: "string \<Rightarrow> json \<Rightarrow> exn + string"
  cx_redirect :: "request_out \<Rightarrow> response \<Rightarrow> exn + request_out option"
  cx_race :: "nat \<Rightarrow> nat option"

section \<open>The secret store\<close>

text \<open>\<open>re.sub(r"[^a-zA-Z0-9]+", "_", s)\<close>.\<close>

fun underscored :: "bool \<Rightarrow> string \<Rightarrow> string" where
  "underscored inside [] = []"
| "underscored inside (c # cs) =
     (if ascii_letter c \<or> ascii_digit c then c # underscored False cs
      else if inside then underscored True cs else CHR ''_'' # underscored True cs)"

definition strip_char :: "char \<Rightarrow> string \<Rightarrow> string" where
  "strip_char d s = rstrip_of (\<lambda>c. c = d) (dropWhile (\<lambda>c. c = d) s)"

definition env_key_for_ref :: "string \<Rightarrow> string" where
  "env_key_for_ref ref = ''SKILL_AGENT_SECRET_'' @ upper (strip_char (CHR ''_'') (underscored False ref))"

text \<open>The path \<open>root / s\<close>; the operating system resolves what dots are in it.\<close>

definition secret_path :: "string list \<Rightarrow> string \<Rightarrow> string list" where
  "secret_path root s = (if startswith s ''/'' then [] else root) @ path_parts s"

definition resolve_secret :: "connector_env \<Rightarrow> string \<Rightarrow> bool \<Rightarrow> exn + string option" where
  "resolve_secret C ref fail_closed =
     (if ref = [] then (if fail_closed then Inl (RuntimeError ''empty secret ref_id (fail-closed)'') else Inr None)
      else
        let stored = (case cx_secret_file C (secret_path (cx_secret_root C) ref) of
              Some r \<Rightarrow> Some r
            | None \<Rightarrow> cx_secret_file C (secret_path (cx_secret_root C) (ref @ ''.txt'')));
            set_value = Option.bind (cx_environ C (env_key_for_ref ref)) (\<lambda>v. if strip v = [] then None else Some (strip v))
        in case stored of
             Some (Inl e) \<Rightarrow> Inl e
           | Some (Inr text) \<Rightarrow> Inr (Some (strip text))
           | None \<Rightarrow>
               (case set_value of
                  Some v \<Rightarrow> Inr (Some v)
                | None \<Rightarrow> if fail_closed then Inl (RuntimeError (''secret ref unresolved: '' @ ref @ '' (fail-closed)''))
                          else Inr None))"

definition looks_like_token :: "string \<Rightarrow> bool" where
  "looks_like_token value \<longleftrightarrow>
     (let s = strip value in s \<noteq> [] \<and> CHR '' '' \<notin> set s \<and> newline \<notin> set s)"

text \<open>\<open>s.replace(old, new)\<close> for a text \<open>old\<close> that is not empty.\<close>

function replace_text :: "string \<Rightarrow> string \<Rightarrow> string \<Rightarrow> string" where
  "replace_text old new [] = []"
| "replace_text old new (c # cs) =
     (if old \<noteq> [] \<and> startswith (c # cs) old then new @ replace_text old new (drop (length old) (c # cs))
      else c # replace_text old new cs)"
  by pat_completeness auto
termination
  by (relation "measure (\<lambda>(old, new, s). length s)") auto

declare replace_text.simps [simp del]

definition text_of :: "dict \<Rightarrow> string \<Rightarrow> string" where
  "text_of d key = py_str (or_else (dget d key) (JStr []))"

definition secret_headers :: "dict \<Rightarrow> string \<Rightarrow> dict \<Rightarrow> dict" where
  "secret_headers config secret headers =
     (let name = strip (text_of config ''secret_header'') in
      if name \<noteq> [] then AList.update name (JStr secret) headers
      else if looks_like_token secret then AList.update ''Authorization'' (JStr (''Bearer '' @ secret)) headers
      else headers)"

definition secret_db_url :: "string \<Rightarrow> dict \<Rightarrow> dict" where
  "secret_db_url secret config =
     (let db_url = text_of config ''db_url'' in
      if contains_sub db_url ''{secret}''
      then AList.update ''db_url'' (JStr (replace_text ''{secret}'' secret db_url)) config else config)"

definition apply_secret_to_config :: "connector_env \<Rightarrow> dict \<Rightarrow> dict \<Rightarrow> exn + dict" where
  "apply_secret_to_config C route config =
     (let ref = dget route ''connector_secret_ref_id'' in
      if \<not> truthy ref then Inr config
      else case resolve_secret C (py_str ref) True of
        Inl e \<Rightarrow> Inl e
      | Inr found \<Rightarrow>
          if \<not> str_set found then Inl (RuntimeError (''secret ref unresolved: '' @ py_str ref @ '' (fail-closed)''))
          else case dict_copy (dget config ''headers'') of
            Inl e \<Rightarrow> Inl e
          | Inr headers \<Rightarrow>
              let secret = str_or found [] in
              Inr (secret_db_url secret (AList.update ''headers'' (JObj (secret_headers config secret headers)) config)))"

section \<open>Where a connector may send to\<close>

definition is_forbidden_ip :: "ip \<Rightarrow> bool" where
  "is_forbidden_ip a \<longleftrightarrow>
     is_link_local a \<or> is_multicast a \<or> is_unspecified a \<or> is_reserved a \<or> is_loopback a \<or> is_private a"

text \<open>An entry of an allow list: the host or network it names, and its port. \<open>None\<close>: an empty entry.\<close>

definition parse_entry :: "text_env \<Rightarrow> json \<Rightarrow> exn + (string \<times> json) option" where
  "parse_entry T entry =
     (case entry of
        JObj d \<Rightarrow>
          Inr (Some (rstrip_dot (lower (strip (py_str (or_else (dget d ''host'') (or_else (dget d ''cidr'') (JStr [])))))),
                     dget d ''port''))
      | _ \<Rightarrow>
          let raw = rstrip_dot (lower (strip (py_str entry))) in
          if raw = [] then Inr None
          else case urlparse T (if contains_sub raw ''://'' then raw else ''//'' @ raw) of
            Inl e \<Rightarrow> Inl e
          | Inr u \<Rightarrow>
              (case url_port u of
                 Inl e \<Rightarrow> Inl e
               | Inr port \<Rightarrow>
                   Inr (Some (rstrip_dot (lower (str_or (url_hostname u) raw)),
                              case port of None \<Rightarrow> JNull | Some p \<Rightarrow> JInt p))))"

text \<open>\<open>any(ip_address(a) in network for a in addresses)\<close>.\<close>

fun any_address :: "(ip \<Rightarrow> bool) \<Rightarrow> string list \<Rightarrow> exn + bool" where
  "any_address p [] = Inr False"
| "any_address p (a # as) =
     (case ip_address a of
        None \<Rightarrow> Inl (ValueError ''does not appear to be an IPv4 or IPv6 address'')
      | Some i \<Rightarrow> if p i then Inr True else any_address p as)"

definition entry_matches :: "string \<Rightarrow> string list \<Rightarrow> string \<Rightarrow> exn + bool" where
  "entry_matches host addresses candidate =
     (if startswith candidate ''*.'' \<and> endswith host (tl candidate) then Inr True
      else if host = candidate then Inr True
      else case ip_network candidate of
        None \<Rightarrow> Inr False
      | Some network \<Rightarrow> any_address (\<lambda>a. in_network a network) addresses)"

definition other_port :: "json \<Rightarrow> int \<Rightarrow> exn + bool" where
  "other_port entry_port port =
     (if entry_port = JNull then Inr False
      else case py_int entry_port of Inl e \<Rightarrow> Inl e | Inr p \<Rightarrow> Inr (p \<noteq> port))"

fun matches_allowlist :: "text_env \<Rightarrow> string \<Rightarrow> string list \<Rightarrow> int \<Rightarrow> json list \<Rightarrow> exn + bool" where
  "matches_allowlist T host addresses port [] = Inr False"
| "matches_allowlist T host addresses port (entry # es) =
     (case parse_entry T entry of
        Inl e \<Rightarrow> Inl e
      | Inr None \<Rightarrow> matches_allowlist T host addresses port es
      | Inr (Some (candidate, entry_port)) \<Rightarrow>
          (case other_port entry_port port of
             Inl e \<Rightarrow> Inl e
           | Inr True \<Rightarrow> matches_allowlist T host addresses port es
           | Inr False \<Rightarrow>
               (case entry_matches (rstrip_dot (lower host)) addresses candidate of
                  Inl e \<Rightarrow> Inl e
                | Inr True \<Rightarrow> Inr True
                | Inr False \<Rightarrow> matches_allowlist T host addresses port es)))"

definition BLOCKED_HOSTS :: "string list" where
  "BLOCKED_HOSTS = [''169.254.169.254'', ''metadata.google.internal'', ''instance-data'', ''localhost'', ''127.0.0.1'']"

definition blocked_host :: "string \<Rightarrow> bool" where
  "blocked_host low \<longleftrightarrow> low \<in> set BLOCKED_HOSTS \<or> endswith low ''.internal'' \<or> endswith low ''.local''"

definition url_port_or_default :: "url_parts \<Rightarrow> exn + int" where
  "url_port_or_default u =
     (case url_port u of Inl e \<Rightarrow> Inl e | Inr port \<Rightarrow> Inr (default_port (u_scheme u) port))"

definition resolve_target :: "connector_env \<Rightarrow> nat \<Rightarrow> url_parts \<Rightarrow> string \<Rightarrow> exn + string list" where
  "resolve_target C k u host =
     (case ip_address host of
        Some a \<Rightarrow> Inr [ip_string a]
      | None \<Rightarrow>
          (case url_port_or_default u of
             Inl e \<Rightarrow> Inl e
           | Inr port \<Rightarrow>
               (case cx_resolve C k host port of
                  Inl (NetworkError m) \<Rightarrow> Inl (RuntimeError ''SSRF blocked: DNS resolution failed'')
                | Inl e \<Rightarrow> Inl e
                | Inr addresses \<Rightarrow>
                    if addresses = [] then Inl (RuntimeError ''SSRF blocked: DNS resolution returned no addresses'')
                    else Inr addresses)))"

definition check_addresses ::
  "connector_env \<Rightarrow> json list option \<Rightarrow> url_parts \<Rightarrow> string \<Rightarrow> string list \<Rightarrow> exn + string list" where
  "check_addresses C edge_allowlist u low_host addresses =
     (case edge_allowlist of
        Some allowlist \<Rightarrow>
          (case url_port_or_default u of
             Inl e \<Rightarrow> Inl e
           | Inr port \<Rightarrow>
               (case matches_allowlist (cx_urls C) low_host addresses port allowlist of
                  Inl e \<Rightarrow> Inl e
                | Inr matched \<Rightarrow> if matched then Inr addresses
                                 else Inl (RuntimeError ''SSRF blocked: Edge target is not in frozen allowlist'')))
      | None \<Rightarrow>
          (case any_address is_forbidden_ip addresses of
             Inl e \<Rightarrow> Inl e
           | Inr found \<Rightarrow> if found then Inl (RuntimeError ''SSRF blocked: forbidden IP range'') else Inr addresses))"

text \<open>The addresses of a target, as they resolve at the \<open>k\<close>-th moment, or why it may not be used.\<close>

definition validated :: "connector_env \<Rightarrow> json list option \<Rightarrow> nat \<Rightarrow> string \<Rightarrow> exn + string list" where
  "validated C edge_allowlist k url =
     (case urlparse (cx_urls C) url of
        Inl e \<Rightarrow> Inl e
      | Inr u \<Rightarrow>
          let host = str_or (url_hostname u) []; low_host = rstrip_dot (lower host) in
          if u_scheme u \<notin> {''http'', ''https''} \<or> host = [] then Inl (RuntimeError ''Invalid URL: missing host'')
          else if blocked_host low_host
          then Inl (RuntimeError ''SSRF blocked: request to cloud metadata/internal host is forbidden'')
          else case resolve_target C k u host of
            Inl e \<Rightarrow> Inl e
          | Inr addresses \<Rightarrow> check_addresses C edge_allowlist u low_host addresses)"

definition validate_ssrf :: "connector_env \<Rightarrow> json list option \<Rightarrow> string \<Rightarrow> string list op" where
  "validate_ssrf C edge_allowlist url = (\<lambda>w. (validated C edge_allowlist (length (ext_calls w)) url, w))"

definition edge_allowlist_of :: "dict \<Rightarrow> exn + json list option" where
  "edge_allowlist_of route =
     (if dget route ''placement'' \<noteq> JStr ''edge'' then Inr None
      else
        let policy = or_else (dget route ''network_policy'') (JObj []); own = dget route ''network_allowlist'' in
        case (if truthy own then Inr own else get_attr policy ''allowlist'') of
          Inl e \<Rightarrow> Inl e
        | Inr allowlist \<Rightarrow>
            Inr (Some (if is_list allowlist \<and> list_all (\<lambda>i. is_str i \<or> is_dict i) (list_of allowlist)
                       then list_of allowlist else [])))"

section \<open>Requests\<close>

text \<open>\<open>SSRFSafeTransport.handle_async_request\<close>: the request goes to the first checked address.\<close>

definition host_header :: "connector_env \<Rightarrow> string \<Rightarrow> string" where
  "host_header C url = (case urlparse (cx_urls C) url of Inr u \<Rightarrow> u_netloc u | Inl e \<Rightarrow> [])"

definition handle_request :: "connector_env \<Rightarrow> json list option \<Rightarrow> request_out \<Rightarrow> response op" where
  "handle_request C edge_allowlist q =
     bindE (validate_ssrf C edge_allowlist (rq_url q)) (\<lambda>addresses.
     let x = Wire (hd addresses) (rq_method q) (rq_url q)
               (AList.update ''Host'' (JStr (host_header C (rq_url q))) (rq_headers q)) (rq_body q) in
     bindE (getsE (\<lambda>w. length (ext_calls w))) (\<lambda>k.
     thenE (ext_call x) (liftE (cx_answer C k x))))"

text \<open>The client follows redirections, 20 at most; the URL of the last request is that of the response.\<close>

definition REQUESTS_AT_MOST :: nat where
  "REQUESTS_AT_MOST = 21"

fun client_request :: "connector_env \<Rightarrow> json list option \<Rightarrow> nat \<Rightarrow> request_out \<Rightarrow> (string \<times> response) op" where
  "client_request C edge_allowlist 0 q = raiseE (OtherError ''TooManyRedirects'')"
| "client_request C edge_allowlist (Suc n) q =
     bindE (handle_request C edge_allowlist q) (\<lambda>r.
     bindE (liftE (cx_redirect C q r)) (\<lambda>next.
     case next of
       None \<Rightarrow> returnE (rq_url q, r)
     | Some q' \<Rightarrow> client_request C edge_allowlist n q'))"

definition raise_if_cancelled :: "engine_env \<Rightarrow> unit eng" where
  "raise_if_cancelled X = bindE (cancel_is_set X) (\<lambda>cancelled. if cancelled then raiseE CancelledError else returnE ())"

text \<open>An operation that a cancellation cuts off has sent some of its requests.\<close>

definition cut_calls :: "nat \<Rightarrow> world \<Rightarrow> world \<Rightarrow> world" where
  "cut_calls n w w' = w'\<lparr>ext_calls := take (length (ext_calls w) + n) (ext_calls w')\<rparr>"

definition raced :: "connector_env \<Rightarrow> 'a op \<Rightarrow> 'a eng" where
  "raced C m = (\<lambda>s. case m (wd s) of (r, w) \<Rightarrow>
     (case cx_race C (looks s) of
        None \<Rightarrow> (r, s\<lparr>wd := w\<rparr>)
      | Some n \<Rightarrow> (Inl CancelledError, s\<lparr>wd := cut_calls n (wd s) w\<rparr>)))"

definition await_cancellable :: "engine_env \<Rightarrow> connector_env \<Rightarrow> 'a op \<Rightarrow> 'a eng" where
  "await_cancellable X C m = thenE (raise_if_cancelled X) (raced C m)"

definition raise_for_status :: "response \<Rightarrow> exn + unit" where
  "raise_for_status r = (if 200 \<le> rs_status r \<and> rs_status r \<le> 299 then Inr () else Inl (HttpStatusError (rs_status r)))"

definition safe_json :: "response \<Rightarrow> json" where
  "safe_json r = (case rs_json r of Some j \<Rightarrow> j | None \<Rightarrow> JObj [(''text'', JStr (rs_text r))])"

text \<open>A request with its checks before and after.\<close>

definition checked_exchange ::
  "engine_env \<Rightarrow> connector_env \<Rightarrow> json list option \<Rightarrow> exn + request_out \<Rightarrow> response eng" where
  "checked_exchange X C edge_allowlist q =
     bindE (await_cancellable X C (bindE (liftE q) (client_request C edge_allowlist REQUESTS_AT_MOST))) (\<lambda>(url, r).
     thenE (raise_if_cancelled X)
     (thenE (onW (validate_ssrf C edge_allowlist url))
     (thenE (liftE (raise_for_status r)) (returnE r))))"

section \<open>The three kinds of connectors\<close>

definition completed_event :: "string \<Rightarrow> string \<Rightarrow> yield_event" where
  "completed_event summary content =
     plain_event ''run.completed'' [(''summary'', JStr summary), (''content'', JStr content)]"

definition rest_request :: "connector_env \<Rightarrow> dict \<Rightarrow> dict \<Rightarrow> string \<Rightarrow> string \<Rightarrow> exn + request_out" where
  "rest_request C arguments headers verb url =
     (case cx_url C url (dget arguments ''params'') of
        Inl e \<Rightarrow> Inl e
      | Inr full \<Rightarrow> Inr \<lparr>rq_method = verb, rq_url = full, rq_headers = headers, rq_body = dget arguments ''body''\<rparr>)"

definition run_rest :: "engine_env \<Rightarrow> connector_env \<Rightarrow> json list option \<Rightarrow> dict \<Rightarrow> dict \<Rightarrow> unit eng" where
  "run_rest X C edge_allowlist config arguments =
     (let verb = upper (py_str (or_else (dget config ''method'') (JStr ''POST''))); url = strip (text_of config ''url'') in
      if url = [] then raiseE (RuntimeError ''connector REST url missing in binding config'')
      else
        thenE (onW (validate_ssrf C edge_allowlist url))
        (bindE (liftE (dict_copy (dget config ''headers''))) (\<lambda>headers.
         bindE (checked_exchange X C edge_allowlist (rest_request C arguments headers verb url)) (\<lambda>r.
         yieldE X (completed_event ''REST connector completed'' (dumps_unicode (safe_json r)))))))"

definition mcp_body :: "string \<Rightarrow> dict \<Rightarrow> json" where
  "mcp_body remote_tool arguments =
     JObj [(''jsonrpc'', JStr ''2.0''), (''id'', or_else (dget arguments ''id'') (JStr ''connector-call'')),
           (''method'', JStr ''tools/call''),
           (''params'', JObj [(''name'', JStr remote_tool),
              (''arguments'', or_else (dget arguments ''remote_arguments'') (or_else (dget arguments ''arguments'') (JObj [])))])]"

definition mcp_request :: "dict \<Rightarrow> string \<Rightarrow> json \<Rightarrow> exn + request_out" where
  "mcp_request config endpoint body =
     (case dict_copy (dget config ''headers'') of
        Inl e \<Rightarrow> Inl e
      | Inr headers \<Rightarrow> Inr \<lparr>rq_method = ''POST'', rq_url = endpoint, rq_headers = headers, rq_body = body\<rparr>)"

definition run_mcp :: "engine_env \<Rightarrow> connector_env \<Rightarrow> json list option \<Rightarrow> dict \<Rightarrow> string \<Rightarrow> dict \<Rightarrow> unit eng" where
  "run_mcp X C edge_allowlist config tool_name arguments =
     (let endpoint = strip (text_of config ''url'');
          remote_tool = strip (py_str (or_else (dget config ''remote_tool_name'') (JStr tool_name))) in
      if endpoint = [] then raiseE (RuntimeError ''connector MCP url missing in binding config'')
      else
        thenE (onW (validate_ssrf C edge_allowlist endpoint))
        (bindE (checked_exchange X C edge_allowlist (mcp_request config endpoint (mcp_body remote_tool arguments))) (\<lambda>r.
         case rs_json r of
           None \<Rightarrow> raiseE (ValueError ''invalid JSON'')
         | Some data \<Rightarrow> yieldE X (completed_event ''MCP connector completed'' (dumps_unicode data)))))"

text \<open>Statements: what \<open>READ_ONLY_SQL_RE\<close> and \<open>WRITE_SQL_RE\<close> match.\<close>

definition word_at :: "text_env \<Rightarrow> string \<Rightarrow> string option \<Rightarrow> string list \<Rightarrow> bool" where
  "word_at T word prev us \<longleftrightarrow>
     lit_ci word us \<and> boundary T (Some (us ! (length word - 1))) (drop (length word) us)"

definition READ_WORDS :: "string list" where
  "READ_WORDS = [''select'', ''with'']"

definition WRITE_WORDS :: "string list" where
  "WRITE_WORDS =
     [''insert'', ''update'', ''delete'', ''merge'', ''alter'', ''create'', ''drop'', ''grant'', ''revoke'', ''truncate'',
      ''copy'', ''call'', ''do'']"

definition starts_read_only :: "text_env \<Rightarrow> string \<Rightarrow> bool" where
  "starts_read_only T sql \<longleftrightarrow>
     (let us = dropWhile (is_blank T) (explode sql) in list_ex (\<lambda>w. word_at T w None us) READ_WORDS)"

fun has_write_word :: "text_env \<Rightarrow> string option \<Rightarrow> string list \<Rightarrow> bool" where
  "has_write_word T prev [] \<longleftrightarrow> False"
| "has_write_word T prev (u # us) \<longleftrightarrow>
     (boundary T prev (u # us) \<and> list_ex (\<lambda>w. word_at T w prev (u # us)) WRITE_WORDS)
     \<or> has_write_word T (Some u) us"

definition read_only_sql :: "text_env \<Rightarrow> string \<Rightarrow> bool" where
  "read_only_sql T sql \<longleftrightarrow>
     sql \<noteq> [] \<and> starts_read_only T sql \<and> CHR '';'' \<notin> set sql \<and> \<not> has_write_word T None (explode sql)"

definition validate_read_only_sql :: "text_env \<Rightarrow> string \<Rightarrow> exn + unit" where
  "validate_read_only_sql T sql =
     (if read_only_sql T sql then Inr ()
      else Inl (RuntimeError ''connector DB only allows a single read-only SELECT/WITH SQL statement''))"

definition db_execute :: "connector_env \<Rightarrow> string \<Rightarrow> string \<Rightarrow> json \<Rightarrow> json option list op" where
  "db_execute C db_url sql params =
     bindE (getsE (\<lambda>w. length (ext_calls w))) (\<lambda>k.
     thenE (ext_call (Query db_url sql params)) (liftE (cx_rows C k (Query db_url sql params))))"

definition READ_ONLY_STATEMENT :: string where
  "READ_ONLY_STATEMENT = ''SET TRANSACTION READ ONLY''"

definition TIMEOUT_STATEMENT :: string where
  "TIMEOUT_STATEMENT =
     ''SELECT set_config('' @ [squote] @ ''statement_timeout'' @ [squote] @ '', CAST(:timeout_ms AS text), true)''"

definition bounded :: "int \<Rightarrow> int \<Rightarrow> json \<Rightarrow> int \<Rightarrow> exn + int" where
  "bounded lo hi v standard = (case py_int (or_else v (JInt standard)) of Inl e \<Rightarrow> Inl e | Inr n \<Rightarrow> Inr (min (max n lo) hi))"

text \<open>\<open>json.dumps\<close> of the rows.\<close>

definition rows_text :: "json option list \<Rightarrow> exn + string" where
  "rows_text rows =
     (case all_some rows of None \<Rightarrow> Inl (OtherError ''Object is not JSON serializable'')
                          | Some js \<Rightarrow> Inr (dumps_unicode (JList js)))"

definition run_db :: "engine_env \<Rightarrow> connector_env \<Rightarrow> dict \<Rightarrow> dict \<Rightarrow> unit eng" where
  "run_db X C config arguments =
     (let db_url = strip (text_of config ''db_url''); sql = strip (text_of arguments ''sql'') in
      if db_url = [] then raiseE (RuntimeError ''connector DB url missing in binding config'')
      else
        thenE (liftE (validate_read_only_sql (cx_urls C) sql))
        (thenE (await_cancellable X C (db_execute C db_url READ_ONLY_STATEMENT JNull))
        (bindE (liftE (bounded 1 60000 (dget config ''statement_timeout_ms'') 30000)) (\<lambda>timeout_ms.
         thenE (await_cancellable X C
           (db_execute C db_url TIMEOUT_STATEMENT (JObj [(''timeout_ms'', JInt timeout_ms)])))
         (bindE (await_cancellable X C (db_execute C db_url sql (or_else (dget arguments ''params'') (JObj [])))) (\<lambda>rows.
          thenE (raise_if_cancelled X)
          (bindE (liftE (bounded 1 1000 (dget config ''row_limit'') 1000)) (\<lambda>row_limit.
           let kept = take (nat row_limit) rows in
           bindE (liftE (rows_text kept)) (\<lambda>content.
           yieldE X (completed_event (''DB connector returned '' @ show_int (int (length kept)) @ '' rows'') content))))))))))"

section \<open>A connector run\<close>

definition connector_progress :: "json \<Rightarrow> yield_event" where
  "connector_progress kind =
     plain_event ''run.progress'' [(''stage'', JStr ''connector''), (''message'', JStr (''calling '' @ py_str kind @ '' connector''))]"

definition run_kind :: "engine_env \<Rightarrow> connector_env \<Rightarrow> json list option \<Rightarrow> hermes_call \<Rightarrow> dict \<Rightarrow> unit eng" where
  "run_kind X C edge_allowlist c config =
     (let kind = dget (hc_route c) ''connector_kind'' in
      if kind = JStr ''rest'' then run_rest X C edge_allowlist config (hc_arguments c)
      else if kind = JStr ''mcp'' then run_mcp X C edge_allowlist config (hc_tool_name c) (hc_arguments c)
      else if kind = JStr ''db'' then run_db X C config (hc_arguments c)
      else raiseE (RuntimeError (''unsupported connector kind: '' @ py_str kind)))"

definition execute_connector_run :: "engine_env \<Rightarrow> connector_env \<Rightarrow> hermes_call \<Rightarrow> unit eng" where
  "execute_connector_run X C c =
     thenE (raise_if_cancelled X)
     (bindE (liftE (dict_copy (dget (hc_route c) ''connector_config''))) (\<lambda>plain.
      bindE (liftE (apply_secret_to_config C (hc_route c) plain)) (\<lambda>config.
      bindE (liftE (edge_allowlist_of (hc_route c))) (\<lambda>edge_allowlist.
      thenE (yieldE X (connector_progress (dget (hc_route c) ''connector_kind'')))
        (run_kind X C edge_allowlist c config)))))"

section \<open>The port of all engines\<close>

definition execute_engine ::
  "engine_env \<Rightarrow> connector_env \<Rightarrow> nat \<Rightarrow> string option \<Rightarrow> hermes_call \<Rightarrow> unit flow eng" where
  "execute_engine X C fuel name c =
     (let engine_type = strip (lower (str_or name [])) in
      if engine_type = ''hermes'' then execute_hermes_run X fuel c
      else if engine_type \<in> {''connector'', ''http_connector'', ''mcp_connector''}
      then thenE (execute_connector_run X C c) (returnE Returned)
      else yield_return X (error_event (''Unsupported engine type: '' @ show_opt name @ '' (fail-closed)'')))"

end
