(* ===== verification/Payload_Fit.thy ===== *)
theory Payload_Fit
  imports Event_Sanitizer
begin

text \<open>
  How \<open>_fit_public_payload\<close> of \<open>services/native_event_normalizer.py\<close> cuts an event down:
  the size of \<open>json.dumps\<close>, the depth after \<open>_clip_depth\<close>, what \<open>_shrink_to_utf8_limit\<close> keeps and
  what it drops, and that no key appears that was not there.
\<close>

section \<open>Sizes\<close>

definition entry_size :: "string \<times> json \<Rightarrow> nat" where
  "entry_size kv = length (json_string (fst kv)) + 1 + payload_utf8_size (snd kv)"

lemma length_joined: "length (joined [c] xs) = sum_list (List.map length xs) + (length xs - 1)"
  by (induction "[c]" xs rule: joined.induct) auto

lemma obj_size: "payload_utf8_size (JObj d) = 2 + sum_list (List.map entry_size d) + (length d - 1)"
proof -
  have "List.map length (List.map (\<lambda>kv. json_string (fst kv) @ '':'' @ dumps_compact (snd kv)) d) = List.map entry_size d"
    by (simp add: entry_size_def payload_utf8_size_def)
  then show ?thesis by (simp add: payload_utf8_size_def length_joined del: map_map)
qed

lemma obj_size_append:
  "payload_utf8_size (JObj (d @ [kv])) =
     payload_utf8_size (JObj d) + entry_size kv + (if d = [] then 0 else 1)"
  by (cases d) (simp_all add: obj_size)

lemma esc_char_length: "1 \<le> length (esc_char c)" "length (esc_char c) \<le> 6"
  by (auto simp: esc_char_def u_escape_def hex4_def split: option.splits)

lemma json_string_size:
  "length s + 2 \<le> length (json_string s)" "length (json_string s) \<le> 6 * length s + 2"
proof -
  show "length s + 2 \<le> length (json_string s)"
  proof (induction s)
    case (Cons c s)
    then show ?case using esc_char_length(1) [of c] by (simp add: json_string_def)
  qed (simp add: json_string_def)
  show "length (json_string s) \<le> 6 * length s + 2"
  proof (induction s)
    case (Cons c s)
    then show ?case using esc_char_length(2) [of c] by (simp add: json_string_def)
  qed (simp add: json_string_def)
qed

text \<open>A text that \<open>json.dumps\<close> writes without escapes.\<close>

definition plain :: "string \<Rightarrow> bool" where
  "plain s \<longleftrightarrow> list_all (\<lambda>c. 32 \<le> byte c \<and> byte c \<noteq> 34 \<and> byte c \<noteq> 92) s"

lemma plain_size:
  assumes "plain s" shows "payload_utf8_size (JStr s) = length s + 2"
proof -
  have "List.map esc_char s = List.map (\<lambda>c. [c]) s"
    using assms by (auto simp: plain_def list_all_iff esc_char_def short_escape_def)
  moreover have "concat (List.map (\<lambda>c. [c]) s) = s" by (induction s) simp_all
  ultimately have "concat (List.map esc_char s) = s" by (simp only:)
  then show ?thesis by (simp add: payload_utf8_size_def json_string_def)
qed

lemma plain_take: "plain s \<Longrightarrow> plain (take n s)"
  by (auto simp: plain_def list_all_iff dest: in_set_takeD)

section \<open>Depth\<close>

lemma foldr_max_le: "foldr max xs (0::nat) \<le> k \<longleftrightarrow> (\<forall>x\<in>set xs. x \<le> k)"
  by (induction xs) auto

lemma json_depth_ge: "n \<le> json_depth n v"
proof (induction n v rule: json_depth.induct)
  case (1 n d)
  show ?case
  proof (cases d)
    case (Cons kv kvs)
    have "n + 1 \<le> json_depth (n + 1) (snd kv)" by (rule 1) (simp_all add: Cons)
    then show ?thesis using Cons by simp
  qed simp
next
  case (2 n xs)
  show ?case
  proof (cases xs)
    case (Cons x ys)
    have "n + 1 \<le> json_depth (n + 1) x" by (rule 2) (simp_all add: Cons)
    then show ?thesis using Cons by simp
  qed simp
qed simp_all

lemma depth_obj_le: "json_depth n (JObj d) \<le> k \<longleftrightarrow> n \<le> k \<and> (\<forall>kv\<in>set d. json_depth (n + 1) (snd kv) \<le> k)"
proof (cases "d = []")
  case False
  then obtain kv where kv: "kv \<in> set d" by (meson last_in_set)
  have "(\<forall>kv\<in>set d. json_depth (n + 1) (snd kv) \<le> k) \<Longrightarrow> n \<le> k"
    using kv json_depth_ge [of "n + 1" "snd kv"] by fastforce
  with False show ?thesis by (auto simp: foldr_max_le)
qed simp

lemma depth_list_le: "json_depth n (JList xs) \<le> k \<longleftrightarrow> n \<le> k \<and> (\<forall>x\<in>set xs. json_depth (n + 1) x \<le> k)"
proof (cases "xs = []")
  case False
  then obtain x where x: "x \<in> set xs" by (meson last_in_set)
  have "(\<forall>x\<in>set xs. json_depth (n + 1) x \<le> k) \<Longrightarrow> n \<le> k"
    using x json_depth_ge [of "n + 1" x] by fastforce
  with False show ?thesis by (auto simp: foldr_max_le)
qed simp

section \<open>Cutting what is nested too deep\<close>

text \<open>What \<open>_clip_depth\<close> returns, and whether it cut anything.\<close>

fun clipped :: "nat \<Rightarrow> json \<Rightarrow> json" where
  "clipped n (JObj d) =
     (if n \<ge> MAX_TOOL_EVENT_JSON_DEPTH then JNull else JObj (List.map (\<lambda>kv. (fst kv, clipped (n + 1) (snd kv))) d))"
| "clipped n (JList xs) =
     (if n \<ge> MAX_TOOL_EVENT_JSON_DEPTH then JNull else JList (List.map (clipped (n + 1)) xs))"
| "clipped n v = v"

fun nested_too_deep :: "nat \<Rightarrow> json \<Rightarrow> bool" where
  "nested_too_deep n (JObj d) \<longleftrightarrow>
     n \<ge> MAX_TOOL_EVENT_JSON_DEPTH \<or> list_ex (\<lambda>kv. nested_too_deep (n + 1) (snd kv)) d"
| "nested_too_deep n (JList xs) \<longleftrightarrow>
     n \<ge> MAX_TOOL_EVENT_JSON_DEPTH \<or> list_ex (nested_too_deep (n + 1)) xs"
| "nested_too_deep n v \<longleftrightarrow> False"

lemma mapE_pure:
  assumes "\<And>x f. x \<in> set xs \<Longrightarrow> m x f = (Inr (g x), f\<lparr>truncated := truncated f \<or> b x\<rparr>)"
  shows "mapE xs m (f :: flags) = (Inr (List.map g xs), f\<lparr>truncated := truncated f \<or> list_ex b xs\<rparr>)"
  using assms by (induction xs arbitrary: f) (simp_all add: bindE_def disj_assoc)

lemma clip_depth_run:
  "clip_depth n v f = (Inr (clipped n v), f\<lparr>truncated := truncated f \<or> nested_too_deep n v\<rparr>)"
proof (induction n v arbitrary: f rule: clip_depth.induct)
  case (1 n d)
  show ?case
  proof (cases "n \<ge> MAX_TOOL_EVENT_JSON_DEPTH")
    case False
    have "mapE d (\<lambda>(key, item). bindE (clip_depth (n + 1) item) (\<lambda>v. returnE (key, v))) f
      = (Inr (List.map (\<lambda>kv. (fst kv, clipped (n + 1) (snd kv))) d),
         f\<lparr>truncated := truncated f \<or> list_ex (\<lambda>kv. nested_too_deep (n + 1) (snd kv)) d\<rparr>)"
      by (rule mapE_pure) (use 1 False in \<open>auto simp: bindE_def\<close>)
    then show ?thesis using False by (simp add: bindE_def)
  qed (simp add: thenE_def bindE_def mark_truncated_def)
next
  case (2 n xs)
  show ?case
  proof (cases "n \<ge> MAX_TOOL_EVENT_JSON_DEPTH")
    case False
    have "mapE xs (\<lambda>item. clip_depth (n + 1) item) f
      = (Inr (List.map (clipped (n + 1)) xs),
         f\<lparr>truncated := truncated f \<or> list_ex (nested_too_deep (n + 1)) xs\<rparr>)"
      by (rule mapE_pure) (use 2 False in \<open>auto\<close>)
    then show ?thesis using False by (simp add: bindE_def)
  qed (simp add: thenE_def bindE_def mark_truncated_def)
qed simp_all

lemma clipped_depth: "n \<le> MAX_TOOL_EVENT_JSON_DEPTH \<Longrightarrow> json_depth n (clipped n v) \<le> MAX_TOOL_EVENT_JSON_DEPTH"
proof (induction n v rule: clipped.induct)
  case (1 n d)
  show ?case
  proof (cases "n \<ge> MAX_TOOL_EVENT_JSON_DEPTH")
    case False
    have "json_depth n (JObj (List.map (\<lambda>kv. (fst kv, clipped (n + 1) (snd kv))) d)) \<le> MAX_TOOL_EVENT_JSON_DEPTH"
      unfolding depth_obj_le using 1 False by auto
    then show ?thesis using False by (simp only: clipped.simps if_False)
  qed (use 1 in simp)
next
  case (2 n xs)
  show ?case
  proof (cases "n \<ge> MAX_TOOL_EVENT_JSON_DEPTH")
    case False
    have "json_depth n (JList (List.map (clipped (n + 1)) xs)) \<le> MAX_TOOL_EVENT_JSON_DEPTH"
      unfolding depth_list_le using 2 False by auto
    then show ?thesis using False by (simp only: clipped.simps if_False)
  qed (use 2 in simp)
qed simp_all

section \<open>Shrinking\<close>

lemma clip_string_depth: "json_depth n (fit_string out item s) = n"
  by (simp add: fit_string_def)

definition cut_item :: "dict \<Rightarrow> json \<Rightarrow> json" where
  "cut_item out item =
     (if is_str item then fit_string out item (str_val item)
      else if is_dict item \<or> is_list item then shrink_to_utf8_limit item else item)"

lemma shrink_entries_step:
  "shrink_entries (kv # rest) =
     (let out = rev (kv # rest); out' = rev ((fst kv, cut_item out (snd kv)) # rest) in
      if \<not> too_large (JObj out) then out else if too_large (JObj out') then shrink_entries rest else out')"
  by (cases kv) (simp only: shrink_entries.simps(2) Let_def cut_item_def fst_conv snd_conv)

lemma shrink_entries_keep:
  assumes "\<not> too_large (JObj pre)"
  shows "\<exists>suf. shrink_entries (rev (pre @ rest)) = pre @ suf \<and> set (List.map fst suf) \<subseteq> set (List.map fst rest)"
proof (induction rest rule: rev_induct)
  case Nil
  show ?case
  proof (cases pre rule: rev_cases)
    case (snoc p kv)
    with assms have "shrink_entries (rev pre) = pre" by (simp add: shrink_entries_step)
    then show ?thesis by simp
  qed (simp add: shrink_entries.simps)
next
  case (snoc kv rest)
  let ?out = "pre @ rest @ [kv]"
  let ?kv = "(fst kv, cut_item ?out (snd kv))"
  have step: "shrink_entries (rev ?out) =
    (if \<not> too_large (JObj ?out) then ?out
     else if too_large (JObj (pre @ rest @ [?kv])) then shrink_entries (rev (pre @ rest)) else pre @ rest @ [?kv])"
    by (simp add: shrink_entries_step Let_def)
  then consider "shrink_entries (rev ?out) = pre @ (rest @ [kv])"
    | "shrink_entries (rev ?out) = shrink_entries (rev (pre @ rest))"
    | "shrink_entries (rev ?out) = pre @ (rest @ [?kv])" by metis
  then show ?case
  proof cases
    case 1
    then show ?thesis by blast
  next
    case 2
    then show ?thesis using snoc.IH by auto
  next
    case 3
    moreover have "set (List.map fst (rest @ [?kv])) \<subseteq> set (List.map fst (rest @ [kv]))" by simp
    ultimately show ?thesis by blast
  qed
qed

lemma shrink_entries_size: "\<not> too_large (JObj (shrink_entries r))"
proof (induction r)
  case Nil
  show ?case by (simp add: shrink_entries.simps too_large_def obj_size MAX_TOOL_EVENT_UTF8_BYTES_def)
next
  case (Cons kv r)
  then show ?case by (simp add: shrink_entries_step Let_def del: rev.simps)
qed

lemma shrink_large:
  "too_large (JList xs) \<Longrightarrow> shrink_to_utf8_limit (JList xs) = JList (List.map shrink_to_utf8_limit (trim_items xs))"
  "too_large (JObj d) \<Longrightarrow> shrink_to_utf8_limit (JObj d) = JObj (shrink_entries (rev d))"
  by (simp_all add: shrink_to_utf8_limit.simps [of "JList xs"] shrink_to_utf8_limit.simps [of "JObj d"])

lemma shrink_depth:
  "\<And>n k. json_depth n v \<le> k \<Longrightarrow> json_depth n (shrink_to_utf8_limit v) \<le> k"
  "\<And>n k. \<forall>kv\<in>set r. json_depth n (snd kv) \<le> k \<Longrightarrow> \<forall>kv\<in>set (shrink_entries r). json_depth n (snd kv) \<le> k"
proof (induction v and r rule: shrink_to_utf8_limit_shrink_entries.induct)
  case (1 v)
  note p = \<open>json_depth n v \<le> k\<close>
  have nk: "n \<le> k" using p json_depth_ge [of n v] by simp
  show ?case
  proof (cases "too_large v")
    case large: True
    show ?thesis
    proof (cases v)
      case (JList xs)
      have "\<forall>x\<in>set (trim_items xs). json_depth (n + 1) (shrink_to_utf8_limit x) \<le> k"
        using 1(1) [OF _ JList] large p set_trim_items [of xs] unfolding JList depth_list_le by blast
      then have "json_depth n (JList (List.map shrink_to_utf8_limit (trim_items xs))) \<le> k"
        unfolding depth_list_le using nk by simp
      then show ?thesis using large JList by (simp only: shrink_large)
    next
      case (JObj d)
      have "\<forall>kv\<in>set (rev d). json_depth (n + 1) (snd kv) \<le> k" using p unfolding JObj depth_obj_le by simp
      then have "\<forall>kv\<in>set (shrink_entries (rev d)). json_depth (n + 1) (snd kv) \<le> k"
        using 1(2) [OF _ JObj] large by blast
      then have "json_depth n (JObj (shrink_entries (rev d))) \<le> k" unfolding depth_obj_le using nk by simp
      then show ?thesis using large JObj by (simp only: shrink_large)
    qed (use large nk in \<open>simp_all add: shrink_to_utf8_limit.simps\<close>)
  qed (use p in \<open>simp add: shrink_to_utf8_limit.simps [of v]\<close>)
next
  case 2
  then show ?case by (simp add: shrink_entries.simps)
next
  case (3 key item rest)
  note p = \<open>\<forall>kv\<in>set ((key, item) # rest). json_depth n (snd kv) \<le> k\<close>
  let ?out = "rev ((key, item) # rest)"
  have nk: "n \<le> k" using p json_depth_ge [of n item] by simp
  have "json_depth n (cut_item ?out item) \<le> k" if large: "too_large (JObj ?out)"
  proof (cases "is_str item")
    case False
    then show ?thesis using 3(1) [OF refl _ False] large p
      by (cases "is_dict item \<or> is_list item") (simp_all add: cut_item_def del: rev.simps)
  qed (simp add: cut_item_def clip_string_depth nk)
  moreover have "\<forall>kv\<in>set (shrink_entries rest). json_depth n (snd kv) \<le> k"
    if "too_large (JObj ?out)" "too_large (JObj (rev ((key, cut_item ?out item) # rest)))"
    using 3(2) [OF refl _ refl refl] that p by (simp add: cut_item_def del: rev.simps)
  ultimately show ?case using p by (simp add: shrink_entries_step Let_def)
qed

section \<open>Keys\<close>

fun keys_all :: "(string \<Rightarrow> bool) \<Rightarrow> json \<Rightarrow> bool" where
  "keys_all P (JObj d) \<longleftrightarrow> list_all (\<lambda>kv. P (fst kv) \<and> keys_all P (snd kv)) d"
| "keys_all P (JList xs) \<longleftrightarrow> list_all (keys_all P) xs"
| "keys_all P v \<longleftrightarrow> True"

lemma clipped_keys: "keys_all P v \<Longrightarrow> keys_all P (clipped n v)"
  by (induction n v rule: clipped.induct) (auto simp: list_all_iff)

lemma shrink_keys:
  "keys_all P v \<Longrightarrow> keys_all P (shrink_to_utf8_limit v)"
  "list_all (\<lambda>kv. P (fst kv) \<and> keys_all P (snd kv)) r
    \<Longrightarrow> list_all (\<lambda>kv. P (fst kv) \<and> keys_all P (snd kv)) (shrink_entries r)"
proof (induction v and r rule: shrink_to_utf8_limit_shrink_entries.induct)
  case (1 v)
  show ?case
  proof (cases "too_large v")
    case large: True
    show ?thesis
    proof (cases v)
      case (JList xs)
      have "list_all (keys_all P) xs" using 1(3) JList by simp
      then have "\<forall>x\<in>set (trim_items xs). keys_all P (shrink_to_utf8_limit x)"
        using 1(1) [OF _ JList] large set_trim_items [of xs] unfolding list_all_iff by blast
      then show ?thesis using large JList by (simp only: shrink_large) (simp add: list_all_iff)
    next
      case (JObj d)
      have "list_all (\<lambda>kv. P (fst kv) \<and> keys_all P (snd kv)) (rev d)" using 1(3) JObj by simp
      then show ?thesis using 1(2) [OF _ JObj] large JObj by (simp only: shrink_large) simp
    qed (use large in \<open>simp_all add: shrink_to_utf8_limit.simps\<close>)
  qed (use 1(3) in \<open>simp add: shrink_to_utf8_limit.simps [of v]\<close>)
next
  case 2
  then show ?case by (simp add: shrink_entries.simps)
next
  case (3 key item rest)
  note p = \<open>list_all (\<lambda>kv. P (fst kv) \<and> keys_all P (snd kv)) ((key, item) # rest)\<close>
  let ?out = "rev ((key, item) # rest)"
  have "keys_all P (cut_item ?out item)" if large: "too_large (JObj ?out)"
  proof (cases "is_str item")
    case False
    then show ?thesis using 3(1) [OF refl _ False] large p
      by (cases "is_dict item \<or> is_list item") (simp_all add: cut_item_def del: rev.simps)
  qed (simp add: cut_item_def fit_string_def)
  moreover have "list_all (\<lambda>kv. P (fst kv) \<and> keys_all P (snd kv)) (shrink_entries rest)"
    if "too_large (JObj ?out)" "too_large (JObj (rev ((key, cut_item ?out item) # rest)))"
    using 3(2) [OF refl _ refl refl] that p by (simp add: cut_item_def del: rev.simps)
  ultimately show ?case using p by (simp add: shrink_entries_step Let_def)
qed

section \<open>Fitting a payload\<close>

text \<open>The fields a tool event starts with. They are short when they leave room for the flags.\<close>

definition call_head :: "string \<Rightarrow> string \<Rightarrow> string \<Rightarrow> dict" where
  "call_head n i st = [(''tool_name'', JStr n), (''call_id'', JStr i), (''status'', JStr st)]"

definition short_head :: "string \<Rightarrow> string \<Rightarrow> string \<Rightarrow> bool" where
  "short_head n i st \<longleftrightarrow> payload_utf8_size (JObj (call_head n i st)) + 60 \<le> MAX_TOOL_EVENT_UTF8_BYTES"

lemma short_headI:
  assumes "length n \<le> 3000" and "length i \<le> 6000" and "length st \<le> 20"
  shows "short_head n i st"
proof -
  have "length (json_string n) \<le> 18002" "length (json_string i) \<le> 36002" "length (json_string st) \<le> 122"
    using json_string_size(2) [of n] json_string_size(2) [of i] json_string_size(2) [of st] assms by linarith+
  moreover have "length (json_string ''tool_name'') \<le> 56" "length (json_string ''call_id'') \<le> 44"
    "length (json_string ''status'') \<le> 38"
    using json_string_size(2) [of "''tool_name''"] json_string_size(2) [of "''call_id''"]
      json_string_size(2) [of "''status''"] by simp_all
  ultimately show ?thesis
    by (simp add: short_head_def call_head_def obj_size entry_size_def payload_utf8_size_def MAX_TOOL_EVENT_UTF8_BYTES_def)
qed

lemma update_append: "k \<notin> set (List.map fst xs) \<Longrightarrow> AList.update k v (xs @ ys) = xs @ AList.update k v ys"
  by (induction xs) auto

lemma set_flags_head: "set_flags f (call_head n i st @ d) = call_head n i st @ set_flags f d"
  by (simp add: set_flags_def call_head_def)

lemma keys_update: "set (List.map fst (AList.update k v d)) = insert k (set (List.map fst d))"
  using dom_update [of k v d] by (simp add: image_def)

lemma keys_set_flags: "set (List.map fst (set_flags f d)) = set (List.map fst d) \<union> {''redacted'', ''truncated''}"
  unfolding set_flags_def keys_update by blast

lemma flags_set: "dget (set_flags f d) ''redacted'' = JBool (redacted f)"
  "dget (set_flags f d) ''truncated'' = JBool (truncated f)"
  by (simp_all add: set_flags_def jflag_def)

lemma compact_head:
  "compact_payload (call_head n i st @ d) =
     call_head n i st @ (if has_key d ''error_code'' then [(''error_code'', dget d ''error_code'')] else [])"
  by (simp add: compact_payload_def COMPACT_KEYS_def call_head_def)

text \<open>The flags cost at most 36 bytes.\<close>

lemma update_size:
  assumes "payload_utf8_size v \<le> 5"
  shows "payload_utf8_size (JObj (AList.update k v d)) \<le> payload_utf8_size (JObj d) + length (json_string k) + 7"
proof -
  have "sum_list (List.map entry_size (AList.update k v d)) + length (AList.update k v d)
    \<le> sum_list (List.map entry_size d) + length d + length (json_string k) + 7"
    using assms by (induction d) (auto simp: entry_size_def)
  moreover have "length d \<le> length (AList.update k v d)" by (induction d) auto
  ultimately show ?thesis using assms by (cases d) (auto simp: obj_size entry_size_def)
qed

lemma set_flags_size: "payload_utf8_size (JObj (set_flags f d)) \<le> payload_utf8_size (JObj d) + 36"
proof -
  have b: "payload_utf8_size (jflag b) \<le> 5" for b by (simp add: jflag_def payload_utf8_size_def)
  have k: "length (json_string ''redacted'') = 10" "length (json_string ''truncated'') = 11"
    using plain_size [of "''redacted''"] plain_size [of "''truncated''"]
    by (simp_all add: payload_utf8_size_def plain_def)
  show ?thesis
    using update_size [OF b, of "''redacted''" "redacted f" d]
      update_size [OF b, of "''truncated''" "truncated f" "AList.update ''redacted'' (jflag (redacted f)) d"]
    by (simp add: set_flags_def k)
qed

text \<open>The payload after its nesting and its size were cut, with the flags as they are then.\<close>

definition cut_rest :: "dict \<Rightarrow> dict" where
  "cut_rest rest = List.map (\<lambda>kv. (fst kv, clipped 2 (snd kv))) rest"

definition cut_dict :: "dict \<Rightarrow> dict" where
  "cut_dict d = (if too_large (JObj d) then shrink_entries (rev d) else d)"

definition cut_flags :: "dict \<Rightarrow> flags \<Rightarrow> flags" where
  "cut_flags p f = f\<lparr>truncated := truncated f \<or> nested_too_deep 1 (JObj p) \<or> too_large (JObj (cut_rest p))\<rparr>"

lemma fit_run:
  "fit_public_payload p f =
     (let g = cut_flags p f; fitted = set_flags g (cut_dict (cut_rest p)) in
      if too_large (JObj fitted)
      then (Inr (set_flags (g\<lparr>truncated := True\<rparr>) (compact_payload fitted)), g\<lparr>truncated := True\<rparr>)
      else (Inr fitted, g))"
proof -
  have clip: "clip_depth 1 (JObj p) f = (Inr (JObj (cut_rest p)), f\<lparr>truncated := truncated f \<or> nested_too_deep 1 (JObj p)\<rparr>)"
    unfolding clip_depth_run by (simp add: cut_rest_def MAX_TOOL_EVENT_JSON_DEPTH_def numeral_2_eq_2)
  let ?f1 = "f\<lparr>truncated := truncated f \<or> nested_too_deep 1 (JObj p)\<rparr>"
  have cut: "(if too_large (JObj (cut_rest p)) then shrink (JObj (cut_rest p)) else returnE (JObj (cut_rest p))) ?f1
     = (Inr (JObj (cut_dict (cut_rest p))), cut_flags p f)"
    by (auto simp: shrink_def cut_dict_def cut_flags_def thenE_def bindE_def mark_truncated_def shrink_large whenE_def)
  show ?thesis
    unfolding fit_public_payload_def bindE_run [of "clip_depth 1 (JObj p)", OF clip]
    unfolding is_dict.simps not_True_eq_False if_False
    unfolding bindE_def [of "if too_large (JObj (cut_rest p)) then shrink (JObj (cut_rest p)) else returnE (JObj (cut_rest p))"] cut
    by (simp add: finish_payload_def Let_def bindE_def thenE_def mark_truncated_def)
qed

lemma cut_rest_head: "cut_rest (call_head n i st @ rest) = call_head n i st @ cut_rest rest"
  by (simp add: cut_rest_def call_head_def)

lemma keys_cut_rest: "List.map fst (cut_rest d) = List.map fst d"
  by (simp add: cut_rest_def comp_def)

lemma cut_dict_head:
  assumes "payload_utf8_size (JObj h) \<le> MAX_TOOL_EVENT_UTF8_BYTES"
  shows "\<exists>s. cut_dict (h @ d) = h @ s \<and> set (List.map fst s) \<subseteq> set (List.map fst d)"
proof (cases "too_large (JObj (h @ d))")
  case True
  have "\<not> too_large (JObj h)" using assms by (simp add: too_large_def)
  from shrink_entries_keep [OF this, of d] True show ?thesis unfolding cut_dict_def by auto
qed (auto simp: cut_dict_def)

lemma cut_dict_size: "\<not> too_large (JObj (cut_dict d))"
  by (simp add: cut_dict_def shrink_entries_size)

lemma cut_depth: "\<forall>kv\<in>set (cut_dict (cut_rest p)). json_depth 2 (snd kv) \<le> MAX_TOOL_EVENT_JSON_DEPTH"
proof -
  have "\<forall>kv\<in>set (cut_rest p). json_depth 2 (snd kv) \<le> MAX_TOOL_EVENT_JSON_DEPTH"
    using clipped_depth [of 2] by (auto simp: cut_rest_def MAX_TOOL_EVENT_JSON_DEPTH_def)
  then show ?thesis using shrink_depth(2) [of "rev (cut_rest p)" 2] by (simp add: cut_dict_def)
qed

lemma set_update: "set (AList.update k v d) \<subseteq> insert (k, v) (set d)"
  by (induction d) auto

lemma set_set_flags:
  "set (set_flags f d) \<subseteq> set d \<union> {(''redacted'', JBool (redacted f)), (''truncated'', JBool (truncated f))}"
  using set_update [of "''truncated''" "JBool (truncated f)" "AList.update ''redacted'' (JBool (redacted f)) d"]
    set_update [of "''redacted''" "JBool (redacted f)" d]
  unfolding set_flags_def jflag_def by blast

lemma flags_depth:
  assumes "\<forall>kv\<in>set d. json_depth 2 (snd kv) \<le> MAX_TOOL_EVENT_JSON_DEPTH"
  shows "json_depth 1 (JObj (set_flags f d)) \<le> MAX_TOOL_EVENT_JSON_DEPTH"
proof -
  have "\<forall>kv\<in>set (set_flags f d). json_depth 2 (snd kv) \<le> MAX_TOOL_EVENT_JSON_DEPTH"
    using set_set_flags [of f d] assms by (auto simp: MAX_TOOL_EVENT_JSON_DEPTH_def)
  then show ?thesis unfolding depth_obj_le by (simp add: MAX_TOOL_EVENT_JSON_DEPTH_def numeral_2_eq_2)
qed

lemma compact_subset: "set (compact_payload d) \<subseteq> set d"
proof -
  have "has_key d k \<Longrightarrow> (k, dget d k) \<in> set d" for k
    by (auto simp: has_key_def dget_def dest: map_of_SomeD split: option.splits)
  then show ?thesis by (auto simp: compact_payload_def)
qed

text \<open>
  A fitted payload keeps the three fields it starts with, has no field it did not have but the
  flags, which say what was done, and is not nested too deep.
\<close>

lemma fit_call:
  assumes "short_head n i st"
  shows "\<exists>s g. fit_public_payload (call_head n i st @ rest) f = (Inr (call_head n i st @ s), g)
    \<and> set (List.map fst s) \<subseteq> set (List.map fst rest) \<union> {''redacted'', ''truncated''}
    \<and> dget s ''redacted'' = JBool (redacted g) \<and> dget s ''truncated'' = JBool (truncated g) \<and> redacted g = redacted f
    \<and> json_depth 1 (JObj (call_head n i st @ s)) \<le> MAX_TOOL_EVENT_JSON_DEPTH
    \<and> (\<not> has_key rest ''error_code'' \<longrightarrow> \<not> too_large (JObj (call_head n i st @ s)))
    \<and> set s \<subseteq> set (cut_dict (cut_rest (call_head n i st @ rest))) \<union> {(''redacted'', JBool (redacted g)), (''truncated'', JBool (truncated g))}"
proof -
  let ?h = "call_head n i st"
  let ?c = "cut_dict (cut_rest (?h @ rest))"
  define g where "g = cut_flags (?h @ rest) f"
  have room: "payload_utf8_size (JObj ?h) \<le> MAX_TOOL_EVENT_UTF8_BYTES"
    using assms by (simp add: short_head_def)
  obtain s0 where s0: "?c = ?h @ s0" "set (List.map fst s0) \<subseteq> set (List.map fst rest)"
    using cut_dict_head [OF room, of "cut_rest rest"] by (auto simp: cut_rest_head keys_cut_rest)
  have red: "redacted g = redacted f" by (simp add: g_def cut_flags_def)
  let ?fit = "set_flags g ?c"
  have fit: "?fit = ?h @ set_flags g s0" by (simp only: s0(1) set_flags_head)
  show ?thesis
  proof (cases "too_large (JObj ?fit)")
    case False
    then have run: "fit_public_payload (?h @ rest) f = (Inr (?h @ set_flags g s0), g)"
      using fit by (simp add: fit_run g_def [symmetric] Let_def)
    have keys: "set (List.map fst (set_flags g s0)) \<subseteq> set (List.map fst rest) \<union> {''redacted'', ''truncated''}"
      using s0(2) unfolding keys_set_flags by blast
    have depth: "json_depth 1 (JObj (?h @ set_flags g s0)) \<le> MAX_TOOL_EVENT_JSON_DEPTH"
      using flags_depth [OF cut_depth, of g "?h @ rest"] unfolding fit .
    have sub: "set (set_flags g s0) \<subseteq> set ?c \<union> {(''redacted'', JBool (redacted g)), (''truncated'', JBool (truncated g))}"
      using set_set_flags [of g s0] unfolding s0(1) set_append by blast
    show ?thesis
      using run keys flags_set [of g s0] red depth False fit sub
      by (intro exI [of _ "set_flags g s0"] exI [of _ g] conjI impI) (simp_all only: simp_thms)
  next
    case True
    define e where "e = (if has_key (set_flags g s0) ''error_code'' then [(''error_code'', dget (set_flags g s0) ''error_code'')] else [])"
    let ?g = "g\<lparr>truncated := True\<rparr>"
    have c: "compact_payload ?fit = ?h @ e" by (simp only: fit compact_head e_def)
    have run: "fit_public_payload (?h @ rest) f = (Inr (?h @ set_flags ?g e), ?g)"
      using True c by (simp add: fit_run g_def [symmetric] Let_def set_flags_head)
    have dg: "dget (set_flags g s0) ''error_code'' = dget s0 ''error_code''"
      "has_key (set_flags g s0) ''error_code'' = has_key s0 ''error_code''" by (simp_all add: set_flags_def)
    have e: "e = [] \<or> has_key s0 ''error_code'' \<and> e = [(''error_code'', dget s0 ''error_code'')]"
      by (simp add: e_def dg)
    have mem: "has_key s0 ''error_code'' \<Longrightarrow> (''error_code'', dget s0 ''error_code'') \<in> set s0"
      by (auto simp: has_key_def dget_def dest: map_of_SomeD split: option.splits)
    have sub: "set e \<subseteq> set s0" using e mem by auto
    have keys: "set (List.map fst e) \<subseteq> set (List.map fst rest)" using sub s0(2) by auto
    have ec: "\<not> has_key rest ''error_code'' \<Longrightarrow> e = []"
      using e s0(2) by (auto simp: has_key_def map_of_eq_None_iff)
    have small: "\<not> too_large (JObj (?h @ set_flags ?g e))" if "\<not> has_key rest ''error_code''"
    proof -
      have "payload_utf8_size (JObj (set_flags ?g ?h)) \<le> payload_utf8_size (JObj ?h) + 36" by (rule set_flags_size)
      moreover have "?h @ set_flags ?g e = set_flags ?g ?h"
        using ec [OF that] set_flags_head [of ?g n i st "[]"] by simp
      ultimately show ?thesis using assms by (simp add: short_head_def too_large_def)
    qed
    have depth: "json_depth 1 (JObj (set_flags ?g (?h @ e))) \<le> MAX_TOOL_EVENT_JSON_DEPTH"
      by (rule flags_depth) (use cut_depth [of "?h @ rest"] sub s0(1) in auto)
    have keys': "set (List.map fst (set_flags ?g e)) \<subseteq> set (List.map fst rest) \<union> {''redacted'', ''truncated''}"
      using keys unfolding keys_set_flags by blast
    have sub': "set (set_flags ?g e) \<subseteq> set ?c \<union> {(''redacted'', JBool (redacted ?g)), (''truncated'', JBool (truncated ?g))}"
      using set_set_flags [of ?g e] sub unfolding s0(1) set_append by blast
    have red': "redacted ?g = redacted f" using red by simp
    have depth': "json_depth 1 (JObj (?h @ set_flags ?g e)) \<le> MAX_TOOL_EVENT_JSON_DEPTH"
      using depth unfolding set_flags_head .
    show ?thesis
      using run keys' flags_set [of ?g e] red' depth' small sub'
      by (intro exI [of _ "set_flags ?g e"] exI [of _ ?g] conjI impI) (simp_all only: simp_thms)
  qed
qed

section \<open>Texts that are too long\<close>

definition plain_ascii :: "string \<Rightarrow> bool" where
  "plain_ascii s \<longleftrightarrow> list_all (\<lambda>c. 32 \<le> byte c \<and> byte c < 127 \<and> byte c \<noteq> 34 \<and> byte c \<noteq> 92) s"

lemma plain_ascii_plain: "plain_ascii s \<Longrightarrow> plain s"
  by (auto simp: plain_ascii_def plain_def list_all_iff)

lemma ascii_valid: "list_all (\<lambda>c. byte c < 128) s \<Longrightarrow> utf8_valid s"
proof (induction s rule: length_induct)
  case (1 s)
  show ?case
  proof (cases s)
    case (Cons c cs)
    with 1(2) have "utf8_width s = 1" by (simp add: utf8_width_def lead1_def)
    then show ?thesis using 1 Cons by (subst utf8_valid.simps) simp
  qed simp
qed

lemma clip_ascii:
  assumes "plain_ascii s"
  shows "clip_utf8 n s = take n s"
proof (cases "min n (length s)")
  case (Suc m)
  have "utf8_valid (take (Suc m) s)"
    using assms set_take_subset [of "Suc m" s]
    by (intro ascii_valid) (force simp: plain_ascii_def list_all_iff)
  then have "find_cut s (Suc m) = Some (Suc m)" by simp
  then have "clip_utf8 n s = take (min n (length s)) s" by (simp add: clip_utf8_def Suc)
  then show ?thesis by (simp add: min_def)
qed (auto simp: clip_utf8_def min_def split: if_splits)

lemma large_append: "too_large (JObj d) \<Longrightarrow> too_large (JObj (d @ [kv]))"
  by (simp add: too_large_def obj_size_append)

lemma drop_last_large:
  assumes "too_large (JObj (rev rest))"
  shows "shrink_entries (kv # rest) = shrink_entries rest"
  using large_append [OF assms] by (simp add: shrink_entries_step Let_def)

text \<open>
  The budget of a text leaves no room for its two quotes, so an ASCII text that is too long is
  never shortened: it is dropped.
\<close>

lemma long_text_dropped:
  assumes "plain_ascii s" and large: "too_large (JObj (rev rest @ [(k, JStr s)]))"
  shows "shrink_entries ((k, JStr s) # rest) = shrink_entries rest"
proof -
  let ?out = "rev rest @ [(k, JStr s)]"
  define base where "base = payload_utf8_size (JObj (rev rest)) + length (json_string k) + 1 + (if rest = [] then 0 else 1)"
  have size: "payload_utf8_size (JObj (rev rest @ [(k, JStr t)])) = base + payload_utf8_size (JStr t)" for t
    by (simp add: obj_size_append entry_size_def base_def)
  define b where "b = MAX_TOOL_EVENT_UTF8_BYTES - (payload_utf8_size (JObj ?out) - payload_utf8_size (JStr s))"
  have b: "b = MAX_TOOL_EVENT_UTF8_BYTES - base" by (simp add: b_def size)
  have "plain (take b s)" using plain_take [OF plain_ascii_plain [OF assms(1)]] .
  then have new: "payload_utf8_size (JObj (rev rest @ [(k, JStr (take b s))])) = base + min (length s) b + 2"
    using plain_size by (simp add: size)
  have "payload_utf8_size (JObj ?out) = base + length s + 2"
    using plain_size [OF plain_ascii_plain [OF assms(1)]] by (simp add: size)
  with large have "MAX_TOOL_EVENT_UTF8_BYTES < base + length s + 2" by (simp add: too_large_def)
  then have "MAX_TOOL_EVENT_UTF8_BYTES < base + min (length s) b + 2" using b by simp
  then have "too_large (JObj (rev rest @ [(k, JStr (take b s))]))" by (simp only: too_large_def new)
  moreover have "cut_item ?out (JStr s) = JStr (take b s)"
    using clip_ascii [OF assms(1)] by (simp add: cut_item_def fit_string_def b_def)
  ultimately show ?thesis using large by (simp add: shrink_entries_step Let_def)
qed

end
