(* ===== verification/Emission.thy ===== *)
theory Emission
  imports Native_Events Payload_Fit
begin

text \<open>
  How the operations of the normaliser (\<open>Native_Events\<close>) are reasoned about: a relation between the
  state before, the events emitted and the state after, which holds of no events and composes, holds
  of every event ingested once it holds of the primitive operations. The locales say which.
\<close>

section \<open>What an operation emits\<close>

text \<open>
  \<open>emitting R out m\<close>: whenever \<open>m\<close> returns, \<open>R\<close> relates the state before it, the events \<open>out\<close>
  finds in what it returned, and the state after it. For an \<open>R\<close> that holds of no events and
  composes along concatenation, this follows the program text.
\<close>

definition emitting :: "(normalizer \<Rightarrow> native_event list \<Rightarrow> normalizer \<Rightarrow> bool) \<Rightarrow>
    ('a \<Rightarrow> native_event list) \<Rightarrow> 'a norm \<Rightarrow> bool" where
  "emitting R out m \<longleftrightarrow> (\<forall>n a n'. m n = (Inr a, n') \<longrightarrow> R n (out a) n')"

definition no_events :: "'a \<Rightarrow> native_event list" where
  "no_events a = []"

definition one_event :: "native_event \<Rightarrow> native_event list" where
  "one_event e = [e]"

definition opt_event :: "native_event option \<Rightarrow> native_event list" where
  "opt_event e = (case e of None \<Rightarrow> [] | Some x \<Rightarrow> [x])"

definition all_events :: "native_event list \<Rightarrow> native_event list" where
  "all_events es = es"

lemma emittingI: "(\<And>n a n'. m n = (Inr a, n') \<Longrightarrow> R n (out a) n') \<Longrightarrow> emitting R out m"
  by (simp add: emitting_def)

lemma emittingD: "emitting R out m \<Longrightarrow> m n = (Inr a, n') \<Longrightarrow> R n (out a) n'"
  by (simp add: emitting_def)

lemma keep_some_Cons: "keep_some (x # xs) = opt_event x @ keep_some xs"
  by (cases x) (simp_all add: keep_some_def opt_event_def)

locale emission =
  fixes R :: "normalizer \<Rightarrow> native_event list \<Rightarrow> normalizer \<Rightarrow> bool"
  assumes quiet: "R n [] n"
    and append: "R n es n' \<Longrightarrow> R n' es' n'' \<Longrightarrow> R n (es @ es') n''"
begin

lemma em_none: "emitting R all_events (returnE [])" "emitting R no_events (returnE a)"
    "emitting R opt_event (returnE None)"
  by (simp_all add: emitting_def all_events_def no_events_def opt_event_def quiet)

lemma em_gets: "emitting R no_events (getsE f)"
  by (simp add: emitting_def no_events_def quiet)

lemma em_lift: "emitting R no_events (liftE r)" "emitting R no_events (run_san m)"
  by (simp_all add: emitting_def no_events_def quiet run_san_def)

lemma em_raise: "emitting R out (raiseE e)"
  by (simp add: emitting_def)

lemma em_bind:
  assumes "emitting R no_events m" and "\<And>a. emitting R out (f a)"
  shows "emitting R out (bindE m f)"
proof (rule emittingI)
  fix n b n' assume "bindE m f n = (Inr b, n')"
  then obtain a u where m: "m n = (Inr a, u)" and f: "f a u = (Inr b, n')" by (rule bindE_Inr)
  show "R n (out b) n'"
    using append [OF emittingD [OF assms(1) m] emittingD [OF assms(2) f]] by (simp add: no_events_def)
qed

lemma em_then: "emitting R no_events m \<Longrightarrow> emitting R out k \<Longrightarrow> emitting R out (thenE m k)"
  unfolding thenE_def by (rule em_bind)

lemma em_last:
  assumes "emitting R o1 m" and "\<And>a. o1 a = out (g a)"
  shows "emitting R out (bindE m (\<lambda>a. returnE (g a)))"
proof (rule emittingI)
  fix n b n' assume "bindE m (\<lambda>a. returnE (g a)) n = (Inr b, n')"
  then obtain a u where m: "m n = (Inr a, u)" and f: "returnE (g a) u = (Inr b, n')" by (rule bindE_Inr)
  show "R n (out b) n'" using emittingD [OF assms(1) m] assms(2) [of a] f by simp
qed

lemma em_append:
  assumes "emitting R all_events m" and "emitting R all_events k"
  shows "emitting R all_events (bindE m (\<lambda>es. bindE k (\<lambda>more. returnE (es @ more))))"
proof (rule emittingI)
  fix n b n' assume "bindE m (\<lambda>es. bindE k (\<lambda>more. returnE (es @ more))) n = (Inr b, n')"
  then obtain es u where m: "m n = (Inr es, u)" and k: "bindE k (\<lambda>more. returnE (es @ more)) u = (Inr b, n')"
    by (rule bindE_Inr)
  from k obtain more v where k: "k u = (Inr more, v)" and r: "returnE (es @ more) v = (Inr b, n')" by (rule bindE_Inr)
  show "R n (all_events b) n'"
    using append [OF emittingD [OF assms(1) m] emittingD [OF assms(2) k]] r by (simp add: all_events_def)
qed

lemma em_map:
  assumes "\<And>x. x \<in> set xs \<Longrightarrow> emitting R out (f x)"
  shows "emitting R (\<lambda>ys. concat (List.map out ys)) (mapE xs f)"
  using assms
proof (induction xs)
  case Nil
  show ?case by (simp add: emitting_def quiet)
next
  case (Cons x xs)
  show ?case
  proof (rule emittingI)
    fix n b n' assume "mapE (x # xs) f n = (Inr b, n')"
    then have "bindE (f x) (\<lambda>y. bindE (mapE xs f) (\<lambda>ys. returnE (y # ys))) n = (Inr b, n')" by simp
    then obtain y u where f: "f x n = (Inr y, u)" and r: "bindE (mapE xs f) (\<lambda>ys. returnE (y # ys)) u = (Inr b, n')"
      by (rule bindE_Inr)
    from r obtain ys v where ys: "mapE xs f u = (Inr ys, v)" and r: "returnE (y # ys) v = (Inr b, n')" by (rule bindE_Inr)
    have "R n (out y) u" using emittingD [OF Cons.prems f] by simp
    moreover have "R u (concat (List.map out ys)) v" using emittingD [OF Cons.IH ys] Cons.prems by simp
    ultimately show "R n (concat (List.map out b)) n'" using append r by fastforce
  qed
qed

lemma em_concat:
  assumes "\<And>x. x \<in> set xs \<Longrightarrow> emitting R all_events (f x)"
  shows "emitting R all_events (bindE (mapE xs f) (\<lambda>ess. returnE (concat ess)))"
  by (rule em_last [OF em_map [of xs all_events f, OF assms]]) (simp_all add: all_events_def [abs_def])

lemma em_keep:
  assumes "\<And>x. x \<in> set xs \<Longrightarrow> emitting R opt_event (f x)"
  shows "emitting R all_events (bindE (mapE xs f) (\<lambda>es. returnE (keep_some es)))"
proof (rule em_last [OF em_map [of xs opt_event f, OF assms]])
  fix es show "concat (List.map opt_event es) = all_events (keep_some es)"
    unfolding all_events_def by (induction es) (simp_all add: keep_some_Cons, simp add: keep_some_def)
qed simp_all

lemma em_single: "emitting R one_event m \<Longrightarrow> emitting R all_events (bindE m (\<lambda>e. returnE [e]))"
  by (rule em_last [of one_event]) (simp_all add: one_event_def all_events_def)

lemma em_when: "emitting R no_events m \<Longrightarrow> emitting R no_events (whenE b m)"
  by (simp add: whenE_def em_none)

lemma em_if: "(b \<Longrightarrow> emitting R out m) \<Longrightarrow> (\<not> b \<Longrightarrow> emitting R out k) \<Longrightarrow> emitting R out (if b then m else k)"
  by simp

lemma em_opt:
  "emitting R out m \<Longrightarrow> (\<And>x. v = Some x \<Longrightarrow> emitting R out (f x))
    \<Longrightarrow> emitting R out (case v of None \<Rightarrow> m | Some x \<Rightarrow> f x)"
  by (cases v) simp_all

lemma em_let: "emitting R out (f x) \<Longrightarrow> emitting R out (let a = x in f a)"
  by (simp add: Let_def)

end

text \<open>
  What a relation has to say about the primitive operations, to hold of every event that is
  ingested. \<open>ok\<close> is a condition on the payload of a tool event.
\<close>

locale message_emission = emission +
  assumes coal: "emitting R no_events (on_coal (m :: (coalescer, string list) prog))"
    and reject: "emitting R no_events (reject_payload r d)"
    and delta: "emitting R opt_event (append_delta c)"
    and end_segment: "emitting R all_events end_segment"
    and direct: "s \<noteq> [] \<Longrightarrow> segment_text n = [] \<Longrightarrow> emit_direct_snapshot s n = (Inr es, n') \<Longrightarrow> R n es n'"
begin

lemma em_delta_chunks: "emitting R all_events (emit_delta_chunks ss)"
  unfolding emit_delta_chunks_def emit_text_def
  by (intro em_concat em_if em_none em_bind em_lift em_keep delta)

lemma em_close_segment: "emitting R all_events close_message_segment"
  unfolding close_message_segment_def
  by (intro em_append em_bind coal em_delta_chunks end_segment)

lemma em_push: "emitting R all_events (bindE (on_coal m) emit_delta_chunks)"
  by (intro em_bind coal em_delta_chunks)

lemma em_latency: "emitting R all_events (flush_due_to_latency now)"
  unfolding flush_due_to_latency_def by (rule em_push)

lemma em_text: "emitting R all_events (ingest_assistant_text now s)"
  unfolding ingest_assistant_text_def by (intro em_bind em_gets em_let em_if em_none em_push)

lemma em_snapshot: "emitting R all_events (emit_assistant_snapshot now s)"
proof (rule emittingI)
  fix n es n' assume r: "emit_assistant_snapshot now s n = (Inr es, n')"
  let ?current = "segment_text n @ buffered_text (coal n)"
  have extended: "emitting R all_events (bindE (bindE (on_coal (push now x)) emit_delta_chunks) (\<lambda>events.
      bindE close_message_segment (\<lambda>more. returnE (events @ more))))" for x
    by (intro em_append em_push em_close_segment)
  have conflict: "emitting R all_events (thenE (reject_payload w d) close_message_segment)" for w d
    by (intro em_then reject em_close_segment)
  consider "es = []" "n' = n" | "close_message_segment n = (Inr es, n')"
    | x where "bindE (bindE (on_coal (push now x)) emit_delta_chunks) (\<lambda>events.
      bindE close_message_segment (\<lambda>more. returnE (events @ more))) n = (Inr es, n')"
    | w d where "thenE (reject_payload w d) close_message_segment n = (Inr es, n')"
    | "s \<noteq> []" "segment_text n = []" "emit_direct_snapshot s n = (Inr es, n')"
    using r unfolding emit_assistant_snapshot_def
    by (auto simp: bindE_def [of "getsE id"] Let_def split: if_splits)
  then show "R n (all_events es) n'"
    using quiet emittingD [OF em_close_segment] emittingD [OF extended] emittingD [OF conflict] direct
    unfolding all_events_def by cases blast+
qed

end

text \<open>The types of the events that tell of no tool.\<close>

definition message_type :: "string \<Rightarrow> bool" where
  "message_type ty \<longleftrightarrow> ty \<in> {''assistant.delta'', ''assistant.message''}"

definition notice_type :: "string \<Rightarrow> bool" where
  "notice_type ty \<longleftrightarrow> ty \<in> {''approval.requested'', ''reasoning.summary'', ''clarify.requested'', ''internal.runtime.trace''}"

lemma tool_types [simp]:
  "\<not> message_type ''tool.call''" "\<not> message_type ''tool.result''"
  "\<not> notice_type ''tool.call''" "\<not> notice_type ''tool.result''"
  "\<not> notice_type ''assistant.delta''" "\<not> notice_type ''assistant.message''"
  by (simp_all add: message_type_def notice_type_def)

locale tool_emission = message_emission +
  fixes N :: native_env and ok :: "dict \<Rightarrow> bool"
  assumes start: "ok p \<Longrightarrow> emitting R all_events (start_tool N p)"
    and complete: "ok p \<Longrightarrow> emitting R all_events (complete_tool N p b)"
    and tools_close: "st \<in> {''completed'', ''failed''} \<Longrightarrow> emitting R all_events (close_tools N st)"
    and traced: "emitting R no_events (trace N ty p)"
    and other: "notice_type ty \<Longrightarrow> emitting R one_event (sot ty p)"
    and counted: "emitting R no_events next_counter"
    and drain: "emitting R no_events (modifyE (\<lambda>n. n\<lparr>drained := length (traces n)\<rparr>))"
begin

lemma em_close: "emitting R all_events (close N st)"
  unfolding close_def by (intro em_append em_close_segment tools_close) simp

lemma em_approval: "emitting R all_events (approval_event p)"
  unfolding approval_event_def next_id_def
  by (intro em_let em_bind [of "if b then x else y" for b x y] em_bind [of next_counter] em_single other
      em_if em_none em_gets counted em_bind) (simp_all add: notice_type_def)

lemma em_passthrough: "ok p \<Longrightarrow> emitting R all_events (passthrough_tool_call N p)"
  unfolding passthrough_tool_call_def
  by (intro em_let em_if em_none em_bind [of "liftE r" for r] em_bind [of "getsE f" for f] em_lift em_gets em_append
      start complete)

lemma em_text_event:
  assumes "ty \<in> {''reasoning.summary'', ''clarify.requested''}"
  shows "emitting R all_events (text_event ty k v d)"
  unfolding text_event_def using assms by (intro em_if em_none em_single other) (auto simp: notice_type_def)

lemma em_drain: "emitting R all_events drain_internal_traces"
  unfolding drain_internal_traces_def trace_event_def
  by (intro em_bind [of "getsE f" for f] em_gets em_then drain em_concat em_if em_none em_single other) (simp add: notice_type_def)

text \<open>The events of a terminal event come in two parts, of which the one emitted last is put first.\<close>

definition swaps :: bool where
  "swaps \<longleftrightarrow> (\<forall>n es n' es' n''. R n es n' \<longrightarrow> R n' es' n'' \<longrightarrow> R n (es' @ es) n'')"

lemma em_terminal:
  assumes swaps
  shows "emitting R all_events (ingest_terminal N now ty p)"
proof (rule emittingI)
  fix n b n' assume "ingest_terminal N now ty p n = (Inr b, n')"
  then obtain events u where c: "close N (if ty = ''run.completed'' then ''completed'' else ''failed'') n = (Inr events, u)"
    and r: "b = events \<and> n' = u \<or> (\<exists>s first. emit_assistant_snapshot now s u = (Inr first, n') \<and> b = first @ events)"
    unfolding ingest_terminal_def Let_def
    by (auto simp: bindE_def getsE_def returnE_def split: sum.splits prod.splits if_splits)
  have "R n events u" using emittingD [OF em_close c] by (simp add: all_events_def)
  then show "R n (all_events b) n'"
    using r assms emittingD [OF em_snapshot] unfolding swaps_def all_events_def by blast
qed

lemma em_ingest:
  assumes "\<And>ty p. emitting R all_events (ingest_terminal N now ty p)" and "ok (payload_of data)"
  shows "emitting R all_events (ingest N now data)"
proof -
  have after: "emitting R all_events m \<Longrightarrow> emitting R all_events (after_segment m)" for m
    unfolding after_segment_def by (intro em_append em_close_segment)
  show ?thesis
    unfolding ingest_def
    by (intro em_let em_if em_none em_push em_then traced assms(1) after start complete em_approval em_text
        em_passthrough em_text_event assms(2)) simp_all
qed

end

section \<open>Relations that look at each event\<close>

text \<open>
  A relation that does not mind what leaves the open calls, the counter and the names alone,
  nor events that are not about tools.
\<close>

definition same_calls :: "normalizer \<Rightarrow> normalizer \<Rightarrow> bool" where
  [simp]: "same_calls n n' \<longleftrightarrow>
     attempt_id n' = attempt_id n \<and> source_prefix n' = source_prefix n \<and> counter n' = counter n
     \<and> segment_seq n' = segment_seq n \<and> open_tools n' = open_tools n"

locale plain_emission = emission +
  assumes untouched: "same_calls n n' \<Longrightarrow> R n [] n'"
    and counting: "emitting R no_events next_counter"
    and sot_other: "message_type ty \<or> notice_type ty \<Longrightarrow> emitting R one_event (sot ty p)"
begin

lemma em_still: "(\<And>n. same_calls n (f n)) \<Longrightarrow> emitting R no_events (modifyE f)"
  by (rule emittingI) (auto simp: no_events_def intro: untouched)

lemma em_coal: "emitting R no_events (on_coal m)"
  by (rule emittingI) (auto simp: no_events_def on_coal_def intro: untouched split: prod.splits)

lemma em_reject: "emitting R no_events (reject_payload r d)"
  unfolding reject_payload_def by (rule em_still) simp

lemma em_trace: "emitting R no_events (trace N ty p)"
  unfolding trace_def strip_sensitive_def
  by (intro em_bind em_lift em_none em_still) simp_all

lemma em_segments: "emitting R no_events ensure_message_segment" "emitting R no_events reset_message_segment"
  unfolding ensure_message_segment_def reset_message_segment_def by (rule em_still; simp)+

lemma em_message: "emitting R one_event (message_event mid s)"
  unfolding message_event_def by (intro sot_other) (simp add: message_type_def)

lemma em_append_delta: "emitting R opt_event (append_delta c)"
  unfolding append_delta_def accept_delta_def
  by (intro em_if em_none em_then em_segments em_bind [of "getsE f" for f] em_gets em_let em_reject
      em_last [of one_event] em_still sot_other) (simp_all add: one_event_def opt_event_def message_type_def)

lemma em_end_segment: "emitting R all_events end_segment"
proof -
  have tail: "emitting R all_events (bindE m (\<lambda>e. thenE k (thenE l (returnE [e]))))"
    if m: "emitting R one_event m" and k: "emitting R no_events k" and l: "emitting R no_events l"
    for m and k l :: "unit norm"
  proof (rule emittingI)
    fix n b n' assume "bindE m (\<lambda>e. thenE k (thenE l (returnE [e]))) n = (Inr b, n')"
    then obtain e u where 1: "m n = (Inr e, u)" and r: "thenE k (thenE l (returnE [e])) u = (Inr b, n')" by (rule bindE_Inr)
    from r obtain x v where 2: "k u = (Inr x, v)" and r: "thenE l (returnE [e]) v = (Inr b, n')" by (rule thenE_Inr)
    from r obtain y w where 3: "l v = (Inr y, w)" and r: "returnE [e] w = (Inr b, n')" by (rule thenE_Inr)
    have "R n (([e] @ []) @ []) w"
      using append [OF append [OF emittingD [OF m 1] emittingD [OF k 2]] emittingD [OF l 3]]
      by (simp add: one_event_def no_events_def)
    with r show "R n (all_events b) n'" by (simp add: all_events_def)
  qed
  show ?thesis
    unfolding end_segment_def
    by (intro em_bind [of "getsE f" for f] em_gets em_if em_none em_then em_segments em_reject tail em_message em_still) simp_all
qed

lemma em_direct: "emitting R all_events (emit_direct_snapshot s)"
  unfolding emit_direct_snapshot_def
  by (intro em_if em_none em_then em_reject em_segments em_bind [of "getsE f" for f] em_gets em_still em_single em_message) simp_all

end

sublocale plain_emission \<subseteq> message_emission R
  by unfold_locales (use em_coal em_reject em_append_delta em_end_segment emittingD [OF em_direct] in \<open>auto simp: all_events_def\<close>)

text \<open>What is not about messages: the open calls, their number, the gaps and the traces.\<close>

definition same_message :: "normalizer \<Rightarrow> normalizer \<Rightarrow> bool" where
  [simp]: "same_message n n' \<longleftrightarrow>
     attempt_id n' = attempt_id n \<and> source_prefix n' = source_prefix n \<and> coal n' = coal n \<and> counter n' = counter n
     \<and> message_counter n' = message_counter n \<and> message_id n' = message_id n \<and> delta_seq n' = delta_seq n
     \<and> segment_text n' = segment_text n \<and> closed_text n' = closed_text n \<and> fingerprints n' = fingerprints n"

text \<open>
  A relation that does not mind what leaves the messages alone, and admits the events of the
  tools: \<open>shown\<close> says which.
\<close>

locale call_emission = emission +
  fixes N :: native_env and shown :: "string \<Rightarrow> dict \<Rightarrow> bool"
  assumes calm: "same_message n n' \<Longrightarrow> R n [] n'"
    and sot: "shown ty p \<Longrightarrow> emitting R one_event (sot ty p)"
    and shown_ended: "shown ''tool.call'' (call_head nm i st)"
    and shown_started: "started_tool_payload N nm i p f = (Inr q, g) \<Longrightarrow> shown ''tool.call'' q"
    and shown_result: "tool_result_payload N t p st f = (Inr q, g) \<Longrightarrow> shown ''tool.result'' q"
begin

lemma em_calm: "(\<And>n. same_message n (f n)) \<Longrightarrow> emitting R no_events (modifyE f)"
  by (rule emittingI) (auto simp: no_events_def intro: calm)

lemma em_traced: "emitting R no_events (trace N ty p)"
  unfolding trace_def strip_sensitive_def
  by (intro em_bind em_lift em_none em_calm) simp_all

lemma em_two:
  assumes "emitting R one_event m" and "emitting R no_events q" and "\<And>p. Q p \<Longrightarrow> emitting R one_event (k p)"
    and "\<And>n p n'. q n = (Inr p, n') \<Longrightarrow> Q p"
  shows "emitting R all_events (bindE m (\<lambda>a. bindE q (\<lambda>p. bindE (k p) (\<lambda>b. returnE [a, b]))))"
proof (rule emittingI)
  fix n b n' assume "bindE m (\<lambda>a. bindE q (\<lambda>p. bindE (k p) (\<lambda>b. returnE [a, b]))) n = (Inr b, n')"
  then obtain a u where 1: "m n = (Inr a, u)" and r: "bindE q (\<lambda>p. bindE (k p) (\<lambda>b. returnE [a, b])) u = (Inr b, n')"
    by (rule bindE_Inr)
  from r obtain p v where 2: "q u = (Inr p, v)" and r: "bindE (k p) (\<lambda>b. returnE [a, b]) v = (Inr b, n')" by (rule bindE_Inr)
  from r obtain c w where 3: "k p v = (Inr c, w)" and r: "returnE [a, c] w = (Inr b, n')" by (rule bindE_Inr)
  have "R n ([a] @ []) v"
    using append [OF emittingD [OF assms(1) 1] emittingD [OF assms(2) 2]] by (simp add: one_event_def no_events_def)
  from append [OF this emittingD [OF assms(3) [OF assms(4) [OF 2]] 3]] show "R n (all_events b) n'"
    using r by (simp add: one_event_def all_events_def)
qed

lemma run_san_result: "run_san m n = (Inr p, n') \<Longrightarrow> \<exists>g. m no_flags = (Inr p, g)"
  by (cases "m no_flags") (simp add: run_san_def)

lemma em_finish: "emitting R all_events (finish_call N t p st)"
  unfolding finish_call_def
  by (rule em_two [where Q = "shown ''tool.result''"])
    (auto simp: call_head_def [symmetric] intro: sot shown_ended em_lift dest!: run_san_result shown_result)

lemma em_bind_san:
  assumes "\<And>p. shown ''tool.call'' p \<Longrightarrow> emitting R out (f p)"
  shows "emitting R out (bindE (run_san (started_tool_payload N nm i d)) f)"
proof (rule emittingI)
  fix n b n' assume "bindE (run_san (started_tool_payload N nm i d)) f n = (Inr b, n')"
  then obtain p u where m: "run_san (started_tool_payload N nm i d) n = (Inr p, u)" and f: "f p u = (Inr b, n')"
    by (rule bindE_Inr)
  then have "shown ''tool.call'' p" by (auto dest!: run_san_result shown_started)
  moreover have "u = n" using m by (simp add: run_san_def)
  ultimately show "R n (out b) n'" using emittingD [OF assms f] by simp
qed

lemma em_start: "emitting R all_events (start_tool N p)"
  unfolding start_tool_def Let_def
  by (intro em_if em_none em_then em_calm em_bind [of "getsE f" for f] em_gets em_traced em_bind_san em_single sot) (simp_all add: push_tool_def)

lemma em_complete: "emitting R all_events (complete_tool N p b)"
  unfolding complete_tool_def
  by (intro em_bind [of "getsE f" for f] em_gets em_opt em_none em_then em_calm em_finish) simp_all

lemma close_tools_emits: "M = N \<Longrightarrow> close_tools M st n = (Inr es, n') \<Longrightarrow> R n es n'"
proof (induction M st n arbitrary: es n' rule: close_tools.induct)
  case (1 M st n)
  show ?case
  proof (cases "open_tools n")
    case Nil
    then show ?thesis using 1(3) quiet by (simp add: close_tools.simps [of M st n])
  next
    case (Cons t ts)
    let ?n = "n\<lparr>open_tools := ts\<rparr>"
    obtain r u where f: "finish_call M t [] st ?n = (r, u)" by (cases "finish_call M t [] st ?n")
    with 1(3) Cons obtain ended where r: "r = Inr ended"
      by (cases r) (simp_all add: close_tools.simps [of M st n])
    let ?u = "u\<lparr>gaps := gaps u @ [(ot_tool_name t, ot_call_id t, st)]\<rparr>"
    obtain r' w where c: "close_tools M st ?u = (r', w)" by (cases "close_tools M st ?u")
    with 1(3) Cons f r obtain rest where r': "r' = Inr rest" and es: "es = ended @ rest" "n' = w"
      by (cases r') (simp_all add: close_tools.simps [of M st n])
    have pop: "R n [] ?n" and gap: "R u [] ?u" by (rule calm; simp)+
    have ended: "R ?n ended u" using emittingD [OF em_finish] f r 1(2) unfolding all_events_def by blast
    have rest: "R ?u rest w"
      using 1(1) [OF Cons f [symmetric, unfolded r] refl 1(2)] c r' by simp
    show ?thesis using append [OF append [OF append [OF pop ended] gap] rest] es by simp
  qed
qed

lemma em_close_tools: "emitting R all_events (close_tools N st)"
  by (rule emittingI) (simp add: all_events_def close_tools_emits)

end

text \<open>For a relation that only looks at the counter and at each event by itself both hold.\<close>

locale event_emission = emission +
  fixes N :: native_env and shown :: "string \<Rightarrow> dict \<Rightarrow> bool"
  assumes still: "counter n' = counter n \<Longrightarrow> source_prefix n' = source_prefix n \<Longrightarrow> R n [] n'"
    and count: "emitting R no_events next_counter"
    and sot: "shown ty p \<Longrightarrow> emitting R one_event (sot ty p)"
    and shown_other: "message_type ty \<or> notice_type ty \<Longrightarrow> shown ty p"
    and shown_ended: "shown ''tool.call'' (call_head nm i st)"
    and shown_started: "started_tool_payload N nm i p f = (Inr q, g) \<Longrightarrow> shown ''tool.call'' q"
    and shown_result: "tool_result_payload N t p st f = (Inr q, g) \<Longrightarrow> shown ''tool.result'' q"

sublocale event_emission \<subseteq> plain_emission R
  by unfold_locales (auto intro: still count sot shown_other)

sublocale event_emission \<subseteq> calls: call_emission R N shown
  by unfold_locales (auto intro: still sot shown_ended shown_started shown_result)

sublocale event_emission \<subseteq> tool_emission R N "\<lambda>p. True"
  by unfold_locales
    (use calls.em_start calls.em_complete calls.em_close_tools em_trace sot_other counting em_still in \<open>auto\<close>)

section \<open>Calls\<close>

text \<open>What the engine asks of its normaliser, and the events a sequence of such calls emits.\<close>

datatype native_call = Ingest int dict | Latency int | Drain | Snapshot int string | CloseAll string

fun perform_native :: "native_env \<Rightarrow> native_call \<Rightarrow> native_event list norm" where
  "perform_native N (Ingest now data) = ingest N now data"
| "perform_native N (Latency now) = flush_due_to_latency now"
| "perform_native N Drain = drain_internal_traces"
| "perform_native N (Snapshot now s) = emit_assistant_snapshot now s"
| "perform_native N (CloseAll status) = close N status"

definition native_stream :: "native_env \<Rightarrow> native_call list \<Rightarrow> native_event list norm" where
  "native_stream N cs = bindE (mapE cs (perform_native N)) (\<lambda>ess. returnE (concat ess))"

fun call_data :: "native_call \<Rightarrow> dict list" where
  "call_data (Ingest now data) = [payload_of data]"
| "call_data _ = []"

context tool_emission
begin

lemma em_stream:
  assumes "\<And>now ty p. emitting R all_events (ingest_terminal N now ty p)"
    and "\<And>c p. c \<in> set cs \<Longrightarrow> p \<in> set (call_data c) \<Longrightarrow> ok p"
  shows "emitting R all_events (native_stream N cs)"
  unfolding native_stream_def
proof (rule em_concat)
  fix c assume "c \<in> set cs"
  from assms(2) [OF this] show "emitting R all_events (perform_native N c)"
    by (cases c) (simp_all add: em_ingest [OF assms(1)] em_latency em_drain em_snapshot em_close)
qed

end

end
