(* ===== verification/Native_Laws.thy ===== *)
theory Native_Laws
  imports Emission "HOL-Library.Multiset"
begin

text \<open>
  What the semantic events of a runtime promise (\<open>services/native_event_normalizer.py\<close>): no source
  event id twice, no sensitive key in the arguments or the result of a tool, every tool call that
  was started ended once, and messages that are exactly their deltas.
\<close>

section \<open>Numbers in texts\<close>

lemma digits_value_append:
  "digits_value (s @ [c]) a = (case digits_value s a of None \<Rightarrow> None | Some v \<Rightarrow> digits_value [c] v)"
  by (induction s a rule: digits_value.induct) auto

lemma digit_step:
  assumes "d < 10"
  shows "digits_value [char_of (48 + d)] v = Some (10 * v + d)"
  using assms by (simp add: is_digit_def of_char_of)

lemma digits_value_show: "digits_value (show_digits k) 0 = Some k"
proof (induction k rule: show_digits.induct)
  case (1 k)
  show ?case
  proof (cases "k < 10")
    case True
    then show ?thesis using digit_step [of k 0] by (simp add: show_digits.simps [of k])
  next
    case False
    then have "show_digits k = show_digits (k div 10) @ [char_of (48 + k mod 10)]"
      by (simp add: show_digits.simps [of k])
    then show ?thesis using 1 False digit_step [of "k mod 10" "k div 10"] by (simp add: digits_value_append)
  qed
qed

lemma show_nat_inj: "show_int (int a) = show_int (int b) \<longleftrightarrow> a = b"
proof -
  have nat: "show_int (int k) = show_digits k" for k by (simp add: show_int_def)
  show ?thesis unfolding nat using digits_value_show by (metis option.inject)
qed

section \<open>Source event ids\<close>

definition ids_between :: "normalizer \<Rightarrow> native_event list \<Rightarrow> normalizer \<Rightarrow> bool" where
  "ids_between n es n' \<longleftrightarrow>
     source_prefix n' = source_prefix n \<and> counter n \<le> counter n' \<and> distinct (List.map ne_source_event_id es)
     \<and> (\<forall>e\<in>set es. \<exists>k. counter n < k \<and> k \<le> counter n' \<and> ne_source_event_id e = event_id n k)"

lemma event_id_inj: "event_id n a = event_id n b \<longleftrightarrow> a = b"
  by (simp add: event_id_def show_nat_inj)

lemma ids_append:
  assumes "ids_between n es n'" and "ids_between n' es' n''"
  shows "ids_between n (es @ es') n''" "ids_between n (es' @ es) n''"
proof -
  have pre: "source_prefix n' = source_prefix n" and id: "event_id n' = event_id n"
    using assms(1) by (simp_all add: ids_between_def event_id_def [abs_def])
  have es: "\<forall>e\<in>set es. \<exists>k. counter n < k \<and> k \<le> counter n' \<and> ne_source_event_id e = event_id n k"
    using assms(1) by (simp add: ids_between_def)
  have es': "\<forall>e\<in>set es'. \<exists>k. counter n' < k \<and> k \<le> counter n'' \<and> ne_source_event_id e = event_id n k"
    using assms(2) by (simp add: ids_between_def id)
  have disj: "ne_source_event_id e \<noteq> ne_source_event_id e'" if e: "e \<in> set es" and e': "e' \<in> set es'" for e e'
  proof -
    obtain k where "k \<le> counter n'" "ne_source_event_id e = event_id n k"
      using es e by blast
    moreover obtain k' where "counter n' < k'" "ne_source_event_id e' = event_id n k'"
      using es' e' by blast
    ultimately show ?thesis by (simp add: event_id_inj)
  qed
  have range: "\<exists>k. counter n < k \<and> k \<le> counter n'' \<and> ne_source_event_id e = event_id n k"
    if "e \<in> set es \<or> e \<in> set es'" for e
  proof -
    have le: "counter n \<le> counter n'" "counter n' \<le> counter n''" using assms by (simp_all add: ids_between_def)
    from that show ?thesis
    proof
      assume "e \<in> set es"
      then obtain k where "counter n < k" "k \<le> counter n'" "ne_source_event_id e = event_id n k"
        using es by blast
      then show ?thesis using le by (intro exI [of _ k]) simp
    next
      assume "e \<in> set es'"
      then obtain k where "counter n' < k" "k \<le> counter n''" "ne_source_event_id e = event_id n k"
        using es' by blast
      then show ?thesis using le by (intro exI [of _ k]) simp
    qed
  qed
  have d: "distinct (List.map ne_source_event_id es)" "distinct (List.map ne_source_event_id es')"
    using assms unfolding ids_between_def by blast+
  have x: "set (List.map ne_source_event_id es) \<inter> set (List.map ne_source_event_id es') = {}"
    using disj by force
  have pre': "source_prefix n'' = source_prefix n" and le: "counter n \<le> counter n''"
    using assms unfolding ids_between_def by simp_all
  have "\<forall>e\<in>set (es @ es'). \<exists>k. counter n < k \<and> k \<le> counter n'' \<and> ne_source_event_id e = event_id n k"
    "\<forall>e\<in>set (es' @ es). \<exists>k. counter n < k \<and> k \<le> counter n'' \<and> ne_source_event_id e = event_id n k"
    by (intro ballI, rule range, force)+
  then show "ids_between n (es @ es') n''" "ids_between n (es' @ es) n''"
    using pre' le d x unfolding ids_between_def map_append distinct_append by blast+
qed

lemma ids_counted: "source_prefix n' = source_prefix n \<Longrightarrow> counter n \<le> counter n' \<Longrightarrow> ids_between n [] n'"
  by (simp add: ids_between_def)

lemma ids_sot: "emitting ids_between one_event (sot ty p)"
  by (rule emittingI)
    (auto simp: sot_def next_counter_def bindE_def getsE_def returnE_def one_event_def ids_between_def event_id_def)

interpretation ids: event_emission ids_between N "\<lambda>ty p. True"
proof unfold_locales
  show "ids_between n (es @ es') n''" if "ids_between n es n'" "ids_between n' es' n''" for n es n' es' n''
    using that by (rule ids_append)
  show "emitting ids_between no_events next_counter"
    by (rule emittingI) (auto simp: next_counter_def no_events_def intro: ids_counted)
qed (auto simp: ids_sot intro: ids_counted)

lemma ids_stream: "emitting ids_between all_events (native_stream N cs)"
proof -
  have "ids.swaps" unfolding ids.swaps_def using ids_append(2) by blast
  then show ?thesis by (intro ids.em_stream ids.em_terminal) simp_all
qed

section \<open>What is shown\<close>

definition public_key :: "string \<Rightarrow> bool" where
  "public_key k \<longleftrightarrow> \<not> is_sensitive_key k"

definition short_preview :: "json \<Rightarrow> bool" where
  "short_preview v \<longleftrightarrow> (\<exists>s. v = JObj [(''preview'', JStr s)] \<and> length s \<le> MAX_TOOL_PREVIEW_UTF8_BYTES)"

text \<open>Nested values of an event hold no sensitive key, and they are not nested deeply.\<close>

definition value_shown :: "json \<Rightarrow> bool" where
  "value_shown v \<longleftrightarrow> (keys_all public_key v \<or> short_preview v)"

definition fields_shown :: "dict \<Rightarrow> bool" where
  "fields_shown p \<longleftrightarrow> list_all (\<lambda>kv. value_shown (snd kv)) p"

definition event_shown :: "string \<Rightarrow> dict \<Rightarrow> bool" where
  "event_shown ty p \<longleftrightarrow> (ty \<in> {''tool.call'', ''tool.result''} \<longrightarrow> fields_shown p)"

lemma yields_mapE: "(\<And>x. x \<in> set xs \<Longrightarrow> yields Q (f x)) \<Longrightarrow> yields (list_all Q) (mapE xs f)"
proof (induction xs)
  case (Cons x xs)
  then have "yields Q (f x)" "yields (list_all Q) (mapE xs f)" by simp_all
  then show ?case
    unfolding mapE.simps by (elim yields_bindQ) (simp add: yields_return)
qed (simp add: yields_return)

lemma keep_some_all: "list_all (\<lambda>x. case x of None \<Rightarrow> True | Some y \<Rightarrow> P y) xs \<Longrightarrow> list_all P (keep_some xs)"
proof (induction xs)
  case (Cons x xs)
  then show ?case by (cases x) (simp_all add: keep_some_def List.map_filter_def)
qed (simp add: keep_some_def)

text \<open>The sanitiser lets no sensitive key through, and nothing that is nested deeper than 8.\<close>

definition clean_value :: "nat \<Rightarrow> json \<Rightarrow> bool" where
  "clean_value depth v \<longleftrightarrow> keys_all public_key v \<and> json_depth depth v \<le> MAX_TOOL_EVENT_JSON_DEPTH"

lemma sanitize_node_clean:
  "depth \<le> MAX_TOOL_EVENT_JSON_DEPTH \<Longrightarrow> yields (clean_value depth) (sanitize_node T depth v)"
proof (induction T depth v rule: sanitize_node.induct)
  case (1 T depth d)
  show ?case
  proof (cases "depth \<ge> MAX_TOOL_EVENT_JSON_DEPTH")
    case True
    then show ?thesis using 1(2) by (auto simp: clean_value_def intro!: yields_then yields_return)
  next
    case False
    let ?Q = "\<lambda>x. case x of None \<Rightarrow> True | Some kv \<Rightarrow> public_key (fst kv) \<and> clean_value (depth + 1) (snd kv)"
    have "yields ?Q (case kv of (key, item) \<Rightarrow> if is_sensitive_key key then thenE mark_redacted (returnE None)
        else bindE (sanitize_node T (depth + 1) item) (\<lambda>v. returnE (Some (key, v))))" if "kv \<in> set d" for kv
    proof (cases kv)
      case (Pair key item)
      have "\<not> is_sensitive_key key \<Longrightarrow> yields (clean_value (depth + 1)) (sanitize_node T (depth + 1) item)"
        using 1(1) [OF False that Pair [symmetric]] False by simp
      then show ?thesis
        unfolding Pair prod.case by (auto intro!: yields_if yields_then yields_return elim!: yields_bindQ simp: public_key_def)
    qed
    then have "yields (list_all ?Q) (mapE d (\<lambda>(key, item).
             if is_sensitive_key key then thenE mark_redacted (returnE None)
             else bindE (sanitize_node T (depth + 1) item) (\<lambda>v. returnE (Some (key, v)))))"
      by (rule yields_mapE)
    moreover have "clean_value depth (JObj (keep_some kvs))" if "list_all ?Q kvs" for kvs
    proof -
      have "list_all (\<lambda>kv. public_key (fst kv) \<and> clean_value (depth + 1) (snd kv)) (keep_some kvs)"
        using that by (rule keep_some_all)
      then show ?thesis using 1(2) unfolding clean_value_def depth_obj_le by (auto simp: list_all_iff)
    qed
    ultimately show ?thesis using False by (auto intro: yields_return elim!: yields_bindQ)
  qed
next
  case (2 T depth xs)
  show ?case
  proof (cases "depth \<ge> MAX_TOOL_EVENT_JSON_DEPTH")
    case True
    then show ?thesis using 2(2) by (auto simp: clean_value_def intro!: yields_then yields_return)
  next
    case False
    then have "yields (list_all (clean_value (depth + 1))) (mapE xs (\<lambda>item. sanitize_node T (depth + 1) item))"
      using 2(1) by (intro yields_mapE) simp
    moreover have "clean_value depth (JList vs)" if "list_all (clean_value (depth + 1)) vs" for vs
      using that 2(2) unfolding clean_value_def depth_list_le by (auto simp: list_all_iff)
    ultimately show ?thesis using False by (auto intro: yields_return elim!: yields_bindQ)
  qed
next
  case (3 T depth s)
  then show ?case by (auto simp: clean_value_def intro!: yields_bind yields_return)
qed (auto simp: clean_value_def intro!: yields_return)

lemma preview_short: "yields (\<lambda>s. length s \<le> MAX_TOOL_PREVIEW_UTF8_BYTES) (sanitize_preview T s)"
  unfolding sanitize_preview_def
  by (intro yields_bind yields_if yields_then yields_return) (simp_all add: clip_utf8_length)

lemma value_shown_scalar [simp]:
  "value_shown JNull" "value_shown (JBool b)" "value_shown (JInt i)" "value_shown (JFloat r)" "value_shown (JStr s)"
  by (simp_all add: value_shown_def)

lemma clipped_shown: "value_shown v \<Longrightarrow> value_shown (clipped 2 v)"
  by (auto simp: value_shown_def short_preview_def clipped_keys MAX_TOOL_EVENT_JSON_DEPTH_def)

lemma preview_small:
  assumes "short_preview v" shows "\<not> too_large v"
proof -
  obtain s where v: "v = JObj [(''preview'', JStr s)]" and s: "length s \<le> 512"
    using assms by (auto simp: short_preview_def MAX_TOOL_PREVIEW_UTF8_BYTES_def)
  have "length (json_string s) \<le> 6 * 512 + 2" using json_string_size(2) [of s] s by linarith
  moreover have "length (json_string ''preview'') \<le> 44" using json_string_size(2) [of "''preview''"] by simp
  ultimately show ?thesis
    by (simp add: v too_large_def obj_size entry_size_def payload_utf8_size_def MAX_TOOL_EVENT_UTF8_BYTES_def)
qed

lemma cut_item_shown:
  assumes "value_shown v" shows "value_shown (cut_item out v)"
proof (cases "short_preview v")
  case True
  then have "shrink_to_utf8_limit v = v" using preview_small by (subst shrink_to_utf8_limit.simps) simp
  then show ?thesis using assms by (simp add: cut_item_def fit_string_def)
next
  case False
  then have "keys_all public_key v" using assms by (simp add: value_shown_def)
  then show ?thesis by (simp add: cut_item_def fit_string_def value_shown_def shrink_keys)
qed

lemma shrink_entries_shown: "fields_shown r \<Longrightarrow> fields_shown (shrink_entries r)"
proof (induction r)
  case (Cons kv r)
  then show ?case by (simp add: shrink_entries_step Let_def fields_shown_def cut_item_shown)
qed (simp add: shrink_entries.simps)

lemma fields_subset: "fields_shown d \<Longrightarrow> set d' \<subseteq> set d \<Longrightarrow> fields_shown d'"
  by (auto simp: fields_shown_def list_all_iff)

lemma set_flags_shown: "fields_shown d \<Longrightarrow> fields_shown (set_flags f d)"
  using set_set_flags [of f d] by (auto simp: fields_shown_def list_all_iff)

lemma fit_shown:
  assumes "fields_shown p" shows "yields fields_shown (fit_public_payload p)"
proof -
  have "fields_shown (cut_rest p)"
    using assms clipped_shown by (auto simp: fields_shown_def cut_rest_def list_all_iff)
  then have c: "fields_shown (cut_dict (cut_rest p))"
    using shrink_entries_shown [of "rev (cut_rest p)"] by (simp add: cut_dict_def fields_shown_def)
  show ?thesis
    unfolding yields_def fit_run Let_def
    using set_flags_shown [OF c] set_flags_shown [OF fields_subset [OF set_flags_shown [OF c] compact_subset]]
    by (auto split: if_splits)
qed

lemma node_shown: "n \<le> MAX_TOOL_EVENT_JSON_DEPTH \<Longrightarrow> yields value_shown (sanitize_node T n v)"
  using sanitize_node_clean [of n T v] by (auto simp: yields_def value_shown_def clean_value_def)

lemma started_shown: "yields fields_shown (started_tool_payload N nm i p)"
proof -
  have two: "2 \<le> MAX_TOOL_EVENT_JSON_DEPTH" by (simp add: MAX_TOOL_EVENT_JSON_DEPTH_def)
  have fit: "value_shown v \<Longrightarrow> yields fields_shown (bindE (getsE id) (\<lambda>f. fit_public_payload
        [(''tool_name'', JStr nm), (''call_id'', JStr i), (''status'', JStr ''started''),
         (''arguments'', v), (''redacted'', jflag (redacted f)), (''truncated'', jflag (truncated f))]))" for v
    by (intro yields_bind fit_shown) (simp add: fields_shown_def jflag_def)
  have args: "yields value_shown (case a of
        Some raw \<Rightarrow> bindE (sanitize_node (texts_of N) 2 (JObj raw)) (\<lambda>cleaned.
          thenE (whenE (\<not> is_dict cleaned) mark_truncated) (returnE (if is_dict cleaned then cleaned else JNull)))
      | None \<Rightarrow> if b then bindE (sanitize_preview (texts_of N) t) (\<lambda>p. returnE (JObj [(''preview'', JStr p)]))
          else returnE JNull)" for a b t
  proof (cases a)
    case None
    have "yields value_shown (bindE (sanitize_preview (texts_of N) t) (\<lambda>p. returnE (JObj [(''preview'', JStr p)])))"
      by (rule yields_bindQ [OF preview_short]) (simp add: yields_return value_shown_def short_preview_def)
    then show ?thesis using None by (simp add: yields_return)
  next
    case (Some raw)
    have "yields value_shown (bindE (sanitize_node (texts_of N) 2 (JObj raw)) (\<lambda>cleaned.
          thenE (whenE (\<not> is_dict cleaned) mark_truncated) (returnE (if is_dict cleaned then cleaned else JNull))))"
      by (rule yields_bindQ [OF node_shown [OF two]]) (simp add: yields_return yields_then)
    then show ?thesis using Some by simp
  qed
  show ?thesis
    unfolding started_tool_payload_def Let_def by (rule yields_then, rule yields_bindQ [OF args], rule fit)
qed

lemma result_shown: "yields fields_shown (tool_result_payload N t p st)"
proof -
  have two: "2 \<le> MAX_TOOL_EVENT_JSON_DEPTH" by (simp add: MAX_TOOL_EVENT_JSON_DEPTH_def)
  have s: "yields value_shown (if v = JNull then returnE JNull else sanitize_node (texts_of N) 2 v)" for v
    using node_shown [OF two] by (simp add: yields_return)
  have o: "value_shown (jopt x)" for x by (simp add: jopt_def split: option.splits)
  have g: "value_shown v \<Longrightarrow> fields_shown (given k v)" for k v by (simp add: given_def fields_shown_def)
  have app: "fields_shown (a @ b) \<longleftrightarrow> fields_shown a \<and> fields_shown b" for a b by (simp add: fields_shown_def)
  show ?thesis
    unfolding tool_result_payload_def Let_def case_prod_beta
    by (rule yields_then, rule yields_bind, rule yields_bindQ [OF s], rule yields_bind, rule yields_bind, rule fit_shown)
      (simp only: app g o, simp add: fields_shown_def jflag_def o)
qed

definition shown_between :: "normalizer \<Rightarrow> native_event list \<Rightarrow> normalizer \<Rightarrow> bool" where
  "shown_between n es n' \<longleftrightarrow> list_all (\<lambda>e. event_shown (ne_type e) (ne_payload e)) es"

interpretation shown: event_emission shown_between N event_shown
proof unfold_locales
  show "emitting shown_between one_event (sot ty p)" if "event_shown ty p" for ty p
    using that by (intro emittingI)
      (auto simp: sot_def next_counter_def bindE_def getsE_def returnE_def one_event_def shown_between_def)
  show "event_shown ''tool.call'' q" if "started_tool_payload N nm i p f = (Inr q, g)" for nm i p f q g
    using yieldsD [OF started_shown that] by (simp add: event_shown_def)
  show "event_shown ''tool.result'' q" if "tool_result_payload N t p st f = (Inr q, g)" for t p st f q g
    using yieldsD [OF result_shown that] by (simp add: event_shown_def)
  show "emitting shown_between no_events next_counter"
    by (rule emittingI) (simp add: shown_between_def no_events_def)
qed (auto simp: shown_between_def event_shown_def fields_shown_def call_head_def)

lemma shown_stream: "emitting shown_between all_events (native_stream N cs)"
proof -
  have "shown.swaps" unfolding shown.swaps_def shown_between_def by simp
  then show ?thesis by (intro shown.em_stream shown.em_terminal) simp_all
qed

section \<open>Every call ends once\<close>

definition call_key :: "native_event \<Rightarrow> json \<times> json" where
  "call_key e = (dget (ne_payload e) ''tool_name'', dget (ne_payload e) ''call_id'')"

definition open_key :: "open_tool \<Rightarrow> json \<times> json" where
  "open_key t = (JStr (ot_tool_name t), JStr (ot_call_id t))"

definition is_call :: "bool \<Rightarrow> native_event \<Rightarrow> bool" where
  "is_call started e \<longleftrightarrow>
     ne_type e = ''tool.call'' \<and> (dget (ne_payload e) ''status'' = JStr ''started'') = started"

definition calls_started :: "native_event list \<Rightarrow> (json \<times> json) list" where
  "calls_started es = List.map call_key (filter (is_call True) es)"

definition calls_ended :: "native_event list \<Rightarrow> (json \<times> json) list" where
  "calls_ended es = List.map call_key (filter (is_call False) es)"

definition results :: "native_event list \<Rightarrow> (json \<times> json) list" where
  "results es = List.map call_key (filter (\<lambda>e. ne_type e = ''tool.result'') es)"

text \<open>The names of the open calls are short, so that they survive the fitting of their events.\<close>

definition NAME_LIMIT :: nat where
  "NAME_LIMIT = 1000"

definition CALL_LIMIT :: nat where
  "CALL_LIMIT = 10 ^ 100"

definition short_tool :: "open_tool \<Rightarrow> bool" where
  "short_tool t \<longleftrightarrow> length (ot_tool_name t) \<le> 3000 \<and> length (ot_call_id t) \<le> 6000"

definition tools_short :: "normalizer \<Rightarrow> bool" where
  "tools_short n \<longleftrightarrow> length (attempt_id n) \<le> NAME_LIMIT \<and> list_all short_tool (open_tools n)"

definition names_short :: "dict \<Rightarrow> bool" where
  "names_short p \<longleftrightarrow> length (tool_name_of p) \<le> NAME_LIMIT \<and> length (str_val (upstream_id p)) \<le> NAME_LIMIT"

definition balanced :: "normalizer \<Rightarrow> native_event list \<Rightarrow> normalizer \<Rightarrow> bool" where
  "balanced n es n' \<longleftrightarrow>
     mset (calls_started es) + mset (List.map open_key (open_tools n))
       = mset (calls_ended es) + mset (List.map open_key (open_tools n'))
     \<and> mset (results es) = mset (calls_ended es)"

definition paired :: "normalizer \<Rightarrow> native_event list \<Rightarrow> normalizer \<Rightarrow> bool" where
  "paired n es n' \<longleftrightarrow>
     attempt_id n' = attempt_id n \<and> segment_seq n \<le> segment_seq n'
     \<and> (segment_seq n' < CALL_LIMIT \<and> tools_short n \<longrightarrow> tools_short n' \<and> balanced n es n')"

lemma calls_append [simp]:
  "calls_started (es @ es') = calls_started es @ calls_started es'"
  "calls_ended (es @ es') = calls_ended es @ calls_ended es'"
  "results (es @ es') = results es @ results es'"
  by (simp_all add: calls_started_def calls_ended_def results_def)

lemma calls_Nil [simp]: "calls_started [] = []" "calls_ended [] = []" "results [] = []"
  by (simp_all add: calls_started_def calls_ended_def results_def)

lemma mset_chain:
  fixes s o' e :: "'a multiset"
  assumes "s + o' = e + o1" and "s1 + o1 = e1 + o2"
  shows "(s + s1) + o' = (e + e1) + o2" "(s1 + s) + o' = (e1 + e) + o2"
proof -
  have "(s + s1) + o' = s1 + (s + o')" by (simp only: ac_simps)
  also have "\<dots> = s1 + (e + o1)" by (simp only: assms(1))
  also have "\<dots> = e + (s1 + o1)" by (simp only: ac_simps)
  also have "\<dots> = e + (e1 + o2)" by (simp only: assms(2))
  also have "\<dots> = (e + e1) + o2" by (simp only: ac_simps)
  finally show "(s + s1) + o' = (e + e1) + o2" .
  then show "(s1 + s) + o' = (e1 + e) + o2" by (simp only: ac_simps)
qed

lemma balanced_trans:
  "balanced n es n' \<Longrightarrow> balanced n' es' n'' \<Longrightarrow> balanced n (es @ es') n'' \<and> balanced n (es' @ es) n''"
  unfolding balanced_def calls_append mset_append by (elim conjE, intro conjI) (rule mset_chain, assumption, assumption, simp)+

lemma paired_append:
  assumes "paired n es n'" and "paired n' es' n''"
  shows "paired n (es @ es') n''" "paired n (es' @ es) n''"
  using assms balanced_trans [of n es n' es' n''] unfolding paired_def by auto

lemma paired_quiet: "same_calls n n' \<Longrightarrow> paired n [] n'"
  by (simp add: paired_def balanced_def tools_short_def)

lemma sot_run: "sot ty p n = (Inr \<lparr>ne_type = ty, ne_payload = p, ne_source_event_id = event_id n (Suc (counter n))\<rparr>,
    n\<lparr>counter := Suc (counter n)\<rparr>)"
  by (simp add: sot_def next_counter_def bindE_def getsE_def returnE_def event_id_def)

lemma paired_sot: "ty \<notin> {''tool.call'', ''tool.result''} \<Longrightarrow> emitting paired one_event (sot ty p)"
  by (rule emittingI)
    (auto simp: sot_run one_event_def paired_def balanced_def tools_short_def calls_started_def calls_ended_def results_def
      is_call_def)

interpretation paired: plain_emission paired
proof unfold_locales
  show "emitting paired no_events next_counter"
    by (rule emittingI) (auto simp: next_counter_def no_events_def paired_def balanced_def tools_short_def)
qed (auto simp: paired_quiet paired_append intro!: paired_sot)

lemma fit_head:
  assumes "short_head n i st"
  shows "yields (\<lambda>q. \<exists>s. q = call_head n i st @ s) (fit_public_payload (call_head n i st @ rest))"
proof (rule yieldsI)
  fix f q g assume "fit_public_payload (call_head n i st @ rest) f = (Inr q, g)"
  moreover obtain s g' where "fit_public_payload (call_head n i st @ rest) f = (Inr (call_head n i st @ s), g')"
    using fit_call [OF assms, of rest f] by blast
  ultimately show "\<exists>s. q = call_head n i st @ s" by auto
qed

lemma result_head:
  assumes "short_head (ot_tool_name t) (ot_call_id t) st"
  shows "yields (\<lambda>q. \<exists>s. q = call_head (ot_tool_name t) (ot_call_id t) st @ s) (tool_result_payload N t p st)"
proof -
  have five: "[(''tool_name'', JStr a), (''call_id'', JStr b), (''status'', JStr c), x, y] @ r = call_head a b c @ ([x, y] @ r)"
    for a b c x y r by (simp add: call_head_def)
  show ?thesis
    unfolding tool_result_payload_def Let_def case_prod_beta five
    by (intro yields_then yields_bind fit_head assms)
qed

lemma started_head:
  assumes "short_head nm i ''started''"
  shows "yields (\<lambda>q. \<exists>s. q = call_head nm i ''started'' @ s) (started_tool_payload N nm i p)"
proof -
  have six: "[(''tool_name'', JStr a), (''call_id'', JStr b), (''status'', JStr c), x, y, z] = call_head a b c @ [x, y, z]"
    for a b c x y z by (simp add: call_head_def)
  show ?thesis
    unfolding started_tool_payload_def Let_def six
    by (rule yields_then, rule yields_bind, rule yields_bind, rule fit_head, rule assms)
qed

lemma head_fields [simp]:
  "dget (call_head nm i st @ s) ''tool_name'' = JStr nm" "dget (call_head nm i st @ s) ''call_id'' = JStr i"
  "dget (call_head nm i st @ s) ''status'' = JStr st"
  by (simp_all add: call_head_def)

lemma short_tool_head: "short_tool t \<Longrightarrow> length st \<le> 20 \<Longrightarrow> short_head (ot_tool_name t) (ot_call_id t) st"
  unfolding short_tool_def by (rule short_headI) auto

text \<open>A call that is finished leaves the calls that are open alone.\<close>

lemma finish_run:
  assumes "finish_call N t p st n = (Inr es, n')"
  shows "same_calls (n\<lparr>counter := counter n'\<rparr>) n'"
    and "short_tool t \<Longrightarrow> st \<in> {''completed'', ''failed''}
      \<Longrightarrow> calls_started es = [] \<and> calls_ended es = [open_key t] \<and> results es = [open_key t]"
proof -
  let ?h = "call_head (ot_tool_name t) (ot_call_id t) st"
  let ?n1 = "n\<lparr>counter := Suc (counter n)\<rparr>"
  have "bindE (run_san (tool_result_payload N t p st)) (\<lambda>p. bindE (sot ''tool.result'' p)
      (\<lambda>result. returnE [\<lparr>ne_type = ''tool.call'', ne_payload = ?h, ne_source_event_id = event_id n (Suc (counter n))\<rparr>, result]))
      ?n1 = (Inr es, n')"
    using assms unfolding finish_call_def by (simp add: bindE_def sot_run call_head_def)
  then obtain q u where q: "run_san (tool_result_payload N t p st) ?n1 = (Inr q, u)"
    and r: "bindE (sot ''tool.result'' q) (\<lambda>result. returnE [\<lparr>ne_type = ''tool.call'', ne_payload = ?h,
       ne_source_event_id = event_id n (Suc (counter n))\<rparr>, result]) u = (Inr es, n')"
    by (rule bindE_Inr)
  obtain g where g: "tool_result_payload N t p st no_flags = (Inr q, g)" and u: "u = ?n1"
    using q by (cases "tool_result_payload N t p st no_flags") (auto simp: run_san_def)
  have out: "n' = ?n1\<lparr>counter := Suc (Suc (counter n))\<rparr>"
    "es = [\<lparr>ne_type = ''tool.call'', ne_payload = ?h, ne_source_event_id = event_id n (Suc (counter n))\<rparr>,
           \<lparr>ne_type = ''tool.result'', ne_payload = q, ne_source_event_id = event_id u (Suc (counter u))\<rparr>]"
    using r u by (simp_all add: bindE_def sot_run)
  show "same_calls (n\<lparr>counter := counter n'\<rparr>) n'" using out by simp
  assume short: "short_tool t" and st: "st \<in> {''completed'', ''failed''}"
  then obtain s where "q = ?h @ s"
    using yieldsD [OF result_head g] short_tool_head [OF short, of st] by auto
  then show "calls_started es = [] \<and> calls_ended es = [open_key t] \<and> results es = [open_key t]"
    using st head_fields [of "ot_tool_name t" "ot_call_id t" st "[]"] unfolding out(2)
    by (auto simp: calls_started_def calls_ended_def results_def is_call_def call_key_def open_key_def)
qed

lemma mset_without: "i < length xs \<Longrightarrow> mset xs = add_mset (xs ! i) (mset (without i xs))"
  using id_take_nth_drop [of i xs] by (metis mset_append mset.simps(2) without_def union_mset_add_mset_right)

lemma index_of_less: "index_of P xs = Some i \<Longrightarrow> i < length xs"
  by (induction xs arbitrary: i) (auto split: if_splits)

lemma match_index_less: "match_index p ts = Some i \<Longrightarrow> i < length ts"
  by (auto simp: match_index_def Let_def split: if_splits dest: index_of_less)

lemma set_without: "set (without i xs) \<subseteq> set xs"
  unfolding without_def using set_take_subset set_drop_subset by fastforce

text \<open>Ending one of the open calls.\<close>

lemma paired_end:
  assumes f: "finish_call N t p st (n\<lparr>open_tools := ts\<rparr>) = (Inr es, n')" and st: "st \<in> {''completed'', ''failed''}"
    and ts: "mset (open_tools n) = add_mset t (mset ts)"
  shows "paired n es n'"
proof -
  have n': "attempt_id n' = attempt_id n" "segment_seq n' = segment_seq n" "open_tools n' = ts"
    using finish_run(1) [OF f] by simp_all
  have set: "set (open_tools n) = insert t (set ts)" using ts by (metis set_mset_add_mset_insert set_mset_mset)
  show ?thesis
    unfolding paired_def
  proof (intro conjI impI)
    assume "segment_seq n' < CALL_LIMIT \<and> tools_short n"
    then have short: "short_tool t" "list_all short_tool ts" "length (attempt_id n) \<le> NAME_LIMIT"
      using set by (simp_all add: tools_short_def list_all_iff)
    then show "tools_short n'" using n' by (simp add: tools_short_def)
    from finish_run(2) [OF f short(1) st] show "balanced n es n'"
      using n' by (simp add: balanced_def ts)
  qed (simp_all add: n')
qed

lemma paired_complete: "emitting paired all_events (complete_tool N p b)"
proof (rule emittingI)
  fix n es n' assume r: "complete_tool N p b n = (Inr es, n')"
  show "paired n (all_events es) n'"
  proof (cases "match_index p (open_tools n)")
    case None
    with r show ?thesis by (simp add: complete_tool_def bindE_def all_events_def paired_quiet)
  next
    case (Some i)
    have "finish_call N (open_tools n ! i) p (if b then ''failed'' else ''completed'')
        (n\<lparr>open_tools := without i (open_tools n)\<rparr>) = (Inr es, n')"
      using r Some by (simp add: complete_tool_def bindE_def thenE_def)
    then show ?thesis
      unfolding all_events_def by (rule paired_end) (simp_all add: mset_without [OF match_index_less [OF Some]])
  qed
qed

lemma paired_close_tools: "st \<in> {''completed'', ''failed''} \<Longrightarrow> close_tools N st n = (Inr es, n') \<Longrightarrow> paired n es n'"
proof (induction N st n arbitrary: es n' rule: close_tools.induct)
  case (1 N st n)
  show ?case
  proof (cases "open_tools n")
    case Nil
    then show ?thesis using 1(3) by (simp add: close_tools.simps [of N st n] paired_quiet)
  next
    case (Cons t ts)
    let ?n = "n\<lparr>open_tools := ts\<rparr>"
    obtain r u where f: "finish_call N t [] st ?n = (r, u)" by (cases "finish_call N t [] st ?n")
    with 1(3) Cons obtain ended where r: "r = Inr ended"
      by (cases r) (simp_all add: close_tools.simps [of N st n])
    let ?u = "u\<lparr>gaps := gaps u @ [(ot_tool_name t, ot_call_id t, st)]\<rparr>"
    obtain r' w where c: "close_tools N st ?u = (r', w)" by (cases "close_tools N st ?u")
    with 1(3) Cons f r obtain rest where r': "r' = Inr rest" and es: "es = ended @ rest" "n' = w"
      by (cases r') (simp_all add: close_tools.simps [of N st n])
    have "paired n ended u" using f r by (intro paired_end [where ts = ts]) (use 1(2) Cons in simp_all)
    moreover have "paired u [] ?u" by (simp add: paired_quiet)
    moreover have "paired ?u rest w" using 1(1) [OF Cons f [symmetric, unfolded r] refl 1(2)] c r' by simp
    ultimately show ?thesis using paired_append(1) [OF paired_append(1)] es by fastforce
  qed
qed

lemma show_digits_length: "k < 10 ^ Suc m \<Longrightarrow> length (show_digits k) \<le> Suc m"
proof (induction m arbitrary: k)
  case (Suc m)
  show ?case
  proof (cases "k < 10")
    case False
    have "k div 10 < 10 ^ Suc m" using Suc.prems by (simp add: less_mult_imp_div_less mult.commute)
    from Suc.IH [OF this] False show ?thesis by (simp add: show_digits.simps [of k])
  qed (simp add: show_digits.simps [of k])
next
  case 0
  then show ?case by (simp add: show_digits.simps [of k])
qed

lemma show_nat_short: "k < CALL_LIMIT \<Longrightarrow> length (show_int (int k)) \<le> 100"
  using show_digits_length [of k 99] by (simp add: CALL_LIMIT_def show_int_def del: power_Suc)

lemma trace_run:
  assumes "trace N ty p n = (Inr x, n')"
  shows "same_calls n n'"
  using assms by (auto simp: trace_def strip_sensitive_def run_san_def bindE_def liftE_def modifyE_def returnE_def
      split: sum.splits)

lemma same_name_low_keys [simp]:
  "List.map open_key (same_name_low nm ts) = List.map open_key ts"
  "list_all short_tool (same_name_low nm ts) = list_all short_tool ts"
  by (induction ts) (simp_all add: same_name_low_def open_key_def short_tool_def)

lemma paired_start:
  assumes ok: "names_short p"
  shows "emitting paired all_events (start_tool N p)"
proof (rule emittingI)
  fix n es n' assume r: "start_tool N p n = (Inr es, n')"
  show "paired n (all_events es) n'"
  proof (cases "tool_name_of p = []")
    case True
    with r show ?thesis by (simp add: start_tool_def all_events_def paired_quiet)
  next
    case False
    let ?n = "n\<lparr>segment_seq := Suc (segment_seq n)\<rparr>"
    define t where "t = opened_tool p ?n"
    define m where "m = push_tool p t ?n"
    have m: "attempt_id m = attempt_id n" "segment_seq m = Suc (segment_seq n)"
      "\<exists>ts. open_tools m = ts @ [t] \<and> List.map open_key ts = List.map open_key (open_tools n)
         \<and> list_all short_tool ts = list_all short_tool (open_tools n)"
      by (simp_all add: m_def push_tool_def)
    then obtain ts where ts: "open_tools m = ts @ [t]" "List.map open_key ts = List.map open_key (open_tools n)"
      "list_all short_tool ts = list_all short_tool (open_tools n)" by blast
    have "thenE (trace N ''tool.correlation'' [(''tool_name'', JStr (ot_tool_name t)), (''call_id'', JStr (ot_call_id t)),
             (''correlation_confidence'', JStr (ot_confidence t))])
           (bindE (run_san (started_tool_payload N (ot_tool_name t) (ot_call_id t) p))
             (\<lambda>q. bindE (sot ''tool.call'' q) (\<lambda>e. returnE [e]))) m = (Inr es, n')"
      using r False by (simp add: start_tool_def bindE_def thenE_def m_def t_def)
    then obtain x m1 where tr: "trace N ''tool.correlation'' [(''tool_name'', JStr (ot_tool_name t)),
             (''call_id'', JStr (ot_call_id t)), (''correlation_confidence'', JStr (ot_confidence t))] m = (Inr x, m1)"
      and r1: "bindE (run_san (started_tool_payload N (ot_tool_name t) (ot_call_id t) p))
             (\<lambda>q. bindE (sot ''tool.call'' q) (\<lambda>e. returnE [e])) m1 = (Inr es, n')"
      by (rule thenE_Inr)
    have m1: "same_calls m m1" using tr by (rule trace_run)
    from r1 obtain q m2 where q: "run_san (started_tool_payload N (ot_tool_name t) (ot_call_id t) p) m1 = (Inr q, m2)"
      and r2: "bindE (sot ''tool.call'' q) (\<lambda>e. returnE [e]) m2 = (Inr es, n')" by (rule bindE_Inr)
    obtain g where g: "started_tool_payload N (ot_tool_name t) (ot_call_id t) p no_flags = (Inr q, g)" and m2: "m2 = m1"
      using q by (cases "started_tool_payload N (ot_tool_name t) (ot_call_id t) p no_flags") (auto simp: run_san_def)
    have out: "n' = m1\<lparr>counter := Suc (counter m1)\<rparr>"
      "es = [\<lparr>ne_type = ''tool.call'', ne_payload = q, ne_source_event_id = event_id m1 (Suc (counter m1))\<rparr>]"
      using r2 m2 by (simp_all add: bindE_def sot_run)
    have n': "attempt_id n' = attempt_id n" "segment_seq n' = Suc (segment_seq n)" "open_tools n' = ts @ [t]"
      using m1 m ts(1) by (simp_all add: out(1))
    show ?thesis
      unfolding all_events_def paired_def
    proof (intro conjI impI)
      assume a: "segment_seq n' < CALL_LIMIT \<and> tools_short n"
      have "length (show_int (int (Suc (segment_seq n)))) \<le> 100" using a n'(2) by (intro show_nat_short) simp
      then have t: "short_tool t"
        using ok a by (simp add: short_tool_def names_short_def tools_short_def NAME_LIMIT_def t_def opened_tool_def)
      with a n' ts(3) show "tools_short n'" by (simp add: tools_short_def)
      obtain s where s: "q = call_head (ot_tool_name t) (ot_call_id t) ''started'' @ s"
        using yieldsD [OF started_head g] short_tool_head [OF t, of "''started''"] by auto
      show "balanced n es n'"
        unfolding balanced_def n'(3) out(2) map_append ts(2)
        by (simp add: calls_started_def calls_ended_def results_def is_call_def call_key_def s open_key_def)
    qed (simp_all add: n')
  qed
qed

interpretation paired: tool_emission paired N names_short
proof unfold_locales
  show "emitting paired all_events (close_tools N st)" if "st \<in> {''completed'', ''failed''}" for st
    by (rule emittingI) (simp add: all_events_def paired_close_tools [OF that])
qed (use paired_start paired_complete paired.em_trace paired.counting paired.em_still paired.sot_other in auto)

lemma paired_stream:
  assumes "list_all (\<lambda>c. list_all names_short (call_data c)) cs"
  shows "emitting paired all_events (native_stream N cs)"
proof -
  have "paired.swaps" unfolding paired.swaps_def using paired_append(2) by blast
  then show ?thesis using assms by (intro paired.em_stream paired.em_terminal) (auto simp: list_all_iff)
qed

section \<open>What a client reads\<close>

text \<open>
  A client that follows the messages of a run: the message it is being sent, with the number of
  the last delta and the text so far, the messages it has read, and all text it has seen. It
  accepts a delta only with the next number, and a message only when it is new or exactly the
  text of its deltas; \<open>None\<close> when it has to refuse an event.
\<close>

record client =
  c_current :: "(string \<times> int \<times> string) option"
  c_read :: "string list"
  c_seen :: string

definition new_client :: client where
  "new_client = \<lparr>c_current = None, c_read = [], c_seen = []\<rparr>"

definition read_delta :: "client \<Rightarrow> string \<Rightarrow> int \<Rightarrow> string \<Rightarrow> client option" where
  "read_delta c i k d =
     (let next = (\<lambda>t. Some (c\<lparr>c_current := Some (i, k, t @ d), c_seen := c_seen c @ d\<rparr>)) in
      if d = [] then None
      else case c_current c of
        None \<Rightarrow> if i \<notin> set (c_read c) \<and> k = 1 then next [] else None
      | Some (j, s, t) \<Rightarrow> if i = j \<and> k = s + 1 then next t else None)"

definition read_message :: "client \<Rightarrow> string \<Rightarrow> string \<Rightarrow> client option" where
  "read_message c i t =
     (if t = [] \<or> i \<in> set (c_read c) then None
      else case c_current c of
        None \<Rightarrow> Some (c\<lparr>c_read := i # c_read c, c_seen := c_seen c @ t\<rparr>)
      | Some (j, s, u) \<Rightarrow>
          if i = j \<and> t = u then Some (c\<lparr>c_current := None, c_read := i # c_read c\<rparr>) else None)"

definition view :: "client \<Rightarrow> native_event \<Rightarrow> client option" where
  "view c e =
     (let p = ne_payload e in
      if ne_type e = ''assistant.delta'' then
        (case (dget p ''message_id'', dget p ''delta_seq'', dget p ''delta'') of
           (JStr i, JInt k, JStr d) \<Rightarrow> read_delta c i k d | _ \<Rightarrow> None)
      else if ne_type e = ''assistant.message'' then
        (case (dget p ''message_id'', dget p ''text'') of (JStr i, JStr t) \<Rightarrow> read_message c i t | _ \<Rightarrow> None)
      else Some c)"

fun views :: "client \<Rightarrow> native_event list \<Rightarrow> client option" where
  "views c [] = Some c"
| "views c (e # es) = (case view c e of None \<Rightarrow> None | Some c' \<Rightarrow> views c' es)"

lemma views_append: "views c (es @ es') = (case views c es of None \<Rightarrow> None | Some c' \<Rightarrow> views c' es')"
  by (induction es arbitrary: c) (auto split: option.splits)

text \<open>The normaliser seen as what its client has read.\<close>

definition message_name :: "normalizer \<Rightarrow> nat \<Rightarrow> string" where
  "message_name n j = ''msg_'' @ attempt_id n @ ''_'' @ show_int (int j)"

definition segment_ok :: "normalizer \<Rightarrow> bool" where
  "segment_ok n \<longleftrightarrow>
     (message_id n = None \<longrightarrow> delta_seq n = 0)
     \<and> (message_id n \<noteq> None \<longrightarrow> message_id n = Some (message_name n (message_counter n)) \<and> 0 < message_counter n)
     \<and> (segment_text n = [] \<longleftrightarrow> delta_seq n = 0) \<and> \<not> too_long (segment_text n)"

text \<open>The names used so far; a message being sent has the last one.\<close>

definition names_used :: "normalizer \<Rightarrow> nat" where
  "names_used n = (if message_id n = None then message_counter n else message_counter n - 1)"

definition keys_used :: "normalizer \<Rightarrow> bool" where
  "keys_used n \<longleftrightarrow>
     (\<forall>i k. (i, k) \<in> fst ` set (fingerprints n) \<longrightarrow>
        (\<exists>j. i = message_name n j \<and> (j \<le> names_used n \<or> j = message_counter n \<and> k \<le> delta_seq n)))"

definition read_by :: "normalizer \<Rightarrow> client \<Rightarrow> bool" where
  "read_by n c \<longleftrightarrow>
     c_seen c = emitted_assistant n
     \<and> c_current c = (if delta_seq n = 0 then None else Some (the_id n, int (delta_seq n), segment_text n))
     \<and> (\<forall>i\<in>set (c_read c). \<exists>j. i = message_name n j \<and> j \<le> names_used n)
     \<and> segment_ok n \<and> keys_used n"

definition follows :: "normalizer \<Rightarrow> native_event list \<Rightarrow> normalizer \<Rightarrow> bool" where
  "follows n es n' \<longleftrightarrow> (\<forall>c. read_by n c \<longrightarrow> (\<exists>c'. views c es = Some c' \<and> read_by n' c'))"

lemma follows_append: "follows n es n' \<Longrightarrow> follows n' es' n'' \<Longrightarrow> follows n (es @ es') n''"
  unfolding follows_def views_append by (metis option.case(2))

definition same_text :: "normalizer \<Rightarrow> normalizer \<Rightarrow> bool" where
  [simp]: "same_text n n' \<longleftrightarrow>
     attempt_id n' = attempt_id n \<and> message_counter n' = message_counter n \<and> message_id n' = message_id n
     \<and> delta_seq n' = delta_seq n \<and> segment_text n' = segment_text n \<and> closed_text n' = closed_text n
     \<and> fingerprints n' = fingerprints n"

lemma read_by_same: "same_text n n' \<Longrightarrow> read_by n' c \<longleftrightarrow> read_by n c"
  by (simp add: read_by_def emitted_assistant_def the_id_def message_name_def names_used_def segment_ok_def keys_used_def)

lemma follows_same: "same_text n n' \<Longrightarrow> follows n [] n'"
  by (simp add: follows_def read_by_same del: same_text_def)

lemma follows_event:
  assumes "ty \<notin> {''assistant.delta'', ''assistant.message''}"
  shows "emitting follows one_event (sot ty p)"
proof (rule emittingI)
  fix n a n' assume "sot ty p n = (Inr a, n')"
  then have "ne_type a = ty" "same_text n n'" by (auto simp: sot_run)
  then show "follows n (one_event a) n'"
    using assms by (simp add: follows_def one_event_def view_def read_by_same del: same_text_def)
qed

lemma message_name_inj: "message_name n a = message_name n b \<longleftrightarrow> a = b"
  by (simp add: message_name_def show_nat_inj)

text \<open>Naming the next message shows nothing.\<close>

lemma follows_ensure:
  assumes "ensure_message_segment n = (Inr x, n')"
  shows "follows n [] n'" and "message_id n' \<noteq> None"
    and "segment_ok n \<Longrightarrow> segment_text n' = segment_text n"
proof -
  have n': "message_id n = None \<Longrightarrow> n' = n\<lparr>message_counter := Suc (message_counter n),
       message_id := Some (message_name n (Suc (message_counter n))), delta_seq := 0, segment_text := []\<rparr>"
    "message_id n \<noteq> None \<Longrightarrow> n' = n"
    using assms by (auto simp: ensure_message_segment_def modifyE_def message_name_def)
  show "message_id n' \<noteq> None" using n' by (cases "message_id n") auto
  show "segment_ok n \<Longrightarrow> segment_text n' = segment_text n" using n' by (cases "message_id n") (auto simp: segment_ok_def)
  show "follows n [] n'"
  proof (cases "message_id n = None")
    case True
    have "read_by n' c" if r: "read_by n c" for c
    proof -
      have ok: "delta_seq n = 0" "segment_text n = []" "\<not> too_long []"
        using r True by (simp_all add: read_by_def segment_ok_def too_long_def MAX_SNAPSHOT_UTF8_BYTES_def)
      have names: "message_name n' = message_name n" "names_used n' = names_used n" "names_used n = message_counter n"
        using n'(1) [OF True] True by (simp_all add: message_name_def [abs_def] names_used_def)
      have "keys_used n'"
        unfolding keys_used_def
      proof (intro allI impI)
        fix i k assume "(i, k) \<in> fst ` set (fingerprints n')"
        then have "(i, k) \<in> fst ` set (fingerprints n)" using n'(1) [OF True] by simp
        then obtain j where "i = message_name n j" "j \<le> names_used n \<or> j = message_counter n \<and> k \<le> delta_seq n"
          using r unfolding read_by_def keys_used_def by blast
        then show "\<exists>j. i = message_name n' j \<and> (j \<le> names_used n' \<or> j = message_counter n' \<and> k \<le> delta_seq n')"
          using names by (intro exI [of _ j]) auto
      qed
      moreover have "segment_ok n'"
        using n'(1) [OF True] ok(3) names(1) by (simp add: segment_ok_def)
      moreover have "emitted_assistant n' = emitted_assistant n" "delta_seq n' = 0"
        using n'(1) [OF True] ok by (simp_all add: emitted_assistant_def)
      ultimately show ?thesis
        using r ok names unfolding read_by_def by simp
    qed
    then show ?thesis by (simp add: follows_def)
  qed (use n' in \<open>simp add: follows_same\<close>)
qed

lemma accept_run:
  "accept_delta chunk n =
     (Inr \<lparr>ne_type = ''assistant.delta'',
           ne_payload = [(''message_id'', JStr (the_id n)), (''delta_seq'', JInt (int (Suc (delta_seq n)))), (''delta'', JStr chunk)],
           ne_source_event_id = event_id n (Suc (counter n))\<rparr>,
      n\<lparr>delta_seq := Suc (delta_seq n), fingerprints := AList.update (the_id n, Suc (delta_seq n)) chunk (fingerprints n),
        segment_text := segment_text n @ chunk, counter := Suc (counter n)\<rparr>)"
  by (simp add: accept_delta_def thenE_def bindE_def sot_run the_id_def event_id_def)

text \<open>The name of the message being sent has not been read, and its next delta is new.\<close>

lemma fresh_name:
  assumes "read_by n c" and "message_id n \<noteq> None"
  shows "the_id n = message_name n (message_counter n)" and "the_id n \<notin> set (c_read c)"
    and "map_of (fingerprints n) (the_id n, Suc (delta_seq n)) = None"
proof -
  have pos: "0 < message_counter n" and mid: "message_id n = Some (message_name n (message_counter n))"
    using assms by (auto simp: read_by_def segment_ok_def)
  then show id: "the_id n = message_name n (message_counter n)" by (simp add: the_id_def)
  have used: "names_used n < message_counter n" using pos assms(2) by (simp add: names_used_def)
  show "the_id n \<notin> set (c_read c)"
  proof
    assume "the_id n \<in> set (c_read c)"
    then obtain j where "the_id n = message_name n j" "j \<le> names_used n" using assms(1) by (auto simp: read_by_def)
    then show False using id used by (simp add: message_name_inj)
  qed
  show "map_of (fingerprints n) (the_id n, Suc (delta_seq n)) = None"
  proof (rule ccontr)
    assume "map_of (fingerprints n) (the_id n, Suc (delta_seq n)) \<noteq> None"
    then have "(the_id n, Suc (delta_seq n)) \<in> fst ` set (fingerprints n)" by (simp add: map_of_eq_None_iff)
    then obtain j where "the_id n = message_name n j"
      "j \<le> names_used n \<or> j = message_counter n \<and> Suc (delta_seq n) \<le> delta_seq n"
      using assms(1) unfolding read_by_def keys_used_def by blast
    then show False using id used by (simp add: message_name_inj)
  qed
qed

lemma follows_accept:
  assumes "accept_delta chunk n = (Inr e, n')" and "message_id n \<noteq> None" and "chunk \<noteq> []"
    and "\<not> too_long (segment_text n @ chunk)"
  shows "follows n [e] n'"
  unfolding follows_def
proof (intro allI impI)
  fix c assume r: "read_by n c"
  note fresh = fresh_name [OF r assms(2)]
  have e: "ne_type e = ''assistant.delta''"
    "ne_payload e = [(''message_id'', JStr (the_id n)), (''delta_seq'', JInt (int (Suc (delta_seq n)))), (''delta'', JStr chunk)]"
    and n': "n' = n\<lparr>delta_seq := Suc (delta_seq n), fingerprints := AList.update (the_id n, Suc (delta_seq n)) chunk (fingerprints n),
        segment_text := segment_text n @ chunk, counter := Suc (counter n)\<rparr>"
    using assms(1) unfolding accept_run by auto
  let ?c = "c\<lparr>c_current := Some (the_id n, int (Suc (delta_seq n)), segment_text n @ chunk), c_seen := c_seen c @ chunk\<rparr>"
  have cur: "c_current c = (if delta_seq n = 0 then None else Some (the_id n, int (delta_seq n), segment_text n))"
    and seg: "segment_text n = [] \<longleftrightarrow> delta_seq n = 0"
    using r by (simp_all add: read_by_def segment_ok_def)
  have "view c e = Some ?c"
    using fresh(2) cur seg assms(3) by (cases "delta_seq n") (simp_all add: view_def e read_delta_def Let_def)
  moreover have "read_by n' ?c"
  proof -
    have names: "message_name n' = message_name n" "names_used n' = names_used n" "the_id n' = the_id n"
      by (simp_all add: n' message_name_def [abs_def] names_used_def the_id_def)
    have "fst ` set (fingerprints n') = insert (the_id n, Suc (delta_seq n)) (fst ` set (fingerprints n))"
      using keys_update [of "(the_id n, Suc (delta_seq n))" chunk "fingerprints n"] by (simp add: n')
    moreover have "message_counter n' = message_counter n" "delta_seq n' = Suc (delta_seq n)" by (simp_all add: n')
    ultimately have "keys_used n'"
      unfolding keys_used_def names
    proof (intro allI impI, goal_cases)
      case (1 i k)
      then consider "i = the_id n" "k = Suc (delta_seq n)" | "(i, k) \<in> fst ` set (fingerprints n)" by auto
      then show ?case
      proof cases
        case 1
        with fresh(1) \<open>message_counter n' = _\<close> \<open>delta_seq n' = _\<close> show ?thesis
          by (intro exI [of _ "message_counter n"]) simp
      next
        case 2
        then obtain j where "i = message_name n j" "j \<le> names_used n \<or> j = message_counter n \<and> k \<le> delta_seq n"
          using r unfolding read_by_def keys_used_def by blast
        with \<open>message_counter n' = _\<close> \<open>delta_seq n' = _\<close> show ?thesis by (intro exI [of _ j]) auto
      qed
    qed
    then show ?thesis
      using r assms names by (simp add: read_by_def n' emitted_assistant_def segment_ok_def)
  qed
  ultimately show "\<exists>c'. views c [e] = Some c' \<and> read_by n' c'" by simp
qed

lemma follows_none: "\<not> (\<exists>c. read_by n c) \<Longrightarrow> follows n es n'"
  by (simp add: follows_def)

lemma follows_delta: "emitting follows opt_event (append_delta chunk)"
proof (rule emittingI)
  fix n e n' assume r: "append_delta chunk n = (Inr e, n')"
  show "follows n (opt_event e) n'"
  proof (cases "chunk = []")
    case True
    with r show ?thesis by (simp add: append_delta_def opt_event_def follows_same)
  next
    case False
    obtain m where m: "ensure_message_segment n = (Inr (), m)"
      by (auto simp: ensure_message_segment_def modifyE_def)
    note ens = follows_ensure [OF m]
    show ?thesis
    proof (cases "\<exists>c. read_by n c")
      case True
      then obtain c where "read_by m c" using ens(1) by (auto simp: follows_def)
      from fresh_name(3) [OF this ens(2)] have new: "map_of (fingerprints m) (the_id m, Suc (delta_seq m)) = None" .
      have run: "(if too_long (segment_text m @ chunk)
         then thenE (reject_payload ''snapshot_too_large'' [(''message_id'', JStr (the_id m)),
                (''size'', JInt (int (length (segment_text m @ chunk))))]) (returnE None)
         else bindE (accept_delta chunk) (\<lambda>e. returnE (Some e))) m = (Inr e, n')"
        using r False new unfolding append_delta_def thenE_def [of ensure_message_segment] bindE_def [of ensure_message_segment]
        by (simp add: m bindE_def [of "getsE id"] Let_def)
      have "follows m (opt_event e) n'"
      proof (cases "too_long (segment_text m @ chunk)")
        case True
        with run have "e = None" "same_text m n'" by (auto simp: thenE_def bindE_def reject_payload_def)
        then show ?thesis by (simp add: opt_event_def follows_same)
      next
        case small: False
        with run obtain x where "accept_delta chunk m = (Inr x, n')" "e = Some x"
          by (auto simp: bindE_def accept_run)
        then show ?thesis using follows_accept [OF _ ens(2) False small] by (simp add: opt_event_def)
      qed
      from follows_append [OF ens(1) this] show ?thesis by simp
    qed (simp add: follows_none)
  qed
qed

text \<open>Closing a message that has a name: no message is being sent, and that name is used.\<close>

definition shut :: "normalizer \<Rightarrow> normalizer \<Rightarrow> bool" where
  "shut n n' \<longleftrightarrow> attempt_id n' = attempt_id n \<and> message_counter n' = message_counter n \<and> message_id n' = None
     \<and> delta_seq n' = 0 \<and> segment_text n' = [] \<and> fingerprints n' = fingerprints n"

lemma read_by_shut:
  assumes c: "read_by n c" and named: "message_id n \<noteq> None" and shut: "shut n n'"
    and "c_seen c' = emitted_assistant n'" "c_current c' = None" "set (c_read c') \<subseteq> insert (the_id n) (set (c_read c))"
  shows "read_by n' c'"
proof -
  have counter: "0 < message_counter n" using c named by (simp add: read_by_def segment_ok_def)
  from shut have names: "names_used n' = message_counter n" "message_name n' = message_name n"
    by (simp_all add: shut_def names_used_def message_name_def [abs_def])
  have "segment_ok n'" using shut by (simp add: shut_def segment_ok_def too_long_def MAX_SNAPSHOT_UTF8_BYTES_def)
  moreover have "keys_used n'"
    unfolding keys_used_def
  proof (intro allI impI)
    fix i k assume "(i, k) \<in> fst ` set (fingerprints n')"
    then have "(i, k) \<in> fst ` set (fingerprints n)" using shut by (simp add: shut_def)
    then obtain j where "i = message_name n j" "j \<le> names_used n \<or> j = message_counter n \<and> k \<le> delta_seq n"
      using c unfolding read_by_def keys_used_def by blast
    moreover have "names_used n \<le> message_counter n" by (simp add: names_used_def)
    ultimately show "\<exists>j. i = message_name n' j \<and> (j \<le> names_used n' \<or> j = message_counter n' \<and> k \<le> delta_seq n')"
      using names by (intro exI [of _ j]) auto
  qed
  moreover have "\<exists>j. i = message_name n' j \<and> j \<le> names_used n'" if i: "i \<in> set (c_read c')" for i
  proof (cases "i = the_id n")
    case True
    then show ?thesis using fresh_name(1) [OF c named] names by auto
  next
    case False
    then obtain j where "i = message_name n j" "j \<le> names_used n"
      using c i assms(6) unfolding read_by_def by blast
    then show ?thesis using counter names by (intro exI [of _ j]) (simp add: names_used_def split: if_splits)
  qed
  ultimately show ?thesis using assms(4,5) shut by (simp add: read_by_def shut_def)
qed

text \<open>A message that ends is what its deltas said; it has a name that was not read before.\<close>

lemma follows_end_segment: "emitting follows all_events end_segment"
proof (rule emittingI)
  fix n es n' assume r: "end_segment n = (Inr es, n')"
  show "follows n (all_events es) n'"
    unfolding follows_def all_events_def
  proof (intro allI impI)
    fix c assume c: "read_by n c"
    then have ok: "segment_ok n" by (simp add: read_by_def)
    show "\<exists>c'. views c es = Some c' \<and> read_by n' c'"
    proof (cases "message_id n = None")
      case True
      with r c show ?thesis by (auto simp: end_segment_def bindE_def)
    next
      case named: False
      show ?thesis
      proof (cases "segment_text n = []")
        case True
        with r named have es: "es = []" and n': "n' = n\<lparr>message_id := None, delta_seq := 0, segment_text := []\<rparr>"
          by (auto simp: end_segment_def bindE_def thenE_def reset_message_segment_def)
        have "c_seen c = emitted_assistant n'" "c_current c = None"
          using c True ok by (auto simp: read_by_def segment_ok_def n' emitted_assistant_def)
        then have "read_by n' c"
          by (intro read_by_shut [OF c named]) (auto simp: shut_def n')
        then show ?thesis by (simp add: es)
      next
        case False
        let ?e = "\<lparr>ne_type = ''assistant.message'', ne_payload = [(''message_id'', JStr (the_id n)), (''text'', JStr (segment_text n))],
                    ne_source_event_id = event_id n (Suc (counter n))\<rparr>"
        let ?c = "c\<lparr>c_current := None, c_read := the_id n # c_read c\<rparr>"
        have small: "\<not> too_long (segment_text n)" using ok by (simp add: segment_ok_def)
        have es: "es = [?e]" and n': "n' = n\<lparr>counter := Suc (counter n), closed_text := closed_text n @ segment_text n,
            message_id := None, delta_seq := 0, segment_text := []\<rparr>"
          using r named False small
          by (auto simp: end_segment_def bindE_def thenE_def reset_message_segment_def message_event_def sot_run)
        have seq: "delta_seq n \<noteq> 0" using ok False by (simp add: segment_ok_def)
        have cur: "c_current c = Some (the_id n, int (delta_seq n), segment_text n)" using c seq by (simp add: read_by_def)
        have "view c ?e = Some ?c"
          using cur fresh_name(2) [OF c named] False by (simp add: view_def read_message_def)
        moreover have "read_by n' ?c"
          using c by (intro read_by_shut [OF c named]) (auto simp: shut_def n' emitted_assistant_def read_by_def)
        ultimately show ?thesis by (simp add: es)
      qed
    qed
  qed
qed

lemma follows_direct:
  assumes "s \<noteq> []" and empty: "segment_text n = []" and r: "emit_direct_snapshot s n = (Inr es, n')"
  shows "follows n es n'"
proof (cases "too_long s")
  case True
  with r have "es = []" "same_text n n'" by (auto simp: emit_direct_snapshot_def thenE_def bindE_def reject_payload_def)
  then show ?thesis by (simp add: follows_same)
next
  case False
  obtain m where m: "ensure_message_segment n = (Inr (), m)"
    by (auto simp: ensure_message_segment_def modifyE_def)
  note ens = follows_ensure [OF m]
  let ?e = "\<lparr>ne_type = ''assistant.message'', ne_payload = [(''message_id'', JStr (the_id m)), (''text'', JStr s)],
              ne_source_event_id = event_id m (Suc (counter m))\<rparr>"
  have es: "es = [?e]" and n': "n' = m\<lparr>closed_text := closed_text m @ s, message_id := None, delta_seq := 0, segment_text := [],
      counter := Suc (counter m)\<rparr>"
    using r False m
    by (auto simp: emit_direct_snapshot_def bindE_def thenE_def reset_message_segment_def message_event_def sot_run event_id_def)
  show ?thesis
    unfolding follows_def
  proof (intro allI impI)
    fix c assume "read_by n c"
    then have c: "read_by m c" using ens(1) by (auto simp: follows_def)
    have seg: "segment_text m = []" using ens(3) empty \<open>read_by n c\<close> by (simp add: read_by_def)
    then have cur: "c_current c = None" using c by (simp add: read_by_def segment_ok_def)
    let ?c = "c\<lparr>c_read := the_id m # c_read c, c_seen := c_seen c @ s\<rparr>"
    have "view c ?e = Some ?c"
      using cur fresh_name(2) [OF c ens(2)] assms(1) by (simp add: view_def read_message_def)
    moreover have "read_by n' ?c"
      using c seg cur by (intro read_by_shut [OF c ens(2)]) (auto simp: shut_def n' emitted_assistant_def read_by_def)
    ultimately show "\<exists>c'. views c es = Some c' \<and> read_by n' c'" by (simp add: es)
  qed
qed

text \<open>The events of tools and approvals do not touch what the client reads.\<close>

interpretation follows: emission follows
  by unfold_locales (simp_all add: follows_same follows_append)

lemma follows_coal: "emitting follows no_events (on_coal m)"
  by (rule emittingI) (auto simp: no_events_def on_coal_def intro!: follows_same split: prod.splits)

interpretation follows: message_emission follows
proof unfold_locales
  show "emitting follows no_events (reject_payload r d)" for r d
    by (rule emittingI) (auto simp: no_events_def reject_payload_def intro!: follows_same)
qed (rule follows_coal follows_delta follows_end_segment follows_direct; assumption)+

interpretation follows: call_emission follows N "\<lambda>ty p. ty \<notin> {''assistant.delta'', ''assistant.message''}"
  by unfold_locales (auto intro!: follows_same follows_event)

interpretation follows: tool_emission follows N "\<lambda>p. True"
proof unfold_locales
  show "emitting follows no_events next_counter"
    by (rule emittingI) (auto simp: no_events_def next_counter_def intro!: follows_same)
  show "emitting follows no_events (modifyE (\<lambda>n. n\<lparr>drained := length (traces n)\<rparr>))"
    by (rule emittingI) (auto simp: no_events_def intro!: follows_same)
qed (rule follows.em_start follows.em_complete follows.em_close_tools follows.em_traced follows_event; auto)+

text \<open>
  After a terminal event without any text before, the final output is sent first and the events
  that ended the tools follow: no message is among them.
\<close>

definition assistant_event :: "native_event \<Rightarrow> bool" where
  "assistant_event e \<longleftrightarrow> ne_type e = ''assistant.delta'' \<or> ne_type e = ''assistant.message''"

definition client_ok :: "client \<Rightarrow> bool" where
  "client_ok c \<longleftrightarrow> (\<forall>i s t. c_current c = Some (i, s, t) \<longrightarrow> c_seen c \<noteq> [])"

lemma read_delta_seen: "read_delta c i k d = Some c' \<Longrightarrow> c_seen c' \<noteq> []"
  by (auto simp: read_delta_def Let_def split: if_splits option.splits)

lemma read_message_seen: "client_ok c \<Longrightarrow> read_message c i t = Some c' \<Longrightarrow> c_seen c' \<noteq> []"
  by (auto simp: read_message_def client_ok_def split: if_splits option.splits)

lemma view_step:
  assumes "view c e = Some c'" and "client_ok c"
  shows "client_ok c'" and "assistant_event e \<Longrightarrow> c_seen c' \<noteq> []" and "c_seen c \<noteq> [] \<Longrightarrow> c_seen c' \<noteq> []"
    and "\<not> assistant_event e \<Longrightarrow> c' = c"
proof -
  have other: "\<not> assistant_event e \<Longrightarrow> c' = c" using assms(1) by (simp add: view_def assistant_event_def Let_def)
  have seen: "assistant_event e \<Longrightarrow> c_seen c' \<noteq> []"
    using assms read_delta_seen read_message_seen
    by (auto simp: view_def assistant_event_def Let_def split: if_splits json.splits)
  show "client_ok c'" using other seen assms(2) by (cases "assistant_event e") (auto simp: client_ok_def)
  show "assistant_event e \<Longrightarrow> c_seen c' \<noteq> []" by (rule seen)
  show "c_seen c \<noteq> [] \<Longrightarrow> c_seen c' \<noteq> []" using other seen by (cases "assistant_event e") auto
  show "\<not> assistant_event e \<Longrightarrow> c' = c" by (rule other)
qed

lemma views_step:
  "views c es = Some c' \<Longrightarrow> client_ok c \<Longrightarrow> (c_seen c \<noteq> [] \<longrightarrow> c_seen c' \<noteq> [])
     \<and> (c_seen c' = [] \<longrightarrow> \<not> list_ex assistant_event es)"
proof (induction es arbitrary: c)
  case (Cons e es)
  then obtain c1 where c1: "view c e = Some c1" "views c1 es = Some c'" by (auto split: option.splits)
  note step = view_step [OF c1(1) Cons.prems(2)]
  from Cons.IH [OF c1(2) step(1)] step show ?case by auto
qed simp

lemma views_other: "\<not> list_ex assistant_event es \<Longrightarrow> views c es = Some c"
  by (induction es arbitrary: c) (auto simp: view_def assistant_event_def Let_def)

lemma read_by_ok: "read_by n c \<Longrightarrow> client_ok c"
  by (auto simp: read_by_def client_ok_def segment_ok_def emitted_assistant_def split: if_splits)

lemma follows_terminal: "emitting follows all_events (ingest_terminal N now ty p)"
proof (rule emittingI)
  fix n b n' assume "ingest_terminal N now ty p n = (Inr b, n')"
  then obtain events u where c: "close N (if ty = ''run.completed'' then ''completed'' else ''failed'') n = (Inr events, u)"
    and r: "b = events \<and> n' = u \<or> (\<exists>s first. emitted_assistant u = [] \<and> emit_assistant_snapshot now s u = (Inr first, n') \<and> b = first @ events)"
    unfolding ingest_terminal_def Let_def
    by (auto simp: bindE_def getsE_def returnE_def split: sum.splits prod.splits if_splits)
  have ev: "follows n events u" using emittingD [OF follows.em_close c] by (simp add: all_events_def)
  from r show "follows n (all_events b) n'"
  proof (elim disjE exE conjE)
    fix s first
    assume empty: "emitted_assistant u = []" and f: "emit_assistant_snapshot now s u = (Inr first, n')" and b: "b = first @ events"
    have first: "follows u first n'" using emittingD [OF follows.em_snapshot f] by (simp add: all_events_def)
    show ?thesis
      unfolding follows_def all_events_def b
    proof (intro allI impI)
      fix c assume r: "read_by n c"
      then obtain c1 where c1: "views c events = Some c1" "read_by u c1" using ev by (auto simp: follows_def)
      have "c_seen c1 = []" using c1(2) empty by (simp add: read_by_def)
      then have none: "\<not> list_ex assistant_event events" using views_step [OF c1(1) read_by_ok [OF r]] by blast
      then have "read_by u c" using c1 views_other [of events c] by simp
      then obtain c2 where "views c first = Some c2" "read_by n' c2" using first by (auto simp: follows_def)
      then show "\<exists>c'. views c (first @ events) = Some c' \<and> read_by n' c'"
        using views_other [OF none] by (simp add: views_append)
    qed
  qed (use ev in \<open>simp add: all_events_def\<close>)
qed

lemma follows_stream: "emitting follows all_events (native_stream N cs)"
  by (intro follows.em_stream follows_terminal) simp

lemma read_by_new: "read_by (new_normalizer att pre) new_client"
  by (simp add: read_by_def new_normalizer_def new_client_def emitted_assistant_def segment_ok_def keys_used_def too_long_def
      MAX_SNAPSHOT_UTF8_BYTES_def)

end
