(* ===== verification/Engine_Laws.thy ===== *)
theory Engine_Laws
  imports Hermes_Engine Native_Laws
begin

text \<open>
  How the generator of \<open>Hermes_Engine\<close> is reasoned about. A law of phases says what a phase may do while
  the generator goes on and what it has done when it has returned; it composes along the text of the
  program. The first instance: the events end with the one terminal event.
\<close>

section \<open>Phases\<close>

text \<open>\<open>phased go over m\<close>: \<open>m\<close> relates its states by \<open>go\<close>, and by \<open>over\<close> when the generator has returned.\<close>

definition phased ::
  "(engine \<Rightarrow> engine \<Rightarrow> bool) \<Rightarrow> (engine \<Rightarrow> engine \<Rightarrow> bool) \<Rightarrow> 'a flow eng \<Rightarrow> bool" where
  "phased go over m \<longleftrightarrow> (\<forall>s r t. m s = (r, t) \<longrightarrow> (if r = Inr Returned then over s t else go s t))"

lemma phasedI:
  assumes "\<And>s r t. m s = (r, t) \<Longrightarrow> r \<noteq> Inr Returned \<Longrightarrow> go s t"
    and "\<And>s t. m s = (Inr Returned, t) \<Longrightarrow> over s t"
  shows "phased go over m"
  using assms by (auto simp: phased_def)

lemma phased_go: "phased go over m \<Longrightarrow> m s = (r, t) \<Longrightarrow> r \<noteq> Inr Returned \<Longrightarrow> go s t"
  by (auto simp: phased_def)

lemma phased_over: "phased go over m \<Longrightarrow> m s = (Inr Returned, t) \<Longrightarrow> over s t"
  by (auto simp: phased_def)

lemma bindF_elim:
  assumes "bindF m f s = (r, t)"
  obtains (step) a u where "m s = (Inr (Next a), u)" and "f a u = (r, t)"
    | (over) "m s = (Inr Returned, t)" and "r = Inr Returned"
    | (running) "m s = (Inr Running, t)" and "r = Inr Running"
    | (raised) e where "m s = (Inl e, t)" and "r = Inl e"
  using assms by (auto simp: bindF_def bindE_def split: prod.splits sum.splits flow.splits)

lemma bindE_elim:
  assumes "bindE m f s = (r, t)"
  obtains (step) a u where "m s = (Inr a, u)" and "f a u = (r, t)"
    | (raised) e where "m s = (Inl e, t)" and "r = Inl e"
  using assms by (auto simp: bindE_def split: prod.splits sum.splits)

locale phase_law = guarantee go
  for go :: "engine \<Rightarrow> engine \<Rightarrow> bool" +
  fixes over :: "engine \<Rightarrow> engine \<Rightarrow> bool"
  assumes go_over: "go s t \<Longrightarrow> over t u \<Longrightarrow> over s u"
begin

lemma ph_next: "phased go over (returnE (Next a))"
  by (rule phasedI) (auto simp: returnE_def intro: R_refl)

lemma ph_running: "phased go over (returnE Running)"
  by (rule phasedI) (auto simp: returnE_def intro: R_refl)

lemma ph_raise: "phased go over (raiseE e)"
  by (rule phasedI) (auto simp: raiseE_def intro: R_refl)

lemma ph_bind:
  assumes "guar go m" and "\<And>a. phased go over (f a)"
  shows "phased go over (bindE m f)"
proof (rule phasedI)
  fix s r t assume "bindE m f s = (r, t)" and r: "r \<noteq> Inr Returned"
  then show "go s t"
  proof (cases rule: bindE_elim)
    case (step a u)
    then show ?thesis using guar_result [OF assms(1) step(1)] phased_go [OF assms(2) step(2) r] R_trans by blast
  next
    case (raised e)
    then show ?thesis using guar_result [OF assms(1)] by blast
  qed
next
  fix s t assume "bindE m f s = (Inr Returned, t)"
  then show "over s t"
    by (cases rule: bindE_elim) (use guar_result [OF assms(1)] phased_over [OF assms(2)] go_over in blast)+
qed

lemma ph_bindQ:
  assumes "guar go m" and m: "yields Q m" and f: "\<And>a. Q a \<Longrightarrow> phased go over (f a)"
  shows "phased go over (bindE m f)"
proof (rule phasedI)
  fix s r t assume "bindE m f s = (r, t)" and r: "r \<noteq> Inr Returned"
  then show "go s t"
  proof (cases rule: bindE_elim)
    case (step a u)
    then show ?thesis
      using guar_result [OF assms(1) step(1)] phased_go [OF f [OF yieldsD [OF m step(1)]] step(2) r] R_trans by blast
  next
    case (raised e)
    then show ?thesis using guar_result [OF assms(1)] by blast
  qed
next
  fix s t assume "bindE m f s = (Inr Returned, t)"
  then show "over s t"
  proof (cases rule: bindE_elim)
    case (step a u)
    then show ?thesis
      using guar_result [OF assms(1) step(1)] phased_over [OF f [OF yieldsD [OF m step(1)]] step(2)] go_over by blast
  qed simp
qed

lemma ph_then: "guar go m \<Longrightarrow> phased go over n \<Longrightarrow> phased go over (thenE m n)"
  by (simp add: thenE_def ph_bind)

lemma ph_bindF:
  assumes m: "phased go over m" and f: "\<And>a. phased go over (f a)"
  shows "phased go over (bindF m f)"
proof (rule phasedI)
  fix s r t assume "bindF m f s = (r, t)" and r: "r \<noteq> Inr Returned"
  then show "go s t"
  proof (cases rule: bindF_elim)
    case (step a u)
    then have "go s u" using phased_go [OF m step(1)] by simp
    moreover have "go u t" by (rule phased_go [OF f step(2) r])
    ultimately show ?thesis by (rule R_trans)
  qed (use r phased_go [OF m] in auto)
next
  fix s t assume "bindF m f s = (Inr Returned, t)"
  then show "over s t"
  proof (cases rule: bindF_elim)
    case (step a u)
    then have "go s u" using phased_go [OF m step(1)] by simp
    moreover have "over u t" by (rule phased_over [OF f step(2)])
    ultimately show ?thesis by (rule go_over)
  qed (use phased_over [OF m] in auto)
qed

lemma ph_catch:
  assumes m: "phased go over m" and h: "\<And>e. phased go over (h e)"
  shows "phased go over (catchE m h)"
proof (rule phasedI)
  fix s r t assume c: "catchE m h s = (r, t)" and r: "r \<noteq> Inr Returned"
  show "go s t"
  proof (cases "m s")
    case (Pair q u)
    show ?thesis
    proof (cases q)
      case (Inl e)
      then have "go s u" using phased_go [OF m Pair] by simp
      moreover have "h e u = (r, t)" using c Pair Inl by (simp add: catchE_def)
      ultimately show ?thesis using phased_go [OF h _ r] R_trans by blast
    next
      case (Inr a)
      then have "m s = (r, t)" using c Pair by (simp add: catchE_def)
      then show ?thesis using phased_go [OF m _ r] by blast
    qed
  qed
next
  fix s t assume c: "catchE m h s = (Inr Returned, t)"
  show "over s t"
  proof (cases "m s")
    case (Pair q u)
    show ?thesis
    proof (cases q)
      case (Inl e)
      then have "go s u" using phased_go [OF m Pair] by simp
      moreover have "h e u = (Inr Returned, t)" using c Pair Inl by (simp add: catchE_def)
      ultimately show ?thesis using phased_over [OF h] go_over by blast
    next
      case (Inr a)
      then have "m s = (Inr Returned, t)" using c Pair by (simp add: catchE_def)
      then show ?thesis by (rule phased_over [OF m])
    qed
  qed
qed

lemma ph_if: "(b \<Longrightarrow> phased go over m) \<Longrightarrow> (\<not> b \<Longrightarrow> phased go over n) \<Longrightarrow> phased go over (if b then m else n)"
  by simp

lemma ph_option:
  "(x = None \<Longrightarrow> phased go over m) \<Longrightarrow> (\<And>a. x = Some a \<Longrightarrow> phased go over (f a)) \<Longrightarrow>
   phased go over (case x of None \<Rightarrow> m | Some a \<Rightarrow> f a)"
  by (cases x) auto

lemma ph_prod: "(\<And>a b. x = (a, b) \<Longrightarrow> phased go over (f a b)) \<Longrightarrow> phased go over (case x of (a, b) \<Rightarrow> f a b)"
  by (cases x) auto

lemma ph_let: "(\<And>a. a = x \<Longrightarrow> phased go over (f a)) \<Longrightarrow> phased go over (let a = x in f a)"
  by (simp add: Let_def)

lemma ph_http:
  "phased go over m \<Longrightarrow> (\<And>e. phased go over (f e)) \<Longrightarrow> (\<And>c b. phased go over (g c b)) \<Longrightarrow>
   phased go over (case x of Unreachable \<Rightarrow> m | HttpFault e \<Rightarrow> f e | Response c b \<Rightarrow> g c b)"
  by (cases x) auto

lemma ph_tick:
  "(\<And>l. phased go over (f l)) \<Longrightarrow> phased go over q \<Longrightarrow> phased go over a \<Longrightarrow> phased go over b \<Longrightarrow>
   (\<And>e. phased go over (g e)) \<Longrightarrow>
   phased go over (case x of Line l \<Rightarrow> f l | Quiet \<Rightarrow> q | StreamEnd \<Rightarrow> a | StreamLost \<Rightarrow> b | StreamFault e \<Rightarrow> g e)"
  by (cases x) auto

lemma ph_json:
  assumes "\<And>d. x = JObj d \<Longrightarrow> phased go over (f d)" and "phased go over m"
  shows "phased go over (case x of JObj d \<Rightarrow> f d | _ \<Rightarrow> m)"
  using assms by (cases x) auto

lemmas ph_rules = ph_next ph_running ph_raise ph_bind ph_then ph_bindF ph_catch ph_if ph_option ph_prod ph_let
  ph_http ph_tick ph_json

end

section \<open>What a phase says to the consumer\<close>

definition native_type :: "string \<Rightarrow> bool" where
  "native_type ty \<longleftrightarrow> message_type ty \<or> notice_type ty \<or> ty \<in> {''tool.call'', ''tool.result''}"

definition native_only :: "native_event list \<Rightarrow> bool" where
  "native_only es \<longleftrightarrow> list_all (\<lambda>e. native_type (ne_type e)) es"

definition native_between :: "normalizer \<Rightarrow> native_event list \<Rightarrow> normalizer \<Rightarrow> bool" where
  "native_between n es n' \<longleftrightarrow> native_only es"

interpretation natives: event_emission native_between N "\<lambda>ty p. native_type ty"
proof unfold_locales
  show "emitting native_between one_event (sot ty p)" if "native_type ty" for ty p
    using that by (intro emittingI)
      (auto simp: sot_def next_counter_def bindE_def getsE_def returnE_def one_event_def native_between_def native_only_def)
  show "emitting native_between no_events next_counter"
    by (rule emittingI) (simp add: native_between_def native_only_def no_events_def)
qed (auto simp: native_between_def native_only_def native_type_def)

lemma native_stream_types: "emitting native_between all_events (native_stream N cs)"
  by (rule natives.em_stream, rule natives.em_terminal)
    (auto simp: natives.swaps_def native_between_def native_only_def)

text \<open>Each operation of the normaliser yields events of its own types only.\<close>

lemma native_yields: "emitting native_between all_events m \<Longrightarrow> yields native_only (onN m)"
  unfolding yields_def onN_def emitting_def native_between_def all_events_def by (auto split: prod.splits)

lemma ops_native:
  "yields native_only (onN (ingest N now d))" "yields native_only (onN drain_internal_traces)"
  "yields native_only (onN (close N st))" "yields native_only (onN (flush_due_to_latency now))"
  "yields native_only (onN (emit_assistant_snapshot now x))"
proof -
  have "emitting native_between all_events (ingest_terminal N now ty p)" for now ty p
    by (rule natives.em_terminal) (auto simp: natives.swaps_def native_between_def native_only_def)
  then show "yields native_only (onN (ingest N now d))" by (intro native_yields natives.em_ingest) simp_all
  show "yields native_only (onN drain_internal_traces)" by (rule native_yields [OF natives.em_drain])
  show "yields native_only (onN (close N st))" by (rule native_yields [OF natives.em_close])
  show "yields native_only (onN (flush_due_to_latency now))" by (rule native_yields [OF natives.em_latency])
  show "yields native_only (onN (emit_assistant_snapshot now x))" by (rule native_yields [OF natives.em_snapshot])
qed

lemma native_only_append [simp]: "native_only (a @ b) \<longleftrightarrow> native_only a \<and> native_only b"
  by (simp add: native_only_def)

lemma ingested_native: "yields native_only (emit_ingested X d)"
  unfolding emit_ingested_def
  by (rule yields_bind, rule yields_bindQ [OF ops_native(1)], rule yields_bindQ [OF ops_native(2)]) (simp add: yields_return)

lemma leftovers_native: "yields native_only (events_after_status_terminal X st data saw)"
  unfolding events_after_status_terminal_def Let_def
  by (rule yields_bindQ [OF ops_native(3)], rule yields_if, rule yields_bind, rule yields_bindQ [OF ops_native(5)])
    (simp_all add: yields_return)

lemma native_not_terminal: "native_type ty \<Longrightarrow> ty \<notin> set TERMINAL_EVENTS"
  by (auto simp: native_type_def message_type_def notice_type_def TERMINAL_EVENTS_def)

section \<open>One terminal event, at the end\<close>

definition quiet :: "yield_event list \<Rightarrow> bool" where
  "quiet es \<longleftrightarrow> list_all (\<lambda>e. ye_type e \<notin> set TERMINAL_EVENTS) es"

definition spoke :: "engine \<Rightarrow> engine \<Rightarrow> bool" where
  "spoke s t \<longleftrightarrow> (\<exists>es. out t = out s @ es \<and> quiet es)"

definition ended :: "engine \<Rightarrow> engine \<Rightarrow> bool" where
  "ended s t \<longleftrightarrow> (\<exists>es e. out t = out s @ es @ [e] \<and> quiet es \<and> ye_type e \<in> set TERMINAL_EVENTS)"

interpretation talk: phase_law spoke ended
proof unfold_locales
  fix s t u :: engine
  show "spoke s s" by (simp add: spoke_def quiet_def)
  show "spoke s u" if "spoke s t" "spoke t u"
  proof -
    from that obtain es es' where "out t = out s @ es" "quiet es" "out u = out t @ es'" "quiet es'"
      unfolding spoke_def by blast
    then show ?thesis unfolding spoke_def by (intro exI [of _ "es @ es'"]) (simp add: quiet_def)
  qed
  show "ended s u" if "spoke s t" "ended t u"
  proof -
    from that obtain es es' e where "out t = out s @ es" "quiet es" "out u = out t @ es' @ [e]" "quiet es'"
      "ye_type e \<in> set TERMINAL_EVENTS"
      unfolding spoke_def ended_def by blast
    then show ?thesis unfolding ended_def by (intro exI [of _ "es @ es'"] exI [of _ e]) (simp add: quiet_def)
  qed
qed

lemma silent_spoke: "(\<And>s. out (snd (m s)) = out s) \<Longrightarrow> guar spoke m"
  by (auto simp: guar_def spoke_def quiet_def)

lemma onW_spoke: "guar spoke (onW m)"
  by (rule silent_spoke) (simp add: onW_def split: prod.splits)

lemma onN_spoke: "guar spoke (onN m)"
  by (rule silent_spoke) (simp add: onN_def split: prod.splits)

lemma asked_spoke: "guar spoke (cancel_is_set X)" "guar spoke (next_line X)" "guar spoke (monotonic X)"
  by (rule silent_spoke; simp add: cancel_is_set_def next_line_def monotonic_def)+

lemma yield_spoke: "ye_type e \<notin> set TERMINAL_EVENTS \<Longrightarrow> guar spoke (yieldE X e)"
  unfolding guar_def spoke_def yieldE_def quiet_def by auto

lemma progress_spoke: "guar spoke (yieldE X (progress_event ph msg))"
  by (rule yield_spoke) (simp add: progress_event_def plain_event_def TERMINAL_EVENTS_def)

lemma natives_spoke: "native_only es \<Longrightarrow> guar spoke (yield_all X es)"
  unfolding yield_all_def native_only_def
  by (intro talk.guar_for yield_spoke native_not_terminal) (auto simp: native_yield_def list_all_iff)

lemma yield_return_ended: "ye_type e \<in> set TERMINAL_EVENTS \<Longrightarrow> phased spoke ended (yield_return X e)"
  by (rule phasedI) (auto simp: yield_return_def thenE_def bindE_def yieldE_def ended_def quiet_def)

lemma failed_types [simp]:
  "ye_type (failed c m) = ''run.failed''" "ye_type (error_event m) = ''run.failed''"
  "ye_type (cancelled_event m) = ''run.cancelled''" "ye_type capability_event = ''run.failed''"
  by (simp_all add: failed_def error_event_def cancelled_event_def plain_event_def capability_event_def)

lemma fail_ended: "phased spoke ended (fail_with X c m)" "phased spoke ended (yield_return X (error_event m))"
  "phased spoke ended (yield_return X (cancelled_event m))" "phased spoke ended (yield_return X capability_event)"
  unfolding fail_with_def by (rule yield_return_ended; simp add: TERMINAL_EVENTS_def)+

lemma pred_if: "pred_option P x \<Longrightarrow> pred_option P y \<Longrightarrow> pred_option P (if b then x else y)"
  by simp

lemma terminal_status_type:
  assumes "terminal_from_status st code = Some t" shows "en_event_type t \<in> set TERMINAL_EVENTS"
proof -
  have "pred_option (\<lambda>t. en_event_type t \<in> set TERMINAL_EVENTS) (terminal_from_status st code)"
    unfolding terminal_from_status_def by (intro pred_if) (simp_all add: failed_event_def TERMINAL_EVENTS_def)
  with assms show ?thesis by simp
qed

lemma status_ended: "terminal_from_status st code = Some t \<Longrightarrow> phased spoke ended (yield_return X (status_yield t))"
  by (rule yield_return_ended) (simp add: status_yield_def plain_event_def terminal_status_type)

lemma request_total: "total m \<Longrightarrow> total (request m)"
  unfolding total_def request_def by (metis (no_types, lifting) old.sum.simps(6) split_conv)

lemma mark_terminal_total: "total (mark_runtime_terminal att gen)"
proof -
  have "total (update_attempts c f)" for c f by (simp add: total_def update_attempts_def)
  then show ?thesis unfolding mark_runtime_terminal_def now_op_def by (intro total_bind total_gets total_return)
qed

lemma onW_out: "onW m s = (r, t) \<Longrightarrow> out t = out s"
  by (auto simp: onW_def split: prod.splits)

lemma mark_terminal_returns: "\<exists>t. mark_terminal p s = (Inr (), t) \<and> out t = out s"
proof -
  have "total (request (bindE (mark_runtime_terminal (pp_attempt_id p) (pp_generation p)) (\<lambda>_. returnE ())))"
    by (intro request_total total_bind mark_terminal_total total_return)
  from totalD [OF this, of "wd s"] have "\<exists>t. mark_terminal p s = (Inr (), t)"
    unfolding mark_terminal_def onW_def by fastforce
  then show ?thesis using onW_out unfolding mark_terminal_def by blast
qed

lemma mark_spoke: "guar spoke (mark_terminal p)"
  by (simp add: mark_terminal_def onW_spoke)

lemma cancelled_ended:
  "phased spoke ended (thenE (yieldE X (cancelled_event m)) (thenE (mark_terminal p) (returnE Returned)))"
proof -
  have "\<exists>t. thenE (yieldE X (cancelled_event m)) (thenE (mark_terminal p) (returnE Returned)) s = (Inr Returned, t)
      \<and> out t = out s @ [cancelled_event m]" for s :: engine
    using mark_terminal_returns [of p "snd (yieldE X (cancelled_event m) s)"]
    by (auto simp: thenE_def bindE_def yieldE_def)
  then have "thenE (yieldE X (cancelled_event m)) (thenE (mark_terminal p) (returnE Returned)) s = (r, t) \<Longrightarrow>
      r = Inr Returned \<and> out t = out s @ [cancelled_event m]" for s :: engine and r :: "exn + 'b flow" and t
    by (metis Pair_inject)
  then show ?thesis
    unfolding phased_def by (auto simp: ended_def quiet_def TERMINAL_EVENTS_def)
qed

lemmas talk_prims = onW_spoke onN_spoke asked_spoke progress_spoke mark_spoke fail_ended status_ended cancelled_ended
  talk.guar_lift talk.guar_return

lemma reconcile_spoke: "guar spoke (reconcile X p rid)"
  by (simp add: reconcile_def onW_spoke)

lemma stop_spoke: "guar spoke (stop_run X p rid)"
  by (simp add: stop_run_def onW_spoke)

lemma ingested_spoke: "guar spoke (emit_ingested X d)"
  unfolding emit_ingested_def by (intro talk.guar_bind talk_prims)

lemma close_failed_spoke: "guar spoke (close_failed X)"
  unfolding close_failed_def by (rule talk.guar_bindQ [OF onN_spoke ops_native(3) natives_spoke])

text \<open>Before the runtime is called, and the contract.\<close>

lemma lease_ended: "phased spoke ended (take_lease X c)"
  unfolding take_lease_def Let_def by (intro talk.ph_rules talk_prims)

lemma gateway_ended: "phased spoke ended (check_gateway X g)"
  unfolding check_gateway_def probe_gateway_url_def
  by (intro talk.ph_rules talk_prims talk.guar_bind) (auto intro!: talk.guar_return talk.guar_raise split: http.split)

lemma contract_ended:
  "phased spoke ended (probe_capabilities X p)" "phased spoke ended (check_version X p caps)"
  "phased spoke ended (check_features X c p caps)" "phased spoke ended (attach_tools X c p caps)"
  "phased spoke ended (attach_files X c p payload)" "phased spoke ended (submit_run X p payload)"
proof -
  show "phased spoke ended (probe_capabilities X p)"
    unfolding probe_capabilities_def by (intro talk.ph_rules talk_prims)
  have "phased spoke ended (probe_health X p)"
    unfolding probe_health_def by (intro talk.ph_rules talk_prims)
  then show "phased spoke ended (check_version X p caps)"
    unfolding check_version_def Let_def by (intro talk.ph_rules talk_prims)
  show "phased spoke ended (check_features X c p caps)"
    unfolding check_features_def Let_def by (intro talk.ph_rules talk_prims)
  show "phased spoke ended (attach_tools X c p caps)"
    unfolding attach_tools_def Let_def mint_attempt_token_def by (intro talk.ph_rules talk_prims)
  show "phased spoke ended (attach_files X c p payload)"
    unfolding attach_files_def stage_files_def Let_def
    by (intro talk.ph_rules talk_prims talk.guar_catch talk.guar_bind)
  show "phased spoke ended (submit_run X p payload)"
    unfolding submit_run_def submit_answer_def by (intro talk.ph_rules talk_prims)
qed

lemma session_ended: "phased spoke ended (bind_session X c p body rid)"
  unfolding bind_session_def Let_def
  by (intro talk.ph_rules talk_prims talk.guar_if talk.guar_bind talk.guar_prod reconcile_spoke stop_spoke)

text \<open>The stream.\<close>

lemma quiet_round_ended: "phased spoke ended (stream_quiet X p rid v)"
  unfolding stream_quiet_def Let_def poll_status_def
  by (rule talk.ph_bind [OF asked_spoke(3)], rule talk.ph_bindQ [OF onN_spoke ops_native(4)])
    (intro talk.ph_rules talk_prims natives_spoke reconcile_spoke; assumption)

lemma line_ended: "phased spoke ended (stream_line X v line)"
proof -
  have "phased spoke ended (stream_chunk X v chunk)" for v chunk
    unfolding stream_chunk_def Let_def
    by (rule talk.ph_bindQ [OF ingested_spoke ingested_native]) (intro talk.ph_rules natives_spoke; assumption)
  then show ?thesis unfolding stream_line_def Let_def by (intro talk.ph_rules talk_prims)
qed

lemma round_ended: "phased spoke ended (stream_round X p rid v)"
  unfolding stream_round_def stream_cancelled_def stream_read_def
  by (intro talk.ph_rules talk_prims stop_spoke close_failed_spoke line_ended quiet_round_ended)

lemma stream_loop_ended: "phased spoke ended (stream_loop X p rid n v)"
proof (induction n arbitrary: v)
  case (Suc n)
  show ?case unfolding stream_loop.simps by (intro talk.ph_rules round_ended Suc)
qed (simp add: talk.ph_running)

lemma status_or_cancelled:
  "ye_type (case terminal_from_status st code of Some t \<Rightarrow> status_yield t | None \<Rightarrow> cancelled_event m) \<in> set TERMINAL_EVENTS"
proof (cases "terminal_from_status st code")
  case (Some t)
  then show ?thesis using terminal_status_type [OF Some] by (simp add: status_yield_def plain_event_def)
qed (simp add: TERMINAL_EVENTS_def)

lemma follow_ended: "phased spoke ended (follow_stream X n p rid ver session profile caps)"
  unfolding follow_stream_def open_stream_def persist_native_binding_def cancelled_before_stream_def Let_def
  by (intro talk.ph_rules talk_prims reconcile_spoke stop_spoke stream_loop_ended yield_return_ended status_or_cancelled)

section \<open>Ending\<close>

text \<open>What is sent out last: artifacts, then one terminal event.\<close>

definition finishing :: "yield_event list \<Rightarrow> bool" where
  "finishing es \<longleftrightarrow> (\<exists>xs e. es = xs @ [e] \<and> quiet xs \<and> ye_type e \<in> set TERMINAL_EVENTS)"

lemma outputs_quiet: "yields (\<lambda>(es, lost). quiet es) (persist_declared_outputs E N oc data)"
proof -
  have keep: "quiet (fst (keep_outputs rs))" for rs
    by (induction rs rule: keep_outputs.induct)
      (auto simp: quiet_def Let_def public_artifact_persisted_event_def TERMINAL_EVENTS_def split: prod.splits option.splits)
  have req: "yields Q m \<Longrightarrow> yields Q (request m)" for Q and m :: "'a op"
    unfolding yields_def request_def by (auto split: prod.splits sum.splits)
  have "case keep_outputs rs of (es, lost) \<Rightarrow> quiet es" for rs using keep [of rs] by (simp add: case_prod_beta)
  then show ?thesis
    unfolding persist_declared_outputs_def Let_def
    by (intro yields_if yields_return req yields_bind) (simp_all add: quiet_def)
qed

lemma terminal_outputs_finishing:
  assumes "ye_type e \<in> set TERMINAL_EVENTS"
  shows "yields finishing (terminal_events_with_outputs E N oc e data)"
proof -
  have "finishing (es @ [if lost then failed c m else e])" if "quiet es" for es lost c m
    using that assms unfolding finishing_def by (intro exI [of _ es] exI [of _ "if lost then failed c m else e"]) (simp add: TERMINAL_EVENTS_def)
  moreover have "finishing [e]" using assms unfolding finishing_def by (intro exI [of _ "[]"] exI [of _ e]) (simp add: quiet_def)
  ultimately show ?thesis
    unfolding terminal_events_with_outputs_def
    by (intro yields_if yields_return yields_bindQ [OF outputs_quiet]) (auto intro: yields_return)
qed

lemma yields_onW: "yields Q m \<Longrightarrow> yields Q (onW m)"
  unfolding yields_def onW_def by (auto split: prod.splits)

lemma yield_list_out: "\<exists>t. forE es (yieldE X) s = (Inr (), t) \<and> out t = out s @ es"
proof (induction es arbitrary: s)
  case (Cons e es)
  obtain u where u: "yieldE X e s = (Inr (), u)" "out u = out s @ [e]" by (simp add: yieldE_def)
  from Cons.IH [of u] u show ?case by (auto simp: thenE_def bindE_def)
qed simp

lemma finishing_ended:
  assumes "finishing es" shows "phased spoke ended (thenE (forE es (yieldE X)) (returnE Returned))"
proof -
  have "\<exists>t. thenE (forE es (yieldE X)) (returnE Returned) s = (Inr Returned, t) \<and> out t = out s @ es" for s
    using yield_list_out [of es X s] by (auto simp: thenE_def bindE_def)
  then have "ended s t \<and> r = Inr Returned" if "thenE (forE es (yieldE X)) (returnE Returned) s = (r, t)"
    for s t and r :: "exn + 'b flow"
    using that assms unfolding ended_def finishing_def by (metis Pair_inject)
  then show ?thesis unfolding phased_def by auto
qed

lemma finish_ended:
  assumes "terminal_from_status st0 code = Some t"
  shows "phased spoke ended (conclude_run X c p saw st data t)"
proof -
  have ty: "ye_type (status_yield t) \<in> set TERMINAL_EVENTS"
    using terminal_status_type [OF assms] by (simp add: status_yield_def plain_event_def)
  have left: "guar spoke (events_after_status_terminal X st data saw)" for data saw
    unfolding events_after_status_terminal_def Let_def
    by (intro talk.guar_bind talk.guar_if talk_prims)
  show ?thesis
    unfolding conclude_run_def
    by (rule talk.ph_bindQ [OF left leftovers_native], rule talk.ph_then, erule natives_spoke,
        rule talk.ph_bindQ [OF onW_spoke yields_onW [OF terminal_outputs_finishing [OF ty]]],
        rule talk.ph_then [OF talk.guar_when [OF mark_spoke]], erule finishing_ended)
qed

lemma wait_cancelled_ended: "phased spoke ended (wait_cancelled X p rid)"
  unfolding wait_cancelled_def
  by (intro talk.ph_rules talk_prims reconcile_spoke stop_spoke close_failed_spoke talk.guar_when; assumption)

lemma ask_spoke: "guar spoke (ask_approval X rid v)"
proof (cases v)
  case (fields saw st data)
  have "guar spoke (thenE (yield_all X es) (returnE b))" if "native_only es" for es and b :: bool
    by (intro talk.guar_then natives_spoke that talk.guar_return)
  then show ?thesis
    unfolding ask_approval_def fields prod.case
    by (intro talk.guar_if talk.guar_bindQ [OF ingested_spoke ingested_native] talk.guar_return)
qed

lemma wait_round_ended: "phased spoke ended (wait_round X c p rid saw v)"
  unfolding wait_round_def wait_next_def alive_event_def
  by (intro talk.ph_rules talk_prims ask_spoke wait_cancelled_ended reconcile_spoke finish_ended; assumption)

lemma wait_loop_ended: "phased spoke ended (wait_loop X c p rid saw n v)"
proof (induction n arbitrary: v)
  case (Suc n)
  show ?case unfolding wait_loop.simps by (intro talk.ph_rules talk_prims wait_round_ended Suc)
qed (simp add: talk.ph_running)

lemma after_stream_ended: "phased spoke ended (after_stream X n c p rid v)"
  unfolding after_stream_def last_status_def
  by (intro talk.ph_rules talk.guar_then talk.guar_bind talk.guar_if talk.guar_option talk_prims reconcile_spoke
      finish_ended wait_loop_ended; assumption)

lemma drive_ended: "phased spoke ended (drive_caught X n c p)"
  unfolding drive_caught_def drive_run_def submit_and_follow_def
  by (intro talk.ph_rules talk_prims contract_ended session_ended follow_ended after_stream_ended)

lemma attempt_ended: "phased spoke ended (run_attempt X n c minted g)"
  unfolding run_attempt_def Let_def
  by (intro talk.ph_rules talk_prims drive_ended silent_spoke) simp

lemma engine_ended: "phased spoke ended (execute_hermes_run X n c)"
  unfolding execute_hermes_run_def with_gateway_def
  by (intro talk.ph_rules talk_prims lease_ended gateway_ended attempt_ended)

end
