(* ===== verification/Internal_Networks.thy ===== *)
theory Internal_Networks
  imports Ip_Address
begin

text \<open>
  The networks that are internal in the terms of a reader: those of private use, of the host itself and of
  the link, in both versions of IP and for IPv4 addresses mapped into IPv6. The lemma says that the
  classification of \<open>ipaddress\<close> lets none of them pass as global.
\<close>

section \<open>Netmasks\<close>

lemma bit_netmask: "bit (netmask k :: 'a::len word) i \<longleftrightarrow> i < LENGTH('a) \<and> LENGTH('a) - k \<le> i"
  by (auto simp: netmask_def bit_simps)

lemma netmask_below: "k \<le> l \<Longrightarrow> netmask l AND netmask k = (netmask k :: 'a::len word)"
  by (rule bit_word_eqI) (auto simp: bit_and_iff bit_netmask)

lemma in_prefix_agree:
  fixes a :: "'a::len word"
  assumes "in_prefix a (n, k)" and "in_prefix a (m, l)" and "k \<le> l"
  shows "n AND netmask k = m AND netmask k"
proof -
  have "a AND netmask k = n AND netmask k" using assms(1) by (simp add: in_prefix_def)
  moreover have "a AND netmask k = m AND netmask k"
    using assms(2) netmask_below [OF assms(3), where ?'a = 'a] by (simp add: in_prefix_def) (metis and.assoc)
  ultimately show ?thesis by simp
qed

section \<open>Internal networks\<close>

definition INTERNAL4 :: "(32 word \<times> nat) list" where
  "INTERNAL4 =
     [(ip4 10 0 0 0, 8), (ip4 127 0 0 0, 8), (ip4 169 254 0 0, 16), (ip4 172 16 0 0, 12), (ip4 192 168 0 0, 16)]"

definition internal4 :: "32 word \<Rightarrow> bool" where
  "internal4 a \<longleftrightarrow> list_ex (in_prefix a) INTERNAL4"

fun internal :: "ip \<Rightarrow> bool" where
  "internal (V4 a) \<longleftrightarrow> internal4 a"
| "internal (V6 a scope) \<longleftrightarrow>
     a = 1 \<or> in_prefix a (ip6 0xFE80 0 0 0 0, 10) \<or> in_prefix a (ip6 0xFC00 0 0 0 0, 7)
     \<or> (drop_bit 32 a = 0xFFFF \<and> internal4 (ucast a))"

lemma apart4:
  "list_all (\<lambda>(n, k). list_all (\<lambda>(m, l). k \<le> l \<and> n AND netmask k \<noteq> m AND netmask k) PUBLIC4) INTERNAL4"
  by (simp add: INTERNAL4_def PUBLIC4_def ip4_def netmask_def mask_eq_exp_minus_1)

lemma apart6:
  "list_all (\<lambda>(m, l). 7 \<le> l \<and> ip6 0xFC00 0 0 0 0 AND netmask 7 \<noteq> m AND netmask 7) PUBLIC6"
  by (simp add: PUBLIC6_def ip6_def netmask_def mask_eq_exp_minus_1 push_bit_eq_mult)

lemma listed4: "list_all (\<lambda>n. n \<in> set PRIVATE4) INTERNAL4"
  by (simp add: INTERNAL4_def PRIVATE4_def)

lemma internal4_private: "internal4 a \<Longrightarrow> private4 a"
proof -
  assume "internal4 a"
  then obtain n k where nk: "(n, k) \<in> set INTERNAL4" "in_prefix a (n, k)" by (auto simp: internal4_def list_ex_iff)
  have "(n, k) \<in> set PRIVATE4" using listed4 nk(1) by (auto simp: list_all_iff)
  then have p: "in_some a PRIVATE4" using nk(2) by (auto simp: in_some_def list_ex_iff)
  have "\<not> in_some a PUBLIC4"
  proof
    assume "in_some a PUBLIC4"
    then obtain m l where ml: "(m, l) \<in> set PUBLIC4" "in_prefix a (m, l)" by (auto simp: in_some_def list_ex_iff)
    have "k \<le> l" "n AND netmask k \<noteq> m AND netmask k" using apart4 nk(1) ml(1) by (fastforce simp: list_all_iff)+
    then show False using in_prefix_agree [OF nk(2) ml(2)] by blast
  qed
  with p show ?thesis by (simp add: private4_def)
qed

lemma unique_local_private:
  assumes "in_prefix a (ip6 0xFC00 0 0 0 0, 7)" shows "is_private (V6 a scope)"
proof -
  have "bit (a AND netmask 7) 127 = bit (ip6 0xFC00 0 0 0 0 AND netmask 7) 127" using assms by (simp add: in_prefix_def)
  moreover have "bit (ip6 0xFC00 0 0 0 0) 127" by (simp add: ip6_def push_bit_eq_mult bit_iff_odd)
  ultimately have "bit a 127" by (simp add: bit_and_iff bit_netmask)
  then have "bit (drop_bit 32 a) 95" by (simp add: bit_drop_bit_eq)
  moreover have "\<not> bit (0xFFFF :: 128 word) 95" by (simp add: bit_iff_odd)
  ultimately have "ipv4_mapped a = None" by (auto simp: ipv4_mapped_def)
  moreover have "in_some a PRIVATE6" using assms by (simp add: in_some_def PRIVATE6_def)
  moreover have "\<not> in_some a PUBLIC6"
  proof
    assume "in_some a PUBLIC6"
    then obtain k l where kl: "(k, l) \<in> set PUBLIC6" "in_prefix a (k, l)" by (auto simp: in_some_def list_ex_iff)
    have "7 \<le> l" "ip6 0xFC00 0 0 0 0 AND netmask 7 \<noteq> k AND netmask 7" using apart6 kl(1) by (auto simp: list_all_iff)
    then show False using in_prefix_agree [OF assms kl(2)] by blast
  qed
  ultimately show ?thesis by simp
qed

lemma internal_private: "internal i \<Longrightarrow> is_loopback i \<or> is_link_local i \<or> is_private i"
proof (cases i)
  case (V6 a scope)
  then show "internal i \<Longrightarrow> ?thesis"
    using unique_local_private [of a scope] by (auto simp: internal4_private ipv4_mapped_def split: if_splits)
qed (simp add: internal4_private)

end
