(* ===== verification/Output_Policy.thy ===== *)
theory Output_Policy
  imports Runtime_Outputs Internal_Networks
begin

text \<open>
  What is sent while the outputs of a runtime are fetched (\<open>services/hermes_engine.py\<close>,
  \<open>_persist_declared_outputs\<close>): only reads, only from places the policy allows, with credentials
  for the origin of the gateway alone.
\<close>

section \<open>The decision\<close>

text \<open>
  A host names or resolves to addresses outside of the internal networks only, as it resolves after the
  \<open>k\<close>-th call.
\<close>

definition outside_address :: "string \<Rightarrow> bool" where
  "outside_address addr \<longleftrightarrow> (case parse_ip addr of None \<Rightarrow> False | Some a \<Rightarrow> \<not> internal a)"

definition leads_outside :: "net_env \<Rightarrow> nat \<Rightarrow> string \<Rightarrow> int \<Rightarrow> bool" where
  "leads_outside N k host port \<longleftrightarrow>
     (case parse_ip host of
        Some a \<Rightarrow> outside_address (ip_string a)
      | None \<Rightarrow> (case resolve_host N k host port of
                  Inr ips \<Rightarrow> ips \<noteq> [] \<and> list_all outside_address ips
                | Inl e \<Rightarrow> False))"

text \<open>An origin is listed when an entry of one of the two lists of the settings names it or its host.\<close>

definition listed :: "net_env \<Rightarrow> origin \<Rightarrow> bool" where
  "listed N orig \<longleftrightarrow>
     list_ex (\<lambda>entry. http_origin N (rstrip_slash (strip entry)) = Inr (Some orig)) (split_char (CHR '','') (origin_allowlist N))
     \<or> list_ex (\<lambda>entry. rstrip_dot (lower (strip entry)) = fst (snd orig)) (split_char (CHR '','') (host_allowlist N))"

text \<open>The services that answer with the credentials of a machine, by their names and addresses.\<close>

definition metadata_service :: "string \<Rightarrow> bool" where
  "metadata_service host \<longleftrightarrow> rstrip_dot (lower host) \<in>
     {''169.254.169.254'', ''metadata.google.internal'', ''instance-data'', ''100.100.100.200'', ''fd00:ec2::254''}"

lemma metadata_service: "is_metadata_host host = metadata_service host"
  by (simp add: is_metadata_host_def metadata_service_def METADATA_HOSTS_def)

lemma public_outside: "public_address addr \<Longrightarrow> outside_address addr"
  using internal_private by (auto simp: public_address_def outside_address_def ip_is_non_public_def split: option.splits)

lemma origins_listed:
  "origins_of N ps = Inr os \<Longrightarrow> orig \<in> set os \<Longrightarrow>
   \<exists>part\<in>set ps. http_origin N (rstrip_slash (strip part)) = Inr (Some orig)"
  by (induction ps arbitrary: os) (fastforce split: sum.splits option.splits prod.splits if_splits)+

lemma configured_listed:
  "configured_fetch_origins N = Inr os \<Longrightarrow> orig \<in> set os \<Longrightarrow> listed N orig"
  "fst (snd orig) \<in> set (configured_fetch_hosts N) \<Longrightarrow> listed N orig"
proof -
  show "listed N orig" if "configured_fetch_origins N = Inr os" "orig \<in> set os"
    using origins_listed [OF that(1) [unfolded configured_fetch_origins_def] that(2)]
    unfolding listed_def list_ex_iff by (rule disjI1)
  show "listed N orig" if "fst (snd orig) \<in> set (configured_fetch_hosts N)"
  proof -
    have "fst (snd orig) \<in> (\<lambda>part. rstrip_dot (lower (strip part))) ` set (split_char (CHR '','') (host_allowlist N))"
      using that by (simp only: configured_fetch_hosts_def set_filter set_map mem_Collect_eq)
    then show ?thesis unfolding listed_def list_ex_iff by (elim imageE) (intro disjI2 bexI, rule sym)
  qed
qed

definition may_lead_to :: "net_env \<Rightarrow> nat \<Rightarrow> origin \<Rightarrow> bool" where
  "may_lead_to N k orig \<longleftrightarrow> listed N orig \<or> leads_outside N k (fst (snd orig)) (snd (snd orig))"

text \<open>What the decision says of a URL.\<close>

definition decided :: "net_env \<Rightarrow> string \<Rightarrow> string \<Rightarrow> nat \<Rightarrow> access \<Rightarrow> bool" where
  "decided N url gateway_url k a \<longleftrightarrow> a = Blocked \<or>
     (\<exists>orig. http_origin N url = Inr (Some orig) \<and> \<not> metadata_service (fst (snd orig))
       \<and> (if a = Gateway then http_origin N gateway_url = Inr (Some orig) else may_lead_to N k orig))"

lemma resolved_outside:
  assumes "resolved_access N host port w = (Inr a, w')" and "a \<noteq> Blocked"
  shows "a = Public" and "leads_outside N (length (ext_calls w)) host port"
  using assms public_outside
  by (auto simp: resolved_access_def resolve_output_host_ips_def getaddrinfo_def catchE_def bindE_def leads_outside_def
      list_all_iff split: option.splits sum.splits exn.splits if_splits)

lemma resolved_same: "resolved_access N host port w = (r, w') \<Longrightarrow> w' = w"
  by (auto simp: resolved_access_def resolve_output_host_ips_def getaddrinfo_def catchE_def bindE_def
      split: option.splits sum.splits exn.splits if_splits)

lemma access_same: "output_url_access N url gateway_url w = (r, w') \<Longrightarrow> w' = w"
  by (auto simp: output_url_access_def bindE_def dest: resolved_same split: option.splits sum.splits prod.splits if_splits)

lemma access_decided:
  assumes r: "output_url_access N url gateway_url w = (Inr a, w')"
  shows "decided N url gateway_url (length (ext_calls w)) a"
proof (cases "a = Blocked")
  case False
  obtain target where t: "http_origin N url = Inr target" using r by (auto simp: output_url_access_def bindE_def split: sum.splits)
  obtain scheme host port where target: "target = Some (scheme, host, port)"
    using r False by (cases target) (auto simp: output_url_access_def t)
  have meta: "\<not> is_metadata_host host" using r False by (auto simp: output_url_access_def t target split: if_splits)
  obtain g where g: "http_origin N gateway_url = Inr g"
    using r meta by (auto simp: output_url_access_def t target bindE_def split: sum.splits)
  show ?thesis
  proof (cases "g = Some (scheme, host, port)")
    case True
    then show ?thesis using r t target meta g by (auto simp: decided_def output_url_access_def metadata_service)
  next
    case other: False
    obtain origins where os: "configured_fetch_origins N = Inr origins"
      using r meta other by (auto simp: output_url_access_def t target g bindE_def split: sum.splits)
    show ?thesis
    proof (cases "(scheme, host, port) \<in> set origins \<or> host \<in> set (configured_fetch_hosts N)")
      case True
      then have "a = Allowlist" using r meta other False by (auto simp: output_url_access_def t target g os split: if_splits)
      moreover have "listed N (scheme, host, port)" using True configured_listed(1) [OF os, of "(scheme, host, port)"] configured_listed(2) [of "(scheme, host, port)" N]
        by auto
      ultimately show ?thesis using t target meta by (simp add: decided_def may_lead_to_def metadata_service)
    next
      case unlisted: False
      then have "resolved_access N host port w = (Inr a, w')"
        using r meta other False by (auto simp: output_url_access_def t target g os split: if_splits)
      from resolved_outside [OF this False] show ?thesis
        using t target meta by (simp add: decided_def may_lead_to_def metadata_service)
    qed
  qed
qed (simp add: decided_def)

section \<open>What is sent\<close>

text \<open>No header that carries a credential.\<close>

definition no_credentials :: "dict \<Rightarrow> bool" where
  "no_credentials headers \<longleftrightarrow> list_all (\<lambda>kv. lower (fst kv) \<notin>
     {''authorization'', ''cookie'', ''proxy-authorization'', ''x-api-key'', ''api-key'', ''x-auth-token''}) headers"

lemma stripped_headers: "no_credentials (headers_without_credentials headers)"
  by (auto simp: no_credentials_def headers_without_credentials_def CREDENTIAL_HEADER_NAMES_def list_all_iff)

text \<open>Every call a program sends satisfies \<open>P\<close> at its place in the order of all calls.\<close>

definition sends_at :: "(nat \<Rightarrow> ext_call \<Rightarrow> bool) \<Rightarrow> world \<Rightarrow> world \<Rightarrow> bool" where
  "sends_at P w w' \<longleftrightarrow> (\<exists>cs. ext_calls w' = ext_calls w @ cs
     \<and> list_all (\<lambda>(k, x). P k x) (enumerate (length (ext_calls w)) cs))"

interpretation st: guarantee "sends_at P" for P
proof unfold_locales
  fix s t u :: world
  show "sends_at P s s" by (simp add: sends_at_def)
  assume "sends_at P s t" and "sends_at P t u"
  then obtain cs ds where "ext_calls t = ext_calls s @ cs" "ext_calls u = ext_calls t @ ds"
    "list_all (\<lambda>(k, x). P k x) (enumerate (length (ext_calls s)) cs)"
    "list_all (\<lambda>(k, x). P k x) (enumerate (length (ext_calls t)) ds)" by (auto simp: sends_at_def)
  then have "ext_calls u = ext_calls s @ (cs @ ds)
    \<and> list_all (\<lambda>(k, x). P k x) (enumerate (length (ext_calls s)) (cs @ ds))"
    by (simp add: enumerate_append_eq)
  then show "sends_at P s u" unfolding sends_at_def by metis
qed

lemma sends_none: "sends (\<lambda>x. False) w w' \<Longrightarrow> sends_at P w w'"
  by (auto simp: sends_def sends_at_def)

lemma sends_at_sends:
  assumes "sends_at P w w'" shows "sends (\<lambda>x. \<exists>k. P k x) w w'"
proof -
  obtain cs where cs: "ext_calls w' = ext_calls w @ cs"
    "list_all (\<lambda>(k, x). P k x) (enumerate (length (ext_calls w)) cs)" using assms by (auto simp: sends_at_def)
  have "\<exists>k. P k x" if x: "x \<in> set cs" for x
  proof -
    obtain i where "i < length cs" "cs ! i = x" using x unfolding in_set_conv_nth by (elim exE conjE)
    then have "(length (ext_calls w) + i, x) \<in> set (enumerate (length (ext_calls w)) cs)"
      by (simp add: in_set_enumerate_eq)
    with cs(2) show ?thesis unfolding list_all_iff by blast
  qed
  with cs(1) show ?thesis unfolding sends_def by blast
qed

lemma sends_at_http: "P (length (ext_calls w)) (HttpRequest verb url hs body) \<Longrightarrow>
    sends_at P w (snd (http_op E verb url hs body w))"
  by (simp add: http_op_def sends_at_def Let_def)

lemma sends_at_bind:
  assumes "sends_at P w (snd (m w))" and "\<And>a w1. m w = (Inr a, w1) \<Longrightarrow> sends_at P w1 (snd (f a w1))"
  shows "sends_at P w (snd (bindE m f w))"
proof (cases "m w")
  case (Pair r w1)
  show ?thesis
  proof (cases r)
    case (Inr a)
    then show ?thesis using assms(1) assms(2) [of a w1] st.R_trans [of P w w1] Pair by (simp add: bindE_def)
  qed (use assms(1) Pair in \<open>simp add: bindE_def\<close>)
qed

lemma sends_at_catch:
  assumes "sends_at P w (snd (m w))" and "\<And>e w1. m w = (Inl e, w1) \<Longrightarrow> sends_at P w1 (snd (h e w1))"
  shows "sends_at P w (snd (catchE m h w))"
proof (cases "m w")
  case (Pair r w1)
  show ?thesis
  proof (cases r)
    case (Inl e)
    then show ?thesis using assms(1) assms(2) [of e w1] st.R_trans [of P w w1] Pair by (simp add: catchE_def)
  qed (use assms(1) Pair in \<open>simp add: catchE_def\<close>)
qed

definition allowed_fetch :: "net_env \<Rightarrow> output_call \<Rightarrow> nat \<Rightarrow> ext_call \<Rightarrow> bool" where
  "allowed_fetch N oc k x \<longleftrightarrow>
     (\<exists>url headers orig. x = HttpRequest ''GET'' url headers JNull
       \<and> http_origin N url = Inr (Some orig) \<and> \<not> metadata_service (fst (snd orig))
       \<and> (http_origin N (oc_gateway_url oc) = Inr (Some orig) \<or> no_credentials headers \<and> may_lead_to N k orig))"

lemma store_sends: "guar (sends P) (store_artifact_bytes E run_id a)"
proof -
  have "guar (sends P) (write_file root path c)" for root path c
    by (auto simp: guar_def sends_def write_file_def Let_def)
  then have w: "guar (sends P) (d_write (LocalStorageDriver E) k c h n)" for k c h n
    unfolding LocalStorageDriver_def storage_driver.simps local_write_def Let_def by (intro sn.guar_rules)
  have f: "guar (sends P) (select_artifact g)" for g by (simp add: guar_def sends_def)
  show ?thesis
    unfolding store_artifact_bytes_def find_existing_artifact_def persist_bytes_def store_events_def Let_def
    by (intro sn.guar_rules guar_intros w f)
qed

lemma fetch_allowed:
  assumes "decided N url (oc_gateway_url oc) k a" and "a \<noteq> Blocked"
  shows "allowed_fetch N oc k (HttpRequest ''GET'' url
    (if a = Gateway then oc_headers oc else headers_without_credentials (oc_headers oc)) JNull)"
  using assms unfolding decided_def allowed_fetch_def by (auto simp: stripped_headers split: if_splits)

lemma fetch_sends:
  assumes "P (length (ext_calls w)) (HttpRequest ''GET'' url hs JNull)"
  shows "sends_at P w (snd (fetch_content E N url hs w))"
  unfolding fetch_content_def
proof (rule sends_at_bind)
  fix k w1 assume "getsE (\<lambda>w. length (ext_calls w)) w = (Inr k, w1)"
  then have "w1 = w" by simp
  then show "sends_at P w1 (snd (bindE (http_op E ''GET'' url hs JNull) (\<lambda>resp.
     case resp of
       Unreachable \<Rightarrow> raiseE (NetworkError ''network error'')
     | HttpFault m \<Rightarrow> raiseE (OtherError m)
     | Response code body \<Rightarrow>
         if 200 \<le> code \<and> code \<le> 299 then returnE (content_of N k (HttpRequest ''GET'' url hs JNull))
         else raiseE (HttpStatusError code)) w1))"
    using assms by (intro sends_at_bind sends_at_http) (auto simp: st.R_refl split: http.split)
qed (simp add: st.R_refl)

lemma store_at: "sends_at P w (snd (store_artifact_bytes E run_id a w))"
  by (rule sends_none) (rule guarD [OF store_sends])

lemma persist_ref_sends: "sends_at (allowed_fetch N oc) w (snd (persist_output_ref E N oc run_id ref w))"
proof (cases "http_output_url ref")
  case (Some url)
  show ?thesis
    unfolding persist_output_ref_def Some option.case
  proof (rule sends_at_bind, goal_cases)
    case 1
    then show ?case
      using access_same [of N url "oc_gateway_url oc" w] by (simp add: prod_eq_iff st.R_refl)
  next
    case (2 a w1)
    have w1: "w1 = w" by (rule access_same [OF 2])
    have d: "decided N url (oc_gateway_url oc) (length (ext_calls w1)) a"
      unfolding w1 by (rule access_decided [OF 2])
    show ?case
    proof (cases "a = Blocked")
      case False
      show ?thesis
        unfolding if_not_P [OF False] Let_def
        by (intro sends_at_catch sends_at_bind fetch_sends fetch_allowed [OF d False] store_at) (simp_all add: st.R_refl)
    qed (simp add: st.R_refl)
  qed
qed (simp add: persist_output_ref_def st.R_refl)

lemma outputs_sends: "guar (sends_at (allowed_fetch N oc)) (persist_declared_outputs E N oc data)"
proof -
  have req: "guar (sends_at P) m \<Longrightarrow> guar (sends_at P) (request m)" for P and m :: "'a op"
    unfolding guar_def request_def sends_at_def by (auto split: prod.splits sum.splits) (metis snd_conv)+
  then show ?thesis
    unfolding persist_declared_outputs_def Let_def by (intro st.guar_rules req) (simp add: guar_def persist_ref_sends)
qed

lemma terminal_outputs_sends: "guar (sends (\<lambda>x. \<exists>k. allowed_fetch N oc k x)) (terminal_events_with_outputs E N oc final data)"
proof -
  have "guar (sends_at (allowed_fetch N oc)) (terminal_events_with_outputs E N oc final data)"
    unfolding terminal_events_with_outputs_def by (intro st.guar_rules outputs_sends)
  then show ?thesis
    using sends_at_sends by (auto simp: guar_def)
qed

end
