(* ===== verification/Engine_Runs.thy ===== *)
theory Engine_Runs
  imports Engine_Laws Output_Policy
begin

text \<open>
  How long the generator of \<open>Hermes_Engine\<close> runs and what it sends. A loop that is still running after
  \<open>n\<close> rounds has looked at the cancel event \<open>n\<close> times and found it unset; a run is submitted once at
  most, and only to a runtime that meets the contract.
\<close>

section \<open>Looking at the cancel event\<close>

definition same_looks :: "engine \<Rightarrow> engine \<Rightarrow> bool" where
  "same_looks s t \<longleftrightarrow> looks t = looks s"

interpretation lk: guarantee same_looks
  by unfold_locales (auto simp: same_looks_def)

lemma looks_prims:
  "guar same_looks (onW m)" "guar same_looks (onN n)" "guar same_looks (next_line X)"
  "guar same_looks (monotonic X)" "guar same_looks (yieldE X e)"
  by (auto simp: guar_def same_looks_def onW_def onN_def next_line_def monotonic_def yieldE_def split: prod.splits)

lemma looks_yield: "guar same_looks (yield_all X es)" "guar same_looks (yield_return X e)"
  "guar same_looks (fail_with X c m)"
  unfolding yield_all_def yield_return_def fail_with_def by (intro lk.guar_rules looks_prims)+

lemma looks_ops:
  "guar same_looks (reconcile X p rid)" "guar same_looks (stop_run X p rid)" "guar same_looks (mark_terminal p)"
  "guar same_looks (emit_ingested X d)" "guar same_looks (close_failed X)"
  "guar same_looks (events_after_status_terminal X st data saw)" "guar same_looks (ask_approval X rid v)"
  unfolding reconcile_def stop_run_def mark_terminal_def emit_ingested_def close_failed_def
    events_after_status_terminal_def ask_approval_def Let_def
  by (intro lk.guar_rules looks_prims looks_yield)+

lemmas looks_rules = lk.guar_rules looks_prims looks_yield looks_ops

text \<open>A look, and what follows it.\<close>

lemma look_round:
  assumes "bindE (cancel_is_set X) (\<lambda>b. if b then m else n) s = (Inr r, t)"
    and m: "yields P m" and n: "yields Q n" and l: "guar same_looks n"
  shows "if x_cancel X (looks s) then P r else Q r \<and> looks t = Suc (looks s)"
proof (cases "x_cancel X (looks s)")
  case True
  then have "m (s\<lparr>looks := Suc (looks s)\<rparr>) = (Inr r, t)" using assms(1) by (simp add: bindE_def cancel_is_set_def)
  then show ?thesis using True yieldsD [OF m] by simp
next
  case False
  then have "n (s\<lparr>looks := Suc (looks s)\<rparr>) = (Inr r, t)" using assms(1) by (simp add: bindE_def cancel_is_set_def)
  then show ?thesis using False yieldsD [OF n] guar_result [OF l] by (auto simp: same_looks_def)
qed

section \<open>Rounds of the loops\<close>

definition leaves_or_stays :: "bool \<Rightarrow> (bool \<times> 'a) flow \<Rightarrow> bool" where
  "leaves_or_stays leave r \<longleftrightarrow> (case r of Next (b, v) \<Rightarrow> leave \<longrightarrow> b | Returned \<Rightarrow> True | Running \<Rightarrow> False)"

lemma round_simps [simp]:
  "leaves_or_stays l (Next (True, v))" "leaves_or_stays False (Next bv)" "leaves_or_stays l Returned"
  by (simp_all add: leaves_or_stays_def split: prod.split)

lemma yields_returned: "Q Returned \<Longrightarrow> yields Q (yield_return X e)" "Q Returned \<Longrightarrow> yields Q (fail_with X c m)"
  unfolding fail_with_def yield_return_def by (intro yields_then yields_return; assumption)+

lemma yields_tick:
  "(\<And>l. yields Q (f l)) \<Longrightarrow> yields Q q \<Longrightarrow> yields Q a \<Longrightarrow> yields Q b \<Longrightarrow> (\<And>e. yields Q (g e)) \<Longrightarrow>
   yields Q (case x of Line l \<Rightarrow> f l | Quiet \<Rightarrow> q | StreamEnd \<Rightarrow> a | StreamLost \<Rightarrow> b | StreamFault e \<Rightarrow> g e)"
  by (cases x) auto

lemma yields_json:
  assumes "\<And>d. x = JObj d \<Longrightarrow> yields Q (f d)" and "yields Q m"
  shows "yields Q (case x of JObj d \<Rightarrow> f d | _ \<Rightarrow> m)"
  using assms by (cases x) auto

lemma cancelled_leaves: "yields (leaves_or_stays True) (stream_cancelled X p rid v)"
  unfolding stream_cancelled_def by (intro yields_rules yields_returned) simp_all

lemma read_stays: "yields (leaves_or_stays False) (stream_read X p rid v)"
proof -
  have "yields (leaves_or_stays False) (stream_quiet X p rid v)"
    unfolding stream_quiet_def poll_status_def Let_def by (intro yields_rules yields_returned) simp_all
  moreover have "yields (leaves_or_stays False) (stream_line X v line)" for line
    unfolding stream_line_def stream_chunk_def Let_def by (intro yields_rules yields_returned yields_json) simp_all
  ultimately show ?thesis
    unfolding stream_read_def by (intro yields_bind yields_tick yields_return yields_raise) simp_all
qed

lemma read_looks: "guar same_looks (stream_read X p rid v)"
proof -
  have "guar same_looks (stream_quiet X p rid v)"
    unfolding stream_quiet_def poll_status_def Let_def by (intro looks_rules)
  moreover have "guar same_looks (stream_line X v line)" for line
    unfolding stream_line_def stream_chunk_def Let_def
    by (intro looks_rules) (auto intro: looks_rules split: json.split)
  ultimately show ?thesis
    unfolding stream_read_def by (intro looks_rules) (auto intro: looks_rules split: tick.split)
qed

lemma stream_round_looks:
  assumes "stream_round X p rid v s = (Inr r, t)"
  shows "if x_cancel X (looks s) then leaves_or_stays True r else leaves_or_stays False r \<and> looks t = Suc (looks s)"
  using look_round [OF assms [unfolded stream_round_def] cancelled_leaves read_stays read_looks] .

text \<open>Still running after \<open>n\<close> rounds: \<open>n\<close> looks, none of which found the cancel event set.\<close>

definition uncancelled :: "engine_env \<Rightarrow> nat \<Rightarrow> nat \<Rightarrow> bool" where
  "uncancelled X k n \<longleftrightarrow> (\<forall>j<n. \<not> x_cancel X (k + j))"

lemma uncancelled_Suc: "\<not> x_cancel X k \<Longrightarrow> uncancelled X (Suc k) n \<Longrightarrow> uncancelled X k (Suc n)"
  unfolding uncancelled_def by (metis add_Suc_right add_Suc_shift add.right_neutral less_Suc_eq_0_disj)

lemma stream_loop_running:
  "stream_loop X p rid n v s = (Inr Running, t) \<Longrightarrow> uncancelled X (looks s) n"
proof (induction n arbitrary: v s)
  case (Suc n)
  from Suc.prems show ?case unfolding stream_loop.simps
  proof (cases rule: bindF_elim)
    case (step a u)
    then obtain v' where a: "a = (False, v')" and r: "stream_loop X p rid n v' u = (Inr Running, t)"
      by (cases a) (auto split: if_splits)
    show ?thesis
      using stream_round_looks [OF step(1)] Suc.IH [OF r] by (auto simp: a leaves_or_stays_def uncancelled_Suc split: if_splits)
  next
    case running
    show ?thesis using stream_round_looks [OF running(1)] by (auto simp: leaves_or_stays_def split: if_splits)
  qed simp_all
qed (simp add: uncancelled_def)

lemma yields_wait_cancelled: "yields (\<lambda>r. r = Returned) (wait_cancelled X p rid)"
  unfolding wait_cancelled_def by (intro yields_rules yields_returned refl)

lemma wait_next_looks: "guar same_looks (wait_next X c p rid saw b)" "yields (\<lambda>r. r \<noteq> Running) (wait_next X c p rid saw b)"
proof -
  have "guar same_looks (conclude_run X c p saw st data t)" for st data and t :: engine_event
    unfolding conclude_run_def by (intro looks_rules)
  then show "guar same_looks (wait_next X c p rid saw b)"
    unfolding wait_next_def by (intro looks_rules)
  have "yields (\<lambda>r. r \<noteq> Running) (conclude_run X c p saw st data t)" for st data and t :: engine_event
    unfolding conclude_run_def by (intro yields_bind yields_then yields_return) simp
  then show "yields (\<lambda>r. r \<noteq> Running) (wait_next X c p rid saw b)"
    unfolding wait_next_def by (intro yields_rules) simp_all
qed

lemma wait_round_looks:
  assumes "wait_round X c p rid saw v s = (Inr r, t)"
  shows "r = Returned \<or> r \<noteq> Running \<and> \<not> x_cancel X (looks s) \<and> looks t = Suc (looks s)"
proof -
  from assms [unfolded wait_round_def] obtain b u where 1: "ask_approval X rid v s = (Inr b, u)"
    and "thenE (yieldE X (alive_event (fst (snd v)))) (bindE (cancel_is_set X) (\<lambda>cancelled.
      if cancelled then wait_cancelled X p rid else wait_next X c p rid saw b)) u = (Inr r, t)"
    by (rule bindE_Inr)
  then obtain u' where 2: "yieldE X (alive_event (fst (snd v))) u = (Inr (), u')"
    and 3: "bindE (cancel_is_set X) (\<lambda>cancelled.
      if cancelled then wait_cancelled X p rid else wait_next X c p rid saw b) u' = (Inr r, t)"
    by (auto elim: thenE_Inr)
  have "looks u' = looks s"
    using guar_result [OF looks_ops(7) 1] guar_result [OF looks_prims(5) 2] by (simp add: same_looks_def)
  then show ?thesis
    using look_round [OF 3 yields_wait_cancelled wait_next_looks(2) wait_next_looks(1)] by (auto split: if_splits)
qed

lemma wait_loop_running:
  "wait_loop X c p rid saw n v s = (Inr Running, t) \<Longrightarrow> uncancelled X (looks s) n"
proof (induction n arbitrary: v s)
  case (Suc n)
  show ?case
  proof (cases "fst (snd v) \<notin> set ALIVE_STATUSES")
    case True
    then show ?thesis using Suc.prems by (simp add: fail_with_def yield_return_def thenE_def bindE_def yieldE_def)
  next
    case False
    then have "bindF (wait_round X c p rid saw v) (wait_loop X c p rid saw n) s = (Inr Running, t)"
      using Suc.prems by simp
    then show ?thesis
    proof (cases rule: bindF_elim)
      case (step a u)
      from wait_round_looks [OF step(1)] Suc.IH [OF step(2)] show ?thesis by (simp add: uncancelled_Suc)
    next
      case running
      from wait_round_looks [OF running(1)] show ?thesis by simp
    qed simp_all
  qed
qed (simp add: uncancelled_def)

text \<open>The whole generator.\<close>

definition busy :: "engine_env \<Rightarrow> nat \<Rightarrow> 'a flow \<Rightarrow> bool" where
  "busy X n r \<longleftrightarrow> (r = Running \<longrightarrow> (\<exists>k. uncancelled X k n))"

lemma busy_simps [simp]: "busy X n (Next a)" "busy X n Returned"
  by (simp_all add: busy_def)

lemma busy_bindF:
  assumes "yields (busy X n) m" and "\<And>a. yields (busy X n) (f a)"
  shows "yields (busy X n) (bindF m f)"
proof (rule yieldsI)
  fix s b t assume "bindF m f s = (Inr b, t)"
  then show "busy X n b"
    by (cases rule: bindF_elim) (use yieldsD [OF assms(1)] yieldsD [OF assms(2)] in \<open>auto simp: busy_def\<close>)
qed

lemma yields_http:
  "yields Q m \<Longrightarrow> (\<And>e. yields Q (f e)) \<Longrightarrow> (\<And>c b. yields Q (g c b)) \<Longrightarrow>
   yields Q (case x of Unreachable \<Rightarrow> m | HttpFault e \<Rightarrow> f e | Response c b \<Rightarrow> g c b)"
  by (cases x) auto

lemmas busy_rules = busy_bindF yields_rules yields_returned yields_http yields_json

lemma finish_busy: "yields (busy X n) (conclude_run Y c p saw st data t)"
  unfolding conclude_run_def by (intro yields_bind yields_then yields_return busy_simps)

lemma after_stream_busy: "yields (busy X n) (after_stream X n c p rid v)"
proof -
  have "yields (busy X n) (wait_loop X c p rid saw n v)" for saw v
    by (rule yieldsI) (auto simp: busy_def dest: wait_loop_running)
  then show ?thesis unfolding after_stream_def by (intro busy_rules finish_busy)
qed

lemma follow_busy: "yields (busy X n) (follow_stream X n p rid ver session profile caps)"
proof -
  have "yields (busy X n) (stream_loop X p rid n v)" for rid v
    by (rule yieldsI) (auto simp: busy_def dest: stream_loop_running)
  then show ?thesis
    unfolding follow_stream_def open_stream_def cancelled_before_stream_def Let_def by (intro busy_rules busy_simps)
qed

lemma engine_busy: "yields (busy X n) (execute_hermes_run X n c)"
proof -
  have "yields (busy X n) (check_version X p caps)" for p caps
    unfolding check_version_def probe_health_def Let_def by (intro busy_rules busy_simps)
  moreover have "yields (busy X n) (attach_tools X c p caps)" for p caps
    unfolding attach_tools_def Let_def by (intro busy_rules busy_simps)
  moreover have "yields (busy X n) (attach_files X c p payload)" for p payload
    unfolding attach_files_def stage_files_def Let_def by (intro busy_rules busy_simps)
  moreover have "yields (busy X n) (submit_and_follow X n c p caps ver payload)" for p caps ver payload
    unfolding submit_and_follow_def submit_run_def submit_answer_def bind_session_def Let_def
    by (intro busy_rules busy_simps follow_busy after_stream_busy)
  ultimately have "yields (busy X n) (drive_caught X n c p)" for p
    unfolding drive_caught_def drive_run_def probe_capabilities_def check_features_def Let_def
    by (intro busy_rules busy_simps)
  then have "yields (busy X n) (run_attempt X n c minted g)" for minted g
    unfolding run_attempt_def Let_def by (intro busy_rules busy_simps)
  then show ?thesis
    unfolding execute_hermes_run_def with_gateway_def take_lease_def check_gateway_def Let_def
    by (intro busy_rules busy_simps)
qed

section \<open>What is sent to other services\<close>

definition esends :: "(ext_call \<Rightarrow> bool) \<Rightarrow> engine \<Rightarrow> engine \<Rightarrow> bool" where
  "esends P s t \<longleftrightarrow> sends P (wd s) (wd t)"

interpretation es: guarantee "esends P" for P
  by unfold_locales (auto simp: esends_def intro: sn.R_refl sn.R_trans)

text \<open>The consumer of the events sends nothing in between.\<close>

definition silent_consumer :: "engine_env \<Rightarrow> bool" where
  "silent_consumer X \<longleftrightarrow> (\<forall>k w. ext_calls (x_between X k w) = ext_calls w)"

lemma esends_bindF:
  assumes "guar (esends P) m" and "\<And>a. guar (esends P) (f a)"
  shows "guar (esends P) (bindF m f)"
proof -
  have "guar (esends P) (case r of Next a \<Rightarrow> f a | Returned \<Rightarrow> returnE Returned | Running \<Rightarrow> returnE Running)" for r
    using assms(2) by (cases r) (auto intro: es.guar_return)
  then show ?thesis unfolding bindF_def by (intro es.guar_bind assms(1))
qed

lemma onW_sends: "guar (sends P) m \<Longrightarrow> guar (esends P) (onW m)"
  unfolding guar_def esends_def onW_def by (auto split: prod.splits) (metis snd_conv)

lemma still_sends:
  "guar (esends P) (onN n)" "guar (esends P) (next_line X)" "guar (esends P) (monotonic X)"
  "guar (esends P) (cancel_is_set X)" "guar (esends P) (modifyE (nm_update f))"
  by (auto simp: guar_def esends_def sends_def onN_def next_line_def monotonic_def cancel_is_set_def split: prod.splits)

lemma yields_send:
  assumes "silent_consumer X"
  shows "guar (esends P) (yieldE X e)" "guar (esends P) (yield_all X es)" "guar (esends P) (yield_return X e)"
    "guar (esends P) (fail_with X c m)"
proof -
  show y: "guar (esends P) (yieldE X e)" for e
    using assms by (simp add: guar_def esends_def sends_def yieldE_def silent_consumer_def)
  show "guar (esends P) (yield_all X es)" unfolding yield_all_def by (intro es.guar_rules y)
  show r: "guar (esends P) (yield_return X e)" for e unfolding yield_return_def by (intro es.guar_rules y)
  show "guar (esends P) (fail_with X c m)" unfolding fail_with_def by (rule r)
qed

text \<open>A request that submits a run, to whatever gateway.\<close>

definition submission :: "ext_call \<Rightarrow> bool" where
  "submission x \<longleftrightarrow> (\<exists>gateway headers body. x = HttpRequest ''POST'' (gateway @ ''/v1/runs'') headers body)"

abbreviation other :: "ext_call \<Rightarrow> bool" where
  "other x \<equiv> \<not> submission x"

lemma other_get [simp]: "other (HttpRequest ''GET'' url headers body)"
  by (simp add: submission_def)

lemma other_end: "last url \<noteq> CHR ''s'' \<Longrightarrow> other (HttpRequest verb url headers body)"
  unfolding submission_def by auto

lemma other_stop [simp]: "other (HttpRequest verb (url @ ''/stop'') headers body)"
  by (rule other_end) simp

lemma control_others:
  "guar (sends other) (reconcile_status E g rid hs)" "guar (sends other) (stop_runtime E g rid hs a n)"
  "guar (sends other) (fetch_credential_lease E org run att ref)"
proof -
  show "guar (sends other) (reconcile_status E g rid hs)"
    unfolding reconcile_status_def
    by (intro sn.guar_rules guar_case_http sends_http other_get)
  show "guar (sends other) (stop_runtime E g rid hs a n)"
    unfolding stop_runtime_def run_url_def
    by (intro sn.guar_rules guar_case_http sends_http binding_sends other_stop)
  show "guar (sends other) (fetch_credential_lease E org run att ref)"
    unfolding fetch_credential_lease_def by (intro sn.guar_rules sends_http other_end) simp
qed

lemma request_sends: "guar (sends P) m \<Longrightarrow> guar (sends P) (request m)"
  unfolding guar_def request_def sends_def by (auto split: prod.splits sum.splits) (metis snd_conv)+

lemma binding_others:
  "guar (sends P) (persist_runtime_binding a n b)" "guar (sends P) (mark_runtime_terminal a n)"
  unfolding persist_runtime_binding_def mark_runtime_terminal_def by (intro sn.guar_rules guar_intros binding_sends)+

lemma outputs_others: "guar (sends other) (terminal_events_with_outputs E N oc final data)"
  by (rule sends_mono [OF terminal_outputs_sends]) (auto simp: allowed_fetch_def)

lemma staging_sends: "guar (sends P) (stage_run_attachments E dir as)"
proof -
  have "guar (sends P) (write_file root path c)" for root path c
    by (auto simp: guar_def sends_def write_file_def Let_def)
  moreover have tree: "guar (sends P) (rmtree E q)" "guar (sends P) (mkdirs q)" "guar (sends P) (move_tree E q q')" for q q'
    by (auto simp: guar_def sends_def rmtree_def drop_tree_def mkdirs_def move_tree_def)
  moreover have "guar (sends P) (rmtree_ignore E q)" for q unfolding rmtree_ignore_def by (intro sn.guar_rules tree)
  ultimately show ?thesis
    unfolding stage_run_attachments_def stage_file_def publish_ref_def Let_def by (intro sn.guar_rules)
qed

lemmas others_rules = es.guar_rules still_sends yields_send onW_sends control_others binding_others request_sends
  outputs_others staging_sends

lemma guar_tick:
  "(\<And>l. guar R (f l)) \<Longrightarrow> guar R q \<Longrightarrow> guar R a \<Longrightarrow> guar R b \<Longrightarrow> (\<And>e. guar R (g e)) \<Longrightarrow>
   guar R (case x of Line l \<Rightarrow> f l | Quiet \<Rightarrow> q | StreamEnd \<Rightarrow> a | StreamLost \<Rightarrow> b | StreamFault e \<Rightarrow> g e)"
  by (cases x) auto

lemma guar_json:
  assumes "\<And>d. x = JObj d \<Longrightarrow> guar R (f d)" and "guar R m"
  shows "guar R (case x of JObj d \<Rightarrow> f d | _ \<Rightarrow> m)"
  using assms by (cases x) auto

text \<open>After the run is submitted nothing else is.\<close>

lemma runtime_others:
  "guar (esends other) (reconcile X p rid)" "guar (esends other) (stop_run X p rid)"
  "guar (esends other) (mark_terminal p)" "guar (esends other) (emit_ingested X d)"
  "guar (esends other) (persist_native_binding p rid ver session profile caps)"
  "guar (esends other) (events_after_status_terminal X st data saw)"
  unfolding reconcile_def stop_run_def mark_terminal_def emit_ingested_def persist_native_binding_def
    events_after_status_terminal_def Let_def
  by (intro es.guar_rules still_sends onW_sends control_others binding_others request_sends sn.guar_bind sn.guar_return)+

lemma stream_others:
  assumes q: "silent_consumer X"
  shows "guar (esends other) (stream_loop X p rid n v)"
proof (induction n arbitrary: v)
  case 0
  show ?case by (simp only: stream_loop.simps es.guar_return)
next
  case (Suc n)
  note y = yields_send [OF q]
  have line: "guar (esends other) (stream_line X v line)" for v line
    unfolding stream_line_def stream_chunk_def Let_def
    by (intro es.guar_rules guar_json y runtime_others)
  have quiet: "guar (esends other) (stream_quiet X p rid v)" for v
    unfolding stream_quiet_def poll_status_def Let_def by (intro es.guar_rules y still_sends runtime_others)
  have "guar (esends other) (stream_round X p rid v)" for v
    unfolding stream_round_def stream_cancelled_def stream_read_def close_failed_def
    by (intro es.guar_rules guar_tick y still_sends runtime_others line quiet)
  then show ?case
    unfolding stream_loop.simps by (intro esends_bindF es.guar_rules Suc)
qed

lemma after_stream_others:
  assumes q: "silent_consumer X"
  shows "guar (esends other) (after_stream X n c p rid v)"
proof -
  note y = yields_send [OF q]
  have finish: "guar (esends other) (conclude_run X c p saw st data t)" for saw st data and t :: engine_event
    unfolding conclude_run_def by (intro es.guar_rules y runtime_others onW_sends outputs_others)
  have cancelled: "guar (esends other) (wait_cancelled X p rid)"
    unfolding wait_cancelled_def close_failed_def by (intro es.guar_rules y runtime_others still_sends)
  have ask: "guar (esends other) (ask_approval X rid v)" for v
    unfolding ask_approval_def by (intro es.guar_rules y runtime_others)
  have loop: "guar (esends other) (wait_loop X c p rid saw n v)" for saw n v
  proof (induction n arbitrary: v)
    case (Suc n)
    show ?case
      unfolding wait_loop.simps wait_round_def wait_next_def
      by (intro esends_bindF es.guar_rules y still_sends runtime_others finish cancelled ask Suc)
  qed (simp only: wait_loop.simps es.guar_return)
  show ?thesis
    unfolding after_stream_def last_status_def by (intro es.guar_rules y runtime_others finish loop)
qed

lemma followed_others:
  assumes q: "silent_consumer X"
  shows "guar (esends other) (follow_stream X n p rid ver session profile caps)"
    and "guar (esends other) (bind_session X c p body rid)"
proof -
  note y = yields_send [OF q]
  have "guar (esends other) (open_stream X p rid)"
    unfolding open_stream_def by (intro es.guar_rules guar_case_http onW_sends sends_http other_get y)
  moreover have "guar (esends other) (cancelled_before_stream X p rid)" for rid
    unfolding cancelled_before_stream_def by (intro es.guar_rules y runtime_others)
  ultimately show "guar (esends other) (follow_stream X n p rid ver session profile caps)"
    unfolding follow_stream_def Let_def
    by (intro esends_bindF es.guar_rules y still_sends runtime_others stream_others [OF q])
  show "guar (esends other) (bind_session X c p body rid)"
    unfolding bind_session_def Let_def by (intro es.guar_rules y runtime_others)
qed

section \<open>Submission under contract\<close>

text \<open>The capabilities a gateway answered with, and what they have to meet.\<close>

definition capabilities_answered :: "engine_env \<Rightarrow> string \<Rightarrow> dict \<Rightarrow> bool" where
  "capabilities_answered X gateway caps \<longleftrightarrow>
     (\<exists>k headers code. http_answer (x_env X) k (HttpRequest ''GET'' (gateway @ ''/v1/capabilities'') headers JNull)
        = Response code (Some (JObj caps)) \<and> code < 400)"

definition version_answered :: "engine_env \<Rightarrow> string \<Rightarrow> dict \<Rightarrow> string \<Rightarrow> bool" where
  "version_answered X gateway caps version_raw \<longleftrightarrow>
     (let reported = reported_hermes_version (JObj caps) in
      if reported \<noteq> [] then version_raw = reported
      else \<exists>k headers code health. http_answer (x_env X) k (HttpRequest ''GET'' (gateway @ ''/health'') headers JNull)
             = Response code (Some health) \<and> code < 400 \<and> version_raw = reported_hermes_version health)"

definition meets_contract :: "hermes_call \<Rightarrow> dict \<Rightarrow> bool" where
  "meets_contract c caps \<longleftrightarrow>
     set (required_features c) \<subseteq> set (feature_set caps)
     \<and> resolved_topology (hc_route c) \<in> set ALLOWED_DELEGATION_TOPOLOGIES
     \<and> (resolved_topology (hc_route c) = ''runtime_delegated'' \<longrightarrow> capability_ref_ok (hc_route c) (feature_set caps))"

definition submit_request :: "prepared \<Rightarrow> dict \<Rightarrow> ext_call" where
  "submit_request p payload =
     HttpRequest ''POST'' (pp_gateway p @ ''/v1/runs'')
       (AList.update ''Idempotency-Key'' (JStr (pp_key p)) (pp_headers p)) (JObj payload)"

lemma submit_is_submission [simp]: "submission (submit_request p payload)"
  by (auto simp: submission_def submit_request_def)

text \<open>Exactly one run is submitted between two states.\<close>

definition submits :: "prepared \<Rightarrow> engine \<Rightarrow> engine \<Rightarrow> bool" where
  "submits p s t \<longleftrightarrow> (\<exists>cs payload ds. ext_calls (wd t) = ext_calls (wd s) @ cs @ [submit_request p payload] @ ds
     \<and> (\<forall>x\<in>set cs. other x) \<and> (\<forall>x\<in>set ds. other x))"

lemma submits_before:
  assumes "esends other s t" and "submits p t u" shows "submits p s u"
proof -
  obtain as where 1: "ext_calls (wd t) = ext_calls (wd s) @ as" "\<forall>x\<in>set as. other x"
    using assms(1) unfolding esends_def sends_def by blast
  obtain cs payload ds where 2: "ext_calls (wd u) = ext_calls (wd t) @ cs @ [submit_request p payload] @ ds"
    "\<forall>x\<in>set cs. other x" "\<forall>x\<in>set ds. other x"
    using assms(2) unfolding submits_def by blast
  show ?thesis
    unfolding submits_def using 1 2 by (intro exI [of _ "as @ cs"] exI [of _ payload] exI [of _ ds]) auto
qed

lemma submits_after:
  assumes "submits p s t" and "esends other t u" shows "submits p s u"
proof -
  obtain as where 1: "ext_calls (wd u) = ext_calls (wd t) @ as" "\<forall>x\<in>set as. other x"
    using assms(2) unfolding esends_def sends_def by blast
  obtain cs payload ds where 2: "ext_calls (wd t) = ext_calls (wd s) @ cs @ [submit_request p payload] @ ds"
    "\<forall>x\<in>set cs. other x" "\<forall>x\<in>set ds. other x"
    using assms(1) unfolding submits_def by blast
  show ?thesis
    unfolding submits_def using 1 2 by (intro exI [of _ cs] exI [of _ payload] exI [of _ "ds @ as"]) auto
qed

lemma submit_run_submits:
  assumes q: "silent_consumer X" and r: "submit_run X p payload s = (r, t)"
  shows "submits p s t"
proof -
  let ?x = "submit_request p payload"
  let ?u = "s\<lparr>wd := wd s\<lparr>ext_calls := ext_calls (wd s) @ [?x]\<rparr>\<rparr>"
  have post: "onW (http_op (x_env X) ''POST'' (pp_gateway p @ ''/v1/runs'')
      (AList.update ''Idempotency-Key'' (JStr (pp_key p)) (pp_headers p)) (JObj payload)) s
      = (Inr (http_answer (x_env X) (length (ext_calls (wd s))) ?x), ?u)"
    by (simp add: onW_def http_op_def submit_request_def Let_def)
  have "submits p s ?u" unfolding submits_def by (intro exI [of _ "[]"] exI [of _ payload]) simp
  moreover have "guar (esends other) (submit_answer X resp)" for resp
    unfolding submit_answer_def by (intro es.guar_rules guar_case_http yields_send [OF q])
  from guar_result [OF this] have "esends other ?u t"
    using r by (simp add: submit_run_def bindE_def [of "onW m" for m] post)
  ultimately show ?thesis by (rule submits_after)
qed

lemma submit_and_follow_submits:
  assumes q: "silent_consumer X" and r: "submit_and_follow X n c p caps ver payload s = (r, t)"
  shows "submits p s t"
proof -
  have rest: "guar (esends other) (bindF (bind_session X c p body rid) (\<lambda>session.
      bindF (follow_stream X n p rid ver session (profile_of c body) caps) (\<lambda>(rid', v). after_stream X n c p rid' v)))"
    for body rid
    by (intro esends_bindF es.guar_prod followed_others [OF q] after_stream_others [OF q])
  from r show ?thesis unfolding submit_and_follow_def
  proof (cases rule: bindF_elim)
    case (step a u)
    obtain body rid where a: "a = (body, rid)" by (cases a)
    show ?thesis
      using submits_after [OF submit_run_submits [OF q step(1)]] guar_result [OF rest step(2) [unfolded a prod.case]] by blast
  qed (use submit_run_submits [OF q] in blast)+
qed

text \<open>What a phase has established when the generator goes on.\<close>

definition only_next :: "('a \<Rightarrow> bool) \<Rightarrow> 'a flow \<Rightarrow> bool" where
  "only_next P r \<longleftrightarrow> (case r of Next a \<Rightarrow> P a | _ \<Rightarrow> True)"

lemma only_next_simps [simp]: "only_next P (Next a) \<longleftrightarrow> P a" "only_next P Returned" "only_next P Running"
  by (simp_all add: only_next_def)

lemma nextD: "yields (only_next P) m \<Longrightarrow> m s = (Inr (Next a), u) \<Longrightarrow> P a"
  using yieldsD [of "only_next P" m s "Next a" u] by simp

lemma answered_yields:
  assumes "\<And>k. yields Q (f (http_answer E k (HttpRequest verb url headers body)))"
  shows "yields Q (bindE (onW (http_op E verb url headers body)) f)"
  unfolding yields_def
proof (intro allI impI)
  fix s a t assume "bindE (onW (http_op E verb url headers body)) f s = (Inr a, t)"
  then obtain u where "f (http_answer E (length (ext_calls (wd s))) (HttpRequest verb url headers body)) u = (Inr a, t)"
    by (auto simp: bindE_def onW_def http_op_def Let_def)
  then show "Q a" by (rule yieldsD [OF assms])
qed

lemma capabilities_next: "yields (only_next (capabilities_answered X (pp_gateway p))) (probe_capabilities X p)"
  unfolding probe_capabilities_def
proof (rule answered_yields)
  fix k
  let ?resp = "http_answer (x_env X) k (HttpRequest ''GET'' (pp_gateway p @ ''/v1/capabilities'') (pp_headers p) JNull)"
  show "yields (only_next (capabilities_answered X (pp_gateway p))) (case ?resp of
       Unreachable \<Rightarrow> fail_with X ''RUNTIME_UNREACHABLE'' ''Hermes capabilities probe unreachable''
     | HttpFault m \<Rightarrow> raiseE (OtherError m)
     | Response code body \<Rightarrow>
         if code \<in> {401, 403} then fail_with X ''RUNTIME_UNAUTHORIZED'' ''Hermes capabilities probe unauthorized''
         else if code \<ge> 400 then fail_with X ''RUNTIME_CAPABILITY_MISSING'' ''Hermes capabilities probe failed''
         else case body of
           None \<Rightarrow> fail_with X ''RUNTIME_PROTOCOL_INVALID'' ''Hermes capabilities response is not JSON''
         | Some (JObj caps) \<Rightarrow> returnE (Next caps)
         | Some _ \<Rightarrow> fail_with X ''RUNTIME_PROTOCOL_INVALID'' ''Hermes capabilities response is invalid'')"
  proof (cases ?resp)
    case (Response code body)
    have "capabilities_answered X (pp_gateway p) caps" if "\<not> 400 \<le> code" "body = Some (JObj caps)" for caps
      using that Response unfolding capabilities_answered_def by (intro exI [of _ k] exI [of _ "pp_headers p"] exI [of _ code]) simp
    then show ?thesis
      unfolding Response http.case by (intro yields_rules yields_json yields_returned) simp_all
  qed (auto intro!: yields_returned yields_raise)
qed

lemma version_next:
  "yields (only_next (\<lambda>ver. version_answered X (pp_gateway p) caps ver \<and> version_supported (x_digits X) ver))
     (check_version X p caps)"
proof -
  have health: "yields (only_next (version_answered X (pp_gateway p) caps)) (probe_health X p)"
    if none: "reported_hermes_version (JObj caps) = []"
    unfolding probe_health_def
  proof (rule answered_yields)
    fix k
    let ?resp = "http_answer (x_env X) k (HttpRequest ''GET'' (pp_gateway p @ ''/health'') (pp_headers p) JNull)"
    show "yields (only_next (version_answered X (pp_gateway p) caps)) (case ?resp of
         Unreachable \<Rightarrow> fail_with X ''RUNTIME_UNREACHABLE'' ''Hermes health version probe unreachable''
       | HttpFault m \<Rightarrow> raiseE (OtherError m)
       | Response code body \<Rightarrow>
           if code \<in> {401, 403} then fail_with X ''RUNTIME_UNAUTHORIZED'' ''Hermes health version probe unauthorized''
           else if code \<ge> 400 then fail_with X ''RUNTIME_VERSION_UNSUPPORTED'' ''Hermes health version probe failed''
           else case body of
             None \<Rightarrow> fail_with X ''RUNTIME_PROTOCOL_INVALID'' ''Hermes health response is not JSON''
           | Some health \<Rightarrow> returnE (Next (reported_hermes_version health)))"
    proof (cases ?resp)
      case (Response code body)
      have "version_answered X (pp_gateway p) caps (reported_hermes_version health)"
        if "\<not> 400 \<le> code" "body = Some health" for health
        using that Response none unfolding version_answered_def Let_def by force
      then show ?thesis
        unfolding Response http.case by (intro yields_rules yields_returned) simp_all
    qed (auto intro!: yields_returned yields_raise)
  qed
  have "yields (only_next (version_answered X (pp_gateway p) caps))
      (if reported_hermes_version (JObj caps) = [] then probe_health X p
       else returnE (Next (reported_hermes_version (JObj caps))))"
    by (intro yields_if health yields_return) (simp_all add: version_answered_def)
  then show ?thesis
    unfolding check_version_def Let_def
    by (intro yieldsI, elim bindF_elim)
      (auto dest!: nextD simp: only_next_def fail_with_def yield_return_def thenE_def bindE_def yieldE_def
        split: if_splits flow.splits)
qed

lemma features_next:
  "pp_required p = required_features c \<Longrightarrow> yields (only_next (\<lambda>_. meets_contract c caps)) (check_features X c p caps)"
  unfolding check_features_def Let_def
  by (intro yields_if yields_returned yields_return) (auto simp: meets_contract_def)

lemma staged_next:
  assumes "js \<noteq> []" shows "yields (only_next (\<lambda>_. False)) (stage_files X p payload dir js)"
proof (rule yieldsI)
  fix s a t assume r: "stage_files X p payload dir js s = (Inr a, t)"
  obtain e w where f: "stage_run_attachments (x_env X) dir (List.map json_attachment js) (wd s) = (Inl e, w)"
    using json_attachments_fail [OF assms] by blast
  have "catchE (bindE (onW (stage_run_attachments (x_env X) dir (List.map json_attachment js)))
      (\<lambda>paths. returnE (Some paths))) (\<lambda>exc. returnE None) s = (Inr None, s\<lparr>wd := w\<rparr>)"
    by (simp add: catchE_def bindE_def onW_def f)
  then have "yield_return X (error_event ''Attachment workspace write failed'') (s\<lparr>wd := w\<rparr>) = (Inr a, t)"
    using r by (simp add: stage_files_def bindE_def [of "catchE m h" for m h])
  then show "only_next (\<lambda>_. False) a" by (auto simp: yield_return_def thenE_def bindE_def yieldE_def)
qed

lemma files_next:
  "yields (only_next (\<lambda>_. hc_tool_name c \<noteq> ''remote_agent'' \<or> attachment_descriptors (hc_route c) = Inr []))
     (attach_files X c p payload)"
proof -
  have no: "yields (only_next Q) (stage_files X p payload dir js)" if ne: "js \<noteq> []" for Q dir js
    using staged_next [OF ne, of X p payload dir] by (auto simp: yields_def only_next_def split: flow.splits)
  show ?thesis
  proof (cases "attachment_descriptors (hc_route c)")
    case (Inl e)
    then show ?thesis by (simp add: yields_def attach_files_def bindE_def)
  next
    case (Inr ds)
    then show ?thesis
      unfolding attach_files_def Let_def
      by (intro yields_bindQ [of "\<lambda>x. x = ds"] yields_if yields_return yields_bind yields_option yields_returned no)
        (auto simp: yields_def)
  qed
qed

text \<open>Nothing is submitted before the run is.\<close>

lemma get_others: "guar (esends other) (onW (http_op E ''GET'' url hs body))"
  by (intro onW_sends sends_http other_get)

lemma contract_others:
  assumes q: "silent_consumer X"
  shows "guar (esends other) (probe_capabilities X p)" "guar (esends other) (check_version X p caps)"
    "guar (esends other) (check_features X c p caps)" "guar (esends other) (attach_tools X c p caps)"
    "guar (esends other) (attach_files X c p payload)" "guar (esends other) (take_lease X c)"
    "guar (esends other) (check_gateway X g)"
proof -
  note y = yields_send [OF q]
  note get = get_others
  show "guar (esends other) (probe_capabilities X p)"
    unfolding probe_capabilities_def by (intro es.guar_rules guar_case_http guar_json y get)
  have "guar (esends other) (probe_health X p)"
    unfolding probe_health_def by (intro es.guar_rules guar_case_http y get)
  then show "guar (esends other) (check_version X p caps)"
    unfolding check_version_def Let_def by (intro esends_bindF es.guar_rules y)
  show "guar (esends other) (check_features X c p caps)"
    unfolding check_features_def Let_def by (intro es.guar_rules y)
  show "guar (esends other) (attach_tools X c p caps)"
    unfolding attach_tools_def mint_attempt_token_def Let_def by (intro es.guar_rules y onW_sends sn.guar_rules)
  show "guar (esends other) (attach_files X c p payload)"
    unfolding attach_files_def stage_files_def Let_def by (intro es.guar_rules y onW_sends sn.guar_gets staging_sends)
  show "guar (esends other) (take_lease X c)"
    unfolding take_lease_def Let_def by (intro es.guar_rules guar_json y onW_sends control_others)
  show "guar (esends other) (check_gateway X g)"
    unfolding check_gateway_def probe_gateway_url_def by (intro es.guar_rules guar_case_http y get)
qed

definition under_contract :: "engine_env \<Rightarrow> hermes_call \<Rightarrow> string \<Rightarrow> bool" where
  "under_contract X c gateway \<longleftrightarrow>
     (\<exists>caps version_raw. capabilities_answered X gateway caps \<and> version_answered X gateway caps version_raw
        \<and> version_supported (x_digits X) version_raw \<and> meets_contract c caps)
     \<and> (hc_tool_name c \<noteq> ''remote_agent'' \<or> attachment_descriptors (hc_route c) = Inr [])"

text \<open>At most one submission, and that under contract.\<close>

definition submits_well :: "engine_env \<Rightarrow> hermes_call \<Rightarrow> prepared \<Rightarrow> engine \<Rightarrow> engine \<Rightarrow> bool" where
  "submits_well X c p s t \<longleftrightarrow> esends other s t \<or> submits p s t \<and> under_contract X c (pp_gateway p)"

lemma well_before: "esends other s t \<Longrightarrow> submits_well X c p t u \<Longrightarrow> submits_well X c p s u"
  unfolding submits_well_def using submits_before es.R_trans by blast

lemma well_after: "submits_well X c p s t \<Longrightarrow> esends other t u \<Longrightarrow> submits_well X c p s u"
  unfolding submits_well_def using submits_after es.R_trans by blast

lemma well_step:
  assumes r: "bindF m f s = (r, t)" and m: "guar (esends other) m"
    and f: "\<And>a u. m s = (Inr (Next a), u) \<Longrightarrow> f a u = (r, t) \<Longrightarrow> submits_well X c p u t"
  shows "submits_well X c p s t"
  using r
proof (cases rule: bindF_elim)
  case (step a u)
  show ?thesis by (rule well_before [OF guar_result [OF m step(1)] f [OF step]])
qed (use guar_result [OF m] in \<open>auto simp: submits_well_def\<close>)

lemma drive_submits:
  assumes q: "silent_consumer X" and req: "pp_required p = required_features c"
    and r: "drive_run X n c p s = (r, t)"
  shows "submits_well X c p s t"
  using r unfolding drive_run_def
proof (elim well_step [OF _ contract_others(1) [OF q]], goal_cases)
  case (1 caps u1)
  note caps = nextD [OF capabilities_next 1(1)]
  from 1(2) show ?case
  proof (elim well_step [OF _ contract_others(2) [OF q]], goal_cases)
    case (1 ver u2)
    note ver = nextD [OF version_next 1(1)]
    from 1(2) show ?case
    proof (elim well_step [OF _ contract_others(3) [OF q]], goal_cases)
      case (1 x u3)
      note met = nextD [OF features_next [OF req] 1(1)]
      from 1(2) show ?case
      proof (elim well_step [OF _ contract_others(4) [OF q]], goal_cases)
        case (1 payload u4)
        from 1(2) show ?case
        proof (elim well_step [OF _ contract_others(5) [OF q]], goal_cases)
          case (1 payload' u5)
          have "under_contract X c (pp_gateway p)"
            unfolding under_contract_def using caps ver met nextD [OF files_next 1(1)] by blast
          then show ?case unfolding submits_well_def using submit_and_follow_submits [OF q 1(2)] by blast
        qed
      qed
    qed
  qed
qed

text \<open>The whole generator.\<close>

definition submits_for :: "engine_env \<Rightarrow> hermes_call \<Rightarrow> engine \<Rightarrow> engine \<Rightarrow> bool" where
  "submits_for X c s t \<longleftrightarrow> (\<exists>minted gateway generation.
     submits_well X c (prepare_run c minted gateway generation) s t)"

lemma caught_submits:
  assumes q: "silent_consumer X" and r: "drive_caught X n c (prepare_run c minted g gen) s = (r, t)"
  shows "submits_for X c s t"
proof -
  let ?p = "prepare_run c minted g gen"
  have req: "pp_required ?p = required_features c" by (simp add: prepare_run_def Let_def)
  obtain q' u where d: "drive_run X n c ?p s = (q', u)" by fastforce
  note w = drive_submits [OF q req d]
  have h: "guar (esends other) (if exc = CancelledError then raiseE exc
      else fail_with X ''RUNTIME_START_FAILED'' ''Hermes native run failed'')" for exc
    by (intro es.guar_rules yields_send [OF q])
  have "submits_well X c ?p s t"
  proof (cases q')
    case (Inl e)
    then have "(if e = CancelledError then raiseE e
      else fail_with X ''RUNTIME_START_FAILED'' ''Hermes native run failed'') u = (r, t)"
      using r d by (simp add: drive_caught_def catchE_def)
    from guar_result [OF h this] show ?thesis by (rule well_after [OF w])
  next
    case (Inr a)
    then show ?thesis using r d w by (simp add: drive_caught_def catchE_def)
  qed
  then show ?thesis unfolding submits_for_def by blast
qed

definition submitting :: "engine_env \<Rightarrow> hermes_call \<Rightarrow> 'a flow eng \<Rightarrow> bool" where
  "submitting X c m \<longleftrightarrow> (\<forall>s. submits_for X c s (snd (m s)))"

lemma submittingI: "(\<And>s r t. m s = (r, t) \<Longrightarrow> submits_for X c s t) \<Longrightarrow> submitting X c m"
  unfolding submitting_def by (metis prod.collapse)

lemma submittingD: "submitting X c m \<Longrightarrow> m s = (r, t) \<Longrightarrow> submits_for X c s t"
  unfolding submitting_def by (metis snd_conv)

lemma for_before: "esends other s t \<Longrightarrow> submits_for X c t u \<Longrightarrow> submits_for X c s u"
  unfolding submits_for_def using well_before by blast

lemma submitting_guar: "guar (esends other) m \<Longrightarrow> submitting X c m"
  by (rule submittingI) (auto simp: submits_for_def submits_well_def dest: guar_result)

lemma submitting_bind:
  assumes "guar (esends other) m" and "\<And>a. submitting X c (f a)"
  shows "submitting X c (bindE m f)"
proof (rule submittingI)
  fix s r t assume "bindE m f s = (r, t)"
  then show "submits_for X c s t"
  proof (cases rule: bindE_elim)
    case (step a u)
    show ?thesis by (rule for_before [OF guar_result [OF assms(1) step(1)] submittingD [OF assms(2) step(2)]])
  next
    case (raised e)
    then show ?thesis using guar_result [OF assms(1)] by (auto simp: submits_for_def submits_well_def)
  qed
qed

lemma submitting_then: "guar (esends other) m \<Longrightarrow> submitting X c k \<Longrightarrow> submitting X c (thenE m k)"
  unfolding thenE_def by (rule submitting_bind)

lemma submitting_bindF:
  assumes "guar (esends other) m" and "\<And>a. submitting X c (f a)"
  shows "submitting X c (bindF m f)"
proof -
  have "submitting X c (case q of Next a \<Rightarrow> f a | Returned \<Rightarrow> returnE Returned | Running \<Rightarrow> returnE Running)" for q
    using assms(2) by (cases q) (auto intro: submitting_guar es.guar_return simp del: returnE_run)
  then show ?thesis unfolding bindF_def by (rule submitting_bind [OF assms(1)])
qed

lemma submitting_if: "submitting X c m \<Longrightarrow> submitting X c n \<Longrightarrow> submitting X c (if b then m else n)"
  by simp

lemmas submitting_rules = submitting_if submitting_bind submitting_then submitting_bindF

lemma engine_submits:
  assumes q: "silent_consumer X"
  shows "submitting X c (execute_hermes_run X n c)"
proof -
  note y = yields_send [OF q]
  have drive: "submitting X c (drive_caught X n c (prepare_run c minted g gen))" for minted g gen
    by (rule submittingI) (rule caught_submits [OF q])
  have gen: "guar (esends other) (onW (load_attempt_generation a))" for a
    unfolding load_attempt_generation_def by (intro onW_sends sn.guar_bind sn.guar_return binding_sends)
  have nm: "guar (esends other) (modifyE (\<lambda>s. s\<lparr>nm := x\<rparr>))" for x
    by (simp add: guar_def esends_def sends_def)
  have attempt: "submitting X c (run_attempt X n c minted g)" for minted g
    unfolding run_attempt_def Let_def
    by (intro submitting_if submitting_guar [OF y(4)] submitting_bind [OF gen] submitting_then [OF nm]
        submitting_then [OF y(1)] drive)
  show ?thesis
    unfolding execute_hermes_run_def with_gateway_def
    by (intro submitting_then [OF y(1)] submitting_bind [OF still_sends(4)] submitting_if submitting_guar [OF y(3)]
        submitting_bindF [OF contract_others(6) [OF q]] submitting_bind [OF es.guar_lift]
        submitting_bindF [OF contract_others(7) [OF q]] attempt)
qed

end
