(* ===== verification/Connector_Laws.thy ===== *)
theory Connector_Laws
  imports Connector_Router Engine_Runs
begin

text \<open>
  What the connectors of \<open>Connector_Router\<close> send, and how a run behind the engine port ends: every request
  goes to a checked address, every statement only reads, and the events end with the one terminal event
  unless an exception does.
\<close>

section \<open>Targets\<close>

text \<open>The first address a URL had when it was checked.\<close>

definition checked_address :: "connector_env \<Rightarrow> json list option \<Rightarrow> string \<Rightarrow> string \<Rightarrow> bool" where
  "checked_address C edge_allowlist url a \<longleftrightarrow>
     (\<exists>k addresses. validated C edge_allowlist k url = Inr addresses \<and> a = hd addresses)"

lemma any_address_none: "any_address p addresses = Inr False \<Longrightarrow> a \<in> set addresses \<Longrightarrow> \<exists>i. ip_address a = Some i \<and> \<not> p i"
  by (induction addresses) (auto split: option.splits if_splits)

lemma any_address_some: "any_address p addresses = Inr True \<Longrightarrow> \<exists>a\<in>set addresses. \<exists>i. ip_address a = Some i \<and> p i"
  by (induction addresses) (auto split: option.splits if_splits)

lemma resolve_nonempty: "resolve_target C k u host = Inr addresses \<Longrightarrow> addresses \<noteq> []"
  by (auto simp: resolve_target_def split: option.splits sum.splits exn.splits if_splits)

lemma validated_elim:
  assumes "validated C edge_allowlist k url = Inr addresses"
  obtains u host where "urlparse (cx_urls C) url = Inr u" and "host = str_or (url_hostname u) []" and "host \<noteq> []"
    and "u_scheme u \<in> {''http'', ''https''}" and "\<not> blocked_host (rstrip_dot (lower host))"
    and "resolve_target C k u host = Inr addresses" and "addresses \<noteq> []"
    and "check_addresses C edge_allowlist u (rstrip_dot (lower host)) addresses = Inr addresses"
proof -
  obtain u where u: "urlparse (cx_urls C) url = Inr u"
    using assms by (auto simp: validated_def split: sum.splits)
  let ?host = "str_or (url_hostname u) []"
  have c: "u_scheme u \<in> {''http'', ''https''}" "?host \<noteq> []" "\<not> blocked_host (rstrip_dot (lower ?host))"
    using assms by (auto simp: validated_def u Let_def split: if_splits)
  obtain as where as: "resolve_target C k u ?host = Inr as"
    and ch: "check_addresses C edge_allowlist u (rstrip_dot (lower ?host)) as = Inr addresses"
    using assms c by (auto simp: validated_def u Let_def split: sum.splits)
  then have "as = addresses"
    by (auto simp: check_addresses_def split: option.splits sum.splits if_splits)
  with as ch show ?thesis by (intro that [OF u refl c(2,1,3)] resolve_nonempty) auto
qed

lemma central_address:
  assumes "checked_address C None url a"
  shows "\<exists>i. ip_address a = Some i \<and> \<not> is_forbidden_ip i"
proof -
  obtain k addresses where v: "validated C None k url = Inr addresses" and a: "a = hd addresses"
    using assms by (auto simp: checked_address_def)
  from v obtain u low where "addresses \<noteq> []" and "check_addresses C None u low addresses = Inr addresses"
    by (rule validated_elim)
  then have "any_address is_forbidden_ip addresses = Inr False"
    by (auto simp: check_addresses_def split: sum.splits if_splits)
  from any_address_none [OF this, of a] \<open>addresses \<noteq> []\<close> show ?thesis by (simp add: a)
qed

section \<open>What is sent\<close>

definition reading_statement :: "text_env \<Rightarrow> string \<Rightarrow> bool" where
  "reading_statement T sql \<longleftrightarrow> sql = READ_ONLY_STATEMENT \<or> sql = TIMEOUT_STATEMENT \<or> read_only_sql T sql"

fun allowed_call :: "connector_env \<Rightarrow> json list option \<Rightarrow> ext_call \<Rightarrow> bool" where
  "allowed_call C edge_allowlist (Wire a m url hs b) \<longleftrightarrow> checked_address C edge_allowlist url a"
| "allowed_call C edge_allowlist (Query d sql ps) \<longleftrightarrow> reading_statement (cx_urls C) sql"
| "allowed_call C edge_allowlist _ \<longleftrightarrow> False"

lemma sends_call: "P x \<Longrightarrow> guar (sends P) (ext_call x)"
  by (auto simp: guar_def sends_def ext_call_def)

lemma handle_request_sends: "guar (sends (allowed_call C al)) (handle_request C al q)"
proof -
  have v: "yields (\<lambda>addresses. \<exists>k. validated C al k (rq_url q) = Inr addresses) (validate_ssrf C al (rq_url q))"
    by (auto simp: yields_def validate_ssrf_def)
  have g: "guar (sends P) (validate_ssrf C al url)" for P url
    by (simp add: guar_def validate_ssrf_def sends_def)
  show ?thesis
    unfolding handle_request_def Let_def
    by (intro sn.guar_bindQ [OF g v] sn.guar_rules sends_call) (auto simp: checked_address_def)
qed

lemma client_sends: "guar (sends (allowed_call C al)) (client_request C al n q)"
proof (induction n arbitrary: q)
  case 0
  then show ?case by (simp only: client_request.simps sn.guar_raise)
next
  case (Suc n)
  then show ?case by (simp, intro sn.guar_rules handle_request_sends) auto
qed

lemma raced_sends:
  assumes "guar (sends P) m" shows "guar (esends P) (raced C m)"
proof -
  have "esends P s (snd (raced C m s))" for s
  proof -
    obtain r w where m: "m (wd s) = (r, w)" by fastforce
    obtain cs where cs: "ext_calls w = ext_calls (wd s) @ cs" "\<forall>x\<in>set cs. P x"
      using guar_result [OF assms m] by (auto simp: sends_def list_all_iff)
    have "\<forall>x\<in>set (take n cs). P x" for n using cs(2) by (auto dest: in_set_takeD)
    then show ?thesis
      by (auto simp: raced_def m esends_def sends_def cut_calls_def cs list_all_iff split: option.splits)
  qed
  then show ?thesis by (simp add: guar_def)
qed

lemma cancel_sends: "guar (esends P) (raise_if_cancelled X)"
  unfolding raise_if_cancelled_def by (intro es.guar_rules still_sends)

lemma await_sends: "guar (sends P) m \<Longrightarrow> guar (esends P) (await_cancellable X C m)"
  unfolding await_cancellable_def by (intro es.guar_rules cancel_sends raced_sends)

lemma validate_sends: "guar (esends P) (onW (validate_ssrf C al url))"
  by (rule onW_sends) (simp add: guar_def validate_ssrf_def sends_def)

lemma exchange_sends: "guar (esends (allowed_call C al)) (checked_exchange X C al q)"
  unfolding checked_exchange_def
  by (intro es.guar_rules await_sends sn.guar_bind sn.guar_lift client_sends cancel_sends validate_sends)

lemma execute_sends:
  "reading_statement (cx_urls C) sql \<Longrightarrow> guar (sends (allowed_call C al)) (db_execute C db_url sql ps)"
  unfolding db_execute_def by (intro sn.guar_rules sends_call) simp

lemma kind_sends:
  assumes q: "silent_consumer X"
  shows "guar (esends (allowed_call C al)) (run_kind X C al c config)"
proof -
  note y = yields_send [OF q]
  have db: "guar (esends (allowed_call C al)) (run_db X C config arguments)" for arguments
  proof -
    have checked: "guar (esends P) (thenE (liftE (validate_read_only_sql T sql)) n)"
      if "read_only_sql T sql \<Longrightarrow> guar (esends P) n" for P T sql and n :: "unit eng"
      using that es.guar_raise by (cases "read_only_sql T sql")
        (auto simp: validate_read_only_sql_def thenE_def bindE_def liftE_def guar_def es.R_refl)
    show ?thesis
      unfolding run_db_def Let_def
      by (intro es.guar_if es.guar_raise checked, intro es.guar_rules await_sends execute_sends cancel_sends y)
        (simp_all add: reading_statement_def)
  qed
  show ?thesis
    unfolding run_kind_def run_rest_def run_mcp_def Let_def
    by (intro es.guar_rules exchange_sends validate_sends y db)
qed

text \<open>The allow list a run is held to.\<close>

lemma connector_sends:
  assumes q: "silent_consumer X" and al: "edge_allowlist_of (hc_route c) = Inr al"
  shows "guar (esends (allowed_call C al)) (execute_connector_run X C c)"
proof -
  have "bindE (liftE (Inr a)) f = f a" for a and f :: "json list option \<Rightarrow> unit eng"
    by (simp add: bindE_def liftE_def fun_eq_iff)
  then show ?thesis
    unfolding execute_connector_run_def al
    by (simp only:) (intro es.guar_rules cancel_sends yields_send [OF q] kind_sends [OF q])
qed

section \<open>How a run ends\<close>

lemma then_assoc:
  "thenE (bindE m f) n = bindE m (\<lambda>a. thenE (f a) n)" "thenE (thenE m n) k = thenE m (thenE n k)"
  by (auto simp: thenE_def bindE_def fun_eq_iff split: prod.splits sum.splits)

lemma then_raise: "thenE (raiseE e) n = raiseE e"
  by (auto simp: thenE_def bindE_def fun_eq_iff)

lemma completed_ended: "phased spoke ended (thenE (yieldE X (completed_event s t)) (returnE Returned))"
  using yield_return_ended [of "completed_event s t" X]
  by (simp add: yield_return_def completed_event_def plain_event_def TERMINAL_EVENTS_def)

lemma cancel_spoke: "guar spoke (raise_if_cancelled X)"
  unfolding raise_if_cancelled_def by (intro talk.guar_rules asked_spoke)

lemma await_spoke: "guar spoke (await_cancellable X C m)"
proof -
  have "guar spoke (raced C m)" by (rule silent_spoke) (auto simp: raced_def split: prod.splits option.splits)
  then show ?thesis unfolding await_cancellable_def by (intro talk.guar_rules cancel_spoke)
qed

lemma exchange_spoke: "guar spoke (checked_exchange X C al q)"
  unfolding checked_exchange_def by (intro talk.guar_rules await_spoke cancel_spoke onW_spoke)

lemma then_if: "thenE (if b then m else n) k = (if b then thenE m k else thenE n k)"
  by simp

lemma then_case_option:
  "thenE (case x of None \<Rightarrow> m | Some a \<Rightarrow> f a) k = (case x of None \<Rightarrow> thenE m k | Some a \<Rightarrow> thenE (f a) k)"
  by (cases x) auto

lemma kind_ended: "phased spoke ended (thenE (run_kind X C al c config) (returnE Returned))"
proof -
  have "phased spoke ended (thenE (run_rest X C al config arguments) (returnE Returned))" for arguments
    unfolding run_rest_def Let_def then_if then_assoc then_raise
    by (intro talk.ph_rules talk.guar_lift onW_spoke exchange_spoke completed_ended)
  moreover have "phased spoke ended (thenE (run_mcp X C al config tool arguments) (returnE Returned))" for tool arguments
    unfolding run_mcp_def Let_def then_if then_assoc then_raise then_case_option
    by (intro talk.ph_rules talk.guar_lift onW_spoke exchange_spoke completed_ended)
  moreover have "phased spoke ended (thenE (run_db X C config arguments) (returnE Returned))" for arguments
    unfolding run_db_def Let_def then_if then_assoc then_raise
    by (intro talk.ph_rules talk.guar_lift await_spoke cancel_spoke completed_ended)
  ultimately show ?thesis
    unfolding run_kind_def Let_def then_if then_raise by (intro talk.ph_if talk.ph_raise) auto
qed

lemma connector_ended: "phased spoke ended (thenE (execute_connector_run X C c) (returnE Returned))"
proof -
  have "guar spoke (yieldE X (connector_progress kind))" for kind
    by (rule yield_spoke) (simp add: connector_progress_def plain_event_def TERMINAL_EVENTS_def)
  then show ?thesis
    unfolding execute_connector_run_def then_assoc
    by (intro talk.ph_rules talk.guar_lift cancel_spoke kind_ended)
qed

lemma port_ended: "phased spoke ended (execute_engine X C fuel name c)"
  unfolding execute_engine_def Let_def
  by (intro talk.ph_if engine_ended connector_ended fail_ended)

end
