(* ===== verification/Native_Props.thy ===== *)
theory Native_Props
  imports Native_Laws Key_Names
begin

text \<open>
  The properties of the runtime event normaliser (\<open>services/native_event_normalizer.py\<close>): which of
  its events the schema accepts, what becomes of a result that is too long, that closing it ends
  everything it has opened, and the theorems about whole sequences of calls.
\<close>

section \<open>Events against the schema\<close>

definition arguments_ok :: "string \<times> json \<Rightarrow> bool" where
  "arguments_ok kv \<longleftrightarrow> (fst kv = ''arguments'' \<longrightarrow> snd kv = JNull \<or> is_dict (snd kv))"

lemma cut_item_scalar [simp]:
  "cut_item out JNull = JNull" "cut_item out (JBool b) = JBool b"
  by (simp_all add: cut_item_def)

lemma shrink_dict: "is_dict (shrink_to_utf8_limit (JObj d))"
  by (simp add: shrink_to_utf8_limit.simps [of "JObj d"])

lemma cut_item_arguments: "arguments_ok (k, v) \<Longrightarrow> arguments_ok (k, cut_item out v)"
  by (cases v) (auto simp: arguments_ok_def cut_item_def shrink_dict)

lemma shrink_arguments: "list_all arguments_ok r \<Longrightarrow> list_all arguments_ok (shrink_entries r)"
proof (induction r)
  case (Cons kv r)
  then show ?case using cut_item_arguments [of "fst kv" "snd kv"] by (simp add: shrink_entries_step Let_def)
qed (simp add: shrink_entries.simps)

lemma cut_arguments:
  assumes "list_all arguments_ok p" shows "list_all arguments_ok (cut_dict (cut_rest p))"
proof -
  have "arguments_ok (k, clipped 2 v)" if "arguments_ok (k, v)" for k v
    using that by (cases v) (auto simp: arguments_ok_def MAX_TOOL_EVENT_JSON_DEPTH_def)
  then have "list_all arguments_ok (cut_rest p)" using assms by (auto simp: cut_rest_def list_all_iff)
  then show ?thesis using shrink_arguments [of "rev (cut_rest p)"] by (simp add: cut_dict_def)
qed

text \<open>The arguments a started call shows are a dict or missing.\<close>

lemma started_rest:
  "yields (\<lambda>q. \<exists>a f g. (a = JNull \<or> is_dict a) \<and> fit_public_payload
      (call_head nm i ''started'' @ [(''arguments'', a), (''redacted'', jflag (redacted f)), (''truncated'', jflag (truncated f))]) f
      = (Inr q, g)) (started_tool_payload N nm i p)"
proof -
  have args: "yields (\<lambda>v. v = JNull \<or> is_dict v) (case a of
        Some raw \<Rightarrow> bindE (sanitize_node (texts_of N) 2 (JObj raw)) (\<lambda>cleaned.
          thenE (whenE (\<not> is_dict cleaned) mark_truncated) (returnE (if is_dict cleaned then cleaned else JNull)))
      | None \<Rightarrow> if b then bindE (sanitize_preview (texts_of N) t) (\<lambda>p. returnE (JObj [(''preview'', JStr p)]))
          else returnE JNull)" for a b t
    by (intro yields_option yields_if yields_bind yields_then yields_return) auto
  have fit: "yields (\<lambda>q. \<exists>a f g. (a = JNull \<or> is_dict a) \<and> fit_public_payload
      (call_head nm i ''started'' @ [(''arguments'', a), (''redacted'', jflag (redacted f)), (''truncated'', jflag (truncated f))]) f
      = (Inr q, g)) (bindE (getsE id) (\<lambda>f. fit_public_payload
        [(''tool_name'', JStr nm), (''call_id'', JStr i), (''status'', JStr ''started''),
         (''arguments'', v), (''redacted'', jflag (redacted f)), (''truncated'', jflag (truncated f))]))"
    if v: "v = JNull \<or> is_dict v" for v
  proof (rule yieldsI)
    fix f q g assume "bindE (getsE id) (\<lambda>f. fit_public_payload
        [(''tool_name'', JStr nm), (''call_id'', JStr i), (''status'', JStr ''started''),
         (''arguments'', v), (''redacted'', jflag (redacted f)), (''truncated'', jflag (truncated f))]) f = (Inr q, g)"
    then have "fit_public_payload (call_head nm i ''started'' @
        [(''arguments'', v), (''redacted'', jflag (redacted f)), (''truncated'', jflag (truncated f))]) f = (Inr q, g)"
      by (simp add: bindE_def call_head_def)
    with v show "\<exists>a f g. (a = JNull \<or> is_dict a) \<and> fit_public_payload
      (call_head nm i ''started'' @ [(''arguments'', a), (''redacted'', jflag (redacted f)), (''truncated'', jflag (truncated f))]) f
      = (Inr q, g)" by blast
  qed
  show ?thesis
    unfolding started_tool_payload_def Let_def by (rule yields_then, rule yields_bindQ [OF args], rule fit)
qed

lemma call_schema:
  "map_of semantic_schema ''tool.call'' = Some
     [(''tool_name'', Required, nonempty_str), (''call_id'', Required, nonempty_str),
      (''status'', Required, one_of TOOL_CALL_STATUSES), (''arguments'', Nullable, is_dict),
      (''redacted'', Optional, is_bool), (''truncated'', Optional, is_bool)]"
  by (simp add: semantic_schema_def)

lemma head_other: "k \<notin> {''tool_name'', ''call_id'', ''status''} \<Longrightarrow> dget (call_head nm i st @ s) k = dget s k"
  by (auto simp: call_head_def)

lemma dget_member: "has_key d k \<Longrightarrow> (k, dget d k) \<in> set d"
  by (auto simp: has_key_def dget_def dest: map_of_SomeD split: option.splits)

lemma arguments_of: "list_all arguments_ok s \<Longrightarrow> dget s ''arguments'' = JNull \<or> is_dict (dget s ''arguments'')"
proof (cases "has_key s ''arguments''")
  case True
  assume "list_all arguments_ok s"
  then show ?thesis using dget_member [OF True] by (auto simp: list_all_iff arguments_ok_def)
qed (simp add: has_key_def dget_def)

lemma started_conforms:
  assumes short: "short_head nm i ''started''" and names: "nm \<noteq> []" "i \<noteq> []"
    and p: "started_tool_payload N nm i p no_flags = (Inr q, g)"
  shows "conforms ''tool.call'' q \<and> (\<exists>s. q = call_head nm i ''started'' @ s)"
proof -
  obtain a f h where a: "a = JNull \<or> is_dict a" and fit: "fit_public_payload (call_head nm i ''started'' @
      [(''arguments'', a), (''redacted'', jflag (redacted f)), (''truncated'', jflag (truncated f))]) f = (Inr q, h)"
    using yieldsD [OF started_rest p] by blast
  let ?rest = "[(''arguments'', a), (''redacted'', jflag (redacted f)), (''truncated'', jflag (truncated f))]"
  from fit_call [OF short, of ?rest f] fit obtain s where q: "q = call_head nm i ''started'' @ s"
    and keys: "set (List.map fst s) \<subseteq> {''arguments'', ''redacted'', ''truncated''}"
    and flags: "dget s ''redacted'' = JBool (redacted h)" "dget s ''truncated'' = JBool (truncated h)"
    and depth: "json_depth 1 (JObj q) \<le> MAX_TOOL_EVENT_JSON_DEPTH" and size: "\<not> too_large (JObj q)"
    and sub: "set s \<subseteq> set (cut_dict (cut_rest (call_head nm i ''started'' @ ?rest))) \<union>
      {(''redacted'', JBool (redacted h)), (''truncated'', JBool (truncated h))}"
    by auto
  have "list_all arguments_ok (call_head nm i ''started'' @ ?rest)"
    using a by (simp add: arguments_ok_def call_head_def)
  from cut_arguments [OF this] sub have "list_all arguments_ok s"
    unfolding list_all_iff by (fastforce simp: arguments_ok_def)
  then have args: "dget s ''arguments'' \<noteq> JNull \<Longrightarrow> is_dict (dget s ''arguments'')" using arguments_of by blast
  have fields: "\<forall>k\<in>set (List.map fst q). k \<in> {''tool_name'', ''call_id'', ''status'', ''arguments'', ''redacted'', ''truncated''}"
    using keys unfolding q by (auto simp: call_head_def)
  have vals: "nonempty_str (dget q ''tool_name'')" "nonempty_str (dget q ''call_id'')"
    "one_of TOOL_CALL_STATUSES (dget q ''status'')" "is_bool (dget q ''redacted'')" "is_bool (dget q ''truncated'')"
    "dget q ''arguments'' \<noteq> JNull \<Longrightarrow> is_dict (dget q ''arguments'')"
    using names flags args unfolding q
    by (simp_all add: head_other nonempty_str_def one_of_def TOOL_CALL_STATUSES_def)
  have "conforms ''tool.call'' q"
    unfolding conforms_def call_schema option.case
    using fields vals depth size by (simp add: too_large_def)
  with q show ?thesis by blast
qed

section \<open>Results that are too long\<close>

lemma cut_rest_scalars: "list_all (\<lambda>kv. \<not> is_dict (snd kv) \<and> \<not> is_list (snd kv)) d \<Longrightarrow> cut_rest d = d"
proof (induction d)
  case (Cons kv d)
  then show ?case by (cases "snd kv") (auto simp: cut_rest_def prod_eq_iff)
qed (simp add: cut_rest_def)

definition bare_result :: "string \<Rightarrow> string \<Rightarrow> string \<Rightarrow> flags \<Rightarrow> dict" where
  "bare_result nm i st f = call_head nm i st @ [(''redacted'', JBool (redacted f)), (''truncated'', JBool True)]"

lemma flags_room: "short_head nm i st \<Longrightarrow> \<not> too_large (JObj (set_flags f (call_head nm i st)))"
  using set_flags_size [of f "call_head nm i st"] by (simp add: too_large_def short_head_def)

lemma long_content_lost:
  assumes short: "short_head nm i st" and s: "plain_ascii s" and long: "MAX_TOOL_EVENT_UTF8_BYTES \<le> length s"
    and code: "final = [] \<or> (\<exists>k t. final = [(k, JStr t)])"
  shows "\<exists>g. fit_public_payload
      (call_head nm i st @ [(''redacted'', jflag (redacted f)), (''truncated'', jflag (truncated f)), (''content'', JStr s)] @ final) f
    = (Inr (bare_result nm i st f), g)"
proof -
  let ?base = "set_flags f (call_head nm i st)"
  let ?full = "?base @ [(''content'', JStr s)]"
  have base: "?base = call_head nm i st @ [(''redacted'', jflag (redacted f)), (''truncated'', jflag (truncated f))]"
    using set_flags_head [of f nm i st "[]"] by (simp add: set_flags_def)
  let ?p = "call_head nm i st @ [(''redacted'', jflag (redacted f)), (''truncated'', jflag (truncated f)), (''content'', JStr s)] @ final"
  have p: "?p = ?full @ final" by (simp add: base)
  have "payload_utf8_size (JStr s) = length s + 2" by (rule plain_size [OF plain_ascii_plain [OF s]])
  then have large: "too_large (JObj ?full)"
    using long by (simp add: too_large_def obj_size_append entry_size_def)
  have large': "too_large (JObj ?p)" using code large_append [OF large] large unfolding p by auto
  have scalars: "cut_rest ?p = ?p"
    using code by (intro cut_rest_scalars) (auto simp: call_head_def jflag_def)
  have "shrink_entries (rev ?p) = shrink_entries (rev ?full)"
    using code drop_last_large [of "rev ?full"] large unfolding p by auto
  also have "\<dots> = shrink_entries (rev ?base)"
    using long_text_dropped [OF s, of "rev ?base" "''content''"] large by simp
  also have "\<dots> = ?base"
    using shrink_entries_keep [OF flags_room [OF short, of f], of "[]"] by auto
  finally have cut: "cut_dict (cut_rest ?p) = ?base" unfolding cut_dict_def scalars using large' by (simp only: if_True)
  define g where "g = cut_flags ?p f"
  have g: "truncated g" "redacted g = redacted f" unfolding g_def cut_flags_def scalars using large' by simp_all
  have fitted: "set_flags g ?base = set_flags g (call_head nm i st)" by (simp add: set_flags_def call_head_def)
  have bare: "set_flags g (call_head nm i st) = bare_result nm i st f"
    using set_flags_head [of g nm i st "[]"] g by (simp add: bare_result_def set_flags_def jflag_def)
  show ?thesis
    unfolding fit_run Let_def g_def [symmetric] cut fitted using flags_room [OF short, of g] bare by simp
qed

text \<open>The result of a tool whose content is plain text.\<close>

definition plain_text_result :: "dict \<Rightarrow> string \<Rightarrow> bool" where
  "plain_text_result payload s \<longleftrightarrow>
     extract_result_content payload = (Some s, JNull) \<and> extract_error_fields payload = (None, None)
     \<and> dget payload ''redacted'' \<noteq> JBool True \<and> dget payload ''truncated'' \<noteq> JBool True
     \<and> plain_ascii s \<and> \<not> looks_like_url s \<and> \<not> looks_like_abs_path s"

lemma plain_result_run:
  assumes "plain_text_result payload s"
  shows "tool_result_payload N t payload st no_flags =
    fit_public_payload (call_head (ot_tool_name t) (ot_call_id t) st @
      [(''redacted'', jflag (redacted no_flags)), (''truncated'', jflag (truncated no_flags)), (''content'', JStr s)]
      @ (if st = ''failed'' then [(''error_code'', JStr (if payload = [] then ''UNPAIRED_TOOL_START'' else ''TOOL_FAILED''))] else []))
     no_flags"
proof -
  have up: "apply_upstream_flags payload no_flags = (Inr (), no_flags)"
    using assms by (simp add: plain_text_result_def apply_upstream_flags_def thenE_def bindE_def whenE_def)
  have str: "sanitize_string (texts_of N) s no_flags = (Inr s, no_flags)"
    using assms by (simp add: plain_text_result_def sanitize_string_def)
  show ?thesis
    using assms up str
    by (simp add: tool_result_payload_def plain_text_result_def Let_def thenE_def bindE_def sanitize_text_def given_def jopt_def
        str_set_def str_or_def call_head_def)
qed


section \<open>Closing\<close>

lemma total_mapE: "(\<And>x. x \<in> set xs \<Longrightarrow> total (f x)) \<Longrightarrow> total (mapE xs f)"
proof (induction xs)
  case (Cons x xs)
  then show ?case unfolding mapE.simps by (intro total_bind total_return) simp_all
qed (simp add: total_return)

lemma fit_total: "total (fit_public_payload p)"
  unfolding total_def fit_run Let_def by auto

lemma empty_result_total: "total (tool_result_payload N t [] st)"
proof -
  have e: "extract_result_content [] = (None, JNull)" "extract_error_fields [] = (None, None)"
    by (simp_all add: extract_result_content_def extract_error_fields_def RESULT_KEYS_def nonempty_str_def Let_def)
  have u: "apply_upstream_flags [] = returnE ()"
    by (simp add: apply_upstream_flags_def whenE_def thenE_def bindE_def returnE_def)
  show ?thesis
    unfolding tool_result_payload_def e u Let_def case_prod_conv sanitize_text_def option.case
    by (intro total_then total_bind total_return total_gets fit_total total_if) simp_all
qed

lemma total_sot: "total (sot ty p)"
  by (simp add: total_def sot_run)

lemma run_san_total: "total m \<Longrightarrow> total (run_san m)"
  unfolding run_san_def using totalD [of m no_flags] by (auto intro: total_lift)

lemma finish_total: "total (finish_call N t [] st)"
  unfolding finish_call_def by (intro total_bind total_sot total_return run_san_total empty_result_total)

lemma finish_two: "finish_call N t p st n = (Inr es, n') \<Longrightarrow> length es = 2"
  unfolding finish_call_def by (elim bindE_Inr) (auto simp: returnE_def)

text \<open>The loop of \<open>close\<close> ends: each round takes a call and opens none.\<close>

lemma close_tools_run:
  "\<exists>es n'. close_tools N st n = (Inr es, n') \<and> open_tools n' = [] \<and> length es = 2 * length (open_tools n)
     \<and> message_id n' = message_id n \<and> segment_seq n' = segment_seq n"
proof (induction N st n rule: close_tools.induct)
  case (1 N st n)
  show ?case
  proof (cases "open_tools n")
    case Nil
    then show ?thesis by (simp add: close_tools.simps [of N st n])
  next
    case (Cons t ts)
    let ?n = "n\<lparr>open_tools := ts\<rparr>"
    obtain ended u where f: "finish_call N t [] st ?n = (Inr ended, u)" using totalD [OF finish_total] by blast
    let ?u = "u\<lparr>gaps := gaps u @ [(ot_tool_name t, ot_call_id t, st)]\<rparr>"
    have u: "open_tools u = ts" "segment_seq u = segment_seq n" using finish_run(1) [OF f] by simp_all
    have mid: "message_id u = message_id n"
      using f by (auto simp: finish_call_def sot_run run_san_def bindE_def split: sum.splits)
    obtain rest w where c: "close_tools N st ?u = (Inr rest, w)" "open_tools w = []" "length rest = 2 * length ts"
      "message_id w = message_id n" "segment_seq w = segment_seq n"
      using 1 [OF Cons f [symmetric] refl] u mid by auto
    then show ?thesis using f Cons finish_two [OF f] by (simp add: close_tools.simps [of N st n])
  qed
qed

lemma total_append_delta: "total (append_delta c)"
proof -
  have "total (accept_delta c)" by (simp add: total_def accept_run)
  then show ?thesis
    unfolding append_delta_def ensure_message_segment_def reject_payload_def Let_def
    by (intro total_if total_then total_bind total_modify total_gets total_return)
qed

lemma total_emit: "pieces_ok ps \<Longrightarrow> total (emit_delta_chunks ps)"
  unfolding emit_delta_chunks_def
proof (intro total_bind total_mapE total_return)
  fix p assume ps: "pieces_ok ps" and p: "p \<in> set ps"
  then have "split_utf8_by_bytes p MAX_DELTA_UTF8_BYTES = Inr [p]"
    by (auto simp: pieces_ok_def split_utf8_by_bytes_def MAX_DELTA_UTF8_BYTES_def)
  then show "total (emit_text p)"
    unfolding emit_text_def by (intro total_if total_bind total_lift total_mapE total_append_delta total_return) simp_all
qed

lemma total_end_segment: "total end_segment"
  unfolding end_segment_def message_event_def reset_message_segment_def reject_payload_def
  by (intro total_bind total_then total_if total_gets total_sot total_return total_modify)

definition calls_kept :: "normalizer \<Rightarrow> native_event list \<Rightarrow> normalizer \<Rightarrow> bool" where
  "calls_kept n es n' \<longleftrightarrow> open_tools n' = open_tools n"

interpretation kept: plain_emission calls_kept
  by unfold_locales (auto simp: calls_kept_def emitting_def next_counter_def sot_run)

lemma end_segment_done: "end_segment n = (Inr es, n') \<Longrightarrow> message_id n' = None"
  by (auto simp: end_segment_def bindE_def thenE_def reset_message_segment_def message_event_def sot_run reject_payload_def
      split: if_splits)

lemma close_segment_done:
  assumes "coalescer_ok (coal n)"
  shows "\<exists>es n'. close_message_segment n = (Inr es, n') \<and> open_tools n' = open_tools n \<and> message_id n' = None"
proof -
  obtain out c where fl: "flush_chunks (coal n) = (Inr out, c)" "pieces_ok out"
    using flush_chunks_ok [OF assms] by blast
  obtain es1 u where e: "emit_delta_chunks out (n\<lparr>coal := c\<rparr>) = (Inr es1, u)" using totalD [OF total_emit [OF fl(2)]] by blast
  obtain es2 v where s: "end_segment u = (Inr es2, v)" using totalD [OF total_end_segment] by blast
  have run: "close_message_segment n = (Inr (es1 @ es2), v)"
    using fl(1) e s by (simp add: close_message_segment_def bindE_def on_coal_def)
  have "open_tools v = open_tools n"
    using emittingD [OF kept.em_close_segment run] by (simp add: calls_kept_def)
  with run end_segment_done [OF s] show ?thesis by blast
qed

lemma close_returns:
  assumes "coalescer_ok (coal n)"
  shows "\<exists>es ends n'. close N st n = (Inr (es @ ends), n') \<and> length ends = 2 * length (open_tools n)
    \<and> open_tools n' = [] \<and> message_id n' = None"
proof -
  obtain es u where s: "close_message_segment n = (Inr es, u)" "open_tools u = open_tools n" "message_id u = None"
    using close_segment_done [OF assms] by blast
  obtain ends w where c: "close_tools N (if st \<in> set SUCCESS_STATUSES then ''completed'' else ''failed'') u = (Inr ends, w)"
    "open_tools w = []" "length ends = 2 * length (open_tools u)" "message_id w = message_id u"
    using close_tools_run by blast
  have "close N st n = (Inr (es @ ends), w)" using s c by (simp add: close_def bindE_def)
  with s c show ?thesis by (intro exI conjI) (assumption | simp)+
qed

lemma close_open_none: "close N st n = (Inr es, n') \<Longrightarrow> open_tools n' = []"
proof -
  assume "close N st n = (Inr es, n')"
  then obtain u r where "close_tools N (if st \<in> set SUCCESS_STATUSES then ''completed'' else ''failed'') u = (Inr r, n')"
    unfolding close_def by (elim bindE_Inr) (auto simp: returnE_def)
  then show ?thesis using close_tools_run [of N "if st \<in> set SUCCESS_STATUSES then ''completed'' else ''failed''" u] by auto
qed

lemma mapE_last:
  "mapE (xs @ [x]) f n = (Inr ys, n') \<Longrightarrow> \<exists>u y. f x u = (Inr y, n')"
proof (induction xs arbitrary: n ys)
  case Nil
  then show ?case by (auto simp: bindE_def split: sum.splits prod.splits)
next
  case (Cons a xs)
  have "bindE (f a) (\<lambda>y. bindE (mapE (xs @ [x]) f) (\<lambda>ys. returnE (y # ys))) n = (Inr ys, n')"
    using Cons.prems by simp
  then obtain b u where "bindE (mapE (xs @ [x]) f) (\<lambda>ys. returnE (b # ys)) u = (Inr ys, n')" by (rule bindE_Inr)
  then obtain zs v where "mapE (xs @ [x]) f u = (Inr zs, v)" "returnE (b # zs) v = (Inr ys, n')" by (rule bindE_Inr)
  then show ?case using Cons.IH by simp
qed

lemma stream_closed: "native_stream N (cs @ [CloseAll st]) n = (Inr es, n') \<Longrightarrow> open_tools n' = []"
proof -
  assume "native_stream N (cs @ [CloseAll st]) n = (Inr es, n')"
  then obtain ess where "mapE (cs @ [CloseAll st]) (perform_native N) n = (Inr ess, n')"
    unfolding native_stream_def by (elim bindE_Inr) (auto simp: returnE_def)
  from mapE_last [OF this] show ?thesis using close_open_none by auto
qed

section \<open>A run of the normaliser\<close>

definition demo_env :: native_env where
  "demo_env = \<lparr>texts_of = \<lparr>uni_word = (\<lambda>u. True), uni_space = (\<lambda>u. False), netloc_ok = (\<lambda>h. True)\<rparr>, loads = (\<lambda>s. None)\<rparr>"

definition demo_delta :: dict where
  "demo_delta = [(''type'', JStr ''message.delta''), (''delta'', JStr ''hi'')]"

definition demo_start :: dict where
  "demo_start = [(''type'', JStr ''tool.started''), (''tool'', JStr ''search''), (''id'', JStr ''c1'')]"

definition demo_calls :: "native_call list" where
  "demo_calls = [Ingest 0 demo_delta, Ingest 5 demo_start, CloseAll ''failed'']"

lemma demo_types: "event_type_of demo_delta = ''message.delta''" "event_type_of demo_start = ''tool.started''"
    "delta_text (payload_of demo_delta) = ''hi''" "tool_name_of (payload_of demo_start) = ''search''"
    "upstream_id (payload_of demo_start) = JStr ''c1''" "nonempty_str (JStr ''c1'')"
    "is_model_chunk demo_delta = False" "is_model_chunk demo_start = False"
  by code_simp+

definition demo_state :: normalizer where
  "demo_state = (new_normalizer ''a'' ''h'')\<lparr>coal := \<lparr>parts = [''hi''], first_ms = Some 0\<rparr>\<rparr>"

lemma demo_ingest: "ingest demo_env 0 demo_delta (new_normalizer ''a'' ''h'') = (Inr [], demo_state)"
proof -
  have "push 0 ''hi'' new_coalescer = (Inr [], \<lparr>parts = [''hi''], first_ms = Some 0\<rparr>)"
    by (simp add: push_def new_coalescer_def drain_oversize.simps buffered_text_def Let_def MAX_DELTA_UTF8_BYTES_def)
  then have "on_coal (push 0 ''hi'') (new_normalizer ''a'' ''h'') = (Inr [], demo_state)"
    by (simp add: on_coal_def new_normalizer_def demo_state_def)
  moreover have "''message.delta'' \<in> set DELTA_TYPES" by (simp add: DELTA_TYPES_def)
  ultimately show ?thesis
    by (simp add: ingest_def Let_def demo_types bindE_def emit_delta_chunks_def)
qed

definition demo_state2 :: normalizer where
  "demo_state2 = demo_state\<lparr>coal := new_coalescer, counter := 2, message_counter := 1,
     fingerprints := [((''msg_a_1'', 1), ''hi'')], closed_text := ''hi''\<rparr>"

definition demo_event :: "string \<Rightarrow> dict \<Rightarrow> string \<Rightarrow> native_event" where
  "demo_event ty p i = \<lparr>ne_type = ty, ne_payload = p, ne_source_event_id = i\<rparr>"

lemma demo_close_segment:
  "close_message_segment demo_state =
     (Inr [demo_event ''assistant.delta'' [(''message_id'', JStr ''msg_a_1''), (''delta_seq'', JInt 1), (''delta'', JStr ''hi'')] ''h:1'',
           demo_event ''assistant.message'' [(''message_id'', JStr ''msg_a_1''), (''text'', JStr ''hi'')] ''h:2''], demo_state2)"
proof -
  have n: "show_int 1 = ''1''" "show_int 2 = ''2''" by code_simp+
  have fl: "flush_chunks \<lparr>parts = [''hi''], first_ms = Some 0\<rparr> = (Inr [''hi''], new_coalescer)"
    by (simp add: flush_chunks_def flush_def buffered_text_def new_coalescer_def split_utf8_by_bytes_def MAX_DELTA_UTF8_BYTES_def)
  have sp: "split_utf8_by_bytes ''hi'' MAX_DELTA_UTF8_BYTES = Inr [''hi'']"
    by (simp add: split_utf8_by_bytes_def MAX_DELTA_UTF8_BYTES_def)
  show ?thesis
    by (simp add: close_message_segment_def demo_state_def demo_state2_def new_normalizer_def on_coal_def bindE_def fl
        emit_delta_chunks_def emit_text_def sp append_delta_def ensure_message_segment_def thenE_def Let_def accept_run
        too_long_def MAX_SNAPSHOT_UTF8_BYTES_def end_segment_def message_event_def sot_run reset_message_segment_def
        keep_some_def List.map_filter_def n event_id_def demo_event_def the_id_def)
qed


definition demo_tool :: open_tool where
  "demo_tool = \<lparr>ot_tool_name = ''search'', ot_call_id = ''c1'', ot_segment_seq = 1, ot_confidence = ''high''\<rparr>"

lemma demo_start_returns:
  "\<exists>es n'. start_tool demo_env (payload_of demo_start) demo_state2 = (Inr es, n')
     \<and> open_tools n' = [demo_tool] \<and> segment_seq n' = 1"
proof -
  have texts: "looks_like_url ''search'' = False" "looks_like_url ''c1'' = False" "looks_like_url ''high'' = False"
    by code_simp+
  let ?m = "demo_state2\<lparr>segment_seq := 1, open_tools := [demo_tool]\<rparr>"
  let ?d = "[(''tool_name'', JStr ''search''), (''call_id'', JStr ''c1''), (''correlation_confidence'', JStr ''high'')]"
  have item: "total (case (k, JStr s) of (key, item) \<Rightarrow> if is_sensitive_key key then thenE mark_redacted (returnE None)
      else bindE (sanitize_node T n item) (\<lambda>v. returnE (Some (key, v))))" if "\<not> looks_like_url s" for k s n T
    using that unfolding prod.case sanitize_node.simps sanitize_string_def mark_redacted_def
    by (intro total_if total_then total_bind total_return total_modify) simp_all
  have "total (mapE ?d (\<lambda>(key, item). if is_sensitive_key key then thenE mark_redacted (returnE None)
      else bindE (sanitize_node T n item) (\<lambda>v. returnE (Some (key, v)))))" for T n
  proof (rule total_mapE)
    fix kv assume "kv \<in> set ?d"
    then obtain k s where "kv = (k, JStr s)" "\<not> looks_like_url s" using texts by auto
    then show "total (case kv of (key, item) \<Rightarrow> if is_sensitive_key key then thenE mark_redacted (returnE None)
      else bindE (sanitize_node T n item) (\<lambda>v. returnE (Some (key, v))))" using item by simp
  qed
  then have tot: "total (sanitize_node (texts_of demo_env) 1 (JObj ?d))"
    unfolding sanitize_node.simps mark_truncated_def
    by (intro total_if total_then total_bind total_return total_modify)
  from run_san_total [OF tot] have "total (trace demo_env ''tool.correlation'' ?d)"
    unfolding trace_def strip_sensitive_def by (intro total_bind total_return total_modify)
  from totalD [OF this, of ?m] obtain m where m: "trace demo_env ''tool.correlation'' ?d ?m = (Inr (), m)" by auto
  have ext: "extract_structured_arguments demo_env (payload_of demo_start) = None"
    "is_str (dget (payload_of demo_start) ''preview'') = False"
    "apply_upstream_flags (payload_of demo_start) = returnE ()"
    by (simp_all add: extract_structured_arguments_def ARGUMENT_KEYS_def payload_of_def demo_start_def
        apply_upstream_flags_def whenE_def thenE_def bindE_def returnE_def)
  have tot': "total (started_tool_payload demo_env ''search'' ''c1'' (payload_of demo_start))"
    unfolding started_tool_payload_def ext option.case Let_def
    by (intro total_then total_bind total_return total_if total_gets fit_total) simp_all
  from totalD [OF tot', of no_flags] obtain q g
    where q: "started_tool_payload demo_env ''search'' ''c1'' (payload_of demo_start) no_flags = (Inr q, g)" by (elim exE)
  have open_m: "opened_tool (payload_of demo_start) (demo_state2\<lparr>segment_seq := 1\<rparr>) = demo_tool"
    "push_tool (payload_of demo_start) demo_tool (demo_state2\<lparr>segment_seq := 1\<rparr>) = ?m"
    by (simp_all add: opened_tool_def push_tool_def demo_tool_def demo_types demo_state2_def demo_state_def new_normalizer_def
        low_confidence_def)
  have "same_calls ?m m" using m by (rule trace_run)
  then have "open_tools m = [demo_tool]" "segment_seq m = 1" by simp_all
  moreover have "segment_seq demo_state2 = 0" by (simp add: demo_state2_def demo_state_def new_normalizer_def)
  ultimately show ?thesis
    using m q open_m
    by (simp add: start_tool_def demo_types thenE_def bindE_def demo_tool_def run_san_def sot_run)
qed

definition seq_kept :: "normalizer \<Rightarrow> native_event list \<Rightarrow> normalizer \<Rightarrow> bool" where
  "seq_kept n es n' \<longleftrightarrow> segment_seq n' = segment_seq n"

interpretation seq_kept: plain_emission seq_kept
  by unfold_locales (auto simp: seq_kept_def emitting_def next_counter_def sot_run)

lemma demo_returns:
  "\<exists>es n'. native_stream demo_env demo_calls (new_normalizer ''a'' ''h'') = (Inr es, n') \<and> segment_seq n' = 1"
proof -
  obtain es n2 where st: "start_tool demo_env (payload_of demo_start) demo_state2 = (Inr es, n2)" "segment_seq n2 = 1"
    using demo_start_returns by blast
  have types: "''tool.started'' \<notin> set DELTA_TYPES" "''tool.started'' \<notin> set INTERNAL_TYPES"
    "''tool.started'' \<notin> set RUNTIME_TERMINAL_TYPES" "\<not> startswith ''tool.started'' ''subagent.''"
    by (simp_all add: DELTA_TYPES_def INTERNAL_TYPES_def RUNTIME_TERMINAL_TYPES_def startswith_def)
  have i: "\<exists>fs. ingest demo_env 5 demo_start demo_state = (Inr fs, n2)"
    using st by (simp add: ingest_def Let_def demo_types types after_segment_def bindE_def demo_close_segment)
  then obtain fs where fs: "ingest demo_env 5 demo_start demo_state = (Inr fs, n2)" by blast
  have coal: "coal n2 = new_coalescer"
  proof -
    have "coal n2 = coal demo_state2"
      using st(1) by (auto simp: start_tool_def demo_types thenE_def bindE_def trace_def strip_sensitive_def run_san_def
          push_tool_def sot_run split: sum.splits)
    then show ?thesis by (simp add: demo_state2_def)
  qed
  obtain u us where c: "close_message_segment n2 = (Inr us, u)" using close_segment_done [of n2] coal by auto
  have seq: "segment_seq u = segment_seq n2" using emittingD [OF seq_kept.em_close_segment c] by (simp add: seq_kept_def)
  obtain vs w where w: "close_tools demo_env ''failed'' u = (Inr vs, w)" "segment_seq w = segment_seq u"
    using close_tools_run by blast
  have cl: "close demo_env ''failed'' n2 = (Inr (us @ vs), w)"
    using c w by (simp add: close_def bindE_def SUCCESS_STATUSES_def)
  show ?thesis
    using demo_ingest fs cl w seq st(2) by (simp add: native_stream_def demo_calls_def bindE_def)
qed

lemma new_short: "length att \<le> NAME_LIMIT \<Longrightarrow> tools_short (new_normalizer att pre)"
  by (simp add: tools_short_def new_normalizer_def)

lemma stream_balanced:
  assumes "native_stream N (cs @ [CloseAll st]) (new_normalizer att pre) = (Inr es, n')"
    and "list_all (\<lambda>c. list_all names_short (call_data c)) cs" and "length att \<le> NAME_LIMIT"
    and "segment_seq n' < CALL_LIMIT"
  shows "mset (calls_started es) = mset (calls_ended es) \<and> mset (results es) = mset (calls_ended es)"
proof -
  have "emitting paired all_events (native_stream N (cs @ [CloseAll st]))"
    using assms(2) by (intro paired_stream) simp
  from emittingD [OF this assms(1)] assms(3,4) new_short have "balanced (new_normalizer att pre) es n'"
    by (simp add: paired_def all_events_def)
  moreover have "open_tools n' = []" by (rule stream_closed [OF assms(1)])
  moreover have "open_tools (new_normalizer att pre) = []" by (simp add: new_normalizer_def)
  ultimately show ?thesis by (simp add: balanced_def)
qed

lemma demo_names: "list_all (\<lambda>c. list_all names_short (call_data c)) [Ingest 0 demo_delta, Ingest 5 demo_start]"
proof -
  have "tool_name_of (payload_of demo_delta) = []" "upstream_id (payload_of demo_delta) = JNull" by code_simp+
  then show ?thesis by (simp add: names_short_def demo_types NAME_LIMIT_def)
qed

lemma repeated_text:
  assumes "0 < k"
  shows "plain_text_result [(''output'', JStr (replicate k (CHR ''a'')))] (replicate k (CHR ''a''))"
proof -
  let ?s = "replicate k (CHR ''a'')"
  obtain m where k: "k = Suc m" using assms by (cases k) auto
  have sub: "\<not> contains_sub (replicate j (CHR ''a'')) ''://''" for j
    by (induction j) (auto simp: startswith_def)
  have url: "\<not> looks_like_url ?s"
    unfolding looks_like_url_def using sub by (simp add: k startswith_def)
  have "CHR ''a'' \<noteq> backslash" by code_simp
  then have "\<not> startswith ?s (''/'' @ r)" "\<not> startswith ?s [backslash, backslash]" for r
    by (simp_all add: k startswith_def)
  moreover have "?s = a # b # c # d \<Longrightarrow> b \<noteq> CHR '':''" for a b c d
  proof -
    assume "?s = a # b # c # d"
    then have "b \<in> set ?s" by simp
    then show "b \<noteq> CHR '':''" by auto
  qed
  ultimately have path: "\<not> looks_like_abs_path ?s"
    by (auto simp: looks_like_abs_path_def abs_unix_def abs_win_def list_ex_iff split: list.splits)
  have ascii: "plain_ascii ?s" by (simp add: plain_ascii_def list_all_iff)
  have ext: "extract_result_content [(''output'', JStr ?s)] = (Some ?s, JNull)"
    by (simp add: extract_result_content_def Let_def RESULT_KEYS_def nonempty_str_def k)
  show ?thesis
    using url path ascii ext
    by (simp add: plain_text_result_def extract_error_fields_def Let_def nonempty_str_def)
qed

section \<open>Properties\<close>

text \<open>C9: Whatever the engine feeds its normaliser, a client that reads the events in order never has to refuse
  one: deltas come numbered from 1 without a gap, under a name not used before, and a message is exactly
  the text of its deltas, or new. What the client has then seen is what the normaliser takes to be emitted.\<close>

theorem client_follows_messages:
  assumes "native_stream N cs (new_normalizer att pre) = (Inr es, n')"
  shows "\<exists>c. views new_client es = Some c \<and> c_seen c = emitted_assistant n'
    \<and> c_current c = (if delta_seq n' = 0 then None else Some (the_id n', int (delta_seq n'), segment_text n'))"
  using emittingD [OF follows_stream assms] read_by_new [of att pre]
  unfolding follows_def all_events_def read_by_def [of n'] by blast

theorem client_follows_messages_witness:
  "\<exists>es n' c. native_stream demo_env demo_calls (new_normalizer ''a'' ''h'') = (Inr es, n')
     \<and> views new_client es = Some c \<and> c_seen c = emitted_assistant n'"
proof -
  obtain es n' where r: "native_stream demo_env demo_calls (new_normalizer ''a'' ''h'') = (Inr es, n')"
    using demo_returns by (elim exE conjE)
  from client_follows_messages [OF r] show ?thesis using r by (elim exE conjE) (intro exI conjI)
qed

text \<open>No source event id is given out twice by a normaliser, so that the event log, which ignores an event
  with a source id it has, never mistakes one event of the runtime for another.\<close>

theorem source_ids_unique:
  assumes "native_stream N cs (new_normalizer att pre) = (Inr es, n')"
  shows "distinct (List.map ne_source_event_id es)
    \<and> list_all (\<lambda>e. \<exists>k. 0 < k \<and> k \<le> counter n' \<and> ne_source_event_id e = pre @ '':'' @ show_int (int k)) es"
  using emittingD [OF ids_stream assms]
  by (simp add: ids_between_def all_events_def list_all_iff event_id_def new_normalizer_def)

theorem source_ids_unique_witness:
  "\<exists>es n'. native_stream demo_env demo_calls (new_normalizer ''a'' ''h'') = (Inr es, n')
     \<and> distinct (List.map ne_source_event_id es)"
proof -
  obtain es n' where r: "native_stream demo_env demo_calls (new_normalizer ''a'' ''h'') = (Inr es, n')"
    using demo_returns by (elim exE conjE)
  from source_ids_unique [OF r] r show ?thesis by (elim conjE) (intro exI conjI)
qed

text \<open>
  What a reader takes for private: the names of the runtime's internals, and every key that mentions a
  credential, compared without regard to case as \<open>re.I\<close> does.
\<close>

definition names_private :: "string \<Rightarrow> bool" where
  "names_private key \<longleftrightarrow>
     key \<in> {''output_tail'', ''child_session_id'', ''cost'', ''cost_usd'', ''runtime_run_id'', ''files_read'',
            ''files_written'', ''preview''}
     \<or> list_ex (mentions (fold_case key)) [''authorization'', ''cookie'', ''apikey'', ''api_key'', ''api-key'',
         ''token'', ''password'', ''secret'', ''private_key'', ''privatekey'', ''private-key'', ''credential'',
         ''accesskey'', ''access_key'', ''access-key'', ''signature'']
     \<or> fold_case key = ''signed''"

lemma names_private_sensitive: "names_private k \<Longrightarrow> is_sensitive_key k"
  by (auto simp: names_private_def is_sensitive_key_def SENSITIVE_KEYS_def SENSITIVE_WORDS_def signed_word_def Let_def
      contains_mentions)

lemma public_key_not_private: "public_key k \<Longrightarrow> \<not> names_private k"
  using names_private_sensitive by (auto simp: public_key_def)

lemma keys_all_mono: "(\<And>k. p k \<Longrightarrow> q k) \<Longrightarrow> keys_all p v \<Longrightarrow> keys_all q v"
proof (induction p v rule: keys_all.induct)
  case (1 p d)
  then show ?case by (auto simp: list_all_iff)
next
  case (2 p xs)
  then show ?case by (auto simp: list_all_iff)
qed simp_all

text \<open>C10: In the events of tool calls and tool results that are shown, whatever the runtime put there, each field
  either has no key at any depth that names one of the runtime's internals or mentions a credential, as
  listed, or is the object \<open>{"preview": ...}\<close> with nothing but a text of at most 512 bytes, although the key
  \<open>preview\<close> is itself one of the names that are removed everywhere else.\<close>

theorem tool_events_public:
  assumes "native_stream N cs n = (Inr es, n')"
  shows "list_all (\<lambda>e. ne_type e \<in> {''tool.call'', ''tool.result''}
      \<longrightarrow> list_all (\<lambda>kv. keys_all (\<lambda>k. \<not> names_private k) (snd kv)
             \<or> (\<exists>s. snd kv = JObj [(''preview'', JStr s)] \<and> length s \<le> 512)) (ne_payload e)) es"
proof -
  have each: "keys_all (\<lambda>k. \<not> names_private k) v \<or> (\<exists>s. v = JObj [(''preview'', JStr s)] \<and> length s \<le> 512)"
    if "value_shown v" for v
    using that keys_all_mono [of public_key "\<lambda>k. \<not> names_private k" v] public_key_not_private
    by (auto simp: value_shown_def short_preview_def MAX_TOOL_PREVIEW_UTF8_BYTES_def)
  show ?thesis
    using emittingD [OF shown_stream assms] each
    by (auto simp: shown_between_def all_events_def event_shown_def fields_shown_def list_all_iff)
qed

theorem tool_events_public_witness:
  "\<exists>es n'. native_stream demo_env demo_calls (new_normalizer ''a'' ''h'') = (Inr es, n')
     \<and> list_all (\<lambda>e. ne_type e \<notin> {''tool.call'', ''tool.result''}
         \<or> list_all (\<lambda>kv. keys_all (\<lambda>k. \<not> names_private k) (snd kv)
             \<or> (\<exists>s. snd kv = JObj [(''preview'', JStr s)] \<and> length s \<le> 512)) (ne_payload e)) es"
proof -
  obtain es n' where r: "native_stream demo_env demo_calls (new_normalizer ''a'' ''h'') = (Inr es, n')"
    using demo_returns by (elim exE conjE)
  from tool_events_public [OF r] r show ?thesis
    unfolding imp_conv_disj by (intro exI conjI)
qed

text \<open>C11: For a runtime whose events carry tool names and call ids of at most 1000 bytes each, an attempt identifier
  that is as short, and fewer than 10^100 segments: once the normaliser is closed, every tool call that was
  shown as started has been shown as ended exactly once and has exactly one result, under the same tool name
  and call id, and nothing else ended. (The bounds are needed: the fitting of an event that is too large takes
  the name and the status of the call away, and it is no longer recognised.)\<close>

theorem every_call_ends:
  assumes "native_stream N (cs @ [CloseAll st]) (new_normalizer att pre) = (Inr es, n')"
    and "list_all (\<lambda>c. list_all names_short (call_data c)) cs" and "length att \<le> NAME_LIMIT"
    and "segment_seq n' < CALL_LIMIT"
  shows "mset (calls_started es) = mset (calls_ended es) \<and> mset (results es) = mset (calls_ended es)
    \<and> open_tools n' = []"
  using stream_balanced [OF assms] stream_closed [OF assms(1)] by blast

theorem every_call_ends_witness:
  "\<exists>es n'. native_stream demo_env demo_calls (new_normalizer ''a'' ''h'') = (Inr es, n')
     \<and> mset (calls_started es) = mset (results es) \<and> open_tools n' = []"
proof -
  obtain es n' where r: "native_stream demo_env demo_calls (new_normalizer ''a'' ''h'') = (Inr es, n')"
    and seq: "segment_seq n' = 1"
    using demo_returns by (elim exE conjE)
  have d: "demo_calls = [Ingest 0 demo_delta, Ingest 5 demo_start] @ [CloseAll ''failed'']"
    by (simp add: demo_calls_def)
  have "mset (calls_started es) = mset (calls_ended es) \<and> mset (results es) = mset (calls_ended es) \<and> open_tools n' = []"
    by (rule every_call_ends [OF r [unfolded d] demo_names]) (simp_all add: NAME_LIMIT_def CALL_LIMIT_def seq)
  with r show ?thesis by (elim conjE) (intro exI conjI, assumption, simp_all)
qed

text \<open>C12: Closing always comes to an end and succeeds: from any state whose buffer is well formed the loop over the
  open calls emits two events for each and leaves none open, and no message is left unfinished.\<close>

theorem closing_terminates:
  assumes "coalescer_ok (coal n)"
  shows "\<exists>es ends n'. close N st n = (Inr (es @ ends), n') \<and> length ends = 2 * length (open_tools n)
    \<and> open_tools n' = [] \<and> message_id n' = None"
  by (rule close_returns [OF assms])

theorem closing_terminates_witness:
  "\<exists>es ends n'. close demo_env ''failed'' (demo_state\<lparr>open_tools := [demo_tool]\<rparr>) = (Inr (es @ ends), n')
     \<and> length ends = 2 \<and> open_tools n' = [] \<and> message_id n' = None"
proof -
  have "utf8_valid ''hi''" by (rule ascii_valid) simp
  then have "coalescer_ok (coal (demo_state\<lparr>open_tools := [demo_tool]\<rparr>))"
    by (simp add: coalescer_ok_def demo_state_def buffered_text_def MAX_DELTA_UTF8_BYTES_def)
  from closing_terminates [OF this, of demo_env "''failed''"] show ?thesis by simp
qed

text \<open>The event of a started tool call is accepted by the schema of semantic events, whatever its arguments are,
  and names the call as the runtime did, provided the names are not empty and leave room for the flags:
  arguments nested too deep or too long are cut or dropped, never the names.\<close>

theorem started_call_conforms:
  assumes "short_head nm i ''started''" and "nm \<noteq> []" and "i \<noteq> []"
    and "started_tool_payload N nm i p no_flags = (Inr q, g)"
  shows "validate_semantic_event_payload ''tool.call'' (JObj q) = Inr None
    \<and> dget q ''tool_name'' = JStr nm \<and> dget q ''call_id'' = JStr i \<and> dget q ''status'' = JStr ''started''"
  using started_conforms [OF assms] validates_conforms by auto

theorem started_call_conforms_witness:
  "\<exists>q g. started_tool_payload demo_env ''search'' ''c1'' [] no_flags = (Inr q, g)
     \<and> validate_semantic_event_payload ''tool.call'' (JObj q) = Inr None"
proof -
  have ext: "extract_structured_arguments demo_env [] = None" "is_str (dget [] ''preview'') = False"
    "apply_upstream_flags [] = returnE ()"
    by (simp_all add: extract_structured_arguments_def ARGUMENT_KEYS_def
        apply_upstream_flags_def whenE_def thenE_def bindE_def returnE_def)
  have "total (started_tool_payload demo_env ''search'' ''c1'' [])"
    unfolding started_tool_payload_def ext option.case Let_def
    by (intro total_then total_bind total_return total_if total_gets fit_total) simp_all
  from totalD [OF this, of no_flags] obtain q g where q: "started_tool_payload demo_env ''search'' ''c1'' [] no_flags = (Inr q, g)"
    by (elim exE)
  have "short_head ''search'' ''c1'' ''started''" by (rule short_headI) simp_all
  from started_call_conforms [OF this _ _ q, THEN conjunct1] q show ?thesis
    by (intro exI conjI) (assumption, simp only: list.distinct not_False_eq_True)
qed

text \<open>A tool result of 64 KiB of plain text or more is not shortened to what fits but lost as a whole: the event
  has neither the text nor, for a failed call, its error code, so that it is no longer a valid event.\<close>

theorem long_result_lost:
  assumes "short_tool t" and "st \<in> {''completed'', ''failed''}" and "plain_text_result payload s"
    and "MAX_TOOL_EVENT_UTF8_BYTES \<le> length s"
  shows "fst (tool_result_payload N t payload st no_flags)
      = Inr (call_head (ot_tool_name t) (ot_call_id t) st @ [(''redacted'', JBool False), (''truncated'', JBool True)])
    \<and> \<not> conforms ''tool.result'' (call_head (ot_tool_name t) (ot_call_id t) ''failed''
           @ [(''redacted'', JBool False), (''truncated'', JBool True)])"
proof
  have short: "short_head (ot_tool_name t) (ot_call_id t) st" using assms(2) by (intro short_tool_head [OF assms(1)]) auto
  have "plain_ascii s" using assms(3) by (simp add: plain_text_result_def)
  from long_content_lost [OF short this assms(4), of "if st = ''failed'' then [(''error_code'',
      JStr (if payload = [] then ''UNPAIRED_TOOL_START'' else ''TOOL_FAILED''))] else []" no_flags]
  show "fst (tool_result_payload N t payload st no_flags)
      = Inr (call_head (ot_tool_name t) (ot_call_id t) st @ [(''redacted'', JBool False), (''truncated'', JBool True)])"
    unfolding plain_result_run [OF assms(3)] by (cases "st = ''failed''") (auto simp: bare_result_def no_flags_def)
  show "\<not> conforms ''tool.result'' (call_head (ot_tool_name t) (ot_call_id t) ''failed''
           @ [(''redacted'', JBool False), (''truncated'', JBool True)])"
    by (auto simp: conforms_def nonempty_str_def call_head_def split: option.splits)
qed

theorem long_result_lost_witness:
  "fst (tool_result_payload demo_env demo_tool [(''output'', JStr (replicate 65536 (CHR ''a'')))] ''completed'' no_flags)
     = Inr (call_head ''search'' ''c1'' ''completed'' @ [(''redacted'', JBool False), (''truncated'', JBool True)])"
proof -
  have t: "short_tool demo_tool" by (simp add: short_tool_def demo_tool_def)
  have p: "plain_text_result [(''output'', JStr (replicate 65536 (CHR ''a'')))] (replicate 65536 (CHR ''a''))"
    by (rule repeated_text) simp
  have l: "MAX_TOOL_EVENT_UTF8_BYTES \<le> length (replicate 65536 (CHR ''a''))"
    unfolding length_replicate by (simp add: MAX_TOOL_EVENT_UTF8_BYTES_def)
  have st: "''completed'' \<in> {''completed'', ''failed''}" by simp
  from long_result_lost [OF t st p l, THEN conjunct1, of demo_env] show ?thesis by (simp add: demo_tool_def)
qed

end
