(* ===== verification/Engine_Props.thy ===== *)
theory Engine_Props
  imports Engine_Runs Native_Props
begin

text \<open>
  The properties of the generator that runs a task on a Hermes runtime
  (\<open>services/hermes_engine.py\<close>): one terminal event at the end, an end after cancellation, submission
  only under contract, where credentials go, and what a failed poll, an attachment or a bad URL does.
\<close>

section \<open>A failed poll\<close>

text \<open>While a deadline is set the stream is not polled again: the polled status stays as it is.\<close>

definition keeps_poll :: "stream_vars \<Rightarrow> (bool \<times> stream_vars) flow \<Rightarrow> bool" where
  "keeps_poll v = only_next (\<lambda>(leave, v'). sv_polled v' = sv_polled v \<and> sv_deadline v' = sv_deadline v)"

lemma keeps_poll_simps [simp]:
  "keeps_poll v (Next (b, v')) \<longleftrightarrow> sv_polled v' = sv_polled v \<and> sv_deadline v' = sv_deadline v"
  "keeps_poll v Returned"
  by (simp_all add: keeps_poll_def)

lemma round_keeps_poll:
  assumes "sv_deadline v = Some d"
  shows "yields (keeps_poll v) (stream_round X p rid v)"
proof -
  have "yields (keeps_poll v) (stream_quiet X p rid v)"
    unfolding stream_quiet_def assms option.case by (intro yields_rules) simp
  moreover have "yields (keeps_poll v) (stream_line X v line)" for line
    unfolding stream_line_def stream_chunk_def Let_def by (intro yields_rules yields_json) simp_all
  ultimately show ?thesis
    unfolding stream_round_def stream_cancelled_def stream_read_def
    by (intro yields_rules yields_tick yields_returned) simp_all
qed

lemma stream_keeps_poll:
  "stream_loop X p rid n v s = (Inr (Next v'), t) \<Longrightarrow> sv_deadline v = Some d \<Longrightarrow> sv_polled v' = sv_polled v"
proof (induction n arbitrary: v s)
  case (Suc n)
  from Suc.prems(1) show ?case unfolding stream_loop.simps
  proof (cases rule: bindF_elim)
    case (step a u)
    obtain leave v'' where a: "a = (leave, v'')" by (cases a)
    have k: "sv_polled v'' = sv_polled v" "sv_deadline v'' = Some d"
      using yieldsD [OF round_keeps_poll [OF Suc.prems(2)] step(1)] Suc.prems(2) by (simp_all add: a)
    show ?thesis
    proof (cases leave)
      case True
      then show ?thesis using step(2) k by (simp add: a returnE_def)
    next
      case False
      then show ?thesis using step(2) Suc.IH [OF _ k(2)] k(1) by (simp add: a)
    qed
  qed simp_all
qed (simp add: returnE_def)

text \<open>A run that ends with a failure the status tells of: what is left of the messages, then the failure.\<close>

lemma yields_natives: "\<exists>t. yield_all X es s = (Inr (), t) \<and> out t = out s @ List.map native_yield es"
proof (induction es arbitrary: s)
  case (Cons e es)
  obtain u where u: "yieldE X (native_yield e) s = (Inr (), u)" "out u = out s @ [native_yield e]" by (simp add: yieldE_def)
  from Cons.IH [of u] u show ?case by (auto simp: yield_all_def thenE_def bindE_def)
qed (simp add: yield_all_def)

lemma finish_failed:
  assumes "coalescer_ok (coal (nm s))" and "ye_type (status_yield e) \<noteq> ''run.completed''"
    and "st \<notin> {''completed'', ''succeeded'', ''success''}"
  shows "\<exists>t es. conclude_run X c p saw st data e s = (Inr Returned, t) \<and> out t = out s @ es @ [status_yield e]"
proof -
  obtain es n' where "close (x_native X) ''failed'' (nm s) = (Inr es, n')" using close_returns [OF assms(1)] by blast
  then have "\<exists>s1. events_after_status_terminal X st data saw s = (Inr es, s1) \<and> out s1 = out s"
    using assms(3) by (simp add: events_after_status_terminal_def onN_def bindE_def Let_def)
  then obtain s1 where 1: "events_after_status_terminal X st data saw s = (Inr es, s1)" and o1: "out s1 = out s" by blast
  obtain t where 2: "yield_all X es s1 = (Inr (), t)" and o2: "out t = out s1 @ List.map native_yield es"
    using yields_natives by blast
  have 3: "onW (terminal_events_with_outputs (x_env X) (x_net X) (output_call_of c p) (status_yield e) data) t
      = (Inr [status_yield e], t)"
    using assms(2) by (simp add: terminal_events_with_outputs_def onW_def)
  define b where "b \<longleftrightarrow> [status_yield e] \<noteq> [] \<and> ye_type (last [status_yield e]) \<in> set TERMINAL_EVENTS"
  obtain u where 4: "whenE b (mark_terminal p) t = (Inr (), u)" and o4: "out u = out t"
    using mark_terminal_returns [of p t] by (cases b) (auto simp: whenE_def)
  obtain v where 5: "forE [status_yield e] (yieldE X) u = (Inr (), v)" and o5: "out v = out u @ [status_yield e]"
    using yield_list_out by blast
  have "conclude_run X c p saw st data e s = (Inr Returned, v)"
    unfolding conclude_run_def
    by (simp only: bindE_def thenE_def 1 2 3 4 [unfolded b_def] 5 prod.case sum.case returnE_run)
  then show ?thesis
    using o1 o2 o4 o5 by (intro exI [of _ v] exI [of _ "List.map native_yield es"] conjI) simp_all
qed

lemma unreachable_terminal:
  "terminal_from_status [] (Some ''RUNTIME_UNREACHABLE'')
     = Some (failed_event ''RUNTIME_UNREACHABLE'' ''Hermes runtime status reconciliation failed'')"
  by (simp add: terminal_from_status_def RUNTIME_STATE_UNAVAILABLE_def str_set_def str_or_def)

lemma status_yield_failed: "status_yield (failed_event c m) = failed c m"
  by (simp add: status_yield_def failed_event_def failed_def)

lemma unreachable_poll:
  assumes "http_answer (x_env X) (length (ext_calls (wd s))) (HttpRequest ''GET'' (run_url (pp_gateway p) rid) (pp_headers p) JNull)
      = Unreachable"
    and "poll_status X p rid v0 s = (r, t)"
  shows "\<exists>d. r = Inr (Next (False, v0\<lparr>sv_polled := Some ([], None, Some ''RUNTIME_UNREACHABLE''), sv_deadline := Some d\<rparr>))"
proof -
  obtain w where "reconcile X p rid s = (Inr ([], None, Some ''RUNTIME_UNREACHABLE''), w)"
    using assms(1) by (simp add: reconcile_def onW_def reconcile_status_def http_op_def bindE_def Let_def)
  then show ?thesis
    using assms(2)
    by (auto simp: poll_status_def bindE_def Let_def is_wait_status_def WAIT_STATUSES_def unreachable_terminal monotonic_def)
qed

lemma polled_after_stream:
  assumes "sv_polled v = Some ([], None, Some ''RUNTIME_UNREACHABLE'')" and "coalescer_ok (coal (nm s))"
  shows "\<exists>t es. after_stream X n c p rid v s = (Inr Returned, t)
    \<and> out t = out s @ es @ [failed ''RUNTIME_UNREACHABLE'' ''Hermes runtime status reconciliation failed'']"
proof -
  let ?e = "failed_event ''RUNTIME_UNREACHABLE'' ''Hermes runtime status reconciliation failed''"
  define ev where "ev = progress_event ''RECONCILING'' ''reconciling hermes status''"
  have "\<exists>u. yieldE X ev s = (Inr (), u) \<and> out u = out s @ [ev] \<and> nm u = nm s" by (simp add: yieldE_def)
  then obtain u where y: "yieldE X ev s = (Inr (), u)" and o: "out u = out s @ [ev]" and nm: "nm u = nm s" by blast
  have 1: "last_status X p rid v s = (Inr ([], None, Some ''RUNTIME_UNREACHABLE''), u)"
    by (simp add: last_status_def ev_def [symmetric] thenE_def bindE_def y assms(1))
  have "ye_type (status_yield ?e) \<noteq> ''run.completed''" by (simp add: status_yield_failed)
  then obtain t es where 2: "conclude_run X c p (sv_assistant v) [] None ?e u = (Inr (Returned :: unit flow), t)"
    and o2: "out t = out u @ es @ [status_yield ?e]"
    using finish_failed [of u ?e "[]" X c p "sv_assistant v" None] assms(2) nm by auto
  have "after_stream X n c p rid v s = (Inr Returned, t)"
    unfolding after_stream_def
    by (simp only: bindE_def [of "last_status X p rid v"] 1 prod.case sum.case unreachable_terminal option.case 2)
  then show ?thesis
    using o o2 by (intro exI [of _ t] exI [of _ "ev # es"] conjI) (simp_all add: status_yield_failed)
qed

section \<open>A bad URL\<close>

lemma bad_output_raises:
  assumes "collect_output_refs d = ref # rs" and "http_output_url ref = Some url" and "http_origin N url = Inl e"
    and "str_set (oc_run_id oc)" and "ye_type ev = ''run.completed''"
  shows "terminal_events_with_outputs E N oc ev (Some d) w = (Inl e, w)"
proof -
  have "persist_output_ref E N oc run_id ref w = (Inl e, w)" for run_id
    by (simp add: persist_output_ref_def assms(2,3) output_url_access_def bindE_def)
  then have "persist_declared_outputs E N oc (Some d) w = (Inl e, w)"
    using assms(1,4)
    by (simp add: persist_declared_outputs_def request_def bindE_def str_set_def)
  then show ?thesis using assms(5) by (simp add: terminal_events_with_outputs_def bindE_def)
qed

section \<open>A run to look at\<close>

text \<open>
  A runtime that meets the contract, answers every request with 200 and the same body, and whose event
  stream ends at once; the consumer changes nothing.
\<close>

definition demo_answer :: dict where
  "demo_answer =
     [(''version'', JStr ''2026.9.1''), (''features'', JList (List.map JStr REQUIRED_FEATURES)),
      (''id'', JStr ''rt-1''), (''status'', JStr ''completed''), (''output'', JStr ''fine'')]"

definition demo_net :: net_env where
  "demo_net = \<lparr>urls = texts_of demo_env, resolve_host = (\<lambda>k h p. Inr [''10.0.0.1'']),
     origin_allowlist = [], host_allowlist = [], content_of = (\<lambda>k x. [])\<rparr>"

definition demo_engine :: "http \<Rightarrow> (nat \<Rightarrow> bool) \<Rightarrow> engine_env" where
  "demo_engine answer cancel =
     \<lparr>x_env = sample_env\<lparr>http_answer := (\<lambda>k x. answer)\<rparr>, x_net = demo_net, x_native = demo_env,
      x_digits = (\<lambda>u. None), x_stream = (\<lambda>k. StreamEnd), x_cancel = cancel, x_monotonic = (\<lambda>k. int k),
      x_between = (\<lambda>k w. w), x_timeout_seconds = 5, x_rich_tool_gate = False, x_mcp_url = [], x_capability_ttl = 60\<rparr>"

definition demo_call :: "string \<Rightarrow> dict \<Rightarrow> hermes_call" where
  "demo_call tool route =
     \<lparr>hc_tool_name = tool, hc_arguments = [(''prompt'', JStr ''do it'')], hc_route = (''gateway_url'', JStr ''http://gw'') # route,
      hc_org_id = Some ''org-1'', hc_run_id = Some ''run-1'', hc_attempt_id = Some ''att-1''\<rparr>"

definition demo_good :: engine_env where
  "demo_good = demo_engine (Response 200 (Some (JObj demo_answer))) (\<lambda>k. False)"

lemma demo_silent: "silent_consumer (demo_engine answer cancel)"
  by (simp add: silent_consumer_def demo_engine_def)

definition demo_prepared :: prepared where
  "demo_prepared = prepare_run (demo_call ''skill'' []) JNull ''http://gw'' 1"

text \<open>An output whose URL has an opening bracket only.\<close>

lemma bad_refs:
  "collect_output_refs [(''artifacts'', JList [JObj [(''url'', JStr ''http://['')]])] = [[(''url'', JStr ''http://['')]]"
  by (simp add: collect_output_refs.simps dget_def refs_under_def dicts_of_def http_output_url_def is_http_url_def startswith_def)

lemma bad_url: "http_output_url [(''url'', JStr ''http://['')] = Some ''http://[''"
  by (simp add: dget_def http_output_url_def is_http_url_def startswith_def)

lemma bad_text: "status_output_text [(''artifacts'', JList [JObj [(''url'', JStr ''http://['')]])] = []"
  by (simp add: status_output_text.simps dget_def)

lemma bad_origin: "http_origin N ''http://['' = Inl (ValueError ''Invalid IPv6 URL'')"
proof -
  have s: "filter (\<lambda>c. byte c \<notin> {9, 10, 13}) (dropWhile (\<lambda>c. byte c \<le> 32) ''http://['') = ''http://[''"
    by simp
  have cs: "cut_scheme ''http://['' = (''http'', ''//['')" by (simp add: cut_scheme_def) code_simp
  have cn: "cut_netloc ''//['' = (''['', [])" by code_simp
  have ct: "cut_tail d [] = ([], [])" for d by (simp add: cut_tail_def cut_at_def)
  have "CHR ''['' \<in> set ''[''" "CHR '']'' \<notin> set ''[''" by simp_all
  then have "urlparse (urls N) ''http://['' = Inl (ValueError ''Invalid IPv6 URL'')"
    unfolding urlparse_def s Let_def cs cn by (simp only: prod.case cs cn ct split: prod.splits) simp
  then show ?thesis by (simp add: http_origin_def)
qed

section \<open>Properties\<close>

text \<open>A run that is over has told so exactly once, with its last event: whatever the runtime, the network, the
  stream and the consumer do, the events the engine has yielded when it returns end with run.completed,
  run.failed or run.cancelled and hold no other of the three; as long as it has not returned, none of them.\<close>

theorem engine_ends_once:
  assumes "execute_hermes_run X fuel c (new_engine w) = (r, t)"
  shows "if r = Inr Returned then finishing (out t) else quiet (out t)"
proof (cases "r = Inr Returned")
  case True
  then show ?thesis
    using phased_over [OF engine_ended, of X fuel c "new_engine w" t] assms by (auto simp: ended_def finishing_def new_engine_def)
next
  case False
  then show ?thesis
    using phased_go [OF engine_ended assms] by (auto simp: spoke_def new_engine_def)
qed

theorem engine_ends_once_witness:
  "\<exists>t. execute_hermes_run (demo_engine Unreachable (\<lambda>k. True)) 3 (demo_call ''skill'' []) (new_engine sample_world) = (Inr Returned, t)
     \<and> finishing (out t)"
proof -
  obtain t where r: "execute_hermes_run (demo_engine Unreachable (\<lambda>k. True)) 3 (demo_call ''skill'' []) (new_engine sample_world)
      = (Inr Returned, t)"
    by (simp add: execute_hermes_run_def thenE_def bindE_def yieldE_def cancel_is_set_def yield_return_def demo_engine_def)
  from engine_ends_once [OF r] r show ?thesis by (intro exI conjI) simp_all
qed

text \<open>C16: A cancelled run ends: if from its \<open>J\<close>-th look on the engine finds the cancel event set, it is through after
  \<open>J + 1\<close> rounds of each of its loops, whatever the stream brings and the runtime answers.\<close>

theorem cancelled_run_stops:
  assumes "\<forall>j\<ge>J. x_cancel X j" and "J < fuel"
  shows "fst (execute_hermes_run X fuel c s) \<noteq> Inr Running"
proof
  assume "fst (execute_hermes_run X fuel c s) = Inr Running"
  then obtain t where "execute_hermes_run X fuel c s = (Inr Running, t)" by (metis prod.collapse)
  then have "busy X fuel (Running :: unit flow)" using yieldsD [OF engine_busy] by blast
  then obtain k where "uncancelled X k fuel" by (auto simp: busy_def)
  then have "\<not> x_cancel X (k + J)" using assms(2) by (simp add: uncancelled_def)
  then show False using assms(1) by simp
qed

theorem cancelled_run_stops_witness:
  "fst (execute_hermes_run (demo_engine (Response 200 (Some (JObj demo_answer))) (\<lambda>k. 5 \<le> k)) 6 (demo_call ''skill'' [])
     (new_engine sample_world)) \<noteq> Inr Running"
  by (rule cancelled_run_stops [of 5]) (simp_all add: demo_engine_def)

text \<open>C15: A run is submitted at most once, with its idempotency key, and only to a gateway that has answered the
  capability probe with every feature the run requires, in a version that is supported, for a topology
  that is allowed; a remote agent with attachments is never submitted.\<close>

theorem submitted_under_contract:
  assumes "execute_hermes_run X fuel c s = (r, t)" and "silent_consumer X"
  shows "(\<exists>cs. ext_calls (wd t) = ext_calls (wd s) @ cs \<and> list_all other cs)
    \<or> (\<exists>cs ds gateway headers body caps version_raw.
        ext_calls (wd t) = ext_calls (wd s) @ cs @ [HttpRequest ''POST'' (gateway @ ''/v1/runs'') headers body] @ ds
        \<and> list_all other cs \<and> list_all other ds
        \<and> (\<exists>generation. dget headers ''Idempotency-Key'' = JStr (str_or (hc_run_id c) [] @ '':'' @
              str_or (hc_attempt_id c) [] @ '':'' @ show_int generation))
        \<and> capabilities_answered X gateway caps \<and> version_answered X gateway caps version_raw
        \<and> version_supported (x_digits X) version_raw \<and> meets_contract c caps
        \<and> (hc_tool_name c \<noteq> ''remote_agent'' \<or> attachment_descriptors (hc_route c) = Inr []))"
proof -
  obtain minted g gen where w: "submits_well X c (prepare_run c minted g gen) s t"
    using submittingD [OF engine_submits [OF assms(2)] assms(1)] unfolding submits_for_def by blast
  let ?p = "prepare_run c minted g gen"
  have p: "pp_gateway ?p = g" "pp_key ?p = str_or (hc_run_id c) [] @ '':'' @ str_or (hc_attempt_id c) [] @ '':'' @ show_int gen"
    by (simp_all add: prepare_run_def Let_def)
  show ?thesis
  proof (cases "esends other s t")
    case True
    then show ?thesis by (auto simp: esends_def sends_def list_all_iff)
  next
    case False
    then have s: "submits ?p s t" and u: "under_contract X c g" using w p(1) by (auto simp: submits_well_def)
    from s obtain cs payload ds where e: "ext_calls (wd t) = ext_calls (wd s) @ cs @ [submit_request ?p payload] @ ds"
      and o: "list_all other cs" "list_all other ds"
      by (auto simp: submits_def list_all_iff)
    have key: "dget (AList.update ''Idempotency-Key'' (JStr (pp_key ?p)) (pp_headers ?p)) ''Idempotency-Key''
        = JStr (str_or (hc_run_id c) [] @ '':'' @ str_or (hc_attempt_id c) [] @ '':'' @ show_int gen)"
      by (simp only: dget_update p(2) if_True simp_thms)
    from u obtain caps ver where u': "capabilities_answered X g caps" "version_answered X g caps ver"
      "version_supported (x_digits X) ver" "meets_contract c caps"
      and a: "hc_tool_name c \<noteq> ''remote_agent'' \<or> attachment_descriptors (hc_route c) = Inr []"
      unfolding under_contract_def by blast
    show ?thesis
      by (rule disjI2, intro exI conjI, rule e [unfolded submit_request_def p(1)])
        (rule o key u' a)+
  qed
qed

theorem submitted_under_contract_witness:
  "\<exists>t. snd (execute_hermes_run demo_good 9 (demo_call ''remote_agent'' [(''attachment_descriptors'', JList [JObj [(''type'', JStr ''attachment'')]])])
       (new_engine sample_world)) = t
     \<and> (\<exists>cs. ext_calls (wd t) = cs \<and> list_all other cs)"
proof -
  let ?c = "demo_call ''remote_agent'' [(''attachment_descriptors'', JList [JObj [(''type'', JStr ''attachment'')]])]"
  obtain r t where r: "execute_hermes_run demo_good 9 ?c (new_engine sample_world) = (r, t)" by fastforce
  have s: "silent_consumer demo_good" by (simp add: demo_good_def demo_silent)
  have "hc_tool_name ?c = ''remote_agent''" "attachment_descriptors (hc_route ?c) \<noteq> Inr []"
    "ext_calls (wd (new_engine sample_world)) = []"
    by (simp_all add: demo_call_def attachment_descriptors_def or_else_def dicts_of_def new_engine_def sample_world_def)
  with submitted_under_contract [OF r s] r show ?thesis by simp
qed

text \<open>C17: Whatever a runtime declares as its outputs, fetching them only reads, and never from one of the metadata
  services. The credentials of the run go to the origin of the gateway alone. A host that is neither the
  gateway nor listed in the settings is asked only when, in the check right before the request, its name led
  to addresses outside of the internal networks only. (Nothing is said of the addresses the request itself
  then resolves the name to: they can be others.)\<close>

theorem outputs_fetched_safely:
  assumes "persist_declared_outputs E N oc data w = (r, w')"
  shows "\<exists>cs. ext_calls w' = ext_calls w @ cs \<and> list_all (\<lambda>(k, x). \<exists>url headers scheme host port.
      x = HttpRequest ''GET'' url headers JNull
      \<and> http_origin N url = Inr (Some (scheme, host, port)) \<and> \<not> metadata_service host
      \<and> (http_origin N (oc_gateway_url oc) = Inr (Some (scheme, host, port))
         \<or> no_credentials headers \<and> (listed N (scheme, host, port) \<or> leads_outside N k host port)))
    (enumerate (length (ext_calls w)) cs)"
proof -
  obtain cs where cs: "ext_calls w' = ext_calls w @ cs"
    "list_all (\<lambda>(k, x). allowed_fetch N oc k x) (enumerate (length (ext_calls w)) cs)"
    using guar_result [OF outputs_sends assms] by (auto simp: sends_at_def)
  then show ?thesis unfolding allowed_fetch_def may_lead_to_def split_paired_Ex fst_conv snd_conv by blast
qed

definition demo_output_call :: output_call where
  "demo_output_call = \<lparr>oc_headers = [(''Authorization'', JStr ''Bearer t'')], oc_org_id = None,
     oc_run_id = Some ''run-1'', oc_attempt_id = None, oc_gateway_url = ''http://gw''\<rparr>"

theorem outputs_fetched_safely_witness:
  "\<exists>cs. ext_calls (snd (persist_declared_outputs sample_env demo_net demo_output_call
       (Some [(''artifacts'', JList [JObj [(''url'', JStr ''http://gw/a.txt'')]])]) sample_world)) = cs
     \<and> list_all (\<lambda>(k, x). \<exists>url headers scheme host port. x = HttpRequest ''GET'' url headers JNull
         \<and> http_origin demo_net url = Inr (Some (scheme, host, port)) \<and> \<not> metadata_service host)
       (enumerate 0 cs)"
proof -
  let ?d = "Some [(''artifacts'', JList [JObj [(''url'', JStr ''http://gw/a.txt'')]])]"
  obtain r w' where r: "persist_declared_outputs sample_env demo_net demo_output_call ?d sample_world = (r, w')" by fastforce
  have "ext_calls sample_world = []" by (simp add: sample_world_def)
  with outputs_fetched_safely [OF r] r show ?thesis by (fastforce simp: list_all_iff)
qed

text \<open>One status poll that does not get through decides the run: however the stream goes on after it, with
  messages, results or the completion of the run, the status is not asked for again and the run is
  reported failed as unreachable.\<close>

theorem failed_poll_decides:
  assumes "http_answer (x_env X) (length (ext_calls (wd s0)))
      (HttpRequest ''GET'' (run_url (pp_gateway p) rid) (pp_headers p) JNull) = Unreachable"
    and "poll_status X p rid v0 s0 = (Inr (Next (False, v)), s)"
    and "stream_loop X p rid n v s = (Inr (Next v'), u)" and "coalescer_ok (coal (nm u))"
  shows "\<exists>t es. after_stream X m c p rid v' u = (Inr Returned, t)
    \<and> out t = out u @ es @ [failed ''RUNTIME_UNREACHABLE'' ''Hermes runtime status reconciliation failed'']"
proof -
  obtain d where v: "v = v0\<lparr>sv_polled := Some ([], None, Some ''RUNTIME_UNREACHABLE''), sv_deadline := Some d\<rparr>"
    using unreachable_poll [OF assms(1,2)] by auto
  then have "sv_polled v' = Some ([], None, Some ''RUNTIME_UNREACHABLE'')"
    using stream_keeps_poll [OF assms(3), of d] by simp
  from polled_after_stream [OF this assms(4)] show ?thesis .
qed

theorem failed_poll_decides_witness:
  "\<exists>v s v' u t es. poll_status (demo_engine Unreachable (\<lambda>k. False)) demo_prepared ''rt-1'' new_stream_vars (new_engine sample_world)
       = (Inr (Next (False, v)), s)
     \<and> stream_loop (demo_engine Unreachable (\<lambda>k. False)) demo_prepared ''rt-1'' 1 v s = (Inr (Next v'), u)
     \<and> after_stream (demo_engine Unreachable (\<lambda>k. False)) 1 (demo_call ''skill'' []) demo_prepared ''rt-1'' v' u = (Inr Returned, t)
     \<and> out t = out u @ es @ [failed ''RUNTIME_UNREACHABLE'' ''Hermes runtime status reconciliation failed'']"
proof -
  let ?X = "demo_engine Unreachable (\<lambda>k. False)"
  have h: "http_answer (x_env ?X) k x = Unreachable" for k x by (simp add: demo_engine_def)
  obtain r s where p: "poll_status ?X demo_prepared ''rt-1'' new_stream_vars (new_engine sample_world) = (r, s)" by fastforce
  then obtain v where r: "r = Inr (Next (False, v))" using unreachable_poll [OF h p] by blast
  have nm: "nm s = new_normalizer [] []"
    using p by (auto simp: poll_status_def reconcile_def reconcile_status_def http_op_def onW_def bindE_def Let_def h
        is_wait_status_def WAIT_STATUSES_def unreachable_terminal monotonic_def new_engine_def)
  obtain u where l: "stream_loop ?X demo_prepared ''rt-1'' 1 v s = (Inr (Next v), u)" and u: "nm u = nm s"
    by (simp add: stream_round_def stream_read_def bindF_def bindE_def cancel_is_set_def next_line_def demo_engine_def)
  have "coalescer_ok (coal (nm u))" by (simp add: u nm new_normalizer_def)
  from failed_poll_decides [OF h p [unfolded r] l this, of 1 "demo_call ''skill'' []"] show ?thesis
    by (elim exE conjE) (intro exI conjI, rule p [unfolded r], rule l)
qed

text \<open>A malformed URL among the outputs of a completed run, required or not, undoes the completion: the engine
  raises instead of yielding its terminal event, and so reports the run as failed to start.\<close>

theorem bad_output_url_fails_run:
  assumes "collect_output_refs d = ref # rs" and "http_output_url ref = Some url" and "http_origin (x_net X) url = Inl e"
    and "str_set (hc_run_id c)" and "en_event_type ev = ''run.completed''" and "coalescer_ok (coal (nm s))"
    and "st = ''completed''" and "status_output_text d = []"
  shows "\<exists>t. conclude_run X c p saw st (Some d) ev s = (Inl e :: exn + unit flow, t) \<and> (\<exists>es. out t = out s @ es \<and> quiet es)"
proof -
  obtain es n' where "close (x_native X) ''completed'' (nm s) = (Inr es, n')" using close_returns [OF assms(6)] by blast
  then have "\<exists>s1. events_after_status_terminal X st (Some d) saw s = (Inr es, s1) \<and> out s1 = out s"
    using assms(7,8) by (simp add: events_after_status_terminal_def onN_def bindE_def Let_def)
  then obtain s1 where 1: "events_after_status_terminal X st (Some d) saw s = (Inr es, s1)" and o1: "out s1 = out s" by blast
  obtain t where 2: "yield_all X es s1 = (Inr (), t)" and o2: "out t = out s1 @ List.map native_yield es"
    using yields_natives by blast
  have "terminal_events_with_outputs (x_env X) (x_net X) (output_call_of c p) (status_yield ev) (Some d) (wd t) = (Inl e, wd t)"
    by (rule bad_output_raises [OF assms(1-3)])
      (use assms(4,5) in \<open>simp_all add: output_call_of_def status_yield_def plain_event_def\<close>)
  then have 3: "onW (terminal_events_with_outputs (x_env X) (x_net X) (output_call_of c p) (status_yield ev) (Some d)) t = (Inl e, t)"
    by (simp add: onW_def)
  have c: "conclude_run X c p saw st (Some d) ev s = (Inl e :: exn + unit flow, t)"
    unfolding conclude_run_def by (simp only: bindE_def thenE_def 1 2 3 prod.case sum.case)
  have "native_only es" by (rule yieldsD [OF leftovers_native 1])
  then have "quiet (List.map native_yield es)"
    using native_not_terminal by (simp add: quiet_def native_only_def native_yield_def list_all_iff)
  with c o1 o2 show ?thesis by auto
qed

theorem bad_output_url_fails_run_witness:
  "\<exists>t. conclude_run demo_good (demo_call ''skill'' []) demo_prepared False ''completed''
       (Some [(''artifacts'', JList [JObj [(''url'', JStr ''http://['')]])])
       \<lparr>en_event_type = ''run.completed'', en_payload = []\<rparr> (new_engine sample_world)
       = (Inl (ValueError ''Invalid IPv6 URL'') :: exn + unit flow, t)"
proof -
  have "coalescer_ok (coal (nm (new_engine sample_world)))"
    by (simp add: new_engine_def new_normalizer_def)
  moreover have "str_set (hc_run_id (demo_call ''skill'' []))" by (simp add: demo_call_def str_set_def str_or_def)
  ultimately show ?thesis
    using bad_output_url_fails_run [OF bad_refs bad_url bad_origin _ _ _ refl bad_text,
      of "demo_call ''skill'' []" "\<lparr>en_event_type = ''run.completed'', en_payload = []\<rparr>" "new_engine sample_world" demo_good demo_prepared False]
    by (elim meta_impE) (simp_all, elim exE conjE, rule exI)
qed

end
