(* ===== verification/Connector_Props.thy ===== *)
theory Connector_Props
  imports Connector_Laws Engine_Props Internal_Networks
begin

text \<open>
  The properties of connectors and of the engine port: where requests can go, where the check of targets
  falls short, and how a run ends.
\<close>

section \<open>Networks\<close>

lemma allowed_not_internal: "\<not> is_forbidden_ip i \<Longrightarrow> \<not> internal i"
  using internal_private [of i] by (auto simp: is_forbidden_ip_def)

section \<open>Entries of an allow list\<close>

text \<open>Texts of digits and dots, which are addresses when they are hosts.\<close>

definition address_char :: "char \<Rightarrow> bool" where
  "address_char c \<longleftrightarrow> is_digit c \<or> c = CHR ''.''"

lemma address_byte: "address_char c \<Longrightarrow> 46 \<le> byte c \<and> byte c \<le> 57 \<and> byte c \<noteq> 47"
  by (auto simp: address_char_def is_digit_def)

lemma address_free: "list_all address_char h \<Longrightarrow> byte d < 46 \<or> byte d = 47 \<or> 57 < byte d \<Longrightarrow> d \<notin> set h"
  using address_byte by (fastforce simp: list_all_iff)

lemma address_lower: "list_all address_char h \<Longrightarrow> lower h = h"
proof -
  have "lower_char c = c" if "address_char c" for c using address_byte [OF that] by (simp add: lower_char_def)
  then show "list_all address_char h \<Longrightarrow> lower h = h" by (auto simp: lower_def list_all_iff intro: map_idI)
qed

lemma address_path: "address_char c \<Longrightarrow> c \<notin> set ''/?#''"
proof
  assume a: "address_char c" and "c \<in> set ''/?#''"
  then have "byte c = 47 \<or> byte c = 63 \<or> byte c = 35" by auto
  with address_byte [OF a] show False by linarith
qed

lemma dropWhile_none: "list_all (\<lambda>c. \<not> p c) s \<Longrightarrow> dropWhile p s = s"
  by (cases s) auto

lemma rstrip_none: "s = [] \<or> \<not> p (last s) \<Longrightarrow> rstrip_of p s = s"
  by (cases s rule: rev_cases) (auto simp: rstrip_of_def)

lemma cut_at_none: "d \<notin> set s \<Longrightarrow> cut_at d s = None"
  by (simp add: cut_at_def)

definition bare_text :: "string \<Rightarrow> bool" where
  "bare_text s \<longleftrightarrow> s \<noteq> [] \<and> list_all (\<lambda>c. address_char c \<or> c = CHR ''/'') s \<and> last s \<noteq> CHR ''.''"

lemma bare_byte: "bare_text s \<Longrightarrow> c \<in> set s \<Longrightarrow> 46 \<le> byte c \<and> byte c \<le> 57"
  by (auto simp: bare_text_def list_all_iff dest: address_byte)

lemma bare_free: "bare_text s \<Longrightarrow> byte d < 46 \<or> 57 < byte d \<Longrightarrow> d \<notin> set s"
  using bare_byte by fastforce

lemma bare_same: "bare_text s \<Longrightarrow> c \<in> set s \<Longrightarrow> \<not> is_space c \<and> lower_char c = c"
  using bare_byte [of s c] by (auto simp: is_space_def lower_char_def)

lemma contains_starts: "contains_sub t p \<Longrightarrow> p \<noteq> [] \<Longrightarrow> set p \<subseteq> set t"
proof (induction t p rule: contains_sub.induct)
  case (2 c t p)
  show ?case
  proof (cases "startswith (c # t) p")
    case True
    then obtain r where "c # t = p @ r" by (auto simp: startswith_iff)
    then have "set (c # t) = set (p @ r)" by (rule arg_cong)
    then show ?thesis by simp
  next
    case False
    then have "set p \<subseteq> set t" using 2 by simp
    then show ?thesis by auto
  qed
qed simp

lemma bare_normal:
  assumes "bare_text s" shows "rstrip_dot (lower (strip s)) = s" "\<not> contains_sub s ''://''"
proof -
  have spaces: "list_all (\<lambda>c. \<not> is_space c) s" and same: "List.map lower_char s = s"
    using bare_same [OF assms] by (auto simp: list_all_iff intro: map_idI)
  have ends: "s \<noteq> []" "last s \<noteq> CHR ''.''" using assms by (auto simp: bare_text_def)
  then have "\<not> is_space (last s)" using spaces by (simp add: list_all_iff)
  then have "strip s = s" by (simp add: strip_def lstrip_def dropWhile_none spaces rstrip_none)
  then show "rstrip_dot (lower (strip s)) = s"
    using ends(2) by (simp add: lower_def same rstrip_dot_def rstrip_none)
  have "CHR '':'' \<notin> set s" by (rule bare_free [OF assms]) simp
  moreover have "CHR '':'' \<in> set ''://''" by simp
  ultimately show "\<not> contains_sub s ''://''" using contains_starts [of s "''://''"] by blast
qed

lemma takeWhile_before: "list_all p h \<Longrightarrow> (q = [] \<or> \<not> p (hd q)) \<Longrightarrow> takeWhile p (h @ q) = h \<and> dropWhile p (h @ q) = q"
  by (cases q) (auto simp: list_all_iff takeWhile_append2 dropWhile_append2)

text \<open>The host of such a text ends at its first slash.\<close>

lemma bare_url:
  assumes "bare_text (h @ q)" and "h \<noteq> []" and "list_all address_char h" and "q = [] \<or> hd q = CHR ''/''"
    and "netloc_ok T h"
  shows "\<exists>u. urlparse T (''//'' @ h @ q) = Inr u \<and> u_netloc u = h"
proof -
  let ?s = "h @ q"
  have url: "byte c \<notin> {9, 10, 13} \<and> 32 < byte c" if "c \<in> set (''//'' @ ?s)" for c
  proof -
    have "byte c = 47 \<or> c \<in> set ?s" using that by auto
    then have "46 \<le> byte c" using bare_byte [OF assms(1), of c] by auto
    then show ?thesis by auto
  qed
  have f: "filter (\<lambda>c. byte c \<notin> {9, 10, 13}) (dropWhile (\<lambda>c. byte c \<le> 32) (''//'' @ ?s)) = ''//'' @ ?s"
  proof -
    have "dropWhile (\<lambda>c. byte c \<le> 32) (''//'' @ ?s) = ''//'' @ ?s" by simp
    moreover have "filter (\<lambda>c. byte c \<notin> {9, 10, 13}) (''//'' @ ?s) = ''//'' @ ?s"
      using url by (intro filter_True) blast
    ultimately show ?thesis by simp
  qed
  have free: "d \<notin> set ?s" if "byte d < 46 \<or> 57 < byte d" for d by (rule bare_free [OF assms(1) that])
  have "CHR '':'' \<notin> set (''//'' @ ?s)" using free [of "CHR '':''"] by simp
  then have cs: "cut_scheme (''//'' @ ?s) = ([], ''//'' @ ?s)" by (simp only: cut_scheme_def cut_at_def if_False option.case)
  have "list_all (\<lambda>c. c \<notin> set ''/?#'') h" using assms(3) by (auto simp only: list_all_iff address_path)
  then have "takeWhile (\<lambda>c. c \<notin> set ''/?#'') ?s = h \<and> dropWhile (\<lambda>c. c \<notin> set ''/?#'') ?s = q"
    by (rule takeWhile_before) (use assms(4) in auto)
  moreover have "drop 2 (''//'' @ ?s) = ?s" "startswith (''//'' @ ?s) ''//''" by (simp, rule startswith_append)
  ultimately have cn: "cut_netloc (''//'' @ ?s) = (h, q)" by (simp only: cut_netloc_def if_True)
  have "CHR ''#'' \<notin> set q" "CHR ''?'' \<notin> set q" using free [of "CHR ''#''"] free [of "CHR ''?''"] by auto
  then have ct: "cut_tail (CHR ''#'') q = (q, [])" "cut_tail (CHR ''?'') q = (q, [])"
    by (simp_all only: cut_tail_def cut_at_def if_False option.case)
  have o: "CHR ''['' \<notin> set h" "CHR '']'' \<notin> set h" using free [of "CHR ''[''"] free [of "CHR '']''"] by auto
  obtain path params where sp: "split_params q = (path, params)" by fastforce
  have "([]::string) \<in> set uses_params" by (simp add: uses_params_def)
  with assms(5) o show ?thesis
    unfolding urlparse_def f Let_def cs
    by (simp only: prod.case cn ct sp split: prod.splits) simp
qed

lemma host_only:
  assumes "u_netloc u = h" and "h \<noteq> []" and "list_all address_char h"
  shows "url_hostname u = Some h" "url_port u = Inr None"
proof -
  have no: "CHR ''@'' \<notin> set h" "CHR ''['' \<notin> set h" "CHR '':'' \<notin> set h" "CHR ''%'' \<notin> set h"
    by (rule address_free [OF assms(3)], simp)+
  have "takeWhile (\<lambda>c. c \<noteq> CHR ''@'') (rev h) = rev h" 
  proof -
    have "\<forall>c\<in>set (rev h). c \<noteq> CHR ''@''" using no(1) by (auto simp only: set_rev)
    then show ?thesis by (simp only: takeWhile_eq_all_conv)
  qed
  then have "hostinfo h = (h, [])" using no by (simp only: hostinfo_def Let_def cut_at_def cut_tail_def if_False option.case rev_rev_ident)
  then have hi: "hostinfo (u_netloc u) = (h, [])" by (simp only: assms(1))
  have "cut_at (CHR ''%'') h = None" using no(4) by (simp only: cut_at_def if_False)
  then show "url_hostname u = Some h"
    using assms(2) address_lower [OF assms(3)] by (simp add: url_hostname_def hi)
  show "url_port u = Inr None" by (simp add: url_port_def hi)
qed

lemma bare_entry:
  assumes "bare_text (h @ q)" and "h \<noteq> []" and "list_all address_char h" and "q = [] \<or> hd q = CHR ''/''"
    and "netloc_ok T h" and "last h \<noteq> CHR ''.''"
  shows "parse_entry T (JStr (h @ q)) = Inr (Some (h, JNull))"
proof -
  obtain u where u: "urlparse T (''//'' @ h @ q) = Inr u" "u_netloc u = h" using bare_url [OF assms(1-5)] by blast
  have "lower h = h" by (rule address_lower [OF assms(3)])
  then have "rstrip_dot (lower h) = h" using assms(6) by (simp add: rstrip_dot_def rstrip_none)
  moreover have "h @ q \<noteq> []" using assms(2) by simp
  ultimately show ?thesis
    using bare_normal [OF assms(1)] u(1) host_only [OF u(2) assms(2,3)] assms(2)
    by (simp add: parse_entry_def Let_def str_or_def)
qed

section \<open>Targets to look at\<close>

lemmas ip_eval = ip_network_def ip_address_def parse_ip4_def octet_def is_digit_def ip4_def prefix4_def prefix_text_def

text \<open>A metadata service inside the shared address space, which is not private.\<close>

lemma shared_allowed: "\<not> is_forbidden_ip (V4 (ip4 100 100 100 200))"
  by (simp add: is_forbidden_ip_def in_prefix_def netmask_def ip4_def mask_eq_exp_minus_1 private4_def in_some_def PRIVATE4_def)

lemma shared_text: "ip_address ''100.100.100.200'' = Some (V4 (ip4 100 100 100 200))"
  by (simp add: ip_eval)

lemma shared_string: "ip_string (V4 (ip4 100 100 100 200)) = ''100.100.100.200''"
proof -
  have "char_of (48::nat) = CHR ''0''" "char_of (49::nat) = CHR ''1''" "char_of (50::nat) = CHR ''2''" by code_simp+
  then show ?thesis by (simp add: octets_def ip4_def show_digits.simps)
qed

lemma short_url:
  assumes "url = ''http://'' @ h @ ''/''" and "cut_scheme url = (''http'', ''//'' @ h @ ''/'')"
    and "cut_netloc (''//'' @ h @ ''/'') = (h, ''/'')" and "netloc_ok T h"
    and "CHR ''['' \<notin> set h" and "CHR '']'' \<notin> set h" and "list_all (\<lambda>c. 32 < byte c) h"
  shows "urlparse T url = Inr \<lparr>u_scheme = ''http'', u_netloc = h, u_path = ''/'', u_params = [], u_query = [], u_fragment = []\<rparr>"
proof -
  have "filter (\<lambda>c. byte c \<notin> {9, 10, 13}) h = h"
    using assms(7) by (intro filter_True) (auto simp: list_all_iff)
  then have f: "filter (\<lambda>c. byte c \<notin> {9, 10, 13}) (dropWhile (\<lambda>c. byte c \<le> 32) url) = url"
    unfolding assms(1) by simp
  have ct: "cut_tail (CHR ''#'') ''/'' = (''/'', [])" "cut_tail (CHR ''?'') ''/'' = (''/'', [])" by code_simp+
  have sp: "split_params ''/'' = (''/'', [])" by code_simp
  show ?thesis
    using assms(4-6) unfolding urlparse_def f Let_def
    by (simp only: assms(2,3) prod.case ct sp if_False simp_thms if_cancel split: if_splits)
qed

text \<open>A service at that address, and a host that resolves to an address and to one inside a network.\<close>

lemma shared_validated:
  assumes "netloc_ok (cx_urls C) ''100.100.100.200''"
  shows "validated C None k ''http://100.100.100.200/'' = Inr [''100.100.100.200'']"
proof -
  have u: "urlparse (cx_urls C) ''http://100.100.100.200/''
      = Inr \<lparr>u_scheme = ''http'', u_netloc = ''100.100.100.200'', u_path = ''/'', u_params = [], u_query = [], u_fragment = []\<rparr>"
    by (rule short_url [OF _ _ _ assms]) (simp, code_simp, code_simp, simp, simp, simp)
  have h: "url_hostname \<lparr>u_scheme = ''http'', u_netloc = ''100.100.100.200'', u_path = p, u_params = [], u_query = [],
      u_fragment = []\<rparr> = Some ''100.100.100.200''" for p
    by (rule host_only) (simp_all add: address_char_def is_digit_def)
  have l: "rstrip_dot (lower ''100.100.100.200'') = ''100.100.100.200''" by code_simp
  have b: "\<not> blocked_host ''100.100.100.200''" by code_simp
  show ?thesis
    using shared_allowed
    by (simp add: validated_def u h l b Let_def str_or_def resolve_target_def shared_text shared_string check_addresses_def
        del: ip_string.simps)
qed

definition NETWORK_ENTRY :: "json list" where
  "NETWORK_ENTRY = [JObj [(''cidr'', JStr ''10.0.0.0/8'')]]"

lemma network_entry:
  assumes "ip_address a = Some i"
  shows "matches_allowlist T ''h'' [a, ''10.0.0.1''] 80 NETWORK_ENTRY = Inr True"
proof -
  have n: "rstrip_dot (lower (strip ''10.0.0.0/8'')) = ''10.0.0.0/8''" by code_simp
  have e: "parse_entry T (JObj [(''cidr'', JStr ''10.0.0.0/8'')]) = Inr (Some (''10.0.0.0/8'', JNull))"
    by (simp add: parse_entry_def or_else_def n)
  have h: "rstrip_dot (lower ''h'') = ''h''" by code_simp
  have net: "ip_network ''10.0.0.0/8'' = Some (Net4 (ip4 10 0 0 0, 8))" by (simp add: ip_eval)
  have inside: "ip_address ''10.0.0.1'' = Some (V4 (ip4 10 0 0 1))" "in_network (V4 (ip4 10 0 0 1)) (Net4 (ip4 10 0 0 0, 8))"
    by (simp_all add: ip_eval in_prefix_def netmask_def mask_eq_exp_minus_1)
  have "entry_matches ''h'' [a, ''10.0.0.1''] ''10.0.0.0/8'' = Inr True"
    using assms inside by (simp add: entry_matches_def startswith_def net)
  then show ?thesis by (simp add: NETWORK_ENTRY_def e other_port_def h)
qed

lemma network_validated:
  assumes "netloc_ok (cx_urls C) ''h''" and "cx_resolve C k ''h'' 80 = Inr [a, ''10.0.0.1'']" and "ip_address a = Some i"
  shows "validated C (Some NETWORK_ENTRY) k ''http://h/'' = Inr [a, ''10.0.0.1'']"
proof -
  have u: "urlparse (cx_urls C) ''http://h/''
      = Inr \<lparr>u_scheme = ''http'', u_netloc = ''h'', u_path = ''/'', u_params = [], u_query = [], u_fragment = []\<rparr>"
    by (rule short_url [OF _ _ _ assms(1)]) (simp, code_simp, code_simp, simp, simp, simp)
  have hi: "hostinfo ''h'' = (''h'', [])" and c: "cut_at (CHR ''%'') ''h'' = None" "lower ''h'' = ''h''" by code_simp+
  have l: "rstrip_dot ''h'' = ''h''" and b: "\<not> blocked_host ''h''" by code_simp+
  have ip: "ip_address ''h'' = None" by code_simp
  show ?thesis
    by (simp add: validated_def u url_hostname_def url_port_def hi c l b Let_def str_or_def resolve_target_def ip
        url_port_or_default_def default_port_def assms(2) check_addresses_def network_entry [OF assms(3)])
qed

lemma handled:
  assumes "validated C al (length (ext_calls w)) (rq_url q) = Inr (a # as)"
  shows "\<exists>hs. ext_calls (snd (handle_request C al q w)) = ext_calls w @ [Wire a (rq_method q) (rq_url q) hs (rq_body q)]"
  using assms by (simp add: handle_request_def validate_ssrf_def bindE_def thenE_def ext_call_def Let_def)

definition demo_connectors :: connector_env where
  "demo_connectors =
     \<lparr>cx_urls = texts_of demo_env, cx_secret_root = [''secrets''], cx_secret_file = (\<lambda>p. None), cx_environ = (\<lambda>v. None),
      cx_resolve = (\<lambda>k h p. Inr [''1.2.3.4'', ''10.0.0.1'']), cx_answer = (\<lambda>k x. Inr \<lparr>rs_status = 200, rs_json = Some JNull,
      rs_text = [], rs_location = []\<rparr>), cx_rows = (\<lambda>k x. Inr []), cx_url = (\<lambda>u p. Inr u), cx_redirect = (\<lambda>q r. Inr None),
      cx_race = (\<lambda>k. None)\<rparr>"

lemma demo_netloc: "netloc_ok (cx_urls demo_connectors) h"
  by (simp add: demo_connectors_def demo_env_def)

definition demo_request :: "string \<Rightarrow> request_out" where
  "demo_request url = \<lparr>rq_method = ''GET'', rq_url = url, rq_headers = [], rq_body = JNull\<rparr>"

section \<open>Properties\<close>

text \<open>C14: Whatever a connector is asked to do, and wherever redirections and name resolution lead it, a
  connector of the centre only sends requests to addresses outside of the private, loopback and link-local
  networks, each at the address that was checked, and to a database only statements that read.\<close>

theorem connector_stays_outside:
  assumes "execute_connector_run X C c s = (r, t)" and "silent_consumer X"
    and "dget (hc_route c) ''placement'' \<noteq> JStr ''edge''"
  shows "\<exists>cs. ext_calls (wd t) = ext_calls (wd s) @ cs \<and> list_all (\<lambda>x.
      (\<exists>a m url hs b i. x = Wire a m url hs b \<and> checked_address C None url a \<and> ip_address a = Some i \<and> \<not> internal i)
      \<or> (\<exists>d sql ps. x = Query d sql ps \<and> reading_statement (cx_urls C) sql)) cs"
proof -
  have "edge_allowlist_of (hc_route c) = Inr None" using assms(3) by (simp add: edge_allowlist_of_def)
  from guar_result [OF connector_sends [OF assms(2) this] assms(1)]
  obtain cs where cs: "ext_calls (wd t) = ext_calls (wd s) @ cs" "\<forall>x\<in>set cs. allowed_call C None x"
    by (auto simp: esends_def sends_def)
  have each: "(\<exists>a m url hs b i. x = Wire a m url hs b \<and> checked_address C None url a \<and> ip_address a = Some i \<and> \<not> internal i)
      \<or> (\<exists>d sql ps. x = Query d sql ps \<and> reading_statement (cx_urls C) sql)" if "allowed_call C None x" for x
    using that by (cases x) (auto dest: central_address allowed_not_internal)
  show ?thesis
    by (intro exI conjI, rule cs(1), unfold list_all_iff, rule ballI, rule each, erule bspec [OF cs(2)])
qed

theorem connector_stays_outside_witness:
  "\<exists>cs. ext_calls (wd (snd (execute_connector_run demo_good demo_connectors
       (demo_call ''t'' [(''connector_kind'', JStr ''rest''), (''connector_config'', JObj [(''url'', JStr ''http://h/'')])])
       (new_engine sample_world)))) = cs
     \<and> list_all (\<lambda>x. (\<exists>a m url hs b i. x = Wire a m url hs b \<and> ip_address a = Some i \<and> \<not> internal i)
         \<or> (\<exists>d sql ps. x = Query d sql ps)) cs"
proof -
  let ?c = "demo_call ''t'' [(''connector_kind'', JStr ''rest''), (''connector_config'', JObj [(''url'', JStr ''http://h/'')])]"
  obtain r t where r: "execute_connector_run demo_good demo_connectors ?c (new_engine sample_world) = (r, t)" by fastforce
  have s: "silent_consumer demo_good" by (simp add: demo_good_def demo_silent)
  have p: "dget (hc_route ?c) ''placement'' \<noteq> JStr ''edge''" by (simp add: demo_call_def)
  have "ext_calls (wd (new_engine sample_world)) = []" by (simp add: new_engine_def sample_world_def)
  with connector_stays_outside [OF r s p] r show ?thesis by (fastforce simp: list_all_iff)
qed

text \<open>The check of targets lets a connector reach a metadata service that the fetch policy of the same agent
  forbids: the address 100.100.100.200 lies in the shared address space, which counts neither as private nor as
  reserved, and is missing from the list of blocked hosts.\<close>

theorem metadata_service_reachable:
  assumes "netloc_ok (cx_urls C) ''100.100.100.200''" and "rq_url q = ''http://100.100.100.200/''"
  shows "is_metadata_host ''100.100.100.200''
    \<and> (\<exists>hs. ext_calls (snd (handle_request C None q w))
         = ext_calls w @ [Wire ''100.100.100.200'' (rq_method q) (rq_url q) hs (rq_body q)])"
proof
  show "is_metadata_host ''100.100.100.200''" by code_simp
  have "validated C None k (rq_url q) = Inr [''100.100.100.200'']" for k
    unfolding assms(2) by (rule shared_validated [OF assms(1)])
  then show "\<exists>hs. ext_calls (snd (handle_request C None q w))
      = ext_calls w @ [Wire ''100.100.100.200'' (rq_method q) (rq_url q) hs (rq_body q)]"
    by (rule handled)
qed

theorem metadata_service_reachable_witness:
  "\<exists>hs. ext_calls (snd (handle_request demo_connectors None (demo_request ''http://100.100.100.200/'') sample_world))
     = [Wire ''100.100.100.200'' ''GET'' ''http://100.100.100.200/'' hs JNull]"
  using metadata_service_reachable [OF demo_netloc, of "demo_request ''http://100.100.100.200/''" sample_world]
  by (simp add: demo_request_def sample_world_def)

text \<open>An edge connector restricted to a network sends its request to an address outside of it: one address of
  the host inside the network is enough for the check, but the request goes to the first address.\<close>

theorem edge_sends_elsewhere:
  assumes "netloc_ok (cx_urls C) ''h''" and "rq_url q = ''http://h/''" and "ip_address a = Some i"
    and "cx_resolve C (length (ext_calls w)) ''h'' 80 = Inr [a, ''10.0.0.1'']"
  shows "\<exists>hs. ext_calls (snd (handle_request C (Some NETWORK_ENTRY) q w))
    = ext_calls w @ [Wire a (rq_method q) (rq_url q) hs (rq_body q)]"
proof -
  have "validated C (Some NETWORK_ENTRY) (length (ext_calls w)) (rq_url q) = Inr [a, ''10.0.0.1'']"
    unfolding assms(2) by (rule network_validated [OF assms(1,4,3)])
  then show ?thesis by (rule handled)
qed

theorem edge_sends_elsewhere_witness:
  "\<exists>hs. ext_calls (snd (handle_request demo_connectors (Some NETWORK_ENTRY) (demo_request ''http://h/'') sample_world))
     = [Wire ''1.2.3.4'' ''GET'' ''http://h/'' hs JNull]"
proof -
  have "ip_address ''1.2.3.4'' = Some (V4 (ip4 1 2 3 4))" by (simp add: ip_eval)
  from edge_sends_elsewhere [OF demo_netloc _ this, of "demo_request ''http://h/''" sample_world]
  show ?thesis by (simp add: demo_request_def sample_world_def demo_connectors_def)
qed

text \<open>A text entry of an edge allow list that names a network, like 10.0.0.0/8, only ever matches the one
  address before the slash: the prefix length is read as the path of a URL and dropped.\<close>

theorem network_text_is_host:
  assumes "host \<noteq> []" and "list_all address_char host" and "last host \<noteq> CHR ''.''"
    and "prefix \<noteq> []" and "list_all is_digit prefix" and "netloc_ok T host"
  shows "matches_allowlist T target addresses port (JStr (host @ ''/'' @ prefix) # es)
       = matches_allowlist T target addresses port (JStr host # es)"
proof -
  have "last prefix \<noteq> CHR ''.''" using assms(4,5) by (cases prefix rule: rev_cases) (auto simp: is_digit_def)
  then have "bare_text (host @ ''/'' @ prefix)" "bare_text (host @ [])"
    using assms by (auto simp: bare_text_def list_all_iff address_char_def)
  from bare_entry [OF this(1) assms(1,2) _ assms(6,3)] bare_entry [OF this(2) assms(1,2) _ assms(6,3)]
  show ?thesis by simp
qed

theorem network_text_is_host_witness:
  "matches_allowlist (texts_of demo_env) ''h'' [''10.1.2.3''] 80 [JStr (''10.0.0.0'' @ ''/'' @ ''8'')] = Inr False"
proof -
  have n: "netloc_ok (texts_of demo_env) h" for h by (simp add: demo_env_def)
  have c: "list_all address_char ''10.0.0.0''" by (simp add: address_char_def is_digit_def)
  have "parse_entry (texts_of demo_env) (JStr (''10.0.0.0'' @ [])) = Inr (Some (''10.0.0.0'', JNull))"
    by (rule bare_entry [OF _ _ c _ n]) (use c in \<open>simp_all add: bare_text_def list_all_iff\<close>)
  moreover have "entry_matches ''h'' [''10.1.2.3''] ''10.0.0.0'' = Inr False"
    by (simp add: entry_matches_def startswith_def ip_eval in_prefix_def netmask_def)
  moreover have "rstrip_dot (lower ''h'') = ''h''" by code_simp
  ultimately have "matches_allowlist (texts_of demo_env) ''h'' [''10.1.2.3''] 80 [JStr ''10.0.0.0''] = Inr False"
    by (simp add: other_port_def)
  then show ?thesis
    using network_text_is_host [OF _ c _ _ _ n, of "''8''" "''h''" "[''10.1.2.3'']" 80 "[]"]
    by (simp add: is_digit_def)
qed

text \<open>C13: Behind the engine port a run that is over has told so exactly once, with its last event, whichever
  engine it names and whatever that engine meets; a run that raises or is still going has not told yet.\<close>

theorem port_ends_once:
  assumes "execute_engine X C fuel name c (new_engine w) = (r, t)"
  shows "if r = Inr Returned then finishing (out t) else quiet (out t)"
proof (cases "r = Inr Returned")
  case True
  then show ?thesis
    using phased_over [OF port_ended, of X C fuel name c "new_engine w" t] assms
    by (auto simp: ended_def finishing_def new_engine_def)
next
  case False
  then show ?thesis
    using phased_go [OF port_ended assms] by (auto simp: spoke_def new_engine_def)
qed

theorem port_ends_once_witness:
  "\<exists>t. execute_engine demo_good demo_connectors 3 (Some ''nope'') (demo_call ''t'' []) (new_engine sample_world) = (Inr Returned, t)
     \<and> finishing (out t)"
proof -
  have n: "strip (lower (str_or (Some ''nope'') [])) = ''nope''" by code_simp
  have "execute_engine demo_good demo_connectors 3 (Some ''nope'') (demo_call ''t'' [])
      = yield_return demo_good (error_event (''Unsupported engine type: '' @ show_opt (Some ''nope'') @ '' (fail-closed)''))"
    by (simp only: execute_engine_def n Let_def) simp
  then obtain t where r: "execute_engine demo_good demo_connectors 3 (Some ''nope'') (demo_call ''t'' []) (new_engine sample_world)
      = (Inr Returned, t)"
    by (simp add: yield_return_def thenE_def bindE_def yieldE_def)
  from port_ends_once [OF r] r show ?thesis by (intro exI conjI) simp_all
qed

end
