(* ===== verification/Edge_Digest.thy ===== *)
theory Edge_Digest
  imports Capability Text_Tools Step_Plan
begin

text \<open>
  What the edge node and the centre compute alike to sign what they send each other:
  \<open>canonical_payload_sha256\<close>, \<open>canonical_query\<close>, \<open>bind_request_digest\<close>, the message under a request's
  signature, and the loading of Ed25519 keys. The two copies of the code (\<open>nodeskclaw-agent\<close> and
  \<open>nodeskclaw-backend\<close>, both \<open>edge_control_channel.py\<close>) agree up to the loading of keys.
\<close>

section \<open>What is taken from outside\<close>

text \<open>
  SHA-256 in hexadecimal, \<open>json.loads\<close> on bytes, Ed25519 over raw keys (\<open>pem_private\<close>, \<open>pem_public\<close>: the
  key in a PEM text, if it is one of Ed25519), the \<open>n\<close>-th key that is generated, the \<open>n\<close>-th result of
  \<open>token_urlsafe\<close>, Fernet (the \<open>n\<close>-th generated key, which texts are keys, and the encryption of a JSON
  value, with what decrypts to one), and \<open>isoformat\<close> and \<open>fromisoformat\<close> of times (in microseconds since
  1970, UTC; a text without an offset is a naive time; \<open>iso_again\<close> prints what was read).
\<close>

record crypto =
  digest_hex :: "string \<Rightarrow> string"
  loads :: "string \<Rightarrow> json option"
  public_of :: "string \<Rightarrow> string"
  ed_sign :: "string \<Rightarrow> string \<Rightarrow> string"
  ed_verify :: "string \<Rightarrow> string \<Rightarrow> string \<Rightarrow> bool"
  pem_private :: "string \<Rightarrow> string option"
  pem_public :: "string \<Rightarrow> string option"
  new_key :: "nat \<Rightarrow> string"
  new_token :: "nat \<Rightarrow> string"
  new_wrap_key :: "nat \<Rightarrow> string"
  is_wrap_key :: "string \<Rightarrow> bool"
  seal :: "string \<Rightarrow> nat \<Rightarrow> json \<Rightarrow> string"
  unseal :: "string \<Rightarrow> string \<Rightarrow> json option"
  iso_text :: "int \<Rightarrow> string"
  iso_parse :: "string \<Rightarrow> (int \<times> bool) option"
  iso_again :: "string \<Rightarrow> string"

section \<open>Digests\<close>

text \<open>\<open>json.dumps(v, sort_keys=True, separators=(",", ":"))\<close>.\<close>

definition canonical :: "json \<Rightarrow> string" where
  "canonical = dumps_with '','' '':'' json_string_ascii"

definition canonical_payload_sha256 :: "crypto \<Rightarrow> json \<Rightarrow> string" where
  "canonical_payload_sha256 K payload =
     digest_hex K (case payload of JNull \<Rightarrow> [] | JStr s \<Rightarrow> s | _ \<Rightarrow> canonical payload)"

text \<open>UTF-8 byte order is code point order.\<close>

definition canonical_query :: "string \<Rightarrow> string" where
  "canonical_query query = (if query = [] then [] else urlencode (sort_key fst (sort_key snd (parse_qsl query))))"

definition body_digest :: "crypto \<Rightarrow> string \<Rightarrow> string" where
  "body_digest K raw =
     (if raw = [] then digest_hex K []
      else case loads K raw of Some j \<Rightarrow> canonical_payload_sha256 K j | None \<Rightarrow> digest_hex K raw)"

definition bind_request_digest :: "crypto \<Rightarrow> string \<Rightarrow> string \<Rightarrow> string" where
  "bind_request_digest K raw query =
     (let digest = body_digest K raw; canon = canonical_query query in
      if canon = [] then digest
      else canonical_payload_sha256 K (JObj [(''query'', JStr canon), (''body_sha256'', JStr digest)]))"

definition build_request_message ::
  "string \<Rightarrow> int \<Rightarrow> string \<Rightarrow> string \<Rightarrow> string \<Rightarrow> int \<Rightarrow> string \<Rightarrow> int \<Rightarrow> string" where
  "build_request_message node_id version http_method path payload_sha256 timestamp nonce seq =
     canonical (JObj
       [(''node_id'', JStr node_id), (''identity_version'', JInt version), (''method'', JStr (upper http_method)),
        (''path'', JStr path), (''payload_sha256'', JStr payload_sha256), (''timestamp'', JInt timestamp),
        (''nonce'', JStr nonce), (''seq'', JInt seq)])"

definition COMMAND_PURPOSES :: "string list" where
  "COMMAND_PURPOSES =
     [''job.claim'', ''install.desired'', ''artifact.on_demand'', ''job.cancel.check'', ''node.heartbeat'']"

section \<open>Keys and signatures\<close>

definition padded :: "string \<Rightarrow> string" where
  "padded s = s @ replicate ((4 - length s mod 4) mod 4) CHR ''=''"

text \<open>\<open>base64.b64decode\<close> of a text raises when it is not ASCII.\<close>

definition b64_text :: "string \<Rightarrow> string option" where
  "b64_text s = (if is_ascii s then b64decode s else None)"

text \<open>The agent's \<open>_load_public_key\<close> and \<open>_load_private_key\<close>: 32 raw bytes in base64.\<close>

definition load_key :: "string \<Rightarrow> string option" where
  "load_key raw =
     (case b64_text (padded (strip raw)) of
        None \<Rightarrow> None
      | Some k \<Rightarrow> if length k = 32 then Some k else None)"

definition valid_signature :: "crypto \<Rightarrow> string \<Rightarrow> string \<Rightarrow> string \<Rightarrow> bool" where
  "valid_signature K key sig message =
     (case b64_text (padded sig) of None \<Rightarrow> False | Some s \<Rightarrow> ed_verify K key s message)"

text \<open>The centre's \<open>_load_private_key\<close> and \<open>_load_public_key\<close> also read PEM.\<close>

definition load_central_key :: "(string \<Rightarrow> string option) \<Rightarrow> string \<Rightarrow> string option" where
  "load_central_key pem raw =
     (let v = strip raw in
      if v = [] then None else if startswith v ''-----BEGIN'' then pem v else load_key raw)"

definition seconds :: "int \<Rightarrow> int" where
  "seconds t = t div 1000000"

text \<open>\<open>datetime.fromisoformat(s.replace("Z", "+00:00"))\<close>.\<close>

definition with_offset :: "string \<Rightarrow> string" where
  "with_offset s = concat (List.map (\<lambda>c. if c = CHR ''Z'' then ''+00:00'' else [c]) s)"

definition from_iso :: "crypto \<Rightarrow> string \<Rightarrow> exn + int \<times> bool" where
  "from_iso K s =
     (case iso_parse K (with_offset s) of
        None \<Rightarrow> Inl (ValueError ''Invalid isoformat string'')
      | Some t \<Rightarrow> Inr t)"

text \<open>Comparing a naive time with an aware one raises.\<close>

definition aware_time :: "int \<times> bool \<Rightarrow> exn + int" where
  "aware_time t =
     (if snd t then Inr (fst t) else Inl (OtherError ''can't compare offset-naive and offset-aware datetimes''))"

section \<open>What is assumed of the signatures\<close>

text \<open>
  Signatures verify, and keys have the sizes of RFC 8032; tokens are short; digests are hexadecimal
  digits; times print with an offset and no Z, and read back.
\<close>

definition sound_crypto :: "crypto \<Rightarrow> bool" where
  "sound_crypto K \<longleftrightarrow>
     (\<forall>k m. length k = 32 \<longrightarrow> ed_verify K (public_of K k) (ed_sign K k m) m) \<and>
     (\<forall>k. length k = 32 \<longrightarrow> length (public_of K k) = 32) \<and>
     (\<forall>n. length (new_key K n) = 32) \<and>
     (\<forall>n. new_token K n \<noteq> [] \<and> py_len (new_token K n) \<le> 128) \<and>
     (\<forall>t k. pem_private K t = Some k \<longrightarrow> length k = 32) \<and>
     (\<forall>s. strip (digest_hex K s) = digest_hex K s \<and> is_ascii (digest_hex K s)) \<and>
     (\<forall>k m. ed_sign K k m \<noteq> []) \<and>
     (\<forall>t. iso_text K t \<noteq> [] \<and> CHR ''Z'' \<notin> set (iso_text K t) \<and> iso_parse K (iso_text K t) = Some (t, True))"

lemma sound_sign: "sound_crypto K \<Longrightarrow> length k = 32 \<Longrightarrow> ed_verify K (public_of K k) (ed_sign K k m) m"
  and sound_public: "sound_crypto K \<Longrightarrow> length k = 32 \<Longrightarrow> length (public_of K k) = 32"
  and sound_key: "sound_crypto K \<Longrightarrow> length (new_key K n) = 32"
  and sound_token: "sound_crypto K \<Longrightarrow> new_token K n \<noteq> []"
  and sound_token_len: "sound_crypto K \<Longrightarrow> py_len (new_token K n) \<le> 128"
  and sound_signature: "sound_crypto K \<Longrightarrow> ed_sign K k m \<noteq> []"
  and sound_digest: "sound_crypto K \<Longrightarrow> strip (digest_hex K x) = digest_hex K x"
  and sound_digest_ascii: "sound_crypto K \<Longrightarrow> is_ascii (digest_hex K x)"
  and sound_pem: "sound_crypto K \<Longrightarrow> pem_private K pem = Some k \<Longrightarrow> length k = 32"
  and sound_iso: "sound_crypto K \<Longrightarrow> iso_parse K (iso_text K t) = Some (t, True)"
  and sound_iso_z: "sound_crypto K \<Longrightarrow> CHR ''Z'' \<notin> set (iso_text K t)"
  and sound_iso_nonempty: "sound_crypto K \<Longrightarrow> iso_text K t \<noteq> []"
  by (simp_all add: sound_crypto_def)

lemma concat_unchanged: "z \<notin> set s \<Longrightarrow> concat (List.map (\<lambda>c. if c = z then r else [c]) s) = s"
  by (induction s) auto

lemma from_iso_text: "sound_crypto K \<Longrightarrow> from_iso K (iso_text K t) = Inr (t, True)"
  by (simp add: from_iso_def with_offset_def sound_iso concat_unchanged [OF sound_iso_z])

section \<open>Reading back what was written\<close>

lemma b64_byte:
  assumes "v < 64"
  shows "43 \<le> byte (b64_char v) \<and> byte (b64_char v) \<le> 122"
  unfolding b64_char_code [OF assms] using assms by (auto simp: of_char_of)

lemma b64_chars: "c \<in> set (b64encode s) \<Longrightarrow> 43 \<le> byte c \<and> byte c \<le> 122"
proof -
  assume c: "c \<in> set (b64encode s)"
  obtain ns k where ns: "b64encode s = List.map b64_char ns @ replicate k CHR ''=''" "list_all (\<lambda>n. n < 64) ns"
    using b64encode_shape [of s] by (elim exE conjE)
  from c ns(1) consider n where "n \<in> set ns" "c = b64_char n" | "c = CHR ''=''" by auto
  then show ?thesis
  proof cases
    case 1
    then have "n < 64" using ns(2) by (auto simp: list_all_iff)
    then show ?thesis unfolding 1(2) by (rule b64_byte)
  qed simp
qed

lemma b64_ascii: "is_ascii (b64encode s)"
  using b64_chars by (force simp: is_ascii_def list_all_iff)

lemma no_space_strip: "list_all (\<lambda>c. \<not> is_space c) s \<Longrightarrow> strip s = s"
proof -
  assume s: "list_all (\<lambda>c. \<not> is_space c) s"
  then have "dropWhile is_space s = s" by (cases s) simp_all
  moreover have "dropWhile is_space (rev s) = rev s"
    using s by (cases "rev s") (auto simp: list_all_iff dest: arg_cong [of _ _ set])
  ultimately show "strip s = s" by (simp add: strip_def lstrip_def rstrip_of_def)
qed

lemma b64_strip: "strip (b64encode s) = b64encode s"
proof (rule no_space_strip)
  have "\<not> is_space c" if "c \<in> set (b64encode s)" for c
    using b64_chars [OF that] by (auto simp: is_space_def)
  then show "list_all (\<lambda>c. \<not> is_space c) (b64encode s)" by (simp add: list_all_iff)
qed

lemma b64_padded: "padded (b64encode s) = b64encode s"
proof -
  obtain ns k where "b64encode s = List.map b64_char ns @ replicate k CHR ''=''" "(length ns + k) mod 4 = 0"
    using b64encode_shape [of s] by (elim exE conjE)
  then have "length (b64encode s) mod 4 = 0" by simp
  then show ?thesis by (simp add: padded_def)
qed

lemma b64_text_encode: "b64_text (b64encode s) = Some s"
  by (simp add: b64_text_def b64_ascii b64_roundtrip)

lemma load_key_encode: "length k = 32 \<Longrightarrow> load_key (b64encode k) = Some k"
  by (simp add: load_key_def b64_strip b64_padded b64_text_encode)

lemma load_key_length: "load_key raw = Some k \<Longrightarrow> length k = 32"
  by (simp add: load_key_def split: option.splits if_splits)

lemma load_central_key_length:
  assumes "\<And>t k. pem t = Some k \<Longrightarrow> length k = 32" and "load_central_key pem raw = Some k"
  shows "length k = 32"
  using assms by (auto simp: load_central_key_def Let_def dest: load_key_length split: if_splits)

lemma valid_signature_encode: "valid_signature K key (b64encode s) m = ed_verify K key s m"
  by (simp add: valid_signature_def b64_padded b64_text_encode)

lemma b64_not_pem: "\<not> startswith (b64encode s) ''-----BEGIN''"
proof
  assume "startswith (b64encode s) ''-----BEGIN''"
  then obtain t where t: "b64encode s = ''-----BEGIN'' @ t" by (auto simp: startswith_iff)
  obtain ns k where ns: "b64encode s = List.map b64_char ns @ replicate k CHR ''=''" "list_all (\<lambda>n. n < 64) ns"
    using b64encode_shape [of s] by (elim exE conjE)
  have "CHR ''-'' \<in> set (b64encode s)" unfolding t by simp
  then obtain n where n: "n \<in> set ns" "CHR ''-'' = b64_char n" using ns(1) by auto
  then have "b64_value (CHR ''-'') = Some n" using ns(2) b64_char_value by (simp add: list_all_iff)
  then show False by (simp add: b64_value_def)
qed

lemma b64_nonempty: "s \<noteq> [] \<Longrightarrow> b64encode s \<noteq> []"
  by (cases s rule: b64encode.cases) simp_all

lemma load_central_encode:
  assumes "length k = 32"
  shows "load_central_key pem (b64encode k) = Some k"
proof -
  have "b64encode k \<noteq> []" using assms by (intro b64_nonempty) auto
  then show ?thesis by (simp add: load_central_key_def Let_def b64_strip b64_not_pem load_key_encode assms)
qed

text \<open>Numbers in headers.\<close>

lemma digits_append: "digits_value (s @ t) n = Option.bind (digits_value s n) (digits_value t)"
  by (induction s arbitrary: n) auto

lemma digit_char: "n < 10 \<Longrightarrow> is_digit (char_of (48 + n)) \<and> byte (char_of (48 + n)) - 48 = n"
  by (simp add: is_digit_def of_char_of)

lemma digits_show: "digits_value (show_digits n) 0 = Some n"
proof (induction n rule: show_digits.induct)
  case (1 n)
  show ?case
  proof (cases "n < 10")
    case True
    then show ?thesis using digit_char [OF True] by (simp add: show_digits.simps [of n])
  next
    case False
    have "n mod 10 < 10" by simp
    note d = digit_char [OF this]
    show ?thesis using False 1 d by (simp add: show_digits.simps [of n] digits_append)
  qed
qed

lemma digits_are: "c \<in> set (show_digits n) \<Longrightarrow> 48 \<le> byte c \<and> byte c \<le> 57"
proof (induction n rule: show_digits.induct)
  case (1 n)
  show ?case
  proof (cases "n < 10")
    case True
    then show ?thesis using 1(2) by (simp add: show_digits.simps [of n] of_char_of)
  next
    case False
    then have "c \<in> set (show_digits (n div 10)) \<or> c = char_of (48 + n mod 10)"
      using 1(2) by (auto simp: show_digits.simps [of n])
    then show ?thesis
    proof
      assume "c = char_of (48 + n mod 10)"
      then show ?thesis by (simp add: of_char_of)
    qed (rule 1(1) [OF False])
  qed
qed

lemma show_digits_nonempty: "show_digits n \<noteq> []"
  by (simp add: show_digits.simps [of n])

lemma digits_strip: "strip (show_digits n) = show_digits n"
proof (rule no_space_strip)
  have "\<not> is_space c" if "c \<in> set (show_digits n)" for c
    using digits_are [OF that] by (auto simp: is_space_def)
  then show "list_all (\<lambda>c. \<not> is_space c) (show_digits n)" by (simp add: list_all_iff)
qed

lemma minus_strip: "strip (CHR ''-'' # show_digits n) = CHR ''-'' # show_digits n"
proof (rule no_space_strip)
  have "\<not> is_space c" if "c \<in> set (show_digits n)" for c
    using digits_are [OF that] by (auto simp: is_space_def)
  then show "list_all (\<lambda>c. \<not> is_space c) (CHR ''-'' # show_digits n)" by (simp add: list_all_iff is_space_def)
qed

lemma parse_digits: "parse_int (show_digits n) = Some (int n)"
proof -
  obtain c cs where s: "show_digits n = c # cs" using show_digits_nonempty [of n] by (cases "show_digits n") auto
  have "48 \<le> byte c" using digits_are [of c n] by (simp add: s)
  then have "c \<noteq> CHR ''-''" "c \<noteq> CHR ''+''" by auto
  then have "parse_int (show_digits n) = map_option int (digits_value (show_digits n) 0)"
    by (simp only: parse_int_def s digits_strip [of n, unfolded s] list.case if_False)
  then show ?thesis by (simp add: digits_show)
qed

lemma parse_minus: "parse_int (CHR ''-'' # show_digits n) = Some (- int n)"
  by (simp only: parse_int_def minus_strip list.case refl if_True show_digits_nonempty if_False digits_show option.map simp_thms)

lemma parse_show: "parse_int (show_int i) = Some i"
  by (simp add: show_int_def parse_digits parse_minus)

end
