(* ===== verification/Edge_Channel.thy ===== *)
theory Edge_Channel
  imports Edge_Digest
begin

text \<open>
  \<open>services/edge_control_channel.py\<close> of the agent: the identity of an edge node, kept in a file with
  its secrets encrypted, the signing of requests and the check of signed commands. A JSON file is kept
  as the value it holds; nothing depends on the order of its keys.
\<close>

section \<open>The identity and its file\<close>

record identity =
  ei_node_id :: string
  ei_org_id :: string
  ei_version :: int
  ei_private_key :: string
  ei_public_key :: string
  ei_issuer_key_id :: string
  ei_issuer_public_key :: string
  ei_previous_issuer_key_id :: json
  ei_previous_issuer_public_key :: json
  ei_issuer_rotation_expires_at :: json
  ei_bootstrap :: json
  ei_request_seq :: int
  ei_consumed_commands :: dict
  ei_consumed_nonces :: dict
  ei_last_command_seq :: int

text \<open>
  The directory of the channel: the identity file (\<open>None\<close>: absent, \<open>Inl\<close>: no JSON) and the key file;
  the clock of the node and how much randomness it has drawn.
\<close>

record edge_store =
  identity_file :: "(exn + json) option"
  wrap_key_file :: "string option"
  edge_now :: int
  drawn :: nat

type_synonym 'a edge = "(edge_store, 'a) prog"

definition draw :: "(nat \<Rightarrow> 'a) \<Rightarrow> 'a edge" where
  "draw f = (\<lambda>s. (Inr (f (drawn s)), s\<lparr>drawn := Suc (drawn s)\<rparr>))"

definition public_to_json :: "identity \<Rightarrow> dict" where
  "public_to_json i =
     [(''node_id'', JStr (ei_node_id i)), (''org_id'', JStr (ei_org_id i)),
      (''identity_version'', JInt (ei_version i)), (''public_key'', JStr (ei_public_key i)),
      (''issuer_key_id'', JStr (ei_issuer_key_id i)), (''issuer_public_key'', JStr (ei_issuer_public_key i)),
      (''previous_issuer_key_id'', ei_previous_issuer_key_id i),
      (''previous_issuer_public_key'', ei_previous_issuer_public_key i),
      (''issuer_rotation_expires_at'', ei_issuer_rotation_expires_at i),
      (''request_seq'', JInt (ei_request_seq i)), (''consumed_commands'', JObj (ei_consumed_commands i)),
      (''consumed_nonces'', JObj (ei_consumed_nonces i)), (''last_command_seq'', JInt (ei_last_command_seq i))]"

definition secrets_to_json :: "identity \<Rightarrow> dict" where
  "secrets_to_json i =
     (''private_key'', JStr (ei_private_key i)) #
     (if truthy (ei_bootstrap i) then [(''bootstrap'', ei_bootstrap i)] else [])"

text \<open>\<open>d[key]\<close>, \<open>int(d.get(key) or 0)\<close> and \<open>str(d.get(key) or "")\<close>.\<close>

definition item_of :: "dict \<Rightarrow> string \<Rightarrow> exn + json" where
  "item_of d key = (if has_key d key then Inr (dget d key) else Inl (OtherError (repr_str key)))"

definition int_at :: "dict \<Rightarrow> string \<Rightarrow> exn + int" where
  "int_at d key = py_int (or_else (dget d key) (JInt 0))"

definition str_at :: "dict \<Rightarrow> string \<Rightarrow> string" where
  "str_at d key = py_str (or_else (dget d key) (JStr []))"

definition from_json :: "dict \<Rightarrow> json \<Rightarrow> identity edge" where
  "from_json d secrets =
     bindE (liftE (get_attr (or_else secrets (JObj [])) ''private_key'')) (\<lambda>key.
     let secret_data = dict_of (or_else secrets (JObj [])); boot = dget secret_data ''bootstrap'' in
     bindE (liftE (item_of d ''node_id'')) (\<lambda>node_id.
     bindE (liftE (item_of d ''org_id'')) (\<lambda>org_id.
     bindE (liftE (int_at d ''identity_version'')) (\<lambda>version.
     bindE (liftE (item_of d ''public_key'')) (\<lambda>public_key.
     bindE (liftE (item_of d ''issuer_key_id'')) (\<lambda>issuer_id.
     bindE (liftE (item_of d ''issuer_public_key'')) (\<lambda>issuer_key.
     bindE (liftE (int_at d ''request_seq'')) (\<lambda>request_seq.
     bindE (liftE (dict_copy (dget d ''consumed_commands''))) (\<lambda>commands.
     bindE (liftE (dict_copy (dget d ''consumed_nonces''))) (\<lambda>nonces.
     bindE (liftE (int_at d ''last_command_seq'')) (\<lambda>last_seq.
     returnE \<lparr>ei_node_id = py_str node_id, ei_org_id = py_str org_id, ei_version = version,
       ei_private_key = py_str (or_else key (or_else (dget d ''private_key'') (JStr []))),
       ei_public_key = py_str public_key, ei_issuer_key_id = py_str issuer_id,
       ei_issuer_public_key = py_str issuer_key,
       ei_previous_issuer_key_id = dget d ''previous_issuer_key_id'',
       ei_previous_issuer_public_key = dget d ''previous_issuer_public_key'',
       ei_issuer_rotation_expires_at = dget d ''issuer_rotation_expires_at'',
       ei_bootstrap = (if boot = JNull then dget d ''bootstrap'' else boot),
       ei_request_seq = request_seq, ei_consumed_commands = commands, ei_consumed_nonces = nonces,
       ei_last_command_seq = last_seq\<rparr>)))))))))))"

definition load_or_create_fernet :: "crypto \<Rightarrow> string edge" where
  "load_or_create_fernet K =
     bindE (getsE wrap_key_file) (\<lambda>f.
     case f of
       Some raw \<Rightarrow> if is_wrap_key K (strip raw) then returnE (strip raw)
                   else raiseE (ValueError ''Fernet key must be 32 url-safe base64-encoded bytes.'')
     | None \<Rightarrow> bindE (draw (new_wrap_key K)) (\<lambda>key.
         thenE (modifyE (\<lambda>s. s\<lparr>wrap_key_file := Some key\<rparr>)) (returnE key)))"

definition save :: "crypto \<Rightarrow> identity \<Rightarrow> unit edge" where
  "save K i =
     bindE (load_or_create_fernet K) (\<lambda>key.
     bindE (draw (\<lambda>n. seal K key n (JObj (secrets_to_json i)))) (\<lambda>blob.
     modifyE (\<lambda>s. s\<lparr>identity_file := Some (Inr (JObj (public_to_json i @ [(''secrets_blob'', JStr blob)])))\<rparr>)))"

definition read_secrets :: "crypto \<Rightarrow> json \<Rightarrow> json edge" where
  "read_secrets K blob =
     (if \<not> truthy blob then returnE JNull
      else bindE (getsE wrap_key_file) (\<lambda>f.
        case f of
          None \<Rightarrow> raiseE (RuntimeError ''edge identity wrap key missing'')
        | Some raw \<Rightarrow>
            (case (if is_wrap_key K (strip raw) then unseal K (strip raw) (py_str blob) else None) of
               None \<Rightarrow> raiseE (RuntimeError ''edge identity secrets unreadable'')
             | Some secrets \<Rightarrow> returnE secrets)))"

text \<open>A file of an older version, with its secrets in the open, is written anew.\<close>

definition load_from :: "crypto \<Rightarrow> dict \<Rightarrow> identity edge" where
  "load_from K d =
     bindE (read_secrets K (dget d ''secrets_blob'')) (\<lambda>secrets.
     bindE (from_json d secrets) (\<lambda>i.
     if ei_private_key i = [] then raiseE (RuntimeError ''edge identity private key missing'')
     else thenE (whenE (dget d ''secrets_blob'' = JNull \<and> (truthy (dget d ''private_key'') \<or> truthy (dget d ''bootstrap'')))
            (save K i)) (returnE i)))"

definition load :: "crypto \<Rightarrow> identity option edge" where
  "load K =
     bindE (getsE identity_file) (\<lambda>f.
     case f of
       None \<Rightarrow> returnE None
     | Some content \<Rightarrow>
         bindE (liftE content) (\<lambda>data.
         thenE (liftE (get_attr data ''secrets_blob''))
         (bindE (load_from K (dict_of data)) (\<lambda>i. returnE (Some i)))))"

section \<open>Getting an identity\<close>

text \<open>A new key pair, in base64.\<close>

definition generate_rotation_keypair :: "crypto \<Rightarrow> (string \<times> string) edge" where
  "generate_rotation_keypair K =
     bindE (draw (new_key K)) (\<lambda>k. returnE (b64encode k, b64encode (public_of K k)))"

definition new_identity :: "string \<Rightarrow> string \<Rightarrow> string \<Rightarrow> string \<times> string \<Rightarrow> identity" where
  "new_identity node_id org_id boot keys =
     \<lparr>ei_node_id = node_id, ei_org_id = org_id, ei_version = 0, ei_private_key = fst keys, ei_public_key = snd keys,
      ei_issuer_key_id = [], ei_issuer_public_key = [], ei_previous_issuer_key_id = JNull,
      ei_previous_issuer_public_key = JNull, ei_issuer_rotation_expires_at = JNull, ei_bootstrap = JStr boot,
      ei_request_seq = 0, ei_consumed_commands = [], ei_consumed_nonces = [], ei_last_command_seq = 0\<rparr>"

definition ensure_bootstrap_identity :: "crypto \<Rightarrow> string \<Rightarrow> string \<Rightarrow> string \<Rightarrow> identity edge" where
  "ensure_bootstrap_identity K node_id org_id boot =
     bindE (load K) (\<lambda>existing.
     case existing of
       Some i \<Rightarrow>
         if ei_node_id i = node_id
         then let j = i\<lparr>ei_bootstrap := JStr boot\<rparr> in thenE (save K j) (returnE j)
         else bindE (generate_rotation_keypair K) (\<lambda>keys.
           let j = new_identity node_id org_id boot keys in thenE (save K j) (returnE j))
     | None \<Rightarrow> bindE (generate_rotation_keypair K) (\<lambda>keys.
           let j = new_identity node_id org_id boot keys in thenE (save K j) (returnE j)))"

definition apply_bind_response :: "crypto \<Rightarrow> identity \<Rightarrow> dict \<Rightarrow> identity edge" where
  "apply_bind_response K i d =
     bindE (liftE (item_of d ''identity_version'')) (\<lambda>v.
     bindE (liftE (py_int v)) (\<lambda>version.
     bindE (liftE (item_of d ''issuer_key_id'')) (\<lambda>issuer_id.
     bindE (liftE (item_of d ''issuer_public_key'')) (\<lambda>issuer_key.
     let j = i\<lparr>ei_version := version,
               ei_org_id := py_str (or_else (dget d ''org_id'') (JStr (ei_org_id i))),
               ei_issuer_key_id := py_str issuer_id, ei_issuer_public_key := py_str issuer_key,
               ei_previous_issuer_key_id := dget d ''previous_issuer_key_id'',
               ei_previous_issuer_public_key := dget d ''previous_issuer_public_key'',
               ei_issuer_rotation_expires_at := dget d ''issuer_rotation_expires_at'',
               ei_bootstrap := JNull, ei_request_seq := 0\<rparr>
     in thenE (save K j) (returnE j)))))"

definition apply_rotation_response :: "crypto \<Rightarrow> identity \<Rightarrow> dict \<Rightarrow> string \<Rightarrow> string \<Rightarrow> identity edge" where
  "apply_rotation_response K i d new_private_key new_public_key =
     apply_bind_response K (i\<lparr>ei_private_key := new_private_key, ei_public_key := new_public_key\<rparr>) d"

section \<open>Signing requests\<close>

definition payload_bytes :: "json \<Rightarrow> string" where
  "payload_bytes payload = (case payload of JNull \<Rightarrow> [] | JStr s \<Rightarrow> s | _ \<Rightarrow> canonical payload)"

text \<open>The headers that prove a request, as its receiver may find them.\<close>

record proof_headers =
  h_node_id :: "string option"
  h_version :: "string option"
  h_timestamp :: "string option"
  h_nonce :: "string option"
  h_seq :: "string option"
  h_digest :: "string option"
  h_signature :: "string option"

definition signed_headers :: "identity \<Rightarrow> int \<Rightarrow> string \<Rightarrow> string \<Rightarrow> string \<Rightarrow> proof_headers" where
  "signed_headers i timestamp nonce digest signature =
     \<lparr>h_node_id = Some (ei_node_id i), h_version = Some (show_int (ei_version i)),
      h_timestamp = Some (show_int timestamp), h_nonce = Some nonce, h_seq = Some (show_int (ei_request_seq i)),
      h_digest = Some digest, h_signature = Some (b64encode signature)\<rparr>"

definition sign_request_headers ::
  "crypto \<Rightarrow> identity \<Rightarrow> string \<Rightarrow> string \<Rightarrow> json \<Rightarrow> string \<Rightarrow> (proof_headers \<times> identity) edge" where
  "sign_request_headers K i http_method path payload query =
     (if ei_version i \<le> 0 \<or> ei_issuer_key_id i = [] then raiseE (RuntimeError ''edge identity not bound'')
      else
        let j = i\<lparr>ei_request_seq := ei_request_seq i + 1\<rparr>;
            digest = bind_request_digest K (payload_bytes payload) query in
        bindE (draw (new_token K)) (\<lambda>nonce.
        bindE (getsE (\<lambda>s. seconds (edge_now s))) (\<lambda>timestamp.
        let message = build_request_message (ei_node_id j) (ei_version j) http_method path digest timestamp nonce
                        (ei_request_seq j) in
        case load_key (ei_private_key j) of
          None \<Rightarrow> raiseE (ValueError ''An Ed25519 private key is 32 bytes long'')
        | Some key \<Rightarrow>
            thenE (save K j) (returnE (signed_headers j timestamp nonce digest (ed_sign K key message), j)))))"

section \<open>Checking commands\<close>

text \<open>\<open>keys[k] = v\<close> on a dict whose keys may be any value that can be hashed.\<close>

definition hashable :: "json \<Rightarrow> bool" where
  "hashable j \<longleftrightarrow> \<not> is_list j \<and> \<not> is_dict j"

definition rotation_open :: "crypto \<Rightarrow> int \<Rightarrow> json \<Rightarrow> exn + bool" where
  "rotation_open K now expires_at =
     (case expires_at of
        JStr s \<Rightarrow>
          (case from_iso K s of
             Inl e \<Rightarrow> Inl e
           | Inr t \<Rightarrow> (case aware_time t of Inl e \<Rightarrow> Inl e | Inr expires \<Rightarrow> Inr (now \<le> expires)))
      | _ \<Rightarrow> Inl (OtherError ''object has no attribute replace''))"

definition issuer_keys :: "crypto \<Rightarrow> int \<Rightarrow> identity \<Rightarrow> exn + (json \<times> json) list" where
  "issuer_keys K now i =
     (let keys = [(JStr (ei_issuer_key_id i), JStr (ei_issuer_public_key i))];
          prev_id = ei_previous_issuer_key_id i; prev_key = ei_previous_issuer_public_key i in
      if \<not> truthy prev_id \<or> \<not> truthy prev_key \<or> \<not> truthy (ei_issuer_rotation_expires_at i) then Inr keys
      else case rotation_open K now (ei_issuer_rotation_expires_at i) of
        Inl e \<Rightarrow> Inl e
      | Inr in_window \<Rightarrow>
          if \<not> in_window then Inr keys
          else if hashable prev_id then Inr (AList.update prev_id prev_key keys)
          else Inl (OtherError ''unhashable type''))"

text \<open>The checks before the signature is looked at.\<close>

definition addressed :: "crypto \<Rightarrow> identity \<Rightarrow> dict \<Rightarrow> json \<Rightarrow> string option \<Rightarrow> bool" where
  "addressed K i env payload expected \<longleftrightarrow>
     dget env ''node_id'' = JStr (ei_node_id i) \<and> dget env ''org_id'' = JStr (ei_org_id i) \<and>
     dget env ''payload_sha256'' = JStr (canonical_payload_sha256 K payload) \<and>
     str_at env ''purpose'' \<in> set COMMAND_PURPOSES \<and>
     (case expected of None \<Rightarrow> True | Some p \<Rightarrow> str_at env ''purpose'' = p)"

definition expired :: "crypto \<Rightarrow> int \<Rightarrow> dict \<Rightarrow> exn + bool" where
  "expired K now env =
     (let raw = dget env ''expires_at'' in
      if \<not> truthy raw then Inr False
      else case from_iso K (py_str raw) of
        Inl e \<Rightarrow> Inl e
      | Inr t \<Rightarrow> (case aware_time t of Inl e \<Rightarrow> Inl e | Inr expires \<Rightarrow> Inr (expires < now)))"

definition command_message :: "dict \<Rightarrow> string" where
  "command_message env = canonical (JObj (filter (\<lambda>kv. fst kv \<noteq> ''sig'') env))"

definition signed_by :: "crypto \<Rightarrow> (json \<times> json) list \<Rightarrow> dict \<Rightarrow> exn + bool" where
  "signed_by K keys env =
     (let key_id = dget env ''issuer_key_id'' in
      if \<not> hashable key_id then Inl (OtherError ''unhashable type'')
      else if map_of keys key_id = None then Inr False
      else case (dget env ''sig'', map_of keys (JStr (py_str key_id))) of
        (JStr sig, Some (JStr raw)) \<Rightarrow>
          Inr (case load_key raw of None \<Rightarrow> False | Some key \<Rightarrow> valid_signature K key sig (command_message env))
      | _ \<Rightarrow> Inr False)"

text \<open>A command that was not taken before: its id, nonce and number.\<close>

definition command_id_of :: "dict \<Rightarrow> string" where
  "command_id_of env = str_at env ''command_id''"

definition command_nonce_of :: "dict \<Rightarrow> string" where
  "command_nonce_of env = str_at env ''nonce''"

definition unseen :: "identity \<Rightarrow> dict \<Rightarrow> exn + bool" where
  "unseen i env =
     (if command_id_of env = [] \<or> command_nonce_of env = [] then Inr False
      else case int_at env ''command_seq'' of
        Inl e \<Rightarrow> Inl e
      | Inr seq \<Rightarrow>
          Inr (\<not> has_key (ei_consumed_commands i) (command_id_of env) \<and>
               \<not> has_key (ei_consumed_nonces i) (command_nonce_of env) \<and> ei_last_command_seq i < seq))"

definition both :: "exn + bool \<Rightarrow> exn + bool \<Rightarrow> exn + bool" where
  "both a b = (case a of Inl e \<Rightarrow> Inl e | Inr x \<Rightarrow> if x then b else Inr False)"

definition command_ok :: "crypto \<Rightarrow> int \<Rightarrow> identity \<Rightarrow> dict \<Rightarrow> json \<Rightarrow> string option \<Rightarrow> exn + bool" where
  "command_ok K now i env payload expected =
     both (Inr (addressed K i env payload expected))
     (both (map_sum id Not (expired K now env))
     (both (case issuer_keys K now i of Inl e \<Rightarrow> Inl e | Inr keys \<Rightarrow> signed_by K keys env)
     (unseen i env)))"

definition consume :: "dict \<Rightarrow> int \<Rightarrow> identity \<Rightarrow> identity" where
  "consume env seq i =
     i\<lparr>ei_consumed_commands := AList.update (command_id_of env) (JInt seq) (ei_consumed_commands i),
       ei_consumed_nonces := AList.update (command_nonce_of env) (JInt seq) (ei_consumed_nonces i),
       ei_last_command_seq := seq\<rparr>"

definition verify_command_envelope ::
  "crypto \<Rightarrow> identity \<Rightarrow> dict \<Rightarrow> string option \<Rightarrow> (json option \<times> identity) edge" where
  "verify_command_envelope K i wrapped expected =
     (case (dget wrapped ''envelope'', dget wrapped ''payload'') of
        (JObj env, JObj payload) \<Rightarrow>
          bindE (getsE edge_now) (\<lambda>now.
          bindE (liftE (command_ok K now i env (JObj payload) expected)) (\<lambda>ok.
          if \<not> ok then returnE (None, i)
          else bindE (liftE (int_at env ''command_seq'')) (\<lambda>seq.
            let j = consume env seq i in thenE (save K j) (returnE (Some (JObj payload), j)))))
      | _ \<Rightarrow> returnE (None, i))"

definition unwrap_or_none :: "crypto \<Rightarrow> identity \<Rightarrow> json \<Rightarrow> string option \<Rightarrow> (json option \<times> identity) edge" where
  "unwrap_or_none K i wrapped expected =
     (case wrapped of
        JObj d \<Rightarrow>
          if has_key d ''envelope'' \<and> has_key d ''payload'' then verify_command_envelope K i d expected
          else returnE (None, i)
      | _ \<Rightarrow> returnE (None, i))"

end
