(* ===== verification/Edge_Control.thy ===== *)
theory Edge_Control
  imports Edge_Channel
begin

text \<open>
  The centre's side of the edge protocol (\<open>nodeskclaw-backend/app\<close>):
  \<open>services/connector/edge_control_channel.py\<close> (request proofs, signed commands),
  \<open>services/connector/edge_node_service.py\<close> (nodes, their identities, jobs) and the endpoints of
  \<open>api/internal_edge.py\<close> for nodes and jobs. An error carries the status and the message key of the
  code's exception.
\<close>

section \<open>Tables and transactions\<close>

record edge_node =
  en_id :: string
  en_org :: string
  en_name :: string
  en_status :: string
  en_token_hash :: string
  en_bootstrap_expires_at :: "int option"
  en_bootstrap_consumed_at :: "int option"
  en_version :: int
  en_public_key :: "string option"
  en_previous_public_key :: "string option"
  en_rotation_expires_at :: "int option"
  en_revoked_at :: "int option"
  en_last_seq :: int
  en_heartbeat_at :: "int option"
  en_meta :: dict
  en_deleted :: bool

record edge_job =
  ej_id :: string
  ej_org :: string
  ej_node :: string
  ej_run :: string
  ej_attempt :: "string option"
  ej_step :: "string option"
  ej_run_generation :: int
  ej_trace :: "string option"
  ej_key :: "string option"
  ej_tool :: string
  ej_status :: string
  ej_arguments :: dict
  ej_snapshot :: dict
  ej_result :: json
  ej_claimed_at :: "int option"
  ej_lease_until :: "int option"
  ej_delivery :: int
  ej_cancel_at :: "int option"
  ej_completed_at :: "int option"
  ej_created_at :: int
  ej_deleted :: bool

record on_demand =
  od_id :: string
  od_org :: string
  od_node :: string
  od_job :: string
  od_run :: string
  od_attempt :: "string option"
  od_step :: "string option"
  od_run_generation :: int
  od_delivery :: int
  od_artifact :: "string option"
  od_name :: string
  od_status :: string
  od_expires_at :: int
  od_consumed_at :: "int option"
  od_created_at :: int
  od_deleted :: bool

record audit_row =
  au_action :: string
  au_target :: string
  au_org :: string
  au_actor_type :: string
  au_actor :: string
  au_details :: dict

record central_db =
  edge_nodes :: "edge_node list"
  edge_nonces :: "(string \<times> int \<times> string) list"
  edge_jobs :: "edge_job list"
  on_demands :: "on_demand list"
  audit_rows :: "audit_row list"

text \<open>
  \<open>cdb\<close> is what the session of a request sees, \<open>saved\<close> what is committed. \<open>get_db\<close> only closes the
  session, so what a handler has not committed is lost when it returns, as when it raises.
\<close>

record central =
  cdb :: central_db
  saved :: central_db
  central_now :: int
  central_drawn :: nat
  relayed :: "ext_call list"

type_synonym 'a centre = "(central, 'a) prog"

text \<open>
  Settings; identifiers; whether passing events on to the agent succeeds (the answer to the request
  with a status of 2xx, and the notification of the waiting readers after it); the jobs whose rows other
  transactions hold locked, by the committed tables and the time.
\<close>

record central_env =
  ce_crypto :: crypto
  ce_uuid :: "nat \<Rightarrow> string"
  ce_relay :: "nat \<Rightarrow> ext_call \<Rightarrow> bool"
  ce_job_locked :: "central_db \<Rightarrow> int \<Rightarrow> string \<Rightarrow> bool"
  ce_issuer_key_id :: string
  ce_issuer_private_key :: string
  ce_previous_key_id :: string
  ce_previous_private_key :: string
  ce_rotation_expires_at :: string
  ce_clock_skew :: int
  ce_bootstrap_ttl :: int
  ce_rotation_window :: int
  ce_command_ttl :: int
  ce_agent_enabled :: bool
  ce_agent_url :: string
  ce_agent_token :: string
  ce_agent_token_previous :: string

definition edge_session :: "'a centre \<Rightarrow> 'a centre" where
  "edge_session m = (\<lambda>c. case m (c\<lparr>cdb := saved c\<rparr>) of (r, c') \<Rightarrow> (r, c'\<lparr>cdb := saved c'\<rparr>))"

definition edge_commit :: "unit centre" where
  "edge_commit = modifyE (\<lambda>c. c\<lparr>saved := cdb c\<rparr>)"

definition with_cdb :: "(central_db \<Rightarrow> central_db) \<Rightarrow> unit centre" where
  "with_cdb f = modifyE (\<lambda>c. c\<lparr>cdb := f (cdb c)\<rparr>)"

definition change_node :: "string \<Rightarrow> (edge_node \<Rightarrow> edge_node) \<Rightarrow> unit centre" where
  "change_node nid f = with_cdb (\<lambda>d. d\<lparr>edge_nodes := upd_where (\<lambda>n. en_id n = nid) f (edge_nodes d)\<rparr>)"

definition change_job :: "string \<Rightarrow> (edge_job \<Rightarrow> edge_job) \<Rightarrow> unit centre" where
  "change_job jid f = with_cdb (\<lambda>d. d\<lparr>edge_jobs := upd_where (\<lambda>j. ej_id j = jid) f (edge_jobs d)\<rparr>)"

definition change_on_demand :: "string \<Rightarrow> (on_demand \<Rightarrow> on_demand) \<Rightarrow> unit centre" where
  "change_on_demand rid f = with_cdb (\<lambda>d. d\<lparr>on_demands := upd_where (\<lambda>r. od_id r = rid) f (on_demands d)\<rparr>)"

definition find_node :: "(edge_node \<Rightarrow> bool) \<Rightarrow> edge_node option centre" where
  "find_node p = getsE (\<lambda>c. find p (edge_nodes (cdb c)))"

definition find_job :: "(edge_job \<Rightarrow> bool) \<Rightarrow> edge_job option centre" where
  "find_job p = getsE (\<lambda>c. find p (edge_jobs (cdb c)))"

definition central_draw :: "(nat \<Rightarrow> 'a) \<Rightarrow> 'a centre" where
  "central_draw f = (\<lambda>c. (Inr (f (central_drawn c)), c\<lparr>central_drawn := Suc (central_drawn c)\<rparr>))"

definition Forbidden :: "string \<Rightarrow> exn" where
  "Forbidden key = HTTPException 403 (''errors.'' @ key)"

definition NotFound :: "string \<Rightarrow> exn" where
  "NotFound key = HTTPException 404 (''errors.'' @ key)"

definition BadRequest :: "string \<Rightarrow> exn" where
  "BadRequest key = HTTPException 400 (''errors.'' @ key)"

definition Conflict :: "string \<Rightarrow> exn" where
  "Conflict key = HTTPException 409 (''errors.'' @ key)"

definition assertE :: "bool \<Rightarrow> exn \<Rightarrow> ('s, unit) prog" where
  "assertE b e = (if b then returnE () else raiseE e)"

definition the_or :: "exn \<Rightarrow> 'a option \<Rightarrow> ('s, 'a) prog" where
  "the_or e x = (case x of None \<Rightarrow> raiseE e | Some a \<Rightarrow> returnE a)"

section \<open>The control channel\<close>

record issuer_bundle =
  ib_key_id :: string
  ib_public_key :: string
  ib_previous_key_id :: json
  ib_previous_public_key :: json
  ib_rotation_expires_at :: json

text \<open>The public key of a private key of the settings, in base64.\<close>

definition public_text :: "central_env \<Rightarrow> string \<Rightarrow> exn + string" where
  "public_text S raw =
     (case load_central_key (pem_private (ce_crypto S)) raw of
        None \<Rightarrow> Inl (ValueError ''invalid Ed25519 private key'')
      | Some k \<Rightarrow> Inr (b64encode (public_of (ce_crypto S) k)))"

definition issuer_bundle_of :: "central_env \<Rightarrow> issuer_bundle centre" where
  "issuer_bundle_of S =
     thenE (assertE (ce_issuer_key_id S \<noteq> [] \<and> ce_issuer_private_key S \<noteq> [])
              (Forbidden ''connector.edge_control_issuer_not_configured''))
     (bindE (liftE (public_text S (ce_issuer_private_key S))) (\<lambda>current.
      bindE (if ce_previous_private_key S = [] then returnE JNull
             else bindE (liftE (public_text S (ce_previous_private_key S))) (\<lambda>k. returnE (JStr k))) (\<lambda>previous.
      bindE (if ce_rotation_expires_at S = [] then returnE JNull
             else bindE (liftE (from_iso (ce_crypto S) (ce_rotation_expires_at S))) (\<lambda>t.
               returnE (JStr (iso_again (ce_crypto S) (with_offset (ce_rotation_expires_at S)))))) (\<lambda>expires.
      returnE \<lparr>ib_key_id = ce_issuer_key_id S, ib_public_key = current,
               ib_previous_key_id = (if ce_previous_key_id S = [] then JNull else JStr (ce_previous_key_id S)),
               ib_previous_public_key = previous, ib_rotation_expires_at = expires\<rparr>))))"

definition verify_node_signature :: "central_env \<Rightarrow> string \<Rightarrow> string \<Rightarrow> string \<Rightarrow> bool" where
  "verify_node_signature S key message sig =
     (case load_central_key (pem_public (ce_crypto S)) key of
        None \<Rightarrow> False
      | Some k \<Rightarrow> valid_signature (ce_crypto S) k sig message)"

definition resolve_node_public_keys :: "int \<Rightarrow> edge_node \<Rightarrow> string list" where
  "resolve_node_public_keys now n =
     (if str_set (en_public_key n) then [str_or (en_public_key n) []] else []) @
     (if str_set (en_previous_public_key n) \<and> (case en_rotation_expires_at n of None \<Rightarrow> False | Some t \<Rightarrow> now \<le> t)
      then [str_or (en_previous_public_key n) []] else [])"

text \<open>\<open>int(raw)\<close> of a header, and \<open>datetime.fromtimestamp\<close>, which knows the years 1 to 9999.\<close>

definition header_int :: "string option \<Rightarrow> exn + int" where
  "header_int raw =
     (case parse_int (str_or raw []) of
        None \<Rightarrow> Inl (Forbidden ''connector.edge_request_proof_invalid'')
      | Some i \<Rightarrow> Inr i)"

definition has_timestamp :: "int \<Rightarrow> bool" where
  "has_timestamp t \<longleftrightarrow> - 62135596800 \<le> t \<and> t \<le> 253402300799"

text \<open>The nonce is inserted: it must be new and fit its column.\<close>

definition consume_nonce :: "string \<Rightarrow> int \<Rightarrow> string \<Rightarrow> unit centre" where
  "consume_nonce nid version nonce =
     bindE (getsE (\<lambda>c. (nid, version, nonce) \<in> set (edge_nonces (cdb c)))) (\<lambda>used.
     thenE (assertE (\<not> used \<and> py_len nonce \<le> 128) (Forbidden ''connector.edge_request_nonce_reused''))
     (with_cdb (\<lambda>d. d\<lparr>edge_nonces := edge_nonces d @ [(nid, version, nonce)]\<rparr>)))"

text \<open>\<open>UPDATE ... WHERE last_request_seq < seq\<close>, of a column of 32 bits.\<close>

definition advance_seq :: "string \<Rightarrow> int \<Rightarrow> int \<Rightarrow> unit centre" where
  "advance_seq nid version seq =
     thenE (assertE (- 2147483648 \<le> seq \<and> seq \<le> 2147483647) (DbError ''value out of int32 range''))
     (bindE (getsE (\<lambda>c. length (filter (\<lambda>n. en_id n = nid \<and> en_version n = version \<and> en_last_seq n < seq)
                                 (edge_nodes (cdb c))))) (\<lambda>count.
      thenE (with_cdb (\<lambda>d. d\<lparr>edge_nodes := upd_where (\<lambda>n. en_id n = nid \<and> en_version n = version \<and> en_last_seq n < seq)
                                (\<lambda>n. n\<lparr>en_last_seq := seq\<rparr>) (edge_nodes d)\<rparr>))
      (assertE (count = 1) (Forbidden ''connector.edge_request_seq_conflict''))))"

definition verify_request_proof ::
  "central_env \<Rightarrow> edge_node \<Rightarrow> string \<Rightarrow> string \<Rightarrow> string \<Rightarrow> proof_headers \<Rightarrow> unit centre" where
  "verify_request_proof S n http_method path payload_sha256 h =
     thenE (assertE (en_revoked_at n = None) (Forbidden ''connector.edge_identity_revoked''))
     (thenE (assertE (str_set (en_public_key n)) (Forbidden ''connector.edge_identity_not_bound''))
     (thenE (assertE (str_set (h_timestamp h) \<and> str_set (h_nonce h) \<and> str_set (h_seq h) \<and> str_set (h_version h) \<and>
                      str_set (h_signature h)) (Forbidden ''connector.edge_request_proof_missing''))
     (bindE (liftE (header_int (h_timestamp h))) (\<lambda>timestamp.
      bindE (liftE (header_int (h_seq h))) (\<lambda>seq.
      bindE (liftE (header_int (h_version h))) (\<lambda>version.
      thenE (assertE (version = en_version n) (Forbidden ''connector.edge_identity_version_mismatch''))
      (bindE (getsE central_now) (\<lambda>now.
       thenE (assertE (has_timestamp timestamp) (ValueError ''year is out of range''))
      (thenE (assertE (\<bar>now - 1000000 * timestamp\<bar> \<le> 1000000 * ce_clock_skew S)
                (Forbidden ''connector.edge_request_expired''))
      (let nonce = str_or (h_nonce h) [];
           message = build_request_message (en_id n) version http_method path payload_sha256 timestamp nonce seq in
       thenE (assertE (list_ex (\<lambda>key. verify_node_signature S key message (str_or (h_signature h) []))
                         (resolve_node_public_keys now n)) (Forbidden ''connector.edge_request_signature_invalid''))
      (thenE (assertE (en_last_seq n < seq) (Forbidden ''connector.edge_request_seq_reordered''))
      (thenE (consume_nonce (en_id n) version nonce) (advance_seq (en_id n) version seq)))))))))))))"

definition sign_command_envelope :: "central_env \<Rightarrow> string \<Rightarrow> string \<Rightarrow> string \<Rightarrow> dict \<Rightarrow> int option \<Rightarrow> dict centre" where
  "sign_command_envelope S org_id nid purpose payload command_seq =
     thenE (assertE (purpose \<in> set COMMAND_PURPOSES) (ValueError ''unknown command purpose''))
     (bindE (issuer_bundle_of S) (\<lambda>bundle.
      bindE (the_or (ValueError ''invalid Ed25519 private key'')
               (load_central_key (pem_private (ce_crypto S)) (ce_issuer_private_key S))) (\<lambda>key.
      bindE (getsE central_now) (\<lambda>now.
      bindE (central_draw (new_token (ce_crypto S))) (\<lambda>command_id.
      bindE (central_draw (new_token (ce_crypto S))) (\<lambda>nonce.
      let body = [(''org_id'', JStr org_id), (''node_id'', JStr nid), (''purpose'', JStr purpose),
                  (''command_id'', JStr command_id), (''nonce'', JStr nonce),
                  (''command_seq'', JInt (case command_seq of Some seq \<Rightarrow> seq | None \<Rightarrow> seconds now)),
                  (''issued_at'', JStr (iso_text (ce_crypto S) now)),
                  (''expires_at'', JStr (iso_text (ce_crypto S) (now + 1000000 * ce_command_ttl S))),
                  (''payload_sha256'', JStr (canonical_payload_sha256 (ce_crypto S) (JObj payload))),
                  (''issuer_key_id'', JStr (ib_key_id bundle))];
          signature = ed_sign (ce_crypto S) key (canonical (JObj body))
      in returnE [(''envelope'', JObj (body @ [(''sig'', JStr (b64encode signature))])), (''payload'', JObj payload)]))))))"

definition get_node_for_proof :: "string \<Rightarrow> edge_node centre" where
  "get_node_for_proof nid =
     bindE (find_node (\<lambda>n. en_id n = nid)) (\<lambda>found.
     bindE (the_or (Forbidden ''connector.edge_node_not_found'') found) (\<lambda>n.
     thenE (assertE (\<not> en_deleted n) (Forbidden ''connector.edge_node_not_found''))
     (thenE (assertE (en_status n \<noteq> ''disabled'') (Forbidden ''connector.edge_node_disabled'')) (returnE n))))"

section \<open>Nodes and their identities\<close>

definition central_audit :: "string \<Rightarrow> string \<Rightarrow> string \<Rightarrow> string \<Rightarrow> string \<Rightarrow> dict \<Rightarrow> unit centre" where
  "central_audit action target org_id actor_type actor details =
     with_cdb (\<lambda>d. d\<lparr>audit_rows := audit_rows d @
       [\<lparr>au_action = action, au_target = target, au_org = org_id, au_actor_type = actor_type, au_actor = actor,
         au_details = details\<rparr>]\<rparr>)"

definition get_node :: "string \<Rightarrow> string \<Rightarrow> edge_node centre" where
  "get_node org_id nid =
     bindE (find_node (\<lambda>n. \<not> en_deleted n \<and> en_org n = org_id \<and> en_id n = nid))
       (the_or (NotFound ''connector.edge_node_not_found''))"

text \<open>The primary key of the table of nodes is unique.\<close>

definition new_primary_key :: "string \<Rightarrow> unit centre" where
  "new_primary_key nid =
     bindE (getsE (\<lambda>c. list_ex (\<lambda>n. en_id n = nid) (edge_nodes (cdb c)))) (\<lambda>taken.
     assertE (\<not> taken) (DbError ''edge_nodes_pkey''))"

definition register_node ::
  "central_env \<Rightarrow> string \<Rightarrow> string \<Rightarrow> string option \<Rightarrow> (string \<times> string \<times> int) centre" where
  "register_node S org_id name operator =
     bindE (find_node (\<lambda>n. \<not> en_deleted n \<and> en_org n = org_id \<and> en_name n = name)) (\<lambda>existing.
     thenE (assertE (existing = None) (Conflict ''connector.edge_node_name_conflict''))
     (bindE (central_draw (new_token (ce_crypto S))) (\<lambda>boot.
      bindE (getsE central_now) (\<lambda>now.
      bindE (central_draw (ce_uuid S)) (\<lambda>nid.
      let expires_at = now + 1000000 * ce_bootstrap_ttl S in
      thenE (new_primary_key nid)
      (thenE (with_cdb (\<lambda>d. d\<lparr>edge_nodes := edge_nodes d @
        [\<lparr>en_id = nid, en_org = org_id, en_name = name, en_status = ''pending'',
          en_token_hash = digest_hex (ce_crypto S) boot, en_bootstrap_expires_at = Some expires_at,
          en_bootstrap_consumed_at = None, en_version = 0, en_public_key = None, en_previous_public_key = None,
          en_rotation_expires_at = None, en_revoked_at = None, en_last_seq = 0, en_heartbeat_at = None,
          en_meta = [], en_deleted = False\<rparr>]\<rparr>))
      (thenE (central_audit ''edge_node.register'' nid org_id ''user'' (str_or operator [])
                [(''node_name'', JStr name), (''bootstrap_expires_at'', JStr (iso_text (ce_crypto S) expires_at))])
      (returnE (nid, boot, expires_at)))))))))"

definition identity_answer :: "string \<Rightarrow> string \<Rightarrow> int \<Rightarrow> issuer_bundle \<Rightarrow> dict" where
  "identity_answer nid org_id version bundle =
     [(''node_id'', JStr nid), (''org_id'', JStr org_id), (''identity_version'', JInt version),
      (''issuer_key_id'', JStr (ib_key_id bundle)), (''issuer_public_key'', JStr (ib_public_key bundle)),
      (''previous_issuer_key_id'', ib_previous_key_id bundle),
      (''previous_issuer_public_key'', ib_previous_public_key bundle),
      (''issuer_rotation_expires_at'', ib_rotation_expires_at bundle)]"

definition bind_identity :: "central_env \<Rightarrow> string \<Rightarrow> string \<Rightarrow> string \<Rightarrow> string \<Rightarrow> dict centre" where
  "bind_identity S org_id nid boot public_key =
     bindE (get_node org_id nid) (\<lambda>n.
     bindE (getsE central_now) (\<lambda>now.
     thenE (assertE (en_bootstrap_consumed_at n = None) (Forbidden ''connector.edge_bootstrap_reused''))
     (thenE (assertE (case en_bootstrap_expires_at n of None \<Rightarrow> True | Some t \<Rightarrow> now \<le> t)
               (Forbidden ''connector.edge_bootstrap_expired''))
     (thenE (assertE (en_token_hash n = digest_hex (ce_crypto S) boot) (Forbidden ''connector.edge_bootstrap_invalid''))
     (thenE (assertE (en_revoked_at n = None) (Forbidden ''connector.edge_identity_revoked''))
     (thenE (assertE (en_status n \<noteq> ''disabled'') (Forbidden ''connector.edge_node_disabled''))
     (thenE (change_node nid (\<lambda>n. n\<lparr>en_public_key := Some public_key, en_version := 1,
               en_bootstrap_consumed_at := Some now, en_last_seq := 0, en_status := ''pending''\<rparr>))
     (bindE (issuer_bundle_of S) (\<lambda>bundle.
      thenE (central_audit ''edge_node.bind'' nid org_id ''edge_node'' nid [(''identity_version'', JInt 1)])
      (returnE (identity_answer nid (en_org n) 1 bundle)))))))))))"

definition disable_node :: "string \<Rightarrow> string \<Rightarrow> string \<Rightarrow> unit centre" where
  "disable_node org_id nid operator =
     bindE (get_node org_id nid) (\<lambda>n.
     thenE (change_node nid (\<lambda>n. n\<lparr>en_status := ''disabled''\<rparr>))
     (central_audit ''edge_node.disable'' nid org_id ''user'' operator []))"

definition enable_node :: "string \<Rightarrow> string \<Rightarrow> string \<Rightarrow> unit centre" where
  "enable_node org_id nid operator =
     bindE (get_node org_id nid) (\<lambda>n.
     thenE (assertE (str_set (en_public_key n) \<and> en_revoked_at n = None) (BadRequest ''connector.edge_identity_not_bound''))
     (thenE (change_node nid (\<lambda>n. n\<lparr>en_status := ''pending''\<rparr>))
     (central_audit ''edge_node.enable'' nid org_id ''user'' operator [])))"

definition revoke_node :: "string \<Rightarrow> string \<Rightarrow> string \<Rightarrow> unit centre" where
  "revoke_node org_id nid operator =
     bindE (get_node org_id nid) (\<lambda>n.
     bindE (getsE central_now) (\<lambda>now.
     thenE (change_node nid (\<lambda>n. n\<lparr>en_revoked_at := Some now, en_status := ''disabled''\<rparr>))
     (central_audit ''edge_node.revoke'' nid org_id ''user'' operator [])))"

definition start_rotation :: "central_env \<Rightarrow> string \<Rightarrow> string \<Rightarrow> string \<Rightarrow> unit centre" where
  "start_rotation S org_id nid operator =
     bindE (get_node org_id nid) (\<lambda>n.
     thenE (assertE (str_set (en_public_key n) \<and> en_revoked_at n = None) (BadRequest ''connector.edge_identity_not_bound''))
     (bindE (getsE central_now) (\<lambda>now.
      let expires = now + 1000000 * ce_rotation_window S in
      thenE (change_node nid (\<lambda>n. n\<lparr>en_rotation_expires_at := Some expires\<rparr>))
      (central_audit ''edge_node.rotate_start'' nid org_id ''user'' operator
         [(''rotation_expires_at'', JStr (iso_text (ce_crypto S) expires))]))))"

definition complete_rotation :: "central_env \<Rightarrow> string \<Rightarrow> string \<Rightarrow> string \<Rightarrow> dict centre" where
  "complete_rotation S org_id nid new_public_key =
     bindE (get_node org_id nid) (\<lambda>n.
     bindE (the_or (Forbidden ''connector.edge_rotation_not_active'') (en_rotation_expires_at n)) (\<lambda>expires.
     bindE (getsE central_now) (\<lambda>now.
     thenE (assertE (now \<le> expires) (Forbidden ''connector.edge_rotation_expired''))
     (thenE (change_node nid (\<lambda>n. n\<lparr>en_previous_public_key := en_public_key n, en_public_key := Some new_public_key,
               en_version := en_version n + 1, en_last_seq := 0, en_rotation_expires_at := None\<rparr>))
     (bindE (issuer_bundle_of S) (\<lambda>bundle.
      thenE (central_audit ''edge_node.rotate_complete'' nid org_id ''edge_node'' nid
               [(''identity_version'', JInt (en_version n + 1))])
      (returnE (identity_answer nid (en_org n) (en_version n + 1) bundle))))))))"

section \<open>Jobs\<close>

definition enqueue_edge_job ::
  "central_env \<Rightarrow> string \<Rightarrow> string \<Rightarrow> string \<Rightarrow> string \<Rightarrow> dict \<Rightarrow> dict \<Rightarrow> string option \<Rightarrow> string option \<Rightarrow>
   string option \<Rightarrow> int \<Rightarrow> string option \<Rightarrow> string centre" where
  "enqueue_edge_job S org_id nid run_id tool args snap key attempt step gen trace =
     bindE (find_job (\<lambda>j. \<not> ej_deleted j \<and> ej_org j = org_id \<and> str_set key \<and> ej_key j = key)) (\<lambda>by_key.
     case by_key of Some j \<Rightarrow> returnE (ej_id j) | None \<Rightarrow>
     bindE (find_job (\<lambda>j. \<not> ej_deleted j \<and> ej_org j = org_id \<and> ej_node j = nid \<and> ej_run j = run_id \<and>
       (if str_set step then ej_step j = step else ej_tool j = tool))) (\<lambda>same.
     case same of Some j \<Rightarrow> returnE (ej_id j) | None \<Rightarrow>
     bindE (get_node org_id nid) (\<lambda>n.
     bindE (central_draw (ce_uuid S)) (\<lambda>jid.
     bindE (getsE central_now) (\<lambda>now.
     thenE (with_cdb (\<lambda>d. d\<lparr>edge_jobs := edge_jobs d @
       [\<lparr>ej_id = jid, ej_org = org_id, ej_node = nid, ej_run = run_id, ej_attempt = attempt, ej_step = step,
         ej_run_generation = gen, ej_trace = trace, ej_key = key, ej_tool = tool, ej_status = ''queued'',
         ej_arguments = args, ej_snapshot = snap, ej_result = JNull, ej_claimed_at = None, ej_lease_until = None,
         ej_delivery = 0, ej_cancel_at = None, ej_completed_at = None, ej_created_at = now, ej_deleted = False\<rparr>]\<rparr>))
     (returnE jid))))))"

text \<open>
  A request for an artifact. The unique index on organisation, job, name and generation also covers the
  requests that were consumed or have expired.
\<close>

definition same_demand :: "string \<Rightarrow> string \<Rightarrow> string \<Rightarrow> int \<Rightarrow> on_demand \<Rightarrow> bool" where
  "same_demand org_id jid name gen r \<longleftrightarrow>
     \<not> od_deleted r \<and> od_org r = org_id \<and> od_job r = jid \<and> od_name r = name \<and> od_run_generation r = gen"

definition issue_on_demand_request ::
  "central_env \<Rightarrow> string \<Rightarrow> string \<Rightarrow> string \<Rightarrow> string \<Rightarrow> string \<Rightarrow> string option \<Rightarrow> string option \<Rightarrow>
   string option \<Rightarrow> int \<Rightarrow> int \<Rightarrow> int \<Rightarrow> string centre" where
  "issue_on_demand_request S org_id nid jid run_id name artifact attempt step gen delivery ttl =
     bindE (getsE central_now) (\<lambda>now.
     bindE (getsE (\<lambda>c. find (same_demand org_id jid name gen) (on_demands (cdb c)))) (\<lambda>existing.
     case existing of
       Some r \<Rightarrow>
         if od_status r = ''issued'' \<and> now < od_expires_at r then returnE (od_id r)
         else thenE (whenE (od_status r = ''issued'') (change_on_demand (od_id r) (\<lambda>r. r\<lparr>od_status := ''expired''\<rparr>)))
              (raiseE (DbError ''uq_edge_artifact_on_demand_req''))
     | None \<Rightarrow>
         bindE (central_draw (ce_uuid S)) (\<lambda>rid.
         thenE (with_cdb (\<lambda>d. d\<lparr>on_demands := on_demands d @
           [\<lparr>od_id = rid, od_org = org_id, od_node = nid, od_job = jid, od_run = run_id, od_attempt = attempt,
             od_step = step, od_run_generation = gen, od_delivery = delivery, od_artifact = artifact, od_name = name,
             od_status = ''issued'', od_expires_at = now + 1000000 * ttl, od_consumed_at = None,
             od_created_at = now, od_deleted = False\<rparr>]\<rparr>)) (returnE rid))))"

definition pull_on_demand_requests :: "string \<Rightarrow> string \<Rightarrow> on_demand list centre" where
  "pull_on_demand_requests org_id nid =
     bindE (getsE central_now) (\<lambda>now.
     let open_row = (\<lambda>r. \<not> od_deleted r \<and> od_org r = org_id \<and> od_node r = nid \<and> od_status r = ''issued'') in
     bindE (getsE (\<lambda>c. filter open_row (on_demands (cdb c)))) (\<lambda>rows.
     thenE (with_cdb (\<lambda>d. d\<lparr>on_demands := upd_where (\<lambda>r. open_row r \<and> od_expires_at r \<le> now)
              (\<lambda>r. r\<lparr>od_status := ''expired''\<rparr>) (on_demands d)\<rparr>))
     (returnE (filter (\<lambda>r. now < od_expires_at r) rows))))"

text \<open>The newest request of the job that matches is consumed, if it is open.\<close>

definition consume_on_demand_request ::
  "string \<Rightarrow> string \<Rightarrow> string \<Rightarrow> string option \<Rightarrow> int \<Rightarrow> unit centre" where
  "consume_on_demand_request org_id jid name artifact gen =
     bindE (getsE central_now) (\<lambda>now.
     bindE (getsE (\<lambda>c. sort_key (\<lambda>r. - od_created_at r) (filter (\<lambda>r. \<not> od_deleted r \<and> od_org r = org_id \<and> od_job r = jid \<and>
       (name \<noteq> [] \<longrightarrow> od_name r = name) \<and> od_run_generation r = gen) (on_demands (cdb c))))) (\<lambda>rows.
     case rows of
       [] \<Rightarrow> returnE ()
     | r # _ \<Rightarrow>
         whenE (od_status r = ''issued'')
           (if od_expires_at r \<le> now then change_on_demand (od_id r) (\<lambda>r. r\<lparr>od_status := ''expired''\<rparr>)
            else change_on_demand (od_id r) (\<lambda>r. r\<lparr>od_status := ''consumed'', od_consumed_at := Some now,
              od_artifact := (if str_set artifact then artifact else od_artifact r)\<rparr>))))"

end
