(* ===== verification/Edge_Api.thy ===== *)
theory Edge_Api
  imports Edge_Control
begin

text \<open>
  The endpoints of \<open>nodeskclaw-backend/app/api/internal_edge.py\<close> that edge nodes call for their identity
  and their jobs, and those the agent calls to queue and cancel jobs.
\<close>

section \<open>Requests\<close>

record edge_request =
  er_method :: string
  er_path :: string
  er_query :: string
  er_body :: string
  er_proof :: proof_headers
  er_generation :: "string option"

definition digest_matches :: "string \<Rightarrow> string \<Rightarrow> unit centre" where
  "digest_matches claimed digest =
     (if claimed = [] then returnE ()
      else if py_len claimed \<noteq> py_len digest then raiseE (Forbidden ''connector.edge_payload_digest_mismatch'')
      else if \<not> is_ascii claimed then raiseE (OtherError ''comparing strings with non-ASCII characters is not supported'')
      else assertE (claimed = digest) (Forbidden ''connector.edge_payload_digest_mismatch''))"

definition authenticate_edge :: "central_env \<Rightarrow> edge_request \<Rightarrow> string option \<Rightarrow> edge_node centre" where
  "authenticate_edge S q nid =
     (let header_id = h_node_id (er_proof q);
          resolved = (if str_set nid then nid else header_id) in
      thenE (assertE (str_set resolved) (Forbidden ''connector.edge_node_id_required''))
      (bindE (get_node_for_proof (str_or resolved [])) (\<lambda>n.
       thenE (assertE (en_org n = [] \<or> \<not> str_set header_id \<or> header_id = Some (en_id n))
                (Forbidden ''connector.edge_org_mismatch''))
      (thenE (assertE (\<not> str_set nid \<or> nid = Some (en_id n)) (Forbidden ''connector.edge_org_mismatch''))
      (thenE (assertE (str_set (en_public_key n)) (Forbidden ''connector.edge_identity_not_bound''))
      (let digest = bind_request_digest (ce_crypto S) (er_body q) (er_query q) in
       thenE (digest_matches (lower (strip (str_or (h_digest (er_proof q)) []))) (lower digest))
      (thenE (verify_request_proof S n (er_method q) (er_path q) digest (er_proof q))
      (returnE n))))))))"

text \<open>A job of the node, by its id.\<close>

definition job_of_node :: "edge_node \<Rightarrow> string \<Rightarrow> edge_job centre" where
  "job_of_node n jid =
     bindE (find_job (\<lambda>j. \<not> ej_deleted j \<and> ej_id j = jid \<and> ej_node j = en_id n \<and> ej_org j = en_org n))
       (the_or (NotFound ''connector.edge_job_not_found''))"

text \<open>The generation a request names, in its header or else in its body, must be that of the job.\<close>

definition requested_generation :: "string option \<Rightarrow> int option \<Rightarrow> int option" where
  "requested_generation header body =
     (case (if str_set header then parse_int (str_or header []) else None) of Some g \<Rightarrow> Some g | None \<Rightarrow> body)"

definition check_delivery :: "edge_job \<Rightarrow> int option \<Rightarrow> unit centre" where
  "check_delivery j gen =
     bindE (the_or (Forbidden ''connector.missing_delivery_generation'') gen) (\<lambda>g.
     assertE (g = ej_delivery j) (Forbidden ''connector.stale_delivery_generation''))"

section \<open>Identity\<close>

definition enroll_edge_node :: "central_env \<Rightarrow> string \<Rightarrow> string \<Rightarrow> string option \<Rightarrow> dict centre" where
  "enroll_edge_node S nid public_key boot =
     edge_session
      (thenE (assertE (str_set boot) (Forbidden ''connector.edge_bootstrap_missing''))
      (bindE (find_node (\<lambda>n. \<not> en_deleted n \<and> en_id n = nid)) (\<lambda>found.
       bindE (the_or (NotFound ''connector.edge_node_not_found'') found) (\<lambda>n.
       bindE (bind_identity S (en_org n) nid (str_or boot []) public_key) (\<lambda>d.
       thenE edge_commit (returnE d))))))"

definition rotate_edge_identity :: "central_env \<Rightarrow> edge_request \<Rightarrow> string \<Rightarrow> dict centre" where
  "rotate_edge_identity S q new_public_key =
     edge_session
      (bindE (authenticate_edge S q None) (\<lambda>n.
       bindE (complete_rotation S (en_org n) (en_id n) new_public_key) (\<lambda>d.
       thenE edge_commit (returnE d))))"

definition time_json :: "crypto \<Rightarrow> int option \<Rightarrow> json" where
  "time_json K t = (case t of None \<Rightarrow> JNull | Some s \<Rightarrow> JStr (iso_text K s))"

definition heartbeat_payload :: "central_env \<Rightarrow> edge_node \<Rightarrow> dict" where
  "heartbeat_payload S n =
     [(''node_id'', JStr (en_id n)), (''status'', JStr ''online''),
      (''identity_rotation_expires_at'', time_json (ce_crypto S) (en_rotation_expires_at n))]"

definition edge_heartbeat :: "central_env \<Rightarrow> edge_request \<Rightarrow> string \<Rightarrow> dict option \<Rightarrow> dict centre" where
  "edge_heartbeat S q nid status_meta =
     edge_session
      (bindE (authenticate_edge S q (Some nid)) (\<lambda>n.
       thenE (assertE (en_org n = [] \<or> nid = en_id n) (Forbidden ''connector.edge_org_mismatch''))
      (bindE (getsE central_now) (\<lambda>now.
       thenE (change_node (en_id n) (\<lambda>n. n\<lparr>en_heartbeat_at := Some now, en_status := ''online'',
                en_meta := (case status_meta of None \<Rightarrow> en_meta n | Some d \<Rightarrow> dict_update (en_meta n) d)\<rparr>))
      (thenE edge_commit
      (sign_command_envelope S (en_org n) (en_id n) ''node.heartbeat'' (heartbeat_payload S n) None))))))"

section \<open>Jobs\<close>

definition SECRET_ROUTE_KEYS :: "string list" where
  "SECRET_ROUTE_KEYS =
     [''gateway_url'', ''gateway_token'', ''api_token'', ''api_server_key'', ''hermes_base_url'', ''env_file'']"

fun strip_internal_route_secrets :: "json \<Rightarrow> json" where
  "strip_internal_route_secrets (JObj d) =
     JObj (List.map (\<lambda>(k, v). (k, strip_internal_route_secrets v)) (filter (\<lambda>kv. fst kv \<notin> set SECRET_ROUTE_KEYS) d))"
| "strip_internal_route_secrets (JList xs) = JList (List.map strip_internal_route_secrets xs)"
| "strip_internal_route_secrets j = j"

definition lease_expired :: "int \<Rightarrow> edge_job \<Rightarrow> bool" where
  "lease_expired now j \<longleftrightarrow>
     ej_status j \<in> {''claimed'', ''running''} \<and> (case ej_lease_until j of None \<Rightarrow> False | Some t \<Rightarrow> t < now)"

definition job_claimable :: "int \<Rightarrow> edge_node \<Rightarrow> edge_job \<Rightarrow> bool" where
  "job_claimable now n j \<longleftrightarrow>
     \<not> ej_deleted j \<and> ej_node j = en_id n \<and> ej_org j = en_org n \<and> (ej_status j = ''queued'' \<or> lease_expired now j)"

definition claimed_job :: "int \<Rightarrow> edge_job \<Rightarrow> edge_job" where
  "claimed_job now j = j\<lparr>ej_status := ''claimed'', ej_claimed_at := Some now, ej_delivery := ej_delivery j + 1,
     ej_lease_until := Some (now + 60000000)\<rparr>"

definition job_payload :: "central_env \<Rightarrow> edge_job \<Rightarrow> dict" where
  "job_payload S j =
     [(''id'', JStr (ej_id j)), (''job_id'', JStr (ej_id j)), (''run_id'', JStr (ej_run j)),
      (''attempt_id'', jopt (ej_attempt j)), (''step_id'', jopt (ej_step j)),
      (''run_generation'', JInt (ej_run_generation j)), (''delivery_generation'', JInt (ej_delivery j)),
      (''request_trace_id'', jopt (ej_trace j)), (''tool_name'', JStr (ej_tool j)),
      (''arguments'', JObj (ej_arguments j)), (''snapshot'', strip_internal_route_secrets (JObj (ej_snapshot j))),
      (''lease_until'', time_json (ce_crypto S) (ej_lease_until j))]"

text \<open>Jobs whose rows others have locked are skipped (\<open>with_for_update(skip_locked=True)\<close>).\<close>

definition free_job :: "central_env \<Rightarrow> central_db \<Rightarrow> int \<Rightarrow> edge_node \<Rightarrow> edge_job \<Rightarrow> bool" where
  "free_job S tables now n j \<longleftrightarrow> job_claimable now n j \<and> \<not> ce_job_locked S tables now (ej_id j)"

text \<open>\<open>None\<close> is the answer 204.\<close>

definition claim_edge_job :: "central_env \<Rightarrow> edge_request \<Rightarrow> dict option centre" where
  "claim_edge_job S q =
     edge_session
      (bindE (authenticate_edge S q None) (\<lambda>n.
       bindE (getsE central_now) (\<lambda>now.
       bindE (getsE (\<lambda>c. sort_key ej_created_at (filter (free_job S (saved c) now n) (edge_jobs (cdb c))))) (\<lambda>rows.
       case rows of
         [] \<Rightarrow> returnE None
       | j # _ \<Rightarrow>
           thenE (change_job (ej_id j) (claimed_job now))
           (thenE edge_commit
           (bindE (sign_command_envelope S (en_org n) (en_id n) ''job.claim'' (job_payload S (claimed_job now j)) None)
             (\<lambda>d. returnE (Some d))))))))"

definition renew_edge_job_lease :: "central_env \<Rightarrow> edge_request \<Rightarrow> string \<Rightarrow> int option \<Rightarrow> unit centre" where
  "renew_edge_job_lease S q jid body_generation =
     edge_session
      (bindE (authenticate_edge S q None) (\<lambda>n.
       bindE (job_of_node n jid) (\<lambda>j.
       thenE (check_delivery j (requested_generation (er_generation q) body_generation))
      (bindE (getsE central_now) (\<lambda>now.
       thenE (change_job jid (\<lambda>j. j\<lparr>ej_lease_until := Some (now + 60000000)\<rparr>)) edge_commit)))))"

definition job_cancelled :: "edge_job \<Rightarrow> bool" where
  "job_cancelled j \<longleftrightarrow> ej_cancel_at j \<noteq> None \<or> ej_status j \<in> {''failed'', ''cancelled''}"

definition check_edge_job_cancel :: "central_env \<Rightarrow> edge_request \<Rightarrow> string \<Rightarrow> dict centre" where
  "check_edge_job_cancel S q jid =
     edge_session
      (bindE (authenticate_edge S q None) (\<lambda>n.
       bindE (job_of_node n jid) (\<lambda>j.
       sign_command_envelope S (en_org n) (en_id n) ''job.cancel.check''
         [(''job_id'', JStr (ej_id j)), (''cancel_requested'', JBool (job_cancelled j)),
          (''cancelled'', JBool (job_cancelled j))] None)))"

definition request_edge_job_cancel :: "central_env \<Rightarrow> edge_request \<Rightarrow> string \<Rightarrow> unit centre" where
  "request_edge_job_cancel S q jid =
     edge_session
      (bindE (authenticate_edge S q None) (\<lambda>n.
       bindE (job_of_node n jid) (\<lambda>j.
       bindE (getsE central_now) (\<lambda>now.
       thenE (change_job jid (\<lambda>j. j\<lparr>ej_cancel_at := Some now\<rparr>)) edge_commit))))"

text \<open>The agent's token, current or previous.\<close>

definition authenticate_internal_skill_agent :: "central_env \<Rightarrow> string option \<Rightarrow> unit centre" where
  "authenticate_internal_skill_agent S token =
     assertE (str_set token \<and>
       (ce_agent_token S \<noteq> [] \<and> token = Some (ce_agent_token S) \<or>
        ce_agent_token_previous S \<noteq> [] \<and> token = Some (ce_agent_token_previous S))) (Forbidden ''auth.invalid_token'')"

definition request_agent_edge_job_cancel :: "central_env \<Rightarrow> string \<Rightarrow> string option \<Rightarrow> string option \<Rightarrow> unit centre" where
  "request_agent_edge_job_cancel S jid token org_id =
     edge_session
      (thenE (authenticate_internal_skill_agent S token)
      (thenE (assertE (str_set org_id) (Forbidden ''auth.missing_org_header''))
      (bindE (find_job (\<lambda>j. \<not> ej_deleted j \<and> ej_id j = jid \<and> Some (ej_org j) = org_id)) (\<lambda>found.
       bindE (the_or (NotFound ''connector.edge_job_not_found'') found) (\<lambda>j.
       bindE (getsE central_now) (\<lambda>now.
       whenE (ej_status j \<in> {''queued'', ''claimed'', ''running''})
         (thenE (change_job jid (\<lambda>j. j\<lparr>ej_cancel_at := Some now\<rparr>)) edge_commit)))))))"

definition enqueue_edge_job_endpoint ::
  "central_env \<Rightarrow> string option \<Rightarrow> string option \<Rightarrow> string \<Rightarrow> string \<Rightarrow> string \<Rightarrow> dict \<Rightarrow> dict \<Rightarrow> string option \<Rightarrow>
   string option \<Rightarrow> string option \<Rightarrow> int \<Rightarrow> string option \<Rightarrow> string centre" where
  "enqueue_edge_job_endpoint S token org_id nid run_id tool args snap key attempt step gen trace =
     edge_session
      (thenE (authenticate_internal_skill_agent S token)
      (thenE (assertE (str_set org_id) (Forbidden ''auth.missing_org_header''))
      (bindE (enqueue_edge_job S (str_or org_id []) nid run_id tool args snap key attempt step gen trace) (\<lambda>jid.
       thenE edge_commit (returnE jid)))))"

text \<open>What the events of a job make of it, and the status it ends with, if any.\<close>

definition event_payload :: "dict \<Rightarrow> json" where
  "event_payload event = or_else (dget event ''payload'') (JObj [])"

fun apply_job_events :: "dict list \<Rightarrow> edge_job \<times> string option \<Rightarrow> edge_job \<times> string option" where
  "apply_job_events [] (j, ending) = (j, ending)"
| "apply_job_events (event # es) (j, ending) =
     (let kind = str_at event ''event_type'' in
      apply_job_events es
       (if kind = ''run.completed'' then (j\<lparr>ej_result := event_payload event\<rparr>, Some ''completed'')
        else if kind = ''run.failed'' then (j\<lparr>ej_result := event_payload event\<rparr>, Some ''failed'')
        else if kind = ''run.started'' \<and> ej_status j = ''claimed'' then (j\<lparr>ej_status := ''running''\<rparr>, ending)
        else (j, ending)))"

definition job_after :: "int \<Rightarrow> dict list \<Rightarrow> edge_job \<Rightarrow> edge_job" where
  "job_after now es j =
     (case apply_job_events es (j, None) of
        (j', Some ending) \<Rightarrow> j'\<lparr>ej_status := ending, ej_completed_at := Some now\<rparr>
      | (j', None) \<Rightarrow> j')"

definition events_url :: "central_env \<Rightarrow> string \<Rightarrow> string" where
  "events_url S run_id =
     rstrip_of (\<lambda>c. c = CHR ''/'') (ce_agent_url S) @ ''/internal/v1/runs/'' @ run_id @ ''/events/ingest''"

definition relay_events :: "central_env \<Rightarrow> string \<Rightarrow> string \<Rightarrow> dict list \<Rightarrow> unit centre" where
  "relay_events S org_id run_id es =
     (if es = [] \<or> \<not> ce_agent_enabled S \<or> ce_agent_url S = [] then returnE ()
      else
        let x = HttpRequest ''POST'' (events_url S run_id)
              [(''X-Skill-Agent-Token'', JStr (ce_agent_token S)), (''X-Exec-Org-Id'', JStr org_id),
               (''X-Exec-User-Id'', JStr []), (''Content-Type'', JStr ''application/json'')]
              (JObj [(''events'', JList (List.map JObj es))]) in
        bindE (getsE (\<lambda>c. ce_relay S (length (relayed c)) x)) (\<lambda>ok.
        thenE (modifyE (\<lambda>c. c\<lparr>relayed := relayed c @ [x]\<rparr>))
        (assertE ok (Forbidden ''connector.edge_relay_failed''))))"

definition post_edge_job_events :: "central_env \<Rightarrow> edge_request \<Rightarrow> string \<Rightarrow> dict list \<Rightarrow> int option \<Rightarrow> unit centre" where
  "post_edge_job_events S q jid es body_generation =
     edge_session
      (bindE (authenticate_edge S q None) (\<lambda>n.
       bindE (job_of_node n jid) (\<lambda>j.
       thenE (check_delivery j (requested_generation (er_generation q) body_generation))
      (thenE (assertE (list_all (\<lambda>e. length (dumps_default (event_payload e)) \<le> 65536) es)
                (BadRequest ''connector.payload_too_large''))
      (bindE (getsE central_now) (\<lambda>now.
       thenE (change_job jid (job_after now es))
      (thenE (relay_events S (en_org n) (ej_run j) es) edge_commit)))))))"

text \<open>Requests for artifacts, each a signed command.\<close>

definition demand_payload :: "central_env \<Rightarrow> on_demand \<Rightarrow> dict" where
  "demand_payload S r =
     [(''id'', JStr (od_id r)), (''org_id'', JStr (od_org r)), (''edge_node_id'', JStr (od_node r)),
      (''job_id'', JStr (od_job r)), (''run_id'', JStr (od_run r)), (''attempt_id'', jopt (od_attempt r)),
      (''step_id'', jopt (od_step r)), (''run_generation'', JInt (od_run_generation r)),
      (''delivery_generation'', JInt (od_delivery r)), (''artifact_id'', jopt (od_artifact r)),
      (''name'', JStr (od_name r)), (''status'', JStr (od_status r)),
      (''expires_at'', JStr (iso_text (ce_crypto S) (od_expires_at r)))]"

definition pull_edge_artifact_on_demand_requests :: "central_env \<Rightarrow> edge_request \<Rightarrow> dict list centre" where
  "pull_edge_artifact_on_demand_requests S q =
     edge_session
      (bindE (authenticate_edge S q None) (\<lambda>n.
       bindE (pull_on_demand_requests (en_org n) (en_id n)) (\<lambda>rows.
       thenE edge_commit
       (mapE rows (\<lambda>r. sign_command_envelope S (en_org n) (en_id n) ''artifact.on_demand'' (demand_payload S r) None)))))"

definition create_edge_job_artifact_on_demand_request ::
  "central_env \<Rightarrow> edge_request \<Rightarrow> string \<Rightarrow> string \<Rightarrow> string option \<Rightarrow> string option \<Rightarrow> string option \<Rightarrow>
   int \<Rightarrow> int \<Rightarrow> int \<Rightarrow> string centre" where
  "create_edge_job_artifact_on_demand_request S q jid name artifact attempt step gen delivery ttl =
     edge_session
      (bindE (authenticate_edge S q None) (\<lambda>n.
       bindE (find_job (\<lambda>j. \<not> ej_deleted j \<and> ej_id j = jid \<and> ej_node j = en_id n \<and> ej_org j = en_org n)) (\<lambda>found.
       bindE (the_or (NotFound ''artifact.on_demand_not_found'') found) (\<lambda>j.
       bindE (issue_on_demand_request S (en_org n) (en_id n) jid (ej_run j) name artifact
                (if str_set attempt then attempt else ej_attempt j) (if str_set step then step else ej_step j)
                (if gen = 0 then ej_run_generation j else gen) (if delivery = 0 then ej_delivery j else delivery) ttl)
         (\<lambda>rid. thenE edge_commit (returnE rid))))))"

end
