(* ===== verification/Edge_Worker.thy ===== *)
theory Edge_Worker
  imports Edge_Api
begin

text \<open>
  \<open>services/edge_worker.py\<close> of the agent: how an edge node enrolls, keeps its identity, asks the centre
  for jobs and delivers their events, with the centre of \<open>Edge_Api\<close> at the other end of the wire.
\<close>

section \<open>The node, the wire and the centre\<close>

text \<open>
  A request gets lost on its way (\<open>Lost\<close>), is answered, or its answer gets lost (\<open>Unanswered\<close>). The spool
  holds the files of undelivered events, by their names.
\<close>

datatype delivery = Lost | Answered | Unanswered

record edge_world =
  node :: edge_store
  centre_state :: central
  sent :: nat
  spool :: "(string \<times> dict) list"

type_synonym 'a edge_run = "(edge_world, 'a) prog"

record edge_config =
  ec_crypto :: crypto
  ec_central :: central_env
  ec_delivery :: "nat \<Rightarrow> delivery"
  ec_uuid_hex :: "nat \<Rightarrow> string"
  ec_node_id :: string
  ec_token :: string

definition on_node :: "'a edge \<Rightarrow> 'a edge_run" where
  "on_node m = (\<lambda>w. case m (node w) of (r, s) \<Rightarrow> (r, w\<lparr>node := s\<rparr>))"

definition answer_status :: "exn \<Rightarrow> int" where
  "answer_status e = (case e of HTTPException n m \<Rightarrow> int n | _ \<Rightarrow> 500)"

text \<open>A call of an endpoint, with \<open>raise_for_status\<close>: its answer, or an error of the network or the status.\<close>

definition exchange :: "edge_config \<Rightarrow> 'a centre \<Rightarrow> 'a edge_run" where
  "exchange X m = (\<lambda>w.
     let after = m (centre_state w); w' = w\<lparr>sent := Suc (sent w)\<rparr> in
     case ec_delivery X (sent w) of
       Lost \<Rightarrow> (Inl (NetworkError ''request lost''), w')
     | Unanswered \<Rightarrow> (Inl (NetworkError ''answer lost''), w'\<lparr>centre_state := snd after\<rparr>)
     | Answered \<Rightarrow>
         ((case fst after of Inl e \<Rightarrow> Inl (HttpStatusError (answer_status e)) | Inr a \<Rightarrow> Inr a),
          w'\<lparr>centre_state := snd after\<rparr>))"

section \<open>Signed requests\<close>

definition edge_path :: "string \<Rightarrow> string" where
  "edge_path rest = ''/api/v1/internal/edge'' @ rest"

definition job_path :: "string \<Rightarrow> string \<Rightarrow> string" where
  "job_path jid rest = edge_path (''/jobs/'' @ jid @ rest)"

definition request_headers :: "crypto \<Rightarrow> string \<Rightarrow> string \<Rightarrow> dict option \<Rightarrow> string \<Rightarrow> proof_headers edge" where
  "request_headers K http_method path json_body query =
     bindE (load K) (\<lambda>found.
     case found of
       None \<Rightarrow> raiseE (RuntimeError ''edge identity not bound'')
     | Some i \<Rightarrow>
         if ei_version i \<le> 0 \<or> ei_issuer_key_id i = [] then raiseE (RuntimeError ''edge identity not bound'')
         else bindE (sign_request_headers K i http_method path
                (JStr (case json_body of None \<Rightarrow> [] | Some d \<Rightarrow> canonical (JObj d))) query) (\<lambda>(headers, j).
              returnE headers))"

text \<open>The request with these headers; httpx sends a JSON body compactly.\<close>

definition wire_request :: "string \<Rightarrow> string \<Rightarrow> dict option \<Rightarrow> string option \<Rightarrow> proof_headers \<Rightarrow> edge_request" where
  "wire_request http_method path json_body gen headers =
     \<lparr>er_method = http_method, er_path = path, er_query = [],
      er_body = (case json_body of None \<Rightarrow> [] | Some d \<Rightarrow> dumps_compact (JObj d)),
      er_proof = headers, er_generation = gen\<rparr>"

definition signed_request ::
  "edge_config \<Rightarrow> string \<Rightarrow> string \<Rightarrow> dict option \<Rightarrow> string option \<Rightarrow> edge_request edge_run" where
  "signed_request X http_method path json_body gen =
     bindE (on_node (request_headers (ec_crypto X) http_method path json_body [])) (\<lambda>headers.
     returnE (wire_request http_method path json_body gen headers))"

text \<open>Loading the identity and checking a command.\<close>

definition take_command :: "crypto \<Rightarrow> json \<Rightarrow> string option \<Rightarrow> json option edge" where
  "take_command K wrapped expected =
     bindE (load K) (\<lambda>found.
     case found of
       None \<Rightarrow> returnE None
     | Some i \<Rightarrow> bindE (unwrap_or_none K i wrapped expected) (\<lambda>(payload, j). returnE payload))"

section \<open>Enrolling and rotating\<close>

definition first_identity :: "crypto \<Rightarrow> string \<Rightarrow> string \<Rightarrow> identity option edge" where
  "first_identity K nid token =
     bindE (load K) (\<lambda>found.
     if found = None \<and> token \<noteq> [] \<and> nid \<noteq> []
     then bindE (ensure_bootstrap_identity K nid [] token) (\<lambda>i. returnE (Some i))
     else returnE found)"

definition ensure_enrolled :: "edge_config \<Rightarrow> unit edge_run" where
  "ensure_enrolled X =
     bindE (on_node (first_identity (ec_crypto X) (ec_node_id X) (ec_token X))) (\<lambda>found.
     case found of
       None \<Rightarrow> returnE ()
     | Some i \<Rightarrow>
         if 0 < ei_version i \<or> \<not> truthy (ei_bootstrap i) then returnE ()
         else bindE (exchange X (enroll_edge_node (ec_central X) (ei_node_id i) (ei_public_key i)
                      (Some (py_str (ei_bootstrap i))))) (\<lambda>data.
              thenE (on_node (apply_bind_response (ec_crypto X) i data)) (returnE ())))"

definition window_open :: "crypto \<Rightarrow> dict \<Rightarrow> int \<Rightarrow> exn + bool" where
  "window_open K payload now =
     (let raw = dget payload ''identity_rotation_expires_at'' in
      if \<not> truthy raw then Inr False
      else case from_iso K (py_str raw) of
        Inl e \<Rightarrow> Inr False
      | Inr t \<Rightarrow> (case aware_time t of Inl e \<Rightarrow> Inl e | Inr expires \<Rightarrow> Inr (now \<le> expires)))"

definition maybe_complete_rotation :: "edge_config \<Rightarrow> dict \<Rightarrow> unit edge_run" where
  "maybe_complete_rotation X payload =
     bindE (getsE (\<lambda>w. edge_now (node w))) (\<lambda>now.
     bindE (liftE (window_open (ec_crypto X) payload now)) (\<lambda>in_window.
     if \<not> in_window then returnE ()
     else bindE (on_node (generate_rotation_keypair (ec_crypto X))) (\<lambda>(private_key, public_key).
       bindE (signed_request X ''POST'' (edge_path ''/rotate'') (Some [(''new_public_key'', JStr public_key)]) None) (\<lambda>q.
       bindE (exchange X (rotate_edge_identity (ec_central X) q public_key)) (\<lambda>data.
       bindE (on_node (load (ec_crypto X))) (\<lambda>found.
       case found of
         None \<Rightarrow> returnE ()
       | Some i \<Rightarrow> thenE (on_node (apply_rotation_response (ec_crypto X) i data private_key public_key)) (returnE ())))))))"

definition heartbeat_body :: "edge_config \<Rightarrow> dict" where
  "heartbeat_body X = [(''node_id'', JStr (ec_node_id X)), (''status_meta'', JObj [(''role'', JStr ''edge'')])]"

definition heartbeat :: "edge_config \<Rightarrow> unit edge_run" where
  "heartbeat X =
     bindE (signed_request X ''POST'' (edge_path ''/heartbeat'') (Some (heartbeat_body X)) None) (\<lambda>q.
     bindE (exchange X (edge_heartbeat (ec_central X) q (ec_node_id X) (Some [(''role'', JStr ''edge'')]))) (\<lambda>wrapped.
     bindE (on_node (take_command (ec_crypto X) (JObj wrapped) (Some ''node.heartbeat''))) (\<lambda>payload.
     case payload of
       Some (JObj d) \<Rightarrow> if d = [] then returnE () else maybe_complete_rotation X d
     | _ \<Rightarrow> returnE ())))"

section \<open>Jobs and their events\<close>

definition claim_job :: "edge_config \<Rightarrow> dict option edge_run" where
  "claim_job X =
     bindE (signed_request X ''GET'' (edge_path ''/jobs'') None None) (\<lambda>q.
     bindE (exchange X (claim_edge_job (ec_central X) q)) (\<lambda>answer.
     case answer of
       None \<Rightarrow> returnE None
     | Some data \<Rightarrow>
         bindE (on_node (take_command (ec_crypto X) (JObj data) (Some ''job.claim''))) (\<lambda>job.
         returnE (case job of Some (JObj d) \<Rightarrow> if truthy (dget d ''id'') then Some d else None | _ \<Rightarrow> None))))"

text \<open>One round of the loop that asks whether the job is cancelled, and of the loop that renews its lease.\<close>

definition cancel_round :: "edge_config \<Rightarrow> string \<Rightarrow> bool edge_run" where
  "cancel_round X jid =
     catchE
      (bindE (signed_request X ''GET'' (job_path jid ''/cancel'') None None) (\<lambda>q.
       bindE (exchange X (check_edge_job_cancel (ec_central X) q jid)) (\<lambda>wrapped.
       bindE (on_node (take_command (ec_crypto X) (JObj wrapped) (Some ''job.cancel.check''))) (\<lambda>payload.
       returnE (case payload of
         Some (JObj d) \<Rightarrow> truthy (dget d ''cancelled'') \<or> truthy (dget d ''cancel_requested'')
       | _ \<Rightarrow> False)))))
      (\<lambda>e. returnE False)"

definition renew_round :: "edge_config \<Rightarrow> string \<Rightarrow> int \<Rightarrow> bool edge_run" where
  "renew_round X jid gen =
     (let body = [(''delivery_generation'', JInt gen)] in
      catchE
        (bindE (signed_request X ''POST'' (job_path jid ''/lease/renew'') (Some body) (Some (show_int gen))) (\<lambda>q.
         thenE (exchange X (renew_edge_job_lease (ec_central X) q jid (Some gen))) (returnE False)))
        (\<lambda>e. returnE (e = HttpStatusError 403)))"

definition post_events :: "edge_config \<Rightarrow> string \<Rightarrow> dict list \<Rightarrow> int \<Rightarrow> unit edge_run" where
  "post_events X jid es gen =
     (let body = [(''events'', JList (List.map JObj es)), (''delivery_generation'', JInt gen)] in
      bindE (signed_request X ''POST'' (job_path jid ''/events'') (Some body) (Some (show_int gen))) (\<lambda>q.
      exchange X (post_edge_job_events (ec_central X) q jid es (Some gen))))"

definition spool_envelope :: "string \<Rightarrow> dict list \<Rightarrow> int \<Rightarrow> json \<Rightarrow> json \<Rightarrow> json \<Rightarrow> dict" where
  "spool_envelope jid es gen attempt step trace =
     [(''job_id'', JStr jid), (''events'', JList (List.map JObj es)), (''delivery_generation'', JInt gen),
      (''attempt_id'', attempt), (''step_id'', step), (''request_trace_id'', trace), (''idempotency_key'', JNull)]"

definition spool_events :: "edge_config \<Rightarrow> string \<Rightarrow> dict \<Rightarrow> unit edge_run" where
  "spool_events X jid envelope =
     bindE (on_node (draw (ec_uuid_hex X))) (\<lambda>u.
     modifyE (\<lambda>w. w\<lparr>spool := AList.update (''spool_'' @ jid @ ''_'' @ u @ ''.json'') envelope (spool w)\<rparr>))"

definition send_or_spool_event :: "edge_config \<Rightarrow> string \<Rightarrow> dict \<Rightarrow> int \<Rightarrow> json \<Rightarrow> json \<Rightarrow> json \<Rightarrow> unit edge_run" where
  "send_or_spool_event X jid event gen attempt step trace =
     catchE (post_events X jid [event] gen)
       (\<lambda>e. spool_events X jid (spool_envelope jid [event] gen attempt step trace))"

text \<open>A spooled file: delivered and refused ones go, others stay.\<close>

definition flush_file :: "edge_config \<Rightarrow> string \<times> dict \<Rightarrow> unit edge_run" where
  "flush_file X f =
     (let d = snd f; jid = dget d ''job_id''; es = dget d ''events'';
          forget = modifyE (\<lambda>w. w\<lparr>spool := AList.delete (fst f) (spool w)\<rparr>) in
      catchE
        (bindE (liftE (py_int (or_else (dget d ''delivery_generation'') (JInt 1)))) (\<lambda>gen.
         if truthy jid \<and> truthy es
         then catchE (thenE (post_events X (py_str jid) (List.map dict_of (list_of es)) gen) forget)
                (\<lambda>e. if e = HttpStatusError 403 then forget else raiseE e)
         else returnE ()))
        (\<lambda>e. returnE ()))"

definition flush_spool :: "edge_config \<Rightarrow> unit edge_run" where
  "flush_spool X = bindE (getsE spool) (\<lambda>fs. forE fs (flush_file X))"

end
