(* ===== verification/Edge_Laws.thy ===== *)
theory Edge_Laws
  imports Edge_Worker
begin

text \<open>
  Laws of the edge node's channel: what the identity file remembers of the commands taken, that nothing
  the worker does lets it forget, and what a command that is taken has been checked for.
\<close>

section \<open>What the identity file remembers\<close>

definition file_dict :: "edge_store \<Rightarrow> dict" where
  "file_dict s = (case identity_file s of Some (Inr (JObj d)) \<Rightarrow> d | _ \<Rightarrow> [])"

definition remembered_seq :: "edge_store \<Rightarrow> int" where
  "remembered_seq s = (case int_at (file_dict s) ''last_command_seq'' of Inr n \<Rightarrow> n | Inl _ \<Rightarrow> 0)"

definition remembered :: "string \<Rightarrow> edge_store \<Rightarrow> string set" where
  "remembered key s = (case dict_copy (dget (file_dict s) key) of Inr d \<Rightarrow> set (List.map fst d) | Inl _ \<Rightarrow> {})"

text \<open>Nothing is forgotten.\<close>

definition remembers_more :: "edge_store \<Rightarrow> edge_store \<Rightarrow> bool" where
  "remembers_more s t \<longleftrightarrow>
     remembered_seq s \<le> remembered_seq t \<and>
     remembered ''consumed_commands'' s \<subseteq> remembered ''consumed_commands'' t \<and>
     remembered ''consumed_nonces'' s \<subseteq> remembered ''consumed_nonces'' t"

text \<open>An identity that knows at least what the file does, so that saving it forgets nothing.\<close>

definition knows :: "identity \<Rightarrow> edge_store \<Rightarrow> bool" where
  "knows i s \<longleftrightarrow>
     remembered_seq s \<le> ei_last_command_seq i \<and>
     remembered ''consumed_commands'' s \<subseteq> set (List.map fst (ei_consumed_commands i)) \<and>
     remembered ''consumed_nonces'' s \<subseteq> set (List.map fst (ei_consumed_nonces i))"

definition knows_exactly :: "identity \<Rightarrow> edge_store \<Rightarrow> bool" where
  "knows_exactly i s \<longleftrightarrow>
     remembered_seq s = ei_last_command_seq i \<and>
     remembered ''consumed_commands'' s = set (List.map fst (ei_consumed_commands i)) \<and>
     remembered ''consumed_nonces'' s = set (List.map fst (ei_consumed_nonces i))"

lemma knows_exactly_knows: "knows_exactly i s \<Longrightarrow> knows i s"
  by (simp add: knows_exactly_def knows_def)

lemma remembers_more_refl [simp]: "remembers_more s s"
  by (simp add: remembers_more_def)

lemma remembers_more_trans: "remembers_more s t \<Longrightarrow> remembers_more t u \<Longrightarrow> remembers_more s u"
  by (auto simp: remembers_more_def)

lemma remembered_seq_file: "identity_file t = identity_file s \<Longrightarrow> remembered_seq t = remembered_seq s"
  by (simp only: remembered_seq_def file_dict_def)

lemma remembered_keys_file: "identity_file t = identity_file s \<Longrightarrow> remembered k t = remembered k s"
  by (simp only: remembered_def file_dict_def)

lemma same_file_remembers:
  assumes "identity_file t = identity_file s"
  shows "remembers_more s t"
  by (simp only: remembers_more_def remembered_seq_file [OF assms] remembered_keys_file [OF assms] order_refl simp_thms)

lemma same_file_knows:
  assumes "identity_file t = identity_file s" and "knows_exactly i s"
  shows "knows_exactly i t"
  using assms(2) by (simp only: knows_exactly_def remembered_seq_file [OF assms(1)] remembered_keys_file [OF assms(1)])

text \<open>Saving.\<close>

lemma fernet_file: "load_or_create_fernet K s = (r, t) \<Longrightarrow> identity_file t = identity_file s"
  by (auto simp: load_or_create_fernet_def prog_simps draw_def split: option.splits if_splits)

definition saved_dict :: "identity \<Rightarrow> string \<Rightarrow> dict" where
  "saved_dict i blob = public_to_json i @ [(''secrets_blob'', JStr blob)]"

lemma save_cases:
  assumes "save K i s = (r, t)"
  shows "(\<exists>blob. r = Inr () \<and> identity_file t = Some (Inr (JObj (saved_dict i blob)))) \<or>
         (\<exists>e. r = Inl e) \<and> identity_file t = identity_file s"
proof -
  obtain r1 u where run: "load_or_create_fernet K s = (r1, u)" by (cases "load_or_create_fernet K s")
  then have "identity_file u = identity_file s" by (rule fernet_file)
  with run assms show ?thesis
    by (cases r1) (auto simp: save_def bindE_def draw_def modifyE_def saved_dict_def)
qed

lemma saved_seq: "int_at (saved_dict i blob) ''last_command_seq'' = Inr (ei_last_command_seq i)"
  by (simp add: saved_dict_def public_to_json_def int_at_def or_else_def)

lemma saved_commands: "dict_copy (dget (saved_dict i blob) ''consumed_commands'') = Inr (ei_consumed_commands i)"
  by (simp add: saved_dict_def public_to_json_def dict_copy_def or_else_def)

lemma saved_nonces: "dict_copy (dget (saved_dict i blob) ''consumed_nonces'') = Inr (ei_consumed_nonces i)"
  by (simp add: saved_dict_def public_to_json_def dict_copy_def or_else_def)

lemma saved_knows: "identity_file t = Some (Inr (JObj (saved_dict i blob))) \<Longrightarrow> knows_exactly i t"
  by (simp add: knows_exactly_def remembered_seq_def remembered_def file_dict_def saved_seq saved_commands saved_nonces)

lemma save_Inr_knows: "save K i s = (Inr x, t) \<Longrightarrow> knows_exactly i t"
  by (drule save_cases) (auto intro: saved_knows)

lemma knows_exactly_remembers: "knows i s \<Longrightarrow> knows_exactly i t \<Longrightarrow> remembers_more s t"
  by (simp only: knows_def knows_exactly_def remembers_more_def simp_thms)

lemma save_remembers:
  assumes "knows i s" and run: "save K i s = (r, t)"
  shows "remembers_more s t"
  using save_cases [OF run]
proof (elim disjE exE conjE)
  fix blob assume "identity_file t = Some (Inr (JObj (saved_dict i blob)))"
  then show ?thesis by (rule knows_exactly_remembers [OF assms(1) saved_knows])
next
  assume "identity_file t = identity_file s"
  then show ?thesis by (rule same_file_remembers)
qed

text \<open>Loading.\<close>

lemma from_json_state: "snd (from_json d secrets s) = s"
  by (simp add: from_json_def Let_def bindE_def liftE_def returnE_def split: prod.splits sum.splits)

lemma from_json_fields:
  assumes "from_json d secrets s = (Inr i, t)"
  shows "int_at d ''last_command_seq'' = Inr (ei_last_command_seq i)"
    and "dict_copy (dget d ''consumed_commands'') = Inr (ei_consumed_commands i)"
    and "dict_copy (dget d ''consumed_nonces'') = Inr (ei_consumed_nonces i)"
  using assms by (auto simp: from_json_def Let_def elim!: bindE_Inr split: prod.splits)

lemma read_secrets_state: "snd (read_secrets K blob s) = s"
  by (simp add: read_secrets_def prog_simps split: option.splits)

lemma load_from_knows:
  assumes run: "load_from K d s = (Inr i, t)" and d: "file_dict s = d"
  shows "knows_exactly i s \<and> remembers_more s t \<and> knows_exactly i t"
proof -
  from run obtain secrets u1 j u2 where r1: "read_secrets K (dget d ''secrets_blob'') s = (Inr secrets, u1)"
    and r2: "from_json d secrets u1 = (Inr j, u2)"
    and r3: "(if ei_private_key j = [] then raiseE (RuntimeError ''edge identity private key missing'')
        else thenE (whenE (dget d ''secrets_blob'' = JNull \<and> (truthy (dget d ''private_key'') \<or> truthy (dget d ''bootstrap'')))
            (save K j)) (returnE j)) u2 = (Inr i, t)"
    unfolding load_from_def by (elim bindE_Inr)
  have s: "u2 = s"
    using read_secrets_state [of K "dget d ''secrets_blob''" s] from_json_state [of d secrets u1] r1 r2 by simp
  have k: "knows_exactly j s"
    using from_json_fields [OF r2] by (simp add: knows_exactly_def remembered_seq_def remembered_def d)
  from r3 have i: "i = j" and stored: "t = s \<or> save K j s = (Inr (), t)"
    by (auto simp: s thenE_def bindE_def whenE_def split: if_splits prod.splits sum.splits)
  from stored show ?thesis
  proof
    assume "t = s"
    with k i show ?thesis by simp
  next
    assume saving: "save K j s = (Inr (), t)"
    then show ?thesis
      using k i save_remembers [OF knows_exactly_knows [OF k] saving] save_Inr_knows [OF saving] by simp
  qed
qed

lemma load_from_remembers:
  assumes run: "load_from K d s = (r, t)" and d: "file_dict s = d"
  shows "remembers_more s t"
proof (cases r)
  case (Inr i)
  with load_from_knows [OF _ d] run show ?thesis by blast
next
  case (Inl e)
  obtain r1 u1 where r1: "read_secrets K (dget d ''secrets_blob'') s = (r1, u1)" by fastforce
  have u1: "u1 = s" using read_secrets_state [of K "dget d ''secrets_blob''" s] r1 by simp
  show ?thesis
  proof (cases r1)
    case (Inl e')
    then show ?thesis using run r1 u1 by (simp add: load_from_def bindE_def)
  next
    case (Inr secrets)
    obtain r2 u2 where r2: "from_json d secrets s = (r2, u2)" by fastforce
    have u2: "u2 = s" using from_json_state [of d secrets s] r2 by simp
    show ?thesis
    proof (cases r2)
      case (Inl e')
      then show ?thesis using run r1 u1 r2 u2 Inr by (simp add: load_from_def bindE_def)
    next
      case (Inr j)
      have k: "knows j s"
        using from_json_fields [OF r2 [unfolded Inr]]
        by (simp add: knows_def remembered_seq_def remembered_def d)
      have body: "(if ei_private_key j = [] then raiseE (RuntimeError ''edge identity private key missing'')
        else thenE (whenE (dget d ''secrets_blob'' = JNull \<and> (truthy (dget d ''private_key'') \<or> truthy (dget d ''bootstrap'')))
            (save K j)) (returnE j)) s = (r, t)"
        using run r1 u1 r2 u2 Inr \<open>r1 = Inr secrets\<close> by (simp add: load_from_def bindE_def)
      obtain r3 u3 where sv: "save K j s = (r3, u3)" by fastforce
      from body sv have "t = s \<or> t = u3"
        by (auto simp: thenE_def bindE_def whenE_def raiseE_def returnE_def split: if_splits prod.splits sum.splits)
      then show ?thesis using save_remembers [OF k sv] by auto
    qed
  qed
qed

lemma load_cases:
  assumes run: "load K s = (r, t)"
  shows "remembers_more s t \<and> (case r of Inr (Some i) \<Rightarrow> knows_exactly i s \<and> knows_exactly i t | _ \<Rightarrow> True) \<and>
     (r = Inr None \<longrightarrow> identity_file s = None \<and> t = s)"
proof (cases "identity_file s")
  case None
  then show ?thesis using run by (auto simp: load_def bindE_def getsE_def returnE_def)
next
  case (Some content)
  show ?thesis
  proof (cases "\<exists>d. content = Inr (JObj d)")
    case False
    then have "t = s \<and> (\<exists>e. r = Inl e)"
      using run Some
      by (auto simp: load_def bindE_def thenE_def getsE_def liftE_def get_attr_def split: sum.splits json.splits)
    then show ?thesis by auto
  next
    case True
    then obtain d where content: "content = Inr (JObj d)" by blast
    have d: "file_dict s = d" by (simp add: file_dict_def Some content)
    obtain r1 u where r1: "load_from K d s = (r1, u)" by fastforce
    have rt: "t = u \<and> r = (case r1 of Inl e \<Rightarrow> Inl e | Inr i \<Rightarrow> Inr (Some i))"
      using run r1 Some content
      by (auto simp: load_def bindE_def thenE_def getsE_def liftE_def returnE_def get_attr_def split: sum.splits)
    show ?thesis
    proof (cases r1)
      case (Inl e)
      with rt load_from_remembers [OF r1 d] show ?thesis by simp
    next
      case (Inr i)
      with rt load_from_knows [OF _ d, of K i u] r1 show ?thesis by simp
    qed
  qed
qed

section \<open>Taking commands\<close>

text \<open>The envelope of a wrapped command.\<close>

definition envelope_of :: "json \<Rightarrow> dict" where
  "envelope_of wrapped = dict_of (jget wrapped ''envelope'')"

lemma both_True: "both a b = Inr True \<longleftrightarrow> a = Inr True \<and> b = Inr True"
  by (simp add: both_def split: sum.split)

lemma keys_of_update: "fst ` set (AList.update k v d) = insert k (fst ` set d)"
  by (induction d) auto

lemma unwrap_state:
  assumes run: "unwrap_or_none K i wrapped expected s = (r, t)" and k: "knows_exactly i s"
  shows "remembers_more s t"
    and "\<And>p j. r = Inr (Some p, j) \<Longrightarrow>
      \<exists>seq. jget wrapped ''envelope'' = JObj (envelope_of wrapped) \<and> p = jget wrapped ''payload'' \<and> is_dict p \<and>
        command_ok K (edge_now s) i (envelope_of wrapped) p expected = Inr True \<and>
        int_at (envelope_of wrapped) ''command_seq'' = Inr seq \<and> j = consume (envelope_of wrapped) seq i \<and>
        knows_exactly j t"
proof -
  have "remembers_more s t \<and> (\<forall>p j. r = Inr (Some p, j) \<longrightarrow>
      (\<exists>seq. jget wrapped ''envelope'' = JObj (envelope_of wrapped) \<and> p = jget wrapped ''payload'' \<and> is_dict p \<and>
        command_ok K (edge_now s) i (envelope_of wrapped) p expected = Inr True \<and>
        int_at (envelope_of wrapped) ''command_seq'' = Inr seq \<and> j = consume (envelope_of wrapped) seq i \<and>
        knows_exactly j t))"
  proof (cases "\<exists>d env payload. wrapped = JObj d \<and> has_key d ''envelope'' \<and> has_key d ''payload'' \<and>
      dget d ''envelope'' = JObj env \<and> dget d ''payload'' = JObj payload")
    case False
    then have "t = s \<and> r = Inr (None, i)"
      using run
      by (auto simp: unwrap_or_none_def verify_command_envelope_def returnE_def split: json.splits if_splits prod.splits)
    then show ?thesis by simp
  next
    case True
    then obtain d env payload where w: "wrapped = JObj d" "has_key d ''envelope''" "has_key d ''payload''"
      "dget d ''envelope'' = JObj env" "dget d ''payload'' = JObj payload" by blast
    have env: "envelope_of (JObj d) = env" by (simp add: envelope_of_def w)
    obtain ok where ok: "command_ok K (edge_now s) i env (JObj payload) expected = ok" by blast
    consider e where "ok = Inl e" | "ok = Inr False" | "ok = Inr True" by (cases ok) auto
    then show ?thesis
    proof cases
      case 1
      then have "t = s \<and> r = Inl e"
        using run ok by (simp add: unwrap_or_none_def verify_command_envelope_def w bindE_def getsE_def liftE_def)
      then show ?thesis by simp
    next
      case 2
      then have "t = s \<and> r = Inr (None, i)"
        using run ok
        by (simp add: unwrap_or_none_def verify_command_envelope_def w bindE_def getsE_def liftE_def returnE_def)
      then show ?thesis by simp
    next
      case 3
      then have "unseen i env = Inr True" using ok by (simp add: command_ok_def both_True)
      then obtain seq where seq: "int_at env ''command_seq'' = Inr seq" and
        fresh: "ei_last_command_seq i < seq" "\<not> has_key (ei_consumed_commands i) (command_id_of env)"
        "\<not> has_key (ei_consumed_nonces i) (command_nonce_of env)"
        by (auto simp: unseen_def split: if_splits sum.splits)
      obtain r1 u where sv: "save K (consume env seq i) s = (r1, u)" by fastforce
      have rt: "t = u \<and> r = (case r1 of Inl e \<Rightarrow> Inl e | Inr x \<Rightarrow> Inr (Some (JObj payload), consume env seq i))"
        using run ok 3 seq sv
        by (auto simp: unwrap_or_none_def verify_command_envelope_def w thenE_def bindE_def getsE_def liftE_def
            returnE_def Let_def split: sum.splits)
      have "knows (consume env seq i) s"
        using k fresh by (simp add: knows_def knows_exactly_def consume_def keys_of_update subset_insertI)
      from save_remembers [OF this sv] have "remembers_more s u" .
      moreover have "knows_exactly (consume env seq i) u" if "r1 = Inr x" for x
        using save_Inr_knows sv that by blast
      ultimately show ?thesis
        using rt ok 3 seq by (auto simp: w env split: sum.splits)
    qed
  qed
  then show "remembers_more s t"
    and "\<And>p j. r = Inr (Some p, j) \<Longrightarrow>
      \<exists>seq. jget wrapped ''envelope'' = JObj (envelope_of wrapped) \<and> p = jget wrapped ''payload'' \<and> is_dict p \<and>
        command_ok K (edge_now s) i (envelope_of wrapped) p expected = Inr True \<and>
        int_at (envelope_of wrapped) ''command_seq'' = Inr seq \<and> j = consume (envelope_of wrapped) seq i \<and>
        knows_exactly j t"
    by blast+
qed

text \<open>A command that is taken: fresh before, remembered after.\<close>

definition command_seq_of :: "json \<Rightarrow> int" where
  "command_seq_of wrapped = (case int_at (envelope_of wrapped) ''command_seq'' of Inr n \<Rightarrow> n | Inl _ \<Rightarrow> 0)"

definition fresh_command :: "edge_store \<Rightarrow> json \<Rightarrow> bool" where
  "fresh_command s w \<longleftrightarrow>
     remembered_seq s < command_seq_of w \<and>
     command_id_of (envelope_of w) \<notin> remembered ''consumed_commands'' s \<and>
     command_nonce_of (envelope_of w) \<notin> remembered ''consumed_nonces'' s"

definition known_command :: "edge_store \<Rightarrow> json \<Rightarrow> bool" where
  "known_command s w \<longleftrightarrow>
     command_seq_of w \<le> remembered_seq s \<and>
     command_id_of (envelope_of w) \<in> remembered ''consumed_commands'' s \<and>
     command_nonce_of (envelope_of w) \<in> remembered ''consumed_nonces'' s"

lemma known_mono: "known_command s w \<Longrightarrow> remembers_more s t \<Longrightarrow> known_command t w"
  by (auto simp: known_command_def remembers_more_def)

lemma known_not_fresh: "known_command s w \<Longrightarrow> \<not> fresh_command s w"
  by (simp add: known_command_def fresh_command_def)

lemma has_key_image: "has_key d k \<longleftrightarrow> k \<in> fst ` set d"
  by (simp add: has_key_def map_of_eq_None_iff)

lemma take_state:
  assumes run: "take_command K w expected s = (r, t)"
  shows "remembers_more s t" and "\<And>p. r = Inr (Some p) \<Longrightarrow> fresh_command s w \<and> known_command t w"
proof -
  obtain r1 u where ld: "load K s = (r1, u)" by fastforce
  note l = load_cases [OF ld]
  have "remembers_more s t \<and> (\<forall>p. r = Inr (Some p) \<longrightarrow> fresh_command s w \<and> known_command t w)"
  proof (cases "\<exists>i. r1 = Inr (Some i)")
    case False
    then have "t = u \<and> (\<forall>p. r \<noteq> Inr (Some p))"
      using run ld by (cases r1) (auto simp: take_command_def bindE_def returnE_def split: option.splits)
    with l show ?thesis by simp
  next
    case True
    then obtain i where r1: "r1 = Inr (Some i)" by blast
    obtain r2 v where un: "unwrap_or_none K i w expected u = (r2, v)" by fastforce
    have rt: "t = v \<and> r = (case r2 of Inl e \<Rightarrow> Inl e | Inr (p, j) \<Rightarrow> Inr p)"
      using run ld r1 un by (auto simp: take_command_def bindE_def returnE_def split: sum.splits prod.splits)
    from l r1 have su: "remembers_more s u" and ks: "knows_exactly i s" and ku: "knows_exactly i u" by simp_all
    have sv: "remembers_more s v"
      using remembers_more_trans [OF su unwrap_state(1) [OF un ku]] .
    show ?thesis
    proof (intro conjI allI impI)
      show "remembers_more s t" using sv rt by simp
    next
      fix p assume "r = Inr (Some p)"
      with rt obtain j where r2: "r2 = Inr (Some p, j)" by (auto split: sum.splits prod.splits)
      from unwrap_state(2) [OF un ku r2] obtain seq where
        ok: "command_ok K (edge_now u) i (envelope_of w) p expected = Inr True" and
        seq: "int_at (envelope_of w) ''command_seq'' = Inr seq" and
        j: "j = consume (envelope_of w) seq i" and kv: "knows_exactly j v" by blast
      from ok have "unseen i (envelope_of w) = Inr True" by (simp add: command_ok_def both_True)
      then have fr: "ei_last_command_seq i < seq" "\<not> has_key (ei_consumed_commands i) (command_id_of (envelope_of w))"
        "\<not> has_key (ei_consumed_nonces i) (command_nonce_of (envelope_of w))"
        using seq by (auto simp: unseen_def split: if_splits)
      have num: "command_seq_of w = seq" by (simp add: command_seq_of_def seq)
      show "fresh_command s w"
        using ks fr by (simp add: fresh_command_def knows_exactly_def num has_key_image)
      show "known_command t w"
        using kv rt by (simp add: known_command_def knows_exactly_def num j consume_def keys_of_update)
    qed
  qed
  then show "remembers_more s t" and "\<And>p. r = Inr (Some p) \<Longrightarrow> fresh_command s w \<and> known_command t w" by blast+
qed

section \<open>Histories of a node\<close>

text \<open>
  What the worker does with its channel, each step from the file it finds: taking a command, signing a
  request, making the first identity, and applying the answers that bind or rotate it. An exception
  ends a step, not the history.
\<close>

datatype channel_op =
    Take json "string option"
  | Sign string string "dict option" string
  | First_identity string string
  | New_keys
  | Bound dict
  | Rotated dict string string
  | Later int

definition with_identity :: "crypto \<Rightarrow> (identity \<Rightarrow> identity edge) \<Rightarrow> json option edge" where
  "with_identity K f =
     bindE (load K) (\<lambda>found. case found of None \<Rightarrow> returnE None | Some i \<Rightarrow> thenE (f i) (returnE None))"

fun channel_step :: "crypto \<Rightarrow> channel_op \<Rightarrow> json option edge" where
  "channel_step K (Take w expected) = take_command K w expected"
| "channel_step K (Sign http_method path json_body query) =
     thenE (request_headers K http_method path json_body query) (returnE None)"
| "channel_step K (First_identity nid token) = thenE (first_identity K nid token) (returnE None)"
| "channel_step K New_keys = thenE (generate_rotation_keypair K) (returnE None)"
| "channel_step K (Bound d) = with_identity K (\<lambda>i. apply_bind_response K i d)"
| "channel_step K (Rotated d new_private new_public) =
     with_identity K (\<lambda>i. apply_rotation_response K i d new_private new_public)"
| "channel_step K (Later n) = thenE (modifyE (\<lambda>s. s\<lparr>edge_now := edge_now s + n\<rparr>)) (returnE None)"

fun taken_by :: "channel_op \<Rightarrow> exn + json option \<Rightarrow> json list" where
  "taken_by (Take w expected) (Inr (Some p)) = [w]"
| "taken_by x r = []"

text \<open>The commands taken in a history, in order.\<close>

fun commands_taken :: "crypto \<Rightarrow> channel_op list \<Rightarrow> edge_store \<Rightarrow> json list" where
  "commands_taken K [] s = []"
| "commands_taken K (x # xs) s =
     (case channel_step K x s of (r, t) \<Rightarrow> taken_by x r @ commands_taken K xs t)"

lemma draw_file: "draw f s = (r, t) \<Longrightarrow> identity_file t = identity_file s"
  by (auto simp: draw_def)

lemma keypair_file: "generate_rotation_keypair K s = (r, t) \<Longrightarrow> identity_file t = identity_file s"
  by (auto simp: generate_rotation_keypair_def bindE_def draw_def returnE_def)

text \<open>Programs that forget nothing when they start with an identity that knows the file.\<close>

definition keeps :: "identity \<Rightarrow> 'a edge \<Rightarrow> bool" where
  "keeps i m \<longleftrightarrow> (\<forall>s. knows i s \<longrightarrow> remembers_more s (snd (m s)))"

lemma keepsD: "keeps i m \<Longrightarrow> knows i s \<Longrightarrow> m s = (r, t) \<Longrightarrow> remembers_more s t"
  unfolding keeps_def by (metis snd_conv)

lemma same_memory_knows:
  "ei_last_command_seq j = ei_last_command_seq i \<Longrightarrow> ei_consumed_commands j = ei_consumed_commands i \<Longrightarrow>
   ei_consumed_nonces j = ei_consumed_nonces i \<Longrightarrow> knows i s \<Longrightarrow> knows j s"
  by (simp add: knows_def)

lemma keeps_save:
  assumes "ei_last_command_seq j = ei_last_command_seq i" "ei_consumed_commands j = ei_consumed_commands i"
    "ei_consumed_nonces j = ei_consumed_nonces i"
  shows "keeps i (save K j)"
  unfolding keeps_def
proof (intro allI impI)
  fix s assume k: "knows i s"
  obtain r t where run: "save K j s = (r, t)" by fastforce
  have "knows j s" by (rule same_memory_knows [OF assms k])
  from save_remembers [OF this run] show "remembers_more s (snd (save K j s))" by (simp add: run)
qed

lemma keeps_then_pure:
  assumes "keeps i m" shows "keeps i (thenE m (returnE x))"
  using assms by (auto simp: keeps_def thenE_def bindE_def returnE_def split: prod.splits sum.splits)

lemma keeps_lift_bind: "(\<And>a. keeps i (f a)) \<Longrightarrow> keeps i (bindE (liftE q) f)"
  by (auto simp: keeps_def bindE_def liftE_def split: sum.splits)

lemma keeps_gets_bind: "(\<And>a. keeps i (f a)) \<Longrightarrow> keeps i (bindE (getsE q) f)"
  by (auto simp: keeps_def bindE_def getsE_def)

lemma keeps_draw_bind:
  assumes "\<And>a. keeps i (f a)" shows "keeps i (bindE (draw g) f)"
  unfolding keeps_def
proof (intro allI impI)
  fix s assume k: "knows i s"
  let ?u = "s\<lparr>drawn := Suc (drawn s)\<rparr>"
  have same: "identity_file ?u = identity_file s" by simp
  have "knows i ?u"
    using k by (simp only: knows_def remembered_seq_file [OF same] remembered_keys_file [OF same])
  with assms have "remembers_more ?u (snd (f (g (drawn s)) ?u))" by (simp add: keeps_def)
  moreover have "remembers_more s ?u" by (rule same_file_remembers [OF same])
  ultimately show "remembers_more s (snd (bindE (draw g) f s))"
    by (simp add: bindE_def draw_def) (rule remembers_more_trans)
qed

lemma keeps_raise: "keeps i (raiseE e)"
  by (simp add: keeps_def raiseE_def)

lemma keeps_return: "keeps i (returnE x)"
  by (simp add: keeps_def returnE_def)

lemma keeps_apply: "keeps i (apply_bind_response K i d)"
  unfolding apply_bind_response_def Let_def
  by (intro keeps_lift_bind keeps_then_pure keeps_save) simp_all

lemma keeps_rotate: "keeps i (apply_rotation_response K i d a b)"
  unfolding apply_rotation_response_def apply_bind_response_def Let_def
  by (intro keeps_lift_bind keeps_then_pure keeps_save) simp_all

lemma keeps_sign: "keeps i (sign_request_headers K i http_method path payload query)"
proof -
  have body: "keeps i (case load_key (ei_private_key i) of
      None \<Rightarrow> raiseE (ValueError ''An Ed25519 private key is 32 bytes long'')
    | Some key \<Rightarrow> thenE (save K (i\<lparr>ei_request_seq := ei_request_seq i + 1\<rparr>)) (returnE (h key)))" for h
    by (cases "load_key (ei_private_key i)") (simp_all add: keeps_raise keeps_then_pure keeps_save)
  show ?thesis
    unfolding sign_request_headers_def Let_def
    by (cases "ei_version i \<le> 0 \<or> ei_issuer_key_id i = []")
       (simp_all add: keeps_raise keeps_draw_bind keeps_gets_bind body)
qed

text \<open>After loading, what keeps the memory of the loaded identity keeps that of the file.\<close>

lemma load_then_keeps:
  assumes f: "\<And>i. keeps i (f (Some i))" and none: "\<And>s. identity_file s = None \<Longrightarrow> remembers_more s (snd (f None s))"
    and run: "bindE (load K) f s = (r, t)"
  shows "remembers_more s t"
proof -
  obtain r1 u where ld: "load K s = (r1, u)" by fastforce
  note l = load_cases [OF ld]
  show ?thesis
  proof (cases r1)
    case (Inl e)
    then show ?thesis using run ld l by (simp add: bindE_def)
  next
    case (Inr found)
    then have rt: "f found u = (r, t)" using run ld by (simp add: bindE_def)
    show ?thesis
    proof (cases found)
      case None
      with l Inr have "u = s" "identity_file s = None" by simp_all
      then show ?thesis using none [of s] rt None by simp
    next
      case (Some i)
      with l Inr have "remembers_more s u" "knows i u" using knows_exactly_knows by auto
      moreover have "remembers_more u t" using keepsD [OF f \<open>knows i u\<close>] rt Some by simp
      ultimately show ?thesis using remembers_more_trans by blast
    qed
  qed
qed

lemma empty_memory:
  assumes "identity_file s = None"
  shows "remembered_seq s = 0" and "remembered k s = {}"
  by (simp_all add: remembered_seq_def remembered_def file_dict_def assms int_at_def or_else_def dict_copy_def)

lemma ensure_bootstrap_empty:
  assumes none: "identity_file s = None"
  shows "remembers_more s (snd (ensure_bootstrap_identity K nid org boot s))"
proof -
  have ld: "load K s = (Inr None, s)" by (simp add: load_def bindE_def getsE_def returnE_def none)
  obtain r1 u where kp: "generate_rotation_keypair K s = (r1, u)" by fastforce
  have u: "identity_file u = None" using keypair_file [OF kp] none by simp
  obtain keys where r1: "r1 = Inr keys"
    using kp by (auto simp: generate_rotation_keypair_def bindE_def draw_def returnE_def)
  obtain r2 v where sv: "save K (new_identity nid org boot keys) u = (r2, v)" by fastforce
  have "knows (new_identity nid org boot keys) u"
    using empty_memory [OF u] by (simp add: knows_def new_identity_def)
  from save_remembers [OF this sv] have "remembers_more u v" .
  moreover have "snd (ensure_bootstrap_identity K nid org boot s) = v"
    using ld kp r1 sv
    by (simp add: ensure_bootstrap_identity_def bindE_def thenE_def returnE_def Let_def split: sum.split)
  moreover have "remembers_more s u" using u none by (intro same_file_remembers) simp
  ultimately show ?thesis using remembers_more_trans by simp
qed

lemma step_remembers:
  assumes run: "channel_step K x s = (r, t)"
  shows "remembers_more s t"
proof (cases x)
  case (Take w expected)
  then show ?thesis using run take_state(1) by simp
next
  case (Sign http_method path json_body query)
  obtain r1 where rq: "request_headers K http_method path json_body query s = (r1, t)"
    using run Sign by (auto simp: thenE_def bindE_def returnE_def split: prod.splits sum.splits)
  show ?thesis
  proof (rule load_then_keeps [OF _ _ rq [unfolded request_headers_def]])
    fix i
    have "keeps i (bindE (sign_request_headers K i http_method path payload query) (\<lambda>(headers, j). returnE headers))"
      for payload
      using keeps_sign [of i K http_method path payload query]
      by (auto simp: keeps_def bindE_def returnE_def split: prod.splits sum.splits)
    then show "keeps i (case Some i of None \<Rightarrow> raiseE (RuntimeError ''edge identity not bound'')
        | Some i \<Rightarrow> if ei_version i \<le> 0 \<or> ei_issuer_key_id i = [] then raiseE (RuntimeError ''edge identity not bound'')
          else bindE (sign_request_headers K i http_method path
                (JStr (case json_body of None \<Rightarrow> [] | Some d \<Rightarrow> canonical (JObj d))) query)
                (\<lambda>(headers, j). returnE headers))"
      by (simp add: keeps_raise)
  qed (simp add: raiseE_def)
next
  case (First_identity nid token)
  obtain r1 where fi: "first_identity K nid token s = (r1, t)"
    using run First_identity by (auto simp: thenE_def bindE_def returnE_def split: prod.splits sum.splits)
  show ?thesis
  proof (rule load_then_keeps [OF _ _ fi [unfolded first_identity_def]])
    fix u :: edge_store assume "identity_file u = None"
    then have "remembers_more u (snd (ensure_bootstrap_identity K nid [] token u))" by (rule ensure_bootstrap_empty)
    then show "remembers_more u (snd ((if None = None \<and> token \<noteq> [] \<and> nid \<noteq> []
        then bindE (ensure_bootstrap_identity K nid [] token) (\<lambda>i. returnE (Some i)) else returnE None) u))"
      by (auto simp: bindE_def returnE_def split: prod.splits sum.splits)
  qed (simp add: keeps_return)
next
  case New_keys
  then show ?thesis
    using run keypair_file
    by (intro same_file_remembers) (auto simp: thenE_def bindE_def returnE_def split: prod.splits sum.splits)
next
  case (Bound d)
  show ?thesis
    by (rule load_then_keeps [OF _ _ run [unfolded Bound channel_step.simps with_identity_def]])
       (simp_all add: keeps_apply keeps_then_pure)
next
  case (Rotated d a b)
  show ?thesis
    by (rule load_then_keeps [OF _ _ run [unfolded Rotated channel_step.simps with_identity_def]])
       (simp_all add: keeps_rotate keeps_then_pure)
next
  case (Later n)
  then show ?thesis
    using run by (intro same_file_remembers) (auto simp: thenE_def bindE_def modifyE_def returnE_def)
qed

lemma taken_fresh:
  assumes run: "channel_step K x s = (r, t)" and "w \<in> set (taken_by x r)"
  shows "taken_by x r = [w]" and "fresh_command s w" and "known_command t w"
proof -
  obtain expected p where x: "x = Take w expected" and r: "r = Inr (Some p)" and one: "taken_by x r = [w]"
    using assms(2) by (cases "(x, r)" rule: taken_by.cases) auto
  show "taken_by x r = [w]" by (rule one)
  have "take_command K w expected s = (r, t)" using run x by simp
  from take_state(2) [OF this r] show "fresh_command s w" and "known_command t w" by simp_all
qed

lemma taken_later_fresh:
  "w \<in> set (commands_taken K xs s) \<Longrightarrow> known_command s v \<Longrightarrow>
     command_seq_of v < command_seq_of w \<and>
     command_id_of (envelope_of v) \<noteq> command_id_of (envelope_of w) \<and>
     command_nonce_of (envelope_of v) \<noteq> command_nonce_of (envelope_of w)"
proof (induction xs arbitrary: s)
  case Nil
  then show ?case by simp
next
  case (Cons x xs)
  obtain r t where run: "channel_step K x s = (r, t)" by fastforce
  from Cons.prems(1) run have "w \<in> set (taken_by x r) \<or> w \<in> set (commands_taken K xs t)" by auto
  then show ?case
  proof
    assume "w \<in> set (taken_by x r)"
    from taken_fresh(2) [OF run this] Cons.prems(2) show ?thesis
      by (auto simp: fresh_command_def known_command_def)
  next
    assume "w \<in> set (commands_taken K xs t)"
    then show ?thesis by (rule Cons.IH [OF _ known_mono [OF Cons.prems(2) step_remembers [OF run]]])
  qed
qed

lemma taken_increasing:
  "sorted_wrt (\<lambda>v w. command_seq_of v < command_seq_of w \<and>
     command_id_of (envelope_of v) \<noteq> command_id_of (envelope_of w) \<and>
     command_nonce_of (envelope_of v) \<noteq> command_nonce_of (envelope_of w)) (commands_taken K xs s)"
proof (induction xs arbitrary: s)
  case Nil
  then show ?case by simp
next
  case (Cons x xs)
  obtain r t where run: "channel_step K x s = (r, t)" by fastforce
  show ?case
  proof (cases "taken_by x r")
    case Nil
    then show ?thesis using Cons.IH run by simp
  next
    case (Cons v vs)
    then have one: "taken_by x r = [v]" and known: "known_command t v"
      using taken_fresh(1,3) [OF run, of v] by simp_all
    show ?thesis
      using Cons.IH [of t] taken_later_fresh [OF _ known] by (simp add: run one)
  qed
qed

section \<open>Reading a saved identity\<close>

definition bootstrap_or_none :: "identity \<Rightarrow> identity" where
  "bootstrap_or_none i = i\<lparr>ei_bootstrap := (if truthy (ei_bootstrap i) then ei_bootstrap i else JNull)\<rparr>"

lemma saved_fields:
  "dget (saved_dict i blob) ''secrets_blob'' = JStr blob"
  "item_of (saved_dict i blob) ''node_id'' = Inr (JStr (ei_node_id i))"
  "item_of (saved_dict i blob) ''org_id'' = Inr (JStr (ei_org_id i))"
  "item_of (saved_dict i blob) ''public_key'' = Inr (JStr (ei_public_key i))"
  "item_of (saved_dict i blob) ''issuer_key_id'' = Inr (JStr (ei_issuer_key_id i))"
  "item_of (saved_dict i blob) ''issuer_public_key'' = Inr (JStr (ei_issuer_public_key i))"
  "int_at (saved_dict i blob) ''identity_version'' = Inr (ei_version i)"
  "int_at (saved_dict i blob) ''request_seq'' = Inr (ei_request_seq i)"
  "dget (saved_dict i blob) ''private_key'' = JNull"
  "dget (saved_dict i blob) ''bootstrap'' = JNull"
  "dget (saved_dict i blob) ''previous_issuer_key_id'' = ei_previous_issuer_key_id i"
  "dget (saved_dict i blob) ''previous_issuer_public_key'' = ei_previous_issuer_public_key i"
  "dget (saved_dict i blob) ''issuer_rotation_expires_at'' = ei_issuer_rotation_expires_at i"
  by (simp_all add: saved_dict_def public_to_json_def item_of_def int_at_def or_else_def)

lemma secrets_fields:
  "get_attr (JObj (secrets_to_json i)) ''private_key'' = Inr (JStr (ei_private_key i))"
  "dget (secrets_to_json i) ''bootstrap'' = (if truthy (ei_bootstrap i) then ei_bootstrap i else JNull)"
  by (simp_all add: secrets_to_json_def get_attr_def)

lemma secrets_truthy: "or_else (JObj (secrets_to_json i)) j = JObj (secrets_to_json i)"
  by (simp add: or_else_def secrets_to_json_def)

lemma from_json_saved:
  assumes "ei_private_key i \<noteq> []"
  shows "from_json (saved_dict i blob) (JObj (secrets_to_json i)) s = (Inr (bootstrap_or_none i), s)"
proof -
  have "secrets_to_json i \<noteq> []" by (simp add: secrets_to_json_def)
  then show ?thesis
    using assms
    by (simp add: from_json_def secrets_truthy secrets_fields saved_fields saved_seq saved_commands saved_nonces
        Let_def or_else_def bootstrap_or_none_def)
qed

lemma load_saved:
  assumes stored: "identity_file s = Some (Inr (JObj (saved_dict i blob)))" and blob: "blob \<noteq> []"
    and key: "wrap_key_file s = Some raw" "is_wrap_key K (strip raw)"
    and secret: "unseal K (strip raw) blob = Some (JObj (secrets_to_json i))" and priv: "ei_private_key i \<noteq> []"
  shows "load K s = (Inr (Some (bootstrap_or_none i)), s)"
proof -
  have rs: "read_secrets K (JStr blob) s = (Inr (JObj (secrets_to_json i)), s)"
    by (simp add: read_secrets_def bindE_def getsE_def returnE_def key secret blob)
  have "load_from K (saved_dict i blob) s = (Inr (bootstrap_or_none i), s)"
    using priv
    by (simp add: load_from_def saved_fields bindE_def rs from_json_saved [OF priv] thenE_def whenE_def returnE_def
        bootstrap_or_none_def)
  then show ?thesis
    by (simp add: load_def bindE_def thenE_def getsE_def liftE_def get_attr_def returnE_def stored)
qed

end
