(* ===== verification/Central_Laws.thy ===== *)
theory Central_Laws
  imports Edge_Api
begin

text \<open>
  Laws of the centre: identity versions and request numbers only grow, whatever is called, so that a
  request whose proof was committed is never accepted again.
\<close>

section \<open>Rows\<close>

definition node_ok :: "edge_node \<Rightarrow> bool" where
  "node_ok n \<longleftrightarrow> (en_bootstrap_consumed_at n = None \<longrightarrow>
     en_version n = 0 \<and> \<not> str_set (en_public_key n) \<and> en_rotation_expires_at n = None)"

definition nodes_ok :: "central_db \<Rightarrow> bool" where
  "nodes_ok d \<longleftrightarrow> distinct (List.map en_id (edge_nodes d)) \<and> list_all node_ok (edge_nodes d)"

definition mark_le :: "edge_node \<Rightarrow> edge_node \<Rightarrow> bool" where
  "mark_le n n' \<longleftrightarrow> en_id n' = en_id n \<and>
     (en_version n < en_version n' \<or> en_version n = en_version n' \<and> en_last_seq n \<le> en_last_seq n')"

lemma same_id_same:
  "nodes_ok d \<Longrightarrow> m \<in> set (edge_nodes d) \<Longrightarrow> n \<in> set (edge_nodes d) \<Longrightarrow> en_id m = en_id n \<Longrightarrow> m = n"
  by (simp add: nodes_ok_def distinct_map inj_on_def)

text \<open>Every row is still there, at the same or a later version and request number.\<close>

definition db_grows :: "central_db \<Rightarrow> central_db \<Rightarrow> bool" where
  "db_grows d d' \<longleftrightarrow>
     (nodes_ok d \<longrightarrow> nodes_ok d' \<and> (\<forall>n \<in> set (edge_nodes d). \<exists>n' \<in> set (edge_nodes d'). mark_le n n'))"

lemma mark_le_refl [simp]: "mark_le n n"
  by (simp add: mark_le_def)

lemma mark_le_trans: "mark_le a b \<Longrightarrow> mark_le b c \<Longrightarrow> mark_le a c"
  by (auto simp: mark_le_def)

lemma db_grows_refl [simp]: "db_grows d d"
  unfolding db_grows_def using mark_le_refl by blast

lemma db_grows_trans: "db_grows a b \<Longrightarrow> db_grows b c \<Longrightarrow> db_grows a c"
  unfolding db_grows_def by (meson mark_le_trans)

lemma db_grows_same: "edge_nodes d' = edge_nodes d \<Longrightarrow> db_grows d d'"
  unfolding db_grows_def nodes_ok_def using mark_le_refl by metis

text \<open>Updating rows.\<close>

lemma db_grows_update:
  assumes f: "\<And>n. nodes_ok d \<Longrightarrow> n \<in> set (edge_nodes d) \<Longrightarrow> p n \<Longrightarrow> node_ok n \<Longrightarrow> node_ok (f n) \<and> mark_le n (f n)"
  shows "db_grows d (d\<lparr>edge_nodes := upd_where p f (edge_nodes d)\<rparr>)"
  unfolding db_grows_def
proof (intro impI conjI ballI)
  assume ok: "nodes_ok d"
  let ?g = "\<lambda>n. if p n then f n else n"
  have g: "node_ok (?g n) \<and> mark_le n (?g n)" if "n \<in> set (edge_nodes d)" for n
    using f [OF ok that] ok that by (auto simp: nodes_ok_def list_all_iff)
  have ids: "List.map en_id (List.map ?g (edge_nodes d)) = List.map en_id (edge_nodes d)"
    using g by (auto simp: mark_le_def)
  have "\<forall>x \<in> set (List.map ?g (edge_nodes d)). node_ok x"
  proof
    fix x assume "x \<in> set (List.map ?g (edge_nodes d))"
    then obtain n where "n \<in> set (edge_nodes d)" "x = ?g n" by (auto simp only: set_map)
    then show "node_ok x" using g by blast
  qed
  then show "nodes_ok (d\<lparr>edge_nodes := upd_where p f (edge_nodes d)\<rparr>)"
    using ok ids by (simp add: nodes_ok_def upd_where_def list_all_iff del: list.set_map map_map)
  fix n assume n: "n \<in> set (edge_nodes d)"
  have "?g n \<in> set (upd_where p f (edge_nodes d))"
    unfolding upd_where_def set_map by (rule imageI [OF n])
  with g [OF n] show "\<exists>n' \<in> set (edge_nodes (d\<lparr>edge_nodes := upd_where p f (edge_nodes d)\<rparr>)). mark_le n n'"
    by (intro bexI [of _ "?g n"]) simp_all
qed

section \<open>Programs\<close>

text \<open>Without a commit, and with one.\<close>

definition works :: "central \<Rightarrow> central \<Rightarrow> bool" where
  "works c c' \<longleftrightarrow> saved c' = saved c \<and> db_grows (cdb c) (cdb c')"

definition advances :: "central \<Rightarrow> central \<Rightarrow> bool" where
  "advances c c' \<longleftrightarrow>
     (db_grows (saved c) (cdb c) \<longrightarrow> db_grows (saved c') (cdb c') \<and> db_grows (saved c) (saved c'))"

interpretation wk: guarantee works
  by unfold_locales (auto simp: works_def intro: db_grows_trans)

interpretation adv: guarantee advances
  by unfold_locales (auto simp: advances_def intro: db_grows_trans)

lemma works_advances: "works c c' \<Longrightarrow> advances c c'"
  by (auto simp: works_def advances_def intro: db_grows_trans)

lemma guar_advances: "guar works m \<Longrightarrow> guar advances m"
  by (simp add: guar_def works_advances)

lemma commit_advances: "guar advances edge_commit"
  by (simp add: guar_def edge_commit_def modifyE_def advances_def)

lemma session_grows: "guar advances m \<Longrightarrow> db_grows (saved c) (saved (snd (edge_session m c)))"
  using guarD [of advances m "c\<lparr>cdb := saved c\<rparr>"]
  by (auto simp: edge_session_def advances_def split: prod.splits)

text \<open>Primitives that touch no node.\<close>

lemma works_quiet: "(\<And>c. saved (f c) = saved c \<and> edge_nodes (cdb (f c)) = edge_nodes (cdb c)) \<Longrightarrow> guar works (modifyE f)"
  by (simp add: guar_def modifyE_def works_def db_grows_same)

lemma works_assert: "guar works (assertE b e)"
  by (simp add: assertE_def wk.guar_return wk.guar_raise)

lemma works_the_or: "guar works (the_or e x)"
  by (cases x) (simp_all add: the_or_def wk.guar_return wk.guar_raise)

lemma works_draw: "guar works (central_draw f)"
  by (simp add: guar_def central_draw_def works_def)

lemma works_find_node: "guar works (find_node p)"
  by (simp add: find_node_def wk.guar_gets)

lemma works_find_job: "guar works (find_job p)"
  by (simp add: find_job_def wk.guar_gets)

lemma works_with_cdb: "(\<And>d. db_grows d (f d)) \<Longrightarrow> guar works (with_cdb f)"
  by (simp add: guar_def with_cdb_def modifyE_def works_def)

lemma works_change_job: "guar works (change_job jid f)"
  unfolding change_job_def by (rule works_with_cdb) (simp add: db_grows_same)

lemma works_change_on_demand: "guar works (change_on_demand rid f)"
  unfolding change_on_demand_def by (rule works_with_cdb) (simp add: db_grows_same)

lemma works_audit: "guar works (central_audit a b x y z d)"
  unfolding central_audit_def by (rule works_with_cdb) (simp add: db_grows_same)

lemma works_new_primary_key: "guar works (new_primary_key nid)"
  unfolding new_primary_key_def by (intro wk.guar_bind wk.guar_gets works_assert)

lemma works_get_node: "guar works (get_node org nid)"
  unfolding get_node_def by (intro wk.guar_bind works_find_node works_the_or)

lemma works_job_of_node: "guar works (job_of_node n jid)"
  unfolding job_of_node_def by (intro wk.guar_bind works_find_job works_the_or)

lemma works_check_delivery: "guar works (check_delivery j gen)"
  unfolding check_delivery_def by (intro wk.guar_bind works_assert works_the_or)

lemma works_change_node:
  "(\<And>n. node_ok n \<Longrightarrow> node_ok (f n) \<and> mark_le n (f n)) \<Longrightarrow> guar works (change_node nid f)"
  unfolding change_node_def by (rule works_with_cdb) (rule db_grows_update, blast)

lemma works_issuer_bundle: "guar works (issuer_bundle_of S)"
  unfolding issuer_bundle_of_def
  by (intro wk.guar_then wk.guar_bind wk.guar_if wk.guar_lift wk.guar_return works_assert)

lemma works_sign: "guar works (sign_command_envelope S org nid purpose payload seq)"
  unfolding sign_command_envelope_def Let_def
  by (intro wk.guar_then wk.guar_bind wk.guar_gets wk.guar_return works_assert works_the_or works_draw works_issuer_bundle)

lemma works_nonce: "guar works (consume_nonce nid version nonce)"
  unfolding consume_nonce_def
  by (intro wk.guar_bind wk.guar_then wk.guar_gets works_assert works_with_cdb db_grows_same) simp

lemma works_seq: "guar works (advance_seq nid version seq)"
  unfolding advance_seq_def
  by (intro wk.guar_bind wk.guar_then wk.guar_gets works_assert works_with_cdb db_grows_update)
     (auto simp: mark_le_def node_ok_def)

lemma works_proof: "guar works (verify_request_proof S n http_method path digest h)"
  unfolding verify_request_proof_def Let_def
  by (intro wk.guar_bind wk.guar_then wk.guar_gets wk.guar_lift works_assert works_nonce works_seq)

lemma works_get_for_proof: "guar works (get_node_for_proof nid)"
  unfolding get_node_for_proof_def
  by (intro wk.guar_bind wk.guar_then wk.guar_return works_assert works_the_or works_find_node)

lemma works_digest: "guar works (digest_matches a b)"
  unfolding digest_matches_def
  by (intro wk.guar_if wk.guar_return wk.guar_raise works_assert)

lemma works_authenticate: "guar works (authenticate_edge S q nid)"
  unfolding authenticate_edge_def Let_def
  by (intro wk.guar_bind wk.guar_then wk.guar_return works_assert works_proof works_get_for_proof works_digest)

section \<open>Operations\<close>

text \<open>Reading first, then changing under what was read.\<close>

lemma works_at_bind:
  assumes "m c = (r, c)" and "\<And>a. r = Inr a \<Longrightarrow> works c (snd (f a c))"
  shows "works c (snd (bindE m f c))"
  using assms by (cases r) (simp_all add: bindE_def wk.R_refl)

lemma works_at_then:
  assumes "works c (snd (m c))" and "guar works n"
  shows "works c (snd (thenE m n c))"
proof -
  obtain r u where m: "m c = (r, u)" by fastforce
  show ?thesis
  proof (cases r)
    case (Inl e)
    then show ?thesis using assms(1) m by (simp add: thenE_def bindE_def)
  next
    case (Inr a)
    then show ?thesis using assms(1) m guarD [OF assms(2), of u] wk.R_trans by (auto simp: thenE_def bindE_def)
  qed
qed

lemma works_at_assert:
  assumes "b \<Longrightarrow> works c (snd (m c))"
  shows "works c (snd (thenE (assertE b e) m c))"
  using assms by (simp add: assertE_def thenE_def bindE_def returnE_def raiseE_def wk.R_refl)

lemma works_at_the_or:
  assumes "\<And>a. x = Some a \<Longrightarrow> works c (snd (f a c))"
  shows "works c (snd (bindE (the_or e x) f c))"
  using assms by (cases x) (simp_all add: the_or_def bindE_def returnE_def raiseE_def wk.R_refl)

lemma works_at_gets: "works c (snd (f (g c) c)) \<Longrightarrow> works c (snd (bindE (getsE g) f c))"
  by (simp add: bindE_def getsE_def)

lemma works_at_get_node:
  assumes "\<And>n. n \<in> set (edge_nodes (cdb c)) \<Longrightarrow> en_id n = nid \<Longrightarrow> works c (snd (f n c))"
  shows "works c (snd (bindE (get_node org nid) f c))"
proof (rule works_at_bind)
  let ?found = "find (\<lambda>n. \<not> en_deleted n \<and> en_org n = org \<and> en_id n = nid) (edge_nodes (cdb c))"
  show "get_node org nid c =
    ((case ?found of None \<Rightarrow> Inl (NotFound ''connector.edge_node_not_found'') | Some n \<Rightarrow> Inr n), c)"
    by (simp add: get_node_def find_node_def bindE_def getsE_def the_or_def returnE_def raiseE_def split: option.split)
  fix n
  assume "(case ?found of None \<Rightarrow> Inl (NotFound ''connector.edge_node_not_found'') | Some n \<Rightarrow> Inr n) = Inr n"
  then have "?found = Some n" by (simp split: option.splits)
  then show "works c (snd (f n c))"
    by (intro assms) (auto simp: find_Some_iff)
qed

lemma works_at_change:
  assumes n0: "n0 \<in> set (edge_nodes (cdb c))" "en_id n0 = nid"
    and f: "node_ok n0 \<Longrightarrow> node_ok (f n0) \<and> mark_le n0 (f n0)"
  shows "works c (snd (change_node nid f c))"
proof -
  have "db_grows (cdb c) ((cdb c)\<lparr>edge_nodes := upd_where (\<lambda>n. en_id n = nid) f (edge_nodes (cdb c))\<rparr>)"
  proof (rule db_grows_update)
    fix n assume "nodes_ok (cdb c)" "n \<in> set (edge_nodes (cdb c))" "en_id n = nid" and ok: "node_ok n"
    then have "n = n0" using n0 same_id_same by simp
    then show "node_ok (f n) \<and> mark_le n (f n)" using f ok by simp
  qed
  then show ?thesis by (simp add: change_node_def with_cdb_def modifyE_def works_def)
qed

lemma works_register: "guar works (register_node S org name operator)"
proof -
  have add: "db_grows d (d\<lparr>edge_nodes := edge_nodes d @ [n]\<rparr>)"
    if "\<not> list_ex (\<lambda>m. en_id m = en_id n) (edge_nodes d)" "node_ok n" for d n
    unfolding db_grows_def
  proof (intro impI conjI ballI)
    assume ok: "nodes_ok d"
    show "nodes_ok (d\<lparr>edge_nodes := edge_nodes d @ [n]\<rparr>)"
      using that ok by (auto simp: nodes_ok_def list_ex_iff)
    fix m assume "m \<in> set (edge_nodes d)"
    then show "\<exists>n' \<in> set (edge_nodes (d\<lparr>edge_nodes := edge_nodes d @ [n]\<rparr>)). mark_le m n'"
      by (intro bexI [of _ m]) simp_all
  qed
  have step: "works c (snd (thenE (new_primary_key (en_id n))
      (thenE (with_cdb (\<lambda>d. d\<lparr>edge_nodes := edge_nodes d @ [n]\<rparr>)) k) c))"
    if "guar works k" "node_ok n" for c n and k :: "(string \<times> string \<times> int) centre"
  proof -
    have "works c (snd (thenE (with_cdb (\<lambda>d. d\<lparr>edge_nodes := edge_nodes d @ [n]\<rparr>)) k c))"
      if "\<not> list_ex (\<lambda>m. en_id m = en_id n) (edge_nodes (cdb c))"
      using add [OF that \<open>node_ok n\<close>]
      by (intro works_at_then \<open>guar works k\<close>) (simp add: with_cdb_def modifyE_def works_def)
    then show ?thesis
      by (simp add: new_primary_key_def thenE_def bindE_def getsE_def assertE_def returnE_def raiseE_def wk.R_refl)
  qed
  have "guar works (thenE (new_primary_key (en_id n))
      (thenE (with_cdb (\<lambda>d. d\<lparr>edge_nodes := edge_nodes d @ [n]\<rparr>)) k))"
    if "guar works k" "node_ok n" for n and k :: "(string \<times> string \<times> int) centre"
    unfolding guar_def using step [OF that] by blast
  from this [where n = "\<lparr>en_id = i, en_org = org, en_name = name, en_status = ''pending'', en_token_hash = h,
      en_bootstrap_expires_at = x, en_bootstrap_consumed_at = None, en_version = 0, en_public_key = None,
      en_previous_public_key = None, en_rotation_expires_at = None, en_revoked_at = None, en_last_seq = 0,
      en_heartbeat_at = None, en_meta = [], en_deleted = False\<rparr>" for i h x]
  have new: "guar works (thenE (new_primary_key i) (thenE (with_cdb (\<lambda>d. d\<lparr>edge_nodes := edge_nodes d @
      [\<lparr>en_id = i, en_org = org, en_name = name, en_status = ''pending'', en_token_hash = h,
      en_bootstrap_expires_at = x, en_bootstrap_consumed_at = None, en_version = 0, en_public_key = None,
      en_previous_public_key = None, en_rotation_expires_at = None, en_revoked_at = None, en_last_seq = 0,
      en_heartbeat_at = None, en_meta = [], en_deleted = False\<rparr>]\<rparr>)) k))"
    if "guar works k" for i h x and k :: "(string \<times> string \<times> int) centre"
    using that by (simp add: node_ok_def str_set_def str_or_def)
  show ?thesis
    unfolding register_node_def Let_def
    by (intro wk.guar_bind works_assert works_find_node works_draw wk.guar_gets new
        wk.guar_then [OF works_assert] wk.guar_then [OF works_audit] wk.guar_return)
qed

lemma works_bind: "guar works (bind_identity S org nid boot public_key)"
  unfolding guar_def
proof
  fix c
  show "works c (snd (bind_identity S org nid boot public_key c))"
    unfolding bind_identity_def
  proof (rule works_at_get_node)
    fix n assume n: "n \<in> set (edge_nodes (cdb c))" "en_id n = nid"
    show "works c (snd (bindE (getsE central_now) (\<lambda>now.
     thenE (assertE (en_bootstrap_consumed_at n = None) (Forbidden ''connector.edge_bootstrap_reused''))
     (thenE (assertE (case en_bootstrap_expires_at n of None \<Rightarrow> True | Some t \<Rightarrow> now \<le> t)
               (Forbidden ''connector.edge_bootstrap_expired''))
     (thenE (assertE (en_token_hash n = digest_hex (ce_crypto S) boot) (Forbidden ''connector.edge_bootstrap_invalid''))
     (thenE (assertE (en_revoked_at n = None) (Forbidden ''connector.edge_identity_revoked''))
     (thenE (assertE (en_status n \<noteq> ''disabled'') (Forbidden ''connector.edge_node_disabled''))
     (thenE (change_node nid (\<lambda>n. n\<lparr>en_public_key := Some public_key, en_version := 1,
               en_bootstrap_consumed_at := Some now, en_last_seq := 0, en_status := ''pending''\<rparr>))
     (bindE (issuer_bundle_of S) (\<lambda>bundle.
      thenE (central_audit ''edge_node.bind'' nid org ''edge_node'' nid [(''identity_version'', JInt 1)])
      (returnE (identity_answer nid (en_org n) 1 bundle))))))))))  c))"
      by (intro works_at_gets works_at_assert works_at_then works_at_change [OF n] wk.guar_bind wk.guar_then
          works_issuer_bundle works_audit wk.guar_return) (auto simp: node_ok_def mark_le_def)
  qed
qed

lemma works_disable: "guar works (disable_node org nid operator)"
  unfolding disable_node_def
  by (intro wk.guar_bind works_get_node wk.guar_then works_audit works_change_node) (auto simp: node_ok_def mark_le_def)

lemma works_enable: "guar works (enable_node org nid operator)"
  unfolding enable_node_def
  by (intro wk.guar_bind works_get_node wk.guar_then works_assert works_audit works_change_node)
     (auto simp: node_ok_def mark_le_def)

lemma works_revoke: "guar works (revoke_node org nid operator)"
  unfolding revoke_node_def
  by (intro wk.guar_bind works_get_node wk.guar_then wk.guar_gets works_audit works_change_node)
     (auto simp: node_ok_def mark_le_def)

lemma works_start_rotation: "guar works (start_rotation S org nid operator)"
  unfolding guar_def
proof
  fix c
  show "works c (snd (start_rotation S org nid operator c))"
    unfolding start_rotation_def Let_def
  proof (rule works_at_get_node)
    fix n assume n: "n \<in> set (edge_nodes (cdb c))" "en_id n = nid"
    show "works c (snd (thenE (assertE (str_set (en_public_key n) \<and> en_revoked_at n = None)
        (BadRequest ''connector.edge_identity_not_bound''))
     (bindE (getsE central_now) (\<lambda>now.
      thenE (change_node nid (\<lambda>n. n\<lparr>en_rotation_expires_at := Some (now + 1000000 * ce_rotation_window S)\<rparr>))
      (central_audit ''edge_node.rotate_start'' nid org ''user'' operator
         [(''rotation_expires_at'', JStr (iso_text (ce_crypto S) (now + 1000000 * ce_rotation_window S)))]))) c))"
      by (intro works_at_gets works_at_assert works_at_then works_at_change [OF n] works_audit)
         (auto simp: node_ok_def mark_le_def)
  qed
qed

lemma works_complete_rotation: "guar works (complete_rotation S org nid new_public_key)"
  unfolding guar_def
proof
  fix c
  show "works c (snd (complete_rotation S org nid new_public_key c))"
    unfolding complete_rotation_def
  proof (rule works_at_get_node)
    fix n assume n: "n \<in> set (edge_nodes (cdb c))" "en_id n = nid"
    show "works c (snd (bindE (the_or (Forbidden ''connector.edge_rotation_not_active'') (en_rotation_expires_at n)) (\<lambda>expires.
     bindE (getsE central_now) (\<lambda>now.
     thenE (assertE (now \<le> expires) (Forbidden ''connector.edge_rotation_expired''))
     (thenE (change_node nid (\<lambda>n. n\<lparr>en_previous_public_key := en_public_key n, en_public_key := Some new_public_key,
               en_version := en_version n + 1, en_last_seq := 0, en_rotation_expires_at := None\<rparr>))
     (bindE (issuer_bundle_of S) (\<lambda>bundle.
      thenE (central_audit ''edge_node.rotate_complete'' nid org ''edge_node'' nid
               [(''identity_version'', JInt (en_version n + 1))])
      (returnE (identity_answer nid (en_org n) (en_version n + 1) bundle))))))) c))"
      by (intro works_at_the_or works_at_gets works_at_assert works_at_then works_at_change [OF n] wk.guar_bind
          wk.guar_then works_issuer_bundle works_audit wk.guar_return) (auto simp: node_ok_def mark_le_def)
  qed
qed

lemma works_add_job: "guar works (with_cdb (\<lambda>d. d\<lparr>edge_jobs := f d\<rparr>))"
  by (rule works_with_cdb) (simp add: db_grows_same)

lemma works_add_demand: "guar works (with_cdb (\<lambda>d. d\<lparr>on_demands := f d\<rparr>))"
  by (rule works_with_cdb) (simp add: db_grows_same)

lemma works_enqueue: "guar works (enqueue_edge_job S org nid run_id tool args snap key attempt step gen trace)"
  unfolding enqueue_edge_job_def
  by (intro wk.guar_bind wk.guar_then wk.guar_option works_find_job works_get_node works_draw wk.guar_gets
      wk.guar_return works_add_job)

lemma works_issue: "guar works (issue_on_demand_request S org nid jid run_id name art attempt step gen delivery ttl)"
  unfolding issue_on_demand_request_def
  by (intro wk.guar_bind wk.guar_then wk.guar_option wk.guar_if wk.guar_when works_draw wk.guar_gets wk.guar_raise
      wk.guar_return works_add_demand works_change_on_demand)

lemma works_pull: "guar works (pull_on_demand_requests org nid)"
  unfolding pull_on_demand_requests_def Let_def
  by (intro wk.guar_bind wk.guar_then wk.guar_gets wk.guar_return works_add_demand)

lemma works_relay: "guar works (relay_events S org run_id es)"
  unfolding relay_events_def Let_def
  by (intro wk.guar_if wk.guar_bind wk.guar_then wk.guar_gets wk.guar_return works_assert works_quiet) simp

lemmas works_ops = works_bind works_disable works_enable works_revoke works_start_rotation works_complete_rotation
  works_enqueue works_issue works_pull works_relay works_authenticate works_job_of_node works_check_delivery
  works_change_job works_sign works_find_node works_find_job works_assert works_the_or wk.guar_gets wk.guar_return
  works_register

section \<open>Calls\<close>

text \<open>
  What the centre is called for: the endpoints, and the administration of nodes (\<open>edge_nodes_router.py\<close>,
  which commits what \<open>EdgeNodeService\<close> did). \<open>Passing\<close>: time goes by.
\<close>

datatype central_call =
    Register string string "string option"
  | Disable string string string
  | Enable string string string
  | Revoke string string string
  | Start_rotation string string string
  | Enroll string string "string option"
  | Rotate edge_request string
  | Heartbeat edge_request string "dict option"
  | Claim edge_request
  | Renew edge_request string "int option"
  | Check_cancel edge_request string
  | Request_cancel edge_request string
  | Agent_cancel string "string option" "string option"
  | Enqueue "string option" "string option" string string string dict dict "string option" "string option"
      "string option" int "string option"
  | Post_events edge_request string "dict list" "int option"
  | Pull_demands edge_request
  | Create_demand edge_request string string "string option" "string option" "string option" int int int
  | Passing int

definition committed :: "'a centre \<Rightarrow> bool centre" where
  "committed m = edge_session (bindE m (\<lambda>a. thenE edge_commit (returnE True)))"

definition answered :: "'a centre \<Rightarrow> bool centre" where
  "answered m = bindE m (\<lambda>a. returnE True)"

text \<open>The result says whether what the call did was committed; a claim without a job is not.\<close>

fun centre_step :: "central_env \<Rightarrow> central_call \<Rightarrow> bool centre" where
  "centre_step S (Register org name op) = committed (register_node S org name op)"
| "centre_step S (Disable org nid op) = committed (disable_node org nid op)"
| "centre_step S (Enable org nid op) = committed (enable_node org nid op)"
| "centre_step S (Revoke org nid op) = committed (revoke_node org nid op)"
| "centre_step S (Start_rotation org nid op) = committed (start_rotation S org nid op)"
| "centre_step S (Enroll nid key boot) = answered (enroll_edge_node S nid key boot)"
| "centre_step S (Rotate q key) = answered (rotate_edge_identity S q key)"
| "centre_step S (Heartbeat q nid meta) = answered (edge_heartbeat S q nid meta)"
| "centre_step S (Claim q) = bindE (claim_edge_job S q) (\<lambda>answer. returnE (answer \<noteq> None))"
| "centre_step S (Renew q jid gen) = answered (renew_edge_job_lease S q jid gen)"
| "centre_step S (Check_cancel q jid) = bindE (check_edge_job_cancel S q jid) (\<lambda>d. returnE False)"
| "centre_step S (Request_cancel q jid) = answered (request_edge_job_cancel S q jid)"
| "centre_step S (Agent_cancel jid token org) = answered (request_agent_edge_job_cancel S jid token org)"
| "centre_step S (Enqueue token org nid run_id tool args snap key attempt step gen trace) =
     answered (enqueue_edge_job_endpoint S token org nid run_id tool args snap key attempt step gen trace)"
| "centre_step S (Post_events q jid es gen) = answered (post_edge_job_events S q jid es gen)"
| "centre_step S (Pull_demands q) = answered (pull_edge_artifact_on_demand_requests S q)"
| "centre_step S (Create_demand q jid name art attempt step gen delivery ttl) =
     answered (create_edge_job_artifact_on_demand_request S q jid name art attempt step gen delivery ttl)"
| "centre_step S (Passing n) = thenE (modifyE (\<lambda>c. c\<lparr>central_now := central_now c + n\<rparr>)) (returnE False)"

fun central_run :: "central_env \<Rightarrow> central_call list \<Rightarrow> central \<Rightarrow> central" where
  "central_run S [] c = c"
| "central_run S (x # xs) c = central_run S xs (snd (centre_step S x c))"

lemmas adv_works = works_ops [THEN guar_advances]

lemmas adv_intros = adv.guar_bind adv.guar_then adv.guar_return adv.guar_when commit_advances adv_works

definition saves_more :: "central \<Rightarrow> central \<Rightarrow> bool" where
  "saves_more c c' \<longleftrightarrow> db_grows (saved c) (saved c')"

interpretation sm: guarantee saves_more
  by unfold_locales (auto simp: saves_more_def intro: db_grows_trans)

lemma session_saves: "guar advances m \<Longrightarrow> guar saves_more (edge_session m)"
  by (simp add: guar_def saves_more_def session_grows)

lemma mapE_advances: "(\<And>x. guar advances (f x)) \<Longrightarrow> guar advances (mapE xs f)"
  by (rule adv.guar_mapE)

lemma claim_saves: "guar saves_more (claim_edge_job S q)"
  unfolding claim_edge_job_def
  by (rule session_saves) (intro adv_intros adv.guar_list)

lemma step_saves: "guar saves_more (centre_step S x)"
proof (cases x)
  case (Passing n)
  then show ?thesis by (simp add: guar_def thenE_def bindE_def modifyE_def returnE_def saves_more_def)
qed (simp_all only: centre_step.simps committed_def answered_def enroll_edge_node_def rotate_edge_identity_def
      edge_heartbeat_def renew_edge_job_lease_def check_edge_job_cancel_def request_edge_job_cancel_def
      request_agent_edge_job_cancel_def authenticate_internal_skill_agent_def enqueue_edge_job_endpoint_def
      post_edge_job_events_def pull_edge_artifact_on_demand_requests_def
      create_edge_job_artifact_on_demand_request_def,
    (intro sm.guar_bind sm.guar_return session_saves claim_saves adv_intros mapE_advances
      works_change_node [THEN guar_advances] | simp add: node_ok_def mark_le_def)+)

lemma run_saves: "saves_more c (central_run S xs c)"
proof (induction xs arbitrary: c)
  case Nil
  then show ?case by (simp add: sm.R_refl)
next
  case (Cons x xs)
  have "saves_more c (snd (centre_step S x c))" by (rule guarD [OF step_saves])
  then show ?case using Cons.IH sm.R_trans by simp
qed

section \<open>Requests whose proof is accepted\<close>

lemma assertE_Inr [simp]: "assertE b e s = (Inr x, t) \<longleftrightarrow> b \<and> t = s"
  by (auto simp: assertE_def returnE_def raiseE_def)

lemma the_or_Inr [simp]: "the_or e y s = (Inr x, t) \<longleftrightarrow> y = Some x \<and> t = s"
  by (cases y) (auto simp: the_or_def returnE_def raiseE_def)

text \<open>The nodes after a request with number \<open>seq\<close> was accepted.\<close>

definition advanced :: "string \<Rightarrow> int \<Rightarrow> int \<Rightarrow> edge_node list \<Rightarrow> edge_node list" where
  "advanced nid version seq =
     upd_where (\<lambda>n. en_id n = nid \<and> en_version n = version \<and> en_last_seq n < seq) (\<lambda>n. n\<lparr>en_last_seq := seq\<rparr>)"

lemma advance_Inr:
  assumes "advance_seq nid version seq c = (Inr x, c')"
  shows "c' = c\<lparr>cdb := (cdb c)\<lparr>edge_nodes := advanced nid version seq (edge_nodes (cdb c))\<rparr>\<rparr>"
    and "length (filter (\<lambda>n. en_id n = nid \<and> en_version n = version \<and> en_last_seq n < seq) (edge_nodes (cdb c))) = 1"
    and "- 2147483648 \<le> seq" and "seq \<le> 2147483647"
  using assms unfolding advance_seq_def
  by (auto simp: with_cdb_def modifyE_def advanced_def elim!: thenE_Inr bindE_Inr)

lemma nonce_Inr:
  assumes "consume_nonce nid version nonce c = (Inr x, c')"
  shows "c' = c\<lparr>cdb := (cdb c)\<lparr>edge_nonces := edge_nonces (cdb c) @ [(nid, version, nonce)]\<rparr>\<rparr>"
    and "(nid, version, nonce) \<notin> set (edge_nonces (cdb c))" and "py_len nonce \<le> 128"
  using assms unfolding consume_nonce_def
  by (auto simp: with_cdb_def modifyE_def elim!: thenE_Inr bindE_Inr)

definition accepted_state :: "edge_node \<Rightarrow> int \<Rightarrow> int \<Rightarrow> string \<Rightarrow> central \<Rightarrow> central" where
  "accepted_state n version seq nonce c =
     c\<lparr>cdb := (cdb c)\<lparr>edge_nonces := edge_nonces (cdb c) @ [(en_id n, version, nonce)],
                       edge_nodes := advanced (en_id n) version seq (edge_nodes (cdb c))\<rparr>\<rparr>"

definition proof_holds :: "central_env \<Rightarrow> central \<Rightarrow> edge_node \<Rightarrow> string \<Rightarrow> string \<Rightarrow> string \<Rightarrow> proof_headers \<Rightarrow>
    int \<Rightarrow> int \<Rightarrow> int \<Rightarrow> bool" where
  "proof_holds S c n http_method path digest h timestamp seq version \<longleftrightarrow>
     header_int (h_timestamp h) = Inr timestamp \<and> header_int (h_seq h) = Inr seq \<and>
     header_int (h_version h) = Inr version \<and>
     en_revoked_at n = None \<and> str_set (h_nonce h) \<and> version = en_version n \<and> en_last_seq n < seq \<and>
     \<bar>central_now c - 1000000 * timestamp\<bar> \<le> 1000000 * ce_clock_skew S \<and>
     list_ex (\<lambda>key. verify_node_signature S key
        (build_request_message (en_id n) version http_method path digest timestamp (str_or (h_nonce h) []) seq)
        (str_or (h_signature h) [])) (resolve_node_public_keys (central_now c) n) \<and>
     (en_id n, version, str_or (h_nonce h) []) \<notin> set (edge_nonces (cdb c))"

lemma proof_Inr:
  assumes "verify_request_proof S n http_method path digest h c = (Inr x, c')"
  obtains timestamp seq version where "proof_holds S c n http_method path digest h timestamp seq version"
    and "c' = accepted_state n version seq (str_or (h_nonce h) []) c"
proof -
  from assms obtain timestamp seq version u where
    h: "header_int (h_timestamp h) = Inr timestamp" "header_int (h_seq h) = Inr seq" "header_int (h_version h) = Inr version"
    and p: "en_revoked_at n = None" "str_set (h_nonce h)" "version = en_version n" "en_last_seq n < seq"
      "\<bar>central_now c - 1000000 * timestamp\<bar> \<le> 1000000 * ce_clock_skew S"
      "list_ex (\<lambda>key. verify_node_signature S key
        (build_request_message (en_id n) version http_method path digest timestamp (str_or (h_nonce h) []) seq)
        (str_or (h_signature h) [])) (resolve_node_public_keys (central_now c) n)"
    and n: "consume_nonce (en_id n) version (str_or (h_nonce h) []) c = (Inr (), u)"
    and a: "advance_seq (en_id n) version seq u = (Inr x, c')"
    unfolding verify_request_proof_def Let_def
    by (elim thenE_Inr bindE_Inr) clarsimp
  show thesis
  proof (rule that)
    show "proof_holds S c n http_method path digest h timestamp seq version"
      using h p nonce_Inr(2) [OF n] by (simp add: proof_holds_def)
    show "c' = accepted_state n version seq (str_or (h_nonce h) []) c"
      using advance_Inr(1) [OF a] nonce_Inr(1) [OF n] by (simp add: accepted_state_def)
  qed
qed

lemma digest_Inr: "digest_matches a b c = (Inr x, c') \<Longrightarrow> c' = c \<and> (a = [] \<or> a = b)"
  by (auto simp: digest_matches_def returnE_def raiseE_def split: if_splits)

definition node_named :: "edge_request \<Rightarrow> string option \<Rightarrow> string" where
  "node_named q nid = str_or (if str_set nid then nid else h_node_id (er_proof q)) []"

lemma authenticate_Inr:
  assumes run: "authenticate_edge S q nid c = (Inr n, c')"
  obtains timestamp seq version where
    "find (\<lambda>n. en_id n = node_named q nid) (edge_nodes (cdb c)) = Some n"
    and "proof_holds S c n (er_method q) (er_path q) (bind_request_digest (ce_crypto S) (er_body q) (er_query q))
      (er_proof q) timestamp seq version"
    and "c' = accepted_state n version seq (str_or (h_nonce (er_proof q)) []) c"
    and "\<not> en_deleted n" and "en_status n \<noteq> ''disabled''" and "str_set (en_public_key n)"
proof -
  from run obtain u v where
    g: "get_node_for_proof (node_named q nid) c = (Inr n, u)" and pk: "str_set (en_public_key n)"
    and dg: "digest_matches (lower (strip (str_or (h_digest (er_proof q)) [])))
        (lower (bind_request_digest (ce_crypto S) (er_body q) (er_query q))) u = (Inr (), v)"
    and vp: "verify_request_proof S n (er_method q) (er_path q)
        (bind_request_digest (ce_crypto S) (er_body q) (er_query q)) (er_proof q) v = (Inr (), c')"
    unfolding authenticate_edge_def Let_def node_named_def
    by (elim thenE_Inr bindE_Inr) clarsimp
  from g have f: "find (\<lambda>n. en_id n = node_named q nid) (edge_nodes (cdb c)) = Some n" and u: "u = c"
    and st: "\<not> en_deleted n" "en_status n \<noteq> ''disabled''"
    unfolding get_node_for_proof_def find_node_def by (auto elim!: thenE_Inr bindE_Inr)
  from digest_Inr [OF dg] u have v: "v = c" by simp
  from vp [unfolded v] show thesis
    by (rule proof_Inr) (rule that [OF f _ _ st pk])
qed

section \<open>Committed requests\<close>

text \<open>The request of a call, and the node its caller names.\<close>

fun request_of :: "central_call \<Rightarrow> (edge_request \<times> string option) option" where
  "request_of (Rotate q key) = Some (q, None)"
| "request_of (Heartbeat q nid meta) = Some (q, Some nid)"
| "request_of (Claim q) = Some (q, None)"
| "request_of (Renew q jid gen) = Some (q, None)"
| "request_of (Check_cancel q jid) = Some (q, None)"
| "request_of (Request_cancel q jid) = Some (q, None)"
| "request_of (Post_events q jid es gen) = Some (q, None)"
| "request_of (Pull_demands q) = Some (q, None)"
| "request_of (Create_demand q jid name art attempt step gen delivery ttl) = Some (q, None)"
| "request_of x = None"

definition commits :: "bool centre \<Rightarrow> bool" where
  "commits m \<longleftrightarrow> (\<forall>c c'. m c = (Inr True, c') \<longrightarrow> db_grows (cdb c) (saved c'))"

lemma commits_bind:
  assumes "guar works m" and "\<And>a. commits (f a)"
  shows "commits (bindE m f)"
  unfolding commits_def
proof (intro allI impI)
  fix c c' assume "bindE m f c = (Inr True, c')"
  then obtain a u where m: "m c = (Inr a, u)" and f: "f a u = (Inr True, c')" by (rule bindE_Inr)
  have "db_grows (cdb c) (cdb u)" using guar_result [OF assms(1) m] by (simp add: works_def)
  moreover have "db_grows (cdb u) (saved c')" using assms(2) f by (simp add: commits_def)
  ultimately show "db_grows (cdb c) (saved c')" by (rule db_grows_trans)
qed

lemma commits_then: "guar works m \<Longrightarrow> commits n \<Longrightarrow> commits (thenE m n)"
  by (simp add: thenE_def commits_bind)

lemma commits_commit:
  assumes "guar works n"
  shows "commits (thenE edge_commit n)"
  unfolding commits_def
proof (intro allI impI)
  fix c c' assume "thenE edge_commit n c = (Inr True, c')"
  then have "n (c\<lparr>saved := cdb c\<rparr>) = (Inr True, c')" by (simp add: thenE_def bindE_def edge_commit_def modifyE_def)
  from guar_result [OF assms this] show "db_grows (cdb c) (saved c')" by (simp add: works_def)
qed

lemma commits_False: "commits (returnE False)"
  by (simp add: commits_def)

lemma answered_session: "bindE (edge_session m) (\<lambda>a. returnE (h a)) = edge_session (bindE m (\<lambda>a. returnE (h a)))"
  by (rule ext) (auto simp: edge_session_def bindE_def returnE_def split: prod.splits sum.splits)

lemma bind_assoc: "bindE (bindE m f) g = bindE m (\<lambda>a. bindE (f a) g)"
  by (rule ext) (auto simp: bindE_def split: prod.splits sum.splits)

lemma bind_then_assoc: "bindE (thenE m n) g = thenE m (bindE n g)"
  by (simp add: thenE_def bind_assoc)

lemma return_bind: "bindE (returnE a) f = f a"
  by (rule ext) (simp add: bindE_def returnE_def)

lemma commit_then_return: "bindE edge_commit (\<lambda>a. returnE b) = thenE edge_commit (returnE b)"
  by (simp add: thenE_def)

lemmas assoc_rules = bind_assoc bind_then_assoc return_bind

lemma step_form:
  assumes "request_of x = Some (q, nid)"
  shows "\<exists>K. centre_step S x = edge_session (bindE (authenticate_edge S q nid) K) \<and> (\<forall>n. commits (K n))"
proof -
  note rules = commits_bind commits_then commits_commit commits_False works_ops
    works_change_node wk.guar_return wk.guar_bind wk.guar_gets wk.guar_mapE
  show ?thesis
  proof (cases x)
    case (Rotate q' key)
    with assms have x: "x = Rotate q key" "nid = None" by simp_all
    show ?thesis
      unfolding x centre_step.simps answered_def rotate_edge_identity_def answered_session assoc_rules
      by (intro exI conjI allI, rule refl) (intro rules)
  next
    case (Heartbeat q' i meta)
    with assms have x: "x = Heartbeat q i meta" "nid = Some i" by simp_all
    show ?thesis
      unfolding x centre_step.simps answered_def edge_heartbeat_def answered_session assoc_rules
      by (intro exI conjI allI, rule refl) (intro rules; simp add: node_ok_def mark_le_def)
  next
    case (Claim q')
    with assms have x: "x = Claim q" "nid = None" by simp_all
    have body: "commits (bindE (case rows of [] \<Rightarrow> returnE None
       | j # uu \<Rightarrow> thenE (change_job (ej_id j) (claimed_job now))
           (thenE edge_commit
           (bindE (sign_command_envelope S (en_org n) (en_id n) ''job.claim'' (job_payload S (claimed_job now j)) None)
             (\<lambda>d. returnE (Some d))))) (\<lambda>answer. returnE (answer \<noteq> None)))" for rows now n
    proof (cases rows)
      case Nil
      show ?thesis unfolding Nil by (simp only: list.case return_bind simp_thms commits_False)
    next
      case (Cons j js)
      show ?thesis
        unfolding Cons list.case assoc_rules by (intro rules)
    qed
    show ?thesis
      unfolding x centre_step.simps claim_edge_job_def answered_session bind_assoc
      by (intro exI conjI allI, rule refl) (intro commits_bind wk.guar_gets body)
  next
    case (Renew q' jid gen)
    with assms have x: "x = Renew q jid gen" "nid = None" by simp_all
    show ?thesis
      unfolding x centre_step.simps answered_def renew_edge_job_lease_def answered_session assoc_rules commit_then_return
      by (intro exI conjI allI, rule refl) (intro rules)
  next
    case (Check_cancel q' jid)
    with assms have x: "x = Check_cancel q jid" "nid = None" by simp_all
    show ?thesis
      unfolding x centre_step.simps check_edge_job_cancel_def answered_session assoc_rules
      by (intro exI conjI allI, rule refl) (intro rules)
  next
    case (Request_cancel q' jid)
    with assms have x: "x = Request_cancel q jid" "nid = None" by simp_all
    show ?thesis
      unfolding x centre_step.simps answered_def request_edge_job_cancel_def answered_session assoc_rules commit_then_return
      by (intro exI conjI allI, rule refl) (intro rules)
  next
    case (Post_events q' jid es gen)
    with assms have x: "x = Post_events q jid es gen" "nid = None" by simp_all
    show ?thesis
      unfolding x centre_step.simps answered_def post_edge_job_events_def answered_session assoc_rules commit_then_return
      by (intro exI conjI allI, rule refl) (intro rules)
  next
    case (Pull_demands q')
    with assms have x: "x = Pull_demands q" "nid = None" by simp_all
    show ?thesis
      unfolding x centre_step.simps answered_def pull_edge_artifact_on_demand_requests_def answered_session assoc_rules
      by (intro exI conjI allI, rule refl) (intro rules)
  next
    case (Create_demand q' jid name art attempt step gen delivery ttl)
    with assms have x: "x = Create_demand q jid name art attempt step gen delivery ttl" "nid = None" by simp_all
    show ?thesis
      unfolding x centre_step.simps answered_def create_edge_job_artifact_on_demand_request_def answered_session assoc_rules
      by (intro exI conjI allI, rule refl) (intro rules)
  qed (use assms in simp_all)
qed

text \<open>The version and number a request claims.\<close>

definition claims_version :: "edge_request \<Rightarrow> int \<Rightarrow> bool" where
  "claims_version q v \<longleftrightarrow> header_int (h_version (er_proof q)) = Inr v"

definition claims_seq :: "edge_request \<Rightarrow> int \<Rightarrow> bool" where
  "claims_seq q n \<longleftrightarrow> header_int (h_seq (er_proof q)) = Inr n"

text \<open>The node has left the number \<open>seq\<close> of the version behind.\<close>

definition past :: "string \<Rightarrow> int \<Rightarrow> int \<Rightarrow> central \<Rightarrow> bool" where
  "past nid v seq c \<longleftrightarrow> nodes_ok (saved c) \<and>
     (\<exists>n \<in> set (edge_nodes (saved c)). en_id n = nid \<and> (v < en_version n \<or> v = en_version n \<and> seq \<le> en_last_seq n))"

lemma past_grows: "past nid v seq c \<Longrightarrow> saves_more c c' \<Longrightarrow> past nid v seq c'"
proof -
  assume p: "past nid v seq c" and g: "saves_more c c'"
  from p obtain n where ok: "nodes_ok (saved c)" and n: "n \<in> set (edge_nodes (saved c))" "en_id n = nid"
    "v < en_version n \<or> v = en_version n \<and> seq \<le> en_last_seq n" by (auto simp: past_def)
  from g ok have "nodes_ok (saved c')" and "\<exists>n' \<in> set (edge_nodes (saved c')). mark_le n n'"
    using n(1) by (auto simp: saves_more_def db_grows_def)
  then show "past nid v seq c'"
    using n(2,3) by (force simp: past_def mark_le_def)
qed

lemma past_run: "past nid v seq c \<Longrightarrow> past nid v seq (central_run S xs c)"
  by (rule past_grows [OF _ run_saves])

lemma session_Inr:
  assumes "edge_session m c = (Inr a, c')"
  obtains u where "m (c\<lparr>cdb := saved c\<rparr>) = (Inr a, u)" and "c' = u\<lparr>cdb := saved u\<rparr>"
  using assms by (auto simp: edge_session_def split: prod.splits)

lemma in_advanced:
  assumes "n \<in> set ns" "en_id n = nid" "en_version n = v" "en_last_seq n < seq"
  shows "n\<lparr>en_last_seq := seq\<rparr> \<in> set (advanced nid v seq ns)"
  unfolding advanced_def upd_where_def set_map
  by (rule image_eqI [OF _ assms(1)]) (simp add: assms)

text \<open>A committed request leaves its number behind.\<close>

lemma committed_past:
  assumes x: "request_of x = Some (q, nid)" and run: "centre_step S x c = (Inr True, c1)"
    and ok: "nodes_ok (saved c)" and v: "claims_version q v" and seq: "claims_seq q seq"
  shows "past (node_named q nid) v seq c1"
proof -
  from step_form [OF x] obtain K where
    form: "centre_step S x = edge_session (bindE (authenticate_edge S q nid) K)" and K: "\<And>n. commits (K n)" by blast
  let ?c = "c\<lparr>cdb := saved c\<rparr>"
  from run [unfolded form] obtain u where
    m: "bindE (authenticate_edge S q nid) K ?c = (Inr True, u)" and c1: "c1 = u\<lparr>cdb := saved u\<rparr>" by (rule session_Inr)
  from m obtain n w where a: "authenticate_edge S q nid ?c = (Inr n, w)" and k: "K n w = (Inr True, u)" by (rule bindE_Inr)
  from a obtain timestamp seq' v' where
    f: "find (\<lambda>n. en_id n = node_named q nid) (edge_nodes (cdb ?c)) = Some n" and
    p: "proof_holds S ?c n (er_method q) (er_path q) (bind_request_digest (ce_crypto S) (er_body q) (er_query q))
      (er_proof q) timestamp seq' v'" and
    w: "w = accepted_state n v' seq' (str_or (h_nonce (er_proof q)) []) ?c" by (rule authenticate_Inr)
  have eq: "v' = v" "seq' = seq"
    using p v seq by (auto simp: proof_holds_def claims_version_def claims_seq_def)
  have n: "n \<in> set (edge_nodes (saved c))" "en_id n = node_named q nid"
    using f by (auto simp: find_Some_iff)
  have fresh: "en_version n = v" "en_last_seq n < seq" using p eq by (auto simp: proof_holds_def)
  have "db_grows (saved c) (cdb w)"
    using guar_result [OF works_authenticate a] by (simp add: works_def)
  with ok have okw: "nodes_ok (cdb w)" by (simp add: db_grows_def)
  have inw: "n\<lparr>en_last_seq := seq\<rparr> \<in> set (edge_nodes (cdb w))"
    using in_advanced [OF n(1) refl fresh] by (simp add: w accepted_state_def eq)
  have "db_grows (cdb w) (saved u)" using K k by (simp add: commits_def)
  with okw inw have "nodes_ok (saved u)" and "\<exists>n' \<in> set (edge_nodes (saved u)). mark_le (n\<lparr>en_last_seq := seq\<rparr>) n'"
    by (auto simp: db_grows_def)
  then show ?thesis
    using n(2) fresh(1) by (force simp: past_def mark_le_def c1)
qed

text \<open>Who claims a number left behind is refused.\<close>

lemma past_refused:
  assumes x: "request_of x = Some (q, nid)" and p: "past (node_named q nid) v0 seq c"
    and v: "claims_version q v" and s: "v < v0 \<or> v = v0 \<and> (\<forall>seq'. claims_seq q seq' \<longrightarrow> seq' \<le> seq)"
  shows "\<exists>e c'. centre_step S x c = (Inl e, c')"
proof (rule ccontr)
  assume "\<not> (\<exists>e c'. centre_step S x c = (Inl e, c'))"
  then obtain b c1 where run: "centre_step S x c = (Inr b, c1)" by (metis old.sum.exhaust surj_pair)
  from step_form [OF x] obtain K where
    form: "centre_step S x = edge_session (bindE (authenticate_edge S q nid) K)" by blast
  let ?c = "c\<lparr>cdb := saved c\<rparr>"
  from run [unfolded form] obtain u where "bindE (authenticate_edge S q nid) K ?c = (Inr b, u)" by (rule session_Inr)
  then obtain m w where a: "authenticate_edge S q nid ?c = (Inr m, w)" by (rule bindE_Inr)
  from a obtain timestamp sq v' where
    f: "find (\<lambda>n. en_id n = node_named q nid) (edge_nodes (cdb ?c)) = Some m" and
    h: "proof_holds S ?c m (er_method q) (er_path q) (bind_request_digest (ce_crypto S) (er_body q) (er_query q))
      (er_proof q) timestamp sq v'" by (rule authenticate_Inr)
  from p obtain n where ok: "nodes_ok (saved c)" and n: "n \<in> set (edge_nodes (saved c))" "en_id n = node_named q nid"
    "v0 < en_version n \<or> v0 = en_version n \<and> seq \<le> en_last_seq n" by (auto simp: past_def)
  have m: "m \<in> set (edge_nodes (saved c))" "en_id m = node_named q nid" using f by (auto simp: find_Some_iff)
  have "m = n" using same_id_same [OF ok m(1) n(1)] m(2) n(2) by simp
  with h v have "v = en_version n" "en_last_seq n < sq" "claims_seq q sq"
    by (auto simp: proof_holds_def claims_version_def claims_seq_def)
  with s n(3) show False by auto
qed

section \<open>Rotation\<close>

lemma get_node_Inr:
  assumes "get_node org nid c = (Inr n, c')"
  shows "c' = c" and "n \<in> set (edge_nodes (cdb c))" and "en_id n = nid" and "en_org n = org"
  using assms unfolding get_node_def find_node_def
  by (auto simp: find_Some_iff elim!: bindE_Inr)

lemma change_node_Inr:
  "change_node nid f c = (Inr x, c') \<Longrightarrow>
   c' = c\<lparr>cdb := (cdb c)\<lparr>edge_nodes := upd_where (\<lambda>n. en_id n = nid) f (edge_nodes (cdb c))\<rparr>\<rparr>"
  by (simp add: change_node_def with_cdb_def modifyE_def)

text \<open>Completing a rotation takes the node to the next version.\<close>

lemma rotation_next_version:
  assumes run: "complete_rotation S org nid key c = (Inr d, c')" and ok: "nodes_ok (cdb c)"
    and n: "n \<in> set (edge_nodes (cdb c))" "en_id n = nid"
  shows "\<exists>n' \<in> set (edge_nodes (cdb c')). en_id n' = nid \<and> en_version n < en_version n'"
proof -
  let ?f = "\<lambda>n. n\<lparr>en_previous_public_key := en_public_key n, en_public_key := Some key,
               en_version := en_version n + 1, en_last_seq := 0, en_rotation_expires_at := None\<rparr>"
  from run obtain m expires u v ib w where g: "get_node org nid c = (Inr m, u)"
    and window: "en_rotation_expires_at m = Some expires"
    and ch: "change_node nid ?f u = (Inr (), v)"
    and bn: "issuer_bundle_of S v = (Inr ib, w)"
    and au: "central_audit ''edge_node.rotate_complete'' nid org ''edge_node'' nid
               [(''identity_version'', JInt (en_version m + 1))] w = (Inr (), c')"
    unfolding complete_rotation_def by (elim thenE_Inr bindE_Inr) auto
  have u: "u = c" and m: "m = n"
    using get_node_Inr [OF g] same_id_same [OF ok] n by auto
  have v: "v = c\<lparr>cdb := (cdb c)\<lparr>edge_nodes := upd_where (\<lambda>n. en_id n = nid) ?f (edge_nodes (cdb c))\<rparr>\<rparr>"
    using change_node_Inr [OF ch] u by simp
  have "?f n \<in> set (edge_nodes (cdb v))"
    unfolding v using n by (auto simp: upd_where_def)
  moreover have "db_grows (cdb c) (cdb v)"
    using works_at_change [of n c nid ?f] n window m ch u
    by (simp add: works_def node_ok_def mark_le_def)
  then have "nodes_ok (cdb v)" using ok by (simp add: db_grows_def)
  moreover have "db_grows (cdb v) (cdb c')"
    using guar_result [OF works_issuer_bundle bn] guar_result [OF works_audit au]
    by (auto simp: works_def intro: db_grows_trans)
  ultimately have "\<exists>n' \<in> set (edge_nodes (cdb c')). mark_le (?f n) n'" by (auto simp: db_grows_def)
  then show ?thesis using n(2) by (auto simp: mark_le_def)
qed

lemma rotated_past:
  assumes run: "centre_step S (Rotate q key) c = (Inr True, c1)" and ok: "nodes_ok (saved c)"
    and v: "claims_version q v"
  shows "\<exists>v' l. v < v' \<and> past (node_named q None) v' l c1"
proof -
  let ?c = "c\<lparr>cdb := saved c\<rparr>"
  have form: "centre_step S (Rotate q key) = edge_session (bindE (authenticate_edge S q None) (\<lambda>n.
       bindE (complete_rotation S (en_org n) (en_id n) key) (\<lambda>d. thenE edge_commit (returnE True))))"
    unfolding centre_step.simps answered_def rotate_edge_identity_def answered_session assoc_rules by (rule refl)
  from run [unfolded form] obtain u where
    m: "bindE (authenticate_edge S q None) (\<lambda>n.
       bindE (complete_rotation S (en_org n) (en_id n) key) (\<lambda>d. thenE edge_commit (returnE True))) ?c = (Inr True, u)"
    and c1: "c1 = u\<lparr>cdb := saved u\<rparr>" by (rule session_Inr)
  from m obtain n w where a: "authenticate_edge S q None ?c = (Inr n, w)"
    and k: "bindE (complete_rotation S (en_org n) (en_id n) key) (\<lambda>d. thenE edge_commit (returnE True)) w = (Inr True, u)"
    by (rule bindE_Inr)
  from k obtain d x where r: "complete_rotation S (en_org n) (en_id n) key w = (Inr d, x)"
    and e: "thenE edge_commit (returnE True) x = (Inr True, u)" by (rule bindE_Inr)
  have u: "saved u = cdb x" using e by (auto simp: thenE_def bindE_def edge_commit_def modifyE_def returnE_def)
  from a obtain timestamp seq' v' where
    f: "find (\<lambda>n. en_id n = node_named q None) (edge_nodes (cdb ?c)) = Some n" and
    p: "proof_holds S ?c n (er_method q) (er_path q) (bind_request_digest (ce_crypto S) (er_body q) (er_query q))
      (er_proof q) timestamp seq' v'" and
    w: "w = accepted_state n v' seq' (str_or (h_nonce (er_proof q)) []) ?c" by (rule authenticate_Inr)
  have ver: "en_version n = v" "v' = v" "en_last_seq n < seq'"
    using p v by (auto simp: proof_holds_def claims_version_def)
  have n: "n \<in> set (edge_nodes (saved c))" "en_id n = node_named q None" using f by (auto simp: find_Some_iff)
  have "db_grows (saved c) (cdb w)" using guar_result [OF works_authenticate a] by (simp add: works_def)
  with ok have okw: "nodes_ok (cdb w)" by (simp add: db_grows_def)
  have inw: "n\<lparr>en_last_seq := seq'\<rparr> \<in> set (edge_nodes (cdb w))"
    using in_advanced [OF n(1) refl ver(1) ver(3)] by (simp add: w accepted_state_def ver(2))
  from rotation_next_version [OF r okw inw] obtain n' where
    n': "n' \<in> set (edge_nodes (cdb x))" "en_id n' = en_id n" "v < en_version n'" using ver(1) by auto
  have "db_grows (cdb w) (cdb x)" using guar_result [OF works_complete_rotation r] by (simp add: works_def)
  then have "nodes_ok (cdb x)" using okw by (simp add: db_grows_def)
  then have "past (node_named q None) (en_version n') (en_last_seq n') c1"
    using n' n(2) u by (auto simp: past_def c1)
  with n'(3) show ?thesis by blast
qed

section \<open>Requests that are accepted\<close>

lemma ascii_lower: "is_ascii s \<Longrightarrow> is_ascii (lower s)"
proof -
  assume s: "is_ascii s"
  have "byte (lower_char c) < 128" if "c \<in> set s" for c
  proof -
    have "byte c < 128" using s that by (simp add: is_ascii_def list_all_iff)
    then show ?thesis by (auto simp: lower_char_def of_char_of)
  qed
  then show ?thesis by (simp add: is_ascii_def lower_def list_all_iff)
qed

lemma digest_matches_self: "is_ascii d \<Longrightarrow> digest_matches (lower d) (lower d) c = (Inr (), c)"
  by (simp add: digest_matches_def assertE_def returnE_def ascii_lower)

lemma digest_of_request:
  assumes "sound_crypto K"
  shows "strip (bind_request_digest K body query) = bind_request_digest K body query"
    and "is_ascii (bind_request_digest K body query)"
  using sound_digest [OF assms] sound_digest_ascii [OF assms]
  by (simp_all add: bind_request_digest_def body_digest_def canonical_payload_sha256_def Let_def split: option.split json.split)

lemma one_row:
  "distinct (List.map en_id ns) \<Longrightarrow> n \<in> set ns \<Longrightarrow> P n \<Longrightarrow> length (filter (\<lambda>m. en_id m = en_id n \<and> P m) ns) = 1"
proof (induction ns)
  case Nil
  then show ?case by simp
next
  case (Cons m ns)
  show ?case
  proof (cases "m = n")
    case True
    then have "filter (\<lambda>k. en_id k = en_id n \<and> P k) ns = []"
      using Cons.prems(1) by (auto simp: filter_empty_conv image_iff)
    then show ?thesis using True Cons.prems(3) by simp
  next
    case False
    then have "n \<in> set ns" using Cons.prems(2) by simp
    moreover have "en_id m \<noteq> en_id n" using \<open>n \<in> set ns\<close> Cons.prems(1) by auto
    ultimately show ?thesis using Cons by simp
  qed
qed

lemma find_id: "nodes_ok d \<Longrightarrow> n \<in> set (edge_nodes d) \<Longrightarrow> find (\<lambda>m. en_id m = en_id n) (edge_nodes d) = Some n"
proof -
  assume ok: "nodes_ok d" and n: "n \<in> set (edge_nodes d)"
  obtain m where m: "find (\<lambda>m. en_id m = en_id n) (edge_nodes d) = Some m"
    using n by (cases "find (\<lambda>m. en_id m = en_id n) (edge_nodes d)") (auto simp: find_None_iff)
  then have "m \<in> set (edge_nodes d)" "en_id m = en_id n" by (auto simp: find_Some_iff)
  with same_id_same [OF ok _ n] m show ?thesis by simp
qed

lemma str_set_None: "\<not> str_set None"
  by (simp add: str_set_def str_or_def)

text \<open>A node that may send requests.\<close>

definition node_serves :: "edge_node \<Rightarrow> bool" where
  "node_serves n \<longleftrightarrow> \<not> en_deleted n \<and> en_status n \<noteq> ''disabled'' \<and> en_revoked_at n = None \<and>
     str_set (en_public_key n) \<and> en_id n \<noteq> []"

lemma proof_run:
  assumes h: "proof_holds S c n http_method path digest h timestamp seq version"
    and serves: "node_serves n" and ok: "nodes_ok (cdb c)" and n: "n \<in> set (edge_nodes (cdb c))"
    and given: "str_set (h_timestamp h)" "str_set (h_seq h)" "str_set (h_version h)" "str_set (h_signature h)"
    and ts: "has_timestamp timestamp" and seq: "- 2147483648 \<le> seq" "seq \<le> 2147483647"
    and len: "py_len (str_or (h_nonce h) []) \<le> 128"
  shows "verify_request_proof S n http_method path digest h c =
    (Inr (), accepted_state n version seq (str_or (h_nonce h) []) c)"
proof -
  let ?nonce = "str_or (h_nonce h) []"
  let ?u = "c\<lparr>cdb := (cdb c)\<lparr>edge_nonces := edge_nonces (cdb c) @ [(en_id n, version, ?nonce)]\<rparr>\<rparr>"
  have fresh: "(en_id n, version, ?nonce) \<notin> set (edge_nonces (cdb c))"
    using h unfolding proof_holds_def by (elim conjE)
  have nonce: "consume_nonce (en_id n) version ?nonce c = (Inr (), ?u)"
    using fresh len by (simp add: consume_nonce_def bindE_def thenE_def getsE_def assertE_def returnE_def with_cdb_def
        modifyE_def)
  have count: "length (filter (\<lambda>m. en_id m = en_id n \<and> en_version m = version \<and> en_last_seq m < seq) (edge_nodes (cdb c))) = 1"
    using one_row [of "edge_nodes (cdb c)" n "\<lambda>m. en_version m = version \<and> en_last_seq m < seq"] ok n h
    by (simp add: nodes_ok_def proof_holds_def)
  have adv: "advance_seq (en_id n) version seq ?u = (Inr (), accepted_state n version seq ?nonce c)"
    using seq count
    by (simp add: advance_seq_def bindE_def thenE_def getsE_def assertE_def returnE_def with_cdb_def modifyE_def
        accepted_state_def advanced_def)
  have v: "version = en_version n" using h unfolding proof_holds_def by (elim conjE)
  show ?thesis
    using h [unfolded proof_holds_def v] serves given
    by (simp add: verify_request_proof_def Let_def bindE_def thenE_def getsE_def liftE_def assertE_def returnE_def
        node_serves_def ts nonce [unfolded v] adv [unfolded v] v)
qed

lemma authenticate_run:
  assumes K: "sound_crypto (ce_crypto S)"
    and n: "n \<in> set (edge_nodes (cdb c))" and ok: "nodes_ok (cdb c)" and serves: "node_serves n"
    and name: "nid = None \<or> nid = Some (en_id n)" and hid: "h_node_id (er_proof q) = Some (en_id n)"
    and dg: "h_digest (er_proof q) = Some (bind_request_digest (ce_crypto S) (er_body q) (er_query q))"
    and h: "proof_holds S c n (er_method q) (er_path q) (bind_request_digest (ce_crypto S) (er_body q) (er_query q))
      (er_proof q) timestamp seq version"
    and given: "str_set (h_timestamp (er_proof q))" "str_set (h_seq (er_proof q))" "str_set (h_version (er_proof q))"
      "str_set (h_signature (er_proof q))"
    and ts: "has_timestamp timestamp" and seq: "- 2147483648 \<le> seq" "seq \<le> 2147483647"
    and len: "py_len (str_or (h_nonce (er_proof q)) []) \<le> 128"
  shows "authenticate_edge S q nid c = (Inr n, accepted_state n version seq (str_or (h_nonce (er_proof q)) []) c)"
proof -
  let ?d = "bind_request_digest (ce_crypto S) (er_body q) (er_query q)"
  have idn: "str_set (Some (en_id n))" using serves by (simp add: str_set_def str_or_def node_serves_def)
  have resolved: "(if str_set nid then nid else h_node_id (er_proof q)) = Some (en_id n)"
    using name hid idn by (auto simp: str_set_None)
  have gp: "get_node_for_proof (en_id n) c = (Inr n, c)"
    using serves find_id [OF ok n]
    by (simp add: get_node_for_proof_def find_node_def bindE_def thenE_def getsE_def the_or_def assertE_def returnE_def
        node_serves_def)
  have dm: "digest_matches (lower (strip ?d)) (lower ?d) c = (Inr (), c)"
    using digest_of_request [OF K, of "er_body q" "er_query q"] by (simp add: digest_matches_self)
  note vp = proof_run [OF h serves ok n given ts seq len]
  have pk: "str_set (en_public_key n)" using serves by (simp add: node_serves_def)
  have named: "str_set nid \<longrightarrow> nid = Some (en_id n)" using name by (auto simp: str_set_None)
  show ?thesis
    unfolding authenticate_edge_def Let_def resolved
    by (simp add: bindE_def thenE_def assertE_def returnE_def idn named hid
        str_or_def [of "Some (en_id n)"] str_or_def [of "Some ?d"] gp dg dm vp pk)
qed

end
