(* ===== verification/Edge_Exchange.thy ===== *)
theory Edge_Exchange
  imports Edge_Laws Central_Laws
begin

text \<open>
  The lemmas the properties of the edge protocol share: what the centre's signed envelopes hold and when a
  node unwraps them, which headers a node signs and when they authenticate it, what a claim and a report of
  events make of the jobs, and that the checks of a request draw no randomness.
\<close>

section \<open>Commands\<close>

text \<open>
  What certifies a command, field by field: who it is for, what it says, until when it holds, and whose key
  has signed it. A key is trusted under the identifier of the issuer, or under that of the issuer before,
  while the rotation lasts, and in no other way.
\<close>

definition still_valid :: "crypto \<Rightarrow> int \<Rightarrow> string \<Rightarrow> bool" where
  "still_valid K now s \<longleftrightarrow> (\<exists>t. from_iso K s = Inr (t, True) \<and> now \<le> t)"

definition trusted_key :: "crypto \<Rightarrow> int \<Rightarrow> identity \<Rightarrow> string \<Rightarrow> string \<Rightarrow> bool" where
  "trusted_key K now i key_id raw \<longleftrightarrow>
     key_id = ei_issuer_key_id i \<and> raw = ei_issuer_public_key i
     \<or> ei_previous_issuer_key_id i = JStr key_id \<and> ei_previous_issuer_public_key i = JStr raw
       \<and> (\<exists>s. ei_issuer_rotation_expires_at i = JStr s \<and> still_valid K now s)"

definition command_certified :: "crypto \<Rightarrow> int \<Rightarrow> identity \<Rightarrow> json \<Rightarrow> json \<Rightarrow> string option \<Rightarrow> bool" where
  "command_certified K now i w p expected \<longleftrightarrow>
     (\<exists>env d. jget w ''envelope'' = JObj env \<and> p = JObj d \<and> jget w ''payload'' = p
       \<and> dget env ''node_id'' = JStr (ei_node_id i) \<and> dget env ''org_id'' = JStr (ei_org_id i)
       \<and> dget env ''payload_sha256'' = JStr (digest_hex K (canonical p))
       \<and> str_at env ''purpose'' \<in>
           {''job.claim'', ''install.desired'', ''artifact.on_demand'', ''job.cancel.check'', ''node.heartbeat''}
       \<and> (case expected of None \<Rightarrow> True | Some purpose \<Rightarrow> str_at env ''purpose'' = purpose)
       \<and> (if truthy (dget env ''expires_at'') then still_valid K now (py_str (dget env ''expires_at'')) else True)
       \<and> (\<exists>raw key sig bytes. trusted_key K now i (py_str (dget env ''issuer_key_id'')) raw \<and> load_key raw = Some key
            \<and> dget env ''sig'' = JStr sig \<and> b64_text (padded sig) = Some bytes
            \<and> ed_verify K key bytes (canonical (JObj (filter (\<lambda>kv. fst kv \<noteq> ''sig'') env)))))"

lemma not_expired_valid:
  "expired K now env = Inr False \<Longrightarrow> truthy (dget env ''expires_at'') \<Longrightarrow> still_valid K now (py_str (dget env ''expires_at''))"
  by (auto simp: expired_def still_valid_def aware_time_def Let_def split: sum.splits if_splits)

lemma issuer_key_trusted:
  assumes "issuer_keys K now i = Inr keys" and "map_of keys (JStr key_id) = Some (JStr raw)"
  shows "trusted_key K now i key_id raw"
proof -
  have "rotation_open K now j = Inr True \<Longrightarrow> \<exists>s. j = JStr s \<and> still_valid K now s" for j
    by (auto simp: rotation_open_def still_valid_def aware_time_def split: json.splits sum.splits if_splits)
  with assms show ?thesis
    by (auto simp: issuer_keys_def trusted_key_def Let_def split: if_splits sum.splits)
qed

lemma command_ok_certified:
  assumes "command_ok K now i env p expected = Inr True"
    and w: "jget w ''envelope'' = JObj env" "jget w ''payload'' = p" and d: "p = JObj d"
  shows "command_certified K now i w p expected"
proof -
  from assms(1) have a: "addressed K i env p expected" and e: "map_sum id Not (expired K now env) = Inr True"
    and s: "(case issuer_keys K now i of Inl e \<Rightarrow> Inl e | Inr keys \<Rightarrow> signed_by K keys env) = Inr True"
    by (simp_all add: command_ok_def both_True)
  from e have ex: "expired K now env = Inr False" by (cases "expired K now env") auto
  from s obtain keys where keys: "issuer_keys K now i = Inr keys" and sb: "signed_by K keys env = Inr True"
    by (auto split: sum.splits)
  from sb obtain sig raw key where sig: "dget env ''sig'' = JStr sig"
    and raw: "map_of keys (JStr (py_str (dget env ''issuer_key_id''))) = Some (JStr raw)"
    and key: "load_key raw = Some key" and v: "valid_signature K key sig (command_message env)"
    by (auto simp: signed_by_def Let_def split: if_splits json.splits option.splits)
  from v obtain bytes where bytes: "b64_text (padded sig) = Some bytes"
    "ed_verify K key bytes (canonical (JObj (filter (\<lambda>kv. fst kv \<noteq> ''sig'') env)))"
    by (auto simp: valid_signature_def command_message_def split: option.splits)
  have signature: "\<exists>raw key sig bytes. trusted_key K now i (py_str (dget env ''issuer_key_id'')) raw \<and> load_key raw = Some key
            \<and> dget env ''sig'' = JStr sig \<and> b64_text (padded sig) = Some bytes
            \<and> ed_verify K key bytes (canonical (JObj (filter (\<lambda>kv. fst kv \<noteq> ''sig'') env)))"
    using issuer_key_trusted [OF keys raw] key sig bytes by blast
  have time: "if truthy (dget env ''expires_at'') then still_valid K now (py_str (dget env ''expires_at'')) else True"
    using not_expired_valid [OF ex] by simp
  have digest: "canonical_payload_sha256 K p = digest_hex K (canonical p)" by (simp add: canonical_payload_sha256_def d)
  have parts: "dget env ''node_id'' = JStr (ei_node_id i)" "dget env ''org_id'' = JStr (ei_org_id i)"
    "dget env ''payload_sha256'' = JStr (digest_hex K (canonical p))"
    "str_at env ''purpose'' \<in>
      {''job.claim'', ''install.desired'', ''artifact.on_demand'', ''job.cancel.check'', ''node.heartbeat''}"
    "case expected of None \<Rightarrow> True | Some purpose \<Rightarrow> str_at env ''purpose'' = purpose"
    using a unfolding addressed_def digest by (simp_all add: COMMAND_PURPOSES_def)
  show ?thesis
    unfolding command_certified_def
    by (rule exI [of _ env], rule exI [of _ d], intro conjI) (fact w d signature time parts)+
qed

text \<open>The envelope the centre signs.\<close>

definition envelope_body :: "central_env \<Rightarrow> central \<Rightarrow> string \<Rightarrow> string \<Rightarrow> string \<Rightarrow> dict \<Rightarrow> int \<Rightarrow> dict" where
  "envelope_body S c org_id nid purpose payload seq =
     [(''org_id'', JStr org_id), (''node_id'', JStr nid), (''purpose'', JStr purpose),
      (''command_id'', JStr (new_token (ce_crypto S) (central_drawn c))),
      (''nonce'', JStr (new_token (ce_crypto S) (Suc (central_drawn c)))),
      (''command_seq'', JInt seq),
      (''issued_at'', JStr (iso_text (ce_crypto S) (central_now c))),
      (''expires_at'', JStr (iso_text (ce_crypto S) (central_now c + 1000000 * ce_command_ttl S))),
      (''payload_sha256'', JStr (canonical_payload_sha256 (ce_crypto S) (JObj payload))),
      (''issuer_key_id'', JStr (ce_issuer_key_id S))]"

definition signed_envelope :: "central_env \<Rightarrow> string \<Rightarrow> dict \<Rightarrow> dict" where
  "signed_envelope S key body =
     body @ [(''sig'', JStr (b64encode (ed_sign (ce_crypto S) key (canonical (JObj body)))))]"

lemma bundle_Inr: "issuer_bundle_of S c = (Inr b, c') \<Longrightarrow> c' = c \<and> ib_key_id b = ce_issuer_key_id S"
  unfolding issuer_bundle_of_def
  by (elim thenE_Inr bindE_Inr) (auto simp: returnE_def elim!: bindE_Inr split: if_splits)

lemma sign_Inr:
  assumes "sign_command_envelope S org_id nid purpose payload None c = (Inr w, c')"
  obtains key where "load_central_key (pem_private (ce_crypto S)) (ce_issuer_private_key S) = Some key"
    and "w = [(''envelope'', JObj (signed_envelope S key
      (envelope_body S c org_id nid purpose payload (seconds (central_now c))))), (''payload'', JObj payload)]"
    and "purpose \<in> set COMMAND_PURPOSES" and "c' = c\<lparr>central_drawn := Suc (Suc (central_drawn c))\<rparr>"
proof -
  from assms obtain b u key where p: "purpose \<in> set COMMAND_PURPOSES" and b: "issuer_bundle_of S c = (Inr b, u)"
    and key: "load_central_key (pem_private (ce_crypto S)) (ce_issuer_private_key S) = Some key"
    and rest: "bindE (getsE central_now) (\<lambda>now.
      bindE (central_draw (new_token (ce_crypto S))) (\<lambda>command_id.
      bindE (central_draw (new_token (ce_crypto S))) (\<lambda>nonce.
      let body = [(''org_id'', JStr org_id), (''node_id'', JStr nid), (''purpose'', JStr purpose),
                  (''command_id'', JStr command_id), (''nonce'', JStr nonce),
                  (''command_seq'', JInt (case None of Some seq \<Rightarrow> seq | None \<Rightarrow> seconds now)),
                  (''issued_at'', JStr (iso_text (ce_crypto S) now)),
                  (''expires_at'', JStr (iso_text (ce_crypto S) (now + 1000000 * ce_command_ttl S))),
                  (''payload_sha256'', JStr (canonical_payload_sha256 (ce_crypto S) (JObj payload))),
                  (''issuer_key_id'', JStr (ib_key_id b))];
          signature = ed_sign (ce_crypto S) key (canonical (JObj body))
      in returnE [(''envelope'', JObj (body @ [(''sig'', JStr (b64encode signature))])), (''payload'', JObj payload)]))) u
      = (Inr w, c')"
    unfolding sign_command_envelope_def
    by (elim thenE_Inr bindE_Inr [where m = "issuer_bundle_of S"] bindE_Inr [where m = "the_or e x" for e x]) simp
  from bundle_Inr [OF b] have u: "u = c" and id: "ib_key_id b = ce_issuer_key_id S" by simp_all
  show thesis
  proof (rule that [OF key _ p])
    show "w = [(''envelope'', JObj (signed_envelope S key
        (envelope_body S c org_id nid purpose payload (seconds (central_now c))))), (''payload'', JObj payload)]"
      and "c' = c\<lparr>central_drawn := Suc (Suc (central_drawn c))\<rparr>"
      using rest
      by (simp_all add: u id bindE_def getsE_def central_draw_def returnE_def Let_def signed_envelope_def envelope_body_def)
  qed
qed

lemma envelope_of_signed:
  "envelope_of (JObj [(''envelope'', JObj e), (''payload'', p)]) = e"
  by (simp add: envelope_of_def)

lemma message_of_signed:
  "command_message (signed_envelope S key (envelope_body S c org_id nid purpose payload seq)) =
   canonical (JObj (envelope_body S c org_id nid purpose payload seq))"
  by (simp add: command_message_def signed_envelope_def envelope_body_def)

lemma fields_of_signed:
  fixes S c org_id nid purpose payload seq key
  defines "e \<equiv> signed_envelope S key (envelope_body S c org_id nid purpose payload seq)"
  shows "dget e ''node_id'' = JStr nid" "dget e ''org_id'' = JStr org_id" "dget e ''purpose'' = JStr purpose"
    "dget e ''payload_sha256'' = JStr (canonical_payload_sha256 (ce_crypto S) (JObj payload))"
    "dget e ''command_id'' = JStr (new_token (ce_crypto S) (central_drawn c))"
    "dget e ''nonce'' = JStr (new_token (ce_crypto S) (Suc (central_drawn c)))"
    "dget e ''command_seq'' = JInt seq"
    "dget e ''expires_at'' = JStr (iso_text (ce_crypto S) (central_now c + 1000000 * ce_command_ttl S))"
    "dget e ''issuer_key_id'' = JStr (ce_issuer_key_id S)"
    "dget e ''sig'' = JStr (b64encode (ed_sign (ce_crypto S) key
       (canonical (JObj (envelope_body S c org_id nid purpose payload seq)))))"
  by (simp_all add: e_def signed_envelope_def envelope_body_def)

lemma purpose_nonempty: "purpose \<in> set COMMAND_PURPOSES \<Longrightarrow> purpose \<noteq> []"
  by (auto simp: COMMAND_PURPOSES_def)

lemma int_at_int: "dget d k = JInt n \<Longrightarrow> int_at d k = Inr n"
  by (simp add: int_at_def or_else_def)

lemma str_at_str: "dget d k = JStr s \<Longrightarrow> str_at d k = s"
  by (simp add: str_at_def or_else_def)

text \<open>The store can be written: there is no key for the secrets yet, or a usable one.\<close>

definition can_save :: "crypto \<Rightarrow> edge_store \<Rightarrow> bool" where
  "can_save K s \<longleftrightarrow> (case wrap_key_file s of None \<Rightarrow> True | Some raw \<Rightarrow> is_wrap_key K (strip raw))"

lemma save_works: "can_save K s \<Longrightarrow> \<exists>t. save K i s = (Inr (), t)"
  by (auto simp: can_save_def save_def load_or_create_fernet_def prog_simps draw_def split: option.splits)

text \<open>A command signed by the issuer is one the node takes, if the node is its addressee, trusts the key and
  has not taken one of the same number or a later one.\<close>

definition ready_for :: "central_env \<Rightarrow> central \<Rightarrow> crypto \<Rightarrow> identity \<Rightarrow> edge_store \<Rightarrow> bool" where
  "ready_for S c K i s \<longleftrightarrow>
     ei_last_command_seq i < seconds (central_now c) \<and>
     \<not> has_key (ei_consumed_commands i) (new_token K (central_drawn c)) \<and>
     \<not> has_key (ei_consumed_nonces i) (new_token K (Suc (central_drawn c))) \<and>
     edge_now s \<le> central_now c + 1000000 * ce_command_ttl S \<and> can_save K s"

definition trusts_issuer :: "central_env \<Rightarrow> crypto \<Rightarrow> int \<Rightarrow> identity \<Rightarrow> bool" where
  "trusts_issuer S K now i \<longleftrightarrow>
     (case (issuer_keys K now i, load_central_key (pem_private K) (ce_issuer_private_key S)) of
        (Inr keys, Some key) \<Rightarrow>
          map_of keys (JStr (ce_issuer_key_id S)) = Some (JStr (b64encode (public_of K key)))
      | _ \<Rightarrow> False)"

text \<open>An envelope signed for the node that is ready for it is unwrapped.\<close>

lemma signed_unwraps:
  assumes K: "ce_crypto S = K" "sound_crypto K"
    and signed: "sign_command_envelope S (ei_org_id i) (ei_node_id i) purpose payload None c = (Inr w, c')"
    and trust: "trusts_issuer S K (edge_now s) i" and ready: "ready_for S c K i s"
  shows "\<exists>j t. unwrap_or_none K i (JObj w) (Some purpose) s = (Inr (Some (JObj payload), j), t)"
proof -
  from signed obtain key where key: "load_central_key (pem_private K) (ce_issuer_private_key S) = Some key"
    and w: "w = [(''envelope'', JObj (signed_envelope S key
      (envelope_body S c (ei_org_id i) (ei_node_id i) purpose payload (seconds (central_now c))))), (''payload'', JObj payload)]"
    and purpose: "purpose \<in> set COMMAND_PURPOSES"
    unfolding K(1) [symmetric] by (rule sign_Inr)
  define e where "e = signed_envelope S key (envelope_body S c (ei_org_id i) (ei_node_id i) purpose payload (seconds (central_now c)))"
  note fields = fields_of_signed [of S key c "ei_org_id i" "ei_node_id i" purpose payload "seconds (central_now c)",
      folded e_def, unfolded K(1)]
  have len: "length key = 32" by (rule load_central_key_length [OF _ key]) (rule sound_pem [OF K(2)])
  from trust key obtain keys where keys: "issuer_keys K (edge_now s) i = Inr keys"
    and entry: "map_of keys (JStr (ce_issuer_key_id S)) = Some (JStr (b64encode (public_of K key)))"
    by (auto simp: trusts_issuer_def split: sum.splits)
  have message: "command_message e =
      canonical (JObj (envelope_body S c (ei_org_id i) (ei_node_id i) purpose payload (seconds (central_now c))))"
    unfolding e_def by (rule message_of_signed)
  have a: "addressed K i e (JObj payload) (Some purpose)"
    using purpose by (simp add: addressed_def fields str_at_str)
  have x: "expired K (edge_now s) e = Inr False"
    using ready sound_iso_nonempty [OF K(2)]
    by (simp add: expired_def fields Let_def from_iso_text [OF K(2)] aware_time_def ready_for_def)
  have sb: "signed_by K keys e = Inr True"
    using load_key_encode [OF sound_public [OF K(2) len]] sound_sign [OF K(2) len]
    by (simp add: signed_by_def Let_def fields hashable_def entry valid_signature_encode message)
  have un: "unseen i e = Inr True"
    using ready sound_token [OF K(2)]
    by (simp add: unseen_def command_id_of_def command_nonce_of_def str_at_str [OF fields(5)] str_at_str [OF fields(6)]
        int_at_int [OF fields(7)] ready_for_def)
  have ok: "command_ok K (edge_now s) i e (JObj payload) (Some purpose) = Inr True"
    by (simp add: command_ok_def both_def a x keys sb un)
  obtain t where sv: "save K (consume e (seconds (central_now c)) i) s = (Inr (), t)"
    using save_works [of K s "consume e (seconds (central_now c)) i"] ready by (auto simp: ready_for_def)
  have "unwrap_or_none K i (JObj w) (Some purpose) s =
      (Inr (Some (JObj payload), consume e (seconds (central_now c)) i), t)"
    unfolding w e_def [symmetric]
    by (simp add: unwrap_or_none_def verify_command_envelope_def bindE_def thenE_def getsE_def liftE_def returnE_def ok
        int_at_int [OF fields(7)] Let_def sv)
  then show ?thesis by blast
qed

text \<open>The check of a signed envelope never raises.\<close>

lemma signed_checked:
  assumes K: "ce_crypto S = K" "sound_crypto K" and keys: "issuer_keys K now i = Inr keys"
  shows "\<exists>b. command_ok K now i (signed_envelope S key (envelope_body S c org_id nid purpose payload seq)) p expected = Inr b"
proof -
  note fields = fields_of_signed [of S key c org_id nid purpose payload seq, unfolded K(1)]
  let ?e = "signed_envelope S key (envelope_body S c org_id nid purpose payload seq)"
  have "\<exists>b. expired K now ?e = Inr b"
    using sound_iso_nonempty [OF K(2)]
    by (simp add: expired_def fields Let_def from_iso_text [OF K(2)] aware_time_def)
  then obtain x where x: "expired K now ?e = Inr x" ..
  have "signed_by K keys ?e \<noteq> Inl y" for y
    by (auto simp: signed_by_def Let_def fields hashable_def split: option.splits json.splits)
  then obtain y where y: "signed_by K keys ?e = Inr y" by (cases "signed_by K keys ?e") auto
  have "unseen i ?e \<noteq> Inl y" for y
    by (simp add: unseen_def int_at_int [OF fields(7)])
  then obtain z where z: "unseen i ?e = Inr z" by (cases "unseen i ?e") auto
  have "both (Inr a) (Inr b) = Inr (a \<and> b)" for a b by (simp add: both_def)
  then have "command_ok K now i ?e p expected = Inr (addressed K i ?e p expected \<and> \<not> x \<and> y \<and> z)"
    by (simp add: command_ok_def x keys y z)
  then show ?thesis by (rule exI)
qed

section \<open>Commands of one second\<close>

lemma on_node_Inr:
  assumes "on_node m w = (Inr a, w')"
  obtains t where "m (node w) = (Inr a, t)" and "w' = w\<lparr>node := t\<rparr>"
  using assms by (auto simp: on_node_def split: prod.splits)

lemma exchange_Inr:
  assumes "exchange X m w = (Inr a, w')"
  obtains c where "m (centre_state w) = (Inr a, c)" and "w' = w\<lparr>sent := Suc (sent w), centre_state := c\<rparr>"
  using assms
  by (cases "m (centre_state w)") (auto simp: exchange_def Let_def split: delivery.splits sum.splits)

lemma signed_request_Inr:
  assumes "signed_request X http_method path body gen w = (Inr q, w')"
  obtains s where "w' = w\<lparr>node := s\<rparr>" and "remembers_more (node w) s"
    and "er_method q = http_method" and "er_path q = path"
proof -
  from assms obtain h u where h: "on_node (request_headers (ec_crypto X) http_method path body []) w = (Inr h, u)"
    and q: "q = wire_request http_method path body gen h" and u: "w' = u"
    unfolding signed_request_def by (elim bindE_Inr) auto
  from h obtain s where run: "request_headers (ec_crypto X) http_method path body [] (node w) = (Inr h, s)"
    and s: "u = w\<lparr>node := s\<rparr>" by (rule on_node_Inr)
  have "channel_step (ec_crypto X) (Sign http_method path body []) (node w) = (Inr None, s)"
    by (simp add: thenE_def bindE_def run returnE_def)
  from step_remembers [OF this] show thesis using s u q that by (simp add: wire_request_def)
qed

text \<open>A number that is not beyond the last one taken is refused.\<close>

lemma old_number_refused:
  assumes "take_command K w expected s = (Inr r, t)" and "command_seq_of w \<le> remembered_seq s"
  shows "r = None"
  using take_state(2) [OF assms(1)] assms(2) by (cases r) (auto simp: fresh_command_def)

lemma signed_seq:
  assumes "sign_command_envelope S org_id nid purpose payload None c = (Inr d, c')"
  shows "command_seq_of (JObj d) = seconds (central_now c)"
  using assms
  by (rule sign_Inr) (simp add: command_seq_of_def envelope_of_signed int_at_int [OF fields_of_signed(7)])

lemma claim_cases:
  assumes "claim_edge_job S q c = (Inr answer, c')"
  obtains n v rows where "authenticate_edge S q None (c\<lparr>cdb := saved c\<rparr>) = (Inr n, v)"
    and "rows = sort_key ej_created_at (filter (free_job S (saved c) (central_now c) n) (edge_jobs (saved c)))"
    and "case rows of [] \<Rightarrow> answer = None \<and> saved c' = saved c
      | j # js \<Rightarrow> (\<exists>d. answer = Some d \<and> command_seq_of (JObj d) = seconds (central_now c)) \<and>
      edge_jobs (saved c') = upd_where (\<lambda>k. ej_id k = ej_id j) (claimed_job (central_now c)) (edge_jobs (saved c))"
proof -
  let ?c = "c\<lparr>cdb := saved c\<rparr>"
  let ?hand_out = "\<lambda>n now j. thenE (change_job (ej_id j) (claimed_job now)) (thenE edge_commit
           (bindE (sign_command_envelope S (en_org n) (en_id n) ''job.claim'' (job_payload S (claimed_job now j)) None)
             (\<lambda>d. returnE (Some d))))"
  from assms [unfolded claim_edge_job_def] obtain u where
    run: "bindE (authenticate_edge S q None) (\<lambda>n.
       bindE (getsE central_now) (\<lambda>now.
       bindE (getsE (\<lambda>c. sort_key ej_created_at (filter (free_job S (saved c) now n) (edge_jobs (cdb c))))) (\<lambda>rows.
       case rows of [] \<Rightarrow> returnE None | j # uu \<Rightarrow> ?hand_out n now j))) ?c = (Inr answer, u)"
    and c': "c' = u\<lparr>cdb := saved u\<rparr>" by (rule session_Inr)
  from run obtain n v where a: "authenticate_edge S q None ?c = (Inr n, v)" and
    k: "(case sort_key ej_created_at (filter (free_job S (saved v) (central_now v) n) (edge_jobs (cdb v))) of [] \<Rightarrow> returnE None
       | j # uu \<Rightarrow> ?hand_out n (central_now v) j) v = (Inr answer, u)"
    by (elim bindE_Inr) auto
  from a obtain ts sq vr where v: "v = accepted_state n vr sq (str_or (h_nonce (er_proof q)) []) ?c"
    by (rule authenticate_Inr)
  have same: "central_now v = central_now c" "edge_jobs (cdb v) = edge_jobs (saved c)" "saved v = saved c"
    by (simp_all add: v accepted_state_def)
  show thesis
  proof (rule that [OF a refl], cases "sort_key ej_created_at (filter (free_job S (saved c) (central_now c) n) (edge_jobs (saved c)))")
    case Nil
    with k [unfolded same] have "u = v" "answer = None" by (auto simp: returnE_def)
    then show "case sort_key ej_created_at (filter (free_job S (saved c) (central_now c) n) (edge_jobs (saved c))) of
        [] \<Rightarrow> answer = None \<and> saved c' = saved c
      | j # js \<Rightarrow> (\<exists>d. answer = Some d \<and> command_seq_of (JObj d) = seconds (central_now c)) \<and>
      edge_jobs (saved c') = upd_where (\<lambda>k. ej_id k = ej_id j) (claimed_job (central_now c)) (edge_jobs (saved c))" using Nil same(3) by (simp add: c')
  next
    case rows: (Cons j js)
    from k [unfolded same rows list.case] obtain y d where ch: "change_job (ej_id j) (claimed_job (central_now c)) v = (Inr (), y)"
      and sg: "sign_command_envelope S (en_org n) (en_id n) ''job.claim'' (job_payload S (claimed_job (central_now c) j)) None
        (y\<lparr>saved := cdb y\<rparr>) = (Inr d, u)" and answer: "answer = Some d"
      by (elim thenE_Inr bindE_Inr) (auto simp: edge_commit_def)
    have y: "y = v\<lparr>cdb := (cdb v)\<lparr>edge_jobs := upd_where (\<lambda>k. ej_id k = ej_id j) (claimed_job (central_now c)) (edge_jobs (cdb v))\<rparr>\<rparr>"
      using ch by (simp add: change_job_def with_cdb_def modifyE_def)
    have "command_seq_of (JObj d) = seconds (central_now c)" using signed_seq [OF sg] by (simp add: y same)
    moreover have "saved u = cdb y" using guar_result [OF works_sign sg] by (simp add: works_def)
    ultimately show "case sort_key ej_created_at (filter (free_job S (saved c) (central_now c) n) (edge_jobs (saved c))) of
        [] \<Rightarrow> answer = None \<and> saved c' = saved c
      | j # js \<Rightarrow> (\<exists>d. answer = Some d \<and> command_seq_of (JObj d) = seconds (central_now c)) \<and>
      edge_jobs (saved c') = upd_where (\<lambda>k. ej_id k = ej_id j) (claimed_job (central_now c)) (edge_jobs (saved c))" by (simp add: rows answer c' y same)
  qed
qed

lemma claim_Inr:
  assumes "claim_edge_job S q c = (Inr (Some d), c')"
  shows "command_seq_of (JObj d) = seconds (central_now c)"
    and "\<exists>n j. j \<in> set (edge_jobs (saved c)) \<and> job_claimable (central_now c) n j \<and>
      edge_jobs (saved c') = upd_where (\<lambda>k. ej_id k = ej_id j) (claimed_job (central_now c)) (edge_jobs (saved c))"
proof -
  from assms show "command_seq_of (JObj d) = seconds (central_now c)"
    by (rule claim_cases) (auto split: list.splits)
  from assms show "\<exists>n j. j \<in> set (edge_jobs (saved c)) \<and> job_claimable (central_now c) n j \<and>
      edge_jobs (saved c') = upd_where (\<lambda>k. ej_id k = ej_id j) (claimed_job (central_now c)) (edge_jobs (saved c))"
  proof (rule claim_cases)
    fix n v and rows :: "edge_job list"
    assume rows: "rows = sort_key ej_created_at (filter (free_job S (saved c) (central_now c) n) (edge_jobs (saved c)))"
      and c: "case rows of [] \<Rightarrow> Some d = None \<and> saved c' = saved c
        | j # js \<Rightarrow> (\<exists>e. Some d = Some e \<and> command_seq_of (JObj e) = seconds (central_now c)) \<and>
        edge_jobs (saved c') = upd_where (\<lambda>k. ej_id k = ej_id j) (claimed_job (central_now c)) (edge_jobs (saved c))"
    from c obtain j js where r: "rows = j # js" by (cases rows) auto
    have "j \<in> set rows" by (simp add: r)
    then have "j \<in> set (edge_jobs (saved c)) \<and> job_claimable (central_now c) n j" by (simp add: rows free_job_def)
    then show ?thesis using c unfolding r by auto
  qed
qed

lemma claim_None:
  assumes "claim_edge_job S q c = (Inr None, c')"
  shows "saved c' = saved c"
  using assms by (rule claim_cases) (simp split: list.splits)

section \<open>Requests\<close>

text \<open>An identity the centre knows: its node row, with the key that belongs to the private key.\<close>

definition registered :: "crypto \<Rightarrow> identity \<Rightarrow> edge_node \<Rightarrow> bool" where
  "registered K i n \<longleftrightarrow>
     node_serves n \<and> en_id n = ei_node_id i \<and> en_version n = ei_version i \<and> 0 < ei_version i \<and>
     ei_issuer_key_id i \<noteq> [] \<and>
     (case load_key (ei_private_key i) of
        None \<Rightarrow> False
      | Some key \<Rightarrow> en_public_key n = Some (b64encode (public_of K key)))"

text \<open>A request signed now can be accepted: its number is next, its nonce new, the clocks agree.\<close>

definition request_in_order :: "central_env \<Rightarrow> central \<Rightarrow> identity \<Rightarrow> edge_store \<Rightarrow> edge_node \<Rightarrow> bool" where
  "request_in_order S c i s n \<longleftrightarrow>
     en_last_seq n \<le> ei_request_seq i \<and> 0 \<le> ei_request_seq i \<and> ei_request_seq i < 2147483647 \<and>
     (en_id n, en_version n, new_token (ce_crypto S) (drawn s)) \<notin> set (edge_nonces (saved c)) \<and>
     0 \<le> edge_now s \<and> edge_now s < 253402300800000000 \<and>
     \<bar>central_now c - 1000000 * seconds (edge_now s)\<bar> \<le> 1000000 * ce_clock_skew S"

lemma sign_headers_run:
  assumes "registered K i n" and "can_save K s" and "load_key (ei_private_key i) = Some key"
  obtains t where "sign_request_headers K i http_method path payload query s =
      (Inr (signed_headers (i\<lparr>ei_request_seq := ei_request_seq i + 1\<rparr>) (seconds (edge_now s)) (new_token K (drawn s))
          (bind_request_digest K (payload_bytes payload) query)
          (ed_sign K key (build_request_message (ei_node_id i) (ei_version i) http_method path
            (bind_request_digest K (payload_bytes payload) query) (seconds (edge_now s)) (new_token K (drawn s))
            (ei_request_seq i + 1))), i\<lparr>ei_request_seq := ei_request_seq i + 1\<rparr>), t)"
    and "save K (i\<lparr>ei_request_seq := ei_request_seq i + 1\<rparr>) (s\<lparr>drawn := Suc (drawn s)\<rparr>) = (Inr (), t)"
proof -
  have "can_save K (s\<lparr>drawn := Suc (drawn s)\<rparr>)" using assms(2) by (simp add: can_save_def)
  from save_works [OF this] obtain t where
    sv: "save K (i\<lparr>ei_request_seq := ei_request_seq i + 1\<rparr>) (s\<lparr>drawn := Suc (drawn s)\<rparr>) = (Inr (), t)" by blast
  show thesis
    by (rule that [OF _ sv])
       (use assms in \<open>simp add: sign_request_headers_def registered_def Let_def bindE_def thenE_def draw_def getsE_def
          returnE_def sv\<close>)
qed

lemma show_int_nonempty: "show_int i \<noteq> []"
  by (simp add: show_int_def show_digits_nonempty)

lemma signed_request_authenticates:
  assumes K: "sound_crypto (ce_crypto S)" and reg: "registered (ce_crypto S) i n" and order: "request_in_order S c i s n"
    and key: "load_key (ei_private_key i) = Some key" and n: "n \<in> set (edge_nodes (saved c))" and ok: "nodes_ok (saved c)"
    and dg: "bind_request_digest (ce_crypto S) body query = digest" and nid: "nid = None \<or> nid = Some (en_id n)"
    and q: "q = \<lparr>er_method = http_method, er_path = path, er_query = query, er_body = body,
      er_proof = signed_headers (i\<lparr>ei_request_seq := ei_request_seq i + 1\<rparr>) (seconds (edge_now s))
          (new_token (ce_crypto S) (drawn s)) digest
          (ed_sign (ce_crypto S) key (build_request_message (ei_node_id i) (ei_version i) http_method path digest
            (seconds (edge_now s)) (new_token (ce_crypto S) (drawn s)) (ei_request_seq i + 1))), er_generation = gen\<rparr>"
  shows "authenticate_edge S q nid (c\<lparr>cdb := saved c\<rparr>) =
    (Inr n, accepted_state n (ei_version i) (ei_request_seq i + 1) (new_token (ce_crypto S) (drawn s)) (c\<lparr>cdb := saved c\<rparr>))"
proof -
  let ?K = "ce_crypto S" and ?c = "c\<lparr>cdb := saved c\<rparr>"
  have len: "length key = 32" using key by (rule load_key_length)
  have sets: "str_set (Some (show_int x))" for x by (simp add: str_set_def str_or_def show_int_nonempty)
  have nonce: "str_or (Some (new_token ?K (drawn s))) [] = new_token ?K (drawn s)" by (simp add: str_or_def)
  have keys: "b64encode (public_of ?K key) \<in> set (resolve_node_public_keys (central_now ?c) n)"
    using reg key by (auto simp: resolve_node_public_keys_def registered_def node_serves_def str_or_def)
  have sig: "verify_node_signature S (b64encode (public_of ?K key)) m (b64encode (ed_sign ?K key m))" for m
    by (simp add: verify_node_signature_def load_central_encode [OF sound_public [OF K len]] valid_signature_encode
        sound_sign [OF K len])
  have h: "proof_holds S ?c n (er_method q) (er_path q) (bind_request_digest ?K (er_body q) (er_query q)) (er_proof q)
      (seconds (edge_now s)) (ei_request_seq i + 1) (ei_version i)"
    using reg order keys sig sound_token [OF K]
    by (auto simp: proof_holds_def q dg signed_headers_def header_int_def str_or_def parse_show registered_def
        node_serves_def request_in_order_def list_ex_iff str_set_def)
  have ts: "has_timestamp (seconds (edge_now s))"
    using order by (auto simp: has_timestamp_def request_in_order_def seconds_def)
  have "authenticate_edge S q nid ?c = (Inr n, accepted_state n (ei_version i) (ei_request_seq i + 1)
      (str_or (h_nonce (er_proof q)) []) ?c)"
  proof (rule authenticate_run [OF K _ _ _ nid _ _ h _ _ _ _ ts])
    show "n \<in> set (edge_nodes (cdb ?c))" "nodes_ok (cdb ?c)" using n ok by simp_all
    show "node_serves n" using reg by (simp add: registered_def)
    show "h_node_id (er_proof q) = Some (en_id n)" using reg by (simp add: q signed_headers_def registered_def)
    show "h_digest (er_proof q) = Some (bind_request_digest ?K (er_body q) (er_query q))"
      by (simp add: q signed_headers_def dg)
    show "str_set (h_timestamp (er_proof q))" "str_set (h_seq (er_proof q))" "str_set (h_version (er_proof q))"
      by (simp_all add: q signed_headers_def sets)
    show "str_set (h_signature (er_proof q))"
      using b64_nonempty sound_signature [OF K] by (simp add: q signed_headers_def str_set_def str_or_def)
    show "- 2147483648 \<le> ei_request_seq i + 1" "ei_request_seq i + 1 \<le> 2147483647"
      using order by (simp_all add: request_in_order_def)
    show "py_len (str_or (h_nonce (er_proof q)) []) \<le> 128"
      using sound_token_len [OF K] by (simp add: q signed_headers_def str_or_def)
  qed
  then show ?thesis by (simp add: q signed_headers_def str_or_def)
qed

section \<open>What is lost\<close>

text \<open>The centre has handed out a job: some job its node could claim is now leased.\<close>

definition job_leased :: "central \<Rightarrow> central \<Rightarrow> bool" where
  "job_leased c c' \<longleftrightarrow> (\<exists>n j. j \<in> set (edge_jobs (saved c)) \<and> job_claimable (central_now c) n j \<and>
     edge_jobs (saved c') = upd_where (\<lambda>k. ej_id k = ej_id j) (claimed_job (central_now c)) (edge_jobs (saved c)))"

text \<open>Programs that neither draw randomness nor depend on how much was drawn.\<close>

definition undrawn :: "'a centre \<Rightarrow> bool" where
  "undrawn m \<longleftrightarrow> (\<forall>c k. m (c\<lparr>central_drawn := k\<rparr>) = apsnd (\<lambda>c'. c'\<lparr>central_drawn := k\<rparr>) (m c))"

lemma undrawn_bind: "undrawn m \<Longrightarrow> (\<And>a. undrawn (f a)) \<Longrightarrow> undrawn (bindE m f)"
  by (auto simp: undrawn_def bindE_def split: prod.split sum.split)

lemma undrawn_then: "undrawn m \<Longrightarrow> undrawn n \<Longrightarrow> undrawn (thenE m n)"
  by (simp add: thenE_def undrawn_bind)

lemma undrawn_pure: "undrawn (returnE a)" "undrawn (raiseE e)" "undrawn (liftE r)"
  by (simp_all add: undrawn_def returnE_def raiseE_def liftE_def)

lemma undrawn_assert: "undrawn (assertE b e)"
  by (simp add: assertE_def undrawn_pure)

lemma undrawn_the_or: "undrawn (the_or e x)"
  by (cases x) (simp_all add: the_or_def undrawn_pure)

lemma undrawn_gets: "(\<And>c k. f (c\<lparr>central_drawn := k\<rparr>) = f c) \<Longrightarrow> undrawn (getsE f)"
  by (simp add: undrawn_def getsE_def)

lemma undrawn_with_cdb: "undrawn (with_cdb f)"
  by (simp add: undrawn_def with_cdb_def modifyE_def)

lemma undrawn_if: "undrawn m \<Longrightarrow> undrawn n \<Longrightarrow> undrawn (if b then m else n)"
  by simp

lemma undrawn_nonce: "undrawn (consume_nonce nid version nonce)"
  unfolding consume_nonce_def by (intro undrawn_bind undrawn_then undrawn_assert undrawn_with_cdb undrawn_gets) simp

lemma undrawn_seq: "undrawn (advance_seq nid version seq)"
  unfolding advance_seq_def by (intro undrawn_bind undrawn_then undrawn_assert undrawn_with_cdb undrawn_gets) simp

lemma undrawn_proof: "undrawn (verify_request_proof S n http_method path digest h)"
  unfolding verify_request_proof_def Let_def
  by (intro undrawn_bind undrawn_then undrawn_assert undrawn_pure undrawn_nonce undrawn_seq undrawn_gets) simp

lemma undrawn_get_for_proof: "undrawn (get_node_for_proof nid)"
  unfolding get_node_for_proof_def find_node_def
  by (intro undrawn_bind undrawn_then undrawn_assert undrawn_pure undrawn_the_or undrawn_gets) simp

lemma undrawn_digest: "undrawn (digest_matches a b)"
  unfolding digest_matches_def by (intro undrawn_if undrawn_pure undrawn_assert)

lemma undrawn_authenticate: "undrawn (authenticate_edge S q nid)"
  unfolding authenticate_edge_def Let_def
  by (intro undrawn_bind undrawn_then undrawn_assert undrawn_pure undrawn_get_for_proof undrawn_digest undrawn_proof)

lemma undrawn_job: "undrawn (job_of_node n jid)"
  unfolding job_of_node_def find_job_def by (intro undrawn_bind undrawn_the_or undrawn_gets) simp

lemma undrawn_bundle: "undrawn (issuer_bundle_of S)"
  unfolding issuer_bundle_of_def
  by (intro undrawn_bind undrawn_then undrawn_assert undrawn_pure undrawn_if)

text \<open>A command that was signed once can be signed again.\<close>

lemma sign_again:
  assumes "sign_command_envelope S org_id nid purpose payload seq c = (Inr d, c')"
  shows "\<exists>d' k. sign_command_envelope S org_id nid purpose payload seq (c\<lparr>central_drawn := j\<rparr>) =
    (Inr d', c\<lparr>central_drawn := k\<rparr>)"
proof -
  let ?j = "c\<lparr>central_drawn := j\<rparr>"
  from assms obtain b u key where p: "purpose \<in> set COMMAND_PURPOSES" and b: "issuer_bundle_of S c = (Inr b, u)"
    and key: "load_central_key (pem_private (ce_crypto S)) (ce_issuer_private_key S) = Some key"
    unfolding sign_command_envelope_def
    by (elim thenE_Inr bindE_Inr [where m = "issuer_bundle_of S"] bindE_Inr [where m = "the_or e x" for e x]) simp
  from bundle_Inr [OF b] have u: "u = c" by simp
  have "issuer_bundle_of S ?j = (Inr b, ?j)"
    using undrawn_bundle [of S] b u by (simp add: undrawn_def)
  then show ?thesis
    using p key
    by (simp add: sign_command_envelope_def thenE_def bindE_def assertE_def the_or_def returnE_def getsE_def central_draw_def
        Let_def) blast
qed

lemma check_delivery_Inr [simp]:
  "check_delivery j gen c = (Inr x, c') \<longleftrightarrow> gen = Some (ej_delivery j) \<and> c' = c"
  by (cases gen) (auto simp: check_delivery_def bindE_def the_or_def assertE_def returnE_def raiseE_def)

text \<open>What a request that posts events goes through.\<close>

lemma post_Inr:
  assumes "post_edge_job_events S q jid es gen c = (Inr x, c')"
  obtains n v j where "authenticate_edge S q None (c\<lparr>cdb := saved c\<rparr>) = (Inr n, v)" and "saved v = saved c"
    and "edge_jobs (cdb v) = edge_jobs (saved c)"
    and "find (\<lambda>j. \<not> ej_deleted j \<and> ej_id j = jid \<and> ej_node j = en_id n \<and> ej_org j = en_org n) (edge_jobs (saved c)) = Some j"
    and "requested_generation (er_generation q) gen = Some (ej_delivery j)"
    and "edge_jobs (saved c') = upd_where (\<lambda>j. ej_id j = jid) (job_after (central_now c) es) (edge_jobs (saved c))"
proof -
  let ?c = "c\<lparr>cdb := saved c\<rparr>"
  from assms [unfolded post_edge_job_events_def] obtain u where
    run: "bindE (authenticate_edge S q None) (\<lambda>n.
       bindE (job_of_node n jid) (\<lambda>j.
       thenE (check_delivery j (requested_generation (er_generation q) gen))
      (thenE (assertE (list_all (\<lambda>e. length (dumps_default (event_payload e)) \<le> 65536) es)
                (BadRequest ''connector.payload_too_large''))
      (bindE (getsE central_now) (\<lambda>now.
       thenE (change_job jid (job_after now es))
      (thenE (relay_events S (en_org n) (ej_run j) es) edge_commit)))))) ?c = (Inr x, u)"
    and c': "c' = u\<lparr>cdb := saved u\<rparr>" by (rule session_Inr)
  from run obtain n v j w y z where a: "authenticate_edge S q None ?c = (Inr n, v)"
    and j: "job_of_node n jid v = (Inr j, w)"
    and g: "requested_generation (er_generation q) gen = Some (ej_delivery j)"
    and ch: "change_job jid (job_after (central_now w) es) w = (Inr (), y)"
    and r: "relay_events S (en_org n) (ej_run j) es y = (Inr (), z)" and cm: "edge_commit z = (Inr x, u)"
    by (elim thenE_Inr bindE_Inr) clarsimp
  from a obtain ts sq vr where v: "v = accepted_state n vr sq (str_or (h_nonce (er_proof q)) []) ?c" by (rule authenticate_Inr)
  from j have w: "w = v" and f: "find (\<lambda>j. \<not> ej_deleted j \<and> ej_id j = jid \<and> ej_node j = en_id n \<and> ej_org j = en_org n)
      (edge_jobs (saved c)) = Some j"
    by (auto simp: job_of_node_def find_job_def v accepted_state_def elim!: bindE_Inr)
  have y: "y = v\<lparr>cdb := (cdb v)\<lparr>edge_jobs := upd_where (\<lambda>j. ej_id j = jid) (job_after (central_now v) es) (edge_jobs (cdb v))\<rparr>\<rparr>"
    using ch by (simp add: change_job_def with_cdb_def modifyE_def w)
  have z: "cdb z = cdb y"
    using r by (auto simp: relay_events_def Let_def returnE_def modifyE_def elim!: bindE_Inr thenE_Inr split: if_splits)
  show thesis
  proof (rule that [OF a _ _ f])
    show "saved v = saved c" "edge_jobs (cdb v) = edge_jobs (saved c)" by (simp_all add: v accepted_state_def)
    show "requested_generation (er_generation q) gen = Some (ej_delivery j)"
      by (rule g)
    show "edge_jobs (saved c') = upd_where (\<lambda>j. ej_id j = jid) (job_after (central_now c) es) (edge_jobs (saved c))"
      using cm by (auto simp: edge_commit_def modifyE_def c' z y v accepted_state_def)
  qed
qed

lemma cancelled_events_change_nothing:
  "list_all (\<lambda>e. str_at e ''event_type'' = ''run.cancelled'') es \<Longrightarrow> apply_job_events es (j, r) = (j, r)"
  by (induction es) simp_all

end
