(* ===== verification/Edge_Witness.thy ===== *)
theory Edge_Witness
  imports Edge_Exchange
begin

text \<open>
  A small exchange to evaluate the properties of the edge protocol on: a node with its stored identity, a
  centre that knows it and has a job for it, and a crypto record for which \<open>sound_crypto\<close> holds.
\<close>

section \<open>The crypto record\<close>

definition wit_key :: string where
  "wit_key = replicate 32 (CHR ''k'')"

definition wit_identity :: "int \<Rightarrow> int \<Rightarrow> identity" where
  "wit_identity request_seq command_seq =
     \<lparr>ei_node_id = ''n'', ei_org_id = ''o'', ei_version = 1, ei_private_key = b64encode wit_key,
      ei_public_key = b64encode wit_key, ei_issuer_key_id = ''i'', ei_issuer_public_key = b64encode wit_key,
      ei_previous_issuer_key_id = JNull, ei_previous_issuer_public_key = JNull,
      ei_issuer_rotation_expires_at = JNull, ei_bootstrap = JNull, ei_request_seq = request_seq,
      ei_consumed_commands = [], ei_consumed_nonces = [], ei_last_command_seq = command_seq\<rparr>"

definition wit_crypto :: crypto where
  "wit_crypto =
     \<lparr>digest_hex = (\<lambda>_. ''d''), loads = (\<lambda>_. None), public_of = (\<lambda>k. k), ed_sign = (\<lambda>k m. ''s''),
      ed_verify = (\<lambda>k s m. s = ''s''), pem_private = (\<lambda>_. None), pem_public = (\<lambda>_. None),
      new_key = (\<lambda>_. wit_key), new_token = (\<lambda>n. if even n then ''t'' else ''u''),
      new_wrap_key = (\<lambda>_. ''w''), is_wrap_key = (\<lambda>_. True), seal = (\<lambda>_ _ _. ''b''),
      unseal = (\<lambda>_ _. Some (JObj (secrets_to_json (wit_identity 0 0)))), iso_text = show_int,
      iso_parse = (\<lambda>s. map_option (\<lambda>t. (t, True)) (parse_int s)), iso_again = (\<lambda>s. s)\<rparr>"

lemma wit_key_length [simp]: "length wit_key = 32"
  by (simp add: wit_key_def)

lemma show_int_no_Z: "CHR ''Z'' \<notin> set (show_int t)"
proof
  assume "CHR ''Z'' \<in> set (show_int t)"
  then obtain n where "CHR ''Z'' \<in> set (show_digits n)" by (auto simp: show_int_def split: if_splits)
  then show False using digits_are by fastforce
qed

lemma wit_token_len: "py_len (if b then ''t'' else ''u'') \<le> 128"
  by (simp add: py_len_def)

lemma sound_wit: "sound_crypto wit_crypto"
  by (simp add: sound_crypto_def wit_crypto_def wit_token_len show_int_nonempty show_int_no_Z parse_show strip_def lstrip_def
      rstrip_of_def is_ascii_def is_space_def)

section \<open>The centre\<close>

definition wit_env :: "(nat \<Rightarrow> ext_call \<Rightarrow> bool) \<Rightarrow> central_env" where
  "wit_env rl =
     \<lparr>ce_crypto = wit_crypto, ce_uuid = (\<lambda>_. ''x''), ce_relay = rl, ce_job_locked = (\<lambda>_ _ _. False), ce_issuer_key_id = ''i'',
      ce_issuer_private_key = b64encode wit_key, ce_previous_key_id = [], ce_previous_private_key = [],
      ce_rotation_expires_at = [], ce_clock_skew = 300, ce_bootstrap_ttl = 3600, ce_rotation_window = 3600,
      ce_command_ttl = 120, ce_agent_enabled = True, ce_agent_url = ''u'', ce_agent_token = ''t'',
      ce_agent_token_previous = []\<rparr>"

definition wit_node :: "int option \<Rightarrow> edge_node" where
  "wit_node rotation =
     \<lparr>en_id = ''n'', en_org = ''o'', en_name = ''n'', en_status = ''online'', en_token_hash = [],
      en_bootstrap_expires_at = None, en_bootstrap_consumed_at = Some 1, en_version = 1,
      en_public_key = Some (b64encode wit_key), en_previous_public_key = None, en_rotation_expires_at = rotation,
      en_revoked_at = None, en_last_seq = 0, en_heartbeat_at = None, en_meta = [], en_deleted = False\<rparr>"

definition wit_job :: edge_job where
  "wit_job =
     \<lparr>ej_id = ''j'', ej_org = ''o'', ej_node = ''n'', ej_run = ''r'', ej_attempt = None, ej_step = None,
      ej_run_generation = 1, ej_trace = None, ej_key = None, ej_tool = ''t'', ej_status = ''claimed'',
      ej_arguments = [], ej_snapshot = [], ej_result = JNull, ej_claimed_at = Some 0, ej_lease_until = Some 1,
      ej_delivery = 1, ej_cancel_at = Some 2, ej_completed_at = None, ej_created_at = 0, ej_deleted = False\<rparr>"

definition wit_central :: "int option \<Rightarrow> central" where
  "wit_central rotation =
     (let d = \<lparr>edge_nodes = [wit_node rotation], edge_nonces = [], edge_jobs = [wit_job], on_demands = [], audit_rows = []\<rparr> in
      \<lparr>cdb = d, saved = d, central_now = 5000000, central_drawn = 0, relayed = []\<rparr>)"

lemma wit_node_id: "en_id (wit_node rot) = ''n''"
  by (simp add: wit_node_def)

text \<open>The store of the node, with an identity that has signed requests and taken commands.\<close>

definition wit_store :: "int \<Rightarrow> int \<Rightarrow> nat \<Rightarrow> edge_store" where
  "wit_store request_seq command_seq n =
     \<lparr>identity_file = Some (Inr (JObj (saved_dict (wit_identity request_seq command_seq) ''b''))),
      wrap_key_file = Some ''w'', edge_now = 5000000, drawn = n\<rparr>"

lemma wit_private [simp]: "b64encode wit_key \<noteq> []"
  by (rule b64_nonempty) (simp add: wit_key_def)

lemma wit_load: "load wit_crypto (wit_store r q n) = (Inr (Some (wit_identity r q)), wit_store r q n)"
proof -
  have "secrets_to_json (wit_identity r q) = secrets_to_json (wit_identity 0 0)"
    by (simp add: secrets_to_json_def wit_identity_def)
  then have "load wit_crypto (wit_store r q n) = (Inr (Some (bootstrap_or_none (wit_identity r q))), wit_store r q n)"
    by (intro load_saved [where blob = "''b''" and raw = "''w''"]) (simp_all add: wit_store_def wit_crypto_def wit_identity_def)
  moreover have "bootstrap_or_none (wit_identity r q) = wit_identity r q"
    by (simp add: bootstrap_or_none_def wit_identity_def)
  ultimately show ?thesis by simp
qed

lemma wit_issuer_key: "load_central_key (pem_private wit_crypto) (b64encode wit_key) = Some wit_key"
  by (rule load_central_encode) simp

lemma wit_issuer: "\<exists>b. issuer_bundle_of (wit_env rl) c = (Inr b, c)"
  by (simp add: issuer_bundle_of_def public_text_def wit_env_def wit_issuer_key bindE_def thenE_def assertE_def returnE_def
      liftE_def)

lemma wit_signs:
  assumes "purpose \<in> set COMMAND_PURPOSES"
  shows "\<exists>w c'. sign_command_envelope (wit_env rl) org_id nid purpose payload None c = (Inr w, c')"
proof -
  obtain b where "issuer_bundle_of (wit_env rl) c = (Inr b, c)" using wit_issuer ..
  then show ?thesis
    by (simp add: sign_command_envelope_def bindE_def thenE_def assertE_def returnE_def getsE_def central_draw_def
        the_or_def assms Let_def) (simp add: wit_env_def wit_issuer_key returnE_def bindE_def)
qed

section \<open>Requests of the node\<close>

text \<open>The request the node signs after \<open>r\<close> others, its \<open>n\<close>-th nonce with it.\<close>

definition wit_request :: "string \<Rightarrow> string \<Rightarrow> string \<Rightarrow> string option \<Rightarrow> int \<Rightarrow> nat \<Rightarrow> edge_request" where
  "wit_request http_method path body gen r n =
     \<lparr>er_method = http_method, er_path = path, er_query = [], er_body = body,
      er_proof = signed_headers (wit_identity (r + 1) 0) 5 (new_token wit_crypto n) ''d'' ''s'', er_generation = gen\<rparr>"

lemma wit_bound: "bind_request_digest wit_crypto body [] = ''d''"
  by (simp add: bind_request_digest_def body_digest_def canonical_query_def canonical_payload_sha256_def wit_crypto_def)

lemma wit_registered: "registered wit_crypto (wit_identity r q) (wit_node rot\<lparr>en_last_seq := k\<rparr>)"
proof -
  have "load_key (b64encode wit_key) = Some wit_key" by (rule load_key_encode) simp
  then show ?thesis
    by (simp add: registered_def wit_identity_def wit_node_def node_serves_def str_set_def str_or_def) (simp add: wit_crypto_def)
qed

lemma wit_authenticates:
  assumes "edge_nodes (saved c) = [wit_node rot\<lparr>en_last_seq := k\<rparr>]" and "k \<le> r" and "0 \<le> r" and "r < 1000"
    and "(''n'', 1, new_token wit_crypto n) \<notin> set (edge_nonces (saved c))" and "central_now c = 5000000"
    and "nid = None \<or> nid = Some ''n''"
  shows "authenticate_edge (wit_env rl) (wit_request http_method path body gen r n) nid (c\<lparr>cdb := saved c\<rparr>) =
    (Inr (wit_node rot\<lparr>en_last_seq := k\<rparr>),
     accepted_state (wit_node rot\<lparr>en_last_seq := k\<rparr>) 1 (r + 1) (new_token wit_crypto n) (c\<lparr>cdb := saved c\<rparr>))"
proof -
  let ?n = "wit_node rot\<lparr>en_last_seq := k\<rparr>" and ?i = "wit_identity r 0" and ?s = "wit_store r 0 n"
  have K: "ce_crypto (wit_env rl) = wit_crypto" by (simp add: wit_env_def)
  have ok: "nodes_ok (saved c)" by (simp add: nodes_ok_def node_ok_def assms(1) wit_node_def)
  have order: "request_in_order (wit_env rl) c ?i ?s ?n"
    unfolding request_in_order_def K
    using assms by (simp add: wit_identity_def wit_store_def wit_node_def wit_env_def seconds_def)
  have key: "load_key (ei_private_key ?i) = Some wit_key" by (simp add: wit_identity_def load_key_encode)
  have q: "wit_request http_method path body gen r n =
     \<lparr>er_method = http_method, er_path = path, er_query = [], er_body = body,
      er_proof = signed_headers (?i\<lparr>ei_request_seq := ei_request_seq ?i + 1\<rparr>) (seconds (edge_now ?s))
          (new_token (ce_crypto (wit_env rl)) (drawn ?s)) ''d''
          (ed_sign (ce_crypto (wit_env rl)) wit_key (build_request_message (ei_node_id ?i) (ei_version ?i) http_method path ''d''
            (seconds (edge_now ?s)) (new_token (ce_crypto (wit_env rl)) (drawn ?s)) (ei_request_seq ?i + 1))), er_generation = gen\<rparr>"
    by (simp add: wit_request_def K wit_store_def seconds_def) (simp add: wit_identity_def wit_crypto_def)
  have "authenticate_edge (wit_env rl) (wit_request http_method path body gen r n) nid (c\<lparr>cdb := saved c\<rparr>) =
    (Inr ?n, accepted_state ?n (ei_version ?i) (ei_request_seq ?i + 1) (new_token (ce_crypto (wit_env rl)) (drawn ?s))
       (c\<lparr>cdb := saved c\<rparr>))"
    by (rule signed_request_authenticates [OF _ _ order key _ ok _ _ q])
       (use assms(7) in \<open>simp_all add: K sound_wit wit_registered assms(1) wit_bound wit_node_id\<close>)
  then show ?thesis by (simp add: K) (simp add: wit_identity_def wit_store_def)
qed

text \<open>A command the node takes.\<close>

lemma wit_trusts: "trusts_issuer (wit_env rl) wit_crypto now (wit_identity r q)"
  by (simp add: trusts_issuer_def issuer_keys_def wit_identity_def wit_env_def wit_issuer_key) (simp add: wit_crypto_def)

lemma wit_ready: "q < 5 \<Longrightarrow> ready_for (wit_env rl) (wit_central rot) wit_crypto (wit_identity r q) (wit_store r q n)"
  by (simp add: ready_for_def wit_central_def wit_identity_def wit_store_def wit_env_def Let_def seconds_def can_save_def)
     (simp add: wit_crypto_def)

lemma wit_command:
  "\<exists>w p t. take_command wit_crypto w (Some ''node.heartbeat'') (wit_store 0 0 0) = (Inr (Some p), t)"
proof -
  have "''node.heartbeat'' \<in> set COMMAND_PURPOSES" by (simp add: COMMAND_PURPOSES_def)
  from wit_signs [OF this] obtain w c' where
    w: "sign_command_envelope (wit_env rl) (ei_org_id (wit_identity 0 0)) (ei_node_id (wit_identity 0 0)) ''node.heartbeat'' []
      None (wit_central None) = (Inr w, c')" by blast
  have env: "ce_crypto (wit_env rl) = wit_crypto" by (simp add: wit_env_def)
  have "ready_for (wit_env rl) (wit_central None) wit_crypto (wit_identity 0 0) (wit_store 0 0 0)" by (rule wit_ready) simp
  from signed_unwraps [OF env sound_wit w wit_trusts this] obtain j t where
    "unwrap_or_none wit_crypto (wit_identity 0 0) (JObj w) (Some ''node.heartbeat'') (wit_store 0 0 0) =
      (Inr (Some (JObj []), j), t)" by blast
  then have "take_command wit_crypto (JObj w) (Some ''node.heartbeat'') (wit_store 0 0 0) = (Inr (Some (JObj [])), t)"
    by (simp add: take_command_def bindE_def wit_load returnE_def)
  then show ?thesis by blast
qed

section \<open>Calls\<close>

lemma wit_session: "(wit_central rot)\<lparr>cdb := saved (wit_central rot)\<rparr> = wit_central rot"
  by (simp add: wit_central_def Let_def)

lemma wit_first_request:
  assumes "nid = None \<or> nid = Some ''n''"
  shows "authenticate_edge (wit_env rl) (wit_request http_method path body gen 0 0) nid (wit_central rot) =
    (Inr (wit_node rot), accepted_state (wit_node rot) 1 1 ''t'' (wit_central rot))"
proof -
  have "wit_node rot = wit_node rot\<lparr>en_last_seq := 0\<rparr>" by (simp add: wit_node_def)
  moreover have "new_token wit_crypto 0 = ''t''" by (simp add: wit_crypto_def)
  ultimately show ?thesis
    using wit_authenticates [where c = "wit_central rot" and rot = rot and k = 0 and r = 0 and n = 0 and nid = nid] assms
    by (simp add: wit_session) (simp add: wit_central_def Let_def)
qed

text \<open>A program that ends in a result and a state of which \<open>P\<close> holds.\<close>

definition ends_in :: "('s, 'a) prog \<Rightarrow> ('a \<Rightarrow> 's \<Rightarrow> bool) \<Rightarrow> 's \<Rightarrow> bool" where
  "ends_in m P s \<longleftrightarrow> (\<exists>a t. m s = (Inr a, t) \<and> P a t)"

abbreviation returns :: "('s, 'a) prog \<Rightarrow> 's \<Rightarrow> bool" where
  "returns m s \<equiv> ends_in m (\<lambda>a t. True) s"

lemma ends_in_bind: "m s = (Inr a, t) \<Longrightarrow> ends_in (f a) P t \<Longrightarrow> ends_in (bindE m f) P s"
  by (auto simp: ends_in_def bindE_def)

lemma ends_in_then: "m s = (Inr a, t) \<Longrightarrow> ends_in n P t \<Longrightarrow> ends_in (thenE m n) P s"
  by (auto simp: ends_in_def thenE_def bindE_def)

lemma returns_last: "returns m s \<Longrightarrow> returns (bindE m (\<lambda>a. returnE (f a))) s"
  by (auto simp: ends_in_def bindE_def returnE_def)

lemma ends_in_session: "ends_in m (\<lambda>a t. P a (t\<lparr>cdb := saved t\<rparr>)) (c\<lparr>cdb := saved c\<rparr>) \<Longrightarrow> ends_in (edge_session m) P c"
  by (auto simp: ends_in_def edge_session_def)

lemma returns_answered: "returns m c \<Longrightarrow> \<exists>c'. answered m c = (Inr True, c')"
  by (auto simp: ends_in_def answered_def bindE_def returnE_def)

lemmas ends_in_defs = ends_in_def thenE_def bindE_def assertE_def modifyE_def getsE_def the_or_def returnE_def raiseE_def

lemma ends_in_returnE [simp]: "ends_in (returnE a) P s \<longleftrightarrow> P a s"
  by (simp add: ends_in_defs)

lemma ends_in_assert [simp]: "ends_in (thenE (assertE b e) n) P s \<longleftrightarrow> b \<and> ends_in n P s"
  by (simp add: ends_in_defs)

lemma ends_in_modify_then [simp]: "ends_in (thenE (modifyE g) n) P s \<longleftrightarrow> ends_in n P (g s)"
  by (simp add: ends_in_defs)

lemma ends_in_modify [simp]: "ends_in (modifyE g) P s \<longleftrightarrow> P () (g s)"
  by (simp add: ends_in_defs)

lemma ends_in_gets [simp]: "ends_in (bindE (getsE h) f) P s \<longleftrightarrow> ends_in (f (h s)) P s"
  by (simp add: ends_in_defs)

lemma ends_in_the [simp]: "ends_in (bindE (the_or e (Some x)) f) P s \<longleftrightarrow> ends_in (f x) P s"
  by (simp add: ends_in_defs)

lemma ends_in_assoc [simp]:
  "ends_in (thenE (bindE m f) n) P s \<longleftrightarrow> ends_in (bindE m (\<lambda>a. thenE (f a) n)) P s"
  by (auto simp: ends_in_def thenE_def bindE_def split: prod.splits sum.splits)

lemma ends_in_assoc_then [simp]: "ends_in (thenE (thenE l m) n) P s \<longleftrightarrow> ends_in (thenE l (thenE m n)) P s"
  by (auto simp: ends_in_def thenE_def bindE_def split: prod.splits sum.splits)

lemma returns_sign: "purpose \<in> set COMMAND_PURPOSES \<Longrightarrow> returns (sign_command_envelope (wit_env rl) org_id nid purpose payload None) c"
  using wit_signs unfolding ends_in_def by blast

lemma returns_issuer: "(\<And>b. returns (f b) c) \<Longrightarrow> returns (bindE (issuer_bundle_of (wit_env rl)) f) c"
  using wit_issuer [of rl c] by (auto intro: ends_in_bind)

lemma wit_heartbeat:
  "\<exists>c1. centre_step (wit_env rl) (Heartbeat (wit_request ''POST'' ''h'' [] None 0 0) ''n'' None) (wit_central rot) = (Inr True, c1)"
proof -
  have "returns (edge_heartbeat (wit_env rl) (wit_request ''POST'' ''h'' [] None 0 0) ''n'' None) (wit_central rot)"
    unfolding edge_heartbeat_def
    by (rule ends_in_session, unfold wit_session, rule ends_in_bind, rule wit_first_request)
      (simp_all add: wit_node_id change_node_def with_cdb_def edge_commit_def returns_sign COMMAND_PURPOSES_def)
  then show ?thesis by (simp add: returns_answered)
qed

lemma wit_rotate:
  "\<exists>c1. centre_step (wit_env rl) (Rotate (wit_request ''POST'' ''h'' [] None 0 0) ''k'') (wit_central (Some 6000000)) = (Inr True, c1)"
proof -
  let ?c = "accepted_state (wit_node (Some 6000000)) 1 1 ''t'' (wit_central (Some 6000000))"
  have g: "get_node (en_org (wit_node (Some 6000000))) (en_id (wit_node (Some 6000000))) ?c =
      (Inr (wit_node (Some 6000000)\<lparr>en_last_seq := 1\<rparr>), ?c)"
    by (simp add: get_node_def find_node_def the_or_def accepted_state_def advanced_def upd_where_def wit_central_def
        wit_node_def Let_def bindE_def getsE_def returnE_def)
  have rot: "returns (complete_rotation (wit_env rl) (en_org (wit_node (Some 6000000))) (en_id (wit_node (Some 6000000))) ''k'') ?c"
    unfolding complete_rotation_def
    by (rule ends_in_bind, rule g)
      (simp add: wit_node_def change_node_def with_cdb_def central_audit_def accepted_state_def wit_central_def Let_def returns_issuer)
  have "returns (rotate_edge_identity (wit_env rl) (wit_request ''POST'' ''h'' [] None 0 0) ''k'') (wit_central (Some 6000000))"
    unfolding rotate_edge_identity_def edge_commit_def
    by (rule ends_in_session, unfold wit_session, rule ends_in_bind, rule wit_first_request)
      (use rot in \<open>auto simp: ends_in_def bindE_def thenE_def modifyE_def returnE_def\<close>)
  then show ?thesis by (simp add: returns_answered)
qed

section \<open>A job, its events and its claim\<close>

lemma wit_job_found:
  "job_of_node (wit_node rot) ''j'' (accepted_state (wit_node rot) 1 1 ''t'' (wit_central rot)) =
    (Inr wit_job, accepted_state (wit_node rot) 1 1 ''t'' (wit_central rot))"
  by (simp add: job_of_node_def find_job_def the_or_def bindE_def getsE_def returnE_def accepted_state_def wit_central_def
      Let_def) (simp add: wit_node_def wit_job_def)

lemma wit_cancel_check:
  "\<exists>d c1. check_edge_job_cancel (wit_env rl) (wit_request ''GET'' ''c'' [] None 0 0) ''j'' (wit_central rot) = (Inr d, c1)"
proof -
  have "returns (check_edge_job_cancel (wit_env rl) (wit_request ''GET'' ''c'' [] None 0 0) ''j'') (wit_central rot)"
    unfolding check_edge_job_cancel_def
    by (rule ends_in_session, unfold wit_session, rule ends_in_bind, rule wit_first_request, simp, rule ends_in_bind,
        rule wit_job_found) (simp add: returns_sign COMMAND_PURPOSES_def)
  then show ?thesis by (simp add: ends_in_def)
qed

definition wit_cancelled :: "dict list" where
  "wit_cancelled = [[(''event_type'', JStr ''run.cancelled'')]]"

lemma wit_post:
  "\<exists>c1. post_edge_job_events (wit_env (\<lambda>_ _. True)) (wit_request ''POST'' ''e'' [] None 0 0) ''j'' wit_cancelled (Some 1) (wit_central rot) =
    (Inr (), c1) \<and> central_now c1 = 5000000 \<and> edge_nodes (saved c1) = [wit_node rot\<lparr>en_last_seq := 1\<rparr>] \<and>
    edge_nonces (saved c1) = [(''n'', 1, ''t'')]"
proof -
  let ?a = "accepted_state (wit_node rot) 1 1 ''t'' (wit_central rot)"
  have g: "check_delivery wit_job (Some 1) ?a = (Inr (), ?a)"
    by (simp add: check_delivery_def bindE_def the_or_def returnE_def assertE_def wit_job_def)
  have req: "requested_generation (er_generation (wit_request ''POST'' ''e'' [] None 0 0)) (Some 1) = Some 1"
    by (simp add: requested_generation_def wit_request_def str_set_def str_or_def)
  have agent: "ce_agent_enabled (wit_env (\<lambda>_ _. True))" "ce_agent_url (wit_env (\<lambda>_ _. True)) \<noteq> []" "ce_relay (wit_env (\<lambda>_ _. True)) n x" for n x
    by (simp_all add: wit_env_def)
  have "ends_in (post_edge_job_events (wit_env (\<lambda>_ _. True)) (wit_request ''POST'' ''e'' [] None 0 0) ''j'' wit_cancelled (Some 1))
    (\<lambda>a t. central_now t = 5000000 \<and> edge_nodes (saved t) = [wit_node rot\<lparr>en_last_seq := 1\<rparr>] \<and>
       edge_nonces (saved t) = [(''n'', 1, ''t'')]) (wit_central rot)"
    unfolding post_edge_job_events_def
    by (rule ends_in_session, unfold wit_session, rule ends_in_bind, rule wit_first_request, simp, rule ends_in_bind,
        rule wit_job_found, unfold req, rule ends_in_then, rule g)
      (simp add: event_payload_def or_else_def change_job_def with_cdb_def relay_events_def wit_cancelled_def Let_def
        agent edge_commit_def, simp add: accepted_state_def advanced_def upd_where_def wit_central_def wit_node_def Let_def)
  then show ?thesis by (simp add: ends_in_def)
qed

section \<open>The node and the centre together\<close>

definition wit_config :: "(nat \<Rightarrow> delivery) \<Rightarrow> (nat \<Rightarrow> ext_call \<Rightarrow> bool) \<Rightarrow> edge_config" where
  "wit_config wire relay =
     \<lparr>ec_crypto = wit_crypto, ec_central = wit_env relay, ec_delivery = wire, ec_uuid_hex = (\<lambda>_. ''x''),
      ec_node_id = ''n'', ec_token = []\<rparr>"

definition wit_world :: "int \<Rightarrow> edge_world" where
  "wit_world command_seq =
     \<lparr>node = wit_store 0 command_seq 0, centre_state = wit_central None, sent = 0, spool = []\<rparr>"

lemma wit_fields [simp]:
  "ec_crypto (wit_config wire relay) = wit_crypto" "ec_central (wit_config wire relay) = wit_env relay"
  "ec_delivery (wit_config wire relay) = wire" "sent (wit_world q) = 0" "centre_state (wit_world q) = wit_central None"
  "node (wit_world q) = wit_store 0 q 0" "spool (wit_world q) = []"
  by (simp_all add: wit_config_def wit_world_def)

lemma wit_signed_request:
  "signed_request (wit_config f g) http_method path body gen (wit_world q) =
    (Inr (wit_request http_method path (case body of None \<Rightarrow> [] | Some d \<Rightarrow> dumps_compact (JObj d)) gen 0 0),
     (wit_world q)\<lparr>node := wit_store 1 q 2\<rparr>)"
proof -
  let ?p = "JStr (case body of None \<Rightarrow> [] | Some d \<Rightarrow> canonical (JObj d))" and ?i = "wit_identity 0 q"
  let ?j = "?i\<lparr>ei_request_seq := ei_request_seq ?i + 1\<rparr>"
  have reg: "registered wit_crypto ?i (wit_node None\<lparr>en_last_seq := 0\<rparr>)" by (rule wit_registered)
  have can: "can_save wit_crypto (wit_store 0 q 0)" by (simp add: can_save_def wit_store_def wit_crypto_def)
  have key: "load_key (ei_private_key ?i) = Some wit_key" by (simp add: wit_identity_def load_key_encode)
  have sec: "seconds (edge_now (wit_store r q n)) = 5" "drawn (wit_store r q n) = n" for r n
    by (simp_all add: wit_store_def seconds_def)
  have sg: "ed_sign wit_crypto k m = ''s''" for k m by (simp add: wit_crypto_def)
  obtain t where
    run: "sign_request_headers wit_crypto ?i http_method path ?p [] (wit_store 0 q 0) =
      (Inr (signed_headers ?j 5 (new_token wit_crypto 0) ''d'' ''s'', ?j), t)"
    and sv: "save wit_crypto ?j (wit_store 0 q 0\<lparr>drawn := Suc 0\<rparr>) = (Inr (), t)"
    by (rule sign_headers_run [OF reg can key, of http_method path ?p "[]", unfolded sec sg wit_bound]) (rule that)
  have j: "?j = wit_identity 1 q" by (simp add: wit_identity_def)
  have t: "t = wit_store 1 q 2"
    using sv unfolding j
    by (simp add: save_def load_or_create_fernet_def bindE_def getsE_def draw_def returnE_def modifyE_def wit_store_def
        saved_dict_def wit_crypto_def strip_def lstrip_def rstrip_of_def is_space_def numeral_2_eq_2)
  have h: "signed_headers (wit_identity 1 q) a b d s = signed_headers (wit_identity 1 0) a b d s" for a b d s
    by (simp add: signed_headers_def wit_identity_def)
  have "request_headers wit_crypto http_method path body [] (wit_store 0 q 0) =
      (Inr (signed_headers (wit_identity 1 0) 5 (new_token wit_crypto 0) ''d'' ''s''), wit_store 1 q 2)"
    using run unfolding j t h
    by (simp add: request_headers_def bindE_def wit_load returnE_def) (simp add: wit_identity_def)
  then show ?thesis
    by (simp add: signed_request_def on_node_def bindE_def returnE_def wire_request_def wit_request_def)
qed

lemma wit_claim_centre:
  "\<exists>d c1 key c payload. claim_edge_job (wit_env rl) (wit_request ''GET'' path [] None 0 0) (wit_central rot) = (Inr (Some d), c1) \<and>
     d = [(''envelope'', JObj (signed_envelope (wit_env rl) key (envelope_body (wit_env rl) c ''o'' ''n'' ''job.claim'' payload
       (seconds (central_now c))))), (''payload'', JObj payload)]"
proof -
  let ?a = "accepted_state (wit_node rot) 1 1 ''t'' (wit_central rot)"
  have now: "central_now ?a = 5000000" and jobs: "edge_jobs (cdb ?a) = [wit_job]"
    by (simp_all add: accepted_state_def wit_central_def Let_def)
  have p: "''job.claim'' \<in> set COMMAND_PURPOSES" by (simp add: COMMAND_PURPOSES_def)
  have open_job: "free_job (wit_env rl) tables 5000000 (wit_node rot) wit_job" for tables
    by (simp add: free_job_def wit_env_def job_claimable_def lease_expired_def wit_node_def wit_job_def)
  obtain w u where w: "sign_command_envelope (wit_env rl) (en_org (wit_node rot)) (en_id (wit_node rot)) ''job.claim''
      (job_payload (wit_env rl) (claimed_job 5000000 wit_job)) None (snd (thenE (change_job (ej_id wit_job)
        (claimed_job 5000000)) edge_commit ?a)) = (Inr w, u)"
    using wit_signs [OF p] by blast
  have form: "\<exists>key c payload. w = [(''envelope'', JObj (signed_envelope (wit_env rl) key (envelope_body (wit_env rl) c ''o'' ''n''
      ''job.claim'' payload (seconds (central_now c))))), (''payload'', JObj payload)]"
    by (rule sign_Inr [OF w]) (force simp: wit_node_def)
  have "ends_in (claim_edge_job (wit_env rl) (wit_request ''GET'' path [] None 0 0)) (\<lambda>a t. a = Some w) (wit_central rot)"
    unfolding claim_edge_job_def
    by (rule ends_in_session, unfold wit_session, rule ends_in_bind, rule wit_first_request, simp)
      (use w in \<open>simp add: now jobs open_job change_job_def with_cdb_def edge_commit_def ends_in_defs\<close>)
  with form show ?thesis unfolding ends_in_def by blast
qed

lemma wit_claim_returns:
  assumes "authenticate_edge (wit_env rl) q None (c\<lparr>cdb := saved c\<rparr>) = (Inr n, v)"
  shows "\<exists>answer c3. claim_edge_job (wit_env rl) q c = (Inr answer, c3)"
proof -
  have "returns (claim_edge_job (wit_env rl) q) c"
    unfolding claim_edge_job_def
    by (rule ends_in_session, rule ends_in_bind, rule assms)
      (auto simp: change_job_def with_cdb_def edge_commit_def split: list.split intro!: returns_last returns_sign,
        simp add: COMMAND_PURPOSES_def)
  then show ?thesis by (simp add: ends_in_def)
qed

lemma wit_claim:
  "\<exists>r w. claim_job (wit_config (\<lambda>_. Answered) relay) (wit_world 5) = (Inr r, w)"
proof -
  let ?X = "wit_config (\<lambda>_. Answered) relay" and ?q = "wit_request ''GET'' (edge_path ''/jobs'') [] None 0 0"
  let ?e = "\<lambda>key c payload. signed_envelope (wit_env relay) key (envelope_body (wit_env relay) c ''o'' ''n'' ''job.claim'' payload
      (seconds (central_now c)))"
  obtain d c1 key c payload where claim: "claim_edge_job (wit_env relay) ?q (wit_central None) = (Inr (Some d), c1)"
    and d: "d = [(''envelope'', JObj (?e key c payload)), (''payload'', JObj payload)]"
    using wit_claim_centre by blast
  have env: "ce_crypto (wit_env relay) = wit_crypto" by (simp add: wit_env_def)
  have "\<exists>keys. issuer_keys wit_crypto 5000000 (wit_identity 1 5) = Inr keys" by (simp add: issuer_keys_def wit_identity_def)
  then obtain b where ok: "command_ok wit_crypto 5000000 (wit_identity 1 5) (?e key c payload) (JObj payload) (Some ''job.claim'') = Inr b"
    using signed_checked [OF env sound_wit] by blast
  have can: "can_save wit_crypto (wit_store 1 5 2)" by (simp add: can_save_def wit_store_def wit_crypto_def)
  have now: "edge_now (wit_store 1 5 2) = 5000000" by (simp add: wit_store_def)
  obtain t where sv: "save wit_crypto (consume (?e key c payload) (seconds (central_now c)) (wit_identity 1 5)) (wit_store 1 5 2) =
      (Inr (), t)" using save_works [OF can] by blast
  have "returns (take_command wit_crypto (JObj d) (Some ''job.claim'')) (wit_store 1 5 2)"
    by (cases b) (simp_all add: take_command_def wit_load d unwrap_or_none_def verify_command_envelope_def now Let_def ends_in_defs
        liftE_def int_at_int [OF fields_of_signed(7)] ok sv)
  then have "\<exists>j t. take_command wit_crypto (JObj d) (Some ''job.claim'') (wit_store 1 5 2) = (Inr j, t)"
    by (simp add: ends_in_def)
  then obtain j t where "take_command wit_crypto (JObj d) (Some ''job.claim'') (wit_store 1 5 2) = (Inr j, t)" by blast
  then show ?thesis
    by (simp add: claim_job_def bindE_def wit_signed_request exchange_def Let_def claim
        on_node_def returnE_def)
qed

end
