(* ===== verification/Edge_Props.thy ===== *)
theory Edge_Props
  imports Edge_Witness
begin

text \<open>
  The properties of the edge protocol: what the node accepts from the centre, what the centre accepts
  from the node, and what gets lost between them; each with an instance on the exchange of
  \<open>Edge_Witness\<close>.
\<close>

section \<open>Commands\<close>

text \<open>C18: Over any history of a node, restarts and failures included, the commands it takes have strictly
  increasing numbers and different identifiers and nonces: no command is taken twice, whatever was sent,
  and whatever answers bound or rotated the identity in between.\<close>

theorem commands_taken_once:
  "sorted_wrt (\<lambda>v w. command_seq_of v < command_seq_of w \<and>
     command_id_of (envelope_of v) \<noteq> command_id_of (envelope_of w) \<and>
     command_nonce_of (envelope_of v) \<noteq> command_nonce_of (envelope_of w)) (commands_taken K history s)"
  by (rule taken_increasing)

text \<open>C22: A command a node takes is certified by its envelope, field by field: it names the node and its
  organisation, holds the SHA-256 of the canonical form of exactly the payload that is acted on, and is for one
  of the five purposes and for the one expected; its time of expiry, if it has one, has not passed; and the
  canonical form of all its fields but the signature is signed by the issuer's key under the issuer's key id, or
  by the key of the issuer before under its id while the time of the rotation has not passed, and by no other.\<close>

theorem taken_command_certified:
  assumes "take_command K w expected s = (Inr (Some p), t)"
  shows "\<exists>i u. load K s = (Inr (Some i), u) \<and> command_certified K (edge_now u) i w p expected"
proof -
  from assms obtain i u j where ld: "load K s = (Inr (Some i), u)" and un: "unwrap_or_none K i w expected u = (Inr (Some p, j), t)"
    by (auto simp: take_command_def returnE_def elim!: bindE_Inr split: option.splits prod.splits)
  from load_cases [OF ld] have "knows_exactly i u" by simp
  from unwrap_state(2) [OF un this refl] have ok: "command_ok K (edge_now u) i (envelope_of w) p expected = Inr True"
    "jget w ''envelope'' = JObj (envelope_of w)" "jget w ''payload'' = p" and "is_dict p" by auto
  from this(4) obtain d where "p = JObj d" by (cases p) simp_all
  from command_ok_certified [OF ok this] ld show ?thesis by blast
qed

theorem taken_command_certified_witness:
  "\<exists>w p t i u. take_command wit_crypto w (Some ''node.heartbeat'') (wit_store 0 0 0) = (Inr (Some p), t) \<and>
    load wit_crypto (wit_store 0 0 0) = (Inr (Some i), u) \<and>
    command_certified wit_crypto (edge_now u) i w p (Some ''node.heartbeat'')"
proof -
  obtain w p t where run: "take_command wit_crypto w (Some ''node.heartbeat'') (wit_store 0 0 0) = (Inr (Some p), t)"
    using wit_command by blast
  from taken_command_certified [OF this] run show ?thesis by blast
qed

text \<open>C21: A command the centre signs for a node is taken by it: an identity that trusts the issuer's key and is
  the addressee accepts the envelope under the purpose it was signed for and gets exactly the payload, if it comes
  in time, no command of its second or a later one was taken before, and the identity can be saved.\<close>

theorem signed_command_taken:
  assumes K: "ce_crypto S = K" "sound_crypto K"
    and signed: "sign_command_envelope S (ei_org_id i) (ei_node_id i) purpose payload None c = (Inr w, c')"
    and trust: "trusts_issuer S K (edge_now s) i" and ready: "ready_for S c K i s"
  shows "\<exists>j t. unwrap_or_none K i (JObj w) (Some purpose) s = (Inr (Some (JObj payload), j), t)"
  by (rule signed_unwraps [OF K signed trust ready])

theorem signed_command_taken_witness:
  "\<exists>w c' j t. sign_command_envelope (wit_env (\<lambda>_ _. True)) (ei_org_id (wit_identity 0 0)) (ei_node_id (wit_identity 0 0))
      ''job.claim'' [] None (wit_central None) = (Inr w, c') \<and>
    unwrap_or_none wit_crypto (wit_identity 0 0) (JObj w) (Some ''job.claim'') (wit_store 0 0 0) = (Inr (Some (JObj []), j), t)"
proof -
  have p: "''job.claim'' \<in> set COMMAND_PURPOSES" by (simp add: COMMAND_PURPOSES_def)
  obtain w c' where w: "sign_command_envelope (wit_env (\<lambda>_ _. True)) (ei_org_id (wit_identity 0 0)) (ei_node_id (wit_identity 0 0))
      ''job.claim'' [] None (wit_central None) = (Inr w, c')" using wit_signs [OF p] by blast
  have env: "ce_crypto (wit_env (\<lambda>_ _. True)) = wit_crypto" by (simp add: wit_env_def)
  have "ready_for (wit_env (\<lambda>_ _. True)) (wit_central None) wit_crypto (wit_identity 0 0) (wit_store 0 0 0)"
    by (rule wit_ready) simp
  from signed_command_taken [OF env sound_wit w wit_trusts this] w show ?thesis by blast
qed

section \<open>Requests\<close>

text \<open>C20: A request a node signs is accepted by the centre that knows the node: whatever method, path, query and body,
  the headers \<open>sign_request_headers\<close> makes for the next number authenticate the node, if centre and node agree on the
  digest of the body and on the time within the allowed skew; the number and the nonce are then used up.\<close>

theorem signed_request_accepted:
  assumes "sound_crypto (ce_crypto S)" and "nodes_ok (saved c)" and "n \<in> set (edge_nodes (saved c))"
    and "registered (ce_crypto S) i n" and "request_in_order S c i s n" and "can_save (ce_crypto S) s"
    and "bind_request_digest (ce_crypto S) body query = bind_request_digest (ce_crypto S) (payload_bytes payload) query"
  shows "\<exists>headers j t. sign_request_headers (ce_crypto S) i http_method path payload query s = (Inr (headers, j), t) \<and>
    authenticate_edge S \<lparr>er_method = http_method, er_path = path, er_query = query, er_body = body, er_proof = headers,
        er_generation = gen\<rparr> None (c\<lparr>cdb := saved c\<rparr>) =
      (Inr n, accepted_state n (ei_version i) (ei_request_seq i + 1) (new_token (ce_crypto S) (drawn s)) (c\<lparr>cdb := saved c\<rparr>))"
proof -
  from assms(4) obtain key where key: "load_key (ei_private_key i) = Some key"
    by (auto simp: registered_def split: option.splits)
  obtain t where run: "sign_request_headers (ce_crypto S) i http_method path payload query s =
      (Inr (signed_headers (i\<lparr>ei_request_seq := ei_request_seq i + 1\<rparr>) (seconds (edge_now s)) (new_token (ce_crypto S) (drawn s))
          (bind_request_digest (ce_crypto S) (payload_bytes payload) query)
          (ed_sign (ce_crypto S) key (build_request_message (ei_node_id i) (ei_version i) http_method path
            (bind_request_digest (ce_crypto S) (payload_bytes payload) query) (seconds (edge_now s))
            (new_token (ce_crypto S) (drawn s)) (ei_request_seq i + 1))), i\<lparr>ei_request_seq := ei_request_seq i + 1\<rparr>), t)"
    by (rule sign_headers_run [OF assms(4,6) key])
  show ?thesis
    by (intro exI conjI, rule run, rule signed_request_authenticates [OF assms(1,4,5) key assms(3,2,7) _ refl]) simp
qed

theorem signed_request_accepted_witness:
  "\<exists>headers j t. sign_request_headers wit_crypto (wit_identity 0 0) ''GET'' ''p'' JNull [] (wit_store 0 0 0) = (Inr (headers, j), t) \<and>
    fst (authenticate_edge (wit_env (\<lambda>_ _. True)) \<lparr>er_method = ''GET'', er_path = ''p'', er_query = [], er_body = [],
        er_proof = headers, er_generation = None\<rparr> None ((wit_central None)\<lparr>cdb := saved (wit_central None)\<rparr>)) =
      Inr (wit_node None)"
proof -
  let ?S = "wit_env (\<lambda>_ _. True)" and ?c = "wit_central None"
  have K: "ce_crypto ?S = wit_crypto" by (simp add: wit_env_def)
  have ok: "nodes_ok (saved ?c)" by (simp add: wit_central_def Let_def nodes_ok_def node_ok_def wit_node_def)
  have n: "wit_node None \<in> set (edge_nodes (saved ?c))" by (simp add: wit_central_def Let_def)
  have reg: "registered (ce_crypto ?S) (wit_identity 0 0) (wit_node None)"
    using wit_registered [where rot = None and r = 0 and q = 0 and k = 0] by (simp add: K) (simp add: wit_node_def)
  have order: "request_in_order ?S ?c (wit_identity 0 0) (wit_store 0 0 0) (wit_node None)"
    by (simp add: request_in_order_def wit_central_def Let_def wit_identity_def wit_node_def wit_store_def wit_env_def seconds_def)
  have can: "can_save (ce_crypto ?S) (wit_store 0 0 0)" by (simp add: K can_save_def wit_store_def) (simp add: wit_crypto_def)
  have dg: "bind_request_digest (ce_crypto ?S) [] [] = bind_request_digest (ce_crypto ?S) (payload_bytes JNull) []"
    by (simp add: payload_bytes_def)
  have S: "sound_crypto (ce_crypto ?S)" by (simp only: K sound_wit)
  from signed_request_accepted [OF S ok n reg order can dg, of "''GET''" "''p''" None] show ?thesis
    by (auto simp: K)
qed

text \<open>C19: A request whose proof was committed is never accepted again: after a call with it has been carried out, every
  later call with the same headers for that node is refused, whatever the centre was called for in between,
  rotations included.\<close>

theorem request_never_accepted_again:
  assumes ok: "nodes_ok (saved c)" and x: "request_of x = Some (q, nid)" and run: "centre_step S x c = (Inr True, c1)"
    and y: "request_of y = Some (q', nid')" and same: "er_proof q' = er_proof q" "node_named q' nid' = node_named q nid"
  shows "\<exists>e c2. centre_step S y (central_run S calls c1) = (Inl e, c2)"
proof -
  from step_form [OF x] obtain K where
    form: "centre_step S x = edge_session (bindE (authenticate_edge S q nid) K)" by blast
  from run [unfolded form] obtain u where "bindE (authenticate_edge S q nid) K (c\<lparr>cdb := saved c\<rparr>) = (Inr True, u)"
    by (rule session_Inr)
  then obtain n w where "authenticate_edge S q nid (c\<lparr>cdb := saved c\<rparr>) = (Inr n, w)" by (rule bindE_Inr)
  then obtain timestamp seq v where "proof_holds S (c\<lparr>cdb := saved c\<rparr>) n (er_method q) (er_path q)
      (bind_request_digest (ce_crypto S) (er_body q) (er_query q)) (er_proof q) timestamp seq v" by (rule authenticate_Inr)
  then have v: "claims_version q v" and s: "claims_seq q seq"
    by (auto simp: proof_holds_def claims_version_def claims_seq_def)
  have "past (node_named q nid) v seq (central_run S calls c1)"
    by (rule past_run [OF committed_past [OF x run ok v s]])
  then have p: "past (node_named q' nid') v seq (central_run S calls c1)" by (simp only: same)
  have v': "claims_version q' v" and s': "claims_seq q' k \<Longrightarrow> k = seq" for k
    using v s by (simp_all add: claims_version_def claims_seq_def same)
  show ?thesis
    by (rule past_refused [OF y p v']) (use s' in blast)
qed

theorem request_never_accepted_again_witness:
  "\<exists>c1 e c2. centre_step (wit_env (\<lambda>_ _. True)) (Heartbeat (wit_request ''POST'' ''h'' [] None 0 0) ''n'' None) (wit_central None) =
      (Inr True, c1) \<and>
    centre_step (wit_env (\<lambda>_ _. True)) (Claim (wit_request ''POST'' ''h'' [] None 0 0))
      (central_run (wit_env (\<lambda>_ _. True)) [Passing 1] c1) = (Inl e, c2)"
proof -
  have ok: "nodes_ok (saved (wit_central None))" by (simp add: wit_central_def Let_def nodes_ok_def node_ok_def wit_node_def)
  obtain c1 where run: "centre_step (wit_env (\<lambda>_ _. True)) (Heartbeat (wit_request ''POST'' ''h'' [] None 0 0) ''n'' None)
      (wit_central None) = (Inr True, c1)" using wit_heartbeat by blast
  have named: "node_named (wit_request ''POST'' ''h'' [] None 0 0) None =
      node_named (wit_request ''POST'' ''h'' [] None 0 0) (Some ''n'')"
    by (simp add: node_named_def wit_request_def signed_headers_def str_set_def str_or_def) (simp add: wit_identity_def)
  from request_never_accepted_again [OF ok request_of.simps(2) run request_of.simps(3) refl named] run
  show ?thesis by blast
qed

text \<open>C23: Once the centre has completed a rotation, every request of the node that carries exactly the version text
  the rotation was asked under is refused for ever. The node learns its new version only from the answer: one that
  loses the answer keeps signing under the old version, and the key the centre keeps as the previous one does not
  help it.\<close>

theorem old_identity_refused:
  assumes ok: "nodes_ok (saved c)" and run: "centre_step S (Rotate q key) c = (Inr True, c1)"
    and y: "request_of y = Some (q', nid')" and same: "h_version (er_proof q') = h_version (er_proof q)"
      "node_named q' nid' = node_named q None"
  shows "\<exists>e c2. centre_step S y (central_run S calls c1) = (Inl e, c2)"
proof -
  from step_form [of "Rotate q key" q None] obtain K where
    form: "centre_step S (Rotate q key) = edge_session (bindE (authenticate_edge S q None) K)" by auto
  from run [unfolded form] obtain u where "bindE (authenticate_edge S q None) K (c\<lparr>cdb := saved c\<rparr>) = (Inr True, u)"
    by (rule session_Inr)
  then obtain n w where "authenticate_edge S q None (c\<lparr>cdb := saved c\<rparr>) = (Inr n, w)" by (rule bindE_Inr)
  then obtain timestamp seq v where "proof_holds S (c\<lparr>cdb := saved c\<rparr>) n (er_method q) (er_path q)
      (bind_request_digest (ce_crypto S) (er_body q) (er_query q)) (er_proof q) timestamp seq v" by (rule authenticate_Inr)
  then have v: "claims_version q v" by (simp add: proof_holds_def claims_version_def)
  from rotated_past [OF run ok v] obtain v' l where later: "v < v'" and p: "past (node_named q None) v' l c1" by blast
  have p': "past (node_named q' nid') v' l (central_run S calls c1)"
    using past_run [OF p] by (simp only: same)
  have v': "claims_version q' v" using v by (simp add: claims_version_def same)
  show ?thesis
    by (rule past_refused [OF y p' v']) (use later in blast)
qed

theorem old_identity_refused_witness:
  "\<exists>c1 e c2. centre_step (wit_env (\<lambda>_ _. True)) (Rotate (wit_request ''POST'' ''h'' [] None 0 0) ''k'')
      (wit_central (Some 6000000)) = (Inr True, c1) \<and>
    centre_step (wit_env (\<lambda>_ _. True)) (Claim (wit_request ''GET'' ''j'' [] None 1 1)) c1 = (Inl e, c2)"
proof -
  have ok: "nodes_ok (saved (wit_central (Some 6000000)))"
    by (simp add: wit_central_def Let_def nodes_ok_def node_ok_def wit_node_def)
  obtain c1 where run: "centre_step (wit_env (\<lambda>_ _. True)) (Rotate (wit_request ''POST'' ''h'' [] None 0 0) ''k'')
      (wit_central (Some 6000000)) = (Inr True, c1)" using wit_rotate by blast
  have version: "h_version (er_proof (wit_request ''GET'' ''j'' [] None 1 1)) = h_version (er_proof (wit_request ''POST'' ''h'' [] None 0 0))"
    and named: "node_named (wit_request ''GET'' ''j'' [] None 1 1) None = node_named (wit_request ''POST'' ''h'' [] None 0 0) None"
    by (simp_all add: node_named_def wit_request_def signed_headers_def str_set_def str_or_def wit_identity_def)
  from old_identity_refused [OF ok run request_of.simps(3) version named, of "[]"] run
  show ?thesis by auto
qed

section \<open>What is lost\<close>

text \<open>C24: A command of a second in which the node has already taken one is lost, since commands are numbered by the
  second of their signing: a node that asks for a job in the second of, say, its last heartbeat gets none, while the
  centre, if it had one, has leased it to the node.\<close>

theorem claim_of_second_lost:
  assumes taken: "seconds (central_now (centre_state w)) \<le> remembered_seq (node w)"
    and run: "claim_job X w = (Inr r, w')"
  shows "r = None \<and> (job_leased (centre_state w) (centre_state w') \<or>
    saved (centre_state w') = saved (centre_state w))"
proof -
  from run [unfolded claim_job_def] obtain q u answer v where
    q: "signed_request X ''GET'' (edge_path ''/jobs'') None None w = (Inr q, u)" and
    x: "exchange X (claim_edge_job (ec_central X) q) u = (Inr answer, v)" and
    k: "(case answer of None \<Rightarrow> returnE None | Some data \<Rightarrow>
         bindE (on_node (take_command (ec_crypto X) (JObj data) (Some ''job.claim''))) (\<lambda>job.
         returnE (case job of Some (JObj d) \<Rightarrow> if truthy (dget d ''id'') then Some d else None | _ \<Rightarrow> None))) v = (Inr r, w')"
    by (elim bindE_Inr)
  from q obtain s where u: "u = w\<lparr>node := s\<rparr>" and more: "remembers_more (node w) s" by (rule signed_request_Inr)
  from x obtain c where cl: "claim_edge_job (ec_central X) q (centre_state w) = (Inr answer, c)"
    and v: "v = u\<lparr>sent := Suc (sent u), centre_state := c\<rparr>" by (rule exchange_Inr) (simp add: u)
  show ?thesis
  proof (cases answer)
    case None
    then have "r = None" "w' = v" using k by simp_all
    then show ?thesis using claim_None [OF cl [unfolded None]] by (simp add: v)
  next
    case (Some data)
    from k [unfolded Some option.case] obtain job t where
      tk: "take_command (ec_crypto X) (JObj data) (Some ''job.claim'') s = (Inr job, t)"
      and w': "w' = v\<lparr>node := t\<rparr>"
      and r: "r = (case job of Some (JObj d) \<Rightarrow> if truthy (dget d ''id'') then Some d else None | _ \<Rightarrow> None)"
      by (elim bindE_Inr on_node_Inr) (auto simp: v u)
    have "command_seq_of (JObj data) \<le> remembered_seq s"
      using claim_Inr(1) [OF cl [unfolded Some]] taken more by (simp add: remembers_more_def)
    from old_number_refused [OF tk this] have "r = None" by (simp add: r)
    moreover have "job_leased (centre_state w) (centre_state w')"
      using claim_Inr(2) [OF cl [unfolded Some]] by (simp add: job_leased_def w' v)
    ultimately show ?thesis by simp
  qed
qed

theorem claim_of_second_lost_witness:
  "\<exists>w. claim_job (wit_config (\<lambda>_. Answered) (\<lambda>_ _. True)) (wit_world 5) = (Inr None, w)"
proof -
  obtain r w where run: "claim_job (wit_config (\<lambda>_. Answered) (\<lambda>_ _. True)) (wit_world 5) = (Inr r, w)"
    using wit_claim by blast
  have "seconds (central_now (centre_state (wit_world 5))) \<le> remembered_seq (node (wit_world 5))"
    by (simp add: remembered_seq_def file_dict_def wit_central_def Let_def seconds_def wit_store_def saved_seq)
       (simp add: wit_identity_def)
  from claim_of_second_lost [OF this run] run show ?thesis by blast
qed

text \<open>C27: The proof of a request for the cancellation of a job is not used up: the endpoint never commits, so the number and
  the nonce are forgotten, and the very same request is answered again with a freshly signed command (as is one for a
  job when there is none).\<close>

theorem cancel_check_replayable:
  assumes "check_edge_job_cancel S q jid c = (Inr d, c1)"
  shows "saved c1 = saved c \<and> (\<exists>d' c2. check_edge_job_cancel S q jid c1 = (Inr d', c2))"
proof -
  let ?c = "c\<lparr>cdb := saved c\<rparr>"
  from assms [unfolded check_edge_job_cancel_def] obtain u where
    run: "bindE (authenticate_edge S q None) (\<lambda>n. bindE (job_of_node n jid) (\<lambda>j.
       sign_command_envelope S (en_org n) (en_id n) ''job.cancel.check''
         [(''job_id'', JStr (ej_id j)), (''cancel_requested'', JBool (job_cancelled j)),
          (''cancelled'', JBool (job_cancelled j))] None)) ?c = (Inr d, u)"
    and c1: "c1 = u\<lparr>cdb := saved u\<rparr>" by (rule session_Inr)
  from run obtain n v j x where a: "authenticate_edge S q None ?c = (Inr n, v)"
    and j: "job_of_node n jid v = (Inr j, x)"
    and sg: "sign_command_envelope S (en_org n) (en_id n) ''job.cancel.check''
         [(''job_id'', JStr (ej_id j)), (''cancel_requested'', JBool (job_cancelled j)),
          (''cancelled'', JBool (job_cancelled j))] None x = (Inr d, u)"
    by (elim bindE_Inr)
  from a obtain ts sq vr where v: "v = accepted_state n vr sq (str_or (h_nonce (er_proof q)) []) ?c" by (rule authenticate_Inr)
  have x: "x = v" using j by (auto simp: job_of_node_def find_job_def elim!: bindE_Inr)
  have u: "u = v\<lparr>central_drawn := Suc (Suc (central_drawn v))\<rparr>" using sg by (rule sign_Inr) (simp add: x)
  define k where "k = Suc (Suc (central_drawn v))"
  have c1': "c1\<lparr>cdb := saved c1\<rparr> = ?c\<lparr>central_drawn := k\<rparr>" and keep: "saved c1 = saved c"
    by (simp_all add: c1 u v accepted_state_def k_def)
  have a': "authenticate_edge S q None (?c\<lparr>central_drawn := k\<rparr>) = (Inr n, v\<lparr>central_drawn := k\<rparr>)"
    using undrawn_authenticate [of S q None] a unfolding undrawn_def by (metis apsnd_conv)
  have j': "job_of_node n jid (v\<lparr>central_drawn := k\<rparr>) = (Inr j, v\<lparr>central_drawn := k\<rparr>)"
    using undrawn_job [of n jid] j x unfolding undrawn_def by (metis apsnd_conv)
  from sign_again [OF sg [unfolded x], of k] obtain d' y where
    "sign_command_envelope S (en_org n) (en_id n) ''job.cancel.check''
         [(''job_id'', JStr (ej_id j)), (''cancel_requested'', JBool (job_cancelled j)),
          (''cancelled'', JBool (job_cancelled j))] None (v\<lparr>central_drawn := k\<rparr>) = (Inr d', y)" by blast
  then have "\<exists>c2. check_edge_job_cancel S q jid c1 = (Inr d', c2)"
    by (simp add: check_edge_job_cancel_def edge_session_def c1' bindE_def a' j')
  with keep show ?thesis by blast
qed

theorem cancel_check_replayable_witness:
  "\<exists>d c1 d' c2. check_edge_job_cancel (wit_env (\<lambda>_ _. True)) (wit_request ''GET'' ''c'' [] None 0 0) ''j'' (wit_central None) = (Inr d, c1) \<and>
    check_edge_job_cancel (wit_env (\<lambda>_ _. True)) (wit_request ''GET'' ''c'' [] None 0 0) ''j'' c1 = (Inr d', c2)"
proof -
  obtain d c1 where run: "check_edge_job_cancel (wit_env (\<lambda>_ _. True)) (wit_request ''GET'' ''c'' [] None 0 0) ''j''
      (wit_central None) = (Inr d, c1)" using wit_cancel_check by blast
  from cancel_check_replayable [OF run] run show ?thesis by blast
qed

text \<open>C26: A job whose cancellation the node has reported is handed out again: the event \<open>run.cancelled\<close> changes nothing of
  the job, so once its lease has run out a claim that finds its row free, and no other job, takes it as before, under a
  new delivery, although its cancellation was requested.\<close>

theorem cancelled_job_offered_again:
  assumes "post_edge_job_events S q jid es gen c = (Inr x, c1)"
    and "list_all (\<lambda>e. str_at e ''event_type'' = ''run.cancelled'') es"
    and "saved c2 = saved c1" and "claim_edge_job S q' c2 = (Inr answer, c3)"
    and "authenticate_edge S q' None (c2\<lparr>cdb := saved c2\<rparr>) = (Inr n, u)"
    and "filter (free_job S (saved c2) (central_now c2) n) (edge_jobs (saved c)) = [j]"
    and "ej_id j = jid" and "ej_cancel_at j \<noteq> None"
  shows "answer \<noteq> None \<and> edge_jobs (saved c3) =
    upd_where (\<lambda>k. ej_id k = jid) (claimed_job (central_now c2)) (edge_jobs (saved c))"
proof -
  have after: "job_after now es j = j" for now j
    by (simp add: job_after_def cancelled_events_change_nothing [OF assms(2)])
  have jobs: "edge_jobs (saved c1) = edge_jobs (saved c)"
    by (rule post_Inr [OF assms(1)]) (simp add: upd_where_def after map_idI)
  from assms(4) obtain m v rows where a: "authenticate_edge S q' None (c2\<lparr>cdb := saved c2\<rparr>) = (Inr m, v)"
    and rows: "rows = sort_key ej_created_at (filter (free_job S (saved c2) (central_now c2) m) (edge_jobs (saved c2)))"
    and some: "case rows of [] \<Rightarrow> answer = None \<and> saved c3 = saved c2
      | j # js \<Rightarrow> (\<exists>d. answer = Some d \<and> command_seq_of (JObj d) = seconds (central_now c2)) \<and>
      edge_jobs (saved c3) = upd_where (\<lambda>k. ej_id k = ej_id j) (claimed_job (central_now c2)) (edge_jobs (saved c2))"
    by (rule claim_cases)
  have "m = n" using a assms(5) by simp
  then have "rows = [j]" using rows assms(6) by (simp add: assms(3) jobs)
  with some show ?thesis by (auto simp: assms(3,7) jobs)
qed

theorem cancelled_job_offered_again_witness:
  "\<exists>c1 answer c3. post_edge_job_events (wit_env (\<lambda>_ _. True)) (wit_request ''POST'' ''e'' [] None 0 0) ''j'' wit_cancelled (Some 1)
      (wit_central None) = (Inr (), c1) \<and>
    claim_edge_job (wit_env (\<lambda>_ _. True)) (wit_request ''GET'' ''j'' [] None 1 1) c1 = (Inr answer, c3) \<and> answer \<noteq> None \<and>
    edge_jobs (saved c3) = upd_where (\<lambda>k. ej_id k = ''j'') (claimed_job (central_now c1)) (edge_jobs (saved (wit_central None)))"
proof -
  let ?S = "wit_env (\<lambda>_ _. True)" and ?q = "wit_request ''GET'' ''j'' [] None 1 1"
  obtain c1 where post: "post_edge_job_events ?S (wit_request ''POST'' ''e'' [] None 0 0) ''j'' wit_cancelled (Some 1)
      (wit_central None) = (Inr (), c1)" and c1: "central_now c1 = 5000000"
    "edge_nodes (saved c1) = [wit_node None\<lparr>en_last_seq := 1\<rparr>]" "edge_nonces (saved c1) = [(''n'', 1, ''t'')]"
    using wit_post by blast
  have tok: "new_token wit_crypto (Suc 0) = ''u''" by (simp add: wit_crypto_def)
  obtain v where auth: "authenticate_edge ?S ?q None (c1\<lparr>cdb := saved c1\<rparr>) = (Inr (wit_node None\<lparr>en_last_seq := 1\<rparr>), v)"
    using wit_authenticates [where c = c1 and rot = None and k = 1 and r = 1 and n = 1 and nid = None] by (simp add: c1 tok)
  obtain answer c3 where claim: "claim_edge_job ?S ?q c1 = (Inr answer, c3)" using wit_claim_returns [OF auth] by blast
  have es: "list_all (\<lambda>e. str_at e ''event_type'' = ''run.cancelled'') wit_cancelled"
    by (simp add: wit_cancelled_def str_at_def or_else_def)
  have job: "filter (free_job ?S (saved c1) (central_now c1) (wit_node None\<lparr>en_last_seq := 1\<rparr>)) (edge_jobs (saved (wit_central None))) = [wit_job]"
    by (simp add: c1 wit_central_def Let_def free_job_def job_claimable_def lease_expired_def wit_env_def) (simp add: wit_node_def wit_job_def)
  have "ej_id wit_job = ''j''" "ej_cancel_at wit_job \<noteq> None" by (simp_all add: wit_job_def)
  from cancelled_job_offered_again [OF post es refl claim auth job this] post claim show ?thesis by blast
qed

text \<open>Events of a delivery that was superseded are refused and leave no trace: a request that names another generation
  than the job's, or none, fails, and nothing is committed or passed on.\<close>

theorem stale_delivery_refused:
  assumes "find (\<lambda>j. \<not> ej_deleted j \<and> ej_id j = jid \<and> ej_node j = en_id n \<and> ej_org j = en_org n) (edge_jobs (saved c)) = Some j"
    and "requested_generation (er_generation q) gen \<noteq> Some (ej_delivery j)"
    and "authenticate_edge S q None (c\<lparr>cdb := saved c\<rparr>) = (Inr n, u)"
    and "post_edge_job_events S q jid es gen c = (r, c1)"
  shows "(\<exists>e. r = Inl e) \<and> saved c1 = saved c \<and> relayed c1 = relayed c"
proof -
  from assms(3) obtain ts sq vr where u: "u = accepted_state n vr sq (str_or (h_nonce (er_proof q)) []) (c\<lparr>cdb := saved c\<rparr>)"
    by (rule authenticate_Inr)
  have jn: "job_of_node n jid u = (Inr j, u)"
    using assms(1) by (simp add: job_of_node_def find_job_def bindE_def getsE_def the_or_def returnE_def u accepted_state_def)
  obtain e where "check_delivery j (requested_generation (er_generation q) gen) u = (Inl e, u)"
    using assms(2) by (cases "requested_generation (er_generation q) gen")
      (auto simp: check_delivery_def bindE_def the_or_def assertE_def returnE_def raiseE_def)
  then have "post_edge_job_events S q jid es gen c = (Inl e, u\<lparr>cdb := saved u\<rparr>)"
    by (simp add: post_edge_job_events_def edge_session_def bindE_def thenE_def assms(3) jn)
  then show ?thesis using assms(4) by (auto simp: u accepted_state_def)
qed

theorem stale_delivery_refused_witness:
  "\<exists>e c1. post_edge_job_events (wit_env (\<lambda>_ _. True)) (wit_request ''POST'' ''e'' [] None 0 0) ''j'' wit_cancelled (Some 7)
      (wit_central None) = (Inl e, c1) \<and> saved c1 = saved (wit_central None)"
proof -
  let ?q = "wit_request ''POST'' ''e'' [] None 0 0"
  have auth: "authenticate_edge (wit_env (\<lambda>_ _. True)) ?q None ((wit_central None)\<lparr>cdb := saved (wit_central None)\<rparr>) =
      (Inr (wit_node None), accepted_state (wit_node None) 1 1 ''t'' (wit_central None))"
    unfolding wit_session by (rule wit_first_request) simp
  have job: "find (\<lambda>j. \<not> ej_deleted j \<and> ej_id j = ''j'' \<and> ej_node j = en_id (wit_node None) \<and> ej_org j = en_org (wit_node None))
      (edge_jobs (saved (wit_central None))) = Some wit_job"
    by (simp add: wit_central_def Let_def) (simp add: wit_node_def wit_job_def)
  have gen: "requested_generation (er_generation ?q) (Some 7) \<noteq> Some (ej_delivery wit_job)"
    by (simp add: requested_generation_def wit_request_def str_set_def str_or_def wit_job_def)
  obtain r c1 where run: "post_edge_job_events (wit_env (\<lambda>_ _. True)) ?q ''j'' wit_cancelled (Some 7) (wit_central None) = (r, c1)"
    by fastforce
  from stale_delivery_refused [OF job gen auth run] run show ?thesis by auto
qed

text \<open>The agent cannot be reached with events.\<close>

definition relay_fails :: "central_env \<Rightarrow> central \<Rightarrow> bool" where
  "relay_fails S c \<longleftrightarrow> ce_agent_enabled S \<and> ce_agent_url S \<noteq> [] \<and> ce_relay S (length (relayed c)) = (\<lambda>_. False)"

lemma relay_failure_refused:
  assumes ok: "authenticate_edge S q None (c\<lparr>cdb := saved c\<rparr>) = (Inr n, v)"
    and j: "find (\<lambda>j. \<not> ej_deleted j \<and> ej_id j = jid \<and> ej_node j = en_id n \<and> ej_org j = en_org n) (edge_jobs (saved c)) = Some j"
    and g: "requested_generation (er_generation q) gen = Some (ej_delivery j)"
    and small: "list_all (\<lambda>e. length (dumps_default (event_payload e)) \<le> 65536) es"
    and fails: "relay_fails S c" and es: "es \<noteq> []"
  shows "\<exists>c1. post_edge_job_events S q jid es gen c = (Inl (Forbidden ''connector.edge_relay_failed''), c1) \<and> saved c1 = saved c"
proof -
  from ok obtain ts sq vr where v: "v = accepted_state n vr sq (str_or (h_nonce (er_proof q)) []) (c\<lparr>cdb := saved c\<rparr>)"
    by (rule authenticate_Inr)
  have "job_of_node n jid v = (Inr j, v)"
    using j by (simp add: job_of_node_def find_job_def bindE_def getsE_def the_or_def returnE_def v accepted_state_def)
  moreover have cg: "check_delivery j (Some (ej_delivery j)) s = (Inr (), s)" for s
    by (simp add: check_delivery_def bindE_def the_or_def assertE_def returnE_def)
  moreover have "relayed v = relayed c" "saved v = saved c" by (simp_all add: v accepted_state_def)
  ultimately show ?thesis
    using fails es small
    by (simp add: post_edge_job_events_def edge_session_def bindE_def thenE_def ok g cg assertE_def getsE_def returnE_def raiseE_def
        change_job_def with_cdb_def modifyE_def relay_events_def relay_fails_def Let_def)
qed

text \<open>C25: Events whose passing on to the agent fails once are lost: the centre records nothing and answers 403, as it answers
  a delivery that was superseded, and a node that flushes its spool deletes the file of events answered so.\<close>

theorem relay_failure_loses_events:
  assumes "signed_request X ''POST'' (job_path jid ''/events'')
      (Some [(''events'', JList (List.map JObj es)), (''delivery_generation'', JInt gen)]) (Some (show_int gen)) w = (Inr q, u)"
    and "ec_delivery X (sent u) = Answered"
    and "authenticate_edge (ec_central X) q None ((centre_state u)\<lparr>cdb := saved (centre_state u)\<rparr>) = (Inr n, v)"
    and "find (\<lambda>j. \<not> ej_deleted j \<and> ej_id j = jid \<and> ej_node j = en_id n \<and> ej_org j = en_org n)
      (edge_jobs (saved (centre_state u))) = Some j"
    and "ej_delivery j = gen" and "0 < gen" and "jid \<noteq> []" and "es \<noteq> []"
    and "list_all (\<lambda>e. length (dumps_default (event_payload e)) \<le> 65536) es"
    and "relay_fails (ec_central X) (centre_state u)"
  shows "\<exists>w'. flush_file X (name, spool_envelope jid es gen attempt step trace) w = (Inr (), w') \<and>
    spool w' = AList.delete name (spool w) \<and> saved (centre_state w') = saved (centre_state w)"
proof -
  let ?body = "[(''events'', JList (List.map JObj es)), (''delivery_generation'', JInt gen)]"
  from assms(1) obtain s where u: "u = w\<lparr>node := s\<rparr>" by (rule signed_request_Inr)
  from assms(1) have "er_generation q = Some (show_int gen)"
    unfolding signed_request_def by (elim bindE_Inr) (auto simp: returnE_def wire_request_def)
  then have g: "requested_generation (er_generation q) (Some gen) = Some (ej_delivery j)"
    using assms(5) by (simp add: requested_generation_def str_or_def parse_show)
  from relay_failure_refused [OF assms(3,4) g assms(9,10,8)] obtain c1 where
    post: "post_edge_job_events (ec_central X) q jid es (Some gen) (centre_state u) =
      (Inl (Forbidden ''connector.edge_relay_failed''), c1)" and c1: "saved c1 = saved (centre_state u)" by blast
  have es: "List.map (dict_of \<circ> JObj) es = es" by (simp add: comp_def)
  have "post_events X jid es gen w =
      (Inl (HttpStatusError 403), u\<lparr>sent := Suc (sent u), centre_state := c1\<rparr>)"
    by (simp add: post_events_def Let_def bindE_def assms(1) exchange_def assms(2) post Forbidden_def answer_status_def)
  then show ?thesis
    using assms(6,7,8) c1
    by (simp add: flush_file_def spool_envelope_def Let_def catchE_def bindE_def thenE_def liftE_def returnE_def modifyE_def
        or_else_def es u)
qed

theorem relay_failure_loses_events_witness:
  "\<exists>w. flush_file (wit_config (\<lambda>_. Answered) (\<lambda>_ _. False)) (''s'', spool_envelope ''j'' wit_cancelled 1 JNull JNull JNull)
      (wit_world 0) = (Inr (), w) \<and> spool w = [] \<and> saved (centre_state w) = saved (wit_central None)"
proof -
  let ?X = "wit_config (\<lambda>_. Answered) (\<lambda>_ _. False)"
  let ?d = "[(''events'', JList (List.map JObj wit_cancelled)), (''delivery_generation'', JInt 1)]"
  let ?q = "wit_request ''POST'' (job_path ''j'' ''/events'') (dumps_compact (JObj ?d)) (Some (show_int 1)) 0 0"
  let ?u = "(wit_world 0)\<lparr>node := wit_store 1 0 2\<rparr>"
  have q: "signed_request ?X ''POST'' (job_path ''j'' ''/events'') (Some ?d) (Some (show_int 1)) (wit_world 0) = (Inr ?q, ?u)"
    using wit_signed_request [of "\<lambda>_. Answered" "\<lambda>_ _. False" "''POST''" "job_path ''j'' ''/events''" "Some ?d"
      "Some (show_int 1)" 0] by simp
  have sent: "ec_delivery ?X (sent ?u) = Answered" by simp
  have auth: "authenticate_edge (ec_central ?X) ?q None ((centre_state ?u)\<lparr>cdb := saved (centre_state ?u)\<rparr>) =
      (Inr (wit_node None), accepted_state (wit_node None) 1 1 ''t'' (wit_central None))"
    by (simp add: wit_session wit_first_request)
  have job: "find (\<lambda>j. \<not> ej_deleted j \<and> ej_id j = ''j'' \<and> ej_node j = en_id (wit_node None) \<and> ej_org j = en_org (wit_node None))
      (edge_jobs (saved (centre_state ?u))) = Some wit_job"
    by (simp add: wit_central_def Let_def) (simp add: wit_node_def wit_job_def)
  have gen: "ej_delivery wit_job = 1" "(0::int) < 1" "''j'' \<noteq> []" "wit_cancelled \<noteq> []"
    by (simp_all add: wit_job_def wit_cancelled_def)
  have small: "list_all (\<lambda>e. length (dumps_default (event_payload e)) \<le> 65536) wit_cancelled"
    by (simp add: wit_cancelled_def event_payload_def or_else_def)
  have "relay_fails (ec_central ?X) (centre_state ?u)" by (simp add: relay_fails_def wit_env_def)
  from relay_failure_loses_events [OF q sent auth job gen small this, of "''s''" JNull JNull JNull] show ?thesis by simp
qed

end
