(* ===== verification/Spec2Isabelle.thy ===== *)
theory Spec2Isabelle
  imports Coalescer System Connector_Props Edge_Props
begin

text \<open>
  The execution agent of NoDeskClaw (\<open>nodeskclaw-agent/app\<close>): the service that accepts runs, plans
  their steps, hands them to workers, drives an agent runtime (Hermes) for them, lets the agent use tools
  under approval, and records everything in an event log that the rest of the system reads.

  \<^bold>\<open>Parts and theories.\<close> File names are relative to \<open>nodeskclaw-agent/app\<close>.

  \<^item> \<open>Prelude\<close>: Python strings, JSON values and dicts, programs with a state and exceptions
    (\<open>bindE\<close>, \<open>thenE\<close>, \<open>catchE\<close>, \<open>foldE\<close>), the locale \<open>guarantee\<close> of relations
    kept by every step. \<open>Utf8\<close>, \<open>Json_Text\<close>, \<open>Base64\<close>, \<open>Text_Tools\<close>: the
    parts of Python's standard library the code leans on; \<open>Utf8\<close> also has \<open>split_utf8_by_bytes\<close>
    and \<open>Coalescer\<close> the \<open>AssistantDeltaCoalescer\<close> of \<open>services/assistant_delta_coalescer.py\<close>.
  \<^item> \<open>Run_Store\<close>: the tables of \<open>db_metadata.py\<close>, the world a handler works in and the record
    \<open>env\<close> of everything outside the code.
  \<^item> \<open>services/run_service.py\<close>: \<open>Run_Events\<close> (event log, status column), \<open>Run_Snapshot\<close>
    (frozen snapshot), \<open>Run_Sessions\<close> (conversation sessions), \<open>Run_Create\<close> (create_run),
    \<open>Run_Artifacts\<close> (artifacts; \<open>Storage\<close> is \<open>services/storage_port.py\<close>),
    \<open>Runtime_Binding\<close>, \<open>Run_Steps\<close> (step plan and aggregation), \<open>Run_Control\<close>
    (resume, approve, cancel).
  \<^item> Endpoints of \<open>api/internal_runs.py\<close>: \<open>Event_Ingest\<close>, \<open>Run_Api\<close>, and with their
    operations in \<open>Run_Create\<close>, \<open>Run_Control\<close>, \<open>Run_Artifacts\<close>; \<open>schemas.py\<close> is
    \<open>Event_Schema\<close>.
  \<^item> Tools: \<open>Capability\<close> (\<open>services/attempt_capability.py\<close>), \<open>Agent_Tools\<close>
    (\<open>api/agent_tools_mcp.py\<close>, \<open>services/agent_tool_gateway.py\<close>).
  \<^item> Workers (\<open>services/worker.py\<close>): \<open>Step_Plan\<close>, \<open>Context_Check\<close>
    (\<open>services/context_revalidate.py\<close>), \<open>Run_Worker\<close>.
  \<^item> The runtime: \<open>Event_Sanitizer\<close> and \<open>Native_Events\<close>
    (\<open>services/native_event_normalizer.py\<close>); of \<open>services/hermes_engine.py\<close>: \<open>Hermes_Control\<close>
    (approval, stop, inspection), \<open>Net_Policy\<close> (where outputs may be fetched from),
    \<open>Runtime_Outputs\<close> (finding, fetching and storing them), \<open>Runtime_Contract\<close> (version, features,
    topology, the submitted payload) and \<open>Hermes_Engine\<close> (\<open>execute_hermes_run\<close>); \<open>Attachments\<close> is
    \<open>services/run_attachment_workspace.py\<close>. \<open>Ip_Address\<close> is what of Python's \<open>ipaddress\<close> the
    address policies use, on words of 32 and 128 bits.
  \<^item> \<open>Connector_Router\<close>: the engine port (\<open>services/engine_port.py\<close>), the connectors for REST, MCP and
    databases (\<open>services/connector_router.py\<close>) with their outbound policy, and the lookup of their secrets
    (\<open>services/secret_store.py\<close>).
  \<^item> \<open>System\<close>: all requests, worker transactions and the engine's transaction that stores outputs as one
    step relation.
  \<^item> The edge protocol, by which an agent behind a firewall fetches its jobs from the centre
    (\<open>nodeskclaw-backend/app\<close>): \<open>Edge_Digest\<close> and \<open>Edge_Channel\<close> are
    \<open>services/edge_control_channel.py\<close> (the identity of the node, signed requests, checked commands),
    \<open>Edge_Worker\<close> is \<open>services/edge_worker.py\<close> up to the execution of a job; of the centre,
    \<open>Edge_Control\<close> is \<open>services/connector/edge_control_channel.py\<close> and \<open>edge_node_service.py\<close>, and
    \<open>Edge_Api\<close> the endpoints of \<open>api/internal_edge.py\<close> for identities, jobs, events and requests for
    artifacts.

  \<^bold>\<open>State and operations.\<close> A Python function that reads or writes the database is a program of
  type \<open>'a op\<close>, from a \<open>world\<close> to a result or an exception and a new world; \<open>db\<close> holds the
  tables as lists of rows in insertion order, \<open>files\<close> the artifact store, \<open>ext_calls\<close> what was
  sent to other services. A query with LIMIT 1 and no ORDER BY takes the first row in table order.
  \<open>request\<close> wraps a transaction: an exception takes the tables back. The queries that skip rows locked
  by other transactions (FOR UPDATE SKIP LOCKED, of the workers and of the claim of edge jobs) take the locked
  rows as a parameter (\<open>locked\<close>, \<open>ce_job_locked\<close>), about which the theorems assume nothing unless they say so; other statements that would wait
  for a lock run after the transaction that holds it. The normaliser has a state
  of its own (\<open>normalizer\<close>), as has the coalescer; their methods are programs over it. The worker's
  engine, that is the asynchronous generator it iterates, is the list of what it yields and the
  exception it ends with, if any. \<open>Hermes_Engine\<close> is such a generator: a program over the record
  \<open>engine\<close> (the world, the events yielded so far, the normaliser, and how often the stream, the cancel
  event and the clock were asked), whose result tells whether it goes on (\<open>Next\<close>), has returned or is
  still running; at each yield the consumer may change the world (\<open>x_between\<close>). Definitions carry the names of the functions they translate; where
  a function is cut into pieces the manifest gives the lines of each.

  The node of the edge protocol has a state of its own (\<open>edge_store\<close>: the identity file, the file of the
  key that encrypts its secrets, the clock, the randomness drawn), as has the centre (\<open>central\<close>: the tables
  as the session sees them and as they are committed, for \<open>get_db\<close> commits nothing by itself; the requests
  passed on). \<open>edge_world\<close> is both with the spool of the node; a request on the wire may be lost, or its
  answer (\<open>delivery\<close>).

  \<^bold>\<open>What is outside.\<close> SHA-256, HMAC, UUIDs (a stream with a counter), the clock (constant within a
  handler), \<open>json.loads\<close>, the Unicode tables, answers of HTTP services, connectors and the secret
  store are fields of \<open>env\<close>, \<open>text_env\<close>, \<open>native_env\<close>, \<open>net_env\<close>, \<open>engine_env\<close> and
  \<open>connector_env\<close> (also the secret store's file and the process environment, httpx's joining of URLs and
  redirects, the answers of the databases, and the request at which a cancellation cuts a connector off; for the edge
  protocol \<open>crypto\<close>: Ed25519, Fernet, tokens, the texts of times):
  theorems hold for all of them, or say what they need. The lines of the event stream, the cancel event and
  the clock of the engine answer by the number of times they were asked, name resolution by the number of
  requests sent. \<open>jsonb\<close> columns come back as dicts, other columns accept texts and
  NULL only. Strings are their UTF-8 bytes; regular expressions are translated by hand into matchers on
  lists of characters. Metrics and logging are left out, and so are faults of the database connection,
  NOT NULL and VARCHAR lengths.

  \<^bold>\<open>What the lemmas show.\<close>
  \<^item> \<open>Event_Log\<close>, \<open>System\<close>: the log is numbered without gap in every reachable state; finished
    runs are frozen; an event is recorded once per source id. \<open>Run_Api\<close>: polling misses nothing.
  \<^item> \<open>Worker_Laws\<close>: claiming takes the oldest run that is free and fences older attempts; what happens to runs whose runtime was
    interrupted or whose context was refused.
  \<^item> \<open>Run_Create\<close>, \<open>Run_Steps\<close>, \<open>Run_Artifacts\<close>, \<open>Run_Snapshot\<close>, \<open>Run_Control\<close>,
    \<open>Runtime_Binding\<close>, \<open>Hermes_Control\<close>, \<open>Agent_Tools\<close>, \<open>Capability\<close>: the behaviour
    of each operation, on replay, conflict and failure, and against its specification.
  \<^item> \<open>Emission\<close> and \<open>Native_Laws\<close>: an interface of relations between states and emitted events,
    interpreted for the numbering of events, the pairing of tool calls, the privacy of tool payloads and
    a client that follows the messages; \<open>Payload_Fit\<close>: how payloads are cut to size;
    \<open>Native_Props\<close>: the properties of the event stream.
  \<^item> \<open>Engine_Laws\<close>: programs whose yields follow a protocol (\<open>phased\<close>), and that the engine ends with
    one terminal event; \<open>Engine_Runs\<close>: what it sends, and how long it runs once cancelled;
    \<open>Output_Policy\<close>: what fetching outputs may send; \<open>Engine_Props\<close>: the properties of the engine.
  \<^item> \<open>Connector_Laws\<close>: which hosts a connector reaches, and that a port's execution has one terminal event;
    \<open>Connector_Props\<close>: the properties of the connectors and the engine port.
  \<^item> \<open>Edge_Laws\<close>: what a node remembers of the commands it took, through every operation of its channel;
    \<open>Central_Laws\<close>: that the centre's marks of the requests it accepted only grow, and what is needed of a
    request to be accepted; \<open>Edge_Exchange\<close>: what either side makes of what the other sends;
    \<open>Edge_Props\<close>: the properties of the protocol, evaluated on the exchange of \<open>Edge_Witness\<close>. Where
    signatures have to verify and texts of times have to be read back, this is the hypothesis
    \<open>sound_crypto\<close>.
  \<^item> \<open>Key_Names\<close> and \<open>Internal_Networks\<close> hold what the properties on privacy and on addresses are stated in,
    in words of their own and not in those of the checks of the code: what a key mentions, and which
    networks are internal.
  \<^item> Where a locale states an interface (\<open>guarantee\<close>, the storage port, the emission laws), it is
    interpreted on the definitions of the component that provides it.

  \<^bold>\<open>Loops and bounds.\<close> Loops over lists are recursive functions; loops that empty a buffer or a list of
  open calls have termination proofs with a measure (\<open>drain_oversize\<close>, \<open>split_loop\<close>,
  \<open>close_tools\<close>). The two unbounded loops of the engine (\<open>stream_loop\<close>, \<open>wait_loop\<close>) take fuel, one
  unit for each round; without fuel the engine is still \<open>Running\<close>, and what it has yielded is a prefix of
  the execution. \<open>cancelled_run_stops\<close> says how much is enough once the run is cancelled; without a
  cancellation no bound exists, since the code polls as long as the runtime says it is running. A connector's HTTP client
  follows redirects with a fuel of 21 requests, httpx's own limit (one request and 20 redirects). Python integers do not overflow and are HOL's \<open>int\<close> or \<open>nat\<close>.

  \<^bold>\<open>Not modelled.\<close> Of the edge worker the execution of a job, the transfer of artifacts and installations
  (with the skill installer: bundles unpacked into directories); the ACP gateway (a connection to a subprocess
  driven by a third-party library), the S3 client, application wiring; the rest of the backend, and the other
  services of the repository (task and knowledge service, proxies, portal), whose code the agent only meets
  through HTTP.
\<close>

end
